(* ===== verification/Hcan_Prelude.thy ===== *)
theory Hcan_Prelude
  imports Main "HOL-Library.Word" "HOL-Library.More_List" "HOL-Library.Signed_Division"
begin

text \<open>
  What the components share: the fixed-width types of the C code, the HCAN frame
  (\<^verbatim>\<open>canix_frame\<close> of \<^verbatim>\<open>src/canix/canix.h\<close>), the observable
  effects of a device handler and the sequencing of handler parts, and the generic lemmas
  and collections that carry the component proofs.
\<close>

unbundle bit_operations_syntax

section \<open>Machine types\<close>

type_synonym u8 = "8 word"
type_synonym u16 = "16 word"
type_synonym u32 = "32 word"

text \<open>
  Collections. \<open>handler_defs\<close> holds the unfolding equations of the handlers' parts,
  \<open>frame_simps\<close> what the frame builders compute, \<open>inv_intros\<close> the preservation
  lemmas of the operations.
\<close>

named_theorems handler_defs "unfolding equations of handler parts"
named_theorems frame_simps "fields of the frames the code builds"
named_theorems inv_intros "preservation of component invariants"

text \<open>A bit test as C writes it: \<^verbatim>\<open>x & (1 << n)\<close> as a condition.\<close>

definition test_bit :: "u8 \<Rightarrow> nat \<Rightarrow> bool" where
  "test_bit x n = bit x n"

text \<open>High and low byte of a 16-bit value, as the handlers put them into frames.\<close>

definition hi8 :: "u16 \<Rightarrow> u8" where
  "hi8 w = ucast (drop_bit 8 w)"

definition lo8 :: "u16 \<Rightarrow> u8" where
  "lo8 w = ucast w"

text \<open>\<^verbatim>\<open>(hi << 8) | lo\<close>, as the handlers read a 16-bit value from a frame.\<close>

definition mk16 :: "u8 \<Rightarrow> u8 \<Rightarrow> u16" where
  "mk16 h l = push_bit 8 (ucast h) OR ucast l"

lemma hi8_mk16 [simp]: "hi8 (mk16 h l) = h"
  by (rule bit_word_eqI) (auto simp: hi8_def mk16_def bit_simps dest: bit_imp_le_length)

lemma lo8_mk16 [simp]: "lo8 (mk16 h l) = l"
  by (rule bit_word_eqI) (simp add: lo8_def mk16_def bit_simps)

lemma mk16_hi8_lo8 [simp]: "mk16 (hi8 w) (lo8 w) = w"
  by (rule bit_word_eqI) (auto simp: hi8_def lo8_def mk16_def bit_simps)

section \<open>Frames\<close>

text \<open>
  \<^verbatim>\<open>canix_frame\<close>. A received frame carries the whole eight byte buffer; a
  frame the code builds carries the bytes it has written, as many as its
  \<^verbatim>\<open>size\<close> field says (the rest of the C buffer is indeterminate, as
  \<^verbatim>\<open>canix.h\<close> says).
\<close>

record canix_frame =
  src :: u16
  dst :: u16
  proto :: u8
  fsize :: u8
  data :: "u8 list"

definition byte_at :: "canix_frame \<Rightarrow> nat \<Rightarrow> u8" where
  "byte_at f i = nth_default 0 (data f) i"

text \<open>A received frame: the buffer has its eight bytes.\<close>

definition full_frame :: "canix_frame \<Rightarrow> bool" where
  "full_frame f \<longleftrightarrow> length (data f) = 8"

text \<open>A frame that can be handed to the CAN controller: \<^verbatim>\<open>size\<close> bytes, at most 8.\<close>

definition sendable_frame :: "canix_frame \<Rightarrow> bool" where
  "sendable_frame f \<longleftrightarrow> unat (fsize f) = length (data f) \<and> length (data f) \<le> 8"

definition mk_frame :: "u16 \<Rightarrow> u16 \<Rightarrow> u8 \<Rightarrow> u8 list \<Rightarrow> canix_frame" where
  "mk_frame s d pr bs = \<lparr>src = s, dst = d, proto = pr, fsize = of_nat (length bs), data = bs\<rparr>"

lemma mk_frame_sel [simp, frame_simps]:
  "src (mk_frame s d pr bs) = s" "dst (mk_frame s d pr bs) = d"
  "proto (mk_frame s d pr bs) = pr" "data (mk_frame s d pr bs) = bs"
  "fsize (mk_frame s d pr bs) = of_nat (length bs)"
  by (simp_all add: mk_frame_def)

lemma byte_at_mk_frame [simp]: "byte_at (mk_frame s d pr bs) i = nth_default 0 bs i"
  by (simp add: byte_at_def)

lemma mk_frame_eq_iff [simp]:
  "mk_frame s d pr bs = mk_frame s' d' pr' bs' \<longleftrightarrow> s = s' \<and> d = d' \<and> pr = pr' \<and> bs = bs'"
  by (auto simp: mk_frame_def)

lemma sendable_mk_frame [simp]: "sendable_frame (mk_frame s d pr bs) \<longleftrightarrow> length bs \<le> 8"
  by (auto simp: sendable_frame_def unat_of_nat)

lemma nth_default_numeral [simp]:
  "nth_default d (x # xs) (numeral n) = nth_default d xs (pred_numeral n)"
  "nth_default d (x # xs) 1 = nth_default d xs 0"
  by (simp_all add: nth_default_def numeral_eq_Suc)

section \<open>Effects of a handler\<close>

text \<open>
  The effects a device handler has besides its own state, in the order the code performs
  them: a frame given to \<^verbatim>\<open>canix_frame_send_with_prio\<close>, an output switched
  with \<^verbatim>\<open>darlingtonoutput_setpin\<close>, a pause with
  \<^verbatim>\<open>canix_sleep_100th\<close>, a byte written to the EEPROM.
\<close>

datatype out = Send u8 canix_frame | SetPin u8 bool | Sleep u8 | EepromWrite nat u8

text \<open>Sequencing of two parts of a handler; the effects are appended.\<close>

definition andthen :: "'d \<times> out list \<Rightarrow> ('d \<Rightarrow> 'd \<times> out list) \<Rightarrow> 'd \<times> out list" where
  "andthen r k = (let r' = k (fst r) in (fst r', snd r @ snd r'))"

lemma fst_andthen [simp]: "fst (andthen r k) = fst (k (fst r))"
  by (simp add: andthen_def Let_def)

lemma snd_andthen [simp]: "snd (andthen r k) = snd r @ snd (k (fst r))"
  by (simp add: andthen_def Let_def)

lemma andthen_pair [simp]: "andthen (d, os) k = (fst (k d), os @ snd (k d))"
  by (simp add: andthen_def Let_def)

text \<open>The frames among the effects.\<close>

fun sent_frames :: "out list \<Rightarrow> canix_frame list" where
  "sent_frames [] = []"
| "sent_frames (Send pr f # os) = f # sent_frames os"
| "sent_frames (SetPin n b # os) = sent_frames os"
| "sent_frames (Sleep n # os) = sent_frames os"
| "sent_frames (EepromWrite a b # os) = sent_frames os"

lemma sent_frames_append [simp]: "sent_frames (xs @ ys) = sent_frames xs @ sent_frames ys"
  by (induction xs rule: sent_frames.induct) auto

lemma sent_frames_if [simp]:
  "sent_frames (if b then xs else ys) = (if b then sent_frames xs else sent_frames ys)"
  by simp

lemma in_sent_frames: "f \<in> set (sent_frames os) \<longleftrightarrow> (\<exists>pr. Send pr f \<in> set os)"
  by (induction os rule: sent_frames.induct) auto

text \<open>The output pins as a map; \<open>apply_pins\<close> performs the pin writes among the effects.\<close>

fun apply_pins :: "(u8 \<Rightarrow> bool) \<Rightarrow> out list \<Rightarrow> (u8 \<Rightarrow> bool)" where
  "apply_pins pins [] = pins"
| "apply_pins pins (SetPin n b # os) = apply_pins (pins(n := b)) os"
| "apply_pins pins (Send pr f # os) = apply_pins pins os"
| "apply_pins pins (Sleep n # os) = apply_pins pins os"
| "apply_pins pins (EepromWrite a b # os) = apply_pins pins os"

lemma apply_pins_append [simp]: "apply_pins pins (xs @ ys) = apply_pins (apply_pins pins xs) ys"
proof (induction xs arbitrary: pins)
  case (Cons a xs)
  then show ?case by (cases a) (simp_all add: fun_upd_def)
qed simp

text \<open>The EEPROM after the byte writes among the effects.\<close>

fun apply_eeprom :: "(nat \<Rightarrow> u8) \<Rightarrow> out list \<Rightarrow> (nat \<Rightarrow> u8)" where
  "apply_eeprom m [] = m"
| "apply_eeprom m (EepromWrite a b # os) = apply_eeprom (m(a := b)) os"
| "apply_eeprom m (Send pr f # os) = apply_eeprom m os"
| "apply_eeprom m (SetPin n b # os) = apply_eeprom m os"
| "apply_eeprom m (Sleep n # os) = apply_eeprom m os"

lemma apply_eeprom_append [simp]:
  "apply_eeprom m (xs @ ys) = apply_eeprom (apply_eeprom m xs) ys"
proof (induction xs arbitrary: m)
  case (Cons a xs)
  then show ?case by (cases a) (simp_all add: fun_upd_def)
qed simp

section \<open>Runs of a device\<close>

text \<open>
  The generated dispatcher (template \<^verbatim>\<open>mk_devices_c.xsl\<close>) calls two entry
  points of a device: \<^verbatim>\<open>X_can_callback\<close> for a frame and
  \<^verbatim>\<open>X_timer_handler\<close> with the cycle 100, 10 or 1. Each event carries the
  environment the handler reads (own address, clock, inputs, zones).
\<close>

datatype dev_event = Frame canix_frame | Tick u8

fun dev_step ::
  "('e \<Rightarrow> 'd \<Rightarrow> canix_frame \<Rightarrow> 'd \<times> out list) \<Rightarrow> ('e \<Rightarrow> 'd \<Rightarrow> u8 \<Rightarrow> 'd \<times> out list) \<Rightarrow>
   'e \<Rightarrow> 'd \<Rightarrow> dev_event \<Rightarrow> 'd \<times> out list" where
  "dev_step cb tm e p (Frame f) = cb e p f"
| "dev_step cb tm e p (Tick z) = tm e p z"

fun dev_run ::
  "('e \<Rightarrow> 'd \<Rightarrow> canix_frame \<Rightarrow> 'd \<times> out list) \<Rightarrow> ('e \<Rightarrow> 'd \<Rightarrow> u8 \<Rightarrow> 'd \<times> out list) \<Rightarrow>
   'd \<Rightarrow> ('e \<times> dev_event) list \<Rightarrow> 'd \<times> out list" where
  "dev_run cb tm p [] = (p, [])"
| "dev_run cb tm p (ev # evs) =
     andthen (dev_step cb tm (fst ev) p (snd ev)) (\<lambda>p'. dev_run cb tm p' evs)"

lemma dev_run_append:
  "dev_run cb tm p (xs @ ys) = andthen (dev_run cb tm p xs) (\<lambda>p'. dev_run cb tm p' ys)"
  by (induction xs arbitrary: p) (auto simp: andthen_def Let_def)

section \<open>Bounds on words\<close>

lemma unat_u8_less [simp]: "unat (w :: u8) < 256"
  using unsigned_less [of w] by simp

lemma unat_u8_le [simp]: "unat (w :: u8) \<le> 255"
  using unat_u8_less [of w] by linarith

lemma unat_u8_max: "\<not> unat (w :: u8) < 255 \<Longrightarrow> unat w = 255"
  using unat_u8_less [of w] by linarith

lemma unat_u16_less [simp]: "unat (w :: u16) < 65536"
  using unsigned_less [of w] by simp

lemma unat_ucast_u16 [simp]: "unat (ucast (w :: u8) :: u16) = unat w"
  by (simp add: unsigned_ucast_eq take_bit_nat_eq_self less_trans [OF unat_u8_less])

lemma unat_of_nat_u8 [simp]: "n < 256 \<Longrightarrow> unat (of_nat n :: u8) = n"
  by (simp add: unat_of_nat)

lemma unat_of_nat_u16 [simp]: "n < 65536 \<Longrightarrow> unat (of_nat n :: u16) = n"
  by (simp add: unat_of_nat)

lemma unat_dec: "(w :: 'a::len word) \<noteq> 0 \<Longrightarrow> unat (w - 1) = unat w - 1"
  using unat_minus_one by blast

lemma unat_inc_u8: "unat (w :: u8) < 255 \<Longrightarrow> unat (w + 1) = Suc (unat w)"
  by (simp add: unat_word_ariths)

lemma unat_inc_u16: "unat (w :: u16) < 65535 \<Longrightarrow> unat (w + 1) = Suc (unat w)"
  by (simp add: unat_word_ariths)

lemma inc_u8_eq_numeral:
  "unat (w :: u8) < 255 \<Longrightarrow> (w + 1 = v) = (Suc (unat w) = unat v)"
  by (metis unat_inc_u8 word_unat_eq_iff)

text \<open>Two's complement reading of a 16-bit word.\<close>

lemma sint_u16: "sint (w :: u16) = (if uint w < 32768 then uint w else uint w - 65536)"
proof -
  have u: "0 \<le> uint w" "uint w < 65536"
    using uint_lt2p [of w] by simp_all
  have "sint w = (uint w + 32768) mod 65536 - 32768"
    by (simp add: sint_uint signed_take_bit_eq_take_bit_shift take_bit_eq_mod)
  also have "(uint w + 32768) mod 65536 = (if uint w < 32768 then uint w + 32768 else uint w - 32768)"
  proof (cases "uint w < 32768")
    case True
    with u show ?thesis by simp
  next
    case False
    have "uint w + 32768 = uint w - 32768 + 65536" by simp
    then have "(uint w + 32768) mod 65536 = (uint w - 32768 + 65536) mod 65536" by (rule arg_cong)
    also have "\<dots> = (uint w - 32768) mod 65536" by (rule mod_add_self2)
    also have "\<dots> = uint w - 32768" using u False by (intro mod_pos_pos_trivial) auto
    finally show ?thesis using False by simp
  qed
  finally show ?thesis by simp
qed

lemma word_gt0_unat: "(w :: 'a::len word) \<noteq> 0 \<longleftrightarrow> 0 < unat w"
  by (simp add: unat_gt_0)

end
