(* ===== verification/Hcan_Protocol.thy ===== *)
theory Hcan_Protocol
  imports Hcan_Prelude
begin

text \<open>
  The protocol's constants: the services and the multicast addresses of
  \<^verbatim>\<open>src/include/hcan.h\<close> and \<^verbatim>\<open>hcan_multicast.h\<close>, the EEPROM
  layout of \<^verbatim>\<open>hcan_eeprom.h\<close>, and the message ids of
  \<^verbatim>\<open>src/xml/hcan-protocol.xml\<close>, from which the build makes
  \<^verbatim>\<open>hcan-def.h\<close> (\<^verbatim>\<open>HCAN_\<close> service \<^verbatim>\<open>_\<close> message,
  see \<^verbatim>\<open>mk_hcan-def_h.xsl\<close>).
\<close>

section \<open>Protocols, services, addresses, priorities\<close>

abbreviation (input) HCAN_PROTO_SFP :: u8 where "HCAN_PROTO_SFP \<equiv> 1"
abbreviation (input) HCAN_PROTO_SYSLOG :: u8 where "HCAN_PROTO_SYSLOG \<equiv> 3"

abbreviation (input) HCAN_SRV_HMS :: u8 where "HCAN_SRV_HMS \<equiv> 1"
abbreviation (input) HCAN_SRV_SLS :: u8 where "HCAN_SRV_SLS \<equiv> 4"
abbreviation (input) HCAN_SRV_HES :: u8 where "HCAN_SRV_HES \<equiv> 5"
abbreviation (input) HCAN_SRV_RTS :: u8 where "HCAN_SRV_RTS \<equiv> 6"
abbreviation (input) HCAN_SRV_EDS :: u8 where "HCAN_SRV_EDS \<equiv> 7"
abbreviation (input) HCAN_SRV_USVS :: u8 where "HCAN_SRV_USVS \<equiv> 8"

abbreviation (input) HCAN_MULTICAST_CONTROL :: u16 where "HCAN_MULTICAST_CONTROL \<equiv> 35"
abbreviation (input) HCAN_MULTICAST_INFO :: u16 where "HCAN_MULTICAST_INFO \<equiv> 36"
abbreviation (input) HCAN_MULTICAST_SYSLOG :: u16 where "HCAN_MULTICAST_SYSLOG \<equiv> 970"

abbreviation (input) HCAN_PRIO_LOW :: u8 where "HCAN_PRIO_LOW \<equiv> 3"
abbreviation (input) HCAN_PRIO_HI :: u8 where "HCAN_PRIO_HI \<equiv> 0"

abbreviation (input) EEPR_APP_START :: nat where "EEPR_APP_START \<equiv> 0"
abbreviation (input) EEPR_SELF_ADDR :: nat where "EEPR_SELF_ADDR \<equiv> 2"
abbreviation (input) EEPR_BOARD_TYPE :: nat where "EEPR_BOARD_TYPE \<equiv> 4"
abbreviation (input) EEPR_DEBUG_LEVEL :: nat where "EEPR_DEBUG_LEVEL \<equiv> 5"

abbreviation (input) HCAN_HMS_DEV_STATE_APPLICATION :: u8 where "HCAN_HMS_DEV_STATE_APPLICATION \<equiv> 2"

section \<open>Messages\<close>

subsection \<open>Service HMS\<close>

abbreviation (input) HCAN_HMS_PING_REQUEST :: u8 where "HCAN_HMS_PING_REQUEST \<equiv> 1"
abbreviation (input) HCAN_HMS_PING_REPLAY :: u8 where "HCAN_HMS_PING_REPLAY \<equiv> 2"
abbreviation (input) HCAN_HMS_DEVICE_STATE_REQUEST :: u8 where "HCAN_HMS_DEVICE_STATE_REQUEST \<equiv> 3"
abbreviation (input) HCAN_HMS_DEVICE_STATE_REPLAY :: u8 where "HCAN_HMS_DEVICE_STATE_REPLAY \<equiv> 4"
abbreviation (input) HCAN_HMS_DEVICE_RESET :: u8 where "HCAN_HMS_DEVICE_RESET \<equiv> 5"
abbreviation (input) HCAN_HMS_DEVICE_BOOT_STOP :: u8 where "HCAN_HMS_DEVICE_BOOT_STOP \<equiv> 6"
abbreviation (input) HCAN_HMS_DEVICE_BOOT_STOP_ACK :: u8 where "HCAN_HMS_DEVICE_BOOT_STOP_ACK \<equiv> 7"
abbreviation (input) HCAN_HMS_DEVICE_LOAD_APP :: u8 where "HCAN_HMS_DEVICE_LOAD_APP \<equiv> 8"
abbreviation (input) HCAN_HMS_DEVICE_TYPE_REQUEST :: u8 where "HCAN_HMS_DEVICE_TYPE_REQUEST \<equiv> 9"
abbreviation (input) HCAN_HMS_DEVICE_TYPE_REPLAY :: u8 where "HCAN_HMS_DEVICE_TYPE_REPLAY \<equiv> 10"
abbreviation (input) HCAN_HMS_FLASH_BUFFER_FILL :: u8 where "HCAN_HMS_FLASH_BUFFER_FILL \<equiv> 16"
abbreviation (input) HCAN_HMS_FLASH_BUFFER_FILL_ACK :: u8 where "HCAN_HMS_FLASH_BUFFER_FILL_ACK \<equiv> 17"
abbreviation (input) HCAN_HMS_FLASH_BUFFER_WRITE :: u8 where "HCAN_HMS_FLASH_BUFFER_WRITE \<equiv> 18"
abbreviation (input) HCAN_HMS_FLASH_BUFFER_WRITE_ACK :: u8 where "HCAN_HMS_FLASH_BUFFER_WRITE_ACK \<equiv> 19"
abbreviation (input) HCAN_HMS_INTERNAL_EEPROM_WRITE :: u8 where "HCAN_HMS_INTERNAL_EEPROM_WRITE \<equiv> 20"
abbreviation (input) HCAN_HMS_INTERNAL_EEPROM_WRITE_ACK :: u8 where "HCAN_HMS_INTERNAL_EEPROM_WRITE_ACK \<equiv> 21"
abbreviation (input) HCAN_HMS_INTERNAL_EEPROM_READ_REQUEST :: u8 where "HCAN_HMS_INTERNAL_EEPROM_READ_REQUEST \<equiv> 22"
abbreviation (input) HCAN_HMS_INTERNAL_EEPROM_READ_REPLAY :: u8 where "HCAN_HMS_INTERNAL_EEPROM_READ_REPLAY \<equiv> 23"
abbreviation (input) HCAN_HMS_INTERNAL_EEPROM_READ_BULK_REQUEST :: u8 where "HCAN_HMS_INTERNAL_EEPROM_READ_BULK_REQUEST \<equiv> 24"
abbreviation (input) HCAN_HMS_INTERNAL_EEPROM_READ_BULK_REPLAY :: u8 where "HCAN_HMS_INTERNAL_EEPROM_READ_BULK_REPLAY \<equiv> 25"
abbreviation (input) HCAN_HMS_UPTIME_QUERY :: u8 where "HCAN_HMS_UPTIME_QUERY \<equiv> 30"
abbreviation (input) HCAN_HMS_UPTIME_REPLAY :: u8 where "HCAN_HMS_UPTIME_REPLAY \<equiv> 31"
abbreviation (input) HCAN_HMS_SYSLOG_LEVEL_SET :: u8 where "HCAN_HMS_SYSLOG_LEVEL_SET \<equiv> 32"
abbreviation (input) HCAN_HMS_BUILD_VERSION_QUERY :: u8 where "HCAN_HMS_BUILD_VERSION_QUERY \<equiv> 33"
abbreviation (input) HCAN_HMS_BUILD_VERSION_REPLAY :: u8 where "HCAN_HMS_BUILD_VERSION_REPLAY \<equiv> 34"
abbreviation (input) HCAN_HMS_CAN_EC_QUERY :: u8 where "HCAN_HMS_CAN_EC_QUERY \<equiv> 35"
abbreviation (input) HCAN_HMS_CAN_EC_REPLAY :: u8 where "HCAN_HMS_CAN_EC_REPLAY \<equiv> 36"
abbreviation (input) HCAN_HMS_FLASH_CRC16_QUERY :: u8 where "HCAN_HMS_FLASH_CRC16_QUERY \<equiv> 37"
abbreviation (input) HCAN_HMS_FLASH_CRC16_REPLAY :: u8 where "HCAN_HMS_FLASH_CRC16_REPLAY \<equiv> 38"
abbreviation (input) HCAN_HMS_LOOP_THROUGHPUT_QUERY :: u8 where "HCAN_HMS_LOOP_THROUGHPUT_QUERY \<equiv> 39"
abbreviation (input) HCAN_HMS_LOOP_THROUGHPUT_REPLAY :: u8 where "HCAN_HMS_LOOP_THROUGHPUT_REPLAY \<equiv> 40"
abbreviation (input) HCAN_HMS_RX_RECEIVED_QUERY :: u8 where "HCAN_HMS_RX_RECEIVED_QUERY \<equiv> 41"
abbreviation (input) HCAN_HMS_RX_RECEIVED_REPLAY :: u8 where "HCAN_HMS_RX_RECEIVED_REPLAY \<equiv> 42"
abbreviation (input) HCAN_HMS_RX_LOST_QUERY :: u8 where "HCAN_HMS_RX_LOST_QUERY \<equiv> 43"
abbreviation (input) HCAN_HMS_RX_LOST_REPLAY :: u8 where "HCAN_HMS_RX_LOST_REPLAY \<equiv> 44"
abbreviation (input) HCAN_HMS_TX_SENT_QUERY :: u8 where "HCAN_HMS_TX_SENT_QUERY \<equiv> 45"
abbreviation (input) HCAN_HMS_TX_SENT_REPLAY :: u8 where "HCAN_HMS_TX_SENT_REPLAY \<equiv> 46"
abbreviation (input) HCAN_HMS_TX_DROPPED_QUERY :: u8 where "HCAN_HMS_TX_DROPPED_QUERY \<equiv> 47"
abbreviation (input) HCAN_HMS_TX_DROPPED_REPLAY :: u8 where "HCAN_HMS_TX_DROPPED_REPLAY \<equiv> 48"
abbreviation (input) HCAN_HMS_RX_TX_STATS_RESET :: u8 where "HCAN_HMS_RX_TX_STATS_RESET \<equiv> 49"

subsection \<open>Service SLS\<close>

abbreviation (input) HCAN_SLS_BOOT_RESETFLAG_LOG :: u8 where "HCAN_SLS_BOOT_RESETFLAG_LOG \<equiv> 1"
abbreviation (input) HCAN_SLS_FIRMWARE_CRC16_ERROR :: u8 where "HCAN_SLS_FIRMWARE_CRC16_ERROR \<equiv> 2"
abbreviation (input) HCAN_SLS_FIRMWARE_CONFIG_COMPAT_ERROR :: u8 where "HCAN_SLS_FIRMWARE_CONFIG_COMPAT_ERROR \<equiv> 3"
abbreviation (input) HCAN_SLS_DUMP_DEBUG_INFO :: u8 where "HCAN_SLS_DUMP_DEBUG_INFO \<equiv> 4"

subsection \<open>Service HES\<close>

abbreviation (input) HCAN_HES_TASTER_DOWN :: u8 where "HCAN_HES_TASTER_DOWN \<equiv> 1"
abbreviation (input) HCAN_HES_TASTER_UP :: u8 where "HCAN_HES_TASTER_UP \<equiv> 2"
abbreviation (input) HCAN_HES_BOARD_ACTIVE :: u8 where "HCAN_HES_BOARD_ACTIVE \<equiv> 4"
abbreviation (input) HCAN_HES_POWER_GROUP_ON :: u8 where "HCAN_HES_POWER_GROUP_ON \<equiv> 10"
abbreviation (input) HCAN_HES_POWER_GROUP_OFF :: u8 where "HCAN_HES_POWER_GROUP_OFF \<equiv> 11"
abbreviation (input) HCAN_HES_POWER_GROUP_STATE_QUERY :: u8 where "HCAN_HES_POWER_GROUP_STATE_QUERY \<equiv> 12"
abbreviation (input) HCAN_HES_POWER_GROUP_STATE_REPLAY :: u8 where "HCAN_HES_POWER_GROUP_STATE_REPLAY \<equiv> 13"
abbreviation (input) HCAN_HES_POWER_GROUP_TIMER_QUERY :: u8 where "HCAN_HES_POWER_GROUP_TIMER_QUERY \<equiv> 14"
abbreviation (input) HCAN_HES_POWER_GROUP_TIMER_REPLAY :: u8 where "HCAN_HES_POWER_GROUP_TIMER_REPLAY \<equiv> 15"
abbreviation (input) HCAN_HES_POWER_GROUP_SET_TIMER :: u8 where "HCAN_HES_POWER_GROUP_SET_TIMER \<equiv> 16"
abbreviation (input) HCAN_HES_POWER_GROUP_STATE_INFO :: u8 where "HCAN_HES_POWER_GROUP_STATE_INFO \<equiv> 17"
abbreviation (input) HCAN_HES_ROLLADEN_POSITION_SET :: u8 where "HCAN_HES_ROLLADEN_POSITION_SET \<equiv> 20"
abbreviation (input) HCAN_HES_ROLLADEN_POSITION_REQUEST :: u8 where "HCAN_HES_ROLLADEN_POSITION_REQUEST \<equiv> 21"
abbreviation (input) HCAN_HES_ROLLADEN_POSITION_REPLAY :: u8 where "HCAN_HES_ROLLADEN_POSITION_REPLAY \<equiv> 22"
abbreviation (input) HCAN_HES_ROLLADEN_DEFINE_POSITION :: u8 where "HCAN_HES_ROLLADEN_DEFINE_POSITION \<equiv> 23"
abbreviation (input) HCAN_HES_ROLLADEN_POSITION_CHANGED_INFO :: u8 where "HCAN_HES_ROLLADEN_POSITION_CHANGED_INFO \<equiv> 24"
abbreviation (input) HCAN_HES_SCHALTER_ON :: u8 where "HCAN_HES_SCHALTER_ON \<equiv> 25"
abbreviation (input) HCAN_HES_SCHALTER_OFF :: u8 where "HCAN_HES_SCHALTER_OFF \<equiv> 26"
abbreviation (input) HCAN_HES_MUTE_ON :: u8 where "HCAN_HES_MUTE_ON \<equiv> 27"
abbreviation (input) HCAN_HES_MUTE_OFF :: u8 where "HCAN_HES_MUTE_OFF \<equiv> 28"
abbreviation (input) HCAN_HES_1WIRE_DISCOVER :: u8 where "HCAN_HES_1WIRE_DISCOVER \<equiv> 30"
abbreviation (input) HCAN_HES_1WIRE_DISCOVERED_PART_1 :: u8 where "HCAN_HES_1WIRE_DISCOVERED_PART_1 \<equiv> 31"
abbreviation (input) HCAN_HES_1WIRE_DISCOVERED_PART_2 :: u8 where "HCAN_HES_1WIRE_DISCOVERED_PART_2 \<equiv> 32"
abbreviation (input) HCAN_HES_1WIRE_ERROR :: u8 where "HCAN_HES_1WIRE_ERROR \<equiv> 33"
abbreviation (input) HCAN_HES_1WIRE_TEMPERATURE :: u8 where "HCAN_HES_1WIRE_TEMPERATURE \<equiv> 34"
abbreviation (input) HCAN_HES_1WIRE_TEMPERATURE_QUERY :: u8 where "HCAN_HES_1WIRE_TEMPERATURE_QUERY \<equiv> 35"
abbreviation (input) HCAN_HES_1WIRE_TEMPERATURE_REPLAY :: u8 where "HCAN_HES_1WIRE_TEMPERATURE_REPLAY \<equiv> 36"
abbreviation (input) HCAN_HES_REEDKONTAKT_OFFEN :: u8 where "HCAN_HES_REEDKONTAKT_OFFEN \<equiv> 40"
abbreviation (input) HCAN_HES_REEDKONTAKT_STATE_QUERY :: u8 where "HCAN_HES_REEDKONTAKT_STATE_QUERY \<equiv> 41"
abbreviation (input) HCAN_HES_REEDKONTAKT_STATE_REPLAY :: u8 where "HCAN_HES_REEDKONTAKT_STATE_REPLAY \<equiv> 42"
abbreviation (input) HCAN_HES_REEDKONTAKT_STATE_CHANGE :: u8 where "HCAN_HES_REEDKONTAKT_STATE_CHANGE \<equiv> 43"
abbreviation (input) HCAN_HES_PVSENSOR_STATE_REQUEST :: u8 where "HCAN_HES_PVSENSOR_STATE_REQUEST \<equiv> 44"
abbreviation (input) HCAN_HES_PVSENSOR_STATE_REPLAY :: u8 where "HCAN_HES_PVSENSOR_STATE_REPLAY \<equiv> 45"
abbreviation (input) HCAN_HES_PVSENSOR_STATE_CHANGE_INFO :: u8 where "HCAN_HES_PVSENSOR_STATE_CHANGE_INFO \<equiv> 46"
abbreviation (input) HCAN_HES_HEIZUNG_DETAILS_REQUEST :: u8 where "HCAN_HES_HEIZUNG_DETAILS_REQUEST \<equiv> 50"
abbreviation (input) HCAN_HES_HEIZUNG_MODE_OFF_DETAILS :: u8 where "HCAN_HES_HEIZUNG_MODE_OFF_DETAILS \<equiv> 51"
abbreviation (input) HCAN_HES_HEIZUNG_SET_MODE_OFF :: u8 where "HCAN_HES_HEIZUNG_SET_MODE_OFF \<equiv> 52"
abbreviation (input) HCAN_HES_HEIZUNG_MODE_MANUAL_DETAILS :: u8 where "HCAN_HES_HEIZUNG_MODE_MANUAL_DETAILS \<equiv> 53"
abbreviation (input) HCAN_HES_HEIZUNG_SET_MODE_MANUAL :: u8 where "HCAN_HES_HEIZUNG_SET_MODE_MANUAL \<equiv> 54"
abbreviation (input) HCAN_HES_HEIZUNG_MODE_THERMOSTAT_DETAILS :: u8 where "HCAN_HES_HEIZUNG_MODE_THERMOSTAT_DETAILS \<equiv> 55"
abbreviation (input) HCAN_HES_HEIZUNG_SET_MODE_THERMOSTAT_DETAILS :: u8 where "HCAN_HES_HEIZUNG_SET_MODE_THERMOSTAT_DETAILS \<equiv> 56"
abbreviation (input) HCAN_HES_HEIZUNG_MODE_AUTOMATIK_DETAILS :: u8 where "HCAN_HES_HEIZUNG_MODE_AUTOMATIK_DETAILS \<equiv> 57"
abbreviation (input) HCAN_HES_HEIZUNG_SET_MODE_AUTOMATIK :: u8 where "HCAN_HES_HEIZUNG_SET_MODE_AUTOMATIK \<equiv> 58"
abbreviation (input) HCAN_HES_HEIZUNG_TIST_REQUEST :: u8 where "HCAN_HES_HEIZUNG_TIST_REQUEST \<equiv> 59"
abbreviation (input) HCAN_HES_HEIZUNG_TIST_REPLAY :: u8 where "HCAN_HES_HEIZUNG_TIST_REPLAY \<equiv> 60"
abbreviation (input) HCAN_HES_HEIZUNG_WAERMEBEDARF_INFO :: u8 where "HCAN_HES_HEIZUNG_WAERMEBEDARF_INFO \<equiv> 61"
abbreviation (input) HCAN_HES_HEIZSTEUERUNG_STATE_REQUEST :: u8 where "HCAN_HES_HEIZSTEUERUNG_STATE_REQUEST \<equiv> 62"
abbreviation (input) HCAN_HES_HEIZSTEUERUNG_STATE_REPLAY :: u8 where "HCAN_HES_HEIZSTEUERUNG_STATE_REPLAY \<equiv> 63"
abbreviation (input) HCAN_HES_HEIZSTEUERUNG_STATE_INFO :: u8 where "HCAN_HES_HEIZSTEUERUNG_STATE_INFO \<equiv> 64"
abbreviation (input) HCAN_HES_HEIZSTEUERUNG_SET_VL :: u8 where "HCAN_HES_HEIZSTEUERUNG_SET_VL \<equiv> 65"
abbreviation (input) HCAN_HES_HEIZUNG_SOLLTEMP_LINE_REQUEST :: u8 where "HCAN_HES_HEIZUNG_SOLLTEMP_LINE_REQUEST \<equiv> 66"
abbreviation (input) HCAN_HES_HEIZUNG_SOLLTEMP_LINE_REPLAY :: u8 where "HCAN_HES_HEIZUNG_SOLLTEMP_LINE_REPLAY \<equiv> 67"
abbreviation (input) HCAN_HES_HEIZUNG_SOLLTEMP_WRITE_LINE :: u8 where "HCAN_HES_HEIZUNG_SOLLTEMP_WRITE_LINE \<equiv> 68"
abbreviation (input) HCAN_HES_HEIZUNG_SOLLTEMP_WRITE_LINE_ACK :: u8 where "HCAN_HES_HEIZUNG_SOLLTEMP_WRITE_LINE_ACK \<equiv> 69"
abbreviation (input) HCAN_HES_POTI_POS_CHANGED :: u8 where "HCAN_HES_POTI_POS_CHANGED \<equiv> 70"
abbreviation (input) HCAN_HES_HELLIGKEITS_INFO :: u8 where "HCAN_HES_HELLIGKEITS_INFO \<equiv> 71"
abbreviation (input) HCAN_HES_WECKER_SET :: u8 where "HCAN_HES_WECKER_SET \<equiv> 72"
abbreviation (input) HCAN_HES_WECKER_DETAILS_REQUEST :: u8 where "HCAN_HES_WECKER_DETAILS_REQUEST \<equiv> 73"
abbreviation (input) HCAN_HES_WECKER_DETAILS :: u8 where "HCAN_HES_WECKER_DETAILS \<equiv> 74"
abbreviation (input) HCAN_HES_DEVICE_STATES_REQUEST :: u8 where "HCAN_HES_DEVICE_STATES_REQUEST \<equiv> 75"
abbreviation (input) HCAN_HES_DEVICES_CONFIGS_REQUEST :: u8 where "HCAN_HES_DEVICES_CONFIGS_REQUEST \<equiv> 76"
abbreviation (input) HCAN_HES_POWER_GROUP_CONFIG_RQ :: u8 where "HCAN_HES_POWER_GROUP_CONFIG_RQ \<equiv> 77"
abbreviation (input) HCAN_HES_POWER_GROUP_CONFIG_REPLAY :: u8 where "HCAN_HES_POWER_GROUP_CONFIG_REPLAY \<equiv> 78"
abbreviation (input) HCAN_HES_ROLLADEN_CONFIG_RQ :: u8 where "HCAN_HES_ROLLADEN_CONFIG_RQ \<equiv> 79"
abbreviation (input) HCAN_HES_ROLLADEN_CONFIG_REPLAY :: u8 where "HCAN_HES_ROLLADEN_CONFIG_REPLAY \<equiv> 80"
abbreviation (input) HCAN_HES_REEDKONTAKT_CONFIG_RQ :: u8 where "HCAN_HES_REEDKONTAKT_CONFIG_RQ \<equiv> 81"
abbreviation (input) HCAN_HES_REEDKONTAKT_CONFIG_REPLAY :: u8 where "HCAN_HES_REEDKONTAKT_CONFIG_REPLAY \<equiv> 82"
abbreviation (input) HCAN_HES_1WIRE_TEMPERATURE_CONFIG_RQ :: u8 where "HCAN_HES_1WIRE_TEMPERATURE_CONFIG_RQ \<equiv> 83"
abbreviation (input) HCAN_HES_1WIRE_TEMPERATURE_CONFIG_REPLAY :: u8 where "HCAN_HES_1WIRE_TEMPERATURE_CONFIG_REPLAY \<equiv> 84"
abbreviation (input) HCAN_HES_HEIZUNG_CONFIG_RQ :: u8 where "HCAN_HES_HEIZUNG_CONFIG_RQ \<equiv> 85"
abbreviation (input) HCAN_HES_HEIZUNG_CONFIG_REPLAY :: u8 where "HCAN_HES_HEIZUNG_CONFIG_REPLAY \<equiv> 86"
abbreviation (input) HCAN_HES_WS2812B_CONFIG_RQ :: u8 where "HCAN_HES_WS2812B_CONFIG_RQ \<equiv> 87"
abbreviation (input) HCAN_HES_WS2812B_CONFIG_REPLAY :: u8 where "HCAN_HES_WS2812B_CONFIG_REPLAY \<equiv> 88"
abbreviation (input) HCAN_HES_DCF77_ERROR :: u8 where "HCAN_HES_DCF77_ERROR \<equiv> 98"
abbreviation (input) HCAN_HES_DCF77_PULSE_DURATION :: u8 where "HCAN_HES_DCF77_PULSE_DURATION \<equiv> 99"
abbreviation (input) HCAN_HES_CONFIG_RELOAD :: u8 where "HCAN_HES_CONFIG_RELOAD \<equiv> 100"
abbreviation (input) HCAN_HES_CONFIG_RAM_USAGE_REQUEST :: u8 where "HCAN_HES_CONFIG_RAM_USAGE_REQUEST \<equiv> 101"
abbreviation (input) HCAN_HES_CONFIG_RAM_USAGE_REPLAY :: u8 where "HCAN_HES_CONFIG_RAM_USAGE_REPLAY \<equiv> 102"
abbreviation (input) HCAN_HES_ZEITZONE_DETAILS_REQUEST :: u8 where "HCAN_HES_ZEITZONE_DETAILS_REQUEST \<equiv> 110"
abbreviation (input) HCAN_HES_ZEITZONE_DETAILS_REPLAY :: u8 where "HCAN_HES_ZEITZONE_DETAILS_REPLAY \<equiv> 111"
abbreviation (input) HCAN_HES_ZEITZONE_WRITE_DETAILS :: u8 where "HCAN_HES_ZEITZONE_WRITE_DETAILS \<equiv> 112"
abbreviation (input) HCAN_HES_ZEITZONE_WRITE_DETAILS_ACK :: u8 where "HCAN_HES_ZEITZONE_WRITE_DETAILS_ACK \<equiv> 113"
abbreviation (input) HCAN_HES_ZEITZONE_TEST_MATCH_REQUERST :: u8 where "HCAN_HES_ZEITZONE_TEST_MATCH_REQUERST \<equiv> 114"
abbreviation (input) HCAN_HES_ZEITZONE_TEST_MATCH_REPLAY :: u8 where "HCAN_HES_ZEITZONE_TEST_MATCH_REPLAY \<equiv> 115"
abbreviation (input) HCAN_HES_EXPANDER_NOT_FOUND :: u8 where "HCAN_HES_EXPANDER_NOT_FOUND \<equiv> 120"
abbreviation (input) HCAN_HES_ADDITIONAL_PORTS_DEVICE_IGNORED :: u8 where "HCAN_HES_ADDITIONAL_PORTS_DEVICE_IGNORED \<equiv> 121"
abbreviation (input) HCAN_HES_WS2812B_SEND :: u8 where "HCAN_HES_WS2812B_SEND \<equiv> 125"

subsection \<open>Service RTS\<close>

abbreviation (input) HCAN_RTS_TIME_INFO :: u8 where "HCAN_RTS_TIME_INFO \<equiv> 1"
abbreviation (input) HCAN_RTS_DATE_INFO :: u8 where "HCAN_RTS_DATE_INFO \<equiv> 2"
abbreviation (input) HCAN_RTS_TIME_REQUEST :: u8 where "HCAN_RTS_TIME_REQUEST \<equiv> 3"
abbreviation (input) HCAN_RTS_DATE_REQUEST :: u8 where "HCAN_RTS_DATE_REQUEST \<equiv> 4"

subsection \<open>Service EDS\<close>

abbreviation (input) HCAN_EDS_GET_NEXT_BLOCK :: u8 where "HCAN_EDS_GET_NEXT_BLOCK \<equiv> 1"
abbreviation (input) HCAN_EDS_GET_NEXT_BLOCK_REPLAY :: u8 where "HCAN_EDS_GET_NEXT_BLOCK_REPLAY \<equiv> 2"
abbreviation (input) HCAN_EDS_DEFRAGMENT :: u8 where "HCAN_EDS_DEFRAGMENT \<equiv> 3"
abbreviation (input) HCAN_EDS_ALLOCATE_BLOCK :: u8 where "HCAN_EDS_ALLOCATE_BLOCK \<equiv> 4"
abbreviation (input) HCAN_EDS_ALLOCATE_BLOCK_REPLAY :: u8 where "HCAN_EDS_ALLOCATE_BLOCK_REPLAY \<equiv> 5"
abbreviation (input) HCAN_EDS_FREE_BLOCK :: u8 where "HCAN_EDS_FREE_BLOCK \<equiv> 6"
abbreviation (input) HCAN_EDS_FREE_BLOCK_REPLAY :: u8 where "HCAN_EDS_FREE_BLOCK_REPLAY \<equiv> 7"
abbreviation (input) HCAN_EDS_READ_FROM_BLOCK :: u8 where "HCAN_EDS_READ_FROM_BLOCK \<equiv> 8"
abbreviation (input) HCAN_EDS_READ_FROM_BLOCK_REPLAY :: u8 where "HCAN_EDS_READ_FROM_BLOCK_REPLAY \<equiv> 9"
abbreviation (input) HCAN_EDS_WRITE_TO_BLOCK :: u8 where "HCAN_EDS_WRITE_TO_BLOCK \<equiv> 10"
abbreviation (input) HCAN_EDS_WRITE_TO_BLOCK_REPLAY :: u8 where "HCAN_EDS_WRITE_TO_BLOCK_REPLAY \<equiv> 11"
abbreviation (input) HCAN_EDS_FORMAT :: u8 where "HCAN_EDS_FORMAT \<equiv> 12"

subsection \<open>Service USVS\<close>

abbreviation (input) HCAN_USVS_STATE_REQUEST :: u8 where "HCAN_USVS_STATE_REQUEST \<equiv> 1"
abbreviation (input) HCAN_USVS_STATE_INFO :: u8 where "HCAN_USVS_STATE_INFO \<equiv> 2"
abbreviation (input) HCAN_USVS_VOLTAGE_REQUEST :: u8 where "HCAN_USVS_VOLTAGE_REQUEST \<equiv> 3"
abbreviation (input) HCAN_USVS_VOLTAGE_REPLAY :: u8 where "HCAN_USVS_VOLTAGE_REPLAY \<equiv> 4"
abbreviation (input) HCAN_USVS_VOLTAGE_STATS_REQUEST :: u8 where "HCAN_USVS_VOLTAGE_STATS_REQUEST \<equiv> 5"
abbreviation (input) HCAN_USVS_VOLTAGE_STATS_REPLAY :: u8 where "HCAN_USVS_VOLTAGE_STATS_REPLAY \<equiv> 6"
abbreviation (input) HCAN_USVS_VOLTAGE_STATS_RESET :: u8 where "HCAN_USVS_VOLTAGE_STATS_RESET \<equiv> 7"

section \<open>Frames of the Haus-Elektrik service\<close>

text \<open>
  The frames the devices build: \<open>hes_answer\<close> goes to the sender of a request,
  \<open>hes_message\<close> to a multicast address; both carry the service byte first.
\<close>

definition hes_message :: "u16 \<Rightarrow> u16 \<Rightarrow> u8 list \<Rightarrow> canix_frame" where
  "hes_message self d bs = mk_frame self d HCAN_PROTO_SFP (HCAN_SRV_HES # bs)"

definition hes_answer :: "u16 \<Rightarrow> canix_frame \<Rightarrow> u8 list \<Rightarrow> canix_frame" where
  "hes_answer self f bs = hes_message self (src f) bs"

lemma hes_message_sel [simp, frame_simps]:
  "src (hes_message s d bs) = s" "dst (hes_message s d bs) = d"
  "proto (hes_message s d bs) = HCAN_PROTO_SFP" "data (hes_message s d bs) = HCAN_SRV_HES # bs"
  "byte_at (hes_message s d bs) i = nth_default 0 (HCAN_SRV_HES # bs) i"
  by (simp_all add: hes_message_def)

lemma sendable_hes_message [simp]: "sendable_frame (hes_message s d bs) \<longleftrightarrow> length bs \<le> 7"
  by (auto simp: hes_message_def)

lemma hes_message_eq_iff [simp]:
  "hes_message s d bs = hes_message s' d' bs' \<longleftrightarrow> s = s' \<and> d = d' \<and> bs = bs'"
  by (simp add: hes_message_def)

end
