(* ===== verification/Canix_Eds.thy ===== *)
theory Canix_Eds
  imports Hcan_Protocol
begin

text \<open>
  The EEPROM data system: a chain of typed blocks in the EEPROM, which holds a board's
  configuration (\<^verbatim>\<open>src/canix/eds.c\<close>, \<^verbatim>\<open>eds.h\<close>). A
  block is a type byte (0 is free), a size byte and that many payload bytes. The EEPROM is
  a map from 16-bit addresses to bytes; pointers are the numbers of these addresses, and
  pointer arithmetic wraps at \<open>2^16\<close>. The end of the data area depends on the
  microcontroller.
\<close>

section \<open>The EEPROM and its layout\<close>

datatype mcu = ATmega32 | ATmega328P | ATmega644P

type_synonym eeprom = "nat \<Rightarrow> u8"

fun EDS_END :: "mcu \<Rightarrow> nat" where
  "EDS_END ATmega328P = 1023"
| "EDS_END ATmega32 = 1023"
| "EDS_END ATmega644P = 2047"

abbreviation (input) EDS_START :: nat where "EDS_START \<equiv> 32"
abbreviation (input) EDS_DATA_START :: nat where "EDS_DATA_START \<equiv> 34"
abbreviation (input) EDS_MAGIC1 :: u8 where "EDS_MAGIC1 \<equiv> 0xe4"
abbreviation (input) EDS_MAGIC2 :: u8 where "EDS_MAGIC2 \<equiv> 0x7d"
abbreviation (input) EDS_OK :: u8 where "EDS_OK \<equiv> 0"
abbreviation (input) EDS_NOT_FORMATED :: u8 where "EDS_NOT_FORMATED \<equiv> 1"
abbreviation (input) EDS_INVALID_POINTER :: u8 where "EDS_INVALID_POINTER \<equiv> 2"

lemma EDS_END_bounds: "1023 \<le> EDS_END c" "EDS_END c \<le> 2047"
  by (cases c; simp)+

definition padd :: "nat \<Rightarrow> nat \<Rightarrow> nat" where
  "padd p k = (p + k) mod 65536"

lemma padd_small [simp]: "p + k < 65536 \<Longrightarrow> padd p k = p + k"
  by (simp add: padd_def)

definition EDS_BLOCK_TYPE :: "eeprom \<Rightarrow> nat \<Rightarrow> u8" where
  "EDS_BLOCK_TYPE m p = m p"

definition EDS_BLOCK_IS_FREE :: "eeprom \<Rightarrow> nat \<Rightarrow> bool" where
  "EDS_BLOCK_IS_FREE m p \<longleftrightarrow> m p = 0"

definition EDS_BLOCK_SIZE :: "eeprom \<Rightarrow> nat \<Rightarrow> nat" where
  "EDS_BLOCK_SIZE m p = unat (m (padd p 1))"

definition EDS_SET_BLOCK_SIZE :: "eeprom \<Rightarrow> nat \<Rightarrow> nat \<Rightarrow> eeprom" where
  "EDS_SET_BLOCK_SIZE m p n = m(padd p 1 := of_nat n)"

definition EDS_SET_BLOCK_TYPE :: "eeprom \<Rightarrow> nat \<Rightarrow> u8 \<Rightarrow> eeprom" where
  "EDS_SET_BLOCK_TYPE m p t = m(p := t)"

definition eds_next_block :: "eeprom \<Rightarrow> nat \<Rightarrow> nat" where
  "eds_next_block m p = padd p (2 + EDS_BLOCK_SIZE m p)"

lemma block_size_le [simp]: "EDS_BLOCK_SIZE m p \<le> 255"
  by (simp add: EDS_BLOCK_SIZE_def)

lemma eds_next_block_inside:
  "p < EDS_END c \<Longrightarrow> eds_next_block m p = p + 2 + EDS_BLOCK_SIZE m p"
  unfolding eds_next_block_def using EDS_END_bounds [of c] block_size_le [of m p]
  by (subst padd_small) linarith+

lemma eds_next_block_greater: "p < EDS_END c \<Longrightarrow> p < eds_next_block m p"
  by (simp add: eds_next_block_inside)

section \<open>The operations\<close>

function eds_format_loop :: "mcu \<Rightarrow> eeprom \<Rightarrow> nat \<Rightarrow> eeprom" where
  "eds_format_loop c m p =
     (if p < EDS_END c - 2 then
        (let m = m(p := 0);
             p = p + 1;
             sz = (if EDS_END c - p > 128 then 128 else EDS_END c - p);
             m = m(p := of_nat sz);
             p = p + 1
         in eds_format_loop c m (p + sz))
      else m)"
  by pat_completeness auto
termination
  by (relation "measure (\<lambda>(c, m, p). EDS_END c - p)") auto

declare eds_format_loop.simps [simp del]

definition eds_format :: "mcu \<Rightarrow> eeprom \<Rightarrow> eeprom" where
  "eds_format c m = eds_format_loop c (m(EDS_START := EDS_MAGIC1, EDS_START + 1 := EDS_MAGIC2))
     (EDS_START + 2)"

definition eds_init :: "mcu \<Rightarrow> eeprom \<Rightarrow> u8 \<times> eeprom" where
  "eds_init c m =
     (if m EDS_START = EDS_MAGIC1 \<and> m (EDS_START + 1) = EDS_MAGIC2 then (EDS_OK, m)
      else (EDS_NOT_FORMATED, eds_format c m))"

text \<open>\<^verbatim>\<open>eds_alloc\<close>: the pointer (0 if there is no room) and the new EEPROM.\<close>

function eds_alloc_loop :: "mcu \<Rightarrow> eeprom \<Rightarrow> u8 \<Rightarrow> nat \<Rightarrow> nat \<times> eeprom" where
  "eds_alloc_loop c m n p =
     (if p < EDS_END c then
        (if EDS_BLOCK_TYPE m p = 0 \<and> EDS_BLOCK_SIZE m p \<ge> unat n
            \<and> EDS_BLOCK_SIZE m p = unat n then (p, m)
         else if EDS_BLOCK_TYPE m p = 0 \<and> EDS_BLOCK_SIZE m p \<ge> unat n
            \<and> EDS_BLOCK_SIZE m p \<ge> unat n + 2 then
           (let m1 = m(padd p (2 + unat n) := 0);
                m2 = m1(padd p (2 + unat n + 1) := of_nat (EDS_BLOCK_SIZE m1 p - unat n - 2));
                m3 = m2(padd p 1 := n)
            in (p, m3))
         else eds_alloc_loop c m n (eds_next_block m p))
      else (0, m))"
  by pat_completeness auto
termination
  by (relation "measure (\<lambda>(c, m, n, p). EDS_END c - p)")
    (auto simp: eds_next_block_greater diff_less_mono2)

declare eds_alloc_loop.simps [simp del]

definition eds_alloc :: "mcu \<Rightarrow> eeprom \<Rightarrow> u8 \<Rightarrow> nat \<times> eeprom" where
  "eds_alloc c m n = eds_alloc_loop c m n EDS_DATA_START"

function eds_free_loop :: "mcu \<Rightarrow> eeprom \<Rightarrow> nat \<Rightarrow> nat \<Rightarrow> u8 \<times> eeprom" where
  "eds_free_loop c m block p =
     (if p < EDS_END c then
        (if p = block then (EDS_OK, EDS_SET_BLOCK_TYPE m p 0)
         else eds_free_loop c m block (eds_next_block m p))
      else (EDS_INVALID_POINTER, m))"
  by pat_completeness auto
termination
  by (relation "measure (\<lambda>(c, m, block, p). EDS_END c - p)")
    (auto simp: eds_next_block_greater diff_less_mono2)

declare eds_free_loop.simps [simp del]

definition eds_free :: "mcu \<Rightarrow> eeprom \<Rightarrow> nat \<Rightarrow> u8 \<times> eeprom" where
  "eds_free c m block = eds_free_loop c m block EDS_DATA_START"

text \<open>
  \<^verbatim>\<open>eds_defragment\<close>: the loop rewinds \<open>p\<close> to the last free block when it
  merges, so it runs on fuel; \<open>last_free = 0\<close> is the null pointer of the code. That
  the fuel is enough for every content of the EEPROM is proved below.
\<close>

fun eds_defragment_loop :: "nat \<Rightarrow> mcu \<Rightarrow> eeprom \<Rightarrow> nat \<Rightarrow> nat \<Rightarrow> eeprom option" where
  "eds_defragment_loop 0 c m p last_free = None"
| "eds_defragment_loop (Suc fuel) c m p last_free =
     (if p < EDS_END c then
        (let merge = (last_free \<noteq> 0 \<and> EDS_BLOCK_IS_FREE m p \<and>
                      EDS_BLOCK_SIZE m last_free + 2 + EDS_BLOCK_SIZE m p \<le> 255);
             m' = (if merge
                   then EDS_SET_BLOCK_SIZE m last_free
                          (EDS_BLOCK_SIZE m last_free + 2 + EDS_BLOCK_SIZE m p)
                   else m);
             p' = (if merge then last_free else p);
             last_free' = (if EDS_BLOCK_IS_FREE m' p' then p' else 0)
         in eds_defragment_loop fuel c m' (eds_next_block m' p') last_free')
      else Some m)"

definition eds_defragment :: "mcu \<Rightarrow> eeprom \<Rightarrow> eeprom option" where
  "eds_defragment c m = eds_defragment_loop (EDS_END c) c m EDS_DATA_START 0"

text \<open>\<^verbatim>\<open>eds_find_next_block_between\<close>; 0 stands for the null pointer.\<close>

function eds_find_loop :: "mcu \<Rightarrow> eeprom \<Rightarrow> u8 \<Rightarrow> u8 \<Rightarrow> nat \<Rightarrow> nat" where
  "eds_find_loop c m type1 type2 p =
     (if p < EDS_END c then
        (let p = eds_next_block m p in
         if type1 \<le> EDS_BLOCK_TYPE m p \<and> EDS_BLOCK_TYPE m p \<le> type2 then p
         else eds_find_loop c m type1 type2 p)
      else 0)"
  by pat_completeness auto
termination
  by (relation "measure (\<lambda>(c, m, t1, t2, p). EDS_END c - p)")
    (auto simp: eds_next_block_greater diff_less_mono2)

declare eds_find_loop.simps [simp del]

definition eds_find_next_block_between :: "mcu \<Rightarrow> eeprom \<Rightarrow> nat \<Rightarrow> u8 \<Rightarrow> u8 \<Rightarrow> nat" where
  "eds_find_next_block_between c m p type1 type2 =
     (if p = 0 then
        (if type1 \<le> EDS_BLOCK_TYPE m EDS_DATA_START \<and> EDS_BLOCK_TYPE m EDS_DATA_START \<le> type2
         then EDS_DATA_START else eds_find_loop c m type1 type2 EDS_DATA_START)
      else eds_find_loop c m type1 type2 p)"

text \<open>\<^verbatim>\<open>eds_find_next_block\<close> is the same walk with an equality test.\<close>

function eds_find_eq_loop :: "mcu \<Rightarrow> eeprom \<Rightarrow> u8 \<Rightarrow> nat \<Rightarrow> nat" where
  "eds_find_eq_loop c m type p =
     (if p < EDS_END c then
        (let p = eds_next_block m p in
         if EDS_BLOCK_TYPE m p = type then p else eds_find_eq_loop c m type p)
      else 0)"
  by pat_completeness auto
termination
  by (relation "measure (\<lambda>(c, m, t, p). EDS_END c - p)")
    (auto simp: eds_next_block_greater diff_less_mono2)

declare eds_find_eq_loop.simps [simp del]

definition eds_find_next_block :: "mcu \<Rightarrow> eeprom \<Rightarrow> nat \<Rightarrow> u8 \<Rightarrow> nat" where
  "eds_find_next_block c m p type =
     (if p = 0 then
        (if EDS_BLOCK_TYPE m EDS_DATA_START = type then EDS_DATA_START
         else eds_find_eq_loop c m type EDS_DATA_START)
      else eds_find_eq_loop c m type p)"

text \<open>
  \<^verbatim>\<open>eds_read_string\<close>: the bytes written to \<^verbatim>\<open>s\<close>, with the
  terminating zero.
\<close>

definition eds_read_string :: "eeprom \<Rightarrow> nat \<Rightarrow> u8 \<Rightarrow> u8 list" where
  "eds_read_string m block len = map (\<lambda>i. m (padd block i)) [0..<unat len - 1] @ [0]"

text \<open>The EDS service on the bus.\<close>

definition eds_answer :: "u16 \<Rightarrow> canix_frame \<Rightarrow> u8 list \<Rightarrow> out" where
  "eds_answer self f bs = Send HCAN_PRIO_LOW (mk_frame self (src f) HCAN_PROTO_SFP (HCAN_SRV_EDS # bs))"

definition eds_get_next :: "mcu \<Rightarrow> eeprom \<Rightarrow> nat \<Rightarrow> nat" where
  "eds_get_next c m h1 =
     (let h2 = (if h1 = 0 then EDS_DATA_START else eds_next_block m h1)
      in if h2 \<ge> EDS_END c then 0 else h2)"

definition eds_can_callback ::
  "mcu \<Rightarrow> u16 \<Rightarrow> eeprom \<Rightarrow> canix_frame \<Rightarrow> eeprom \<times> out list" where
  "eds_can_callback c self m f =
     (let cmd = byte_at f 1; h1 = unat (mk16 (byte_at f 2) (byte_at f 3)) in
      if cmd = HCAN_EDS_GET_NEXT_BLOCK then
        (let h2 = eds_get_next c m h1 in
         (m, [eds_answer self f [HCAN_EDS_GET_NEXT_BLOCK_REPLAY, hi8 (of_nat h2), lo8 (of_nat h2),
                EDS_BLOCK_TYPE m h2, of_nat (EDS_BLOCK_SIZE m h2)]]))
      else if cmd = HCAN_EDS_ALLOCATE_BLOCK then
        (let (h2, m1) = eds_alloc c m (byte_at f 3) in
         (EDS_SET_BLOCK_TYPE m1 h2 (byte_at f 2),
          [eds_answer self f [HCAN_EDS_ALLOCATE_BLOCK_REPLAY, hi8 (of_nat h2), lo8 (of_nat h2)]]))
      else if cmd = HCAN_EDS_FREE_BLOCK then
        (let (res, m1) = eds_free c m h1 in
         (m1, [eds_answer self f [HCAN_EDS_FREE_BLOCK_REPLAY, res]]))
      else if cmd = HCAN_EDS_DEFRAGMENT then
        (case eds_defragment c m of Some m1 \<Rightarrow> (m1, []) | None \<Rightarrow> (m, []))
      else if cmd = HCAN_EDS_READ_FROM_BLOCK then
        (let i = unat (byte_at f 4) in
         (m, [eds_answer self f [HCAN_EDS_READ_FROM_BLOCK_REPLAY, m (padd h1 i), m (padd h1 (i + 1)),
                m (padd h1 (i + 2)), m (padd h1 (i + 3))]]))
      else if cmd = HCAN_EDS_WRITE_TO_BLOCK then
        (m(padd h1 (unat (byte_at f 4)) := byte_at f 5),
         [eds_answer self f [HCAN_EDS_WRITE_TO_BLOCK_REPLAY]])
      else if cmd = HCAN_EDS_FORMAT then (eds_format c m, [])
      else (m, []))"

section \<open>The chain of blocks\<close>

text \<open>
  The abstract view: the list of blocks (address, type, size) the walk from the start of the
  data area finds, and the used ones among them with their payload.
\<close>

type_synonym blk = "nat \<times> u8 \<times> nat"

function eds_layout :: "mcu \<Rightarrow> eeprom \<Rightarrow> nat \<Rightarrow> blk list" where
  "eds_layout c m p =
     (if p < EDS_END c
      then (p, EDS_BLOCK_TYPE m p, EDS_BLOCK_SIZE m p) # eds_layout c m (eds_next_block m p)
      else [])"
  by pat_completeness auto
termination
  by (relation "measure (\<lambda>(c, m, p). EDS_END c - p)")
    (auto simp: eds_next_block_greater diff_less_mono2)

declare eds_layout.simps [simp del]

fun tiles :: "eeprom \<Rightarrow> nat \<Rightarrow> blk list \<Rightarrow> nat \<Rightarrow> bool" where
  "tiles m p [] q \<longleftrightarrow> p = q"
| "tiles m p ((a, t, s) # bs) q \<longleftrightarrow>
     a = p \<and> m p = t \<and> unat (m (p + 1)) = s \<and> tiles m (p + 2 + s) bs q"

text \<open>A chain: the blocks tile the area from \<open>p\<close>, and the walk stops at \<open>q\<close>.\<close>

definition chain :: "mcu \<Rightarrow> eeprom \<Rightarrow> nat \<Rightarrow> blk list \<Rightarrow> nat \<Rightarrow> bool" where
  "chain c m p bs q \<longleftrightarrow> tiles m p bs q \<and> EDS_END c \<le> q \<and> (\<forall>b \<in> set bs. fst b < EDS_END c)"

definition used_of :: "eeprom \<Rightarrow> blk list \<Rightarrow> (nat \<times> u8 \<times> u8 list) list" where
  "used_of m bs = map (\<lambda>(a, t, s). (a, t, map m [a + 2..<a + 2 + s])) (filter (\<lambda>(a, t, s). t \<noteq> 0) bs)"

definition eds_blocks :: "mcu \<Rightarrow> eeprom \<Rightarrow> blk list" where
  "eds_blocks c m = eds_layout c m EDS_DATA_START"

definition eds_used :: "mcu \<Rightarrow> eeprom \<Rightarrow> (nat \<times> u8 \<times> u8 list) list" where
  "eds_used c m = used_of m (eds_blocks c m)"

text \<open>
  A well-formed data area: the magic bytes, and the blocks fill the area up to its end (the
  last block ends one byte behind \<^verbatim>\<open>EDS_END\<close>, at the size of the EEPROM).
\<close>

definition eds_wf :: "mcu \<Rightarrow> eeprom \<Rightarrow> bool" where
  "eds_wf c m \<longleftrightarrow> m EDS_START = EDS_MAGIC1 \<and> m (EDS_START + 1) = EDS_MAGIC2 \<and>
     tiles m EDS_DATA_START (eds_blocks c m) (EDS_END c + 1)"

lemma tiles_le: "tiles m p bs q \<Longrightarrow> p \<le> q"
  by (induction m p bs q rule: tiles.induct) auto

lemma tiles_end: "tiles m p bs q \<Longrightarrow> tiles m p bs q' \<Longrightarrow> q = q'"
  by (induction m p bs q rule: tiles.induct) auto

lemma tiles_append:
  "tiles m p (xs @ ys) q \<longleftrightarrow> (\<exists>r. tiles m p xs r \<and> tiles m r ys q)"
  by (induction m p xs q rule: tiles.induct) auto

lemma tiles_cong:
  "(\<And>a. p \<le> a \<Longrightarrow> a < q \<Longrightarrow> m' a = m a) \<Longrightarrow> tiles m p bs q \<Longrightarrow> tiles m' p bs q"
proof (induction m p bs q rule: tiles.induct)
  case (2 m p a t s bs q)
  then have "p + 2 + s \<le> q" by (auto dest: tiles_le)
  with 2 show ?case by auto
qed simp

lemma tiles_bounds:
  "tiles m p bs q \<Longrightarrow> (a, t, s) \<in> set bs \<Longrightarrow> p \<le> a \<and> a + 2 + s \<le> q \<and> m a = t \<and> unat (m (a + 1)) = s"
proof (induction m p bs q rule: tiles.induct)
  case (2 m p a' t' s' bs q)
  then have "p + 2 + s' \<le> q" by (auto dest: tiles_le)
  with 2 show ?case by auto
qed simp

lemma used_of_cong:
  assumes "\<And>a. p \<le> a \<Longrightarrow> a < q \<Longrightarrow> m' a = m a" and "tiles m p bs q"
  shows "used_of m' bs = used_of m bs"
  unfolding used_of_def
proof (rule map_cong [OF refl])
  fix x assume "x \<in> set (filter (\<lambda>(a, t, s). t \<noteq> 0) bs)"
  then obtain a t s where x: "x = (a, t, s)" and "(a, t, s) \<in> set bs"
    by (metis filter_is_subset prod_cases3 subsetD)
  then have "p \<le> a" "a + 2 + s \<le> q"
    using tiles_bounds [OF assms(2)] by blast+
  then show "(case x of (a, t, s) \<Rightarrow> (a, t, map m' [a + 2..<a + 2 + s])) =
      (case x of (a, t, s) \<Rightarrow> (a, t, map m [a + 2..<a + 2 + s]))"
    by (auto simp: x assms(1))
qed

lemma used_of_Cons:
  "used_of m ((a, t, s) # bs) =
     (if t = 0 then [] else [(a, t, map m [a + 2..<a + 2 + s])]) @ used_of m bs"
  by (simp add: used_of_def)

lemma used_of_append: "used_of m (xs @ ys) = used_of m xs @ used_of m ys"
  by (simp add: used_of_def)

lemma chain_layout: "chain c m p bs q \<Longrightarrow> eds_layout c m p = bs"
proof (induction bs arbitrary: p)
  case Nil
  then show ?case by (subst eds_layout.simps) (simp add: chain_def)
next
  case (Cons b bs)
  obtain a t s where b: "b = (a, t, s)" by (cases b)
  with Cons.prems have h: "a = p" "m p = t" "unat (m (p + 1)) = s" "p < EDS_END c"
    and r: "chain c m (p + 2 + s) bs q"
    by (auto simp: chain_def)
  have z: "EDS_BLOCK_SIZE m p = s"
    using h EDS_END_bounds [of c] by (simp add: EDS_BLOCK_SIZE_def)
  have "eds_next_block m p = p + 2 + s"
    using h z by (simp add: eds_next_block_inside)
  then show ?case
    using Cons.IH [OF r] h z b by (subst eds_layout.simps) (simp add: EDS_BLOCK_TYPE_def)
qed

lemma layout_chain: "\<exists>q. chain c m p (eds_layout c m p) q \<and> q \<le> max p (EDS_END c + 256)"
proof (induction c m p rule: eds_layout.induct)
  case (1 c m p)
  show ?case
  proof (cases "p < EDS_END c")
    case False
    then show ?thesis
      by (intro exI [of _ p], subst eds_layout.simps) (simp add: chain_def)
  next
    case True
    then obtain q where q: "chain c m (eds_next_block m p) (eds_layout c m (eds_next_block m p)) q"
      "q \<le> max (eds_next_block m p) (EDS_END c + 256)"
      using "1.IH" by blast
    have n: "eds_next_block m p = p + 2 + EDS_BLOCK_SIZE m p"
      by (rule eds_next_block_inside [OF True])
    have "padd p 1 = p + 1"
      using True EDS_END_bounds [of c] by simp
    then have "tiles m p (eds_layout c m p) q"
      using q True by (subst eds_layout.simps)
        (simp add: chain_def EDS_BLOCK_TYPE_def n EDS_BLOCK_SIZE_def)
    moreover have "\<forall>b \<in> set (eds_layout c m p). fst b < EDS_END c"
      using q True by (subst eds_layout.simps) (simp add: chain_def)
    moreover have "q \<le> max p (EDS_END c + 256)"
      using q(2) True block_size_le [of m p] unfolding n by linarith
    ultimately show ?thesis
      using q by (auto simp: chain_def)
  qed
qed

lemma chain_blocks: "chain c m EDS_DATA_START bs q \<Longrightarrow> eds_blocks c m = bs"
  unfolding eds_blocks_def by (rule chain_layout)

lemma chain_wf:
  assumes "chain c m EDS_DATA_START bs (EDS_END c + 1)"
  shows "eds_wf c m \<longleftrightarrow> m EDS_START = EDS_MAGIC1 \<and> m (EDS_START + 1) = EDS_MAGIC2"
  using assms chain_blocks [OF assms] by (auto simp: eds_wf_def chain_def)

lemma wf_chain: "eds_wf c m \<Longrightarrow> chain c m EDS_DATA_START (eds_blocks c m) (EDS_END c + 1)"
proof -
  assume w: "eds_wf c m"
  have "fst b < EDS_END c" if "b \<in> set (eds_blocks c m)" for b
    using layout_chain [of c m EDS_DATA_START] that by (auto simp: eds_blocks_def chain_def)
  with w show ?thesis by (auto simp: chain_def eds_wf_def)
qed

section \<open>What the operations do to the chain\<close>

subsection \<open>Allocation\<close>

text \<open>
  The abstract allocator: the first free block that fits exactly, or is at least two bytes
  larger (room for the header of the rest); the rest becomes a free block behind it.
\<close>

fun alloc_spec :: "nat \<Rightarrow> blk list \<Rightarrow> (nat \<times> blk list) option" where
  "alloc_spec n [] = None"
| "alloc_spec n ((a, t, s) # bs) =
     (if t = 0 \<and> s = n then Some (a, (a, t, s) # bs)
      else if t = 0 \<and> s \<ge> n + 2 then Some (a, (a, 0, n) # (a + 2 + n, 0, s - n - 2) # bs)
      else map_option (\<lambda>(p, bs'). (p, (a, t, s) # bs')) (alloc_spec n bs))"

lemma alloc_spec_None:
  "alloc_spec n bs = None \<longleftrightarrow> (\<forall>(a, t, s) \<in> set bs. t = 0 \<longrightarrow> s \<noteq> n \<and> s < n + 2)"
  by (induction n bs rule: alloc_spec.induct) auto

lemma alloc_spec_Some:
  "alloc_spec n bs = Some (p, bs') \<Longrightarrow> (p, 0, n) \<in> set bs' \<and> p \<in> fst ` set bs"
  by (induction n bs arbitrary: p bs' rule: alloc_spec.induct) (auto split: if_splits)

lemma eds_alloc_loop_correct:
  "chain c m p bs q \<Longrightarrow> q \<le> EDS_END c + 1 \<Longrightarrow>
   (case alloc_spec (unat n) bs of
      None \<Rightarrow> eds_alloc_loop c m n p = (0, m)
    | Some (r, bs') \<Rightarrow> \<exists>m'. eds_alloc_loop c m n p = (r, m') \<and> chain c m' p bs' q \<and>
        used_of m' bs' = used_of m bs \<and> (\<forall>a < p. m' a = m a) \<and> p \<le> r)"
proof (induction bs arbitrary: p)
  case Nil
  then show ?case by (subst eds_alloc_loop.simps) (simp add: chain_def)
next
  case (Cons b bs)
  obtain a t s where b: "b = (a, t, s)" by (cases b)
  with Cons.prems have h: "a = p" "m p = t" "unat (m (p + 1)) = s" "p < EDS_END c"
    and r: "chain c m (p + 2 + s) bs q"
    by (auto simp: chain_def)
  have sm: "p < 2047" "s \<le> 255" "unat n \<le> 255"
    using h EDS_END_bounds [of c] unat_u8_less [of "m (p + 1)"] unat_u8_less [of n] by linarith+
  have z: "EDS_BLOCK_SIZE m p = s" "EDS_BLOCK_TYPE m p = t" "eds_next_block m p = p + 2 + s"
    using h sm by (simp_all add: EDS_BLOCK_SIZE_def EDS_BLOCK_TYPE_def eds_next_block_inside)
  have tl: "tiles m (p + 2 + s) bs q" using r by (simp add: chain_def)
  note loop = eds_alloc_loop.simps [of c m n p]
  consider (exact) "t = 0" "s = unat n" | (split) "t = 0" "s \<ge> unat n + 2"
    | (skip) "\<not> (t = 0 \<and> s = unat n)" "\<not> (t = 0 \<and> s \<ge> unat n + 2)"
    by blast
  then show ?case
  proof cases
    case exact
    then show ?thesis using Cons.prems h z b by (simp add: loop)
  next
    case split
    define m' where "m' = m(p + 2 + unat n := 0, p + 2 + unat n + 1 := of_nat (s - unat n - 2), p + 1 := n)"
    have e: "eds_alloc_loop c m n p = (p, m')"
      using split h z sm by (simp add: loop m'_def EDS_BLOCK_SIZE_def Let_def)
    have sz: "unat (of_nat (s - unat n - 2) :: u8) = s - unat n - 2"
      using sm by (intro unat_of_nat_u8) linarith
    have same: "m' x = m x" if "p + 2 + s \<le> x" for x
      using that split by (simp add: m'_def)
    have "tiles m' (p + 2 + s) bs q"
      by (rule tiles_cong [OF _ tl]) (rule same)
    moreover have "m' p = 0" "m' (p + 1) = n" "m' (p + 2 + unat n) = 0"
      "m' (p + 2 + unat n + 1) = of_nat (s - unat n - 2)"
      using split h by (simp_all add: m'_def)
    moreover have "p + 2 + unat n + 2 + (s - unat n - 2) = p + 2 + s"
      using split by linarith
    ultimately have "tiles m' p ((p, 0, unat n) # (p + 2 + unat n, 0, s - unat n - 2) # bs) q"
      by (simp only: tiles.simps sz simp_thms)
    moreover have "p + 2 + unat n < EDS_END c"
      using split tiles_le [OF tl] Cons.prems(2) by linarith
    moreover have "used_of m' bs = used_of m bs"
      by (rule used_of_cong [OF _ tl]) (rule same)
    ultimately show ?thesis
      using split e r h b by (auto simp: chain_def used_of_Cons m'_def)
  next
    case skip
    then have e: "eds_alloc_loop c m n p = eds_alloc_loop c m n (p + 2 + s)"
      using h z by (subst loop) auto
    have sp: "alloc_spec (unat n) (b # bs) =
        map_option (\<lambda>(r, bs'). (r, (p, t, s) # bs')) (alloc_spec (unat n) bs)"
      using skip b h by auto
    show ?thesis
    proof (cases "alloc_spec (unat n) bs")
      case None
      then show ?thesis using Cons.IH [OF r Cons.prems(2)] e sp by simp
    next
      case (Some rb)
      obtain r' bs' where rb: "rb = (r', bs')" by (cases rb)
      with Cons.IH [OF r Cons.prems(2)] Some obtain m' where
        m': "eds_alloc_loop c m n (p + 2 + s) = (r', m')" "chain c m' (p + 2 + s) bs' q"
        "used_of m' bs' = used_of m bs" "\<forall>a < p + 2 + s. m' a = m a" "p + 2 + s \<le> r'"
        by auto
      have "chain c m' p ((p, t, s) # bs') q"
        using m'(2,4) h by (simp add: chain_def)
      moreover have "used_of m' ((p, t, s) # bs') = used_of m (b # bs)"
      proof -
        have "map m' [p + 2..<p + 2 + s] = map m [p + 2..<p + 2 + s]"
        proof (rule map_cong [OF refl])
          fix x assume "x \<in> set [p + 2..<p + 2 + s]"
          then have "x < p + 2 + s" by auto
          then show "m' x = m x" using m'(4) by blast
        qed
        then show ?thesis using m'(3) b h by (simp only: used_of_Cons)
      qed
      ultimately show ?thesis
        using e sp Some rb m' by auto
    qed
  qed
qed

text \<open>Lifted to the whole data area.\<close>

lemma eds_alloc_correct:
  assumes wf: "eds_wf c m" and al: "eds_alloc c m n = (p, m')"
  shows "case alloc_spec (unat n) (eds_blocks c m) of
      None \<Rightarrow> p = 0 \<and> m' = m
    | Some (r, bs') \<Rightarrow> p = r \<and> eds_wf c m' \<and> eds_blocks c m' = bs' \<and> eds_used c m' = eds_used c m"
proof -
  note ch = wf_chain [OF wf]
  note cor = eds_alloc_loop_correct [OF ch order_refl, of n]
  show ?thesis
  proof (cases "alloc_spec (unat n) (eds_blocks c m)")
    case None
    then show ?thesis using cor al by (simp add: eds_alloc_def)
  next
    case (Some rb)
    obtain r bs' where rb: "rb = (r, bs')" by (cases rb)
    then obtain m1 where m1: "eds_alloc_loop c m n EDS_DATA_START = (r, m1)"
      "chain c m1 EDS_DATA_START bs' (EDS_END c + 1)" "used_of m1 bs' = used_of m (eds_blocks c m)"
      "\<forall>a < EDS_DATA_START. m1 a = m a"
      using cor Some by auto
    then have e: "p = r" "m' = m1" using al by (simp_all add: eds_alloc_def)
    have "eds_blocks c m1 = bs'" by (rule chain_blocks [OF m1(2)])
    moreover have "eds_wf c m1"
      unfolding chain_wf [OF m1(2)] using m1(4) wf by (simp add: eds_wf_def)
    ultimately show ?thesis
      using Some rb e m1(3) by (simp add: eds_used_def)
  qed
qed

subsection \<open>Release and marking\<close>

text \<open>Setting the type of a block head changes that block of the chain and nothing else.\<close>

definition retype :: "nat \<Rightarrow> u8 \<Rightarrow> blk list \<Rightarrow> blk list" where
  "retype p t bs = map (\<lambda>(a, t', s). (a, if a = p then t else t', s)) bs"

lemma fst_retype [simp]: "fst ` set (retype p t bs) = fst ` set bs"
  by (force simp: retype_def)

lemma tiles_retype:
  "tiles m p bs q \<Longrightarrow> r \<in> fst ` set bs \<Longrightarrow> tiles (m(r := t)) p (retype r t bs) q"
proof (induction m p bs q rule: tiles.induct)
  case (2 m p a t' s bs q)
  have tl: "tiles m (p + 2 + s) bs q" using 2 by simp
  show ?case
  proof (cases "r = p")
    case True
    have ne: "b \<noteq> p" if "(b, t'', s') \<in> set bs" for b t'' s'
      using tiles_bounds [OF tl that] by linarith
    then have "retype r t bs = bs"
      unfolding retype_def True by (intro map_idI) auto
    then have "retype r t ((a, t', s) # bs) = (p, t, s) # bs"
      using 2 True by (simp add: retype_def)
    moreover have "tiles (m(r := t)) (p + 2 + s) bs q"
      by (rule tiles_cong [OF _ tl]) (simp add: True)
    moreover have "(m(r := t)) p = t" "(m(r := t)) (p + 1) = m (p + 1)" "unat (m (p + 1)) = s"
      using True 2 by simp_all
    ultimately show ?thesis by (simp only: tiles.simps simp_thms)
  next
    case False
    with 2 have rin: "r \<in> fst ` set bs" by auto
    then have "p + 2 + s \<le> r"
      using tiles_bounds [OF tl] by force
    then show ?thesis
      using 2 rin False by (simp add: retype_def)
  qed
qed simp

lemma tiles_distinct: "tiles m p bs q \<Longrightarrow> distinct (map fst bs)"
proof (induction m p bs q rule: tiles.induct)
  case (2 m p a t s bs q)
  then have "b \<noteq> p" if "b \<in> fst ` set bs" for b
    using that tiles_bounds [of m "p + 2 + s" bs q] by fastforce
  with 2 show ?case by auto
qed simp

text \<open>Payload bytes are no block heads, so marking a head leaves every payload alone.\<close>

lemma payload_no_head:
  "tiles m p bs q \<Longrightarrow> (a, t, s) \<in> set bs \<Longrightarrow> r \<in> fst ` set bs \<Longrightarrow> \<not> (a < r \<and> r < a + 2 + s)"
proof (induction m p bs q rule: tiles.induct)
  case (2 m p a' t' s' bs q)
  have tl: "tiles m (p + 2 + s') bs q" using 2 by simp
  have lo: "p + 2 + s' \<le> b" if "b \<in> fst ` set bs" for b
    using that tiles_bounds [OF tl] by force
  show ?case
  proof (cases "(a, t, s) \<in> set bs")
    case True
    then have "p + 2 + s' \<le> a" using lo by force
    then show ?thesis
      using 2 True by (cases "r \<in> fst ` set bs") auto
  next
    case False
    then have "a = p" "s = s'" using 2 by auto
    then show ?thesis using 2 lo by (cases "r \<in> fst ` set bs") force+
  qed
qed simp

lemma map_payload:
  assumes "tiles m p bs q" and "(a, t', s) \<in> set bs" and "r \<in> fst ` set bs"
  shows "map (m(r := t)) [a + 2..<a + 2 + s] = map m [a + 2..<a + 2 + s]"
proof (rule map_cong [OF refl])
  fix x assume "x \<in> set [a + 2..<a + 2 + s]"
  then have "x \<noteq> r" using payload_no_head [OF assms] by auto
  then show "(m(r := t)) x = m x" by simp
qed

text \<open>Marking a head changes no other used block, and the head becomes one unless it is freed.\<close>

lemma used_of_retype_others:
  assumes t: "tiles m p bs q" and r: "r \<in> fst ` set bs" and sub: "set cs \<subseteq> set bs"
  shows "filter (\<lambda>u. fst u \<noteq> r) (used_of (m(r := t)) (retype r t cs)) =
    filter (\<lambda>u. fst u \<noteq> r) (used_of m cs)"
proof -
  define m' where "m' = m(r := t)"
  have pay: "map m' [a + 2..<a + 2 + s] = map m [a + 2..<a + 2 + s]"
    if "(a, t', s) \<in> set bs" for a t' s
    unfolding m'_def by (rule map_payload [OF t that r])
  have "filter (\<lambda>u. fst u \<noteq> r) (used_of m' (retype r t cs)) =
    filter (\<lambda>u. fst u \<noteq> r) (used_of m cs)"
    using sub
  proof (induction cs)
    case Nil
    then show ?case by (simp add: retype_def used_of_def)
  next
    case (Cons b cs)
    obtain a t' s where b: "b = (a, t', s)" by (cases b)
    with Cons.prems have "(a, t', s) \<in> set bs" by simp
    note pay = pay [OF this]
    have e: "retype r t (b # cs) = (a, if a = r then t else t', s) # retype r t cs"
      by (simp add: retype_def b)
    have ih: "filter (\<lambda>u. fst u \<noteq> r) (used_of m' (retype r t cs)) = filter (\<lambda>u. fst u \<noteq> r) (used_of m cs)"
      using Cons by simp
    show ?case
      unfolding e unfolding b used_of_Cons filter_append pay ih by simp
  qed
  then show ?thesis by (simp only: m'_def)
qed

lemma used_of_freed:
  "used_of m (retype r 0 bs) = filter (\<lambda>u. fst u \<noteq> r) (used_of m (retype r 0 bs))"
  by (induction bs) (auto simp: used_of_def retype_def split: prod.splits if_splits)

lemma used_of_marked:
  assumes "tiles m p bs q" and "(r, t', s) \<in> set bs" and "t \<noteq> 0"
  shows "(r, t, map m [r + 2..<r + 2 + s]) \<in> set (used_of (m(r := t)) (retype r t bs))"
proof -
  have "r \<in> fst ` set bs" using assms(2) by force
  then have "map (m(r := t)) [r + 2..<r + 2 + s] = map m [r + 2..<r + 2 + s]"
    by (rule map_payload [OF assms(1,2)])
  moreover have "(r, t, s) \<in> set (retype r t bs)"
    using assms(2) by (force simp: retype_def)
  ultimately show ?thesis
    using assms(3) by (force simp: used_of_def)
qed

lemma eds_free_loop_correct:
  "chain c m p bs q \<Longrightarrow>
   eds_free_loop c m r p = (if r \<in> fst ` set bs then (EDS_OK, m(r := 0)) else (EDS_INVALID_POINTER, m))"
proof (induction bs arbitrary: p)
  case Nil
  then show ?case by (subst eds_free_loop.simps) (simp add: chain_def)
next
  case (Cons b bs)
  obtain a t s where b: "b = (a, t, s)" by (cases b)
  with Cons.prems have h: "a = p" "unat (m (p + 1)) = s" "p < EDS_END c"
    and r: "chain c m (p + 2 + s) bs q"
    by (auto simp: chain_def)
  have "eds_next_block m p = p + 2 + s"
    using h EDS_END_bounds [of c] by (simp add: eds_next_block_inside EDS_BLOCK_SIZE_def)
  then show ?case
    using Cons.IH [OF r] h b
    by (subst eds_free_loop.simps) (auto simp: EDS_SET_BLOCK_TYPE_def)
qed

lemma eds_free_correct:
  assumes wf: "eds_wf c m"
  shows "eds_free c m r = (if r \<in> fst ` set (eds_blocks c m) then (EDS_OK, m(r := 0))
     else (EDS_INVALID_POINTER, m))"
  unfolding eds_free_def by (rule eds_free_loop_correct [OF wf_chain [OF wf]])

text \<open>Setting the type of a head keeps the area well-formed.\<close>

lemma eds_retype:
  assumes wf: "eds_wf c m" and r: "r \<in> fst ` set (eds_blocks c m)"
  shows "eds_wf c (m(r := t))" "eds_blocks c (m(r := t)) = retype r t (eds_blocks c m)"
proof -
  note ch = wf_chain [OF wf]
  have ti: "tiles m EDS_DATA_START (eds_blocks c m) (EDS_END c + 1)"
    using ch by (simp add: chain_def)
  have hd: "fst b < EDS_END c" if "b \<in> set (retype r t (eds_blocks c m))" for b
  proof -
    have "fst b \<in> fst ` set (eds_blocks c m)"
      using that fst_retype by blast
    then show ?thesis using ch by (auto simp: chain_def)
  qed
  have ch': "chain c (m(r := t)) EDS_DATA_START (retype r t (eds_blocks c m)) (EDS_END c + 1)"
    using tiles_retype [OF ti r, of t] hd by (simp add: chain_def)
  show "eds_blocks c (m(r := t)) = retype r t (eds_blocks c m)"
    by (rule chain_blocks [OF ch'])
  have "EDS_DATA_START \<le> r"
    using r tiles_bounds [OF ti] by force
  then show "eds_wf c (m(r := t))"
    unfolding chain_wf [OF ch'] using wf by (simp add: eds_wf_def)
qed

subsection \<open>Defragmentation\<close>

text \<open>The abstract merge of neighbouring free blocks, as far as the size byte allows.\<close>

fun defrag_spec :: "blk list \<Rightarrow> blk list" where
  "defrag_spec ((a, t, s) # (a', t', s') # bs) =
     (if t = 0 \<and> t' = 0 \<and> s + 2 + s' \<le> 255 then defrag_spec ((a, 0, s + 2 + s') # bs)
      else (a, t, s) # defrag_spec ((a', t', s') # bs))"
| "defrag_spec bs = bs"

text \<open>No two neighbouring free blocks could still be merged.\<close>

fun merged :: "blk list \<Rightarrow> bool" where
  "merged ((a, t, s) # (a', t', s') # bs) \<longleftrightarrow>
     \<not> (t = 0 \<and> t' = 0 \<and> s + 2 + s' \<le> 255) \<and> merged ((a', t', s') # bs)"
| "merged bs \<longleftrightarrow> True"

lemma defrag_spec_head:
  "\<exists>s'' bs''. defrag_spec ((a, t, s) # bs) = (a, t, s'') # bs'' \<and> s \<le> s''"
proof (induction bs arbitrary: s)
  case (Cons b bs)
  obtain a' t' s' where "b = (a', t', s')" by (cases b)
  then show ?case using Cons.IH [of "s + 2 + s'"] by auto
qed simp

lemma merged_defrag_spec: "merged (defrag_spec bs)"
proof (induction bs rule: defrag_spec.induct)
  case (1 a t s a' t' s' bs)
  show ?case
  proof (cases "t = 0 \<and> t' = 0 \<and> s + 2 + s' \<le> 255")
    case True
    then show ?thesis using 1(1) by simp
  next
    case False
    then have ih: "merged (defrag_spec ((a', t', s') # bs))" by (rule 1(2))
    obtain s2 bs2 where h: "defrag_spec ((a', t', s') # bs) = (a', t', s2) # bs2" "s' \<le> s2"
      using defrag_spec_head [of a' t' s' bs] by blast
    have "defrag_spec ((a, t, s) # (a', t', s') # bs) = (a, t, s) # (a', t', s2) # bs2"
      by (simp only: defrag_spec.simps if_not_P [OF False] h)
    moreover have "\<not> (t = 0 \<and> t' = 0 \<and> s + 2 + s2 \<le> 255)"
      using False h(2) by auto
    ultimately show ?thesis using ih h(1) by simp
  qed
qed simp_all

lemma chain_ConsD:
  assumes "chain c m p ((a, t, s) # bs) q"
  shows "a = p" "m p = t" "unat (m (p + 1)) = s" "p < EDS_END c" "chain c m (p + 2 + s) bs q"
    "EDS_BLOCK_SIZE m p = s" "eds_next_block m p = p + 2 + s"
proof -
  show h: "a = p" "m p = t" "unat (m (p + 1)) = s" "p < EDS_END c" "chain c m (p + 2 + s) bs q"
    using assms by (auto simp: chain_def)
  show z: "EDS_BLOCK_SIZE m p = s"
    using h EDS_END_bounds [of c] by (simp add: EDS_BLOCK_SIZE_def)
  then show "eds_next_block m p = p + 2 + s"
    using h by (simp add: eds_next_block_inside)
qed

lemma chain_ConsI:
  "m p = t \<Longrightarrow> unat (m (p + 1)) = s \<Longrightarrow> p < EDS_END c \<Longrightarrow> chain c m (p + 2 + s) bs q \<Longrightarrow>
   chain c m p ((p, t, s) # bs) q"
  by (auto simp: chain_def)

lemma chain_cong:
  "(\<And>a. p \<le> a \<Longrightarrow> a < q \<Longrightarrow> m' a = m a) \<Longrightarrow> chain c m p bs q \<Longrightarrow> chain c m' p bs q"
  unfolding chain_def using tiles_cong by blast

definition defrag_post :: "mcu \<Rightarrow> eeprom \<Rightarrow> nat \<Rightarrow> nat \<Rightarrow> nat \<Rightarrow> blk list \<Rightarrow> eeprom option \<Rightarrow> bool" where
  "defrag_post c m keep p q bs r \<longleftrightarrow>
     (\<exists>m'. r = Some m' \<and> chain c m' p (defrag_spec bs) q \<and>
           used_of m' (defrag_spec bs) = used_of m bs \<and> (\<forall>a < keep. m' a = m a))"

lemma defrag_post_Cons:
  assumes post: "defrag_post c m (p + 2 + s) (p + 2 + s) q bs r"
    and ch: "chain c m p ((p, t, s) # bs) q"
    and sp: "defrag_spec ((p, t, s) # bs) = (p, t, s) # defrag_spec bs"
  shows "defrag_post c m (p + 2 + s) p q ((p, t, s) # bs) r"
proof -
  from post obtain m' where m': "r = Some m'" "chain c m' (p + 2 + s) (defrag_spec bs) q"
    "used_of m' (defrag_spec bs) = used_of m bs" "\<forall>a < p + 2 + s. m' a = m a"
    by (auto simp: defrag_post_def)
  note h = chain_ConsD [OF ch]
  have e: "m' p = m p" "m' (p + 1) = m (p + 1)"
    using m'(4) by simp_all
  have "chain c m' p ((p, t, s) # defrag_spec bs) q"
    using m'(2) h e by (intro chain_ConsI) simp_all
  moreover have pay: "map m' [p + 2..<p + 2 + s] = map m [p + 2..<p + 2 + s]"
  proof (rule map_cong [OF refl])
    fix x assume "x \<in> set [p + 2..<p + 2 + s]"
    then have "x < p + 2 + s" by auto
    then show "m' x = m x" using m'(4) by blast
  qed
  moreover have "used_of m' ((p, t, s) # defrag_spec bs) = used_of m ((p, t, s) # bs)"
    unfolding used_of_Cons pay m'(3) ..
  ultimately show ?thesis
    unfolding defrag_post_def sp using m'(1,4) by blast
qed

lemma defrag_post_weaken:
  assumes "defrag_post c m k p q bs r" and "k' \<le> k"
  shows "defrag_post c m k' p q bs r"
proof -
  from assms(1) obtain m' where m': "r = Some m'" "chain c m' p (defrag_spec bs) q"
    "used_of m' (defrag_spec bs) = used_of m bs" "\<forall>a < k. m' a = m a"
    by (auto simp: defrag_post_def)
  have "\<forall>a < k'. m' a = m a" using m'(4) assms(2) by simp
  with m'(1-3) show ?thesis by (auto simp: defrag_post_def)
qed

text \<open>
  The loop at \<open>p\<close>, without and with a free block \<open>l\<close> just before \<open>p\<close>. One unit of fuel
  for each block that is left, and one for the end, is enough.
\<close>

lemma eds_defragment_loop_correct:
  "(\<forall>m p fuel. chain c m p bs q \<longrightarrow> p \<noteq> 0 \<longrightarrow> length bs < fuel \<longrightarrow>
      defrag_post c m p p q bs (eds_defragment_loop fuel c m p 0)) \<and>
   (\<forall>m l s fuel. chain c m l ((l, 0, s) # bs) q \<longrightarrow> l \<noteq> 0 \<longrightarrow> length bs < fuel \<longrightarrow>
      defrag_post c m (l + 1) l q ((l, 0, s) # bs) (eds_defragment_loop fuel c m (l + 2 + s) l))"
proof (induction bs)
  case Nil
  have "defrag_post c m p p q [] (eds_defragment_loop fuel c m p 0)"
    if "chain c m p [] q" "0 < fuel" for m p fuel
    using that by (cases fuel) (auto simp: chain_def defrag_post_def)
  moreover have "defrag_post c m (l + 1) l q [(l, 0, s)] (eds_defragment_loop fuel c m (l + 2 + s) l)"
    if "chain c m l [(l, 0, s)] q" "0 < fuel" for m l s fuel
    using that by (cases fuel) (auto simp: chain_def defrag_post_def)
  ultimately show ?case by simp
next
  case (Cons b bs)
  obtain a t s where b: "b = (a, t, s)" by (cases b)
  note nofree = Cons.IH [THEN conjunct1, rule_format]
  note free = Cons.IH [THEN conjunct2, rule_format]
  text \<open>The step when no free block precedes, or none that the block can be merged with.\<close>
  have plain: "defrag_post c m (p + 1) p q ((p, t, s) # bs)
      (eds_defragment_loop fuel' c m (p + 2 + s) (if t = 0 then p else 0))"
    if ch: "chain c m p ((p, t, s) # bs) q" and p0: "p \<noteq> 0" and fu: "length bs < fuel'" for m p fuel'
  proof (cases "t = 0")
    case True
    then show ?thesis using free [of m p s fuel'] that by simp
  next
    case False
    have "defrag_spec ((p, t, s) # bs) = (p, t, s) # defrag_spec bs"
      using False by (cases "((p, t, s) # bs)" rule: defrag_spec.cases) auto
    then have "defrag_post c m (p + 2 + s) p q ((p, t, s) # bs) (eds_defragment_loop fuel' c m (p + 2 + s) 0)"
      using nofree [OF chain_ConsD(5) [OF ch] _ fu] ch by (intro defrag_post_Cons) simp_all
    then show ?thesis
      using False by (auto elim!: defrag_post_weaken)
  qed
  have first: "defrag_post c m p p q (b # bs) (eds_defragment_loop fuel c m p 0)"
    if ch: "chain c m p (b # bs) q" and p0: "p \<noteq> 0" and fu: "length (b # bs) < fuel" for m p fuel
  proof -
    obtain f where f: "fuel = Suc f" "length bs < f" using fu by (cases fuel) auto
    note h = chain_ConsD [OF ch [unfolded b]]
    have "eds_defragment_loop fuel c m p 0 = eds_defragment_loop f c m (p + 2 + s) (if t = 0 then p else 0)"
      using h(2,4,6,7) by (simp add: f EDS_BLOCK_IS_FREE_def Let_def)
    then show ?thesis
      using plain [of m p f] ch p0 f(2) h(1) b by (auto elim!: defrag_post_weaken)
  qed
  have second: "defrag_post c m (l + 1) l q ((l, 0, s1) # b # bs) (eds_defragment_loop fuel c m (l + 2 + s1) l)"
    if ch: "chain c m l ((l, 0, s1) # b # bs) q" and l0: "l \<noteq> 0" and fu: "length (b # bs) < fuel"
    for m l s1 fuel
  proof -
    obtain f where f: "fuel = Suc f" "length bs < f" using fu by (cases fuel) auto
    note hl = chain_ConsD [OF ch]
    define p where "p = l + 2 + s1"
    have chp: "chain c m p ((a, t, s) # bs) q" using hl(5) by (simp add: p_def b)
    note h = chain_ConsD [OF chp]
    have chq: "chain c m (p + 2 + s) bs q" and pp: "p < EDS_END c" using h by simp_all
    have lb: "l + 1 < 65536" using hl(4) EDS_END_bounds [of c] by linarith
    show ?thesis
    proof (cases "t = 0 \<and> s1 + 2 + s \<le> 255")
      case True
      define m' where "m' = m(l + 1 := of_nat (s1 + 2 + s))"
      have same: "m' x = m x" if "x \<noteq> l + 1" for x using that by (simp add: m'_def)
      have "unat (m' (l + 1)) = s1 + 2 + s"
        unfolding m'_def fun_upd_same using True by (intro unat_of_nat_u8) linarith
      moreover have "chain c m' (l + 2 + (s1 + 2 + s)) bs q"
        using chain_cong [OF same chq] by (simp add: p_def add.commute add.left_commute)
      ultimately have ch': "chain c m' l ((l, 0, s1 + 2 + s) # bs) q"
        using hl(2,4) same [of l] by (intro chain_ConsI) simp_all
      have set: "EDS_SET_BLOCK_SIZE m l (s1 + 2 + s) = m'"
        using lb by (simp add: EDS_SET_BLOCK_SIZE_def m'_def)
      have c1: "(l \<noteq> 0 \<and> EDS_BLOCK_IS_FREE m p \<and> s1 + 2 + s \<le> 255) = True"
        using True l0 h(2) by (simp add: EDS_BLOCK_IS_FREE_def)
      have c2: "EDS_BLOCK_IS_FREE m' l"
        using hl(2) same [of l] by (simp add: EDS_BLOCK_IS_FREE_def)
      have run: "eds_defragment_loop fuel c m p l = eds_defragment_loop f c m' (l + 2 + (s1 + 2 + s)) l"
        unfolding f eds_defragment_loop.simps hl(6) h(6) Let_def c1 set
        using pp c2 chain_ConsD(7) [OF ch'] by simp
      have "used_of m' bs = used_of m bs"
        using same chq hl(5) by (intro used_of_cong [of "p + 2 + s" q]) (auto simp: chain_def p_def)
      then have used: "used_of m' ((l, 0, s1 + 2 + s) # bs) = used_of m ((l, 0, s1) # b # bs)"
        using True b by (simp add: used_of_Cons)
      have sp: "defrag_spec ((l, 0, s1) # b # bs) = defrag_spec ((l, 0, s1 + 2 + s) # bs)"
        using True b by simp
      show ?thesis
        using free [OF ch' l0 f(2)] same unfolding run [unfolded p_def] defrag_post_def sp used by auto
    next
      case False
      then have c1: "(l \<noteq> 0 \<and> EDS_BLOCK_IS_FREE m p \<and> s1 + 2 + s \<le> 255) = False"
        using h(2) by (simp add: EDS_BLOCK_IS_FREE_def)
      have run: "eds_defragment_loop fuel c m p l = eds_defragment_loop f c m (p + 2 + s) (if t = 0 then p else 0)"
        unfolding f eds_defragment_loop.simps hl(6) h(6) Let_def c1
        using pp h(2,7) by (simp add: EDS_BLOCK_IS_FREE_def)
      have nm: "\<not> ((0 :: u8) = 0 \<and> t = 0 \<and> s1 + 2 + s \<le> 255)"
        using False by blast
      have sp: "defrag_spec ((l, 0, s1) # b # bs) = (l, 0, s1) # defrag_spec (b # bs)"
        unfolding b defrag_spec.simps if_not_P [OF nm] ..
      have "defrag_post c m p p q ((p, t, s) # bs) (eds_defragment_loop fuel c m p l)"
        unfolding run using plain [of m p f] chp h(1) f(2) by (auto simp: p_def elim!: defrag_post_weaken)
      then have "defrag_post c m p l q ((l, 0, s1) # b # bs) (eds_defragment_loop fuel c m p l)"
        unfolding p_def using b h(1) by (intro defrag_post_Cons [OF _ ch sp]) (simp add: p_def)
      then show ?thesis
        unfolding p_def by (rule defrag_post_weaken) simp
    qed
  qed
  show ?case using first second by blast
qed

text \<open>The fuel of \<open>eds_defragment\<close> is enough for every content of the EEPROM.\<close>

lemma chain_length: "chain c m p bs q \<Longrightarrow> p + 2 * length bs \<le> EDS_END c + 1 \<or> bs = []"
proof (induction bs arbitrary: p)
  case (Cons b bs)
  obtain a t s where b: "b = (a, t, s)" by (cases b)
  note h = chain_ConsD [OF Cons.prems [unfolded b]]
  show ?case using Cons.IH [OF h(5)] h(4) by auto
qed simp

lemma eds_defragment_total:
  "\<exists>m' q. eds_defragment c m = Some m' \<and> chain c m' EDS_DATA_START (defrag_spec (eds_blocks c m)) q
     \<and> chain c m EDS_DATA_START (eds_blocks c m) q
     \<and> eds_used c m' = eds_used c m \<and> (\<forall>a < EDS_DATA_START. m' a = m a)"
proof -
  obtain q where ch: "chain c m EDS_DATA_START (eds_blocks c m) q"
    using layout_chain [of c m EDS_DATA_START] by (auto simp: eds_blocks_def)
  have "length (eds_blocks c m) < EDS_END c"
    using chain_length [OF ch] EDS_END_bounds [of c] by auto
  with eds_defragment_loop_correct [THEN conjunct1, rule_format, OF ch]
  have "defrag_post c m EDS_DATA_START EDS_DATA_START q (eds_blocks c m) (eds_defragment c m)"
    by (simp add: eds_defragment_def)
  then obtain m' where m': "eds_defragment c m = Some m'"
    "chain c m' EDS_DATA_START (defrag_spec (eds_blocks c m)) q"
    "used_of m' (defrag_spec (eds_blocks c m)) = used_of m (eds_blocks c m)"
    "\<forall>a < EDS_DATA_START. m' a = m a"
    unfolding defrag_post_def by blast
  then show ?thesis
    using ch chain_blocks [OF m'(2)] by (auto simp: eds_used_def)
qed

lemma eds_defragment_correct:
  "\<exists>m'. eds_defragment c m = Some m' \<and> eds_blocks c m' = defrag_spec (eds_blocks c m) \<and>
     eds_used c m' = eds_used c m \<and> (eds_wf c m \<longrightarrow> eds_wf c m')"
proof -
  obtain m' q where m': "eds_defragment c m = Some m'"
    "chain c m' EDS_DATA_START (defrag_spec (eds_blocks c m)) q"
    "chain c m EDS_DATA_START (eds_blocks c m) q"
    "eds_used c m' = eds_used c m" "\<forall>a < EDS_DATA_START. m' a = m a"
    using eds_defragment_total [of c m] by blast
  have "eds_wf c m'" if wf: "eds_wf c m"
  proof -
    have "q = EDS_END c + 1"
      using m'(3) wf_chain [OF wf] unfolding chain_def by (metis tiles_end)
    with m'(2) have ch: "chain c m' EDS_DATA_START (defrag_spec (eds_blocks c m)) (EDS_END c + 1)"
      by simp
    show ?thesis
      unfolding chain_wf [OF ch] using m'(5) wf by (simp add: eds_wf_def)
  qed
  then show ?thesis
    using m'(1,4) chain_blocks [OF m'(2)] by blast
qed

subsection \<open>Formatting\<close>

text \<open>The free blocks the format writes.\<close>

function format_blocks :: "mcu \<Rightarrow> nat \<Rightarrow> blk list" where
  "format_blocks c p =
     (if p < EDS_END c - 2
      then (p, 0, min 128 (EDS_END c - (p + 1))) # format_blocks c (p + 2 + min 128 (EDS_END c - (p + 1)))
      else [])"
  by pat_completeness auto
termination
  by (relation "measure (\<lambda>(c, p). EDS_END c - p)") auto

declare format_blocks.simps [simp del]

lemma eds_format_loop_blocks:
  "(\<exists>q. tiles (eds_format_loop c m p) p (format_blocks c p) q) \<and>
   (\<forall>a < p. eds_format_loop c m p a = m a)"
proof (induction c p arbitrary: m rule: format_blocks.induct)
  case (1 c p)
  show ?case
  proof (cases "p < EDS_END c - 2")
    case False
    then show ?thesis
      by (intro conjI exI [of _ p]; subst eds_format_loop.simps; simp add: format_blocks.simps)
  next
    case True
    define sz where "sz = min 128 (EDS_END c - (p + 1))"
    define m2 where "m2 = m(p := 0, p + 1 := of_nat sz)"
    have l: "eds_format_loop c m p = eds_format_loop c m2 (p + 2 + sz)"
      using True by (subst eds_format_loop.simps) (simp add: Let_def m2_def sz_def min_def)
    have f: "format_blocks c p = (p, 0, sz) # format_blocks c (p + 2 + sz)"
      using True by (subst format_blocks.simps) (simp add: sz_def)
    have ih: "\<exists>q. tiles (eds_format_loop c m p) (p + 2 + sz) (format_blocks c (p + 2 + sz)) q"
      "\<forall>a < p + 2 + sz. eds_format_loop c m p a = m2 a"
      using 1 [OF True, of m2] by (simp_all add: l sz_def)
    have "sz < 256" by (simp add: sz_def)
    then have "eds_format_loop c m p p = 0" "unat (eds_format_loop c m p (p + 1)) = sz"
      using ih(2) by (simp_all add: m2_def)
    moreover have "\<forall>a < p. eds_format_loop c m p a = m a"
      using ih(2) by (simp add: m2_def)
    ultimately show ?thesis
      using ih(1) unfolding f tiles.simps by blast
  qed
qed

lemma format_blocks_free: "(a, t, s) \<in> set (format_blocks c p) \<Longrightarrow> t = 0 \<and> a < EDS_END c"
proof (induction c p rule: format_blocks.induct)
  case (1 c p)
  then show ?case
    by (subst (asm) (2) format_blocks.simps) (auto split: if_splits)
qed

lemma format_end:
  "tiles m EDS_DATA_START (format_blocks c EDS_DATA_START) q \<Longrightarrow> q = EDS_END c + 1"
  by (cases c) (simp_all add: format_blocks.simps)

lemma eds_format_correct:
  "eds_wf c (eds_format c m)" "eds_blocks c (eds_format c m) = format_blocks c EDS_DATA_START"
  "eds_used c (eds_format c m) = []"
proof -
  define m0 where "m0 = m(EDS_START := EDS_MAGIC1, EDS_START + 1 := EDS_MAGIC2)"
  have f: "eds_format c m = eds_format_loop c m0 EDS_DATA_START"
    by (simp add: eds_format_def m0_def)
  obtain q where t: "tiles (eds_format c m) EDS_DATA_START (format_blocks c EDS_DATA_START) q"
    and keep: "\<forall>a < EDS_DATA_START. eds_format c m a = m0 a"
    using eds_format_loop_blocks [of c m0 EDS_DATA_START] by (auto simp: f)
  have ch: "chain c (eds_format c m) EDS_DATA_START (format_blocks c EDS_DATA_START) (EDS_END c + 1)"
    using t format_end [OF t] format_blocks_free by (fastforce simp: chain_def)
  show b: "eds_blocks c (eds_format c m) = format_blocks c EDS_DATA_START"
    by (rule chain_blocks [OF ch])
  show "eds_wf c (eds_format c m)"
    unfolding chain_wf [OF ch] using keep by (simp add: m0_def)
  show "eds_used c (eds_format c m) = []"
    unfolding eds_used_def b used_of_def
    by (auto simp: filter_empty_conv dest: format_blocks_free)
qed

subsection \<open>Searching\<close>

text \<open>
  The searches from a block head: the next block behind it whose type fits; when there is
  none, the type is still looked up at the end \<open>q\<close> of the chain.
\<close>

lemma eds_find_loop_correct:
  "chain c m p (b # bs) q \<Longrightarrow> eds_find_loop c m t1 t2 p =
    (case find (\<lambda>(a, t, s). t1 \<le> t \<and> t \<le> t2) bs of
       Some (a, t, s) \<Rightarrow> a
     | None \<Rightarrow> if t1 \<le> m q \<and> m q \<le> t2 then q else 0)"
proof (induction bs arbitrary: p b)
  case Nil
  obtain a t s where b: "b = (a, t, s)" by (cases b)
  note h = chain_ConsD [OF Nil.prems [unfolded b]]
  have q: "q = p + 2 + s" "\<not> q < EDS_END c" using h(5) by (auto simp: chain_def)
  show ?case
    using h(4,7) q
    by (subst eds_find_loop.simps, subst eds_find_loop.simps) (simp add: Let_def EDS_BLOCK_TYPE_def)
next
  case (Cons b' bs)
  obtain a t s where b: "b = (a, t, s)" by (cases b)
  obtain a' t' s' where b': "b' = (a', t', s')" by (cases b')
  note h = chain_ConsD [OF Cons.prems [unfolded b]]
  note h' = chain_ConsD [OF h(5) [unfolded b']]
  show ?case
    using h(4,7) h'(1,2) Cons.IH [OF h(5)] b'
    by (subst eds_find_loop.simps) (simp add: Let_def EDS_BLOCK_TYPE_def)
qed

lemma eds_find_eq_loop_between: "eds_find_eq_loop c m t p = eds_find_loop c m t t p"
proof (induction c m t p rule: eds_find_eq_loop.induct)
  case (1 c m t p)
  then show ?case
    by (subst eds_find_eq_loop.simps, subst eds_find_loop.simps) (auto simp: Let_def)
qed

section \<open>The store as clients see it\<close>

text \<open>
  A store of typed blocks: allocation adds a block and leaves the others alone, release
  removes exactly the given block, a write changes a byte of one block.
\<close>

locale block_store =
  fixes inv :: "'s \<Rightarrow> bool"
    and used :: "'s \<Rightarrow> (nat \<times> u8 \<times> u8 list) list"
    and alloc :: "'s \<Rightarrow> u8 \<Rightarrow> u8 \<Rightarrow> (nat \<times> 's) option"
    and release :: "'s \<Rightarrow> nat \<Rightarrow> 's"
  assumes alloc_inv: "inv s \<Longrightarrow> t \<noteq> 0 \<Longrightarrow> alloc s t n = Some (p, s') \<Longrightarrow> inv s'"
    and alloc_fresh: "inv s \<Longrightarrow> t \<noteq> 0 \<Longrightarrow> alloc s t n = Some (p, s') \<Longrightarrow> p \<notin> fst ` set (used s)"
    and alloc_block: "inv s \<Longrightarrow> t \<noteq> 0 \<Longrightarrow> alloc s t n = Some (p, s') \<Longrightarrow>
      \<exists>bs. length bs = unat n \<and> (p, t, bs) \<in> set (used s')"
    and alloc_others: "inv s \<Longrightarrow> t \<noteq> 0 \<Longrightarrow> alloc s t n = Some (p, s') \<Longrightarrow>
      filter (\<lambda>u. fst u \<noteq> p) (used s') = used s"
    and release_inv: "inv s \<Longrightarrow> p \<in> fst ` set (used s) \<Longrightarrow> inv (release s p)"
    and release_used: "inv s \<Longrightarrow> p \<in> fst ` set (used s) \<Longrightarrow>
      used (release s p) = filter (\<lambda>u. fst u \<noteq> p) (used s)"
begin

text \<open>Allocating a block and releasing it again restores the store's contents.\<close>

lemma alloc_release:
  assumes "inv s" "t \<noteq> 0" "alloc s t n = Some (p, s')"
  shows "inv (release s' p) \<and> used (release s' p) = used s"
proof -
  have i: "inv s'" by (rule alloc_inv [OF assms])
  have "p \<in> fst ` set (used s')" using alloc_block [OF assms] by force
  with i show ?thesis
    by (simp add: release_inv release_used alloc_others [OF assms])
qed

text \<open>A series of allocations: every block of the result is an old or a new one.\<close>

fun alloc_many :: "'s \<Rightarrow> (u8 \<times> u8) list \<Rightarrow> (nat list \<times> 's) option" where
  "alloc_many s [] = Some ([], s)"
| "alloc_many s ((t, n) # rs) =
     (case alloc s t n of None \<Rightarrow> None
      | Some (p, s1) \<Rightarrow> map_option (\<lambda>(ps, s2). (p # ps, s2)) (alloc_many s1 rs))"

lemma alloc_many_keeps:
  "inv s \<Longrightarrow> \<forall>(t, n) \<in> set rs. t \<noteq> 0 \<Longrightarrow> alloc_many s rs = Some (ps, s') \<Longrightarrow>
   inv s' \<and> filter (\<lambda>u. fst u \<notin> set ps) (used s') = used s \<and> distinct ps"
proof (induction rs arbitrary: s ps)
  case (Cons r rs)
  obtain t n where r: "r = (t, n)" by (cases r)
  from Cons.prems(3) obtain p s1 ps1 where a: "alloc s t n = Some (p, s1)"
    and b: "alloc_many s1 rs = Some (ps1, s')" and ps: "ps = p # ps1"
    by (auto simp: r split: option.splits)
  have t0: "t \<noteq> 0" using Cons.prems(2) r by auto
  note i1 = alloc_inv [OF Cons.prems(1) t0 a]
  have ih: "inv s'" "filter (\<lambda>u. fst u \<notin> set ps1) (used s') = used s1" "distinct ps1"
    using Cons.IH [OF i1 _ b] Cons.prems(2) by auto
  have "filter (\<lambda>u. fst u \<notin> set ps) (used s') = filter (\<lambda>u. fst u \<noteq> p) (used s1)"
    unfolding ih(2) [symmetric] filter_filter ps by (rule arg_cong2 [where f = filter]) auto
  also have "\<dots> = used s" by (rule alloc_others [OF Cons.prems(1) t0 a])
  finally have "filter (\<lambda>u. fst u \<notin> set ps) (used s') = used s" .
  moreover have "p \<notin> set ps1"
  proof
    assume "p \<in> set ps1"
    moreover have "p \<in> fst ` set (used s1)"
      using alloc_block [OF Cons.prems(1) t0 a] by force
    moreover have "\<forall>u \<in> set (used s1). fst u \<notin> set ps1"
      unfolding ih(2) [symmetric] by simp
    ultimately show False by auto
  qed
  ultimately show ?case using ih ps by simp
qed auto

end

text \<open>The block store of the code: allocation with the mark of the request, and release.\<close>

definition alloc_typed :: "mcu \<Rightarrow> eeprom \<Rightarrow> u8 \<Rightarrow> u8 \<Rightarrow> (nat \<times> eeprom) option" where
  "alloc_typed c m t n =
     (let (p, m1) = eds_alloc c m n in if p = 0 then None else Some (p, EDS_SET_BLOCK_TYPE m1 p t))"

lemma wf_head_pos:
  assumes "eds_wf c m" and "p \<in> fst ` set (eds_blocks c m)"
  shows "EDS_DATA_START \<le> p"
proof -
  obtain t s where "(p, t, s) \<in> set (eds_blocks c m)" using assms(2) by force
  then show ?thesis
    using tiles_bounds wf_chain [OF assms(1)] unfolding chain_def by blast
qed

lemma alloc_typed_Some:
  assumes wf: "eds_wf c m" and al: "alloc_typed c m t n = Some (p, m')"
  obtains m1 where "eds_alloc c m n = (p, m1)" "m' = m1(p := t)" "eds_wf c m1"
    "eds_used c m1 = eds_used c m" "(p, 0, unat n) \<in> set (eds_blocks c m1)"
proof -
  obtain m1 where m1: "eds_alloc c m n = (p, m1)" "p \<noteq> 0" "m' = m1(p := t)"
    using al by (auto simp: alloc_typed_def EDS_SET_BLOCK_TYPE_def split: prod.splits if_splits)
  note cor = eds_alloc_correct [OF wf m1(1)]
  with m1(2) obtain bs' where sp: "alloc_spec (unat n) (eds_blocks c m) = Some (p, bs')"
    by (auto split: option.splits)
  then have "eds_wf c m1" "eds_blocks c m1 = bs'" "eds_used c m1 = eds_used c m"
    using cor by simp_all
  then show thesis using that m1 alloc_spec_Some [OF sp] by auto
qed

lemma alloc_typed_None:
  assumes wf: "eds_wf c m"
  shows "alloc_typed c m t n = None \<longleftrightarrow> alloc_spec (unat n) (eds_blocks c m) = None"
proof -
  obtain p m1 where e: "eds_alloc c m n = (p, m1)" by fastforce
  note cor = eds_alloc_correct [OF wf e]
  have "p \<noteq> 0" if "alloc_spec (unat n) (eds_blocks c m) = Some (r, bs')" for r bs'
    using cor that alloc_spec_Some [OF that] wf_head_pos [OF wf] by fastforce
  then show ?thesis
    using cor e by (cases "alloc_spec (unat n) (eds_blocks c m)") (auto simp: alloc_typed_def)
qed

lemma head_not_used:
  assumes wf: "eds_wf c m" and h: "(p, 0, s) \<in> set (eds_blocks c m)"
  shows "p \<notin> fst ` set (eds_used c m)"
proof
  assume "p \<in> fst ` set (eds_used c m)"
  then obtain t s' where u: "(p, t, s') \<in> set (eds_blocks c m)" "t \<noteq> 0"
    by (auto simp: eds_used_def used_of_def)
  have "distinct (map fst (eds_blocks c m))"
    using wf_chain [OF wf] tiles_distinct by (auto simp: chain_def)
  then show False
    using u h by (metis eq_key_imp_eq_value prod.inject)
qed

lemma alloc_typed_law:
  assumes wf: "eds_wf c m" and t0: "t \<noteq> 0" and al: "alloc_typed c m t n = Some (p, m')"
  shows "eds_wf c m'" "p \<notin> fst ` set (eds_used c m)"
    "\<exists>bs. length bs = unat n \<and> (p, t, bs) \<in> set (eds_used c m')"
    "filter (\<lambda>u. fst u \<noteq> p) (eds_used c m') = eds_used c m"
proof -
  obtain m1 where m1: "m' = m1(p := t)" "eds_wf c m1"
    "eds_used c m1 = eds_used c m" "(p, 0, unat n) \<in> set (eds_blocks c m1)"
    using alloc_typed_Some [OF wf al] by blast
  have hd: "p \<in> fst ` set (eds_blocks c m1)" using m1(4) by force
  have ti: "tiles m1 EDS_DATA_START (eds_blocks c m1) (EDS_END c + 1)"
    using wf_chain [OF m1(2)] by (simp add: chain_def)
  note re = eds_retype [OF m1(2) hd, of t]
  have us: "eds_used c m' = used_of (m1(p := t)) (retype p t (eds_blocks c m1))"
    unfolding eds_used_def m1(1) re(2) ..
  show "eds_wf c m'" unfolding m1(1) by (rule re(1))
  show fresh: "p \<notin> fst ` set (eds_used c m)"
    using head_not_used [OF m1(2,4)] by (simp add: m1(3))
  have "(p, t, map m1 [p + 2..<p + 2 + unat n]) \<in> set (eds_used c m')"
    unfolding us by (rule used_of_marked [OF ti m1(4) t0])
  moreover have "length (map m1 [p + 2..<p + 2 + unat n]) = unat n"
    by (simp only: length_map length_upt)
  ultimately show "\<exists>bs. length bs = unat n \<and> (p, t, bs) \<in> set (eds_used c m')"
    by blast
  have "filter (\<lambda>u. fst u \<noteq> p) (eds_used c m') = filter (\<lambda>u. fst u \<noteq> p) (eds_used c m1)"
    unfolding us by (subst used_of_retype_others [OF ti hd order_refl]) (simp add: eds_used_def)
  also have "\<dots> = eds_used c m"
    unfolding m1(3) using fresh by (intro filter_True) auto
  finally show "filter (\<lambda>u. fst u \<noteq> p) (eds_used c m') = eds_used c m" .
qed

lemma eds_free_law:
  assumes wf: "eds_wf c m" and p: "p \<in> fst ` set (eds_blocks c m)"
  shows "eds_free c m p = (EDS_OK, m(p := 0))" "eds_wf c (m(p := 0))"
    "eds_used c (m(p := 0)) = filter (\<lambda>u. fst u \<noteq> p) (eds_used c m)"
proof -
  show "eds_free c m p = (EDS_OK, m(p := 0))"
    using p by (simp add: eds_free_correct [OF wf])
  note re = eds_retype [OF wf p, of 0]
  show "eds_wf c (m(p := 0))" by (rule re(1))
  have ti: "tiles m EDS_DATA_START (eds_blocks c m) (EDS_END c + 1)"
    using wf_chain [OF wf] by (simp add: chain_def)
  have "eds_used c (m(p := 0)) = used_of (m(p := 0)) (retype p 0 (eds_blocks c m))"
    unfolding eds_used_def re(2) ..
  also have "\<dots> = filter (\<lambda>u. fst u \<noteq> p) (used_of (m(p := 0)) (retype p 0 (eds_blocks c m)))"
    by (rule used_of_freed)
  also have "\<dots> = filter (\<lambda>u. fst u \<noteq> p) (eds_used c m)"
    by (subst used_of_retype_others [OF ti p order_refl]) (simp add: eds_used_def)
  finally show "eds_used c (m(p := 0)) = filter (\<lambda>u. fst u \<noteq> p) (eds_used c m)" .
qed

lemma used_head: "p \<in> fst ` set (eds_used c m) \<Longrightarrow> p \<in> fst ` set (eds_blocks c m)"
  by (force simp: eds_used_def used_of_def)

interpretation eds_store: block_store "eds_wf c" "eds_used c" "alloc_typed c"
  "\<lambda>m p. snd (eds_free c m p)" for c
proof unfold_locales
  fix s :: eeprom and p assume a: "eds_wf c s" "p \<in> fst ` set (eds_used c s)"
  note law = eds_free_law [OF a(1) used_head [OF a(2)]]
  show "eds_wf c (snd (eds_free c s p))" unfolding law(1) using law(2) by simp
  show "eds_used c (snd (eds_free c s p)) = filter (\<lambda>u. fst u \<noteq> p) (eds_used c s)"
    unfolding law(1) using law(3) by simp
qed (fact alloc_typed_law)+

section \<open>Properties\<close>

text \<open>An EEPROM as the manufacturer delivers it, and after the first format.\<close>

definition blank_eeprom :: eeprom where
  "blank_eeprom = (\<lambda>_. 0xff)"

definition fresh_eeprom :: eeprom where
  "fresh_eeprom = eds_format ATmega32 blank_eeprom"

lemma fresh_eeprom_facts [simp]:
  "eds_wf ATmega32 fresh_eeprom" "eds_used ATmega32 fresh_eeprom = []"
  "eds_blocks ATmega32 fresh_eeprom =
     [(34, 0, 128), (164, 0, 128), (294, 0, 128), (424, 0, 128), (554, 0, 128), (684, 0, 128),
      (814, 0, 128), (944, 0, 78)]"
  by (simp_all add: fresh_eeprom_def eds_format_correct format_blocks.simps)

definition eds_request :: "u8 list \<Rightarrow> canix_frame" where
  "eds_request bs = mk_frame 800 7 HCAN_PROTO_SFP (HCAN_SRV_EDS # bs)"

lemma byte_at_eds_request [simp]: "byte_at (eds_request bs) i = nth_default 0 (HCAN_SRV_EDS # bs) i"
  by (simp add: eds_request_def)

text \<open>The callback's answer to an allocation request, over the typed allocation.\<close>

lemma callback_allocate:
  assumes wf: "eds_wf c m" and cmd: "byte_at f 1 = HCAN_EDS_ALLOCATE_BLOCK"
  shows "eds_can_callback c self m f =
    (let r = alloc_typed c m (byte_at f 2) (byte_at f 3);
         p = (case r of None \<Rightarrow> 0 | Some (p, m') \<Rightarrow> p);
         m' = (case r of None \<Rightarrow> m(0 := byte_at f 2) | Some (p, m') \<Rightarrow> m')
     in (m', [eds_answer self f [HCAN_EDS_ALLOCATE_BLOCK_REPLAY, hi8 (of_nat p), lo8 (of_nat p)]]))"
proof -
  obtain p m1 where e: "eds_alloc c m (byte_at f 3) = (p, m1)" by fastforce
  have z: "m1 = m" if "p = 0"
  proof -
    have "alloc_typed c m (byte_at f 2) (byte_at f 3) = None"
      using that e by (simp add: alloc_typed_def)
    then have "alloc_spec (unat (byte_at f 3)) (eds_blocks c m) = None"
      by (simp only: alloc_typed_None [OF wf])
    then show ?thesis using eds_alloc_correct [OF wf e] by simp
  qed
  show ?thesis
  proof (cases "p = 0")
    case True
    then show ?thesis
      using cmd e z by (simp add: eds_can_callback_def alloc_typed_def EDS_SET_BLOCK_TYPE_def)
  next
    case False
    then show ?thesis
      using cmd e by (simp add: eds_can_callback_def alloc_typed_def EDS_SET_BLOCK_TYPE_def)
  qed
qed

text \<open>
  Property C9. Allocation over the bus: on a well-formed data area with a free block that
  fits exactly or with room for a header more, \<^verbatim>\<open>HCAN_EDS_ALLOCATE_BLOCK\<close> answers
  the address of the first such block; the area stays well-formed, has a new block of the
  requested type and size there, and no other used block has changed, moved or lost a byte.
\<close>

theorem eds_allocate_request:
  assumes "eds_wf c m" and "byte_at f 1 = HCAN_EDS_ALLOCATE_BLOCK" and "byte_at f 2 \<noteq> 0"
    and "alloc_spec (unat (byte_at f 3)) (eds_blocks c m) = Some (p, bs')"
  shows "\<exists>m' payload. eds_can_callback c self m f =
      (m', [eds_answer self f [HCAN_EDS_ALLOCATE_BLOCK_REPLAY, hi8 (of_nat p), lo8 (of_nat p)]]) \<and>
    eds_wf c m' \<and> length payload = unat (byte_at f 3) \<and>
    (p, byte_at f 2, payload) \<in> set (eds_used c m') \<and>
    p \<notin> fst ` set (eds_used c m) \<and> filter (\<lambda>u. fst u \<noteq> p) (eds_used c m') = eds_used c m"
proof -
  obtain p' m' where al: "alloc_typed c m (byte_at f 2) (byte_at f 3) = Some (p', m')"
    using assms(4) alloc_typed_None [OF assms(1)] by (metis not_None_eq option.distinct(1) surj_pair)
  then have "p' = p"
    using eds_alloc_correct [OF assms(1)] assms(4)
    by (fastforce simp: alloc_typed_def split: prod.splits if_splits)
  then show ?thesis
    using eds_store.alloc_inv [OF assms(1,3) al] eds_store.alloc_fresh [OF assms(1,3) al]
      eds_store.alloc_block [OF assms(1,3) al] eds_store.alloc_others [OF assms(1,3) al]
      callback_allocate [OF assms(1,2), of self] al
    by auto
qed

theorem eds_allocate_request_witness:
  "\<exists>m' payload. eds_can_callback ATmega32 7 fresh_eeprom (eds_request [HCAN_EDS_ALLOCATE_BLOCK, 65, 4]) =
      (m', [eds_answer 7 (eds_request [HCAN_EDS_ALLOCATE_BLOCK, 65, 4])
              [HCAN_EDS_ALLOCATE_BLOCK_REPLAY, 0, 34]]) \<and>
    length payload = 4 \<and> (34, 65, payload) \<in> set (eds_used ATmega32 m')"
proof -
  let ?f = "eds_request [HCAN_EDS_ALLOCATE_BLOCK, 65, 4]"
  have a: "byte_at ?f 1 = HCAN_EDS_ALLOCATE_BLOCK" "byte_at ?f 2 \<noteq> 0" by simp_all
  have b: "alloc_spec (unat (byte_at ?f 3)) (eds_blocks ATmega32 fresh_eeprom) =
      Some (34, [(34, 0, 4), (40, 0, 122), (164, 0, 128), (294, 0, 128), (424, 0, 128),
        (554, 0, 128), (684, 0, 128), (814, 0, 128), (944, 0, 78)])"
    by simp
  show ?thesis
    using eds_allocate_request [OF fresh_eeprom_facts(1) a b, of 7] by (auto simp: hi8_def lo8_def)
qed

text \<open>
  When no free block fits, \<^verbatim>\<open>HCAN_EDS_ALLOCATE_BLOCK\<close> answers 0,
  but writes the requested type over byte 0 of the EEPROM, the reserved pointer
  \<^verbatim>\<open>EEPR_APP_START\<close> to the application area.
\<close>

theorem eds_allocate_full_overwrites_app_start:
  assumes "eds_wf c m" and "byte_at f 1 = HCAN_EDS_ALLOCATE_BLOCK"
    and "\<forall>(a, t, s) \<in> set (eds_blocks c m). t = 0 \<longrightarrow>
           s \<noteq> unat (byte_at f 3) \<and> s < unat (byte_at f 3) + 2"
  shows "eds_can_callback c self m f =
    (m(EEPR_APP_START := byte_at f 2), [eds_answer self f [HCAN_EDS_ALLOCATE_BLOCK_REPLAY, 0, 0]])"
proof -
  have "alloc_typed c m (byte_at f 2) (byte_at f 3) = None"
    using assms(3) by (simp add: alloc_typed_None [OF assms(1)] alloc_spec_None)
  then show ?thesis
    by (simp add: callback_allocate [OF assms(1,2)] hi8_def lo8_def)
qed

theorem eds_allocate_full_overwrites_app_start_witness:
  "fst (eds_can_callback ATmega32 7 fresh_eeprom (eds_request [HCAN_EDS_ALLOCATE_BLOCK, 65, 200]))
     EEPR_APP_START = 65"
proof -
  let ?f = "eds_request [HCAN_EDS_ALLOCATE_BLOCK, 65, 200]"
  have a: "byte_at ?f 1 = HCAN_EDS_ALLOCATE_BLOCK" by simp
  have b: "\<forall>(a, t, s) \<in> set (eds_blocks ATmega32 fresh_eeprom). t = 0 \<longrightarrow>
           s \<noteq> unat (byte_at ?f 3) \<and> s < unat (byte_at ?f 3) + 2"
    by simp
  show ?thesis
    using eds_allocate_full_overwrites_app_start [OF fresh_eeprom_facts(1) a b, of 7] by simp
qed

text \<open>
  Property C10. \<^verbatim>\<open>HCAN_EDS_DEFRAGMENT\<close> ends for every content of the EEPROM, even
  a corrupt one (the fuel of the model is enough); it joins free neighbours until no two of
  them fit into one block, and leaves every used block where and as it is. A well-formed
  area stays well-formed.
\<close>

theorem eds_defragment_total_and_merged:
  "\<exists>m'. eds_defragment c m = Some m' \<and> merged (eds_blocks c m') \<and>
     eds_used c m' = eds_used c m \<and> (eds_wf c m \<longrightarrow> eds_wf c m')"
  using eds_defragment_correct [of c m] merged_defrag_spec by auto

theorem eds_defragment_total_and_merged_witness:
  "\<exists>m'. eds_defragment ATmega32 fresh_eeprom = Some m' \<and> eds_wf ATmega32 m' \<and> eds_used ATmega32 m' = []"
  using eds_defragment_total_and_merged [of ATmega32 fresh_eeprom] by auto

text \<open>
  Property C11. Every request of the EDS service other than a raw write keeps the area
  well-formed, whatever its arguments are (unknown commands, pointers into the middle of a
  block and full areas included); the raw write answers without a check.
\<close>

theorem eds_requests_keep_chain:
  assumes "eds_wf c m" and "byte_at f 1 \<noteq> HCAN_EDS_WRITE_TO_BLOCK"
  shows "eds_wf c (fst (eds_can_callback c self m f))"
proof -
  have zero: "eds_wf c (m(0 := t))" for t
  proof -
    have "chain c (m(0 := t)) EDS_DATA_START (eds_blocks c m) (EDS_END c + 1)"
      by (rule chain_cong [OF _ wf_chain [OF assms(1)]]) simp
    then show ?thesis using assms(1) by (simp add: chain_wf) (simp add: eds_wf_def)
  qed
  have al: "eds_wf c m'" if al: "alloc_typed c m t n = Some (p, m')" for t n p m'
  proof -
    obtain m1 where m1: "m' = m1(p := t)" "eds_wf c m1" "(p, 0, unat n) \<in> set (eds_blocks c m1)"
      using alloc_typed_Some [OF assms(1) al] by blast
    have "p \<in> fst ` set (eds_blocks c m1)" using m1(3) by force
    then show ?thesis unfolding m1(1) by (rule eds_retype(1) [OF m1(2)])
  qed
  obtain m2 where m2: "eds_defragment c m = Some m2" "eds_wf c m2"
    using eds_defragment_correct [of c m] assms(1) by blast
  have fr: "eds_wf c (snd (eds_free c m r))" for r
    using eds_free_law [OF assms(1)] assms(1) by (auto simp: eds_free_correct [OF assms(1)])
  show ?thesis
  proof (cases "byte_at f 1 = HCAN_EDS_ALLOCATE_BLOCK")
    case True
    then show ?thesis
      using zero al
      by (cases "alloc_typed c m (byte_at f 2) (byte_at f 3)")
        (auto simp: callback_allocate [OF assms(1)] Let_def)
  next
    case False
    then show ?thesis
      using assms fr [of "unat (mk16 (byte_at f 2) (byte_at f 3))"] m2
      by (auto simp: eds_can_callback_def eds_format_correct(1) Let_def split: prod.splits)
  qed
qed

theorem eds_requests_keep_chain_witness:
  "eds_wf ATmega32 (fst (eds_can_callback ATmega32 7 fresh_eeprom (eds_request [HCAN_EDS_FREE_BLOCK, 0, 35])))"
  by (rule eds_requests_keep_chain) simp_all

text \<open>
  The client's round trip: releasing a block with \<^verbatim>\<open>eds_free\<close>
  right after its allocation succeeds and restores exactly the used blocks there were.
\<close>

theorem eds_alloc_free_roundtrip:
  assumes "eds_wf c m" and "t \<noteq> 0" and "alloc_typed c m t n = Some (p, m')"
  shows "fst (eds_free c m' p) = EDS_OK \<and> eds_wf c (snd (eds_free c m' p)) \<and>
    eds_used c (snd (eds_free c m' p)) = eds_used c m"
proof -
  have "p \<in> fst ` set (eds_used c m')"
    using eds_store.alloc_block [OF assms] by force
  then have "fst (eds_free c m' p) = EDS_OK"
    using eds_free_law(1) [OF eds_store.alloc_inv [OF assms] used_head] by simp
  then show ?thesis using eds_store.alloc_release [OF assms] by simp
qed

theorem eds_alloc_free_roundtrip_witness:
  "\<exists>p m'. alloc_typed ATmega32 fresh_eeprom 65 4 = Some (p, m') \<and>
     eds_used ATmega32 (snd (eds_free ATmega32 m' p)) = []"
proof -
  have t: "(65 :: u8) \<noteq> 0" by simp
  have "alloc_typed ATmega32 fresh_eeprom 65 4 \<noteq> None"
    by (simp add: alloc_typed_None)
  then obtain p m' where a: "alloc_typed ATmega32 fresh_eeprom 65 4 = Some (p, m')"
    by auto
  then show ?thesis
    using eds_alloc_free_roundtrip [OF fresh_eeprom_facts(1) t a] by auto
qed

text \<open>
  The search for the next block of a type range: from the head of a block it
  yields the next block behind it whose type lies in the range. When there is none it looks
  at the byte behind the data area, which on a well-formed area lies outside the EEPROM, and
  reports that address as a block if the byte happens to fit; otherwise it yields null.
\<close>

theorem eds_find_next_block_result:
  assumes "eds_wf c m" and "eds_blocks c m = xs @ (p, t, s) # ys"
  shows "eds_find_next_block_between c m p t1 t2 =
    (case find (\<lambda>(a, t, s). t1 \<le> t \<and> t \<le> t2) ys of
       Some (a, t, s) \<Rightarrow> a
     | None \<Rightarrow> if t1 \<le> m (EDS_END c + 1) \<and> m (EDS_END c + 1) \<le> t2 then EDS_END c + 1 else 0)"
proof -
  have ch: "chain c m EDS_DATA_START (xs @ (p, t, s) # ys) (EDS_END c + 1)"
    using wf_chain [OF assms(1)] assms(2) by simp
  then have "chain c m p ((p, t, s) # ys) (EDS_END c + 1)"
    by (auto simp: chain_def tiles_append)
  moreover have "p \<noteq> 0"
    using wf_head_pos [OF assms(1), of p] assms(2) by (auto simp: image_iff)
  ultimately show ?thesis
    unfolding eds_find_next_block_between_def by (simp only: if_False eds_find_loop_correct)
qed

theorem eds_find_next_block_result_witness:
  "eds_find_next_block_between ATmega32 fresh_eeprom 944 0 255 = 1024"
proof -
  have b: "eds_blocks ATmega32 fresh_eeprom =
     [(34, 0, 128), (164, 0, 128), (294, 0, 128), (424, 0, 128), (554, 0, 128), (684, 0, 128),
      (814, 0, 128)] @ (944, 0, 78) # []"
    by simp
  show ?thesis
    using eds_find_next_block_result [OF fresh_eeprom_facts(1) b, of 0 255]
    by (simp add: word_le_nat_alt)
qed

end
