(* ===== verification/Canix_Rtc.thy ===== *)
theory Canix_Rtc
  imports Hcan_Protocol
begin

text \<open>
  The board's clock: \<^verbatim>\<open>canix_rtc_clock\<close> with its update once a second
  (\<^verbatim>\<open>src/canix/canix.c\<close>), the interval test of
  \<^verbatim>\<open>src/canix/tools.c\<close> and the time service handler of
  \<^verbatim>\<open>src/canix/hcan_rts.c\<close>. \<open>int\<close> has 16 bits on the AVR, so the
  handler's seconds of the day are computed in 16 bits here too.
\<close>

section \<open>The clock\<close>

record canix_rtc_clock =
  uptime_sec :: u32
  uptime_sec_100th :: u8
  day_of_week :: u8
  hour :: u8
  minute :: u8
  second :: u8
  last_date_update :: u8
  day_of_month :: u8
  month_of_year :: u8
  year :: u8

definition canix_rtc_init :: canix_rtc_clock where
  "canix_rtc_init = \<lparr>uptime_sec = 0, uptime_sec_100th = 0, day_of_week = 0, hour = 0, minute = 0,
     second = 0, last_date_update = 255, day_of_month = 0, month_of_year = 0, year = 0\<rparr>"

definition ndays :: "u8 \<Rightarrow> u8" where
  "ndays m =
     (if m = 1 then 31 else if m = 2 then 28 else if m = 3 then 31 else if m = 4 then 30
      else if m = 5 then 31 else if m = 6 then 30 else if m = 7 then 31 else if m = 8 then 31
      else if m = 9 then 30 else if m = 10 then 31 else if m = 11 then 30 else if m = 12 then 31
      else 0)"

text \<open>The part of \<^verbatim>\<open>canix_update_datetime\<close> for a new day.\<close>

definition update_date :: "canix_rtc_clock \<Rightarrow> canix_rtc_clock" where
  "update_date c =
     (let dow = day_of_week c + 1;
          c = c\<lparr>day_of_week := (if dow = 8 then 1 else dow),
               day_of_month := day_of_month c + 1\<rparr>
      in if day_of_month c > ndays (month_of_year c)
         then (let c = c\<lparr>day_of_month := 1, month_of_year := month_of_year c + 1\<rparr>
               in if month_of_year c > 12
                  then c\<lparr>month_of_year := 1, year := year c + 1\<rparr> else c)
         else c)"

definition canix_update_datetime :: "canix_rtc_clock \<Rightarrow> canix_rtc_clock" where
  "canix_update_datetime c =
     (let c = c\<lparr>second := second c + 1\<rparr> in
      if second c = 60 then
        (let c = c\<lparr>second := 0, minute := minute c + 1\<rparr> in
         if minute c = 60 then
           (let c = c\<lparr>minute := 0\<rparr>;
                c = (if last_date_update c < 255
                     then c\<lparr>last_date_update := last_date_update c + 1\<rparr> else c);
                c = c\<lparr>hour := hour c + 1\<rparr>
            in if hour c = 24 then update_date (c\<lparr>hour := 0\<rparr>) else c)
         else c)
      else c)"

definition canix_is_date_valid :: "canix_rtc_clock \<Rightarrow> bool" where
  "canix_is_date_valid c \<longleftrightarrow> last_date_update c \<noteq> 255"

section \<open>The interval test of tools.c\<close>

definition time_matches ::
  "canix_rtc_clock \<Rightarrow> u8 \<Rightarrow> u8 \<Rightarrow> u8 \<Rightarrow> u8 \<Rightarrow> u8 \<Rightarrow> bool" where
  "time_matches c from_hour from_minute to_hour to_minute day_pattern =
     (let t1 = (ucast from_hour :: u16) * 60 + ucast from_minute;
          t2 = (ucast to_hour :: u16) * 60 + ucast to_minute;
          tnow = (ucast (hour c) :: u16) * 60 + ucast (minute c);
          tnow' = (if t2 < t1 \<and> tnow < t1 then tnow + 1440 else tnow);
          t2' = (if t2 < t1 then t2 + 1440 else t2)
      in bit day_pattern (unat (day_of_week c)) \<and> t1 \<le> tnow' \<and> tnow' \<le> t2')"

section \<open>The time service handler\<close>

text \<open>Seconds of the day, in the 16-bit \<open>int\<close> of the AVR (the sum wraps).\<close>

definition day_seconds16 :: "u8 \<Rightarrow> u8 \<Rightarrow> u8 \<Rightarrow> u16" where
  "day_seconds16 h m s = ucast s + ucast m * 60 + ucast h * 3600"

text \<open>
  \<^verbatim>\<open>abs(their_time - our_time) > 3\<close>: the difference is taken in
  \<^verbatim>\<open>int32_t\<close>, and converted to the 16-bit argument of \<^verbatim>\<open>abs\<close>,
  which negates in 16 bits.
\<close>

definition abs16 :: "u16 \<Rightarrow> u16" where
  "abs16 x = (if sint x < 0 then - x else x)"

definition rts_deviates :: "canix_rtc_clock \<Rightarrow> canix_frame \<Rightarrow> bool" where
  "rts_deviates c f =
     (let our_time = sint (day_seconds16 (hour c) (minute c) (second c));
          their_time = sint (day_seconds16 (byte_at f 4) (byte_at f 5) (byte_at f 6))
      in 3 < sint (abs16 (word_of_int (their_time - our_time))))"

definition canix_SFP_RTS_handler ::
  "u16 \<Rightarrow> canix_rtc_clock \<Rightarrow> canix_frame \<Rightarrow> canix_rtc_clock \<times> out list" where
  "canix_SFP_RTS_handler self c f =
     (let cmd = byte_at f 1 in
      if cmd = HCAN_RTS_TIME_INFO then
        (let c' = c\<lparr>last_date_update := 0\<rparr> in
         if rts_deviates c' f
         then (c'\<lparr>second := byte_at f 6, minute := byte_at f 5, hour := byte_at f 4,
                 day_of_week := byte_at f 3\<rparr>, [])
         else (c', []))
      else if cmd = HCAN_RTS_DATE_INFO then
        (c\<lparr>day_of_month := byte_at f 3, month_of_year := byte_at f 4, year := byte_at f 5\<rparr>, [])
      else if cmd = HCAN_RTS_TIME_REQUEST then
        (if dst f = self
         then (c, [Send HCAN_PRIO_LOW (mk_frame self (src f) HCAN_PROTO_SFP
                 [HCAN_SRV_RTS, HCAN_RTS_TIME_INFO, 0xff, day_of_week c, hour c, minute c, second c])])
         else (c, []))
      else if cmd = HCAN_RTS_DATE_REQUEST then
        (if dst f = self
         then (c, [Send HCAN_PRIO_LOW (mk_frame self (src f) HCAN_PROTO_SFP
                 [HCAN_SRV_RTS, HCAN_RTS_DATE_INFO, 0xff, day_of_month c, month_of_year c, year c])])
         else (c, []))
      else (c, []))"

section \<open>What the clock counts\<close>

text \<open>
  The abstract clock: a second of the day and a calendar date (year, month, day) that
  advances at midnight. The year is the byte of the code, which wraps after 2255.
\<close>

definition clock_ok :: "canix_rtc_clock \<Rightarrow> bool" where
  "clock_ok c \<longleftrightarrow> unat (hour c) < 24 \<and> unat (minute c) < 60 \<and> unat (second c) < 60"

definition tod :: "canix_rtc_clock \<Rightarrow> nat" where
  "tod c = unat (hour c) * 3600 + unat (minute c) * 60 + unat (second c)"

definition date :: "canix_rtc_clock \<Rightarrow> u8 \<times> u8 \<times> u8 \<times> u8" where
  "date c = (day_of_week c, day_of_month c, month_of_year c, year c)"

fun next_date :: "u8 \<times> u8 \<times> u8 \<times> u8 \<Rightarrow> u8 \<times> u8 \<times> u8 \<times> u8" where
  "next_date (w, d, m, y) =
     (if w = 7 then 1 else w + 1,
      if d + 1 > ndays m then (1, if m + 1 > 12 then (1, y + 1) else (m + 1, y))
      else (d + 1, m, y))"

text \<open>One second: the time of day counts modulo a day.\<close>

lemma update_date_time [simp]:
  "hour (update_date c) = hour c" "minute (update_date c) = minute c"
  "second (update_date c) = second c" "last_date_update (update_date c) = last_date_update c"
  by (simp_all add: update_date_def Let_def)

lemma date_update_date:
  "date (update_date c) = next_date (date c)"
  by (simp add: update_date_def date_def Let_def)

lemma clock_ok_update:
  assumes "clock_ok c" shows "clock_ok (canix_update_datetime c)"
  using assms
  by (auto simp: clock_ok_def canix_update_datetime_def Let_def word_unat_eq_iff unat_inc_u8)

lemma tod_update:
  assumes "clock_ok c" shows "tod (canix_update_datetime c) = (tod c + 1) mod 86400"
proof -
  have b: "unat (hour c) < 24" "unat (minute c) < 60" "unat (second c) < 60"
    using assms by (auto simp: clock_ok_def)
  show ?thesis
  proof (cases "unat (second c) = 59")
    case False
    with b show ?thesis
      by (simp add: tod_def canix_update_datetime_def Let_def word_unat_eq_iff unat_inc_u8)
  next
    case s: True
    show ?thesis
    proof (cases "unat (minute c) = 59")
      case False
      with b s show ?thesis
        by (simp add: tod_def canix_update_datetime_def Let_def word_unat_eq_iff unat_inc_u8)
    next
      case m: True
      with b s show ?thesis
        by (cases "unat (hour c) = 23")
          (auto simp: tod_def canix_update_datetime_def Let_def word_unat_eq_iff unat_inc_u8)
    qed
  qed
qed

lemma date_time_fields [simp]:
  "date (c\<lparr>second := a\<rparr>) = date c" "date (c\<lparr>minute := a\<rparr>) = date c"
  "date (c\<lparr>hour := a\<rparr>) = date c" "date (c\<lparr>last_date_update := a\<rparr>) = date c"
  by (simp_all add: date_def)

lemma date_update:
  assumes "clock_ok c"
  shows "date (canix_update_datetime c) = (if tod c = 86399 then next_date (date c) else date c)"
proof -
  have b: "unat (hour c) < 24" "unat (minute c) < 60" "unat (second c) < 60"
    using assms by (auto simp: clock_ok_def)
  have "tod c = 86399 \<longleftrightarrow> unat (hour c) = 23 \<and> unat (minute c) = 59 \<and> unat (second c) = 59"
  proof
    assume a: "tod c = 86399"
    have "unat (hour c) = 23" using a b unfolding tod_def by linarith
    moreover have "unat (minute c) = 59" using a b unfolding tod_def by linarith
    moreover have "unat (second c) = 59" using a b unfolding tod_def by linarith
    ultimately show "unat (hour c) = 23 \<and> unat (minute c) = 59 \<and> unat (second c) = 59"
      by simp
  qed (simp add: tod_def)
  then have m: "tod c = 86399 \<longleftrightarrow> hour c = 23 \<and> minute c = 59 \<and> second c = 59"
    by (simp add: word_unat_eq_iff)
  show ?thesis
    unfolding m by (simp add: canix_update_datetime_def Let_def date_update_date del: next_date.simps)
qed

text \<open>Any number of seconds: the time of day modulo a day, the date once per midnight.\<close>

lemma clock_ok_iterate: "clock_ok c \<Longrightarrow> clock_ok ((canix_update_datetime ^^ n) c)"
  by (induction n) (auto simp: clock_ok_update)

lemma tod_less: "clock_ok c \<Longrightarrow> tod c < 86400"
  unfolding clock_ok_def tod_def by linarith

lemma tod_iterate:
  "clock_ok c \<Longrightarrow> tod ((canix_update_datetime ^^ n) c) = (tod c + n) mod 86400"
  by (induction n) (auto simp: tod_update clock_ok_iterate mod_Suc_eq tod_less)

lemma date_iterate:
  assumes "clock_ok c"
  shows "date ((canix_update_datetime ^^ n) c) = (next_date ^^ ((tod c + n) div 86400)) (date c)"
proof (induction n)
  case 0
  then show ?case using tod_less [OF assms] by simp
next
  case (Suc n)
  let ?c = "(canix_update_datetime ^^ n) c"
  have d: "date (canix_update_datetime ?c) = (if tod ?c = 86399 then next_date (date ?c) else date ?c)"
    by (rule date_update) (rule clock_ok_iterate [OF assms])
  have t: "tod ?c = (tod c + n) mod 86400"
    by (rule tod_iterate [OF assms])
  have q: "(tod c + Suc n) div 86400 =
      (if (tod c + n) mod 86400 = 86399 then Suc ((tod c + n) div 86400) else (tod c + n) div 86400)"
    by (simp add: div_Suc mod_Suc)
  show ?case
    using Suc.IH d t unfolding q by simp
qed

text \<open>\<^verbatim>\<open>last_date_update\<close> counts the hours that begin, and stops at 255.\<close>

lemma last_date_update_step:
  assumes "clock_ok c"
  shows "unat (last_date_update (canix_update_datetime c)) =
    (if tod c mod 3600 = 3599 then min 255 (Suc (unat (last_date_update c)))
     else unat (last_date_update c))"
proof -
  have b: "unat (hour c) < 24" "unat (minute c) < 60" "unat (second c) < 60"
    using assms by (auto simp: clock_ok_def)
  have r: "tod c mod 3600 = unat (minute c) * 60 + unat (second c)"
  proof -
    have "(unat (hour c) * 3600 + (unat (minute c) * 60 + unat (second c))) mod 3600 =
        (unat (minute c) * 60 + unat (second c)) mod 3600" by simp
    also have "\<dots> = unat (minute c) * 60 + unat (second c)"
      using b by (intro mod_less) linarith
    finally show ?thesis by (simp add: tod_def add.assoc)
  qed
  have "unat (minute c) * 60 + unat (second c) = 3599 \<longleftrightarrow>
      unat (minute c) = 59 \<and> unat (second c) = 59"
    using b by linarith
  then have m: "tod c mod 3600 = 3599 \<longleftrightarrow> minute c = 59 \<and> second c = 59"
    by (simp add: r word_unat_eq_iff)
  have l: "last_date_update c < 255 \<longleftrightarrow> unat (last_date_update c) < 255"
    by (simp add: word_less_nat_alt)
  show ?thesis
  proof (cases "unat (last_date_update c) < 255")
    case True
    then show ?thesis
      unfolding m by (simp add: canix_update_datetime_def Let_def l unat_inc_u8)
  next
    case False
    then have "unat (last_date_update c) = 255" by (rule unat_u8_max)
    then show ?thesis
      unfolding m by (simp add: canix_update_datetime_def Let_def l)
  qed
qed

lemma last_date_update_iterate:
  assumes "clock_ok c"
  shows "unat (last_date_update ((canix_update_datetime ^^ n) c)) =
    min 255 (unat (last_date_update c) + (tod c mod 3600 + n) div 3600)"
proof (induction n)
  case 0
  then show ?case using unat_u8_le [of "last_date_update c"] by simp
next
  case (Suc n)
  let ?c = "(canix_update_datetime ^^ n) c"
  have t: "tod ?c mod 3600 = (tod c mod 3600 + n) mod 3600"
    by (simp add: tod_iterate [OF assms] mod_mod_cancel mod_add_left_eq)
  have q: "(tod c mod 3600 + Suc n) div 3600 =
      (if (tod c mod 3600 + n) mod 3600 = 3599 then Suc ((tod c mod 3600 + n) div 3600)
       else (tod c mod 3600 + n) div 3600)"
    by (simp add: div_Suc mod_Suc)
  show ?case
    using Suc.IH last_date_update_step [OF clock_ok_iterate [OF assms], of n]
    unfolding t q by (auto simp: min_def)
qed

section \<open>When the handler sets the clock\<close>

text \<open>
  The 16-bit seconds are the true seconds modulo \<open>2^16\<close>, so the handler sees the
  difference of the two clocks only modulo \<open>2^16\<close>.
\<close>

definition frame_seconds :: "canix_frame \<Rightarrow> int" where
  "frame_seconds f = int (unat (byte_at f 4)) * 3600 + int (unat (byte_at f 5)) * 60
     + int (unat (byte_at f 6))"

lemma day_seconds16_int:
  "day_seconds16 h m s = word_of_int (int (unat h) * 3600 + int (unat m) * 60 + int (unat s))"
proof -
  have u: "(ucast x :: u16) = word_of_int (int (unat x))" for x :: u8
    by (metis uint_nat word_of_int_uint ucast_id unsigned_of_int uint_word_of_int_eq of_int_uint)
  show ?thesis
    unfolding day_seconds16_def u by (simp add: algebra_simps)
qed

lemma abs16_gt3:
  "3 < sint (abs16 w) \<longleftrightarrow> 3 < uint w \<and> uint w < 65533 \<and> uint w \<noteq> 32768"
proof -
  have u: "0 \<le> uint w" "uint w < 65536"
    using uint_lt2p [of w] by simp_all
  have n: "uint (- w) = (- uint w) mod 65536"
    by (simp add: uint_word_arith_bintrs take_bit_eq_mod)
  show ?thesis
  proof (cases "uint w < 32768")
    case True
    then show ?thesis using u by (auto simp: abs16_def sint_u16)
  next
    case False
    have "(- uint w) mod 65536 = (65536 - uint w) mod 65536" by simp
    also have "\<dots> = 65536 - uint w" using u False by (intro mod_pos_pos_trivial) auto
    finally show ?thesis using u False by (auto simp: abs16_def sint_u16 n)
  qed
qed

lemma rts_deviates_iff:
  "rts_deviates c f \<longleftrightarrow>
     (let d = (frame_seconds f - int (tod c)) mod 65536 in 3 < d \<and> d < 65533 \<and> d \<noteq> 32768)"
proof -
  have "(word_of_int (sint a - sint b) :: u16) = a - b" for a b
    by (simp add: wi_hom_sub [symmetric])
  then have "rts_deviates c f \<longleftrightarrow> 3 < sint (abs16 (word_of_int (frame_seconds f - int (tod c))))"
    by (simp add: rts_deviates_def Let_def day_seconds16_int frame_seconds_def tod_def
        wi_hom_sub [symmetric] algebra_simps)
  then show ?thesis
    unfolding abs16_gt3 uint_word_of_int Let_def by simp
qed

lemma minutes_unat:
  "unat ((ucast h :: u16) * 60 + ucast m) = unat (h :: u8) * 60 + unat (m :: u8)"
proof -
  have "unat h * 60 + unat m < 65536"
    using unat_u8_less [of h] unat_u8_less [of m] by linarith
  moreover from this have "unat ((ucast h :: u16) * 60) = unat h * 60"
    by (simp add: unat_word_ariths)
  ultimately show ?thesis
    by (simp add: unat_word_ariths)
qed

definition minutes :: "u8 \<Rightarrow> u8 \<Rightarrow> nat" where
  "minutes h m = unat h * 60 + unat m"

lemma minutes_le: "minutes h m \<le> 15555"
  unfolding minutes_def using unat_u8_less [of h] unat_u8_less [of m] by linarith

lemma unat_plus_day: "unat (t :: u16) \<le> 15555 \<Longrightarrow> unat (t + 1440) = unat t + 1440"
  by (simp add: unat_word_ariths)

lemma time_matches_nat:
  "time_matches c fh fm th tm pat \<longleftrightarrow>
     bit pat (unat (day_of_week c)) \<and>
     (let t1 = minutes fh fm; t2 = minutes th tm; n = minutes (hour c) (minute c)
      in if t2 < t1 then (if n < t1 then t1 \<le> n + 1440 \<and> n \<le> t2 else n \<le> t2 + 1440)
         else t1 \<le> n \<and> n \<le> t2)"
proof -
  have u: "unat ((ucast h :: u16) * 60 + ucast m) = minutes h m" for h m
    by (simp add: minutes_unat minutes_def)
  have d: "unat ((ucast h :: u16) * 60 + ucast m + 1440) = minutes h m + 1440" for h m
    by (subst unat_plus_day) (simp_all add: u minutes_le)
  show ?thesis
    by (auto simp: time_matches_def Let_def word_less_nat_alt word_le_nat_alt u d)
qed

section \<open>Properties\<close>

text \<open>
  Property C8. The clock counts: after \<open>n\<close> calls of
  \<^verbatim>\<open>canix_update_datetime\<close> (one a second) the time of day has advanced by
  \<open>n\<close> seconds modulo a day, weekday and date have been advanced once for every midnight
  passed, and the fields are again a time of day.
\<close>

theorem rtc_counts_seconds_and_days:
  assumes "clock_ok c"
  shows "clock_ok ((canix_update_datetime ^^ n) c)
    \<and> tod ((canix_update_datetime ^^ n) c) = (tod c + n) mod 86400
    \<and> date ((canix_update_datetime ^^ n) c) = (next_date ^^ ((tod c + n) div 86400)) (date c)"
  using assms by (simp add: clock_ok_iterate tod_iterate date_iterate)

definition new_years_eve :: canix_rtc_clock where
  "new_years_eve = canix_rtc_init\<lparr>day_of_week := 7, hour := 23, minute := 59, second := 58,
     day_of_month := 31, month_of_year := 12, year := 16\<rparr>"

theorem rtc_counts_seconds_and_days_witness:
  "clock_ok new_years_eve
    \<and> date ((canix_update_datetime ^^ 2) new_years_eve) = (1, 1, 1, 17)"
proof -
  have h: "clock_ok new_years_eve"
    by (simp add: clock_ok_def new_years_eve_def)
  have "date ((canix_update_datetime ^^ 2) new_years_eve) =
      (next_date ^^ ((tod new_years_eve + 2) div 86400)) (date new_years_eve)"
    using rtc_counts_seconds_and_days [OF h, of 2] by blast
  also have "\<dots> = (1, 1, 1, 17)"
    by (simp add: tod_def date_def new_years_eve_def canix_rtc_init_def ndays_def)
  finally show ?thesis using h by simp
qed

text \<open>
  What \<^verbatim>\<open>HCAN_RTS_TIME_INFO\<close> does to the clock: the frame counts
  as a sign of life; the four time fields are taken from the frame exactly when the two
  clocks differ, modulo \<open>2^16\<close> seconds, by more than 3 seconds either way and not by
  \<open>2^15\<close>; the date and the uptime are never touched and nothing is sent.
\<close>

theorem rts_time_info_effect:
  assumes "byte_at f 1 = HCAN_RTS_TIME_INFO"
  shows "canix_SFP_RTS_handler self c f =
    (let d = (frame_seconds f - int (tod c)) mod 65536;
         c' = c\<lparr>last_date_update := 0\<rparr>
     in if 3 < d \<and> d < 65533 \<and> d \<noteq> 32768
        then (c'\<lparr>second := byte_at f 6, minute := byte_at f 5, hour := byte_at f 4,
                day_of_week := byte_at f 3\<rparr>, [])
        else (c', []))"
proof -
  have "tod (c\<lparr>last_date_update := 0\<rparr>) = tod c"
    by (simp add: tod_def)
  then show ?thesis
    using assms by (simp add: canix_SFP_RTS_handler_def rts_deviates_iff Let_def)
qed

definition time_info :: "u8 \<Rightarrow> u8 \<Rightarrow> u8 \<Rightarrow> u8 \<Rightarrow> canix_frame" where
  "time_info w h m s = mk_frame 1 HCAN_MULTICAST_INFO HCAN_PROTO_SFP
     [HCAN_SRV_RTS, HCAN_RTS_TIME_INFO, 0, w, h, m, s, 0]"

theorem rts_time_info_effect_witness:
  "fst (canix_SFP_RTS_handler 7 canix_rtc_init (time_info 3 10 30 0)) =
     canix_rtc_init\<lparr>last_date_update := 0, day_of_week := 3, hour := 10, minute := 30\<rparr>"
proof -
  have h: "byte_at (time_info 3 10 30 0) 1 = HCAN_RTS_TIME_INFO"
    by (simp add: time_info_def)
  show ?thesis
    using rts_time_info_effect [OF h, of 7 canix_rtc_init]
    by (simp add: time_info_def frame_seconds_def tod_def canix_rtc_init_def)
qed

text \<open>
  A clock that is wrong by 18:12:16 hours (\<open>2^16\<close> seconds) is never
  corrected: the handler computes the difference in the 16-bit \<^verbatim>\<open>int\<close>, takes
  the clocks to agree and keeps its own time and weekday.
\<close>

theorem rts_keeps_clock_off_by_65536:
  assumes "byte_at f 1 = HCAN_RTS_TIME_INFO" and "frame_seconds f = int (tod c) + 65536"
  shows "canix_SFP_RTS_handler self c f = (c\<lparr>last_date_update := 0\<rparr>, [])"
proof -
  have "rts_deviates (c\<lparr>last_date_update := 0\<rparr>) f = rts_deviates c f"
    by (simp add: rts_deviates_def)
  moreover have "\<not> rts_deviates c f"
    using assms(2) by (simp add: rts_deviates_iff Let_def)
  ultimately show ?thesis
    using assms(1) by (simp add: canix_SFP_RTS_handler_def Let_def)
qed

theorem rts_keeps_clock_off_by_65536_witness:
  "hour (fst (canix_SFP_RTS_handler 7 canix_rtc_init (time_info 3 18 12 16))) = 0"
proof -
  have a: "byte_at (time_info 3 18 12 16) 1 = HCAN_RTS_TIME_INFO"
    by (simp add: time_info_def)
  have b: "frame_seconds (time_info 3 18 12 16) = int (tod canix_rtc_init) + 65536"
    by (simp add: time_info_def frame_seconds_def tod_def canix_rtc_init_def)
  show ?thesis
    using rts_keeps_clock_off_by_65536 [OF a b, of 7] by (simp add: canix_rtc_init_def)
qed

text \<open>
  \<^verbatim>\<open>canix_is_date_valid\<close> holds until 255 hour changes have
  passed since the last time frame: the counter advances with the hour, not with the second
  or the minute.
\<close>

theorem date_valid_for_255_hours:
  assumes "clock_ok c" and "last_date_update c = 0"
  shows "canix_is_date_valid ((canix_update_datetime ^^ n) c) \<longleftrightarrow>
    (tod c mod 3600 + n) div 3600 < 255"
proof -
  have "canix_is_date_valid c' \<longleftrightarrow> unat (last_date_update c') \<noteq> 255" for c'
    by (simp add: canix_is_date_valid_def word_unat_eq_iff)
  then show ?thesis
    using assms by (auto simp: last_date_update_iterate)
qed

theorem date_valid_for_255_hours_witness:
  "canix_is_date_valid ((canix_update_datetime ^^ 900000) (canix_rtc_init\<lparr>last_date_update := 0\<rparr>))
   \<and> \<not> canix_is_date_valid ((canix_update_datetime ^^ 918000) (canix_rtc_init\<lparr>last_date_update := 0\<rparr>))"
proof -
  have a: "clock_ok (canix_rtc_init\<lparr>last_date_update := 0\<rparr>)"
    by (simp add: clock_ok_def canix_rtc_init_def)
  have b: "last_date_update (canix_rtc_init\<lparr>last_date_update := 0\<rparr>) = 0" by simp
  show ?thesis
    unfolding date_valid_for_255_hours [OF a b] by (simp add: tod_def canix_rtc_init_def)
qed

text \<open>
  \<^verbatim>\<open>time_matches\<close> decides a daily interval, closed at both ends;
  an interval whose end is before its begin runs over midnight. Only the bit of the current
  weekday is looked at, on both sides of midnight.
\<close>

theorem time_matches_interval:
  assumes "unat from_hour < 24" and "unat from_minute < 60" and "clock_ok c"
  shows "time_matches c from_hour from_minute to_hour to_minute day_pattern \<longleftrightarrow>
    bit day_pattern (unat (day_of_week c)) \<and>
    (let t1 = minutes from_hour from_minute; t2 = minutes to_hour to_minute;
         n = minutes (hour c) (minute c)
     in if t1 \<le> t2 then t1 \<le> n \<and> n \<le> t2 else t1 \<le> n \<or> n \<le> t2)"
proof -
  have n: "minutes (hour c) (minute c) < 1440"
    using assms(3) unfolding clock_ok_def minutes_def by linarith
  have t: "minutes from_hour from_minute < 1440"
    using assms(1,2) unfolding minutes_def by linarith
  show ?thesis
    unfolding time_matches_nat Let_def using n t by auto
qed

theorem time_matches_interval_witness:
  "time_matches (canix_rtc_init\<lparr>day_of_week := 2, hour := 1\<rparr>) 22 0 6 0 4"
proof -
  have c: "clock_ok (canix_rtc_init\<lparr>day_of_week := 2, hour := 1\<rparr>)"
    by (simp add: clock_ok_def canix_rtc_init_def)
  have a: "unat (22 :: u8) < 24" and b: "unat (0 :: u8) < 60" by simp_all
  show ?thesis
    unfolding time_matches_interval [OF a b c]
    by (simp add: minutes_def canix_rtc_init_def bit_numeral_rec)
qed

end
