(* ===== verification/Canix_Mcp2515.thy ===== *)
theory Canix_Mcp2515
  imports Hcan_Protocol "HOL-Library.Multiset"
begin

text \<open>
  The CAN controller driver \<^verbatim>\<open>src/canix/mcp2515.c\<close> and the receive queue of
  \<^verbatim>\<open>src/canix/canix.c\<close> it fills. The controller itself is no code of the
  repository: it is the parameter \<open>spi\<close> of the driver's functions, which answers the bytes
  of one chip-select transaction with as many bytes. What the driver relies on is the
  predicate \<open>mcp_registers\<close>: the instructions of the data sheet on a register file.
\<close>

section \<open>The driver's SPI transactions\<close>

type_synonym 'c spi = "'c \<Rightarrow> u8 list \<Rightarrow> u8 list \<times> 'c"

abbreviation (input) SPI_READ :: u8 where "SPI_READ \<equiv> 0x03"
abbreviation (input) SPI_WRITE :: u8 where "SPI_WRITE \<equiv> 0x02"
abbreviation (input) SPI_BIT_MODIFY :: u8 where "SPI_BIT_MODIFY \<equiv> 0x05"
abbreviation (input) SPI_RTS :: u8 where "SPI_RTS \<equiv> 0x80"

abbreviation (input) CANINTF :: u8 where "CANINTF \<equiv> 0x2C"
abbreviation (input) TXB0CTRL :: u8 where "TXB0CTRL \<equiv> 0x30"
abbreviation (input) TXB0SIDH :: u8 where "TXB0SIDH \<equiv> 0x31"
abbreviation (input) TXB0DLC :: u8 where "TXB0DLC \<equiv> 0x35"
abbreviation (input) TXB0D0 :: u8 where "TXB0D0 \<equiv> 0x36"
abbreviation (input) RXB0SIDH :: u8 where "RXB0SIDH \<equiv> 0x61"
abbreviation (input) RXB0DLC :: u8 where "RXB0DLC \<equiv> 0x65"
abbreviation (input) RXB0D0 :: u8 where "RXB0D0 \<equiv> 0x66"

abbreviation (input) MCP2515_OK :: u8 where "MCP2515_OK \<equiv> 0"
abbreviation (input) MCP2515_FAIL :: u8 where "MCP2515_FAIL \<equiv> 1"

definition mcp2515_bit_modify :: "'c spi \<Rightarrow> 'c \<Rightarrow> u8 \<Rightarrow> u8 \<Rightarrow> u8 \<Rightarrow> 'c" where
  "mcp2515_bit_modify spi c adress msk d = snd (spi c [SPI_BIT_MODIFY, adress, msk, d])"

definition mcp2515_read_register :: "'c spi \<Rightarrow> 'c \<Rightarrow> u8 \<Rightarrow> u8 \<times> 'c" where
  "mcp2515_read_register spi c address =
     (let (r, c') = spi c [SPI_READ, address, 0] in (nth_default 0 r 2, c'))"

definition mcp2515_write_register :: "'c spi \<Rightarrow> 'c \<Rightarrow> u8 \<Rightarrow> u8 \<Rightarrow> 'c" where
  "mcp2515_write_register spi c adress d = snd (spi c [SPI_WRITE, adress, d])"

definition mcp2515_write_register_p :: "'c spi \<Rightarrow> 'c \<Rightarrow> u8 \<Rightarrow> u8 list \<Rightarrow> u8 \<Rightarrow> 'c" where
  "mcp2515_write_register_p spi c adress d len =
     snd (spi c (SPI_WRITE # adress # map (nth_default 0 d) [0..<unat len]))"

definition mcp2515_read_register_p :: "'c spi \<Rightarrow> 'c \<Rightarrow> u8 \<Rightarrow> u8 \<Rightarrow> u8 list \<times> 'c" where
  "mcp2515_read_register_p spi c adress len =
     (let (r, c') = spi c (SPI_READ # adress # replicate (unat len) 0xff)
      in (map (\<lambda>i. nth_default 0 r (2 + i)) [0..<unat len], c'))"

section \<open>Sending\<close>

definition can_sendable :: "'c spi \<Rightarrow> 'c \<Rightarrow> u8 \<Rightarrow> bool \<times> 'c" where
  "can_sendable spi c tx_index =
     (let (v, c') = mcp2515_read_register spi c (TXB0CTRL + push_bit 4 tx_index) in (\<not> bit v 3, c'))"

definition can_any_sendable :: "'c spi \<Rightarrow> 'c \<Rightarrow> bool \<times> 'c" where
  "can_any_sendable spi c =
     (let (s0, c) = can_sendable spi c 0 in
      if s0 then (True, c)
      else (let (s1, c) = can_sendable spi c 1 in
            if s1 then (True, c) else can_sendable spi c 2))"

text \<open>The free transmit buffer \<^verbatim>\<open>can_send_message\<close> chooses.\<close>

definition choose_tx :: "'c spi \<Rightarrow> 'c \<Rightarrow> u8 option \<times> 'c" where
  "choose_tx spi c =
     (let (s0, c) = can_sendable spi c 0 in
      if s0 then (Some 0, c)
      else (let (s1, c) = can_sendable spi c 1 in
            if s1 then (Some 1, c)
            else (let (s2, c) = can_sendable spi c 2 in
                  if s2 then (Some 2, c) else (None, c))))"

definition tx_id_bytes :: "u32 \<Rightarrow> u8 list" where
  "tx_id_bytes i =
     [ucast (drop_bit 21 i),
      (ucast (drop_bit 16 i) AND 0x03) OR (ucast (drop_bit 13 i) AND 0xE0) OR 0x08,
      ucast (drop_bit 8 i),
      ucast i]"

text \<open>The driver's state: the controller, the receive queue and the counters.\<close>

record canix_rx_queue_entry =
  used :: bool
  extended :: u32
  qsize :: u8
  qdata :: "u8 list"

record 'c driver =
  chip :: 'c
  canix_rx_queue :: "canix_rx_queue_entry list"
  canix_rx_received :: u32
  canix_rx_lost :: u32
  canix_tx_sent :: u32
  canix_tx_dropped :: u32

definition can_send_message :: "'c spi \<Rightarrow> 'c driver \<Rightarrow> u32 \<Rightarrow> u8 list \<Rightarrow> u8 \<Rightarrow> u8 \<times> 'c driver" where
  "can_send_message spi d i bytes len =
     (case choose_tx spi (chip d) of
        (None, c) \<Rightarrow> (MCP2515_FAIL, d\<lparr>chip := c, canix_tx_dropped := canix_tx_dropped d + 1\<rparr>)
      | (Some tx_index, c) \<Rightarrow>
          (let off = push_bit 4 tx_index;
               c = mcp2515_write_register_p spi c (TXB0SIDH + off) (tx_id_bytes i) 4;
               c = mcp2515_write_register spi c (TXB0DLC + off) len;
               c = mcp2515_write_register_p spi c (TXB0D0 + off) bytes len;
               c = mcp2515_bit_modify spi c (TXB0CTRL + off) 8 8;
               c = snd (spi c [SPI_RTS OR push_bit (unat tx_index) 1])
           in (MCP2515_OK, d\<lparr>chip := c, canix_tx_sent := canix_tx_sent d + 1\<rparr>)))"

section \<open>The receive queue\<close>

abbreviation (input) CANIX_QUEUE_SIZE :: nat where "CANIX_QUEUE_SIZE \<equiv> 12"

definition canix_rxq_size :: "canix_rx_queue_entry list \<Rightarrow> u8" where
  "canix_rxq_size q = of_nat (length (filter used q))"

text \<open>The index of the first entry with a given state of its \<^verbatim>\<open>used\<close> flag, or 0.\<close>

fun first_index :: "(canix_rx_queue_entry \<Rightarrow> bool) \<Rightarrow> canix_rx_queue_entry list \<Rightarrow> nat option" where
  "first_index P [] = None"
| "first_index P (e # q) = (if P e then Some 0 else map_option Suc (first_index P q))"

definition canix_rxq_fetch_one :: "canix_rx_queue_entry list \<Rightarrow> nat" where
  "canix_rxq_fetch_one q = (case first_index used q of Some i \<Rightarrow> i | None \<Rightarrow> 0)"

definition canix_rxq_put_one :: "canix_rx_queue_entry list \<Rightarrow> nat" where
  "canix_rxq_put_one q = (case first_index (\<lambda>e. \<not> used e) q of Some i \<Rightarrow> i | None \<Rightarrow> 0)"

section \<open>Receiving\<close>

definition rx_id :: "u8 list \<Rightarrow> u32" where
  "rx_id i =
     ucast (nth_default 0 i 3) OR
     push_bit 8 (ucast (nth_default 0 i 2)) OR
     push_bit 16 (ucast (nth_default 0 i 1) AND 0x03) OR
     push_bit 16 (drop_bit 3 (ucast (nth_default 0 i 1) AND 0xe0)) OR
     push_bit 21 (ucast (nth_default 0 i 0))"

definition mcp2515_message_available :: "'c spi \<Rightarrow> 'c \<Rightarrow> bool \<times> 'c" where
  "mcp2515_message_available spi c =
     (let (temp, c') = mcp2515_read_register spi c CANINTF in (bit temp 0, c'))"

text \<open>
  Identifier, length and data of the message in the controller. The data go to a buffer of
  eight bytes; a length above eight, which the four bits of the controller's register can
  hold, has no defined behaviour, and the result is \<open>None\<close>.
\<close>

definition mcp2515_read_message :: "'c spi \<Rightarrow> 'c \<Rightarrow> (u32 \<times> u8 \<times> u8 list \<times> 'c) option" where
  "mcp2515_read_message spi c =
     (let (i, c) = mcp2515_read_register_p spi c RXB0SIDH 4;
          (v, c) = mcp2515_read_register spi c RXB0DLC;
          len = v AND 0x0F
      in if unat len > 8 then None
         else (let (ds, c) = mcp2515_read_register_p spi c RXB0D0 len;
                   c = mcp2515_bit_modify spi c CANINTF 0x01 0x00
               in Some (rx_id i, len, ds, c)))"

text \<open>
  The part of the timer interrupt that polls the controller. Writing \<open>ds\<close> into the entry's
  buffer leaves the bytes behind them as they were.
\<close>

definition store_entry :: "u32 \<Rightarrow> u8 \<Rightarrow> u8 list \<Rightarrow> canix_rx_queue_entry \<Rightarrow> canix_rx_queue_entry" where
  "store_entry ext len ds e =
     e\<lparr>used := True, extended := ext, qsize := len, qdata := ds @ drop (length ds) (qdata e)\<rparr>"

definition rxq_put ::
  "u32 \<Rightarrow> u8 \<Rightarrow> u8 list \<Rightarrow> canix_rx_queue_entry list \<Rightarrow> canix_rx_queue_entry list" where
  "rxq_put ext len ds q = (let idx = canix_rxq_put_one q in q[idx := store_entry ext len ds (q ! idx)])"

definition isr_receive :: "'c spi \<Rightarrow> 'c driver \<Rightarrow> 'c driver option" where
  "isr_receive spi d =
     (let (avail, c) = mcp2515_message_available spi (chip d) in
      if \<not> avail then Some (d\<lparr>chip := c\<rparr>)
      else case mcp2515_read_message spi c of
        None \<Rightarrow> None
      | Some (ext, len, ds, c) \<Rightarrow>
          (if canix_rxq_size (canix_rx_queue d) < of_nat CANIX_QUEUE_SIZE
           then Some (d\<lparr>chip := c, canix_rx_queue := rxq_put ext len ds (canix_rx_queue d),
                       canix_rx_received := canix_rx_received d + 1\<rparr>)
           else Some (d\<lparr>chip := c, canix_rx_lost := canix_rx_lost d + 1\<rparr>)))"

definition can_message_available :: "canix_rx_queue_entry list \<Rightarrow> bool" where
  "can_message_available q \<longleftrightarrow> canix_rxq_size q > 0"

text \<open>
  \<^verbatim>\<open>can_read_message\<close> with the caller's eight byte buffer \<open>buf\<close>: identifier
  (if a message was there), length, buffer and queue.
\<close>

definition can_read_message ::
  "canix_rx_queue_entry list \<Rightarrow> u8 list \<Rightarrow> u32 option \<times> u8 \<times> u8 list \<times> canix_rx_queue_entry list" where
  "can_read_message q buf =
     (if canix_rxq_size q \<noteq> 0
      then (let idx = canix_rxq_fetch_one q; e = q ! idx; n = unat (qsize e)
            in (Some (extended e), qsize e, take n (qdata e) @ drop n buf, q[idx := e\<lparr>used := False\<rparr>]))
      else (None, 0, buf, q))"

section \<open>The queue's contract\<close>

text \<open>
  A bounded container of messages between an interrupt and the main loop: what is put is
  taken out once, until the capacity is reached. Nothing is promised about the order.
\<close>

locale rx_container =
  fixes inv :: "'q \<Rightarrow> bool"
    and items :: "'q \<Rightarrow> 'm multiset"
    and fits :: "'m \<Rightarrow> bool"
    and put :: "'m \<Rightarrow> 'q \<Rightarrow> 'q option"
    and get :: "'q \<Rightarrow> ('m \<times> 'q) option"
    and capacity :: nat
  assumes put_None: "inv q \<Longrightarrow> fits m \<Longrightarrow> put m q = None \<longleftrightarrow> capacity \<le> size (items q)"
    and put_Some: "inv q \<Longrightarrow> fits m \<Longrightarrow> put m q = Some q' \<Longrightarrow>
      inv q' \<and> items q' = add_mset m (items q)"
    and get_None: "inv q \<Longrightarrow> get q = None \<longleftrightarrow> items q = {#}"
    and get_Some: "inv q \<Longrightarrow> get q = Some (m, q') \<Longrightarrow> inv q' \<and> items q = add_mset m (items q')"
begin

text \<open>Arrivals (\<open>Some m\<close>) and reads (\<open>None\<close>): the queue, the messages lost and read.\<close>

fun traffic :: "'m option list \<Rightarrow> 'q \<Rightarrow> 'q \<times> 'm multiset \<times> 'm multiset" where
  "traffic [] q = (q, {#}, {#})"
| "traffic (Some m # es) q =
     (case put m q of
        Some q' \<Rightarrow> traffic es q'
      | None \<Rightarrow> (let (q', lost, rd) = traffic es q in (q', add_mset m lost, rd)))"
| "traffic (None # es) q =
     (case get q of
        Some (m, q') \<Rightarrow> (let (q2, lost, rd) = traffic es q' in (q2, lost, add_mset m rd))
      | None \<Rightarrow> traffic es q)"

text \<open>Every arrival is read once, lost, or still there.\<close>

lemma traffic_conserves:
  "inv q \<Longrightarrow> \<forall>m. Some m \<in> set es \<longrightarrow> fits m \<Longrightarrow> traffic es q = (q', lost, rd) \<Longrightarrow>
   inv q' \<and> items q + mset (List.map_filter (\<lambda>x. x) es) = items q' + lost + rd"
proof (induction es q arbitrary: q' lost rd rule: traffic.induct)
  case (2 m es q)
  show ?case
  proof (cases "put m q")
    case None
    obtain q2 l2 r2 where t: "traffic es q = (q2, l2, r2)" by (cases "traffic es q")
    with 2(1)[OF None] 2(3-) None show ?thesis
      by (auto simp: List.map_filter_simps)
  next
    case (Some q1)
    then have "inv q1 \<and> items q1 = add_mset m (items q)"
      using 2(3,4) put_Some by auto
    with 2(2)[OF Some] 2(3-) Some show ?thesis
      by (auto simp: List.map_filter_simps)
  qed
next
  case (3 es q)
  show ?case
  proof (cases "get q")
    case None
    with 3(1)[OF None] 3(3-) None show ?thesis by (simp add: List.map_filter_simps)
  next
    case (Some r)
    obtain m q1 where r: "r = (m, q1)" by (cases r)
    obtain q2 l2 r2 where t: "traffic es q1 = (q2, l2, r2)" by (cases "traffic es q1")
    have g: "inv q1 \<and> items q = add_mset m (items q1)"
      using 3(3) Some r get_Some by blast
    have "inv q2 \<and> items q1 + mset (List.map_filter (\<lambda>x. x) es) = items q2 + l2 + r2"
      using 3(2)[OF Some r[symmetric]] g 3(4) t by simp
    then show ?thesis using g 3(5) Some r t by (auto simp: List.map_filter_simps)
  qed
qed (simp add: List.map_filter_simps)

text \<open>As many reads as there are messages empty the queue.\<close>

lemma drain:
  "inv q \<Longrightarrow> items (fst (traffic (replicate (size (items q)) None) q)) = {#}"
proof (induction "size (items q)" arbitrary: q)
  case (Suc n)
  then have "get q \<noteq> None" using get_None by (metis nat.distinct(1) size_empty)
  then obtain m q1 where g: "get q = Some (m, q1)" by auto
  with Suc get_Some have q1: "inv q1" "items q = add_mset m (items q1)" by blast+
  have n: "n = size (items q1)" using Suc.hyps(2) q1 by simp
  show ?case
    using Suc.hyps(1)[OF n q1(1)] g n unfolding Suc.hyps(2)[symmetric]
    by (cases "traffic (replicate n None) q1") simp
qed simp

end

section \<open>The queue of the code keeps the contract\<close>

definition rxq_inv :: "canix_rx_queue_entry list \<Rightarrow> bool" where
  "rxq_inv q \<longleftrightarrow> length q = CANIX_QUEUE_SIZE \<and>
     (\<forall>e \<in> set q. length (qdata e) = 8 \<and> (used e \<longrightarrow> unat (qsize e) \<le> 8))"

definition entry_msg :: "canix_rx_queue_entry \<Rightarrow> u32 \<times> u8 list" where
  "entry_msg e = (extended e, take (unat (qsize e)) (qdata e))"

definition rxq_items :: "canix_rx_queue_entry list \<Rightarrow> (u32 \<times> u8 list) multiset" where
  "rxq_items q = image_mset entry_msg (mset (filter used q))"

definition rxq_put_msg ::
  "u32 \<times> u8 list \<Rightarrow> canix_rx_queue_entry list \<Rightarrow> canix_rx_queue_entry list option" where
  "rxq_put_msg m q =
     (if canix_rxq_size q < of_nat CANIX_QUEUE_SIZE
      then Some (rxq_put (fst m) (of_nat (length (snd m))) (snd m) q) else None)"

definition rxq_get_msg ::
  "canix_rx_queue_entry list \<Rightarrow> ((u32 \<times> u8 list) \<times> canix_rx_queue_entry list) option" where
  "rxq_get_msg q =
     (case can_read_message q [] of
        (Some ext, n, buf, q') \<Rightarrow> Some ((ext, buf), q')
      | (None, n, buf, q') \<Rightarrow> None)"

lemma first_index_Some:
  "first_index P q = Some i \<Longrightarrow> i < length q \<and> P (q ! i) \<and> (\<forall>j < i. \<not> P (q ! j))"
proof (induction P q arbitrary: i rule: first_index.induct)
  case (2 P e q)
  then show ?case
    by (cases i) (auto split: if_splits simp: nth_Cons split: nat.splits)
qed simp

lemma first_index_None: "first_index P q = None \<longleftrightarrow> (\<forall>e \<in> set q. \<not> P e)"
  by (induction P q rule: first_index.induct) auto

lemma rxq_size_nat:
  assumes "length q = CANIX_QUEUE_SIZE"
  shows "unat (canix_rxq_size q) = length (filter used q)"
  using length_filter_le [of used q] assms by (simp add: canix_rxq_size_def)

lemma mset_filter_update:
  "i < length q \<Longrightarrow>
   mset (filter P (q[i := e])) + (if P (q ! i) then {#q ! i#} else {#}) =
   mset (filter P q) + (if P e then {#e#} else {#})"
proof (induction q arbitrary: i)
  case (Cons a q)
  show ?case
  proof (cases i)
    case 0
    then show ?thesis by (simp del: mset_filter)
  next
    case (Suc j)
    then show ?thesis using Cons.IH [of j] Cons.prems by (auto simp del: mset_filter split: if_splits)
  qed
qed simp

lemma size_rxq_items: "size (rxq_items q) = length (filter used q)"
  by (simp add: rxq_items_def del: mset_filter)

interpretation rxq: rx_container rxq_inv rxq_items "\<lambda>m. length (snd m) \<le> 8"
  rxq_put_msg rxq_get_msg CANIX_QUEUE_SIZE
proof unfold_locales
  fix q :: "canix_rx_queue_entry list" and m :: "u32 \<times> u8 list"
  assume q: "rxq_inv q" and m: "length (snd m) \<le> 8"
  have len: "length q = CANIX_QUEUE_SIZE" using q by (simp add: rxq_inv_def)
  show "rxq_put_msg m q = None \<longleftrightarrow> CANIX_QUEUE_SIZE \<le> size (rxq_items q)"
    using rxq_size_nat [OF len] by (auto simp: rxq_put_msg_def size_rxq_items word_less_nat_alt)
  fix q' assume "rxq_put_msg m q = Some q'"
  then have room: "length (filter used q) < CANIX_QUEUE_SIZE"
    and q': "q' = rxq_put (fst m) (of_nat (length (snd m))) (snd m) q"
    using rxq_size_nat [OF len] by (auto simp: rxq_put_msg_def word_less_nat_alt split: if_splits)
  have "\<exists>e \<in> set q. \<not> used e"
  proof (rule ccontr)
    assume "\<not> (\<exists>e \<in> set q. \<not> used e)"
    then have "filter used q = q" by (intro filter_True) blast
    then show False using room len by simp
  qed
  then obtain i where i: "first_index (\<lambda>e. \<not> used e) q = Some i"
    using first_index_None [of "\<lambda>e. \<not> used e" q] by auto
  note fi = first_index_Some [OF i]
  define e where "e = store_entry (fst m) (of_nat (length (snd m))) (snd m) (q ! i)"
  have q2: "q' = q[i := e]"
    using i by (simp add: q' rxq_put_def canix_rxq_put_one_def e_def Let_def)
  have e: "used e" "length (qdata e) = 8" "unat (qsize e) \<le> 8" "entry_msg e = m"
    using q fi m by (auto simp: e_def store_entry_def entry_msg_def rxq_inv_def)
  have "rxq_items q' = add_mset m (rxq_items q)"
    using mset_filter_update [of i q used e] fi e by (simp add: q2 rxq_items_def del: mset_filter)
  moreover have "rxq_inv q'"
    using q e set_update_subset_insert [of q i e] by (auto simp: rxq_inv_def q2)
  ultimately show "rxq_inv q' \<and> rxq_items q' = add_mset m (rxq_items q)" by blast
next
  fix q :: "canix_rx_queue_entry list" assume q: "rxq_inv q"
  have len: "length q = CANIX_QUEUE_SIZE" using q by (simp add: rxq_inv_def)
  have z: "canix_rxq_size q = 0 \<longleftrightarrow> filter used q = []"
    using rxq_size_nat [OF len] by (simp add: word_unat_eq_iff)
  show "rxq_get_msg q = None \<longleftrightarrow> rxq_items q = {#}"
    by (simp add: rxq_get_msg_def can_read_message_def Let_def z rxq_items_def del: mset_filter)
  fix m q' assume g: "rxq_get_msg q = Some (m, q')"
  then have "filter used q \<noteq> []"
    by (auto simp: rxq_get_msg_def can_read_message_def z split: if_splits)
  then obtain i where i: "first_index used q = Some i"
    using first_index_None [of used q] by (auto simp: filter_empty_conv)
  note fi = first_index_Some [OF i]
  have m: "m = entry_msg (q ! i)" "q' = q[i := (q ! i)\<lparr>used := False\<rparr>]"
    using g i by (auto simp: rxq_get_msg_def can_read_message_def Let_def canix_rxq_fetch_one_def
        entry_msg_def split: if_splits)
  have "mset (filter used q) = add_mset (q ! i) (mset (filter used q'))"
    using mset_filter_update [of i q used "(q ! i)\<lparr>used := False\<rparr>"] fi
    by (simp add: m del: mset_filter)
  then have "rxq_items q = add_mset m (rxq_items q')"
    unfolding rxq_items_def by (simp add: m(1) del: mset_filter)
  moreover have "rxq_inv q'"
    using q fi set_update_subset_insert [of q i "(q ! i)\<lparr>used := False\<rparr>"]
    by (fastforce simp: rxq_inv_def m)
  ultimately show "rxq_inv q' \<and> rxq_items q = add_mset m (rxq_items q')" by blast
qed

section \<open>What the driver relies on\<close>

text \<open>
  What the controller's data sheet promises of the instructions on its register file \<open>reg\<close>, as far as the
  driver relies on it. READ answers consecutive registers of the 128 and changes none. WRITE sets consecutive registers of a
  transmit buffer that waits for no transmission; the bits that are not implemented, two of the identifier's second
  byte and three of the length's, read as zero. BIT MODIFY is possible on the interrupt flags and on the control
  registers of the transmit buffers, and sets the masked ones of the bits that can be written; the other bits of a
  control register are the controller's own. RTS requests the transmission of a buffer. Between the instructions of one call the
  controller itself changes nothing.
\<close>

definition unimplemented :: "u8 \<Rightarrow> u8" where
  "unimplemented a =
     (if a \<in> {0x32, 0x42, 0x52} then 0x14 else if a \<in> {0x35, 0x45, 0x55} then 0xB0 else 0)"

fun write_regs :: "(u8 \<Rightarrow> u8) \<Rightarrow> u8 \<Rightarrow> u8 list \<Rightarrow> (u8 \<Rightarrow> u8)" where
  "write_regs r a [] = r"
| "write_regs r a (d # ds) = write_regs (r(a := d AND NOT (unimplemented a))) (a + 1) ds"

text \<open>The transmit buffers that are free, as the controller's registers say.\<close>

definition tx_free :: "(u8 \<Rightarrow> u8) \<Rightarrow> u8 \<Rightarrow> bool" where
  "tx_free r i \<longleftrightarrow> \<not> bit (r (TXB0CTRL + push_bit 4 i)) 3"

definition modifiable :: "u8 \<Rightarrow> u8" where
  "modifiable a = (if a = CANINTF then 0xFF else if a \<in> {0x30, 0x40, 0x50} then 0x0B else 0)"

definition mcp_registers :: "'c spi \<Rightarrow> ('c \<Rightarrow> u8 \<Rightarrow> u8) \<Rightarrow> bool" where
  "mcp_registers spi reg \<longleftrightarrow>
     (\<forall>c a xs. unat a + length xs \<le> 128 \<longrightarrow>
        (\<forall>i < length xs. nth_default 0 (fst (spi c (SPI_READ # a # xs))) (2 + i) = reg c (a + of_nat i)) \<and>
        reg (snd (spi c (SPI_READ # a # xs))) = reg c) \<and>
     (\<forall>c i a ds. i < 3 \<and> tx_free (reg c) i \<and> TXB0SIDH + push_bit 4 i \<le> a \<and>
          unat a + length ds \<le> unat (TXB0SIDH + push_bit 4 i) + 13 \<longrightarrow>
        reg (snd (spi c (SPI_WRITE # a # ds))) = write_regs (reg c) a ds) \<and>
     (\<forall>c a m d. modifiable a \<noteq> 0 \<longrightarrow>
        (\<forall>x. x \<noteq> a \<longrightarrow> reg (snd (spi c [SPI_BIT_MODIFY, a, m, d])) x = reg c x) \<and>
        (\<forall>n. bit m n \<and> bit (modifiable a) n \<longrightarrow> bit (reg (snd (spi c [SPI_BIT_MODIFY, a, m, d])) a) n = bit d n)) \<and>
     (\<forall>c n. n < 3 \<longrightarrow>
        (\<forall>x. x \<noteq> TXB0CTRL + push_bit 4 (of_nat n) \<longrightarrow> reg (snd (spi c [SPI_RTS OR push_bit n 1])) x = reg c x) \<and>
        bit (reg (snd (spi c [SPI_RTS OR push_bit n 1])) (TXB0CTRL + push_bit 4 (of_nat n))) 3)"

lemma write_regs_at:
  "length ds \<le> 255 \<Longrightarrow>
   write_regs r a ds x = (if unat (x - a) < length ds then ds ! unat (x - a) AND NOT (unimplemented x) else r x)"
proof (induction ds arbitrary: r a)
  case (Cons d ds)
  show ?case
  proof (cases "x = a")
    case True
    then have "x - (a + 1) = 255" by simp
    then have "unat (x - (a + 1)) = 255" by (simp only: unat_numeral) simp
    then show ?thesis using Cons True by simp
  next
    case False
    then have n: "x - a \<noteq> 0" by simp
    have "unat (x - (a + 1)) = unat (x - a) - 1"
      using unat_dec [OF n] by (simp add: diff_diff_eq)
    moreover have "0 < unat (x - a)" using n by (simp add: unat_gt_0)
    ultimately show ?thesis
      using Cons False by (cases "unat (x - a)") simp_all
  qed
qed simp

lemma mcp_laws:
  assumes "mcp_registers spi reg"
  shows "unat a + length xs \<le> 128 \<Longrightarrow> i < length xs \<Longrightarrow>
        nth_default 0 (fst (spi c (SPI_READ # a # xs))) (2 + i) = reg c (a + of_nat i)"
    and "unat a + length xs \<le> 128 \<Longrightarrow> reg (snd (spi c (SPI_READ # a # xs))) = reg c"
    and "b < 3 \<Longrightarrow> tx_free (reg c) b \<Longrightarrow> TXB0SIDH + push_bit 4 b \<le> a \<Longrightarrow>
        unat a + length ds \<le> unat (TXB0SIDH + push_bit 4 b) + 13 \<Longrightarrow>
        reg (snd (spi c (SPI_WRITE # a # ds))) = write_regs (reg c) a ds"
    and "modifiable a \<noteq> 0 \<Longrightarrow> x \<noteq> a \<Longrightarrow> reg (snd (spi c [SPI_BIT_MODIFY, a, m, d])) x = reg c x"
    and "bit m n \<Longrightarrow> bit (modifiable a) n \<Longrightarrow> bit (reg (snd (spi c [SPI_BIT_MODIFY, a, m, d])) a) n = bit d n"
    and "n < 3 \<Longrightarrow> x \<noteq> TXB0CTRL + push_bit 4 (of_nat n) \<Longrightarrow> reg (snd (spi c [SPI_RTS OR push_bit n 1])) x = reg c x"
    and "n < 3 \<Longrightarrow> bit (reg (snd (spi c [SPI_RTS OR push_bit n 1])) (TXB0CTRL + push_bit 4 (of_nat n))) 3"
proof -
  have "modifiable a \<noteq> 0" if "bit (modifiable a) n" for n using that by auto
  then show "bit m n \<Longrightarrow> bit (modifiable a) n \<Longrightarrow> bit (reg (snd (spi c [SPI_BIT_MODIFY, a, m, d])) a) n = bit d n"
    using assms unfolding mcp_registers_def by blast
qed (use assms in \<open>unfold mcp_registers_def, blast\<close>)+

lemma mcp_driver_laws:
  assumes "mcp_registers spi reg"
  shows "unat a < 128 \<Longrightarrow> fst (mcp2515_read_register spi c a) = reg c a"
    and "unat a < 128 \<Longrightarrow> reg (snd (mcp2515_read_register spi c a)) = reg c"
    and "unat a + unat len \<le> 128 \<Longrightarrow> fst (mcp2515_read_register_p spi c a len) = map (\<lambda>i. reg c (a + of_nat i)) [0..<unat len]"
    and "unat a + unat len \<le> 128 \<Longrightarrow> reg (snd (mcp2515_read_register_p spi c a len)) = reg c"
    and "b < 3 \<Longrightarrow> tx_free (reg c) b \<Longrightarrow> TXB0SIDH + push_bit 4 b \<le> a \<Longrightarrow>
          unat a + unat len \<le> unat (TXB0SIDH + push_bit 4 b) + 13 \<Longrightarrow>
          reg (mcp2515_write_register_p spi c a ds len) = write_regs (reg c) a (map (nth_default 0 ds) [0..<unat len])"
    and "b < 3 \<Longrightarrow> tx_free (reg c) b \<Longrightarrow> TXB0SIDH + push_bit 4 b \<le> a \<Longrightarrow>
          unat a < unat (TXB0SIDH + push_bit 4 b) + 13 \<Longrightarrow>
          reg (mcp2515_write_register spi c a d) = write_regs (reg c) a [d]"
proof -
  note laws = mcp_laws [OF assms]
  show "unat a < 128 \<Longrightarrow> fst (mcp2515_read_register spi c a) = reg c a"
    using laws(1) [of a "[0]" 0 c]
    by (simp add: mcp2515_read_register_def case_prod_unfold Let_def)
  show "unat a < 128 \<Longrightarrow> reg (snd (mcp2515_read_register spi c a)) = reg c"
    using laws(2) [of a "[0]" c] by (simp add: mcp2515_read_register_def case_prod_unfold Let_def)
  show "unat a + unat len \<le> 128 \<Longrightarrow> fst (mcp2515_read_register_p spi c a len) = map (\<lambda>i. reg c (a + of_nat i)) [0..<unat len]"
    using laws(1) [of a "replicate (unat len) 0xff" _ c]
    by (simp add: mcp2515_read_register_p_def case_prod_unfold Let_def)
  show "unat a + unat len \<le> 128 \<Longrightarrow> reg (snd (mcp2515_read_register_p spi c a len)) = reg c"
    using laws(2) [of a "replicate (unat len) 0xff" c]
    by (simp add: mcp2515_read_register_p_def case_prod_unfold Let_def)
  show "b < 3 \<Longrightarrow> tx_free (reg c) b \<Longrightarrow> TXB0SIDH + push_bit 4 b \<le> a \<Longrightarrow>
      unat a + unat len \<le> unat (TXB0SIDH + push_bit 4 b) + 13 \<Longrightarrow>
      reg (mcp2515_write_register_p spi c a ds len) = write_regs (reg c) a (map (nth_default 0 ds) [0..<unat len])"
    unfolding mcp2515_write_register_p_def by (rule laws(3)) simp_all
  show "b < 3 \<Longrightarrow> tx_free (reg c) b \<Longrightarrow> TXB0SIDH + push_bit 4 b \<le> a \<Longrightarrow>
      unat a < unat (TXB0SIDH + push_bit 4 b) + 13 \<Longrightarrow>
      reg (mcp2515_write_register spi c a d) = write_regs (reg c) a [d]"
    unfolding mcp2515_write_register_def by (rule laws(3)) auto
qed

definition first_tx :: "(u8 \<Rightarrow> u8) \<Rightarrow> u8 option" where
  "first_tx r = (if tx_free r 0 then Some 0 else if tx_free r 1 then Some 1
     else if tx_free r 2 then Some 2 else None)"

lemma can_sendable_law:
  assumes "mcp_registers spi reg" and "i = 0 \<or> i = 1 \<or> i = 2"
  shows "fst (can_sendable spi c i) = tx_free (reg c) i" "reg (snd (can_sendable spi c i)) = reg c"
  using mcp_driver_laws(1,2) [OF assms(1), of "TXB0CTRL + push_bit 4 i" c] assms(2)
  by (auto simp: can_sendable_def tx_free_def case_prod_unfold Let_def)

lemma choose_tx_law:
  assumes "mcp_registers spi reg"
  shows "fst (choose_tx spi c) = first_tx (reg c)" "reg (snd (choose_tx spi c)) = reg c"
  using can_sendable_law [OF assms, of 0] can_sendable_law [OF assms, of 1] can_sendable_law [OF assms, of 2]
  by (simp_all add: choose_tx_def first_tx_def case_prod_unfold Let_def)

lemma can_any_sendable_law:
  assumes "mcp_registers spi reg"
  shows "fst (can_any_sendable spi c) = (first_tx (reg c) \<noteq> None)"
    "reg (snd (can_any_sendable spi c)) = reg c"
  using can_sendable_law [OF assms, of 0] can_sendable_law [OF assms, of 1] can_sendable_law [OF assms, of 2]
  by (simp_all add: can_any_sendable_def first_tx_def case_prod_unfold Let_def)

section \<open>Identifiers on the wire\<close>

lemma id_masks:
  "(0x03 :: 'a::len word) = mask 2" "(0xE0 :: 'a::len word) = push_bit 5 (mask 3)"
  "(8 :: 'a::len word) = push_bit 3 1"
  by (simp_all add: mask_eq_exp_minus_1 push_bit_eq_mult)

lemma unat_minus_1_u8 [simp]: "unat (- 1 :: u8) = 255"
  by (simp add: unsigned_minus_1_eq_mask mask_eq_exp_minus_1)

text \<open>The receiver reassembles the identifier the sender has spread over the registers.\<close>

lemma rx_tx_id: "rx_id (tx_id_bytes i) = take_bit 29 i"
proof (rule bit_word_eqI)
  fix n assume n: "n < LENGTH(32)"
  have bits: "n \<in> {0, 1, 2, 3, 4, 5, 6, 7, 8, 9, 10, 11, 12, 13, 14, 15, 16, 17, 18, 19, 20, 21, 22,
      23, 24, 25, 26, 27, 28, 29, 30, 31}"
    using n by (auto simp: less_Suc_eq numeral_eq_Suc)
  show "bit (rx_id (tx_id_bytes i)) n = bit (take_bit 29 i) n"
    using bits unfolding rx_id_def tx_id_bytes_def
    by (elim insertE emptyE) (simp_all add: bit_simps)
qed

section \<open>What a transmission leaves in the controller\<close>

lemma buffer_cases: "first_tx r = Some i \<Longrightarrow> i = 0 \<or> i = 1 \<or> i = 2"
  by (auto simp: first_tx_def split: if_splits)

definition tx_image :: "(u8 \<Rightarrow> u8) \<Rightarrow> u8 \<Rightarrow> u8 list \<Rightarrow> u8 \<Rightarrow> u8 list \<Rightarrow> bool" where
  "tx_image r i idb len bytes \<longleftrightarrow>
     (\<forall>k < 4. r (TXB0SIDH + push_bit 4 i + of_nat k) = idb ! k) \<and>
     r (TXB0DLC + push_bit 4 i) = len \<and>
     (\<forall>k < unat len. r (TXB0D0 + push_bit 4 i + of_nat k) = nth_default 0 bytes k) \<and>
     \<not> tx_free r i"

lemma small_length:
  assumes "unat (len :: u8) \<le> 8"
  shows "len AND NOT 0xB0 = len" "len AND 0x0F = len" "len AND 0x4F = len"
proof -
  consider "unat len = 0" | "unat len = 1" | "unat len = 2" | "unat len = 3" | "unat len = 4" | "unat len = 5"
    | "unat len = 6" | "unat len = 7" | "unat len = 8" using assms by linarith
  then consider "len = 0" | "len = 1" | "len = 2" | "len = 3" | "len = 4" | "len = 5" | "len = 6" | "len = 7" | "len = 8"
    by cases (simp_all add: word_unat_eq_iff)
  then show "len AND NOT 0xB0 = len" "len AND 0x0F = len" "len AND 0x4F = len"
    by (cases, simp_all)+
qed

lemma id_byte_implemented: "tx_id_bytes i ! 1 AND NOT 0x14 = tx_id_bytes i ! 1"
  by (simp add: tx_id_bytes_def bit.conj_disj_distrib2 and.assoc)

lemma tx_registers:
  fixes r r' :: "u8 \<Rightarrow> u8" and i len :: u8 and bytes :: "u8 list"
  assumes i: "i = 0 \<or> i = 1 \<or> i = 2" and len: "unat len \<le> 8" and idb: "length idb = 4" "idb ! 1 AND NOT 0x14 = idb ! 1"
    and r': "\<And>x. x \<noteq> TXB0CTRL + push_bit 4 i \<Longrightarrow> r' x =
        write_regs (write_regs (write_regs r (TXB0SIDH + push_bit 4 i) idb) (TXB0DLC + push_bit 4 i) [len])
          (TXB0D0 + push_bit 4 i) (map (nth_default 0 bytes) [0..<unat len]) x"
    and req: "bit (r' (TXB0CTRL + push_bit 4 i)) 3"
  shows "tx_image r' i idb len bytes"
proof -
  have r3: "r' x = (if unat (x - (TXB0D0 + push_bit 4 i)) < unat len
      then nth_default 0 bytes (unat (x - (TXB0D0 + push_bit 4 i))) AND NOT (unimplemented x)
      else if x = TXB0DLC + push_bit 4 i then len AND NOT (unimplemented x)
      else if unat (x - (TXB0SIDH + push_bit 4 i)) < 4
      then idb ! unat (x - (TXB0SIDH + push_bit 4 i)) AND NOT (unimplemented x) else r x)"
    if "x \<noteq> TXB0CTRL + push_bit 4 i" for x
    unfolding r' [OF that] using len idb(1) by (auto simp: write_regs_at unat_eq_zero)
  have a: "r' (TXB0SIDH + push_bit 4 i + of_nat k) = idb ! k" if "k < 4" for k
  proof -
    have "k = 0 \<or> k = 1 \<or> k = 2 \<or> k = 3" using that by linarith
    then show ?thesis
      using i len idb(2) by (elim disjE) (simp_all add: r3 unimplemented_def)
  qed
  have b: "r' (TXB0DLC + push_bit 4 i) = len"
    using i len small_length(1) [OF len] by (elim disjE) (simp_all add: r3 unimplemented_def)
  have c: "r' (TXB0D0 + push_bit 4 i + of_nat k) = nth_default 0 bytes k" if "k < unat len" for k
  proof -
    have k: "k = 0 \<or> k = 1 \<or> k = 2 \<or> k = 3 \<or> k = 4 \<or> k = 5 \<or> k = 6 \<or> k = 7" using that len by linarith
    then have "TXB0D0 + push_bit 4 i + of_nat k \<noteq> TXB0CTRL + push_bit 4 i"
      "unimplemented (TXB0D0 + push_bit 4 i + of_nat k) = 0"
      using i by (elim disjE, simp_all add: unimplemented_def)+
    then show ?thesis using that k by (auto simp: r3)
  qed
  have "\<not> tx_free r' i" using req by (simp add: tx_free_def)
  with a b c show ?thesis by (simp add: tx_image_def)
qed

lemma ctrl_kept:
  assumes "i = 0 \<or> i = 1 \<or> i = 2"
  shows "length ds \<le> 8 \<Longrightarrow> tx_free (write_regs r (TXB0SIDH + push_bit 4 i) ds) i = tx_free r i"
    "length ds \<le> 8 \<Longrightarrow> tx_free (write_regs r (TXB0DLC + push_bit 4 i) ds) i = tx_free r i"
  using assms by (auto simp: tx_free_def write_regs_at)

lemma can_send_message_law:
  assumes chip: "mcp_registers spi reg" and len: "unat len \<le> 8"
  shows "case first_tx (reg (chip d)) of
      None \<Rightarrow> fst (can_send_message spi d i bytes len) = MCP2515_FAIL \<and>
        canix_tx_dropped (snd (can_send_message spi d i bytes len)) = canix_tx_dropped d + 1 \<and>
        canix_tx_sent (snd (can_send_message spi d i bytes len)) = canix_tx_sent d
    | Some b \<Rightarrow> fst (can_send_message spi d i bytes len) = MCP2515_OK \<and>
        canix_tx_dropped (snd (can_send_message spi d i bytes len)) = canix_tx_dropped d \<and>
        canix_tx_sent (snd (can_send_message spi d i bytes len)) = canix_tx_sent d + 1 \<and>
        tx_image (reg (chip (snd (can_send_message spi d i bytes len)))) b (tx_id_bytes i) len bytes"
proof -
  obtain t c where ch: "choose_tx spi (chip d) = (t, c)" by fastforce
  then have t: "t = first_tx (reg (chip d))" "reg c = reg (chip d)"
    using choose_tx_law [OF chip, of "chip d"] by simp_all
  note laws = mcp_driver_laws [OF chip]
  show ?thesis
  proof (cases t)
    case None
    then have "first_tx (reg (chip d)) = None" using t(1) by simp
    then show ?thesis using None by (simp add: can_send_message_def ch)
  next
    case (Some b)
    have b: "b = 0 \<or> b = 1 \<or> b = 2" using buffer_cases Some t(1) by metis
    then have b3: "b < 3" "unat b < 3" by auto
    have fr: "tx_free (reg c) b" using Some t by (auto simp: first_tx_def split: if_splits)
    define off where "off = push_bit 4 b"
    have u: "unat (TXB0SIDH + off) + 4 = unat (TXB0DLC + off)" "unat (TXB0SIDH + off) + 5 = unat (TXB0D0 + off)"
      "TXB0SIDH + off \<le> TXB0DLC + off" "TXB0SIDH + off \<le> TXB0D0 + off"
      using b by (auto simp: off_def)
    have idb: "map (nth_default 0 (tx_id_bytes i)) [0..<unat (4 :: u8)] = tx_id_bytes i" "length (tx_id_bytes i) = 4"
      by (simp_all add: tx_id_bytes_def upt_conv_Cons)
    define c1 where "c1 = mcp2515_write_register_p spi c (TXB0SIDH + off) (tx_id_bytes i) 4"
    define c2 where "c2 = mcp2515_write_register spi c1 (TXB0DLC + off) len"
    define c3 where "c3 = mcp2515_write_register_p spi c2 (TXB0D0 + off) bytes len"
    define c4 where "c4 = mcp2515_bit_modify spi c3 (TXB0CTRL + off) 8 8"
    define c5 where "c5 = snd (spi c4 [SPI_RTS OR push_bit (unat b) 1])"
    have e: "chip (snd (can_send_message spi d i bytes len)) = c5"
      by (simp add: can_send_message_def ch Some Let_def c1_def c2_def c3_def c4_def c5_def off_def)
    have "reg c1 = write_regs (reg c) (TXB0SIDH + off) (map (nth_default 0 (tx_id_bytes i)) [0..<unat (4 :: u8)])"
      unfolding c1_def by (intro laws(5) [OF b3(1) fr]) (simp_all add: off_def)
    then have r1: "reg c1 = write_regs (reg c) (TXB0SIDH + off) (tx_id_bytes i)" unfolding idb(1) .
    have f1: "tx_free (reg c1) b" using fr ctrl_kept(1) [OF b, of "tx_id_bytes i"] idb(2) by (simp add: r1 off_def)
    have r2: "reg c2 = write_regs (reg c1) (TXB0DLC + off) [len]"
      unfolding c2_def using u by (intro laws(6) [OF b3(1) f1]) (simp_all add: off_def)
    have f2: "tx_free (reg c2) b" using f1 ctrl_kept(2) [OF b, of "[len]"] by (simp add: r2 off_def)
    have r3: "reg c3 = write_regs (reg c2) (TXB0D0 + off) (map (nth_default 0 bytes) [0..<unat len])"
      unfolding c3_def using u len by (intro laws(5) [OF b3(1) f2]) (simp_all add: off_def)
    have n: "TXB0CTRL + push_bit 4 (of_nat (unat b)) = TXB0CTRL + off" by (simp add: off_def)
    have md: "modifiable (TXB0CTRL + off) \<noteq> 0" using b by (auto simp: modifiable_def off_def)
    have r5: "reg c5 x = reg c3 x" if "x \<noteq> TXB0CTRL + off" for x
      using mcp_laws(6) [OF chip b3(2), of x c4] mcp_laws(4) [OF chip md that, of c3 8 8] that
      unfolding c5_def n c4_def mcp2515_bit_modify_def by simp
    have "bit (reg c5 (TXB0CTRL + off)) 3"
      using mcp_laws(7) [OF chip b3(2), of c4] unfolding c5_def n .
    then have "tx_image (reg c5) b (tx_id_bytes i) len bytes"
      using r5 unfolding r3 r2 r1 off_def
      by (intro tx_registers [OF b len idb(2) id_byte_implemented, of "reg c5" "reg c"])
    moreover have "first_tx (reg (chip d)) = Some b" using t(1) Some by simp
    ultimately show ?thesis
      using Some e by (simp add: can_send_message_def ch Let_def)
  qed
qed

text \<open>
  What the bus does with an extended frame: it carries the identifier, the length, and as many bytes as the length says. The
  receiver's controller puts them into its receive buffer and sets the buffer's flag; the other bits and bytes there are anything.
\<close>

definition bus_transfer :: "(u8 \<Rightarrow> u8) \<Rightarrow> u8 \<Rightarrow> (u8 \<Rightarrow> u8) \<Rightarrow> bool" where
  "bus_transfer rt i rr \<longleftrightarrow>
     (let off = push_bit 4 i; len = rt (TXB0DLC + off) AND 0x0F in
      rr RXB0SIDH = rt (TXB0SIDH + off) \<and>
      rr (RXB0SIDH + 1) AND 0xEB = rt (TXB0SIDH + off + 1) AND 0xEB \<and>
      rr (RXB0SIDH + 2) = rt (TXB0SIDH + off + 2) \<and>
      rr (RXB0SIDH + 3) = rt (TXB0SIDH + off + 3) \<and>
      rr RXB0DLC AND 0x0F = len \<and>
      (\<forall>k < min 8 (unat len). rr (RXB0D0 + of_nat k) = rt (TXB0D0 + off + of_nat k)) \<and>
      bit (rr CANINTF) 0)"

lemma rx_id_cong:
  assumes "b AND 0xEB = b' AND 0xEB"
  shows "rx_id [a, b, c, d] = rx_id [a, b', c, d]"
proof -
  have "b AND 0x03 = (b AND 0xEB) AND 0x03" "b AND 0xE0 = (b AND 0xEB) AND 0xE0"
    "b' AND 0x03 = (b' AND 0xEB) AND 0x03" "b' AND 0xE0 = (b' AND 0xEB) AND 0xE0" by (simp_all add: and.assoc)
  then have m: "b AND 0x03 = b' AND 0x03" "b AND 0xE0 = b' AND 0xE0" using assms by simp_all
  have u: "(ucast x :: u32) AND 0x03 = ucast (x AND 0x03)" "(ucast x :: u32) AND 0xE0 = ucast (x AND 0xE0)" for x :: u8
    by (simp_all add: unsigned_and_eq)
  show ?thesis by (simp add: rx_id_def u m)
qed

lemma read_message_law:
  assumes chip: "mcp_registers spi reg" and im: "tx_image rt i idb len bytes"
    and bus: "bus_transfer rt i (reg c)" and len: "unat len \<le> 8" and idb: "length idb = 4"
  shows "\<exists>c'. mcp2515_read_message spi c =
     Some (rx_id idb, len, map (nth_default 0 bytes) [0..<unat len], c') \<and> \<not> bit (reg c' CANINTF) 0"
proof -
  note laws = mcp_driver_laws [OF chip]
  note low = small_length(2) [OF len]
  obtain a b c2 d where ab: "idb = [a, b, c2, d]"
    using idb by (auto simp: length_Suc_conv numeral_eq_Suc)
  have t: "rt (TXB0SIDH + push_bit 4 i) = a" "rt (0x32 + push_bit 4 i) = b"
    "rt (0x33 + push_bit 4 i) = c2" "rt (0x34 + push_bit 4 i) = d"
    "rt (TXB0DLC + push_bit 4 i) = len"
    and td: "\<And>k. k < unat len \<Longrightarrow> rt (TXB0D0 + push_bit 4 i + of_nat k) = nth_default 0 bytes k"
  proof -
    have k: "rt (TXB0SIDH + push_bit 4 i + of_nat k) = idb ! k" if "k < 4" for k using im that by (simp add: tx_image_def)
    show "rt (TXB0SIDH + push_bit 4 i) = a" "rt (0x32 + push_bit 4 i) = b"
      "rt (0x33 + push_bit 4 i) = c2" "rt (0x34 + push_bit 4 i) = d"
      using k [of 0] k [of 1] k [of 2] k [of 3] by (simp_all add: ab)
  qed (use im in \<open>simp_all add: tx_image_def\<close>)
  have r: "reg c RXB0SIDH = a" "reg c (RXB0SIDH + 1) AND 0xEB = b AND 0xEB" "reg c (RXB0SIDH + 2) = c2"
    "reg c (RXB0SIDH + 3) = d" "reg c RXB0DLC AND 0x0F = len"
    and rd: "\<And>k. k < unat len \<Longrightarrow> reg c (RXB0D0 + of_nat k) = nth_default 0 bytes k"
    using bus len td by (simp_all add: bus_transfer_def Let_def t low)
  have ids: "map (\<lambda>k. reg c (RXB0SIDH + of_nat k)) [0..<unat (4 :: u8)] = [a, reg c (RXB0SIDH + 1), c2, d]"
    using r by (simp add: upt_rec)
  have id: "rx_id [a, reg c (RXB0SIDH + 1), c2, d] = rx_id idb" unfolding ab by (rule rx_id_cong [OF r(2)])
  have dat: "map (\<lambda>k. reg c (RXB0D0 + of_nat k)) [0..<unat len] = map (nth_default 0 bytes) [0..<unat len]"
    using rd by simp
  define c1 where "c1 = snd (mcp2515_read_register_p spi c RXB0SIDH 4)"
  define c3 where "c3 = snd (mcp2515_read_register spi c1 RXB0DLC)"
  define c4 where "c4 = snd (mcp2515_read_register_p spi c3 RXB0D0 len)"
  have 1: "mcp2515_read_register_p spi c RXB0SIDH 4 = ([a, reg c (RXB0SIDH + 1), c2, d], c1)" and g1: "reg c1 = reg c"
    using laws(3,4) [of RXB0SIDH 4 c] unfolding ids by (simp_all add: prod_eq_iff c1_def)
  have 3: "mcp2515_read_register spi c1 RXB0DLC = (reg c RXB0DLC, c3)" and g3: "reg c3 = reg c"
    using laws(1,2) [of RXB0DLC c1] by (simp_all add: prod_eq_iff c3_def g1)
  have 4: "mcp2515_read_register_p spi c3 RXB0D0 len = (map (nth_default 0 bytes) [0..<unat len], c4)"
    using laws(3) [of RXB0D0 len c3] len unfolding g3 dat by (simp add: prod_eq_iff c4_def)
  have "\<not> bit (reg (mcp2515_bit_modify spi c4 CANINTF 1 0) CANINTF) 0"
    using mcp_laws(5) [OF chip, of 1 0 CANINTF c4 0] by (simp add: mcp2515_bit_modify_def modifiable_def)
  then show ?thesis
    using len id by (simp add: mcp2515_read_message_def 1 3 4 r(5))
qed

section \<open>Properties\<close>

text \<open>A controller as the data sheet has it: a register file that executes the instructions.\<close>

definition regfile_spi :: "(u8 \<Rightarrow> u8) spi" where
  "regfile_spi r bs =
     (case bs of
        [] \<Rightarrow> ([], r)
      | [rts] \<Rightarrow> ([0], fold (\<lambda>n r. if bit rts n then r(TXB0CTRL + push_bit 4 (of_nat n) :=
                    r (TXB0CTRL + push_bit 4 (of_nat n)) OR 8) else r) [0, 1, 2] r)
      | op1 # a # xs \<Rightarrow>
          if op1 = SPI_READ then (0 # 0 # map (\<lambda>i. r (a + of_nat i)) [0..<length xs], r)
          else if op1 = SPI_WRITE then (map (\<lambda>_. 0) bs, write_regs r a xs)
          else if op1 = SPI_BIT_MODIFY
               then (case xs of [m, d] \<Rightarrow> (map (\<lambda>_. 0) bs, r(a := (r a AND NOT m) OR (d AND m)))
                     | _ \<Rightarrow> (map (\<lambda>_. 0) bs, r))
          else (map (\<lambda>_. 0) bs, r))"

lemma regfile_registers: "mcp_registers regfile_spi (\<lambda>r. r)"
proof -
  have rts: "snd (regfile_spi c [SPI_RTS OR push_bit n 1]) =
      c(TXB0CTRL + push_bit 4 (of_nat n) := c (TXB0CTRL + push_bit 4 (of_nat n)) OR 8)"
    if "n < 3" for c n
  proof -
    have "n = 0 \<or> n = 1 \<or> n = 2" using that by linarith
    then show ?thesis by (elim disjE) (simp_all add: regfile_spi_def bit_simps)
  qed
  have rd: "nth_default 0 (fst (regfile_spi c (SPI_READ # a # xs))) (2 + i) = c (a + of_nat i)"
    if "i < length xs" for c a xs i
    using that by (simp add: regfile_spi_def nth_default_def)
  have "bit (8 :: u8) 3" by simp
  then show ?thesis
    unfolding mcp_registers_def using rts rd
    by (auto simp: regfile_spi_def bit_or_iff bit_and_iff bit_not_iff dest: bit_imp_le_length)
qed

text \<open>
  Property C24. A message survives the way from one board's driver to the receive queue of another: when a transmit buffer is
  free, \<^verbatim>\<open>can_send_message\<close> reports success, counts the message and asks for the transmission of the first free
  buffer; the interrupt of a receiver with room in its queue, whose receive buffer the bus has filled from
  it, adds to the queue exactly one message, with the low 29 bits of the identifier and the bytes, counts it, and
  acknowledges it to the controller.
\<close>

theorem message_roundtrip:
  assumes "mcp_registers spi reg" and "mcp_registers spi' reg'" and "unat len \<le> 8"
    and "first_tx (reg (chip d)) = Some i" and "can_send_message spi d idt bytes len = (res, d')"
    and "bus_transfer (reg (chip d')) i (reg' (chip r))"
    and "rxq_inv (canix_rx_queue r)" and "size (rxq_items (canix_rx_queue r)) < CANIX_QUEUE_SIZE"
  shows "res = MCP2515_OK \<and> canix_tx_sent d' = canix_tx_sent d + 1 \<and> \<not> tx_free (reg (chip d')) i \<and>
    (\<exists>r'. isr_receive spi' r = Some r' \<and> rxq_inv (canix_rx_queue r') \<and>
      rxq_items (canix_rx_queue r') =
        add_mset (take_bit 29 idt, map (nth_default 0 bytes) [0..<unat len]) (rxq_items (canix_rx_queue r)) \<and>
      canix_rx_received r' = canix_rx_received r + 1 \<and> canix_rx_lost r' = canix_rx_lost r \<and>
      \<not> fst (mcp2515_message_available spi' (chip r')))"
proof -
  let ?m = "(take_bit 29 idt, map (nth_default 0 bytes) [0..<unat len])"
  have law: "res = MCP2515_OK" "canix_tx_sent d' = canix_tx_sent d + 1"
    "tx_image (reg (chip d')) i (tx_id_bytes idt) len bytes"
    using can_send_message_law [OF assms(1,3), of d idt bytes] assms(4,5) by simp_all
  obtain c1 where av: "mcp2515_message_available spi' (chip r) = (True, c1)" and c1: "reg' c1 = reg' (chip r)"
    using mcp_driver_laws(1,2) [OF assms(2), of CANINTF "chip r"] assms(6)
    by (auto simp: mcp2515_message_available_def bus_transfer_def Let_def case_prod_unfold)
  have "length (tx_id_bytes idt) = 4" by (simp add: tx_id_bytes_def)
  from read_message_law [OF assms(2) law(3) _ assms(3) this, of c1] assms(6) obtain c' where c':
    "mcp2515_read_message spi' c1 = Some (fst ?m, len, snd ?m, c')" "\<not> bit (reg' c' CANINTF) 0"
    by (auto simp: rx_tx_id c1)
  have fit: "length (snd ?m) \<le> 8" using assms(3) by simp
  have "rxq_put_msg ?m (canix_rx_queue r) \<noteq> None" using rxq.put_None [OF assms(7) fit] assms(8) by linarith
  then obtain q where q: "rxq_put_msg ?m (canix_rx_queue r) = Some q" by auto
  then have room: "canix_rxq_size (canix_rx_queue r) < of_nat CANIX_QUEUE_SIZE"
    and qd: "q = rxq_put (fst ?m) len (snd ?m) (canix_rx_queue r)"
    by (auto simp: rxq_put_msg_def split: if_splits)
  have "isr_receive spi' r = Some (r\<lparr>chip := c', canix_rx_queue := q, canix_rx_received := canix_rx_received r + 1\<rparr>)"
    using room by (simp add: isr_receive_def av c'(1) qd)
  moreover have "\<not> fst (mcp2515_message_available spi' c')"
    using mcp_driver_laws(1) [OF assms(2), of CANINTF c'] c'(2)
    by (simp add: mcp2515_message_available_def case_prod_unfold Let_def)
  ultimately show ?thesis
    using law rxq.put_Some [OF assms(7) fit q] by (simp add: tx_image_def)
qed

definition idle_driver :: "(u8 \<Rightarrow> u8) driver" where
  "idle_driver = \<lparr>chip = (\<lambda>_. 0), canix_rx_queue = replicate CANIX_QUEUE_SIZE \<lparr>used = False,
     extended = 0, qsize = 0, qdata = replicate 8 0\<rparr>, canix_rx_received = 0, canix_rx_lost = 0,
     canix_tx_sent = 0, canix_tx_dropped = 0\<rparr>"

theorem message_roundtrip_witness:
  "\<exists>r'. isr_receive regfile_spi
     (idle_driver\<lparr>chip := (\<lambda>a. if a = CANINTF then 1 else chip (snd (can_send_message regfile_spi idle_driver 0x3108c07 [5, 10, 7] 3))
        (a - RXB0SIDH + TXB0SIDH))\<rparr>) = Some r' \<and> rxq_items (canix_rx_queue r') = {#(0x3108c07, [5, 10, 7])#}"
proof -
  obtain res d' where s: "can_send_message regfile_spi idle_driver 0x3108c07 [5, 10, 7] 3 = (res, d')"
    by fastforce
  define r where "r = idle_driver\<lparr>chip := (\<lambda>a. if a = CANINTF then 1 else chip d' (a - RXB0SIDH + TXB0SIDH))\<rparr>"
  have f: "first_tx (chip idle_driver) = Some 0"
    by (simp add: first_tx_def tx_free_def idle_driver_def)
  have l: "unat (3 :: u8) \<le> 8" by simp
  have x: "RXB0D0 + of_nat k \<noteq> CANINTF" if "k < 8" for k
  proof -
    have "k = 0 \<or> k = 1 \<or> k = 2 \<or> k = 3 \<or> k = 4 \<or> k = 5 \<or> k = 6 \<or> k = 7" using that by linarith
    then show ?thesis by (elim disjE) simp_all
  qed
  have b: "bus_transfer (chip d') 0 (chip r)"
    using x by (simp add: bus_transfer_def Let_def r_def)
  have q: "rxq_inv (canix_rx_queue r)" "rxq_items (canix_rx_queue r) = {#}"
    by (auto simp: r_def idle_driver_def rxq_inv_def rxq_items_def)
  have e: "map (nth_default 0 [5, 10, 7 :: u8]) [0..<unat (3 :: u8)] = [5, 10, 7]"
    by (simp add: upt_conv_Cons)
  have t: "take_bit 29 (0x3108c07 :: u32) = 0x3108c07" by simp
  have z: "size (rxq_items (canix_rx_queue r)) < CANIX_QUEUE_SIZE" by (simp add: q(2))
  obtain r' where "isr_receive regfile_spi r = Some r'" "rxq_items (canix_rx_queue r') = {#(0x3108c07, [5, 10, 7])#}"
    using message_roundtrip [where reg = "\<lambda>r. r" and reg' = "\<lambda>r. r",
        OF regfile_registers regfile_registers l f s b q(1) z] unfolding e t q(2) by blast
  then show ?thesis unfolding s snd_conv r_def [symmetric] by blast
qed

text \<open>
  Property C25. The receive queue loses nothing below its capacity and duplicates nothing:
  after any sequence of arrivals (the interrupt) and reads (the main loop), the messages
  read, those still queued and those lost are exactly the old and the arrived ones; and a
  message is lost only when all twelve entries are used.
\<close>

theorem rx_queue_conserves_messages:
  assumes "rxq_inv q" and "\<forall>m. Some m \<in> set es \<longrightarrow> length (snd m) \<le> 8"
    and "rxq.traffic es q = (q', lost, rd)"
  shows "rxq_inv q' \<and>
    rxq_items q + mset (List.map_filter (\<lambda>x. x) es) = rxq_items q' + lost + rd \<and>
    (\<forall>m. length (snd m) \<le> 8 \<longrightarrow> rxq_put_msg m q' = None \<longrightarrow> CANIX_QUEUE_SIZE \<le> size (rxq_items q'))"
  using rxq.traffic_conserves [OF assms] rxq.put_None by blast

definition empty_rxq :: "canix_rx_queue_entry list" where
  "empty_rxq = replicate CANIX_QUEUE_SIZE \<lparr>used = False, extended = 0, qsize = 0, qdata = replicate 8 0\<rparr>"

lemma empty_rxq_facts: "rxq_inv empty_rxq" "rxq_items empty_rxq = {#}"
  by (auto simp: rxq_inv_def rxq_items_def empty_rxq_def)

theorem rx_queue_conserves_messages_witness:
  "\<exists>q' lost rd. rxq.traffic [Some (1, [2]), None, None] empty_rxq = (q', lost, rd) \<and>
     {#(1, [2])#} = rxq_items q' + lost + rd"
proof -
  obtain q' lost rd where t: "rxq.traffic [Some (1, [2]), None, None] empty_rxq = (q', lost, rd)"
    using prod_cases3 by blast
  have m: "\<forall>m. Some m \<in> set [Some (1, [2]), None, None] \<longrightarrow> length (snd (m :: u32 \<times> u8 list)) \<le> 8"
    by auto
  show ?thesis
    using rx_queue_conserves_messages [OF empty_rxq_facts(1) m t] t
    by (auto simp: empty_rxq_facts(2) List.map_filter_simps)
qed

text \<open>
  The queue does not keep the order of arrival: when entry 0 is free while other
  messages wait, the next message to arrive is read before all of them.
\<close>

theorem rx_queue_overtakes:
  assumes "rxq_inv q" and "\<not> used (q ! 0)" and "length (snd m) \<le> 8" and "rxq_put_msg m q = Some q'"
  shows "\<exists>q''. rxq_get_msg q' = Some (m, q'') \<and> rxq_items q'' = rxq_items q"
proof -
  have len: "length q = CANIX_QUEUE_SIZE" using assms(1) by (simp add: rxq_inv_def)
  then obtain e es where q: "q = e # es" by (cases q) auto
  define e' where "e' = store_entry (fst m) (of_nat (length (snd m))) (snd m) e"
  have q': "q' = e' # es"
    using assms(2,4) q
    by (auto simp: rxq_put_msg_def rxq_put_def canix_rxq_put_one_def e'_def split: if_splits)
  have e': "used e'" "entry_msg e' = m" "unat (qsize e') \<le> 8"
    using assms(3) by (simp_all add: e'_def store_entry_def entry_msg_def)
  have "rxq_items q' \<noteq> {#}" using q' e' by (simp add: rxq_items_def)
  then have ne: "rxq_get_msg q' \<noteq> None"
    using rxq.get_None rxq.put_Some [OF assms(1,3,4)] by blast
  then obtain m1 q1 where g: "rxq_get_msg q' = Some (m1, q1)" by auto
  have "m1 = m"
    using g q' e'
    by (auto simp: rxq_get_msg_def can_read_message_def canix_rxq_fetch_one_def Let_def
        entry_msg_def split: if_splits)
  moreover have "rxq_items q' = add_mset m (rxq_items q)"
    using rxq.put_Some [OF assms(1,3,4)] by blast
  moreover have "rxq_items q' = add_mset m1 (rxq_items q1)"
    using rxq.get_Some g rxq.put_Some [OF assms(1,3,4)] by blast
  ultimately show ?thesis using g by auto
qed

theorem rx_queue_overtakes_witness:
  "\<exists>q1 q2 q3 q4 q5. rxq_put_msg (1, []) empty_rxq = Some q1 \<and> rxq_put_msg (2, []) q1 = Some q2 \<and>
     rxq_get_msg q2 = Some ((1, []), q3) \<and> rxq_put_msg (3, []) q3 = Some q4 \<and>
     rxq_get_msg q4 = Some ((3, []), q5)"
proof -
  define en where "en i u = \<lparr>used = u, extended = i, qsize = 0, qdata = replicate 8 0\<rparr>" for i :: u32 and u
  have a: "empty_rxq = en 0 False # en 0 False # replicate 10 (en 0 False)"
    by (simp add: empty_rxq_def en_def eval_nat_numeral)
  define q1 where "q1 = en 1 True # en 0 False # replicate 10 (en 0 False)"
  define q2 where "q2 = en 1 True # en 2 True # replicate 10 (en 0 False)"
  define q3 where "q3 = en 1 False # en 2 True # replicate 10 (en 0 False)"
  have p1: "rxq_put_msg (1, []) empty_rxq = Some q1"
    by (simp add: a q1_def rxq_put_msg_def canix_rxq_size_def en_def rxq_put_def canix_rxq_put_one_def
        store_entry_def)
  have p2: "rxq_put_msg (2, []) q1 = Some q2"
    by (simp add: q1_def q2_def rxq_put_msg_def canix_rxq_size_def en_def rxq_put_def
        canix_rxq_put_one_def store_entry_def)
  have g: "rxq_get_msg q2 = Some ((1, []), q3)"
    by (simp add: q3_def q2_def rxq_get_msg_def can_read_message_def canix_rxq_size_def en_def
        canix_rxq_fetch_one_def)
  have i3: "rxq_inv q3"
    by (auto simp: q3_def rxq_inv_def en_def)
  have "rxq_put_msg (3, []) q3 \<noteq> None"
    by (simp add: q3_def rxq_put_msg_def canix_rxq_size_def en_def)
  then obtain q4 where p3: "rxq_put_msg (3, []) q3 = Some q4" by auto
  have u: "\<not> used (q3 ! 0)" and l: "length (snd (3 :: u32, [] :: u8 list)) \<le> 8"
    by (simp_all add: q3_def en_def)
  show ?thesis
    using rx_queue_overtakes [OF i3 u l p3] p1 p2 g p3 by blast
qed

text \<open>
  The data length is not checked: a message whose length register says 9 to 15
  (the controller stores all four bits) makes the interrupt write past the eight byte buffer;
  with a length of at most 8 the interrupt is defined, and stores or counts the message.
\<close>

theorem isr_overflows_on_long_dlc:
  assumes "mcp_registers spi reg" and "bit (reg (chip d) CANINTF) 0"
  shows "isr_receive spi d = None \<longleftrightarrow> 8 < unat (reg (chip d) RXB0DLC AND 0x0F)"
proof -
  note laws = mcp_driver_laws [OF assms(1)]
  show ?thesis
    using assms(2)
    by (simp add: isr_receive_def mcp2515_message_available_def mcp2515_read_message_def
        case_prod_unfold Let_def laws)
qed

theorem isr_overflows_on_long_dlc_witness:
  "isr_receive regfile_spi (idle_driver\<lparr>chip := (\<lambda>_. 0)(CANINTF := 1, RXB0DLC := 9)\<rparr>) = None"
proof -
  have b: "bit (chip (idle_driver\<lparr>chip := (\<lambda>_. 0)(CANINTF := 1, RXB0DLC := 9)\<rparr>) CANINTF) 0"
    by simp
  show ?thesis
    by (subst isr_overflows_on_long_dlc [where reg = "\<lambda>r. r", OF regfile_registers b]) simp
qed

end
