(* ===== verification/Canix_Core.thy ===== *)
theory Canix_Core
  imports Canix_Rtc Canix_Mcp2515
begin

text \<open>
  The framework of \<^verbatim>\<open>src/canix/canix.c\<close>: the callback tables, the delivery of frames,
  sending, the message loop and the timer interrupt. A function pointer is a value of a type
  \<open>'h\<close>; what the pointed-to function does is the parameter \<open>call\<close> (frame callbacks)
  or \<open>run\<close> (idle and clock callbacks) of the functions that call it. The rest of the board is
  the component \<open>app\<close>.
\<close>

section \<open>State\<close>

abbreviation (input) MAX_FRAME_CALLBACKS :: nat where "MAX_FRAME_CALLBACKS \<equiv> 16"
abbreviation (input) MAX_IDLE_CALLBACKS :: nat where "MAX_IDLE_CALLBACKS \<equiv> 8"
abbreviation (input) MAX_RTC_CALLBACKS :: nat where "MAX_RTC_CALLBACKS \<equiv> 8"

record 'h canix_frame_callback_entry =
  callback :: "'h option"
  cb_dst :: u16
  cb_proto :: u8
  cb_srv :: u8

record ('c, 'h, 'a) canix =
  drv :: "'c driver"
  frame_callback_entry :: "'h canix_frame_callback_entry list"
  idle_callback :: "'h option list"
  rtc_callback :: "'h option list"
  clock :: canix_rtc_clock
  canix_sleep_ticker :: int
  canix_loop_throughput_counter :: u16
  canix_loop_throughput :: u16
  rtc_clock_counter :: u8
  sleeping :: bool
  app :: 'a

section \<open>The own address\<close>

text \<open>The own address with the static cache \<open>a\<close>: the result and the new cache.\<close>

definition canix_selfaddr :: "(nat \<Rightarrow> u8) \<Rightarrow> u16 \<Rightarrow> u16" where
  "canix_selfaddr eep a =
     (if a = 0 then (ucast (eep EEPR_SELF_ADDR) OR push_bit 8 (ucast (eep (EEPR_SELF_ADDR + 1)))) AND 0x3ff
      else a)"

section \<open>Callback tables\<close>

text \<open>Registration takes the first empty entry; with none it only logs. The address of an entry is an \<^verbatim>\<open>int\<close>,
  which has 16 bits on the boards; \<open>-1\<close> stands for every address.\<close>

fun canix_reg_frame_callback ::
  "'h \<Rightarrow> u16 \<Rightarrow> u8 \<Rightarrow> u8 \<Rightarrow> 'h canix_frame_callback_entry list \<Rightarrow> 'h canix_frame_callback_entry list" where
  "canix_reg_frame_callback h d pr sv [] = []"
| "canix_reg_frame_callback h d pr sv (e # es) =
     (if callback e = None
      then e\<lparr>callback := Some h, cb_dst := d, cb_proto := pr, cb_srv := sv\<rparr> # es
      else e # canix_reg_frame_callback h d pr sv es)"

fun canix_reg_idle_callback :: "'h \<Rightarrow> 'h option list \<Rightarrow> 'h option list" where
  "canix_reg_idle_callback h [] = []"
| "canix_reg_idle_callback h (s # ss) =
     (if s = None then Some h # ss else s # canix_reg_idle_callback h ss)"

fun canix_unreg_idle_callback :: "'h \<Rightarrow> 'h option list \<Rightarrow> 'h option list" where
  "canix_unreg_idle_callback h [] = []"
| "canix_unreg_idle_callback h (s # ss) =
     (if s = Some h then None # ss else s # canix_unreg_idle_callback h ss)"

fun canix_reg_rtc_callback :: "'h \<Rightarrow> 'h option list \<Rightarrow> 'h option list" where
  "canix_reg_rtc_callback h [] = []"
| "canix_reg_rtc_callback h (s # ss) =
     (if s = None then Some h # ss else s # canix_reg_rtc_callback h ss)"

section \<open>Delivery\<close>

definition entry_matches :: "'h canix_frame_callback_entry \<Rightarrow> canix_frame \<Rightarrow> bool" where
  "entry_matches e f \<longleftrightarrow>
     (cb_dst e = -1 \<or> (cb_dst e \<noteq> -1 \<and> cb_dst e = dst f)) \<and>
     (cb_proto e = 0 \<or> cb_proto e = proto f) \<and>
     (cb_srv e = 0 \<or> cb_srv e = byte_at f 0)"

text \<open>
  The table is read again for every entry, so a callback that registers another one behind its
  own entry has it called for the same frame.
\<close>

definition canix_deliver_frame ::
  "('h \<Rightarrow> canix_frame \<Rightarrow> ('c, 'h, 'a) canix \<Rightarrow> ('c, 'h, 'a) canix) \<Rightarrow> canix_frame \<Rightarrow>
   ('c, 'h, 'a) canix \<Rightarrow> ('c, 'h, 'a) canix" where
  "canix_deliver_frame call f st =
     fold (\<lambda>i st.
       (let e = frame_callback_entry st ! i in
        case callback e of
          None \<Rightarrow> st
        | Some h \<Rightarrow> if entry_matches e f then call h f st else st)) [0..<MAX_FRAME_CALLBACKS] st"

section \<open>Sending\<close>

definition extid_of :: "canix_frame \<Rightarrow> u8 \<Rightarrow> u32" where
  "extid_of f prio =
     (ucast (src f) AND 0x3ff) OR push_bit 10 (ucast (dst f) AND 0x3ff) OR
     push_bit 20 (ucast (proto f) AND 7) OR push_bit 24 (ucast prio)"

definition canix_frame_send_with_prio ::
  "'c spi \<Rightarrow> ('h \<Rightarrow> canix_frame \<Rightarrow> ('c, 'h, 'a) canix \<Rightarrow> ('c, 'h, 'a) canix) \<Rightarrow> canix_frame \<Rightarrow> u8 \<Rightarrow>
   ('c, 'h, 'a) canix \<Rightarrow> ('c, 'h, 'a) canix" where
  "canix_frame_send_with_prio spi call f prio st =
     (let (ok, c) = can_any_sendable spi (chip (drv st));
          st = st\<lparr>drv := (drv st)\<lparr>chip := c\<rparr>\<rparr>;
          st = (if ok then st\<lparr>drv := snd (can_send_message spi (drv st) (extid_of f prio) (data f) (fsize f))\<rparr>
                else st)
      in canix_deliver_frame call f st)"

definition canix_frame_send ::
  "'c spi \<Rightarrow> ('h \<Rightarrow> canix_frame \<Rightarrow> ('c, 'h, 'a) canix \<Rightarrow> ('c, 'h, 'a) canix) \<Rightarrow> canix_frame \<Rightarrow>
   ('c, 'h, 'a) canix \<Rightarrow> ('c, 'h, 'a) canix" where
  "canix_frame_send spi call f st = canix_frame_send_with_prio spi call f HCAN_PRIO_LOW st"

section \<open>The message loop\<close>

definition frame_of_ext :: "u32 \<Rightarrow> u8 \<Rightarrow> u8 list \<Rightarrow> canix_frame" where
  "frame_of_ext ext len buf =
     \<lparr>src = ucast (ext AND 0x3ff), dst = ucast (drop_bit 10 ext AND 0x3ff),
      proto = ucast (drop_bit 20 ext AND 7), fsize = len, data = buf\<rparr>"

text \<open>
  The reading and delivery of one frame. The frame lives in a stack buffer \<open>buf\<close> whose
  content is that of earlier calls.
\<close>

definition receive_one ::
  "('h \<Rightarrow> canix_frame \<Rightarrow> ('c, 'h, 'a) canix \<Rightarrow> ('c, 'h, 'a) canix) \<Rightarrow> u8 list \<Rightarrow>
   ('c, 'h, 'a) canix \<Rightarrow> ('c, 'h, 'a) canix" where
  "receive_one call buf st =
     (case can_read_message (canix_rx_queue (drv st)) buf of
        (ext, len, buf', q) \<Rightarrow>
          canix_deliver_frame call
            (frame_of_ext (case ext of Some x \<Rightarrow> x | None \<Rightarrow> 0) len buf')
            (st\<lparr>drv := (drv st)\<lparr>canix_rx_queue := q\<rparr>\<rparr>))"

definition process_slot ::
  "('h \<Rightarrow> canix_frame \<Rightarrow> ('c, 'h, 'a) canix \<Rightarrow> ('c, 'h, 'a) canix) \<Rightarrow>
   ('h \<Rightarrow> ('c, 'h, 'a) canix \<Rightarrow> ('c, 'h, 'a) canix) \<Rightarrow> u8 list \<Rightarrow> nat \<Rightarrow>
   ('c, 'h, 'a) canix \<Rightarrow> ('c, 'h, 'a) canix" where
  "process_slot call run buf i st =
     (if can_message_available (canix_rx_queue (drv st)) then receive_one call buf st
      else (case idle_callback st ! i of None \<Rightarrow> st | Some h \<Rightarrow> run h st))"

definition canix_process_messages ::
  "('h \<Rightarrow> canix_frame \<Rightarrow> ('c, 'h, 'a) canix \<Rightarrow> ('c, 'h, 'a) canix) \<Rightarrow>
   ('h \<Rightarrow> ('c, 'h, 'a) canix \<Rightarrow> ('c, 'h, 'a) canix) \<Rightarrow> u8 list \<Rightarrow>
   ('c, 'h, 'a) canix \<Rightarrow> ('c, 'h, 'a) canix" where
  "canix_process_messages call run buf st =
     fold (process_slot call run buf) [0..<MAX_IDLE_CALLBACKS] st"

definition canix_process_messages_withoutIdle ::
  "('h \<Rightarrow> canix_frame \<Rightarrow> ('c, 'h, 'a) canix \<Rightarrow> ('c, 'h, 'a) canix) \<Rightarrow> u8 list \<Rightarrow>
   ('c, 'h, 'a) canix \<Rightarrow> ('c, 'h, 'a) canix" where
  "canix_process_messages_withoutIdle call buf st =
     (if can_message_available (canix_rx_queue (drv st)) then receive_one call buf st else st)"

text \<open>What \<^verbatim>\<open>canix_mainloop\<close> does before its endless loop, and one turn of the loop.\<close>

definition mainloop_start ::
  "'c spi \<Rightarrow> ('h \<Rightarrow> canix_frame \<Rightarrow> ('c, 'h, 'a) canix \<Rightarrow> ('c, 'h, 'a) canix) \<Rightarrow> u16 \<Rightarrow>
   ('c, 'h, 'a) canix \<Rightarrow> ('c, 'h, 'a) canix" where
  "mainloop_start spi call self st =
     (canix_frame_send_with_prio spi call
        (hes_message self HCAN_MULTICAST_CONTROL [HCAN_HES_BOARD_ACTIVE]) HCAN_PRIO_HI st)
       \<lparr>canix_loop_throughput_counter := 0\<rparr>"

definition mainloop_turn ::
  "('h \<Rightarrow> canix_frame \<Rightarrow> ('c, 'h, 'a) canix \<Rightarrow> ('c, 'h, 'a) canix) \<Rightarrow>
   ('h \<Rightarrow> ('c, 'h, 'a) canix \<Rightarrow> ('c, 'h, 'a) canix) \<Rightarrow> u8 list \<Rightarrow>
   ('c, 'h, 'a) canix \<Rightarrow> ('c, 'h, 'a) canix" where
  "mainloop_turn call run buf st =
     (let st = canix_process_messages call run buf st
      in st\<lparr>canix_loop_throughput_counter := canix_loop_throughput_counter st + 1\<rparr>)"

section \<open>The timer interrupt\<close>

text \<open>The timer's reload value and the waiting period \<^verbatim>\<open>canix_rtc_init\<close> computes.\<close>

definition myClockBasedTCNT0 :: "nat \<Rightarrow> u8" where
  "myClockBasedTCNT0 f_cpu = of_nat ((f_cpu + 3686400 - 1) div 3686400)"

definition myWaitingPeriod :: "nat \<Rightarrow> u8" where
  "myWaitingPeriod f_cpu = of_nat (f_cpu div 1024 div unat (myClockBasedTCNT0 f_cpu) div 100) - 2"

text \<open>The hundredth-of-a-second part of the interrupt.\<close>

definition rtc_tick ::
  "('h \<Rightarrow> ('c, 'h, 'a) canix \<Rightarrow> ('c, 'h, 'a) canix) \<Rightarrow> ('c, 'h, 'a) canix \<Rightarrow> ('c, 'h, 'a) canix" where
  "rtc_tick run st =
     (let c = (clock st)\<lparr>uptime_sec_100th := uptime_sec_100th (clock st) + 1\<rparr>;
          st = st\<lparr>clock := c\<rparr>;
          st = (if uptime_sec_100th c = 100
                then st\<lparr>clock := canix_update_datetime
                          (c\<lparr>uptime_sec_100th := 0, uptime_sec := uptime_sec c + 1\<rparr>),
                        canix_loop_throughput := canix_loop_throughput_counter st,
                        canix_loop_throughput_counter := 0\<rparr>
                else st);
          st = fold (\<lambda>i st. case rtc_callback st ! i of None \<Rightarrow> st | Some h \<Rightarrow> run h st)
                 [0..<MAX_RTC_CALLBACKS] st
      in if canix_sleep_ticker st > 0 then st\<lparr>canix_sleep_ticker := canix_sleep_ticker st - 1\<rparr> else st)"

definition timer_part ::
  "u8 \<Rightarrow> ('h \<Rightarrow> ('c, 'h, 'a) canix \<Rightarrow> ('c, 'h, 'a) canix) \<Rightarrow> ('c, 'h, 'a) canix \<Rightarrow> ('c, 'h, 'a) canix" where
  "timer_part period run st =
     (let old = rtc_clock_counter st;
          st = st\<lparr>rtc_clock_counter := old + 1\<rparr>
      in if old > period then rtc_tick run (st\<lparr>rtc_clock_counter := 0\<rparr>) else st)"

definition TIMER0_OVF_vect ::
  "'c spi \<Rightarrow> u8 \<Rightarrow> ('h \<Rightarrow> ('c, 'h, 'a) canix \<Rightarrow> ('c, 'h, 'a) canix) \<Rightarrow> ('c, 'h, 'a) canix \<Rightarrow>
   ('c, 'h, 'a) canix option" where
  "TIMER0_OVF_vect spi period run st =
     map_option (\<lambda>d. timer_part period run (st\<lparr>drv := d\<rparr>)) (isr_receive spi (drv st))"

section \<open>Initialisation and sleeping\<close>

text \<open>
  The part of \<^verbatim>\<open>canix_init\<close> that concerns the framework's own state: the clock,
  empty tables, an empty queue, and the callbacks of the basic services, whose function
  pointers are the arguments.
\<close>

definition canix_init ::
  "u16 \<Rightarrow> 'h \<Rightarrow> 'h \<Rightarrow> 'h \<Rightarrow> ('c, 'h, 'a) canix \<Rightarrow> ('c, 'h, 'a) canix" where
  "canix_init self hms rts eds st =
     (let self' = self; info = HCAN_MULTICAST_INFO;
          tab = map (\<lambda>e. e\<lparr>callback := None\<rparr>) (frame_callback_entry st);
          tab = canix_reg_frame_callback hms self' HCAN_PROTO_SFP HCAN_SRV_HMS tab;
          tab = canix_reg_frame_callback hms info HCAN_PROTO_SFP HCAN_SRV_HMS tab;
          tab = canix_reg_frame_callback rts info HCAN_PROTO_SFP HCAN_SRV_RTS tab;
          tab = canix_reg_frame_callback rts self' HCAN_PROTO_SFP HCAN_SRV_RTS tab;
          tab = canix_reg_frame_callback eds self' HCAN_PROTO_SFP HCAN_SRV_EDS tab
      in st\<lparr>clock := canix_rtc_init, frame_callback_entry := tab,
            idle_callback := map (\<lambda>_. None) (idle_callback st),
            rtc_callback := map (\<lambda>_. None) (rtc_callback st),
            drv := (drv st)\<lparr>canix_rx_queue := map (\<lambda>e. e\<lparr>used := False\<rparr>) (canix_rx_queue (drv st))\<rparr>\<rparr>)"

text \<open>
  \<^verbatim>\<open>canix_sleep_100th\<close>: \<open>pass\<close> is one call of
  \<^verbatim>\<open>canix_process_messages\<close> with the interrupts that occur meanwhile. The loop runs
  on fuel; \<open>None\<close> means it has not ended.
\<close>

fun sleep_loop :: "nat \<Rightarrow> ('s \<Rightarrow> 's) \<Rightarrow> ('s \<Rightarrow> int) \<Rightarrow> 's \<Rightarrow> 's option" where
  "sleep_loop 0 pass ticker st = None"
| "sleep_loop (Suc fuel) pass ticker st =
     (let st = pass st in if ticker st = 0 then Some st else sleep_loop fuel pass ticker st)"

definition canix_sleep_100th ::
  "nat \<Rightarrow> (('c, 'h, 'a) canix \<Rightarrow> ('c, 'h, 'a) canix) \<Rightarrow> u8 \<Rightarrow> ('c, 'h, 'a) canix \<Rightarrow>
   ('c, 'h, 'a) canix option" where
  "canix_sleep_100th fuel pass n st =
     (if sleeping st then Some st
      else map_option (\<lambda>st. st\<lparr>sleeping := False\<rparr>)
             (sleep_loop fuel pass canix_sleep_ticker
               (st\<lparr>sleeping := True, canix_sleep_ticker := uint n\<rparr>)))"

lemma sleep_loop_ends:
  assumes "\<And>st. ticker (pass st) = 0 \<or> ticker (pass st) < ticker st"
    and "\<And>st. 0 \<le> ticker st \<Longrightarrow> 0 \<le> ticker (pass st)"
    and "0 \<le> ticker st" and "nat (ticker st) < fuel"
  shows "\<exists>st'. sleep_loop fuel pass ticker st = Some st' \<and> ticker st' = 0"
  using assms(3,4)
proof (induction fuel arbitrary: st)
  case (Suc fuel)
  show ?case
  proof (cases "ticker (pass st) = 0")
    case False
    with assms(1) [of st] assms(2) [of st] Suc.prems have "0 \<le> ticker (pass st)"
      "nat (ticker (pass st)) < fuel" by auto
    from Suc.IH [OF this] False show ?thesis by (simp add: Let_def)
  qed (simp add: Let_def)
qed simp

section \<open>Which callbacks a frame reaches\<close>

definition keeps_table ::
  "('h \<Rightarrow> canix_frame \<Rightarrow> ('c, 'h, 'a) canix \<Rightarrow> ('c, 'h, 'a) canix) \<Rightarrow> bool" where
  "keeps_table call \<longleftrightarrow>
     (\<forall>h f st. frame_callback_entry (call h f st) = frame_callback_entry st)"

definition targets :: "'h canix_frame_callback_entry list \<Rightarrow> canix_frame \<Rightarrow> 'h list" where
  "targets es f = List.map_filter (\<lambda>e. if entry_matches e f then callback e else None) es"

lemma targets_Cons:
  "targets (e # es) f = (case callback e of Some h \<Rightarrow> if entry_matches e f then [h] else [] | None \<Rightarrow> []) @ targets es f"
  by (simp add: targets_def List.map_filter_simps split: option.splits)

lemma deliver_upto:
  assumes keep: "keeps_table call" and n: "n \<le> length (frame_callback_entry st)"
  shows "fold (\<lambda>i st.
       (let e = frame_callback_entry st ! i in
        case callback e of
          None \<Rightarrow> st
        | Some h \<Rightarrow> if entry_matches e f then call h f st else st)) [0..<n] st =
     fold (\<lambda>h. call h f) (targets (take n (frame_callback_entry st)) f) st \<and>
     frame_callback_entry (fold (\<lambda>h. call h f) (targets (take n (frame_callback_entry st)) f) st) =
       frame_callback_entry st"
  using n
proof (induction n)
  case (Suc n)
  have t: "targets (take (Suc n) (frame_callback_entry st)) f =
      targets (take n (frame_callback_entry st)) f @
      (case callback (frame_callback_entry st ! n) of
         Some h \<Rightarrow> if entry_matches (frame_callback_entry st ! n) f then [h] else [] | None \<Rightarrow> [])"
    using Suc.prems
    by (simp add: take_Suc_conv_app_nth targets_def List.map_filter_def split: option.splits)
  show ?case
    using Suc.IH Suc.prems keep unfolding t
    by (auto simp: keeps_table_def Let_def split: option.splits)
qed (simp add: targets_def List.map_filter_simps)

lemma deliver_targets:
  assumes "keeps_table call" and "length (frame_callback_entry st) = MAX_FRAME_CALLBACKS"
  shows "canix_deliver_frame call f st = fold (\<lambda>h. call h f) (targets (frame_callback_entry st) f) st"
  using deliver_upto [OF assms(1), of MAX_FRAME_CALLBACKS st f] assms(2)
  unfolding canix_deliver_frame_def by simp

text \<open>The table after a series of registrations.\<close>

definition reg_all ::
  "('h \<times> u16 \<times> u8 \<times> u8) list \<Rightarrow> 'h canix_frame_callback_entry list \<Rightarrow> 'h canix_frame_callback_entry list" where
  "reg_all rs es = fold (\<lambda>(h, d, pr, sv). canix_reg_frame_callback h d pr sv) rs es"

definition filled :: "'h \<times> u16 \<times> u8 \<times> u8 \<Rightarrow> 'h canix_frame_callback_entry" where
  "filled r = (case r of (h, d, pr, sv) \<Rightarrow> \<lparr>callback = Some h, cb_dst = d, cb_proto = pr, cb_srv = sv\<rparr>)"

lemma reg_frame_full:
  "\<forall>e \<in> set es. callback e \<noteq> None \<Longrightarrow>
   canix_reg_frame_callback h d pr sv (es @ fs) = es @ canix_reg_frame_callback h d pr sv fs"
  by (induction es) auto

lemma reg_all_filled:
  "\<forall>e \<in> set es. callback e = None \<Longrightarrow>
   reg_all rs (map filled qs @ es) =
     map filled qs @ map filled (take (length es) rs) @ drop (length rs) es"
proof (induction rs arbitrary: qs es)
  case (Cons r rs)
  obtain h d pr sv where r: "r = (h, d, pr, sv)" by (cases r)
  have f: "\<forall>e \<in> set (map filled qs). callback e \<noteq> None"
    by (auto simp: filled_def split: prod.splits)
  show ?case
  proof (cases es)
    case Nil
    then show ?thesis
      using Cons.IH [of "[]" qs] f
      by (simp add: reg_all_def r reg_frame_full [of "map filled qs" _ _ _ _ "[]", simplified])
  next
    case (Cons e es')
    then have "canix_reg_frame_callback h d pr sv (map filled qs @ es) = map filled (qs @ [r]) @ es'"
      using Cons.prems f by (simp add: reg_frame_full r filled_def)
    then show ?thesis
      using Cons.IH [of es' "qs @ [r]"] Cons.prems Cons by (simp add: reg_all_def r)
  qed
qed (simp add: reg_all_def)

section \<open>The timer\<close>

definition hundredths :: "canix_rtc_clock \<Rightarrow> nat" where
  "hundredths c = unat (uptime_sec c) * 100 + unat (uptime_sec_100th c)"

text \<open>Clock callbacks that leave the framework's clock and counter alone.\<close>

definition keeps_clock :: "('h \<Rightarrow> ('c, 'h, 'a) canix \<Rightarrow> ('c, 'h, 'a) canix) \<Rightarrow> bool" where
  "keeps_clock run \<longleftrightarrow>
     (\<forall>h st. clock (run h st) = clock st \<and> rtc_clock_counter (run h st) = rtc_clock_counter st)"

lemma fold_callbacks_keep:
  assumes "keeps_clock run"
  shows "clock (fold (\<lambda>i st. case rtc_callback st ! i of None \<Rightarrow> st | Some h \<Rightarrow> run h st) is st) = clock st
    \<and> rtc_clock_counter (fold (\<lambda>i st. case rtc_callback st ! i of None \<Rightarrow> st | Some h \<Rightarrow> run h st) is st)
      = rtc_clock_counter st"
  using assms
  by (induction "is" arbitrary: st) (auto simp: keeps_clock_def split: option.splits)

definition tick_clock :: "canix_rtc_clock \<Rightarrow> canix_rtc_clock" where
  "tick_clock c =
     (if uptime_sec_100th c + 1 = 100
      then canix_update_datetime (c\<lparr>uptime_sec_100th := 0, uptime_sec := uptime_sec c + 1\<rparr>)
      else c\<lparr>uptime_sec_100th := uptime_sec_100th c + 1\<rparr>)"

lemma rtc_tick_clock:
  assumes "keeps_clock run"
  shows "clock (rtc_tick run st) = tick_clock (clock st)"
    "rtc_clock_counter (rtc_tick run st) = rtc_clock_counter st"
  using fold_callbacks_keep [OF assms]
  by (simp_all add: rtc_tick_def Let_def tick_clock_def)

lemma timer_part_clock:
  assumes "keeps_clock run"
  shows "clock (timer_part period run st) =
      (if rtc_clock_counter st > period then tick_clock (clock st) else clock st)"
    "rtc_clock_counter (timer_part period run st) =
      (if rtc_clock_counter st > period then 0 else rtc_clock_counter st + 1)"
  using rtc_tick_clock [OF assms] by (simp_all add: timer_part_def Let_def)

lemma timer_iterate:
  assumes "keeps_clock run" and "rtc_clock_counter st = 0" and "unat period < 254"
  shows "clock ((timer_part period run ^^ n) st) = (tick_clock ^^ (n div (unat period + 2))) (clock st) \<and>
    unat (rtc_clock_counter ((timer_part period run ^^ n) st)) = n mod (unat period + 2)"
proof (induction n)
  case 0
  then show ?case using assms(2) by simp
next
  case (Suc n)
  let ?st = "(timer_part period run ^^ n) st" and ?p = "unat period + 2"
  have g: "rtc_clock_counter ?st > period \<longleftrightarrow> n mod ?p = unat period + 1"
  proof -
    have "n mod ?p < unat period + 2" by simp
    then have "(unat period < n mod ?p) = (n mod ?p = unat period + 1)" by linarith
    then show ?thesis using Suc.IH by (simp add: word_less_nat_alt)
  qed
  show ?case
  proof (cases "n mod ?p = unat period + 1")
    case True
    then have "Suc n div ?p = Suc (n div ?p)" "Suc n mod ?p = 0"
      by (simp_all add: div_Suc mod_Suc)
    then show ?thesis
      using Suc.IH g True by (simp add: timer_part_clock [OF assms(1)])
  next
    case False
    then have q: "Suc n div ?p = n div ?p" "Suc n mod ?p = Suc (n mod ?p)"
      by (simp_all add: div_Suc mod_Suc)
    have "n mod ?p < ?p" by simp
    then have "unat (rtc_clock_counter ?st) < 255"
      using Suc.IH assms(3) by linarith
    then show ?thesis
      using Suc.IH g False q by (simp add: timer_part_clock [OF assms(1)] unat_inc_u8)
  qed
qed

lemma tod_uptime [simp]:
  "tod (c\<lparr>uptime_sec_100th := a\<rparr>) = tod c" "tod (c\<lparr>uptime_sec := b\<rparr>) = tod c"
  "clock_ok (c\<lparr>uptime_sec_100th := a\<rparr>) = clock_ok c" "clock_ok (c\<lparr>uptime_sec := b\<rparr>) = clock_ok c"
  by (simp_all add: tod_def clock_ok_def)

lemma update_uptime [simp]:
  "uptime_sec (canix_update_datetime c) = uptime_sec c"
  "uptime_sec_100th (canix_update_datetime c) = uptime_sec_100th c"
  by (simp_all add: canix_update_datetime_def update_date_def Let_def)

lemma tick_clock_step:
  assumes "clock_ok c" "unat (uptime_sec_100th c) < 100" "hundredths c < 429496729500"
  shows "clock_ok (tick_clock c) \<and> unat (uptime_sec_100th (tick_clock c)) < 100 \<and>
    hundredths (tick_clock c) = Suc (hundredths c) \<and>
    tod (tick_clock c) =
      (if unat (uptime_sec_100th c) = 99 then (tod c + 1) mod 86400 else tod c)"
proof (cases "unat (uptime_sec_100th c) = 99")
  case True
  then have e: "uptime_sec_100th c + 1 = 100" by (simp add: word_unat_eq_iff unat_inc_u8)
  have "unat (uptime_sec c) < 4294967295"
    using assms(3) unfolding hundredths_def by linarith
  then have "unat (uptime_sec c + 1) = Suc (unat (uptime_sec c))"
    by (simp add: unat_word_ariths)
  then show ?thesis
    using True assms e by (simp add: tick_clock_def hundredths_def clock_ok_update tod_update)
next
  case False
  then have e: "uptime_sec_100th c + 1 \<noteq> 100"
    using assms(2) by (simp add: word_unat_eq_iff unat_inc_u8)
  have "unat (uptime_sec_100th c + 1) = Suc (unat (uptime_sec_100th c))"
    using assms(2) by (simp add: unat_inc_u8)
  then show ?thesis
    using False assms e by (simp add: tick_clock_def hundredths_def)
qed

lemma tick_clock_iterate:
  assumes "clock_ok c" "unat (uptime_sec_100th c) < 100" "hundredths c + n < 429496729500"
  shows "clock_ok ((tick_clock ^^ n) c) \<and> unat (uptime_sec_100th ((tick_clock ^^ n) c)) < 100 \<and>
    hundredths ((tick_clock ^^ n) c) = hundredths c + n \<and>
    tod ((tick_clock ^^ n) c) =
      (tod c + ((hundredths c + n) div 100 - hundredths c div 100)) mod 86400"
  using assms(3)
proof (induction n)
  case 0
  then show ?case using assms tod_less [OF assms(1)] by simp
next
  case (Suc n)
  let ?c = "(tick_clock ^^ n) c"
  have ih: "clock_ok ?c" "unat (uptime_sec_100th ?c) < 100" "hundredths ?c = hundredths c + n"
    "tod ?c = (tod c + ((hundredths c + n) div 100 - hundredths c div 100)) mod 86400"
    using Suc by simp_all
  have b: "hundredths ?c < 429496729500" using ih Suc.prems by simp
  note st = tick_clock_step [OF ih(1,2) b]
  have m: "unat (uptime_sec_100th ?c) = (hundredths c + n) mod 100"
  proof -
    have "hundredths ?c mod 100 = unat (uptime_sec_100th ?c)"
      using ih(2) by (simp add: hundredths_def)
    then show ?thesis using ih(3) by simp
  qed
  have le: "hundredths c div 100 \<le> (hundredths c + n) div 100"
    by (simp add: div_le_mono)
  have q: "(hundredths c + Suc n) div 100 =
      (if (hundredths c + n) mod 100 = 99 then Suc ((hundredths c + n) div 100)
       else (hundredths c + n) div 100)"
    by (simp add: div_Suc mod_Suc)
  have "tod (tick_clock ?c) =
      (tod c + ((hundredths c + Suc n) div 100 - hundredths c div 100)) mod 86400"
    using st ih(4) le unfolding m q by (simp add: Suc_diff_le mod_Suc_eq)
  then show ?case using st ih(3) by simp
qed

section \<open>Properties\<close>

lemma frame_of_extid:
  assumes "unat (src f) < 1024" and "unat (dst f) < 1024" and "unat (proto f) < 8"
  shows "frame_of_ext (take_bit 29 (extid_of f prio)) len buf =
    \<lparr>src = src f, dst = dst f, proto = proto f, fsize = len, data = buf\<rparr>"
proof -
  have m10: "(0x3ff :: 'w::len word) = mask 10" and m3: "(7 :: 'w word) = mask 3"
    by (simp_all add: mask_eq_exp_minus_1)
  have low: "\<not> bit w n" if "unat w < 2 ^ k" "k \<le> n" for w :: "'v::len word" and n k
  proof -
    have "take_bit k w = w"
      using that(1) by (simp add: word_unat_eq_iff unsigned_take_bit_eq take_bit_nat_eq_self)
    then show ?thesis using that(2) by (metis bit_take_bit_iff not_less)
  qed
  have s: "bit (src f) n \<Longrightarrow> n < 10" for n
    using low [of "src f" 10 n] assms(1) by (cases "n < 10") auto
  have d: "bit (dst f) n \<Longrightarrow> n < 10" for n
    using low [of "dst f" 10 n] assms(2) by (cases "n < 10") auto
  have p: "bit (proto f) n \<Longrightarrow> n < 3" for n
    using low [of "proto f" 3 n] assms(3) by (cases "n < 3") auto
  have "(ucast (take_bit 29 (extid_of f prio) AND 0x3ff) :: u16) = src f"
    unfolding m10 extid_of_def
    by (rule bit_word_eqI) (use s in \<open>auto simp: bit_simps mask_eq_exp_minus_1 [symmetric]\<close>)
  moreover have "(ucast (drop_bit 10 (take_bit 29 (extid_of f prio)) AND 0x3ff) :: u16) = dst f"
    unfolding m10 extid_of_def
    by (rule bit_word_eqI) (use d in \<open>auto simp: bit_simps\<close>)
  moreover have "(ucast (drop_bit 20 (take_bit 29 (extid_of f prio)) AND 7) :: u8) = proto f"
    unfolding m10 m3 extid_of_def
    by (rule bit_word_eqI) (use p in \<open>auto simp: bit_simps\<close>)
  ultimately show ?thesis by (simp add: frame_of_ext_def)
qed

text \<open>
  Source, destination and protocol of a frame survive the identifier: for
  addresses below 1024 and protocols below 8 the receiver's
  \<^verbatim>\<open>canix_process_messages\<close> extracts from the 29 bits of the identifier exactly what
  \<^verbatim>\<open>canix_frame_send_with_prio\<close> has put in, for every priority.
\<close>

theorem frame_identifier_roundtrip:
  assumes "unat (src f) < 1024" and "unat (dst f) < 1024" and "unat (proto f) < 8"
  shows "frame_of_ext (take_bit 29 (extid_of f prio)) len buf =
    \<lparr>src = src f, dst = dst f, proto = proto f, fsize = len, data = buf\<rparr>"
  by (rule frame_of_extid [OF assms])

theorem frame_identifier_roundtrip_witness:
  "frame_of_ext (take_bit 29 (extid_of (hes_message 7 35 [1, 10]) 3)) 3 [5, 1, 10] =
     \<lparr>src = 7, dst = 35, proto = 1, fsize = 3, data = [5, 1, 10]\<rparr>"
proof -
  have "unat (src (hes_message 7 35 [1, 10])) < 1024" "unat (dst (hes_message 7 35 [1, 10])) < 1024"
    "unat (proto (hes_message 7 35 [1, 10])) < 8" by simp_all
  from frame_identifier_roundtrip [OF this, of 3 3 "[5, 1, 10]"] show ?thesis by simp
qed

text \<open>
  Property C26. Delivery: after a series of registrations in empty tables, a frame reaches
  exactly the callbacks among the first sixteen registered whose address, protocol and
  service filters match, each once, in the order of their registration; a seventeenth
  registration is ignored. (For callbacks that do not register others themselves.)
\<close>

theorem delivery_reaches_matching_callbacks:
  fixes es :: "'h canix_frame_callback_entry list"
  assumes "keeps_table call" and "length es = MAX_FRAME_CALLBACKS" and "\<forall>e \<in> set es. callback e = None"
  shows "canix_deliver_frame call f (st\<lparr>frame_callback_entry := reg_all rs es\<rparr>) =
    fold (\<lambda>h. call h f) (map fst (filter (\<lambda>r. entry_matches (filled r) f) (take MAX_FRAME_CALLBACKS rs)))
      (st\<lparr>frame_callback_entry := reg_all rs es\<rparr>)"
proof -
  have tab: "reg_all rs es = map filled (take MAX_FRAME_CALLBACKS rs) @ drop (length rs) es"
    using reg_all_filled [of es rs "[]"] assms(2,3) by simp
  have len: "length (reg_all rs es) = MAX_FRAME_CALLBACKS"
    using assms(2) unfolding tab by (simp add: min_def)
  have "targets (map filled qs @ fs) f = map fst (filter (\<lambda>r. entry_matches (filled r) f) qs)"
    if "\<forall>e \<in> set fs. callback e = None" for qs :: "('h \<times> u16 \<times> u8 \<times> u8) list" and fs
  proof (induction qs)
    case Nil
    have "targets fs f = []"
      using that by (induction fs) (simp_all add: targets_Cons, simp add: targets_def List.map_filter_simps)
    then show ?case by simp
  next
    case (Cons q qs)
    then show ?case by (cases q) (simp add: targets_Cons filled_def)
  qed
  moreover have "\<forall>e \<in> set (drop (length rs) es). callback e = None"
    using assms(3) by (meson in_set_dropD)
  ultimately have "targets (reg_all rs es) f =
      map fst (filter (\<lambda>r. entry_matches (filled r) f) (take MAX_FRAME_CALLBACKS rs))"
    unfolding tab by blast
  then show ?thesis
    using deliver_targets [OF assms(1), of "st\<lparr>frame_callback_entry := reg_all rs es\<rparr>" f] len by simp
qed

text \<open>A board whose application logs the number of the callback that was called.\<close>

definition log_call :: "nat \<Rightarrow> canix_frame \<Rightarrow> ('c, nat, nat list) canix \<Rightarrow> ('c, nat, nat list) canix" where
  "log_call h f st = st\<lparr>app := app st @ [h]\<rparr>"

definition empty_table :: "'h canix_frame_callback_entry list" where
  "empty_table = replicate MAX_FRAME_CALLBACKS \<lparr>callback = None, cb_dst = 0, cb_proto = 0, cb_srv = 0\<rparr>"

definition demo_board :: "(u8 \<Rightarrow> u8, nat, nat list) canix" where
  "demo_board = \<lparr>drv = idle_driver, frame_callback_entry = empty_table,
     idle_callback = replicate MAX_IDLE_CALLBACKS None, rtc_callback = replicate MAX_RTC_CALLBACKS None,
     clock = canix_rtc_init, canix_sleep_ticker = 0, canix_loop_throughput_counter = 0,
     canix_loop_throughput = 0, rtc_clock_counter = 0, sleeping = False, app = []\<rparr>"

lemma keeps_table_log: "keeps_table log_call"
  by (simp add: keeps_table_def log_call_def)

theorem delivery_reaches_matching_callbacks_witness:
  "app (canix_deliver_frame log_call (hes_message 7 35 [1, 10])
     (demo_board\<lparr>frame_callback_entry :=
        reg_all [(1, 7, 1, 5), (2, 35, 1, 5), (3, -1, 0, 0), (4, 36, 1, 5)] empty_table\<rparr>)) = [2, 3]"
proof -
  have e: "length (empty_table :: nat canix_frame_callback_entry list) = MAX_FRAME_CALLBACKS"
    "\<forall>e \<in> set (empty_table :: nat canix_frame_callback_entry list). callback e = None"
    by (simp_all add: empty_table_def)
  show ?thesis
    unfolding delivery_reaches_matching_callbacks [OF keeps_table_log e]
    by (simp add: entry_matches_def filled_def log_call_def demo_board_def)
qed

text \<open>Callbacks that do not use the driver.\<close>

definition keeps_driver ::
  "('h \<Rightarrow> canix_frame \<Rightarrow> ('c, 'h, 'a) canix \<Rightarrow> ('c, 'h, 'a) canix) \<Rightarrow> bool" where
  "keeps_driver call \<longleftrightarrow> (\<forall>h f st. drv (call h f st) = drv st)"

lemma deliver_keeps_driver:
  assumes "keeps_driver call" shows "drv (canix_deliver_frame call f st) = drv st"
proof -
  have "drv (fold (\<lambda>i st.
       (let e = frame_callback_entry st ! i in
        case callback e of None \<Rightarrow> st
        | Some h \<Rightarrow> if entry_matches e f then call h f st else st)) is st) = drv st" for "is"
    using assms
    by (induction "is" arbitrary: st) (auto simp: keeps_driver_def Let_def split: option.splits)
  then show ?thesis by (simp add: canix_deliver_frame_def)
qed

text \<open>
  A frame that finds no free transmit buffer never reaches the bus and is
  not counted either: \<^verbatim>\<open>canix_frame_send_with_prio\<close> tests the buffers itself before
  it calls \<^verbatim>\<open>can_send_message\<close>, so the counter \<^verbatim>\<open>canix_tx_dropped\<close>,
  which only that function advances, keeps its value whatever is sent; with all buffers busy
  the controller's registers and the count of sent frames do not change.
\<close>

theorem tx_dropped_never_counts:
  assumes "mcp_registers spi reg" and "unat (fsize f) \<le> 8" and "keeps_driver call"
  shows "canix_tx_dropped (drv (canix_frame_send_with_prio spi call f prio st)) = canix_tx_dropped (drv st) \<and>
    (first_tx (reg (chip (drv st))) = None \<longrightarrow>
       reg (chip (drv (canix_frame_send_with_prio spi call f prio st))) = reg (chip (drv st)) \<and>
       canix_tx_sent (drv (canix_frame_send_with_prio spi call f prio st)) = canix_tx_sent (drv st))"
proof -
  obtain ok c where a: "can_any_sendable spi (chip (drv st)) = (ok, c)" by fastforce
  have ok: "ok \<longleftrightarrow> first_tx (reg (chip (drv st))) \<noteq> None" "reg c = reg (chip (drv st))"
    using can_any_sendable_law [OF assms(1), of "chip (drv st)"] a by simp_all
  show ?thesis
  proof (cases ok)
    case False
    then show ?thesis
      using ok by (simp add: canix_frame_send_with_prio_def a deliver_keeps_driver [OF assms(3)])
  next
    case True
    then obtain i where i: "first_tx (reg c) = Some i" using ok by auto
    then show ?thesis
      using can_send_message_law [OF assms(1,2), of "(drv st)\<lparr>chip := c\<rparr>" "extid_of f prio" "data f"] True ok
      by (simp add: canix_frame_send_with_prio_def a deliver_keeps_driver [OF assms(3)])
  qed
qed

theorem tx_dropped_never_counts_witness:
  "canix_tx_dropped (drv (canix_frame_send_with_prio regfile_spi log_call (hes_message 7 35 [1, 10]) 3
     (demo_board\<lparr>drv := idle_driver\<lparr>chip := (\<lambda>_. 8)\<rparr>\<rparr>))) = 0"
proof -
  have k: "keeps_driver log_call" by (simp add: keeps_driver_def log_call_def)
  have l: "unat (fsize (hes_message 7 35 [1, 10])) \<le> 8" by (simp add: hes_message_def)
  show ?thesis
    using tx_dropped_never_counts [where reg = "\<lambda>r. r", OF regfile_registers l k]
    by (simp add: idle_driver_def)
qed

text \<open>
  The clock's rate: \<^verbatim>\<open>myWaitingPeriod + 2\<close> interrupts make one
  hundredth of a second, and a hundred of these one second of uptime and of the time of day
  (for clock callbacks that do not touch the clock, and below \<open>2^32\<close> seconds of uptime).
\<close>

theorem timer_rate:
  assumes "keeps_clock run" and "rtc_clock_counter st = 0" and "unat period < 254"
    and "clock_ok (clock st)" and "unat (uptime_sec_100th (clock st)) < 100"
    and "hundredths (clock st) + n div (unat period + 2) < 429496729500"
  shows "hundredths (clock ((timer_part period run ^^ n) st)) =
      hundredths (clock st) + n div (unat period + 2) \<and>
    tod (clock ((timer_part period run ^^ n) st)) =
      (tod (clock st) + ((hundredths (clock st) + n div (unat period + 2)) div 100
         - hundredths (clock st) div 100)) mod 86400"
  using timer_iterate [OF assms(1-3), of n] tick_clock_iterate [OF assms(4-6)] by simp

theorem timer_rate_witness:
  "tod (clock ((timer_part (myWaitingPeriod 8000000) (\<lambda>h st. st) ^^ 260000) demo_board)) = 100"
proof -
  have p: "myWaitingPeriod 8000000 = 24"
    by (simp add: myWaitingPeriod_def myClockBasedTCNT0_def)
  have k: "keeps_clock (\<lambda>h st. st)" by (simp add: keeps_clock_def)
  have h: "rtc_clock_counter demo_board = 0" "unat (24 :: u8) < 254" "clock_ok (clock demo_board)"
    "unat (uptime_sec_100th (clock demo_board)) < 100"
    "hundredths (clock demo_board) + 260000 div (unat (24 :: u8) + 2) < 429496729500"
    by (simp_all add: demo_board_def clock_ok_def canix_rtc_init_def hundredths_def)
  show ?thesis
    unfolding p using timer_rate [OF k h]
    by (simp add: demo_board_def canix_rtc_init_def hundredths_def tod_def)
qed

end
