(* ===== verification/Canix_Services.thy ===== *)
theory Canix_Services
  imports Canix_Core Canix_Eds
begin

text \<open>
  The board services every firmware has: the management service
  \<^verbatim>\<open>src/canix/hcan_hms.c\<close> and the text messages of
  \<^verbatim>\<open>src/canix/syslog.c\<close>. The signature bytes and the error counters come from the
  hardware and the build number from the build; they are arguments.
\<close>

section \<open>The management service\<close>

text \<open>A 32-bit value as the handlers write it into a frame, high byte first.\<close>

definition be32 :: "u32 \<Rightarrow> u8 list" where
  "be32 w = [ucast (drop_bit 24 w), ucast (drop_bit 16 w), ucast (drop_bit 8 w), ucast w]"

definition of_be32 :: "u8 list \<Rightarrow> u32" where
  "of_be32 bs = push_bit 24 (ucast (nth_default 0 bs 0)) OR push_bit 16 (ucast (nth_default 0 bs 1)) OR
     push_bit 8 (ucast (nth_default 0 bs 2)) OR ucast (nth_default 0 bs 3)"

lemma of_be32_be32: "of_be32 (be32 w) = w"
proof (rule bit_word_eqI)
  fix n assume n: "n < LENGTH(32)"
  have bits: "n \<in> {0, 1, 2, 3, 4, 5, 6, 7, 8, 9, 10, 11, 12, 13, 14, 15, 16, 17, 18, 19, 20, 21, 22,
      23, 24, 25, 26, 27, 28, 29, 30, 31}"
    using n by (auto simp: less_Suc_eq numeral_eq_Suc)
  show "bit (of_be32 (be32 w)) n = bit w n"
    using bits unfolding of_be32_def be32_def
    by (elim insertE emptyE) (simp_all add: bit_simps)
qed

record hms_state =
  eep :: eeprom
  debug_level :: u8
  cnt_rx_received :: u32
  cnt_rx_lost :: u32
  cnt_tx_sent :: u32
  cnt_tx_dropped :: u32

record hms_env =
  hms_self :: u16
  signature :: "u8 \<times> u8"
  compiled_for :: mcu
  buildver :: u16
  error_counters :: u16
  uptime :: u32

definition device_type :: "u8 \<times> u8 \<Rightarrow> mcu \<Rightarrow> u8" where
  "device_type sig m =
     (if fst sig = 0x95 \<and> snd sig = 0x0F then 0x30
      else if fst sig = 0x95 \<and> snd sig = 0x02 then 0x10
      else if fst sig = 0x96 \<and> snd sig = 0x0A then 0x20 else 0) +
     (case m of ATmega32 \<Rightarrow> 1 | ATmega644P \<Rightarrow> 2 | ATmega328P \<Rightarrow> 3)"

definition hms_answer :: "hms_env \<Rightarrow> canix_frame \<Rightarrow> u8 list \<Rightarrow> out" where
  "hms_answer e f bs =
     Send HCAN_PRIO_LOW (mk_frame (hms_self e) (src f) HCAN_PROTO_SFP (HCAN_SRV_HMS # bs))"

text \<open>\<open>None\<close> is the reset of the board (\<^verbatim>\<open>canix_reset\<close> does not return).\<close>

definition canix_SFP_HMS_handler ::
  "hms_env \<Rightarrow> hms_state \<Rightarrow> canix_frame \<Rightarrow> (hms_state \<times> out list) option" where
  "canix_SFP_HMS_handler e s f =
     (let cmd = byte_at f 1; address = unat (mk16 (byte_at f 3) (byte_at f 2)) in
      if cmd = HCAN_HMS_PING_REQUEST then
        Some (s, [hms_answer e f [HCAN_HMS_PING_REPLAY]])
      else if cmd = HCAN_HMS_DEVICE_STATE_REQUEST then
        Some (s, [hms_answer e f [HCAN_HMS_DEVICE_STATE_REPLAY, HCAN_HMS_DEV_STATE_APPLICATION]])
      else if cmd = HCAN_HMS_DEVICE_RESET then None
      else if cmd = HCAN_HMS_DEVICE_TYPE_REQUEST then
        Some (s, [hms_answer e f [HCAN_HMS_DEVICE_TYPE_REPLAY, device_type (signature e) (compiled_for e),
                    eep s EEPR_BOARD_TYPE]])
      else if cmd = HCAN_HMS_INTERNAL_EEPROM_WRITE then
        Some (if eep s address \<noteq> byte_at f 4 then s\<lparr>eep := (eep s)(address := byte_at f 4)\<rparr> else s,
              [hms_answer e f [HCAN_HMS_INTERNAL_EEPROM_WRITE_ACK]])
      else if cmd = HCAN_HMS_INTERNAL_EEPROM_READ_REQUEST then
        Some (s, [hms_answer e f [HCAN_HMS_INTERNAL_EEPROM_READ_REPLAY, eep s address]])
      else if cmd = HCAN_HMS_INTERNAL_EEPROM_READ_BULK_REQUEST then
        Some (s, [hms_answer e f (HCAN_HMS_INTERNAL_EEPROM_READ_BULK_REPLAY #
                    map (\<lambda>i. eep s (padd address i)) [0, 1, 2, 3, 4, 5])])
      else if cmd = HCAN_HMS_UPTIME_QUERY then
        Some (s, [hms_answer e f (HCAN_HMS_UPTIME_REPLAY # be32 (uptime e))])
      else if cmd = HCAN_HMS_SYSLOG_LEVEL_SET then
        Some (s\<lparr>debug_level := byte_at f 2, eep := (eep s)(EEPR_DEBUG_LEVEL := byte_at f 2)\<rparr>, [])
      else if cmd = HCAN_HMS_BUILD_VERSION_QUERY then
        Some (s, [hms_answer e f [HCAN_HMS_BUILD_VERSION_REPLAY, hi8 (buildver e), lo8 (buildver e)]])
      else if cmd = HCAN_HMS_CAN_EC_QUERY then
        Some (s, [hms_answer e f [HCAN_HMS_CAN_EC_REPLAY, hi8 (error_counters e), lo8 (error_counters e)]])
      else if cmd = HCAN_HMS_RX_RECEIVED_QUERY then
        Some (s, [hms_answer e f (HCAN_HMS_RX_RECEIVED_REPLAY # be32 (cnt_rx_received s))])
      else if cmd = HCAN_HMS_RX_LOST_QUERY then
        Some (s, [hms_answer e f (HCAN_HMS_RX_LOST_REPLAY # be32 (cnt_rx_lost s))])
      else if cmd = HCAN_HMS_TX_SENT_QUERY then
        Some (s, [hms_answer e f (HCAN_HMS_TX_SENT_REPLAY # be32 (cnt_tx_sent s))])
      else if cmd = HCAN_HMS_TX_DROPPED_QUERY then
        Some (s, [hms_answer e f (HCAN_HMS_TX_DROPPED_REPLAY # be32 (cnt_tx_dropped s))])
      else if cmd = HCAN_HMS_RX_TX_STATS_RESET then
        Some (s\<lparr>cnt_rx_received := 0, cnt_rx_lost := 0, cnt_tx_sent := 0, cnt_tx_dropped := 0\<rparr>, [])
      else Some (s, []))"

text \<open>
  The EEPROM after a request: a write stores its byte at its 16-bit address, the level is
  kept at its place, everything else leaves the EEPROM alone.
\<close>

definition hms_eeprom_after :: "eeprom \<Rightarrow> canix_frame \<Rightarrow> eeprom" where
  "hms_eeprom_after m f =
     (if byte_at f 1 = HCAN_HMS_INTERNAL_EEPROM_WRITE
      then m(unat (mk16 (byte_at f 3) (byte_at f 2)) := byte_at f 4)
      else if byte_at f 1 = HCAN_HMS_SYSLOG_LEVEL_SET then m(EEPR_DEBUG_LEVEL := byte_at f 2)
      else m)"

section \<open>Text messages\<close>

abbreviation (input) SYSLOG_PRIO_ERROR :: u8 where "SYSLOG_PRIO_ERROR \<equiv> 2"

text \<open>
  The two nested loops: \<open>pre\<close> is what the frame's data hold already (the priority at first,
  nothing later), \<open>s\<close> the characters not yet sent.
\<close>

function syslog_loop :: "u16 \<Rightarrow> u8 list \<Rightarrow> u8 list \<Rightarrow> out list" where
  "syslog_loop self pre s =
     (if s = [] \<or> 8 \<le> length pre then []
      else Send HCAN_PRIO_LOW (mk_frame self HCAN_MULTICAST_SYSLOG HCAN_PROTO_SYSLOG
                                 (pre @ take (8 - length pre) s)) #
           Sleep 1 # syslog_loop self [] (drop (8 - length pre) s))"
  by pat_completeness auto
termination
  by (relation "measure (\<lambda>(self, pre, s). length s)") (auto simp flip: length_greater_0_conv)

declare syslog_loop.simps [simp del]

text \<open>
  \<^verbatim>\<open>canix_syslog_P\<close>; \<open>formatted\<close> is the text of
  \<^verbatim>\<open>vsnprintf_P\<close> before its truncation to 125 characters.
\<close>

definition canix_syslog_P :: "u8 \<Rightarrow> u16 \<Rightarrow> u8 \<Rightarrow> u8 list \<Rightarrow> out list" where
  "canix_syslog_P level self prio formatted =
     (if level \<ge> prio then syslog_loop self [prio] (take 125 formatted @ [10]) else [])"

text \<open>With logging switched off, no message is ever sent (the lowest priority is 1).\<close>

lemma syslog_silent: "prio \<noteq> 0 \<Longrightarrow> canix_syslog_P 0 self prio formatted = []"
  by (simp add: canix_syslog_P_def)

lemma syslog_loop_payload:
  "length pre < 8 \<Longrightarrow>
   concat (map data (sent_frames (syslog_loop self pre s))) = (if s = [] then [] else pre @ s)"
proof (induction self pre s rule: syslog_loop.induct)
  case (1 self pre s)
  show ?case
  proof (cases "s = []")
    case False
    have ih: "concat (map data (sent_frames (syslog_loop self [] (drop (8 - length pre) s)))) =
        drop (8 - length pre) s"
      using 1 False by simp
    show ?thesis
      using False 1 ih by (subst syslog_loop.simps) simp
  qed (subst syslog_loop.simps, simp)
qed

lemma syslog_loop_frames:
  "length pre < 8 \<Longrightarrow> f \<in> set (sent_frames (syslog_loop self pre s)) \<Longrightarrow>
   sendable_frame f \<and> src f = self \<and> dst f = HCAN_MULTICAST_SYSLOG \<and> proto f = HCAN_PROTO_SYSLOG"
proof (induction self pre s rule: syslog_loop.induct)
  case (1 self pre s)
  show ?case
  proof (cases "s = []")
    case False
    then have "f = mk_frame self HCAN_MULTICAST_SYSLOG HCAN_PROTO_SYSLOG (pre @ take (8 - length pre) s)
      \<or> f \<in> set (sent_frames (syslog_loop self [] (drop (8 - length pre) s)))"
      using 1(2,3) by (subst (asm) syslog_loop.simps) auto
    then show ?thesis
      using 1 False by auto
  next
    case True
    then show ?thesis using 1(3) by (subst (asm) syslog_loop.simps) simp
  qed
qed

section \<open>Properties\<close>

text \<open>
  The management service: only \<^verbatim>\<open>HCAN_HMS_DEVICE_RESET\<close> resets the
  board; every other request is answered with at most one frame, which is sendable and goes
  to the sender of the request, and changes the EEPROM exactly as \<open>hms_eeprom_after\<close> says.
\<close>

theorem hms_request_effect:
  "(canix_SFP_HMS_handler e s f = None \<longleftrightarrow> byte_at f 1 = HCAN_HMS_DEVICE_RESET) \<and>
   (\<forall>s' os. canix_SFP_HMS_handler e s f = Some (s', os) \<longrightarrow>
      eep s' = hms_eeprom_after (eep s) f \<and> length os \<le> 1 \<and>
      (\<forall>fr \<in> set (sent_frames os). sendable_frame fr \<and> src fr = hms_self e \<and> dst fr = src f))"
  by (auto simp: canix_SFP_HMS_handler_def Let_def hms_eeprom_after_def hms_answer_def be32_def
      split: if_splits)

theorem hms_request_effect_witness:
  "\<exists>s' os. canix_SFP_HMS_handler \<lparr>hms_self = 7, signature = (0x95, 0x02), compiled_for = ATmega32,
      buildver = 300, error_counters = 0, uptime = 5\<rparr>
      \<lparr>eep = (\<lambda>_. 0), debug_level = 0, cnt_rx_received = 0, cnt_rx_lost = 0, cnt_tx_sent = 0,
       cnt_tx_dropped = 0\<rparr>
      (mk_frame 9 7 1 [HCAN_SRV_HMS, HCAN_HMS_INTERNAL_EEPROM_WRITE, 4, 1, 9]) = Some (s', os) \<and>
    eep s' = (\<lambda>_. 0)(260 := 9)"
proof -
  let ?e = "\<lparr>hms_self = 7, signature = (0x95, 0x02), compiled_for = ATmega32,
      buildver = 300, error_counters = 0, uptime = 5\<rparr>"
  let ?s = "\<lparr>eep = (\<lambda>_. 0), debug_level = 0, cnt_rx_received = 0, cnt_rx_lost = 0, cnt_tx_sent = 0,
       cnt_tx_dropped = 0\<rparr>"
  let ?f = "mk_frame 9 7 1 [HCAN_SRV_HMS, HCAN_HMS_INTERNAL_EEPROM_WRITE, 4, 1, 9]"
  have "canix_SFP_HMS_handler ?e ?s ?f \<noteq> None"
    using hms_request_effect [of ?e ?s ?f] by simp
  then obtain s' os where h: "canix_SFP_HMS_handler ?e ?s ?f = Some (s', os)" by auto
  then have "eep s' = hms_eeprom_after (eep ?s) ?f"
    using hms_request_effect [of ?e ?s ?f] by blast
  then show ?thesis
    using h by (auto simp: hms_eeprom_after_def mk16_def)
qed

text \<open>
  A text message: when the level admits it, the data of the frames sent, put
  together, are the priority, the first 125 characters of the text and a line feed, in
  frames of at most eight bytes to the syslog address; otherwise nothing is sent.
\<close>

theorem syslog_transmits_text:
  "concat (map data (sent_frames (canix_syslog_P level self prio formatted))) =
     (if prio \<le> level then prio # take 125 formatted @ [10] else []) \<and>
   (\<forall>f \<in> set (sent_frames (canix_syslog_P level self prio formatted)).
      sendable_frame f \<and> dst f = HCAN_MULTICAST_SYSLOG \<and> proto f = HCAN_PROTO_SYSLOG)"
  using syslog_loop_payload [of "[prio]" self "take 125 formatted @ [10]"]
    syslog_loop_frames [of "[prio]" _ self "take 125 formatted @ [10]"]
  by (auto simp: canix_syslog_P_def)

theorem syslog_transmits_text_witness:
  "concat (map data (sent_frames (canix_syslog_P 4 7 2 [72, 97, 108, 108, 111, 44, 32, 72, 97, 117, 115]))) =
     [2, 72, 97, 108, 108, 111, 44, 32, 72, 97, 117, 115, 10]"
  using syslog_transmits_text [of 4 7 2 "[72, 97, 108, 108, 111, 44, 32, 72, 97, 117, 115]"]
  by simp

end
