(* ===== verification/Hes_Device.thy ===== *)
theory Hes_Device
  imports Hcan_Protocol
begin

text \<open>
  What the devices of the controller board share: how they send messages
  (\<^verbatim>\<open>sendHESMessage\<close> of \<^verbatim>\<open>src/canix/canix.c\<close> and the
  frames the handlers fill in), and the contract between a device and the dispatcher the build
  generates from \<^verbatim>\<open>mk_devices_c.xsl\<close> and \<^verbatim>\<open>mk_timer_c.xsl\<close>: a frame for the
  house electrics goes to \<^verbatim>\<open>X_can_callback\<close>, the timer calls
  \<^verbatim>\<open>X_timer_handler\<close>, and a frame a device sends is delivered to the devices of the
  same board before the handler goes on.
\<close>

section \<open>Sending\<close>

definition send_hi :: "canix_frame \<Rightarrow> out" where
  "send_hi f = Send HCAN_PRIO_HI f"

text \<open>\<^verbatim>\<open>canix_frame_send\<close>: the low priority.\<close>

definition send_low :: "canix_frame \<Rightarrow> out" where
  "send_low f = Send HCAN_PRIO_LOW f"

text \<open>\<^verbatim>\<open>sendHESMessage\<close> with its arguments as a list.\<close>

definition sendHESMessage :: "u16 \<Rightarrow> u8 list \<Rightarrow> out" where
  "sendHESMessage self bs = send_hi (hes_message self HCAN_MULTICAST_CONTROL bs)"

lemma sent_frames_send [simp]:
  "sent_frames (send_hi f # os) = f # sent_frames os"
  "sent_frames (sendHESMessage self bs # os) = hes_message self HCAN_MULTICAST_CONTROL bs # sent_frames os"
  by (simp_all add: send_hi_def sendHESMessage_def)

lemma apply_pins_send [simp]:
  "apply_pins pins (send_hi f # os) = apply_pins pins os"
  "apply_pins pins (sendHESMessage self bs # os) = apply_pins pins os"
  by (simp_all add: send_hi_def sendHESMessage_def)

lemma apply_eeprom_send [simp]:
  "apply_eeprom m (send_hi f # os) = apply_eeprom m os"
  by (simp add: send_hi_def)

text \<open>The frames \<^verbatim>\<open>hauselektrik_callback\<close> passes on to the devices.\<close>

definition hauselektrik_accepts :: "u16 \<Rightarrow> canix_frame \<Rightarrow> bool" where
  "hauselektrik_accepts self f \<longleftrightarrow> byte_at f 0 = HCAN_SRV_HES \<and>
     (dst f = self \<or> dst f = HCAN_MULTICAST_CONTROL \<or> dst f = HCAN_MULTICAST_INFO)"

section \<open>The contract of a device\<close>

text \<open>
  A device with an invariant: both entry points keep it, in every environment the device is
  used in, and send only frames the controller can take.
\<close>

locale hes_device =
  fixes env_ok :: "'e \<Rightarrow> bool"
    and inv :: "'d \<Rightarrow> bool"
    and cb :: "'e \<Rightarrow> 'd \<Rightarrow> canix_frame \<Rightarrow> 'd \<times> out list"
    and tm :: "'e \<Rightarrow> 'd \<Rightarrow> u8 \<Rightarrow> 'd \<times> out list"
  assumes cb_inv: "env_ok e \<Longrightarrow> inv p \<Longrightarrow> inv (fst (cb e p f))"
    and tm_inv: "env_ok e \<Longrightarrow> inv p \<Longrightarrow> inv (fst (tm e p z))"
    and cb_sendable: "env_ok e \<Longrightarrow> inv p \<Longrightarrow> fr \<in> set (sent_frames (snd (cb e p f))) \<Longrightarrow> sendable_frame fr"
    and tm_sendable: "env_ok e \<Longrightarrow> inv p \<Longrightarrow> fr \<in> set (sent_frames (snd (tm e p z))) \<Longrightarrow> sendable_frame fr"
begin

lemma step_inv: "env_ok e \<Longrightarrow> inv p \<Longrightarrow> inv (fst (dev_step cb tm e p ev))"
  by (cases ev) (simp_all add: cb_inv tm_inv)

lemma step_sendable:
  "env_ok e \<Longrightarrow> inv p \<Longrightarrow> fr \<in> set (sent_frames (snd (dev_step cb tm e p ev))) \<Longrightarrow> sendable_frame fr"
  by (cases ev) (auto intro: cb_sendable tm_sendable)

text \<open>Any sequence of frames and ticks keeps the invariant and sends sendable frames.\<close>

lemma run_inv:
  "inv p \<Longrightarrow> \<forall>ev \<in> set evs. env_ok (fst ev) \<Longrightarrow> inv (fst (dev_run cb tm p evs))"
  by (induction evs arbitrary: p) (auto simp: step_inv)

lemma run_sendable:
  "inv p \<Longrightarrow> \<forall>ev \<in> set evs. env_ok (fst ev) \<Longrightarrow>
   fr \<in> set (sent_frames (snd (dev_run cb tm p evs))) \<Longrightarrow> sendable_frame fr"
proof (induction evs arbitrary: p)
  case (Cons ev evs)
  let ?s = "dev_step cb tm (fst ev) p (snd ev)"
  from Cons.prems(3) consider "fr \<in> set (sent_frames (snd ?s))"
    | "fr \<in> set (sent_frames (snd (dev_run cb tm (fst ?s) evs)))"
    by auto
  then show ?case
  proof cases
    case 1
    then show ?thesis using step_sendable Cons.prems by auto
  next
    case 2
    then show ?thesis using Cons.IH [of "fst ?s"] Cons.prems step_inv by auto
  qed
qed simp

end

text \<open>
  A device that hears nothing of what it says: the frames it sends itself leave its state
  alone and make it send nothing, so that the local delivery in the middle of a handler
  (\<^verbatim>\<open>canix_frame_send_with_prio\<close>) changes nothing for this device.
\<close>

locale echo_free_device = hes_device env_ok inv cb tm
  for env_ok :: "'e \<Rightarrow> bool"
    and inv :: "'d \<Rightarrow> bool"
    and cb :: "'e \<Rightarrow> 'd \<Rightarrow> canix_frame \<Rightarrow> 'd \<times> out list"
    and tm :: "'e \<Rightarrow> 'd \<Rightarrow> u8 \<Rightarrow> 'd \<times> out list" +
  assumes cb_echo: "env_ok e \<Longrightarrow> inv p \<Longrightarrow> fr \<in> set (sent_frames (snd (cb e p f))) \<Longrightarrow> env_ok e' \<Longrightarrow>
      inv p' \<Longrightarrow> cb e' p' fr = (p', [])"
    and tm_echo: "env_ok e \<Longrightarrow> inv p \<Longrightarrow> fr \<in> set (sent_frames (snd (tm e p z))) \<Longrightarrow> env_ok e' \<Longrightarrow>
      inv p' \<Longrightarrow> cb e' p' fr = (p', [])"
begin

lemma step_echo:
  "env_ok e \<Longrightarrow> inv p \<Longrightarrow> fr \<in> set (sent_frames (snd (dev_step cb tm e p ev))) \<Longrightarrow> env_ok e' \<Longrightarrow>
   inv p' \<Longrightarrow> cb e' p' fr = (p', [])"
  by (cases ev) (auto intro: cb_echo tm_echo)

text \<open>
  Feeding a device's own frames back to it, at any later time and any number of times, is as
  good as not doing it.
\<close>

lemma run_echo:
  assumes "env_ok e" "inv p" and "fr \<in> set (sent_frames (snd (dev_step cb tm e p ev)))"
    and "inv q" and "\<forall>x \<in> set xs. env_ok (fst x)" and "env_ok e'"
  shows "fst (dev_run cb tm q (xs @ (e', Frame fr) # ys)) = fst (dev_run cb tm q (xs @ ys))"
proof -
  let ?q = "fst (dev_run cb tm q xs)"
  have "cb e' ?q fr = (?q, [])"
    using step_echo [OF assms(1-3,6)] run_inv [OF assms(4,5)] by blast
  then show ?thesis by (simp add: dev_run_append)
qed

end

section \<open>What a device says\<close>

text \<open>
  All frames among the effects are ones the controller can take, with message types \<open>P\<close>. A
  device that says only what it does not listen to is free of echoes.
\<close>

definition says :: "(u8 \<Rightarrow> bool) \<Rightarrow> out list \<Rightarrow> bool" where
  "says P os \<longleftrightarrow> (\<forall>fr \<in> set (sent_frames os). P (byte_at fr 1) \<and> sendable_frame fr)"

lemma says_simps [simp]:
  "says P []" "says P (xs @ ys) \<longleftrightarrow> says P xs \<and> says P ys"
  "says P (SetPin n b # os) = says P os" "says P (Sleep k # os) = says P os"
  "says P (EepromWrite a v # os) = says P os"
  "says P (send_hi fr # os) \<longleftrightarrow> P (byte_at fr 1) \<and> sendable_frame fr \<and> says P os"
  "says P (Send pr fr # os) \<longleftrightarrow> P (byte_at fr 1) \<and> sendable_frame fr \<and> says P os"
  "says P (sendHESMessage self bs # os) \<longleftrightarrow>
     P (nth_default 0 (HCAN_SRV_HES # bs) 1) \<and> length bs \<le> 7 \<and> says P os"
  by (auto simp: says_def)

lemma send_low_simps [simp]:
  "says P (send_low fr # os) \<longleftrightarrow> P (byte_at fr 1) \<and> sendable_frame fr \<and> says P os"
  "apply_eeprom m (send_low fr # os) = apply_eeprom m os"
  "sent_frames (send_low fr # os) = fr # sent_frames os"
  "apply_pins ps (send_low fr # os) = apply_pins ps os"
  by (simp_all add: send_low_def)

lemma says_if [simp]: "says P (if b then xs else ys) = (if b then says P xs else says P ys)"
  by simp

lemma saysD: "says P os \<Longrightarrow> fr \<in> set (sent_frames os) \<Longrightarrow> P (byte_at fr 1) \<and> sendable_frame fr"
  by (simp add: says_def)

lemma hes_deviceI:
  assumes "\<And>e p f. env_ok e \<Longrightarrow> ok p \<Longrightarrow> ok (fst (cb e p f))"
    and "\<And>e p z. env_ok e \<Longrightarrow> ok p \<Longrightarrow> ok (fst (tm e p z))"
    and "\<And>e p f. env_ok e \<Longrightarrow> ok p \<Longrightarrow> says P (snd (cb e p f))"
    and "\<And>e p z. env_ok e \<Longrightarrow> ok p \<Longrightarrow> says P (snd (tm e p z))"
  shows "hes_device env_ok ok cb tm"
  using assms(1,2) saysD [OF assms(3)] saysD [OF assms(4)] by unfold_locales blast+

lemma echo_free_deviceI:
  assumes "\<And>e p f. env_ok e \<Longrightarrow> ok p \<Longrightarrow> ok (fst (cb e p f))"
    and "\<And>e p z. env_ok e \<Longrightarrow> ok p \<Longrightarrow> ok (fst (tm e p z))"
    and "\<And>e p f. env_ok e \<Longrightarrow> ok p \<Longrightarrow> says P (snd (cb e p f))"
    and "\<And>e p z. env_ok e \<Longrightarrow> ok p \<Longrightarrow> says P (snd (tm e p z))"
    and "\<And>e p fr. P (byte_at fr 1) \<Longrightarrow> cb e p fr = (p, [])"
  shows "echo_free_device env_ok ok cb tm"
proof (intro echo_free_device.intro echo_free_device_axioms.intro)
  show "hes_device env_ok ok cb tm" by (rule hes_deviceI) (fact assms)+
next
  fix e p fr f e' p' assume "env_ok e" "ok p" "fr \<in> set (sent_frames (snd (cb e p f)))"
  then show "cb e' p' fr = (p', [])" using saysD [OF assms(3)] assms(5) by blast
next
  fix e p fr z e' p' assume "env_ok e" "ok p" "fr \<in> set (sent_frames (snd (tm e p z)))"
  then show "cb e' p' fr = (p', [])" using saysD [OF assms(4)] assms(5) by blast
qed

end
