(* ===== verification/Rolladen.thy ===== *)
theory Rolladen
  imports Hes_Device
begin

text \<open>
  The roller shutter \<^verbatim>\<open>src/firmwares/controllerboard/devices/rolladen.c\<close>: two
  relays (motor power and direction), a position that is measured by the running time in
  tenths of a second, and the commands of one or two push buttons or of the web interface.
  \<^verbatim>\<open>int32_t\<close> quantities are \<open>int\<close>: with a 16-bit \<open>laufzeit\<close> they stay
  far from the 32-bit limits. C's division is \<open>sdiv\<close>. The flags of the C struct are
  \<open>bool\<close>, the direction relay's two states a datatype.
\<close>

section \<open>State\<close>

datatype rolladen_dir = ROLLADEN_DIR_AUF | ROLLADEN_DIR_AB

text \<open>\<^verbatim>\<open>eds_rolladen_block_t\<close>, from \<^verbatim>\<open>src/xml/eds.xml\<close>.\<close>

record rolladen_config =
  c_port_power :: u8
  c_port_dir :: u8
  c_taster :: u8
  c_feature :: u8
  c_laufzeit :: u16
  c_max_rekalib :: u16
  c_gruppen :: "u8 list"
  c_mute :: u8

record device_data_rolladen =
  config :: rolladen_config
  mute :: bool
  kalibrieren :: bool
  summe_laufzeit :: u32
  laufzeit :: int
  soll_laufzeit :: int
  stoppuhr :: int
  dir :: rolladen_dir
  soll_dir :: rolladen_dir
  exe_dir :: bool
  last_dir :: rolladen_dir
  soll_power :: bool
  pwr :: bool
  exe_power :: bool
  blockingTimer :: u8
  change_dir_counter :: int
  long_pressed_counter :: int

abbreviation (input) FEATURE_KALIBRIERUNG_OBEN :: nat where "FEATURE_KALIBRIERUNG_OBEN \<equiv> 0"

fun other_dir :: "rolladen_dir \<Rightarrow> rolladen_dir" where
  "other_dir ROLLADEN_DIR_AUF = ROLLADEN_DIR_AB"
| "other_dir ROLLADEN_DIR_AB = ROLLADEN_DIR_AUF"

text \<open>The configured running time as a number.\<close>

definition lz :: "device_data_rolladen \<Rightarrow> int" where
  "lz p = uint (c_laufzeit (config p))"

section \<open>The parts of the handlers\<close>

definition rolladen_init :: "device_data_rolladen \<Rightarrow> device_data_rolladen" where
  "rolladen_init p =
     p\<lparr>mute := False, kalibrieren := True,
       summe_laufzeit := ucast (c_max_rekalib (config p) + 1),
       laufzeit := uint (c_laufzeit (config p) div 2),
       soll_laufzeit := -1, stoppuhr := 0,
       soll_dir := ROLLADEN_DIR_AUF, last_dir := ROLLADEN_DIR_AUF, dir := ROLLADEN_DIR_AUF,
       soll_power := False, pwr := False,
       change_dir_counter := -1, long_pressed_counter := -1\<rparr>"

definition rolladen_get_position :: "device_data_rolladen \<Rightarrow> u8" where
  "rolladen_get_position p =
     (let pos = (100 * laufzeit p) sdiv lz p + 1;
          pos = (if pos < 2 then 0 else pos);
          pos = (if pos > 98 then 100 else pos)
      in word_of_int pos)"

definition rolladen_send_changed_info :: "u16 \<Rightarrow> device_data_rolladen \<Rightarrow> u8 \<Rightarrow> out" where
  "rolladen_send_changed_info self p pos =
     send_hi (hes_message self HCAN_MULTICAST_INFO
       [HCAN_HES_ROLLADEN_POSITION_CHANGED_INFO, c_taster (config p), pos, 0, 0])"

definition is_group_in_rolladen :: "device_data_rolladen \<Rightarrow> u8 \<Rightarrow> bool" where
  "is_group_in_rolladen p gr \<longleftrightarrow>
     c_taster (config p) = gr \<or> gr \<in> set (c_gruppen (config p))"

definition prepare_calibration :: "device_data_rolladen \<Rightarrow> device_data_rolladen" where
  "prepare_calibration p =
     (let oben = (lz p * 150) sdiv 100; unten = - ((lz p * 50) sdiv 100) in
      if kalibrieren p then
        (if soll_dir p = ROLLADEN_DIR_AUF then p\<lparr>soll_laufzeit := oben\<rparr> else p\<lparr>soll_laufzeit := unten\<rparr>)
      else if test_bit (c_feature (config p)) FEATURE_KALIBRIERUNG_OBEN then
        (if soll_dir p = ROLLADEN_DIR_AUF then p\<lparr>soll_laufzeit := oben, kalibrieren := True\<rparr> else p)
      else
        (if soll_dir p = ROLLADEN_DIR_AB then p\<lparr>soll_laufzeit := unten, kalibrieren := True\<rparr> else p))"

definition calibration :: "device_data_rolladen \<Rightarrow> device_data_rolladen" where
  "calibration p =
     (if test_bit (c_feature (config p)) FEATURE_KALIBRIERUNG_OBEN then
        (if soll_laufzeit p > lz p
         then p\<lparr>laufzeit := lz p, summe_laufzeit := 0, kalibrieren := False\<rparr> else p)
      else if soll_laufzeit p < -1
        then p\<lparr>laufzeit := 0, summe_laufzeit := 0, kalibrieren := False\<rparr>
      else p)"

definition rolladen_cmd_stop :: "u16 \<Rightarrow> device_data_rolladen \<Rightarrow> device_data_rolladen \<times> out list" where
  "rolladen_cmd_stop self p =
     (let pos = rolladen_get_position p;
          p = (if pos = 0 \<or> pos = 100
               then (let p = p\<lparr>last_dir := other_dir (dir p), change_dir_counter := -1\<rparr>
                     in if kalibrieren p then calibration p else p)
               else p\<lparr>kalibrieren := False\<rparr>);
          p = p\<lparr>stoppuhr := 0\<rparr>;
          info = rolladen_send_changed_info self p pos;
          p = p\<lparr>soll_power := False, exe_power := True, soll_dir := ROLLADEN_DIR_AUF\<rparr>;
          p = (if dir p = ROLLADEN_DIR_AB then p\<lparr>blockingTimer := 5, exe_dir := False\<rparr> else p)
      in (p\<lparr>soll_laufzeit := -1\<rparr>, [info]))"

definition rolladen_cmd_drive :: "device_data_rolladen \<Rightarrow> device_data_rolladen" where
  "rolladen_cmd_drive p =
     (let p = p\<lparr>soll_power := True\<rparr> in
      if soll_dir p = ROLLADEN_DIR_AB then p\<lparr>exe_dir := True, blockingTimer := 5, exe_power := False\<rparr>
      else p\<lparr>exe_power := True\<rparr>)"

definition set_soll_laufzeit :: "device_data_rolladen \<Rightarrow> rolladen_dir \<Rightarrow> bool \<times> device_data_rolladen" where
  "set_soll_laufzeit p d =
     (let soll = (if d = ROLLADEN_DIR_AB then 0 else lz p);
          there = (if d = ROLLADEN_DIR_AB then laufzeit p \<le> soll else laufzeit p \<ge> soll)
      in if there then (False, p\<lparr>soll_laufzeit := -1\<rparr>)
         else (let p = p\<lparr>soll_laufzeit := soll, soll_dir := d\<rparr>
               in (True, if summe_laufzeit p \<ge> ucast (c_max_rekalib (config p))
                         then prepare_calibration p else p)))"

text \<open>The two button commands 200 and 201 differ in the direction only.\<close>

definition rolladen_taster_cmd ::
  "u16 \<Rightarrow> device_data_rolladen \<Rightarrow> rolladen_dir \<Rightarrow> device_data_rolladen \<times> out list" where
  "rolladen_taster_cmd self p d =
     (if mute p \<or> blockingTimer p \<noteq> 0 then (p, [])
      else if pwr p \<or> soll_power p then rolladen_cmd_stop self p
      else (case set_soll_laufzeit p d of
              (True, p) \<Rightarrow> (rolladen_cmd_drive (p\<lparr>long_pressed_counter := 10\<rparr>), [])
            | (False, p) \<Rightarrow> (p, [])))"

definition rolladen_position_cmd :: "device_data_rolladen \<Rightarrow> u8 \<Rightarrow> device_data_rolladen" where
  "rolladen_position_cmd p prozent =
     (if mute p \<or> blockingTimer p \<noteq> 0 then p
      else
        (let soll = (lz p * uint prozent) sdiv 100;
             soll = (if soll < 0 then 0 else soll);
             soll = (if soll > lz p then lz p else soll)
         in if pwr p \<or> soll_power p \<or> soll = laufzeit p then p\<lparr>soll_laufzeit := -1\<rparr>
            else (let p = p\<lparr>soll_laufzeit := soll, kalibrieren := False\<rparr>;
                      p = p\<lparr>soll_dir := (if soll < laufzeit p then ROLLADEN_DIR_AB else ROLLADEN_DIR_AUF)\<rparr>
                  in rolladen_cmd_drive p)))"

definition rolladen_position_set ::
  "u16 \<Rightarrow> device_data_rolladen \<Rightarrow> u8 \<Rightarrow> device_data_rolladen \<times> out list" where
  "rolladen_position_set self p cmd =
     (if cmd = 200 then rolladen_taster_cmd self p ROLLADEN_DIR_AB
      else if cmd = 201 then rolladen_taster_cmd self p ROLLADEN_DIR_AUF
      else if cmd = 202 then rolladen_cmd_stop self (p\<lparr>long_pressed_counter := -1\<rparr>)
      else if cmd = 222 then (p\<lparr>long_pressed_counter := -1\<rparr>, [])
      else (rolladen_position_cmd p cmd, []))"

definition rolladen_taster_down :: "u16 \<Rightarrow> device_data_rolladen \<Rightarrow> device_data_rolladen \<times> out list" where
  "rolladen_taster_down self p =
     (if mute p \<or> blockingTimer p \<noteq> 0 then (p, [])
      else if pwr p then rolladen_cmd_stop self (p\<lparr>change_dir_counter := 7\<rparr>)
      else (let p = snd (set_soll_laufzeit p (last_dir p))
            in if soll_laufzeit p \<noteq> -1 then (rolladen_cmd_drive p, []) else (p, [])))"

definition rolladen_define_position :: "device_data_rolladen \<Rightarrow> u8 \<Rightarrow> device_data_rolladen" where
  "rolladen_define_position p prozent =
     (let pos = ((uint prozent + 1) * lz p) sdiv 100
      in p\<lparr>laufzeit := (if pos > lz p then lz p else pos)\<rparr>)"

definition rolladen_switch ::
  "u16 \<Rightarrow> device_data_rolladen \<Rightarrow> canix_frame \<Rightarrow> device_data_rolladen \<times> out list" where
  "rolladen_switch self p f =
     (let cmd = byte_at f 1; mine = is_group_in_rolladen p (byte_at f 2) in
      if cmd = HCAN_HES_ROLLADEN_POSITION_SET then
        (if mine then rolladen_position_set self p (byte_at f 3) else (p, []))
      else if cmd = HCAN_HES_TASTER_DOWN then
        (if mine then rolladen_taster_down self p else (p, []))
      else if cmd = HCAN_HES_TASTER_UP then
        (if mine then (p\<lparr>change_dir_counter := -1\<rparr>, []) else (p, []))
      else if cmd = HCAN_HES_ROLLADEN_DEFINE_POSITION then
        (if mine then (rolladen_define_position p (byte_at f 3), []) else (p, []))
      else if cmd = HCAN_HES_DEVICE_STATES_REQUEST then
        (if c_taster (config p) \<noteq> 255
         then (p, [Sleep 10, send_hi (hes_answer self f [HCAN_HES_ROLLADEN_POSITION_REPLAY,
                  c_taster (config p), rolladen_get_position p])])
         else (p, []))
      else if cmd = HCAN_HES_ROLLADEN_POSITION_REQUEST then
        (if mine
         then (p, [send_hi (hes_answer self f [HCAN_HES_ROLLADEN_POSITION_REPLAY, byte_at f 2,
                  rolladen_get_position p])])
         else (p, []))
      else if cmd = HCAN_HES_DEVICES_CONFIGS_REQUEST \<or> cmd = HCAN_HES_ROLLADEN_CONFIG_RQ then
        (p, [send_hi (hes_answer self f [HCAN_HES_ROLLADEN_CONFIG_REPLAY, c_taster (config p)])])
      else (p, []))"

definition rolladen_mute :: "device_data_rolladen \<Rightarrow> canix_frame \<Rightarrow> device_data_rolladen" where
  "rolladen_mute p f =
     (if c_mute (config p) = byte_at f 2 then
        (if byte_at f 1 = HCAN_HES_MUTE_OFF then p\<lparr>mute := False\<rparr>
         else if byte_at f 1 = HCAN_HES_MUTE_ON then p\<lparr>mute := True\<rparr> else p)
      else p)"

text \<open>
  The early returns of the code skip only the mute part, which does not concern their
  commands.
\<close>

definition rolladen_can_callback ::
  "u16 \<Rightarrow> device_data_rolladen \<Rightarrow> canix_frame \<Rightarrow> device_data_rolladen \<times> out list" where
  "rolladen_can_callback self p f =
     andthen (rolladen_switch self p f) (\<lambda>p. (rolladen_mute p f, []))"

section \<open>The timer handler\<close>

definition tick_counters :: "device_data_rolladen \<Rightarrow> device_data_rolladen" where
  "tick_counters p =
     (let p = (if long_pressed_counter p > 0
               then p\<lparr>long_pressed_counter := long_pressed_counter p - 1\<rparr>
               else if long_pressed_counter p = 0
               then (prepare_calibration p)\<lparr>long_pressed_counter := -1\<rparr> else p)
      in if change_dir_counter p > 0 then p\<lparr>change_dir_counter := change_dir_counter p - 1\<rparr>
         else if change_dir_counter p = 0
         then p\<lparr>last_dir := other_dir (last_dir p), change_dir_counter := -1\<rparr> else p)"

definition tick_travel :: "u16 \<Rightarrow> device_data_rolladen \<Rightarrow> device_data_rolladen \<times> out list" where
  "tick_travel self p =
     (if pwr p \<and> soll_power p then
        andthen
          (if dir p = ROLLADEN_DIR_AB
           then (let p = p\<lparr>laufzeit := laufzeit p - 1\<rparr>
                 in if laufzeit p \<le> soll_laufzeit p then rolladen_cmd_stop self p else (p, []))
           else (let p = p\<lparr>laufzeit := laufzeit p + 1\<rparr>
                 in if laufzeit p \<ge> soll_laufzeit p then rolladen_cmd_stop self p else (p, [])))
          (\<lambda>p. (p\<lparr>summe_laufzeit := summe_laufzeit p + 1\<rparr>, []))
      else (p, []))"

definition tick_blocking :: "device_data_rolladen \<Rightarrow> device_data_rolladen" where
  "tick_blocking p =
     (if blockingTimer p \<noteq> 0 then p\<lparr>blockingTimer := blockingTimer p - 1\<rparr>
      else if soll_power p then p\<lparr>exe_power := True\<rparr> else p\<lparr>exe_dir := True\<rparr>)"

definition tick_relays :: "device_data_rolladen \<Rightarrow> device_data_rolladen \<times> out list" where
  "tick_relays p =
     andthen
       (if exe_dir p \<and> dir p \<noteq> soll_dir p
        then (p\<lparr>dir := soll_dir p, exe_dir := False\<rparr>,
              [SetPin (c_port_dir (config p)) (soll_dir p = ROLLADEN_DIR_AB)])
        else (p, []))
       (\<lambda>p. if exe_power p \<and> pwr p \<noteq> soll_power p
            then (p\<lparr>pwr := soll_power p, exe_power := False\<rparr>,
                  [SetPin (c_port_power (config p)) (soll_power p)])
            else (p, []))"

definition rolladen_timer_handler ::
  "u16 \<Rightarrow> device_data_rolladen \<Rightarrow> u8 \<Rightarrow> device_data_rolladen \<times> out list" where
  "rolladen_timer_handler self p zyklus =
     (if zyklus \<noteq> 10 then (p, [])
      else
        andthen (tick_travel self (tick_counters p))
          (\<lambda>p. andthen (tick_relays (tick_blocking p))
            (\<lambda>p. (if pwr p then p\<lparr>stoppuhr := stoppuhr p + 1\<rparr> else p, []))))"

section \<open>The relays are interlocked\<close>

text \<open>
  The invariant between two ticks, for running times of at least 0.4 seconds. The direction
  relay is to switch to AB only while the motor is off and its start is blocked; with the
  motor on it is not switched back to AUF; and a stop is always carried out by the next tick.
\<close>

definition rolladen_inv :: "device_data_rolladen \<Rightarrow> bool" where
  "rolladen_inv p \<longleftrightarrow> 4 \<le> lz p \<and>
     (dir p = ROLLADEN_DIR_AUF \<and> soll_dir p = ROLLADEN_DIR_AB \<longrightarrow>
        \<not> pwr p \<and> exe_dir p \<and> \<not> exe_power p \<and> blockingTimer p \<noteq> 0) \<and>
     (dir p = ROLLADEN_DIR_AB \<and> soll_dir p = ROLLADEN_DIR_AUF \<and> pwr p \<longrightarrow>
        \<not> exe_dir p \<and> (soll_power p \<or> blockingTimer p \<noteq> 0)) \<and>
     (soll_dir p = ROLLADEN_DIR_AB \<longrightarrow> soll_power p) \<and>
     (pwr p \<and> \<not> soll_power p \<longrightarrow> exe_power p)"

lemma lz_cong: "config p' = config p \<Longrightarrow> lz p' = lz p"
  by (simp add: lz_def)

lemma lz_update [simp]:
  "lz (p\<lparr>laufzeit := x\<rparr>) = lz p" "lz (p\<lparr>soll_laufzeit := x\<rparr>) = lz p"
  "lz (p\<lparr>soll_dir := d\<rparr>) = lz p" "lz (p\<lparr>dir := d\<rparr>) = lz p" "lz (p\<lparr>mute := b\<rparr>) = lz p"
  "lz (p\<lparr>kalibrieren := b\<rparr>) = lz p" "lz (p\<lparr>soll_power := b\<rparr>) = lz p" "lz (p\<lparr>pwr := b\<rparr>) = lz p"
  "lz (p\<lparr>exe_dir := b\<rparr>) = lz p" "lz (p\<lparr>exe_power := b\<rparr>) = lz p" "lz (p\<lparr>stoppuhr := x\<rparr>) = lz p"
  "lz (p\<lparr>blockingTimer := w\<rparr>) = lz p" "lz (p\<lparr>long_pressed_counter := x\<rparr>) = lz p"
  "lz (p\<lparr>change_dir_counter := x\<rparr>) = lz p" "lz (p\<lparr>last_dir := d\<rparr>) = lz p"
  "lz (p\<lparr>summe_laufzeit := v\<rparr>) = lz p"
  by (simp_all add: lz_def)

lemma dir_neq [simp]: "d \<noteq> ROLLADEN_DIR_AUF \<longleftrightarrow> d = ROLLADEN_DIR_AB"
  by (cases d) auto

lemma prepare_calibration_sel [simp]:
  "mute (prepare_calibration p) = mute p" "laufzeit (prepare_calibration p) = laufzeit p"
  "dir (prepare_calibration p) = dir p" "soll_dir (prepare_calibration p) = soll_dir p"
  "exe_dir (prepare_calibration p) = exe_dir p" "last_dir (prepare_calibration p) = last_dir p"
  "soll_power (prepare_calibration p) = soll_power p" "pwr (prepare_calibration p) = pwr p"
  "exe_power (prepare_calibration p) = exe_power p" "config (prepare_calibration p) = config p"
  "blockingTimer (prepare_calibration p) = blockingTimer p"
  "long_pressed_counter (prepare_calibration p) = long_pressed_counter p"
  "change_dir_counter (prepare_calibration p) = change_dir_counter p"
  by (simp_all add: prepare_calibration_def Let_def)

lemma calibration_sel [simp]:
  "dir (calibration p) = dir p" "soll_dir (calibration p) = soll_dir p"
  "exe_dir (calibration p) = exe_dir p" "soll_power (calibration p) = soll_power p"
  "pwr (calibration p) = pwr p" "exe_power (calibration p) = exe_power p"
  "config (calibration p) = config p" "blockingTimer (calibration p) = blockingTimer p"
  by (simp_all add: calibration_def)

text \<open>After a stop: the relays' set points and the block.\<close>

lemma cmd_stop_sel [simp]:
  "soll_power (fst (rolladen_cmd_stop self p)) = False"
  "exe_power (fst (rolladen_cmd_stop self p)) = True"
  "soll_dir (fst (rolladen_cmd_stop self p)) = ROLLADEN_DIR_AUF"
  "dir (fst (rolladen_cmd_stop self p)) = dir p"
  "pwr (fst (rolladen_cmd_stop self p)) = pwr p"
  "config (fst (rolladen_cmd_stop self p)) = config p"
  "soll_laufzeit (fst (rolladen_cmd_stop self p)) = -1"
  "blockingTimer (fst (rolladen_cmd_stop self p)) =
     (if dir p = ROLLADEN_DIR_AB then 5 else blockingTimer p)"
  "exe_dir (fst (rolladen_cmd_stop self p)) = (if dir p = ROLLADEN_DIR_AB then False else exe_dir p)"
  by (simp_all add: rolladen_cmd_stop_def Let_def)

lemma inv_cmd_stop [inv_intros]:
  assumes "4 \<le> lz p" shows "rolladen_inv (fst (rolladen_cmd_stop self p))"
proof -
  have "lz (fst (rolladen_cmd_stop self p)) = lz p" by (rule lz_cong) simp
  then show ?thesis using assms by (cases "dir p") (simp_all add: rolladen_inv_def)
qed

lemma set_soll_sel [simp]:
  "dir (snd (set_soll_laufzeit p d)) = dir p" "pwr (snd (set_soll_laufzeit p d)) = pwr p"
  "exe_dir (snd (set_soll_laufzeit p d)) = exe_dir p" "soll_power (snd (set_soll_laufzeit p d)) = soll_power p"
  "exe_power (snd (set_soll_laufzeit p d)) = exe_power p" "config (snd (set_soll_laufzeit p d)) = config p"
  "blockingTimer (snd (set_soll_laufzeit p d)) = blockingTimer p"
  "mute (snd (set_soll_laufzeit p d)) = mute p"
  by (simp_all add: set_soll_laufzeit_def Let_def)

lemma set_soll_dir: "soll_dir (snd (set_soll_laufzeit p d)) = (if fst (set_soll_laufzeit p d) then d else soll_dir p)"
  by (simp add: set_soll_laufzeit_def Let_def)

lemma set_soll_laufzeit_refused:
  "\<not> fst (set_soll_laufzeit p d) \<Longrightarrow> soll_laufzeit (snd (set_soll_laufzeit p d)) = -1"
  by (simp add: set_soll_laufzeit_def Let_def split: if_splits)

lemma cmd_drive_sel [simp]:
  "dir (rolladen_cmd_drive p) = dir p" "pwr (rolladen_cmd_drive p) = pwr p"
  "soll_dir (rolladen_cmd_drive p) = soll_dir p" "soll_power (rolladen_cmd_drive p) = True"
  "config (rolladen_cmd_drive p) = config p" "laufzeit (rolladen_cmd_drive p) = laufzeit p"
  "soll_laufzeit (rolladen_cmd_drive p) = soll_laufzeit p"
  "blockingTimer (rolladen_cmd_drive p) = (if soll_dir p = ROLLADEN_DIR_AB then 5 else blockingTimer p)"
  "exe_dir (rolladen_cmd_drive p) = (soll_dir p = ROLLADEN_DIR_AB \<or> exe_dir p)"
  "exe_power (rolladen_cmd_drive p) = (soll_dir p \<noteq> ROLLADEN_DIR_AB)"
  by (simp_all add: rolladen_cmd_drive_def Let_def)

text \<open>A drive order to a stopped motor makes the invariant true.\<close>

lemma inv_cmd_drive [inv_intros]:
  assumes "\<not> pwr p" and "4 \<le> lz p" shows "rolladen_inv (rolladen_cmd_drive p)"
proof -
  have "lz (rolladen_cmd_drive p) = lz p" by (rule lz_cong) simp
  then show ?thesis
    using assms by (cases "dir p"; cases "soll_dir p") (simp_all add: rolladen_inv_def)
qed

lemma set_soll_accepted:
  assumes "4 \<le> lz p" and "fst (set_soll_laufzeit p d)"
  shows "soll_laufzeit (snd (set_soll_laufzeit p d)) \<noteq> -1"
proof -
  have "2 \<le> (lz p * 50) sdiv 100" "0 \<le> (lz p * 150) sdiv 100"
    using assms(1) by (simp_all add: signed_divide_int_def)
  then show ?thesis
    using assms by (auto simp: set_soll_laufzeit_def Let_def prepare_calibration_def split: if_splits)
qed

lemma inv_set_soll_refused:
  "rolladen_inv p \<Longrightarrow> \<not> fst (set_soll_laufzeit p d) \<Longrightarrow> rolladen_inv (snd (set_soll_laufzeit p d))"
  by (simp add: set_soll_laufzeit_def Let_def rolladen_inv_def split: if_splits)

text \<open>Fields that play no role for the relays.\<close>

lemma inv_irrelevant [simp]:
  "rolladen_inv (p\<lparr>laufzeit := x\<rparr>) = rolladen_inv p" "rolladen_inv (p\<lparr>soll_laufzeit := x\<rparr>) = rolladen_inv p"
  "rolladen_inv (p\<lparr>mute := b\<rparr>) = rolladen_inv p" "rolladen_inv (p\<lparr>kalibrieren := b\<rparr>) = rolladen_inv p"
  "rolladen_inv (p\<lparr>stoppuhr := x\<rparr>) = rolladen_inv p"
  "rolladen_inv (p\<lparr>long_pressed_counter := x\<rparr>) = rolladen_inv p"
  "rolladen_inv (p\<lparr>change_dir_counter := x\<rparr>) = rolladen_inv p"
  "rolladen_inv (p\<lparr>last_dir := d\<rparr>) = rolladen_inv p"
  "rolladen_inv (p\<lparr>summe_laufzeit := v\<rparr>) = rolladen_inv p"
  by (simp_all add: rolladen_inv_def)

lemma inv_prepare_calibration [simp]: "rolladen_inv (prepare_calibration p) = rolladen_inv p"
  by (simp add: prepare_calibration_def Let_def)

lemma inv_lz: "rolladen_inv p \<Longrightarrow> 4 \<le> lz p"
  by (simp add: rolladen_inv_def)

lemma inv_taster_cmd: "rolladen_inv p \<Longrightarrow> rolladen_inv (fst (rolladen_taster_cmd self p d))"
proof -
  assume p: "rolladen_inv p"
  obtain b q where s: "set_soll_laufzeit p d = (b, q)" by fastforce
  have q: "pwr q = pwr p" "lz q = lz p"
    using set_soll_sel(2,6) [of p d] s by (auto intro: lz_cong)
  show ?thesis
    using p q inv_lz [OF p] inv_set_soll_refused [OF p, of d] s
    by (auto simp: rolladen_taster_cmd_def intro!: inv_intros split: bool.splits)
qed

lemma inv_taster_down: "rolladen_inv p \<Longrightarrow> rolladen_inv (fst (rolladen_taster_down self p))"
proof -
  assume p: "rolladen_inv p"
  let ?q = "snd (set_soll_laufzeit p (last_dir p))"
  have q: "lz ?q = lz p" by (rule lz_cong) simp
  show ?thesis
    using p q inv_lz [OF p] inv_set_soll_refused [OF p, of "last_dir p"] set_soll_accepted [of p "last_dir p"]
    by (auto simp: rolladen_taster_down_def Let_def intro!: inv_intros)
qed

lemma inv_position_cmd: "rolladen_inv p \<Longrightarrow> rolladen_inv (rolladen_position_cmd p w)"
  by (auto simp: rolladen_position_cmd_def Let_def inv_lz intro!: inv_intros)

lemma inv_can_callback: "rolladen_inv p \<Longrightarrow> rolladen_inv (fst (rolladen_can_callback self p f))"
proof -
  assume p: "rolladen_inv p"
  have "rolladen_inv (fst (rolladen_switch self p f))"
    using p inv_lz [OF p] inv_taster_cmd [OF p] inv_taster_down [OF p] inv_position_cmd [OF p]
    by (simp add: rolladen_switch_def rolladen_position_set_def rolladen_define_position_def Let_def
        inv_cmd_stop)
  then show ?thesis
    by (simp add: rolladen_can_callback_def rolladen_mute_def)
qed

lemma tick_counters_sel [simp]:
  "dir (tick_counters p) = dir p" "soll_dir (tick_counters p) = soll_dir p"
  "pwr (tick_counters p) = pwr p" "soll_power (tick_counters p) = soll_power p"
  "exe_dir (tick_counters p) = exe_dir p" "exe_power (tick_counters p) = exe_power p"
  "blockingTimer (tick_counters p) = blockingTimer p" "config (tick_counters p) = config p"
  "laufzeit (tick_counters p) = laufzeit p"
  by (simp_all add: tick_counters_def Let_def)

lemma inv_tick_counters [simp]: "rolladen_inv (tick_counters p) = rolladen_inv p"
  by (simp add: tick_counters_def Let_def)

lemma tick_travel_sel [simp]:
  "dir (fst (tick_travel self p)) = dir p" "pwr (fst (tick_travel self p)) = pwr p"
  "config (fst (tick_travel self p)) = config p"
  by (simp_all add: tick_travel_def Let_def)

lemma inv_tick_travel: "rolladen_inv p \<Longrightarrow> rolladen_inv (fst (tick_travel self p))"
  using inv_lz [of p] by (simp add: tick_travel_def Let_def inv_cmd_stop)

lemma tick_blocking_sel [simp]:
  "dir (tick_blocking p) = dir p" "soll_dir (tick_blocking p) = soll_dir p"
  "pwr (tick_blocking p) = pwr p" "soll_power (tick_blocking p) = soll_power p"
  "config (tick_blocking p) = config p" "laufzeit (tick_blocking p) = laufzeit p"
  "soll_laufzeit (tick_blocking p) = soll_laufzeit p"
  "exe_dir (tick_blocking p) \<longleftrightarrow> exe_dir p \<or> blockingTimer p = 0 \<and> \<not> soll_power p"
  "exe_power (tick_blocking p) \<longleftrightarrow> exe_power p \<or> blockingTimer p = 0 \<and> soll_power p"
  "blockingTimer (tick_blocking p) = (if blockingTimer p = 0 then 0 else blockingTimer p - 1)"
  by (auto simp: tick_blocking_def)

lemma tick_relays_sel [simp]:
  "dir (fst (tick_relays p)) = (if exe_dir p then soll_dir p else dir p)"
  "pwr (fst (tick_relays p)) = (if exe_power p then soll_power p else pwr p)"
  "soll_dir (fst (tick_relays p)) = soll_dir p" "soll_power (fst (tick_relays p)) = soll_power p"
  "exe_dir (fst (tick_relays p)) \<longleftrightarrow> exe_dir p \<and> dir p = soll_dir p"
  "exe_power (fst (tick_relays p)) \<longleftrightarrow> exe_power p \<and> pwr p = soll_power p"
  "blockingTimer (fst (tick_relays p)) = blockingTimer p" "config (fst (tick_relays p)) = config p"
  "laufzeit (fst (tick_relays p)) = laufzeit p" "soll_laufzeit (fst (tick_relays p)) = soll_laufzeit p"
  by (auto simp: tick_relays_def)

lemma tick_relays_blocking:
  assumes "rolladen_inv p"
  shows "rolladen_inv (fst (tick_relays (tick_blocking p)))"
    and "dir (fst (tick_relays (tick_blocking p))) \<noteq> dir p \<Longrightarrow> \<not> pwr p"
proof -
  have l: "lz (fst (tick_relays (tick_blocking p))) = lz p" by (rule lz_cong) simp
  show "rolladen_inv (fst (tick_relays (tick_blocking p)))"
    using assms unfolding rolladen_inv_def l
    by (cases "dir p"; cases "soll_dir p"; cases "blockingTimer p = 0"; simp; blast?)
  show "dir (fst (tick_relays (tick_blocking p))) \<noteq> dir p \<Longrightarrow> \<not> pwr p"
    using assms unfolding rolladen_inv_def
    by (cases "dir p"; cases "soll_dir p"; cases "blockingTimer p = 0"; simp split: if_splits; blast?)
qed

lemma timer_handler_10:
  "rolladen_timer_handler self p 10 =
     (let r = tick_travel self (tick_counters p); r' = tick_relays (tick_blocking (fst r)); q = fst r'
      in (if pwr q then q\<lparr>stoppuhr := stoppuhr q + 1\<rparr> else q, snd r @ snd r'))"
  by (simp add: rolladen_timer_handler_def andthen_def Let_def)

lemma inv_timer_handler: "rolladen_inv p \<Longrightarrow> rolladen_inv (fst (rolladen_timer_handler self p z))"
  using tick_relays_blocking(1) [OF inv_tick_travel, of "tick_counters p" self]
  by (cases "z = 10") (simp_all add: timer_handler_10 Let_def, simp add: rolladen_timer_handler_def)

lemma timer_handler_dir:
  assumes "rolladen_inv p" and "dir (fst (rolladen_timer_handler self p z)) \<noteq> dir p"
  shows "\<not> pwr p"
proof (cases "z = 10")
  case True
  have "rolladen_inv (fst (tick_travel self (tick_counters p)))"
    using assms(1) by (simp add: inv_tick_travel)
  from tick_relays_blocking(2) [OF this] assms(2) True show ?thesis
    by (auto simp: timer_handler_10 Let_def split: if_splits)
next
  case False
  with assms(2) show ?thesis by (simp add: rolladen_timer_handler_def)
qed

text \<open>A frame never switches a relay; only the timer does.\<close>

lemma switch_relays [simp]:
  "dir (fst (rolladen_can_callback self p f)) = dir p" "pwr (fst (rolladen_can_callback self p f)) = pwr p"
proof -
  have a: "dir (fst (rolladen_taster_cmd self p d)) = dir p \<and> pwr (fst (rolladen_taster_cmd self p d)) = pwr p" for d
  proof -
    obtain b q where s: "set_soll_laufzeit p d = (b, q)" by fastforce
    then show ?thesis
      using set_soll_sel(1,2) [of p d] by (cases b) (simp_all add: rolladen_taster_cmd_def)
  qed
  have "dir (fst (rolladen_switch self p f)) = dir p \<and> pwr (fst (rolladen_switch self p f)) = pwr p"
    using a by (simp add: rolladen_switch_def rolladen_position_set_def rolladen_taster_down_def
        rolladen_position_cmd_def rolladen_define_position_def Let_def)
  then show "dir (fst (rolladen_can_callback self p f)) = dir p"
    "pwr (fst (rolladen_can_callback self p f)) = pwr p"
    by (simp_all add: rolladen_can_callback_def rolladen_mute_def)
qed

section \<open>What a shutter sends\<close>

definition rolladen_says :: "u8 \<Rightarrow> bool" where
  "rolladen_says cmd \<longleftrightarrow> cmd = HCAN_HES_ROLLADEN_POSITION_CHANGED_INFO \<or>
     cmd = HCAN_HES_ROLLADEN_POSITION_REPLAY \<or> cmd = HCAN_HES_ROLLADEN_CONFIG_REPLAY"

lemma cmd_stop_says [simp]: "says rolladen_says (snd (rolladen_cmd_stop self p))"
  by (simp add: rolladen_cmd_stop_def rolladen_send_changed_info_def Let_def rolladen_says_def)

lemma taster_cmd_says [simp]: "says rolladen_says (snd (rolladen_taster_cmd self p d))"
  by (simp add: rolladen_taster_cmd_def split: prod.splits bool.splits)

lemma taster_down_says [simp]: "says rolladen_says (snd (rolladen_taster_down self p))"
  by (simp add: rolladen_taster_down_def Let_def)

lemma position_set_says [simp]: "says rolladen_says (snd (rolladen_position_set self p w))"
  by (simp add: rolladen_position_set_def)

lemma switch_says: "says rolladen_says (snd (rolladen_switch self p f))"
  unfolding rolladen_switch_def Let_def
  by (simp add: hes_answer_def rolladen_says_def)

lemma can_callback_says: "says rolladen_says (snd (rolladen_can_callback self p f))"
  using switch_says by (simp add: rolladen_can_callback_def)

lemma tick_travel_says [simp]: "says rolladen_says (snd (tick_travel self p))"
  by (simp add: tick_travel_def Let_def)

lemma tick_relays_says [simp]: "says rolladen_says (snd (tick_relays p))"
  by (simp add: tick_relays_def)

lemma timer_handler_says: "says rolladen_says (snd (rolladen_timer_handler self p z))"
  by (simp add: rolladen_timer_handler_def)

lemma says_ignored: "rolladen_says (byte_at fr 1) \<Longrightarrow> rolladen_can_callback self p fr = (p, [])"
  unfolding rolladen_says_def rolladen_can_callback_def rolladen_switch_def rolladen_mute_def Let_def
  by (elim disjE) simp_all

interpretation rolladen_dev: echo_free_device "\<lambda>_. True" rolladen_inv rolladen_can_callback rolladen_timer_handler
  by (rule echo_free_deviceI [where P = rolladen_says])
    (simp_all add: inv_can_callback inv_timer_handler can_callback_says timer_handler_says says_ignored)

section \<open>The course of a downward drive\<close>

abbreviation tick :: "u16 \<Rightarrow> device_data_rolladen \<Rightarrow> device_data_rolladen" where
  "tick self p \<equiv> fst (rolladen_timer_handler self p 10)"

text \<open>No counter runs and no calibration is going on.\<close>

definition ruhig :: "device_data_rolladen \<Rightarrow> bool" where
  "ruhig p \<longleftrightarrow> long_pressed_counter p = -1 \<and> change_dir_counter p = -1 \<and> \<not> kalibrieren p"

text \<open>
  The phases: waiting for the direction relay, driving down, waiting before the direction
  relay is released, at rest.
\<close>

definition wartet :: "device_data_rolladen \<Rightarrow> nat \<Rightarrow> int \<Rightarrow> int \<Rightarrow> bool" where
  "wartet p b l s \<longleftrightarrow> ruhig p \<and> \<not> pwr p \<and> soll_power p \<and> \<not> exe_power p \<and> dir p = ROLLADEN_DIR_AB \<and>
     soll_dir p = ROLLADEN_DIR_AB \<and> unat (blockingTimer p) = b \<and> laufzeit p = l \<and> soll_laufzeit p = s"

definition faehrt :: "device_data_rolladen \<Rightarrow> int \<Rightarrow> int \<Rightarrow> bool" where
  "faehrt p l s \<longleftrightarrow> ruhig p \<and> pwr p \<and> soll_power p \<and> dir p = ROLLADEN_DIR_AB \<and>
     soll_dir p = ROLLADEN_DIR_AB \<and> blockingTimer p = 0 \<and> laufzeit p = l \<and> soll_laufzeit p = s"

definition haelt :: "device_data_rolladen \<Rightarrow> nat \<Rightarrow> int \<Rightarrow> bool" where
  "haelt p b l \<longleftrightarrow> ruhig p \<and> \<not> pwr p \<and> \<not> soll_power p \<and> dir p = ROLLADEN_DIR_AB \<and>
     soll_dir p = ROLLADEN_DIR_AUF \<and> \<not> exe_dir p \<and> unat (blockingTimer p) = b \<and> laufzeit p = l"

definition ruht :: "device_data_rolladen \<Rightarrow> int \<Rightarrow> bool" where
  "ruht p l \<longleftrightarrow> ruhig p \<and> \<not> pwr p \<and> \<not> soll_power p \<and> dir p = ROLLADEN_DIR_AUF \<and>
     soll_dir p = ROLLADEN_DIR_AUF \<and> blockingTimer p = 0 \<and> laufzeit p = l"

lemmas phasen = ruhig_def wartet_def faehrt_def haelt_def ruht_def

lemma tick_blocking_quiet [simp]:
  "long_pressed_counter (tick_blocking p) = long_pressed_counter p"
  "change_dir_counter (tick_blocking p) = change_dir_counter p"
  "kalibrieren (tick_blocking p) = kalibrieren p"
  "long_pressed_counter (fst (tick_relays p)) = long_pressed_counter p"
  "change_dir_counter (fst (tick_relays p)) = change_dir_counter p"
  "kalibrieren (fst (tick_relays p)) = kalibrieren p"
  by (auto simp: tick_blocking_def tick_relays_def)

lemma cmd_stop_quiet [simp]:
  "long_pressed_counter (fst (rolladen_cmd_stop self p)) = long_pressed_counter p"
  "change_dir_counter p = -1 \<Longrightarrow> change_dir_counter (fst (rolladen_cmd_stop self p)) = -1"
  "\<not> kalibrieren p \<Longrightarrow> \<not> kalibrieren (fst (rolladen_cmd_stop self p))"
  "\<not> kalibrieren p \<Longrightarrow> laufzeit (fst (rolladen_cmd_stop self p)) = laufzeit p"
  by (simp_all add: rolladen_cmd_stop_def Let_def calibration_def)

lemma tick_counters_quiet: "ruhig p \<Longrightarrow> tick_counters p = p"
  by (simp add: ruhig_def tick_counters_def)

lemma tick_sel:
  fixes p :: device_data_rolladen and self :: u16
  defines "r \<equiv> fst (tick_relays (tick_blocking (fst (tick_travel self (tick_counters p)))))"
  shows "dir (tick self p) = dir r" "soll_dir (tick self p) = soll_dir r" "pwr (tick self p) = pwr r"
    "soll_power (tick self p) = soll_power r" "exe_dir (tick self p) = exe_dir r"
    "exe_power (tick self p) = exe_power r" "blockingTimer (tick self p) = blockingTimer r"
    "laufzeit (tick self p) = laufzeit r" "soll_laufzeit (tick self p) = soll_laufzeit r"
    "ruhig (tick self p) = ruhig r" "config (tick self p) = config r"
  by (simp_all add: r_def timer_handler_10 Let_def ruhig_def)

lemma tick_wartet:
  "wartet p (Suc b) l s \<Longrightarrow> wartet (tick self p) b l s"
  "wartet p 0 l s \<Longrightarrow> faehrt (tick self p) l s"
proof -
  assume p: "wartet p (Suc b) l s"
  then have t: "tick_counters p = p" "tick_travel self p = (p, [])" "blockingTimer p \<noteq> 0"
    by (auto simp: wartet_def tick_counters_quiet tick_travel_def)
  then have "unat (blockingTimer p - 1) = b" using p by (simp add: wartet_def unat_dec)
  with p t show "wartet (tick self p) b l s"
    by (simp add: wartet_def tick_sel) (simp add: ruhig_def)
next
  assume p: "wartet p 0 l s"
  then have t: "tick_counters p = p" "tick_travel self p = (p, [])" "blockingTimer p = 0"
    by (auto simp: wartet_def tick_counters_quiet tick_travel_def word_unat_eq_iff)
  with p show "faehrt (tick self p) l s"
    by (simp add: wartet_def faehrt_def tick_sel) (simp add: ruhig_def)
qed

lemma tick_faehrt:
  "faehrt p l s \<Longrightarrow> s < l - 1 \<Longrightarrow> faehrt (tick self p) (l - 1) s"
  "faehrt p l s \<Longrightarrow> l - 1 \<le> s \<Longrightarrow> haelt (tick self p) 4 (l - 1)"
proof -
  assume p: "faehrt p l s" "s < l - 1"
  then have t: "tick_counters p = p" by (simp add: faehrt_def tick_counters_quiet)
  show "faehrt (tick self p) (l - 1) s"
    using p by (simp add: faehrt_def tick_sel t tick_travel_def) (simp add: ruhig_def)
next
  assume p: "faehrt p l s" "l - 1 \<le> s"
  then have t: "tick_counters p = p" by (simp add: faehrt_def tick_counters_quiet)
  show "haelt (tick self p) 4 (l - 1)"
    using p by (simp add: faehrt_def haelt_def tick_sel t tick_travel_def) (simp add: ruhig_def)
qed

lemma tick_haelt:
  "haelt p (Suc b) l \<Longrightarrow> haelt (tick self p) b l"
  "haelt p 0 l \<Longrightarrow> ruht (tick self p) l"
proof -
  assume p: "haelt p (Suc b) l"
  then have t: "tick_counters p = p" "tick_travel self p = (p, [])" "blockingTimer p \<noteq> 0"
    by (auto simp: haelt_def tick_counters_quiet tick_travel_def)
  then have "unat (blockingTimer p - 1) = b" using p by (simp add: haelt_def unat_dec)
  with p t show "haelt (tick self p) b l"
    by (simp add: haelt_def tick_sel) (simp add: ruhig_def)
next
  assume p: "haelt p 0 l"
  then have t: "tick_counters p = p" "tick_travel self p = (p, [])" "blockingTimer p = 0"
    by (auto simp: haelt_def tick_counters_quiet tick_travel_def word_unat_eq_iff)
  with p show "ruht (tick self p) l"
    by (simp add: haelt_def ruht_def tick_sel) (simp add: ruhig_def)
qed

lemma tick_ruht: "ruht p l \<Longrightarrow> ruht (tick self p) l"
proof -
  assume p: "ruht p l"
  then have t: "tick_counters p = p" "tick_travel self p = (p, [])"
    by (auto simp: ruht_def tick_counters_quiet tick_travel_def)
  with p show "ruht (tick self p) l"
    by (simp add: ruht_def tick_sel) (simp add: ruhig_def)
qed

text \<open>From the order to rest, tick by tick.\<close>

definition abfahrt :: "device_data_rolladen \<Rightarrow> int \<Rightarrow> int \<Rightarrow> bool" where
  "abfahrt p l s \<longleftrightarrow> ruhig p \<and> \<not> pwr p \<and> soll_power p \<and> \<not> exe_power p \<and> exe_dir p \<and>
     dir p = ROLLADEN_DIR_AUF \<and> soll_dir p = ROLLADEN_DIR_AB \<and> blockingTimer p = 5 \<and>
     laufzeit p = l \<and> soll_laufzeit p = s"

lemma tick_abfahrt: "abfahrt p l s \<Longrightarrow> wartet (tick self p) 4 l s"
proof -
  assume p: "abfahrt p l s"
  then have t: "tick_counters p = p" "tick_travel self p = (p, [])"
    by (auto simp: abfahrt_def tick_counters_quiet tick_travel_def)
  with p show "wartet (tick self p) 4 l s"
    by (simp add: abfahrt_def wartet_def tick_sel) (simp add: ruhig_def)
qed

lemma tick_pow_add: "(tick self ^^ (m + n)) p = (tick self ^^ m) ((tick self ^^ n) p)"
  by (simp add: funpow_add)

lemma wartet_run: "wartet p b l s \<Longrightarrow> i \<le> b \<Longrightarrow> wartet ((tick self ^^ i) p) (b - i) l s"
proof (induction i)
  case (Suc i)
  then have "wartet ((tick self ^^ i) p) (Suc (b - Suc i)) l s" by (simp add: Suc_diff_Suc)
  then show ?case by (simp add: tick_wartet(1))
qed simp

lemma faehrt_run:
  "faehrt p l s \<Longrightarrow> s < l - int i \<Longrightarrow> faehrt ((tick self ^^ i) p) (l - int i) s"
proof (induction i)
  case (Suc i)
  then have "faehrt ((tick self ^^ i) p) (l - int i) s" by simp
  from tick_faehrt(1) [OF this] Suc.prems(2) show ?case by (simp add: algebra_simps)
qed simp

lemma haelt_run: "haelt p b l \<Longrightarrow> i \<le> b \<Longrightarrow> haelt ((tick self ^^ i) p) (b - i) l"
proof (induction i)
  case (Suc i)
  then have "haelt ((tick self ^^ i) p) (Suc (b - Suc i)) l" by (simp add: Suc_diff_Suc)
  then show ?case by (simp add: tick_haelt(1))
qed simp

lemma ruht_run: "ruht p l \<Longrightarrow> ruht ((tick self ^^ i) p) l"
  by (induction i) (auto simp: tick_ruht)

lemma abfahrt_timeline:
  assumes p: "abfahrt p l s" and n: "s < l" "n = nat (l - s)"
  shows "1 \<le> k \<Longrightarrow> k \<le> 5 \<Longrightarrow> wartet ((tick self ^^ k) p) (5 - k) l s"
    and "6 \<le> k \<Longrightarrow> k < 6 + n \<Longrightarrow> faehrt ((tick self ^^ k) p) (l - int (k - 6)) s"
    and "6 + n \<le> k \<Longrightarrow> k \<le> 10 + n \<Longrightarrow> haelt ((tick self ^^ k) p) (10 + n - k) s"
    and "11 + n \<le> k \<Longrightarrow> ruht ((tick self ^^ k) p) s"
proof -
  have w: "wartet ((tick self ^^ k) p) (5 - k) l s" if "1 \<le> k" "k \<le> 5" for k
  proof -
    have "wartet ((tick self ^^ (k - 1)) (tick self p)) (4 - (k - 1)) l s"
      by (rule wartet_run [OF tick_abfahrt [OF p]]) (use that in simp)
    moreover have "(tick self ^^ (k - 1)) (tick self p) = (tick self ^^ k) p"
      using that tick_pow_add [of "k - 1" 1 self p] by simp
    ultimately show ?thesis using that by (simp add: Suc_diff_le)
  qed
  have "faehrt (tick self ((tick self ^^ 5) p)) l s"
    using w [of 5] by (intro tick_wartet(2)) simp
  then have f6: "faehrt ((tick self ^^ 6) p) l s"
    using tick_pow_add [of 1 5 self p] by simp
  have f: "faehrt ((tick self ^^ k) p) (l - int (k - 6)) s" if "6 \<le> k" "k < 6 + n" for k
  proof -
    have "faehrt ((tick self ^^ (k - 6)) ((tick self ^^ 6) p)) (l - int (k - 6)) s"
      using n that by (intro faehrt_run [OF f6]) auto
    then show ?thesis using that by (simp flip: tick_pow_add)
  qed
  have "faehrt ((tick self ^^ (5 + n)) p) (l - int (n - 1)) s"
    using f [of "5 + n"] n by simp
  then have "haelt (tick self ((tick self ^^ (5 + n)) p)) 4 (l - int (n - 1) - 1)"
    using n by (intro tick_faehrt(2)) auto
  moreover have "l - int (n - 1) - 1 = s" using n by simp
  ultimately have h0: "haelt ((tick self ^^ (6 + n)) p) 4 s"
    using tick_pow_add [of 1 "5 + n" self p] by simp
  have h: "haelt ((tick self ^^ k) p) (10 + n - k) s" if "6 + n \<le> k" "k \<le> 10 + n" for k
  proof -
    have "haelt ((tick self ^^ (k - (6 + n))) ((tick self ^^ (6 + n)) p)) (4 - (k - (6 + n))) s"
      using that by (intro haelt_run [OF h0]) simp
    moreover have "4 - (k - (6 + n)) = 10 + n - k" using that by simp
    moreover have "(tick self ^^ (k - (6 + n))) ((tick self ^^ (6 + n)) p) = (tick self ^^ k) p"
      using that tick_pow_add [of "k - (6 + n)" "6 + n" self p] by simp
    ultimately show ?thesis by simp
  qed
  have "ruht (tick self ((tick self ^^ (10 + n)) p)) s"
    using h [of "10 + n"] by (intro tick_haelt(2)) simp
  then have r0: "ruht ((tick self ^^ (11 + n)) p) s"
    using tick_pow_add [of 1 "10 + n" self p] by simp
  have r: "ruht ((tick self ^^ k) p) s" if "11 + n \<le> k" for k
  proof -
    have "(tick self ^^ (k - (11 + n))) ((tick self ^^ (11 + n)) p) = (tick self ^^ k) p"
      using that tick_pow_add [of "k - (11 + n)" "11 + n" self p] by simp
    moreover have "ruht ((tick self ^^ (k - (11 + n))) ((tick self ^^ (11 + n)) p)) s"
      by (rule ruht_run [OF r0])
    ultimately show ?thesis by simp
  qed
  show "1 \<le> k \<Longrightarrow> k \<le> 5 \<Longrightarrow> wartet ((tick self ^^ k) p) (5 - k) l s" by (rule w)
  show "6 \<le> k \<Longrightarrow> k < 6 + n \<Longrightarrow> faehrt ((tick self ^^ k) p) (l - int (k - 6)) s" by (rule f)
  show "6 + n \<le> k \<Longrightarrow> k \<le> 10 + n \<Longrightarrow> haelt ((tick self ^^ k) p) (10 + n - k) s" by (rule h)
  show "11 + n \<le> k \<Longrightarrow> ruht ((tick self ^^ k) p) s" by (rule r)
qed

section \<open>Properties\<close>

text \<open>The relay outputs, if the two ports differ, show the state of the relays.\<close>

definition outputs_ok :: "(u8 \<Rightarrow> bool) \<Rightarrow> device_data_rolladen \<Rightarrow> bool" where
  "outputs_ok pins p \<longleftrightarrow> c_port_power (config p) \<noteq> c_port_dir (config p) \<and>
     pins (c_port_power (config p)) = pwr p \<and> pins (c_port_dir (config p)) = (dir p = ROLLADEN_DIR_AB)"

definition no_pins :: "out list \<Rightarrow> bool" where
  "no_pins os \<longleftrightarrow> (\<forall>pins. apply_pins pins os = pins)"

lemma no_pins_simps [simp]:
  "no_pins []" "no_pins (send_hi f # os) = no_pins os" "no_pins (Sleep n # os) = no_pins os"
  by (simp_all add: no_pins_def)

lemma cmd_stop_no_pins [simp]: "no_pins (snd (rolladen_cmd_stop self p))"
  by (simp add: rolladen_cmd_stop_def rolladen_send_changed_info_def Let_def)

lemma taster_cmd_no_pins [simp]: "no_pins (snd (rolladen_taster_cmd self p d))"
  by (simp add: rolladen_taster_cmd_def split: prod.splits bool.splits)

lemma can_callback_no_pins: "no_pins (snd (rolladen_can_callback self p f))"
proof -
  have "no_pins (snd (rolladen_switch self p f))"
    unfolding rolladen_switch_def Let_def
    by (simp add: rolladen_position_set_def rolladen_taster_down_def Let_def)
  then show ?thesis by (simp add: rolladen_can_callback_def)
qed

lemma tick_travel_no_pins [simp]: "apply_pins pins (snd (tick_travel self p)) = pins"
  using cmd_stop_no_pins by (simp add: tick_travel_def Let_def no_pins_def)

lemma outputs_tick_relays:
  "outputs_ok pins p \<Longrightarrow> outputs_ok (apply_pins pins (snd (tick_relays p))) (fst (tick_relays p))"
  by (auto simp: outputs_ok_def tick_relays_def)

lemma can_callback_config [simp]: "config (fst (rolladen_can_callback self p f)) = config p"
proof -
  have a: "config (fst (rolladen_taster_cmd self p d)) = config p" for d
  proof -
    obtain b q where s: "set_soll_laufzeit p d = (b, q)" by fastforce
    then show ?thesis
      using set_soll_sel(6) [of p d] by (cases b) (simp_all add: rolladen_taster_cmd_def)
  qed
  have "config (fst (rolladen_switch self p f)) = config p"
    unfolding rolladen_switch_def Let_def
    using a by (simp add: rolladen_position_set_def rolladen_taster_down_def
        rolladen_position_cmd_def rolladen_define_position_def Let_def)
  then show ?thesis by (simp add: rolladen_can_callback_def rolladen_mute_def)
qed

lemma outputs_step:
  assumes "outputs_ok pins p"
  shows "outputs_ok (apply_pins pins (snd (dev_step rolladen_can_callback rolladen_timer_handler e p ev)))
     (fst (dev_step rolladen_can_callback rolladen_timer_handler e p ev))"
proof (cases ev)
  case (Frame f)
  then show ?thesis
    using assms can_callback_no_pins [of e p f] by (simp add: outputs_ok_def no_pins_def)
next
  case (Tick z)
  show ?thesis
  proof (cases "z = 10")
    case True
    have "outputs_ok pins (tick_blocking (fst (tick_travel e (tick_counters p))))"
      using assms by (simp add: outputs_ok_def)
    from outputs_tick_relays [OF this] show ?thesis
      using Tick True by (simp add: timer_handler_10 Let_def outputs_ok_def)
  next
    case False
    then show ?thesis using assms Tick by (simp add: rolladen_timer_handler_def)
  qed
qed

lemma outputs_run:
  "outputs_ok pins p \<Longrightarrow>
   outputs_ok (apply_pins pins (snd (dev_run rolladen_can_callback rolladen_timer_handler p evs)))
     (fst (dev_run rolladen_can_callback rolladen_timer_handler p evs))"
  by (induction evs arbitrary: p pins) (simp_all add: outputs_step)

text \<open>A device after \<^verbatim>\<open>devices_load_config\<close>: the RAM is zero, then \<^verbatim>\<open>rolladen_init\<close> runs.\<close>

definition loaded :: "rolladen_config \<Rightarrow> device_data_rolladen" where
  "loaded c = rolladen_init \<lparr>config = c, mute = False, kalibrieren = False, summe_laufzeit = 0,
     laufzeit = 0, soll_laufzeit = 0, stoppuhr = 0, dir = ROLLADEN_DIR_AUF, soll_dir = ROLLADEN_DIR_AUF,
     exe_dir = False, last_dir = ROLLADEN_DIR_AUF, soll_power = False, pwr = False, exe_power = False,
     blockingTimer = 0, change_dir_counter = 0, long_pressed_counter = 0\<rparr>"

lemma loaded_inv: "4 \<le> unat (c_laufzeit c) \<Longrightarrow> rolladen_inv (loaded c)"
proof -
  assume a: "4 \<le> unat (c_laufzeit c)"
  have "lz (loaded c) = int (unat (c_laufzeit c))"
    unfolding lz_def uint_nat by (simp add: loaded_def rolladen_init_def)
  then have "4 \<le> lz (loaded c)" using a by linarith
  then show ?thesis by (simp add: rolladen_inv_def) (simp add: loaded_def rolladen_init_def)
qed

text \<open>
  Property C27. The direction relay is never switched under load. After any sequence of
  frames (from this board or others, well-formed or not) and timer ticks the relays' outputs
  agree with the device's state, and whenever the next event switches the direction relay,
  the motor relay is off when it does. The configured travel time is at least four tenths of a second.
\<close>

theorem direction_relay_switches_without_load:
  assumes "4 \<le> unat (c_laufzeit c)" and "c_port_power c \<noteq> c_port_dir c"
    and "pins (c_port_power c) = False" and "pins (c_port_dir c) = False"
    and "dev_run rolladen_can_callback rolladen_timer_handler (loaded c) evs = (p, os)"
    and "dir (fst (dev_step rolladen_can_callback rolladen_timer_handler self p ev)) \<noteq> dir p"
  shows "\<not> pwr p \<and> apply_pins pins os (c_port_power c) = False"
proof -
  have inv: "rolladen_inv p"
    using rolladen_dev.run_inv [OF loaded_inv [OF assms(1)], of evs] assms(5) by simp
  have "outputs_ok pins (loaded c)"
    using assms(2-4) by (simp add: outputs_ok_def loaded_def rolladen_init_def)
  then have out: "outputs_ok (apply_pins pins os) p"
    using outputs_run [of pins "loaded c" evs] assms(5) by simp
  have "config (fst (dev_step rolladen_can_callback rolladen_timer_handler e q ev')) = config q" for e q ev'
    by (cases ev') (simp_all add: rolladen_timer_handler_def)
  then have "config (fst (dev_run rolladen_can_callback rolladen_timer_handler q evs)) = config q" for q
    by (induction evs arbitrary: q) simp_all
  from this [of "loaded c"] have c: "config p = c"
    using assms(5) by (simp add: loaded_def rolladen_init_def)
  have "\<not> pwr p"
    using assms(6) timer_handler_dir [OF inv] by (cases ev) auto
  then show ?thesis using out c by (simp add: outputs_ok_def)
qed

definition demo_config :: rolladen_config where
  "demo_config = \<lparr>c_port_power = 1, c_port_dir = 2, c_taster = 10, c_feature = 0, c_laufzeit = 200,
     c_max_rekalib = 1000, c_gruppen = [0, 0, 0, 0], c_mute = 99\<rparr>"

theorem direction_relay_switches_without_load_witness:
  "\<not> pwr (fst (rolladen_can_callback 7 (loaded demo_config)
       (hes_message 9 35 [HCAN_HES_ROLLADEN_POSITION_SET, 10, 200])))"
proof -
  let ?f = "hes_message 9 35 [HCAN_HES_ROLLADEN_POSITION_SET, 10, 200]"
  let ?p = "fst (rolladen_can_callback 7 (loaded demo_config) ?f)"
  have l: "4 \<le> unat (c_laufzeit demo_config)" and pp: "c_port_power demo_config \<noteq> c_port_dir demo_config"
    by (simp_all add: demo_config_def)
  have r: "dev_run rolladen_can_callback rolladen_timer_handler (loaded demo_config) [(7, Frame ?f)] =
      (?p, snd (rolladen_can_callback 7 (loaded demo_config) ?f))"
    by (simp add: andthen_def Let_def)
  have d: "dir (fst (dev_step rolladen_can_callback rolladen_timer_handler 7 ?p (Tick 10))) \<noteq> dir ?p"
    by (simp add: rolladen_can_callback_def rolladen_switch_def rolladen_mute_def is_group_in_rolladen_def
        rolladen_position_set_def rolladen_taster_cmd_def set_soll_laufzeit_def prepare_calibration_def
        rolladen_cmd_drive_def loaded_def rolladen_init_def demo_config_def lz_def Let_def
        timer_handler_10 tick_counters_def tick_travel_def)
  show ?thesis
    using direction_relay_switches_without_load [OF l pp _ _ r d, of "\<lambda>_. False"] by simp
qed

text \<open>A shutter at rest that accepts an order.\<close>

definition bereit :: "device_data_rolladen \<Rightarrow> bool" where
  "bereit p \<longleftrightarrow> \<not> mute p \<and> blockingTimer p = 0 \<and> \<not> pwr p \<and> \<not> soll_power p \<and>
     dir p = ROLLADEN_DIR_AUF \<and> long_pressed_counter p = -1 \<and> change_dir_counter p = -1"

text \<open>The position an order of \<open>w\<close> percent asks for.\<close>

definition soll_of :: "device_data_rolladen \<Rightarrow> u8 \<Rightarrow> int" where
  "soll_of p w = min (lz p) ((lz p * uint w) div 100)"

lemma position_frame:
  assumes "byte_at f 1 = HCAN_HES_ROLLADEN_POSITION_SET" and "is_group_in_rolladen p (byte_at f 2)"
    and "byte_at f 3 \<notin> {200, 201, 202, 222}"
  shows "rolladen_can_callback self p f = (rolladen_position_cmd p (byte_at f 3), [])"
  using assms
  by (simp add: rolladen_can_callback_def rolladen_switch_def rolladen_position_set_def rolladen_mute_def)

lemma position_soll:
  "(let soll = (lz p * uint w) sdiv 100; soll = (if soll < 0 then 0 else soll)
    in if soll > lz p then lz p else soll) = soll_of p w"
proof -
  have "0 \<le> lz p * uint w" by (simp add: lz_def)
  then have "(lz p * uint w) sdiv 100 = (lz p * uint w) div 100" "0 \<le> (lz p * uint w) div 100"
    by (simp_all add: signed_divide_int_def sgn_if)
  then show ?thesis by (simp add: soll_of_def Let_def min_def)
qed

text \<open>
  Property C28. A position order below the present position, to a shutter at rest that gets
  no other frames: the direction relay is switched at the first tick, the motor runs from the
  sixth tick on for exactly as many tenths of a second as the position is to change, the
  position counts down to the target and stays there, and the direction relay is released
  five ticks after the motor.
\<close>

theorem position_order_down:
  assumes "bereit p" and "byte_at f 1 = HCAN_HES_ROLLADEN_POSITION_SET"
    and "is_group_in_rolladen p (byte_at f 2)" and "byte_at f 3 \<notin> {200, 201, 202, 222}"
    and "soll_of p (byte_at f 3) < laufzeit p"
    and "n = nat (laufzeit p - soll_of p (byte_at f 3))" and "1 \<le> k"
  shows "let q = (tick self ^^ k) (fst (rolladen_can_callback self p f)) in
    (pwr q \<longleftrightarrow> 6 \<le> k \<and> k < 6 + n) \<and>
    (dir q = ROLLADEN_DIR_AB \<longleftrightarrow> k < 11 + n) \<and>
    laufzeit q = laufzeit p - int (min n (k - 6))"
proof -
  let ?s = "soll_of p (byte_at f 3)" and ?q = "fst (rolladen_can_callback self p f)"
  have q: "?q = rolladen_position_cmd p (byte_at f 3)"
    using position_frame [OF assms(2-4)] by simp
  have "?q = rolladen_cmd_drive (p\<lparr>soll_laufzeit := ?s, kalibrieren := False, soll_dir := ROLLADEN_DIR_AB\<rparr>)"
    unfolding q rolladen_position_cmd_def Let_def position_soll [unfolded Let_def]
    using assms(1,5) by (simp add: bereit_def)
  then have a: "abfahrt ?q (laufzeit p) ?s"
    using assms(1) by (simp add: abfahrt_def bereit_def ruhig_def rolladen_cmd_drive_def)
  note time = abfahrt_timeline [OF a assms(5,6), of k self]
  consider "k \<le> 5" | "6 \<le> k" "k < 6 + n" | "6 + n \<le> k" "k \<le> 10 + n" | "11 + n \<le> k" by linarith
  then show ?thesis
  proof cases
    case 1
    then show ?thesis using time(1) assms(7) by (simp add: wartet_def Let_def)
  next
    case 2
    then show ?thesis using time(2) by (simp add: faehrt_def Let_def)
  next
    case 3
    then show ?thesis using time(3) assms(5,6) by (simp add: haelt_def Let_def)
  next
    case 4
    then show ?thesis using time(4) assms(5,6) by (simp add: ruht_def Let_def)
  qed
qed

definition position_frame_to :: "u8 \<Rightarrow> canix_frame" where
  "position_frame_to w = hes_message 9 35 [HCAN_HES_ROLLADEN_POSITION_SET, 10, w]"

theorem position_order_down_witness:
  "pwr ((tick 7 ^^ 55) (fst (rolladen_can_callback 7 (loaded demo_config) (position_frame_to 25)))) \<and>
   \<not> pwr ((tick 7 ^^ 56) (fst (rolladen_can_callback 7 (loaded demo_config) (position_frame_to 25)))) \<and>
   laufzeit ((tick 7 ^^ 56) (fst (rolladen_can_callback 7 (loaded demo_config) (position_frame_to 25)))) = 50"
proof -
  have s: "soll_of (loaded demo_config) 25 = 50" "laufzeit (loaded demo_config) = 100"
    by (simp_all add: soll_of_def lz_def loaded_def rolladen_init_def demo_config_def)
  have b: "bereit (loaded demo_config)" "byte_at (position_frame_to 25) 1 = HCAN_HES_ROLLADEN_POSITION_SET"
    "is_group_in_rolladen (loaded demo_config) (byte_at (position_frame_to 25) 2)"
    "byte_at (position_frame_to 25) 3 \<notin> {200, 201, 202, 222}"
    "soll_of (loaded demo_config) (byte_at (position_frame_to 25) 3) < laufzeit (loaded demo_config)"
    "50 = nat (laufzeit (loaded demo_config) - soll_of (loaded demo_config) (byte_at (position_frame_to 25) 3))"
    by (simp_all add: position_frame_to_def s)
      (simp_all add: bereit_def loaded_def rolladen_init_def is_group_in_rolladen_def demo_config_def)
  show ?thesis
    using position_order_down [OF b, of 55 7] position_order_down [OF b, of 56 7] s(2)
    by (simp add: Let_def)
qed

text \<open>
  A position order to a moving shutter is not ignored, as the code's comment
  says: it clears the target, and a shutter that drives up is stopped by the next tick,
  wherever it is.
\<close>

theorem position_order_stops_upward_drive:
  assumes "pwr p" and "soll_power p" and "dir p = ROLLADEN_DIR_AUF" and "soll_dir p = ROLLADEN_DIR_AUF"
    and "\<not> mute p" and "blockingTimer p = 0" and "long_pressed_counter p \<noteq> 0" and "-1 \<le> laufzeit p"
    and "byte_at f 1 = HCAN_HES_ROLLADEN_POSITION_SET" and "is_group_in_rolladen p (byte_at f 2)"
    and "byte_at f 3 \<notin> {200, 201, 202, 222}"
  shows "\<not> pwr (tick self (fst (rolladen_can_callback self p f))) \<and>
    \<not> soll_power (tick self (fst (rolladen_can_callback self p f)))"
proof -
  let ?p = "p\<lparr>soll_laufzeit := -1\<rparr>"
  have q: "fst (rolladen_can_callback self p f) = ?p"
    using position_frame [OF assms(9-11)] assms by (simp add: rolladen_position_cmd_def Let_def)
  have "soll_laufzeit (tick_counters ?p) = -1"
    using assms(7) by (simp add: tick_counters_def Let_def)
  then show ?thesis
    using assms unfolding q by (simp add: tick_sel tick_travel_def Let_def)
qed

theorem position_order_stops_upward_drive_witness:
  "\<not> pwr (tick 7 (fst (rolladen_can_callback 7 ((loaded demo_config)\<lparr>pwr := True, soll_power := True,
       soll_laufzeit := 200\<rparr>) (position_frame_to 80))))"
  by (rule position_order_stops_upward_drive [THEN conjunct1])
    (simp_all add: loaded_def rolladen_init_def demo_config_def position_frame_to_def is_group_in_rolladen_def)

text \<open>
  The blocking time does not cover the tick at which the direction relay is
  released: an upward order in the tenth of a second after the block has run out finds the
  direction relay still at AB; the next tick starts the motor downwards, and the one after
  that stops it again, because the position lies below the target of the upward order.
\<close>

theorem upward_order_drives_down:
  assumes "haelt p 0 l" and "\<not> mute p" and "c_taster (config p) = byte_at f 2"
    and "byte_at f 1 = HCAN_HES_ROLLADEN_POSITION_SET" and "byte_at f 3 \<notin> {200, 201, 202, 222}"
    and "l < soll_of p (byte_at f 3)"
  shows "let q = fst (rolladen_can_callback self p f) in
    soll_dir q = ROLLADEN_DIR_AUF \<and>
    pwr (tick self q) \<and> dir (tick self q) = ROLLADEN_DIR_AB \<and>
    \<not> pwr (tick self (tick self q)) \<and> laufzeit (tick self (tick self q)) = l - 1"
proof -
  let ?s = "soll_of p (byte_at f 3)" and ?q = "fst (rolladen_can_callback self p f)"
  have g: "is_group_in_rolladen p (byte_at f 2)" using assms(3) by (simp add: is_group_in_rolladen_def)
  have b0: "blockingTimer p = 0" using assms(1) by (simp add: haelt_def word_unat_eq_iff)
  have q: "?q = rolladen_cmd_drive (p\<lparr>soll_laufzeit := ?s, kalibrieren := False, soll_dir := ROLLADEN_DIR_AUF\<rparr>)"
    using position_frame [OF assms(4) g assms(5)] assms(1,2,6) b0
    unfolding rolladen_position_cmd_def Let_def position_soll [unfolded Let_def]
    by (simp add: haelt_def)
  have q1: "ruhig ?q" "\<not> pwr ?q" "soll_power ?q" "dir ?q = ROLLADEN_DIR_AB" "soll_dir ?q = ROLLADEN_DIR_AUF"
    "\<not> exe_dir ?q" "blockingTimer ?q = 0" "laufzeit ?q = l" "soll_laufzeit ?q = ?s"
    using assms(1) b0 unfolding q by (simp_all add: haelt_def ruhig_def rolladen_cmd_drive_def)
  then have t: "tick_counters ?q = ?q" "tick_travel self ?q = (?q, [])"
    by (simp_all add: tick_counters_quiet tick_travel_def)
  define r where "r = tick self ?q"
  have r: "ruhig r" "pwr r" "soll_power r" "dir r = ROLLADEN_DIR_AB" "soll_dir r = ROLLADEN_DIR_AUF"
    "laufzeit r = l" "soll_laufzeit r = ?s"
    using q1 t unfolding r_def by (simp_all add: tick_sel) (simp add: ruhig_def)
  then have t': "tick_counters r = r" by (simp add: tick_counters_quiet)
  have "\<not> pwr (tick self r)" "laufzeit (tick self r) = l - 1"
    using r assms(6) by (simp_all add: tick_sel t' tick_travel_def ruhig_def)
  then show ?thesis using q1(5) r by (simp add: Let_def r_def)
qed

theorem upward_order_drives_down_witness:
  "dir (tick 7 (fst (rolladen_can_callback 7 ((loaded demo_config)\<lparr>kalibrieren := False,
     dir := ROLLADEN_DIR_AB, laufzeit := 60\<rparr>) (position_frame_to 90)))) = ROLLADEN_DIR_AB"
proof -
  let ?p = "(loaded demo_config)\<lparr>kalibrieren := False, dir := ROLLADEN_DIR_AB, laufzeit := 60\<rparr>"
  have h: "haelt ?p 0 60" "\<not> mute ?p" "c_taster (config ?p) = byte_at (position_frame_to 90) 2"
    "byte_at (position_frame_to 90) 1 = HCAN_HES_ROLLADEN_POSITION_SET"
    "byte_at (position_frame_to 90) 3 \<notin> {200, 201, 202, 222}"
    "60 < soll_of ?p (byte_at (position_frame_to 90) 3)"
    by (simp_all add: haelt_def ruhig_def loaded_def rolladen_init_def demo_config_def position_frame_to_def
        soll_of_def lz_def)
  show ?thesis
    using upward_order_drives_down [OF h, of 7] by (simp add: Let_def)
qed

text \<open>
  A shutter does not hear itself: the frames it sends in any event are delivered
  to the devices of its own board, itself included, but feeding them back at any later time
  leaves the shutter in the state it would have without them; and they are all sendable.
\<close>

theorem rolladen_ignores_own_frames:
  assumes "rolladen_inv p" and "rolladen_inv q"
    and "fr \<in> set (sent_frames (snd (dev_step rolladen_can_callback rolladen_timer_handler self p ev)))"
  shows "sendable_frame fr \<and>
    fst (dev_run rolladen_can_callback rolladen_timer_handler q (xs @ (self, Frame fr) # ys)) =
    fst (dev_run rolladen_can_callback rolladen_timer_handler q (xs @ ys))"
  using rolladen_dev.step_sendable [OF _ assms(1,3)] rolladen_dev.run_echo [OF _ assms(1,3,2), of xs self ys]
  by simp

theorem rolladen_ignores_own_frames_witness:
  "fst (dev_run rolladen_can_callback rolladen_timer_handler (loaded demo_config)
     [(7, Frame (hes_message 7 36 [HCAN_HES_ROLLADEN_POSITION_CHANGED_INFO, 10, 51, 0, 0]))]) =
   loaded demo_config"
proof -
  have i: "rolladen_inv (loaded demo_config)" by (rule loaded_inv) (simp add: demo_config_def)
  let ?ev = "Frame (hes_message 9 35 [HCAN_HES_ROLLADEN_POSITION_SET, 10, 202])"
  have f: "hes_message 7 36 [HCAN_HES_ROLLADEN_POSITION_CHANGED_INFO, 10, 51, 0, 0] \<in>
    set (sent_frames (snd (dev_step rolladen_can_callback rolladen_timer_handler 7 (loaded demo_config) ?ev)))"
    by (simp add: rolladen_can_callback_def rolladen_switch_def is_group_in_rolladen_def
        rolladen_position_set_def rolladen_cmd_stop_def rolladen_get_position_def
        rolladen_send_changed_info_def loaded_def rolladen_init_def demo_config_def lz_def Let_def
        signed_divide_int_def)
  show ?thesis
    using rolladen_ignores_own_frames [OF i i f, of "[]" "[]"] by simp
qed

end
