(* ===== verification/Lichtzone.thy ===== *)
theory Lichtzone
  imports Hes_Device
begin

text \<open>
  The light zone \<^verbatim>\<open>src/firmwares/controllerboard/devices/lichtzone.c\<close>: push
  buttons toggle, switch off or switch on the zone, which then informs its action groups; a
  timer switches it off (staircase light), three presses make it an extended light. The zone
  hears its own messages to the action groups, because sending delivers them locally before
  the handler goes on; this is part of the model (\<open>inform_action_groups\<close>).
\<close>

section \<open>State\<close>

datatype lichtzone_state = LICHTZONE_STATE_OFF | LICHTZONE_STATE_ON | LICHTZONE_STATE_ON_EXT

abbreviation (input) LICHTZONE_EXT_TIMERINIT :: u16 where "LICHTZONE_EXT_TIMERINIT \<equiv> 14400"
abbreviation (input) LICHTZONE_EXT_SEC_COUNTER_MAX :: u8 where "LICHTZONE_EXT_SEC_COUNTER_MAX \<equiv> 3"

record lichtzone_config =
  c_toggle :: "u8 list"
  c_off :: "u8 list"
  c_on :: "u8 list"
  c_timer_delay :: u8
  c_action :: "u8 list"

record device_data_lichtzone =
  config :: lichtzone_config
  zstate :: lichtzone_state
  timer_counter :: u16
  exton_taster_down_counter :: u8
  exton_sec_counter :: u8

text \<open>The number of groups of each kind (\<^verbatim>\<open>eds_lichtzone_block_t\<close>).\<close>

definition config_ok :: "lichtzone_config \<Rightarrow> bool" where
  "config_ok c \<longleftrightarrow> length (c_toggle c) = 4 \<and> length (c_off c) = 2 \<and> length (c_on c) = 2 \<and>
     length (c_action c) = 2"

section \<open>The handlers\<close>

definition timer_init :: "u8 \<Rightarrow> u16" where
  "timer_init d = (if d AND 0x80 \<noteq> 0 then ucast (d AND 0x7f) else ucast d * 60)"

definition lichtzone_setup_timer :: "device_data_lichtzone \<Rightarrow> device_data_lichtzone" where
  "lichtzone_setup_timer p = p\<lparr>timer_counter := timer_init (c_timer_delay (config p))\<rparr>"

text \<open>
  The cases \<^verbatim>\<open>HCAN_HES_POWER_GROUP_ON\<close> and
  \<^verbatim>\<open>HCAN_HES_POWER_GROUP_OFF\<close>, which send nothing.
\<close>

fun group_on :: "u8 \<Rightarrow> u8 list \<Rightarrow> device_data_lichtzone \<Rightarrow> device_data_lichtzone" where
  "group_on g [] p = p"
| "group_on g (a # as) p =
     group_on g as
       (if a \<noteq> 255 \<and> a = g \<and> zstate p \<noteq> LICHTZONE_STATE_ON_EXT
        then (let p = p\<lparr>zstate := LICHTZONE_STATE_ON\<rparr>
              in if c_timer_delay (config p) \<noteq> 0 then lichtzone_setup_timer p else p)
        else p)"

fun group_off :: "u8 \<Rightarrow> u8 list \<Rightarrow> device_data_lichtzone \<Rightarrow> device_data_lichtzone" where
  "group_off g [] p = p"
| "group_off g (a # as) p =
     (if a \<noteq> 255 \<and> a = g then p\<lparr>zstate := LICHTZONE_STATE_OFF, timer_counter := 0\<rparr>
      else group_off g as p)"

text \<open>The messages to the action groups, each delivered to the zone itself before the next.\<close>

fun inform_groups :: "u16 \<Rightarrow> u8 list \<Rightarrow> device_data_lichtzone \<Rightarrow> device_data_lichtzone \<times> out list" where
  "inform_groups self [] p = (p, [])"
| "inform_groups self (a # as) p =
     (if a \<noteq> 255
      then andthen
        (if zstate p \<noteq> LICHTZONE_STATE_OFF
         then (group_on a (c_action (config p)) p, [sendHESMessage self [HCAN_HES_POWER_GROUP_ON, a]])
         else (group_off a (c_action (config p)) p, [sendHESMessage self [HCAN_HES_POWER_GROUP_OFF, a]]))
        (inform_groups self as)
      else inform_groups self as p)"

definition inform_action_groups :: "u16 \<Rightarrow> device_data_lichtzone \<Rightarrow> device_data_lichtzone \<times> out list" where
  "inform_action_groups self p = inform_groups self (c_action (config p)) p"

text \<open>A press of a toggle group's button; the flag says that the handler returns.\<close>

definition toggle_press :: "u16 \<Rightarrow> device_data_lichtzone \<Rightarrow> (device_data_lichtzone \<times> out list) \<times> bool" where
  "toggle_press self p =
     (if exton_taster_down_counter p \<ge> 3 \<and> exton_sec_counter p > 0 \<and>
         exton_sec_counter p < LICHTZONE_EXT_SEC_COUNTER_MAX
      then (inform_action_groups self
              (p\<lparr>exton_sec_counter := 0, exton_taster_down_counter := 0,
                 zstate := LICHTZONE_STATE_ON_EXT, timer_counter := LICHTZONE_EXT_TIMERINIT\<rparr>), True)
      else if c_timer_delay (config p) \<noteq> 0
      then ((case zstate p of
               LICHTZONE_STATE_OFF \<Rightarrow>
                 inform_action_groups self ((lichtzone_setup_timer p)\<lparr>zstate := LICHTZONE_STATE_ON\<rparr>)
             | LICHTZONE_STATE_ON \<Rightarrow> (lichtzone_setup_timer p, [])
             | LICHTZONE_STATE_ON_EXT \<Rightarrow>
                 inform_action_groups self
                   (p\<lparr>zstate := LICHTZONE_STATE_OFF, exton_sec_counter := 0,
                      exton_taster_down_counter := 0, timer_counter := 0\<rparr>)), False)
      else (inform_action_groups self
              (p\<lparr>zstate := (case zstate p of LICHTZONE_STATE_OFF \<Rightarrow> LICHTZONE_STATE_ON
                            | LICHTZONE_STATE_ON \<Rightarrow> LICHTZONE_STATE_OFF
                            | LICHTZONE_STATE_ON_EXT \<Rightarrow> LICHTZONE_STATE_OFF)\<rparr>), False))"

fun toggle_loop ::
  "u16 \<Rightarrow> u8 \<Rightarrow> u8 list \<Rightarrow> device_data_lichtzone \<Rightarrow> (device_data_lichtzone \<times> out list) \<times> bool" where
  "toggle_loop self g [] p = ((p, []), False)"
| "toggle_loop self g (t # ts) p =
     (if g = t
      then (case toggle_press self p of
              (r, True) \<Rightarrow> (r, True)
            | (r, False) \<Rightarrow> (let (r', ret) = toggle_loop self g ts (fst r) in ((fst r', snd r @ snd r'), ret)))
      else toggle_loop self g ts p)"

fun off_loop :: "u16 \<Rightarrow> u8 \<Rightarrow> u8 list \<Rightarrow> device_data_lichtzone \<Rightarrow> device_data_lichtzone \<times> out list" where
  "off_loop self g [] p = (p, [])"
| "off_loop self g (t # ts) p =
     andthen (if g = t then inform_action_groups self (p\<lparr>zstate := LICHTZONE_STATE_OFF, timer_counter := 0\<rparr>)
              else (p, []))
       (off_loop self g ts)"

fun on_loop :: "u16 \<Rightarrow> u8 \<Rightarrow> u8 list \<Rightarrow> device_data_lichtzone \<Rightarrow> device_data_lichtzone \<times> out list" where
  "on_loop self g [] p = (p, [])"
| "on_loop self g (t # ts) p =
     andthen (if g = t
              then (let p = p\<lparr>zstate := LICHTZONE_STATE_ON\<rparr>
                    in inform_action_groups self
                         (if c_timer_delay (config p) \<noteq> 0 then lichtzone_setup_timer p else p))
              else (p, []))
       (on_loop self g ts)"

definition taster_down :: "u16 \<Rightarrow> device_data_lichtzone \<Rightarrow> u8 \<Rightarrow> device_data_lichtzone \<times> out list" where
  "taster_down self p g =
     (let p = p\<lparr>exton_sec_counter := (if exton_sec_counter p = 0 then 1 else exton_sec_counter p),
                exton_taster_down_counter := exton_taster_down_counter p + 1\<rparr>
      in case toggle_loop self g (c_toggle (config p)) p of
           (r, True) \<Rightarrow> r
         | (r, False) \<Rightarrow>
             andthen r (\<lambda>p. andthen (off_loop self g (c_off (config p)) p)
                               (\<lambda>p. on_loop self g (c_on (config p)) p)))"

definition lichtzone_can_callback ::
  "u16 \<Rightarrow> device_data_lichtzone \<Rightarrow> canix_frame \<Rightarrow> device_data_lichtzone \<times> out list" where
  "lichtzone_can_callback self p f =
     (let cmd = byte_at f 1; g = byte_at f 2; act = c_action (config p) in
      if cmd = HCAN_HES_TASTER_DOWN then taster_down self p g
      else if cmd = HCAN_HES_POWER_GROUP_ON then (group_on g act p, [])
      else if cmd = HCAN_HES_POWER_GROUP_OFF then (group_off g act p, [])
      else if cmd = HCAN_HES_POWER_GROUP_TIMER_QUERY then
        (p, if g \<in> set act
            then [send_hi (hes_answer self f [HCAN_HES_POWER_GROUP_TIMER_REPLAY, g,
                     hi8 (timer_counter p), lo8 (timer_counter p)])] else [])
      else if cmd = HCAN_HES_POWER_GROUP_SET_TIMER then
        (if g \<in> set act then p\<lparr>timer_counter := mk16 (byte_at f 3) (byte_at f 4)\<rparr> else p, [])
      else (p, []))"

definition lichtzone_timer_handler ::
  "u16 \<Rightarrow> device_data_lichtzone \<Rightarrow> u8 \<Rightarrow> device_data_lichtzone \<times> out list" where
  "lichtzone_timer_handler self p zyklus =
     (if zyklus \<noteq> 1 then (p, [])
      else
        andthen
          (if c_timer_delay (config p) \<noteq> 0 \<and> timer_counter p > 0
           then (let p = p\<lparr>timer_counter := timer_counter p - 1\<rparr>
                 in if timer_counter p = 0 then inform_action_groups self (p\<lparr>zstate := LICHTZONE_STATE_OFF\<rparr>)
                    else (p, []))
           else (p, []))
          (\<lambda>p.
            (let p = (if exton_sec_counter p \<ge> 1 then p\<lparr>exton_sec_counter := exton_sec_counter p + 1\<rparr> else p)
             in (if exton_sec_counter p \<ge> LICHTZONE_EXT_SEC_COUNTER_MAX
                 then p\<lparr>exton_sec_counter := 0, exton_taster_down_counter := 0\<rparr> else p, []))))"

section \<open>What the zone hears of itself\<close>

lemma config_setup [simp]:
  "config (lichtzone_setup_timer p) = config p" "zstate (lichtzone_setup_timer p) = zstate p"
  "exton_sec_counter (lichtzone_setup_timer p) = exton_sec_counter p"
  "exton_taster_down_counter (lichtzone_setup_timer p) = exton_taster_down_counter p"
  "timer_counter (lichtzone_setup_timer p) = timer_init (c_timer_delay (config p))"
  by (simp_all add: lichtzone_setup_timer_def)

lemma group_on_sel [simp]:
  "config (group_on g as p) = config p"
  "exton_sec_counter (group_on g as p) = exton_sec_counter p"
  "exton_taster_down_counter (group_on g as p) = exton_taster_down_counter p"
  by (induction g as p rule: group_on.induct) (simp_all add: Let_def)

lemma group_off_sel [simp]:
  "config (group_off g as p) = config p"
  "exton_sec_counter (group_off g as p) = exton_sec_counter p"
  "exton_taster_down_counter (group_off g as p) = exton_taster_down_counter p"
  by (induction g as p rule: group_off.induct) simp_all

lemma zstate_update [simp]: "zstate p = z \<Longrightarrow> p\<lparr>zstate := z\<rparr> = p"
  by (cases p) simp

lemma setup_idem [simp]: "lichtzone_setup_timer (lichtzone_setup_timer p) = lichtzone_setup_timer p"
  by (simp add: lichtzone_setup_timer_def)

lemma group_on_ext: "zstate p = LICHTZONE_STATE_ON_EXT \<Longrightarrow> group_on g as p = p"
  by (induction g as p rule: group_on.induct) simp_all

lemma group_on_on:
  "zstate p = LICHTZONE_STATE_ON \<Longrightarrow> g \<noteq> 255 \<Longrightarrow>
   group_on g as p = (if g \<in> set as \<and> c_timer_delay (config p) \<noteq> 0 then lichtzone_setup_timer p else p)"
  by (induction g as p rule: group_on.induct) (auto simp: Let_def)

lemma group_off_off:
  "zstate p = LICHTZONE_STATE_OFF \<Longrightarrow> g \<noteq> 255 \<Longrightarrow>
   group_off g as p = (if g \<in> set as then p\<lparr>timer_counter := 0\<rparr> else p)"
  by (induction g as p rule: group_off.induct) auto

text \<open>The messages to the action groups, and the state after the zone has heard them.\<close>

definition group_msgs :: "u16 \<Rightarrow> u8 \<Rightarrow> u8 list \<Rightarrow> out list" where
  "group_msgs self cmd as = map (\<lambda>a. sendHESMessage self [cmd, a]) (filter (\<lambda>a. a \<noteq> 255) as)"

lemma inform_ext:
  "zstate p = LICHTZONE_STATE_ON_EXT \<Longrightarrow>
   inform_groups self as p = (p, group_msgs self HCAN_HES_POWER_GROUP_ON as)"
  by (induction as) (simp_all add: group_msgs_def group_on_ext)

lemma inform_on:
  "zstate p = LICHTZONE_STATE_ON \<Longrightarrow> set as \<subseteq> set (c_action (config p)) \<Longrightarrow>
   inform_groups self as p =
     (if (\<exists>a \<in> set as. a \<noteq> 255) \<and> c_timer_delay (config p) \<noteq> 0 then lichtzone_setup_timer p else p,
      group_msgs self HCAN_HES_POWER_GROUP_ON as)"
proof (induction as arbitrary: p)
  case (Cons a as)
  show ?case
  proof (cases "a = 255")
    case False
    let ?q = "group_on a (c_action (config p)) p"
    have q: "?q = (if c_timer_delay (config p) \<noteq> 0 then lichtzone_setup_timer p else p)"
      using group_on_on [OF Cons.prems(1) False] Cons.prems(2) by simp
    have "inform_groups self as ?q = (if (\<exists>a \<in> set as. a \<noteq> 255) \<and> c_timer_delay (config ?q) \<noteq> 0
        then lichtzone_setup_timer ?q else ?q, group_msgs self HCAN_HES_POWER_GROUP_ON as)"
      using Cons.prems q by (intro Cons.IH) auto
    then show ?thesis
      using Cons.prems(1) False q by (simp add: group_msgs_def)
  qed (use Cons in \<open>simp add: group_msgs_def\<close>)
qed (simp add: group_msgs_def)

lemma inform_off:
  "zstate p = LICHTZONE_STATE_OFF \<Longrightarrow> set as \<subseteq> set (c_action (config p)) \<Longrightarrow>
   inform_groups self as p =
     (if \<exists>a \<in> set as. a \<noteq> 255 then p\<lparr>timer_counter := 0\<rparr> else p,
      group_msgs self HCAN_HES_POWER_GROUP_OFF as)"
proof (induction as arbitrary: p)
  case (Cons a as)
  show ?case
  proof (cases "a = 255")
    case False
    have "group_off a (c_action (config p)) p = p\<lparr>timer_counter := 0\<rparr>"
      using group_off_off [OF Cons.prems(1) False] Cons.prems(2) by simp
    moreover have "inform_groups self as (p\<lparr>timer_counter := 0\<rparr>) =
        (if \<exists>a \<in> set as. a \<noteq> 255 then p\<lparr>timer_counter := 0, timer_counter := 0\<rparr> else p\<lparr>timer_counter := 0\<rparr>,
         group_msgs self HCAN_HES_POWER_GROUP_OFF as)"
      using Cons.prems by (intro Cons.IH) auto
    ultimately show ?thesis
      using Cons.prems(1) False by (simp add: group_msgs_def)
  qed (use Cons in \<open>simp add: group_msgs_def\<close>)
qed (simp add: group_msgs_def)

lemma inform_sel [simp]:
  "zstate (fst (inform_action_groups self p)) = zstate p"
  "config (fst (inform_action_groups self p)) = config p"
  "exton_sec_counter (fst (inform_action_groups self p)) = exton_sec_counter p"
  "exton_taster_down_counter (fst (inform_action_groups self p)) = exton_taster_down_counter p"
  using inform_on [of p "c_action (config p)" self] inform_off [of p "c_action (config p)" self]
    inform_ext [of p self "c_action (config p)"]
  by (cases "zstate p"; simp add: inform_action_groups_def)+

lemma inform_frames:
  "snd (inform_action_groups self p) =
     group_msgs self (if zstate p = LICHTZONE_STATE_OFF then HCAN_HES_POWER_GROUP_OFF
                      else HCAN_HES_POWER_GROUP_ON) (c_action (config p))"
  using inform_on [of p "c_action (config p)" self] inform_off [of p "c_action (config p)" self]
    inform_ext [of p self "c_action (config p)"]
  by (cases "zstate p"; simp add: inform_action_groups_def)

lemma inform_timer:
  "timer_counter (fst (inform_action_groups self p)) =
     (if \<exists>a \<in> set (c_action (config p)). a \<noteq> 255
      then (case zstate p of
              LICHTZONE_STATE_OFF \<Rightarrow> 0
            | LICHTZONE_STATE_ON \<Rightarrow>
                if c_timer_delay (config p) \<noteq> 0 then timer_init (c_timer_delay (config p)) else timer_counter p
            | LICHTZONE_STATE_ON_EXT \<Rightarrow> timer_counter p)
      else timer_counter p)"
  using inform_on [of p "c_action (config p)" self] inform_off [of p "c_action (config p)" self]
    inform_ext [of p self "c_action (config p)"]
  by (cases "zstate p"; simp add: inform_action_groups_def)

section \<open>The contract of a device\<close>

definition sendable :: "out list \<Rightarrow> bool" where
  "sendable os \<longleftrightarrow> (\<forall>f \<in> set (sent_frames os). sendable_frame f)"

lemma sendable_simps [simp]:
  "sendable []" "sendable (xs @ ys) \<longleftrightarrow> sendable xs \<and> sendable ys"
  "sendable (send_hi f # os) \<longleftrightarrow> sendable_frame f \<and> sendable os"
  "sendable (sendHESMessage self bs # os) \<longleftrightarrow> length bs \<le> 7 \<and> sendable os"
  by (auto simp: sendable_def)

lemma sendable_msgs [simp]: "sendable (group_msgs self cmd as)"
  by (induction as) (auto simp: group_msgs_def)

lemma sendable_inform [simp]: "sendable (snd (inform_action_groups self p))"
  by (simp add: inform_frames)

lemma toggle_press_ok [simp]:
  "sendable (snd (fst (toggle_press self p)))" "config (fst (fst (toggle_press self p))) = config p"
  by (simp_all add: toggle_press_def split: lichtzone_state.splits)

lemma toggle_loop_ok [simp]:
  "sendable (snd (fst (toggle_loop self g ts p)))" "config (fst (fst (toggle_loop self g ts p))) = config p"
proof -
  have "sendable (snd (fst (toggle_loop self g ts p))) \<and> config (fst (fst (toggle_loop self g ts p))) = config p"
  proof (induction ts arbitrary: p)
    case (Cons t ts)
    obtain d os ret where r: "toggle_press self p = ((d, os), ret)" by (metis prod.collapse)
    then have "sendable os" "config d = config p" using toggle_press_ok [of self p] by simp_all
    then show ?case
      using Cons.IH [of d] Cons.IH [of p] r
      by (cases "g = t"; cases ret) (simp_all add: case_prod_unfold Let_def)
  qed simp
  then show "sendable (snd (fst (toggle_loop self g ts p)))"
    "config (fst (fst (toggle_loop self g ts p))) = config p" by simp_all
qed

lemma off_loop_ok [simp]:
  "sendable (snd (off_loop self g ts p))" "config (fst (off_loop self g ts p)) = config p"
  by (induction ts arbitrary: p) simp_all

lemma on_loop_ok [simp]:
  "sendable (snd (on_loop self g ts p))" "config (fst (on_loop self g ts p)) = config p"
  by (induction ts arbitrary: p) (simp_all add: Let_def)

lemma taster_down_ok [simp]:
  "sendable (snd (taster_down self p g))" "config (fst (taster_down self p g)) = config p"
proof -
  define q where "q = p\<lparr>exton_sec_counter := (if exton_sec_counter p = 0 then 1 else exton_sec_counter p),
                exton_taster_down_counter := exton_taster_down_counter p + 1\<rparr>"
  obtain r ret where t: "toggle_loop self g (c_toggle (config q)) q = (r, ret)" by fastforce
  have c: "config q = config p" by (simp add: q_def)
  have r: "sendable (snd r)" "config (fst r) = config p"
    using toggle_loop_ok [of self g "c_toggle (config q)" q] c unfolding t by (auto simp only: fst_conv)
  have "taster_down self p g = (case (r, ret) of (r, True) \<Rightarrow> r
         | (r, False) \<Rightarrow> andthen r (\<lambda>p. andthen (off_loop self g (c_off (config p)) p)
                               (\<lambda>p. on_loop self g (c_on (config p)) p)))"
    unfolding t [symmetric] by (simp add: taster_down_def Let_def q_def)
  then show "sendable (snd (taster_down self p g))" "config (fst (taster_down self p g)) = config p"
    using r by (cases ret; simp)+
qed

lemma can_callback_ok:
  "sendable (snd (lichtzone_can_callback self p f))" "config (fst (lichtzone_can_callback self p f)) = config p"
  by (simp_all add: lichtzone_can_callback_def Let_def hes_answer_def)

lemma timer_handler_ok:
  "sendable (snd (lichtzone_timer_handler self p z))" "config (fst (lichtzone_timer_handler self p z)) = config p"
  by (simp_all add: lichtzone_timer_handler_def Let_def)

interpretation lichtzone_dev: hes_device "\<lambda>_. True" "\<lambda>p. config_ok (config p)"
  lichtzone_can_callback lichtzone_timer_handler
  by unfold_locales (use can_callback_ok timer_handler_ok in \<open>auto simp: sendable_def\<close>)

section \<open>The staircase light\<close>

abbreviation second :: "u16 \<Rightarrow> device_data_lichtzone \<Rightarrow> device_data_lichtzone" where
  "second self p \<equiv> fst (lichtzone_timer_handler self p 1)"

lemma second_sel:
  "config (second self p) = config p"
  "timer_counter p = 0 \<Longrightarrow> zstate (second self p) = zstate p \<and> timer_counter (second self p) = 0"
  "c_timer_delay (config p) \<noteq> 0 \<Longrightarrow> timer_counter p \<noteq> 0 \<Longrightarrow> timer_counter p \<noteq> 1 \<Longrightarrow>
     zstate (second self p) = zstate p \<and> timer_counter (second self p) = timer_counter p - 1"
  "c_timer_delay (config p) \<noteq> 0 \<Longrightarrow> timer_counter p = 1 \<Longrightarrow>
     zstate (second self p) = LICHTZONE_STATE_OFF \<and> timer_counter (second self p) = 0"
  by (simp_all add: lichtzone_timer_handler_def Let_def inform_timer word_gt_0)

lemma stays_off:
  "zstate p = LICHTZONE_STATE_OFF \<Longrightarrow> timer_counter p = 0 \<Longrightarrow>
   zstate ((second self ^^ n) p) = LICHTZONE_STATE_OFF \<and> timer_counter ((second self ^^ n) p) = 0"
  by (induction n) (simp_all add: second_sel)

lemma countdown:
  assumes "c_timer_delay (config p) \<noteq> 0" and "zstate p = LICHTZONE_STATE_ON" and "timer_counter p \<noteq> 0"
  shows "zstate ((second self ^^ n) p) =
      (if n < unat (timer_counter p) then LICHTZONE_STATE_ON else LICHTZONE_STATE_OFF) \<and>
    unat (timer_counter ((second self ^^ n) p)) = unat (timer_counter p) - n \<and>
    config ((second self ^^ n) p) = config p"
proof (induction n)
  case 0
  then show ?case using assms by (simp add: unat_gt_0)
next
  case (Suc n)
  let ?q = "(second self ^^ n) p"
  show ?case
  proof (cases "n < unat (timer_counter p)")
    case False
    then have "timer_counter ?q = 0" using Suc by (simp add: word_unat_eq_iff)
    then show ?thesis using Suc False by (simp add: second_sel)
  next
    case True
    have nz: "timer_counter ?q \<noteq> 0" using Suc True by auto
    show ?thesis
    proof (cases "timer_counter ?q = 1")
      case c: True
      then have "unat (timer_counter p) = Suc n" using Suc True by auto
      then show ?thesis using second_sel [where self = self and p = ?q] Suc c assms(1) by simp
    next
      case c: False
      then have "unat (timer_counter ?q) \<noteq> 1" by (simp add: word_unat_eq_iff)
      then have "Suc n < unat (timer_counter p)" using Suc True by auto
      then show ?thesis
        using second_sel [where self = self and p = ?q] Suc nz c assms(1) unat_dec [OF nz] by simp
    qed
  qed
qed

text \<open>A press that is not the third of a series.\<close>

lemma toggle_press_timer:
  assumes "\<not> exton_taster_down_counter p \<ge> 3" and "c_timer_delay (config p) \<noteq> 0"
    and "zstate p \<noteq> LICHTZONE_STATE_ON_EXT"
  shows "snd (toggle_press self p) = False \<and> zstate (fst (fst (toggle_press self p))) = LICHTZONE_STATE_ON \<and>
    timer_counter (fst (fst (toggle_press self p))) = timer_init (c_timer_delay (config p)) \<and>
    exton_taster_down_counter (fst (fst (toggle_press self p))) = exton_taster_down_counter p \<and>
    config (fst (fst (toggle_press self p))) = config p"
  using assms by (cases "zstate p") (simp_all add: toggle_press_def inform_timer)

definition burning :: "device_data_lichtzone \<Rightarrow> bool" where
  "burning p \<longleftrightarrow> zstate p = LICHTZONE_STATE_ON \<and> timer_counter p = timer_init (c_timer_delay (config p))"

lemma toggle_loop_timer:
  assumes "\<not> exton_taster_down_counter p \<ge> 3" and "c_timer_delay (config p) \<noteq> 0"
    and "zstate p \<noteq> LICHTZONE_STATE_ON_EXT"
  shows "\<exists>q os. toggle_loop self g ts p = ((q, os), False) \<and> config q = config p \<and>
    (if g \<in> set ts then burning q else q = p)"
  using assms
proof (induction ts arbitrary: p)
  case (Cons t ts)
  show ?case
  proof (cases "g = t")
    case True
    obtain d os ret where r: "toggle_press self p = ((d, os), ret)" by (metis prod.collapse)
    then have d: "ret = False" "zstate d = LICHTZONE_STATE_ON" "burning d" "config d = config p"
      "exton_taster_down_counter d = exton_taster_down_counter p"
      using toggle_press_timer [OF Cons.prems, of self] by (simp_all add: burning_def)
    have "\<exists>q os. toggle_loop self g ts d = ((q, os), False) \<and> config q = config d \<and>
        (if g \<in> set ts then burning q else q = d)"
      using Cons.prems d by (intro Cons.IH) simp_all
    then show ?thesis using True r d by (auto split: if_splits)
  next
    case False
    then show ?thesis using Cons.IH [OF Cons.prems] by simp
  qed
qed simp

lemma off_loop_other: "g \<notin> set ts \<Longrightarrow> off_loop self g ts p = (p, [])"
  by (induction ts) auto

lemma on_loop_other: "g \<notin> set ts \<Longrightarrow> on_loop self g ts p = (p, [])"
  by (induction ts) auto

lemma on_loop_burning:
  "burning p \<Longrightarrow> c_timer_delay (config p) \<noteq> 0 \<Longrightarrow> burning (fst (on_loop self g ts p))"
proof (induction ts arbitrary: p)
  case (Cons t ts)
  then show ?case
    by (cases "g = t") (simp_all add: Let_def burning_def inform_timer)
qed simp

section \<open>Properties\<close>

text \<open>
  Property C29. The staircase light: a press of a toggle button on a zone that is off and has
  a timer (and not the third press in a row, nor a button of an off group) switches the zone
  on; without further frames it is on for exactly the configured time (seconds or minutes by
  the value's top bit), and the second at which the time ends switches it off and sends
  exactly one off message to each action group in use.
\<close>

theorem staircase_light:
  assumes "byte_at f 1 = HCAN_HES_TASTER_DOWN" and "byte_at f 2 \<in> set (c_toggle (config p))"
    and "byte_at f 2 \<notin> set (c_off (config p))" and "zstate p = LICHTZONE_STATE_OFF"
    and "unat (exton_taster_down_counter p) < 2" and "c_timer_delay (config p) \<noteq> 0"
    and "t = unat (timer_init (c_timer_delay (config p)))" and "0 < t"
  shows "let q = fst (lichtzone_can_callback self p f) in
    (\<forall>n. zstate ((second self ^^ n) q) = (if n < t then LICHTZONE_STATE_ON else LICHTZONE_STATE_OFF)) \<and>
    snd (lichtzone_timer_handler self ((second self ^^ (t - 1)) q) 1) =
      group_msgs self HCAN_HES_POWER_GROUP_OFF (c_action (config p))"
proof -
  define p1 where "p1 = p\<lparr>exton_sec_counter := (if exton_sec_counter p = 0 then 1 else exton_sec_counter p),
                exton_taster_down_counter := exton_taster_down_counter p + 1\<rparr>"
  have "unat (exton_taster_down_counter p1) < 3"
    using assms(5) by (simp add: p1_def unat_inc_u8)
  then have e: "\<not> exton_taster_down_counter p1 \<ge> 3" by (simp add: word_le_nat_alt)
  have c: "config p1 = config p" "zstate p1 = zstate p" by (simp_all add: p1_def)
  obtain q os where t: "toggle_loop self (byte_at f 2) (c_toggle (config p1)) p1 = ((q, os), False)"
    "config q = config p" "burning q"
    using toggle_loop_timer [OF e, of self "byte_at f 2" "c_toggle (config p1)"] assms(2,4,6) c by auto
  define r where "r = fst (lichtzone_can_callback self p f)"
  have "r = fst (on_loop self (byte_at f 2) (c_on (config p)) q)"
    using assms(1,3) t off_loop_other [of "byte_at f 2" "c_off (config p)" self q]
    unfolding r_def lichtzone_can_callback_def Let_def
    by (simp add: taster_down_def Let_def flip: p1_def)
  then have b: "burning r" "config r = config p"
    using on_loop_burning [OF t(3), of self "byte_at f 2" "c_on (config p)"] t(2) assms(6) by simp_all
  have tn: "unat (timer_counter r) = t" "timer_counter r \<noteq> 0"
    using b assms(7,8) by (auto simp: burning_def)
  have cd: "zstate ((second self ^^ n) r) = (if n < t then LICHTZONE_STATE_ON else LICHTZONE_STATE_OFF) \<and>
    unat (timer_counter ((second self ^^ n) r)) = t - n \<and> config ((second self ^^ n) r) = config p" for n
    using countdown [where p = r and self = self and n = n] b tn assms(6) by (simp add: burning_def)
  let ?l = "(second self ^^ (t - 1)) r"
  have l: "timer_counter ?l = 1" "config ?l = config p"
    using cd [of "t - 1"] assms(8) by (simp_all add: word_unat_eq_iff)
  have "snd (lichtzone_timer_handler self ?l 1) = group_msgs self HCAN_HES_POWER_GROUP_OFF (c_action (config p))"
    using l assms(6) by (simp add: lichtzone_timer_handler_def Let_def inform_frames)
  then show ?thesis using cd by (simp add: Let_def r_def)
qed

definition stairs :: lichtzone_config where
  "stairs = \<lparr>c_toggle = [10, 0, 0, 0], c_off = [250, 250], c_on = [251, 251], c_timer_delay = 3,
     c_action = [40, 255]\<rparr>"

definition dark :: device_data_lichtzone where
  "dark = \<lparr>config = stairs, zstate = LICHTZONE_STATE_OFF, timer_counter = 0,
     exton_taster_down_counter = 0, exton_sec_counter = 0\<rparr>"

definition press :: "u8 \<Rightarrow> canix_frame" where
  "press g = hes_message 9 35 [HCAN_HES_TASTER_DOWN, g]"

theorem staircase_light_witness:
  "zstate ((second 7 ^^ 179) (fst (lichtzone_can_callback 7 dark (press 10)))) = LICHTZONE_STATE_ON \<and>
   zstate ((second 7 ^^ 180) (fst (lichtzone_can_callback 7 dark (press 10)))) = LICHTZONE_STATE_OFF"
proof -
  have h: "byte_at (press 10) 1 = HCAN_HES_TASTER_DOWN" "byte_at (press 10) 2 \<in> set (c_toggle (config dark))"
    "byte_at (press 10) 2 \<notin> set (c_off (config dark))" "zstate dark = LICHTZONE_STATE_OFF"
    "unat (exton_taster_down_counter dark) < 2" "c_timer_delay (config dark) \<noteq> 0"
    "180 = unat (timer_init (c_timer_delay (config dark)))" "0 < (180 :: nat)"
    by (simp_all add: press_def dark_def stairs_def timer_init_def)
  show ?thesis
    using staircase_light [OF h, of 7] by (simp add: Let_def)
qed

text \<open>
  The extended light counts the presses of any button on the bus: two presses of
  buttons that do not concern the zone, followed within the counting time by one press of
  its own toggle button, put it into the extended state for four hours, whatever its state
  was, instead of toggling it.
\<close>

theorem extended_light_counts_foreign_presses:
  assumes "byte_at f1 1 = HCAN_HES_TASTER_DOWN" and "byte_at f2 1 = HCAN_HES_TASTER_DOWN"
    and "byte_at f3 1 = HCAN_HES_TASTER_DOWN"
    and "\<forall>g \<in> {byte_at f1 2, byte_at f2 2}. g \<notin> set (c_toggle (config p)) \<and>
           g \<notin> set (c_off (config p)) \<and> g \<notin> set (c_on (config p))"
    and "byte_at f3 2 \<in> set (c_toggle (config p))"
    and "exton_taster_down_counter p = 0" and "exton_sec_counter p = 0"
  shows "let q = fst (dev_run lichtzone_can_callback lichtzone_timer_handler p
                        [(self, Frame f1), (self, Frame f2), (self, Frame f3)]) in
    zstate q = LICHTZONE_STATE_ON_EXT \<and> timer_counter q = LICHTZONE_EXT_TIMERINIT"
proof -
  have other: "fst (lichtzone_can_callback self r f) = r\<lparr>exton_sec_counter :=
        (if exton_sec_counter r = 0 then 1 else exton_sec_counter r),
        exton_taster_down_counter := exton_taster_down_counter r + 1\<rparr>"
    if "byte_at f 1 = HCAN_HES_TASTER_DOWN" "byte_at f 2 \<notin> set (c_toggle (config r))"
      "byte_at f 2 \<notin> set (c_off (config r))" "byte_at f 2 \<notin> set (c_on (config r))" for r f
  proof -
    have "toggle_loop self g ts q = ((q, []), False)" if "g \<notin> set ts" for g ts q
      using that by (induction ts) auto
    then show ?thesis
      using that by (simp add: lichtzone_can_callback_def taster_down_def Let_def off_loop_other on_loop_other)
  qed
  define p2 where "p2 = p\<lparr>exton_sec_counter := 1, exton_taster_down_counter := 2\<rparr>"
  have r2: "fst (dev_run lichtzone_can_callback lichtzone_timer_handler p [(self, Frame f1), (self, Frame f2)]) = p2"
    using assms(1,2,4,6,7) by (simp add: other p2_def)
  define p3 where "p3 = p\<lparr>exton_sec_counter := 1, exton_taster_down_counter := 3\<rparr>"
  have loop: "g \<in> set ts \<Longrightarrow> \<exists>os. toggle_loop self g ts p3 =
      ((fst (inform_action_groups self (p3\<lparr>exton_sec_counter := 0, exton_taster_down_counter := 0,
                 zstate := LICHTZONE_STATE_ON_EXT, timer_counter := LICHTZONE_EXT_TIMERINIT\<rparr>)), os), True)" for g ts
  proof (induction ts)
    case (Cons t ts)
    then show ?case
      by (cases "g = t") (simp_all add: toggle_press_def p3_def, metis prod.collapse)
  qed simp
  obtain os where l: "toggle_loop self (byte_at f3 2) (c_toggle (config p)) p3 =
      ((fst (inform_action_groups self (p3\<lparr>exton_sec_counter := 0, exton_taster_down_counter := 0,
                 zstate := LICHTZONE_STATE_ON_EXT, timer_counter := LICHTZONE_EXT_TIMERINIT\<rparr>)), os), True)"
    using loop [OF assms(5)] by blast
  have "p2\<lparr>exton_sec_counter := (if exton_sec_counter p2 = 0 then 1 else exton_sec_counter p2),
      exton_taster_down_counter := exton_taster_down_counter p2 + 1\<rparr> = p3"
    by (simp add: p2_def p3_def)
  then have "fst (lichtzone_can_callback self p2 f3) =
      fst (inform_action_groups self (p3\<lparr>exton_sec_counter := 0, exton_taster_down_counter := 0,
                 zstate := LICHTZONE_STATE_ON_EXT, timer_counter := LICHTZONE_EXT_TIMERINIT\<rparr>))"
    using assms(3) l by (simp add: lichtzone_can_callback_def taster_down_def Let_def p3_def)
  moreover have "fst (dev_run lichtzone_can_callback lichtzone_timer_handler p
      [(self, Frame f1), (self, Frame f2), (self, Frame f3)]) = fst (lichtzone_can_callback self p2 f3)"
    using r2 by simp
  ultimately show ?thesis by (simp add: Let_def inform_timer)
qed

theorem extended_light_counts_foreign_presses_witness:
  "zstate (fst (dev_run lichtzone_can_callback lichtzone_timer_handler dark
     [(7, Frame (press 90)), (7, Frame (press 91)), (7, Frame (press 10))])) = LICHTZONE_STATE_ON_EXT"
proof -
  have h: "byte_at (press 90) 1 = HCAN_HES_TASTER_DOWN" "byte_at (press 91) 1 = HCAN_HES_TASTER_DOWN"
    "byte_at (press 10) 1 = HCAN_HES_TASTER_DOWN"
    "\<forall>g \<in> {byte_at (press 90) 2, byte_at (press 91) 2}. g \<notin> set (c_toggle (config dark)) \<and>
           g \<notin> set (c_off (config dark)) \<and> g \<notin> set (c_on (config dark))"
    "byte_at (press 10) 2 \<in> set (c_toggle (config dark))"
    "exton_taster_down_counter dark = 0" "exton_sec_counter dark = 0"
    by (simp_all add: press_def dark_def stairs_def)
  show ?thesis
    using extended_light_counts_foreign_presses [OF h, of 7] by (simp add: Let_def)
qed

end
