(* ===== verification/Powerport.thy ===== *)
theory Powerport
  imports Hes_Device
begin

text \<open>
  The switched output \<^verbatim>\<open>src/firmwares/controllerboard/devices/powerport.c\<close>: a
  relay that follows push buttons, switches and group commands, at once, with a delay, with an
  automatic switch-off or a run-on time, and the two alarm functions. The record extends the
  device's data by the output pins as \<^verbatim>\<open>darlingtonoutput_getpin\<close> reads them
  (\<open>Darlington\<close> relates them to the ports' registers).
\<close>

section \<open>State\<close>

record powerport_config =
  c_port :: u8
  c_feature :: u8
  c_gruppe0 :: u8
  c_gruppe1 :: u8
  c_gruppe2 :: u8
  c_timer :: u8
  c_mute :: u8

record device_data_powerport =
  config :: powerport_config
  mute :: bool
  countDownTimer :: u16
  bistableRelaisState :: bool
  pins :: "u8 \<Rightarrow> bool"

abbreviation (input) BISTABLE_RELAIS :: nat where "BISTABLE_RELAIS \<equiv> 0"
abbreviation (input) VERZOEGERT_EIN :: nat where "VERZOEGERT_EIN \<equiv> 1"
abbreviation (input) AUTO_AUS :: nat where "AUTO_AUS \<equiv> 2"
abbreviation (input) NACHLAUF :: nat where "NACHLAUF \<equiv> 3"
abbreviation (input) WECK_VERZOEGERT_EIN :: nat where "WECK_VERZOEGERT_EIN \<equiv> 4"
abbreviation (input) WECK_AUTO_AUS :: nat where "WECK_AUTO_AUS \<equiv> 5"

datatype flanke = FALLENDE_FLANKE | STEIGENDE_FLANKE

definition feature :: "device_data_powerport \<Rightarrow> nat \<Rightarrow> bool" where
  "feature p n = test_bit (c_feature (config p)) n"

definition clear_feature :: "nat \<Rightarrow> device_data_powerport \<Rightarrow> device_data_powerport" where
  "clear_feature n p =
     p\<lparr>config := (config p)\<lparr>c_feature := c_feature (config p) AND NOT (push_bit n 1)\<rparr>\<rparr>"

section \<open>Switching\<close>

definition powerport_init :: "device_data_powerport \<Rightarrow> device_data_powerport" where
  "powerport_init p = p\<lparr>mute := False, countDownTimer := 0\<rparr>"

definition powerport_timer_init :: "u8 \<Rightarrow> u16" where
  "powerport_timer_init t = (if t AND 0x80 \<noteq> 0 then ucast (t AND 0x7f) else ucast t * 60)"

definition powerport_setup_timer :: "device_data_powerport \<Rightarrow> device_data_powerport" where
  "powerport_setup_timer p = p\<lparr>countDownTimer := powerport_timer_init (c_timer (config p))\<rparr>"

definition setpin :: "bool \<Rightarrow> device_data_powerport \<Rightarrow> device_data_powerport \<times> out list" where
  "setpin b p = (p\<lparr>pins := (pins p)(c_port (config p) := b)\<rparr>, [SetPin (c_port (config p)) b])"

definition powerport_get :: "device_data_powerport \<Rightarrow> bool" where
  "powerport_get p =
     (if feature p BISTABLE_RELAIS then bistableRelaisState p else pins p (c_port (config p)))"

definition flag :: "bool \<Rightarrow> u8" where
  "flag b = (if b then 1 else 0)"

definition powerport_send_state_info :: "u16 \<Rightarrow> device_data_powerport \<Rightarrow> out" where
  "powerport_send_state_info self p =
     Send HCAN_PRIO_LOW (hes_message self HCAN_MULTICAST_INFO
       [HCAN_HES_POWER_GROUP_STATE_INFO, c_gruppe0 (config p), flag (powerport_get p)])"

definition powerport_on :: "u16 \<Rightarrow> device_data_powerport \<Rightarrow> device_data_powerport \<times> out list" where
  "powerport_on self p =
     andthen
       (if feature p BISTABLE_RELAIS
        then andthen (setpin True p)
               (\<lambda>p. andthen (p, [Sleep 8])
                 (\<lambda>p. andthen (setpin False p)
                   (\<lambda>p. (p\<lparr>bistableRelaisState := \<not> bistableRelaisState p\<rparr>, []))))
        else setpin True p)
       (\<lambda>p. (p, [powerport_send_state_info self p]))"

definition powerport_off :: "u16 \<Rightarrow> device_data_powerport \<Rightarrow> device_data_powerport \<times> out list" where
  "powerport_off self p = andthen (setpin False p) (\<lambda>p. (p, [powerport_send_state_info self p]))"

definition set_powerport_or_timer ::
  "u16 \<Rightarrow> device_data_powerport \<Rightarrow> flanke \<Rightarrow> device_data_powerport \<times> out list" where
  "set_powerport_or_timer self p fl =
     (case fl of
        STEIGENDE_FLANKE \<Rightarrow>
          if feature p AUTO_AUS
          then andthen (powerport_on self p) (\<lambda>p. (powerport_setup_timer p, []))
          else if feature p VERZOEGERT_EIN then (powerport_setup_timer p, [])
          else andthen (powerport_on self p) (\<lambda>p. (p\<lparr>countDownTimer := 0\<rparr>, []))
      | FALLENDE_FLANKE \<Rightarrow>
          if feature p NACHLAUF then (powerport_setup_timer p, [])
          else andthen (powerport_off self p) (\<lambda>p. (p\<lparr>countDownTimer := 0\<rparr>, [])))"

definition powerport_toggle :: "u16 \<Rightarrow> device_data_powerport \<Rightarrow> device_data_powerport \<times> out list" where
  "powerport_toggle self p =
     (if pins p (c_port (config p)) then set_powerport_or_timer self p FALLENDE_FLANKE
      else set_powerport_or_timer self p STEIGENDE_FLANKE)"

definition powerport_set :: "device_data_powerport \<Rightarrow> bool \<Rightarrow> device_data_powerport \<times> out list" where
  "powerport_set p b = setpin b p"

section \<open>The handlers\<close>

definition timer_expired :: "u16 \<Rightarrow> device_data_powerport \<Rightarrow> device_data_powerport \<times> out list" where
  "timer_expired self p =
     (if feature p WECK_VERZOEGERT_EIN
      then andthen (powerport_on self p)
             (\<lambda>p. (powerport_setup_timer (clear_feature WECK_VERZOEGERT_EIN p), []))
      else if feature p WECK_AUTO_AUS
      then andthen (powerport_off self p) (\<lambda>p. (clear_feature WECK_AUTO_AUS p, []))
      else if feature p VERZOEGERT_EIN then powerport_on self p
      else if feature p AUTO_AUS \<or> feature p NACHLAUF then powerport_off self p
      else (p, []))"

definition powerport_timer_handler ::
  "u16 \<Rightarrow> device_data_powerport \<Rightarrow> u8 \<Rightarrow> device_data_powerport \<times> out list" where
  "powerport_timer_handler self p zyklus =
     (if zyklus \<noteq> 1 then (p, [])
      else if countDownTimer p > 0
      then andthen (if countDownTimer p = 1 then timer_expired self p else (p, []))
             (\<lambda>p. (p\<lparr>countDownTimer := countDownTimer p - 1\<rparr>, []))
      else (p, []))"

definition is_in_group :: "device_data_powerport \<Rightarrow> u8 \<Rightarrow> bool" where
  "is_in_group p g \<longleftrightarrow> g \<noteq> 255 \<and>
     g \<in> set [c_gruppe0 (config p), c_gruppe1 (config p), c_gruppe2 (config p)]"

definition timer_minutes :: "device_data_powerport \<Rightarrow> u8" where
  "timer_minutes p = (if countDownTimer p \<noteq> 0 then ucast (countDownTimer p div 60 + 1) else 0)"

definition powerport_group_frame ::
  "u16 \<Rightarrow> device_data_powerport \<Rightarrow> canix_frame \<Rightarrow> device_data_powerport \<times> out list" where
  "powerport_group_frame self p f =
     (let cmd = byte_at f 1; g = byte_at f 2 in
      if cmd = HCAN_HES_TASTER_DOWN then
        (if \<not> mute p then powerport_toggle self p else (p, []))
      else if cmd = HCAN_HES_POWER_GROUP_ON \<or> cmd = HCAN_HES_SCHALTER_ON then
        (if \<not> mute p then set_powerport_or_timer self p STEIGENDE_FLANKE else (p, []))
      else if cmd = HCAN_HES_POWER_GROUP_OFF \<or> cmd = HCAN_HES_SCHALTER_OFF then
        (if \<not> mute p then set_powerport_or_timer self p FALLENDE_FLANKE else (p, []))
      else if cmd = HCAN_HES_POWER_GROUP_STATE_QUERY then
        (p, [send_hi (hes_answer self f [HCAN_HES_POWER_GROUP_STATE_REPLAY, g, flag (powerport_get p),
                timer_minutes p])])
      else if cmd = HCAN_HES_POWER_GROUP_CONFIG_RQ then
        (p, [send_hi (hes_answer self f [HCAN_HES_POWER_GROUP_CONFIG_REPLAY, g])])
      else if cmd = HCAN_HES_WECKER_SET then
        (if c_gruppe0 (config p) = g
         then (let p = p\<lparr>config := (config p)\<lparr>c_feature :=
                             c_feature (config p) OR push_bit (unat (byte_at f 3)) 1\<rparr>,
                         countDownTimer := mk16 (byte_at f 4) (byte_at f 5)\<rparr>
               in if feature p WECK_AUTO_AUS then powerport_on self p else (p, []))
         else (p, []))
      else if cmd = HCAN_HES_WECKER_DETAILS_REQUEST then
        (if c_gruppe0 (config p) = g
         then (p, [send_hi (hes_answer self f [HCAN_HES_WECKER_DETAILS, g, hi8 (countDownTimer p),
                     lo8 (countDownTimer p)])])
         else (p, []))
      else (p, []))"

definition powerport_other_frame ::
  "u16 \<Rightarrow> device_data_powerport \<Rightarrow> canix_frame \<Rightarrow> device_data_powerport \<times> out list" where
  "powerport_other_frame self p f =
     (let cmd = byte_at f 1; g0 = c_gruppe0 (config p) in
      if cmd = HCAN_HES_DEVICE_STATES_REQUEST then
        (if g0 \<noteq> 255
         then (p, [Sleep 10, send_hi (hes_answer self f [HCAN_HES_POWER_GROUP_STATE_REPLAY, g0,
                     flag (powerport_get p), timer_minutes p])])
         else (p, []))
      else if cmd = HCAN_HES_DEVICES_CONFIGS_REQUEST then
        (if g0 \<noteq> 255
         then (p, [Sleep 10, send_hi (hes_answer self f [HCAN_HES_POWER_GROUP_CONFIG_REPLAY, g0])])
         else (p, []))
      else (p, []))"

definition powerport_mute :: "device_data_powerport \<Rightarrow> canix_frame \<Rightarrow> device_data_powerport" where
  "powerport_mute p f =
     (if c_mute (config p) = byte_at f 2 then
        (if byte_at f 1 = HCAN_HES_MUTE_OFF then p\<lparr>mute := False\<rparr>
         else if byte_at f 1 = HCAN_HES_MUTE_ON then
           (let p = p\<lparr>mute := True\<rparr>
            in if feature p NACHLAUF \<and> countDownTimer p = 0 then powerport_setup_timer p else p)
         else p)
      else p)"

definition powerport_can_callback ::
  "u16 \<Rightarrow> device_data_powerport \<Rightarrow> canix_frame \<Rightarrow> device_data_powerport \<times> out list" where
  "powerport_can_callback self p f =
     andthen (if is_in_group p (byte_at f 2) then powerport_group_frame self p f
              else powerport_other_frame self p f)
       (\<lambda>p. (powerport_mute p f, []))"

section \<open>What the parts do\<close>

lemma feature_upd [simp]:
  "feature (p\<lparr>countDownTimer := t\<rparr>) n = feature p n" "feature (p\<lparr>mute := b\<rparr>) n = feature p n"
  "feature (p\<lparr>pins := q\<rparr>) n = feature p n" "feature (p\<lparr>bistableRelaisState := b\<rparr>) n = feature p n"
  by (simp_all add: feature_def)

lemma get_upd [simp]: "powerport_get (p\<lparr>countDownTimer := t\<rparr>) = powerport_get p"
  by (simp add: powerport_get_def)

lemma powerport_on_sel [simp]:
  "config (fst (powerport_on self p)) = config p"
  "countDownTimer (fst (powerport_on self p)) = countDownTimer p"
  "mute (fst (powerport_on self p)) = mute p"
  "pins (fst (powerport_on self p)) =
     (pins p)(c_port (config p) := \<not> feature p BISTABLE_RELAIS)"
  "bistableRelaisState (fst (powerport_on self p)) =
     (bistableRelaisState p \<noteq> feature p BISTABLE_RELAIS)"
  by (auto simp: powerport_on_def setpin_def fun_upd_def)

lemma powerport_off_sel [simp]:
  "config (fst (powerport_off self p)) = config p"
  "countDownTimer (fst (powerport_off self p)) = countDownTimer p"
  "mute (fst (powerport_off self p)) = mute p"
  "pins (fst (powerport_off self p)) = (pins p)(c_port (config p) := False)"
  "bistableRelaisState (fst (powerport_off self p)) = bistableRelaisState p"
  by (simp_all add: powerport_off_def setpin_def)

lemma feature_cong: "config p' = config p \<Longrightarrow> feature p' n = feature p n"
  by (simp add: feature_def)

lemma feature_on_off [simp]:
  "feature (fst (powerport_on self p)) n = feature p n" "feature (fst (powerport_off self p)) n = feature p n"
  by (rule feature_cong, simp)+

lemma setup_timer_sel [simp]:
  "config (powerport_setup_timer p) = config p" "pins (powerport_setup_timer p) = pins p"
  "countDownTimer (powerport_setup_timer p) = powerport_timer_init (c_timer (config p))"
  "mute (powerport_setup_timer p) = mute p"
  by (simp_all add: powerport_setup_timer_def)

lemma clear_feature_sel [simp]:
  "pins (clear_feature n p) = pins p" "mute (clear_feature n p) = mute p"
  "c_timer (config (clear_feature n p)) = c_timer (config p)"
  "c_port (config (clear_feature n p)) = c_port (config p)"
  "countDownTimer (clear_feature n p) = countDownTimer p"
  by (simp_all add: clear_feature_def)

lemma feature_clear: "feature (clear_feature k p) n = (n \<noteq> k \<and> feature p n)"
  by (auto simp: feature_def clear_feature_def test_bit_def bit_simps dest: bit_imp_le_length)

section \<open>A port is an echo-free device\<close>

definition powerport_says :: "u8 \<Rightarrow> bool" where
  "powerport_says cmd \<longleftrightarrow> cmd = HCAN_HES_POWER_GROUP_STATE_INFO \<or>
     cmd = HCAN_HES_POWER_GROUP_STATE_REPLAY \<or> cmd = HCAN_HES_POWER_GROUP_CONFIG_REPLAY \<or>
     cmd = HCAN_HES_WECKER_DETAILS"

lemma on_off_says [simp]:
  "says powerport_says (snd (powerport_on self p))" "says powerport_says (snd (powerport_off self p))"
  by (simp_all add: powerport_on_def powerport_off_def setpin_def powerport_send_state_info_def
      powerport_says_def)

lemma set_says [simp]: "says powerport_says (snd (set_powerport_or_timer self p fl))"
  by (simp add: set_powerport_or_timer_def split: flanke.splits)

lemma callback_says: "says powerport_says (snd (powerport_can_callback self p f))"
proof -
  have "says powerport_says (snd (powerport_group_frame self p f))"
    unfolding powerport_group_frame_def Let_def
    by (simp add: powerport_toggle_def hes_answer_def powerport_says_def)
  moreover have "says powerport_says (snd (powerport_other_frame self p f))"
    unfolding powerport_other_frame_def Let_def by (simp add: hes_answer_def powerport_says_def)
  ultimately show ?thesis by (simp add: powerport_can_callback_def)
qed

lemma timer_says: "says powerport_says (snd (powerport_timer_handler self p z))"
  by (simp add: powerport_timer_handler_def timer_expired_def)

lemma powerport_says_ignored:
  "powerport_says (byte_at fr 1) \<Longrightarrow> powerport_can_callback self p fr = (p, [])"
  unfolding powerport_says_def powerport_can_callback_def powerport_group_frame_def
    powerport_other_frame_def powerport_mute_def Let_def
  by (elim disjE) simp_all

text \<open>
  The environment is the own address. The invariant of the record \<open>pins\<close> is the frame
  property: a port touches no pin but its own, so it holds the others at any given values.
\<close>

lemma setpin_sel [simp]:
  "config (fst (setpin b p)) = config p" "pins (fst (setpin b p)) = (pins p)(c_port (config p) := b)"
  by (simp_all add: setpin_def)

lemma set_sel [simp]:
  "config (fst (set_powerport_or_timer self p fl)) = config p"
  "n \<noteq> c_port (config p) \<Longrightarrow> pins (fst (set_powerport_or_timer self p fl)) n = pins p n"
  by (simp_all add: set_powerport_or_timer_def split: flanke.splits)

definition keeps_others :: "u8 \<Rightarrow> (u8 \<Rightarrow> bool) \<Rightarrow> device_data_powerport \<Rightarrow> bool" where
  "keeps_others k ps p \<longleftrightarrow> c_port (config p) = k \<and> (\<forall>n. n \<noteq> k \<longrightarrow> pins p n = ps n)"

lemma callback_keeps_others:
  "keeps_others k ps p \<Longrightarrow> keeps_others k ps (fst (powerport_can_callback self p f))"
proof -
  assume p: "keeps_others k ps p"
  have "keeps_others k ps (fst (powerport_group_frame self p f))"
    using p unfolding powerport_group_frame_def Let_def
    by (auto simp: keeps_others_def powerport_toggle_def)
  moreover have "keeps_others k ps (fst (powerport_other_frame self p f))"
    using p by (simp add: powerport_other_frame_def Let_def)
  moreover have "keeps_others k ps (powerport_mute q f)" if "keeps_others k ps q" for q
    using that by (auto simp: powerport_mute_def keeps_others_def Let_def)
  ultimately show ?thesis by (simp add: powerport_can_callback_def)
qed

lemma timer_keeps_others:
  "keeps_others k ps p \<Longrightarrow> keeps_others k ps (fst (powerport_timer_handler self p z))"
  unfolding powerport_timer_handler_def timer_expired_def by (auto simp: keeps_others_def)

interpretation powerport_dev: echo_free_device "\<lambda>_. True" "keeps_others k ps"
  powerport_can_callback powerport_timer_handler for k ps
  by (rule echo_free_deviceI [where P = powerport_says])
    (simp_all add: callback_keeps_others timer_keeps_others callback_says timer_says
      powerport_says_ignored)

section \<open>The course of the timer\<close>

abbreviation pp_second :: "u16 \<Rightarrow> device_data_powerport \<Rightarrow> device_data_powerport" where
  "pp_second self p \<equiv> fst (powerport_timer_handler self p 1)"

abbreviation own_pin :: "device_data_powerport \<Rightarrow> bool" where
  "own_pin p \<equiv> pins p (c_port (config p))"

text \<open>A port with an ordinary relay and no alarm pending.\<close>

definition plain_port :: "powerport_config \<Rightarrow> device_data_powerport \<Rightarrow> bool" where
  "plain_port c p \<longleftrightarrow> config p = c \<and> \<not> feature p BISTABLE_RELAIS \<and>
     \<not> feature p WECK_VERZOEGERT_EIN \<and> \<not> feature p WECK_AUTO_AUS"

text \<open>What the end of the time does to the own pin.\<close>

definition after_time :: "device_data_powerport \<Rightarrow> bool" where
  "after_time p \<longleftrightarrow> feature p VERZOEGERT_EIN \<or>
     (\<not> feature p AUTO_AUS \<and> \<not> feature p NACHLAUF \<and> own_pin p)"

lemma expired_sel:
  assumes "plain_port c p"
  shows "config (fst (timer_expired self p)) = c" "own_pin (fst (timer_expired self p)) = after_time p"
    "countDownTimer (fst (timer_expired self p)) = countDownTimer p"
  using assms by (simp_all add: timer_expired_def plain_port_def after_time_def)

lemma pp_second_sel:
  assumes "plain_port c p"
  shows "plain_port c (pp_second self p)"
    "unat (countDownTimer (pp_second self p)) = unat (countDownTimer p) - 1"
    "own_pin (pp_second self p) = (if countDownTimer p = 1 then after_time p else own_pin p)"
proof -
  have c: "config (pp_second self p) = c"
    using assms expired_sel(1) [OF assms] by (simp add: powerport_timer_handler_def plain_port_def)
  then show "plain_port c (pp_second self p)"
    using assms by (auto simp: plain_port_def feature_def)
  show "unat (countDownTimer (pp_second self p)) = unat (countDownTimer p) - 1"
    using expired_sel(3) [OF assms] unat_dec [of "countDownTimer p"]
    by (auto simp: powerport_timer_handler_def word_gt_0)
  show "own_pin (pp_second self p) = (if countDownTimer p = 1 then after_time p else own_pin p)"
    using expired_sel(2) [OF assms] by (simp add: powerport_timer_handler_def)
qed

lemma after_time_cong:
  "config q = config p \<Longrightarrow> own_pin q = own_pin p \<Longrightarrow> after_time q = after_time p"
  by (simp add: after_time_def feature_def)

lemma pp_countdown:
  assumes "plain_port c p"
  shows "plain_port c ((pp_second self ^^ n) p) \<and>
    unat (countDownTimer ((pp_second self ^^ n) p)) = unat (countDownTimer p) - n \<and>
    own_pin ((pp_second self ^^ n) p) =
      (if 0 < unat (countDownTimer p) \<and> unat (countDownTimer p) \<le> n then after_time p else own_pin p)"
proof (induction n)
  case 0
  then show ?case using assms by auto
next
  case (Suc n)
  let ?q = "(pp_second self ^^ n) p"
  have q: "plain_port c ?q" and t: "unat (countDownTimer ?q) = unat (countDownTimer p) - n"
    and o: "own_pin ?q = (if 0 < unat (countDownTimer p) \<and> unat (countDownTimer p) \<le> n
        then after_time p else own_pin p)"
    using Suc.IH by blast+
  have one: "countDownTimer ?q = 1 \<longleftrightarrow> unat (countDownTimer p) = Suc n"
  proof -
    have "countDownTimer ?q = 1 \<longleftrightarrow> unat (countDownTimer ?q) = 1"
      by (metis unat_1 word_unat_eq_iff)
    then show ?thesis using t by linarith
  qed
  have e: "after_time ?q = after_time p" if "unat (countDownTimer p) = Suc n"
    using that o q assms by (intro after_time_cong) (simp_all add: plain_port_def)
  note s = pp_second_sel [OF q, of self]
  have "own_pin (pp_second self ?q) = (if 0 < unat (countDownTimer p) \<and> unat (countDownTimer p) \<le> Suc n
        then after_time p else own_pin p)"
    using s(3) one e o by auto
  then show ?case using s(1,2) t by simp
qed

section \<open>Properties\<close>

text \<open>
  Property C30. An order to switch on, over all combinations of the delay features: with
  automatic switch-off (and no switch-on delay) the port is on for exactly the configured time
  and off from then on; with the delay alone it keeps its state for the configured time and is
  on from then on; without either it goes on and stays on. With both features the delay wins
  when the time ends, so that the port is never switched off. A time of zero never ends. The port is neither muted nor
  a bistable relay, and has none of the features for waking up.
\<close>

theorem powerport_switch_on_course:
  assumes "byte_at f 1 = HCAN_HES_POWER_GROUP_ON \<or> byte_at f 1 = HCAN_HES_SCHALTER_ON"
    and "is_in_group p (byte_at f 2)" and "\<not> mute p" and "plain_port (config p) p"
    and "t = unat (powerport_timer_init (c_timer (config p)))"
  shows "own_pin ((pp_second self ^^ n) (fst (powerport_can_callback self p f))) =
    (if feature p AUTO_AUS then feature p VERZOEGERT_EIN \<or> t = 0 \<or> n < t
     else feature p VERZOEGERT_EIN \<longrightarrow> 0 < t \<and> t \<le> n \<or> own_pin p)"
proof -
  let ?q = "fst (powerport_can_callback self p f)"
  have "?q = fst (powerport_group_frame self p f)"
    using assms(1,2) by (auto simp: powerport_can_callback_def powerport_mute_def)
  also have "\<dots> = fst (set_powerport_or_timer self p STEIGENDE_FLANKE)"
    using assms(1,3) by (auto simp: powerport_group_frame_def Let_def)
  finally have q: "?q = fst (set_powerport_or_timer self p STEIGENDE_FLANKE)" .
  then have c: "config ?q = config p" by simp
  then have "plain_port (config p) ?q" using assms(4) by (simp add: plain_port_def feature_def)
  note cd = pp_countdown [OF this, where self = self and n = n]
  have on: "own_pin ?q = (feature p AUTO_AUS \<or> \<not> feature p VERZOEGERT_EIN \<or> own_pin p)"
    "unat (countDownTimer ?q) = (if feature p AUTO_AUS \<or> feature p VERZOEGERT_EIN then t else 0)"
    using assms(4,5) unfolding q by (simp_all add: set_powerport_or_timer_def plain_port_def)
  have "after_time ?q = (feature p VERZOEGERT_EIN \<or>
      (\<not> feature p AUTO_AUS \<and> \<not> feature p NACHLAUF \<and> own_pin ?q))"
    using c by (simp add: after_time_def feature_def)
  then show ?thesis using cd on by auto
qed

definition outlet :: device_data_powerport where
  "outlet = \<lparr>config = \<lparr>c_port = 3, c_feature = 4, c_gruppe0 = 20, c_gruppe1 = 255, c_gruppe2 = 255,
       c_timer = 0x85, c_mute = 255\<rparr>,
     mute = False, countDownTimer = 0, bistableRelaisState = False, pins = (\<lambda>_. False)\<rparr>"

definition power_on_frame :: "u8 \<Rightarrow> canix_frame" where
  "power_on_frame g = hes_message 9 35 [HCAN_HES_POWER_GROUP_ON, g]"

theorem powerport_switch_on_course_witness:
  "own_pin ((pp_second 7 ^^ 4) (fst (powerport_can_callback 7 outlet (power_on_frame 20)))) \<and>
   \<not> own_pin ((pp_second 7 ^^ 5) (fst (powerport_can_callback 7 outlet (power_on_frame 20))))"
proof -
  have h: "byte_at (power_on_frame 20) 1 = HCAN_HES_POWER_GROUP_ON \<or> byte_at (power_on_frame 20) 1 = HCAN_HES_SCHALTER_ON"
    "is_in_group outlet (byte_at (power_on_frame 20) 2)" "\<not> mute outlet" "plain_port (config outlet) outlet"
    "5 = unat (powerport_timer_init (c_timer (config outlet)))"
    by (simp_all add: power_on_frame_def outlet_def is_in_group_def plain_port_def feature_def test_bit_def
        powerport_timer_init_def)
  show ?thesis
    using powerport_switch_on_course [where self = 7 and n = 4, OF h]
      powerport_switch_on_course [where self = 7 and n = 5, OF h]
    by (simp add: feature_def test_bit_def) (simp add: outlet_def)
qed

text \<open>
  The alarm with switch-on and no configured time: when the alarm's time ends,
  the port goes on, the alarm is cleared and the timer is loaded with the configured time,
  which the same second then decrements. With a configured time of zero the counter wraps, and
  an alarm that should switch the port on for good (or until somebody switches it off) leaves
  a count of 65535 seconds; on a port with automatic switch-off it switches it off 18 hours
  later.
\<close>

theorem alarm_wraps_empty_timer:
  assumes "feature p WECK_VERZOEGERT_EIN" and "countDownTimer p = 1" and "c_timer (config p) = 0"
    and "\<not> feature p BISTABLE_RELAIS"
  shows "own_pin (pp_second self p) \<and> \<not> feature (pp_second self p) WECK_VERZOEGERT_EIN \<and>
    countDownTimer (pp_second self p) = 65535 \<and>
    (feature p AUTO_AUS \<and> \<not> feature p VERZOEGERT_EIN \<and> \<not> feature p WECK_AUTO_AUS \<longrightarrow>
      \<not> own_pin ((pp_second self ^^ 65536) p))"
proof -
  let ?q = "pp_second self p"
  have t: "powerport_timer_init 0 = 0" by (simp add: powerport_timer_init_def)
  have q: "own_pin ?q" "countDownTimer ?q = 65535"
    "config ?q = config (clear_feature WECK_VERZOEGERT_EIN p)"
    using assms by (simp_all add: powerport_timer_handler_def timer_expired_def t)
      (simp add: clear_feature_def)
  have f: "feature ?q n = (n \<noteq> WECK_VERZOEGERT_EIN \<and> feature p n)" for n
    using feature_clear [of 4 p n] feature_cong [OF q(3), of n] by simp
  have "\<not> own_pin ((pp_second self ^^ 65536) p)"
    if a: "feature p AUTO_AUS" "\<not> feature p VERZOEGERT_EIN" "\<not> feature p WECK_AUTO_AUS"
  proof -
    have "plain_port (config ?q) ?q" using a f assms(4) by (simp add: plain_port_def)
    from pp_countdown [OF this, where self = self and n = 65535]
    have "own_pin ((pp_second self ^^ 65535) ?q) = after_time ?q" using q(2) by simp
    moreover have "\<not> after_time ?q" using a f by (simp add: after_time_def)
    moreover have "(pp_second self ^^ 65536) p = (pp_second self ^^ 65535) ?q"
      using funpow_Suc_right [of 65535 "pp_second self"] by (simp del: funpow.simps)
    ultimately show ?thesis by simp
  qed
  then show ?thesis using q f by blast
qed

theorem alarm_wraps_empty_timer_witness:
  "let p = outlet\<lparr>config := (config outlet)\<lparr>c_feature := 0x14, c_timer := 0\<rparr>, countDownTimer := 1\<rparr> in
   own_pin (pp_second 7 p) \<and> \<not> own_pin ((pp_second 7 ^^ 65536) p)"
proof -
  define p where "p = outlet\<lparr>config := (config outlet)\<lparr>c_feature := 0x14, c_timer := 0\<rparr>, countDownTimer := 1\<rparr>"
  have f: "feature p n = (n = 2 \<or> n = 4)" if "n \<in> {0, 1, 2, 4, 5}" for n
    using that by (auto simp: p_def feature_def test_bit_def)
  show ?thesis
    using alarm_wraps_empty_timer [where p = p and self = 7] f
    by (simp add: Let_def flip: p_def) (simp add: p_def)
qed

end
