(* ===== verification/Zeitzone.thy ===== *)
theory Zeitzone
  imports Hes_Device Canix_Rtc Canix_Eds
begin

text \<open>
  The time zones of the day, \<^verbatim>\<open>src/firmwares/controllerboard/devices/zeitzone.c\<close>: a
  daily interval with a pattern of weekdays, which other devices look up by its group, and the
  remote change of the interval, which is written through to the EEPROM block the zone was
  loaded from. The block's layout is that of \<^verbatim>\<open>src/xml/eds.xml\<close>.
\<close>

section \<open>State\<close>

record eds_zeitzone_block =
  zz_gruppe :: u8
  day_pattern :: u8
  from_hour :: u8
  from_minute :: u8
  to_hour :: u8
  to_minute :: u8

record device_data_zeitzone =
  zz_config :: eds_zeitzone_block
  zz_it :: nat

abbreviation (input) EDS_zeitzone_BLOCK_ID :: u8 where "EDS_zeitzone_BLOCK_ID \<equiv> 18"

text \<open>
  What the handlers of a board's devices read besides their own data: the own address, the
  clock, the zones among \<^verbatim>\<open>pdevice_data\<close> in their order, the EEPROM.
\<close>

record board_env =
  self_addr :: u16
  board_clock :: canix_rtc_clock
  zonen :: "device_data_zeitzone list"
  eep :: eeprom

section \<open>Operations\<close>

definition zeitzone_init :: "nat \<Rightarrow> device_data_zeitzone \<Rightarrow> device_data_zeitzone" where
  "zeitzone_init it p = p\<lparr>zz_it := it\<rparr>"

fun zeitzone_matches_loop :: "canix_rtc_clock \<Rightarrow> device_data_zeitzone list \<Rightarrow> u8 \<Rightarrow> bool" where
  "zeitzone_matches_loop c [] zid = False"
| "zeitzone_matches_loop c (p # ps) zid =
     (if zz_gruppe (zz_config p) = zid
      then time_matches c (from_hour (zz_config p)) (from_minute (zz_config p))
             (to_hour (zz_config p)) (to_minute (zz_config p)) (day_pattern (zz_config p))
      else zeitzone_matches_loop c ps zid)"

definition zeitzone_matches :: "board_env \<Rightarrow> u8 \<Rightarrow> bool" where
  "zeitzone_matches e zid = zeitzone_matches_loop (board_clock e) (zonen e) zid"

definition zeitzone_write_details ::
  "device_data_zeitzone \<Rightarrow> canix_frame \<Rightarrow> device_data_zeitzone \<times> out list" where
  "zeitzone_write_details p f =
     (let it = zz_it p in
      (p\<lparr>zz_config := (zz_config p)\<lparr>day_pattern := byte_at f 3, from_hour := byte_at f 4,
           from_minute := byte_at f 5, to_hour := byte_at f 6, to_minute := byte_at f 7\<rparr>\<rparr>,
       [EepromWrite (it + 3) (byte_at f 3), EepromWrite (it + 4) (byte_at f 4),
        EepromWrite (it + 5) (byte_at f 5), EepromWrite (it + 6) (byte_at f 6),
        EepromWrite (it + 7) (byte_at f 7)]))"

definition zeitzone_can_callback ::
  "board_env \<Rightarrow> device_data_zeitzone \<Rightarrow> canix_frame \<Rightarrow> device_data_zeitzone \<times> out list" where
  "zeitzone_can_callback e p f =
     (let cmd = byte_at f 1; g = zz_gruppe (zz_config p); c = zz_config p in
      if cmd = HCAN_HES_ZEITZONE_DETAILS_REQUEST then
        (if byte_at f 2 = g
         then (p, [send_low (hes_answer (self_addr e) f [HCAN_HES_ZEITZONE_DETAILS_REPLAY, g,
                     day_pattern c, from_hour c, from_minute c, to_hour c, to_minute c])])
         else (p, []))
      else if cmd = HCAN_HES_ZEITZONE_WRITE_DETAILS then
        (if byte_at f 2 = g
         then (if zz_it p \<noteq> 0 \<and> EDS_BLOCK_TYPE (eep e) (zz_it p) = EDS_zeitzone_BLOCK_ID
               then andthen (zeitzone_write_details p f)
                 (\<lambda>p. (p, [send_low (hes_answer (self_addr e) f
                    [HCAN_HES_ZEITZONE_WRITE_DETAILS_ACK, g])]))
               else (p, []))
         else (p, []))
      else if cmd = HCAN_HES_ZEITZONE_TEST_MATCH_REQUERST then
        (if byte_at f 2 = g
         then (p, [send_low (hes_answer (self_addr e) f [HCAN_HES_ZEITZONE_TEST_MATCH_REPLAY, g,
                     if zeitzone_matches e g then 1 else 0])])
         else (p, []))
      else (p, []))"

definition zeitzone_timer_handler ::
  "board_env \<Rightarrow> device_data_zeitzone \<Rightarrow> u8 \<Rightarrow> device_data_zeitzone \<times> out list" where
  "zeitzone_timer_handler e p zyklus = (p, [])"

section \<open>Writes inside a block of the EEPROM\<close>

text \<open>
  What a device may write: payload bytes of the block it was loaded from, at offsets below
  \<open>n\<close>. Such writes change neither the block structure nor any other block.
\<close>

definition writes_within :: "nat \<Rightarrow> nat \<Rightarrow> out list \<Rightarrow> bool" where
  "writes_within it n os \<longleftrightarrow> (\<forall>a b. EepromWrite a b \<in> set os \<longrightarrow> it + 2 \<le> a \<and> a < it + 2 + n)"

lemma writes_within_simps [simp]:
  "writes_within it n []" "writes_within it n (xs @ ys) \<longleftrightarrow> writes_within it n xs \<and> writes_within it n ys"
  "writes_within it n (EepromWrite a b # os) \<longleftrightarrow> it + 2 \<le> a \<and> a < it + 2 + n \<and> writes_within it n os"
  "writes_within it n (SetPin k v # os) = writes_within it n os"
  "writes_within it n (Sleep k # os) = writes_within it n os"
  "writes_within it n (Send pr f # os) = writes_within it n os"
  "writes_within it n (send_low f # os) = writes_within it n os"
  "writes_within it n (send_hi f # os) = writes_within it n os"
  by (auto simp: writes_within_def send_low_def send_hi_def)

lemma writes_within_elsewhere:
  "writes_within it n os \<Longrightarrow> \<not> (it + 2 \<le> a \<and> a < it + 2 + n) \<Longrightarrow> apply_eeprom m os a = m a"
proof (induction os arbitrary: m)
  case (Cons x os)
  then show ?case by (cases x) auto
qed simp

text \<open>On the chain such a change is invisible but for the payload of that one block.\<close>

lemma tiles_payload_change:
  assumes "tiles m p bs q" and "(it, t, s) \<in> set bs"
    and "\<And>a. \<not> (it + 2 \<le> a \<and> a < it + 2 + s) \<Longrightarrow> m' a = m a"
  shows "tiles m' p bs q"
  using assms
proof (induction m p bs q rule: tiles.induct)
  case (2 m p a t0 s0 bs q)
  have t2: "tiles m (p + 2 + s0) bs q" and h: "a = p" "m p = t0" "unat (m (p + 1)) = s0"
    using 2(2) by auto
  show ?case
  proof (cases "(it, t, s) \<in> set bs")
    case True
    have "p + 2 + s0 \<le> it" using tiles_bounds [OF t2 True] by simp
    then have "m' p = m p" "m' (p + 1) = m (p + 1)" using 2(4) by auto
    then show ?thesis using h 2(1) [OF t2 True] 2(4) by simp
  next
    case False
    then have i: "it = p" "s = s0" using 2(3) h by auto
    have "m' x = m x" if "p + 2 + s0 \<le> x" for x using that i 2(4) by auto
    then have "tiles m' (p + 2 + s0) bs q" using t2 by (intro tiles_cong [OF _ t2]) auto
    moreover have "m' p = m p" "m' (p + 1) = m (p + 1)" using i 2(4) by auto
    ultimately show ?thesis using h by simp
  qed
qed simp

lemma payload_change:
  assumes wf: "eds_wf c m" and b: "(it, t, s) \<in> set (eds_blocks c m)" and w: "writes_within it s os"
  shows "eds_wf c (apply_eeprom m os)" "eds_blocks c (apply_eeprom m os) = eds_blocks c m"
proof -
  let ?m = "apply_eeprom m os"
  have e: "\<not> (it + 2 \<le> a \<and> a < it + 2 + s) \<Longrightarrow> ?m a = m a" for a
    by (rule writes_within_elsewhere [OF w])
  have ch: "chain c m EDS_DATA_START (eds_blocks c m) (EDS_END c + 1)" by (rule wf_chain [OF wf])
  then have t: "tiles m EDS_DATA_START (eds_blocks c m) (EDS_END c + 1)" by (simp add: chain_def)
  have ch': "chain c ?m EDS_DATA_START (eds_blocks c m) (EDS_END c + 1)"
    using tiles_payload_change [OF t b e] ch by (simp add: chain_def)
  then show bl: "eds_blocks c ?m = eds_blocks c m" by (rule chain_blocks)
  have "EDS_DATA_START \<le> it" using tiles_bounds [OF t b] by blast
  then have "?m EDS_START = m EDS_START" "?m (EDS_START + 1) = m (EDS_START + 1)" by (auto intro!: e)
  then show "eds_wf c ?m" using wf bl ch' by (simp add: eds_wf_def chain_def)
qed

section \<open>A zone is an echo-free device\<close>

definition zeitzone_says :: "u8 \<Rightarrow> bool" where
  "zeitzone_says cmd \<longleftrightarrow> cmd = HCAN_HES_ZEITZONE_DETAILS_REPLAY \<or>
     cmd = HCAN_HES_ZEITZONE_WRITE_DETAILS_ACK \<or> cmd = HCAN_HES_ZEITZONE_TEST_MATCH_REPLAY"

lemma zeitzone_callback_says: "says zeitzone_says (snd (zeitzone_can_callback e p f))"
  by (simp add: zeitzone_can_callback_def zeitzone_write_details_def zeitzone_says_def hes_answer_def Let_def)

lemma zeitzone_ignores: "zeitzone_says (byte_at fr 1) \<Longrightarrow> zeitzone_can_callback e p fr = (p, [])"
  unfolding zeitzone_says_def zeitzone_can_callback_def Let_def by (elim disjE) simp_all

definition zone_of :: "u8 \<Rightarrow> nat \<Rightarrow> device_data_zeitzone \<Rightarrow> bool" where
  "zone_of g it p \<longleftrightarrow> zz_gruppe (zz_config p) = g \<and> zz_it p = it"

interpretation zeitzone_dev: echo_free_device "\<lambda>_. True" "zone_of g it"
  zeitzone_can_callback zeitzone_timer_handler for g it
proof (rule echo_free_deviceI [where P = zeitzone_says])
  show "zone_of g it (fst (zeitzone_can_callback e p f))" if "zone_of g it p" for e p f
    using that by (simp add: zone_of_def zeitzone_can_callback_def zeitzone_write_details_def Let_def)
qed (simp_all add: zeitzone_callback_says zeitzone_ignores zeitzone_timer_handler_def)

section \<open>Properties\<close>

text \<open>A block of a given type that the EEPROM data system has just handed out.\<close>

lemma fresh_block:
  fixes t n :: u8
  assumes "t \<noteq> 0" and "unat n \<le> 100"
  obtains it m where "eds_wf ATmega32 m" "(it, t, unat n) \<in> set (eds_blocks ATmega32 m)"
proof -
  have "alloc_typed ATmega32 fresh_eeprom t n \<noteq> None"
    using assms(2) by (simp add: alloc_typed_None)
  then obtain it m where a: "alloc_typed ATmega32 fresh_eeprom t n = Some (it, m)" by auto
  obtain bs where "length bs = unat n" "(it, t, bs) \<in> set (eds_used ATmega32 m)"
    using eds_store.alloc_block [OF fresh_eeprom_facts(1) assms(1) a] by blast
  then obtain k where "(it, t, k) \<in> set (eds_blocks ATmega32 m)" "length (map m [it + 2..<it + 2 + k]) = unat n"
    by (auto simp: eds_used_def used_of_def)
  then have "(it, t, unat n) \<in> set (eds_blocks ATmega32 m)"
    by (simp only: length_map length_upt add_diff_cancel_left')
  then show thesis using that eds_store.alloc_inv [OF fresh_eeprom_facts(1) assms(1) a] by blast
qed

text \<open>\<^verbatim>\<open>eeprom_read_block\<close> of the loader: the configuration as it is in the block.\<close>

definition load_zeitzone :: "eeprom \<Rightarrow> nat \<Rightarrow> eds_zeitzone_block" where
  "load_zeitzone m it = \<lparr>zz_gruppe = m (it + 2), day_pattern = m (it + 3), from_hour = m (it + 4),
     from_minute = m (it + 5), to_hour = m (it + 6), to_minute = m (it + 7)\<rparr>"

text \<open>
  Property C31. The remote change of a time zone is persistent and harmless: the interval in
  RAM and the one a reload reads from the EEPROM are both the one of the frame, lookups of
  the zone's group follow it from then on, and the EEPROM data area keeps its blocks
  (addresses, types and sizes) and stays well-formed.
\<close>

theorem zone_change_survives_reload:
  assumes "byte_at f 1 = HCAN_HES_ZEITZONE_WRITE_DETAILS" and "byte_at f 2 = zz_gruppe (zz_config p)"
    and "zz_config p = load_zeitzone (eep e) (zz_it p)"
    and "eds_wf c (eep e)" and "(zz_it p, EDS_zeitzone_BLOCK_ID, 6) \<in> set (eds_blocks c (eep e))"
  shows "let r = zeitzone_can_callback e p f; m = apply_eeprom (eep e) (snd r); q = fst r in
    zz_config q = \<lparr>zz_gruppe = byte_at f 2, day_pattern = byte_at f 3, from_hour = byte_at f 4,
      from_minute = byte_at f 5, to_hour = byte_at f 6, to_minute = byte_at f 7\<rparr> \<and>
    load_zeitzone m (zz_it p) = zz_config q \<and>
    zeitzone_matches (e\<lparr>zonen := q # zs, eep := m\<rparr>) (byte_at f 2) =
      time_matches (board_clock e) (byte_at f 4) (byte_at f 5) (byte_at f 6) (byte_at f 7) (byte_at f 3) \<and>
    eds_wf c m \<and> eds_blocks c m = eds_blocks c (eep e)"
proof -
  let ?it = "zz_it p"
  have "tiles (eep e) EDS_DATA_START (eds_blocks c (eep e)) (EDS_END c + 1)"
    using assms(4) by (simp add: eds_wf_def)
  from tiles_bounds [OF this assms(5)]
  have it: "?it \<noteq> 0" "eep e ?it = EDS_zeitzone_BLOCK_ID" by auto
  obtain q os where r: "zeitzone_can_callback e p f = (q, os)" by fastforce
  define a where "a = hes_answer (self_addr e) f [HCAN_HES_ZEITZONE_WRITE_DETAILS_ACK, zz_gruppe (zz_config p)]"
  have w: "os = snd (zeitzone_write_details p f) @ [send_low a]" "q = fst (zeitzone_write_details p f)"
    using r assms(1,2) it unfolding zeitzone_can_callback_def Let_def a_def
    by (auto simp: EDS_BLOCK_TYPE_def andthen_def Let_def)
  have "writes_within ?it 6 os" unfolding w(1) by (simp add: zeitzone_write_details_def Let_def)
  from payload_change [OF assms(4,5) this]
  have wf: "eds_wf c (apply_eeprom (eep e) os)" "eds_blocks c (apply_eeprom (eep e) os) = eds_blocks c (eep e)"
    by simp_all
  have g: "eep e (Suc (Suc ?it)) = zz_gruppe (zz_config p)"
    using assms(3) by (simp add: load_zeitzone_def)
  have q: "zz_config q = \<lparr>zz_gruppe = byte_at f 2, day_pattern = byte_at f 3, from_hour = byte_at f 4,
      from_minute = byte_at f 5, to_hour = byte_at f 6, to_minute = byte_at f 7\<rparr>"
    using assms(2) by (simp add: w(2) zeitzone_write_details_def Let_def)
  have l: "load_zeitzone (apply_eeprom (eep e) os) ?it = zz_config q"
    unfolding q using assms(2) g by (simp add: w(1) zeitzone_write_details_def Let_def load_zeitzone_def)
  show ?thesis using wf l q by (simp add: r Let_def zeitzone_matches_def)
qed

definition weekdays_630_800 :: "u8 \<Rightarrow> canix_frame" where
  "weekdays_630_800 g = hes_message 9 35 [HCAN_HES_ZEITZONE_WRITE_DETAILS, g, 0x3e, 6, 30, 8, 0]"

theorem zone_change_survives_reload_witness:
  "\<exists>e p. let m = apply_eeprom (eep e) (snd (zeitzone_can_callback e p (weekdays_630_800 (zz_gruppe (zz_config p)))))
     in eds_wf ATmega32 m \<and> day_pattern (load_zeitzone m (zz_it p)) = 0x3e \<and>
        from_minute (load_zeitzone m (zz_it p)) = 30"
proof -
  obtain it m where m: "eds_wf ATmega32 m" "(it, EDS_zeitzone_BLOCK_ID, 6) \<in> set (eds_blocks ATmega32 m)"
    by (rule fresh_block [of EDS_zeitzone_BLOCK_ID 6]) simp_all
  define e where "e = \<lparr>self_addr = 7, board_clock = canix_rtc_init, zonen = [], eep = m\<rparr>"
  define p where "p = \<lparr>zz_config = load_zeitzone m it, zz_it = it\<rparr>"
  define f where "f = weekdays_630_800 (zz_gruppe (zz_config p))"
  have h: "byte_at f 1 = HCAN_HES_ZEITZONE_WRITE_DETAILS" "byte_at f 2 = zz_gruppe (zz_config p)"
    "zz_config p = load_zeitzone (eep e) (zz_it p)" "eds_wf ATmega32 (eep e)"
    "(zz_it p, EDS_zeitzone_BLOCK_ID, 6) \<in> set (eds_blocks ATmega32 (eep e))"
    using m by (simp_all add: f_def weekdays_630_800_def p_def e_def)
  have "byte_at f 3 = 0x3e" "byte_at f 5 = 30" by (simp_all add: f_def weekdays_630_800_def)
  then show ?thesis
    using zone_change_survives_reload [OF h] unfolding f_def [symmetric]
    by (intro exI [of _ e] exI [of _ p]) (simp add: Let_def flip: f_def)
qed

end
