(* ===== verification/Heizung.thy ===== *)
theory Heizung
  imports Zeitzone
begin

text \<open>
  The heating valve \<^verbatim>\<open>src/firmwares/controllerboard/devices/heizung.c\<close>: four
  modes, a two-point controller over the time zones' set temperatures, slow pulse width
  modulation of the valve, the stop while a window is open, and the weekly valve care. The
  model is the build without the PID controller
  (\<^verbatim>\<open>HEIZUNG_INCL_PID_REGLER_CODE\<close> is not defined anywhere). Temperatures are the
  16-bit words of the code, read with \<open>sint\<close> where they are compared; the sum with the
  hysteresis is taken in the integers, as no temperature comes near the 16-bit limits.
\<close>

section \<open>State\<close>

datatype heizung_mode =
  HEIZUNG_MODE_OFF | HEIZUNG_MODE_MANUAL | HEIZUNG_MODE_THERMOSTAT | HEIZUNG_MODE_AUTOMATIK

text \<open>\<^verbatim>\<open>eds_heizung_block_t\<close>; the eight pairs of zone and temperature as a list.\<close>

record heizung_config =
  c_id :: u8
  c_port :: u8
  c_pwm_periode :: u8
  c_sensor_id :: u8
  c_lines :: "(u8 \<times> u16) list"
  c_feature :: u8
  c_hysterese :: u8
  c_reeds :: "u8 list"

record device_data_heizung =
  config :: heizung_config
  it :: nat
  mode :: heizung_mode
  manual_rate :: u8
  timer_counter :: u8
  pwm_counter :: u16
  pwm_width :: u16
  pwm_end :: u16
  waermebedarf_counter :: u8
  received_interval_counter :: u8
  measure_value :: u16
  duration_counter :: u16
  thermostat_temp :: u16
  last_soll_temp :: u16
  reed_heiz_stop_counter :: u8
  ventilpflege_counter :: u16
  pins :: "u8 \<Rightarrow> bool"

abbreviation (input) DOPPEL_WAERMEBEDARF :: nat where "DOPPEL_WAERMEBEDARF \<equiv> 0"
abbreviation (input) VENTIL_IMMER_PFLEGEN :: nat where "VENTIL_IMMER_PFLEGEN \<equiv> 1"
abbreviation (input) WAERMEBEDARF_VERZOEGERUNG_s :: u8 where "WAERMEBEDARF_VERZOEGERUNG_s \<equiv> 210"
abbreviation (input) EDS_heizung_BLOCK_ID :: u8 where "EDS_heizung_BLOCK_ID \<equiv> 13"

text \<open>The configuration is read from a block with eight lines and eight reed contacts.\<close>

definition hz_config_ok :: "heizung_config \<Rightarrow> bool" where
  "hz_config_ok c \<longleftrightarrow> length (c_lines c) = 8 \<and> length (c_reeds c) = 8"

section \<open>The parts of the handlers\<close>

definition heizung_init :: "nat \<Rightarrow> device_data_heizung \<Rightarrow> device_data_heizung" where
  "heizung_init bp p =
     p\<lparr>it := bp, mode := HEIZUNG_MODE_AUTOMATIK, manual_rate := 0,
       waermebedarf_counter := c_id (config p) AND 0x3f, received_interval_counter := 255,
       measure_value := 0, duration_counter := 0, thermostat_temp := 0,
       reed_heiz_stop_counter := 0, ventilpflege_counter := 0, pwm_counter := 0,
       pwm_width := 0, pwm_end := ucast (c_pwm_periode (config p))\<rparr>"

definition heizung_update_heizstop :: "device_data_heizung \<Rightarrow> device_data_heizung" where
  "heizung_update_heizstop p = p\<lparr>pwm_end := ucast (c_pwm_periode (config p)), pwm_width := 0\<rparr>"

definition heizung_set_pwm :: "device_data_heizung \<Rightarrow> u8 \<Rightarrow> device_data_heizung" where
  "heizung_set_pwm p rate =
     (if reed_heiz_stop_counter p \<noteq> 0 then heizung_update_heizstop p
      else (let p = p\<lparr>pwm_end := ucast (c_pwm_periode (config p))\<rparr>
            in p\<lparr>pwm_width := of_nat (unat (pwm_end p) * unat rate div 100)\<rparr>))"

definition heizung_get_pwm :: "device_data_heizung \<Rightarrow> u8" where
  "heizung_get_pwm p =
     (if mode p \<noteq> HEIZUNG_MODE_OFF then
        (if pwm_end p = 0 then 100 else of_nat (unat (pwm_width p) * 100 div unat (pwm_end p)))
      else 0)"

definition hz_setpin :: "bool \<Rightarrow> device_data_heizung \<Rightarrow> device_data_heizung \<times> out list" where
  "hz_setpin b p = (p\<lparr>pins := (pins p)(c_port (config p) := b)\<rparr>, [SetPin (c_port (config p)) b])"

definition heizung_handle_pwm :: "device_data_heizung \<Rightarrow> device_data_heizung \<times> out list" where
  "heizung_handle_pwm p =
     (let p = p\<lparr>pwm_counter := pwm_counter p + 1\<rparr>;
          p = (if pwm_counter p \<ge> pwm_end p then p\<lparr>pwm_counter := 0\<rparr> else p)
      in hz_setpin (\<not> pwm_counter p \<ge> pwm_width p) p)"

text \<open>The first line whose zone matches: its index (\<open>None\<close> for -1) and its zone.\<close>

fun matching_index :: "board_env \<Rightarrow> (u8 \<times> u16) list \<Rightarrow> nat option" where
  "matching_index e [] = None"
| "matching_index e (l # ls) =
     (if zeitzone_matches e (fst l) then Some 0 else map_option Suc (matching_index e ls))"

definition heizung_get_matching_zeitzone_index :: "board_env \<Rightarrow> device_data_heizung \<Rightarrow> nat option" where
  "heizung_get_matching_zeitzone_index e p = matching_index e (c_lines (config p))"

definition heizung_get_matching_zeitzone_id :: "board_env \<Rightarrow> device_data_heizung \<Rightarrow> u8" where
  "heizung_get_matching_zeitzone_id e p =
     (case matching_index e (c_lines (config p)) of
        Some i \<Rightarrow> fst (c_lines (config p) ! i) | None \<Rightarrow> -1)"

definition heizung_set_pwm_by_temp :: "device_data_heizung \<Rightarrow> u16 \<Rightarrow> u16 \<Rightarrow> device_data_heizung" where
  "heizung_set_pwm_by_temp p soll ist =
     (let h = uint (c_hysterese (config p)) in
      if heizung_get_pwm p > 0 \<and> sint ist > sint soll + h then heizung_set_pwm p 0
      else if heizung_get_pwm p = 0 \<and> sint ist < sint soll - h
      then (heizung_set_pwm p 100)\<lparr>waermebedarf_counter := WAERMEBEDARF_VERZOEGERUNG_s\<rparr>
      else p)"

text \<open>Sundays, eleven o'clock and three minutes per id: the time of the valve care.\<close>

definition pflegezeit :: "canix_rtc_clock \<Rightarrow> u8 \<Rightarrow> bool" where
  "pflegezeit c hid \<longleftrightarrow> day_of_week c = 7 \<and>
     (ucast (hour c) :: u16) * 60 + ucast (minute c) = ucast hid * 3 + (11 * 60 + 0)"

definition heizung_check_ventilpflege :: "board_env \<Rightarrow> device_data_heizung \<Rightarrow> device_data_heizung" where
  "heizung_check_ventilpflege e p =
     (if ventilpflege_counter p = 0 \<and>
         (mode p = HEIZUNG_MODE_OFF \<or> test_bit (c_feature (config p)) VENTIL_IMMER_PFLEGEN)
      then (if pflegezeit (board_clock e) (c_id (config p)) then p\<lparr>ventilpflege_counter := 600\<rparr> else p)
      else p)"

definition heizung_send_details :: "board_env \<Rightarrow> device_data_heizung \<Rightarrow> u16 \<Rightarrow> out" where
  "heizung_send_details e p dest =
     send_hi (hes_message (self_addr e) dest
       (case mode p of
          HEIZUNG_MODE_OFF \<Rightarrow> [HCAN_HES_HEIZUNG_MODE_OFF_DETAILS, c_id (config p)]
        | HEIZUNG_MODE_MANUAL \<Rightarrow>
            [HCAN_HES_HEIZUNG_MODE_MANUAL_DETAILS, c_id (config p), manual_rate p,
             hi8 (duration_counter p), lo8 (duration_counter p)]
        | HEIZUNG_MODE_THERMOSTAT \<Rightarrow>
            [HCAN_HES_HEIZUNG_MODE_THERMOSTAT_DETAILS, c_id (config p),
             hi8 (thermostat_temp p), lo8 (thermostat_temp p),
             hi8 (duration_counter p), lo8 (duration_counter p)]
        | HEIZUNG_MODE_AUTOMATIK \<Rightarrow>
            (case heizung_get_matching_zeitzone_index e p of
               Some i \<Rightarrow>
                 (let master = snd (c_lines (config p) ! i) in
                  [HCAN_HES_HEIZUNG_MODE_AUTOMATIK_DETAILS, c_id (config p), hi8 master, lo8 master,
                   heizung_get_matching_zeitzone_id e p, hi8 (measure_value p), lo8 (measure_value p)])
             | None \<Rightarrow> [HCAN_HES_HEIZUNG_MODE_AUTOMATIK_DETAILS, c_id (config p), 0, 0, 0])))"

section \<open>The timer handler\<close>

text \<open>The end of a temporary mode.\<close>

definition tick_duration :: "board_env \<Rightarrow> device_data_heizung \<Rightarrow> device_data_heizung \<times> out list" where
  "tick_duration e p =
     (if duration_counter p > 0 then
        (let p = p\<lparr>duration_counter := duration_counter p - 1\<rparr> in
         if duration_counter p = 0
         then (let p = p\<lparr>mode := HEIZUNG_MODE_AUTOMATIK\<rparr>
               in (p, [heizung_send_details e p HCAN_MULTICAST_INFO]))
         else (p, []))
      else (p, []))"

definition tick_heizstop :: "device_data_heizung \<Rightarrow> device_data_heizung" where
  "tick_heizstop p =
     (if reed_heiz_stop_counter p > 0
      then heizung_update_heizstop (p\<lparr>reed_heiz_stop_counter := reed_heiz_stop_counter p - 1\<rparr>)
      else p)"

text \<open>The controller, every sixth second.\<close>

definition tick_automatik :: "board_env \<Rightarrow> device_data_heizung \<Rightarrow> device_data_heizung \<times> out list" where
  "tick_automatik e p =
     (if received_interval_counter p < 255 then
        (case heizung_get_matching_zeitzone_index e p of
           Some i \<Rightarrow>
             (let soll = snd (c_lines (config p) ! i);
                  p = heizung_set_pwm_by_temp p soll (measure_value p)
              in if last_soll_temp p \<noteq> soll
                 then (p\<lparr>last_soll_temp := soll\<rparr>, [heizung_send_details e p HCAN_MULTICAST_INFO])
                 else (p, []))
         | None \<Rightarrow> (heizung_set_pwm p 0, []))
      else (p, []))"

definition tick_regelung :: "board_env \<Rightarrow> device_data_heizung \<Rightarrow> device_data_heizung \<times> out list" where
  "tick_regelung e p =
     (case mode p of
        HEIZUNG_MODE_OFF \<Rightarrow>
          (let p = heizung_set_pwm (p\<lparr>manual_rate := 0\<rparr>) 0
           in if pins p (c_port (config p)) then hz_setpin False p else (p, []))
      | HEIZUNG_MODE_MANUAL \<Rightarrow> (heizung_set_pwm p (manual_rate p), [])
      | HEIZUNG_MODE_AUTOMATIK \<Rightarrow> tick_automatik e p
      | HEIZUNG_MODE_THERMOSTAT \<Rightarrow>
          (if received_interval_counter p < 255
           then (heizung_set_pwm_by_temp p (thermostat_temp p) (measure_value p), [])
           else (p, [])))"

definition tick_waermebedarf :: "board_env \<Rightarrow> device_data_heizung \<Rightarrow> device_data_heizung \<times> out list" where
  "tick_waermebedarf e p =
     (if received_interval_counter p = 255 \<and> mode p \<noteq> HEIZUNG_MODE_MANUAL then (p, [])
      else
        (let null = (waermebedarf_counter p = 0);
             p = p\<lparr>waermebedarf_counter := waermebedarf_counter p - 1\<rparr>
         in if null then
              (let p = p\<lparr>waermebedarf_counter := 60\<rparr>;
                   rate = heizung_get_pwm p;
                   rate = (if test_bit (c_feature (config p)) DOPPEL_WAERMEBEDARF
                           then push_bit 1 rate else rate)
               in (p, [send_low (hes_message (self_addr e) HCAN_MULTICAST_INFO
                         [HCAN_HES_HEIZUNG_WAERMEBEDARF_INFO, c_id (config p), rate])]))
            else (p, [])))"

definition tick_start :: "board_env \<Rightarrow> device_data_heizung \<Rightarrow> device_data_heizung" where
  "tick_start e p =
     (let p = (if ventilpflege_counter p > 0
               then p\<lparr>ventilpflege_counter := ventilpflege_counter p - 1\<rparr> else p);
          p = heizung_check_ventilpflege e p
      in if received_interval_counter p \<noteq> 255
         then p\<lparr>received_interval_counter := received_interval_counter p + 1\<rparr> else p)"

definition tick_ende :: "board_env \<Rightarrow> device_data_heizung \<Rightarrow> device_data_heizung \<times> out list" where
  "tick_ende e p =
     (let p' = p\<lparr>timer_counter := timer_counter p + 1\<rparr> in
      if timer_counter p \<ge> 5 then
        (let p = p'\<lparr>timer_counter := 0\<rparr> in
         if ventilpflege_counter p \<noteq> 0 then hz_setpin True (p\<lparr>manual_rate := 0\<rparr>)
         else andthen (tick_regelung e p) (tick_waermebedarf e))
      else tick_waermebedarf e p')"

definition heizung_timer_handler ::
  "board_env \<Rightarrow> device_data_heizung \<Rightarrow> u8 \<Rightarrow> device_data_heizung \<times> out list" where
  "heizung_timer_handler e p zyklus =
     (if zyklus \<noteq> 1 then (p, [])
      else andthen (heizung_handle_pwm (tick_start e p))
        (\<lambda>p. andthen (tick_duration e p) (\<lambda>p. tick_ende e (tick_heizstop p))))"

section \<open>The frame handler\<close>

definition case_reedkontakt_offen :: "device_data_heizung \<Rightarrow> canix_frame \<Rightarrow> device_data_heizung" where
  "case_reedkontakt_offen p f =
     (if byte_at f 2 \<in> set (c_reeds (config p)) then p\<lparr>reed_heiz_stop_counter := 60\<rparr> else p)"

definition solltemp_write_line ::
  "device_data_heizung \<Rightarrow> canix_frame \<Rightarrow> device_data_heizung \<times> out list" where
  "solltemp_write_line p f =
     (let idx = unat (byte_at f 3); l = c_lines (config p); a = it p + 6 + idx * 3 + 1 in
      (p\<lparr>config := (config p)\<lparr>c_lines := l[idx := (fst (l ! idx), mk16 (byte_at f 4) (byte_at f 5))]\<rparr>\<rparr>,
       [EepromWrite a (byte_at f 5), EepromWrite (a + 1) (byte_at f 4)]))"

definition heizung_set_mode ::
  "board_env \<Rightarrow> device_data_heizung \<Rightarrow> canix_frame \<Rightarrow> device_data_heizung \<times> out list" where
  "heizung_set_mode e p f =
     (let cmd = byte_at f 1;
          p = (if cmd = HCAN_HES_HEIZUNG_SET_MODE_OFF then p\<lparr>mode := HEIZUNG_MODE_OFF\<rparr>
               else if cmd = HCAN_HES_HEIZUNG_SET_MODE_MANUAL
               then p\<lparr>mode := HEIZUNG_MODE_MANUAL, manual_rate := byte_at f 3,
                      duration_counter := mk16 (byte_at f 4) (byte_at f 5)\<rparr>
               else if cmd = HCAN_HES_HEIZUNG_SET_MODE_THERMOSTAT_DETAILS
               then p\<lparr>mode := HEIZUNG_MODE_THERMOSTAT,
                      thermostat_temp := mk16 (byte_at f 3) (byte_at f 4),
                      duration_counter := mk16 (byte_at f 5) (byte_at f 6)\<rparr>
               else p\<lparr>mode := HEIZUNG_MODE_AUTOMATIK\<rparr>)
      in (p, [heizung_send_details e p HCAN_MULTICAST_INFO]))"

definition heizung_can_callback ::
  "board_env \<Rightarrow> device_data_heizung \<Rightarrow> canix_frame \<Rightarrow> device_data_heizung \<times> out list" where
  "heizung_can_callback e p f =
     (let cmd = byte_at f 1; c = config p; self = self_addr e in
      if cmd = HCAN_HES_1WIRE_TEMPERATURE then
        (if byte_at f 2 = c_sensor_id c
         then (p\<lparr>measure_value := mk16 (byte_at f 3) (byte_at f 4), received_interval_counter := 0\<rparr>, [])
         else (p, []))
      else if cmd = HCAN_HES_HEIZUNG_SET_MODE_OFF \<or> cmd = HCAN_HES_HEIZUNG_SET_MODE_MANUAL \<or>
              cmd = HCAN_HES_HEIZUNG_SET_MODE_THERMOSTAT_DETAILS \<or>
              cmd = HCAN_HES_HEIZUNG_SET_MODE_AUTOMATIK then
        (if c_id c = byte_at f 2 then heizung_set_mode e p f else (p, []))
      else if cmd = HCAN_HES_DEVICE_STATES_REQUEST then
        (if c_id c \<noteq> 255 then (p, [Sleep 10, heizung_send_details e p (src f)]) else (p, []))
      else if cmd = HCAN_HES_HEIZUNG_DETAILS_REQUEST then
        (if c_id c = byte_at f 2 then (p, [heizung_send_details e p (src f)]) else (p, []))
      else if cmd = HCAN_HES_DEVICES_CONFIGS_REQUEST \<or> cmd = HCAN_HES_HEIZUNG_CONFIG_RQ then
        (p, [send_hi (hes_answer self f [HCAN_HES_HEIZUNG_CONFIG_REPLAY, c_id c, c_sensor_id c])])
      else if cmd = HCAN_HES_HEIZUNG_TIST_REQUEST then
        (if byte_at f 2 = c_id c
         then (p, [send_hi (hes_answer self f [HCAN_HES_HEIZUNG_TIST_REPLAY, c_id c,
                     hi8 (measure_value p), lo8 (measure_value p)])])
         else (p, []))
      else if cmd = HCAN_HES_HEIZUNG_SOLLTEMP_LINE_REQUEST then
        (if byte_at f 2 = c_id c \<and> byte_at f 3 \<le> 7
         then (let l = c_lines c ! unat (byte_at f 3) in
               (p, [send_low (hes_answer self f [HCAN_HES_HEIZUNG_SOLLTEMP_LINE_REPLAY, c_id c,
                      byte_at f 3, hi8 (snd l), lo8 (snd l), fst l])]))
         else (p, []))
      else if cmd = HCAN_HES_HEIZUNG_SOLLTEMP_WRITE_LINE then
        (if byte_at f 2 = c_id c \<and> byte_at f 3 \<le> 7
         then (if it p \<noteq> 0 \<and> EDS_BLOCK_TYPE (eep e) (it p) = EDS_heizung_BLOCK_ID
               then andthen (solltemp_write_line p f)
                 (\<lambda>p. (p, [send_low (hes_answer self f
                    [HCAN_HES_HEIZUNG_SOLLTEMP_WRITE_LINE_ACK, c_id c, byte_at f 3])]))
               else (p, []))
         else (p, []))
      else if cmd = HCAN_HES_REEDKONTAKT_OFFEN then (case_reedkontakt_offen p f, [])
      else (p, []))"

section \<open>What the parts leave alone\<close>

lemma hz_setpin_sel [simp]:
  "config (fst (hz_setpin b p)) = config p" "it (fst (hz_setpin b p)) = it p"
  "mode (fst (hz_setpin b p)) = mode p" "manual_rate (fst (hz_setpin b p)) = manual_rate p"
  "timer_counter (fst (hz_setpin b p)) = timer_counter p"
  "pwm_counter (fst (hz_setpin b p)) = pwm_counter p" "pwm_width (fst (hz_setpin b p)) = pwm_width p"
  "pwm_end (fst (hz_setpin b p)) = pwm_end p"
  "waermebedarf_counter (fst (hz_setpin b p)) = waermebedarf_counter p"
  "received_interval_counter (fst (hz_setpin b p)) = received_interval_counter p"
  "measure_value (fst (hz_setpin b p)) = measure_value p"
  "duration_counter (fst (hz_setpin b p)) = duration_counter p"
  "thermostat_temp (fst (hz_setpin b p)) = thermostat_temp p"
  "last_soll_temp (fst (hz_setpin b p)) = last_soll_temp p"
  "reed_heiz_stop_counter (fst (hz_setpin b p)) = reed_heiz_stop_counter p"
  "ventilpflege_counter (fst (hz_setpin b p)) = ventilpflege_counter p"
  "pins (fst (hz_setpin b p)) = (pins p)(c_port (config p) := b)"
  by (simp_all add: hz_setpin_def)

lemma handle_pwm_sel [simp]:
  "config (fst (heizung_handle_pwm p)) = config p" "it (fst (heizung_handle_pwm p)) = it p"
  "mode (fst (heizung_handle_pwm p)) = mode p"
  "manual_rate (fst (heizung_handle_pwm p)) = manual_rate p"
  "timer_counter (fst (heizung_handle_pwm p)) = timer_counter p"
  "pwm_width (fst (heizung_handle_pwm p)) = pwm_width p"
  "pwm_end (fst (heizung_handle_pwm p)) = pwm_end p"
  "waermebedarf_counter (fst (heizung_handle_pwm p)) = waermebedarf_counter p"
  "received_interval_counter (fst (heizung_handle_pwm p)) = received_interval_counter p"
  "measure_value (fst (heizung_handle_pwm p)) = measure_value p"
  "duration_counter (fst (heizung_handle_pwm p)) = duration_counter p"
  "thermostat_temp (fst (heizung_handle_pwm p)) = thermostat_temp p"
  "last_soll_temp (fst (heizung_handle_pwm p)) = last_soll_temp p"
  "reed_heiz_stop_counter (fst (heizung_handle_pwm p)) = reed_heiz_stop_counter p"
  "ventilpflege_counter (fst (heizung_handle_pwm p)) = ventilpflege_counter p"
  by (simp_all add: heizung_handle_pwm_def Let_def)

lemma handle_pwm_closed: "pwm_width p = 0 \<Longrightarrow> pins (fst (heizung_handle_pwm p)) = (pins p)(c_port (config p) := False)"
  by (simp add: heizung_handle_pwm_def Let_def)

lemma heizstop_sel [simp]:
  "config (heizung_update_heizstop p) = config p" "it (heizung_update_heizstop p) = it p"
  "mode (heizung_update_heizstop p) = mode p"
  "manual_rate (heizung_update_heizstop p) = manual_rate p"
  "timer_counter (heizung_update_heizstop p) = timer_counter p"
  "pwm_counter (heizung_update_heizstop p) = pwm_counter p"
  "waermebedarf_counter (heizung_update_heizstop p) = waermebedarf_counter p"
  "received_interval_counter (heizung_update_heizstop p) = received_interval_counter p"
  "measure_value (heizung_update_heizstop p) = measure_value p"
  "duration_counter (heizung_update_heizstop p) = duration_counter p"
  "thermostat_temp (heizung_update_heizstop p) = thermostat_temp p"
  "last_soll_temp (heizung_update_heizstop p) = last_soll_temp p"
  "reed_heiz_stop_counter (heizung_update_heizstop p) = reed_heiz_stop_counter p"
  "ventilpflege_counter (heizung_update_heizstop p) = ventilpflege_counter p"
  "pins (heizung_update_heizstop p) = pins p"
  "pwm_width (heizung_update_heizstop p) = 0"
  "pwm_end (heizung_update_heizstop p) = ucast (c_pwm_periode (config p))"
  by (simp_all add: heizung_update_heizstop_def)

lemma set_pwm_sel [simp]:
  "config (heizung_set_pwm p r) = config p" "it (heizung_set_pwm p r) = it p"
  "mode (heizung_set_pwm p r) = mode p" "manual_rate (heizung_set_pwm p r) = manual_rate p"
  "timer_counter (heizung_set_pwm p r) = timer_counter p"
  "pwm_counter (heizung_set_pwm p r) = pwm_counter p"
  "waermebedarf_counter (heizung_set_pwm p r) = waermebedarf_counter p"
  "received_interval_counter (heizung_set_pwm p r) = received_interval_counter p"
  "measure_value (heizung_set_pwm p r) = measure_value p"
  "duration_counter (heizung_set_pwm p r) = duration_counter p"
  "thermostat_temp (heizung_set_pwm p r) = thermostat_temp p"
  "last_soll_temp (heizung_set_pwm p r) = last_soll_temp p"
  "reed_heiz_stop_counter (heizung_set_pwm p r) = reed_heiz_stop_counter p"
  "ventilpflege_counter (heizung_set_pwm p r) = ventilpflege_counter p"
  "pins (heizung_set_pwm p r) = pins p"
  "pwm_end (heizung_set_pwm p r) = ucast (c_pwm_periode (config p))"
  by (simp_all add: heizung_set_pwm_def Let_def)

lemma set_pwm_stopped [simp]: "reed_heiz_stop_counter p \<noteq> 0 \<Longrightarrow> pwm_width (heizung_set_pwm p r) = 0"
  by (simp add: heizung_set_pwm_def)

lemma set_by_temp_sel [simp]:
  "config (heizung_set_pwm_by_temp p s i) = config p" "it (heizung_set_pwm_by_temp p s i) = it p"
  "mode (heizung_set_pwm_by_temp p s i) = mode p"
  "manual_rate (heizung_set_pwm_by_temp p s i) = manual_rate p"
  "timer_counter (heizung_set_pwm_by_temp p s i) = timer_counter p"
  "pwm_counter (heizung_set_pwm_by_temp p s i) = pwm_counter p"
  "received_interval_counter (heizung_set_pwm_by_temp p s i) = received_interval_counter p"
  "measure_value (heizung_set_pwm_by_temp p s i) = measure_value p"
  "duration_counter (heizung_set_pwm_by_temp p s i) = duration_counter p"
  "thermostat_temp (heizung_set_pwm_by_temp p s i) = thermostat_temp p"
  "last_soll_temp (heizung_set_pwm_by_temp p s i) = last_soll_temp p"
  "reed_heiz_stop_counter (heizung_set_pwm_by_temp p s i) = reed_heiz_stop_counter p"
  "ventilpflege_counter (heizung_set_pwm_by_temp p s i) = ventilpflege_counter p"
  "pins (heizung_set_pwm_by_temp p s i) = pins p"
  by (simp_all add: heizung_set_pwm_by_temp_def Let_def)

lemma set_by_temp_stopped [simp]:
  "reed_heiz_stop_counter p \<noteq> 0 \<Longrightarrow> pwm_width p = 0 \<Longrightarrow> pwm_width (heizung_set_pwm_by_temp p s i) = 0"
  by (simp add: heizung_set_pwm_by_temp_def Let_def)

lemma tick_start_sel [simp]:
  "config (tick_start e p) = config p" "it (tick_start e p) = it p" "mode (tick_start e p) = mode p"
  "manual_rate (tick_start e p) = manual_rate p" "timer_counter (tick_start e p) = timer_counter p"
  "pwm_counter (tick_start e p) = pwm_counter p" "pwm_width (tick_start e p) = pwm_width p"
  "pwm_end (tick_start e p) = pwm_end p"
  "waermebedarf_counter (tick_start e p) = waermebedarf_counter p"
  "measure_value (tick_start e p) = measure_value p"
  "duration_counter (tick_start e p) = duration_counter p"
  "thermostat_temp (tick_start e p) = thermostat_temp p"
  "last_soll_temp (tick_start e p) = last_soll_temp p"
  "reed_heiz_stop_counter (tick_start e p) = reed_heiz_stop_counter p"
  "pins (tick_start e p) = pins p"
  by (simp_all add: tick_start_def heizung_check_ventilpflege_def Let_def)

lemma tick_start_care:
  "ventilpflege_counter (tick_start e p) =
     (let v = (if ventilpflege_counter p > 0 then ventilpflege_counter p - 1 else 0) in
      if v = 0 \<and> (mode p = HEIZUNG_MODE_OFF \<or> test_bit (c_feature (config p)) VENTIL_IMMER_PFLEGEN) \<and>
         pflegezeit (board_clock e) (c_id (config p)) then 600 else v)"
  by (simp add: tick_start_def heizung_check_ventilpflege_def Let_def word_gt_0)

lemma tick_duration_sel [simp]:
  "config (fst (tick_duration e p)) = config p" "it (fst (tick_duration e p)) = it p"
  "manual_rate (fst (tick_duration e p)) = manual_rate p"
  "timer_counter (fst (tick_duration e p)) = timer_counter p"
  "pwm_counter (fst (tick_duration e p)) = pwm_counter p"
  "pwm_width (fst (tick_duration e p)) = pwm_width p" "pwm_end (fst (tick_duration e p)) = pwm_end p"
  "waermebedarf_counter (fst (tick_duration e p)) = waermebedarf_counter p"
  "received_interval_counter (fst (tick_duration e p)) = received_interval_counter p"
  "measure_value (fst (tick_duration e p)) = measure_value p"
  "thermostat_temp (fst (tick_duration e p)) = thermostat_temp p"
  "last_soll_temp (fst (tick_duration e p)) = last_soll_temp p"
  "reed_heiz_stop_counter (fst (tick_duration e p)) = reed_heiz_stop_counter p"
  "ventilpflege_counter (fst (tick_duration e p)) = ventilpflege_counter p"
  "pins (fst (tick_duration e p)) = pins p"
  by (simp_all add: tick_duration_def Let_def)

lemma tick_duration_mode:
  "mode (fst (tick_duration e p)) = (if duration_counter p = 1 then HEIZUNG_MODE_AUTOMATIK else mode p)"
  "unat (duration_counter (fst (tick_duration e p))) = unat (duration_counter p) - 1"
  using unat_dec [of "duration_counter p"] by (simp_all add: tick_duration_def Let_def word_gt_0)

lemma tick_heizstop_sel [simp]:
  "config (tick_heizstop p) = config p" "it (tick_heizstop p) = it p"
  "mode (tick_heizstop p) = mode p" "manual_rate (tick_heizstop p) = manual_rate p"
  "timer_counter (tick_heizstop p) = timer_counter p" "pwm_counter (tick_heizstop p) = pwm_counter p"
  "waermebedarf_counter (tick_heizstop p) = waermebedarf_counter p"
  "received_interval_counter (tick_heizstop p) = received_interval_counter p"
  "measure_value (tick_heizstop p) = measure_value p"
  "duration_counter (tick_heizstop p) = duration_counter p"
  "thermostat_temp (tick_heizstop p) = thermostat_temp p"
  "last_soll_temp (tick_heizstop p) = last_soll_temp p"
  "ventilpflege_counter (tick_heizstop p) = ventilpflege_counter p" "pins (tick_heizstop p) = pins p"
  by (simp_all add: tick_heizstop_def)

lemma tick_heizstop_reed:
  "unat (reed_heiz_stop_counter (tick_heizstop p)) = unat (reed_heiz_stop_counter p) - 1"
  "pwm_width (tick_heizstop p) = (if reed_heiz_stop_counter p = 0 then pwm_width p else 0)"
  using unat_dec [of "reed_heiz_stop_counter p"] by (simp_all add: tick_heizstop_def word_gt_0)

lemma tick_automatik_sel [simp]:
  "config (fst (tick_automatik e p)) = config p" "it (fst (tick_automatik e p)) = it p"
  "mode (fst (tick_automatik e p)) = mode p" "manual_rate (fst (tick_automatik e p)) = manual_rate p"
  "timer_counter (fst (tick_automatik e p)) = timer_counter p"
  "pwm_counter (fst (tick_automatik e p)) = pwm_counter p"
  "received_interval_counter (fst (tick_automatik e p)) = received_interval_counter p"
  "measure_value (fst (tick_automatik e p)) = measure_value p"
  "duration_counter (fst (tick_automatik e p)) = duration_counter p"
  "thermostat_temp (fst (tick_automatik e p)) = thermostat_temp p"
  "reed_heiz_stop_counter (fst (tick_automatik e p)) = reed_heiz_stop_counter p"
  "ventilpflege_counter (fst (tick_automatik e p)) = ventilpflege_counter p"
  "pins (fst (tick_automatik e p)) = pins p"
  by (simp_all add: tick_automatik_def Let_def split: option.splits)

lemma tick_automatik_stopped:
  "reed_heiz_stop_counter p \<noteq> 0 \<Longrightarrow> pwm_width p = 0 \<Longrightarrow> pwm_width (fst (tick_automatik e p)) = 0"
  by (simp add: tick_automatik_def Let_def split: option.splits)

lemma tick_regelung_sel [simp]:
  "config (fst (tick_regelung e p)) = config p" "it (fst (tick_regelung e p)) = it p"
  "mode (fst (tick_regelung e p)) = mode p"
  "timer_counter (fst (tick_regelung e p)) = timer_counter p"
  "pwm_counter (fst (tick_regelung e p)) = pwm_counter p"
  "received_interval_counter (fst (tick_regelung e p)) = received_interval_counter p"
  "measure_value (fst (tick_regelung e p)) = measure_value p"
  "duration_counter (fst (tick_regelung e p)) = duration_counter p"
  "thermostat_temp (fst (tick_regelung e p)) = thermostat_temp p"
  "reed_heiz_stop_counter (fst (tick_regelung e p)) = reed_heiz_stop_counter p"
  "ventilpflege_counter (fst (tick_regelung e p)) = ventilpflege_counter p"
  by (simp_all add: tick_regelung_def Let_def split: heizung_mode.splits)

lemma tick_regelung_stopped:
  "reed_heiz_stop_counter p \<noteq> 0 \<Longrightarrow> pwm_width p = 0 \<Longrightarrow> pwm_width (fst (tick_regelung e p)) = 0"
  by (simp add: tick_regelung_def Let_def tick_automatik_stopped split: heizung_mode.splits)

lemma tick_regelung_pin:
  "\<not> pins p (c_port (config p)) \<Longrightarrow> \<not> pins (fst (tick_regelung e p)) (c_port (config p))"
  by (simp add: tick_regelung_def Let_def split: heizung_mode.splits)

lemma tick_waermebedarf_sel [simp]:
  "config (fst (tick_waermebedarf e p)) = config p" "it (fst (tick_waermebedarf e p)) = it p"
  "mode (fst (tick_waermebedarf e p)) = mode p"
  "manual_rate (fst (tick_waermebedarf e p)) = manual_rate p"
  "timer_counter (fst (tick_waermebedarf e p)) = timer_counter p"
  "pwm_counter (fst (tick_waermebedarf e p)) = pwm_counter p"
  "pwm_width (fst (tick_waermebedarf e p)) = pwm_width p"
  "pwm_end (fst (tick_waermebedarf e p)) = pwm_end p"
  "received_interval_counter (fst (tick_waermebedarf e p)) = received_interval_counter p"
  "measure_value (fst (tick_waermebedarf e p)) = measure_value p"
  "duration_counter (fst (tick_waermebedarf e p)) = duration_counter p"
  "thermostat_temp (fst (tick_waermebedarf e p)) = thermostat_temp p"
  "last_soll_temp (fst (tick_waermebedarf e p)) = last_soll_temp p"
  "reed_heiz_stop_counter (fst (tick_waermebedarf e p)) = reed_heiz_stop_counter p"
  "ventilpflege_counter (fst (tick_waermebedarf e p)) = ventilpflege_counter p"
  "pins (fst (tick_waermebedarf e p)) = pins p"
  by (simp_all add: tick_waermebedarf_def Let_def)

section \<open>One second\<close>

abbreviation hz_tick :: "board_env \<Rightarrow> device_data_heizung \<Rightarrow> device_data_heizung" where
  "hz_tick e p \<equiv> fst (heizung_timer_handler e p 1)"

abbreviation valve :: "device_data_heizung \<Rightarrow> bool" where
  "valve p \<equiv> pins p (c_port (config p))"

definition before_ende :: "board_env \<Rightarrow> device_data_heizung \<Rightarrow> device_data_heizung" where
  "before_ende e p = tick_heizstop (fst (tick_duration e (fst (heizung_handle_pwm (tick_start e p)))))"

lemma hz_tick_parts: "hz_tick e p = fst (tick_ende e (before_ende e p))"
  by (simp add: heizung_timer_handler_def before_ende_def)

lemma before_ende_sel [simp]:
  "config (before_ende e p) = config p" "timer_counter (before_ende e p) = timer_counter p"
  "ventilpflege_counter (before_ende e p) = ventilpflege_counter (tick_start e p)"
  "pins (before_ende e p) = pins (fst (heizung_handle_pwm (tick_start e p)))"
  "unat (reed_heiz_stop_counter (before_ende e p)) = unat (reed_heiz_stop_counter p) - 1"
  "mode (before_ende e p) = (if duration_counter p = 1 then HEIZUNG_MODE_AUTOMATIK else mode p)"
  "unat (duration_counter (before_ende e p)) = unat (duration_counter p) - 1"
  "pwm_width (before_ende e p) = (if reed_heiz_stop_counter p = 0 then pwm_width p else 0)"
  by (simp_all add: before_ende_def tick_duration_mode tick_heizstop_reed)

lemma tick_ende_sel [simp]:
  "config (fst (tick_ende e p)) = config p" "mode (fst (tick_ende e p)) = mode p"
  "reed_heiz_stop_counter (fst (tick_ende e p)) = reed_heiz_stop_counter p"
  "duration_counter (fst (tick_ende e p)) = duration_counter p"
  "ventilpflege_counter (fst (tick_ende e p)) = ventilpflege_counter p"
  "it (fst (tick_ende e p)) = it p"
  "timer_counter (fst (tick_ende e p)) = (if timer_counter p \<ge> 5 then 0 else timer_counter p + 1)"
  by (simp_all add: tick_ende_def Let_def)

lemma tick_ende_width:
  assumes "pwm_width p = 0" and "reed_heiz_stop_counter p \<noteq> 0 \<or> ventilpflege_counter p \<noteq> 0"
  shows "pwm_width (fst (tick_ende e p)) = 0"
  using assms by (auto simp: tick_ende_def Let_def tick_regelung_stopped)

lemma tick_ende_care:
  "ventilpflege_counter p \<noteq> 0 \<Longrightarrow> valve (fst (tick_ende e p)) = (timer_counter p \<ge> 5 \<or> valve p)"
  by (simp add: tick_ende_def Let_def)

lemma tick_ende_closed:
  "ventilpflege_counter p = 0 \<Longrightarrow> \<not> valve p \<Longrightarrow> \<not> valve (fst (tick_ende e p))"
  using tick_regelung_pin [of "p\<lparr>timer_counter := 0\<rparr>" e] by (simp add: tick_ende_def Let_def)

lemma hz_tick_sel [simp]:
  "config (hz_tick e p) = config p"
  "unat (reed_heiz_stop_counter (hz_tick e p)) = unat (reed_heiz_stop_counter p) - 1"
  "mode (hz_tick e p) = (if duration_counter p = 1 then HEIZUNG_MODE_AUTOMATIK else mode p)"
  "unat (duration_counter (hz_tick e p)) = unat (duration_counter p) - 1"
  "timer_counter (hz_tick e p) = (if timer_counter p \<ge> 5 then 0 else timer_counter p + 1)"
  "ventilpflege_counter (hz_tick e p) = ventilpflege_counter (tick_start e p)"
  unfolding hz_tick_parts by simp_all

text \<open>A second of the heating stop, and a second of the valve care.\<close>

lemma hz_tick_stopped:
  assumes "1 < unat (reed_heiz_stop_counter p)" shows "pwm_width (hz_tick e p) = 0"
proof -
  have r: "reed_heiz_stop_counter p \<noteq> 0" "reed_heiz_stop_counter (before_ende e p) \<noteq> 0"
    using assms before_ende_sel(5) [of e p] by (auto simp: word_gt0_unat simp del: before_ende_sel)
  show ?thesis unfolding hz_tick_parts using r by (intro tick_ende_width) simp_all
qed

lemma hz_tick_closed:
  assumes "pwm_width p = 0" and "ventilpflege_counter (hz_tick e p) = 0"
  shows "\<not> valve (hz_tick e p)"
  using assms unfolding hz_tick_parts
  by (intro tick_ende_closed) (simp_all add: handle_pwm_closed before_ende_def)

lemma hz_tick_care:
  assumes "pwm_width p = 0" and "ventilpflege_counter (hz_tick e p) \<noteq> 0"
  shows "valve (hz_tick e p) = (timer_counter p \<ge> 5)" "pwm_width (hz_tick e p) = 0"
proof -
  have "ventilpflege_counter (before_ende e p) \<noteq> 0" using assms(2) by simp
  from tick_ende_care [OF this, of e] tick_ende_width [OF _ disjI2 [OF this], of e] assms(1)
  show "valve (hz_tick e p) = (timer_counter p \<ge> 5)" "pwm_width (hz_tick e p) = 0"
    unfolding hz_tick_parts by (simp_all add: handle_pwm_closed)
qed

section \<open>Frames\<close>

lemma set_mode_sel [simp]:
  "config (fst (heizung_set_mode e p f)) = config p" "it (fst (heizung_set_mode e p f)) = it p"
  "pwm_width (fst (heizung_set_mode e p f)) = pwm_width p" "pwm_end (fst (heizung_set_mode e p f)) = pwm_end p"
  "reed_heiz_stop_counter (fst (heizung_set_mode e p f)) = reed_heiz_stop_counter p"
  "ventilpflege_counter (fst (heizung_set_mode e p f)) = ventilpflege_counter p"
  "timer_counter (fst (heizung_set_mode e p f)) = timer_counter p"
  "pins (fst (heizung_set_mode e p f)) = pins p"
  by (simp_all add: heizung_set_mode_def Let_def)

lemma write_line_sel [simp]:
  "pwm_width (fst (solltemp_write_line p f)) = pwm_width p" "pins (fst (solltemp_write_line p f)) = pins p"
  "reed_heiz_stop_counter (fst (solltemp_write_line p f)) = reed_heiz_stop_counter p"
  "ventilpflege_counter (fst (solltemp_write_line p f)) = ventilpflege_counter p"
  "timer_counter (fst (solltemp_write_line p f)) = timer_counter p"
  "c_id (config (fst (solltemp_write_line p f))) = c_id (config p)"
  "c_port (config (fst (solltemp_write_line p f))) = c_port (config p)"
  "c_reeds (config (fst (solltemp_write_line p f))) = c_reeds (config p)"
  "c_feature (config (fst (solltemp_write_line p f))) = c_feature (config p)"
  "length (c_lines (config (fst (solltemp_write_line p f)))) = length (c_lines (config p))"
  by (simp_all add: solltemp_write_line_def Let_def)

text \<open>What every frame leaves alone.\<close>

lemma heizung_frame_sel [simp]:
  "pwm_width (fst (heizung_can_callback e p f)) = pwm_width p"
  "pins (fst (heizung_can_callback e p f)) = pins p"
  "ventilpflege_counter (fst (heizung_can_callback e p f)) = ventilpflege_counter p"
  "timer_counter (fst (heizung_can_callback e p f)) = timer_counter p"
  "c_id (config (fst (heizung_can_callback e p f))) = c_id (config p)"
  "c_port (config (fst (heizung_can_callback e p f))) = c_port (config p)"
  "c_reeds (config (fst (heizung_can_callback e p f))) = c_reeds (config p)"
  "c_feature (config (fst (heizung_can_callback e p f))) = c_feature (config p)"
  "length (c_lines (config (fst (heizung_can_callback e p f)))) = length (c_lines (config p))"
  by (simp_all add: heizung_can_callback_def case_reedkontakt_offen_def Let_def)

lemma heizung_frame_reed:
  "reed_heiz_stop_counter (fst (heizung_can_callback e p f)) =
     (if byte_at f 1 = HCAN_HES_REEDKONTAKT_OFFEN \<and> byte_at f 2 \<in> set (c_reeds (config p)) then 60
      else reed_heiz_stop_counter p)"
  by (simp add: heizung_can_callback_def case_reedkontakt_offen_def Let_def)

section \<open>Runs\<close>

abbreviation hz_run :: "device_data_heizung \<Rightarrow> (board_env \<times> dev_event) list \<Rightarrow> device_data_heizung" where
  "hz_run p evs \<equiv> fst (dev_run heizung_can_callback heizung_timer_handler p evs)"

definition ticks :: "(board_env \<times> dev_event) list \<Rightarrow> nat" where
  "ticks evs = length (filter (\<lambda>ev. snd ev = Tick 1) evs)"

lemma ticks_simps [simp]:
  "ticks [] = 0" "ticks (xs @ ys) = ticks xs + ticks ys"
  "ticks [(e, Frame f)] = 0" "ticks [(e, Tick z)] = (if z = 1 then 1 else 0)"
  by (simp_all add: ticks_def)

lemma hz_other_tick [simp]: "z \<noteq> 1 \<Longrightarrow> heizung_timer_handler e p z = (p, [])"
  by (simp add: heizung_timer_handler_def)

text \<open>
  The course of a heating stop that was triggered \<open>n\<close> seconds ago, whatever frames came in
  between.
\<close>

definition gesperrt :: "u8 \<Rightarrow> u8 \<Rightarrow> nat \<Rightarrow> device_data_heizung \<Rightarrow> bool" where
  "gesperrt hid port n p \<longleftrightarrow> c_id (config p) = hid \<and> c_port (config p) = port \<and>
     ventilpflege_counter p = 0 \<and> 60 \<le> unat (reed_heiz_stop_counter p) + n \<and>
     (0 < n \<and> n < 60 \<longrightarrow> pwm_width p = 0) \<and> (2 \<le> n \<longrightarrow> \<not> valve p)"

lemma gesperrt_frame: "gesperrt hid port n p \<Longrightarrow> gesperrt hid port n (fst (heizung_can_callback e p f))"
  by (auto simp: gesperrt_def heizung_frame_reed)

lemma gesperrt_tick:
  assumes "gesperrt hid port n p" and "n < 60" and "\<not> pflegezeit (board_clock e) hid"
  shows "gesperrt hid port (Suc n) (hz_tick e p)"
proof -
  have v: "ventilpflege_counter (hz_tick e p) = 0"
    using assms by (simp add: tick_start_care gesperrt_def)
  have w: "pwm_width (hz_tick e p) = 0" if "Suc n < 60"
    using assms(1) that by (intro hz_tick_stopped) (simp add: gesperrt_def)
  have "\<not> valve (hz_tick e p)" if "2 \<le> Suc n"
    using assms(1,2) that by (intro hz_tick_closed v) (simp add: gesperrt_def)
  then show ?thesis
    using assms(1,2) v w by (simp add: gesperrt_def)
qed

lemma gesperrt_run:
  assumes "gesperrt hid port 0 p"
    and "\<forall>ev \<in> set evs. \<not> pflegezeit (board_clock (fst ev)) hid" and "ticks evs \<le> 60"
  shows "gesperrt hid port (ticks evs) (hz_run p evs)"
  using assms(2,3)
proof (induction evs rule: rev_induct)
  case Nil
  then show ?case using assms(1) by simp
next
  case (snoc ev evs)
  obtain e x where ev: "ev = (e, x)" by fastforce
  have IH: "gesperrt hid port (ticks evs) (hz_run p evs)" using snoc by simp
  show ?case
  proof (cases x)
    case (Frame f)
    then show ?thesis using gesperrt_frame [OF IH, of e f] ev by (simp add: dev_run_append)
  next
    case (Tick z)
    show ?thesis
    proof (cases "z = 1")
      case True
      then have "ticks evs < 60" "\<not> pflegezeit (board_clock e) hid" using snoc.prems ev Tick by simp_all
      from gesperrt_tick [OF IH this] show ?thesis using ev Tick True by (simp add: dev_run_append)
    next
      case False
      then show ?thesis using IH ev Tick by (simp add: dev_run_append)
    qed
  qed
qed

text \<open>Seconds without frames.\<close>

definition hz_seconds :: "board_env list \<Rightarrow> device_data_heizung \<Rightarrow> device_data_heizung" where
  "hz_seconds es p = fold hz_tick es p"

lemma hz_seconds_snoc [simp]: "hz_seconds [] p = p" "hz_seconds (es @ [e]) p = hz_tick e (hz_seconds es p)"
  by (simp_all add: hz_seconds_def)

lemma hz_seconds_mode:
  "unat (duration_counter (hz_seconds es p)) = unat (duration_counter p) - length es \<and>
   mode (hz_seconds es p) =
     (if 0 < unat (duration_counter p) \<and> unat (duration_counter p) \<le> length es
      then HEIZUNG_MODE_AUTOMATIK else mode p)"
proof (induction es rule: rev_induct)
  case (snoc e es)
  have "duration_counter (hz_seconds es p) = 1 \<longleftrightarrow> unat (duration_counter p) = Suc (length es)"
  proof -
    have "duration_counter (hz_seconds es p) = 1 \<longleftrightarrow> unat (duration_counter (hz_seconds es p)) = 1"
      by (metis unat_1 word_unat_eq_iff)
    then show ?thesis using snoc by linarith
  qed
  with snoc show ?case by auto
qed auto

lemma hz_seconds_care:
  assumes "pwm_width p = 0" and "unat (timer_counter p) < 6"
    and "length es < unat (ventilpflege_counter p)"
  shows "pwm_width (hz_seconds es p) = 0 \<and>
    unat (timer_counter (hz_seconds es p)) = (unat (timer_counter p) + length es) mod 6 \<and>
    unat (ventilpflege_counter (hz_seconds es p)) = unat (ventilpflege_counter p) - length es \<and>
    (es \<noteq> [] \<longrightarrow> valve (hz_seconds es p) = ((unat (timer_counter p) + length es) mod 6 = 0))"
  using assms(3)
proof (induction es rule: rev_induct)
  case Nil
  then show ?case using assms by simp
next
  case (snoc e es)
  let ?q = "hz_seconds es p"
  have IH: "pwm_width ?q = 0" "unat (timer_counter ?q) = (unat (timer_counter p) + length es) mod 6"
    "unat (ventilpflege_counter ?q) = unat (ventilpflege_counter p) - length es"
    using snoc by simp_all
  have v1: "1 < unat (ventilpflege_counter ?q)" using IH(3) snoc.prems by simp
  then have v: "ventilpflege_counter (hz_tick e ?q) = ventilpflege_counter ?q - 1"
      "unat (ventilpflege_counter (hz_tick e ?q)) = unat (ventilpflege_counter ?q) - 1"
    using unat_dec [of "ventilpflege_counter ?q"]
    by (auto simp: tick_start_care Let_def word_gt0_unat word_gt_0)
  have n: "ventilpflege_counter (hz_tick e ?q) \<noteq> 0"
    using v(2) v1 by (metis less_numeral_extra(3) unat_0 zero_less_diff)
  note c = hz_tick_care [OF IH(1) n]
  have m6: "(unat (timer_counter p) + length es) mod 6 < 6" by simp
  have t: "(timer_counter ?q \<ge> 5) = ((unat (timer_counter p) + Suc (length es)) mod 6 = 0)"
    using IH(2) m6 by (auto simp: word_le_nat_alt mod_Suc)
  have u: "unat (timer_counter (hz_tick e ?q)) = (unat (timer_counter p) + Suc (length es)) mod 6"
    using IH(2) m6 by (auto simp: word_le_nat_alt mod_Suc unat_inc_u8)
  show ?case using c v(2) IH t u by simp
qed

section \<open>An echo-free device\<close>

definition heizung_says :: "u8 \<Rightarrow> bool" where
  "heizung_says cmd \<longleftrightarrow> cmd = HCAN_HES_HEIZUNG_MODE_OFF_DETAILS \<or>
     cmd = HCAN_HES_HEIZUNG_MODE_MANUAL_DETAILS \<or> cmd = HCAN_HES_HEIZUNG_MODE_THERMOSTAT_DETAILS \<or>
     cmd = HCAN_HES_HEIZUNG_MODE_AUTOMATIK_DETAILS \<or> cmd = HCAN_HES_HEIZUNG_WAERMEBEDARF_INFO \<or>
     cmd = HCAN_HES_HEIZUNG_CONFIG_REPLAY \<or> cmd = HCAN_HES_HEIZUNG_TIST_REPLAY \<or>
     cmd = HCAN_HES_HEIZUNG_SOLLTEMP_LINE_REPLAY \<or> cmd = HCAN_HES_HEIZUNG_SOLLTEMP_WRITE_LINE_ACK"

lemma send_details_says [simp]:
  "says heizung_says (heizung_send_details e p d # os) = says heizung_says os"
  by (simp add: heizung_send_details_def heizung_says_def Let_def split: heizung_mode.splits option.splits)

lemma tick_parts_say [simp]:
  "says heizung_says (snd (hz_setpin b p))" "says heizung_says (snd (heizung_handle_pwm p))"
  "says heizung_says (snd (tick_duration e p))" "says heizung_says (snd (tick_automatik e p))"
  "says heizung_says (snd (tick_waermebedarf e p))"
  by (simp_all add: hz_setpin_def heizung_handle_pwm_def tick_duration_def tick_automatik_def
      tick_waermebedarf_def heizung_says_def Let_def split: option.splits)

lemma tick_regelung_says [simp]: "says heizung_says (snd (tick_regelung e p))"
  by (simp add: tick_regelung_def Let_def split: heizung_mode.splits)

lemma heizung_timer_says: "says heizung_says (snd (heizung_timer_handler e p z))"
  by (simp add: heizung_timer_handler_def tick_ende_def Let_def)

lemma heizung_callback_says: "says heizung_says (snd (heizung_can_callback e p f))"
proof -
  have "says heizung_says (snd (heizung_set_mode e p f))"
    by (simp add: heizung_set_mode_def Let_def)
  moreover have "says heizung_says (snd (solltemp_write_line p f))"
    by (simp add: solltemp_write_line_def Let_def)
  ultimately show ?thesis
    unfolding heizung_can_callback_def Let_def by (simp add: hes_answer_def heizung_says_def)
qed

lemma heizung_ignores: "heizung_says (byte_at fr 1) \<Longrightarrow> heizung_can_callback e p fr = (p, [])"
  unfolding heizung_says_def heizung_can_callback_def Let_def by (elim disjE) simp_all

lemma heizung_config_kept:
  "hz_config_ok (config (fst (heizung_can_callback e p f))) = hz_config_ok (config p)"
  by (simp only: hz_config_ok_def heizung_frame_sel)

lemma heizung_tick_config [simp]: "config (fst (heizung_timer_handler e p z)) = config p"
  by (cases "z = 1") simp_all

interpretation heizung_dev: echo_free_device "\<lambda>_. True" "\<lambda>p. hz_config_ok (config p)"
  heizung_can_callback heizung_timer_handler
  by (rule echo_free_deviceI [where P = heizung_says])
    (simp_all add: heizung_config_kept heizung_callback_says heizung_timer_says heizung_ignores)

section \<open>The valve's two positions\<close>

lemma get_pwm_closed: "mode p \<noteq> HEIZUNG_MODE_OFF \<Longrightarrow> pwm_end p \<noteq> 0 \<Longrightarrow> pwm_width p = 0 \<Longrightarrow> heizung_get_pwm p = 0"
  by (simp add: heizung_get_pwm_def)

lemma get_pwm_open:
  "mode p \<noteq> HEIZUNG_MODE_OFF \<Longrightarrow> pwm_end p \<noteq> 0 \<Longrightarrow> pwm_width p = pwm_end p \<Longrightarrow> heizung_get_pwm p = 100"
  by (simp add: heizung_get_pwm_def word_gt0_unat)

lemma set_pwm_full:
  "reed_heiz_stop_counter p = 0 \<Longrightarrow> pwm_width (heizung_set_pwm p 100) = ucast (c_pwm_periode (config p))"
  by (simp add: heizung_set_pwm_def Let_def)

lemma set_pwm_none: "pwm_width (heizung_set_pwm p 0) = 0"
  by (simp add: heizung_set_pwm_def Let_def heizung_update_heizstop_def)

lemma ucast_eq_0_u8: "(ucast (w :: u8) :: u16) = 0 \<longleftrightarrow> w = 0"
  by (metis unat_ucast_u16 unat_eq_zero)

lemma before_ende_received:
  "unat (received_interval_counter p) < 254 \<Longrightarrow>
   unat (received_interval_counter (before_ende e p)) < 255"
  by (cases "received_interval_counter p = 255")
    (simp_all add: before_ende_def tick_start_def Let_def heizung_check_ventilpflege_def unat_inc_u8)

section \<open>Properties\<close>

text \<open>A heating with a window contact in group 5, and the frames of the examples.\<close>

definition radiator :: device_data_heizung where
  "radiator = \<lparr>config = \<lparr>c_id = 1, c_port = 4, c_pwm_periode = 60, c_sensor_id = 20,
       c_lines = replicate 8 (200, 320), c_feature = 0, c_hysterese = 4, c_reeds = [5, 255, 255, 255, 255, 255, 255, 255]\<rparr>,
     it = 0, mode = HEIZUNG_MODE_THERMOSTAT, manual_rate = 0, timer_counter = 5, pwm_counter = 0,
     pwm_width = 60, pwm_end = 60, waermebedarf_counter = 30, received_interval_counter = 3,
     measure_value = 300, duration_counter = 100, thermostat_temp = 320, last_soll_temp = 320,
     reed_heiz_stop_counter = 0, ventilpflege_counter = 0, pins = (\<lambda>_. True)\<rparr>"

definition midnight :: board_env where
  "midnight = \<lparr>self_addr = 7, board_clock = canix_rtc_init, zonen = [], eep = (\<lambda>_. 0xff)\<rparr>"

lemma no_care_at_midnight [simp]: "\<not> pflegezeit (board_clock midnight) 1"
  by (simp add: midnight_def pflegezeit_def canix_rtc_init_def)

definition hz_frame :: "u8 list \<Rightarrow> canix_frame" where
  "hz_frame bs = hes_message 9 35 bs"

lemma byte_at_hz_frame [simp]: "byte_at (hz_frame bs) i = nth_default 0 (HCAN_SRV_HES # bs) i"
  by (simp add: hz_frame_def)

text \<open>
  An open window closes the valve: after the frame of one of its reed contacts
  the valve of a heating is closed after every second from the second one to the sixtieth,
  whatever frames (changes of mode, measurements, further contacts) come in between and
  whatever the zones and the clock are, except at the time of the weekly valve care.
\<close>

theorem open_window_closes_valve:
  assumes "byte_at f 1 = HCAN_HES_REEDKONTAKT_OFFEN" and "byte_at f 2 \<in> set (c_reeds (config p))"
    and "ventilpflege_counter p = 0"
    and "\<forall>ev \<in> set evs. \<not> pflegezeit (board_clock (fst ev)) (c_id (config p))"
    and "2 \<le> ticks evs" and "ticks evs \<le> 60"
  shows "\<not> valve (hz_run (fst (heizung_can_callback e p f)) evs)"
proof -
  have "gesperrt (c_id (config p)) (c_port (config p)) 0 (fst (heizung_can_callback e p f))"
    using assms(1-3) by (simp add: gesperrt_def heizung_frame_reed)
  from gesperrt_run [OF this assms(4,6)] assms(5) show ?thesis by (auto simp: gesperrt_def)
qed

theorem open_window_closes_valve_witness:
  "\<not> valve (hz_run (fst (heizung_can_callback midnight radiator (hz_frame [HCAN_HES_REEDKONTAKT_OFFEN, 5])))
     [(midnight, Tick 1), (midnight, Frame (hz_frame [HCAN_HES_HEIZUNG_SET_MODE_MANUAL, 1, 100, 0, 0])),
      (midnight, Tick 1)])"
  by (rule open_window_closes_valve) (simp_all add: radiator_def ticks_def)

text \<open>
  A temporary mode: an order for manual or thermostat mode with a duration of
  \<open>d\<close> seconds puts the heating into that mode for exactly \<open>d\<close> seconds, then it is in
  automatic mode, and the second that ends the mode announces the automatic mode.
\<close>

theorem temporary_mode_lasts:
  assumes "byte_at f 1 = HCAN_HES_HEIZUNG_SET_MODE_MANUAL \<and> m = HEIZUNG_MODE_MANUAL \<and>
        d = unat (mk16 (byte_at f 4) (byte_at f 5)) \<or>
      byte_at f 1 = HCAN_HES_HEIZUNG_SET_MODE_THERMOSTAT_DETAILS \<and> m = HEIZUNG_MODE_THERMOSTAT \<and>
        d = unat (mk16 (byte_at f 5) (byte_at f 6))"
    and "byte_at f 2 = c_id (config p)" and "0 < d"
  shows "let q = hz_seconds es (fst (heizung_can_callback e p f)) in
    mode q = (if length es < d then m else HEIZUNG_MODE_AUTOMATIK) \<and>
    (Suc (length es) = d \<longrightarrow> (\<exists>fr \<in> set (sent_frames (snd (heizung_timer_handler e' q 1))).
       byte_at fr 1 = HCAN_HES_HEIZUNG_MODE_AUTOMATIK_DETAILS \<and> dst fr = HCAN_MULTICAST_INFO))"
proof -
  let ?p = "fst (heizung_can_callback e p f)"
  let ?q = "hz_seconds es ?p"
  have "?p = fst (heizung_set_mode e p f)"
    using assms(1,2) by (auto simp: heizung_can_callback_def)
  then have p: "mode ?p = m" "unat (duration_counter ?p) = d"
    using assms(1) by (auto simp: heizung_set_mode_def Let_def)
  have q: "unat (duration_counter ?q) = d - length es"
    "mode ?q = (if length es < d then m else HEIZUNG_MODE_AUTOMATIK)"
    using hz_seconds_mode [of es ?p] p assms(3) by auto
  have "\<exists>fr \<in> set (sent_frames (snd (heizung_timer_handler e' ?q 1))).
       byte_at fr 1 = HCAN_HES_HEIZUNG_MODE_AUTOMATIK_DETAILS \<and> dst fr = HCAN_MULTICAST_INFO"
    if "Suc (length es) = d"
  proof -
    have "duration_counter ?q = 1" using q(1) that by (simp add: word_unat_eq_iff)
    then show ?thesis
      by (auto simp: heizung_timer_handler_def tick_duration_def heizung_send_details_def Let_def
          split: option.splits)
  qed
  then show ?thesis using q(2) by (simp add: Let_def)
qed

theorem temporary_mode_lasts_witness:
  "mode (hz_seconds [midnight] (fst (heizung_can_callback midnight radiator
       (hz_frame [HCAN_HES_HEIZUNG_SET_MODE_MANUAL, 1, 70, 0, 2])))) = HEIZUNG_MODE_MANUAL \<and>
   mode (hz_seconds [midnight, midnight] (fst (heizung_can_callback midnight radiator
       (hz_frame [HCAN_HES_HEIZUNG_SET_MODE_MANUAL, 1, 70, 0, 2])))) = HEIZUNG_MODE_AUTOMATIK"
proof -
  let ?f = "hz_frame [HCAN_HES_HEIZUNG_SET_MODE_MANUAL, 1, 70, 0, 2]"
  have h: "byte_at ?f 1 = HCAN_HES_HEIZUNG_SET_MODE_MANUAL \<and> HEIZUNG_MODE_MANUAL = HEIZUNG_MODE_MANUAL \<and>
        2 = unat (mk16 (byte_at ?f 4) (byte_at ?f 5)) \<or>
      byte_at ?f 1 = HCAN_HES_HEIZUNG_SET_MODE_THERMOSTAT_DETAILS \<and> HEIZUNG_MODE_MANUAL = HEIZUNG_MODE_THERMOSTAT \<and>
        2 = unat (mk16 (byte_at ?f 5) (byte_at ?f 6))"
    "byte_at ?f 2 = c_id (config radiator)" "0 < (2 :: nat)"
    by (simp_all add: radiator_def mk16_def)
  show ?thesis
    using temporary_mode_lasts [where es = "[midnight]" and e = midnight, OF h]
      temporary_mode_lasts [where es = "[midnight, midnight]" and e = midnight, OF h]
    by (simp add: Let_def)
qed

text \<open>
  Switching a heating off does not end a temporary mode's time: the duration of
  an earlier manual or thermostat order goes on running, and when it is over the heating
  that was switched off returns to automatic mode.
\<close>

theorem off_mode_ends_with_old_duration:
  assumes "byte_at f 1 = HCAN_HES_HEIZUNG_SET_MODE_OFF" and "byte_at f 2 = c_id (config p)"
    and "d = unat (duration_counter p)" and "0 < d"
  shows "mode (hz_seconds es (fst (heizung_can_callback e p f))) =
    (if length es < d then HEIZUNG_MODE_OFF else HEIZUNG_MODE_AUTOMATIK)"
proof -
  let ?p = "fst (heizung_can_callback e p f)"
  have "?p = fst (heizung_set_mode e p f)"
    using assms(1,2) by (simp add: heizung_can_callback_def)
  then have "mode ?p = HEIZUNG_MODE_OFF" "unat (duration_counter ?p) = d"
    using assms(1,3) by (simp_all add: heizung_set_mode_def Let_def)
  then show ?thesis using hz_seconds_mode [of es ?p] assms(4) by auto
qed

theorem off_mode_ends_with_old_duration_witness:
  "mode (hz_seconds (replicate 99 midnight) (fst (heizung_can_callback midnight radiator
       (hz_frame [HCAN_HES_HEIZUNG_SET_MODE_OFF, 1])))) = HEIZUNG_MODE_OFF \<and>
   mode (hz_seconds (replicate 100 midnight) (fst (heizung_can_callback midnight radiator
       (hz_frame [HCAN_HES_HEIZUNG_SET_MODE_OFF, 1])))) = HEIZUNG_MODE_AUTOMATIK"
proof -
  let ?f = "hz_frame [HCAN_HES_HEIZUNG_SET_MODE_OFF, 1]"
  have h: "byte_at ?f 1 = HCAN_HES_HEIZUNG_SET_MODE_OFF" "byte_at ?f 2 = c_id (config radiator)"
    "100 = unat (duration_counter radiator)" "0 < (100 :: nat)"
    by (simp_all add: radiator_def)
  show ?thesis
    using off_mode_ends_with_old_duration [where es = "replicate 99 midnight" and e = midnight, OF h]
      off_mode_ends_with_old_duration [where es = "replicate 100 midnight" and e = midnight, OF h]
    by simp
qed

text \<open>
  The valve care does not hold the valve open: in the ten minutes after it
  has begun for a heating that is switched off, the valve is open after one second in six and
  closed after the other five, because the modulation closes it again in the next second.
\<close>

theorem valve_care_pulses:
  assumes "mode p = HEIZUNG_MODE_OFF" and "ventilpflege_counter p = 0" and "pwm_width p = 0"
    and "unat (timer_counter p) < 6" and "pflegezeit (board_clock e) (c_id (config p))"
    and "length es < 600"
  shows "valve (hz_seconds es (hz_tick e p)) = ((unat (timer_counter p) + 1 + length es) mod 6 = 0)"
proof -
  let ?p = "hz_tick e p"
  have v: "ventilpflege_counter ?p = 600" using assms(1,2,5) by (simp add: tick_start_care)
  note c = hz_tick_care [OF assms(3), of e]
  have t: "unat (timer_counter ?p) = (unat (timer_counter p) + 1) mod 6"
    using assms(4) by (auto simp: word_le_nat_alt mod_Suc unat_inc_u8)
  have "valve ?p = ((unat (timer_counter p) + 1) mod 6 = 0)" "pwm_width ?p = 0"
    using c v assms(4) by (auto simp: word_le_nat_alt mod_Suc)
  moreover have "unat (timer_counter ?p) < 6" using t by simp
  ultimately show ?thesis
    using hz_seconds_care [of ?p es] assms(6) v t by (cases "es = []") (simp_all add: mod_simps)
qed

theorem valve_care_pulses_witness:
  "let sunday = midnight\<lparr>board_clock := canix_rtc_init\<lparr>day_of_week := 7, hour := 11, minute := 3\<rparr>\<rparr>;
       p = hz_tick sunday (radiator\<lparr>mode := HEIZUNG_MODE_OFF, pwm_width := 0\<rparr>)
   in valve p \<and> \<not> valve (hz_seconds [midnight] p) \<and> valve (hz_seconds (replicate 6 midnight) p)"
proof -
  define e where "e = midnight\<lparr>board_clock := canix_rtc_init\<lparr>day_of_week := 7, hour := 11, minute := 3\<rparr>\<rparr>"
  define p where "p = radiator\<lparr>mode := HEIZUNG_MODE_OFF, pwm_width := 0\<rparr>"
  have h: "mode p = HEIZUNG_MODE_OFF" "ventilpflege_counter p = 0" "pwm_width p = 0"
    "unat (timer_counter p) < 6" "pflegezeit (board_clock e) (c_id (config p))"
    by (simp_all add: p_def e_def radiator_def pflegezeit_def)
  have t: "unat (timer_counter p) = 5" by (simp add: p_def radiator_def)
  show ?thesis
    using valve_care_pulses [where es = "[]", OF h] valve_care_pulses [where es = "[midnight]", OF h]
      valve_care_pulses [where es = "replicate 6 midnight", OF h] t
    by (simp add: Let_def flip: p_def e_def)
qed

text \<open>
  The two-point controller with hysteresis, in the controller's second of
  thermostat mode: a valve that is closed opens fully when the measured temperature is more
  than the hysteresis below the set one, an open valve closes when it is more than the
  hysteresis above, and otherwise it stays as it is. Opening announces the demand for heat
  only 210 seconds later.
\<close>

theorem thermostat_hysteresis:
  assumes "mode p = HEIZUNG_MODE_THERMOSTAT" and "duration_counter p \<noteq> 1"
    and "timer_counter p = 5" and "reed_heiz_stop_counter p = 0"
    and "ventilpflege_counter (tick_start e p) = 0" and "unat (received_interval_counter p) < 254"
    and "pwm_end p = ucast (c_pwm_periode (config p))" and "c_pwm_periode (config p) \<noteq> 0"
    and "pwm_width p = 0 \<or> pwm_width p = pwm_end p"
    and "h = uint (c_hysterese (config p))" and "soll = sint (thermostat_temp p)"
    and "ist = sint (measure_value p)"
  shows "heizung_get_pwm (hz_tick e p) =
      (if heizung_get_pwm p = 0 then (if ist < soll - h then 100 else 0)
       else (if soll + h < ist then 0 else 100)) \<and>
    (heizung_get_pwm p = 0 \<and> ist < soll - h \<longrightarrow> waermebedarf_counter (hz_tick e p) = 209)"
proof -
  let ?b = "before_ende e p"
  define q where "q = ?b\<lparr>timer_counter := 0\<rparr>"
  define r where "r = heizung_set_pwm_by_temp q (thermostat_temp p) (measure_value p)"
  have q: "mode q = HEIZUNG_MODE_THERMOSTAT" "config q = config p" "pwm_end q = pwm_end p"
    "pwm_width q = pwm_width p" "reed_heiz_stop_counter q = 0" "thermostat_temp q = thermostat_temp p"
    "measure_value q = measure_value p" "ventilpflege_counter ?b = 0"
    using assms(1,2,4,5) by (simp_all add: q_def before_ende_def tick_heizstop_def tick_duration_mode)
  have rec: "received_interval_counter q < 255" "received_interval_counter q \<noteq> 255"
    using before_ende_received [OF assms(6), of e] by (auto simp: q_def word_less_nat_alt)
  have t: "hz_tick e p = fst (tick_waermebedarf e r)"
    using assms(3) q rec by (simp add: hz_tick_parts tick_ende_def tick_regelung_def r_def flip: q_def)
  have g: "heizung_get_pwm q = heizung_get_pwm p" using q assms(1) by (simp add: heizung_get_pwm_def)
  have e0: "pwm_end p \<noteq> 0" using assms(7,8) by (simp add: ucast_eq_0_u8)
  have r: "mode r = HEIZUNG_MODE_THERMOSTAT" "pwm_end r = pwm_end p"
    "pwm_width r = (if heizung_get_pwm p = 0 then (if ist < soll - h then pwm_end p else 0)
       else (if soll + h < ist then 0 else pwm_end p))"
    "heizung_get_pwm p = 0 \<and> ist < soll - h \<longrightarrow> waermebedarf_counter r = 210"
    using assms q g e0 get_pwm_closed [of p] get_pwm_open [of p]
    by (auto simp: r_def heizung_set_pwm_by_temp_def Let_def word_gt_0 set_pwm_full set_pwm_none)
  have "heizung_get_pwm (fst (tick_waermebedarf e r)) = heizung_get_pwm r"
    by (simp add: heizung_get_pwm_def)
  moreover have "received_interval_counter r \<noteq> 255" using rec by (simp add: r_def)
  ultimately show ?thesis
    using r e0 by (auto simp: t tick_waermebedarf_def Let_def get_pwm_closed get_pwm_open)
qed

theorem thermostat_hysteresis_witness:
  "let p = radiator\<lparr>measure_value := 325\<rparr>; q = radiator\<lparr>pwm_width := 0\<rparr> in
   heizung_get_pwm p = 100 \<and> heizung_get_pwm (hz_tick midnight p) = 0 \<and>
   heizung_get_pwm q = 0 \<and> heizung_get_pwm (hz_tick midnight q) = 100"
proof -
  define p where "p = radiator\<lparr>measure_value := 325\<rparr>"
  define q where "q = radiator\<lparr>pwm_width := 0\<rparr>"
  have c: "ventilpflege_counter (tick_start midnight r) = 0"
    if "ventilpflege_counter r = 0" "c_id (config r) = 1" for r
    using that by (simp add: tick_start_care)
  have g: "heizung_get_pwm p = 100" "heizung_get_pwm q = 0"
    by (simp_all add: p_def q_def radiator_def heizung_get_pwm_def)
  have "heizung_get_pwm (hz_tick midnight p) = 0"
    using thermostat_hysteresis [where p = p and e = midnight, OF _ _ _ _ c _ _ _ _ refl refl refl] g
    by (simp add: p_def radiator_def sint_u16)
  moreover have "heizung_get_pwm (hz_tick midnight q) = 100"
    using thermostat_hysteresis [where p = q and e = midnight, OF _ _ _ _ c _ _ _ _ refl refl refl] g
    by (simp add: q_def radiator_def sint_u16)
  ultimately show ?thesis using g by (simp add: Let_def p_def q_def)
qed

end
