(* ===== verification/Usv.thy ===== *)
theory Usv
  imports Hcan_Protocol
begin

text \<open>
  The uninterruptible power supply of the bus,
  \<^verbatim>\<open>src/firmwares/usv-modul/usvstatemachine.c\<close> and \<^verbatim>\<open>led.c\<close>: a
  state machine that switches the bus between the mains supply and a battery by the relay on
  output 7, driven by the voltages the analogue converter reads. Every single conversion of
  the converter is a parameter: \<open>raw k c\<close> are the sixteen conversions of the handler's
  \<open>k\<close>-th reading, of channel \<open>c\<close>. The handlers run to completion; the timer interrupt
  comes between them.
\<close>

section \<open>State\<close>

abbreviation (input) U1 :: u8 where "U1 \<equiv> 0"
abbreviation (input) U3 :: u8 where "U3 \<equiv> 2"
abbreviation (input) U4 :: u8 where "U4 \<equiv> 3"
abbreviation (input) U_SIZE :: nat where "U_SIZE \<equiv> 5"

abbreviation (input) V_23 :: u16 where "V_23 \<equiv> 784"
abbreviation (input) V_24 :: u16 where "V_24 \<equiv> 819"
abbreviation (input) U_BAT_WARNING :: u16 where "U_BAT_WARNING \<equiv> 836"
abbreviation (input) U_BAT_CRITICAL :: u16 where "U_BAT_CRITICAL \<equiv> 829"

text \<open>The LEDs: their wished states, the phase of the blinking and the port.\<close>

record leds =
  led_state :: "u8 list"
  led_timer_counter :: u8
  PORTC :: u8

text \<open>The variables of the module; \<open>second_counter\<close> is the static counter of the timer.\<close>

record usv =
  on_battery :: bool
  usv_timer :: u16
  switch_back_counter :: u16
  led_timer :: u8
  second_counter :: u8
  U_min :: "u16 list"
  U_max :: "u16 list"
  led :: leds

type_synonym conversions = "nat \<Rightarrow> u8 \<Rightarrow> u16 list"

section \<open>Light-emitting diodes\<close>

definition led_init :: leds where
  "led_init = \<lparr>led_state = replicate 8 0, led_timer_counter = 0, PORTC = 255\<rparr>"

definition led_set :: "u8 \<Rightarrow> u8 \<Rightarrow> leds \<Rightarrow> leds" where
  "led_set n state l =
     (let n = (if n > 7 then 0 else n) in l\<lparr>led_state := (led_state l)[unat n := state]\<rparr>)"

text \<open>LED \<open>n\<close> of 0 to 6 is at pin \<open>7 - n\<close>; the logic is negative.\<close>

definition led_enable :: "nat \<Rightarrow> bool \<Rightarrow> leds \<Rightarrow> leds" where
  "led_enable n enable l =
     (if n > 6 then l
      else if enable then l\<lparr>PORTC := PORTC l AND NOT (push_bit (7 - n) 1)\<rparr>
      else l\<lparr>PORTC := PORTC l OR push_bit (7 - n) 1\<rparr>)"

definition led_timer_handler :: "leds \<Rightarrow> leds" where
  "led_timer_handler l =
     (let l = l\<lparr>led_timer_counter := led_timer_counter l + 1\<rparr>;
          l = (if led_timer_counter l \<ge> 10 then l\<lparr>led_timer_counter := 0\<rparr> else l)
      in fold (\<lambda>i l. led_enable i (led_timer_counter l < led_state l ! i) l) [0..<7] l)"

section \<open>Measuring\<close>

text \<open>
  The sum of the conversions in 16 bits, their mean, and the correction by the factor 1.075,
  which on the controller's floating point numbers truncates to the same values for all means.
\<close>

definition adc_reach_channel :: "u16 list \<Rightarrow> u16" where
  "adc_reach_channel cs =
     (let result = drop_bit 4 (fold (\<lambda>c r. r + c) cs 0)
      in of_nat (unat result * 1075 div 1000))"

definition U_puffer :: "conversions \<Rightarrow> nat \<Rightarrow> u16" where
  "U_puffer raw k = adc_reach_channel (raw k U4)"

definition U_bat :: "conversions \<Rightarrow> nat \<Rightarrow> u16" where
  "U_bat raw k = adc_reach_channel (raw k U3)"

definition U_NT :: "conversions \<Rightarrow> nat \<Rightarrow> u16" where
  "U_NT raw k = adc_reach_channel (raw k U1)"

definition usv_reset_U_stats :: "usv \<Rightarrow> usv" where
  "usv_reset_U_stats s = s\<lparr>U_min := replicate U_SIZE 1023, U_max := replicate U_SIZE 0\<rparr>"

definition usv_update_stats :: "conversions \<Rightarrow> usv \<Rightarrow> usv" where
  "usv_update_stats raw s =
     fold (\<lambda>i s. (let U = adc_reach_channel (raw i (of_nat i));
                      s = (if U > U_max s ! i then s\<lparr>U_max := (U_max s)[i := U]\<rparr> else s)
                  in if U < U_min s ! i then s\<lparr>U_min := (U_min s)[i := U]\<rparr> else s))
       [0..<U_SIZE] s"

section \<open>Switching\<close>

definition flag8 :: "bool \<Rightarrow> u8" where
  "flag8 b = (if b then 1 else 0)"

definition usv_state_info :: "u16 \<Rightarrow> usv \<Rightarrow> out" where
  "usv_state_info self s =
     Send HCAN_PRIO_LOW (mk_frame self HCAN_MULTICAST_INFO HCAN_PROTO_SFP
       [HCAN_SRV_USVS, HCAN_USVS_STATE_INFO, flag8 (on_battery s)])"

definition switch_to_battery :: "u16 \<Rightarrow> usv \<Rightarrow> usv \<times> out list" where
  "switch_to_battery self s =
     (let s = s\<lparr>on_battery := True, usv_timer := 200, led := led_set 6 10 (led_set 3 0 (led s))\<rparr>
      in (s, [SetPin 7 True, usv_state_info self s]))"

definition switch_to_netzbetrieb :: "u16 \<Rightarrow> usv \<Rightarrow> usv \<times> out list" where
  "switch_to_netzbetrieb self s =
     (let s = s\<lparr>on_battery := False, usv_timer := 10, led := led_set 6 0 (led_set 3 10 (led s))\<rparr>
      in (s, [SetPin 7 False, usv_state_info self s]))"

definition usv_timer_handler :: "usv \<Rightarrow> usv" where
  "usv_timer_handler s =
     (let s = (if usv_timer s > 0 then s\<lparr>usv_timer := usv_timer s - 1\<rparr> else s);
          s = (if led_timer s = 0 then s\<lparr>led_timer := 9, led := led_timer_handler (led s)\<rparr>
               else s\<lparr>led_timer := led_timer s - 1\<rparr>)
      in if second_counter s = 0
         then (let s = s\<lparr>second_counter := 100\<rparr>
               in if switch_back_counter s > 0
                  then s\<lparr>switch_back_counter := switch_back_counter s - 1\<rparr> else s)
         else s\<lparr>second_counter := second_counter s - 1\<rparr>)"

definition usv_decide :: "u16 \<Rightarrow> conversions \<Rightarrow> usv \<Rightarrow> usv \<times> out list" where
  "usv_decide self raw s =
     (if U_puffer raw 5 \<le> V_23 then
        (if U_bat raw 6 > V_24 then
           (if \<not> on_battery s
            then andthen (switch_to_battery self s) (\<lambda>s. (s\<lparr>switch_back_counter := 30\<rparr>, []))
            else (s, []))
         else if on_battery s then switch_to_netzbetrieb self s else (s, []))
      else if U_NT raw 6 > V_24 \<and> switch_back_counter s = 0 then
        (if on_battery s then switch_to_netzbetrieb self s else (s, []))
      else (s, []))"

definition usv_update_leds :: "conversions \<Rightarrow> usv \<Rightarrow> usv" where
  "usv_update_leds raw s =
     s\<lparr>led :=
         led_set 5 (if U_bat raw 10 < U_BAT_CRITICAL then 5 else 0)
        (led_set 4 (if U_bat raw 9 < U_BAT_WARNING then 3 else 0)
        (led_set 2 (if U_NT raw 8 < V_23 then 10 else 0)
        (led_set 0 (if U_puffer raw 7 \<ge> V_23 then 10 else 0) (led s))))\<rparr>"

definition usv_state_handler :: "u16 \<Rightarrow> conversions \<Rightarrow> usv \<Rightarrow> usv \<times> out list" where
  "usv_state_handler self raw s =
     (let s = usv_update_stats raw s in
      if usv_timer s \<noteq> 0 then (s, [])
      else andthen (usv_decide self raw s) (\<lambda>s. (usv_update_leds raw s, [])))"

definition usv_can_callback :: "u16 \<Rightarrow> conversions \<Rightarrow> usv \<Rightarrow> canix_frame \<Rightarrow> usv \<times> out list" where
  "usv_can_callback self raw s f =
     (let cmd = byte_at f 1; n = unat (byte_at f 2 - 1);
          answer = (\<lambda>bs. Send HCAN_PRIO_LOW (mk_frame self (src f) HCAN_PROTO_SFP (HCAN_SRV_USVS # bs)))
      in
      if cmd = HCAN_USVS_STATE_REQUEST then
        (s, [answer [HCAN_USVS_STATE_INFO, flag8 (on_battery s)]])
      else if cmd = HCAN_USVS_VOLTAGE_REQUEST then
        (if n < 5
         then (let U = adc_reach_channel (raw 0 (of_nat n))
               in (s, [answer [HCAN_USVS_VOLTAGE_REPLAY, hi8 U, lo8 U]]))
         else (s, []))
      else if cmd = HCAN_USVS_VOLTAGE_STATS_REQUEST then
        (if n < 5
         then (s, [answer [HCAN_USVS_VOLTAGE_STATS_REPLAY, byte_at f 2, hi8 (U_min s ! n), lo8 (U_min s ! n),
                     hi8 (U_max s ! n), lo8 (U_max s ! n)]])
         else (s, []))
      else if cmd = HCAN_USVS_VOLTAGE_STATS_RESET then (usv_reset_U_stats s, [])
      else (s, []))"

text \<open>The state \<^verbatim>\<open>main\<close> enters the main loop with.\<close>

definition usv_main :: usv where
  "usv_main = usv_reset_U_stats
     \<lparr>on_battery = False, usv_timer = 0, switch_back_counter = 0, led_timer = 5, second_counter = 0,
      U_min = replicate U_SIZE 0, U_max = replicate U_SIZE 0,
      led = led_set 1 1 (led_set 6 0 (led_set 3 10 led_init))\<rparr>"

section \<open>The state machine\<close>

text \<open>
  What can happen to the running module: the timer interrupt, a turn of the main loop with
  its readings, a frame. A configuration is the module's state and its outputs.
\<close>

datatype usv_event = Timer | Turn conversions | Bus canix_frame conversions

inductive usv_step :: "u16 \<Rightarrow> usv \<times> (u8 \<Rightarrow> bool) \<Rightarrow> usv_event \<Rightarrow> usv \<times> (u8 \<Rightarrow> bool) \<Rightarrow> bool"
  for self :: u16 where
  timer: "usv_step self (s, ps) Timer (usv_timer_handler s, ps)"
| turn: "usv_state_handler self raw s = (s', os) \<Longrightarrow> usv_step self (s, ps) (Turn raw) (s', apply_pins ps os)"
| bus: "usv_can_callback self raw s f = (s', os) \<Longrightarrow>
    usv_step self (s, ps) (Bus f raw) (s', apply_pins ps os)"

inductive_cases usv_stepE: "usv_step self (s, ps) ev (s', ps')"

inductive_simps usv_step_simps [simp]:
  "usv_step self (s, ps) Timer c" "usv_step self (s, ps) (Turn raw) c" "usv_step self (s, ps) (Bus f raw) c"

text \<open>Runs, as the list of events.\<close>

inductive usv_run :: "u16 \<Rightarrow> usv \<times> (u8 \<Rightarrow> bool) \<Rightarrow> usv_event list \<Rightarrow> usv \<times> (u8 \<Rightarrow> bool) \<Rightarrow> bool"
  for self :: u16 where
  stop: "usv_run self c [] c"
| next_step: "usv_run self c evs c' \<Longrightarrow> usv_step self c' ev c'' \<Longrightarrow> usv_run self c (evs @ [ev]) c''"

section \<open>What the parts do\<close>

lemma led_set_sel [simp]:
  "length (led_state (led_set n x l)) = length (led_state l)"
  "PORTC (led_set n x l) = PORTC l" "led_timer_counter (led_set n x l) = led_timer_counter l"
  by (simp_all add: led_set_def Let_def)

lemma led_state_set:
  "n \<le> 7 \<Longrightarrow> length (led_state l) = 8 \<Longrightarrow> i < 8 \<Longrightarrow>
   led_state (led_set n x l) ! i = (if i = unat n then x else led_state l ! i)"
  by (auto simp: led_set_def Let_def not_less nth_list_update)

lemma led_enable_state [simp]: "led_state (led_enable i b l) = led_state l"
  by (simp add: led_enable_def)

lemma fold_keeps:
  assumes "\<And>i x. f (g i x) = f x" shows "f (fold g is x) = f x"
  using assms by (induction "is" arbitrary: x) simp_all

lemma led_timer_state [simp]: "led_state (led_timer_handler l) = led_state l"
  by (simp add: led_timer_handler_def Let_def fold_keeps [where f = led_state])

lemma update_stats_sel [simp]:
  "on_battery (usv_update_stats raw s) = on_battery s" "usv_timer (usv_update_stats raw s) = usv_timer s"
  "switch_back_counter (usv_update_stats raw s) = switch_back_counter s"
  "led (usv_update_stats raw s) = led s" "second_counter (usv_update_stats raw s) = second_counter s"
  unfolding usv_update_stats_def Let_def by (rule fold_keeps, simp)+

lemma timer_sel [simp]:
  "on_battery (usv_timer_handler s) = on_battery s"
  "led_state (led (usv_timer_handler s)) = led_state (led s)"
  "unat (usv_timer (usv_timer_handler s)) = unat (usv_timer s) - 1"
  using unat_dec [of "usv_timer s"] by (simp_all add: usv_timer_handler_def Let_def word_gt_0)

lemma update_leds_sel [simp]:
  "on_battery (usv_update_leds raw s) = on_battery s" "usv_timer (usv_update_leds raw s) = usv_timer s"
  "switch_back_counter (usv_update_leds raw s) = switch_back_counter s"
  "second_counter (usv_update_leds raw s) = second_counter s"
  by (simp_all add: usv_update_leds_def)

lemma callback_sel [simp]:
  "on_battery (fst (usv_can_callback self raw s f)) = on_battery s"
  "usv_timer (fst (usv_can_callback self raw s f)) = usv_timer s"
  "switch_back_counter (fst (usv_can_callback self raw s f)) = switch_back_counter s"
  "second_counter (fst (usv_can_callback self raw s f)) = second_counter s"
  "led (fst (usv_can_callback self raw s f)) = led s"
  "apply_pins ps (snd (usv_can_callback self raw s f)) = ps"
  by (simp_all add: usv_can_callback_def usv_reset_U_stats_def Let_def)

text \<open>The decision of a turn of the main loop.\<close>

lemma turn_decision:
  "on_battery (fst (usv_state_handler self raw s)) =
     (if usv_timer s \<noteq> 0 then on_battery s
      else if U_puffer raw 5 \<le> V_23 then U_bat raw 6 > V_24
      else on_battery s \<and> \<not> (U_NT raw 6 > V_24 \<and> switch_back_counter s = 0))"
  by (simp add: usv_state_handler_def usv_decide_def switch_to_battery_def switch_to_netzbetrieb_def Let_def)

section \<open>The mode, the relay and the display\<close>

text \<open>The relay on output 7 and the LEDs of the mode agree with the mode.\<close>

definition shown :: "usv \<times> (u8 \<Rightarrow> bool) \<Rightarrow> bool" where
  "shown c \<longleftrightarrow> (case c of (s, ps) \<Rightarrow>
     ps 7 = on_battery s \<and> length (led_state (led s)) = 8 \<and>
     led_state (led s) ! 3 = (if on_battery s then 0 else 10) \<and>
     led_state (led s) ! 6 = (if on_battery s then 10 else 0))"

lemma shown_decide:
  assumes "shown (s, ps)" and "usv_decide self raw s = (s', os)"
  shows "shown (s', apply_pins ps os)"
proof -
  have b: "shown (fst (switch_to_battery self s), apply_pins ps (snd (switch_to_battery self s)))"
    using assms(1) by (simp add: shown_def switch_to_battery_def Let_def led_state_set usv_state_info_def)
  have n: "shown (fst (switch_to_netzbetrieb self s), apply_pins ps (snd (switch_to_netzbetrieb self s)))"
    using assms(1) by (simp add: shown_def switch_to_netzbetrieb_def Let_def led_state_set usv_state_info_def)
  have "shown (fst (usv_decide self raw s), apply_pins ps (snd (usv_decide self raw s)))"
    using assms(1) b n by (simp add: usv_decide_def) (simp add: shown_def)
  then show ?thesis using assms(2) by simp
qed

lemma shown_turn:
  assumes "shown (s, ps)" and "usv_state_handler self raw s = (s', os)"
  shows "shown (s', apply_pins ps os)"
proof -
  let ?s = "usv_update_stats raw s"
  have st: "shown (?s, ps)" using assms(1) by (simp add: shown_def)
  obtain d o1 where d: "usv_decide self raw ?s = (d, o1)" by fastforce
  have "shown (usv_update_leds raw d, apply_pins ps o1)"
    using shown_decide [OF st d] by (simp add: shown_def usv_update_leds_def led_state_set)
  then show ?thesis using assms(2) st d by (auto simp: usv_state_handler_def Let_def split: if_splits)
qed

lemma shown_bus:
  "shown (s, ps) \<Longrightarrow> usv_can_callback self raw s f = (s', os) \<Longrightarrow> shown (s', apply_pins ps os)"
proof -
  assume sh: "shown (s, ps)" and e: "usv_can_callback self raw s f = (s', os)"
  from sh have "shown (fst (usv_can_callback self raw s f), apply_pins ps (snd (usv_can_callback self raw s f)))"
    by (simp only: callback_sel shown_def prod.case)
  then show ?thesis unfolding e by simp
qed

lemma shown_timer: "shown (s, ps) \<Longrightarrow> shown (usv_timer_handler s, ps)"
  by (simp add: shown_def)

lemma shown_step: "usv_step self (s, ps) ev (s', ps') \<Longrightarrow> shown (s, ps) \<Longrightarrow> shown (s', ps')"
  by (elim usv_stepE) (auto intro: shown_turn shown_bus shown_timer)

lemma usv_run_induct_shown: "usv_run self c evs c' \<Longrightarrow> shown c \<Longrightarrow> shown c'"
proof (induction rule: usv_run.induct)
  case (next_step c evs c' ev c'')
  obtain s ps s' ps' where "c' = (s, ps)" "c'' = (s', ps')" by fastforce
  then show ?case using next_step shown_step by blast
qed

section \<open>How long the battery is used\<close>

definition timers :: "usv_event list \<Rightarrow> nat" where
  "timers evs = length (filter (\<lambda>ev. ev = Timer) evs)"

lemma timers_snoc [simp]:
  "timers [] = 0" "timers (evs @ [ev]) = timers evs + (if ev = Timer then 1 else 0)"
  by (simp_all add: timers_def)

text \<open>The timer interrupts until the counter for switching back is zero.\<close>

definition remaining :: "usv \<Rightarrow> nat" where
  "remaining s = (if switch_back_counter s = 0 then 0
     else unat (second_counter s) + 1 + (unat (switch_back_counter s) - 1) * 101)"

lemma remaining_nat:
  "remaining s = (if unat (switch_back_counter s) = 0 then 0
     else unat (second_counter s) + 1 + (unat (switch_back_counter s) - 1) * 101)"
  by (simp add: remaining_def unat_eq_zero)

lemma remaining_timer: "remaining (usv_timer_handler s) = remaining s - 1"
proof -
  have b: "unat (switch_back_counter (usv_timer_handler s)) =
      (if unat (second_counter s) = 0 then unat (switch_back_counter s) - 1 else unat (switch_back_counter s))"
    using unat_dec [of "switch_back_counter s"]
    by (simp add: usv_timer_handler_def Let_def word_gt_0 unat_eq_zero)
  have c: "unat (second_counter (usv_timer_handler s)) =
      (if unat (second_counter s) = 0 then 100 else unat (second_counter s) - 1)"
    using unat_dec [of "second_counter s"]
    by (simp add: usv_timer_handler_def Let_def word_gt_0 unat_eq_zero)
  show ?thesis
  proof (cases "unat (switch_back_counter s)")
    case 0
    then show ?thesis using b by (simp add: remaining_nat)
  next
    case (Suc k)
    then show ?thesis using b c by (cases k) (simp_all add: remaining_nat)
  qed
qed

lemma remaining_positive: "0 < remaining s \<Longrightarrow> switch_back_counter s \<noteq> 0"
  by (auto simp: remaining_def)

text \<open>
  A module on battery that has just switched: the mode is kept while the blocking timer runs,
  and while the buffer's voltage is sufficient also until the second counter is zero.
\<close>

lemma step_on_battery:
  assumes "usv_step self (s, ps) ev (s', ps')" and "on_battery s"
    and "usv_timer s \<noteq> 0 \<or> ev = Timer \<or>
      (switch_back_counter s \<noteq> 0 \<and> (\<forall>raw. ev = Turn raw \<longrightarrow> \<not> U_puffer raw 5 \<le> V_23))"
  shows "on_battery s'"
  using assms(1)
proof (rule usv_stepE)
  fix raw os assume t: "ev = Turn raw" "usv_state_handler self raw s = (s', os)"
  have "on_battery (fst (usv_state_handler self raw s))"
    using assms(2,3) t(1) by (auto simp: turn_decision)
  then show ?thesis using t(2) by simp
next
  fix raw f os assume "usv_can_callback self raw s f = (s', os)"
  then show ?thesis using callback_sel(1) [of self raw s f] assms(2) by simp
qed (use assms(2) in simp)

text \<open>A turn that does not switch leaves the counters alone.\<close>

lemma turn_stays:
  assumes "usv_state_handler self raw s = (s', os)" and "on_battery s" and "on_battery s'"
  shows "usv_timer s' = usv_timer s" "remaining s' = remaining s"
  using assms
  by (auto simp: usv_state_handler_def usv_decide_def switch_to_netzbetrieb_def Let_def remaining_def
      split: if_splits)

lemma step_counters:
  assumes "usv_step self (s, ps) ev (s', ps')" and "on_battery s" and "on_battery s'"
  shows "unat (usv_timer s') = unat (usv_timer s) - (if ev = Timer then 1 else 0)"
    "remaining s' = remaining s - (if ev = Timer then 1 else 0)"
proof -
  have "unat (usv_timer s') = unat (usv_timer s) - (if ev = Timer then 1 else 0) \<and>
    remaining s' = remaining s - (if ev = Timer then 1 else 0)"
    using assms(1)
  proof (rule usv_stepE)
    fix raw os assume "ev = Turn raw" "usv_state_handler self raw s = (s', os)"
    then show ?thesis using turn_stays assms(2,3) by fastforce
  next
    fix raw f os assume b: "ev = Bus f raw" "usv_can_callback self raw s f = (s', os)"
    then show ?thesis using callback_sel(2-4) [of self raw s f] by (auto simp: remaining_def)
  qed (auto simp: remaining_timer)
  then show "unat (usv_timer s') = unat (usv_timer s) - (if ev = Timer then 1 else 0)"
    "remaining s' = remaining s - (if ev = Timer then 1 else 0)" by blast+
qed

lemma run_on_battery:
  assumes "usv_run self c evs c'" and "on_battery (fst c)"
    and "timers evs < unat (usv_timer (fst c)) \<or>
      (timers evs < remaining (fst c) \<and> (\<forall>raw. Turn raw \<in> set evs \<longrightarrow> \<not> U_puffer raw 5 \<le> V_23))"
  shows "on_battery (fst c') \<and> unat (usv_timer (fst c')) = unat (usv_timer (fst c)) - timers evs \<and>
    remaining (fst c') = remaining (fst c) - timers evs"
  using assms
proof (induction rule: usv_run.induct)
  case (next_step c evs c' ev c'')
  obtain s' ps' s'' ps'' where e: "c' = (s', ps')" "c'' = (s'', ps'')" by fastforce
  have IH: "on_battery s'" "unat (usv_timer s') = unat (usv_timer (fst c)) - timers evs"
    "remaining s' = remaining (fst c) - timers evs"
    using next_step.IH next_step.prems e by auto
  have "usv_timer s' \<noteq> 0 \<or> ev = Timer \<or>
      (switch_back_counter s' \<noteq> 0 \<and> (\<forall>raw. ev = Turn raw \<longrightarrow> \<not> U_puffer raw 5 \<le> V_23))"
  proof (cases "ev = Timer \<or> timers evs < unat (usv_timer (fst c))")
    case True
    then show ?thesis using IH(2) by (auto simp: word_gt0_unat)
  next
    case False
    then have "0 < remaining s'" using next_step.prems IH(3) by (auto split: if_splits)
    then show ?thesis using False next_step.prems by (auto dest: remaining_positive)
  qed
  with next_step.hyps(2) IH(1) have b: "on_battery s''" unfolding e by (rule step_on_battery)
  have "usv_step self (s', ps') ev (s'', ps'')" using next_step.hyps(2) unfolding e .
  from step_counters [OF this IH(1) b] show ?case using b IH e by auto
qed simp

section \<open>Properties\<close>

text \<open>
  In every state the module can reach from its start by timer interrupts, turns
  of the main loop with any readings and any frames, the relay on output 7 and the two LEDs
  for mains and battery operation agree with the mode, and a request for the state is
  answered with the mode the relay is in.
\<close>

theorem mode_relay_and_display_agree:
  assumes "usv_run self (usv_main, \<lambda>_. False) evs (s, ps)"
  shows "ps 7 = on_battery s \<and> led_state (led s) ! 3 = (if ps 7 then 0 else 10) \<and>
    led_state (led s) ! 6 = (if ps 7 then 10 else 0) \<and>
    (\<forall>f raw. byte_at f 1 = HCAN_USVS_STATE_REQUEST \<longrightarrow>
      sent_frames (snd (usv_can_callback self raw s f)) =
        [mk_frame self (src f) HCAN_PROTO_SFP [HCAN_SRV_USVS, HCAN_USVS_STATE_INFO, flag8 (ps 7)]])"
proof -
  have "shown (usv_main, \<lambda>_. False)"
    by (simp add: shown_def usv_main_def usv_reset_U_stats_def led_state_set led_init_def)
  from usv_run_induct_shown [OF assms this] show ?thesis
    by (simp add: shown_def usv_can_callback_def Let_def)
qed

text \<open>Readings of a breakdown: the buffer at 19 volts, the battery and the rest at 25 volts.\<close>

definition breakdown :: conversions where
  "breakdown k c = replicate 16 (if c = U4 then 600 else 800)"

lemma fold_conversions: "((\<lambda>r. r + x) ^^ n) z = (z + of_nat n * x :: u16)"
  by (induction n) (simp_all add: algebra_simps)

lemma breakdown_values [simp]: "U_puffer breakdown k = 645" "U_bat breakdown k = 860" "U_NT breakdown k = 860"
  by (simp_all add: breakdown_def U_puffer_def U_bat_def U_NT_def adc_reach_channel_def fold_conversions)

theorem mode_relay_and_display_agree_witness:
  "\<exists>s ps. usv_run 7 (usv_main, \<lambda>_. False) [Timer, Turn breakdown] (s, ps) \<and> on_battery s \<and> ps 7 \<and>
     led_state (led s) ! 6 = 10"
proof -
  let ?s = "usv_timer_handler usv_main"
  obtain s os where r: "usv_state_handler 7 breakdown ?s = (s, os)" by fastforce
  have "usv_run 7 (usv_main, \<lambda>_. False) ([] @ [Timer]) (?s, \<lambda>_. False)"
    by (rule usv_run.next_step [OF usv_run.stop]) simp
  then have run: "usv_run 7 (usv_main, \<lambda>_. False) (([] @ [Timer]) @ [Turn breakdown]) (s, apply_pins (\<lambda>_. False) os)"
    by (rule usv_run.next_step) (simp add: r)
  have "usv_timer ?s = 0" "on_battery ?s = False"
    by (simp_all add: usv_main_def usv_reset_U_stats_def usv_timer_handler_def Let_def)
  then have "on_battery s"
    using turn_decision [of 7 breakdown ?s] r by simp
  then show ?thesis
    using mode_relay_and_display_agree [OF run] run
    by (intro exI [of _ s] exI [of _ "apply_pins (\<lambda>_. False) os"]) auto
qed

text \<open>
  After the change to battery operation the relay does not flutter: whatever the
  voltages are, the module stays on battery for the next 199 interrupts (2 seconds); and
  while the buffer's voltage suffices it stays on battery for at least 2929 interrupts (29.3
  seconds), even when the mains voltage is back.
\<close>

theorem battery_operation_is_held:
  assumes "usv_state_handler self raw s = (s0, os)" and "\<not> on_battery s" and "on_battery s0"
    and "usv_run self (s0, ps) evs (s', ps')"
    and "timers evs < 200 \<or>
      (timers evs < 2930 \<and> (\<forall>raw. Turn raw \<in> set evs \<longrightarrow> \<not> U_puffer raw 5 \<le> V_23))"
  shows "on_battery s'"
proof -
  have "usv_timer s0 = 200" "switch_back_counter s0 = 30"
    using assms(1-3)
    by (auto simp: usv_state_handler_def usv_decide_def switch_to_battery_def Let_def split: if_splits)
  then have "usv_timer s0 = 200" "2930 \<le> remaining s0" by (simp_all add: remaining_def)
  then have t: "timers evs < unat (usv_timer s0) \<or>
      (timers evs < remaining s0 \<and> (\<forall>raw. Turn raw \<in> set evs \<longrightarrow> \<not> U_puffer raw 5 \<le> V_23))"
    using assms(5) by auto
  show ?thesis using run_on_battery [OF assms(4)] t assms(3) by simp
qed

theorem battery_operation_is_held_witness:
  "\<exists>s0 os s' ps'. usv_state_handler 7 breakdown usv_main = (s0, os) \<and>
     usv_run 7 (s0, apply_pins (\<lambda>_. False) os) [Turn breakdown] (s', ps') \<and> on_battery s'"
proof -
  obtain s0 os where r: "usv_state_handler 7 breakdown usv_main = (s0, os)" by fastforce
  obtain s' os' where r': "usv_state_handler 7 breakdown s0 = (s', os')" by fastforce
  have m: "usv_timer usv_main = 0" "\<not> on_battery usv_main"
    by (simp_all add: usv_main_def usv_reset_U_stats_def)
  then have b: "on_battery s0" using turn_decision [of 7 breakdown usv_main] r by simp
  let ?ps = "apply_pins (\<lambda>_. False) os"
  have "usv_run 7 (s0, ?ps) ([] @ [Turn breakdown]) (s', apply_pins ?ps os')"
    by (rule usv_run.next_step [OF usv_run.stop]) (simp add: r')
  then have run: "usv_run 7 (s0, ?ps) [Turn breakdown] (s', apply_pins ?ps os')" by simp
  have "on_battery s'"
    by (rule battery_operation_is_held [OF r m(2) b run]) (simp add: timers_def)
  then show ?thesis using r run by blast
qed

end
