(* ===== verification/Dcf77.thy ===== *)
theory Dcf77
  imports Canix_Rtc
begin

text \<open>
  The radio clock receiver \<^verbatim>\<open>src/firmwares/controllerboard/dcf77_receiver.c\<close>: the
  level of the receiver's input, sampled every hundredth of a second, is measured as pulses
  and periods, the pulses are decoded into the bits of the minute telegram, and a telegram
  without errors is sent as time and date to the bus. The flags of the C struct are \<open>bool\<close>;
  the level of the input port is a parameter of every tick.
\<close>

section \<open>State\<close>

text \<open>\<^verbatim>\<open>eds_dcf77_receiver_block_t\<close>, from \<^verbatim>\<open>src/xml/eds.xml\<close>.\<close>

record dcf77_config =
  c_level :: u8
  c_takeover_time :: u16
  c_id :: u8
  c_enable_error_reporting :: u8

record device_data_dcf77_receiver =
  config :: dcf77_config
  last_time_frame_received :: u8
  last_time_frame_sent :: u8
  newtime :: canix_rtc_clock
  time :: canix_rtc_clock
  timeflags :: u8
  dcf77_pulse :: u8
  dcf77_period :: u8
  ct_100Hz :: u8
  dcf77error :: u8
  reported_dcf77errors :: u8
  reported_minute :: u8
  valid_flag :: bool
  report_flag :: bool
  dcf77_time :: u8
  dcf77_input_old :: bool
  parity :: bool

abbreviation (input) DCF77_NO_SIGNAL :: u8 where "DCF77_NO_SIGNAL \<equiv> 0x80"
abbreviation (input) DCF77_ILLEGAL_PERIOD_LENGTH :: u8 where "DCF77_ILLEGAL_PERIOD_LENGTH \<equiv> 0x40"
abbreviation (input) DCF77_ILLEGAL_PULSE_LENGTH :: u8 where "DCF77_ILLEGAL_PULSE_LENGTH \<equiv> 0x20"
abbreviation (input) DCF77_PARITY_ERROR :: u8 where "DCF77_PARITY_ERROR \<equiv> 0x10"
abbreviation (input) ONE_TICK_FLAG :: u8 where "ONE_TICK_FLAG \<equiv> 1"
abbreviation (input) ONE_SECOND_FLAG :: u8 where "ONE_SECOND_FLAG \<equiv> 2"

text \<open>
  \<^verbatim>\<open>TICKS_PER_SECOND\<close> is 100, \<^verbatim>\<open>TICKS_ZERO\<close> 10,
  \<^verbatim>\<open>TICKS_ONE\<close> 20 and \<^verbatim>\<open>TICK_ERROR\<close> 2.
\<close>

definition dcf77_receiver_init :: "device_data_dcf77_receiver \<Rightarrow> device_data_dcf77_receiver" where
  "dcf77_receiver_init p =
     p\<lparr>last_time_frame_received := 0, dcf77error := 0, reported_dcf77errors := 0,
       time := (time p)\<lparr>second := 0\<rparr>, timeflags := 0, dcf77_pulse := 0, dcf77_period := 0,
       ct_100Hz := 0, reported_minute := -1, valid_flag := False, report_flag := False,
       dcf77_time := 0, dcf77_input_old := False, parity := False\<rparr>"

section \<open>From levels to pulses\<close>

definition send_info :: "u16 \<Rightarrow> u8 list \<Rightarrow> out" where
  "send_info self bs = Send HCAN_PRIO_LOW (mk_frame self HCAN_MULTICAST_INFO HCAN_PROTO_SFP bs)"

definition dcf77_handler ::
  "u16 \<Rightarrow> bool \<Rightarrow> device_data_dcf77_receiver \<Rightarrow> device_data_dcf77_receiver \<times> out list" where
  "dcf77_handler self level p =
     (let p = (if dcf77_time p \<noteq> 0xFF then p\<lparr>dcf77_time := dcf77_time p + 1\<rparr>
               else p\<lparr>dcf77error := dcf77error p OR DCF77_NO_SIGNAL\<rparr>);
          (p, os) =
            (if level \<noteq> dcf77_input_old p then
               (let p = p\<lparr>dcf77_input_old := level\<rparr> in
                if level then (p\<lparr>dcf77_period := dcf77_time p, dcf77_time := 0\<rparr>, [])
                else
                  (let p = p\<lparr>dcf77_pulse := dcf77_time p\<rparr> in
                   (p, if c_enable_error_reporting (config p) \<noteq> 0
                       then [send_info self [HCAN_SRV_HES, HCAN_HES_DCF77_PULSE_DURATION,
                               c_id (config p), dcf77_pulse p]]
                       else [])))
             else (p, []));
          p = p\<lparr>ct_100Hz := ct_100Hz p + 1\<rparr>
      in if ct_100Hz p < 100 then (p\<lparr>timeflags := ONE_TICK_FLAG\<rparr>, os)
         else (p\<lparr>timeflags := ONE_SECOND_FLAG XOR ONE_TICK_FLAG, ct_100Hz := 0\<rparr>, os))"

section \<open>From pulses to the telegram\<close>

definition BITNO :: "u8 list" where
  "BITNO = [0x20, 0x21, 0x22, 0x23, 0x24, 0x25, 0x26, 0xFF,
     0x10, 0x11, 0x12, 0x13, 0x14, 0x15, 0xFF,
     0x50, 0x51, 0x52, 0x53, 0x54, 0x55,
     0x00, 0x01, 0x02,
     0x60, 0x61, 0x62, 0x63, 0x64,
     0x70, 0x71, 0x72, 0x73, 0x74, 0x75, 0x76, 0x77, 0xFF]"

definition BMASK :: "u8 list" where
  "BMASK = [1, 2, 4, 8, 10, 20, 40, 80]"

text \<open>
  The byte at an offset from \<^verbatim>\<open>day_of_week\<close> in \<^verbatim>\<open>canix_rtc_clock_t\<close>.
\<close>

definition clock_byte :: "u8 \<Rightarrow> canix_rtc_clock \<Rightarrow> u8" where
  "clock_byte i c = [day_of_week c, hour c, minute c, second c, last_date_update c, day_of_month c,
     month_of_year c, year c] ! unat i"

definition set_clock_byte :: "u8 \<Rightarrow> u8 \<Rightarrow> canix_rtc_clock \<Rightarrow> canix_rtc_clock" where
  "set_clock_byte i v c =
     (if i = 0 then c\<lparr>day_of_week := v\<rparr> else if i = 1 then c\<lparr>hour := v\<rparr>
      else if i = 2 then c\<lparr>minute := v\<rparr> else if i = 3 then c\<lparr>second := v\<rparr>
      else if i = 4 then c\<lparr>last_date_update := v\<rparr> else if i = 5 then c\<lparr>day_of_month := v\<rparr>
      else if i = 6 then c\<lparr>month_of_year := v\<rparr> else c\<lparr>year := v\<rparr>)"

text \<open>
  What a bit does to the decoder's part of the state: the telegram so far (whose
  \<open>second\<close> counts the bits), the parity and the errors.
\<close>

type_synonym decoder = "canix_rtc_clock \<times> bool \<times> u8"

definition write_bit :: "u8 \<Rightarrow> bool \<Rightarrow> canix_rtc_clock \<Rightarrow> canix_rtc_clock" where
  "write_bit code pulse c =
     (let d = drop_bit 4 code; i = code AND 0x0F;
          c = (if i = 0 then set_clock_byte d 0 c else c)
      in if pulse then set_clock_byte d (clock_byte d c + BMASK ! unat i) c else c)"

definition decode_bit :: "bool \<Rightarrow> decoder \<Rightarrow> decoder" where
  "decode_bit pulse st =
     (let (c, par, err) = st; i = second c - 21 in
      if unat i \<ge> length BITNO then st
      else
        (let par = (par \<noteq> pulse); code = BITNO ! unat i in
         if code = 0xFF then (c, False, if par then err OR DCF77_PARITY_ERROR else err)
         else (write_bit code pulse c, par, err)))"

definition decode_dcf77 :: "bool \<Rightarrow> device_data_dcf77_receiver \<Rightarrow> device_data_dcf77_receiver" where
  "decode_dcf77 pulse p =
     (let (c, par, err) = decode_bit pulse (newtime p, parity p, dcf77error p)
      in p\<lparr>newtime := c, parity := par, dcf77error := err\<rparr>)"

definition scan_pulse :: "device_data_dcf77_receiver \<Rightarrow> device_data_dcf77_receiver" where
  "scan_pulse p =
     (if dcf77_pulse p \<noteq> 0 then
        (let w = dcf77_pulse p;
             p = (if w > 10 - 2 - 1 \<and> w < 10 + 2 + 1 then decode_dcf77 False p
                  else if w > 20 - 2 - 1 \<and> w < 20 + 2 + 1 then decode_dcf77 True p
                  else p\<lparr>dcf77error := dcf77error p OR DCF77_ILLEGAL_PULSE_LENGTH\<rparr>)
         in p\<lparr>dcf77_pulse := 0\<rparr>)
      else p)"

definition new_minute :: "device_data_dcf77_receiver \<Rightarrow> device_data_dcf77_receiver" where
  "new_minute p =
     (let n = newtime p;
          p = (if dcf77error p = 0 \<and> second n = 59
               then p\<lparr>valid_flag := True, ct_100Hz := 0,
                      time := (time p)\<lparr>minute := minute n, hour := hour n, day_of_week := day_of_week n,
                        day_of_month := day_of_month n, month_of_year := month_of_year n,
                        year := year n\<rparr>\<rparr>
               else p)
      in p\<lparr>newtime := (newtime p)\<lparr>second := 0\<rparr>, dcf77error := 0, report_flag := True\<rparr>)"

definition scan_period :: "device_data_dcf77_receiver \<Rightarrow> device_data_dcf77_receiver" where
  "scan_period p =
     (if dcf77_period p \<noteq> 0 then
        (let d = dcf77_period p;
             p = (if second (newtime p) < 60
                  then p\<lparr>newtime := (newtime p)\<lparr>second := second (newtime p) + 1\<rparr>\<rparr> else p);
             p = (if d > 2 * 100 - 2 - 2 - 1 \<and> d < 2 * 100 + 2 + 1 then new_minute p
                  else if d < 100 - 2 - 1 \<or> d > 100 + 2
                  then p\<lparr>dcf77error := dcf77error p OR DCF77_ILLEGAL_PERIOD_LENGTH\<rparr>
                  else p)
         in p\<lparr>dcf77_period := 0\<rparr>)
      else p)"

definition scan_dcf77 :: "device_data_dcf77_receiver \<Rightarrow> device_data_dcf77_receiver" where
  "scan_dcf77 p = scan_period (scan_pulse (p\<lparr>reported_dcf77errors := dcf77error p\<rparr>))"

section \<open>The timer handler\<close>

definition dcf77_report ::
  "u16 \<Rightarrow> canix_rtc_clock \<Rightarrow> device_data_dcf77_receiver \<Rightarrow> device_data_dcf77_receiver \<times> out list" where
  "dcf77_report self clk p =
     (if report_flag p then
        (let p = p\<lparr>report_flag := False\<rparr>; c = config p; t = time p in
         if reported_dcf77errors p \<noteq> 0 \<and> c_enable_error_reporting c \<noteq> 0 \<and>
            minute clk \<noteq> reported_minute p
         then (p\<lparr>reported_minute := minute clk\<rparr>,
               [send_info self [HCAN_SRV_HES, HCAN_HES_DCF77_ERROR, c_id c, reported_dcf77errors p]])
         else if ucast (last_time_frame_received p) \<ge> c_takeover_time c \<and> valid_flag p
         then (p\<lparr>last_time_frame_sent := 0, valid_flag := False\<rparr>,
               [send_info self [HCAN_SRV_RTS, HCAN_RTS_TIME_INFO, c_level c, day_of_week t, hour t,
                  minute t, second t],
                send_info self [HCAN_SRV_RTS, HCAN_RTS_DATE_INFO, c_level c, day_of_month t,
                  month_of_year t, year t]])
         else (p, []))
      else (p, []))"

definition dcf77_receiver_timer_handler ::
  "u16 \<Rightarrow> canix_rtc_clock \<Rightarrow> bool \<Rightarrow> device_data_dcf77_receiver \<Rightarrow> u8 \<Rightarrow>
   device_data_dcf77_receiver \<times> out list" where
  "dcf77_receiver_timer_handler self clk level p zyklus =
     (if zyklus \<noteq> 100 then (p, [])
      else
        andthen (dcf77_handler self level p)
          (\<lambda>p. (let p = scan_dcf77 p;
                    p = (if last_time_frame_received p < 255 \<and> timeflags p AND ONE_SECOND_FLAG \<noteq> 0
                         then p\<lparr>last_time_frame_received := last_time_frame_received p + 1\<rparr> else p);
                    p = (if second clk = 0 \<and> reported_dcf77errors p \<ge> DCF77_NO_SIGNAL
                         then p\<lparr>report_flag := True\<rparr> else p)
                in andthen (dcf77_report self clk p) (\<lambda>p. (p\<lparr>timeflags := 0\<rparr>, [])))))"

section \<open>Single ticks\<close>

abbreviation dcf_tick ::
  "u16 \<Rightarrow> canix_rtc_clock \<Rightarrow> bool \<Rightarrow> device_data_dcf77_receiver \<Rightarrow> device_data_dcf77_receiver" where
  "dcf_tick self clk level p \<equiv> fst (dcf77_receiver_timer_handler self clk level p 100)"

definition dview :: "device_data_dcf77_receiver \<Rightarrow> decoder" where
  "dview p = (newtime p, parity p, dcf77error p)"

lemma report_sel [simp]:
  "config (fst (dcf77_report self clk p)) = config p" "newtime (fst (dcf77_report self clk p)) = newtime p"
  "time (fst (dcf77_report self clk p)) = time p" "dcf77_pulse (fst (dcf77_report self clk p)) = dcf77_pulse p"
  "dcf77_period (fst (dcf77_report self clk p)) = dcf77_period p"
  "dcf77error (fst (dcf77_report self clk p)) = dcf77error p"
  "dcf77_time (fst (dcf77_report self clk p)) = dcf77_time p"
  "dcf77_input_old (fst (dcf77_report self clk p)) = dcf77_input_old p"
  "parity (fst (dcf77_report self clk p)) = parity p"
  "last_time_frame_received (fst (dcf77_report self clk p)) = last_time_frame_received p"
  by (simp_all add: dcf77_report_def Let_def)

lemma report_valid: "valid_flag (fst (dcf77_report self clk p)) \<Longrightarrow> valid_flag p"
  by (simp add: dcf77_report_def Let_def split: if_splits)

definition measured :: "u16 \<Rightarrow> bool \<Rightarrow> device_data_dcf77_receiver \<Rightarrow> device_data_dcf77_receiver" where
  "measured self level p = scan_dcf77 (fst (dcf77_handler self level p))"

lemma dcf_tick_sel [simp]:
  "config (dcf_tick self clk l p) = config (measured self l p)"
  "newtime (dcf_tick self clk l p) = newtime (measured self l p)"
  "time (dcf_tick self clk l p) = time (measured self l p)"
  "dcf77_pulse (dcf_tick self clk l p) = dcf77_pulse (measured self l p)"
  "dcf77_period (dcf_tick self clk l p) = dcf77_period (measured self l p)"
  "dcf77error (dcf_tick self clk l p) = dcf77error (measured self l p)"
  "dcf77_time (dcf_tick self clk l p) = dcf77_time (measured self l p)"
  "dcf77_input_old (dcf_tick self clk l p) = dcf77_input_old (measured self l p)"
  "parity (dcf_tick self clk l p) = parity (measured self l p)"
  by (simp_all add: dcf77_receiver_timer_handler_def measured_def Let_def)

lemma tick_valid: "valid_flag (dcf_tick self clk l p) \<Longrightarrow> valid_flag (measured self l p)"
  by (auto simp: dcf77_receiver_timer_handler_def measured_def Let_def dest!: report_valid split: if_splits)

lemma tick_received:
  "unat (last_time_frame_received (measured self l p)) \<le> unat (last_time_frame_received (dcf_tick self clk l p))"
  by (auto simp: dcf77_receiver_timer_handler_def measured_def Let_def word_less_nat_alt unat_inc_u8)

text \<open>The measuring of the three kinds of ticks.\<close>

lemma handler_sel [simp]:
  "config (fst (dcf77_handler self l p)) = config p" "newtime (fst (dcf77_handler self l p)) = newtime p"
  "time (fst (dcf77_handler self l p)) = time p" "parity (fst (dcf77_handler self l p)) = parity p"
  "valid_flag (fst (dcf77_handler self l p)) = valid_flag p"
  "dcf77_input_old (fst (dcf77_handler self l p)) = l"
  "last_time_frame_received (fst (dcf77_handler self l p)) = last_time_frame_received p"
  "dcf77_time p \<noteq> 255 \<Longrightarrow> dcf77error (fst (dcf77_handler self l p)) = dcf77error p"
  "dcf77_time p \<noteq> 255 \<Longrightarrow> dcf77_time (fst (dcf77_handler self l p)) =
     (if l \<and> \<not> dcf77_input_old p then 0 else dcf77_time p + 1)"
  "dcf77_time p \<noteq> 255 \<Longrightarrow> dcf77_period (fst (dcf77_handler self l p)) =
     (if l \<and> \<not> dcf77_input_old p then dcf77_time p + 1 else dcf77_period p)"
  "dcf77_time p \<noteq> 255 \<Longrightarrow> dcf77_pulse (fst (dcf77_handler self l p)) =
     (if \<not> l \<and> dcf77_input_old p then dcf77_time p + 1 else dcf77_pulse p)"
  by (auto simp: dcf77_handler_def Let_def)

lemma decode_sel [simp]:
  "config (decode_dcf77 b p) = config p" "time (decode_dcf77 b p) = time p"
  "valid_flag (decode_dcf77 b p) = valid_flag p" "dcf77_time (decode_dcf77 b p) = dcf77_time p"
  "dcf77_input_old (decode_dcf77 b p) = dcf77_input_old p" "dcf77_period (decode_dcf77 b p) = dcf77_period p"
  "dcf77_pulse (decode_dcf77 b p) = dcf77_pulse p"
  "last_time_frame_received (decode_dcf77 b p) = last_time_frame_received p"
  "dview (decode_dcf77 b p) = decode_bit b (dview p)"
  by (simp_all add: decode_dcf77_def dview_def split: prod.splits)

lemma scan_pulse_sel [simp]:
  "config (scan_pulse p) = config p" "time (scan_pulse p) = time p"
  "valid_flag (scan_pulse p) = valid_flag p" "dcf77_time (scan_pulse p) = dcf77_time p"
  "dcf77_input_old (scan_pulse p) = dcf77_input_old p" "dcf77_period (scan_pulse p) = dcf77_period p"
  "last_time_frame_received (scan_pulse p) = last_time_frame_received p"
  "dcf77_pulse (scan_pulse p) = 0"
  by (simp_all add: scan_pulse_def Let_def)

lemma scan_period_sel [simp]:
  "config (scan_period p) = config p" "dcf77_time (scan_period p) = dcf77_time p"
  "dcf77_input_old (scan_period p) = dcf77_input_old p" "dcf77_period (scan_period p) = 0"
  "dcf77_pulse (scan_period p) = dcf77_pulse p" "parity (scan_period p) = parity p"
  "last_time_frame_received (scan_period p) = last_time_frame_received p"
  by (simp_all add: scan_period_def new_minute_def Let_def)

lemma dview_scan [simp]: "dview (p\<lparr>reported_dcf77errors := e\<rparr>) = dview p" "dview (p\<lparr>dcf77_pulse := w\<rparr>) = dview p"
  "dview (p\<lparr>dcf77_period := d\<rparr>) = dview p"
  by (simp_all add: dview_def)

text \<open>A pulse of legal width, as the value of the bit it stands for.\<close>

definition legal_pulse :: "bool \<Rightarrow> nat \<Rightarrow> bool" where
  "legal_pulse b w \<longleftrightarrow> (if b then 18 \<le> w \<and> w \<le> 22 else 8 \<le> w \<and> w \<le> 12)"

lemma scan_pulse_legal:
  assumes "legal_pulse b (unat (dcf77_pulse p))"
  shows "dview (scan_pulse p) = decode_bit b (dview p)"
proof -
  have "dcf77_pulse p \<noteq> 0" using assms by (auto simp: legal_pulse_def split: if_splits)
  then show ?thesis
    using assms by (cases b) (auto simp: scan_pulse_def Let_def legal_pulse_def word_less_nat_alt)
qed

definition bump :: "decoder \<Rightarrow> decoder" where
  "bump st = (let (c, par, err) = st in (if second c < 60 then c\<lparr>second := second c + 1\<rparr> else c, par, err))"

lemma scan_period_legal:
  assumes "97 \<le> unat (dcf77_period p)" and "unat (dcf77_period p) \<le> 102"
  shows "dview (scan_period p) = bump (dview p)" "time (scan_period p) = time p"
    "valid_flag (scan_period p) = valid_flag p"
proof -
  have "dcf77_period p \<noteq> 0" using assms by auto
  then show "dview (scan_period p) = bump (dview p)" "time (scan_period p) = time p"
    "valid_flag (scan_period p) = valid_flag p"
    using assms
    by (auto simp: scan_period_def Let_def word_less_nat_alt dview_def bump_def)
qed

lemma scan_period_none: "dcf77_period p = 0 \<Longrightarrow> scan_period p = p"
  by (simp add: scan_period_def)

lemma scan_pulse_none: "dcf77_pulse p = 0 \<Longrightarrow> scan_pulse p = p"
  by (simp add: scan_pulse_def)

section \<open>Runs over a sequence of levels\<close>

text \<open>The clock of the board may be anything at every tick.\<close>

inductive dcf_run ::
  "u16 \<Rightarrow> device_data_dcf77_receiver \<Rightarrow> bool list \<Rightarrow> device_data_dcf77_receiver \<Rightarrow> bool"
  for self :: u16 where
  stop: "dcf_run self p [] p"
| tick: "dcf_run self (dcf_tick self clk l p) ls q \<Longrightarrow> dcf_run self p (l # ls) q"

inductive_cases dcf_run_ConsE: "dcf_run self p (l # ls) q"

inductive_simps dcf_run_Nil [simp]: "dcf_run self p [] q"

lemma dcf_run_appendE:
  assumes "dcf_run self p (xs @ ys) q"
  obtains r where "dcf_run self p xs r" "dcf_run self r ys q"
  using assms
proof (induction xs arbitrary: p thesis)
  case Nil
  then show ?case by (simp add: dcf_run.stop)
next
  case (Cons x xs)
  from Cons.prems(2) obtain clk where "dcf_run self (dcf_tick self clk x p) (xs @ ys) q"
    by (auto elim: dcf_run_ConsE)
  then show ?case
  proof (rule Cons.IH [rotated])
    fix r assume "dcf_run self (dcf_tick self clk x p) xs r" "dcf_run self r ys q"
    then show thesis by (intro Cons.prems(1) [of r] dcf_run.tick)
  qed
qed

definition steady :: "device_data_dcf77_receiver \<Rightarrow> device_data_dcf77_receiver \<Rightarrow> bool" where
  "steady p q \<longleftrightarrow> config q = config p \<and> time q = time p \<and> (valid_flag q \<longrightarrow> valid_flag p) \<and>
     unat (last_time_frame_received p) \<le> unat (last_time_frame_received q)"

lemma steady_refl [simp]: "steady p p"
  by (simp add: steady_def)

lemma steady_trans: "steady p q \<Longrightarrow> steady q r \<Longrightarrow> steady p r"
  by (auto simp: steady_def)

definition at_level :: "bool \<Rightarrow> nat \<Rightarrow> device_data_dcf77_receiver \<Rightarrow> bool" where
  "at_level l t p \<longleftrightarrow> dcf77_input_old p = l \<and> unat (dcf77_time p) = t \<and> dcf77_pulse p = 0 \<and> dcf77_period p = 0"

lemma dview_tick: "dview (dcf_tick self clk l p) = dview (measured self l p)"
  by (simp only: dview_def dcf_tick_sel)

lemma dview_handler: "dcf77_time p \<noteq> 255 \<Longrightarrow> dview (fst (dcf77_handler self l p)) = dview p"
  by (simp add: dview_def)

lemma steady_tick:
  assumes "config (measured self l p) = config p" "time (measured self l p) = time p"
    "valid_flag (measured self l p) = valid_flag p"
    "last_time_frame_received (measured self l p) = last_time_frame_received p"
  shows "steady p (dcf_tick self clk l p)"
  using assms tick_valid [of self clk l p] tick_received [of self l p clk] by (auto simp: steady_def)

lemma not_255: "unat (dcf77_time p) < 255 \<Longrightarrow> dcf77_time p \<noteq> 255"
  by auto

lemma quiet_tick:
  assumes "at_level l t p" and "t < 255"
  shows "at_level l (Suc t) (dcf_tick self clk l p)" "dview (dcf_tick self clk l p) = dview p"
    "steady p (dcf_tick self clk l p)"
proof -
  have n: "dcf77_time p \<noteq> 255" "unat (dcf77_time p) < 255" using assms by (auto simp: at_level_def)
  have m: "measured self l p = (fst (dcf77_handler self l p))
      \<lparr>reported_dcf77errors := dcf77error (fst (dcf77_handler self l p))\<rparr>"
    using assms(1) n(1) by (simp add: measured_def scan_dcf77_def scan_pulse_none scan_period_none at_level_def)
  show "at_level l (Suc t) (dcf_tick self clk l p)"
    using assms n unat_inc_u8 [OF n(2)] by (simp add: at_level_def m)
  show "dview (dcf_tick self clk l p) = dview p"
    using n(1) by (simp add: dview_tick m dview_handler)
  show "steady p (dcf_tick self clk l p)" by (rule steady_tick) (simp_all add: m)
qed

lemma quiet_run:
  "dcf_run self p (replicate n l) q \<Longrightarrow> at_level l t p \<Longrightarrow> t + n \<le> 255 \<Longrightarrow>
   at_level l (t + n) q \<and> dview q = dview p \<and> steady p q"
proof (induction n arbitrary: p t)
  case (Suc n)
  from Suc.prems(1) obtain clk where r: "dcf_run self (dcf_tick self clk l p) (replicate n l) q"
    by (auto elim: dcf_run_ConsE)
  have "t < 255" using Suc.prems by simp
  note k = quiet_tick [OF Suc.prems(2) this, of self clk]
  from Suc.IH [OF r k(1)] k Suc.prems(3) show ?case by (auto intro: steady_trans)
qed (simp add: at_level_def)

lemma falling_tick:
  assumes "at_level True t p" and "t < 255" and "legal_pulse b (Suc t)"
  shows "at_level False (Suc t) (dcf_tick self clk False p)"
    "dview (dcf_tick self clk False p) = decode_bit b (dview p)"
    "steady p (dcf_tick self clk False p)"
proof -
  let ?h = "fst (dcf77_handler self False p)"
  have n: "dcf77_time p \<noteq> 255" "unat (dcf77_time p) < 255" "unat (dcf77_time p + 1) = Suc t"
    using assms unat_inc_u8 [of "dcf77_time p"] by (auto simp: at_level_def)
  have h: "dcf77_pulse ?h = dcf77_time p + 1" "dcf77_period ?h = 0"
    using assms(1) n(1) by (simp_all add: at_level_def)
  have m: "measured self False p = scan_pulse (?h\<lparr>reported_dcf77errors := dcf77error ?h\<rparr>)"
    using h by (simp add: measured_def scan_dcf77_def scan_period_none)
  show "at_level False (Suc t) (dcf_tick self clk False p)"
    using assms(1) n h by (simp add: at_level_def m)
  show "dview (dcf_tick self clk False p) = decode_bit b (dview p)"
    using assms(3) n h by (simp add: dview_tick m scan_pulse_legal dview_handler)
  show "steady p (dcf_tick self clk False p)" by (rule steady_tick) (simp_all add: m)
qed

text \<open>A rising edge: what the scan sees is the period.\<close>

lemma rising_measured:
  assumes "at_level False t p" and "t < 255"
  obtains r where "measured self True p = scan_period r" "unat (dcf77_period r) = Suc t" "dview r = dview p"
    "time r = time p" "config r = config p" "valid_flag r = valid_flag p" "dcf77_time r = 0"
    "dcf77_input_old r" "dcf77_pulse r = 0" "last_time_frame_received r = last_time_frame_received p"
    "reported_dcf77errors r = dcf77error p"
proof -
  let ?h = "fst (dcf77_handler self True p)"
  have n: "dcf77_time p \<noteq> 255" "unat (dcf77_time p) < 255" "unat (dcf77_time p + 1) = Suc t"
    using assms unat_inc_u8 [of "dcf77_time p"] by (auto simp: at_level_def)
  have h: "dcf77_pulse ?h = 0" "dcf77_period ?h = dcf77_time p + 1" "dcf77_time ?h = 0"
    using assms(1) n(1) by (simp_all add: at_level_def)
  show thesis
    by (rule that [of "?h\<lparr>reported_dcf77errors := dcf77error ?h\<rparr>"])
      (use h n in \<open>simp_all add: measured_def scan_dcf77_def scan_pulse_none dview_handler\<close>)
qed

lemma rising_tick:
  assumes "at_level False t p" and "96 \<le> t" and "t \<le> 101"
  shows "at_level True 0 (dcf_tick self clk True p)" "dview (dcf_tick self clk True p) = bump (dview p)"
    "steady p (dcf_tick self clk True p)"
proof -
  have "t < 255" using assms by simp
  from rising_measured [OF assms(1) this, of self] obtain r where
    r: "measured self True p = scan_period r" "unat (dcf77_period r) = Suc t" "dview r = dview p"
    "time r = time p" "config r = config p" "valid_flag r = valid_flag p" "dcf77_time r = 0"
    "dcf77_input_old r" "dcf77_pulse r = 0" "last_time_frame_received r = last_time_frame_received p"
    by metis
  have l: "97 \<le> unat (dcf77_period r)" "unat (dcf77_period r) \<le> 102" using r(2) assms by simp_all
  note k = scan_period_legal [OF l]
  show "at_level True 0 (dcf_tick self clk True p)" using r by (simp add: at_level_def)
  show "dview (dcf_tick self clk True p) = bump (dview p)" using r k by (simp add: dview_tick)
  show "steady p (dcf_tick self clk True p)" by (rule steady_tick) (use r k in simp_all)
qed

text \<open>
  A second of the transmitter as the receiver samples it, from the rising edge that begins
  its pulse to the next one: \<open>w\<close> high ticks and the rest of \<open>d\<close> ticks low.
\<close>

definition pulse_levels :: "nat \<Rightarrow> nat \<Rightarrow> bool list" where
  "pulse_levels w d = replicate (w - 1) True @ replicate (d - w) False"

definition second_levels :: "nat \<Rightarrow> nat \<Rightarrow> bool list" where
  "second_levels w d = pulse_levels w d @ [True]"

lemma pulse_run:
  assumes "dcf_run self p (pulse_levels w d) q" and "at_level True 0 p" and "legal_pulse b w"
    and "w < d" and "d \<le> 255"
  shows "at_level False (d - 1) q \<and> dview q = decode_bit b (dview p) \<and> steady p q"
proof -
  have w: "0 < w" "w \<le> 22" using assms(3) by (auto simp: legal_pulse_def split: if_splits)
  from assms(1) obtain p1 where
    r1: "dcf_run self p (replicate (w - 1) True) p1" and r2: "dcf_run self p1 (replicate (d - w) False) q"
    unfolding pulse_levels_def by (rule dcf_run_appendE)
  have q1: "at_level True (w - 1) p1" "dview p1 = dview p" "steady p p1"
    using quiet_run [OF r1 assms(2)] w by simp_all
  obtain k where k: "d - w = Suc k" using assms(4) by (metis Suc_diff_Suc)
  then obtain clk where r2': "dcf_run self (dcf_tick self clk False p1) (replicate k False) q"
    using r2 by (auto elim: dcf_run_ConsE)
  have lt: "w - 1 < 255" "legal_pulse b (Suc (w - 1))" using w assms(3) by simp_all
  note f = falling_tick [OF q1(1) lt, of self clk]
  have "Suc (w - 1) + k \<le> 255" "Suc (w - 1) + k = d - 1" using w k assms(4,5) by simp_all
  then show ?thesis
    using quiet_run [OF r2' f(1)] f q1 by (auto intro: steady_trans)
qed

lemma second_run:
  assumes "dcf_run self p (second_levels w d) q" and "at_level True 0 p" and "legal_pulse b w"
    and "97 \<le> d" and "d \<le> 102"
  shows "at_level True 0 q \<and> dview q = bump (decode_bit b (dview p)) \<and> steady p q"
proof -
  have wd: "w < d" "d \<le> 255" using assms(3-5) by (auto simp: legal_pulse_def split: if_splits)
  from assms(1) obtain r where
    r: "dcf_run self p (pulse_levels w d) r" and "dcf_run self r [True] q"
    unfolding second_levels_def by (rule dcf_run_appendE)
  then obtain clk where q: "q = dcf_tick self clk True r" by (auto elim: dcf_run_ConsE)
  have l: "at_level False (d - 1) r" "dview r = decode_bit b (dview p)" "steady p r"
    using pulse_run [OF r assms(2,3) wd] by simp_all
  have "96 \<le> d - 1" "d - 1 \<le> 101" using assms(4,5) by simp_all
  from rising_tick [OF l(1) this, of self clk] l q show ?thesis by (auto intro: steady_trans)
qed

text \<open>A sequence of seconds, as triples of the bit, the width and the duration.\<close>

definition legal_second :: "bool \<times> nat \<times> nat \<Rightarrow> bool" where
  "legal_second s \<longleftrightarrow> (case s of (b, w, d) \<Rightarrow> legal_pulse b w \<and> 97 \<le> d \<and> d \<le> 102)"

definition wave :: "(bool \<times> nat \<times> nat) list \<Rightarrow> bool list" where
  "wave ss = concat (map (\<lambda>(b, w, d). second_levels w d) ss)"

definition telegram :: "bool list \<Rightarrow> decoder \<Rightarrow> decoder" where
  "telegram bs st = fold (\<lambda>b st. bump (decode_bit b st)) bs st"

lemma seconds_run:
  "dcf_run self p (wave ss) q \<Longrightarrow> at_level True 0 p \<Longrightarrow> \<forall>s \<in> set ss. legal_second s \<Longrightarrow>
   at_level True 0 q \<and> dview q = telegram (map fst ss) (dview p) \<and> steady p q"
proof (induction ss arbitrary: p)
  case (Cons s ss)
  obtain b w d where s: "s = (b, w, d)" by (cases s) auto
  from Cons.prems(1) obtain p1 where
    r: "dcf_run self p (second_levels w d) p1" "dcf_run self p1 (wave ss) q"
    unfolding wave_def s by (auto elim: dcf_run_appendE)
  have l: "legal_pulse b w" "97 \<le> d" "d \<le> 102" using Cons.prems(3) s by (simp_all add: legal_second_def)
  have p1: "at_level True 0 p1" "dview p1 = bump (decode_bit b (dview p))" "steady p p1"
    using second_run [OF r(1) Cons.prems(2) l] by simp_all
  from Cons.IH [OF r(2) p1(1)] Cons.prems(3) p1 s show ?case
    by (auto simp: telegram_def intro: steady_trans)
qed (simp add: wave_def telegram_def)

section \<open>Decoding the telegram\<close>

definition even_parity :: "bool list \<Rightarrow> bool" where
  "even_parity bs = fold (\<noteq>) bs False"

text \<open>The digits of a two-digit number, \<open>k\<close> bits for the tens, lowest bit first.\<close>

definition bcd :: "nat \<Rightarrow> nat \<Rightarrow> bool list" where
  "bcd k n = map (bit (n mod 10)) [0..<4] @ map (bit (n div 10)) [0..<k]"

definition with_parity :: "bool list \<Rightarrow> bool list" where
  "with_parity bs = bs @ [even_parity bs]"

text \<open>The telegram of a minute: 21 bits of other contents, then the time and the date.\<close>

definition minute_telegram :: "bool list \<Rightarrow> nat \<Rightarrow> nat \<Rightarrow> nat \<Rightarrow> nat \<Rightarrow> nat \<Rightarrow> nat \<Rightarrow> bool list" where
  "minute_telegram other mi h d dow mon yr =
     other @ with_parity (bcd 3 mi) @ with_parity (bcd 2 h) @
     with_parity (bcd 2 d @ map (bit dow) [0..<3] @ bcd 1 mon @ bcd 4 yr)"

definition weight :: "bool \<Rightarrow> u8 \<Rightarrow> u8" where
  "weight b v = (if b then v else 0)"

lemma telegram_Cons: "telegram (b # bs) st = telegram bs (bump (decode_bit b st))"
  by (simp add: telegram_def)

lemma telegram_append: "telegram (xs @ ys) st = telegram ys (telegram xs st)"
  by (simp add: telegram_def)

lemma telegram_Nil [simp]: "telegram [] st = st"
  by (simp add: telegram_def)

lemma telegram_other:
  "length bs \<le> 21 \<Longrightarrow> second c = 0 \<Longrightarrow>
   telegram bs (c, par, err) = (c\<lparr>second := of_nat (length bs)\<rparr>, par, err)"
proof (induction bs rule: rev_induct)
  case (snoc b bs)
  let ?n = "length bs"
  have "unat ((of_nat ?n :: u8) - 21) = ?n + 235"
  proof -
    have e: "(of_nat ?n :: u8) - 21 = of_nat (?n + 235)" by simp
    have "unat (of_nat (?n + 235) :: u8) = ?n + 235"
      using snoc.prems(1) by (intro unat_of_nat_u8) simp
    then show ?thesis unfolding e .
  qed
  moreover have "(of_nat ?n :: u8) < 60" using snoc.prems(1) by (simp add: word_less_nat_alt)
  ultimately show ?case
    using snoc by (simp add: telegram_append telegram_Cons decode_bit_def BITNO_def Let_def bump_def)
qed simp

text \<open>One bit of the table, by its code.\<close>

lemma write_bit_code:
  "write_bit 0x20 b c = c\<lparr>minute := weight b 1\<rparr>"
  "write_bit 0x21 b c = c\<lparr>minute := minute c + weight b 2\<rparr>" "write_bit 0x22 b c = c\<lparr>minute := minute c + weight b 4\<rparr>"
  "write_bit 0x23 b c = c\<lparr>minute := minute c + weight b 8\<rparr>" "write_bit 0x24 b c = c\<lparr>minute := minute c + weight b 10\<rparr>"
  "write_bit 0x25 b c = c\<lparr>minute := minute c + weight b 20\<rparr>" "write_bit 0x26 b c = c\<lparr>minute := minute c + weight b 40\<rparr>"
  "write_bit 0x10 b c = c\<lparr>hour := weight b 1\<rparr>"
  "write_bit 0x11 b c = c\<lparr>hour := hour c + weight b 2\<rparr>" "write_bit 0x12 b c = c\<lparr>hour := hour c + weight b 4\<rparr>"
  "write_bit 0x13 b c = c\<lparr>hour := hour c + weight b 8\<rparr>" "write_bit 0x14 b c = c\<lparr>hour := hour c + weight b 10\<rparr>"
  "write_bit 0x15 b c = c\<lparr>hour := hour c + weight b 20\<rparr>"
  "write_bit 0x50 b c = c\<lparr>day_of_month := weight b 1\<rparr>"
  "write_bit 0x51 b c = c\<lparr>day_of_month := day_of_month c + weight b 2\<rparr>"
  "write_bit 0x52 b c = c\<lparr>day_of_month := day_of_month c + weight b 4\<rparr>"
  "write_bit 0x53 b c = c\<lparr>day_of_month := day_of_month c + weight b 8\<rparr>"
  "write_bit 0x54 b c = c\<lparr>day_of_month := day_of_month c + weight b 10\<rparr>"
  "write_bit 0x55 b c = c\<lparr>day_of_month := day_of_month c + weight b 20\<rparr>"
  "write_bit 0 b c = c\<lparr>day_of_week := weight b 1\<rparr>"
  "write_bit 1 b c = c\<lparr>day_of_week := day_of_week c + weight b 2\<rparr>"
  "write_bit 2 b c = c\<lparr>day_of_week := day_of_week c + weight b 4\<rparr>"
  "write_bit 0x60 b c = c\<lparr>month_of_year := weight b 1\<rparr>"
  "write_bit 0x61 b c = c\<lparr>month_of_year := month_of_year c + weight b 2\<rparr>"
  "write_bit 0x62 b c = c\<lparr>month_of_year := month_of_year c + weight b 4\<rparr>"
  "write_bit 0x63 b c = c\<lparr>month_of_year := month_of_year c + weight b 8\<rparr>"
  "write_bit 0x64 b c = c\<lparr>month_of_year := month_of_year c + weight b 10\<rparr>"
  "write_bit 0x70 b c = c\<lparr>year := weight b 1\<rparr>"
  "write_bit 0x71 b c = c\<lparr>year := year c + weight b 2\<rparr>" "write_bit 0x72 b c = c\<lparr>year := year c + weight b 4\<rparr>"
  "write_bit 0x73 b c = c\<lparr>year := year c + weight b 8\<rparr>" "write_bit 0x74 b c = c\<lparr>year := year c + weight b 10\<rparr>"
  "write_bit 0x75 b c = c\<lparr>year := year c + weight b 20\<rparr>" "write_bit 0x76 b c = c\<lparr>year := year c + weight b 40\<rparr>"
  "write_bit 0x77 b c = c\<lparr>year := year c + weight b 80\<rparr>"
  by (simp_all add: write_bit_def set_clock_byte_def clock_byte_def BMASK_def weight_def Let_def)

lemma decode_step:
  assumes "second c = of_nat (21 + k)" and "k < 38" and "BITNO ! k = code"
  shows "bump (decode_bit b (c, par, err)) =
    (if code = 0xFF then (c\<lparr>second := of_nat (22 + k)\<rparr>, False, if par \<noteq> b then err OR DCF77_PARITY_ERROR else err)
     else ((write_bit code b c)\<lparr>second := of_nat (22 + k)\<rparr>, par \<noteq> b, err))"
proof -
  have "k \<in> set [0..<38]" using assms(2) by simp
  also have "[0..<38] = [0, 1, 2, 3, 4, 5, 6, 7, 8, 9, 10, 11, 12, 13, 14, 15, 16, 17, 18, 19, 20, 21, 22, 23,
      24, 25, 26, 27, 28, 29, 30, 31, 32, 33, 34, 35, 36, 37]"
    by (simp add: upt_conv_Cons)
  finally show ?thesis
    using assms(1) unfolding assms(3) [symmetric] list.set
    by (elim insertE emptyE)
      (simp_all add: decode_bit_def bump_def BITNO_def write_bit_code Let_def)
qed

text \<open>A group of bits of the table, starting at its entry \<open>k\<close>, and its parity bit.\<close>

fun write_group :: "nat \<Rightarrow> bool list \<Rightarrow> canix_rtc_clock \<Rightarrow> canix_rtc_clock" where
  "write_group k [] c = c"
| "write_group k (b # bs) c = write_group (Suc k) bs ((write_bit (BITNO ! k) b c)\<lparr>second := of_nat (22 + k)\<rparr>)"

lemma fold_parity: "fold (\<noteq>) bs x = (x \<noteq> fold (\<noteq>) bs False)"
proof (induction bs arbitrary: x)
  case (Cons b bs)
  have "fold (\<noteq>) bs (b \<noteq> x) = ((b \<noteq> x) \<noteq> fold (\<noteq>) bs False)"
    "fold (\<noteq>) bs (b \<noteq> False) = ((b \<noteq> False) \<noteq> fold (\<noteq>) bs False)"
    by (rule Cons.IH)+
  then show ?case unfolding fold_simps by argo
qed simp

lemma even_parity_simps [simp]:
  "even_parity [] = False" "even_parity (b # bs) = (b \<noteq> even_parity bs)"
  unfolding even_parity_def fold_simps by (simp, subst fold_parity, argo)

lemma telegram_group:
  "second c = of_nat (21 + k) \<Longrightarrow> k + length bs \<le> 38 \<Longrightarrow> \<forall>i < length bs. BITNO ! (k + i) \<noteq> 0xFF \<Longrightarrow>
   telegram bs (c, par, err) = (write_group k bs c, par \<noteq> even_parity bs, err) \<and>
   second (write_group k bs c) = of_nat (21 + k + length bs)"
proof (induction bs arbitrary: k c par)
  case (Cons b bs)
  have k: "k < 38" "BITNO ! k \<noteq> 0xFF" using Cons.prems by (auto dest: spec [of _ 0])
  have nx: "\<forall>i < length bs. BITNO ! (Suc k + i) \<noteq> 0xFF" using Cons.prems(3) by auto
  let ?c = "(write_bit (BITNO ! k) b c)\<lparr>second := of_nat (22 + k)\<rparr>"
  have sc: "second ?c = of_nat (21 + Suc k)" by simp
  have st: "bump (decode_bit b (c, par, err)) = (?c, par \<noteq> b, err)"
    using decode_step [OF Cons.prems(1) k(1) refl] k(2) by simp
  have "Suc k + length bs \<le> 38" using Cons.prems(2) by simp
  from Cons.IH [OF sc this nx, of "par \<noteq> b"] show ?case
    by (auto simp: telegram_Cons st)
qed simp

lemma telegram_parity_group:
  assumes "second c = of_nat (21 + k)" and "k + length bs < 38"
    and "\<forall>i < length bs. BITNO ! (k + i) \<noteq> 0xFF" and "BITNO ! (k + length bs) = 0xFF"
  shows "telegram (bs @ [pb]) (c, False, err) =
    ((write_group k bs c)\<lparr>second := of_nat (22 + k + length bs)\<rparr>, False,
     if pb = even_parity bs then err else err OR DCF77_PARITY_ERROR)"
proof -
  have le: "k + length bs \<le> 38" using assms(2) by simp
  note g = telegram_group [OF assms(1) le assms(3), of False err]
  have s: "second (write_group k bs c) = of_nat (21 + (k + length bs))"
    using g unfolding add.assoc by blast
  have t: "telegram bs (c, False, err) = (write_group k bs c, even_parity bs, err)" using g by simp
  show ?thesis
    unfolding telegram_append t telegram_Cons telegram_Nil decode_step [OF s assms(2,4)]
    by (auto simp: add.assoc)
qed

text \<open>The three groups of a telegram, and what they write.\<close>

lemma group_codes:
  "\<forall>i < 7. BITNO ! (0 + i) \<noteq> 0xFF" "BITNO ! (0 + 7) = 0xFF"
  "\<forall>i < 6. BITNO ! (8 + i) \<noteq> 0xFF" "BITNO ! (8 + 6) = 0xFF"
  "\<forall>i < 22. BITNO ! (15 + i) \<noteq> 0xFF" "BITNO ! (15 + 22) = 0xFF"
proof -
  have "list_all (\<lambda>i. BITNO ! (0 + i) \<noteq> 0xFF) [0..<7]" "list_all (\<lambda>i. BITNO ! (8 + i) \<noteq> 0xFF) [0..<6]"
    "list_all (\<lambda>i. BITNO ! (15 + i) \<noteq> 0xFF) [0..<22]"
    by (simp_all add: upt_conv_Cons BITNO_def)
  then show "\<forall>i < 7. BITNO ! (0 + i) \<noteq> 0xFF" "\<forall>i < 6. BITNO ! (8 + i) \<noteq> 0xFF"
    "\<forall>i < 22. BITNO ! (15 + i) \<noteq> 0xFF"
    by (auto simp: list_all_iff)
qed (simp_all add: BITNO_def)

lemma telegram_minute:
  assumes "length other = 21" and "length g1 = 7" and "length g2 = 6" and "length g3 = 22"
    and "second c = 0"
  shows "telegram (other @ (g1 @ [p1]) @ (g2 @ [p2]) @ (g3 @ [p3])) (c, False, 0) =
    ((write_group 15 g3 ((write_group 8 g2 ((write_group 0 g1 (c\<lparr>second := 21\<rparr>))
        \<lparr>second := 29\<rparr>))\<lparr>second := 36\<rparr>))\<lparr>second := 59\<rparr>, False,
     if p1 = even_parity g1 \<and> p2 = even_parity g2 \<and> p3 = even_parity g3 then 0 else DCF77_PARITY_ERROR)"
proof -
  have o: "telegram other (c, False, 0) = (c\<lparr>second := 21\<rparr>, False, 0)"
    using telegram_other [of other c False 0] assms(1,5) by simp
  have g1: "telegram (g1 @ [p1]) (x, False, e) = ((write_group 0 g1 x)\<lparr>second := 29\<rparr>, False,
      if p1 = even_parity g1 then e else e OR DCF77_PARITY_ERROR)" if "second x = 21" for x e
    using telegram_parity_group [of x 0 g1] that assms(2) group_codes by simp
  have g2: "telegram (g2 @ [p2]) (x, False, e) = ((write_group 8 g2 x)\<lparr>second := 36\<rparr>, False,
      if p2 = even_parity g2 then e else e OR DCF77_PARITY_ERROR)" if "second x = 29" for x e
    using telegram_parity_group [of x 8 g2] that assms(3) group_codes by simp
  have g3: "telegram (g3 @ [p3]) (x, False, e) = ((write_group 15 g3 x)\<lparr>second := 59\<rparr>, False,
      if p3 = even_parity g3 then e else e OR DCF77_PARITY_ERROR)" if "second x = 36" for x e
    using telegram_parity_group [of x 15 g3] that assms(4) group_codes by simp
  show ?thesis
    by (simp only: telegram_append [of other] o telegram_append [of "g1 @ [p1]"] telegram_append [of "g2 @ [p2]"])
      (simp add: g1 g2 g3)
qed

section \<open>The numbers of the telegram\<close>

lemma units_weights:
  assumes "u < 10"
  shows "weight (bit u 0) 1 + weight (bit u 1) 2 + weight (bit u 2) 4 + weight (bit u 3) 8 = of_nat u"
proof -
  have "u \<in> set [0..<10]" using assms by simp
  also have "[0..<10] = [0, 1, 2, 3, 4, 5, 6, 7, 8, 9]" by (simp add: upt_conv_Cons)
  finally show ?thesis
    unfolding list.set by (elim insertE emptyE) (simp_all add: weight_def bit_simps)
qed

lemma tens_weights:
  assumes "t < 10"
  shows "weight (bit t 0) 10 + weight (bit t 1) 20 + weight (bit t 2) 40 + weight (bit t 3) 80 = of_nat (10 * t)"
proof -
  have "t \<in> set [0..<10]" using assms by simp
  also have "[0..<10] = [0, 1, 2, 3, 4, 5, 6, 7, 8, 9]" by (simp add: upt_conv_Cons)
  finally show ?thesis
    unfolding list.set by (elim insertE emptyE) (simp_all add: weight_def bit_simps)
qed

text \<open>The high bits of a small number are not set.\<close>

lemma small_bit: "t < 2 ^ k \<Longrightarrow> \<not> bit (t :: nat) k"
  by (simp add: bit_iff_odd)

lemma weight_small:
  "t < 8 \<Longrightarrow> weight (bit (t :: nat) 3) v = 0" "t < 4 \<Longrightarrow> weight (bit (t :: nat) 2) v = 0"
  "t < 2 \<Longrightarrow> weight (bit (t :: nat) 1) v = 0"
  using small_bit [of t 3] small_bit [of t 2] small_bit [of t 1] by (simp_all add: weight_def)

lemma bcd_value:
  assumes "n < 100"
  shows "weight (bit (n mod 10) 0) 1 + weight (bit (n mod 10) 1) 2 + weight (bit (n mod 10) 2) 4 +
    weight (bit (n mod 10) 3) 8 + weight (bit (n div 10) 0) 10 + weight (bit (n div 10) 1) 20 +
    weight (bit (n div 10) 2) 40 + weight (bit (n div 10) 3) 80 = of_nat n"
proof -
  have "n mod 10 < 10" "n div 10 < 10" using assms by simp_all
  note w = units_weights [OF this(1)] tens_weights [OF this(2)]
  have "(of_nat n :: u8) = of_nat (n mod 10) + of_nat (10 * (n div 10))"
    by (metis mod_mult_div_eq of_nat_add)
  then show ?thesis unfolding w [symmetric] by (simp only: add.assoc)
qed

lemma bcd_digits:
  "bcd k n = [bit (n mod 10) 0, bit (n mod 10) 1, bit (n mod 10) 2, bit (n mod 10) 3] @
     map (bit (n div 10)) [0..<k]"
  by (simp add: bcd_def upt_conv_Cons numeral_2_eq_2 numeral_3_eq_3)

lemma upt_small:
  "[0..<1] = [0]" "[0..<2] = [0, 1]" "[0..<3] = [0, 1, 2]" "[0..<4] = [0, 1, 2, 3]"
  by (simp_all add: upt_conv_Cons numeral_2_eq_2 numeral_3_eq_3)

lemmas bcd_lists = bcd_digits upt_small list.map append_Cons append_Nil

lemma write_minute:
  assumes "n < 80"
  shows "write_group 0 (bcd 3 n) c = c\<lparr>minute := of_nat n, second := 28\<rparr>"
proof -
  have "weight (bit (n div 10) 3) 80 = 0" using assms by (intro weight_small) simp
  then show ?thesis
    using bcd_value [of n] assms unfolding bcd_lists by (simp add: BITNO_def write_bit_code)
qed

lemma write_hour:
  assumes "n < 40"
  shows "write_group 8 (bcd 2 n) c = c\<lparr>hour := of_nat n, second := 35\<rparr>"
proof -
  have "weight (bit (n div 10) 3) 80 = 0" "weight (bit (n div 10) 2) 40 = 0"
    using assms by (intro weight_small; simp)+
  then show ?thesis
    using bcd_value [of n] assms unfolding bcd_lists by (simp add: BITNO_def write_bit_code)
qed

lemma write_group_append:
  "write_group k (xs @ ys) c = write_group (k + length xs) ys (write_group k xs c)"
  by (induction xs arbitrary: k c) simp_all

lemma write_day:
  assumes "n < 40"
  shows "write_group 15 (bcd 2 n) c = c\<lparr>day_of_month := of_nat n, second := 42\<rparr>"
proof -
  have "weight (bit (n div 10) 3) 80 = 0" "weight (bit (n div 10) 2) 40 = 0"
    using assms by (intro weight_small; simp)+
  then show ?thesis
    using bcd_value [of n] assms unfolding bcd_lists by (simp add: BITNO_def write_bit_code)
qed

lemma write_weekday:
  assumes "n < 8"
  shows "write_group 21 (map (bit n) [0..<3]) c = c\<lparr>day_of_week := of_nat n, second := 45\<rparr>"
proof -
  have "weight (bit n 3) 8 = 0" using assms by (intro weight_small)
  then have "weight (bit n 0) 1 + weight (bit n 1) 2 + weight (bit n 2) 4 = of_nat n"
    using units_weights [of n] assms by simp
  then show ?thesis unfolding bcd_lists by (simp add: BITNO_def write_bit_code)
qed

lemma write_month:
  assumes "n < 20"
  shows "write_group 24 (bcd 1 n) c = c\<lparr>month_of_year := of_nat n, second := 50\<rparr>"
proof -
  have "weight (bit (n div 10) 3) 80 = 0" "weight (bit (n div 10) 2) 40 = 0" "weight (bit (n div 10) 1) 20 = 0"
    using assms by (intro weight_small; simp)+
  then show ?thesis
    using bcd_value [of n] assms unfolding bcd_lists by (simp add: BITNO_def write_bit_code)
qed

lemma write_year:
  assumes "n < 100"
  shows "write_group 29 (bcd 4 n) c = c\<lparr>year := of_nat n, second := 58\<rparr>"
  using bcd_value [OF assms] unfolding bcd_lists by (simp add: BITNO_def write_bit_code)

lemma bcd_length [simp]: "length (bcd k n) = 4 + k"
  by (simp add: bcd_def)

text \<open>A telegram of a date and time is decoded to it.\<close>

lemma telegram_minute_telegram:
  assumes "length other = 21" and "second c = 0"
    and "mi < 60" and "h < 24" and "d < 32" and "dow < 8" and "mon < 13" and "yr < 100"
  shows "telegram (minute_telegram other mi h d dow mon yr) (c, False, 0) =
    (c\<lparr>minute := of_nat mi, hour := of_nat h, day_of_month := of_nat d, day_of_week := of_nat dow,
       month_of_year := of_nat mon, year := of_nat yr, second := 59\<rparr>, False, 0)"
proof -
  let ?g3 = "bcd 2 d @ map (bit dow) [0..<3] @ bcd 1 mon @ bcd 4 yr"
  have g3: "write_group 15 ?g3 x = x\<lparr>day_of_month := of_nat d, day_of_week := of_nat dow,
      month_of_year := of_nat mon, year := of_nat yr, second := 58\<rparr>" for x
    using write_day [of d] write_weekday [of dow] write_month [of mon] write_year [of yr] assms(5-8)
    by (simp add: write_group_append)
  have l: "length (bcd 3 mi) = 7" "length (bcd 2 h) = 6" "length ?g3 = 22" by simp_all
  show ?thesis
    using telegram_minute [OF assms(1) l assms(2)] write_minute [of mi] write_hour [of h] assms(3,4) g3
    by (simp add: minute_telegram_def with_parity_def)
qed

section \<open>The minute mark\<close>

definition before_report ::
  "u16 \<Rightarrow> canix_rtc_clock \<Rightarrow> bool \<Rightarrow> device_data_dcf77_receiver \<Rightarrow> device_data_dcf77_receiver" where
  "before_report self clk level p =
     (let p = measured self level p;
          p = (if last_time_frame_received p < 255 \<and> timeflags p AND ONE_SECOND_FLAG \<noteq> 0
               then p\<lparr>last_time_frame_received := last_time_frame_received p + 1\<rparr> else p)
      in if second clk = 0 \<and> reported_dcf77errors p \<ge> DCF77_NO_SIGNAL
         then p\<lparr>report_flag := True\<rparr> else p)"

lemma tick_outs:
  "snd (dcf77_receiver_timer_handler self clk l p 100) =
     snd (dcf77_handler self l p) @ snd (dcf77_report self clk (before_report self clk l p))"
  by (simp add: dcf77_receiver_timer_handler_def before_report_def measured_def Let_def)

lemma before_report_sel [simp]:
  "config (before_report self clk l p) = config (measured self l p)"
  "time (before_report self clk l p) = time (measured self l p)"
  "valid_flag (before_report self clk l p) = valid_flag (measured self l p)"
  "reported_dcf77errors (before_report self clk l p) = reported_dcf77errors (measured self l p)"
  "report_flag (measured self l p) \<Longrightarrow> report_flag (before_report self clk l p)"
  "unat (last_time_frame_received (measured self l p)) \<le> unat (last_time_frame_received (before_report self clk l p))"
  by (auto simp: before_report_def Let_def word_less_nat_alt unat_inc_u8)

lemma rising_outs: "snd (dcf77_handler self True p) = []"
  by (simp add: dcf77_handler_def Let_def)

text \<open>What the long period does.\<close>

definition mark :: "decoder \<Rightarrow> bool" where
  "mark st \<longleftrightarrow> snd (snd st) = 0 \<and> second (fst st) = 59"

lemma scan_period_mark:
  assumes "196 \<le> unat (dcf77_period p)" and "unat (dcf77_period p) \<le> 202"
  shows "report_flag (scan_period p)" "reported_dcf77errors (scan_period p) = reported_dcf77errors p"
    "config (scan_period p) = config p"
    "valid_flag (scan_period p) = (mark (bump (dview p)) \<or> valid_flag p)"
    "mark (bump (dview p)) \<Longrightarrow> n = fst (bump (dview p)) \<Longrightarrow>
       time (scan_period p) = (time p)\<lparr>minute := minute n, hour := hour n, day_of_week := day_of_week n,
         day_of_month := day_of_month n, month_of_year := month_of_year n, year := year n\<rparr>"
    "dview (scan_period p) = ((fst (bump (dview p)))\<lparr>second := 0\<rparr>, parity p, 0)"
proof -
  have "dcf77_period p \<noteq> 0" using assms by auto
  then show "report_flag (scan_period p)" "reported_dcf77errors (scan_period p) = reported_dcf77errors p"
    "config (scan_period p) = config p"
    "valid_flag (scan_period p) = (mark (bump (dview p)) \<or> valid_flag p)"
    "mark (bump (dview p)) \<Longrightarrow> n = fst (bump (dview p)) \<Longrightarrow>
       time (scan_period p) = (time p)\<lparr>minute := minute n, hour := hour n, day_of_week := day_of_week n,
         day_of_month := day_of_month n, month_of_year := month_of_year n, year := year n\<rparr>"
    "dview (scan_period p) = ((fst (bump (dview p)))\<lparr>second := 0\<rparr>, parity p, 0)"
    using assms
    by (auto simp: scan_period_def new_minute_def Let_def word_less_nat_alt dview_def bump_def mark_def)
qed

lemma mark_tick:
  assumes "at_level False t r" and "195 \<le> t" and "t \<le> 201"
  obtains b where "snd (dcf77_receiver_timer_handler self clk True r 100) = snd (dcf77_report self clk b)"
    "report_flag b" "config b = config r" "reported_dcf77errors b = dcf77error r"
    "valid_flag b = (mark (bump (dview r)) \<or> valid_flag r)"
    "mark (bump (dview r)) \<longrightarrow> time b = (let n = fst (bump (dview r)) in
       (time r)\<lparr>minute := minute n, hour := hour n, day_of_week := day_of_week n,
         day_of_month := day_of_month n, month_of_year := month_of_year n, year := year n\<rparr>)"
    "unat (last_time_frame_received r) \<le> unat (last_time_frame_received b)"
proof -
  have "t < 255" using assms by simp
  from rising_measured [OF assms(1) this, of self] obtain r' where
    m: "measured self True r = scan_period r'" "unat (dcf77_period r') = Suc t" "dview r' = dview r"
    "time r' = time r" "config r' = config r" "valid_flag r' = valid_flag r"
    "last_time_frame_received r' = last_time_frame_received r" "reported_dcf77errors r' = dcf77error r"
    by metis
  have l: "196 \<le> unat (dcf77_period r')" "unat (dcf77_period r') \<le> 202" using m(2) assms by simp_all
  note k = scan_period_mark [OF l]
  show thesis
  proof (rule that [of "before_report self clk True r"])
    show "unat (last_time_frame_received r) \<le> unat (last_time_frame_received (before_report self clk True r))"
      using before_report_sel(6) [of self True r clk] by (simp add: m)
  qed (use k m in \<open>simp_all add: tick_outs rising_outs Let_def\<close>)
qed

text \<open>The errors the decoder has found are those the report sees.\<close>

lemma bump_errors [simp]: "snd (snd (bump st)) = snd (snd st)"
  by (simp add: bump_def split: prod.splits)

text \<open>
  The receiver at the edge before the mark: after the seconds \<open>ss\<close> and the last bit's
  pulse with its long pause.
\<close>

lemma minute_run:
  assumes "dcf_run self p (wave ss @ pulse_levels w d) q" and "at_level True 0 p"
    and "\<forall>s \<in> set ss. legal_second s" and "legal_pulse b w" and "196 \<le> d" and "d \<le> 202"
  shows "at_level False (d - 1) q \<and> bump (dview q) = telegram (map fst ss @ [b]) (dview p) \<and> steady p q"
proof -
  from assms(1) obtain p1 where r: "dcf_run self p (wave ss) p1" "dcf_run self p1 (pulse_levels w d) q"
    by (rule dcf_run_appendE)
  have s: "at_level True 0 p1" "dview p1 = telegram (map fst ss) (dview p)" "steady p p1"
    using seconds_run [OF r(1) assms(2,3)] by simp_all
  have wd: "w < d" "d \<le> 255" using assms(4-6) by (auto simp: legal_pulse_def split: if_splits)
  from pulse_run [OF r(2) s(1) assms(4) wd] s show ?thesis
    by (auto simp: telegram_append telegram_Cons intro: steady_trans)
qed

lemma dcf_run_exists: "\<exists>q. dcf_run self p ls q"
proof (induction ls arbitrary: p)
  case (Cons l ls)
  then show ?case by (metis dcf_run.tick)
qed (blast intro: dcf_run.stop)

text \<open>The report at the mark.\<close>

lemma report_time:
  assumes "report_flag b" and "reported_dcf77errors b = 0" and "valid_flag b"
    and "c_takeover_time (config b) \<le> ucast (last_time_frame_received b)"
  shows "snd (dcf77_report self clk b) =
    [send_info self [HCAN_SRV_RTS, HCAN_RTS_TIME_INFO, c_level (config b), day_of_week (time b),
       hour (time b), minute (time b), second (time b)],
     send_info self [HCAN_SRV_RTS, HCAN_RTS_DATE_INFO, c_level (config b), day_of_month (time b),
       month_of_year (time b), year (time b)]]"
  using assms by (simp add: dcf77_report_def Let_def)

lemma report_invalid:
  "\<not> valid_flag b \<Longrightarrow> snd (dcf77_report self clk b) \<in> {[],
     [send_info self [HCAN_SRV_HES, HCAN_HES_DCF77_ERROR, c_id (config b), reported_dcf77errors b]]}"
  by (simp add: dcf77_report_def Let_def)

lemma report_of_a_slave:
  "ucast (last_time_frame_received b) < c_takeover_time (config b) \<Longrightarrow> snd (dcf77_report self clk b) \<in> {[],
     [send_info self [HCAN_SRV_HES, HCAN_HES_DCF77_ERROR, c_id (config b), reported_dcf77errors b]]}"
  by (auto simp: dcf77_report_def Let_def)

lemma takeover_mono:
  "t \<le> ucast (a :: u8) \<Longrightarrow> unat a \<le> unat (b :: u8) \<Longrightarrow> (t :: u16) \<le> ucast b"
  by (simp add: word_le_nat_alt)

text \<open>
  Property C32. The receiver, from the edge that begins a minute with its decoder reset,
  after 58 seconds and the pulse of the 59th whose bits are the telegram of a date and time,
  sends at the next edge exactly that time and that date to the bus, whatever the jitter of
  the pulses within the tolerances and whatever the clock of the board said meanwhile. The receiver is the master of the time:
  when the minute begins it has heard no time frame of a lower level for its takeover time, and hears none in this minute. A receiver that
  has heard one keeps the time to itself, and one whose takeover time is above 255, which its counter never reaches, always does.
\<close>

theorem dcf77_minute_sent:
  assumes run: "dcf_run self p (wave ss @ pulse_levels w dur) q"
    and p: "at_level True 0 p" "second (newtime p) = 0" "\<not> parity p" "dcf77error p = 0"
    and ss: "\<forall>s \<in> set ss. legal_second s" and b: "legal_pulse b w" "196 \<le> dur" "dur \<le> 202"
    and bits: "map fst ss @ [b] = minute_telegram other mi h d dow mon yr" "length other = 21"
    and r: "mi < 60" "h < 24" "d < 32" "dow < 8" "mon < 13" "yr < 100"
    and take: "c_takeover_time (config p) \<le> ucast (last_time_frame_received p)"
  shows "snd (dcf77_receiver_timer_handler self clk True q 100) =
    [send_info self [HCAN_SRV_RTS, HCAN_RTS_TIME_INFO, c_level (config p), of_nat dow, of_nat h,
       of_nat mi, second (time p)],
     send_info self [HCAN_SRV_RTS, HCAN_RTS_DATE_INFO, c_level (config p), of_nat d, of_nat mon,
       of_nat yr]]"
proof -
  from minute_run [OF run p(1) ss b] have
    q: "at_level False (dur - 1) q" "bump (dview q) = telegram (map fst ss @ [b]) (dview p)" "steady p q"
    by simp_all
  have t: "bump (dview q) = ((newtime p)\<lparr>minute := of_nat mi, hour := of_nat h, day_of_month := of_nat d,
      day_of_week := of_nat dow, month_of_year := of_nat mon, year := of_nat yr, second := 59\<rparr>, False, 0)"
    unfolding q(2) bits(1) using telegram_minute_telegram [OF bits(2) p(2) r] p(3,4) by (simp add: dview_def)
  have "dcf77error q = 0" using bump_errors [of "dview q"] unfolding t by (simp add: dview_def)
  moreover have "mark (bump (dview q))" unfolding t by (simp add: mark_def)
  moreover have "195 \<le> dur - 1" "dur - 1 \<le> 201" using b(2,3) by simp_all
  ultimately obtain c where
    c: "snd (dcf77_receiver_timer_handler self clk True q 100) = snd (dcf77_report self clk c)"
      "report_flag c" "config c = config q" "reported_dcf77errors c = 0" "valid_flag c"
      "time c = (let n = fst (bump (dview q)) in
       (time q)\<lparr>minute := minute n, hour := hour n, day_of_week := day_of_week n,
         day_of_month := day_of_month n, month_of_year := month_of_year n, year := year n\<rparr>)"
      "unat (last_time_frame_received q) \<le> unat (last_time_frame_received c)"
    using mark_tick [OF q(1), of self clk] by metis
  have s: "config q = config p" "time q = time p"
    "unat (last_time_frame_received p) \<le> unat (last_time_frame_received c)"
    using q(3) c(7) by (simp_all add: steady_def)
  show ?thesis
    using report_time [OF c(2,4,5), of self clk] takeover_mono [OF take s(3)] c(1,3,6) s(1,2)
    by (simp add: t)
qed

text \<open>A receiver that has just seen the first edge of a minute.\<close>

definition locked_receiver :: device_data_dcf77_receiver where
  "locked_receiver =
     (let z = \<lparr>uptime_sec = 0, uptime_sec_100th = 0, day_of_week = 0, hour = 0, minute = 0, second = 0, last_date_update = 0,
                day_of_month = 0, month_of_year = 0, year = 0\<rparr>
      in \<lparr>config = \<lparr>c_level = 2, c_takeover_time = 0, c_id = 7, c_enable_error_reporting = 0\<rparr>,
         last_time_frame_received = 0, last_time_frame_sent = 0, newtime = z, time = z, timeflags = 0,
         dcf77_pulse = 0, dcf77_period = 0, ct_100Hz = 0, dcf77error = 0, reported_dcf77errors = 0,
         reported_minute = 255, valid_flag = False, report_flag = False, dcf77_time = 0,
         dcf77_input_old = True, parity = False\<rparr>)"

definition as_seconds :: "bool list \<Rightarrow> (bool \<times> nat \<times> nat) list" where
  "as_seconds bs = map (\<lambda>b. (b, if b then 20 else 10, 100)) bs"

lemma as_seconds_legal: "\<forall>s \<in> set (as_seconds bs). legal_second s"
  by (auto simp: as_seconds_def legal_second_def legal_pulse_def)

lemma as_seconds_bits: "map fst (as_seconds bs) = bs"
  by (simp add: as_seconds_def comp_def)

lemma locked_receiver_sel:
  "at_level True 0 locked_receiver" "second (newtime locked_receiver) = 0" "\<not> parity locked_receiver"
  "dcf77error locked_receiver = 0" "\<not> valid_flag locked_receiver"
  "c_takeover_time (config locked_receiver) \<le> ucast (last_time_frame_received locked_receiver)"
  "c_level (config locked_receiver) = 2" "second (time locked_receiver) = 0" "c_id (config locked_receiver) = 7"
  by (simp_all add: locked_receiver_def at_level_def Let_def)

text \<open>The seconds of Friday, 3 April 2009, 17:45.\<close>

abbreviation (input) example_bits :: "bool list" where
  "example_bits \<equiv> minute_telegram (replicate 21 False) 45 17 3 5 4 9"

lemma example_split: "map fst (as_seconds (butlast example_bits)) @ [last example_bits] = example_bits"
proof -
  have "example_bits \<noteq> []" by (simp add: minute_telegram_def with_parity_def)
  then show ?thesis unfolding as_seconds_bits by (rule append_butlast_last_id)
qed

lemma example_last: "last example_bits"
  by (simp add: minute_telegram_def with_parity_def bcd_digits upt_small bit_simps)

theorem dcf77_minute_sent_witness:
  "\<exists>q. dcf_run 5 locked_receiver (wave (as_seconds (butlast example_bits)) @ pulse_levels 20 200) q \<and>
     snd (dcf77_receiver_timer_handler 5 (time locked_receiver) True q 100) =
       [send_info 5 [HCAN_SRV_RTS, HCAN_RTS_TIME_INFO, 2, 5, 17, 45, 0],
        send_info 5 [HCAN_SRV_RTS, HCAN_RTS_DATE_INFO, 2, 3, 4, 9]]"
proof -
  obtain q where q: "dcf_run 5 locked_receiver
      (wave (as_seconds (butlast example_bits)) @ pulse_levels 20 200) q"
    using dcf_run_exists by blast
  have b: "legal_pulse (last example_bits) 20" using example_last by (simp add: legal_pulse_def)
  show ?thesis
    using q dcf77_minute_sent [OF q locked_receiver_sel(1-4) as_seconds_legal b _ _ example_split, of "time locked_receiver"]
    by (auto simp: locked_receiver_sel)
qed

text \<open>
  A telegram in which the parity of one of the three groups is wrong sends
  neither time nor date: at the mark there is at most the report of the parity error.
\<close>

theorem dcf77_parity_error_not_sent:
  assumes run: "dcf_run self p (wave ss @ pulse_levels w dur) q"
    and p: "at_level True 0 p" "second (newtime p) = 0" "\<not> parity p" "dcf77error p = 0" "\<not> valid_flag p"
    and ss: "\<forall>s \<in> set ss. legal_second s" and b: "legal_pulse b w" "196 \<le> dur" "dur \<le> 202"
    and bits: "map fst ss @ [b] = other @ (g1 @ [p1]) @ (g2 @ [p2]) @ (g3 @ [p3])"
    and l: "length other = 21" "length g1 = 7" "length g2 = 6" "length g3 = 22"
    and wrong: "p1 \<noteq> even_parity g1 \<or> p2 \<noteq> even_parity g2 \<or> p3 \<noteq> even_parity g3"
  shows "snd (dcf77_receiver_timer_handler self clk True q 100) \<in>
    {[], [send_info self [HCAN_SRV_HES, HCAN_HES_DCF77_ERROR, c_id (config p), DCF77_PARITY_ERROR]]}"
proof -
  from minute_run [OF run p(1) ss b] have
    q: "at_level False (dur - 1) q" "bump (dview q) = telegram (map fst ss @ [b]) (dview p)" "steady p q"
    by simp_all
  have t: "snd (snd (bump (dview q))) = DCF77_PARITY_ERROR"
    unfolding q(2) bits using telegram_minute [OF l p(2)] p(3,4) wrong by (auto simp: dview_def)
  have "dcf77error q = DCF77_PARITY_ERROR" using t by (simp add: dview_def)
  moreover have "\<not> mark (bump (dview q))" using t by (simp add: mark_def)
  moreover have "\<not> valid_flag q" "config q = config p" using q(3) p(5) by (auto simp: steady_def)
  moreover have "195 \<le> dur - 1" "dur - 1 \<le> 201" using b(2,3) by simp_all
  ultimately obtain c where
    c: "snd (dcf77_receiver_timer_handler self clk True q 100) = snd (dcf77_report self clk c)"
      "config c = config p" "reported_dcf77errors c = DCF77_PARITY_ERROR" "\<not> valid_flag c"
    using mark_tick [OF q(1), of self clk] by metis
  show ?thesis using report_invalid [OF c(4), of self clk] unfolding c(1-3) .
qed

abbreviation (input) flipped_bits :: "bool list" where
  "flipped_bits \<equiv> replicate 21 False @ (replicate 7 False @ [True]) @ (replicate 6 False @ [False]) @
     (replicate 22 False @ [False])"

theorem dcf77_parity_error_not_sent_witness:
  "\<exists>q. dcf_run 5 locked_receiver (wave (as_seconds (butlast flipped_bits)) @ pulse_levels 10 200) q \<and>
     snd (dcf77_receiver_timer_handler 5 (time locked_receiver) True q 100) \<in>
       {[], [send_info 5 [HCAN_SRV_HES, HCAN_HES_DCF77_ERROR, 7, DCF77_PARITY_ERROR]]}"
proof -
  obtain q where q: "dcf_run 5 locked_receiver
      (wave (as_seconds (butlast flipped_bits)) @ pulse_levels 10 200) q"
    using dcf_run_exists by blast
  have b: "legal_pulse False 10" by (simp add: legal_pulse_def)
  have s: "map fst (as_seconds (butlast flipped_bits)) @ [False] = flipped_bits"
    unfolding as_seconds_bits by (simp add: butlast_append)
  have e: "True \<noteq> even_parity (replicate 7 False)"
    by (simp add: eval_nat_numeral)
  show ?thesis
    using q dcf77_parity_error_not_sent [OF q locked_receiver_sel(1-5) as_seconds_legal b _ _ s, of "time locked_receiver"] e
    by (auto simp: locked_receiver_sel)
qed

end
