(* ===== verification/Taster.thy ===== *)
theory Taster
  imports Hes_Device
begin

text \<open>
  The push button, \<^verbatim>\<open>src/firmwares/controllerboard/devices/taster.c\<close>: an input sampled
  every hundredth of a second, debounced by counting, whose press and release are sent to the
  bus as the messages its feature bits select. The level \<^verbatim>\<open>inputport_read\<close>
  finds at the port is a parameter of every tick.
\<close>

section \<open>State and operations\<close>

record taster_config =
  c_port :: u8
  c_feature :: u8
  c_gruppe :: u8

record device_data_taster =
  config :: taster_config
  pressed :: u8

abbreviation (input) FEATURE_TASTER_ENTPRELL_1S :: nat where "FEATURE_TASTER_ENTPRELL_1S \<equiv> 0"
abbreviation (input) FEATURE_TASTER_ROLLADEN_AUF :: nat where "FEATURE_TASTER_ROLLADEN_AUF \<equiv> 1"
abbreviation (input) FEATURE_TASTER_ROLLADEN_ZU :: nat where "FEATURE_TASTER_ROLLADEN_ZU \<equiv> 2"
abbreviation (input) FEATURE_TASTER_POWERPORT_AN :: nat where "FEATURE_TASTER_POWERPORT_AN \<equiv> 3"
abbreviation (input) FEATURE_TASTER_POWERPORT_AUS :: nat where "FEATURE_TASTER_POWERPORT_AUS \<equiv> 4"

text \<open>
  What the handlers of the input devices read: the own address, and the result of the
  \<open>k\<close>-th call of \<^verbatim>\<open>inputport_read\<close> in the handler, with the pull-up on or off.
\<close>

record input_env =
  in_self :: u16
  in_read :: "nat \<Rightarrow> bool \<Rightarrow> u8 \<Rightarrow> bool"

definition taster_feature :: "device_data_taster \<Rightarrow> nat \<Rightarrow> bool" where
  "taster_feature p n = test_bit (c_feature (config p)) n"

definition taster_msg :: "u16 \<Rightarrow> device_data_taster \<Rightarrow> u8 \<Rightarrow> u8 list \<Rightarrow> out" where
  "taster_msg self p ty bs = send_hi (hes_message self HCAN_MULTICAST_CONTROL (ty # c_gruppe (config p) # bs))"

text \<open>The message of a release, if any, and the message of a press.\<close>

definition taster_up :: "u16 \<Rightarrow> device_data_taster \<Rightarrow> out list" where
  "taster_up self p =
     (if taster_feature p FEATURE_TASTER_ROLLADEN_ZU \<or> taster_feature p FEATURE_TASTER_ROLLADEN_AUF
      then [taster_msg self p HCAN_HES_ROLLADEN_POSITION_SET [222]]
      else if \<not> (taster_feature p FEATURE_TASTER_POWERPORT_AN \<or> taster_feature p FEATURE_TASTER_POWERPORT_AUS)
      then [taster_msg self p HCAN_HES_TASTER_UP [c_port (config p)]]
      else [])"

definition taster_down_msg :: "u16 \<Rightarrow> device_data_taster \<Rightarrow> out" where
  "taster_down_msg self p =
     (if taster_feature p FEATURE_TASTER_ROLLADEN_ZU then taster_msg self p HCAN_HES_ROLLADEN_POSITION_SET [200]
      else if taster_feature p FEATURE_TASTER_ROLLADEN_AUF then taster_msg self p HCAN_HES_ROLLADEN_POSITION_SET [201]
      else if taster_feature p FEATURE_TASTER_POWERPORT_AN then taster_msg self p HCAN_HES_POWER_GROUP_ON []
      else if taster_feature p FEATURE_TASTER_POWERPORT_AUS then taster_msg self p HCAN_HES_POWER_GROUP_OFF []
      else taster_msg self p HCAN_HES_TASTER_DOWN [c_port (config p)])"

definition taster_time :: "device_data_taster \<Rightarrow> u8" where
  "taster_time p = (if taster_feature p FEATURE_TASTER_ENTPRELL_1S then 6 else 3)"

definition taster_timer_handler ::
  "input_env \<Rightarrow> device_data_taster \<Rightarrow> u8 \<Rightarrow> device_data_taster \<times> out list" where
  "taster_timer_handler e p zyklus =
     (if zyklus \<noteq> 100 then (p, [])
      else
        (let status = (\<not> in_read e 0 True (c_port (config p))) in
         andthen
           (if status then (if pressed p < 255 then p\<lparr>pressed := pressed p + 1\<rparr> else p, [])
            else (p\<lparr>pressed := 0\<rparr>, if pressed p > 3 then taster_up (in_self e) p else []))
           (\<lambda>p. (p, if pressed p = taster_time p then [taster_down_msg (in_self e) p] else []))))"

definition taster_init :: "device_data_taster \<Rightarrow> device_data_taster" where
  "taster_init p = p"

definition taster_can_callback ::
  "input_env \<Rightarrow> device_data_taster \<Rightarrow> canix_frame \<Rightarrow> device_data_taster \<times> out list" where
  "taster_can_callback e p f = (p, [])"

section \<open>What the button says\<close>

lemma taster_config_sel: "pressed (p\<lparr>pressed := n\<rparr>) = n" "p\<lparr>pressed := m, pressed := n\<rparr> = p\<lparr>pressed := n\<rparr>"
  by simp_all

lemma taster_feature_sel [simp]:
  "taster_feature (p\<lparr>pressed := n\<rparr>) k = taster_feature p k" "taster_time (p\<lparr>pressed := n\<rparr>) = taster_time p"
  "taster_up self (p\<lparr>pressed := n\<rparr>) = taster_up self p"
  "taster_down_msg self (p\<lparr>pressed := n\<rparr>) = taster_down_msg self p"
  by (simp_all add: taster_feature_def taster_time_def taster_up_def taster_down_msg_def taster_msg_def)

lemma taster_says: "says (\<lambda>_. True) (snd (taster_timer_handler e p z))"
  by (simp add: taster_timer_handler_def taster_up_def taster_down_msg_def taster_msg_def Let_def)

interpretation taster_dev: echo_free_device "\<lambda>_. True" "\<lambda>_. True" taster_can_callback taster_timer_handler
proof (rule echo_free_deviceI)
  show "says (\<lambda>_. True) (snd (taster_timer_handler e p z))" for e p z by (rule taster_says)
qed (simp_all add: taster_can_callback_def)

section \<open>Presses\<close>

text \<open>The samples of the button, \<open>True\<close> for pressed.\<close>

definition sampled :: "input_env \<Rightarrow> device_data_taster \<Rightarrow> bool \<Rightarrow> bool" where
  "sampled e p b \<longleftrightarrow> in_read e 0 True (c_port (config p)) = (\<not> b)"

fun taster_run :: "u16 \<Rightarrow> bool list \<Rightarrow> device_data_taster \<Rightarrow> device_data_taster \<times> out list" where
  "taster_run self [] p = (p, [])"
| "taster_run self (b # bs) p =
     andthen (taster_timer_handler \<lparr>in_self = self, in_read = (\<lambda>_ _ _. \<not> b)\<rparr> p 100) (taster_run self bs)"

lemma taster_run_append:
  "taster_run self (xs @ ys) p = andthen (taster_run self xs p) (taster_run self ys)"
  by (induction xs arbitrary: p) (auto simp: andthen_def Let_def)

lemma taster_time_unat: "unat (taster_time p) = (if taster_feature p FEATURE_TASTER_ENTPRELL_1S then 6 else 3)"
  by (simp add: taster_time_def)

lemma taster_time_range: "0 < unat (taster_time p)" "unat (taster_time p) < 255" "taster_time p \<noteq> 0"
  by (simp_all add: taster_time_def)

lemma taster_press_tick:
  "taster_run self [True] p =
     (let c = (if pressed p < 255 then pressed p + 1 else pressed p)
      in (p\<lparr>pressed := c\<rparr>, if c = taster_time p then [taster_down_msg self p] else []))"
  by (simp add: taster_timer_handler_def Let_def)

lemma taster_release_tick:
  "taster_run self [False] p =
     (p\<lparr>pressed := 0\<rparr>, if pressed p > 3 then taster_up self p else [])"
  using taster_time_range(3) [of p] by (simp add: taster_timer_handler_def Let_def)

text \<open>While the button is held the counter climbs to its end, and passes the time once.\<close>

lemma taster_held:
  assumes "pressed p = 0"
  shows "taster_run self (replicate n True) p =
    (p\<lparr>pressed := of_nat (min n 255)\<rparr>, if unat (taster_time p) \<le> n then [taster_down_msg self p] else [])"
proof (induction n)
  case 0
  then show ?case using assms taster_time_range [of p] by simp
next
  case (Suc n)
  let ?c = "of_nat (min n 255) :: u8"
  have c: "unat ?c = min n 255" by (rule unat_of_nat_u8) (simp add: min_def)
  have less: "?c < 255 \<longleftrightarrow> n < 255"
    unfolding word_less_nat_alt c by (auto simp: min_def)
  have next_count: "(if ?c < 255 then ?c + 1 else ?c) = of_nat (min (Suc n) 255)"
    unfolding less by (simp add: min_def)
  have m: "unat (of_nat (min (Suc n) 255) :: u8) = min (Suc n) 255"
    by (rule unat_of_nat_u8) (simp add: min_def)
  have hit: "of_nat (min (Suc n) 255) = taster_time p \<longleftrightarrow> Suc n = unat (taster_time p)"
    unfolding word_unat_eq_iff m using taster_time_range(2) [of p] by (auto simp: min_def)
  have r: "replicate (Suc n) True = replicate n True @ [True]" by (simp add: replicate_append_same)
  show ?case
    unfolding r taster_run_append Suc.IH andthen_pair taster_press_tick
    by (simp only: taster_config_sel taster_feature_sel Let_def next_count hit fst_conv snd_conv)
      (auto simp: le_Suc_eq)
qed

lemma pressed_0: "pressed p = 0 \<Longrightarrow> p\<lparr>pressed := 0\<rparr> = p"
  by (cases p) simp

lemma taster_unpressed:
  "pressed p = 0 \<Longrightarrow> taster_run self (replicate n False) p = (p, [])"
proof (induction n)
  case (Suc n)
  have "replicate (Suc n) False = [False] @ replicate n False" by simp
  then show ?case using Suc by (simp only: taster_run_append taster_release_tick) (simp add: pressed_0)
qed simp

lemma taster_press_release:
  assumes "pressed p = 0"
  shows "taster_run self (replicate n True @ [False]) p =
    (p, (if unat (taster_time p) \<le> n then [taster_down_msg self p] else []) @
        (if 3 < n then taster_up self p else []))"
proof -
  have "unat (of_nat (min n 255) :: u8) = min n 255" by (rule unat_of_nat_u8) (simp add: min_def)
  then have "(3 < (of_nat (min n 255) :: u8)) = (3 < n)"
    unfolding word_less_nat_alt by auto
  then show ?thesis
    unfolding taster_run_append taster_held [OF assms] andthen_pair taster_release_tick
    using assms by (simp add: pressed_0)
qed

text \<open>
  A series of presses, each of \<open>n\<close> samples with at least one sample of
  release behind it, sends for each press exactly the press message if \<open>n\<close> reaches the
  debouncing time, and the release message if \<open>n\<close> is more than 3, and leaves the button
  ready for the next one. So a press of exactly 3 samples sends a press without a release,
  and with the feature of the longer time a press of 4 or 5 samples a release without a press.
\<close>

theorem taster_messages:
  assumes "pressed p = 0"
  shows "taster_run self (concat (map (\<lambda>(n, m). replicate n True @ replicate (Suc m) False) prs)) p =
    (p, concat (map (\<lambda>(n, m).
       (if (if taster_feature p FEATURE_TASTER_ENTPRELL_1S then 6 else 3) \<le> n then [taster_down_msg self p] else []) @
       (if 3 < n then taster_up self p else [])) prs))"
proof (induction prs)
  case (Cons a prs)
  obtain n m where a: "a = (n, m)" by (cases a)
  let ?rest = "concat (map (\<lambda>(n, m). replicate n True @ replicate (Suc m) False) prs)"
  have e: "concat (map (\<lambda>(n, m). replicate n True @ replicate (Suc m) False) (a # prs)) =
      (replicate n True @ [False]) @ replicate m False @ ?rest"
    by (simp add: a)
  show ?case
    unfolding e taster_run_append [of self "replicate n True @ [False]"]
      taster_run_append [of self "replicate m False"] taster_press_release [OF assms] andthen_pair
      fst_conv snd_conv taster_unpressed [OF assms] Cons.IH
    by (simp add: a taster_time_unat)
qed simp

definition door_bell :: device_data_taster where
  "door_bell = \<lparr>config = \<lparr>c_port = 8, c_feature = 0, c_gruppe = 9\<rparr>, pressed = 0\<rparr>"

theorem taster_messages_witness:
  "taster_run 5 (concat (map (\<lambda>(n, m). replicate n True @ replicate (Suc m) False) [(3, 0), (2, 1), (7, 4)])) door_bell =
    (door_bell, [taster_down_msg 5 door_bell, taster_down_msg 5 door_bell,
       taster_msg 5 door_bell HCAN_HES_TASTER_UP [8]])"
proof -
  have "pressed door_bell = 0" by (simp add: door_bell_def)
  from taster_messages [OF this, of 5 "[(3, 0), (2, 1), (7, 4)]"] show ?thesis
    by (simp add: taster_up_def taster_feature_def test_bit_def door_bell_def)
qed

end
