(* ===== verification/Reedkontakt.thy ===== *)
theory Reedkontakt
  imports Taster
begin

text \<open>
  The contact of a door or window,
  \<^verbatim>\<open>src/firmwares/controllerboard/devices/reedkontakt.c\<close>: read once a second, it announces
  every change and, as long as it is open, repeats the message that stops heatings and hoods.
\<close>

section \<open>State and operations\<close>

record reedkontakt_config =
  c_port :: u8
  c_gruppe :: u8
  c_modus :: u8

record device_data_reedkontakt =
  config :: reedkontakt_config
  timer_counter :: u8
  last_state :: bool

definition reed_flag :: "bool \<Rightarrow> u8" where
  "reed_flag b = (if b then 1 else 0)"

definition reedkontakt_init :: "input_env \<Rightarrow> device_data_reedkontakt \<Rightarrow> device_data_reedkontakt" where
  "reedkontakt_init e p =
     p\<lparr>timer_counter := c_gruppe (config p) AND 0x07, last_state := in_read e 0 True (c_port (config p))\<rparr>"

text \<open>The comparison reads the port again for the new state and for the message.\<close>

definition reed_change ::
  "input_env \<Rightarrow> device_data_reedkontakt \<Rightarrow> device_data_reedkontakt \<times> out list" where
  "reed_change e p =
     (let port = c_port (config p) in
      if in_read e 0 True port \<noteq> last_state p
      then (p\<lparr>last_state := in_read e 1 True port\<rparr>,
            [send_hi (hes_message (in_self e) HCAN_MULTICAST_INFO
               [HCAN_HES_REEDKONTAKT_STATE_CHANGE, c_gruppe (config p), reed_flag (in_read e 2 True port)])])
      else (p, []))"

definition reed_open ::
  "input_env \<Rightarrow> nat \<Rightarrow> device_data_reedkontakt \<Rightarrow> device_data_reedkontakt \<times> out list" where
  "reed_open e k p =
     (if c_modus (config p) \<noteq> 0 \<and> in_read e k True (c_port (config p))
      then andthen
        (if timer_counter p = 0
         then (p\<lparr>timer_counter := 5\<rparr>,
               [send_low (hes_message (in_self e) HCAN_MULTICAST_INFO
                  [HCAN_HES_REEDKONTAKT_OFFEN, c_gruppe (config p)])])
         else (p, []))
        (\<lambda>p. (p\<lparr>timer_counter := timer_counter p - 1\<rparr>, []))
      else (p\<lparr>timer_counter := 0\<rparr>, []))"

definition reedkontakt_timer_handler ::
  "input_env \<Rightarrow> device_data_reedkontakt \<Rightarrow> u8 \<Rightarrow> device_data_reedkontakt \<times> out list" where
  "reedkontakt_timer_handler e p zyklus =
     (if zyklus \<noteq> 1 then (p, [])
      else andthen (reed_change e p)
        (reed_open e (if in_read e 0 True (c_port (config p)) \<noteq> last_state p then 3 else 1)))"

text \<open>The group is compared first, so a request for all devices whose third byte happens to be the group is not answered.\<close>

definition reedkontakt_can_callback ::
  "input_env \<Rightarrow> device_data_reedkontakt \<Rightarrow> canix_frame \<Rightarrow> device_data_reedkontakt \<times> out list" where
  "reedkontakt_can_callback e p f =
     (let cmd = byte_at f 1; g = c_gruppe (config p);
          state = reed_flag (in_read e 0 True (c_port (config p))) in
      if g = byte_at f 2 then
        (if cmd = HCAN_HES_REEDKONTAKT_STATE_QUERY
         then (p, [send_low (hes_answer (in_self e) f [HCAN_HES_REEDKONTAKT_STATE_REPLAY, byte_at f 2, state])])
         else if cmd = HCAN_HES_REEDKONTAKT_CONFIG_RQ
         then (p, [send_low (hes_answer (in_self e) f [HCAN_HES_REEDKONTAKT_CONFIG_REPLAY, byte_at f 2])])
         else (p, []))
      else if cmd = HCAN_HES_DEVICE_STATES_REQUEST then
        (if g \<noteq> 255
         then (p, [Sleep 10, send_low (hes_answer (in_self e) f [HCAN_HES_REEDKONTAKT_STATE_REPLAY, g, state])])
         else (p, []))
      else if cmd = HCAN_HES_DEVICES_CONFIGS_REQUEST then
        (if g \<noteq> 255
         then (p, [Sleep 10, send_low (hes_answer (in_self e) f [HCAN_HES_REEDKONTAKT_CONFIG_REPLAY, g])])
         else (p, []))
      else (p, []))"

section \<open>What the contact says\<close>

definition reed_says :: "u8 \<Rightarrow> bool" where
  "reed_says ty \<longleftrightarrow> ty \<in> {HCAN_HES_REEDKONTAKT_STATE_CHANGE, HCAN_HES_REEDKONTAKT_OFFEN,
     HCAN_HES_REEDKONTAKT_STATE_REPLAY, HCAN_HES_REEDKONTAKT_CONFIG_REPLAY}"

lemma reed_sel [simp]:
  "config (fst (reed_change e p)) = config p" "timer_counter (fst (reed_change e p)) = timer_counter p"
  "config (fst (reed_open e k p)) = config p"
  by (simp_all add: reed_change_def reed_open_def Let_def)

lemma reed_timer_says: "says reed_says (snd (reedkontakt_timer_handler e p z))"
  by (simp add: reedkontakt_timer_handler_def reed_change_def reed_open_def reed_says_def Let_def)

lemma reed_callback_says: "says reed_says (snd (reedkontakt_can_callback e p f))"
  by (simp add: reedkontakt_can_callback_def reed_says_def hes_answer_def Let_def)

lemma reed_ignores: "reed_says (byte_at fr 1) \<Longrightarrow> reedkontakt_can_callback e p fr = (p, [])"
  by (auto simp: reedkontakt_can_callback_def reed_says_def Let_def)

text \<open>The counter of the repetition never exceeds its start.\<close>

definition reed_inv :: "device_data_reedkontakt \<Rightarrow> bool" where
  "reed_inv p \<longleftrightarrow> unat (timer_counter p) \<le> 7"

lemma reed_inv_init: "reed_inv (reedkontakt_init e p)"
proof -
  have "unat (c_gruppe (config p) AND 0x07) \<le> 7"
    using word_and_le1 [of "c_gruppe (config p)" "0x07"] by (simp add: word_le_nat_alt)
  then show ?thesis by (simp add: reed_inv_def reedkontakt_init_def)
qed

lemma reed_inv_timer: "reed_inv p \<Longrightarrow> reed_inv (fst (reedkontakt_timer_handler e p z))"
  by (auto simp: reed_inv_def reedkontakt_timer_handler_def reed_open_def unat_dec)

interpretation reed_dev: echo_free_device "\<lambda>_. True" reed_inv reedkontakt_can_callback
  reedkontakt_timer_handler
proof (rule echo_free_deviceI)
  show "reed_inv (fst (reedkontakt_can_callback e p f))" if "reed_inv p" for e p f
    using that by (simp add: reedkontakt_can_callback_def Let_def)
qed (blast intro: reed_inv_timer reed_timer_says reed_callback_says reed_ignores)+

section \<open>An open contact\<close>

definition is_open :: "input_env \<Rightarrow> device_data_reedkontakt \<Rightarrow> bool" where
  "is_open e p \<longleftrightarrow> (\<forall>k. in_read e k True (c_port (config p)))"

text \<open>A second of an open contact that repeats its message.\<close>

lemma open_second:
  assumes "is_open e p" and "c_modus (config p) \<noteq> 0"
  shows "config (fst (reedkontakt_timer_handler e p 1)) = config p"
    "unat (timer_counter (fst (reedkontakt_timer_handler e p 1))) =
       (if timer_counter p = 0 then 4 else unat (timer_counter p) - 1)"
    "last_state (fst (reedkontakt_timer_handler e p 1))"
    "timer_counter p = 0 \<Longrightarrow> hes_message (in_self e) HCAN_MULTICAST_INFO
       [HCAN_HES_REEDKONTAKT_OFFEN, c_gruppe (config p)] \<in> set (sent_frames (snd (reedkontakt_timer_handler e p 1)))"
  using assms by (auto simp: reedkontakt_timer_handler_def reed_open_def reed_change_def is_open_def
      unat_dec Let_def)

end
