(* ===== verification/Schalter.thy ===== *)
theory Schalter
  imports Taster
begin

text \<open>
  The switch, \<^verbatim>\<open>src/firmwares/controllerboard/devices/schalter.c\<close>: an input sampled
  every tenth of a second, whose position is sent to the bus when it has changed, and again
  whenever a board announces that it has started.
\<close>

section \<open>State and operations\<close>

record schalter_config =
  c_port :: u8
  c_feature :: u8
  c_gruppe :: u8

datatype edge = FALLING | RISING

record device_data_schalter =
  config :: schalter_config
  newState :: u8
  lastEdge :: edge

abbreviation (input) FEATURE_SCHALTER_INVERTIEREN :: nat where "FEATURE_SCHALTER_INVERTIEREN \<equiv> 0"
abbreviation (input) FEATURE_SCHALTER_PULLUP_AUS :: nat where "FEATURE_SCHALTER_PULLUP_AUS \<equiv> 1"
abbreviation (input) FEATURE_SCHALTER_MUTE :: nat where "FEATURE_SCHALTER_MUTE \<equiv> 2"

definition edge_of :: "bool \<Rightarrow> edge" where
  "edge_of b = (if b then RISING else FALLING)"

text \<open>\<^verbatim>\<open>sendMessage\<close>: the frame for a position.\<close>

definition schalter_msg :: "u16 \<Rightarrow> schalter_config \<Rightarrow> bool \<Rightarrow> canix_frame" where
  "schalter_msg self c active =
     (let active = (if test_bit (c_feature c) FEATURE_SCHALTER_INVERTIEREN then \<not> active else active);
          m = test_bit (c_feature c) FEATURE_SCHALTER_MUTE
      in hes_message self HCAN_MULTICAST_CONTROL
           [if active then (if m then HCAN_HES_MUTE_ON else HCAN_HES_SCHALTER_ON)
            else (if m then HCAN_HES_MUTE_OFF else HCAN_HES_SCHALTER_OFF), c_gruppe c])"

definition schalter_sendMessage ::
  "u16 \<Rightarrow> device_data_schalter \<Rightarrow> bool \<Rightarrow> device_data_schalter \<times> out list" where
  "schalter_sendMessage self p active =
     (p\<lparr>lastEdge := edge_of active\<rparr>, [send_hi (schalter_msg self (config p) active)])"

definition schalter_init :: "device_data_schalter \<Rightarrow> device_data_schalter" where
  "schalter_init p = p"

text \<open>The position the handler reads: the input pulls to ground when the switch is on.\<close>

definition schalter_active :: "input_env \<Rightarrow> device_data_schalter \<Rightarrow> bool" where
  "schalter_active e p =
     (\<not> in_read e 0 (\<not> test_bit (c_feature (config p)) FEATURE_SCHALTER_PULLUP_AUS) (c_port (config p)))"

definition schalter_timer_handler ::
  "input_env \<Rightarrow> device_data_schalter \<Rightarrow> u8 \<Rightarrow> device_data_schalter \<times> out list" where
  "schalter_timer_handler e p zyklus =
     (if zyklus \<noteq> 10 then (p, [])
      else
        (let active = schalter_active e p;
             p = (if newState p \<noteq> 3 then
                    (if active \<and> lastEdge p = FALLING \<or> \<not> active \<and> lastEdge p = RISING
                     then (if newState p < 255 then p\<lparr>newState := newState p + 1\<rparr> else p)
                     else p)
                  else p)
         in if newState p = 3
            then andthen (schalter_sendMessage (in_self e) p active) (\<lambda>p. (p\<lparr>newState := 0\<rparr>, []))
            else (p, [])))"

definition schalter_can_callback ::
  "input_env \<Rightarrow> device_data_schalter \<Rightarrow> canix_frame \<Rightarrow> device_data_schalter \<times> out list" where
  "schalter_can_callback e p f =
     (if byte_at f 1 = HCAN_HES_BOARD_ACTIVE
      then (if c_gruppe (config p) \<noteq> 255 then (p\<lparr>newState := 3\<rparr>, [Sleep 10]) else (p, []))
      else (p, []))"

section \<open>Invariant and messages\<close>

definition schalter_inv :: "device_data_schalter \<Rightarrow> bool" where
  "schalter_inv p \<longleftrightarrow> unat (newState p) \<le> 3"

definition schalter_says :: "u8 \<Rightarrow> bool" where
  "schalter_says ty \<longleftrightarrow>
     ty \<in> {HCAN_HES_SCHALTER_ON, HCAN_HES_SCHALTER_OFF, HCAN_HES_MUTE_ON, HCAN_HES_MUTE_OFF}"

lemma schalter_msg_sel [simp]:
  "schalter_says (byte_at (schalter_msg self c b) (Suc 0))" "sendable_frame (schalter_msg self c b)"
  by (simp_all add: schalter_msg_def schalter_says_def Let_def)

lemma schalter_timer_other: "z \<noteq> 10 \<Longrightarrow> schalter_timer_handler e p z = (p, [])"
  by (simp add: schalter_timer_handler_def)

text \<open>A tick, by the number of deviating samples before it.\<close>

lemma schalter_tick:
  assumes "schalter_inv p" and "schalter_active e p = b"
  shows "schalter_timer_handler e p 10 =
    (if newState p = 3 \<or> newState p = 2 \<and> lastEdge p \<noteq> edge_of b
     then (p\<lparr>newState := 0, lastEdge := edge_of b\<rparr>, [send_hi (schalter_msg (in_self e) (config p) b)])
     else if lastEdge p \<noteq> edge_of b then (p\<lparr>newState := newState p + 1\<rparr>, [])
     else (p, []))"
proof -
  have "unat (newState p) \<in> {0, 1, 2, 3}" using assms(1) by (auto simp: schalter_inv_def)
  then have "newState p \<in> {0, 1, 2, 3}" by (auto simp: word_unat_eq_iff)
  then show ?thesis
    unfolding assms(2) [symmetric]
    by (cases "lastEdge p"; cases "schalter_active e p")
      (auto simp: schalter_timer_handler_def schalter_sendMessage_def edge_of_def Let_def)
qed

lemma schalter_inv_tick: "schalter_inv p \<Longrightarrow> schalter_inv (fst (schalter_timer_handler e p z))"
proof (cases "z = 10")
  case True
  assume i: "schalter_inv p"
  have "unat (newState p + 1) \<le> 3" if "newState p \<noteq> 3"
  proof -
    have "unat (newState p) < 3" using i that by (auto simp: schalter_inv_def word_unat_eq_iff)
    then show ?thesis by (simp add: unat_inc_u8)
  qed
  then show ?thesis using i True by (simp add: schalter_tick [OF i refl]) (simp add: schalter_inv_def)
qed (simp add: schalter_timer_other)

lemma schalter_tick_says: "says schalter_says (snd (schalter_timer_handler e p z))"
  by (simp add: schalter_timer_handler_def schalter_sendMessage_def Let_def)

lemma schalter_inv_frame: "schalter_inv p \<Longrightarrow> schalter_inv (fst (schalter_can_callback e p f))"
  by (simp add: schalter_can_callback_def schalter_inv_def)

lemma schalter_frame_says: "says schalter_says (snd (schalter_can_callback e p f))"
  by (simp add: schalter_can_callback_def)

lemma schalter_ignores: "schalter_says (byte_at fr 1) \<Longrightarrow> schalter_can_callback e p fr = (p, [])"
  by (auto simp: schalter_can_callback_def schalter_says_def)

interpretation schalter_dev: echo_free_device "\<lambda>_. True" schalter_inv schalter_can_callback
  schalter_timer_handler
  by (rule echo_free_deviceI)
    (blast intro: schalter_inv_tick schalter_inv_frame schalter_tick_says schalter_frame_says schalter_ignores)+

section \<open>Following the position\<close>

text \<open>The switch in position \<open>b\<close> at every tick of a run of events.\<close>

definition in_position :: "bool \<Rightarrow> schalter_config \<Rightarrow> (input_env \<times> dev_event) list \<Rightarrow> bool" where
  "in_position b c evs \<longleftrightarrow> (\<forall>ev \<in> set evs. \<forall>q. config q = c \<longrightarrow> schalter_active (fst ev) q = b)"

abbreviation schalter_run ::
  "device_data_schalter \<Rightarrow> (input_env \<times> dev_event) list \<Rightarrow> device_data_schalter \<times> out list" where
  "schalter_run p evs \<equiv> dev_run schalter_can_callback schalter_timer_handler p evs"

definition ticks10 :: "(input_env \<times> dev_event) list \<Rightarrow> nat" where
  "ticks10 evs = length (filter (\<lambda>ev. snd ev = Tick 10) evs)"

text \<open>The position is known, or missing ticks are at most the rest of the counter.\<close>

definition settling :: "bool \<Rightarrow> nat \<Rightarrow> device_data_schalter \<Rightarrow> bool" where
  "settling b n p \<longleftrightarrow> schalter_inv p \<and> (lastEdge p = edge_of b \<or> n \<le> unat (newState p))"

lemma settling_step:
  assumes "settling b n p" and "\<forall>q. config q = config p \<longrightarrow> schalter_active e q = b"
  shows "settling b (n + (if ev = Tick 10 then 1 else 0)) (fst (dev_step schalter_can_callback schalter_timer_handler e p ev))"
    "config (fst (dev_step schalter_can_callback schalter_timer_handler e p ev)) = config p"
    "set (sent_frames (snd (dev_step schalter_can_callback schalter_timer_handler e p ev))) \<subseteq>
       {schalter_msg (in_self e) (config p) b}"
proof -
  have i: "schalter_inv p" and b: "schalter_active e p = b" using assms by (simp_all add: settling_def)
  note t = schalter_tick [OF i b]
  have u: "unat (newState p + 1) = Suc (unat (newState p))"
    using i by (intro unat_inc_u8) (simp add: schalter_inv_def)
  show "settling b (n + (if ev = Tick 10 then 1 else 0)) (fst (dev_step schalter_can_callback schalter_timer_handler e p ev))"
  proof (cases ev)
    case (Frame f)
    then show ?thesis
      using assms(1) schalter_inv_frame [OF i, of e f]
      by (auto simp: settling_def schalter_can_callback_def schalter_inv_def)
  next
    case (Tick z)
    then show ?thesis
      using assms(1) schalter_inv_tick [OF i, of e z]
      by (cases "z = 10") (auto simp: settling_def t u schalter_timer_other)
  qed
  show "config (fst (dev_step schalter_can_callback schalter_timer_handler e p ev)) = config p"
    by (cases ev) (simp_all add: schalter_can_callback_def schalter_timer_handler_def schalter_sendMessage_def Let_def)
  show "set (sent_frames (snd (dev_step schalter_can_callback schalter_timer_handler e p ev))) \<subseteq>
       {schalter_msg (in_self e) (config p) b}"
  proof (cases ev)
    case (Tick z)
    then show ?thesis by (cases "z = 10") (auto simp: t schalter_timer_other)
  qed (simp add: schalter_can_callback_def)
qed

lemma settling_run:
  assumes "settling b n p" and "in_position b (config p) evs"
  shows "settling b (n + ticks10 evs) (fst (schalter_run p evs)) \<and>
    (\<forall>fr \<in> set (sent_frames (snd (schalter_run p evs))). \<exists>self. fr = schalter_msg self (config p) b)"
  using assms
proof (induction evs arbitrary: p n)
  case Nil
  then show ?case by (simp add: ticks10_def)
next
  case (Cons ev evs)
  obtain e x where ev: "ev = (e, x)" by fastforce
  have "\<forall>q. config q = config p \<longrightarrow> schalter_active e q = b" using Cons.prems(2) ev by (simp add: in_position_def)
  note st = settling_step [OF Cons.prems(1) this, of x]
  have "in_position b (config (fst (dev_step schalter_can_callback schalter_timer_handler e p x))) evs"
    using Cons.prems(2) unfolding st(2) by (simp add: in_position_def)
  from Cons.IH [OF st(1) this] st(2,3) show ?case
    unfolding ev by (auto simp: ticks10_def)
qed

text \<open>
  A switch that stays in a position for four of its ticks has reported it:
  whatever frames and other ticks come in between, the last position it sent is the one it is
  in, and every message of that time is the message for this position.
\<close>

theorem switch_reports_position:
  assumes "schalter_inv p" and "in_position b (config p) evs" and "4 \<le> ticks10 evs"
  shows "lastEdge (fst (schalter_run p evs)) = edge_of b \<and>
    (\<forall>fr \<in> set (sent_frames (snd (schalter_run p evs))). \<exists>self. fr = schalter_msg self (config p) b)"
proof -
  have "settling b 0 p" using assms(1) by (simp add: settling_def)
  from settling_run [OF this assms(2)] assms(3) show ?thesis by (auto simp: settling_def schalter_inv_def)
qed

definition hall_switch :: device_data_schalter where
  "hall_switch = \<lparr>config = \<lparr>c_port = 3, c_feature = 0, c_gruppe = 12\<rparr>, newState = 0, lastEdge = FALLING\<rparr>"

definition level_env :: "bool \<Rightarrow> input_env" where
  "level_env l = \<lparr>in_self = 5, in_read = (\<lambda>_ _ _. l)\<rparr>"

theorem switch_reports_position_witness:
  "lastEdge (fst (schalter_run hall_switch (replicate 4 (level_env False, Tick 10)))) = RISING"
proof -
  have "schalter_inv hall_switch" "in_position True (config hall_switch) (replicate 4 (level_env False, Tick 10))"
    "4 \<le> ticks10 (replicate 4 (level_env False, Tick 10))"
    by (simp_all add: schalter_inv_def hall_switch_def in_position_def schalter_active_def level_env_def ticks10_def)
  from switch_reports_position [OF this] show ?thesis by (simp add: edge_of_def)
qed

text \<open>
  The debouncing counts deviating samples without forgetting them when the level returns: the
  third isolated disturbance, at any distance, is reported as a change.
\<close>

lemma switch_adds_up_glitches:
  assumes "newState p = 0" and "lastEdge p = FALLING"
    and "\<And>q. config q = config p \<Longrightarrow> schalter_active on q" and "\<And>q. config q = config p \<Longrightarrow> \<not> schalter_active off q"
  shows "snd (schalter_run p (concat (map (\<lambda>k. replicate k (off, Tick 10) @ [(on, Tick 10)]) [i, j, k]))) =
    [send_hi (schalter_msg (in_self on) (config p) True)]"
proof -
  have quiet: "schalter_run q (replicate n (off, Tick 10)) = (q, [])"
    if "schalter_inv q" "newState q \<noteq> 3" "lastEdge q = FALLING" "config q = config p" for q n
  proof (induction n)
    case (Suc n)
    have "schalter_active off q = False" using assms(4) that(4) by simp
    then show ?case using Suc schalter_tick [OF that(1), of off False] that by (simp add: edge_of_def)
  qed simp
  have glitch: "schalter_timer_handler on q 10 =
      (if newState q = 2 then (q\<lparr>newState := 0, lastEdge := RISING\<rparr>, [send_hi (schalter_msg (in_self on) (config p) True)])
       else (q\<lparr>newState := newState q + 1\<rparr>, []))"
    if "schalter_inv q" "newState q \<noteq> 3" "lastEdge q = FALLING" "config q = config p" for q
  proof -
    have "schalter_active on q = True" using assms(3) that(4) by simp
    then show ?thesis using schalter_tick [OF that(1), of on True] that by (auto simp: edge_of_def)
  qed
  show ?thesis
    using assms(1,2) by (simp add: dev_run_append quiet glitch schalter_inv_def)
qed

end
