(* ===== verification/Multitaster.thy ===== *)
theory Multitaster
  imports Taster
begin

text \<open>
  The push button with a selector,
  \<^verbatim>\<open>src/firmwares/controllerboard/devices/multitaster.c\<close>: a push button whose group
  depends on the position of a potentiometer elsewhere on the bus.
\<close>

section \<open>State and operations\<close>

abbreviation (input) MAX_MULTITASTER_GROUPS :: nat where "MAX_MULTITASTER_GROUPS \<equiv> 10"

text \<open>The fields \<^verbatim>\<open>gruppe0\<close> to \<^verbatim>\<open>gruppe9\<close> as the list the code reads them as.\<close>

record multitaster_config =
  c_poti_gruppe :: u8
  c_taster_port :: u8
  c_feature :: u8
  c_gruppen :: "u8 list"

record device_data_multitaster =
  config :: multitaster_config
  pressed :: u8
  lastPotiPos :: u8
  oneScale :: u16

abbreviation (input) FEATURE_MULTITASTER_ENTPRELL_1S :: nat where "FEATURE_MULTITASTER_ENTPRELL_1S \<equiv> 0"
abbreviation (input) FEATURE_MULTITASTER_ROLLADEN_AUF :: nat where "FEATURE_MULTITASTER_ROLLADEN_AUF \<equiv> 1"
abbreviation (input) FEATURE_MULTITASTER_ROLLADEN_ZU :: nat where "FEATURE_MULTITASTER_ROLLADEN_ZU \<equiv> 2"

definition mt_feature :: "device_data_multitaster \<Rightarrow> nat \<Rightarrow> bool" where
  "mt_feature p n = test_bit (c_feature (config p)) n"

text \<open>
  The size of a division of the scale. Without any group the code divides by zero, for which
  there is no result.
\<close>

definition detectAndSetOneScale :: "device_data_multitaster \<Rightarrow> device_data_multitaster option" where
  "detectAndSetOneScale p =
     (let n = length (takeWhile (\<lambda>g. g \<noteq> 255) (take MAX_MULTITASTER_GROUPS (c_gruppen (config p))))
      in if n = 0 then None else Some (p\<lparr>oneScale := of_nat (1023 div n)\<rparr>))"

definition multitaster_init :: "device_data_multitaster \<Rightarrow> device_data_multitaster option" where
  "multitaster_init p = map_option (\<lambda>p. p\<lparr>lastPotiPos := 0\<rparr>) (detectAndSetOneScale p)"

definition getGroup :: "device_data_multitaster \<Rightarrow> u8" where
  "getGroup p =
     (if unat (lastPotiPos p) < MAX_MULTITASTER_GROUPS then c_gruppen (config p) ! unat (lastPotiPos p)
      else 255)"

definition mt_msg :: "u16 \<Rightarrow> device_data_multitaster \<Rightarrow> u8 \<Rightarrow> u8 \<Rightarrow> out" where
  "mt_msg self p ty b = send_hi (hes_message self HCAN_MULTICAST_CONTROL [ty, getGroup p, b])"

definition mt_up :: "u16 \<Rightarrow> device_data_multitaster \<Rightarrow> out list" where
  "mt_up self p =
     (if \<not> (mt_feature p FEATURE_MULTITASTER_ROLLADEN_ZU \<or> mt_feature p FEATURE_MULTITASTER_ROLLADEN_AUF)
      then [mt_msg self p HCAN_HES_TASTER_UP (c_taster_port (config p))] else [])"

definition mt_down :: "u16 \<Rightarrow> device_data_multitaster \<Rightarrow> out" where
  "mt_down self p =
     (if mt_feature p FEATURE_MULTITASTER_ROLLADEN_ZU then mt_msg self p HCAN_HES_ROLLADEN_POSITION_SET 200
      else if mt_feature p FEATURE_MULTITASTER_ROLLADEN_AUF then mt_msg self p HCAN_HES_ROLLADEN_POSITION_SET 201
      else mt_msg self p HCAN_HES_TASTER_DOWN (c_taster_port (config p)))"

definition multitaster_timer_handler ::
  "input_env \<Rightarrow> device_data_multitaster \<Rightarrow> u8 \<Rightarrow> device_data_multitaster \<times> out list" where
  "multitaster_timer_handler e p zyklus =
     (if zyklus \<noteq> 100 then (p, [])
      else
        (let status = (\<not> in_read e 0 True (c_taster_port (config p)));
             t = (if mt_feature p FEATURE_MULTITASTER_ENTPRELL_1S then 100 else 3) in
         andthen
           (if status then (if pressed p < 255 then p\<lparr>pressed := pressed p + 1\<rparr> else p, [])
            else (p\<lparr>pressed := 0\<rparr>, if pressed p > 3 then mt_up (in_self e) p else []))
           (\<lambda>p. (p, if pressed p = t then [mt_down (in_self e) p] else []))))"

text \<open>The position for a converted value: the first division line that is not below it.\<close>

definition poti_pos :: "u16 \<Rightarrow> u16 \<Rightarrow> u8 \<Rightarrow> u8" where
  "poti_pos scale adc old =
     (case find (\<lambda>i. adc \<le> of_nat i * scale) [0..<MAX_MULTITASTER_GROUPS] of
        Some i \<Rightarrow> if adc = 0 then 0 else of_nat i - 1
      | None \<Rightarrow> old)"

definition multitaster_can_callback ::
  "input_env \<Rightarrow> device_data_multitaster \<Rightarrow> canix_frame \<Rightarrow> device_data_multitaster \<times> out list" where
  "multitaster_can_callback e p f =
     (if byte_at f 1 = HCAN_HES_POTI_POS_CHANGED \<and> byte_at f 2 = c_poti_gruppe (config p)
      then (p\<lparr>lastPotiPos := poti_pos (oneScale p) (mk16 (byte_at f 3) (byte_at f 4)) (lastPotiPos p)\<rparr>, [])
      else (p, []))"

section \<open>Invariant\<close>

text \<open>The list has its ten entries, and the position is one of the first nine.\<close>

definition mt_inv :: "device_data_multitaster \<Rightarrow> bool" where
  "mt_inv p \<longleftrightarrow> length (c_gruppen (config p)) = MAX_MULTITASTER_GROUPS \<and> unat (lastPotiPos p) \<le> 8"

lemma poti_pos_le:
  assumes "unat old \<le> 8"
  shows "unat (poti_pos scale adc old) \<le> 8"
proof (cases "find (\<lambda>i. adc \<le> of_nat i * scale) [0..<MAX_MULTITASTER_GROUPS]")
  case None
  then show ?thesis using assms by (simp add: poti_pos_def)
next
  case (Some i)
  then have i: "i < 10" "adc \<le> of_nat i * scale" by (auto simp: find_Some_iff dest: nth_mem)
  show ?thesis
  proof (cases "adc = 0")
    case False
    then have "i \<noteq> 0" using i(2) by (metis mult_zero_left of_nat_0 word_le_0_iff)
    then have "(of_nat i :: u8) - 1 = of_nat (i - 1)" by (simp add: of_nat_diff)
    then show ?thesis using i(1) False Some by (simp add: poti_pos_def)
  qed (use assms in \<open>simp add: poti_pos_def split: option.split\<close>)
qed

lemma mt_inv_frame: "mt_inv p \<Longrightarrow> mt_inv (fst (multitaster_can_callback e p f))"
  by (simp add: multitaster_can_callback_def mt_inv_def poti_pos_le)

lemma mt_inv_timer: "mt_inv p \<Longrightarrow> mt_inv (fst (multitaster_timer_handler e p z))"
  by (simp add: multitaster_timer_handler_def mt_inv_def Let_def)

definition mt_says :: "u8 \<Rightarrow> bool" where
  "mt_says ty \<longleftrightarrow> ty \<in> {HCAN_HES_TASTER_UP, HCAN_HES_TASTER_DOWN, HCAN_HES_ROLLADEN_POSITION_SET}"

lemma mt_timer_says: "says mt_says (snd (multitaster_timer_handler e p z))"
  by (simp add: multitaster_timer_handler_def mt_up_def mt_down_def mt_msg_def mt_says_def Let_def)

lemma mt_frame_says: "says mt_says (snd (multitaster_can_callback e p f))"
  by (simp add: multitaster_can_callback_def)

lemma mt_ignores: "mt_says (byte_at fr 1) \<Longrightarrow> multitaster_can_callback e p fr = (p, [])"
  by (auto simp: multitaster_can_callback_def mt_says_def)

interpretation multitaster_dev: echo_free_device "\<lambda>_. True" mt_inv multitaster_can_callback
  multitaster_timer_handler
  by (rule echo_free_deviceI)
    (blast intro: mt_inv_timer mt_inv_frame mt_timer_says mt_frame_says mt_ignores)+

section \<open>Which groups can be selected\<close>

text \<open>
  The tenth group is out of reach: after the start and any sequence of frames and
  ticks, the messages of the button carry one of the first nine groups, never the group in the
  last entry, although a full list of ten groups is what the configuration allows.
\<close>

theorem tenth_group_unreachable:
  assumes "length (c_gruppen (config p)) = MAX_MULTITASTER_GROUPS" and "multitaster_init p = Some q"
  shows "\<exists>i < 9. getGroup (fst (dev_run multitaster_can_callback multitaster_timer_handler q evs)) =
    c_gruppen (config p) ! i"
proof -
  let ?r = "fst (dev_run multitaster_can_callback multitaster_timer_handler q evs)"
  have "mt_inv q" "config q = config p"
    using assms(1,2) by (auto simp: multitaster_init_def detectAndSetOneScale_def mt_inv_def Let_def split: if_splits)
  moreover have "config (fst (dev_step multitaster_can_callback multitaster_timer_handler e x ev)) = config x" for e x ev
    by (cases ev) (simp_all add: multitaster_can_callback_def multitaster_timer_handler_def Let_def)
  then have "config (fst (dev_run multitaster_can_callback multitaster_timer_handler x evs)) = config x" for x
    by (induction evs arbitrary: x) simp_all
  then have "config ?r = config q" .
  moreover have "mt_inv ?r" using multitaster_dev.run_inv [OF \<open>mt_inv q\<close>, of evs] by simp
  ultimately show ?thesis by (intro exI [of _ "unat (lastPotiPos ?r)"]) (simp add: getGroup_def mt_inv_def)
qed

definition ten_groups :: device_data_multitaster where
  "ten_groups = \<lparr>config = \<lparr>c_poti_gruppe = 3, c_taster_port = 2, c_feature = 0,
       c_gruppen = [20, 21, 22, 23, 24, 25, 26, 27, 28, 29]\<rparr>, pressed = 0, lastPotiPos = 0, oneScale = 0\<rparr>"

theorem tenth_group_unreachable_witness:
  "\<exists>i < 9. getGroup (fst (dev_run multitaster_can_callback multitaster_timer_handler
      (ten_groups\<lparr>oneScale := 102\<rparr>)
      [(\<lparr>in_self = 5, in_read = (\<lambda>_ _ _. True)\<rparr>, Frame (hes_message 9 36 [HCAN_HES_POTI_POS_CHANGED, 3, 3, 255]))])) =
    [20, 21, 22, 23, 24, 25, 26, 27, 28, 29] ! i"
proof -
  have l: "length (c_gruppen (config ten_groups)) = MAX_MULTITASTER_GROUPS" by (simp add: ten_groups_def)
  have i: "multitaster_init ten_groups = Some (ten_groups\<lparr>oneScale := 102\<rparr>)"
    by (simp add: multitaster_init_def detectAndSetOneScale_def ten_groups_def Let_def)
  show ?thesis
    using tenth_group_unreachable [OF l i, of "[(\<lparr>in_self = 5, in_read = (\<lambda>_ _ _. True)\<rparr>,
      Frame (hes_message 9 36 [HCAN_HES_POTI_POS_CHANGED, 3, 3, 255]))]"]
    by (simp add: ten_groups_def)
qed

text \<open>
  With two groups the upper stop of the potentiometer is behind the second division, and the
  button sends the unused group 255.
\<close>

lemma upper_stop_leaves_the_scale:
  assumes "c_gruppen (config p) = [a, b, 255, 255, 255, 255, 255, 255, 255, 255]" and "a \<noteq> 255" and "b \<noteq> 255"
    and "byte_at f 1 = HCAN_HES_POTI_POS_CHANGED" and "byte_at f 2 = c_poti_gruppe (config p)"
    and "byte_at f 3 = 3" and "byte_at f 4 = 255"
  shows "\<exists>q. multitaster_init p = Some q \<and> getGroup (fst (multitaster_can_callback e q f)) = 255"
proof -
  have "multitaster_init p = Some (p\<lparr>oneScale := 511, lastPotiPos := 0\<rparr>)"
    using assms(1-3) by (simp add: multitaster_init_def detectAndSetOneScale_def Let_def numeral_2_eq_2 [symmetric])
  moreover have "poti_pos 511 (mk16 3 255) 0 = 2"
    by (simp add: poti_pos_def mk16_def upt_conv_Cons)
  ultimately show ?thesis
    using assms by (simp add: multitaster_can_callback_def getGroup_def)
qed

end
