(* ===== verification/Zeitschaltuhr.thy ===== *)
theory Zeitschaltuhr
  imports Zeitzone
begin

text \<open>
  The time switch, \<^verbatim>\<open>src/firmwares/controllerboard/devices/zeitschaltuhr.c\<close>: it
  switches a group of outputs on while one of its eight time zones matches, repeats the order
  from time to time, and can be put out of action by a switch.
\<close>

section \<open>State and operations\<close>

record zeitschaltuhr_config =
  c_power_gruppe :: u8
  c_automatikEin_schalter_gruppe :: u8
  c_zeitzonen :: "u8 list"

record device_data_zeitschaltuhr =
  config :: zeitschaltuhr_config
  state :: bool
  update_counter :: u16
  automatikEin :: bool

abbreviation (input) ZEITSCHALTUHR_UPDATE_INTERVAL :: u16 where "ZEITSCHALTUHR_UPDATE_INTERVAL \<equiv> 173"

definition zeitschaltuhr_init :: "device_data_zeitschaltuhr \<Rightarrow> device_data_zeitschaltuhr" where
  "zeitschaltuhr_init p =
     p\<lparr>state := False, update_counter := 1 + ucast (c_power_gruppe (config p) AND 0x0f), automatikEin := True\<rparr>"

definition zsu_sendMessage :: "u16 \<Rightarrow> device_data_zeitschaltuhr \<Rightarrow> u8 \<Rightarrow> out" where
  "zsu_sendMessage self p zustand =
     send_low (hes_message self HCAN_MULTICAST_CONTROL [zustand, c_power_gruppe (config p)])"

definition zsu_order :: "bool \<Rightarrow> u8" where
  "zsu_order b = (if b then HCAN_HES_POWER_GROUP_ON else HCAN_HES_POWER_GROUP_OFF)"

text \<open>The loops over the eight zones: does one of them match?\<close>

definition zsu_zone :: "board_env \<Rightarrow> device_data_zeitschaltuhr \<Rightarrow> bool" where
  "zsu_zone e p = list_ex (zeitzone_matches e) (take 8 (c_zeitzonen (config p)))"

definition zeitschaltuhr_timer_handler ::
  "board_env \<Rightarrow> device_data_zeitschaltuhr \<Rightarrow> u8 \<Rightarrow> device_data_zeitschaltuhr \<times> out list" where
  "zeitschaltuhr_timer_handler e p zyklus =
     (let self = self_addr e in
      if zyklus \<noteq> 1 then (p, [])
      else if \<not> automatikEin p then (p, [])
      else if \<not> state p \<and> zsu_zone e p
      then (p\<lparr>state := True\<rparr>, [zsu_sendMessage self p HCAN_HES_POWER_GROUP_ON])
      else if state p \<and> \<not> zsu_zone e p
      then (p\<lparr>state := False\<rparr>, [zsu_sendMessage self p HCAN_HES_POWER_GROUP_OFF])
      else andthen
        (if update_counter p = 0
         then (p\<lparr>update_counter := ZEITSCHALTUHR_UPDATE_INTERVAL\<rparr>, [zsu_sendMessage self p (zsu_order (state p))])
         else (p, []))
        (\<lambda>p. (p\<lparr>update_counter := update_counter p - 1\<rparr>, [])))"

definition zeitschaltuhr_can_callback ::
  "board_env \<Rightarrow> device_data_zeitschaltuhr \<Rightarrow> canix_frame \<Rightarrow> device_data_zeitschaltuhr \<times> out list" where
  "zeitschaltuhr_can_callback e p f =
     (let cmd = byte_at f 1; mine = (byte_at f 2 = c_automatikEin_schalter_gruppe (config p)) in
      if cmd = HCAN_HES_SCHALTER_ON then (if mine then p\<lparr>automatikEin := True\<rparr> else p, [])
      else if cmd = HCAN_HES_SCHALTER_OFF then
        (if mine then (p\<lparr>automatikEin := False\<rparr>, [zsu_sendMessage (self_addr e) p HCAN_HES_POWER_GROUP_OFF])
         else (p, []))
      else (p, []))"

section \<open>What the time switch says\<close>

definition zsu_says :: "u8 \<Rightarrow> bool" where
  "zsu_says ty \<longleftrightarrow> ty = HCAN_HES_POWER_GROUP_ON \<or> ty = HCAN_HES_POWER_GROUP_OFF"

lemma zsu_timer_says: "says zsu_says (snd (zeitschaltuhr_timer_handler e p z))"
  by (simp add: zeitschaltuhr_timer_handler_def zsu_sendMessage_def zsu_order_def zsu_says_def Let_def)

lemma zsu_callback_says: "says zsu_says (snd (zeitschaltuhr_can_callback e p f))"
  by (simp add: zeitschaltuhr_can_callback_def zsu_sendMessage_def zsu_says_def Let_def)

lemma zsu_ignores: "zsu_says (byte_at fr 1) \<Longrightarrow> zeitschaltuhr_can_callback e p fr = (p, [])"
  by (auto simp: zeitschaltuhr_can_callback_def zsu_says_def Let_def)

interpretation zeitschaltuhr_dev: echo_free_device "\<lambda>_. True" "\<lambda>_. True" zeitschaltuhr_can_callback
  zeitschaltuhr_timer_handler
  by (rule echo_free_deviceI) (blast intro: zsu_timer_says zsu_callback_says zsu_ignores)+

section \<open>Following the zones\<close>

text \<open>The last order among a list of effects, or the one before them.\<close>

fun last_order :: "bool \<Rightarrow> canix_frame list \<Rightarrow> bool" where
  "last_order b [] = b"
| "last_order b (f # fs) = last_order (byte_at f 1 = HCAN_HES_POWER_GROUP_ON) fs"

lemma last_order_append: "last_order b (xs @ ys) = last_order (last_order b xs) ys"
  by (induction xs arbitrary: b) simp_all

lemma zsu_second:
  assumes "automatikEin p"
  shows "state (fst (zeitschaltuhr_timer_handler e p 1)) = zsu_zone e p"
    "automatikEin (fst (zeitschaltuhr_timer_handler e p 1))"
    "config (fst (zeitschaltuhr_timer_handler e p 1)) = config p"
    "last_order (state p) (sent_frames (snd (zeitschaltuhr_timer_handler e p 1))) = zsu_zone e p"
  using assms
  by (auto simp: zeitschaltuhr_timer_handler_def zsu_sendMessage_def zsu_order_def Let_def)

text \<open>The repetition: the counter runs from 172 to 0.\<close>

lemma zsu_repeat:
  assumes "automatikEin p" and "state p = zsu_zone e p"
  shows "unat (update_counter (fst (zeitschaltuhr_timer_handler e p 1))) =
      (if update_counter p = 0 then 172 else unat (update_counter p) - 1)"
    "sent_frames (snd (zeitschaltuhr_timer_handler e p 1)) \<noteq> [] \<longleftrightarrow> update_counter p = 0"
  using assms
  by (auto simp: zeitschaltuhr_timer_handler_def zsu_sendMessage_def unat_dec Let_def)

text \<open>
  The device's seconds, with the environment of each; the switch of the automatic mode is not
  used in between.
\<close>

fun zsu_seconds :: "board_env list \<Rightarrow> device_data_zeitschaltuhr \<Rightarrow> device_data_zeitschaltuhr \<times> out list" where
  "zsu_seconds [] p = (p, [])"
| "zsu_seconds (e # es) p = andthen (zeitschaltuhr_timer_handler e p 1) (zsu_seconds es)"

lemma zsu_seconds_follow:
  "automatikEin p \<Longrightarrow> es \<noteq> [] \<Longrightarrow>
   state (fst (zsu_seconds es p)) = zsu_zone (last es) p \<and> automatikEin (fst (zsu_seconds es p)) \<and>
   last_order (state p) (sent_frames (snd (zsu_seconds es p))) = zsu_zone (last es) p"
proof (induction es arbitrary: p)
  case (Cons e es)
  let ?q = "fst (zeitschaltuhr_timer_handler e p 1)"
  have z: "zsu_zone e' ?q = zsu_zone e' p" for e' by (simp add: zsu_zone_def zsu_second(3) [OF Cons.prems(1)])
  show ?case
  proof (cases "es = []")
    case True
    then show ?thesis using zsu_second [OF Cons.prems(1), of e] by simp
  next
    case False
    then show ?thesis
      using Cons.IH [OF zsu_second(2) [OF Cons.prems(1), of e] False] zsu_second [OF Cons.prems(1), of e] z
      by (simp add: last_order_append)
  qed
qed simp

text \<open>
  The automatic mode switched off and on again in the middle of a zone: the outputs are ordered
  off, and the time switch, which believes they are on, orders them on again only with the next
  repetition.
\<close>

lemma gap_after_switching_automatic:
  assumes "state p" and "byte_at f 1 = HCAN_HES_SCHALTER_OFF" and "byte_at g 1 = HCAN_HES_SCHALTER_ON"
    and "byte_at f 2 = c_automatikEin_schalter_gruppe (config p)" and "byte_at g 2 = c_automatikEin_schalter_gruppe (config p)"
    and "\<forall>e \<in> set es. zsu_zone e p" and "length es \<le> unat (update_counter p)"
    and "q = fst (zeitschaltuhr_can_callback e1 (fst (zeitschaltuhr_can_callback e1 p f)) g)"
  shows "snd (zeitschaltuhr_can_callback e1 p f) = [zsu_sendMessage (self_addr e1) p HCAN_HES_POWER_GROUP_OFF] \<and>
    snd (zsu_seconds es q) = []"
proof -
  have quiet: "snd (zsu_seconds es q) = []"
    if "automatikEin q" "state q" "\<forall>e \<in> set es. zsu_zone e q" "length es \<le> unat (update_counter q)" for q
    using that
  proof (induction es arbitrary: q)
    case (Cons e es)
    have u: "update_counter q \<noteq> 0" using Cons.prems(4) by auto
    then have t: "zeitschaltuhr_timer_handler e q 1 = (q\<lparr>update_counter := update_counter q - 1\<rparr>, [])"
      using Cons.prems by (simp add: zeitschaltuhr_timer_handler_def Let_def)
    have "snd (zsu_seconds es (q\<lparr>update_counter := update_counter q - 1\<rparr>)) = []"
      using Cons.prems u by (intro Cons.IH) (auto simp: zsu_zone_def unat_dec)
    then show ?case by (simp add: t)
  qed simp
  have q: "q = p\<lparr>automatikEin := True\<rparr>"
    using assms(2-5,8) by (simp add: zeitschaltuhr_can_callback_def Let_def)
  have "snd (zsu_seconds es q) = []"
    using assms(1,6,7) by (intro quiet) (simp_all add: q zsu_zone_def)
  then show ?thesis
    using assms(2,4) by (simp add: zeitschaltuhr_can_callback_def Let_def)
qed

end
