(* ===== verification/Powerport_Automat.thy ===== *)
theory Powerport_Automat
  imports Hes_Device
begin

text \<open>
  The brightness-controlled output group,
  \<^verbatim>\<open>src/firmwares/controllerboard/devices/powerportAutomat.c\<close>: the orders of a
  switch or motion detector are passed on to a group of outputs, an order to switch on only
  if it is not too bright.
\<close>

record powerportAutomat_config =
  c_powerport_gruppe :: u8
  c_steller_gruppe :: u8
  c_automatikEin_schalter_gruppe :: u8
  c_helligkeits_gruppe :: u8
  c_helligkeitsschwelle :: u16

record device_data_powerportAutomat =
  config :: powerportAutomat_config
  brightness :: u16
  msgIstVersendet :: bool
  automatikEin :: bool

definition powerportAutomat_init :: "device_data_powerportAutomat \<Rightarrow> device_data_powerportAutomat" where
  "powerportAutomat_init p = p\<lparr>brightness := 65535, msgIstVersendet := False, automatikEin := True\<rparr>"

definition pa_sendMessage :: "u16 \<Rightarrow> device_data_powerportAutomat \<Rightarrow> u8 \<Rightarrow> out list" where
  "pa_sendMessage self p active =
     (if automatikEin p \<and> active = HCAN_HES_POWER_GROUP_ON \<and> brightness p \<noteq> 65535 \<and>
         brightness p > c_helligkeitsschwelle (config p)
      then []
      else [send_hi (hes_message self HCAN_MULTICAST_CONTROL [active, c_powerport_gruppe (config p)])])"

definition powerportAutomat_can_callback ::
  "u16 \<Rightarrow> device_data_powerportAutomat \<Rightarrow> canix_frame \<Rightarrow> device_data_powerportAutomat \<times> out list" where
  "powerportAutomat_can_callback self p f =
     (let cmd = byte_at f 1; g = byte_at f 2; c = config p in
      if cmd = HCAN_HES_SCHALTER_ON then
        (if c_automatikEin_schalter_gruppe c \<noteq> 255 \<and> g = c_automatikEin_schalter_gruppe c
         then (p\<lparr>automatikEin := True\<rparr>, [])
         else if c_steller_gruppe c \<noteq> 255 \<and> g = c_steller_gruppe c
         then (p, pa_sendMessage self p HCAN_HES_POWER_GROUP_ON)
         else (p, []))
      else if cmd = HCAN_HES_SCHALTER_OFF then
        (if c_automatikEin_schalter_gruppe c \<noteq> 255 \<and> g = c_automatikEin_schalter_gruppe c
         then (p\<lparr>automatikEin := False\<rparr>, [])
         else if c_steller_gruppe c \<noteq> 255 \<and> g = c_steller_gruppe c
         then (p, pa_sendMessage self p HCAN_HES_POWER_GROUP_OFF)
         else (p, []))
      else if cmd = HCAN_HES_HELLIGKEITS_INFO then
        (if c_helligkeits_gruppe c \<noteq> 255 \<and> g = c_helligkeits_gruppe c
         then (p\<lparr>brightness := mk16 (byte_at f 3) (byte_at f 4)\<rparr>, [])
         else (p, []))
      else (p, []))"

definition powerportAutomat_timer_handler ::
  "u16 \<Rightarrow> device_data_powerportAutomat \<Rightarrow> u8 \<Rightarrow> device_data_powerportAutomat \<times> out list" where
  "powerportAutomat_timer_handler self p zyklus = (p, [])"

text \<open>It says only orders to the outputs, which it does not listen to.\<close>

definition pa_says :: "u8 \<Rightarrow> bool" where
  "pa_says ty \<longleftrightarrow> ty = HCAN_HES_POWER_GROUP_ON \<or> ty = HCAN_HES_POWER_GROUP_OFF"

lemma pa_callback_says: "says pa_says (snd (powerportAutomat_can_callback self p f))"
  by (simp add: powerportAutomat_can_callback_def pa_sendMessage_def pa_says_def Let_def)

lemma pa_ignores: "pa_says (byte_at fr 1) \<Longrightarrow> powerportAutomat_can_callback self p fr = (p, [])"
  by (auto simp: powerportAutomat_can_callback_def pa_says_def Let_def)

interpretation powerportAutomat_dev: echo_free_device "\<lambda>_. True" "\<lambda>_. True" powerportAutomat_can_callback
  powerportAutomat_timer_handler
proof (rule echo_free_deviceI)
  show "says pa_says (snd (powerportAutomat_timer_handler e p z))" for e p z
    by (simp add: powerportAutomat_timer_handler_def)
qed (simp_all add: pa_callback_says pa_ignores)

text \<open>
  An order to switch on in automatic mode goes out exactly when the last brightness heard is
  missing or not above the threshold; an order to switch off always does.
\<close>

lemma brightness_heard:
  assumes "byte_at b 1 = HCAN_HES_HELLIGKEITS_INFO" and "byte_at b 2 = c_helligkeits_gruppe (config p)"
    and "c_helligkeits_gruppe (config p) \<noteq> 255" and "automatikEin p"
    and "byte_at f 1 = HCAN_HES_SCHALTER_ON \<or> byte_at f 1 = HCAN_HES_SCHALTER_OFF"
    and "byte_at f 2 = c_steller_gruppe (config p)" and "c_steller_gruppe (config p) \<noteq> 255"
    and "c_steller_gruppe (config p) \<noteq> c_automatikEin_schalter_gruppe (config p)"
  shows "sent_frames (snd (powerportAutomat_can_callback self (fst (powerportAutomat_can_callback self p b)) f)) =
    (if byte_at f 1 = HCAN_HES_SCHALTER_OFF
     then [hes_message self HCAN_MULTICAST_CONTROL [HCAN_HES_POWER_GROUP_OFF, c_powerport_gruppe (config p)]]
     else if mk16 (byte_at b 3) (byte_at b 4) \<noteq> 65535 \<and>
         mk16 (byte_at b 3) (byte_at b 4) > c_helligkeitsschwelle (config p) then []
     else [hes_message self HCAN_MULTICAST_CONTROL [HCAN_HES_POWER_GROUP_ON, c_powerport_gruppe (config p)]])"
  using assms by (auto simp: powerportAutomat_can_callback_def pa_sendMessage_def Let_def)

end
