(* ===== verification/Rolladen_Automat.thy ===== *)
theory Rolladen_Automat
  imports Zeitzone
begin

text \<open>
  The automatic control of shutters,
  \<^verbatim>\<open>src/firmwares/controllerboard/devices/rolladenAutomat.c\<close>: in one of two time zones,
  and if a light sensor is configured only after the brightness has been beyond a threshold
  for a quarter of an hour, it orders a group of shutters to a position, once per zone.
\<close>

section \<open>State and operations\<close>

record rolladenAutomat_config =
  c_rolladen_gruppe :: u8
  c_rolladen_soll_position :: u8
  c_automatikEin_schalter_gruppe :: u8
  c_zeitzonen :: "u8 list"
  c_helligkeits_gruppe :: u8
  c_helligkeitsschwelle :: u16
  c_helligkeitswertueberschreitung :: u8

datatype schwellwert =
  HELLIGKEIT_IM_TOLERANZBEREICH | HELLIGKEITS_UNTERSCHREITUNG_ERKANNT | HELLIGKEITS_UEBERSCHREITUNG_ERKANNT

record device_data_rolladenAutomat =
  config :: rolladenAutomat_config
  brightness :: u16
  msgIstVersendet :: bool
  automatikEin :: bool
  SchwellwertErkanntSecsCnt :: u16
  SchwellwertErkannt :: schwellwert

definition rolladenAutomat_init :: "device_data_rolladenAutomat \<Rightarrow> device_data_rolladenAutomat" where
  "rolladenAutomat_init p =
     p\<lparr>brightness := 65535, msgIstVersendet := False, automatikEin := True,
       SchwellwertErkanntSecsCnt := 0, SchwellwertErkannt := HELLIGKEIT_IM_TOLERANZBEREICH\<rparr>"

definition ra_position :: "u8 \<Rightarrow> u8" where
  "ra_position soll = (if soll \<ge> 100 then 201 else if soll \<le> 0 then 200 else soll)"

definition ra_sendMessage ::
  "u16 \<Rightarrow> device_data_rolladenAutomat \<Rightarrow> device_data_rolladenAutomat \<times> out list" where
  "ra_sendMessage self p =
     (if msgIstVersendet p then (p, [])
      else (p\<lparr>msgIstVersendet := True\<rparr>,
            [send_low (hes_message self HCAN_MULTICAST_CONTROL
               [HCAN_HES_ROLLADEN_POSITION_SET, c_rolladen_gruppe (config p),
                ra_position (c_rolladen_soll_position (config p))])]))"

text \<open>The threshold, for one second in a zone with a brightness.\<close>

definition ra_threshold :: "device_data_rolladenAutomat \<Rightarrow> device_data_rolladenAutomat" where
  "ra_threshold p =
     (if c_helligkeitswertueberschreitung (config p) \<noteq> 0
      then (if brightness p > c_helligkeitsschwelle (config p)
            then p\<lparr>SchwellwertErkanntSecsCnt := SchwellwertErkanntSecsCnt p + 1,
                   SchwellwertErkannt := HELLIGKEITS_UEBERSCHREITUNG_ERKANNT\<rparr>
            else p\<lparr>SchwellwertErkanntSecsCnt := 0, SchwellwertErkannt := HELLIGKEIT_IM_TOLERANZBEREICH\<rparr>)
      else (if brightness p < c_helligkeitsschwelle (config p)
            then p\<lparr>SchwellwertErkanntSecsCnt := SchwellwertErkanntSecsCnt p + 1,
                   SchwellwertErkannt := HELLIGKEITS_UNTERSCHREITUNG_ERKANNT\<rparr>
            else p\<lparr>SchwellwertErkanntSecsCnt := 0, SchwellwertErkannt := HELLIGKEIT_IM_TOLERANZBEREICH\<rparr>))"

definition ra_zone :: "board_env \<Rightarrow> device_data_rolladenAutomat \<Rightarrow> bool" where
  "ra_zone e p = list_ex (zeitzone_matches e) (take 2 (c_zeitzonen (config p)))"

definition ra_in_zone ::
  "u16 \<Rightarrow> device_data_rolladenAutomat \<Rightarrow> device_data_rolladenAutomat \<times> out list" where
  "ra_in_zone self p =
     (if c_helligkeits_gruppe (config p) = 255 then ra_sendMessage self p
      else if brightness p \<noteq> 65535 then (ra_threshold p, [])
      else (p, []))"

definition rolladenAutomat_timer_handler ::
  "board_env \<Rightarrow> device_data_rolladenAutomat \<Rightarrow> u8 \<Rightarrow> device_data_rolladenAutomat \<times> out list" where
  "rolladenAutomat_timer_handler e p zyklus =
     (let self = self_addr e in
      if zyklus \<noteq> 1 then (p, [])
      else if \<not> automatikEin p then (p, [])
      else andthen
        (if ra_zone e p then ra_in_zone self p else (p\<lparr>msgIstVersendet := False\<rparr>, []))
        (\<lambda>p. if SchwellwertErkanntSecsCnt p = 900
              then andthen (ra_sendMessage self p) (\<lambda>p. (p\<lparr>SchwellwertErkanntSecsCnt := 0\<rparr>, []))
              else (p, [])))"

definition rolladenAutomat_can_callback ::
  "board_env \<Rightarrow> device_data_rolladenAutomat \<Rightarrow> canix_frame \<Rightarrow> device_data_rolladenAutomat \<times> out list" where
  "rolladenAutomat_can_callback e p f =
     (let cmd = byte_at f 1; c = config p in
      if cmd = HCAN_HES_SCHALTER_ON
      then (if byte_at f 2 = c_automatikEin_schalter_gruppe c then p\<lparr>automatikEin := True\<rparr> else p, [])
      else if cmd = HCAN_HES_SCHALTER_OFF
      then (if byte_at f 2 = c_automatikEin_schalter_gruppe c then p\<lparr>automatikEin := False\<rparr> else p, [])
      else if cmd = HCAN_HES_HELLIGKEITS_INFO
      then (if c_helligkeits_gruppe c \<noteq> 255 \<and> byte_at f 2 = c_helligkeits_gruppe c
            then p\<lparr>brightness := mk16 (byte_at f 3) (byte_at f 4)\<rparr> else p, [])
      else (p, []))"

section \<open>What the automatic control says\<close>

lemma ra_sendMessage_sel [simp]:
  "config (fst (ra_sendMessage self p)) = config p"
  "automatikEin (fst (ra_sendMessage self p)) = automatikEin p"
  "brightness (fst (ra_sendMessage self p)) = brightness p"
  "SchwellwertErkanntSecsCnt (fst (ra_sendMessage self p)) = SchwellwertErkanntSecsCnt p"
  "msgIstVersendet (fst (ra_sendMessage self p))"
  by (simp_all add: ra_sendMessage_def)

lemma ra_threshold_sel [simp]:
  "config (ra_threshold p) = config p" "automatikEin (ra_threshold p) = automatikEin p"
  "brightness (ra_threshold p) = brightness p" "msgIstVersendet (ra_threshold p) = msgIstVersendet p"
  by (simp_all add: ra_threshold_def)

lemma ra_in_zone_sel [simp]:
  "config (fst (ra_in_zone self p)) = config p" "automatikEin (fst (ra_in_zone self p)) = automatikEin p"
  "brightness (fst (ra_in_zone self p)) = brightness p"
  by (simp_all add: ra_in_zone_def)

lemma ra_tick_sel [simp]:
  "config (fst (rolladenAutomat_timer_handler e p z)) = config p"
  "automatikEin (fst (rolladenAutomat_timer_handler e p z)) = automatikEin p"
  "brightness (fst (rolladenAutomat_timer_handler e p z)) = brightness p"
  by (simp_all add: rolladenAutomat_timer_handler_def Let_def)

lemma ra_callback_quiet [simp]: "snd (rolladenAutomat_can_callback e p f) = []"
  by (simp add: rolladenAutomat_can_callback_def Let_def)

lemma ra_timer_says: "says (\<lambda>ty. ty = HCAN_HES_ROLLADEN_POSITION_SET) (snd (rolladenAutomat_timer_handler e p z))"
  by (simp add: rolladenAutomat_timer_handler_def ra_in_zone_def ra_sendMessage_def Let_def)

interpretation rolladenAutomat_dev: echo_free_device "\<lambda>_. True" "\<lambda>_. True" rolladenAutomat_can_callback
  rolladenAutomat_timer_handler
proof (rule echo_free_deviceI)
  show "says (\<lambda>ty. ty = HCAN_HES_ROLLADEN_POSITION_SET) (snd (rolladenAutomat_timer_handler e p z))" for e p z
    by (rule ra_timer_says)
qed (simp_all add: rolladenAutomat_can_callback_def Let_def)

section \<open>One order per stay in a zone\<close>

abbreviation ra_run ::
  "device_data_rolladenAutomat \<Rightarrow> (board_env \<times> dev_event) list \<Rightarrow> device_data_rolladenAutomat \<times> out list" where
  "ra_run p evs \<equiv> dev_run rolladenAutomat_can_callback rolladenAutomat_timer_handler p evs"

lemma ra_callback_sel [simp]:
  "config (fst (rolladenAutomat_can_callback e p f)) = config p"
  "msgIstVersendet (fst (rolladenAutomat_can_callback e p f)) = msgIstVersendet p"
  "SchwellwertErkanntSecsCnt (fst (rolladenAutomat_can_callback e p f)) = SchwellwertErkanntSecsCnt p"
  by (simp_all add: rolladenAutomat_can_callback_def Let_def)

lemma ra_config_step [simp]:
  "config (fst (dev_step rolladenAutomat_can_callback rolladenAutomat_timer_handler e p ev)) = config p"
  by (cases ev) simp_all

text \<open>In a zone the order goes out only when it has not gone out yet.\<close>

lemma ra_zone_tick:
  assumes "ra_zone e p"
  shows "length (sent_frames (snd (rolladenAutomat_timer_handler e p z))) +
      (if msgIstVersendet p then 1 else 0) =
    (if msgIstVersendet (fst (rolladenAutomat_timer_handler e p z)) then 1 else 0)"
  using assms
  by (auto simp: rolladenAutomat_timer_handler_def ra_in_zone_def ra_sendMessage_def Let_def)

text \<open>
  While the clock stays within the zones a shutter control sends its order at most
  once, whatever frames (brightness, switches of the automatic mode) come in between, and not
  at all if it has sent it before.
\<close>

theorem one_order_per_zone:
  assumes "\<forall>ev \<in> set evs. list_ex (zeitzone_matches (fst ev)) (take 2 (c_zeitzonen (config p)))"
  shows "length (sent_frames (snd (ra_run p evs))) + (if msgIstVersendet p then 1 else 0) \<le> 1"
proof -
  have "length (sent_frames (snd (ra_run p evs))) + (if msgIstVersendet p then 1 else 0) =
      (if msgIstVersendet (fst (ra_run p evs)) then 1 else 0 :: nat)"
    using assms
  proof (induction evs arbitrary: p)
    case (Cons ev evs)
    obtain e x where ev: "ev = (e, x)" by fastforce
    let ?q = "fst (dev_step rolladenAutomat_can_callback rolladenAutomat_timer_handler e p x)"
    have "length (sent_frames (snd (dev_step rolladenAutomat_can_callback rolladenAutomat_timer_handler e p x))) +
        (if msgIstVersendet p then 1 else 0) = (if msgIstVersendet ?q then 1 else 0 :: nat)"
      using Cons.prems ra_zone_tick [of e p] ev by (cases x) (simp_all add: ra_zone_def)
    moreover have "length (sent_frames (snd (ra_run ?q evs))) + (if msgIstVersendet ?q then 1 else 0) =
        (if msgIstVersendet (fst (ra_run ?q evs)) then 1 else 0 :: nat)"
      using Cons.prems by (intro Cons.IH) simp
    ultimately show ?case by (simp add: ev)
  qed simp
  then show ?thesis by simp
qed

definition evening_shutter :: device_data_rolladenAutomat where
  "evening_shutter = rolladenAutomat_init
     \<lparr>config = \<lparr>c_rolladen_gruppe = 30, c_rolladen_soll_position = 0, c_automatikEin_schalter_gruppe = 12,
        c_zeitzonen = [1, 2], c_helligkeits_gruppe = 255, c_helligkeitsschwelle = 0,
        c_helligkeitswertueberschreitung = 0\<rparr>,
      brightness = 0, msgIstVersendet = False, automatikEin = False, SchwellwertErkanntSecsCnt = 0,
      SchwellwertErkannt = HELLIGKEIT_IM_TOLERANZBEREICH\<rparr>"

text \<open>A board whose zone 1 is the whole day.\<close>

definition always_zone :: board_env where
  "always_zone = \<lparr>self_addr = 5, board_clock = canix_rtc_init\<lparr>day_of_week := 1\<rparr>,
     zonen = [\<lparr>zz_config = \<lparr>zz_gruppe = 1, day_pattern = 255, from_hour = 0, from_minute = 0,
        to_hour = 23, to_minute = 59\<rparr>, zz_it = 0\<rparr>], eep = (\<lambda>_. 255)\<rparr>"

lemma always_zone_matches: "zeitzone_matches always_zone 1"
  by (simp add: zeitzone_matches_def always_zone_def time_matches_def canix_rtc_init_def Let_def)

theorem one_order_per_zone_witness:
  "length (sent_frames (snd (ra_run evening_shutter (replicate 3 (always_zone, Tick 1))))) \<le> 1"
proof -
  have "\<forall>ev \<in> set (replicate 3 (always_zone, Tick 1)).
      list_ex (zeitzone_matches (fst ev)) (take 2 (c_zeitzonen (config evening_shutter)))"
    by (simp add: evening_shutter_def rolladenAutomat_init_def always_zone_matches)
  from one_order_per_zone [OF this] show ?thesis
    by (simp add: evening_shutter_def rolladenAutomat_init_def)
qed

section \<open>The quarter of an hour\<close>

definition beyond :: "device_data_rolladenAutomat \<Rightarrow> bool" where
  "beyond p \<longleftrightarrow> c_helligkeits_gruppe (config p) \<noteq> 255 \<and> brightness p \<noteq> 65535 \<and> automatikEin p \<and>
     (if c_helligkeitswertueberschreitung (config p) \<noteq> 0
      then brightness p > c_helligkeitsschwelle (config p) else brightness p < c_helligkeitsschwelle (config p))"

definition ra_order :: "u16 \<Rightarrow> device_data_rolladenAutomat \<Rightarrow> canix_frame" where
  "ra_order self p = hes_message self HCAN_MULTICAST_CONTROL
     [HCAN_HES_ROLLADEN_POSITION_SET, c_rolladen_gruppe (config p), ra_position (c_rolladen_soll_position (config p))]"

lemma beyond_tick:
  assumes "beyond p" and "ra_zone e p" and "unat (SchwellwertErkanntSecsCnt p) = k" and "k < 900"
    and "\<not> msgIstVersendet p"
  shows "sent_frames (snd (rolladenAutomat_timer_handler e p 1)) =
      (if Suc k = 900 then [ra_order (self_addr e) p] else [])"
    "Suc k < 900 \<Longrightarrow> unat (SchwellwertErkanntSecsCnt (fst (rolladenAutomat_timer_handler e p 1))) = Suc k"
    "Suc k < 900 \<Longrightarrow> \<not> msgIstVersendet (fst (rolladenAutomat_timer_handler e p 1))"
proof -
  have u: "unat (SchwellwertErkanntSecsCnt p + 1) = Suc k"
    using assms(3,4) by (subst unat_inc_u16) simp_all
  have c: "SchwellwertErkanntSecsCnt p + 1 = 900 \<longleftrightarrow> Suc k = 900"
    unfolding word_unat_eq_iff u by simp
  have t: "ra_threshold p = p\<lparr>SchwellwertErkanntSecsCnt := SchwellwertErkanntSecsCnt p + 1,
      SchwellwertErkannt := SchwellwertErkannt (ra_threshold p)\<rparr>"
    using assms(1) by (simp add: ra_threshold_def beyond_def split: if_splits)
  have h: "rolladenAutomat_timer_handler e p 1 =
      (let q = p\<lparr>SchwellwertErkanntSecsCnt := SchwellwertErkanntSecsCnt p + 1,
                 SchwellwertErkannt := SchwellwertErkannt (ra_threshold p)\<rparr> in
       if Suc k = 900 then andthen (ra_sendMessage (self_addr e) q) (\<lambda>p. (p\<lparr>SchwellwertErkanntSecsCnt := 0\<rparr>, []))
       else (q, []))"
    using assms(1,2) c
    by (subst rolladenAutomat_timer_handler_def, subst ra_in_zone_def, subst t)
      (simp add: beyond_def Let_def)
  show "sent_frames (snd (rolladenAutomat_timer_handler e p 1)) =
      (if Suc k = 900 then [ra_order (self_addr e) p] else [])"
    "Suc k < 900 \<Longrightarrow> unat (SchwellwertErkanntSecsCnt (fst (rolladenAutomat_timer_handler e p 1))) = Suc k"
    "Suc k < 900 \<Longrightarrow> \<not> msgIstVersendet (fst (rolladenAutomat_timer_handler e p 1))"
    using assms(5) u by (simp_all add: h Let_def ra_sendMessage_def ra_order_def)
qed

lemma outside_tick:
  assumes "automatikEin p" and "\<not> ra_zone e p" and "unat (SchwellwertErkanntSecsCnt p) < 900"
  shows "rolladenAutomat_timer_handler e p 1 = (p\<lparr>msgIstVersendet := False\<rparr>, [])"
proof -
  have "SchwellwertErkanntSecsCnt p \<noteq> 900" using assms(3) by auto
  then show ?thesis using assms(1,2) by (simp add: rolladenAutomat_timer_handler_def Let_def)
qed

text \<open>Seconds, each with its environment.\<close>

fun ra_seconds :: "board_env list \<Rightarrow> device_data_rolladenAutomat \<Rightarrow> device_data_rolladenAutomat \<times> out list" where
  "ra_seconds [] p = (p, [])"
| "ra_seconds (e # es) p = andthen (rolladenAutomat_timer_handler e p 1) (ra_seconds es)"

definition ra_dark_seconds :: "board_env list \<Rightarrow> device_data_rolladenAutomat \<Rightarrow> nat" where
  "ra_dark_seconds es p = length (filter (\<lambda>e. ra_zone e p) es)"

lemma ra_zone_cong: "config q = config p \<Longrightarrow> ra_zone e q = ra_zone e p"
  by (simp add: ra_zone_def)

lemma ra_seconds_count:
  "beyond p \<Longrightarrow> \<not> msgIstVersendet p \<Longrightarrow> unat (SchwellwertErkanntSecsCnt p) + ra_dark_seconds es p < 900 \<Longrightarrow>
   beyond (fst (ra_seconds es p)) \<and> \<not> msgIstVersendet (fst (ra_seconds es p)) \<and>
   config (fst (ra_seconds es p)) = config p \<and>
   unat (SchwellwertErkanntSecsCnt (fst (ra_seconds es p))) = unat (SchwellwertErkanntSecsCnt p) + ra_dark_seconds es p \<and>
   sent_frames (snd (ra_seconds es p)) = []"
proof (induction es arbitrary: p)
  case Nil
  then show ?case by (simp add: ra_dark_seconds_def)
next
  case (Cons e es)
  let ?q = "fst (rolladenAutomat_timer_handler e p 1)"
  have b: "beyond ?q" using Cons.prems(1) by (simp add: beyond_def)
  have d: "ra_dark_seconds es ?q = ra_dark_seconds es p"
    by (simp add: ra_dark_seconds_def ra_zone_cong [of ?q p])
  show ?case
  proof (cases "ra_zone e p")
    case True
    then have k: "unat (SchwellwertErkanntSecsCnt p) < 900" "Suc (unat (SchwellwertErkanntSecsCnt p)) < 900"
      using Cons.prems(3) by (simp_all add: ra_dark_seconds_def)
    note t = beyond_tick [OF Cons.prems(1) True refl k(1) Cons.prems(2)]
    have "unat (SchwellwertErkanntSecsCnt ?q) + ra_dark_seconds es ?q < 900"
      using Cons.prems(3) True t(2) [OF k(2)] d by (simp add: ra_dark_seconds_def)
    from Cons.IH [OF b t(3) [OF k(2)] this] show ?thesis
      using True t(1) t(2) [OF k(2)] k(2) d by (simp add: ra_dark_seconds_def)
  next
    case False
    then have "?q = p\<lparr>msgIstVersendet := False\<rparr>" "snd (rolladenAutomat_timer_handler e p 1) = []"
      using outside_tick [of p e] Cons.prems(1,3) by (simp_all add: beyond_def)
    then show ?thesis using Cons.IH [OF b] Cons.prems(3) False d by (simp add: ra_dark_seconds_def)
  qed
qed

text \<open>
  With a light sensor the shutters are ordered by the 900th second in the zones in
  which the brightness is beyond the threshold, and not before. The seconds outside the zones do
  not end the count: the quarter of an hour may be put together from the ends and beginnings of
  several zones.
\<close>

theorem order_after_quarter_of_an_hour:
  assumes "beyond p" and "\<not> msgIstVersendet p" and "SchwellwertErkanntSecsCnt p = 0"
    and "length (filter (\<lambda>e. ra_zone e p) es) = 899" and "ra_zone e p"
  shows "sent_frames (snd (ra_seconds es p)) = [] \<and>
    sent_frames (snd (rolladenAutomat_timer_handler e (fst (ra_seconds es p)) 1)) = [ra_order (self_addr e) p]"
proof -
  let ?q = "fst (ra_seconds es p)"
  have d: "unat (SchwellwertErkanntSecsCnt p) + ra_dark_seconds es p = 899"
    unfolding ra_dark_seconds_def assms(3,4) by simp
  have "unat (SchwellwertErkanntSecsCnt p) + ra_dark_seconds es p < 900" unfolding d by simp
  note c = ra_seconds_count [OF assms(1,2) this, unfolded d]
  have q: "beyond ?q" "\<not> msgIstVersendet ?q" "config ?q = config p" "unat (SchwellwertErkanntSecsCnt ?q) = 899"
    "sent_frames (snd (ra_seconds es p)) = []"
    using c by blast+
  have "ra_zone e ?q" using assms(5) ra_zone_cong [OF q(3), of e] by blast
  from beyond_tick(1) [OF q(1) this q(4) _ q(2)]
  have "sent_frames (snd (rolladenAutomat_timer_handler e ?q 1)) = [ra_order (self_addr e) ?q]" by simp
  also have "ra_order (self_addr e) ?q = ra_order (self_addr e) p" by (simp only: ra_order_def q(3))
  finally show ?thesis using q(5) by (rule conjI [rotated])
qed

theorem order_after_quarter_of_an_hour_witness:
  "let p = evening_shutter\<lparr>config := (config evening_shutter)\<lparr>c_helligkeits_gruppe := 4, c_helligkeitsschwelle := 100\<rparr>,
        brightness := 50\<rparr>;
      q = fst (ra_seconds (replicate 899 always_zone) p)
   in sent_frames (snd (rolladenAutomat_timer_handler always_zone q 1)) =
     [hes_message 5 35 [HCAN_HES_ROLLADEN_POSITION_SET, 30, 200]]"
proof -
  let ?p = "evening_shutter\<lparr>config := (config evening_shutter)\<lparr>c_helligkeits_gruppe := 4, c_helligkeitsschwelle := 100\<rparr>,
        brightness := 50\<rparr>"
  have z: "ra_zone always_zone ?p"
    by (simp add: ra_zone_def evening_shutter_def rolladenAutomat_init_def always_zone_matches)
  have "beyond ?p" "\<not> msgIstVersendet ?p" "SchwellwertErkanntSecsCnt ?p = 0"
    by (simp_all add: beyond_def evening_shutter_def rolladenAutomat_init_def)
  note b = this
  have l: "length (filter (\<lambda>e. ra_zone e ?p) (replicate 899 always_zone)) = 899"
    by (simp only: filter_replicate z if_True length_replicate)
  have r: "ra_order (self_addr always_zone) ?p = hes_message 5 35 [HCAN_HES_ROLLADEN_POSITION_SET, 30, 200]"
    by (simp add: ra_order_def ra_position_def evening_shutter_def rolladenAutomat_init_def always_zone_def)
  show ?thesis
    unfolding Let_def r [symmetric]
    by (rule conjunct2 [OF order_after_quarter_of_an_hour [OF b l z]])
qed

end
