(* ===== verification/Rolladen_Schlitzpos.thy ===== *)
theory Rolladen_Schlitzpos
  imports Hes_Device
begin

text \<open>
  The ventilation position of a shutter,
  \<^verbatim>\<open>src/firmwares/controllerboard/devices/rolladenSchlitzpos.c\<close>: two seconds after
  the last change of one or two window contacts the device asks for the position of the shutter
  and the state of the contacts, and from the answers decides whether a closed shutter opens
  to the slit position or a shutter in that position closes.
\<close>

section \<open>State and operations\<close>

abbreviation (input) SCHLITZ_POS :: u8 where "SCHLITZ_POS \<equiv> 17"
abbreviation (input) SCHLITZ_JOB_ABGEMELDET :: u8 where "SCHLITZ_JOB_ABGEMELDET \<equiv> 255"
abbreviation (input) SCHLITZ_JOB_TIMER_LOAD :: u8 where "SCHLITZ_JOB_TIMER_LOAD \<equiv> 20"

record rolladenSchlitzpos_config =
  c_rolladen :: u8
  c_reed0 :: u8
  c_reed1 :: u8

record device_data_rolladenSchlitzpos =
  config :: rolladenSchlitzpos_config
  rolladenSchlitzJob :: u8
  rolladenIstposition :: u8
  state1stReedkontakt :: u8

definition rolladenSchlitzpos_init :: "device_data_rolladenSchlitzpos \<Rightarrow> device_data_rolladenSchlitzpos" where
  "rolladenSchlitzpos_init p = p\<lparr>rolladenSchlitzJob := SCHLITZ_JOB_ABGEMELDET, state1stReedkontakt := 255\<rparr>"

definition send_rolladen_position_set :: "u16 \<Rightarrow> device_data_rolladenSchlitzpos \<Rightarrow> u8 \<Rightarrow> out" where
  "send_rolladen_position_set self p soll =
     send_low (hes_message self HCAN_MULTICAST_CONTROL [HCAN_HES_ROLLADEN_POSITION_SET, c_rolladen (config p), soll])"

text \<open>The requests when the two seconds are over.\<close>

definition rs_queries :: "u16 \<Rightarrow> device_data_rolladenSchlitzpos \<Rightarrow> out list" where
  "rs_queries self p =
     (let msg = (\<lambda>bs. hes_message self HCAN_MULTICAST_CONTROL bs); c = config p in
      [send_hi (msg [HCAN_HES_ROLLADEN_POSITION_REQUEST, c_rolladen c]),
       send_low (msg [HCAN_HES_REEDKONTAKT_STATE_QUERY, c_reed0 c])] @
      (if c_reed1 c \<noteq> 255 then [send_low (msg [HCAN_HES_REEDKONTAKT_STATE_QUERY, c_reed1 c])] else []))"

definition rolladenSchlitzpos_timer_handler ::
  "u16 \<Rightarrow> device_data_rolladenSchlitzpos \<Rightarrow> u8 \<Rightarrow> device_data_rolladenSchlitzpos \<times> out list" where
  "rolladenSchlitzpos_timer_handler self p zyklus =
     (if zyklus \<noteq> 10 then (p, [])
      else if rolladenSchlitzJob p < SCHLITZ_JOB_ABGEMELDET then
        (let p = p\<lparr>rolladenSchlitzJob := rolladenSchlitzJob p - 1\<rparr> in
         if rolladenSchlitzJob p = 0
         then (p\<lparr>rolladenSchlitzJob := SCHLITZ_JOB_ABGEMELDET\<rparr>, rs_queries self p)
         else (p, []))
      else (p, []))"

text \<open>The decision, for windows of which at least one is open or all are closed.\<close>

definition rs_decide :: "u16 \<Rightarrow> device_data_rolladenSchlitzpos \<Rightarrow> bool \<Rightarrow> out list" where
  "rs_decide self p offen =
     (if offen
      then (if rolladenIstposition p < SCHLITZ_POS - 5 then [send_rolladen_position_set self p SCHLITZ_POS] else [])
      else (if rolladenIstposition p \<ge> SCHLITZ_POS - 2 \<and> rolladenIstposition p \<le> SCHLITZ_POS + 2
            then [send_rolladen_position_set self p 0] else []))"

definition rolladenSchlitzpos_can_callback ::
  "u16 \<Rightarrow> device_data_rolladenSchlitzpos \<Rightarrow> canix_frame \<Rightarrow> device_data_rolladenSchlitzpos \<times> out list" where
  "rolladenSchlitzpos_can_callback self p f =
     (let cmd = byte_at f 1; c = config p;
          mine = (c_reed0 c = byte_at f 2 \<or> c_reed1 c = byte_at f 2) in
      if cmd = HCAN_HES_REEDKONTAKT_STATE_CHANGE then
        (if mine then p\<lparr>rolladenSchlitzJob := SCHLITZ_JOB_TIMER_LOAD\<rparr> else p, [])
      else if cmd = HCAN_HES_ROLLADEN_POSITION_REPLAY then
        (if c_rolladen c = byte_at f 2 then p\<lparr>rolladenIstposition := byte_at f 3\<rparr> else p, [])
      else if cmd = HCAN_HES_REEDKONTAKT_STATE_REPLAY \<and> mine then
        (if c_reed1 c = 255 then (p, rs_decide self p (byte_at f 3 \<noteq> 0))
         else if state1stReedkontakt p = 255 then (p\<lparr>state1stReedkontakt := byte_at f 3\<rparr>, [])
         else (p\<lparr>state1stReedkontakt := 255\<rparr>,
               rs_decide self p (byte_at f 3 \<noteq> 0 \<or> state1stReedkontakt p \<noteq> 0)))
      else (p, []))"

section \<open>Invariant and messages\<close>

definition rs_inv :: "device_data_rolladenSchlitzpos \<Rightarrow> bool" where
  "rs_inv p \<longleftrightarrow> rolladenSchlitzJob p = SCHLITZ_JOB_ABGEMELDET \<or>
     0 < unat (rolladenSchlitzJob p) \<and> unat (rolladenSchlitzJob p) \<le> 20"

definition rs_says :: "u8 \<Rightarrow> bool" where
  "rs_says ty \<longleftrightarrow> ty \<in> {HCAN_HES_ROLLADEN_POSITION_SET, HCAN_HES_ROLLADEN_POSITION_REQUEST,
     HCAN_HES_REEDKONTAKT_STATE_QUERY}"

lemma rs_inv_timer: "rs_inv p \<Longrightarrow> rs_inv (fst (rolladenSchlitzpos_timer_handler self p z))"
  by (auto simp: rs_inv_def rolladenSchlitzpos_timer_handler_def Let_def unat_dec unat_gt_0)

lemma rs_inv_frame: "rs_inv p \<Longrightarrow> rs_inv (fst (rolladenSchlitzpos_can_callback self p f))"
  by (simp add: rs_inv_def rolladenSchlitzpos_can_callback_def Let_def)

lemma rs_timer_says: "says rs_says (snd (rolladenSchlitzpos_timer_handler self p z))"
  by (simp add: rolladenSchlitzpos_timer_handler_def rs_queries_def rs_says_def Let_def)

lemma rs_frame_says: "says rs_says (snd (rolladenSchlitzpos_can_callback self p f))"
  by (simp add: rolladenSchlitzpos_can_callback_def rs_decide_def send_rolladen_position_set_def rs_says_def Let_def)

lemma rs_ignores: "rs_says (byte_at fr 1) \<Longrightarrow> rolladenSchlitzpos_can_callback self p fr = (p, [])"
  by (auto simp: rolladenSchlitzpos_can_callback_def rs_says_def Let_def)

interpretation rolladenSchlitzpos_dev: echo_free_device "\<lambda>_. True" rs_inv rolladenSchlitzpos_can_callback
  rolladenSchlitzpos_timer_handler
  by (rule echo_free_deviceI) (blast intro: rs_inv_timer rs_inv_frame rs_timer_says rs_frame_says rs_ignores)+

section \<open>Two seconds after the last change\<close>

abbreviation rs_run :: "device_data_rolladenSchlitzpos \<Rightarrow> (u16 \<times> dev_event) list \<Rightarrow> device_data_rolladenSchlitzpos \<times> out list" where
  "rs_run p evs \<equiv> dev_run rolladenSchlitzpos_can_callback rolladenSchlitzpos_timer_handler p evs"

lemma rs_tick:
  assumes "unat (rolladenSchlitzJob p) = Suc n" and "n < 20"
  shows "rolladenSchlitzpos_timer_handler self p 10 =
    (if n = 0 then (p\<lparr>rolladenSchlitzJob := SCHLITZ_JOB_ABGEMELDET\<rparr>, rs_queries self p)
     else (p\<lparr>rolladenSchlitzJob := rolladenSchlitzJob p - 1\<rparr>, []))"
proof -
  have "rolladenSchlitzJob p < 255" using assms by (simp add: word_less_nat_alt)
  moreover have "unat (rolladenSchlitzJob p - 1) = n" using assms(1) by (subst unat_dec) auto
  then have "rolladenSchlitzJob p - 1 = 0 \<longleftrightarrow> n = 0" by (auto simp: word_unat_eq_iff)
  ultimately show ?thesis by (simp add: rolladenSchlitzpos_timer_handler_def rs_queries_def Let_def)
qed

lemma rs_countdown:
  assumes "unat (rolladenSchlitzJob p) = n" and "m < n" and "n \<le> 20"
  shows "rs_run p (replicate m (self, Tick 10)) = (p\<lparr>rolladenSchlitzJob := rolladenSchlitzJob p - of_nat m\<rparr>, [])"
  using assms
proof (induction m arbitrary: p n)
  case (Suc m)
  obtain k where k: "n = Suc k" "0 < k" using Suc.prems(2) by (cases n) auto
  have u: "unat (rolladenSchlitzJob p - 1) = k"
    using Suc.prems(1) k by (subst unat_dec) auto
  have t: "rolladenSchlitzpos_timer_handler self p 10 = (p\<lparr>rolladenSchlitzJob := rolladenSchlitzJob p - 1\<rparr>, [])"
    using rs_tick [of p k self] Suc.prems k by simp
  show ?case
    using Suc.IH [of "p\<lparr>rolladenSchlitzJob := rolladenSchlitzJob p - 1\<rparr>" k] Suc.prems k u
    by (simp add: t algebra_simps)
qed simp

text \<open>
  After a change of one of its contacts the device waits: for 19 of its ticks it
  says nothing, with the twentieth, two seconds after the last change, it asks for the position
  of the shutter and the state of every contact it has, and then it is at rest until the next
  change.
\<close>

theorem slit_queries_after_two_seconds:
  assumes "byte_at f 1 = HCAN_HES_REEDKONTAKT_STATE_CHANGE"
    and "byte_at f 2 \<in> {c_reed0 (config p), c_reed1 (config p)}"
  shows "snd (rs_run p ((self, Frame f) # replicate 19 (self, Tick 10))) = [] \<and>
    (let r = rs_run p ((self, Frame f) # replicate 20 (self, Tick 10) @ replicate m (self, Tick 10)) in
     snd r = rs_queries self p \<and> rolladenSchlitzJob (fst r) = SCHLITZ_JOB_ABGEMELDET)"
proof -
  have p: "rolladenSchlitzpos_can_callback self p f = (p\<lparr>rolladenSchlitzJob := 20\<rparr>, [])"
    using assms by (auto simp: rolladenSchlitzpos_can_callback_def Let_def)
  let ?q = "p\<lparr>rolladenSchlitzJob := 20\<rparr>"
  have w: "rs_run ?q (replicate 19 (self, Tick 10)) = (p\<lparr>rolladenSchlitzJob := 1\<rparr>, [])"
    using rs_countdown [of ?q 20 19 self] by simp
  have l: "rolladenSchlitzpos_timer_handler self (p\<lparr>rolladenSchlitzJob := 1\<rparr>) 10 =
      (p\<lparr>rolladenSchlitzJob := SCHLITZ_JOB_ABGEMELDET\<rparr>, rs_queries self p)"
    using rs_tick [of "p\<lparr>rolladenSchlitzJob := 1\<rparr>" 0 self] by (simp add: rs_queries_def)
  have idle: "rs_run q (replicate m (self, Tick 10)) = (q, [])" if "rolladenSchlitzJob q = SCHLITZ_JOB_ABGEMELDET" for q
    by (induction m) (simp_all add: rolladenSchlitzpos_timer_handler_def that)
  have r: "replicate 20 (self, Tick 10) = replicate 19 (self, Tick 10) @ [(self, Tick 10)]"
    using replicate_append_same [of 19 "(self, Tick 10)"] by (simp only: replicate_Suc [symmetric]) simp
  have s: "rs_run p ((self, Frame f) # xs) = rs_run ?q xs" for xs by (simp add: p andthen_def Let_def)
  show ?thesis
    unfolding s r append_assoc dev_run_append w andthen_pair
    by (simp add: l idle)
qed

definition bathroom_slit :: device_data_rolladenSchlitzpos where
  "bathroom_slit = \<lparr>config = \<lparr>c_rolladen = 30, c_reed0 = 5, c_reed1 = 255\<rparr>, rolladenSchlitzJob = 255,
     rolladenIstposition = 0, state1stReedkontakt = 255\<rparr>"

theorem slit_queries_after_two_seconds_witness:
  "snd (rs_run bathroom_slit ((7, Frame (hes_message 9 36 [HCAN_HES_REEDKONTAKT_STATE_CHANGE, 5, 1])) #
      replicate 20 (7, Tick 10) @ replicate 0 (7, Tick 10))) =
    [send_hi (hes_message 7 35 [HCAN_HES_ROLLADEN_POSITION_REQUEST, 30]),
     send_low (hes_message 7 35 [HCAN_HES_REEDKONTAKT_STATE_QUERY, 5])]"
proof -
  have f: "byte_at (hes_message 9 36 [HCAN_HES_REEDKONTAKT_STATE_CHANGE, 5, 1]) 1 = HCAN_HES_REEDKONTAKT_STATE_CHANGE"
    "byte_at (hes_message 9 36 [HCAN_HES_REEDKONTAKT_STATE_CHANGE, 5, 1]) 2 \<in>
       {c_reed0 (config bathroom_slit), c_reed1 (config bathroom_slit)}"
    by (simp_all add: bathroom_slit_def)
  have q: "rs_queries 7 bathroom_slit =
    [send_hi (hes_message 7 35 [HCAN_HES_ROLLADEN_POSITION_REQUEST, 30]),
     send_low (hes_message 7 35 [HCAN_HES_REEDKONTAKT_STATE_QUERY, 5])]"
    by (simp add: rs_queries_def bathroom_slit_def Let_def)
  show ?thesis
    using slit_queries_after_two_seconds [OF f, of 7 0] unfolding q Let_def by (elim conjE)
qed

end
