(* ===== verification/Timeservice.thy ===== *)
theory Timeservice
  imports Dcf77
begin

text \<open>
  The time service, \<^verbatim>\<open>src/firmwares/controllerboard/timeservice.c\<close>: the boards
  elect the one that sends the time. Every board has a level; it sends time and date when it has
  not heard a frame of a lower level for its takeover time. The radio clock receiver of the board
  takes part with its own level.
\<close>

section \<open>State and operations\<close>

record timeservice_config =
  c_ts_level :: u8
  c_ts_takeover :: u8
  c_ts_interval :: u8

record device_data_timeservice =
  ts_config :: timeservice_config
  ts_received :: u8
  ts_sent :: u8

definition timeservice_timer_handler ::
  "u16 \<Rightarrow> canix_rtc_clock \<Rightarrow> device_data_timeservice \<Rightarrow> u8 \<Rightarrow> device_data_timeservice \<times> out list" where
  "timeservice_timer_handler self clk p zyklus =
     (if zyklus \<noteq> 1 then (p, [])
      else
        (let p = (if ts_received p < 255 then p\<lparr>ts_received := ts_received p + 1\<rparr> else p) in
         if ts_received p \<ge> c_ts_takeover (ts_config p) then
           (let old = ts_sent p; p = p\<lparr>ts_sent := ts_sent p + 1\<rparr> in
            if old = c_ts_interval (ts_config p)
            then (p\<lparr>ts_sent := 0\<rparr>,
                  [send_info self [HCAN_SRV_RTS, HCAN_RTS_TIME_INFO, c_ts_level (ts_config p), day_of_week clk,
                     hour clk, minute clk, second clk],
                   send_info self [HCAN_SRV_RTS, HCAN_RTS_DATE_INFO, c_ts_level (ts_config p), day_of_month clk,
                     month_of_year clk, year clk]])
            else (p, []))
         else (p, [])))"

text \<open>The devices the callback looks for among those of the board.\<close>

datatype rts_device = Zeitdienst device_data_timeservice | Funkuhr device_data_dcf77_receiver | Anderes

definition ts_receive :: "canix_frame \<Rightarrow> device_data_timeservice \<Rightarrow> device_data_timeservice" where
  "ts_receive f p =
     (if byte_at f 1 = HCAN_RTS_TIME_INFO \<and> byte_at f 2 < c_ts_level (ts_config p) then p\<lparr>ts_received := 0\<rparr> else p)"

definition dcf_receive :: "canix_frame \<Rightarrow> device_data_dcf77_receiver \<Rightarrow> device_data_dcf77_receiver" where
  "dcf_receive f p =
     (if byte_at f 1 = HCAN_RTS_TIME_INFO \<and> byte_at f 2 < c_level (config p)
      then p\<lparr>last_time_frame_received := 0\<rparr> else p)"

fun rts_receive :: "canix_frame \<Rightarrow> rts_device \<Rightarrow> rts_device" where
  "rts_receive f (Zeitdienst p) = Zeitdienst (ts_receive f p)"
| "rts_receive f (Funkuhr p) = Funkuhr (dcf_receive f p)"
| "rts_receive f Anderes = Anderes"

definition timeservice_can_callback :: "canix_frame \<Rightarrow> rts_device list \<Rightarrow> rts_device list" where
  "timeservice_can_callback f ds =
     (if byte_at f 1 = HCAN_RTS_TIME_INFO then map (rts_receive f) ds else ds)"

section \<open>One board\<close>

text \<open>
  The seconds until the next frames: those missing to the takeover time, and those of the
  interval, whose counter wraps.
\<close>

definition due :: "device_data_timeservice \<Rightarrow> nat" where
  "due p = (unat (c_ts_takeover (ts_config p)) - 1 - unat (ts_received p)) +
     unat (c_ts_interval (ts_config p) - ts_sent p)"

abbreviation ts_tick :: "u16 \<Rightarrow> canix_rtc_clock \<Rightarrow> device_data_timeservice \<Rightarrow> device_data_timeservice" where
  "ts_tick self clk p \<equiv> fst (timeservice_timer_handler self clk p 1)"

lemma ts_tick_sel:
  "ts_config (ts_tick self clk p) = ts_config p"
  "unat (ts_received (ts_tick self clk p)) = min 255 (Suc (unat (ts_received p)))"
proof -
  show "ts_config (ts_tick self clk p) = ts_config p" by (simp add: timeservice_timer_handler_def Let_def)
  have "unat (ts_received p) = 255" if "\<not> ts_received p < 255"
    using that unat_u8_max [of "ts_received p"] by (simp add: word_less_nat_alt)
  then show "unat (ts_received (ts_tick self clk p)) = min 255 (Suc (unat (ts_received p)))"
    by (auto simp: timeservice_timer_handler_def Let_def unat_inc_u8 word_less_nat_alt)
qed

definition time_frames :: "canix_frame list \<Rightarrow> canix_frame list" where
  "time_frames fs = filter (\<lambda>f. byte_at f 1 = HCAN_RTS_TIME_INFO) fs"

lemma time_frames_simps [simp]:
  "time_frames [] = []" "time_frames (xs @ ys) = time_frames xs @ time_frames ys"
  by (simp_all add: time_frames_def)

definition levels_of :: "canix_frame list \<Rightarrow> u8 set" where
  "levels_of fs = (\<lambda>f. byte_at f 2) ` set fs"

lemma levels_of_simps [simp]:
  "levels_of [] = {}" "levels_of (xs @ ys) = levels_of xs \<union> levels_of ys"
  by (simp_all add: levels_of_def image_Un)

text \<open>A board is silent while it has not reached its takeover time.\<close>

lemma ts_quiet:
  assumes "unat (ts_received p) + 1 < unat (c_ts_takeover (ts_config p))"
  shows "sent_frames (snd (timeservice_timer_handler self clk p 1)) = []"
proof -
  have "unat (ts_received p) < 255"
    using assms unat_u8_le [of "c_ts_takeover (ts_config p)"] by linarith
  then have "unat (ts_received p + 1) = Suc (unat (ts_received p))" "ts_received p < 255"
    by (simp_all add: unat_inc_u8 word_less_nat_alt)
  then have "\<not> c_ts_takeover (ts_config p) \<le> ts_received p + 1" "ts_received p < 255"
    using assms by (simp_all add: word_le_nat_alt)
  then show ?thesis by (simp add: timeservice_timer_handler_def Let_def)
qed

text \<open>A board that hears nothing of a lower level counts down to its next frames.\<close>

lemma ts_due:
  "due p > 0 \<Longrightarrow> due (ts_tick self clk p) = due p - 1 \<and>
     sent_frames (snd (timeservice_timer_handler self clk p 1)) = []"
  "due p = 0 \<Longrightarrow> due (ts_tick self clk p) = unat (c_ts_interval (ts_config p)) \<and>
     length (time_frames (sent_frames (snd (timeservice_timer_handler self clk p 1)))) = 1 \<and>
     levels_of (sent_frames (snd (timeservice_timer_handler self clk p 1))) = {c_ts_level (ts_config p)}"
proof -
  let ?c = "ts_config p"
  let ?r = "if ts_received p < 255 then ts_received p + 1 else ts_received p"
  have r: "unat ?r = min 255 (Suc (unat (ts_received p)))"
    using unat_u8_max [of "ts_received p"] by (auto simp: unat_inc_u8 word_less_nat_alt)
  have act: "c_ts_takeover ?c \<le> ?r \<longleftrightarrow> unat (c_ts_takeover ?c) \<le> Suc (unat (ts_received p))"
    unfolding word_le_nat_alt r min.bounded_iff using unat_u8_le [of "c_ts_takeover ?c"] by linarith
  have t: "timeservice_timer_handler self clk p 1 =
      (let q = p\<lparr>ts_received := ?r\<rparr> in
       if unat (c_ts_takeover ?c) \<le> Suc (unat (ts_received p)) then
         (if ts_sent p = c_ts_interval ?c
          then (q\<lparr>ts_sent := 0\<rparr>,
                [send_info self [HCAN_SRV_RTS, HCAN_RTS_TIME_INFO, c_ts_level ?c, day_of_week clk,
                   hour clk, minute clk, second clk],
                 send_info self [HCAN_SRV_RTS, HCAN_RTS_DATE_INFO, c_ts_level ?c, day_of_month clk,
                   month_of_year clk, year clk]])
          else (q\<lparr>ts_sent := ts_sent p + 1\<rparr>, []))
       else (q, []))"
    unfolding act [symmetric] by (simp add: timeservice_timer_handler_def Let_def)
  have w: "c_ts_interval ?c - ts_sent p = 0 \<longleftrightarrow> ts_sent p = c_ts_interval ?c" by auto
  have d: "unat (c_ts_interval ?c - (ts_sent p + 1)) = unat (c_ts_interval ?c - ts_sent p) - 1"
    if "ts_sent p \<noteq> c_ts_interval ?c"
    using unat_dec [of "c_ts_interval ?c - ts_sent p"] that by (simp add: algebra_simps)
  have z: "unat (c_ts_interval ?c - ts_sent p) = 0 \<longleftrightarrow> ts_sent p = c_ts_interval ?c"
    unfolding unat_eq_zero w ..
  have m: "unat (c_ts_takeover ?c) - 1 - unat ?r = unat (c_ts_takeover ?c) - 1 - Suc (unat (ts_received p))"
    unfolding r using unat_u8_le [of "c_ts_takeover ?c"] by linarith
  show "due (ts_tick self clk p) = due p - 1 \<and>
     sent_frames (snd (timeservice_timer_handler self clk p 1)) = []" if "due p > 0"
  proof (cases "unat (c_ts_takeover ?c) \<le> Suc (unat (ts_received p))")
    case True
    then have "due p = unat (c_ts_interval ?c - ts_sent p)" by (simp add: due_def)
    then have "ts_sent p \<noteq> c_ts_interval ?c" using that z by simp
    then show ?thesis using True d m by (simp add: t Let_def due_def)
  next
    case False
    then show ?thesis using m by (simp add: t Let_def due_def)
  qed
  show "due (ts_tick self clk p) = unat (c_ts_interval ?c) \<and>
     length (time_frames (sent_frames (snd (timeservice_timer_handler self clk p 1)))) = 1 \<and>
     levels_of (sent_frames (snd (timeservice_timer_handler self clk p 1))) = {c_ts_level ?c}" if "due p = 0"
  proof -
    have "unat (c_ts_takeover ?c) \<le> Suc (unat (ts_received p))" "ts_sent p = c_ts_interval ?c"
      using that z by (auto simp: due_def)
    then show ?thesis
      using m by (simp add: t Let_def due_def time_frames_def levels_of_def send_info_def)
  qed
qed

section \<open>The boards on the bus\<close>

text \<open>A board whose only device of this kind is the time service hears a frame.\<close>

definition board_hears :: "canix_frame \<Rightarrow> device_data_timeservice \<Rightarrow> device_data_timeservice" where
  "board_hears f p = (case timeservice_can_callback f [Zeitdienst p] of [Zeitdienst q] \<Rightarrow> q | _ \<Rightarrow> p)"

lemma board_hears: "board_hears = ts_receive"
  by (auto simp: fun_eq_iff board_hears_def timeservice_can_callback_def ts_receive_def)

text \<open>
  A tick of board \<open>i\<close>: its handler runs with the board's clock, and its frames reach all
  boards, itself included, before another board's tick. A board's address is its index.
\<close>

definition net_tick ::
  "nat \<times> canix_rtc_clock \<Rightarrow> device_data_timeservice list \<Rightarrow> device_data_timeservice list \<times> canix_frame list" where
  "net_tick x ps =
     (let r = timeservice_timer_handler (of_nat (fst x)) (snd x) (ps ! fst x) 1; fs = sent_frames (snd r)
      in (map (fold board_hears fs) (ps[fst x := fst r]), fs))"

fun net_run ::
  "(nat \<times> canix_rtc_clock) list \<Rightarrow> device_data_timeservice list \<Rightarrow> device_data_timeservice list \<times> canix_frame list" where
  "net_run [] ps = (ps, [])"
| "net_run (x # xs) ps =
     (let r = net_tick x ps; r' = net_run xs (fst r) in (fst r', snd r @ snd r'))"

lemma net_run_append:
  "net_run (xs @ ys) ps = (fst (net_run ys (fst (net_run xs ps))), snd (net_run xs ps) @ snd (net_run ys (fst (net_run xs ps))))"
  by (induction xs arbitrary: ps) (simp_all add: Let_def)

text \<open>A second: every board ticks once, in any order.\<close>

definition a_second :: "nat \<Rightarrow> (nat \<times> canix_rtc_clock) list \<Rightarrow> bool" where
  "a_second n xs \<longleftrightarrow> distinct (map fst xs) \<and> set (map fst xs) = {..<n}"

text \<open>
  The board \<open>m\<close> has the lowest level, and every other board waits longer than the pause of
  \<open>m\<close>.
\<close>

definition time_master :: "nat \<Rightarrow> device_data_timeservice list \<Rightarrow> bool" where
  "time_master m ps \<longleftrightarrow> m < length ps \<and>
     (\<forall>j < length ps. j \<noteq> m \<longrightarrow> c_ts_level (ts_config (ps ! m)) < c_ts_level (ts_config (ps ! j)) \<and>
        unat (c_ts_interval (ts_config (ps ! m))) + 2 < unat (c_ts_takeover (ts_config (ps ! j))))"

lemma ts_receive_sel [simp]: "ts_config (fold ts_receive fs p) = ts_config p" "ts_sent (fold ts_receive fs p) = ts_sent p"
  by (induction fs arbitrary: p) (simp_all add: ts_receive_def)

lemma ts_receive_keep:
  "\<forall>l \<in> levels_of fs. \<not> l < c_ts_level (ts_config p) \<Longrightarrow> fold ts_receive fs p = p"
  by (induction fs arbitrary: p) (simp_all add: ts_receive_def levels_of_def)

lemma ts_receive_reset:
  "\<exists>f \<in> set fs. byte_at f 1 = HCAN_RTS_TIME_INFO \<and> byte_at f 2 < c_ts_level (ts_config p) \<Longrightarrow>
   ts_received (fold ts_receive fs p) = 0"
proof (induction fs arbitrary: p)
  case (Cons f fs)
  have z: "ts_received p = 0 \<Longrightarrow> ts_received (fold ts_receive fs p) = 0" for p
    by (induction fs arbitrary: p) (simp_all add: ts_receive_def)
  show ?case
  proof (cases "byte_at f 1 = HCAN_RTS_TIME_INFO \<and> byte_at f 2 < c_ts_level (ts_config p)")
    case True
    then have "ts_receive f p = p\<lparr>ts_received := 0\<rparr>" by (simp add: ts_receive_def)
    then show ?thesis by (simp add: z)
  next
    case False
    then have "ts_receive f p = p" by (auto simp: ts_receive_def)
    then show ?thesis using Cons False by auto
  qed
qed simp

lemma net_tick_sel:
  assumes "fst x < length ps"
  shows "length (fst (net_tick x ps)) = length ps"
    "j < length ps \<Longrightarrow> ts_config (fst (net_tick x ps) ! j) = ts_config (ps ! j)"
  using assms by (cases "j = fst x"; simp add: net_tick_def board_hears Let_def ts_tick_sel)+

lemma time_master_tick:
  "time_master m ps \<Longrightarrow> fst x < length ps \<Longrightarrow> time_master m (fst (net_tick x ps))"
  using net_tick_sel [of x ps] by (simp add: time_master_def)

lemma sent_levels: "levels_of (sent_frames (snd (timeservice_timer_handler self clk p 1))) \<subseteq> {c_ts_level (ts_config p)}"
  using ts_due [of p self clk] by (cases "due p = 0") auto

text \<open>What a tick of another board, and one of its own, does to the countdown of the master.\<close>

lemma master_countdown:
  assumes "time_master m ps" and "fst x < length ps"
  shows "due (fst (net_tick x ps) ! m) =
    (if fst x = m then (if due (ps ! m) = 0 then unat (c_ts_interval (ts_config (ps ! m))) else due (ps ! m) - 1)
     else due (ps ! m))"
proof -
  let ?r = "timeservice_timer_handler (of_nat (fst x)) (snd x) (ps ! fst x) 1"
  have m: "m < length ps" using assms(1) by (simp add: time_master_def)
  have keep: "fold ts_receive (sent_frames (snd ?r)) q = q" if "ts_config q = ts_config (ps ! m)" for q
  proof (rule ts_receive_keep, rule ballI)
    fix l assume "l \<in> levels_of (sent_frames (snd ?r))"
    then have "l = c_ts_level (ts_config (ps ! fst x))" using sent_levels by blast
    then show "\<not> l < c_ts_level (ts_config q)"
      using assms that by (cases "fst x = m") (auto simp: time_master_def)
  qed
  show ?thesis
  proof (cases "fst x = m")
    case True
    then show ?thesis
      using m ts_due [of "ps ! m"] by (simp add: net_tick_def board_hears Let_def keep [unfolded True] ts_tick_sel)
  next
    case False
    then show ?thesis using m by (simp add: net_tick_def board_hears Let_def keep)
  qed
qed

text \<open>
  The others are kept from sending: the time since a board has heard the master, and the
  seconds until the master's next frame, together stay within the interval; \<open>D\<close> are the
  boards that have had their tick in the present second.
\<close>

definition held_back :: "nat \<Rightarrow> nat set \<Rightarrow> device_data_timeservice list \<Rightarrow> bool" where
  "held_back m D ps \<longleftrightarrow> (\<forall>j < length ps. j \<noteq> m \<longrightarrow>
     unat (ts_received (ps ! j)) + due (ps ! m) + (if j \<in> D then 0 else 1) \<le>
       unat (c_ts_interval (ts_config (ps ! m))) + 1 + (if m \<in> D then 0 else 1))"

lemma held_back_other:
  assumes "time_master m ps" and "held_back m D ps" and "fst x < length ps" and "fst x \<notin> D" and "fst x \<noteq> m"
  shows "snd (net_tick x ps) = []" "held_back m (insert (fst x) D) (fst (net_tick x ps))"
proof -
  let ?i = "fst x"
  have b: "unat (ts_received (ps ! ?i)) + due (ps ! m) + 1 \<le>
      unat (c_ts_interval (ts_config (ps ! m))) + 1 + (if m \<in> D then 0 else 1)"
    using assms(2-5) by (auto simp: held_back_def)
  have "unat (c_ts_interval (ts_config (ps ! m))) + 2 < unat (c_ts_takeover (ts_config (ps ! ?i)))"
    using assms(1,3,5) by (simp add: time_master_def)
  with b have "unat (ts_received (ps ! ?i)) + 1 < unat (c_ts_takeover (ts_config (ps ! ?i)))"
    by (simp split: if_splits)
  note q = ts_quiet [OF this, of "of_nat ?i" "snd x"]
  show "snd (net_tick x ps) = []" using q by (simp add: net_tick_def board_hears Let_def)
  have d: "due (fst (net_tick x ps) ! m) = due (ps ! m)" using master_countdown [OF assms(1,3)] assms(5) by simp
  have t: "fst (net_tick x ps) = ps[?i := ts_tick (of_nat ?i) (snd x) (ps ! ?i)]"
    using q by (simp add: net_tick_def board_hears Let_def)
  have m: "m < length ps" using assms(1) by (simp add: time_master_def)
  have r: "unat (ts_received (ts_tick (of_nat ?i) (snd x) (ps ! ?i))) \<le> Suc (unat (ts_received (ps ! ?i)))"
    by (simp add: ts_tick_sel)
  show "held_back m (insert ?i D) (fst (net_tick x ps))"
    unfolding held_back_def
  proof (intro allI impI)
    fix j assume j: "j < length (fst (net_tick x ps))" "j \<noteq> m"
    have c: "ts_config (fst (net_tick x ps) ! m) = ts_config (ps ! m)" using t m assms(5) by simp
    show "unat (ts_received (fst (net_tick x ps) ! j)) + due (fst (net_tick x ps) ! m) +
        (if j \<in> insert ?i D then 0 else 1)
      \<le> unat (c_ts_interval (ts_config (fst (net_tick x ps) ! m))) + 1 + (if m \<in> insert ?i D then 0 else 1)"
    proof (cases "j = ?i")
      case True
      have "fst (net_tick x ps) ! j = ts_tick (of_nat ?i) (snd x) (ps ! ?i)" using t True assms(3) by simp
      then show ?thesis using True r b assms(5) unfolding c d by (auto split: if_splits)
    next
      case False
      have "fst (net_tick x ps) ! j = ps ! j" using t False by simp
      then show ?thesis using assms(2,5) j False t unfolding c d by (auto simp: held_back_def)
    qed
  qed
qed

text \<open>The master's own tick.\<close>

lemma net_tick_frames:
  "snd (net_tick x ps) = sent_frames (snd (timeservice_timer_handler (of_nat (fst x)) (snd x) (ps ! fst x) 1))"
  by (simp add: net_tick_def board_hears Let_def)

lemma master_quiet:
  assumes "fst x = m" and "due (ps ! m) > 0"
  shows "snd (net_tick x ps) = []"
    "j < length ps \<Longrightarrow> j \<noteq> m \<Longrightarrow> fst (net_tick x ps) ! j = ps ! j"
  using ts_due(1) [of "ps ! m" "of_nat m" "snd x"] assms by (simp_all add: net_tick_def board_hears Let_def)

lemma master_sends:
  assumes "time_master m ps" and "fst x = m" and "due (ps ! m) = 0"
  shows "length (time_frames (snd (net_tick x ps))) = 1" "levels_of (snd (net_tick x ps)) = {c_ts_level (ts_config (ps ! m))}"
    "j < length ps \<Longrightarrow> j \<noteq> m \<Longrightarrow> ts_received (fst (net_tick x ps) ! j) = 0"
proof -
  let ?fs = "sent_frames (snd (timeservice_timer_handler (of_nat m) (snd x) (ps ! m) 1))"
  note d = ts_due(2) [OF assms(3), of "of_nat m" "snd x"]
  show "length (time_frames (snd (net_tick x ps))) = 1" "levels_of (snd (net_tick x ps)) = {c_ts_level (ts_config (ps ! m))}"
    using d assms(2) by (simp_all add: net_tick_frames)
  show "ts_received (fst (net_tick x ps) ! j) = 0" if j: "j < length ps" "j \<noteq> m"
  proof -
    have "time_frames ?fs \<noteq> []" using d by auto
    then obtain f where f: "f \<in> set ?fs" "byte_at f 1 = HCAN_RTS_TIME_INFO"
      unfolding time_frames_def filter_empty_conv by blast
    then have "byte_at f 2 = c_ts_level (ts_config (ps ! m))" using d by (auto simp: levels_of_def)
    then have "byte_at f 2 < c_ts_level (ts_config (ps ! j))" using assms(1) j by (simp add: time_master_def)
    then have "ts_received (fold ts_receive ?fs (ps ! j)) = 0" using f by (intro ts_receive_reset) blast
    then show ?thesis using j assms(2) by (simp add: net_tick_def board_hears Let_def)
  qed
qed

lemma held_back_master:
  assumes "time_master m ps" and "fst x = m" and "m \<notin> D" and "due (ps ! m) = 0 \<or> held_back m D ps"
  shows "held_back m (insert m D) (fst (net_tick x ps))"
proof -
  have m: "m < length ps" "fst x < length ps" using assms(1,2) by (simp_all add: time_master_def)
  have c: "ts_config (fst (net_tick x ps) ! m) = ts_config (ps ! m)" using net_tick_sel(2) [OF m(2) m(1)] .
  show ?thesis
  proof (cases "due (ps ! m) = 0")
    case True
    then have "due (fst (net_tick x ps) ! m) = unat (c_ts_interval (ts_config (ps ! m)))"
      using master_countdown [OF assms(1) m(2)] assms(2) by simp
    then show ?thesis
      using master_sends(3) [OF assms(1,2) True] net_tick_sel(1) [OF m(2)] by (simp add: held_back_def c)
  next
    case False
    then have p: "due (ps ! m) > 0" by simp
    have d: "due (fst (net_tick x ps) ! m) = due (ps ! m) - 1"
      using master_countdown [OF assms(1) m(2)] assms(2) False by simp
    show ?thesis
      unfolding held_back_def c d
    proof (intro allI impI)
      fix j assume j: "j < length (fst (net_tick x ps))" "j \<noteq> m"
      then have "j < length ps" using net_tick_sel(1) [OF m(2)] by simp
      note e = master_quiet(2) [OF assms(2) p this j(2)]
      have "unat (ts_received (ps ! j)) + due (ps ! m) + (if j \<in> D then 0 else 1) \<le>
          unat (c_ts_interval (ts_config (ps ! m))) + 1 + 1"
        using assms(3,4) False \<open>j < length ps\<close> j(2) by (auto simp: held_back_def split: if_splits)
      then show "unat (ts_received (fst (net_tick x ps) ! j)) + (due (ps ! m) - 1) + (if j \<in> insert m D then 0 else 1)
          \<le> unat (c_ts_interval (ts_config (ps ! m))) + 1 + (if m \<in> insert m D then 0 else 1)"
        using p j(2) by (simp add: e split: if_splits)
    qed
  qed
qed

section \<open>Seconds of the bus\<close>

text \<open>The ticks of a part of a second.\<close>

lemma part_of_second:
  assumes "time_master m ps" and "distinct (map fst xs)" and "set (map fst xs) \<subseteq> {..<length ps}"
    and "set (map fst xs) \<inter> D = {}" and "held_back m D ps"
  shows "held_back m (D \<union> set (map fst xs)) (fst (net_run xs ps)) \<and> time_master m (fst (net_run xs ps)) \<and>
    length (fst (net_run xs ps)) = length ps \<and> ts_config (fst (net_run xs ps) ! m) = ts_config (ps ! m) \<and>
    levels_of (snd (net_run xs ps)) \<subseteq> {c_ts_level (ts_config (ps ! m))} \<and>
    length (time_frames (snd (net_run xs ps))) = (if m \<in> set (map fst xs) \<and> due (ps ! m) = 0 then 1 else 0) \<and>
    due (fst (net_run xs ps) ! m) =
      (if m \<in> set (map fst xs)
       then (if due (ps ! m) = 0 then unat (c_ts_interval (ts_config (ps ! m))) else due (ps ! m) - 1)
       else due (ps ! m))"
  using assms
proof (induction xs arbitrary: ps D)
  case (Cons x xs)
  let ?q = "fst (net_tick x ps)"
  have i: "fst x < length ps" "fst x \<notin> D" and m: "m < length ps"
    using Cons.prems(1,3,4) by (auto simp: time_master_def)
  have q: "time_master m ?q" "length ?q = length ps" "ts_config (?q ! m) = ts_config (ps ! m)"
    using time_master_tick [OF Cons.prems(1) i(1)] net_tick_sel [OF i(1)] m by simp_all
  have h: "held_back m (insert (fst x) D) ?q"
    using held_back_other(2) [OF Cons.prems(1,5) i] held_back_master [OF Cons.prems(1)] Cons.prems(5) i(2) by blast
  have f: "levels_of (snd (net_tick x ps)) \<subseteq> {c_ts_level (ts_config (ps ! m))}"
    "length (time_frames (snd (net_tick x ps))) = (if fst x = m \<and> due (ps ! m) = 0 then 1 else 0)"
    using held_back_other(1) [OF Cons.prems(1,5) i] master_quiet(1) [of x m ps] master_sends(1,2) [OF Cons.prems(1), of x]
    by (cases "fst x = m"; cases "due (ps ! m) = 0"; simp)+
  note d = master_countdown [OF Cons.prems(1) i(1)]
  have "distinct (map fst xs)" "set (map fst xs) \<subseteq> {..<length ?q}" "set (map fst xs) \<inter> insert (fst x) D = {}"
    using Cons.prems(2-4) q(2) by auto
  from Cons.IH [OF q(1) this h] have IH: "held_back m (insert (fst x) D \<union> set (map fst xs)) (fst (net_run xs ?q))"
    "time_master m (fst (net_run xs ?q))" "length (fst (net_run xs ?q)) = length ps"
    "ts_config (fst (net_run xs ?q) ! m) = ts_config (ps ! m)"
    "levels_of (snd (net_run xs ?q)) \<subseteq> {c_ts_level (ts_config (ps ! m))}"
    "length (time_frames (snd (net_run xs ?q))) = (if m \<in> set (map fst xs) \<and> due (?q ! m) = 0 then 1 else 0)"
    "due (fst (net_run xs ?q) ! m) =
      (if m \<in> set (map fst xs)
       then (if due (?q ! m) = 0 then unat (c_ts_interval (ts_config (ps ! m))) else due (?q ! m) - 1)
       else due (?q ! m))"
    using q(2,3) by simp_all
  have u: "insert (fst x) D \<union> set (map fst xs) = D \<union> set (map fst (x # xs))" by auto
  have n: "fst x = m \<Longrightarrow> m \<notin> set (map fst xs)" using Cons.prems(2) by auto
  have r: "net_run (x # xs) ps = (fst (net_run xs ?q), snd (net_tick x ps) @ snd (net_run xs ?q))"
    by (simp add: Let_def)
  show ?case
    unfolding r fst_conv snd_conv u [symmetric]
    using IH f d n by (cases "fst x = m"; cases "m \<in> set (map fst xs)") auto
qed (simp add: time_master_def)

text \<open>Whole seconds. At the end of one the bound is that of the beginning of the next.\<close>

lemma held_back_all: "time_master m ps \<Longrightarrow> held_back m {..<length ps} ps = held_back m {} ps"
  by (auto simp: held_back_def time_master_def)

fun net_seconds ::
  "(nat \<times> canix_rtc_clock) list list \<Rightarrow> device_data_timeservice list \<Rightarrow> device_data_timeservice list \<times> canix_frame list" where
  "net_seconds [] ps = (ps, [])"
| "net_seconds (s # ss) ps =
     (let r = net_run s ps; r' = net_seconds ss (fst r) in (fst r', snd r @ snd r'))"

lemma settled_second:
  assumes "time_master m ps" and "a_second (length ps) s" and "held_back m {} ps"
  shows "held_back m {} (fst (net_run s ps))" "time_master m (fst (net_run s ps))"
    "length (fst (net_run s ps)) = length ps" "ts_config (fst (net_run s ps) ! m) = ts_config (ps ! m)"
    "levels_of (snd (net_run s ps)) \<subseteq> {c_ts_level (ts_config (ps ! m))}"
    "length (time_frames (snd (net_run s ps))) = (if due (ps ! m) = 0 then 1 else 0)"
    "due (fst (net_run s ps) ! m) =
       (if due (ps ! m) = 0 then unat (c_ts_interval (ts_config (ps ! m))) else due (ps ! m) - 1)"
proof -
  have s: "distinct (map fst s)" "set (map fst s) \<subseteq> {..<length ps}" "set (map fst s) \<inter> {} = {}"
    "set (map fst s) = {..<length ps}" "m \<in> set (map fst s)"
    using assms(1,2) by (auto simp: a_second_def time_master_def)
  note p = part_of_second [OF assms(1) s(1-3) assms(3)]
  then show t: "time_master m (fst (net_run s ps))" "length (fst (net_run s ps)) = length ps" by blast+
  show "held_back m {} (fst (net_run s ps))"
    using p held_back_all [OF t(1)] t(2) s(4) by simp
  show "ts_config (fst (net_run s ps) ! m) = ts_config (ps ! m)"
    "levels_of (snd (net_run s ps)) \<subseteq> {c_ts_level (ts_config (ps ! m))}"
    "length (time_frames (snd (net_run s ps))) = (if due (ps ! m) = 0 then 1 else 0)"
    "due (fst (net_run s ps) ! m) =
       (if due (ps ! m) = 0 then unat (c_ts_interval (ts_config (ps ! m))) else due (ps ! m) - 1)"
    using p s(5) by simp_all
qed

text \<open>The master counts down whatever the others do.\<close>

lemma any_part:
  assumes "time_master m ps" and "set (map fst xs) \<subseteq> {..<length ps}" and "m \<notin> set (map fst xs)"
  shows "time_master m (fst (net_run xs ps)) \<and> length (fst (net_run xs ps)) = length ps \<and>
    ts_config (fst (net_run xs ps) ! m) = ts_config (ps ! m) \<and> due (fst (net_run xs ps) ! m) = due (ps ! m)"
  using assms
proof (induction xs arbitrary: ps)
  case (Cons x xs)
  have i: "fst x < length ps" "fst x \<noteq> m" "m < length ps" using Cons.prems by (auto simp: time_master_def)
  note q = time_master_tick [OF Cons.prems(1) i(1)] net_tick_sel [OF i(1)] master_countdown [OF Cons.prems(1) i(1)]
  have "set (map fst xs) \<subseteq> {..<length (fst (net_tick x ps))}" "m \<notin> set (map fst xs)"
    using Cons.prems q(2) by auto
  from Cons.IH [OF q(1) this] show ?case using q i by (simp add: Let_def)
qed simp

lemma any_second:
  assumes "time_master m ps" and "a_second (length ps) s"
  shows "time_master m (fst (net_run s ps)) \<and> length (fst (net_run s ps)) = length ps \<and>
    ts_config (fst (net_run s ps) ! m) = ts_config (ps ! m) \<and>
    due (fst (net_run s ps) ! m) =
      (if due (ps ! m) = 0 then unat (c_ts_interval (ts_config (ps ! m))) else due (ps ! m) - 1) \<and>
    (due (ps ! m) = 0 \<longrightarrow> held_back m {} (fst (net_run s ps)))"
proof -
  have m: "m < length ps" "m \<in> set (map fst s)" using assms by (auto simp: a_second_def time_master_def)
  then obtain clk where "(m, clk) \<in> set s" by auto
  then obtain xs ys where s: "s = xs @ (m, clk) # ys" by (meson split_list)
  let ?a = "fst (net_run xs ps)" and ?b = "fst (net_tick (m, clk) (fst (net_run xs ps)))"
  have d: "distinct (map fst s)" "set (map fst s) = {..<length ps}" using assms(2) by (simp_all add: a_second_def)
  then have x: "set (map fst xs) \<subseteq> {..<length ps}" "m \<notin> set (map fst xs)" "m \<notin> set (map fst ys)"
    "set (map fst ys) \<subseteq> {..<length ps}" "distinct (map fst ys)" "set (map fst ys) \<inter> insert m (set (map fst xs)) = {}"
    unfolding s by auto
  note a = any_part [OF assms(1) x(1,2)]
  have am: "fst (m, clk) < length ?a" using a m(1) by simp
  have tm: "time_master m ?a" using a by blast
  have b: "time_master m ?b" "length ?b = length ps" "ts_config (?b ! m) = ts_config (ps ! m)"
    using time_master_tick [OF tm am] net_tick_sel [OF am] a m(1) by simp_all
  have bd: "due (?b ! m) = (if due (ps ! m) = 0 then unat (c_ts_interval (ts_config (ps ! m))) else due (ps ! m) - 1)"
    using master_countdown [OF tm am] a by simp
  have r: "fst (net_run s ps) = fst (net_run ys ?b)" by (simp add: s net_run_append Let_def)
  have yb: "set (map fst ys) \<subseteq> {..<length ?b}" using x(4) b(2) by simp
  note y = any_part [OF b(1) yb x(3)]
  have "held_back m {} (fst (net_run s ps))" if z: "due (ps ! m) = 0"
  proof -
    have "held_back m (insert m (set (map fst xs))) ?b"
      using held_back_master [OF tm, of "(m, clk)" "set (map fst xs)"] x(2) a z by simp
    from part_of_second [OF b(1) x(5) yb x(6) this]
    have "held_back m (insert m (set (map fst xs)) \<union> set (map fst ys)) (fst (net_run ys ?b))" by blast
    moreover have "insert m (set (map fst xs)) \<union> set (map fst ys) = {..<length (fst (net_run ys ?b))}"
      using d(2) y b(2) unfolding s by auto
    ultimately show ?thesis using held_back_all y unfolding r by metis
  qed
  then show ?thesis using y b bd unfolding r by simp
qed

section \<open>The election\<close>

definition elected :: "nat \<Rightarrow> device_data_timeservice list \<Rightarrow> bool" where
  "elected m ps \<longleftrightarrow> held_back m {} ps \<and> due (ps ! m) \<le> unat (c_ts_interval (ts_config (ps ! m)))"

lemma elected_second:
  assumes "time_master m ps" and "a_second (length ps) s"
  shows "elected m ps \<or> due (ps ! m) = 0 \<Longrightarrow> elected m (fst (net_run s ps))"
proof -
  note s = any_second [OF assms]
  show "elected m (fst (net_run s ps))" if "elected m ps \<or> due (ps ! m) = 0"
    using s settled_second(1) [OF assms] that by (auto simp: elected_def split: if_splits)
qed

lemma election:
  "time_master m ps \<Longrightarrow> \<forall>s \<in> set ss. a_second (length ps) s \<Longrightarrow> elected m ps \<or> due (ps ! m) < length ss \<Longrightarrow>
   elected m (fst (net_seconds ss ps)) \<and> time_master m (fst (net_seconds ss ps)) \<and>
   length (fst (net_seconds ss ps)) = length ps \<and> ts_config (fst (net_seconds ss ps) ! m) = ts_config (ps ! m)"
proof (induction ss arbitrary: ps)
  case (Cons s ss)
  have sec: "a_second (length ps) s" using Cons.prems(2) by simp
  note q = any_second [OF Cons.prems(1) sec]
  have "elected m (fst (net_run s ps)) \<or> due (fst (net_run s ps) ! m) < length ss"
    using Cons.prems(3) elected_second [OF Cons.prems(1) sec] q by (auto split: if_splits)
  then show ?case using Cons.IH [of "fst (net_run s ps)"] q Cons.prems(2) by (simp add: Let_def)
qed simp

lemma elected_window:
  "time_master m ps \<Longrightarrow> \<forall>s \<in> set ss. a_second (length ps) s \<Longrightarrow> held_back m {} ps \<Longrightarrow>
   length ss \<le> due (ps ! m) + unat (c_ts_interval (ts_config (ps ! m))) + 1 \<Longrightarrow>
   levels_of (snd (net_seconds ss ps)) \<subseteq> {c_ts_level (ts_config (ps ! m))} \<and>
   length (time_frames (snd (net_seconds ss ps))) = (if length ss \<le> due (ps ! m) then 0 else 1)"
proof (induction ss arbitrary: ps)
  case (Cons s ss)
  have sec: "a_second (length ps) s" using Cons.prems(2) by simp
  note q = settled_second [OF Cons.prems(1) sec Cons.prems(3)]
  have "length ss \<le> due (fst (net_run s ps) ! m) + unat (c_ts_interval (ts_config (fst (net_run s ps) ! m))) + 1"
    using Cons.prems(4) q(4,7) by (simp split: if_splits)
  from Cons.IH [OF q(2) _ q(1) this]
  have IH: "levels_of (snd (net_seconds ss (fst (net_run s ps)))) \<subseteq> {c_ts_level (ts_config (ps ! m))}"
    "length (time_frames (snd (net_seconds ss (fst (net_run s ps))))) =
      (if length ss \<le> due (fst (net_run s ps) ! m) then 0 else 1)"
    using q(3,4) Cons.prems(2) by simp_all
  show ?case
    using IH q(5,6,7) Cons.prems(4) by (cases "due (ps ! m)") (auto simp: Let_def)
qed simp

lemma due_bound: "due p < 510"
  using unat_u8_le [of "c_ts_takeover (ts_config p)"] unat_u8_le [of "c_ts_interval (ts_config p) - ts_sent p"]
  unfolding due_def by linarith

text \<open>
  Property C33. The boards agree on one sender of the time. If one board has a lower level than
  all others and every other board's takeover time exceeds its interval by more than two
  seconds, then from any state of the counters, in any order of the boards' ticks in each
  second and whatever their clocks say, after at most 510 seconds only this board sends, and it
  sends the time exactly once in every interval.
\<close>

theorem one_time_master:
  assumes "time_master m ps" and "\<forall>s \<in> set warm. a_second (length ps) s" and "510 \<le> length warm"
    and "\<forall>s \<in> set later. a_second (length ps) s"
    and "length later = unat (c_ts_interval (ts_config (ps ! m))) + 1"
  shows "levels_of (snd (net_seconds later (fst (net_seconds warm ps)))) \<subseteq> {c_ts_level (ts_config (ps ! m))} \<and>
    length (time_frames (snd (net_seconds later (fst (net_seconds warm ps))))) = 1"
proof -
  let ?q = "fst (net_seconds warm ps)"
  have "due (ps ! m) < length warm" using due_bound [of "ps ! m"] assms(3) by linarith
  then have q: "elected m ?q" "time_master m ?q" "length ?q = length ps" "ts_config (?q ! m) = ts_config (ps ! m)"
    using election [OF assms(1,2)] by simp_all
  have h: "held_back m {} ?q" "due (?q ! m) \<le> unat (c_ts_interval (ts_config (ps ! m)))"
    using q(1,4) by (simp_all add: elected_def)
  have "length later \<le> due (?q ! m) + unat (c_ts_interval (ts_config (?q ! m))) + 1"
    using assms(5) q(4) by simp
  from elected_window [OF q(2) _ h(1) this] show ?thesis
    using assms(4,5) h(2) q(3,4) by simp
qed

definition two_masters :: "device_data_timeservice list" where
  "two_masters =
     [\<lparr>ts_config = \<lparr>c_ts_level = 20, c_ts_takeover = 130, c_ts_interval = 60\<rparr>, ts_received = 255, ts_sent = 0\<rparr>,
      \<lparr>ts_config = \<lparr>c_ts_level = 10, c_ts_takeover = 60, c_ts_interval = 59\<rparr>, ts_received = 0, ts_sent = 7\<rparr>]"

theorem one_time_master_witness:
  "let s = [(1, canix_rtc_init), (0, canix_rtc_init)]
   in levels_of (snd (net_seconds (replicate 60 s) (fst (net_seconds (replicate 510 s) two_masters)))) \<subseteq> {10} \<and>
     length (time_frames (snd (net_seconds (replicate 60 s) (fst (net_seconds (replicate 510 s) two_masters))))) = 1"
proof -
  let ?s = "[(1, canix_rtc_init), (0, canix_rtc_init)]"
  have l: "length two_masters = 2" "two_masters ! 1 = \<lparr>ts_config = \<lparr>c_ts_level = 10, c_ts_takeover = 60, c_ts_interval = 59\<rparr>, ts_received = 0, ts_sent = 7\<rparr>"
    "two_masters ! 0 = \<lparr>ts_config = \<lparr>c_ts_level = 20, c_ts_takeover = 130, c_ts_interval = 60\<rparr>, ts_received = 255, ts_sent = 0\<rparr>"
    by (simp_all add: two_masters_def)
  have m: "time_master 1 two_masters" by (auto simp: time_master_def less_Suc_eq two_masters_def)
  have s: "a_second (length two_masters) ?s" by (auto simp: a_second_def l)
  have r: "\<forall>s \<in> set (replicate n ?s). a_second (length two_masters) s" for n using s by auto
  have i: "length (replicate 60 ?s) = unat (c_ts_interval (ts_config (two_masters ! 1))) + 1"
    unfolding length_replicate l by simp
  have w: "510 \<le> length (replicate 510 ?s)" unfolding length_replicate ..
  have lev: "c_ts_level (ts_config (two_masters ! 1)) = 10" unfolding l by simp
  show ?thesis
    using one_time_master [OF m r w r i] unfolding Let_def lev .
qed

end
