(* ===== verification/Zentralheizungspumpe.thy ===== *)
theory Zentralheizungspumpe
  imports Hes_Device
begin

text \<open>
  The circulation pump of the central heating,
  \<^verbatim>\<open>src/firmwares/controllerboard/devices/zentralheizungspumpe.c\<close>: the demands of up
  to fifteen heatings are kept in a table, and the pump is switched by the mean of the demands
  that are not zero, with a hysteresis. The table is shown to be a map from heatings to
  demands.
\<close>

section \<open>State and operations\<close>

abbreviation (input) EINSCHALT_SCHWELLE :: u8 where "EINSCHALT_SCHWELLE \<equiv> 10"
abbreviation (input) AUSSCHALT_SCHWELLE :: u8 where "AUSSCHALT_SCHWELLE \<equiv> 5"
abbreviation (input) ZENTRALHEIZUNGSPUMPE_UPDATE_INTERVAL :: u16 where
  "ZENTRALHEIZUNGSPUMPE_UPDATE_INTERVAL \<equiv> 50"
abbreviation (input) MAX_ANZ_HEIZUNGEN :: nat where "MAX_ANZ_HEIZUNGEN \<equiv> 15"

text \<open>The array \<^verbatim>\<open>heizung\<close> as the list of its entries (id, demand).\<close>

record device_data_zentralheizungspumpe =
  c_gruppe :: u8
  heizung :: "(u8 \<times> u8) list"
  state :: bool
  update_counter :: u16

definition zentralheizungspumpe_init ::
  "device_data_zentralheizungspumpe \<Rightarrow> device_data_zentralheizungspumpe" where
  "zentralheizungspumpe_init p =
     p\<lparr>state := False, update_counter := 0, heizung := replicate MAX_ANZ_HEIZUNGEN (255, 0)\<rparr>"

text \<open>The first entry with an id gets the demand, if there is one.\<close>

fun put_at_id :: "u8 \<Rightarrow> u8 \<times> u8 \<Rightarrow> (u8 \<times> u8) list \<Rightarrow> (u8 \<times> u8) list option" where
  "put_at_id i e [] = None"
| "put_at_id i e (h # hs) = (if fst h = i then Some (e # hs) else map_option ((#) h) (put_at_id i e hs))"

definition waermebedarfSpeichern :: "(u8 \<times> u8) list \<Rightarrow> u8 \<Rightarrow> u8 \<Rightarrow> (u8 \<times> u8) list" where
  "waermebedarfSpeichern hs i w =
     (case put_at_id i (i, w) hs of
        Some hs' \<Rightarrow> hs'
      | None \<Rightarrow> (case put_at_id 255 (i, w) hs of Some hs' \<Rightarrow> hs' | None \<Rightarrow> hs))"

definition getMittlererWaermebedarf :: "(u8 \<times> u8) list \<Rightarrow> u8" where
  "getMittlererWaermebedarf hs =
     (let ws = filter (\<lambda>w. w > 0) (map snd hs);
          gesamt = fold (\<lambda>w s. s + ucast w) ws (0 :: u16)
      in if gesamt = 0 then 0 else of_nat (unat gesamt div length ws))"

definition zhp_sendMessage :: "u16 \<Rightarrow> device_data_zentralheizungspumpe \<Rightarrow> u8 \<Rightarrow> out" where
  "zhp_sendMessage self p zustand = send_hi (hes_message self HCAN_MULTICAST_CONTROL [zustand, c_gruppe p])"

definition zentralheizungspumpe_can_callback ::
  "u16 \<Rightarrow> device_data_zentralheizungspumpe \<Rightarrow> canix_frame \<Rightarrow> device_data_zentralheizungspumpe \<times> out list" where
  "zentralheizungspumpe_can_callback self p f =
     (if byte_at f 1 = HCAN_HES_HEIZUNG_WAERMEBEDARF_INFO then
        (let p = p\<lparr>heizung := waermebedarfSpeichern (heizung p) (byte_at f 2) (byte_at f 3)\<rparr>;
             m = getMittlererWaermebedarf (heizung p) in
         andthen
           (if \<not> state p
            then (if m \<ge> EINSCHALT_SCHWELLE
                  then (p\<lparr>state := True\<rparr>, [zhp_sendMessage self p HCAN_HES_POWER_GROUP_ON]) else (p, []))
            else (if m \<le> AUSSCHALT_SCHWELLE
                  then (p\<lparr>state := False\<rparr>, [zhp_sendMessage self p HCAN_HES_POWER_GROUP_OFF]) else (p, [])))
           (\<lambda>p. andthen
             (if update_counter p = 0
              then (p\<lparr>update_counter := ZENTRALHEIZUNGSPUMPE_UPDATE_INTERVAL\<rparr>,
                    [zhp_sendMessage self p (if state p then HCAN_HES_POWER_GROUP_ON else HCAN_HES_POWER_GROUP_OFF)])
              else (p, []))
             (\<lambda>p. (p\<lparr>update_counter := update_counter p - 1\<rparr>, []))))
      else (p, []))"

definition zentralheizungspumpe_timer_handler ::
  "u16 \<Rightarrow> device_data_zentralheizungspumpe \<Rightarrow> u8 \<Rightarrow> device_data_zentralheizungspumpe \<times> out list" where
  "zentralheizungspumpe_timer_handler self p zyklus = (p, [])"

section \<open>The table as a map\<close>

text \<open>Fifteen entries, the used ones with different ids, the unused ones without demand.\<close>

definition table_ok :: "(u8 \<times> u8) list \<Rightarrow> bool" where
  "table_ok hs \<longleftrightarrow> length hs = MAX_ANZ_HEIZUNGEN \<and> distinct (filter (\<lambda>i. i \<noteq> 255) (map fst hs)) \<and>
     (\<forall>w. (255, w) \<in> set hs \<longrightarrow> w = 0)"

definition demands :: "(u8 \<times> u8) list \<Rightarrow> u8 \<rightharpoonup> u8" where
  "demands hs = map_of (filter (\<lambda>h. fst h \<noteq> 255) hs)"

lemma put_at_id_Some:
  "put_at_id i e hs = Some hs' \<Longrightarrow> \<exists>xs w ys. hs = xs @ (i, w) # ys \<and> hs' = xs @ e # ys \<and> i \<notin> fst ` set xs"
proof (induction hs arbitrary: hs')
  case (Cons h hs)
  show ?case
  proof (cases "fst h = i")
    case True
    then have "h # hs = [] @ (i, snd h) # hs \<and> hs' = [] @ e # hs \<and> i \<notin> fst ` set []"
      using Cons.prems by auto
    then show ?thesis by blast
  next
    case False
    then obtain hs'' where "put_at_id i e hs = Some hs''" "hs' = h # hs''" using Cons.prems by auto
    moreover from Cons.IH [OF this(1)] obtain xs w ys where
      "hs = xs @ (i, w) # ys" "hs'' = xs @ e # ys" "i \<notin> fst ` set xs" by blast
    ultimately have "h # hs = (h # xs) @ (i, w) # ys \<and> hs' = (h # xs) @ e # ys \<and> i \<notin> fst ` set (h # xs)"
      using False by auto
    then show ?thesis by blast
  qed
qed simp

lemma put_at_id_None: "put_at_id i e hs = None \<longleftrightarrow> i \<notin> fst ` set hs"
  by (induction hs) auto

lemma used_ids: "i \<noteq> 255 \<Longrightarrow> i \<in> fst ` set hs \<longleftrightarrow> i \<in> dom (demands hs)"
  by (force simp: demands_def dom_map_of_conv_image_fst)

lemma used_count:
  assumes "table_ok hs"
  shows "card (dom (demands hs)) = length (filter (\<lambda>h. fst h \<noteq> 255) hs)"
proof -
  have "dom (demands hs) = set (map fst (filter (\<lambda>h. fst h \<noteq> 255) hs))"
    by (simp add: demands_def dom_map_of_conv_image_fst)
  moreover have "distinct (map fst (filter (\<lambda>h. fst h \<noteq> 255) hs))"
    using assms by (simp add: table_ok_def filter_map comp_def)
  ultimately show ?thesis by (simp only: distinct_card length_map)
qed

lemma demands_entry:
  "i \<noteq> 255 \<Longrightarrow> i \<notin> fst ` set xs \<Longrightarrow> demands (xs @ (i, w) # ys) = (demands (xs @ ys))(i \<mapsto> w)"
  "demands (xs @ (255, v) # ys) = demands (xs @ ys)"
proof -
  assume i: "i \<noteq> 255" "i \<notin> fst ` set xs"
  then have "i \<notin> dom (map_of (filter (\<lambda>h. fst h \<noteq> 255) xs))"
    by (auto simp: dom_map_of_conv_image_fst)
  with i(1) show "demands (xs @ (i, w) # ys) = (demands (xs @ ys))(i \<mapsto> w)"
    by (simp add: demands_def map_add_upd_left)
qed (simp add: demands_def)

text \<open>Storing a demand updates the map, if the heating is known or there is room.\<close>

lemma store_demand:
  assumes "table_ok hs" and "i \<noteq> 255" and "i \<in> dom (demands hs) \<or> card (dom (demands hs)) < MAX_ANZ_HEIZUNGEN"
  shows "table_ok (waermebedarfSpeichern hs i w) \<and> demands (waermebedarfSpeichern hs i w) = (demands hs)(i \<mapsto> w)"
proof (cases "i \<in> fst ` set hs")
  case True
  then obtain hs' where s: "put_at_id i (i, w) hs = Some hs'"
    using put_at_id_None [of i "(i, w)" hs] by (cases "put_at_id i (i, w) hs") auto
  then obtain xs v ys where h: "hs = xs @ (i, v) # ys" "hs' = xs @ (i, w) # ys" "i \<notin> fst ` set xs"
    using put_at_id_Some by blast
  have r: "waermebedarfSpeichern hs i w = hs'" by (simp add: waermebedarfSpeichern_def s)
  have "table_ok hs'" using assms(1,2) unfolding h(1,2) by (auto simp: table_ok_def)
  then show ?thesis unfolding r unfolding h(1,2) by (simp add: demands_entry(1) [OF assms(2) h(3)])
next
  case False
  then have n: "put_at_id i (i, w) hs = None" by (simp add: put_at_id_None)
  have "length (filter (\<lambda>h. fst h \<noteq> 255) hs) < length hs"
    using False assms used_ids [OF assms(2)] used_count [OF assms(1)] by (simp add: table_ok_def)
  then have "255 \<in> fst ` set hs"
    by (metis (mono_tags, lifting) filter_True image_eqI less_irrefl)
  then obtain hs' where s: "put_at_id 255 (i, w) hs = Some hs'"
    using put_at_id_None [of 255 "(i, w)" hs] by (cases "put_at_id 255 (i, w) hs") auto
  then obtain xs v ys where h: "hs = xs @ (255, v) # ys" "hs' = xs @ (i, w) # ys"
    using put_at_id_Some by blast
  have r: "waermebedarfSpeichern hs i w = hs'" by (simp add: waermebedarfSpeichern_def n s)
  have x: "i \<notin> fst ` set xs" "i \<notin> fst ` set ys" using False unfolding h(1) by auto
  have "table_ok hs'" using assms(1,2) x unfolding h(1,2) by (auto simp: table_ok_def)
  then show ?thesis
    unfolding r unfolding h(1,2) demands_entry(2) by (simp add: demands_entry(1) [OF assms(2) x(1)])
qed

section \<open>The mean as a function of the map\<close>

text \<open>The abstract pump: the demands of the heatings, and whether it runs.\<close>

definition total_demand :: "(u8 \<rightharpoonup> u8) \<Rightarrow> nat" where
  "total_demand d = (\<Sum>i \<in> dom d. unat (the (d i)))"

definition demanding :: "(u8 \<rightharpoonup> u8) \<Rightarrow> nat" where
  "demanding d = card {i \<in> dom d. the (d i) \<noteq> 0}"

definition mean_demand :: "(u8 \<rightharpoonup> u8) \<Rightarrow> nat" where
  "mean_demand d = (if total_demand d = 0 then 0 else total_demand d div demanding d)"

definition pump_step :: "u8 \<Rightarrow> u8 \<Rightarrow> (u8 \<rightharpoonup> u8) \<times> bool \<Rightarrow> (u8 \<rightharpoonup> u8) \<times> bool" where
  "pump_step i w st =
     (let d = (fst st)(i \<mapsto> w); m = mean_demand d
      in (d, if snd st then 5 < m else 10 \<le> m))"

definition pump_abs :: "device_data_zentralheizungspumpe \<Rightarrow> (u8 \<rightharpoonup> u8) \<times> bool" where
  "pump_abs p = (demands (heizung p), state p)"

lemma sum_demands:
  assumes "table_ok hs"
  shows "total_demand (demands hs) = (\<Sum>w \<leftarrow> map snd hs. unat w)"
    "demanding (demands hs) = length (filter (\<lambda>w. w > 0) (map snd hs))"
proof -
  let ?us = "filter (\<lambda>h. fst h \<noteq> 255) hs"
  have d: "distinct (map fst ?us)" using assms by (simp add: table_ok_def filter_map comp_def)
  then have dd: "distinct ?us" by (rule distinct_map [THEN iffD1, THEN conjunct1])
  have inj: "inj_on fst (set ?us)" using d by (simp only: distinct_map)
  have look: "demands hs (fst h) = Some (snd h)" if "h \<in> set ?us" for h
    unfolding demands_def using that by (intro map_of_is_SomeI [OF d]) simp
  have dm: "dom (demands hs) = fst ` set ?us" by (simp add: demands_def dom_map_of_conv_image_fst)
  have zero: "snd h = 0" if "h \<in> set hs" "fst h = 255" for h
    using assms that by (cases h) (auto simp: table_ok_def)
  have "total_demand (demands hs) = (\<Sum>h \<in> set ?us. unat (the (demands hs (fst h))))"
    unfolding total_demand_def dm using inj by (simp add: sum.reindex)
  also have "\<dots> = (\<Sum>h \<in> set ?us. unat (snd h))"
    by (rule sum.cong) (use look in simp_all)
  also have "\<dots> = (\<Sum>h \<leftarrow> ?us. unat (snd h))"
    using dd by (simp add: sum_list_distinct_conv_sum_set)
  also have "\<dots> = (\<Sum>h \<leftarrow> hs. unat (snd h))"
    by (rule sum_list_map_filter) (use zero in auto)
  finally show "total_demand (demands hs) = (\<Sum>w \<leftarrow> map snd hs. unat w)" by (simp add: comp_def)
  have "{i \<in> dom (demands hs). the (demands hs i) \<noteq> 0} = fst ` {h \<in> set ?us. snd h \<noteq> 0}"
    unfolding dm using look by force
  then have "demanding (demands hs) = card (fst ` {h \<in> set ?us. snd h \<noteq> 0})" by (simp add: demanding_def)
  also have "\<dots> = card {h \<in> set ?us. snd h \<noteq> 0}"
    by (rule card_image) (rule inj_on_subset [OF inj], blast)
  also have "{h \<in> set ?us. snd h \<noteq> 0} = set (filter (\<lambda>h. snd h \<noteq> 0) ?us)" by auto
  also have "card (set (filter (\<lambda>h. snd h \<noteq> 0) ?us)) = length (filter (\<lambda>h. snd h \<noteq> 0) ?us)"
    by (rule distinct_card [OF distinct_filter [OF dd]])
  also have "filter (\<lambda>h. snd h \<noteq> 0) ?us = filter (\<lambda>h. snd h \<noteq> 0) hs"
    using zero by (auto simp: intro: filter_cong)
  finally show "demanding (demands hs) = length (filter (\<lambda>w. w > 0) (map snd hs))"
    by (simp add: filter_map comp_def word_gt_0)
qed

text \<open>The 16-bit sum does not overflow, and the mean of bytes is a byte.\<close>

lemma fold_sum16:
  "unat (s :: u16) + (\<Sum>w \<leftarrow> ws. unat (w :: u8)) < 65536 \<Longrightarrow>
   unat (fold (\<lambda>w s. s + ucast w) ws s) = unat s + (\<Sum>w \<leftarrow> ws. unat w)"
proof (induction ws arbitrary: s)
  case (Cons w ws)
  have "unat (s + ucast w) = unat s + unat w"
    using Cons.prems by (subst unat_add_lem [THEN iffD1]) simp_all
  then show ?case using Cons by simp
qed simp

lemma sum_bytes: "(\<Sum>w \<leftarrow> ws. unat (w :: u8)) \<le> 255 * length ws"
proof (induction ws)
  case (Cons w ws)
  then show ?case using unat_u8_le [of w] by (simp del: unat_u8_le)
qed simp

lemma sum_positive:
  "(\<Sum>w \<leftarrow> filter (\<lambda>w. w > 0) ws. unat (w :: u8)) = (\<Sum>w \<leftarrow> ws. unat w)"
  by (rule sum_list_map_filter) (simp add: word_gt_0)

lemma mean_refined:
  assumes "table_ok hs"
  shows "unat (getMittlererWaermebedarf hs) = mean_demand (demands hs)"
proof -
  let ?ws = "filter (\<lambda>w. w > 0) (map snd hs)"
  let ?g = "fold (\<lambda>w s. s + ucast w) ?ws (0 :: u16)"
  have l: "length hs = 15" using assms by (simp add: table_ok_def)
  have "(\<Sum>w \<leftarrow> map snd hs. unat w) \<le> 3825" using sum_bytes [of "map snd hs"] l by simp
  then have g: "unat ?g = (\<Sum>w \<leftarrow> map snd hs. unat w)"
    using fold_sum16 [of 0 ?ws] unfolding sum_positive by simp
  note s = sum_demands [OF assms]
  have tot: "unat ?g = total_demand (demands hs)" using g s(1) by simp
  have "total_demand (demands hs) \<le> 255 * demanding (demands hs)"
    unfolding s sum_positive [of "map snd hs", symmetric] by (rule sum_bytes)
  then have "total_demand (demands hs) div demanding (demands hs) \<le> 255 * demanding (demands hs) div demanding (demands hs)"
    by (rule div_le_mono)
  also have "\<dots> \<le> 255" by (cases "demanding (demands hs) = 0") simp_all
  finally have "total_demand (demands hs) div demanding (demands hs) < 256" by simp
  then show ?thesis
    using tot s(2) by (simp add: getMittlererWaermebedarf_def mean_demand_def Let_def unat_eq_zero [symmetric])
qed

section \<open>The contract and the refinement\<close>

definition zhp_says :: "u8 \<Rightarrow> bool" where
  "zhp_says ty \<longleftrightarrow> ty = HCAN_HES_POWER_GROUP_ON \<or> ty = HCAN_HES_POWER_GROUP_OFF"

lemma zhp_callback_says: "says zhp_says (snd (zentralheizungspumpe_can_callback self p f))"
  by (simp add: zentralheizungspumpe_can_callback_def zhp_sendMessage_def zhp_says_def Let_def)

lemma zhp_ignores: "zhp_says (byte_at fr 1) \<Longrightarrow> zentralheizungspumpe_can_callback self p fr = (p, [])"
  by (auto simp: zentralheizungspumpe_can_callback_def zhp_says_def)

interpretation zentralheizungspumpe_dev: echo_free_device "\<lambda>_. True" "\<lambda>_. True"
  zentralheizungspumpe_can_callback zentralheizungspumpe_timer_handler
proof (rule echo_free_deviceI)
  show "says zhp_says (snd (zentralheizungspumpe_timer_handler self p z))" for self p z
    by (simp add: zentralheizungspumpe_timer_handler_def)
qed (simp_all add: zhp_callback_says zhp_ignores)

definition info_frame :: "u8 \<times> u8 \<Rightarrow> canix_frame" where
  "info_frame x = hes_message 9 HCAN_MULTICAST_INFO [HCAN_HES_HEIZUNG_WAERMEBEDARF_INFO, fst x, snd x]"

fun pump_frames :: "u16 \<Rightarrow> (u8 \<times> u8) list \<Rightarrow> device_data_zentralheizungspumpe \<Rightarrow>
  device_data_zentralheizungspumpe \<times> out list" where
  "pump_frames self [] p = (p, [])"
| "pump_frames self (x # xs) p = andthen (zentralheizungspumpe_can_callback self p (info_frame x)) (pump_frames self xs)"

lemma pump_frame_abs:
  assumes "table_ok (heizung p)" and "i \<noteq> 255"
    and "i \<in> dom (demands (heizung p)) \<or> card (dom (demands (heizung p))) < MAX_ANZ_HEIZUNGEN"
  shows "pump_abs (fst (zentralheizungspumpe_can_callback self p (info_frame (i, w)))) = pump_step i w (pump_abs p) \<and>
    table_ok (heizung (fst (zentralheizungspumpe_can_callback self p (info_frame (i, w)))))"
proof -
  let ?t = "waermebedarfSpeichern (heizung p) i w"
  note t = store_demand [OF assms, of w]
  then have m: "unat (getMittlererWaermebedarf ?t) = mean_demand ((demands (heizung p))(i \<mapsto> w))"
    using mean_refined [of ?t] by simp
  have c: "10 \<le> getMittlererWaermebedarf ?t \<longleftrightarrow> 10 \<le> mean_demand ((demands (heizung p))(i \<mapsto> w))"
    "getMittlererWaermebedarf ?t \<le> 5 \<longleftrightarrow> mean_demand ((demands (heizung p))(i \<mapsto> w)) \<le> 5"
    by (simp_all add: word_le_nat_alt m)
  show ?thesis
    using t c by (auto simp: zentralheizungspumpe_can_callback_def info_frame_def pump_abs_def pump_step_def Let_def)
qed

lemma dom_pump_step: "dom (fst (pump_step i w st)) = insert i (dom (fst st))"
  by (auto simp: pump_step_def Let_def)

text \<open>
  Property C34. The pump refines a map of demands: for any series of demands of at most fifteen
  heatings, whatever their ids (255 apart) and their order, the table holds the last demand of
  each, and the pump's state is what the hysteresis on the mean of the demands that are not zero says. (The messages that
  tell the relay this state are not part of it.)
\<close>

theorem pump_refines_demand_map:
  assumes "table_ok (heizung p)" and "255 \<notin> fst ` set xs"
    and "card (dom (demands (heizung p)) \<union> fst ` set xs) \<le> MAX_ANZ_HEIZUNGEN"
  shows "pump_abs (fst (pump_frames self xs p)) = fold (\<lambda>(i, w). pump_step i w) xs (pump_abs p)"
  using assms
proof (induction xs arbitrary: p)
  case (Cons x xs)
  obtain i w where x: "x = (i, w)" by (cases x)
  have fin: "finite (dom (demands (heizung p)))" by (simp add: demands_def finite_dom_map_of)
  let ?D = "dom (demands (heizung p))"
  have "i \<in> ?D \<or> card ?D < MAX_ANZ_HEIZUNGEN"
  proof (rule disjCI)
    assume n: "\<not> card ?D < MAX_ANZ_HEIZUNGEN"
    have "?D \<subseteq> ?D \<union> fst ` set (x # xs)" by blast
    with n Cons.prems(3) fin have "?D = ?D \<union> fst ` set (x # xs)" by (intro card_seteq) simp_all
    then show "i \<in> ?D" using x by auto
  qed
  note q = pump_frame_abs [OF Cons.prems(1) _ this, of self w]
  let ?q = "fst (zentralheizungspumpe_can_callback self p (info_frame (i, w)))"
  have i: "i \<noteq> 255" using Cons.prems(2) x by auto
  have "demands (heizung ?q) = fst (pump_step i w (pump_abs p))" using arg_cong [OF conjunct1 [OF q [OF i]], of fst] by (simp add: pump_abs_def)
  then have "dom (demands (heizung ?q)) = insert i ?D" by (simp add: dom_pump_step pump_abs_def)
  then have "pump_abs (fst (pump_frames self xs ?q)) = fold (\<lambda>(i, w). pump_step i w) xs (pump_abs ?q)"
    using q [OF i] Cons.prems(2,3) x by (intro Cons.IH) auto
  then show ?case using q [OF i] by (simp add: x)
qed simp

definition cellar_pump :: device_data_zentralheizungspumpe where
  "cellar_pump = zentralheizungspumpe_init \<lparr>c_gruppe = 40, heizung = [], state = True, update_counter = 3\<rparr>"

lemma table_ok_init: "table_ok (heizung (zentralheizungspumpe_init p))"
  by (simp add: table_ok_def zentralheizungspumpe_init_def)

theorem pump_refines_demand_map_witness:
  "pump_abs (fst (pump_frames 5 [(1, 30), (2, 0), (1, 0)] cellar_pump)) = ([1 \<mapsto> 0, 2 \<mapsto> 0], False)"
proof -
  have a: "demands (heizung cellar_pump) = Map.empty" "state cellar_pump = False"
    by (simp_all add: cellar_pump_def zentralheizungspumpe_init_def demands_def)
  have t: "table_ok (heizung cellar_pump)" by (simp add: cellar_pump_def table_ok_init)
  have "pump_abs (fst (pump_frames 5 [(1, 30), (2, 0), (1, 0)] cellar_pump)) =
      fold (\<lambda>(i, w). pump_step i w) [(1, 30), (2, 0), (1, 0)] (pump_abs cellar_pump)"
    by (rule pump_refines_demand_map [OF t]) (simp_all add: a(1) card_insert_if)
  also have "\<dots> = ([1 \<mapsto> 0, 2 \<mapsto> 0], False)"
  proof -
    have m: "mean_demand [1 \<mapsto> 30] = 30" "mean_demand [2 \<mapsto> 0, 1 \<mapsto> 30] = 30" "mean_demand [2 \<mapsto> 0, 1 \<mapsto> 0] = 0"
    proof -
      have "{i :: u8. i \<noteq> 2 \<and> (i \<noteq> 2 \<longrightarrow> i = 1)} = {1}" by auto
      then show "mean_demand [1 \<mapsto> 30] = 30" "mean_demand [2 \<mapsto> 0, 1 \<mapsto> 30] = 30" "mean_demand [2 \<mapsto> 0, 1 \<mapsto> 0] = 0"
        by (auto simp: mean_demand_def total_demand_def demanding_def)
    qed
    show ?thesis using m(3) by (simp add: pump_step_def pump_abs_def a m(1,2) Let_def fun_upd_twist)
  qed
  finally show ?thesis .
qed

end
