(* ===== verification/Onewire.thy ===== *)
theory Onewire
  imports Hes_Device "HOL-Library.Monad_Syntax"
begin

text \<open>
  The 1-Wire bus of the temperature sensors,
  \<^verbatim>\<open>src/firmwares/controllerboard/onewire.c\<close>: bytes on the wire, and the search that
  finds the identifiers of all sensors. The pin, the time and the sensors behind it are the
  parameter \<open>wr\<close> on a state of the wire; what the sensors' protocol promises of resets
  and bit slots is the locale \<open>rom_bus\<close>, which a simulated wire with any sensors fulfils.
\<close>

section \<open>Operations\<close>

text \<open>The port register bits of the pin, the level at it, and the busy waiting in microseconds.\<close>

record 'w onewire =
  w1_out :: "bool \<Rightarrow> 'w \<Rightarrow> 'w"
  w1_ddr :: "bool \<Rightarrow> 'w \<Rightarrow> 'w"
  w1_in :: "'w \<Rightarrow> bool"
  udelay :: "nat \<Rightarrow> 'w \<Rightarrow> 'w"

abbreviation (input) MATCH_ROM :: u8 where "MATCH_ROM \<equiv> 0x55"
abbreviation (input) SKIP_ROM :: u8 where "SKIP_ROM \<equiv> 0xCC"
abbreviation (input) SEARCH_ROM :: u8 where "SEARCH_ROM \<equiv> 0xF0"
abbreviation (input) CONVERT_T :: u8 where "CONVERT_T \<equiv> 0x44"
abbreviation (input) READ_SCRATCH :: u8 where "READ_SCRATCH \<equiv> 0xBE"
abbreviation (input) SEARCH_FIRST :: u8 where "SEARCH_FIRST \<equiv> 0xFF"
abbreviation (input) PRESENCE_ERR :: u8 where "PRESENCE_ERR \<equiv> 0xFF"
abbreviation (input) DATA_ERR :: u8 where "DATA_ERR \<equiv> 0xFE"
abbreviation (input) LAST_DEVICE :: u8 where "LAST_DEVICE \<equiv> 0"

text \<open>The pin of the port for a connector of the board, by the controller the code is built for.\<close>

datatype ow_board = OW_ATmega328P | OW_ATmega32

definition ow_setpin :: "ow_board \<Rightarrow> u8 \<Rightarrow> u8" where
  "ow_setpin m p = (case m of OW_ATmega328P \<Rightarrow> p | OW_ATmega32 \<Rightarrow> 15 - p)"

definition ow_getpin :: "ow_board \<Rightarrow> u8 \<Rightarrow> u8" where
  "ow_getpin m ow_pin = (case m of OW_ATmega328P \<Rightarrow> ow_pin | OW_ATmega32 \<Rightarrow> 15 - ow_pin)"

definition ow_reset :: "'w onewire \<Rightarrow> 'w \<Rightarrow> bool \<times> 'w" where
  "ow_reset wr w =
     (let w = w1_out wr False w; w = w1_ddr wr True w; w = udelay wr 480 w;
          w = w1_ddr wr False w; w = udelay wr 66 w; err = w1_in wr w;
          w = udelay wr (480 - 66) w
      in (err \<or> \<not> w1_in wr w, w))"

definition ow_bit_io :: "'w onewire \<Rightarrow> bool \<Rightarrow> 'w \<Rightarrow> bool \<times> 'w" where
  "ow_bit_io wr b w =
     (let w = w1_ddr wr True w; w = udelay wr 1 w; w = (if b then w1_ddr wr False w else w);
          w = udelay wr 14 w; b = (b \<and> w1_in wr w); w = udelay wr (60 - 15) w
      in (b, w1_ddr wr False w))"

text \<open>A byte is written bit by bit, the lowest first, and what the wire answers is shifted in.\<close>

fun ow_byte_loop :: "nat \<Rightarrow> 'w onewire \<Rightarrow> u8 \<Rightarrow> 'w \<Rightarrow> u8 \<times> 'w" where
  "ow_byte_loop 0 wr b w = (b, w)"
| "ow_byte_loop (Suc i) wr b w =
     (let (j, w) = ow_bit_io wr (bit b 0) w; b = drop_bit 1 b
      in ow_byte_loop i wr (if j then b OR 0x80 else b) w)"

definition ow_write_byte :: "'w onewire \<Rightarrow> u8 \<Rightarrow> 'w \<Rightarrow> u8 \<times> 'w" where
  "ow_write_byte wr b w = ow_byte_loop 8 wr b w"

definition ow_read_byte :: "'w onewire \<Rightarrow> 'w \<Rightarrow> u8 \<times> 'w" where
  "ow_read_byte wr w = ow_write_byte wr 0xff w"

text \<open>
  The search: for each bit the wire gives the bit and its complement, as the sensors that still
  take part see it; where they differ the search decides. \<open>Inl\<close> is the early return with
  \<^verbatim>\<open>DATA_ERR\<close>, after which nobody looks at the identifier.
\<close>

fun search_bits ::
  "'w onewire \<Rightarrow> nat \<Rightarrow> u8 \<Rightarrow> u8 \<Rightarrow> u8 \<Rightarrow> u8 \<Rightarrow> 'w \<Rightarrow> 'w + (u8 \<times> u8 \<times> u8 \<times> 'w)" where
  "search_bits wr 0 diff x i nd w = Inr (x, i, nd, w)"
| "search_bits wr (Suc j) diff x i nd w =
     (let (b, w) = ow_bit_io wr True w; (c, w) = ow_bit_io wr True w in
      if c \<and> b then Inl w
      else
        (let one = (\<not> c \<and> \<not> b \<and> (diff > i \<or> bit x 0 \<and> diff \<noteq> i));
             b' = (b \<or> one); nd' = (if one then i else nd);
             w = snd (ow_bit_io wr b' w); x = drop_bit 1 x;
             x = (if b' then x OR 0x80 else x)
         in search_bits wr j diff x (i - 1) nd' w))"

fun search_bytes ::
  "'w onewire \<Rightarrow> u8 \<Rightarrow> u8 list \<Rightarrow> u8 \<Rightarrow> u8 \<Rightarrow> 'w \<Rightarrow> 'w + (u8 list \<times> u8 \<times> 'w)" where
  "search_bytes wr diff [] i nd w = Inr ([], nd, w)"
| "search_bytes wr diff (x # xs) i nd w =
     (case search_bits wr 8 diff x i nd w of
        Inl w \<Rightarrow> Inl w
      | Inr (x', i, nd, w) \<Rightarrow>
          (case search_bytes wr diff xs i nd w of
             Inl w \<Rightarrow> Inl w
           | Inr (xs', nd, w) \<Rightarrow> Inr (x' # xs', nd, w)))"

definition ow_rom_search :: "'w onewire \<Rightarrow> u8 \<Rightarrow> u8 list \<Rightarrow> 'w \<Rightarrow> u8 \<times> u8 list \<times> 'w" where
  "ow_rom_search wr diff ident w =
     (let (err, w) = ow_reset wr w in
      if err then (PRESENCE_ERR, ident, w)
      else
        (case search_bytes wr diff ident 64 LAST_DEVICE (snd (ow_write_byte wr SEARCH_ROM w)) of
           Inl w \<Rightarrow> (DATA_ERR, ident, w)
         | Inr (ident', nd, w) \<Rightarrow> (nd, ident', w)))"

definition ow_command :: "'w onewire \<Rightarrow> u8 \<Rightarrow> u8 list option \<Rightarrow> 'w \<Rightarrow> 'w" where
  "ow_command wr cmd ident w =
     (let w = snd (ow_reset wr w);
          w = (case ident of
                 Some bs \<Rightarrow> fold (\<lambda>b w. snd (ow_write_byte wr b w)) bs (snd (ow_write_byte wr MATCH_ROM w))
               | None \<Rightarrow> snd (ow_write_byte wr SKIP_ROM w))
      in snd (ow_write_byte wr cmd w))"

text \<open>The frames for one sensor found, with the pauses, and for the errors.\<close>

definition discovered :: "u16 \<Rightarrow> canix_frame \<Rightarrow> u8 list \<Rightarrow> out list" where
  "discovered self f ident =
     [send_hi (hes_answer self f (HCAN_HES_1WIRE_DISCOVERED_PART_1 # take 4 ident)), Sleep 2,
      send_hi (hes_answer self f (HCAN_HES_1WIRE_DISCOVERED_PART_2 # take 4 (drop 4 ident))), Sleep 2]"

definition ow_error :: "u16 \<Rightarrow> canix_frame \<Rightarrow> u8 \<Rightarrow> out list" where
  "ow_error self f n = [send_hi (hes_answer self f [HCAN_HES_1WIRE_ERROR, n])]"

text \<open>The loop over the sensors; \<open>None\<close> is that it does not end.\<close>

partial_function (option) ow_discover_loop ::
  "'w onewire \<Rightarrow> u16 \<Rightarrow> canix_frame \<Rightarrow> u8 \<Rightarrow> u8 list \<Rightarrow> 'w \<Rightarrow> (out list \<times> 'w) option" where
  "ow_discover_loop wr self f diff ident w =
     (if diff = LAST_DEVICE then Some ([], w)
      else
        (let (diff', ident', w') = ow_rom_search wr diff ident w in
         if diff' = PRESENCE_ERR then Some (ow_error self f 3, w')
         else if diff' = DATA_ERR then Some (ow_error self f 4, w')
         else do { r \<leftarrow> ow_discover_loop wr self f diff' ident' w';
                   Some (discovered self f ident' @ fst r, snd r) }))"

definition ow_discover ::
  "'w onewire \<Rightarrow> u16 \<Rightarrow> canix_frame \<Rightarrow> u8 list \<Rightarrow> 'w \<Rightarrow> (out list \<times> 'w) option" where
  "ow_discover wr self f garbage w = ow_discover_loop wr self f SEARCH_FIRST garbage w"

section \<open>The search as a walk in the tree of identifiers\<close>

text \<open>The sensors that take a branch, and the identifiers in the order of the search.\<close>

definition branch :: "bool \<Rightarrow> bool list list \<Rightarrow> bool list list" where
  "branch b T = map tl (filter (\<lambda>t. hd t = b) T)"

fun desc :: "nat \<Rightarrow> bool list list \<Rightarrow> bool list list" where
  "desc 0 T = (if T = [] then [] else [[]])"
| "desc (Suc n) T = map ((#) True) (desc n (branch True T)) @ map ((#) False) (desc n (branch False T))"

definition forks :: "bool list list \<Rightarrow> bool" where
  "forks T \<longleftrightarrow> branch True T \<noteq> [] \<and> branch False T \<noteq> []"

text \<open>The last fork at which an identifier takes the one, counted from the end; 0 for none.\<close>

fun lastd :: "nat \<Rightarrow> bool list list \<Rightarrow> bool list \<Rightarrow> nat" where
  "lastd 0 T p = 0"
| "lastd (Suc n) T p =
     (let r = lastd n (branch (hd p) T) (tl p)
      in if r \<noteq> 0 then r else if hd p \<and> forks T then Suc n else 0)"

text \<open>The decision at a fork, and a whole walk.\<close>

definition takes :: "nat \<Rightarrow> nat \<Rightarrow> bool \<Rightarrow> bool list list \<Rightarrow> bool" where
  "takes d i old T = (if forks T then d > i \<or> old \<and> d \<noteq> i else branch False T = [])"

fun walk :: "nat \<Rightarrow> nat \<Rightarrow> nat \<Rightarrow> bool list \<Rightarrow> bool list list \<Rightarrow> nat \<Rightarrow> bool list \<times> bool list list \<times> nat" where
  "walk 0 d n old T nd = ([], T, nd)"
| "walk (Suc j) d n old T nd =
     (let b = takes d n (hd old) T;
          (r, T', nd') = walk j d (n - 1) (tl old) (branch b T) (if forks T \<and> b then n else nd)
      in (b # r, T', nd'))"

lemma lastd_le: "lastd n T p \<le> n"
proof (induction n arbitrary: T p)
  case (Suc n)
  then show ?case using Suc [of "branch (hd p) T" "tl p"] by (auto simp: Let_def intro: le_SucI)
qed simp

lemma branch_length: "\<forall>t \<in> set T. length t = Suc n \<Longrightarrow> \<forall>t \<in> set (branch b T). length t = n"
  by (auto simp: branch_def)

lemma branch_some: "T \<noteq> [] \<Longrightarrow> branch True T \<noteq> [] \<or> branch False T \<noteq> []"
  by (cases T) (auto simp: branch_def)

lemma set_desc: "\<forall>t \<in> set T. length t = n \<Longrightarrow> set (desc n T) = set T"
proof (induction n arbitrary: T)
  case 0
  then have "set T \<subseteq> {[]}" by auto
  then show ?case by (cases T) auto
next
  case (Suc n)
  have e: "(#) b ` set (branch b T) = {t \<in> set T. hd t = b}" for b
  proof -
    have "b # tl t = t" if "t \<in> set T" "hd t = b" for t
      using Suc.prems that by (cases t) auto
    then show ?thesis by (force simp: branch_def)
  qed
  have "set (desc (Suc n) T) = {t \<in> set T. hd t} \<union> {t \<in> set T. \<not> hd t}"
    using Suc.IH [OF branch_length [OF Suc.prems]] e [of True] e [of False] by simp
  then show ?case by auto
qed

lemma distinct_desc: "distinct (desc n T)"
  by (induction n arbitrary: T) (auto simp: distinct_map)

lemma desc_empty: "\<forall>t \<in> set T. length t = n \<Longrightarrow> desc n T = [] \<longleftrightarrow> T = []"
  using set_desc [of T n] by (metis set_empty)

text \<open>A walk whose decision is beyond everything finds the first identifier.\<close>

definition found :: "nat \<Rightarrow> nat \<Rightarrow> bool list \<Rightarrow> bool list list \<Rightarrow> nat \<Rightarrow> bool list \<Rightarrow> bool" where
  "found n d old T nd y \<longleftrightarrow> (\<exists>T'. walk n d n old T nd = (y, T', if lastd n T y = 0 then nd else lastd n T y))"

lemma found_Suc:
  assumes "takes d (Suc n) (hd old) T = b" and "found n d (tl old) (branch b T) (if forks T \<and> b then Suc n else nd) y"
  shows "found (Suc n) d old T nd (b # y)"
  using assms by (auto simp: found_def Let_def split: prod.splits)

lemma walk_first:
  "n < d \<Longrightarrow> T \<noteq> [] \<Longrightarrow> \<forall>t \<in> set T. length t = n \<Longrightarrow> found n d old T nd (hd (desc n T))"
proof (induction n arbitrary: T old nd)
  case 0
  then show ?case by (simp add: found_def)
next
  case (Suc n)
  define b where "b = (branch True T \<noteq> [])"
  have t: "takes d (Suc n) (hd old) T = b"
    using Suc.prems(1,2) branch_some [of T] by (auto simp: takes_def b_def forks_def)
  have ne: "branch b T \<noteq> []" using branch_some [OF Suc.prems(2)] by (cases b) (auto simp: b_def)
  have h: "hd (desc (Suc n) T) = b # hd (desc n (branch b T))"
    using ne desc_empty [OF branch_length [OF Suc.prems(3)], of True]
      desc_empty [OF branch_length [OF Suc.prems(3)], of False]
    by (cases b) (simp_all add: b_def hd_map hd_append)
  show ?case
    unfolding h
    by (rule found_Suc [OF t]) (use Suc ne branch_length [OF Suc.prems(3)] in simp)
qed


text \<open>The identifiers of a list are found one after the other, and the last one is known to be it.\<close>

fun follows :: "nat \<Rightarrow> bool list list \<Rightarrow> bool list \<Rightarrow> bool list list \<Rightarrow> bool" where
  "follows n T p [] \<longleftrightarrow> lastd n T p = 0"
| "follows n T p (y # ys) \<longleftrightarrow>
     lastd n T p \<noteq> 0 \<and> (\<forall>nd. found n (lastd n T p) p T nd y) \<and> follows n T y ys"

lemma follows_low:
  assumes "branch False T \<noteq> []"
  shows "follows n (branch False T) p ys \<Longrightarrow> follows (Suc n) T (False # p) (map ((#) False) ys)"
proof (induction ys arbitrary: p)
  case (Cons y ys)
  let ?d = "lastd n (branch False T) p"
  have "takes ?d (Suc n) False T = False"
    using assms lastd_le [of n "branch False T" p] by (simp add: takes_def)
  then have "found (Suc n) ?d (False # p) T nd (False # y)" for nd
    using Cons.prems by (intro found_Suc) simp_all
  then show ?case using Cons by (simp add: Let_def)
qed simp

lemma follows_high:
  assumes "branch True T \<noteq> []"
    and zs: "if forks T then zs \<noteq> [] \<and> follows (Suc n) T (hd zs) (tl zs) \<and>
       (\<forall>nd old. found n (Suc n) old (branch False T) nd (tl (hd zs))) \<and> hd zs = False # tl (hd zs)
      else zs = []"
  shows "follows n (branch True T) p ys \<Longrightarrow> follows (Suc n) T (True # p) (map ((#) True) ys @ zs)"
proof (induction ys arbitrary: p)
  case Nil
  show ?case
  proof (cases "forks T")
    case False
    then show ?thesis using Nil zs by simp
  next
    case True
    then obtain z r where z: "zs = (False # z) # r" using zs by (cases zs) (metis list.sel(1), auto)
    have t: "takes (Suc n) (Suc n) True T = False" using True by (simp add: takes_def)
    have "found (Suc n) (Suc n) (True # p) T nd (False # z)" for nd
      using True zs t by (intro found_Suc) (simp_all add: z)
    then show ?thesis using Nil True zs by (simp add: z)
  qed
next
  case (Cons y ys)
  let ?d = "lastd n (branch True T) p"
  have "takes ?d (Suc n) True T = True"
    using assms(1) lastd_le [of n "branch True T" p] by (auto simp: takes_def forks_def)
  then have "found (Suc n) ?d (True # p) T nd (True # y)" for nd
    using Cons.prems by (intro found_Suc) simp_all
  then show ?case using Cons by (simp add: Let_def)
qed

lemma follows_desc:
  "T \<noteq> [] \<Longrightarrow> \<forall>t \<in> set T. length t = n \<Longrightarrow> follows n T (hd (desc n T)) (tl (desc n T))"
proof (induction n arbitrary: T)
  case (Suc n)
  note l = branch_length [OF Suc.prems(2)]
  have e: "desc n (branch b T) = [] \<longleftrightarrow> branch b T = []" for b using desc_empty [OF l] .
  have f: "follows n (branch b T) (hd (desc n (branch b T))) (tl (desc n (branch b T)))"
    if "branch b T \<noteq> []" for b using Suc.IH [OF that l] .
  have low: "follows (Suc n) T (False # hd (desc n (branch False T))) (map ((#) False) (tl (desc n (branch False T))))"
    if "branch False T \<noteq> []" using follows_low [OF that f [OF that]] .
  show ?case
  proof (cases "branch True T = []")
    case True
    then have "branch False T \<noteq> []" using branch_some [OF Suc.prems(1)] by simp
    then show ?thesis using low e [of True] e [of False] True by (simp add: hd_map map_tl)
  next
    case high: False
    let ?zs = "map ((#) False) (desc n (branch False T))"
    have "if forks T then ?zs \<noteq> [] \<and> follows (Suc n) T (hd ?zs) (tl ?zs) \<and>
       (\<forall>nd old. found n (Suc n) old (branch False T) nd (tl (hd ?zs))) \<and> hd ?zs = False # tl (hd ?zs)
      else ?zs = []"
    proof (cases "forks T")
      case True
      then have b: "branch False T \<noteq> []" by (simp add: forks_def)
      then show ?thesis
        using True low e [of False] walk_first [OF _ b l, of "Suc n"] by (simp add: hd_map map_tl)
    next
      case False
      then show ?thesis using high e [of False] by (simp add: forks_def)
    qed
    from follows_high [OF high this f [OF high]] show ?thesis
      using high e [of True] by (simp add: hd_append hd_map map_tl tl_append2)
  qed
qed simp


lemma walk_old: "take j old = take j old' \<Longrightarrow> walk j d n old T nd = walk j d n old' T nd"
proof (induction j arbitrary: n old old' T nd)
  case (Suc j)
  have "takes d n (hd old) T = takes d n (hd old') T" "take j (tl old) = take j (tl old')"
    using Suc.prems by (cases old; cases old'; simp)+
  then show ?case using Suc.IH [of "tl old" "tl old'"] by simp
qed simp

lemma walk_add:
  "walk (a + b) d n old T nd =
     (let (r, T', nd') = walk a d n old T nd; (r', T'', nd'') = walk b d (n - a) (drop a old) T' nd'
      in (r @ r', T'', nd''))"
  by (induction a arbitrary: n old T nd) (simp_all add: Let_def drop_Suc split: prod.splits)

section \<open>The bytes of an identifier\<close>

definition bits8 :: "u8 \<Rightarrow> bool list" where
  "bits8 x = map (bit x) [0..<8]"

definition rom_bits :: "u8 list \<Rightarrow> bool list" where
  "rom_bits xs = concat (map bits8 xs)"

lemma bits8_simps [simp]: "length (bits8 x) = 8" "bits8 x \<noteq> []" "hd (bits8 x) = bit x 0"
  by (simp_all add: bits8_def upt_conv_Cons)

lemma bits8_inj: "bits8 x = bits8 y \<longleftrightarrow> x = y"
proof
  assume e: "bits8 x = bits8 y"
  show "x = y"
  proof (rule bit_word_eqI)
    fix n assume "n < LENGTH(8)"
    then have n: "n < length [0..<8]" "[0..<8] ! n = n" by simp_all
    have "bits8 x ! n = bits8 y ! n" using e by simp
    then show "bit x n = bit y n" using n by (simp add: bits8_def)
  qed
qed simp

lemma bits8_shift: "bits8 (if b then drop_bit 1 x OR 0x80 else drop_bit 1 x) = tl (bits8 x) @ [b]"
proof -
  have 80: "bit (0x80 :: u8) n = (n = 7)" if "n < 8" for n
    using that by (auto simp: less_Suc_eq numeral_eq_Suc bit_numeral_rec)
  have "\<not> bit x 8" using bit_imp_le_length [of x 8] by auto
  then show ?thesis
    by (simp add: bits8_def upt_conv_Cons bit_or_iff bit_drop_bit_eq 80, simp add: numeral_eq_Suc)
qed

lemma rom_bits_simps [simp]: "rom_bits [] = []" "rom_bits (x # xs) = bits8 x @ rom_bits xs"
  by (simp_all add: rom_bits_def)

lemma rom_bits_length [simp]: "length (rom_bits xs) = 8 * length xs"
  by (induction xs) simp_all

lemma rom_bits_inj: "length xs = length ys \<Longrightarrow> rom_bits xs = rom_bits ys \<longleftrightarrow> xs = ys"
  by (induction xs ys rule: list_induct2) (simp_all add: bits8_inj)


section \<open>The bus\<close>

text \<open>
  What the data sheets of 1-Wire sensors promise of a reset and of the bit slots of a search,
  for sensors with the identifiers \<open>roms\<close>: without a sensor nobody answers a reset; after a
  reset and the search command all take part; the first read slot of a bit gives the AND of their
  bits, the second that of the complements, and the written bit selects those that go on.
\<close>

locale rom_bus =
  fixes wr :: "'w onewire" and roms :: "u8 list list"
    and searching :: "bool list list \<Rightarrow> 'w \<Rightarrow> bool"
  assumes rom_length: "r \<in> set roms \<Longrightarrow> length r = 8"
    and absent: "roms = [] \<Longrightarrow> fst (ow_reset wr w)"
    and present: "roms \<noteq> [] \<Longrightarrow> \<not> fst (ow_reset wr w) \<and>
      searching (map rom_bits roms) (snd (ow_write_byte wr SEARCH_ROM (snd (ow_reset wr w))))"
    and bit_slots: "searching T w \<Longrightarrow> T \<noteq> [] \<Longrightarrow> [] \<notin> set T \<Longrightarrow>
      fst (ow_bit_io wr True w) = (\<forall>t \<in> set T. hd t) \<and>
      fst (ow_bit_io wr True (snd (ow_bit_io wr True w))) = (\<forall>t \<in> set T. \<not> hd t) \<and>
      searching (branch b T) (snd (ow_bit_io wr b (snd (ow_bit_io wr True (snd (ow_bit_io wr True w))))))"
begin

lemma search_step:
  assumes "searching T w" and "T \<noteq> []" and "[] \<notin> set T"
    and b_def: "b = takes (unat diff) (unat i) (bit x 0) T"
  shows "\<exists>w'. searching (branch b T) w' \<and> branch b T \<noteq> [] \<and>
    search_bits wr (Suc j) diff x i nd w =
      search_bits wr j diff (if b then drop_bit 1 x OR 0x80 else drop_bit 1 x) (i - 1)
        (if forks T \<and> b then i else nd) w'"
proof -
  obtain r1 w1 where 1: "ow_bit_io wr True w = (r1, w1)" by fastforce
  obtain r2 w2 where 2: "ow_bit_io wr True w1 = (r2, w2)" by fastforce
  note s = bit_slots [OF assms(1-3)]
  have r: "r1 = (\<forall>t \<in> set T. hd t)" "r2 = (\<forall>t \<in> set T. \<not> hd t)"
    "searching (branch c T) (snd (ow_bit_io wr c w2))" for c
    using s [of c] 1 2 by simp_all
  have br: "branch True T = [] \<longleftrightarrow> r2" "branch False T = [] \<longleftrightarrow> r1"
    unfolding r by (auto simp: branch_def filter_empty_conv)
  have ne: "\<not> (r2 \<and> r1)" using br branch_some [OF assms(2)] by simp
  have bb: "(r1 \<or> \<not> r2 \<and> \<not> r1 \<and> (diff > i \<or> bit x 0 \<and> diff \<noteq> i)) = b"
    using br ne by (auto simp: b_def takes_def forks_def word_less_nat_alt word_unat_eq_iff)
  have nd: "(\<not> r2 \<and> \<not> r1 \<and> (diff > i \<or> bit x 0 \<and> diff \<noteq> i)) = (forks T \<and> b)"
    using br ne by (auto simp: b_def takes_def forks_def word_less_nat_alt word_unat_eq_iff)
  have "branch b T \<noteq> []"
    using br ne by (cases b) (auto simp: b_def takes_def forks_def split: if_splits)
  moreover have "search_bits wr (Suc j) diff x i nd w =
      search_bits wr j diff (if b then drop_bit 1 x OR 0x80 else drop_bit 1 x) (i - 1)
        (if forks T \<and> b then i else nd) (snd (ow_bit_io wr b w2))"
    using ne unfolding search_bits.simps 1 2 prod.case Let_def nd bb [unfolded nd] by auto
  ultimately show ?thesis using r(3) [of b] by blast
qed

lemma search_bits_walk:
  assumes "searching T w" and "T \<noteq> []" and "\<forall>t \<in> set T. length t = m"
    and "j \<le> m" and "j \<le> 8" and "j \<le> unat i"
    and "walk j (unat diff) (unat i) (bits8 x) T (unat nd) = (r, T', nd')"
  shows "\<exists>x' w'. search_bits wr j diff x i nd w = Inr (x', i - of_nat j, of_nat nd', w') \<and>
    bits8 x' = drop j (bits8 x) @ r \<and> searching T' w' \<and> T' \<noteq> [] \<and> (\<forall>t \<in> set T'. length t = m - j) \<and>
    nd' < 256"
  using assms
proof (induction j arbitrary: T w m i x nd r)
  case 0
  then show ?case using unat_u8_le [of nd] by auto
next
  case (Suc j)
  let ?b = "takes (unat diff) (unat i) (bit x 0) T"
  let ?x = "if ?b then drop_bit 1 x OR 0x80 else drop_bit 1 x"
  let ?nd = "if forks T \<and> ?b then i else nd"
  have "i \<noteq> 0" using Suc.prems(6) by auto
  then have i: "unat (i - 1) = unat i - 1" by (rule unat_dec)
  obtain m' where m: "m = Suc m'" using Suc.prems(4) by (cases m) auto
  have "[] \<notin> set T" using Suc.prems(3) m by auto
  from search_step [OF Suc.prems(1,2) this refl, of diff i x j nd]
  obtain w' where w': "searching (branch ?b T) w'" "branch ?b T \<noteq> []"
    "search_bits wr (Suc j) diff x i nd w = search_bits wr j diff ?x (i - 1) ?nd w'" by blast
  have l: "\<forall>t \<in> set (branch ?b T). length t = m'" using branch_length Suc.prems(3) m by blast
  have o1: "take j (bits8 ?x) = take j (tl (bits8 x))"
    unfolding bits8_shift using Suc.prems(5) by simp
  have nd: "unat ?nd = (if forks T \<and> ?b then unat i else unat nd)" by simp
  obtain r0 where r: "walk j (unat diff) (unat (i - 1)) (bits8 ?x) (branch ?b T) (unat ?nd) = (r0, T', nd')" "r = ?b # r0"
    using Suc.prems(7) unfolding walk_old [OF o1] i nd by (auto simp: Let_def split: prod.splits)
  have "j \<le> m'" "j \<le> 8" "j \<le> unat (i - 1)" using Suc.prems(4-6) m i by auto
  from Suc.IH [OF w'(1,2) l this r(1)]
  obtain x' w'' where e: "search_bits wr j diff ?x (i - 1) ?nd w' = Inr (x', i - 1 - of_nat j, of_nat nd', w'')"
    "bits8 x' = drop j (bits8 ?x) @ r0" "searching T' w''" "T' \<noteq> []" "\<forall>t \<in> set T'. length t = m' - j" "nd' < 256"
    by blast
  have "drop j (bits8 ?x) = drop (Suc j) (bits8 x) @ [?b]"
    unfolding bits8_shift using Suc.prems(5) by (simp add: drop_Suc)
  then show ?case using e w'(3) r(2) by (auto simp: m algebra_simps)
qed

lemma search_bytes_walk:
  assumes "searching T w" and "T \<noteq> []" and "\<forall>t \<in> set T. length t = m"
    and "8 * length xs \<le> m" and "8 * length xs \<le> unat i" and "nd < 256"
    and "walk (8 * length xs) (unat diff) (unat i) (rom_bits xs) T nd = (r, T', nd')"
  shows "\<exists>xs' w'. search_bytes wr diff xs i (of_nat nd) w = Inr (xs', of_nat nd', w') \<and>
    rom_bits xs' = r \<and> length xs' = length xs"
  using assms
proof (induction xs arbitrary: T w m i nd r)
  case (Cons x xs)
  obtain r1 T1 nd1 where 1: "walk 8 (unat diff) (unat i) (bits8 x) T nd = (r1, T1, nd1)"
    by (cases "walk 8 (unat diff) (unat i) (bits8 x) T nd")
  have o: "take 8 (rom_bits (x # xs)) = take 8 (bits8 x)" "drop 8 (rom_bits (x # xs)) = rom_bits xs" by simp_all
  have n: "8 * length (x # xs) = 8 + 8 * length xs" by simp
  obtain r2 where 2: "walk (8 * length xs) (unat diff) (unat i - 8) (rom_bits xs) T1 nd1 = (r2, T', nd')" "r = r1 @ r2"
    using Cons.prems(7) unfolding n walk_add walk_old [OF o(1)] 1 o(2) prod.case Let_def
    by (auto split: prod.splits)
  have u: "unat (of_nat nd :: u8) = nd" using Cons.prems(6) by (simp add: unat_of_nat_u8)
  have le: "8 \<le> m" "8 \<le> unat i" using Cons.prems(4,5) by simp_all
  from search_bits_walk [OF Cons.prems(1-3) le(1) order.refl le(2), of diff x "of_nat nd"] 1 u
  obtain x' w' where b: "search_bits wr 8 diff x i (of_nat nd) w = Inr (x', i - 8, of_nat nd1, w')"
    "bits8 x' = r1" "searching T1 w'" "T1 \<noteq> []" "\<forall>t \<in> set T1. length t = m - 8" "nd1 < 256"
    by auto
  have i: "unat (i - 8) = unat i - 8"
    using le(2) by (simp add: unat_sub word_le_nat_alt)
  have "8 * length xs \<le> m - 8" "8 * length xs \<le> unat (i - 8)" using Cons.prems(4,5) i by simp_all
  from Cons.IH [OF b(3-5) this b(6)] 2(1) i
  obtain xs' w'' where "search_bytes wr diff xs (i - 8) (of_nat nd1) w' = Inr (xs', of_nat nd', w'')"
    "rom_bits xs' = r2" "length xs' = length xs" by auto
  then show ?case using b(1,2) 2(2) by (intro exI [of _ "x' # xs'"] exI [of _ w'']) simp
qed simp

abbreviation tree :: "bool list list" where "tree \<equiv> map rom_bits roms"

lemma tree_length: "\<forall>t \<in> set tree. length t = 64"
  using rom_length by auto

lemma rom_search_found:
  assumes "roms \<noteq> []" and "found 64 d (rom_bits ident) tree 0 y" and "length ident = 8" and "d < 256"
  shows "\<exists>ident' w'. ow_rom_search wr (of_nat d) ident w = (of_nat (lastd 64 tree y), ident', w') \<and>
    rom_bits ident' = y \<and> length ident' = 8"
proof -
  obtain T' where w: "walk 64 d 64 (rom_bits ident) tree 0 = (y, T', lastd 64 tree y)"
    using assms(2) by (auto simp: found_def split: if_splits)
  obtain e w1 where e: "ow_reset wr w = (e, w1)" by fastforce
  have p: "\<not> e" "searching tree (snd (ow_write_byte wr SEARCH_ROM w1))"
    using present [OF assms(1), of w] by (simp_all add: e)
  have u: "unat (of_nat d :: u8) = d" using assms(4) by (simp add: unat_of_nat_u8)
  have "walk (8 * length ident) (unat (of_nat d :: u8)) (unat (64 :: u8)) (rom_bits ident) tree 0 =
      (y, T', lastd 64 tree y)"
    using w u assms(3) by simp
  moreover have "tree \<noteq> []" "8 * length ident \<le> 64" "8 * length ident \<le> unat (64 :: u8)" using assms by simp_all
  ultimately show ?thesis
    using search_bytes_walk [OF p(2) _ tree_length, of ident 64 0 "of_nat d"] p(1) assms(3)
    by (auto simp: ow_rom_search_def e)
qed

text \<open>The loop, from an identifier on that was just reported.\<close>

lemma discover_follows:
  assumes "roms \<noteq> []" and "follows 64 tree (rom_bits ident) ys" and "length ident = 8"
  shows "\<exists>ids w'. ow_discover_loop wr self f (of_nat (lastd 64 tree (rom_bits ident))) ident w =
    Some (concat (map (discovered self f) ids), w') \<and> map rom_bits ids = ys \<and> (\<forall>x \<in> set ids. length x = 8)"
  using assms(2,3)
proof (induction ys arbitrary: ident w)
  case Nil
  then show ?case by (subst ow_discover_loop.simps) simp
next
  case (Cons y ys)
  let ?d = "lastd 64 tree (rom_bits ident)"
  have d: "?d \<noteq> 0" "?d \<le> 64" using Cons.prems(1) lastd_le by auto
  have "found 64 ?d (rom_bits ident) tree 0 y" using Cons.prems(1) by simp
  from rom_search_found [OF assms(1) this Cons.prems(2), of w] d(2)
  obtain ident' w' where s: "ow_rom_search wr (of_nat ?d) ident w = (of_nat (lastd 64 tree y), ident', w')"
    "rom_bits ident' = y" "length ident' = 8" by auto
  have "follows 64 tree (rom_bits ident') ys" using Cons.prems(1) s(2) by simp
  from Cons.IH [OF this s(3), of w'] s(2)
  obtain ids w'' where l: "ow_discover_loop wr self f (of_nat (lastd 64 tree y)) ident' w' =
    Some (concat (map (discovered self f) ids), w'')" "map rom_bits ids = ys" "\<forall>x \<in> set ids. length x = 8"
    by auto
  have ne: "(of_nat ?d :: u8) \<noteq> 0" using d by (simp add: word_unat_eq_iff unat_of_nat_u8)
  have "lastd 64 tree y \<le> 64" by (rule lastd_le)
  then have ok: "(of_nat (lastd 64 tree y) :: u8) \<noteq> PRESENCE_ERR" "(of_nat (lastd 64 tree y) :: u8) \<noteq> DATA_ERR"
    by (simp_all add: word_unat_eq_iff unat_of_nat_u8)
  have "ow_discover_loop wr self f (of_nat ?d) ident w = Some (concat (map (discovered self f) (ident' # ids)), w'')"
    using ne ok by (subst ow_discover_loop.simps) (simp add: s(1) l(1))
  then show ?case using s l by (intro exI [of _ "ident' # ids"] exI [of _ w'']) simp
qed

lemma discover_all:
  assumes "roms \<noteq> []" and "length garbage = 8"
  shows "\<exists>ids w'. ow_discover wr self f garbage w = Some (concat (map (discovered self f) ids), w') \<and>
    map rom_bits ids = desc 64 tree \<and> (\<forall>x \<in> set ids. length x = 8)"
proof -
  have ne: "tree \<noteq> []" using assms(1) by simp
  let ?y = "hd (desc 64 tree)"
  have "found 64 255 (rom_bits garbage) tree 0 ?y" by (rule walk_first [OF _ ne tree_length]) simp
  from rom_search_found [OF assms(1) this assms(2), of w]
  obtain ident w' where s: "ow_rom_search wr 255 garbage w = (of_nat (lastd 64 tree ?y), ident, w')"
    "rom_bits ident = ?y" "length ident = 8" by auto
  have "follows 64 tree (rom_bits ident) (tl (desc 64 tree))"
    unfolding s(2) by (rule follows_desc [OF ne tree_length])
  from discover_follows [OF assms(1) this s(3), of self f w'] s(2)
  obtain ids w'' where l: "ow_discover_loop wr self f (of_nat (lastd 64 tree ?y)) ident w' =
    Some (concat (map (discovered self f) ids), w'')" "map rom_bits ids = tl (desc 64 tree)" "\<forall>x \<in> set ids. length x = 8"
    by auto
  have "lastd 64 tree ?y \<le> 64" by (rule lastd_le)
  then have ok: "(of_nat (lastd 64 tree ?y) :: u8) \<noteq> PRESENCE_ERR" "(of_nat (lastd 64 tree ?y) :: u8) \<noteq> DATA_ERR"
    by (simp_all add: word_unat_eq_iff unat_of_nat_u8)
  have "ow_discover wr self f garbage w = Some (concat (map (discovered self f) (ident # ids)), w'')"
    unfolding ow_discover_def using ok by (subst ow_discover_loop.simps) (simp add: s(1) l(1))
  moreover have "desc 64 tree \<noteq> []" using desc_empty [OF tree_length] ne by simp
  ultimately show ?thesis
    using s(2,3) l(2,3) by (intro exI [of _ "ident # ids"] exI [of _ w'']) simp
qed

lemma discover_none:
  assumes "roms = []"
  shows "\<exists>w'. ow_discover wr self f garbage w = Some (ow_error self f 3, w')"
proof -
  obtain w' where "ow_reset wr w = (True, w')" using absent [OF assms, of w] by (cases "ow_reset wr w") simp
  then show ?thesis unfolding ow_discover_def
    by (subst ow_discover_loop.simps) (simp add: ow_rom_search_def)
qed

lemma discovered_once:
  assumes "length garbage = 8"
  shows "\<exists>ids w'. distinct ids \<and> set ids = set roms \<and> ow_discover wr self f garbage w =
    Some (if roms = [] then ow_error self f 3 else concat (map (discovered self f) ids), w')"
proof (cases "roms = []")
  case True
  then show ?thesis using discover_none [of self f garbage w] by auto
next
  case False
  from discover_all [OF this assms, of self f w]
  obtain ids w' where i: "ow_discover wr self f garbage w = Some (concat (map (discovered self f) ids), w')"
    "map rom_bits ids = desc 64 tree" "\<forall>x \<in> set ids. length x = 8" by blast
  have "rom_bits ` set ids = rom_bits ` set roms"
    using set_desc [OF tree_length] i(2) by (metis set_map)
  moreover have "inj_on rom_bits {x. length x = 8}" by (rule inj_onI) (simp add: rom_bits_inj)
  ultimately have "set ids = set roms"
    using i(3) rom_length inj_on_image_eq_iff [of rom_bits "{x. length x = 8}" "set ids" "set roms"] by auto
  moreover have "distinct ids" using distinct_desc [of 64 tree] i(2) by (metis distinct_map)
  ultimately show ?thesis using False i(1) by auto
qed

end

section \<open>A simulated wire\<close>

text \<open>
  A sensor of the simulation waits, or receives a command, or is at the three slots of a bit of a
  search, with the identifiers that still take part. A slot is a short or a long low pulse.
\<close>

datatype rom_dev = Waiting | Command "bool list" | Bit_Slot "bool list list" | Complement_Slot "bool list list"
  | Select_Slot "bool list list"

fun dev_slot :: "u8 list list \<Rightarrow> bool \<Rightarrow> rom_dev \<Rightarrow> bool \<times> rom_dev" where
  "dev_slot roms b Waiting = (True, Waiting)"
| "dev_slot roms b (Command bs) =
     (True, if length bs < 7 then Command (bs @ [b])
            else if bs @ [b] = bits8 SEARCH_ROM then Bit_Slot (map rom_bits roms) else Waiting)"
| "dev_slot roms b (Bit_Slot T) = (list_all hd T, Complement_Slot T)"
| "dev_slot roms b (Complement_Slot T) = (list_all (\<lambda>t. \<not> hd t) T, Select_Slot T)"
| "dev_slot roms b (Select_Slot T) = (True, Bit_Slot (branch b T))"

text \<open>The wire: the pin drives it low, or after a release the sensors answer for a while.\<close>

datatype wire_answer = Presence | Slot bool

record wire =
  wi_out :: bool
  wi_ddr :: bool
  wi_low :: nat
  wi_since :: nat
  wi_answer :: wire_answer
  wi_dev :: rom_dev

definition wire_ddr :: "u8 list list \<Rightarrow> bool \<Rightarrow> wire \<Rightarrow> wire" where
  "wire_ddr roms b w =
     (if b = wi_ddr w then w
      else if b then w\<lparr>wi_ddr := True, wi_low := 0\<rparr>
      else
        (let w = w\<lparr>wi_ddr := False, wi_since := 0\<rparr> in
         if wi_low w \<ge> 480 then w\<lparr>wi_answer := Presence, wi_dev := Command []\<rparr>
         else
           (let (a, d) = dev_slot roms (wi_low w < 15) (wi_dev w)
            in w\<lparr>wi_answer := Slot (wi_low w \<ge> 15 \<or> a), wi_dev := d\<rparr>)))"

definition wire_in :: "u8 list list \<Rightarrow> wire \<Rightarrow> bool" where
  "wire_in roms w =
     (if wi_ddr w then wi_out w
      else
        (case wi_answer w of
           Presence \<Rightarrow> roms = [] \<or> wi_since w < 15 \<or> wi_since w > 300
         | Slot a \<Rightarrow> a \<or> wi_since w > 45))"

definition simulated :: "u8 list list \<Rightarrow> wire onewire" where
  "simulated roms =
     \<lparr>w1_out = (\<lambda>b w. w\<lparr>wi_out := b\<rparr>), w1_ddr = wire_ddr roms, w1_in = wire_in roms,
      udelay = (\<lambda>n w. if wi_ddr w then w\<lparr>wi_low := wi_low w + n\<rparr> else w\<lparr>wi_since := wi_since w + n\<rparr>)\<rparr>"

definition at_rest :: "rom_dev \<Rightarrow> wire \<Rightarrow> bool" where
  "at_rest d w \<longleftrightarrow> wi_dev w = d \<and> \<not> wi_ddr w \<and> \<not> wi_out w"

lemma simulated_sel [simp]:
  "w1_out (simulated roms) b w = w\<lparr>wi_out := b\<rparr>" "w1_ddr (simulated roms) = wire_ddr roms"
  "w1_in (simulated roms) = wire_in roms"
  "udelay (simulated roms) n w =
     (if wi_ddr w then w\<lparr>wi_low := wi_low w + n\<rparr> else w\<lparr>wi_since := wi_since w + n\<rparr>)"
  by (simp_all add: simulated_def)

lemma wire_reset:
  "fst (ow_reset (simulated roms) w) = (roms = [])"
  "at_rest (Command []) (snd (ow_reset (simulated roms) w))"
  by (cases "wi_ddr w"; simp add: ow_reset_def Let_def wire_ddr_def wire_in_def at_rest_def)+

lemma wire_slot:
  assumes "at_rest d w"
  shows "fst (ow_bit_io (simulated roms) b w) = (b \<and> fst (dev_slot roms b d))"
    and "at_rest (snd (dev_slot roms b d)) (snd (ow_bit_io (simulated roms) b w))"
  using assms
  by (cases b; simp add: ow_bit_io_def Let_def wire_ddr_def wire_in_def at_rest_def split: prod.splits)+

lemma wire_command:
  assumes "at_rest (Command bs) w" and "length bs + Suc i = 8" and "bs @ take (Suc i) (bits8 x) = bits8 SEARCH_ROM"
  shows "at_rest (Bit_Slot (map rom_bits roms)) (snd (ow_byte_loop (Suc i) (simulated roms) x w))"
  using assms
proof (induction i arbitrary: bs w x)
  case 0
  have "take 1 (bits8 x) = [bit x 0]" by (cases "bits8 x") (use bits8_simps [of x] in auto)
  then show ?case
    using wire_slot [OF 0(1), of roms "bit x 0"] 0(2,3)
    by (cases "ow_bit_io (simulated roms) (bit x 0) w") (simp add: Let_def)
next
  case (Suc i)
  obtain bt where x: "bits8 x = bit x 0 # bt" by (cases "bits8 x") (use bits8_simps [of x] in auto)
  obtain j w' where io: "ow_bit_io (simulated roms) (bit x 0) w = (j, w')" by fastforce
  note st = wire_slot [OF Suc.prems(1), of roms "bit x 0"]
  have j: "j = bit x 0" "at_rest (Command (bs @ [bit x 0])) w'"
    using st Suc.prems(2) by (simp_all add: io split: if_splits)
  let ?x = "if j then drop_bit 1 x OR 0x80 else drop_bit 1 x"
  have "length bt = 7" using x bits8_simps(1) [of x] by simp
  then have "take (Suc i) (bits8 ?x) = take (Suc i) bt"
    unfolding bits8_shift x using Suc.prems(2) by simp
  then have "bs @ [bit x 0] @ take (Suc i) (bits8 ?x) = bits8 SEARCH_ROM"
    using Suc.prems(3) x by simp
  moreover have "ow_byte_loop (Suc (Suc i)) (simulated roms) x w = ow_byte_loop (Suc i) (simulated roms) ?x w'"
    by (subst ow_byte_loop.simps(2)) (simp add: io Let_def del: ow_byte_loop.simps)
  ultimately show ?case
    using Suc.IH [OF j(2), of ?x] Suc.prems(2) by (simp del: ow_byte_loop.simps)
qed

lemma wire_search_command:
  assumes "at_rest (Command []) w"
  shows "at_rest (Bit_Slot (map rom_bits roms)) (snd (ow_write_byte (simulated roms) SEARCH_ROM w))"
  using wire_command [OF assms, of 7 SEARCH_ROM roms] by (simp add: ow_write_byte_def numeral_eq_Suc)

lemma simulated_bus:
  assumes "\<forall>r \<in> set roms. length r = 8"
  shows "rom_bus (simulated roms) roms (\<lambda>T. at_rest (Bit_Slot T))"
proof
  show "length r = 8" if "r \<in> set roms" for r using assms that by simp
  show "fst (ow_reset (simulated roms) w)" if "roms = []" for w using that by (simp add: wire_reset)
  show "\<not> fst (ow_reset (simulated roms) w) \<and> at_rest (Bit_Slot (map rom_bits roms))
      (snd (ow_write_byte (simulated roms) SEARCH_ROM (snd (ow_reset (simulated roms) w))))" if "roms \<noteq> []" for w
    using that wire_search_command [OF wire_reset(2)] by (simp add: wire_reset)
next
  fix T w b assume a: "at_rest (Bit_Slot T) w"
  note 1 = wire_slot [OF a, of roms True]
  note 2 = wire_slot [of "Complement_Slot T" "snd (ow_bit_io (simulated roms) True w)" roms True]
  note 3 = wire_slot [of "Select_Slot T" "snd (ow_bit_io (simulated roms) True (snd (ow_bit_io (simulated roms) True w)))" roms b]
  show "fst (ow_bit_io (simulated roms) True w) = (\<forall>t \<in> set T. hd t) \<and>
      fst (ow_bit_io (simulated roms) True (snd (ow_bit_io (simulated roms) True w))) = (\<forall>t \<in> set T. \<not> hd t) \<and>
      at_rest (Bit_Slot (branch b T)) (snd (ow_bit_io (simulated roms) b
        (snd (ow_bit_io (simulated roms) True (snd (ow_bit_io (simulated roms) True w))))))"
    using 1 2 3 by (simp add: list_all_iff)
qed

text \<open>In particular for any list of identifiers, of which those with eight bytes are sensors.\<close>

definition rom_codes :: "u8 list list \<Rightarrow> u8 list list" where
  "rom_codes xs = filter (\<lambda>r. length r = 8) xs"

interpretation wire_bus: rom_bus "simulated (rom_codes roms)" "rom_codes roms" "\<lambda>T. at_rest (Bit_Slot T)" for roms
  by (rule simulated_bus) (simp add: rom_codes_def)

text \<open>
  Property C36. The search for sensors ends and reports every sensor on the wire exactly once: with
  no sensor it sends the error 3, otherwise the two frames of each identifier, whatever the
  buffer for the identifier held before and whatever state the wire is in.
\<close>

theorem discover_reports_every_sensor:
  assumes "rom_bus wr roms searching" and "length garbage = 8"
  shows "\<exists>ids w'. distinct ids \<and> set ids = set roms \<and> ow_discover wr self f garbage w =
    Some (if roms = [] then ow_error self f 3 else concat (map (discovered self f) ids), w')"
  using assms by (rule rom_bus.discovered_once)

definition two_sensors :: "u8 list list" where
  "two_sensors = [[0x10, 1, 2, 3, 4, 5, 6, 0xFF], [0x10, 1, 2, 0x83, 4, 5, 6, 0x7F]]"

theorem discover_reports_every_sensor_witness:
  "\<exists>ids w'. distinct ids \<and> set ids = set two_sensors \<and> ow_discover (simulated two_sensors) 7 (hes_message 9 7 [1]) (replicate 8 0)
      \<lparr>wi_out = True, wi_ddr = False, wi_low = 0, wi_since = 0, wi_answer = Slot True, wi_dev = Waiting\<rparr> =
    Some (concat (map (discovered 7 (hes_message 9 7 [1])) ids), w')"
proof -
  have "\<forall>r \<in> set two_sensors. length r = 8" by (simp add: two_sensors_def)
  from discover_reports_every_sensor [OF simulated_bus [OF this], of "replicate 8 0"] show ?thesis
    by (simp add: two_sensors_def)
qed

end
