(* ===== verification/Temp_Sensor.thy ===== *)
theory Temp_Sensor
  imports Onewire Canix_Services
begin

text \<open>
  The temperature sensor, \<^verbatim>\<open>src/firmwares/controllerboard/devices/tempsensor.c\<close>: a
  DS18B20 or DS18S20 on a 1-Wire bus, addressed by the identifier its configuration holds as a
  text, measured in regular intervals. The buses of the pins are the parameter
  \<open>te_wires\<close> on one state of the wires.
\<close>

section \<open>State\<close>

text \<open>\<open>c_ow_id\<close> is the text of the identifier before its terminator.\<close>

record tempsensor_config =
  c_io_pin :: u8
  c_gruppe :: u8
  c_modus :: u8
  c_interval :: u8
  c_ow_id :: "u8 list"

record device_data_tempsensor =
  config :: tempsensor_config
  timer_counter :: u8
  convert_sent :: bool
  temperature :: u16

text \<open>
  The environment: the own address, the syslog level and the formatted text of an error, the
  controller, the buses; and the state: the device, the pin of the 1-Wire functions, the wires.
\<close>

record 'w temp_env =
  te_self :: u16
  te_level :: u8
  te_text :: "u8 list"
  te_mcu :: ow_board
  te_wires :: "u8 \<Rightarrow> 'w onewire"

type_synonym 'w temp_state = "device_data_tempsensor \<times> u8 \<times> 'w"


definition tempsensor_init :: "'w temp_env \<Rightarrow> 'w temp_state \<Rightarrow> 'w temp_state" where
  "tempsensor_init e st =
     (let (p, pin, w) = st in
      (p\<lparr>convert_sent := False, timer_counter := push_bit 2 (c_gruppe (config p)) AND 0x3f, temperature := 0\<rparr>,
       pin, snd (ow_reset (te_wires e pin) w)))"

section \<open>The identifier\<close>

text \<open>
  The value \<open>v\<close> of the last byte is kept where a character is no hexadecimal digit: the first
  digit sets the byte, the second is added to it.
\<close>

definition high_digit :: "u8 \<Rightarrow> u8 \<Rightarrow> u8" where
  "high_digit v c =
     (let v = (if 97 \<le> c \<and> c \<le> 102 then push_bit 4 (c - 97 + 10) else v)
      in if 48 \<le> c \<and> c \<le> 57 then push_bit 4 (c - 48) else v)"

definition low_digit :: "u8 \<Rightarrow> u8 \<Rightarrow> u8" where
  "low_digit v c =
     (let v = (if 97 \<le> c \<and> c \<le> 102 then v OR (c - 97 + 10) else v)
      in if 48 \<le> c \<and> c \<le> 57 then v OR (c - 48) else v)"

text \<open>The loop over the bytes, on the rest of the text; \<open>None\<close> is the error.\<close>

fun str2id_loop :: "nat \<Rightarrow> u8 \<Rightarrow> u8 list \<Rightarrow> u8 list option" where
  "str2id_loop 0 v s = Some []"
| "str2id_loop (Suc n) v s =
     (let a = nth_default 0 s 0; b = nth_default 0 s 1 in
      if a = 0 \<or> b = 0 then None
      else
        (let v = low_digit (high_digit v a) b
         in map_option ((#) v) (str2id_loop n v (drop 2 s))))"

definition tempsensor_str2id :: "u8 list \<Rightarrow> u8 list option" where
  "tempsensor_str2id s = str2id_loop 8 0 s"

section \<open>The handlers\<close>

definition temperature_reply :: "device_data_tempsensor \<Rightarrow> u8 \<Rightarrow> u8 list" where
  "temperature_reply p cmd = [cmd, c_gruppe (config p), hi8 (temperature p), lo8 (temperature p)]"

text \<open>
  The temperature from the first two bytes of the scratch pad, in sixteenths of a degree; the
  DS18S20 needs six more. The two reads of the first expression are in the order the code relies
  on.
\<close>

definition read_temperature :: "'w onewire \<Rightarrow> u8 list \<Rightarrow> 'w \<Rightarrow> u16 \<times> 'w" where
  "read_temperature wr ident w =
     (let (lo, w) = ow_read_byte wr w; (hi, w) = ow_read_byte wr w; t = mk16 hi lo in
      if hd ident = 0x10 then
        (let t = push_bit 4 (signed_drop_bit 1 t);
             (_, w) = ow_read_byte wr w; (_, w) = ow_read_byte wr w;
             (_, w) = ow_read_byte wr w; (_, w) = ow_read_byte wr w;
             (count_remain, w) = ow_read_byte wr w; (count_per_C, w) = ow_read_byte wr w
         in (t - 4 + (ucast count_per_C - ucast count_remain), w))
      else (t, w))"

text \<open>The handler; on an invalid identifier it returns at once, with the pin it has set.\<close>

definition tempsensor_timer_handler ::
  "'w temp_env \<Rightarrow> 'w temp_state \<Rightarrow> u8 \<Rightarrow> 'w temp_state \<times> out list" where
  "tempsensor_timer_handler e st zyklus =
     (let (p, pin, w) = st in
      if zyklus \<noteq> 1 then (st, [])
      else
        (let old = ow_getpin (te_mcu e) pin; pin = ow_setpin (te_mcu e) (c_io_pin (config p));
             wr = te_wires e pin; ident = tempsensor_str2id (c_ow_id (config p));
             err = canix_syslog_P (te_level e) (te_self e) SYSLOG_PRIO_ERROR (te_text e) in
         if timer_counter p = 2 \<and> c_modus (config p) \<noteq> 0 \<and> ident = None then ((p, pin, w), err)
         else
           (let (p, w) = (if timer_counter p = 2 \<and> c_modus (config p) \<noteq> 0
                          then (p\<lparr>convert_sent := True\<rparr>, ow_command wr CONVERT_T ident w) else (p, w)) in
            if timer_counter p = 0 \<and> convert_sent p then
              (case ident of
                 None \<Rightarrow> ((p\<lparr>convert_sent := False\<rparr>, pin, w), err)
               | Some bs \<Rightarrow>
                   (let w = ow_command wr READ_SCRATCH ident w; (t, w) = read_temperature wr bs w;
                        p = p\<lparr>convert_sent := False, temperature := t\<rparr>;
                        os = [send_low (hes_message (te_self e) HCAN_MULTICAST_INFO
                                (temperature_reply p HCAN_HES_1WIRE_TEMPERATURE))]
                    in ((p\<lparr>timer_counter := c_interval (config p) - 1\<rparr>, ow_setpin (te_mcu e) old, w), os)))
            else ((p\<lparr>timer_counter := timer_counter p - 1\<rparr>, ow_setpin (te_mcu e) old, w), []))))"

definition tempsensor_can_callback ::
  "'w temp_env \<Rightarrow> 'w temp_state \<Rightarrow> canix_frame \<Rightarrow> 'w temp_state \<times> out list" where
  "tempsensor_can_callback e st f =
     (let p = fst st; cmd = byte_at f 1; g = c_gruppe (config p); self = te_self e in
      if g = byte_at f 2 then
        (if cmd = HCAN_HES_1WIRE_TEMPERATURE_QUERY
         then (st, [send_low (hes_answer self f (temperature_reply p HCAN_HES_1WIRE_TEMPERATURE_REPLAY))])
         else if cmd = HCAN_HES_1WIRE_TEMPERATURE_CONFIG_RQ
         then (st, [send_low (hes_answer self f [HCAN_HES_1WIRE_TEMPERATURE_CONFIG_REPLAY, g])])
         else (st, []))
      else if cmd = HCAN_HES_DEVICE_STATES_REQUEST then
        (if g \<noteq> 255
         then (st, [Sleep 10, send_low (hes_answer self f (temperature_reply p HCAN_HES_1WIRE_TEMPERATURE_REPLAY))])
         else (st, []))
      else if cmd = HCAN_HES_DEVICES_CONFIGS_REQUEST then
        (if g \<noteq> 255
         then (st, [Sleep 10, send_low (hes_answer self f [HCAN_HES_1WIRE_TEMPERATURE_CONFIG_REPLAY, g])])
         else (st, []))
      else (st, []))"

section \<open>The contract\<close>

lemma syslog_sendable: "fr \<in> set (sent_frames (canix_syslog_P l self prio s)) \<Longrightarrow> sendable_frame fr"
  using syslog_loop_frames [of "[prio]" fr self "take 125 s @ [10]"]
  by (auto simp: canix_syslog_P_def split: if_splits)

lemma tempsensor_sendable:
  "fr \<in> set (sent_frames (snd (tempsensor_can_callback e st f))) \<Longrightarrow> sendable_frame fr"
  "fr \<in> set (sent_frames (snd (tempsensor_timer_handler e st z))) \<Longrightarrow> sendable_frame fr"
   apply (auto simp: tempsensor_can_callback_def temperature_reply_def hes_answer_def Let_def split: if_splits)[1]
  using syslog_sendable [of fr "te_level e" "te_self e" SYSLOG_PRIO_ERROR "te_text e"]
  by (auto simp: tempsensor_timer_handler_def temperature_reply_def Let_def
      split: if_splits prod.splits option.splits)

interpretation tempsensor_dev: hes_device "\<lambda>_. True" "\<lambda>_. True" tempsensor_can_callback tempsensor_timer_handler
  by unfold_locales (auto intro: tempsensor_sendable)

section \<open>Text and identifier\<close>

definition hex_digit :: "u8 \<Rightarrow> u8" where
  "hex_digit n = (if n < 10 then 48 + n else 87 + n)"

definition hex_text :: "u8 list \<Rightarrow> u8 list" where
  "hex_text bs = concat (map (\<lambda>b. [hex_digit (drop_bit 4 b), hex_digit (b AND 15)]) bs)"

text \<open>A statement about nibbles is checked for each of them.\<close>

lemma nibble_rule:
  assumes "list_all (\<lambda>k. P (of_nat k)) [0..<16]" and "(n :: u8) < 16"
  shows "P n"
proof -
  have "unat n \<in> set [0..<16]" using assms(2) by (simp add: word_less_nat_alt)
  then have "P (of_nat (unat n))" using assms(1) by (simp only: list_all_iff)
  then show ?thesis by simp
qed

lemma high_digit_hex: "(n :: u8) < 16 \<Longrightarrow> high_digit v (hex_digit n) = push_bit 4 n"
  by (rule nibble_rule [where P = "\<lambda>n. high_digit v (hex_digit n) = push_bit 4 n"])
    (simp_all add: upt_conv_Cons high_digit_def hex_digit_def Let_def)

lemma low_digit_hex: "(n :: u8) < 16 \<Longrightarrow> low_digit v (hex_digit n) = v OR n"
  by (rule nibble_rule [where P = "\<lambda>n. low_digit v (hex_digit n) = v OR n"])
    (simp_all add: upt_conv_Cons low_digit_def hex_digit_def Let_def)

lemma hex_digit_not_end: "(n :: u8) < 16 \<Longrightarrow> hex_digit n \<noteq> 0"
  by (rule nibble_rule [where P = "\<lambda>n. hex_digit n \<noteq> 0"]) (simp_all add: upt_conv_Cons hex_digit_def)

lemma nibbles: "drop_bit 4 (b :: u8) < 16" "(b AND 15) < (16 :: u8)"
proof -
  have "unat b div 16 < 16" using unat_u8_less [of b] by linarith
  then show "drop_bit 4 b < 16" by (simp add: word_less_nat_alt drop_bit_eq_div unat_div)
  have "b AND 15 \<le> 15" by (rule word_and_le1)
  then show "(b AND 15) < 16" by (simp add: word_less_nat_alt word_le_nat_alt)
qed

lemma nibbles_join: "push_bit 4 (drop_bit 4 b) OR (b AND 15) = (b :: u8)"
proof -
  have 15: "(15 :: u8) = mask 4" by (simp add: mask_eq_exp_minus_1)
  show ?thesis unfolding 15 by (rule bit_word_eqI) (auto simp: bit_simps)
qed

lemma str2id_hex: "str2id_loop (length bs) v (hex_text bs) = Some bs"
proof (induction bs arbitrary: v)
  case (Cons b bs)
  have "hex_text (b # bs) = hex_digit (drop_bit 4 b) # hex_digit (b AND 15) # hex_text bs" by (simp add: hex_text_def)
  then show ?case using Cons.IH
    by (simp add: high_digit_hex low_digit_hex hex_digit_not_end nibbles nibbles_join Let_def)
qed simp

lemma str2id_hex8: "length bs = 8 \<Longrightarrow> tempsensor_str2id (hex_text bs) = Some bs"
  using str2id_hex [of bs 0] by (simp add: tempsensor_str2id_def)

text \<open>
  The text of an identifier, its eight bytes in lower case hexadecimal digits, is
  read back as this identifier.
\<close>

theorem sensor_id_roundtrip:
  assumes "length ident = 8"
  shows "tempsensor_str2id (hex_text ident) = Some ident"
  using assms by (rule str2id_hex8)

theorem sensor_id_roundtrip_witness:
  "tempsensor_str2id (hex_text [0x10, 0xAB, 2, 3, 4, 0x5F, 6, 0xFF]) = Some [0x10, 0xAB, 2, 3, 4, 0x5F, 6, 0xFF]"
  by (rule sensor_id_roundtrip) simp

text \<open>Other characters are accepted: two of them repeat the byte before, or 0 in the first byte.\<close>

definition no_hex_digit :: "u8 \<Rightarrow> bool" where
  "no_hex_digit c \<longleftrightarrow> c \<noteq> 0 \<and> \<not> (48 \<le> c \<and> c \<le> 57) \<and> \<not> (97 \<le> c \<and> c \<le> 102)"

lemma invalid_characters_accepted:
  "no_hex_digit a \<Longrightarrow> no_hex_digit b \<Longrightarrow>
   str2id_loop (Suc n) v (a # b # s) = map_option ((#) v) (str2id_loop n v s)"
  by (auto simp: no_hex_digit_def high_digit_def low_digit_def Let_def)

section \<open>Regular measurements\<close>

fun temp_seconds :: "'w temp_env \<Rightarrow> nat \<Rightarrow> 'w temp_state \<Rightarrow> 'w temp_state \<times> out list" where
  "temp_seconds e 0 st = (st, [])"
| "temp_seconds e (Suc n) st = andthen (tempsensor_timer_handler e st 1) (temp_seconds e n)"

lemma temp_seconds_add: "temp_seconds e (m + n) st = andthen (temp_seconds e m st) (temp_seconds e n)"
  by (induction m arbitrary: st) (simp_all add: andthen_def Let_def split: prod.splits)

lemma temp_idle_tick:
  assumes "timer_counter p \<noteq> 2" and "\<not> convert_sent p \<or> timer_counter p \<noteq> 0"
  shows "\<exists>pin'. tempsensor_timer_handler e (p, pin, w) 1 = ((p\<lparr>timer_counter := timer_counter p - 1\<rparr>, pin', w), [])"
  using assms by (auto simp: tempsensor_timer_handler_def Let_def)

lemma temp_idle:
  assumes "\<not> convert_sent p" and "n \<le> unat (timer_counter p - 2)"
  shows "\<exists>pin'. temp_seconds e n (p, pin, w) = ((p\<lparr>timer_counter := timer_counter p - of_nat n\<rparr>, pin', w), [])"
  using assms
proof (induction n arbitrary: p pin)
  case (Suc n)
  have "timer_counter p - 2 \<noteq> 0" using Suc.prems(2) by auto
  then have t: "timer_counter p \<noteq> 2" "unat (timer_counter p - 2 - 1) = unat (timer_counter p - 2) - 1"
    by (simp, rule unat_dec)
  obtain pin1 where 1: "tempsensor_timer_handler e (p, pin, w) 1 = ((p\<lparr>timer_counter := timer_counter p - 1\<rparr>, pin1, w), [])"
    using temp_idle_tick [OF t(1), of e pin w] Suc.prems(1) by blast
  have "timer_counter p - 1 - 2 = timer_counter p - 2 - 1" by simp
  then have "n \<le> unat (timer_counter p - 1 - 2)" using Suc.prems(2) t(2) by simp
  then show ?case
    using Suc.IH [of "p\<lparr>timer_counter := timer_counter p - 1\<rparr>" pin1] Suc.prems(1) 1
    by (simp add: algebra_simps)
qed simp

text \<open>
  A sensor that is switched on and has a valid identifier is measured and its
  temperature sent: from any value of the counter, without a conversion under way, the handler is
  silent until its counter, wrapping around below 0, reaches 2, starts a conversion, and two
  seconds later sends the temperature it reads, at the latest in the 258th second; then it waits
  for the configured interval.
\<close>

theorem temperature_is_reported:
  assumes "tempsensor_str2id (c_ow_id (config p)) = Some ident" and "c_modus (config p) \<noteq> 0"
    and "\<not> convert_sent p"
  shows "\<exists>k \<le> 258. \<exists>t pin' w'.
    snd (temp_seconds e (k - 1) (p, pin, w)) = [] \<and>
    temp_seconds e k (p, pin, w) =
      ((p\<lparr>timer_counter := c_interval (config p) - 1, temperature := t\<rparr>, pin', w'),
       [send_low (hes_message (te_self e) HCAN_MULTICAST_INFO
          [HCAN_HES_1WIRE_TEMPERATURE, c_gruppe (config p), hi8 t, lo8 t])])"
proof -
  let ?n = "unat (timer_counter p - 2)"
  let ?wr = "te_wires e (ow_setpin (te_mcu e) (c_io_pin (config p)))"
  have z: "timer_counter p - of_nat ?n = 2" by (simp add: of_nat_unat)
  from temp_idle [OF assms(3) order.refl, of e pin w] obtain pin1 where
    1: "temp_seconds e ?n (p, pin, w) = ((p\<lparr>timer_counter := 2\<rparr>, pin1, w), [])" unfolding z by blast
  obtain pin2 where 2: "tempsensor_timer_handler e (p\<lparr>timer_counter := 2\<rparr>, pin1, w) 1 =
      ((p\<lparr>timer_counter := 1, convert_sent := True\<rparr>, pin2, ow_command ?wr CONVERT_T (Some ident) w), [])"
    (is "_ = ((_, _, ?w2), _)")
    using assms by (simp add: tempsensor_timer_handler_def Let_def)
  obtain pin3 where 3: "tempsensor_timer_handler e (p\<lparr>timer_counter := 1, convert_sent := True\<rparr>, pin2, ?w2) 1 =
      ((p\<lparr>timer_counter := 0, convert_sent := True\<rparr>, pin3, ?w2), [])"
    using temp_idle_tick [of "p\<lparr>timer_counter := 1, convert_sent := True\<rparr>" e pin2 ?w2] by auto
  obtain t w3 where t: "read_temperature ?wr ident (ow_command ?wr READ_SCRATCH (Some ident) ?w2) = (t, w3)"
    by fastforce
  have c: "p\<lparr>convert_sent := False\<rparr> = p" using assms(3) by simp
  obtain pin4 where 4: "tempsensor_timer_handler e (p\<lparr>timer_counter := 0, convert_sent := True\<rparr>, pin3, ?w2) 1 =
      ((p\<lparr>timer_counter := c_interval (config p) - 1, temperature := t\<rparr>, pin4, w3),
       [send_low (hes_message (te_self e) HCAN_MULTICAST_INFO
          [HCAN_HES_1WIRE_TEMPERATURE, c_gruppe (config p), hi8 t, lo8 t])])"
    using assms t c by (auto simp: tempsensor_timer_handler_def temperature_reply_def Let_def)
  have b: "temp_seconds e (?n + Suc (Suc 0)) (p, pin, w) =
      ((p\<lparr>timer_counter := 0, convert_sent := True\<rparr>, pin3, ?w2), [])"
    unfolding temp_seconds_add 1 by (simp add: 2 3)
  have f: "temp_seconds e (?n + Suc (Suc 0) + Suc 0) (p, pin, w) =
      ((p\<lparr>timer_counter := c_interval (config p) - 1, temperature := t\<rparr>, pin4, w3),
       [send_low (hes_message (te_self e) HCAN_MULTICAST_INFO
          [HCAN_HES_1WIRE_TEMPERATURE, c_gruppe (config p), hi8 t, lo8 t])])"
    unfolding temp_seconds_add [of e "?n + Suc (Suc 0)"] b by (simp add: 4)
  have "?n + 3 \<le> 258" using unat_u8_le [of "timer_counter p - 2"] by simp
  then show ?thesis
    using b f by (intro exI [of _ "?n + 3"] conjI exI [of _ t] exI [of _ pin4] exI [of _ w3])
      (simp_all add: numeral_3_eq_3)
qed

definition boiler_sensor :: device_data_tempsensor where
  "boiler_sensor = \<lparr>config = \<lparr>c_io_pin = 12, c_gruppe = 7, c_modus = 1, c_interval = 30,
      c_ow_id = hex_text [0x10, 1, 2, 3, 4, 5, 6, 0xFF]\<rparr>,
     timer_counter = 3, convert_sent = False, temperature = 0\<rparr>"

definition boiler_board :: "wire temp_env" where
  "boiler_board = \<lparr>te_self = 5, te_level = 0, te_text = [], te_mcu = OW_ATmega32, te_wires = (\<lambda>_. simulated two_sensors)\<rparr>"

theorem temperature_is_reported_witness:
  "\<exists>k \<le> 258. \<exists>t. sent_frames (snd (temp_seconds boiler_board k
      (boiler_sensor, 3, \<lparr>wi_out = True, wi_ddr = False, wi_low = 0, wi_since = 0, wi_answer = Slot True, wi_dev = Waiting\<rparr>))) =
    [hes_message 5 HCAN_MULTICAST_INFO [HCAN_HES_1WIRE_TEMPERATURE, 7, hi8 t, lo8 t]]"
proof -
  have "tempsensor_str2id (c_ow_id (config boiler_sensor)) = Some [0x10, 1, 2, 3, 4, 5, 6, 0xFF]"
    using str2id_hex8 by (simp add: boiler_sensor_def)
  from temperature_is_reported [OF this, of boiler_board 3
      "\<lparr>wi_out = True, wi_ddr = False, wi_low = 0, wi_since = 0, wi_answer = Slot True, wi_dev = Waiting\<rparr>"]
  obtain k t pin' w' where "k \<le> 258" "temp_seconds boiler_board k (boiler_sensor, 3,
      \<lparr>wi_out = True, wi_ddr = False, wi_low = 0, wi_since = 0, wi_answer = Slot True, wi_dev = Waiting\<rparr>) =
      ((boiler_sensor\<lparr>timer_counter := c_interval (config boiler_sensor) - 1, temperature := t\<rparr>, pin', w'),
       [send_low (hes_message (te_self boiler_board) HCAN_MULTICAST_INFO
          [HCAN_HES_1WIRE_TEMPERATURE, c_gruppe (config boiler_sensor), hi8 t, lo8 t])])"
    by (auto simp: boiler_sensor_def)
  then show ?thesis
    by (intro exI [of _ k] conjI exI [of _ t]) (simp_all add: boiler_sensor_def boiler_board_def)
qed

end
