(* ===== verification/Analog_Inputs.thy ===== *)
theory Analog_Inputs
  imports Hes_Device Canix_Services
begin

text \<open>
  The analogue inputs: the brightness sensor
  \<^verbatim>\<open>src/firmwares/controllerboard/devices/helligkeitssensor.c\<close> with its filter
  \<^verbatim>\<open>src/firmwares/controllerboard/floatingAverage.c\<close>, and the potentiometer
  \<^verbatim>\<open>src/firmwares/controllerboard/devices/poti.c\<close>. What the converter delivers for
  the input the multiplexer selects is a parameter of every call.
\<close>

section \<open>The filter\<close>

abbreviation (input) SIZE_OF_AVG :: nat where "SIZE_OF_AVG \<equiv> 30"

record tFloatAvgFilter =
  aData :: "u16 list"
  indexNextValue :: u8

definition initFloatAvg :: "u16 \<Rightarrow> tFloatAvgFilter" where
  "initFloatAvg i_DefaultValue = \<lparr>aData = replicate SIZE_OF_AVG i_DefaultValue, indexNextValue = 0\<rparr>"

definition addToFloatAvg :: "tFloatAvgFilter \<Rightarrow> u16 \<Rightarrow> tFloatAvgFilter" where
  "addToFloatAvg f v =
     f\<lparr>aData := (aData f)[unat (indexNextValue f) := v],
       indexNextValue := (indexNextValue f + 1) mod of_nat SIZE_OF_AVG\<rparr>"

text \<open>The sum is kept in 32 bits.\<close>

definition getOutputValue :: "tFloatAvgFilter \<Rightarrow> u16" where
  "getOutputValue f =
     ucast (fold (\<lambda>v tempSum. tempSum + ucast v) (aData f) (0 :: 32 word) div of_nat SIZE_OF_AVG)"

section \<open>The converter\<close>

text \<open>
  What a handler finds: the own address, the syslog level and the formatted text of an error
  message, the multiplexer register, and the result of the \<open>k\<close>-th conversion of a
  measurement with the multiplexer set to a value.
\<close>

record adc_env =
  ad_self :: u16
  ad_level :: u8
  ad_text :: "u8 list"
  ad_mux :: u8
  ad_read :: "u8 \<Rightarrow> nat \<Rightarrow> u16"

abbreviation (input) REFS0 :: nat where "REFS0 \<equiv> 6"

definition setADMUX :: "adc_env \<Rightarrow> u8 \<Rightarrow> u8 \<times> out list" where
  "setADMUX e config_port =
     (if 8 \<le> config_port \<and> config_port \<le> 15 then (push_bit REFS0 1 OR (15 - config_port), [])
      else (ad_mux e, canix_syslog_P (ad_level e) (ad_self e) SYSLOG_PRIO_ERROR (ad_text e)))"

text \<open>Conversion 0 warms the converter up, the next four are averaged in a signed 16-bit integer.\<close>

definition getADCvalue :: "adc_env \<Rightarrow> u8 \<Rightarrow> u16" where
  "getADCvalue e mux =
     signed_drop_bit 2 (ad_read e mux 1 + ad_read e mux 2 + ad_read e mux 3 + ad_read e mux 4)"

definition getADCvalue_inverted :: "adc_env \<Rightarrow> u8 \<Rightarrow> u16" where
  "getADCvalue_inverted e mux = 1023 - getADCvalue e mux"

section \<open>The brightness sensor\<close>

record analog_config =
  c_port :: u8
  c_gruppe :: u8
  c_sendCycleMins :: u8

record device_data_helligkeitssensor =
  config :: analog_config
  secsUntilNextSend :: u16
  filterBrightness :: tFloatAvgFilter

definition helligkeitssensor_init :: "device_data_helligkeitssensor \<Rightarrow> device_data_helligkeitssensor" where
  "helligkeitssensor_init p =
     p\<lparr>secsUntilNextSend := 60 * ucast (c_sendCycleMins (config p)), filterBrightness := initFloatAvg 511\<rparr>"

definition helligkeitssensor_can_callback ::
  "adc_env \<Rightarrow> device_data_helligkeitssensor \<Rightarrow> canix_frame \<Rightarrow> device_data_helligkeitssensor \<times> out list" where
  "helligkeitssensor_can_callback e p f = (p, [])"

definition helligkeit_info :: "u16 \<Rightarrow> device_data_helligkeitssensor \<Rightarrow> u16 \<Rightarrow> out" where
  "helligkeit_info self p v =
     send_low (hes_message self HCAN_MULTICAST_CONTROL [HCAN_HES_HELLIGKEITS_INFO, c_gruppe (config p), hi8 v, lo8 v])"

definition helligkeitssensor_timer_handler ::
  "adc_env \<Rightarrow> device_data_helligkeitssensor \<Rightarrow> u8 \<Rightarrow> device_data_helligkeitssensor \<times> out list" where
  "helligkeitssensor_timer_handler e p zyklus =
     (if zyklus \<noteq> 1 then (p, [])
      else if secsUntilNextSend p \<noteq> 0 then
        (let p = p\<lparr>secsUntilNextSend := secsUntilNextSend p - 1\<rparr> in
         if secsUntilNextSend p \<le> of_nat SIZE_OF_AVG then
           (let (mux, os) = setADMUX e (c_port (config p))
            in (p\<lparr>filterBrightness := addToFloatAvg (filterBrightness p) (getADCvalue_inverted e mux)\<rparr>, os))
         else (p, []))
      else
        (p\<lparr>secsUntilNextSend := 60 * ucast (c_sendCycleMins (config p))\<rparr>,
         [helligkeit_info (ad_self e) p (getOutputValue (filterBrightness p))]))"

section \<open>The potentiometer\<close>

abbreviation (input) POTI_VALUE_TOLERANCE :: int where "POTI_VALUE_TOLERANCE \<equiv> 30"
abbreviation (input) POTI_TELEGRAM_COUNTDOWN_INIT :: u8 where "POTI_TELEGRAM_COUNTDOWN_INIT \<equiv> 4"

record device_data_poti =
  poti_config :: analog_config
  lastPotiValue :: u16
  potiTelegramCountdown :: u8

text \<open>The measurement of a handler, with what an unknown port sends.\<close>

definition poti_read :: "adc_env \<Rightarrow> device_data_poti \<Rightarrow> u16 \<times> out list" where
  "poti_read e p = (let (mux, os) = setADMUX e (c_port (poti_config p)) in (getADCvalue e mux, os))"

definition poti_init :: "adc_env \<Rightarrow> device_data_poti \<Rightarrow> device_data_poti \<times> out list" where
  "poti_init e p =
     (let (v, os) = poti_read e p in (p\<lparr>lastPotiValue := v, potiTelegramCountdown := 0\<rparr>, os))"

definition poti_differs :: "u16 \<Rightarrow> u16 \<Rightarrow> bool" where
  "poti_differs v old \<longleftrightarrow>
     sint v > sint old + POTI_VALUE_TOLERANCE \<or> sint v < sint old - POTI_VALUE_TOLERANCE"

definition poti_timer_handler :: "adc_env \<Rightarrow> device_data_poti \<Rightarrow> u8 \<Rightarrow> device_data_poti \<times> out list" where
  "poti_timer_handler e p zyklus =
     (if zyklus \<noteq> 10 then (p, [])
      else
        (let (v, os) = poti_read e p in
         if potiTelegramCountdown p \<noteq> 0 then
           (if poti_differs v (lastPotiValue p)
            then (p\<lparr>potiTelegramCountdown := potiTelegramCountdown p - 1\<rparr>, os)
            else (p\<lparr>potiTelegramCountdown := POTI_TELEGRAM_COUNTDOWN_INIT\<rparr>, os))
         else
           (p\<lparr>lastPotiValue := v, potiTelegramCountdown := POTI_TELEGRAM_COUNTDOWN_INIT\<rparr>,
            os @ [send_low (hes_message (ad_self e) HCAN_MULTICAST_CONTROL
                    [HCAN_HES_POTI_POS_CHANGED, c_gruppe (poti_config p), hi8 v, lo8 v])])))"

definition poti_can_callback ::
  "adc_env \<Rightarrow> device_data_poti \<Rightarrow> canix_frame \<Rightarrow> device_data_poti \<times> out list" where
  "poti_can_callback e p f = (p, [])"

section \<open>The filter holds the last values\<close>

definition filter_ok :: "tFloatAvgFilter \<Rightarrow> bool" where
  "filter_ok f \<longleftrightarrow> length (aData f) = SIZE_OF_AVG \<and> unat (indexNextValue f) < SIZE_OF_AVG"

text \<open>The values in the order they came.\<close>

definition recent :: "tFloatAvgFilter \<Rightarrow> u16 list" where
  "recent f = drop (unat (indexNextValue f)) (aData f) @ take (unat (indexNextValue f)) (aData f)"

lemma next_index: "unat ((i + 1) mod 30 :: u8) = (unat i + 1) mod 30" if "unat i < 30" for i :: u8
proof -
  have "unat (i + 1) = unat i + 1" using that by (simp add: unat_inc_u8)
  then show ?thesis by (simp add: unat_mod)
qed

lemma add_recent:
  assumes "filter_ok f"
  shows "filter_ok (addToFloatAvg f v)" "recent (addToFloatAvg f v) = tl (recent f) @ [v]"
proof -
  let ?i = "unat (indexNextValue f)"
  have i: "?i < 30" "length (aData f) = 30" using assms by (auto simp: filter_ok_def)
  have n: "unat (indexNextValue (addToFloatAvg f v)) = (?i + 1) mod 30"
    using next_index [OF i(1)] by (simp add: addToFloatAvg_def)
  show "filter_ok (addToFloatAvg f v)" using i n by (simp add: filter_ok_def) (simp add: addToFloatAvg_def)
  have d: "aData (addToFloatAvg f v) = take ?i (aData f) @ v # drop (Suc ?i) (aData f)"
    using i by (simp add: addToFloatAvg_def upd_conv_take_nth_drop)
  have t: "tl (recent f) = drop (Suc ?i) (aData f) @ take ?i (aData f)"
    using i by (simp add: recent_def tl_append2 drop_Suc tl_drop)
  show "recent (addToFloatAvg f v) = tl (recent f) @ [v]"
  proof (cases "?i = 29")
    case True
    then have m: "(?i + 1) mod 30 = 0" by simp
    have "drop (Suc ?i) (aData f) = []" using True i by simp
    then show ?thesis using i t unfolding recent_def n m by (simp add: d)
  next
    case False
    then have m: "(?i + 1) mod 30 = Suc ?i" using i(1) by simp
    show ?thesis unfolding t unfolding recent_def n m d using i by simp
  qed
qed

lemma recent_init [simp]: "filter_ok (initFloatAvg d)" "recent (initFloatAvg d) = replicate 30 d"
  by (simp_all add: filter_ok_def initFloatAvg_def recent_def)

lemma recent_length: "filter_ok f \<Longrightarrow> length (recent f) = 30"
  by (auto simp: filter_ok_def recent_def)

lemma fold_recent:
  "filter_ok f \<Longrightarrow> filter_ok (fold (\<lambda>v f. addToFloatAvg f v) vs f) \<and>
   recent (fold (\<lambda>v f. addToFloatAvg f v) vs f) = drop (length vs) (recent f @ vs)"
proof (induction vs arbitrary: f)
  case (Cons v vs)
  have l: "length (recent f) = 30" using recent_length [OF Cons.prems] .
  have "drop (length vs) (tl (recent f) @ [v] @ vs) = drop (length (v # vs)) (recent f @ v # vs)"
    using l by (cases "recent f") simp_all
  then show ?case using Cons.IH [OF add_recent(1) [OF Cons.prems]]
    by (simp add: add_recent(2) [OF Cons.prems])
qed (simp add: filter_ok_def recent_def)

lemma sum32:
  "unat s + 65535 * length vs < 2 ^ 32 \<Longrightarrow>
   unat (fold (\<lambda>(v :: u16) s. s + ucast v) vs (s :: 32 word)) = unat s + (\<Sum>v \<leftarrow> vs. unat v)"
proof (induction vs arbitrary: s)
  case (Cons v vs)
  have v: "unat v \<le> 65535" using unat_u16_less [of v] by linarith
  have "take_bit 32 (unat v) = unat v" using v by (intro take_bit_nat_eq_self) simp
  then have u: "unat (ucast v :: 32 word) = unat v" by (simp add: unsigned_ucast_eq)
  have a: "unat (s + ucast v) = unat s + unat v"
    using Cons.prems v by (subst unat_add_lem [THEN iffD1]) (simp_all add: u)
  show ?case using Cons.IH [of "s + ucast v"] Cons.prems v by (simp add: a)
qed simp

lemma output_recent:
  assumes "filter_ok f"
  shows "unat (getOutputValue f) = (\<Sum>v \<leftarrow> recent f. unat v) div 30"
proof -
  have l: "length (aData f) = 30" using assms by (simp add: filter_ok_def)
  have "(\<Sum>v \<leftarrow> take (unat (indexNextValue f)) (aData f) @ drop (unat (indexNextValue f)) (aData f). unat v) =
      (\<Sum>v \<leftarrow> aData f. unat v)"
    by (simp only: append_take_drop_id)
  then have s: "(\<Sum>v \<leftarrow> recent f. unat v) = (\<Sum>v \<leftarrow> aData f. unat v)"
    by (simp only: map_append sum_list_append recent_def add.commute)
  have m: "unat (x :: u16) \<le> 65535" for x using unat_u16_less [of x] by linarith
  have "(\<Sum>v \<leftarrow> aData f. unat v) \<le> (\<Sum>v \<leftarrow> aData f. 65535)"
    by (rule sum_list_mono) (rule m)
  then have b: "(\<Sum>v \<leftarrow> aData f. unat v) \<le> 65535 * 30" using l by (simp add: sum_list_triv)
  have "unat (fold (\<lambda>v s. s + ucast v) (aData f) (0 :: 32 word) div 30) = (\<Sum>v \<leftarrow> aData f. unat v) div 30"
    using sum32 [of 0 "aData f"] l by (simp add: unat_div)
  moreover have "(\<Sum>v \<leftarrow> aData f. unat v) div 30 < 65536" using b by simp
  ultimately show ?thesis unfolding s getOutputValue_def by (simp add: unsigned_ucast_eq take_bit_nat_eq_self_iff)
qed


section \<open>What the sensors say\<close>

lemma setADMUX_sendable: "fr \<in> set (sent_frames (snd (setADMUX e c))) \<Longrightarrow> sendable_frame fr"
  using syslog_loop_frames [of "[SYSLOG_PRIO_ERROR]" fr "ad_self e" "take 125 (ad_text e) @ [10]"]
  by (auto simp: setADMUX_def canix_syslog_P_def split: if_splits)

lemma setADMUX_known:
  "8 \<le> c \<Longrightarrow> c \<le> 15 \<Longrightarrow> setADMUX e c = (push_bit REFS0 1 OR (15 - c), [])"
  by (simp add: setADMUX_def)

definition hs_inv :: "device_data_helligkeitssensor \<Rightarrow> bool" where
  "hs_inv p \<longleftrightarrow> filter_ok (filterBrightness p)"

lemma hs_inv_init: "hs_inv (helligkeitssensor_init p)"
  by (simp add: hs_inv_def helligkeitssensor_init_def)

interpretation helligkeitssensor_dev: hes_device "\<lambda>_. True" hs_inv helligkeitssensor_can_callback
  helligkeitssensor_timer_handler
proof
  show "hs_inv (fst (helligkeitssensor_can_callback e p f))" if "hs_inv p" for e p f
    using that by (simp add: helligkeitssensor_can_callback_def)
  show "hs_inv (fst (helligkeitssensor_timer_handler e p z))" if "hs_inv p" for e p z
    using that by (auto simp: helligkeitssensor_timer_handler_def hs_inv_def Let_def add_recent split: prod.splits)
  show "sendable_frame fr" if "fr \<in> set (sent_frames (snd (helligkeitssensor_can_callback e p f)))" for e p f fr
    using that by (simp add: helligkeitssensor_can_callback_def)
  show "sendable_frame fr" if "fr \<in> set (sent_frames (snd (helligkeitssensor_timer_handler e p z)))" for e p z fr
    using that setADMUX_sendable [of fr e "c_port (config p)"]
    by (auto simp: helligkeitssensor_timer_handler_def helligkeit_info_def Let_def split: prod.splits if_splits)
qed

interpretation poti_dev: hes_device "\<lambda>_. True" "\<lambda>_. True" poti_can_callback poti_timer_handler
proof
  show "sendable_frame fr" if "fr \<in> set (sent_frames (snd (poti_can_callback e p f)))" for e p f fr
    using that by (simp add: poti_can_callback_def)
  show "sendable_frame fr" if "fr \<in> set (sent_frames (snd (poti_timer_handler e p z)))" for e p z fr
    using that setADMUX_sendable [of fr e "c_port (poti_config p)"]
    by (auto simp: poti_timer_handler_def poti_read_def Let_def split: prod.splits if_splits)
qed simp_all

text \<open>The brightness of a second, and a countdown of the sensor.\<close>

definition known_port :: "analog_config \<Rightarrow> bool" where
  "known_port c \<longleftrightarrow> 8 \<le> c_port c \<and> c_port c \<le> 15"

definition port_mux :: "analog_config \<Rightarrow> u8" where
  "port_mux c = push_bit REFS0 1 OR (15 - c_port c)"

definition brightness_of :: "analog_config \<Rightarrow> adc_env \<Rightarrow> u16" where
  "brightness_of c e = getADCvalue_inverted e (port_mux c)"

abbreviation hs_seconds :: "device_data_helligkeitssensor \<Rightarrow> adc_env list \<Rightarrow> device_data_helligkeitssensor \<times> out list" where
  "hs_seconds p es \<equiv> dev_run helligkeitssensor_can_callback helligkeitssensor_timer_handler p (map (\<lambda>e. (e, Tick 1)) es)"

lemma hs_tick:
  assumes "known_port (config p)" and "secsUntilNextSend p \<noteq> 0"
  shows "helligkeitssensor_timer_handler e p 1 =
    (p\<lparr>secsUntilNextSend := secsUntilNextSend p - 1,
       filterBrightness := (if unat (secsUntilNextSend p) \<le> 31
         then addToFloatAvg (filterBrightness p) (brightness_of (config p) e) else filterBrightness p)\<rparr>, [])"
proof -
  have "unat (secsUntilNextSend p - 1) = unat (secsUntilNextSend p) - 1" "unat (secsUntilNextSend p) \<noteq> 0"
    using assms(2) by (simp_all add: unat_dec word_unat_eq_iff)
  then have "secsUntilNextSend p - 1 \<le> 30 \<longleftrightarrow> unat (secsUntilNextSend p) \<le> 31"
    by (auto simp: word_le_nat_alt)
  then show ?thesis
    using assms setADMUX_known [of "c_port (config p)" e]
    by (simp add: helligkeitssensor_timer_handler_def known_port_def brightness_of_def port_mux_def Let_def)
qed

lemma hs_countdown:
  assumes "known_port (config p)" and "length es \<le> unat (secsUntilNextSend p)"
  shows "hs_seconds p es =
    (p\<lparr>secsUntilNextSend := secsUntilNextSend p - of_nat (length es),
       filterBrightness := fold (\<lambda>v f. addToFloatAvg f v)
         (map (brightness_of (config p)) (drop (unat (secsUntilNextSend p) - 31) es)) (filterBrightness p)\<rparr>, [])"
  using assms
proof (induction es arbitrary: p)
  case (Cons e es)
  let ?q = "fst (helligkeitssensor_timer_handler e p 1)"
  have n: "secsUntilNextSend p \<noteq> 0" using Cons.prems(2) by auto
  note t = hs_tick [OF Cons.prems(1) n, of e]
  have s: "unat (secsUntilNextSend p - 1) = unat (secsUntilNextSend p) - 1" using n by (rule unat_dec)
  have "hs_seconds ?q es = (?q\<lparr>secsUntilNextSend := secsUntilNextSend ?q - of_nat (length es),
       filterBrightness := fold (\<lambda>v f. addToFloatAvg f v)
         (map (brightness_of (config ?q)) (drop (unat (secsUntilNextSend ?q) - 31) es)) (filterBrightness ?q)\<rparr>, [])"
    by (rule Cons.IH) (use Cons.prems s t in simp_all)
  then show ?case
  proof (cases "unat (secsUntilNextSend p) \<le> 31")
    case True
    then show ?thesis using Cons.IH [of ?q] Cons.prems s by (simp add: t algebra_simps)
  next
    case False
    then have "unat (secsUntilNextSend p) - 31 = Suc (unat (secsUntilNextSend p) - 32)" by simp
    then show ?thesis using Cons.IH [of ?q] Cons.prems s False by (simp add: t algebra_simps)
  qed
qed simp

text \<open>
  The brightness sensor reports the mean of the last thirty seconds: from a start of
  the countdown on it is silent for the configured minutes, and in the next second it sends the
  rounded mean of the last thirty brightness values, whatever its filter held before, and starts
  the countdown again.
\<close>

theorem brightness_is_mean_of_last_values:
  assumes "known_port (config p)" and "hs_inv p" and "c_sendCycleMins (config p) \<noteq> 0"
    and "secsUntilNextSend p = 60 * ucast (c_sendCycleMins (config p))"
    and "length es = 60 * unat (c_sendCycleMins (config p))"
  shows "snd (hs_seconds p es) = [] \<and>
    (let r = hs_seconds p (es @ [e]);
         values = map (\<lambda>e. unat (brightness_of (config p) e)) (drop (length es - 30) es)
     in snd r = [helligkeit_info (ad_self e) p (of_nat (sum_list values div 30))] \<and>
        hs_inv (fst r) \<and> secsUntilNextSend (fst r) = secsUntilNextSend p)"
proof -
  let ?m = "unat (c_sendCycleMins (config p))"
  have m: "0 < ?m" "?m < 256" using assms(3) unat_u8_less [of "c_sendCycleMins (config p)"]
    by (auto simp: word_unat_eq_iff)
  have "15 * ?m < 16384" using m(2) by linarith
  then have "unat (60 * ucast (c_sendCycleMins (config p)) :: u16) = 60 * ?m"
    by (subst unat_mult_lem [THEN iffD1]) simp_all
  then have n: "unat (secsUntilNextSend p) = length es" using assms(4,5) by simp
  then have w: "of_nat (length es) = secsUntilNextSend p" by (metis of_nat_unat ucast_id)
  let ?vs = "map (brightness_of (config p)) (drop (length es - 31) es)"
  let ?f = "fold (\<lambda>v f. addToFloatAvg f v) ?vs (filterBrightness p)"
  have run: "hs_seconds p es = (p\<lparr>secsUntilNextSend := 0, filterBrightness := ?f\<rparr>, [])"
    using hs_countdown [OF assms(1), of es] n by (simp add: w)
  have f: "filter_ok ?f" "recent ?f = drop (length ?vs) (recent (filterBrightness p) @ ?vs)"
    using fold_recent [of "filterBrightness p" ?vs] assms(2) by (simp_all add: hs_inv_def)
  have l: "31 \<le> length es" using assms(5) m by simp
  have "length (recent (filterBrightness p)) = 30" using assms(2) recent_length by (simp add: hs_inv_def)
  then have r: "recent ?f = map (brightness_of (config p)) (drop (length es - 30) es)"
    using l unfolding f(2) by (simp add: drop_map Suc_diff_le [symmetric])
  have "getOutputValue ?f = of_nat (unat (getOutputValue ?f))" by simp
  then have out: "getOutputValue ?f =
      of_nat ((\<Sum>x \<leftarrow> drop (length es - 30) es. unat (brightness_of (config p) x)) div 30)"
    unfolding output_recent [OF f(1)] r by (simp add: comp_def)
  show ?thesis
    using run f(1) assms(4)
    by (simp add: dev_run_append helligkeitssensor_timer_handler_def out helligkeit_info_def hs_inv_def)
qed

definition garden_sensor :: device_data_helligkeitssensor where
  "garden_sensor = helligkeitssensor_init
     \<lparr>config = \<lparr>c_port = 9, c_gruppe = 3, c_sendCycleMins = 1\<rparr>, secsUntilNextSend = 0,
      filterBrightness = initFloatAvg 0\<rparr>"

definition converter :: "u16 \<Rightarrow> adc_env" where
  "converter v = \<lparr>ad_self = 5, ad_level = 0, ad_text = [], ad_mux = 0, ad_read = (\<lambda>_ _. v)\<rparr>"

theorem brightness_is_mean_of_last_values_witness:
  "snd (hs_seconds garden_sensor (replicate 60 (converter 1000) @ [converter 0])) =
    [send_low (hes_message 5 HCAN_MULTICAST_CONTROL [HCAN_HES_HELLIGKEITS_INFO, 3, 0, 23])]"
proof -
  let ?es = "replicate 60 (converter 1000)"
  have c: "config garden_sensor = \<lparr>c_port = 9, c_gruppe = 3, c_sendCycleMins = 1\<rparr>"
    by (simp add: garden_sensor_def helligkeitssensor_init_def)
  have b: "brightness_of (config garden_sensor) (converter 1000) = 23"
    unfolding c by (simp add: brightness_of_def getADCvalue_inverted_def getADCvalue_def converter_def)
  have h: "known_port (config garden_sensor)" "hs_inv garden_sensor" "c_sendCycleMins (config garden_sensor) \<noteq> 0"
    "secsUntilNextSend garden_sensor = 60 * ucast (c_sendCycleMins (config garden_sensor))"
    by (simp_all add: known_port_def hs_inv_def garden_sensor_def helligkeitssensor_init_def)
  have l: "length ?es = 60 * unat (c_sendCycleMins (config garden_sensor))"
    unfolding length_replicate c by simp
  have v: "map (\<lambda>e. unat (brightness_of (config garden_sensor) e)) (drop (length ?es - 30) ?es) = replicate 30 23"
    unfolding length_replicate drop_replicate map_replicate b by simp
  have "sum_list (replicate 30 (23 :: nat)) div 30 = 23" by (simp only: sum_list_replicate) simp
  then show ?thesis
    using brightness_is_mean_of_last_values [OF h l, of "converter 0"] unfolding v
    by (simp add: Let_def helligkeit_info_def c converter_def hi8_def lo8_def)
qed

section \<open>The potentiometer's messages\<close>

abbreviation poti_ticks :: "device_data_poti \<Rightarrow> adc_env list \<Rightarrow> device_data_poti \<times> out list" where
  "poti_ticks p es \<equiv> dev_run poti_can_callback poti_timer_handler p (map (\<lambda>e. (e, Tick 10)) es)"

definition poti_value :: "analog_config \<Rightarrow> adc_env \<Rightarrow> u16" where
  "poti_value c e = getADCvalue e (port_mux c)"

lemma poti_tick:
  assumes "known_port (poti_config p)"
  shows "poti_timer_handler e p 10 =
    (if potiTelegramCountdown p = 0
     then (p\<lparr>lastPotiValue := poti_value (poti_config p) e, potiTelegramCountdown := 4\<rparr>,
           [send_low (hes_message (ad_self e) HCAN_MULTICAST_CONTROL [HCAN_HES_POTI_POS_CHANGED, c_gruppe (poti_config p),
              hi8 (poti_value (poti_config p) e), lo8 (poti_value (poti_config p) e)])])
     else (p\<lparr>potiTelegramCountdown :=
             (if poti_differs (poti_value (poti_config p) e) (lastPotiValue p) then potiTelegramCountdown p - 1 else 4)\<rparr>, []))"
  using assms setADMUX_known [of "c_port (poti_config p)" e]
  by (simp add: poti_timer_handler_def poti_read_def poti_value_def known_port_def port_mux_def Let_def)

text \<open>
  Four deviating samples in a row, at any time, are followed by a message with the next sample;
  as long as there are no four deviating samples in a row, nothing is said.
\<close>

lemma poti_reports_change:
  assumes "known_port (poti_config p)" and "potiTelegramCountdown p = 4" and "length es = 4"
    and "\<forall>e \<in> set es. poti_differs (poti_value (poti_config p) e) (lastPotiValue p)"
  shows "poti_ticks p (es @ [e]) =
    (p\<lparr>lastPotiValue := poti_value (poti_config p) e\<rparr>,
     [send_low (hes_message (ad_self e) HCAN_MULTICAST_CONTROL [HCAN_HES_POTI_POS_CHANGED, c_gruppe (poti_config p),
        hi8 (poti_value (poti_config p) e), lo8 (poti_value (poti_config p) e)])])"
proof -
  obtain e1 e2 e3 e4 where es: "es = [e1, e2, e3, e4]"
    using assms(3) by (auto simp: numeral_eq_Suc length_Suc_conv)
  show ?thesis using assms(1,2,4) by (simp add: es poti_tick andthen_def Let_def)
qed

text \<open>What the receiver of such a message computes is the value of the poti.\<close>

lemma poti_value_received:
  "f = hes_message self HCAN_MULTICAST_CONTROL [HCAN_HES_POTI_POS_CHANGED, g, hi8 v, lo8 v] \<Longrightarrow>
   mk16 (byte_at f 3) (byte_at f 4) = v"
  by (simp add: numeral_eq_Suc)

end
