(* ===== verification/Bootloader.thy ===== *)
theory Bootloader
  imports Canix_Eds
begin

text \<open>
  The boot loader, \<^verbatim>\<open>src/hcanbl/main.c\<close>: for the first five seconds, or until told
  to stay, it waits for messages of the management service, with which a host reads and writes
  the memories, and then starts the application if its checksum is right. The instructions that
  program the flash, the checksum step of the C library and the controller's signature are
  parameters; CAN messages arrive as an identifier and at most eight bytes.
\<close>

section \<open>State\<close>

text \<open>The flash and its programming instructions.\<close>

record 'f flash_ops =
  pgm_read_byte :: "'f \<Rightarrow> u16 \<Rightarrow> u8"
  boot_page_erase :: "u16 \<Rightarrow> 'f \<Rightarrow> 'f"
  boot_page_fill :: "u16 \<Rightarrow> u16 \<Rightarrow> 'f \<Rightarrow> 'f"
  boot_page_write :: "u16 \<Rightarrow> 'f \<Rightarrow> 'f"

record 'f bl_config =
  bl_mcu :: mcu
  SIGNATURE :: "u8 \<times> u8"
  SPM_PAGESIZE :: nat
  bl_flash :: "'f flash_ops"
  bl_crc16_update :: "u16 \<Rightarrow> u8 \<Rightarrow> u16"

text \<open>The variables of \<^verbatim>\<open>main\<close>, with the memories; \<open>bl_data\<close> is the message buffer.\<close>

record 'f bl_state =
  fl :: 'f
  ee :: eeprom
  bl_self_addr :: u16
  bootCounter :: u8
  lineCounter :: u16
  flash_buffer :: "u8 list"
  bl_data :: "u8 list"

text \<open>
  What an iteration of the main loop ends in: the next iteration, the application, the wait for
  the watchdog, or a write behind the flash buffer, after which nothing is known.
\<close>

datatype 'f bl_outcome = Runs "'f bl_state" | Starts_App "'f bl_state" | Waits_For_Reset "'f bl_state"
  | Buffer_Overrun "'f bl_state"

type_synonym can_msg = "u32 \<times> u8 list"

abbreviation (input) ADDR_MASK :: u32 where "ADDR_MASK \<equiv> 0x3ff"
abbreviation (input) DEV_STATE_BOOTING :: u8 where "DEV_STATE_BOOTING \<equiv> 0"
abbreviation (input) DEV_STATE_BOOTLOADER :: u8 where "DEV_STATE_BOOTLOADER \<equiv> 1"
abbreviation (input) EEPR_FIRMWARE_CRC16 :: nat where "EEPR_FIRMWARE_CRC16 \<equiv> 16"
abbreviation (input) EEPR_FIRMWARE_SIZE :: nat where "EEPR_FIRMWARE_SIZE \<equiv> 18"
abbreviation (input) HCAN_MULTICAST_PING :: u32 where "HCAN_MULTICAST_PING \<equiv> 31"

section \<open>The checksum of the firmware\<close>

definition pgm_read_word :: "'f bl_config \<Rightarrow> 'f \<Rightarrow> u16 \<Rightarrow> u16" where
  "pgm_read_word c f p = mk16 (pgm_read_byte (bl_flash c) f (p + 1)) (pgm_read_byte (bl_flash c) f p)"

fun crc16_loop :: "'f bl_config \<Rightarrow> 'f \<Rightarrow> nat \<Rightarrow> u16 \<Rightarrow> u16 \<Rightarrow> u16" where
  "crc16_loop c f 0 crc p = crc"
| "crc16_loop c f (Suc n) crc p =
     (let temp = pgm_read_word c f p;
          crc = bl_crc16_update c crc (hi8 temp);
          crc = bl_crc16_update c crc (lo8 temp)
      in crc16_loop c f n crc (p + 2))"

definition calculate_crc16_over_flash :: "'f bl_config \<Rightarrow> 'f \<Rightarrow> u16 \<Rightarrow> u16" where
  "calculate_crc16_over_flash c f n = crc16_loop c f (unat (drop_bit 1 n)) 0xffff 0"

definition eeprom_read_word :: "eeprom \<Rightarrow> nat \<Rightarrow> u16" where
  "eeprom_read_word m a = mk16 (m (a + 1)) (m a)"

definition check_firmware :: "'f bl_config \<Rightarrow> 'f bl_state \<Rightarrow> bool" where
  "check_firmware c st \<longleftrightarrow>
     calculate_crc16_over_flash c (fl st) (eeprom_read_word (ee st) EEPR_FIRMWARE_SIZE) =
       eeprom_read_word (ee st) EEPR_FIRMWARE_CRC16"

section \<open>The messages\<close>

text \<open>The identifier of an answer, and the end of a branch that goes to \<^verbatim>\<open>_send\<close>.\<close>

definition bl_id :: "u16 \<Rightarrow> u32 \<Rightarrow> u32" where
  "bl_id self to = push_bit 10 (to AND ADDR_MASK) OR ucast self OR push_bit 20 1"

definition bl_send ::
  "'f bl_state \<Rightarrow> u32 \<Rightarrow> u8 list \<Rightarrow> nat \<Rightarrow> 'f bl_outcome \<times> can_msg list" where
  "bl_send st id1 d n = (Runs (st\<lparr>bl_data := d\<rparr>), [(bl_id (bl_self_addr st) id1, take n d)])"

definition bl_arch :: "'f bl_config \<Rightarrow> u8" where
  "bl_arch c =
     (if SIGNATURE c = (0x95, 0x0F) then 0x30 else if SIGNATURE c = (0x95, 0x02) then 0x10
      else if SIGNATURE c = (0x96, 0x0A) then 0x20 else 0) +
     (case bl_mcu c of ATmega32 \<Rightarrow> 1 | ATmega644P \<Rightarrow> 2 | ATmega328P \<Rightarrow> 3)"

text \<open>Four bytes into the buffer, at an index the host chooses.\<close>

definition bl_buffer_fill ::
  "'f bl_config \<Rightarrow> 'f bl_state \<Rightarrow> u32 \<Rightarrow> 'f bl_outcome \<times> can_msg list" where
  "bl_buffer_fill c st id1 =
     (let d = bl_data st; i = unat (d ! 2);
          st = (if d ! 2 AND 0x0f = 0 then st\<lparr>lineCounter := 0\<rparr> else st) in
      if SPM_PAGESIZE c < i + 4 then (Buffer_Overrun st, [])
      else
        (let st = st\<lparr>flash_buffer := (flash_buffer st)[i := d ! 3, i + 1 := d ! 4, i + 2 := d ! 5, i + 3 := d ! 6],
                     lineCounter := lineCounter st + 4\<rparr>
         in if lineCounter st \<ge> 16 then bl_send st id1 (d[1 := 17]) 2 else (Runs st, [])))"

definition bl_program_page :: "'f bl_config \<Rightarrow> u16 \<Rightarrow> u8 list \<Rightarrow> 'f \<Rightarrow> 'f" where
  "bl_program_page c addr buf f =
     (let ops = bl_flash c;
          f = fold (\<lambda>k. boot_page_fill ops (addr + of_nat (2 * k)) (mk16 (buf ! (2 * k + 1)) (buf ! (2 * k))))
                [0..<SPM_PAGESIZE c div 2] (boot_page_erase ops addr f)
      in boot_page_write ops addr f)"

definition bl_handle ::
  "'f bl_config \<Rightarrow> 'f bl_state \<Rightarrow> u32 \<Rightarrow> 'f bl_outcome \<times> can_msg list" where
  "bl_handle c st id1 =
     (let d = bl_data st; cmd = d ! 1 in
      if cmd = 1 then bl_send st id1 (d[1 := 2]) 2
      else if cmd = 3 then
        bl_send st id1 (d[1 := 4, 2 := (if bootCounter st \<noteq> 0 then DEV_STATE_BOOTING else DEV_STATE_BOOTLOADER)]) 3
      else if cmd = 5 then (Waits_For_Reset st, [])
      else if cmd = 6 then bl_send (st\<lparr>bootCounter := 0\<rparr>) id1 (d[1 := 7]) 2
      else if cmd = 8 then (Starts_App st, [])
      else if cmd = 9 then bl_send st id1 (d[1 := 10, 2 := bl_arch c, 3 := ee st EEPR_BOARD_TYPE]) 4
      else if cmd = 16 then bl_buffer_fill c st id1
      else if cmd = 18 then
        bl_send (st\<lparr>fl := bl_program_page c (mk16 (d ! 3) (d ! 2)) (flash_buffer st) (fl st)\<rparr>) id1 (d[1 := 19]) 2
      else if cmd = 20 then
        bl_send (st\<lparr>ee := (ee st)(unat (mk16 (d ! 3) (d ! 2)) := d ! 4)\<rparr>) id1 (d[1 := 21]) 2
      else if cmd = 22 then bl_send st id1 (d[1 := 23, 2 := ee st (unat (mk16 (d ! 3) (d ! 2)))]) 3
      else if cmd = 37 then
        (let sum = calculate_crc16_over_flash c (fl st) (mk16 (d ! 2) (d ! 3))
         in bl_send st id1 (d[1 := 38, 2 := hi8 sum, 3 := lo8 sum]) 4)
      else (Runs st, []))"

text \<open>
  A message for the board or for all boards, of the management service, is handled; its bytes
  overwrite the first ones of the buffer.
\<close>

definition bl_receive ::
  "'f bl_config \<Rightarrow> 'f bl_state \<Rightarrow> can_msg option \<Rightarrow> 'f bl_outcome \<times> can_msg list" where
  "bl_receive c st m =
     (case m of
        None \<Rightarrow> (Runs st, [])
      | Some (id1, bs) \<Rightarrow>
          (let st = st\<lparr>bl_data := bs @ drop (length bs) (bl_data st)\<rparr>; to = drop_bit 10 id1 AND ADDR_MASK in
           if (to = ucast (bl_self_addr st) \<or> to = HCAN_MULTICAST_PING) \<and> 2 \<le> length bs \<and> bl_data st ! 0 = 1
           then bl_handle c st id1 else (Runs st, [])))"

text \<open>The end of an iteration: the counter, and after fifty of them the start.\<close>

definition bl_countdown :: "'f bl_config \<Rightarrow> 'f bl_state \<Rightarrow> 'f bl_outcome \<times> can_msg list" where
  "bl_countdown c st =
     (if bootCounter st > 0 then
        (let st = st\<lparr>bootCounter := bootCounter st + 1\<rparr> in
         if bootCounter st > 50 then
           (if \<not> check_firmware c st then (Waits_For_Reset st, [(bl_id (bl_self_addr st) 40, [4, 2])])
            else (Starts_App st, []))
         else (Runs st, []))
      else (Runs st, []))"

definition bl_iteration ::
  "'f bl_config \<Rightarrow> 'f bl_state \<Rightarrow> can_msg option \<Rightarrow> 'f bl_outcome \<times> can_msg list" where
  "bl_iteration c st m =
     (case bl_receive c st m of
        (Runs st, out) \<Rightarrow> (let (r, out') = bl_countdown c st in (r, out @ out'))
      | x \<Rightarrow> x)"

text \<open>The start: the own address, and a message with the reset flags; the buffers are not initialised.\<close>

definition bl_main_start ::
  "eeprom \<Rightarrow> 'f \<Rightarrow> u8 \<Rightarrow> u8 list \<Rightarrow> u8 list \<Rightarrow> 'f bl_state \<times> can_msg list" where
  "bl_main_start m f reset_flags buf d =
     (let self = mk16 (m (EEPR_SELF_ADDR + 1)) (m EEPR_SELF_ADDR) AND ucast ADDR_MASK;
          d = d[0 := 4, 1 := 1, 2 := reset_flags]
      in (\<lparr>fl = f, ee = m, bl_self_addr = self, bootCounter = 1, lineCounter = 0, flash_buffer = buf, bl_data = d\<rparr>,
          [(bl_id self 40, take 3 d)]))"

fun bl_run :: "'f bl_config \<Rightarrow> can_msg option list \<Rightarrow> 'f bl_outcome \<Rightarrow> 'f bl_outcome \<times> can_msg list" where
  "bl_run c [] r = (r, [])"
| "bl_run c (m # ms) (Runs st) =
     (let (r, out) = bl_iteration c st m; (r', out') = bl_run c ms r in (r', out @ out'))"
| "bl_run c (m # ms) r = (r, [])"

section \<open>Starting the application\<close>

definition bl_inv :: "'f bl_config \<Rightarrow> 'f bl_state \<Rightarrow> bool" where
  "bl_inv c st \<longleftrightarrow> length (bl_data st) = 8 \<and> length (flash_buffer st) = SPM_PAGESIZE c"

definition short_msg :: "can_msg option \<Rightarrow> bool" where
  "short_msg m \<longleftrightarrow> (\<forall>x. m = Some x \<longrightarrow> length (snd x) \<le> 8)"

definition orders_start :: "u16 \<Rightarrow> can_msg option \<Rightarrow> bool" where
  "orders_start self m \<longleftrightarrow> (\<exists>i bs. m = Some (i, 1 # 8 # bs) \<and>
     (drop_bit 10 i AND ADDR_MASK = ucast self \<or> drop_bit 10 i AND ADDR_MASK = HCAN_MULTICAST_PING))"

lemma bl_receive_inv:
  assumes "bl_inv c st" and "short_msg m" and "fst (bl_receive c st m) = Runs st'"
  shows "bl_inv c st' \<and> bl_self_addr st' = bl_self_addr st"
  using assms
  by (auto simp: bl_receive_def bl_handle_def bl_send_def bl_buffer_fill_def bl_inv_def short_msg_def Let_def
      split: option.splits if_splits)

lemma bl_receive_starts:
  assumes "fst (bl_receive c st m) = Starts_App st'"
  shows "orders_start (bl_self_addr st) m"
proof (cases m)
  case None
  then show ?thesis using assms by (simp add: bl_receive_def)
next
  case (Some x)
  obtain i bs where x: "x = (i, bs)" by fastforce
  have h: "(drop_bit 10 i AND ADDR_MASK = ucast (bl_self_addr st) \<or> drop_bit 10 i AND ADDR_MASK = HCAN_MULTICAST_PING)"
    "2 \<le> length bs" "(bs @ drop (length bs) (bl_data st)) ! 0 = 1"
    "fst (bl_handle c (st\<lparr>bl_data := bs @ drop (length bs) (bl_data st)\<rparr>) i) = Starts_App st'"
    using assms by (auto simp: bl_receive_def Some x Let_def split: if_splits)
  obtain a b r where bs: "bs = a # b # r" using h(2) by (auto simp: Suc_le_length_iff numeral_2_eq_2)
  have "b = 8"
    using h(4) by (auto simp: bl_handle_def bl_send_def bl_buffer_fill_def bs Let_def split: if_splits)
  then show ?thesis using h(1,3) by (auto simp: orders_start_def Some x bs)
qed

lemma bl_countdown_starts:
  "fst (bl_countdown c st) = Starts_App st' \<Longrightarrow> check_firmware c st'"
  by (auto simp: bl_countdown_def Let_def split: if_splits)

lemma bl_countdown_inv:
  "bl_inv c st \<Longrightarrow> fst (bl_countdown c st) = Runs st' \<Longrightarrow> bl_inv c st' \<and> bl_self_addr st' = bl_self_addr st"
  by (auto simp: bl_countdown_def bl_inv_def Let_def split: if_splits)

lemma bl_iteration_cases:
  "fst (bl_iteration c st m) =
    (case fst (bl_receive c st m) of Runs st \<Rightarrow> fst (bl_countdown c st) | x \<Rightarrow> x)"
  by (cases "bl_receive c st m"; cases "fst (bl_receive c st m)")
    (auto simp: bl_iteration_def split: prod.splits)

lemma bl_iteration_parts:
  assumes "fst (bl_iteration c st m) = r"
  shows "(\<exists>s. fst (bl_receive c st m) = Runs s \<and> fst (bl_countdown c s) = r) \<or>
    fst (bl_receive c st m) = r \<and> (\<forall>s. r \<noteq> Runs s)"
  using assms unfolding bl_iteration_cases by (cases "fst (bl_receive c st m)") auto

lemma bl_iteration_inv:
  assumes "bl_inv c st" and "short_msg m" and "fst (bl_iteration c st m) = Runs st'"
  shows "bl_inv c st' \<and> bl_self_addr st' = bl_self_addr st"
proof -
  obtain s where s: "fst (bl_receive c st m) = Runs s" "fst (bl_countdown c s) = Runs st'"
    using bl_iteration_parts [OF assms(3)] by blast
  from bl_receive_inv [OF assms(1,2) s(1)] bl_countdown_inv [OF _ s(2)] show ?thesis by simp
qed

lemma bl_iteration_starts:
  assumes "fst (bl_iteration c st m) = Starts_App st'"
  shows "check_firmware c st' \<or> orders_start (bl_self_addr st) m"
  using bl_iteration_parts [OF assms] bl_countdown_starts bl_receive_starts by blast

lemma bl_main_start_self:
  "bl_self_addr (fst (bl_main_start m f reset_flags buf d)) = mk16 (m 3) (m 2) AND 0x3ff"
  by (simp add: bl_main_start_def Let_def)

text \<open>
  Property C37. The boot loader never starts a firmware whose checksum is wrong on its own: from
  the reset on, whatever messages arrive, if it starts the application then a host has ordered
  the start, or the checksum over the flash is the one stored in the EEPROM.
\<close>

theorem only_checked_firmware_starts:
  assumes "\<forall>m \<in> set ms. short_msg m" and "length buf = SPM_PAGESIZE c" and "length d = 8"
    and "fst (bl_run c ms (Runs (fst (bl_main_start m f reset_flags buf d)))) = Starts_App st"
  shows "check_firmware c st \<or>
    (\<exists>x \<in> set ms. orders_start (mk16 (m 3) (m 2) AND 0x3ff) x)"
proof -
  have run: "check_firmware c st \<or> (\<exists>x \<in> set ms. orders_start (bl_self_addr st0) x)"
    if "bl_inv c st0" "\<forall>m \<in> set ms. short_msg m" "fst (bl_run c ms (Runs st0)) = Starts_App st" for st0 ms
    using that
  proof (induction ms arbitrary: st0)
    case (Cons x ms)
    show ?case
    proof (cases "fst (bl_iteration c st0 x)")
      case (Runs st1)
      then have i: "bl_inv c st1" "bl_self_addr st1 = bl_self_addr st0"
        using bl_iteration_inv [OF Cons.prems(1) _ Runs] Cons.prems(2) by simp_all
      have "fst (bl_run c ms (Runs st1)) = Starts_App st"
        using Cons.prems(3) Runs by (simp split: prod.splits)
      then show ?thesis using Cons.IH [OF i(1)] Cons.prems(2) i(2) by auto
    next
      case (Starts_App st1)
      then have "st1 = st" using Cons.prems(3) by (cases ms) (auto split: prod.splits)
      then show ?thesis using bl_iteration_starts [of c st0 x st] Starts_App by auto
    next
      case (Waits_For_Reset st1)
      then show ?thesis using Cons.prems(3) by (cases ms) (auto split: prod.splits)
    next
      case (Buffer_Overrun st1)
      then show ?thesis using Cons.prems(3) by (cases ms) (auto split: prod.splits)
    qed
  qed simp
  have "bl_inv c (fst (bl_main_start m f reset_flags buf d))"
    using assms(2,3) by (simp add: bl_main_start_def bl_inv_def Let_def)
  from run [OF this assms(1,4)] show ?thesis unfolding bl_main_start_self .
qed

definition plain_flash :: "(u16 \<Rightarrow> u8) flash_ops" where
  "plain_flash = \<lparr>pgm_read_byte = (\<lambda>f a. f a), boot_page_erase = (\<lambda>_ f. f), boot_page_fill = (\<lambda>_ _ f. f),
     boot_page_write = (\<lambda>_ f. f)\<rparr>"

definition plain_board :: "(u16 \<Rightarrow> u8) bl_config" where
  "plain_board = \<lparr>bl_mcu = ATmega32, SIGNATURE = (0x95, 2), SPM_PAGESIZE = 128, bl_flash = plain_flash,
     bl_crc16_update = (\<lambda>crc a. crc + ucast a)\<rparr>"

theorem only_checked_firmware_starts_witness:
  "\<exists>st. fst (bl_run plain_board [None, Some (0x100384, [1, 8])]
      (Runs (fst (bl_main_start (\<lambda>_. 0) (\<lambda>_. 0) 1 (replicate 128 0) (replicate 8 0))))) = Starts_App st \<and>
    (check_firmware plain_board st \<or> (\<exists>x \<in> {None, Some (0x100384, [1, 8])}. orders_start (mk16 0 0 AND 0x3ff) x))"
proof -
  let ?ms = "[None, Some (0x100384, [1, 8])]"
  have "\<exists>st. fst (bl_run plain_board ?ms (Runs (fst (bl_main_start (\<lambda>_. 0) (\<lambda>_. 0) 1 buf (0 # d))))) = Starts_App st" for buf d
    by (cases d) (simp_all add: bl_main_start_def bl_iteration_def bl_receive_def bl_countdown_def bl_handle_def mk16_def Let_def)
  from this [of "replicate 128 0" "replicate 7 0"]
  obtain st where s: "fst (bl_run plain_board ?ms
      (Runs (fst (bl_main_start (\<lambda>_. 0) (\<lambda>_. 0) 1 (replicate 128 0) (replicate 8 0))))) = Starts_App st"
    unfolding replicate_Suc [symmetric] by auto
  have h: "\<forall>m \<in> set ?ms. short_msg m" "length (replicate 128 (0 :: u8)) = SPM_PAGESIZE plain_board"
    "length (replicate 8 (0 :: u8)) = 8"
    unfolding length_replicate by (simp_all add: short_msg_def plain_board_def)
  from only_checked_firmware_starts [OF h s] show ?thesis using s by (intro exI [of _ st]) simp
qed

text \<open>
  Nobody checks the index of the four bytes: with one behind the last multiple of four of a page
  the handler writes behind its buffer.
\<close>

lemma fill_overruns:
  assumes "bl_inv c st" and "drop_bit 10 ident AND ADDR_MASK = ucast (bl_self_addr st)"
    and "SPM_PAGESIZE c < unat i + 4"
  shows "\<exists>st'. fst (bl_iteration c st (Some (ident, [1, 16, i, a0, a1, a2, a3]))) = Buffer_Overrun st'"
  using assms
  by (auto simp: bl_iteration_cases bl_receive_def bl_handle_def bl_buffer_fill_def Let_def)

section \<open>Programming a page\<close>

text \<open>
  What the controller's manual promises of the programming instructions: a page that is erased,
  filled word by word and written holds these words, and the rest of the flash is as before.
\<close>

locale page_flash =
  fixes ops :: "'f flash_ops" and page :: nat
  assumes page_size: "0 < page" "even page" "page dvd 65536"
    and page_programmed: "length buf = page \<Longrightarrow> page dvd unat addr \<Longrightarrow>
      pgm_read_byte ops
        (boot_page_write ops addr
          (fold (\<lambda>k. boot_page_fill ops (addr + of_nat (2 * k)) (mk16 (buf ! (2 * k + 1)) (buf ! (2 * k))))
            [0..<page div 2] (boot_page_erase ops addr f))) a =
        (if unat addr \<le> unat a \<and> unat a < unat addr + page then buf ! (unat a - unat addr)
         else pgm_read_byte ops f a)"
begin

lemma program_page:
  assumes "bl_flash c = ops" and "SPM_PAGESIZE c = page" and "length buf = page" and "page dvd unat addr"
  shows "pgm_read_byte ops (bl_program_page c addr buf f) a =
    (if unat addr \<le> unat a \<and> unat a < unat addr + page then buf ! (unat a - unat addr) else pgm_read_byte ops f a)"
  using page_programmed [OF assms(3,4)] assms(1,2) by (simp add: bl_program_page_def Let_def)

end

text \<open>
  A simulated flash: cells and the temporary buffer; an erased cell is 255, and writing clears
  bits only.
\<close>

type_synonym sim_flash = "(u16 \<Rightarrow> u8) \<times> (nat \<Rightarrow> u16)"

definition in_page :: "nat \<Rightarrow> u16 \<Rightarrow> u16 \<Rightarrow> bool" where
  "in_page page addr a \<longleftrightarrow> unat a div page = unat addr div page"

definition sim_flash_ops :: "nat \<Rightarrow> sim_flash flash_ops" where
  "sim_flash_ops page =
     \<lparr>pgm_read_byte = (\<lambda>f a. fst f a),
      boot_page_erase = (\<lambda>addr f. (\<lambda>a. if in_page page addr a then 255 else fst f a, snd f)),
      boot_page_fill = (\<lambda>addr w f. (fst f, (snd f)(unat addr mod page div 2 := w))),
      boot_page_write = (\<lambda>addr f.
        (\<lambda>a. if in_page page addr a
              then fst f a AND (if even (unat a) then lo8 (snd f (unat a mod page div 2)) else hi8 (snd f (unat a mod page div 2)))
              else fst f a, snd f))\<rparr>"

lemma in_page_bounds:
  "0 < page \<Longrightarrow> page dvd unat addr \<Longrightarrow> in_page page addr a \<longleftrightarrow> unat addr \<le> unat a \<and> unat a < unat addr + page"
proof -
  assume p: "0 < page" "page dvd unat addr"
  then obtain k where k: "unat addr = page * k" by auto
  have "in_page page addr a \<longleftrightarrow> unat a div page = k" using p by (simp add: in_page_def k)
  also have "\<dots> \<longleftrightarrow> k \<le> unat a div page \<and> unat a div page < Suc k" by auto
  also have "\<dots> \<longleftrightarrow> page * k \<le> unat a \<and> unat a < page * k + page"
    using p(1) by (simp add: less_eq_div_iff_mult_less_eq div_less_iff_less_mult algebra_simps)
  finally show ?thesis by (simp add: k)
qed

lemma sim_fills:
  assumes "page dvd unat addr" and "unat addr + page \<le> 65536" and "n \<le> page div 2"
  shows "fold (\<lambda>k. boot_page_fill (sim_flash_ops page) (addr + of_nat (2 * k)) (ws k)) [0..<n] f =
    (fst f, \<lambda>k. if k < n then ws k else snd f k)"
  using assms(3)
proof (induction n)
  case (Suc n)
  have a: "addr + of_nat (2 * n) = of_nat (unat addr + 2 * n)" by simp
  have "unat (addr + of_nat (2 * n)) = unat addr + 2 * n"
    unfolding a using Suc.prems assms(2) by (intro unat_of_nat_u16) simp
  moreover have "(unat addr + 2 * n) mod page = 2 * n" using assms(1) Suc.prems by auto
  ultimately have i: "unat (addr + of_nat (2 * n)) mod page div 2 = n" by simp
  have f: "boot_page_fill (sim_flash_ops page) x w g = (fst g, (snd g)(unat x mod page div 2 := w))" for x w g
    by (simp add: sim_flash_ops_def)
  have "fold (\<lambda>k. boot_page_fill (sim_flash_ops page) (addr + of_nat (2 * k)) (ws k)) [0..<Suc n] f =
      boot_page_fill (sim_flash_ops page) (addr + of_nat (2 * n)) (ws n) (fst f, \<lambda>k. if k < n then ws k else snd f k)"
    using Suc by simp
  also have "\<dots> = (fst f, \<lambda>k. if k < Suc n then ws k else snd f k)"
    unfolding f i by (auto simp: less_Suc_eq)
  finally show ?case .
qed simp

lemma erased_cell: "255 AND x = (x :: u8)"
proof -
  have "(255 :: u8) = - 1" by simp
  then show ?thesis by (simp only: and.left_neutral)
qed

lemma sim_page_flash:
  assumes "0 < page" "even page" "page dvd 65536"
  shows "page_flash (sim_flash_ops page) page"
proof
  show "0 < page" "even page" "page dvd 65536" using assms by simp_all
next
  fix buf :: "u8 list" and addr a :: u16 and f :: sim_flash
  assume l: "length buf = page" and al: "page dvd unat addr"
  let ?ws = "\<lambda>k. mk16 (buf ! (2 * k + 1)) (buf ! (2 * k))"
  have "unat addr + page \<le> 65536"
  proof -
    obtain j where j: "unat addr = page * j" using al by (rule dvdE)
    obtain k where k: "65536 = page * k" using assms(3) by (rule dvdE)
    have "page * j < page * k" using unat_u16_less [of addr] unfolding j k .
    then have "page * Suc j \<le> page * k" by (intro mult_le_mono2) simp
    then show ?thesis unfolding j k by simp
  qed
  note fl = sim_fills [OF al this order.refl, of ?ws]
  have e: "boot_page_erase (sim_flash_ops page) addr f = (\<lambda>a. if in_page page addr a then 255 else fst f a, snd f)"
    and r: "pgm_read_byte (sim_flash_ops page) g a = fst g a"
    and w: "boot_page_write (sim_flash_ops page) addr g =
        (\<lambda>a. if in_page page addr a
              then fst g a AND (if even (unat a) then lo8 (snd g (unat a mod page div 2)) else hi8 (snd g (unat a mod page div 2)))
              else fst g a, snd g)" for g
    by (simp_all add: sim_flash_ops_def)
  have "buf ! (unat a - unat addr) =
      (if even (unat a) then lo8 (?ws (unat a mod page div 2)) else hi8 (?ws (unat a mod page div 2)))"
    and "unat a mod page div 2 < page div 2"
    if i: "unat addr \<le> unat a" "unat a < unat addr + page"
  proof -
    obtain j where j: "unat addr = page * j" using al by auto
    have m: "unat a mod page = unat a - unat addr"
    proof -
      have d: "unat a = page * j + (unat a - unat addr)" "unat a - unat addr < page" using i j by simp_all
      have "(page * j + (unat a - unat addr)) mod page = unat a - unat addr" using d(2) by simp
      then show ?thesis using d(1) by simp
    qed
    have ev: "even (unat addr)" using al assms(2) dvd_trans by blast
    let ?k = "unat a mod page div 2"
    have "unat a - unat addr = (if even (unat a) then 2 * ?k else 2 * ?k + 1)"
      unfolding m using ev i(1) by presburger
    then show "buf ! (unat a - unat addr) = (if even (unat a) then lo8 (?ws ?k) else hi8 (?ws ?k))" by simp
    have "unat a mod page < page" using assms(1) by simp
    then show "?k < page div 2" using assms(2) by (auto elim!: evenE)
  qed
  then show "pgm_read_byte (sim_flash_ops page)
        (boot_page_write (sim_flash_ops page) addr
          (fold (\<lambda>k. boot_page_fill (sim_flash_ops page) (addr + of_nat (2 * k)) (?ws k))
            [0..<page div 2] (boot_page_erase (sim_flash_ops page) addr f))) a =
        (if unat addr \<le> unat a \<and> unat a < unat addr + page then buf ! (unat a - unat addr)
         else pgm_read_byte (sim_flash_ops page) f a)"
    unfolding r w fl e in_page_bounds [OF assms(1) al] by (auto simp: erased_cell)
qed

text \<open>The flashes of the two kinds of controllers.\<close>

interpretation flash_m32: page_flash "sim_flash_ops 128" 128
  by (rule sim_page_flash) simp_all

interpretation flash_m644: page_flash "sim_flash_ops 256" 256
  by (rule sim_page_flash) simp_all

end
