(* ===== verification/Flasher.thy ===== *)
theory Flasher
  imports Bootloader "HOL-Library.Monad_Syntax"
begin

text \<open>
  The host's side of a firmware update: the image and its padding,
  \<^verbatim>\<open>src/libhcan++/ihexfile.cc\<close>, and the transfer to a board's boot loader,
  \<^verbatim>\<open>cmd_flash\<close> of \<^verbatim>\<open>src/libhcan++/board_driver.cc\<close>. The board is the
  model of the boot loader; one attempt of the transfer is modelled, \<open>None\<close> where an
  acknowledgement does not come.
\<close>

section \<open>The image\<close>

fun crc16_bits :: "nat \<Rightarrow> u16 \<Rightarrow> u16" where
  "crc16_bits 0 crc = crc"
| "crc16_bits (Suc i) crc = crc16_bits i (if bit crc 0 then drop_bit 1 crc XOR 0xA001 else drop_bit 1 crc)"

definition crc16_update :: "u16 \<Rightarrow> u8 \<Rightarrow> u16" where
  "crc16_update crc a = crc16_bits 8 (crc XOR ucast a)"

text \<open>The two bytes of a word are taken in the order of the boot loader, the high one first.\<close>

fun ihex_crc_loop :: "u16 \<Rightarrow> u8 list \<Rightarrow> u16" where
  "ihex_crc_loop crc (a # b # r) = ihex_crc_loop (crc16_update (crc16_update crc b) a) r"
| "ihex_crc_loop crc _ = crc"

definition ihex_crc16 :: "u8 list \<Rightarrow> u16" where
  "ihex_crc16 d = ihex_crc_loop 0xffff d"

text \<open>
  A line of the file: the length, the record type and the bytes, at fixed places; the address is
  not looked at. \<open>str2hex\<close> reads a number, \<open>None\<close> is the exception for a line that ends
  early.
\<close>

definition substr :: "nat \<Rightarrow> nat \<Rightarrow> string \<Rightarrow> string option" where
  "substr p n s = (if p \<le> length s then Some (take n (drop p s)) else None)"

definition ihex_line :: "(string \<Rightarrow> u8) \<Rightarrow> string \<Rightarrow> u8 list option" where
  "ihex_line str2hex line =
     (if line = [] then Some []
      else do {
        len \<leftarrow> map_option (\<lambda>s. unat (str2hex s)) (substr 1 2 line);
        rectype \<leftarrow> map_option str2hex (substr 7 2 line);
        if rectype \<noteq> 0 then Some []
        else do {
          dataline \<leftarrow> substr 9 (len * 2) line;
          those (map (\<lambda>i. map_option str2hex (substr (i * 2) 2 dataline)) [0..<len]) } })"

text \<open>The padding: the counter has eight bits, so the loop need not end.\<close>

partial_function (option) ihex_pad_loop :: "nat \<Rightarrow> u8 \<Rightarrow> u8 list \<Rightarrow> u8 list option" where
  "ihex_pad_loop n i d = (if unat i < n then ihex_pad_loop n (i + 1) (d @ [0xff]) else Some d)"

definition ihex_pad :: "nat \<Rightarrow> u8 list \<Rightarrow> u8 list option" where
  "ihex_pad page_size d = ihex_pad_loop (page_size - length d mod page_size) 0 d"

definition ihex_load :: "(string \<Rightarrow> u8) \<Rightarrow> nat \<Rightarrow> string list \<Rightarrow> u8 list option" where
  "ihex_load str2hex page_size file =
     do { ds \<leftarrow> those (map (ihex_line str2hex) file); ihex_pad page_size (concat ds) }"

lemma ihex_pad_loop_ends:
  "n \<le> 255 \<Longrightarrow> unat i \<le> n \<Longrightarrow> ihex_pad_loop n i d = Some (d @ replicate (n - unat i) 0xff)"
proof (induction "n - unat i" arbitrary: i d)
  case 0
  then show ?case by (subst ihex_pad_loop.simps) simp
next
  case (Suc k)
  then have l: "unat i < n" by simp
  then have i: "unat (i + 1) = Suc (unat i)" using Suc.prems(1) by (intro unat_inc_u8) simp
  have "ihex_pad_loop n (i + 1) (d @ [0xff]) = Some ((d @ [0xff]) @ replicate (n - unat (i + 1)) 0xff)"
    using Suc.hyps(2) Suc.prems l by (intro Suc.hyps(1)) (simp_all add: i)
  moreover have "0xff # replicate (n - Suc (unat i)) 0xff = replicate (n - unat i) (0xff :: u8)"
    using l by (simp add: Suc_diff_Suc flip: replicate_Suc)
  ultimately show ?case using l by (subst ihex_pad_loop.simps) (simp add: i)
qed

lemma ihex_pad_loop_bound: "ihex_pad_loop n i d = Some r \<Longrightarrow> n \<le> 255"
proof (rule ihex_pad_loop.raw_induct [of "\<lambda>n i d r. n \<le> 255" n i d r])
  fix f :: "nat \<Rightarrow> u8 \<Rightarrow> u8 list \<Rightarrow> u8 list option" and n :: nat and i :: u8 and d r :: "u8 list"
  assume h: "\<And>n i d r. f n i d = Some r \<Longrightarrow> n \<le> 255"
    and e: "(if unat i < n then f n (i + 1) (d @ [0xff]) else Some d) = Some r"
  show "n \<le> 255"
  proof (cases "unat i < n")
    case True
    then show ?thesis using e h by auto
  next
    case False
    then show ?thesis using unat_u8_le [of i] by linarith
  qed
qed

text \<open>
  Loading an image pads it to whole pages, always with at least one byte; but for the
  page size 256 an image that already fills its pages makes the loader loop forever.
\<close>

theorem padding_ends_or_loops:
  assumes "0 < page_size" and "page_size \<le> 256"
  shows "ihex_pad page_size d =
    (if page_size = 256 \<and> 256 dvd length d then None
     else Some (d @ replicate (page_size - length d mod page_size) 0xff))"
proof (cases "page_size = 256 \<and> 256 dvd length d")
  case True
  then have "page_size - length d mod page_size = 256" by simp
  then show ?thesis using ihex_pad_loop_bound [of 256 0 d] True by (cases "ihex_pad_loop 256 0 d") (simp_all add: ihex_pad_def)
next
  case False
  have "page_size - length d mod page_size \<le> 255"
    using False assms by (cases "page_size = 256") (auto simp: dvd_eq_mod_eq_0)
  then show ?thesis using False ihex_pad_loop_ends [of _ 0 d] by (auto simp: ihex_pad_def)
qed

theorem padding_ends_or_loops_witness: "ihex_pad 256 (replicate 512 0) = None"
  using padding_ends_or_loops [of 256 "replicate 512 0"] unfolding length_replicate by simp

section \<open>The transfer\<close>

text \<open>
  A session: the board, and the frames on their way to the host. The host sends a message, which
  the board takes in an iteration of its main loop; iterations without a message change nothing
  while the board is told to stay in the boot loader. \<open>host\<close> is the identifier of the
  host's messages. Receiving takes the next frame, which must be of the type waited for.
\<close>

type_synonym 'f session = "'f bl_state \<times> u8 list list"

definition host_send :: "'f bl_config \<Rightarrow> u32 \<Rightarrow> u8 list \<Rightarrow> 'f session \<Rightarrow> 'f session option" where
  "host_send c host bs s =
     (case bl_iteration c (fst s) (Some (host, bs)) of
        (Runs st, out) \<Rightarrow> Some (st, snd s @ map snd out) | _ \<Rightarrow> None)"

definition host_recv :: "u8 \<Rightarrow> 'f session \<Rightarrow> (u8 list \<times> 'f session) option" where
  "host_recv ty s =
     (case snd s of
        bs # q \<Rightarrow> if take 2 bs = [1, ty] then Some (bs, fst s, q) else None
      | [] \<Rightarrow> None)"

text \<open>Four frames of four bytes, and the lines of a block; the index has eight bits.\<close>

fun send_fills :: "'f bl_config \<Rightarrow> u32 \<Rightarrow> u8 list \<Rightarrow> nat \<Rightarrow> nat \<Rightarrow> u8 \<Rightarrow> 'f session \<Rightarrow> (u8 \<times> 'f session) option" where
  "send_fills c host d offset 0 index s = Some (index, s)"
| "send_fills c host d offset (Suc n) index s =
     do { s \<leftarrow> host_send c host [1, 16, index, d ! (offset + unat index), d ! (offset + unat index + 1),
               d ! (offset + unat index + 2), d ! (offset + unat index + 3)] s;
          send_fills c host d offset n (index + 4) s }"

fun send_lines :: "'f bl_config \<Rightarrow> u32 \<Rightarrow> u8 list \<Rightarrow> nat \<Rightarrow> nat \<Rightarrow> u8 \<Rightarrow> 'f session \<Rightarrow> 'f session option" where
  "send_lines c host d offset 0 index s = Some s"
| "send_lines c host d offset (Suc n) index s =
     do { (index, s) \<leftarrow> send_fills c host d offset 4 index s;
          (_, s) \<leftarrow> host_recv 17 s;
          send_lines c host d offset n index s }"

definition send_block :: "'f bl_config \<Rightarrow> u32 \<Rightarrow> nat \<Rightarrow> u8 list \<Rightarrow> nat \<Rightarrow> 'f session \<Rightarrow> 'f session option" where
  "send_block c host page d block s =
     do { s \<leftarrow> send_lines c host d (block * page) (page div 16) 0 s;
          s \<leftarrow> host_send c host [1, 18, of_nat (block * page), of_nat (block * page div 256)] s;
          (_, s) \<leftarrow> host_recv 19 s;
          Some s }"

text \<open>In the incremental mode a block equal to that of the cached image is left out.\<close>

definition blocks_equal :: "nat \<Rightarrow> u8 list \<Rightarrow> u8 list \<Rightarrow> nat \<Rightarrow> bool" where
  "blocks_equal page d cached block = list_all (\<lambda>i. d ! (block * page + i) = cached ! (block * page + i)) [0..<page]"

fun send_blocks ::
  "'f bl_config \<Rightarrow> u32 \<Rightarrow> nat \<Rightarrow> u8 list \<Rightarrow> u8 list option \<Rightarrow> nat list \<Rightarrow> 'f session \<Rightarrow> 'f session option" where
  "send_blocks c host page d cached [] s = Some s"
| "send_blocks c host page d cached (b # bs) s =
     do { s \<leftarrow> (if (case cached of Some old \<Rightarrow> blocks_equal page d old b | None \<Rightarrow> False) then Some s
               else send_block c host page d b s);
          send_blocks c host page d cached bs s }"

definition load_crc16_from_board :: "'f bl_config \<Rightarrow> u32 \<Rightarrow> u16 \<Rightarrow> 'f session \<Rightarrow> (u16 \<times> 'f session) option" where
  "load_crc16_from_board c host n s =
     do { s \<leftarrow> host_send c host [1, 37, hi8 n, lo8 n] s;
          (bs, s) \<leftarrow> host_recv 38 s;
          Some (mk16 (bs ! 2) (bs ! 3), s) }"

definition write_eeprom_byte :: "'f bl_config \<Rightarrow> u32 \<Rightarrow> u16 \<Rightarrow> u8 \<Rightarrow> 'f session \<Rightarrow> 'f session option" where
  "write_eeprom_byte c host a v s =
     do { s \<leftarrow> host_send c host [1, 20, lo8 a, hi8 a, v] s; (_, s) \<leftarrow> host_recv 21 s; Some s }"

definition write_eeprom_word_le :: "'f bl_config \<Rightarrow> u32 \<Rightarrow> u16 \<Rightarrow> u16 \<Rightarrow> 'f session \<Rightarrow> 'f session option" where
  "write_eeprom_word_le c host a v s =
     do { s \<leftarrow> write_eeprom_byte c host a (lo8 v) s; write_eeprom_byte c host (a + 1) (hi8 v) s }"

definition save_crc16_to_board :: "'f bl_config \<Rightarrow> u32 \<Rightarrow> u16 \<Rightarrow> u16 \<Rightarrow> 'f session \<Rightarrow> 'f session option" where
  "save_crc16_to_board c host crc n s =
     do { s \<leftarrow> write_eeprom_word_le c host (of_nat EEPR_FIRMWARE_CRC16) crc s;
          write_eeprom_word_le c host (of_nat EEPR_FIRMWARE_SIZE) n s }"

text \<open>An attempt ends with the order to start the firmware, or with the exception for a wrong checksum.\<close>

datatype 'f flash_result = Loaded "'f bl_outcome" | Crc_Differs "'f bl_state"

definition cmd_flash :: "'f bl_config \<Rightarrow> u32 \<Rightarrow> nat \<Rightarrow> u8 list \<Rightarrow> u8 list option \<Rightarrow> 'f session \<Rightarrow> 'f flash_result option" where
  "cmd_flash c host page d cached s =
     do { s \<leftarrow> send_blocks c host page d cached [0..<length d div page] s;
          (crc, s) \<leftarrow> load_crc16_from_board c host (of_nat (length d)) s;
          s \<leftarrow> save_crc16_to_board c host crc (of_nat (length d)) s;
          if crc \<noteq> ihex_crc16 d then Some (Crc_Differs (fst s))
          else Some (Loaded (fst (bl_iteration c (fst s) (Some (host, [1, 8]))))) }"

section \<open>One message\<close>

text \<open>A board that waits for messages, and the messages of the host.\<close>

definition waiting :: "'f bl_config \<Rightarrow> u32 \<Rightarrow> 'f bl_state \<Rightarrow> bool" where
  "waiting c host st \<longleftrightarrow> bl_inv c st \<and> bootCounter st = 0 \<and> drop_bit 10 host AND ADDR_MASK = ucast (bl_self_addr st)"

definition with_data :: "u8 list \<Rightarrow> 'f bl_state \<Rightarrow> 'f bl_state" where
  "with_data bs st = st\<lparr>bl_data := bs @ drop (length bs) (bl_data st)\<rparr>"

lemma with_data_sel [simp]:
  "fl (with_data bs st) = fl st" "ee (with_data bs st) = ee st" "flash_buffer (with_data bs st) = flash_buffer st"
  "lineCounter (with_data bs st) = lineCounter st" "bootCounter (with_data bs st) = bootCounter st"
  "bl_self_addr (with_data bs st) = bl_self_addr st"
  by (simp_all add: with_data_def)

lemma waiting_none: "waiting c host st \<Longrightarrow> bl_iteration c st None = (Runs st, [])"
  by (simp add: waiting_def bl_iteration_def bl_receive_def bl_countdown_def)

lemma waiting_handle:
  assumes "waiting c host st" and "bs = 1 # cmd # r"
  shows "bl_receive c st (Some (host, bs)) = bl_handle c (with_data bs st) host"
  using assms by (simp add: waiting_def bl_receive_def with_data_def Let_def)

lemma waiting_countdown: "bootCounter st = 0 \<Longrightarrow> bl_countdown c st = (Runs st, [])"
  by (simp add: bl_countdown_def)

lemma waiting_step:
  assumes "waiting c host st" and "bs = 1 # cmd # r" and "bl_handle c (with_data bs st) host = (Runs st', out)"
    and "bootCounter st' = 0"
  shows "host_send c host bs (st, q) = Some (st', q @ map snd out)"
  using waiting_handle [OF assms(1,2)] assms(3,4)
  by (simp add: host_send_def bl_iteration_def waiting_countdown)

lemma waiting_inv:
  assumes "waiting c host st" and "length bs \<le> 8" and "host_send c host bs (st, q) = Some (st', q')"
    and "bootCounter st' = 0"
  shows "waiting c host st'"
  using bl_iteration_inv [of c st "Some (host, bs)" st'] assms
  by (auto simp: waiting_def host_send_def short_msg_def split: prod.splits bl_outcome.splits)

text \<open>The bytes of a line.\<close>

lemma take_add4:
  assumes "i + 4 \<le> length B" and "i + 4 \<le> length D" and "take i B = take i D"
  shows "take (i + 4) (B[i := D ! i, i + 1 := D ! (i + 1), i + 2 := D ! (i + 2), i + 3 := D ! (i + 3)]) = take (i + 4) D"
proof (rule nth_equalityI)
  show "length (take (i + 4) (B[i := D ! i, i + 1 := D ! (i + 1), i + 2 := D ! (i + 2), i + 3 := D ! (i + 3)])) =
    length (take (i + 4) D)" using assms by simp
next
  fix j assume "j < length (take (i + 4) (B[i := D ! i, i + 1 := D ! (i + 1), i + 2 := D ! (i + 2), i + 3 := D ! (i + 3)]))"
  then have j: "j < i + 4" by simp
  have "j < i \<Longrightarrow> B ! j = D ! j" using assms(3) by (metis nth_take)
  moreover have "j < i \<or> j = i \<or> j = i + 1 \<or> j = i + 2 \<or> j = i + 3" using j by linarith
  ultimately show "take (i + 4) (B[i := D ! i, i + 1 := D ! (i + 1), i + 2 := D ! (i + 2), i + 3 := D ! (i + 3)]) ! j =
    take (i + 4) D ! j"
    using assms(1) j by (auto simp: nth_list_update)
qed

lemma fill_step:
  assumes "waiting c host st" and "unat i + 4 \<le> SPM_PAGESIZE c"
    and "n = (if i AND 0x0f = 0 then 0 else unat (lineCounter st))" and "n \<le> 12"
  shows "\<exists>st'. host_send c host [1, 16, i, a0, a1, a2, a3] (st, q) = Some (st', q @ (if n = 12 then [[1, 17]] else [])) \<and>
    waiting c host st' \<and> fl st' = fl st \<and> ee st' = ee st \<and> unat (lineCounter st') = n + 4 \<and>
    flash_buffer st' = (flash_buffer st)[unat i := a0, unat i + 1 := a1, unat i + 2 := a2, unat i + 3 := a3]"
proof -
  let ?bs = "[1, 16, i, a0, a1, a2, a3]"
  let ?lc = "if i AND 0x0f = 0 then 0 else lineCounter st"
  have b: "bootCounter st = 0" using assms(1) by (simp add: waiting_def)
  have n: "unat ?lc = n" using assms(3) by simp
  have lc: "unat (?lc + 4) = n + 4" using assms(4) n by (subst unat_add_lem [THEN iffD1]) simp_all
  define st1 where "st1 = (with_data ?bs st)
     \<lparr>flash_buffer := (flash_buffer st)[unat i := a0, unat i + 1 := a1, unat i + 2 := a2, unat i + 3 := a3],
      lineCounter := ?lc + 4\<rparr>"
  have d: "bl_data (with_data ?bs st) ! 2 = i" "bl_data (with_data ?bs st) ! 3 = a0" "bl_data (with_data ?bs st) ! 4 = a1"
    "bl_data (with_data ?bs st) ! 5 = a2" "bl_data (with_data ?bs st) ! 6 = a3" "bl_data (with_data ?bs st) ! 1 = 16"
    by (simp_all add: with_data_def)
  have 16: "?lc + 4 \<ge> 16 \<longleftrightarrow> n = 12" using lc assms(4) by (auto simp: word_le_nat_alt)
  have "bl_handle c (with_data ?bs st) host =
      (if ?lc + 4 \<ge> 16 then bl_send st1 host ((bl_data (with_data ?bs st))[1 := 17]) 2 else (Runs st1, []))"
    using assms(2) d by (simp add: bl_handle_def bl_buffer_fill_def Let_def st1_def)
  note h = this [unfolded 16]
  define st' where "st' = (if n = 12 then st1\<lparr>bl_data := (bl_data (with_data ?bs st))[1 := 17]\<rparr> else st1)"
  have t: "take 2 ((bl_data (with_data ?bs st))[1 := 17]) = [1, 17]" by (simp add: with_data_def)
  have h': "bl_handle c (with_data ?bs st) host =
      (Runs st', if n = 12 then [(bl_id (bl_self_addr st) host, [1, 17])] else [])"
    unfolding h using t by (simp add: st'_def bl_send_def st1_def)
  have b': "bootCounter st' = 0" using b by (simp add: st'_def st1_def)
  have s: "host_send c host ?bs (st, q) = Some (st', q @ (if n = 12 then [[1, 17]] else []))"
    using waiting_step [OF assms(1) refl h' b', of q] by simp
  have "waiting c host st'" using waiting_inv [OF assms(1) _ s b'] by simp
  then show ?thesis using s lc by (intro exI [of _ st']) (simp add: st'_def st1_def)
qed

section \<open>A line, a block\<close>

text \<open>What stays: the memories, while the host fills the buffer.\<close>

definition line_filled :: "'f bl_config \<Rightarrow> u32 \<Rightarrow> 'f bl_state \<Rightarrow> 'f bl_state \<Rightarrow> u8 list \<Rightarrow> nat \<Rightarrow> bool" where
  "line_filled c host st st' D i \<longleftrightarrow> waiting c host st' \<and> fl st' = fl st \<and> ee st' = ee st \<and> take i (flash_buffer st') = take i D"

lemma and_0f: "(of_nat i :: u8) AND 0x0f = 0 \<longleftrightarrow> i mod 16 = 0"
proof -
  have "(0x0f :: u8) = mask 4" by (simp add: mask_eq_exp_minus_1)
  then have e: "(of_nat i :: u8) AND 0x0f = take_bit 4 (of_nat i)" by (simp only: take_bit_eq_mask)
  have "unat (take_bit 4 (of_nat i :: u8)) = i mod 16"
    by (simp add: unsigned_take_bit_eq unsigned_of_nat take_bit_eq_mod mod_mod_cancel unat_mod)
  then show ?thesis unfolding e by (simp only: word_unat_eq_iff unsigned_0)
qed

lemma fill_of_block:
  assumes "line_filled c host st0 st D i" and "length D = SPM_PAGESIZE c" and "i + 4 \<le> SPM_PAGESIZE c" and "SPM_PAGESIZE c \<le> 256"
    and "4 dvd i" and "i mod 16 \<noteq> 0 \<longrightarrow> unat (lineCounter st) = i mod 16"
    and "\<forall>j < SPM_PAGESIZE c. d ! (offset + j) = D ! j"
  shows "\<exists>st'. host_send c host [1, 16, of_nat i, d ! (offset + i), d ! (offset + i + 1), d ! (offset + i + 2), d ! (offset + i + 3)] (st, q) =
      Some (st', q @ (if i mod 16 = 12 then [[1, 17]] else [])) \<and>
    line_filled c host st0 st' D (i + 4) \<and> unat (lineCounter st') = i mod 16 + 4"
proof -
  have w: "waiting c host st" using assms(1) by (simp add: line_filled_def)
  have l: "length (flash_buffer st) = SPM_PAGESIZE c" using w by (simp add: waiting_def bl_inv_def)
  have i: "unat (of_nat i :: u8) = i" using assms(3,4) by simp
  obtain k where "i = 4 * k" using assms(5) by (rule dvdE)
  then have "i mod 16 = 4 * (k mod 4)" by (simp add: mult_mod_right)
  moreover have "k mod 4 \<le> 3" using mod_less_divisor [of 4 k] by linarith
  ultimately have "i mod 16 \<le> 12" by simp
  note le12 = this
  have le: "unat (of_nat i :: u8) + 4 \<le> SPM_PAGESIZE c" unfolding i by (fact assms(3))
  have n: "i mod 16 = (if (of_nat i :: u8) AND 0x0f = 0 then 0 else unat (lineCounter st))"
    unfolding and_0f using assms(6) by simp
  from fill_step [OF w le n le12, of "d ! (offset + i)" "d ! (offset + i + 1)" "d ! (offset + i + 2)" "d ! (offset + i + 3)" q]
  obtain st' where s: "host_send c host [1, 16, of_nat i, d ! (offset + i), d ! (offset + i + 1), d ! (offset + i + 2), d ! (offset + i + 3)] (st, q) =
      Some (st', q @ (if i mod 16 = 12 then [[1, 17]] else []))"
    "waiting c host st'" "fl st' = fl st" "ee st' = ee st" "unat (lineCounter st') = i mod 16 + 4"
    "flash_buffer st' = (flash_buffer st)[i := d ! (offset + i), i + 1 := d ! (offset + i + 1), i + 2 := d ! (offset + i + 2), i + 3 := d ! (offset + i + 3)]"
    unfolding i by blast
  have dd: "d ! (offset + i) = D ! i" "d ! (offset + i + 1) = D ! (i + 1)" "d ! (offset + i + 2) = D ! (i + 2)"
    "d ! (offset + i + 3) = D ! (i + 3)"
    using assms(3) assms(7) [rule_format, of i] assms(7) [rule_format, of "i + 1"] assms(7) [rule_format, of "i + 2"]
      assms(7) [rule_format, of "i + 3"] by (simp_all add: add.assoc)
  have "take (i + 4) (flash_buffer st') = take (i + 4) D"
    unfolding s(6) dd using take_add4 [of i "flash_buffer st" D] assms(1-3) l by (simp add: line_filled_def)
  then show ?thesis using s assms(1) by (auto simp: line_filled_def)
qed

lemma send_line:
  assumes "line_filled c host st0 st D i" and "length D = SPM_PAGESIZE c" and "i + 16 \<le> SPM_PAGESIZE c" and "SPM_PAGESIZE c \<le> 256"
    and "16 dvd i" and "\<forall>j < SPM_PAGESIZE c. d ! (offset + j) = D ! j"
  shows "\<exists>st'. send_fills c host d offset 4 (of_nat i) (st, []) = Some (of_nat (i + 16), st', [[1, 17]]) \<and>
    line_filled c host st0 st' D (i + 16)"
proof -
  have m: "i mod 16 = 0" using assms(5) by simp
  have ms: "(i + 4) mod 16 = 4" "(i + 4 + 4) mod 16 = 8" "(i + 4 + 4 + 4) mod 16 = 12" using m by presburger+
  have dv: "4 dvd i" using assms(5) by (rule dvd_trans [rotated]) simp
  have u: "unat (of_nat k :: u8) = k" if "k < i + 16" for k using that assms(3,4) by simp
  obtain st1 where 1: "host_send c host [1, 16, of_nat i, d ! (offset + i), d ! (offset + i + 1), d ! (offset + i + 2), d ! (offset + i + 3)] (st, []) =
      Some (st1, [])" "line_filled c host st0 st1 D (i + 4)" "unat (lineCounter st1) = 4"
    using fill_of_block [OF assms(1,2) _ assms(4) dv _ assms(6), of "[]"] m assms(3) by auto
  obtain st2 where 2: "host_send c host [1, 16, of_nat (i + 4), d ! (offset + (i + 4)), d ! (offset + (i + 4) + 1), d ! (offset + (i + 4) + 2), d ! (offset + (i + 4) + 3)] (st1, []) =
      Some (st2, [])" "line_filled c host st0 st2 D (i + 4 + 4)" "unat (lineCounter st2) = 8"
    using fill_of_block [OF 1(2) assms(2) _ assms(4) _ _ assms(6), of "[]"] 1(3) ms(1) dv assms(3) by auto
  obtain st3 where 3: "host_send c host [1, 16, of_nat (i + 4 + 4), d ! (offset + (i + 4 + 4)), d ! (offset + (i + 4 + 4) + 1), d ! (offset + (i + 4 + 4) + 2), d ! (offset + (i + 4 + 4) + 3)] (st2, []) =
      Some (st3, [])" "line_filled c host st0 st3 D (i + 4 + 4 + 4)" "unat (lineCounter st3) = 12"
    using fill_of_block [OF 2(2) assms(2) _ assms(4) _ _ assms(6), of "[]"] 2(3) ms(2) dv assms(3) by auto
  obtain st4 where 4: "host_send c host [1, 16, of_nat (i + 4 + 4 + 4), d ! (offset + (i + 4 + 4 + 4)), d ! (offset + (i + 4 + 4 + 4) + 1), d ! (offset + (i + 4 + 4 + 4) + 2), d ! (offset + (i + 4 + 4 + 4) + 3)] (st3, []) =
      Some (st4, [[1, 17]])" "line_filled c host st0 st4 D (i + 4 + 4 + 4 + 4)"
    using fill_of_block [OF 3(2) assms(2) _ assms(4) _ _ assms(6), of "[]"] 3(3) ms(3) dv assms(3) by auto
  have f: "send_fills c host d offset (Suc n) (of_nat k) (s, q) =
      host_send c host [1, 16, of_nat k, d ! (offset + k), d ! (offset + k + 1), d ! (offset + k + 2), d ! (offset + k + 3)] (s, q) \<bind>
        send_fills c host d offset n (of_nat (k + 4))" if "k < i + 16" for n k s q
    using u [OF that] by (simp add: add.commute)
  have "send_fills c host d offset (Suc (Suc (Suc (Suc 0)))) (of_nat i) (st, []) = Some (of_nat (i + 4 + 4 + 4 + 4), st4, [[1, 17]])"
    by (simp only: f 1(1) 2(1) 3(1) 4(1) bind.bind_lunit send_fills.simps(1))
  then show ?thesis using 4(2) by (intro exI [of _ st4]) (simp add: eval_nat_numeral)
qed

lemma send_all_lines:
  assumes "length D = SPM_PAGESIZE c" and "SPM_PAGESIZE c \<le> 256" and "\<forall>j < SPM_PAGESIZE c. d ! (offset + j) = D ! j"
  shows "line_filled c host st0 st D i \<Longrightarrow> i + 16 * n = SPM_PAGESIZE c \<Longrightarrow> 16 dvd i \<Longrightarrow>
    \<exists>st'. send_lines c host d offset n (of_nat i) (st, []) = Some (st', []) \<and> line_filled c host st0 st' D (SPM_PAGESIZE c)"
proof (induction n arbitrary: i st)
  case (Suc n)
  have "i + 16 \<le> SPM_PAGESIZE c" using Suc.prems(2) by simp
  from send_line [OF Suc.prems(1) assms(1) this assms(2) Suc.prems(3) assms(3)]
  obtain st1 where 1: "send_fills c host d offset 4 (of_nat i) (st, []) = Some (of_nat (i + 16), st1, [[1, 17]])"
    "line_filled c host st0 st1 D (i + 16)" by blast
  have r: "host_recv 17 (st1, [[1, 17]]) = Some ([1, 17], st1, [])" by (simp add: host_recv_def)
  obtain st2 where 2: "send_lines c host d offset n (of_nat (i + 16)) (st1, []) = Some (st2, [])"
    "line_filled c host st0 st2 D (SPM_PAGESIZE c)"
    using Suc.IH [OF 1(2)] Suc.prems(2,3) by auto
  have "send_lines c host d offset (Suc n) (of_nat i) (st, []) = Some (st2, [])"
    by (simp only: send_lines.simps 1(1) bind.bind_lunit prod.case r 2(1))
  then show ?case using 2(2) by blast
qed simp

text \<open>A message that is answered.\<close>

lemma send_answered:
  assumes "waiting c host st" and "bs = 1 # cmd # r" and "length bs \<le> 8"
    and "bl_handle c (with_data bs st) host = bl_send st1 host d' n" and "bootCounter st1 = 0"
  shows "host_send c host bs (st, q) = Some (st1\<lparr>bl_data := d'\<rparr>, q @ [take n d']) \<and>
    waiting c host (st1\<lparr>bl_data := d'\<rparr>)"
proof -
  have h: "bl_handle c (with_data bs st) host = (Runs (st1\<lparr>bl_data := d'\<rparr>), [(bl_id (bl_self_addr st1) host, take n d')])"
    using assms(4) by (simp add: bl_send_def)
  have b: "bootCounter (st1\<lparr>bl_data := d'\<rparr>) = 0" using assms(5) by simp
  have s: "host_send c host bs (st, q) = Some (st1\<lparr>bl_data := d'\<rparr>, q @ [take n d'])"
    using waiting_step [OF assms(1,2) h b, of q] by simp
  then show ?thesis using waiting_inv [OF assms(1,3) s b] by simp
qed

lemma mk16_of_nat: "x < 65536 \<Longrightarrow> mk16 (of_nat (x div 256)) (of_nat x) = (of_nat x :: u16)"
proof -
  assume x: "x < 65536"
  have h: "hi8 (of_nat x :: u16) = of_nat (x div 256)"
    using x by (simp add: word_unat_eq_iff hi8_def unsigned_ucast_eq unsigned_drop_bit_eq drop_bit_eq_div unat_of_nat unat_div take_bit_eq_mod)
  have l: "lo8 (of_nat x :: u16) = of_nat x" 
    by (simp add: word_unat_eq_iff lo8_def unsigned_ucast_eq unat_of_nat take_bit_eq_mod mod_mod_cancel)
  show ?thesis unfolding h [symmetric] l [symmetric] by simp
qed

lemma block_sent:
  assumes "0 < SPM_PAGESIZE c" and "16 dvd SPM_PAGESIZE c" and "SPM_PAGESIZE c \<le> 256"
    and "waiting c host st" and "b * SPM_PAGESIZE c + SPM_PAGESIZE c \<le> length d" and "length d \<le> 65536"
  shows "\<exists>st'. send_block c host (SPM_PAGESIZE c) d b (st, []) = Some (st', []) \<and> waiting c host st' \<and> ee st' = ee st \<and>
    fl st' = bl_program_page c (of_nat (b * SPM_PAGESIZE c)) (take (SPM_PAGESIZE c) (drop (b * SPM_PAGESIZE c) d)) (fl st)"
proof -
  let ?p = "SPM_PAGESIZE c"
  let ?D = "take ?p (drop (b * ?p) d)"
  have D: "length ?D = ?p" "\<forall>j < ?p. d ! (b * ?p + j) = ?D ! j" using assms(5) by simp_all
  have f: "line_filled c host st st ?D 0" using assms(4) by (simp add: line_filled_def)
  obtain st1 where 1: "send_lines c host d (b * ?p) (?p div 16) 0 (st, []) = Some (st1, [])" "line_filled c host st st1 ?D ?p"
    using send_all_lines [OF D(1) assms(3) D(2) f, of "?p div 16"] assms(2) by auto
  have w: "waiting c host st1" using 1(2) by (simp add: line_filled_def)
  then have "length (flash_buffer st1) = ?p" by (simp add: waiting_def bl_inv_def)
  then have buf: "flash_buffer st1 = ?D" using 1(2) D(1) by (simp add: line_filled_def)
  let ?a = "of_nat (b * ?p) :: u16"
  have a: "b * ?p < 65536" using assms(1,5,6) by linarith
  let ?bs = "[1, 18, of_nat (b * ?p), of_nat (b * ?p div 256)]"
  let ?d = "(bl_data (with_data ?bs st1))[1 := 19]"
  let ?st2 = "(with_data ?bs st1)\<lparr>fl := bl_program_page c ?a ?D (fl st1)\<rparr>"
  have "bl_handle c (with_data ?bs st1) host = bl_send ?st2 host ?d 2"
  proof -
    have d: "bl_data (with_data ?bs st1) ! 1 = 18" "bl_data (with_data ?bs st1) ! 2 = of_nat (b * ?p)"
      "bl_data (with_data ?bs st1) ! 3 = of_nat (b * ?p div 256)" by (simp_all add: with_data_def)
    show ?thesis using d mk16_of_nat [OF a] by (simp add: bl_handle_def buf Let_def)
  qed
  from send_answered [OF w refl _ this, of "[]"] w
  have 2: "host_send c host ?bs (st1, []) = Some (?st2\<lparr>bl_data := ?d\<rparr>, [take 2 ?d])" "waiting c host (?st2\<lparr>bl_data := ?d\<rparr>)"
    by (simp_all add: waiting_def)
  have t: "take 2 ?d = [1, 19]" by (simp add: with_data_def)
  have r: "host_recv 19 (s, [take 2 ?d]) = Some ([1, 19], s, [])" for s :: "'a bl_state"
    unfolding t by (simp add: host_recv_def)
  have "send_block c host ?p d b (st, []) = Some (?st2\<lparr>bl_data := ?d\<rparr>, [])"
    unfolding send_block_def 1(1) bind.bind_lunit 2(1) r prod.case ..
  then show ?thesis using 1(2) 2(2) by (intro exI [of _ "?st2\<lparr>bl_data := ?d\<rparr>"]) (simp add: line_filled_def)
qed

lemma block_programmed:
  assumes "page_flash (bl_flash c) (SPM_PAGESIZE c)" and "16 dvd SPM_PAGESIZE c" and "SPM_PAGESIZE c \<le> 256"
    and "waiting c host st" and "b * SPM_PAGESIZE c + SPM_PAGESIZE c \<le> length d" and "length d \<le> 65536"
  shows "\<exists>st'. send_block c host (SPM_PAGESIZE c) d b (st, []) = Some (st', []) \<and> waiting c host st' \<and> ee st' = ee st \<and>
    (\<forall>a. pgm_read_byte (bl_flash c) (fl st') a =
      (if b * SPM_PAGESIZE c \<le> unat a \<and> unat a < b * SPM_PAGESIZE c + SPM_PAGESIZE c then d ! unat a
       else pgm_read_byte (bl_flash c) (fl st) a))"
proof -
  let ?p = "SPM_PAGESIZE c"
  let ?D = "take ?p (drop (b * ?p) d)" and ?a = "of_nat (b * ?p) :: u16"
  have p: "0 < ?p" using page_flash.page_size [OF assms(1)] by simp
  have D: "length ?D = ?p" using assms(5) by simp
  obtain st' where s: "send_block c host ?p d b (st, []) = Some (st', [])" "waiting c host st'" "ee st' = ee st"
    "fl st' = bl_program_page c ?a ?D (fl st)" using block_sent [OF p assms(2-6)] by blast
  have "b * ?p < 65536" using assms(5,6) p by linarith
  then have u: "unat ?a = b * ?p" by (rule unat_of_nat_u16)
  have "?p dvd unat ?a" unfolding u by simp
  then have "pgm_read_byte (bl_flash c) (fl st') x =
      (if b * ?p \<le> unat x \<and> unat x < b * ?p + ?p then d ! unat x else pgm_read_byte (bl_flash c) (fl st) x)" for x
    using page_flash.program_page [OF assms(1) refl refl D, of ?a "fl st" x] assms(5) unfolding u s(4)
    by (auto simp del: of_nat_mult)
  then show ?thesis using s(1-3) by blast
qed

lemma blocks_sent:
  assumes "0 < SPM_PAGESIZE c" and "16 dvd SPM_PAGESIZE c" and "SPM_PAGESIZE c \<le> 256" and "length d \<le> 65536"
  shows "waiting c host st \<Longrightarrow> \<forall>b \<in> set bs. b < length d div SPM_PAGESIZE c \<Longrightarrow>
    \<exists>st'. send_blocks c host (SPM_PAGESIZE c) d cached bs (st, []) = Some (st', []) \<and> waiting c host st'"
proof (induction bs arbitrary: st)
  case (Cons b bs)
  let ?p = "SPM_PAGESIZE c"
  let ?skip = "case cached of Some old \<Rightarrow> blocks_equal ?p d old b | None \<Rightarrow> False"
  have "Suc b \<le> length d div ?p" using Cons.prems(2) by simp
  then have "b * ?p + ?p \<le> length d" using assms(1) by (simp add: less_eq_div_iff_mult_less_eq algebra_simps)
  from block_sent [OF assms(1-3) Cons.prems(1) this assms(4)]
  obtain st1 where 1: "(if ?skip then Some (st, []) else send_block c host ?p d b (st, [])) = Some (st1, [])" "waiting c host st1"
    using Cons.prems(1) by (cases ?skip) auto
  obtain st2 where 2: "send_blocks c host ?p d cached bs (st1, []) = Some (st2, [])" "waiting c host st2"
    using Cons.IH [OF 1(2)] Cons.prems(2) by auto
  have "send_blocks c host ?p d cached (b # bs) (st, []) = Some (st2, [])"
    unfolding send_blocks.simps 1(1) bind.bind_lunit 2(1) ..
  then show ?case using 2(2) by blast
qed simp

lemma blocks_programmed:
  assumes "page_flash (bl_flash c) (SPM_PAGESIZE c)" and "16 dvd SPM_PAGESIZE c" and "SPM_PAGESIZE c \<le> 256"
    and "length d \<le> 65536"
    and cached: "\<forall>old. cached = Some old \<longrightarrow> length d \<le> length old"
  shows "waiting c host st \<Longrightarrow> b + n \<le> length d div SPM_PAGESIZE c \<Longrightarrow>
    (\<forall>old. cached = Some old \<longrightarrow> (\<forall>a. b * SPM_PAGESIZE c \<le> unat a \<and> unat a < length d \<longrightarrow>
      pgm_read_byte (bl_flash c) (fl st) a = old ! unat a)) \<Longrightarrow>
    (\<forall>a. unat a < b * SPM_PAGESIZE c \<longrightarrow> pgm_read_byte (bl_flash c) (fl st) a = d ! unat a) \<Longrightarrow>
    \<exists>st'. send_blocks c host (SPM_PAGESIZE c) d cached [b..<b + n] (st, []) = Some (st', []) \<and> waiting c host st' \<and>
      ee st' = ee st \<and> (\<forall>a. unat a < (b + n) * SPM_PAGESIZE c \<longrightarrow> pgm_read_byte (bl_flash c) (fl st') a = d ! unat a)"
proof (induction n arbitrary: b st)
  case (Suc n)
  let ?p = "SPM_PAGESIZE c"
  have p: "0 < ?p" using page_flash.page_size [OF assms(1)] by simp
  have "Suc b \<le> length d div ?p" using Suc.prems(2) by simp
  then have l: "b * ?p + ?p \<le> length d" using p by (simp add: less_eq_div_iff_mult_less_eq algebra_simps)
  have l': "x < b * ?p + ?p \<Longrightarrow> x < length d" for x using l by simp
  let ?skip = "case cached of Some old \<Rightarrow> blocks_equal ?p d old b | None \<Rightarrow> False"
  have "\<exists>st1. (if ?skip then Some (st, []) else send_block c host ?p d b (st, [])) = Some (st1, []) \<and> waiting c host st1 \<and>
      ee st1 = ee st \<and>
      (\<forall>a. unat a < b * ?p + ?p \<longrightarrow> pgm_read_byte (bl_flash c) (fl st1) a = d ! unat a) \<and>
      (\<forall>a. b * ?p + ?p \<le> unat a \<longrightarrow> pgm_read_byte (bl_flash c) (fl st1) a = pgm_read_byte (bl_flash c) (fl st) a)"
  proof (cases ?skip)
    case True
    then obtain old where old: "cached = Some old" "blocks_equal ?p d old b" by (auto split: option.splits)
    have "pgm_read_byte (bl_flash c) (fl st) a = d ! unat a" if a: "unat a < b * ?p + ?p" for a
    proof (cases "unat a < b * ?p")
      case False
      have "old ! (b * ?p + i) = d ! (b * ?p + i)" if "i < ?p" for i
        using old(2) that by (simp add: blocks_equal_def list_all_iff)
      from this [of "unat a - b * ?p"] have "old ! unat a = d ! unat a" using a False by simp
      then show ?thesis using Suc.prems(3) old(1) False l' [OF a] by simp
    qed (use Suc.prems(4) in simp)
    then show ?thesis using True Suc.prems(1) by auto
  next
    case False
    from block_programmed [OF assms(1-3) Suc.prems(1) l assms(4)]
    obtain st1 where s: "send_block c host ?p d b (st, []) = Some (st1, [])" "waiting c host st1" "ee st1 = ee st"
      "\<forall>a. pgm_read_byte (bl_flash c) (fl st1) a = (if b * ?p \<le> unat a \<and> unat a < b * ?p + ?p then d ! unat a
         else pgm_read_byte (bl_flash c) (fl st) a)" by blast
    then show ?thesis using False Suc.prems(4) by (intro exI [of _ st1]) auto
  qed
  then obtain st1 where 1: "(if ?skip then Some (st, []) else send_block c host ?p d b (st, [])) = Some (st1, [])"
    "waiting c host st1" "ee st1 = ee st"
    "\<forall>a. unat a < b * ?p + ?p \<longrightarrow> pgm_read_byte (bl_flash c) (fl st1) a = d ! unat a"
    "\<forall>a. b * ?p + ?p \<le> unat a \<longrightarrow> pgm_read_byte (bl_flash c) (fl st1) a = pgm_read_byte (bl_flash c) (fl st) a"
    by blast
  have m: "Suc b * ?p = b * ?p + ?p" by simp
  have "\<exists>st'. send_blocks c host ?p d cached [Suc b..<Suc b + n] (st1, []) = Some (st', []) \<and> waiting c host st' \<and>
      ee st' = ee st1 \<and> (\<forall>a. unat a < (Suc b + n) * ?p \<longrightarrow> pgm_read_byte (bl_flash c) (fl st') a = d ! unat a)"
    by (rule Suc.IH [OF 1(2)]) (use Suc.prems 1(4,5) in \<open>simp_all add: m\<close>)
  then obtain st2 where 2: "send_blocks c host ?p d cached [Suc b..<Suc b + n] (st1, []) = Some (st2, [])" "waiting c host st2"
    "ee st2 = ee st1" "\<forall>a. unat a < (Suc b + n) * ?p \<longrightarrow> pgm_read_byte (bl_flash c) (fl st2) a = d ! unat a"
    by blast
  have u: "[b..<b + Suc n] = b # [Suc b..<Suc b + n]" by (simp add: upt_rec)
  have "send_blocks c host ?p d cached [b..<b + Suc n] (st, []) = Some (st2, [])"
    unfolding u send_blocks.simps 1(1) bind.bind_lunit 2(1) ..
  then show ?case using 1(3) 2 by auto
qed simp

section \<open>The checksum and its storage\<close>

text \<open>The loops of board and host over the same bytes.\<close>

lemma crc_loops_agree:
  assumes "\<forall>crc a. bl_crc16_update c crc a = crc16_update crc a"
  shows "(\<forall>a. unat p \<le> unat a \<and> unat a < unat p + length d \<longrightarrow> pgm_read_byte (bl_flash c) f a = d ! (unat a - unat p)) \<Longrightarrow>
    even (length d) \<Longrightarrow> unat p + length d < 65536 \<Longrightarrow>
    crc16_loop c f (length d div 2) crc p = ihex_crc_loop crc d"
proof (induction crc d arbitrary: p rule: ihex_crc_loop.induct)
  case (1 crc a b r)
  have p1: "unat (p + 1) = unat p + 1" using "1.prems"(3) by (simp add: unat_inc_u16)
  have p2: "unat (p + 2) = unat p + 2"
  proof -
    have "unat (p + 1 + 1) = unat p + 2" using "1.prems"(3) p1 by (subst unat_inc_u16) simp_all
    then show ?thesis by (simp add: add.assoc)
  qed
  have "pgm_read_byte (bl_flash c) f p = a" "pgm_read_byte (bl_flash c) f (p + 1) = b"
    using "1.prems"(1) [rule_format, of p] "1.prems"(1) [rule_format, of "p + 1"] p1 by simp_all
  then have w: "hi8 (pgm_read_word c f p) = b" "lo8 (pgm_read_word c f p) = a" by (simp_all add: pgm_read_word_def)
  have "crc16_loop c f (length r div 2) (crc16_update (crc16_update crc b) a) (p + 2) =
      ihex_crc_loop (crc16_update (crc16_update crc b) a) r"
  proof (rule "1.IH")
    show "\<forall>x. unat (p + 2) \<le> unat x \<and> unat x < unat (p + 2) + length r \<longrightarrow>
        pgm_read_byte (bl_flash c) f x = r ! (unat x - unat (p + 2))"
    proof (intro allI impI)
      fix x :: u16 assume x: "unat (p + 2) \<le> unat x \<and> unat x < unat (p + 2) + length r"
      then have "unat x - unat p = Suc (Suc (unat x - unat (p + 2)))" unfolding p2 by arith
      then show "pgm_read_byte (bl_flash c) f x = r ! (unat x - unat (p + 2))"
        using "1.prems"(1) [rule_format, of x] x unfolding p2 by simp
    qed
  qed (use "1.prems" p2 in simp_all)
  then show ?case using assms by (simp add: w Let_def)
qed simp_all

lemma board_crc:
  assumes "\<forall>crc a. bl_crc16_update c crc a = crc16_update crc a"
    and "\<forall>a. unat a < length d \<longrightarrow> pgm_read_byte (bl_flash c) f a = d ! unat a"
    and "even (length d)" and "length d < 65536"
  shows "calculate_crc16_over_flash c f (of_nat (length d)) = ihex_crc16 d"
proof -
  have "unat (drop_bit 1 (of_nat (length d) :: u16)) = length d div 2"
    using assms(4) by (simp add: unsigned_drop_bit_eq unat_of_nat take_bit_eq_mod drop_bit_eq_div unat_div)
  then show ?thesis
    using crc_loops_agree [OF assms(1), where p = 0 and d = d and f = f and crc = "0xffff"] assms(2-4)
    by (simp add: calculate_crc16_over_flash_def ihex_crc16_def)
qed

lemma crc_loaded:
  assumes "waiting c host st"
  shows "\<exists>st'. load_crc16_from_board c host n (st, []) = Some (calculate_crc16_over_flash c (fl st) n, st', []) \<and>
    waiting c host st' \<and> fl st' = fl st \<and> ee st' = ee st"
proof -
  let ?bs = "[1, 37, hi8 n, lo8 n]" and ?sum = "calculate_crc16_over_flash c (fl st) n"
  let ?d = "(bl_data (with_data ?bs st))[1 := 38, 2 := hi8 ?sum, 3 := lo8 ?sum]"
  have "bl_handle c (with_data ?bs st) host = bl_send (with_data ?bs st) host ?d 4"
  proof -
    have "bl_data (with_data ?bs st) ! 1 = 37" "bl_data (with_data ?bs st) ! 2 = hi8 n" "bl_data (with_data ?bs st) ! 3 = lo8 n"
      by (simp_all add: with_data_def)
    then show ?thesis by (simp add: bl_handle_def Let_def)
  qed
  from send_answered [OF assms refl _ this, of "[]"] assms
  have s: "host_send c host ?bs (st, []) = Some ((with_data ?bs st)\<lparr>bl_data := ?d\<rparr>, [take 4 ?d])"
    "waiting c host ((with_data ?bs st)\<lparr>bl_data := ?d\<rparr>)" by (simp_all add: waiting_def)
  have t: "take 4 ?d = [1, 38, hi8 ?sum, lo8 ?sum]" by (simp add: with_data_def)
  have r: "host_recv 38 (x, [take 4 ?d]) = Some (take 4 ?d, x, [])" for x :: "'a bl_state"
    unfolding t by (simp add: host_recv_def)
  have "load_crc16_from_board c host n (st, []) = Some (mk16 (take 4 ?d ! 2) (take 4 ?d ! 3), (with_data ?bs st)\<lparr>bl_data := ?d\<rparr>, [])"
    unfolding load_crc16_from_board_def s(1) bind.bind_lunit r prod.case ..
  then show ?thesis using s(2) unfolding t by auto
qed

lemma eeprom_byte_written:
  assumes "waiting c host st"
  shows "\<exists>st'. write_eeprom_byte c host a v (st, []) = Some (st', []) \<and> waiting c host st' \<and> fl st' = fl st \<and>
    ee st' = (ee st)(unat a := v)"
proof -
  let ?bs = "[1, 20, lo8 a, hi8 a, v]"
  let ?d = "(bl_data (with_data ?bs st))[1 := 21]" and ?st1 = "(with_data ?bs st)\<lparr>ee := (ee st)(unat a := v)\<rparr>"
  have "bl_handle c (with_data ?bs st) host = bl_send ?st1 host ?d 2"
  proof -
    have "bl_data (with_data ?bs st) ! 1 = 20" "bl_data (with_data ?bs st) ! 2 = lo8 a" "bl_data (with_data ?bs st) ! 3 = hi8 a"
      "bl_data (with_data ?bs st) ! 4 = v"
      by (simp_all add: with_data_def)
    then show ?thesis by (simp add: bl_handle_def Let_def)
  qed
  from send_answered [OF assms refl _ this, of "[]"] assms
  have s: "host_send c host ?bs (st, []) = Some (?st1\<lparr>bl_data := ?d\<rparr>, [take 2 ?d])"
    "waiting c host (?st1\<lparr>bl_data := ?d\<rparr>)" by (simp_all add: waiting_def)
  have t: "take 2 ?d = [1, 21]" by (simp add: with_data_def)
  have r: "host_recv 21 (x, [take 2 ?d]) = Some ([1, 21], x, [])" for x :: "'a bl_state"
    unfolding t by (simp add: host_recv_def)
  have "write_eeprom_byte c host a v (st, []) = Some (?st1\<lparr>bl_data := ?d\<rparr>, [])"
    unfolding write_eeprom_byte_def s(1) bind.bind_lunit r prod.case ..
  then show ?thesis using s(2) by (intro exI [of _ "?st1\<lparr>bl_data := ?d\<rparr>"]) simp
qed

lemma crc_saved:
  assumes "waiting c host st"
  shows "\<exists>st'. save_crc16_to_board c host crc n (st, []) = Some (st', []) \<and> waiting c host st' \<and> fl st' = fl st \<and>
    eeprom_read_word (ee st') EEPR_FIRMWARE_SIZE = n \<and> eeprom_read_word (ee st') EEPR_FIRMWARE_CRC16 = crc"
proof -
  obtain st1 where 1: "write_eeprom_byte c host 16 (lo8 crc) (st, []) = Some (st1, [])" "waiting c host st1" "fl st1 = fl st"
    "ee st1 = (ee st)(16 := lo8 crc)" using eeprom_byte_written [OF assms, of 16 "lo8 crc"] by auto
  obtain st2 where 2: "write_eeprom_byte c host 17 (hi8 crc) (st1, []) = Some (st2, [])" "waiting c host st2" "fl st2 = fl st1"
    "ee st2 = (ee st1)(17 := hi8 crc)" using eeprom_byte_written [OF 1(2), of 17 "hi8 crc"] by auto
  obtain st3 where 3: "write_eeprom_byte c host 18 (lo8 n) (st2, []) = Some (st3, [])" "waiting c host st3" "fl st3 = fl st2"
    "ee st3 = (ee st2)(18 := lo8 n)" using eeprom_byte_written [OF 2(2), of 18 "lo8 n"] by auto
  obtain st4 where 4: "write_eeprom_byte c host 19 (hi8 n) (st3, []) = Some (st4, [])" "waiting c host st4" "fl st4 = fl st3"
    "ee st4 = (ee st3)(19 := hi8 n)" using eeprom_byte_written [OF 3(2), of 19 "hi8 n"] by auto
  have "save_crc16_to_board c host crc n (st, []) = Some (st4, [])"
    by (simp add: save_crc16_to_board_def write_eeprom_word_le_def 1(1) 2(1) 3(1) 4(1))
  then show ?thesis using 4 3 2 1 by (intro exI [of _ st4]) (simp add: eeprom_read_word_def)
qed

text \<open>The end of a transfer, with whatever the flash holds by then.\<close>

lemma transfer_end:
  assumes "send_blocks c host page d cached [0..<length d div page] (st, []) = Some (st1, [])" and "waiting c host st1"
  shows "\<exists>st2. waiting c host st2 \<and> fl st2 = fl st1 \<and> check_firmware c st2 \<and>
    cmd_flash c host page d cached (st, []) =
      Some (if calculate_crc16_over_flash c (fl st1) (of_nat (length d)) \<noteq> ihex_crc16 d then Crc_Differs st2
            else Loaded (fst (bl_iteration c st2 (Some (host, [1, 8])))))"
proof -
  let ?n = "of_nat (length d) :: u16"
  obtain st2 where 2: "load_crc16_from_board c host ?n (st1, []) = Some (calculate_crc16_over_flash c (fl st1) ?n, st2, [])"
    "waiting c host st2" "fl st2 = fl st1" using crc_loaded [OF assms(2)] by blast
  obtain st3 where 3: "save_crc16_to_board c host (calculate_crc16_over_flash c (fl st1) ?n) ?n (st2, []) = Some (st3, [])"
    "waiting c host st3" "fl st3 = fl st2" "eeprom_read_word (ee st3) EEPR_FIRMWARE_SIZE = ?n"
    "eeprom_read_word (ee st3) EEPR_FIRMWARE_CRC16 = calculate_crc16_over_flash c (fl st1) ?n" using crc_saved [OF 2(2)] by blast
  have "check_firmware c st3" unfolding check_firmware_def 3(3-5) 2(3) ..
  moreover have "cmd_flash c host page d cached (st, []) =
      Some (if calculate_crc16_over_flash c (fl st1) ?n \<noteq> ihex_crc16 d then Crc_Differs st3
            else Loaded (fst (bl_iteration c st3 (Some (host, [1, 8])))))"
    unfolding cmd_flash_def assms(1) bind.bind_lunit 2(1) prod.case 3(1) fst_conv by simp
  ultimately show ?thesis using 3(2,3) 2(3) by (intro exI [of _ st3]) simp
qed

lemma load_app:
  assumes "waiting c host st"
  shows "fst (bl_iteration c st (Some (host, [1, 8]))) = Starts_App (with_data [1, 8] st)"
proof -
  have "bl_data (with_data [1, 8] st) ! 1 = 8" by (simp add: with_data_def)
  then show ?thesis
    using waiting_handle [OF assms refl, of 8 "[]"] by (simp add: bl_iteration_cases bl_handle_def Let_def)
qed

text \<open>
  Property C38. A firmware update installs the image: a host that transfers an image of whole pages
  to a board that waits in its boot loader, in full or incrementally over a cached image the
  board's flash holds, gets all acknowledgements; afterwards the flash holds the image, its size
  and checksum are stored so that the boot loader's check accepts it, and it is started.
\<close>

theorem update_installs_image:
  assumes "page_flash (bl_flash c) (SPM_PAGESIZE c)" and "16 dvd SPM_PAGESIZE c" and "SPM_PAGESIZE c \<le> 256"
    and "\<forall>crc a. bl_crc16_update c crc a = crc16_update crc a"
    and "waiting c host st" and "SPM_PAGESIZE c dvd length d" and "length d < 65536"
    and "\<forall>old. cached = Some old \<longrightarrow> length d \<le> length old \<and>
      (\<forall>a. unat a < length d \<longrightarrow> pgm_read_byte (bl_flash c) (fl st) a = old ! unat a)"
  shows "\<exists>st'. cmd_flash c host (SPM_PAGESIZE c) d cached (st, []) = Some (Loaded (Starts_App st')) \<and>
    (\<forall>a. unat a < length d \<longrightarrow> pgm_read_byte (bl_flash c) (fl st') a = d ! unat a) \<and> check_firmware c st'"
proof -
  let ?p = "SPM_PAGESIZE c" and ?n = "length d div SPM_PAGESIZE c"
  have n: "?n * ?p = length d" using assms(6) by simp
  have "\<exists>st'. send_blocks c host ?p d cached [0..<0 + ?n] (st, []) = Some (st', []) \<and> waiting c host st' \<and> ee st' = ee st \<and>
      (\<forall>a. unat a < (0 + ?n) * ?p \<longrightarrow> pgm_read_byte (bl_flash c) (fl st') a = d ! unat a)"
    by (rule blocks_programmed [OF assms(1-3) _ _ assms(5)]) (use assms(7,8) in auto)
  then obtain st1 where 1: "send_blocks c host ?p d cached [0..<?n] (st, []) = Some (st1, [])" "waiting c host st1"
    "\<forall>a. unat a < length d \<longrightarrow> pgm_read_byte (bl_flash c) (fl st1) a = d ! unat a" by (auto simp: n)
  have "even ?p" using assms(2) by (rule dvd_trans [rotated]) simp
  then have "even (length d)" using assms(6) dvd_trans by blast
  then have "calculate_crc16_over_flash c (fl st1) (of_nat (length d)) = ihex_crc16 d"
    using board_crc [OF assms(4) 1(3)] assms(7) by simp
  with transfer_end [OF 1(1,2)] obtain st2 where 2: "waiting c host st2" "fl st2 = fl st1" "check_firmware c st2"
    "cmd_flash c host ?p d cached (st, []) = Some (Loaded (fst (bl_iteration c st2 (Some (host, [1, 8])))))" by auto
  have "check_firmware c (with_data [1, 8] st2)" using 2(3) by (simp add: check_firmware_def)
  then show ?thesis using 2 1(3) unfolding load_app [OF 2(1)] by (intro exI [of _ "with_data [1, 8] st2"]) simp
qed

definition crc_host :: u32 where
  "crc_host = bl_id 900 0x123"

definition fresh_board :: "'f \<Rightarrow> 'f bl_state" where
  "fresh_board f = \<lparr>fl = f, ee = (\<lambda>_. 255), bl_self_addr = 0x123, bootCounter = 0, lineCounter = 0,
     flash_buffer = replicate 128 0, bl_data = replicate 8 0\<rparr>"

definition m32_config :: "'f flash_ops \<Rightarrow> 'f bl_config" where
  "m32_config ops = \<lparr>bl_mcu = ATmega32, SIGNATURE = (0x95, 2), SPM_PAGESIZE = 128, bl_flash = ops,
     bl_crc16_update = crc16_update\<rparr>"

lemma fresh_board_waits: "waiting (m32_config ops) crc_host (fresh_board f)"
  by (simp add: waiting_def bl_inv_def m32_config_def fresh_board_def crc_host_def bl_id_def)

theorem update_installs_image_witness:
  "\<exists>st'. cmd_flash (m32_config (sim_flash_ops 128)) crc_host 128 (replicate 256 0x42) None
      (fresh_board (\<lambda>_. 0xff, \<lambda>_. 0), []) = Some (Loaded (Starts_App st')) \<and>
    fst (fl st') 200 = 0x42"
proof -
  let ?c = "m32_config (sim_flash_ops 128)" and ?d = "replicate 256 (0x42 :: u8)"
  have p: "SPM_PAGESIZE ?c = 128" "bl_flash ?c = sim_flash_ops 128" by (simp_all add: m32_config_def)
  have f: "page_flash (bl_flash ?c) (SPM_PAGESIZE ?c)" unfolding p by (rule sim_page_flash) simp_all
  have d: "16 dvd SPM_PAGESIZE ?c" "SPM_PAGESIZE ?c \<le> 256" "SPM_PAGESIZE ?c dvd length ?d" "length ?d < 65536"
    unfolding p length_replicate by simp_all
  have c: "\<forall>crc a. bl_crc16_update ?c crc a = crc16_update crc a" by (simp add: m32_config_def)
  obtain st' where s: "cmd_flash ?c crc_host (SPM_PAGESIZE ?c) ?d None (fresh_board (\<lambda>_. 0xff, \<lambda>_. 0), []) =
      Some (Loaded (Starts_App st'))"
    "\<forall>a. unat a < length ?d \<longrightarrow> pgm_read_byte (bl_flash ?c) (fl st') a = ?d ! unat a"
    using update_installs_image [OF f d(1,2) c fresh_board_waits d(3,4), of None "(\<lambda>_. 0xff, \<lambda>_. 0)"] by blast
  have "unat (200 :: u16) < 256" by simp
  then have "pgm_read_byte (bl_flash ?c) (fl st') 200 = 0x42"
    using s(2) [rule_format, of 200] nth_replicate [of "unat (200 :: u16)" 256 "0x42 :: u8"] unfolding length_replicate by simp
  then show ?thesis using s(1) unfolding p by (intro exI [of _ st']) (simp add: sim_flash_ops_def)
qed

text \<open>
  A failed update is not noticed at the next start. Whatever the programming
  instructions do to the flash, the transfer gets all its acknowledgements, and also when it ends
  with the error that the checksums differ, the host has before stored the checksum of what is in
  the flash as the right one: the boot loader's check accepts the board's flash in either case.
\<close>

theorem failed_update_is_accepted:
  assumes "0 < SPM_PAGESIZE c" and "16 dvd SPM_PAGESIZE c" and "SPM_PAGESIZE c \<le> 256" and "waiting c host st"
    and "length d < 65536"
  shows "\<exists>st2. check_firmware c st2 \<and>
    (cmd_flash c host (SPM_PAGESIZE c) d cached (st, []) = Some (Crc_Differs st2) \<or>
     cmd_flash c host (SPM_PAGESIZE c) d cached (st, []) = Some (Loaded (Starts_App st2)))"
proof -
  have d: "length d \<le> 65536" "\<forall>b \<in> set [0..<length d div SPM_PAGESIZE c]. b < length d div SPM_PAGESIZE c"
    using assms(5) by simp_all
  obtain st1 where 1: "send_blocks c host (SPM_PAGESIZE c) d cached [0..<length d div SPM_PAGESIZE c] (st, []) = Some (st1, [])"
    "waiting c host st1" using blocks_sent [OF assms(1-3) d(1) assms(4) d(2)] by blast
  obtain st2 where 2: "waiting c host st2" "check_firmware c st2" "cmd_flash c host (SPM_PAGESIZE c) d cached (st, []) =
      Some (if calculate_crc16_over_flash c (fl st1) (of_nat (length d)) \<noteq> ihex_crc16 d then Crc_Differs st2
            else Loaded (fst (bl_iteration c st2 (Some (host, [1, 8])))))" using transfer_end [OF 1] by blast
  have "check_firmware c (with_data [1, 8] st2)" using 2(2) by (simp add: check_firmware_def)
  then show ?thesis using 2(2,3) unfolding load_app [OF 2(1)] by (auto split: if_splits)
qed

text \<open>A worn-out flash that stays empty.\<close>

definition worn_out :: "unit flash_ops" where
  "worn_out = \<lparr>pgm_read_byte = (\<lambda>_ _. 0xff), boot_page_erase = (\<lambda>_ f. f), boot_page_fill = (\<lambda>_ _ f. f),
     boot_page_write = (\<lambda>_ f. f)\<rparr>"

theorem failed_update_is_accepted_witness:
  "\<exists>st2. check_firmware (m32_config worn_out) st2 \<and>
    (cmd_flash (m32_config worn_out) crc_host 128 (replicate 128 0x42) None (fresh_board (), []) = Some (Crc_Differs st2) \<or>
     cmd_flash (m32_config worn_out) crc_host 128 (replicate 128 0x42) None (fresh_board (), []) = Some (Loaded (Starts_App st2)))"
proof -
  have p: "SPM_PAGESIZE (m32_config worn_out) = 128" by (simp add: m32_config_def)
  have h: "0 < SPM_PAGESIZE (m32_config worn_out)" "16 dvd SPM_PAGESIZE (m32_config worn_out)"
    "SPM_PAGESIZE (m32_config worn_out) \<le> 256" "length (replicate 128 (0x42 :: u8)) < 65536"
    unfolding p length_replicate by simp_all
  from failed_update_is_accepted [OF h(1-3) fresh_board_waits h(4), of None "()"] show ?thesis unfolding p .
qed

end
