(* ===== verification/Texts.thy ===== *)
theory Texts
  imports Hcan_Prelude
begin

text \<open>
  Numbers in texts, as the C and C++ libraries write and read them: the digits of
  \<^verbatim>\<open>printf\<close> and \<^verbatim>\<open>operator <<\<close>, and what
  \<^verbatim>\<open>istream\<close> takes from a text with \<^verbatim>\<open>operator >>\<close> for a
  word and for an integer.
\<close>

section \<open>Writing\<close>

fun dec_digits :: "nat \<Rightarrow> string" where
  "dec_digits n = (if n < 10 then [char_of (48 + n)] else dec_digits (n div 10) @ [char_of (48 + n mod 10)])"

declare dec_digits.simps [simp del]

definition show_nat :: "nat \<Rightarrow> string" where
  "show_nat n = dec_digits n"

section \<open>Reading\<close>

definition cxx_isspace :: "char \<Rightarrow> bool" where
  "cxx_isspace c \<longleftrightarrow> of_char c \<in> {9..13 :: nat} \<union> {32}"

definition cxx_isdigit :: "char \<Rightarrow> bool" where
  "cxx_isdigit c \<longleftrightarrow> of_char c \<in> {48..57 :: nat}"

definition digit_value :: "char \<Rightarrow> nat" where
  "digit_value c = of_char c - 48"

definition number_of :: "string \<Rightarrow> nat" where
  "number_of ds = foldl (\<lambda>n c. n * 10 + digit_value c) 0 ds"

text \<open>
  \<^verbatim>\<open>is >> s\<close> for a \<^verbatim>\<open>string\<close>: \<open>None\<close> where nothing
  is left, and then the variable keeps its value; and what is left of the stream.
\<close>

definition read_word :: "string \<Rightarrow> string option \<times> string" where
  "read_word is =
     (let t = dropWhile cxx_isspace is in
      if t = [] then (None, []) else (Some (takeWhile (\<lambda>c. \<not> cxx_isspace c) t), dropWhile (\<lambda>c. \<not> cxx_isspace c) t))"

text \<open>
  \<^verbatim>\<open>is >> n\<close> for an integer from \<open>lo\<close> to \<open>hi\<close>: a sign and digits;
  \<open>None\<close> where the stream is at its end, and then the variable keeps its value; 0 without a digit; the next
  limit outside the range. An unsigned integer takes a negative number as its complement.
\<close>

definition read_number :: "int \<Rightarrow> int \<Rightarrow> string \<Rightarrow> int option" where
  "read_number lo hi is =
     (let t = dropWhile cxx_isspace is;
          neg = (t \<noteq> [] \<and> hd t = CHR ''-'');
          t' = (if t \<noteq> [] \<and> (hd t = CHR ''-'' \<or> hd t = CHR ''+'') then tl t else t);
          ds = takeWhile cxx_isdigit t';
          n = int (number_of ds) in
      if t = [] then None
      else if ds = [] then Some 0
      else if lo = 0 then Some (if n > hi then hi else if neg then (- n) mod (hi + 1) else n)
      else Some (max lo (min hi (if neg then - n else n))))"

definition read_int :: "string \<Rightarrow> int option" where
  "read_int is = read_number (- 2147483648) 2147483647 is"

definition read_u16 :: "string \<Rightarrow> u16 option" where
  "read_u16 is = map_option word_of_int (read_number 0 65535 is)"

section \<open>What is written is read back\<close>

lemma char_of_digit: "k < 10 \<Longrightarrow> of_char (char_of (48 + k) :: char) = (48 + k :: nat)"
  by (simp add: take_bit_nat_eq_self)

lemma digit_facts [simp]:
  "k < 10 \<Longrightarrow> cxx_isdigit (char_of (48 + k))" "k < 10 \<Longrightarrow> \<not> cxx_isspace (char_of (48 + k))"
  "k < 10 \<Longrightarrow> digit_value (char_of (48 + k)) = k"
  unfolding cxx_isdigit_def cxx_isspace_def digit_value_def by (simp_all add: char_of_digit)

lemma dec_digits_digits: "\<forall>c \<in> set (dec_digits n). cxx_isdigit c"
proof (induction n rule: dec_digits.induct)
  case (1 n)
  then show ?case by (subst dec_digits.simps) auto
qed

lemma digit_no_space: "cxx_isdigit c \<Longrightarrow> \<not> cxx_isspace c"
  by (auto simp: cxx_isdigit_def cxx_isspace_def)

lemma dec_digits_nonempty [simp]: "dec_digits n \<noteq> []"
  by (subst dec_digits.simps) simp

lemma number_of_snoc [simp]: "number_of [] = 0" "number_of (ds @ [c]) = number_of ds * 10 + digit_value c"
  by (simp_all add: number_of_def)

lemma number_of_dec_digits [simp]: "number_of (dec_digits n) = n"
proof (induction n rule: dec_digits.induct)
  case (1 n)
  show ?case
  proof (cases "n < 10")
    case True
    then show ?thesis using number_of_snoc(2) [of "[]" "char_of (48 + n)"]
      by (subst dec_digits.simps) (simp add: number_of_def)
  next
    case False
    with 1 show ?thesis by (subst dec_digits.simps) simp
  qed
qed

lemma takeWhile_all_then: "\<forall>x \<in> set xs. P x \<Longrightarrow> takeWhile P (xs @ ys) = xs @ takeWhile P ys"
  by (induction xs) auto

lemma dropWhile_all_then: "\<forall>x \<in> set xs. P x \<Longrightarrow> dropWhile P (xs @ ys) = dropWhile P ys"
  by (induction xs) auto

lemma dropWhile_none: "xs = [] \<or> \<not> P (hd xs) \<Longrightarrow> dropWhile P xs = xs"
  by (cases xs) auto

lemma hd_dec_digits: "cxx_isdigit (hd (dec_digits n))"
  using dec_digits_digits [of n] by (cases "dec_digits n") simp_all

lemma read_number_digits:
  assumes "lo \<le> 0" and "int n \<le> hi" and "ys = [] \<or> \<not> cxx_isdigit (hd ys)"
  shows "read_number lo hi (dec_digits n @ ys) = Some (int n)"
proof -
  have h: "cxx_isdigit (hd (dec_digits n @ ys))" using hd_dec_digits by simp
  then have d: "dropWhile cxx_isspace (dec_digits n @ ys) = dec_digits n @ ys"
    by (intro dropWhile_none) (simp add: digit_no_space)
  have s: "hd (dec_digits n @ ys) \<noteq> CHR ''-''" "hd (dec_digits n @ ys) \<noteq> CHR ''+''"
    using h by (auto simp: cxx_isdigit_def)
  have "takeWhile cxx_isdigit ys = []" using assms(3) by (cases ys) auto
  then have t: "takeWhile cxx_isdigit (dec_digits n @ ys) = dec_digits n"
    using dec_digits_digits by (simp add: takeWhile_all_then)
  show ?thesis
    unfolding read_number_def Let_def d using s t assms(1,2) by simp
qed

lemma read_word_word:
  assumes "w \<noteq> []" and "\<forall>c \<in> set w. \<not> cxx_isspace c" and "\<forall>c \<in> set sp. cxx_isspace c" and "ys = [] \<or> cxx_isspace (hd ys)"
  shows "read_word (sp @ w @ ys) = (Some w, ys)"
proof -
  have d: "dropWhile cxx_isspace (sp @ w @ ys) = w @ ys"
    using assms by (simp add: dropWhile_all_then dropWhile_none)
  have "takeWhile (\<lambda>c. \<not> cxx_isspace c) (w @ ys) = w" "dropWhile (\<lambda>c. \<not> cxx_isspace c) (w @ ys) = ys"
    using assms by (cases ys; simp add: takeWhile_all_then dropWhile_all_then)+
  then show ?thesis using assms(1) by (simp add: read_word_def d)
qed

lemma read_word_shorter: "r \<noteq> [] \<Longrightarrow> length (snd (read_word r)) < length r"
proof -
  assume "r \<noteq> []"
  define t where "t = dropWhile cxx_isspace r"
  have l: "length t \<le> length r" by (simp add: t_def length_dropWhile_le)
  show ?thesis
  proof (cases "t = []")
    case True
    then show ?thesis using \<open>r \<noteq> []\<close> by (simp add: read_word_def t_def [symmetric])
  next
    case False
    then have "\<not> cxx_isspace (hd t)" by (simp add: t_def hd_dropWhile)
    then have "dropWhile (\<lambda>c. \<not> cxx_isspace c) t = dropWhile (\<lambda>c. \<not> cxx_isspace c) (tl t)"
      using False by (cases t) simp_all
    then have "length (dropWhile (\<lambda>c. \<not> cxx_isspace c) t) < length t"
      using False length_dropWhile_le [of "\<lambda>c. \<not> cxx_isspace c" "tl t"] by (cases t) simp_all
    then show ?thesis using l False by (simp add: read_word_def t_def [symmetric])
  qed
qed

text \<open>Words with one space between them.\<close>

definition is_word :: "string \<Rightarrow> bool" where
  "is_word w \<longleftrightarrow> w \<noteq> [] \<and> (\<forall>c \<in> set w. \<not> cxx_isspace c)"

fun spaced :: "string list \<Rightarrow> string" where
  "spaced [] = []"
| "spaced [w] = w"
| "spaced (w # ws) = w @ '' '' @ spaced ws"

lemma space_isspace [simp]: "cxx_isspace (CHR '' '')"
  by (simp add: cxx_isspace_def)

lemma is_word_digits [simp]: "is_word (show_nat n)"
  using dec_digits_digits digit_no_space by (auto simp: is_word_def show_nat_def)

lemma read_word_first: "is_word w \<Longrightarrow> ys = [] \<or> cxx_isspace (hd ys) \<Longrightarrow> read_word (w @ ys) = (Some w, ys)"
  using read_word_word [of w "[]" ys] by (simp add: is_word_def)

lemma read_word_spaced:
  "is_word w \<Longrightarrow> ys = [] \<or> cxx_isspace (hd ys) \<Longrightarrow> read_word (CHR '' '' # w @ ys) = (Some w, ys)"
  using read_word_word [of w "'' ''" ys] by (simp add: is_word_def)

end
