(* ===== verification/Panel_Base.thy ===== *)
theory Panel_Base
  imports Canix_Eds Canix_Rtc Hes_Device Texts
begin

text \<open>
  The user panel, \<^verbatim>\<open>src/firmwares/userpanel-v01\<close>: its state, what it shows, and
  what its parts share. A panel shows one page at a time; the pages are blocks of the EEPROM.
  The state holds the global variables of the C files, the EEPROM and the clock. Its effects,
  frames on the bus and commands to the display, are appended to \<open>log\<close>.

  While a handler sleeps, the main loop runs: frames are delivered and the keys and timers are
  served by handlers that interrupt the sleeping one. They cannot sleep themselves, because
  \<^verbatim>\<open>canix_sleep_100th\<close> returns at once when it is already running. Every function that
  sleeps therefore has an argument \<open>env\<close>, what happens to the panel meanwhile; in an
  interrupting handler it is the identity. The texts of the debug messages are left out.
\<close>

section \<open>Events and effects\<close>

text \<open>
  A frame of the bus, the timer interrupt (every 10 ms), a call of the idle handler with the
  level of the key pins, and a new reading of the board's clock.
\<close>

datatype panel_event =
  HeardFrame canix_frame | TimerInterrupt | IdleCall u16 | ClockIs canix_rtc_clock

datatype panel_out =
  Bus u8 canix_frame | LcdClear | LcdGoto u8 u8 | LcdPuts string | LcdCommand u8 |
  Backlight u8 | Contrast u8 | Nap u8 | BoardReset

section \<open>State\<close>

record panel =
  board :: mcu
  self_addr :: u16
  stack_junk :: "u8 list"             \<comment> \<open>an uninitialised \<^verbatim>\<open>canix_frame\<close>: data, then size\<close>
  mem :: eeprom
  rtc :: canix_rtc_clock
  script :: "panel_event list list"   \<comment> \<open>the events during the next pauses\<close>
  log :: "panel_out list"
  lcd_state :: u8                     \<comment> \<open>\<^verbatim>\<open>lcdstate.state\<close>\<close>
  active_page :: "nat \<Rightarrow> u8"           \<comment> \<open>the bytes of \<^verbatim>\<open>lcdstate.active_page\<close>\<close>
  keypress_time :: u8
  lcd_led_countdown :: u8
  lcd_screensafer_countdown :: u16
  page_stack :: "u8 list"
  page_stack_ptr :: u8
  key_counter :: "u8 list"
  key_state :: "u8 list"
  timer_counter_100th :: u8
  timer_counter_10th :: u8
  timer_counter_1 :: u8
  timer_event_100th :: u8
  timer_event_10th :: u8
  timer_event_1 :: u8
  heiz_configured :: u8
  monitor_Tsoll :: "u8 list"
  lampen_configured :: u8
  monitor_lampen_state :: "u8 list"
  sonstige_configured :: u8
  monitor_sonstige_state :: "u8 list"
  reedkontakt_configured :: u8
  monitor_reedkontakt_state :: "u8 list"
  mute_configured :: u8
  monitor_mute_state :: "u8 list"
  heiz_details_expected :: u8
  heiz_details_heiz_id :: u8
  heiz_details_mode :: u8
  heiz_details_rate :: u8
  heiz_details_Tsoll :: u16
  heiz_details_Tist :: u16
  heiz_details_dauer :: u16
  heiz_details_mode_edit :: u8
  heiz_details_Tsoll_edit :: u16
  heiz_details_rate_edit :: u8
  heiz_details_dauer_edit :: u16
  heiz_page_subpage :: u8
  heiz_page_state :: u8
  gesamt_heiz_details_mode_edit :: u8
  gesamt_heiz_details_Tsoll_edit :: u16
  gesamt_heiz_details_dauer_edit :: u16
  gesamt_heiz_page_subpage :: u8
  gesamt_heiz_page_state :: u8
  weck_details_expected :: u8
  weck_details_weck_id :: u8
  weck_details_dauer :: u16
  weck_details_dauer_edit :: u16
  weck_page_state :: u8
  leave_come_state :: u8
  powerport_page_state :: u8          \<comment> \<open>\<^verbatim>\<open>int8_t\<close>\<close>
  powerport_page_timer :: u8          \<comment> \<open>\<^verbatim>\<open>int8_t\<close>\<close>
  temperature_expected :: u8
  temperature :: u16
  fenster_monitor_reed_state :: "u8 list"

abbreviation (input) STATE_VIEW :: u8 where "STATE_VIEW \<equiv> 0"
abbreviation (input) STATE_EDIT :: u8 where "STATE_EDIT \<equiv> 1"

abbreviation (input) EDS_PAGE_ID_START :: u8 where "EDS_PAGE_ID_START \<equiv> 100"
abbreviation (input) EDS_PAGE_ID_END :: u8 where "EDS_PAGE_ID_END \<equiv> 149"

abbreviation (input) ERROR_PAGE_SIZE_TOO_LARGE :: u8 where "ERROR_PAGE_SIZE_TOO_LARGE \<equiv> 1"
abbreviation (input) ERROR_PAGE_PAGE_NOT_FOUND :: u8 where "ERROR_PAGE_PAGE_NOT_FOUND \<equiv> 2"
abbreviation (input) ERROR_PAGE_CHILD_PAGE_NOT_FOUND :: u8 where "ERROR_PAGE_CHILD_PAGE_NOT_FOUND \<equiv> 3"
abbreviation (input) ERROR_PAGE_PAGE_STACK_OVERFLOW :: u8 where "ERROR_PAGE_PAGE_STACK_OVERFLOW \<equiv> 4"
abbreviation (input) ERROR_PAGE_PAGE_STACK_UNDERFLOW :: u8 where "ERROR_PAGE_PAGE_STACK_UNDERFLOW \<equiv> 5"
abbreviation (input) ERROR_PAGE_SHORTCUTS_MISSING :: u8 where "ERROR_PAGE_SHORTCUTS_MISSING \<equiv> 6"
abbreviation (input) ERROR_CONF_REEDKONTAKTE_MISSING :: u8 where "ERROR_CONF_REEDKONTAKTE_MISSING \<equiv> 7"
abbreviation (input) ERROR_CONF_LAMPEN_MISSING :: u8 where "ERROR_CONF_LAMPEN_MISSING \<equiv> 8"
abbreviation (input) ERROR_CONF_SONSTIGE_MISSING :: u8 where "ERROR_CONF_SONSTIGE_MISSING \<equiv> 9"
abbreviation (input) ERROR_CONF_MUTE_MISSING :: u8 where "ERROR_CONF_MUTE_MISSING \<equiv> 10"
abbreviation (input) ERROR_CONF_HEIZUNG_MISSING :: u8 where "ERROR_CONF_HEIZUNG_MISSING \<equiv> 11"
abbreviation (input) ERROR_PAGE_LEAVE_COME_MISSING :: u8 where "ERROR_PAGE_LEAVE_COME_MISSING \<equiv> 12"

text \<open>The block types of \<^verbatim>\<open>src/xml/eds.xml\<close> the panel uses.\<close>

abbreviation (input) EDS_zone_BLOCK_ID :: u8 where "EDS_zone_BLOCK_ID \<equiv> 18"
abbreviation (input) EDS_lcd_light_settings_BLOCK_ID :: u8 where "EDS_lcd_light_settings_BLOCK_ID \<equiv> 98"
abbreviation (input) EDS_userpanel_shortcuts_BLOCK_ID :: u8 where "EDS_userpanel_shortcuts_BLOCK_ID \<equiv> 99"
abbreviation (input) EDS_screensaver_page_BLOCK_ID :: u8 where "EDS_screensaver_page_BLOCK_ID \<equiv> 100"
abbreviation (input) EDS_dir_page_BLOCK_ID :: u8 where "EDS_dir_page_BLOCK_ID \<equiv> 101"
abbreviation (input) EDS_heiz_page_BLOCK_ID :: u8 where "EDS_heiz_page_BLOCK_ID \<equiv> 102"
abbreviation (input) EDS_rolladen_page_BLOCK_ID :: u8 where "EDS_rolladen_page_BLOCK_ID \<equiv> 103"
abbreviation (input) EDS_taster_page_BLOCK_ID :: u8 where "EDS_taster_page_BLOCK_ID \<equiv> 104"
abbreviation (input) EDS_powerport_page_BLOCK_ID :: u8 where "EDS_powerport_page_BLOCK_ID \<equiv> 105"
abbreviation (input) EDS_fenster_monitor_page_BLOCK_ID :: u8 where "EDS_fenster_monitor_page_BLOCK_ID \<equiv> 107"
abbreviation (input) EDS_temp_anzeige_page_BLOCK_ID :: u8 where "EDS_temp_anzeige_page_BLOCK_ID \<equiv> 108"
abbreviation (input) EDS_weck_page_BLOCK_ID :: u8 where "EDS_weck_page_BLOCK_ID \<equiv> 109"
abbreviation (input) EDS_gesamt_heiz_page_BLOCK_ID :: u8 where "EDS_gesamt_heiz_page_BLOCK_ID \<equiv> 110"
abbreviation (input) EDS_userpanel_reedkontakte_BLOCK_ID :: u8 where "EDS_userpanel_reedkontakte_BLOCK_ID \<equiv> 111"
abbreviation (input) EDS_userpanel_lampen_BLOCK_ID :: u8 where "EDS_userpanel_lampen_BLOCK_ID \<equiv> 112"
abbreviation (input) EDS_userpanel_sonstige_BLOCK_ID :: u8 where "EDS_userpanel_sonstige_BLOCK_ID \<equiv> 113"
abbreviation (input) EDS_userpanel_mute_BLOCK_ID :: u8 where "EDS_userpanel_mute_BLOCK_ID \<equiv> 114"
abbreviation (input) EDS_userpanel_heizungen_BLOCK_ID :: u8 where "EDS_userpanel_heizungen_BLOCK_ID \<equiv> 115"
abbreviation (input) EDS_leave_come_page_BLOCK_ID :: u8 where "EDS_leave_come_page_BLOCK_ID \<equiv> 116"

section \<open>Effects\<close>

definition say :: "panel_out list \<Rightarrow> panel \<Rightarrow> panel" where
  "say os p = p\<lparr>log := log p @ os\<rparr>"

definition lcd_print :: "u8 \<Rightarrow> u8 \<Rightarrow> string \<Rightarrow> panel \<Rightarrow> panel" where
  "lcd_print x y s p = say [LcdGoto x y, LcdPuts s] p"

text \<open>\<^verbatim>\<open>canix_sleep_100th\<close>, as said above.\<close>

definition nap :: "(panel \<Rightarrow> panel) \<Rightarrow> u8 \<Rightarrow> panel \<Rightarrow> panel" where
  "nap env n p = env (say [Nap n] p)"

definition block_type :: "panel \<Rightarrow> u8" where
  "block_type p = active_page p 0"

text \<open>The byte at a position of the block's payload, as \<^verbatim>\<open>eds.xml\<close> counts them.\<close>

definition page_byte :: "panel \<Rightarrow> nat \<Rightarrow> u8" where
  "page_byte p i = active_page p (2 + i)"

abbreviation (input) page_id :: "panel \<Rightarrow> u8" where "page_id p \<equiv> page_byte p 0"
abbreviation (input) parent_id :: "panel \<Rightarrow> u8" where "parent_id p \<equiv> page_byte p 1"
abbreviation (input) next_id :: "panel \<Rightarrow> u8" where "next_id p \<equiv> page_byte p 2"
abbreviation (input) prev_id :: "panel \<Rightarrow> u8" where "prev_id p \<equiv> page_byte p 3"

text \<open>
  A frame the panel sends is also delivered to its own handler
  (\<^verbatim>\<open>canix_frame_send_with_prio\<close>). Of the messages it sends only the page of the
  alarm timer takes note: it accepts any message with the expected number.
\<close>

definition weck_page_can_callback :: "canix_frame \<Rightarrow> panel \<Rightarrow> panel" where
  "weck_page_can_callback f p =
     (if weck_details_expected p \<noteq> 0 \<and> byte_at f 2 = weck_details_weck_id p
      then (let p = p\<lparr>weck_details_expected := weck_details_expected p AND NOT 1\<rparr> in
            if byte_at f 1 = HCAN_HES_WECKER_DETAILS
            then p\<lparr>weck_details_dauer := mk16 (byte_at f 3) (byte_at f 4)\<rparr> else p)
      else p)"

definition panel_send :: "u8 \<Rightarrow> canix_frame \<Rightarrow> panel \<Rightarrow> panel" where
  "panel_send prio f p =
     (let p = say [Bus prio f] p in
      if block_type p = EDS_weck_page_BLOCK_ID then weck_page_can_callback f p else p)"

definition panel_message :: "panel \<Rightarrow> u8 list \<Rightarrow> canix_frame" where
  "panel_message p bs = hes_message (self_addr p) HCAN_MULTICAST_CONTROL bs"

section \<open>Texts\<close>

text \<open>
  What \<^verbatim>\<open>printf\<close> makes of \<^verbatim>\<open>%d\<close>, \<^verbatim>\<open>%02d\<close> and
  \<^verbatim>\<open>%6s\<close>.
\<close>

definition fmt_d :: "int \<Rightarrow> string" where
  "fmt_d z = (if z < 0 then CHR ''-'' # dec_digits (nat (- z)) else dec_digits (nat z))"

definition fmt_u :: "u8 \<Rightarrow> string" where
  "fmt_u n = dec_digits (unat n)"

definition fmt_02d :: "u8 \<Rightarrow> string" where
  "fmt_02d n = (if unat n < 10 then CHR ''0'' # fmt_u n else fmt_u n)"

definition fmt_width :: "nat \<Rightarrow> string \<Rightarrow> string" where
  "fmt_width w s = replicate (w - length s) CHR '' '' @ s"

text \<open>
  \<^verbatim>\<open>snprintf(s, n, ...)\<close> keeps \<open>n - 1\<close> characters. A C string in the page's
  data ends at a zero byte; no text is longer than the 39 characters of the largest
  buffer, so that more of the page than this is never looked at.
\<close>

definition snprintf :: "nat \<Rightarrow> string \<Rightarrow> string" where
  "snprintf n s = take (n - 1) s"

definition page_string :: "panel \<Rightarrow> nat \<Rightarrow> string" where
  "page_string p off = map (\<lambda>b. char_of (unat b)) (takeWhile (\<lambda>b. b \<noteq> 0) (map (page_byte p) [off..<off + 40]))"

text \<open>
  A temperature in sixteenths of a degree as \<^verbatim>\<open>%02d.%d\<close>, and a duration in
  seconds as \<^verbatim>\<open>%d:%02d\<close>; the parts are bytes.
\<close>

definition fmt_temp :: "u16 \<Rightarrow> string" where
  "fmt_temp t = fmt_02d (ucast (signed_drop_bit 4 t)) @ ''.'' @ fmt_u (ucast (drop_bit 4 ((t AND 0x0f) * 10)))"

definition fmt_dauer :: "u16 \<Rightarrow> string" where
  "fmt_dauer d = fmt_u (ucast (d div 3600)) @ '':'' @ fmt_02d (ucast ((d div 60) mod 60))"

definition GRAD :: string where
  "GRAD = [CHR 0xDF, CHR ''C'']"

section \<open>Pages\<close>

definition load_error_page :: "u8 \<Rightarrow> panel \<Rightarrow> panel" where
  "load_error_page code p =
     p\<lparr>active_page := (active_page p)(0 := 255, 1 := 1, 2 := 255, 3 := 0, 4 := 0, 5 := 0, 6 := code)\<rparr>"

text \<open>
  \<^verbatim>\<open>eeprom_read_block(&lcdstate.active_page, it, size)\<close>; the structure has 198
  bytes.
\<close>

definition read_page :: "nat \<Rightarrow> nat \<Rightarrow> panel \<Rightarrow> panel" where
  "read_page it n p = p\<lparr>active_page := (\<lambda>i. if i < n then mem p (it + i) else active_page p i)\<rparr>"

abbreviation (input) sizeof_active_page :: nat where "sizeof_active_page \<equiv> 198"

definition EDS_BLOCK_DATA :: "eeprom \<Rightarrow> nat \<Rightarrow> nat \<Rightarrow> u8" where
  "EDS_BLOCK_DATA m it i = m (padd it (2 + i))"

text \<open>
  \<^verbatim>\<open>EDS_foreach_block_between\<close> as the list of the blocks it visits. The walk
  ends because each block lies behind the one before.
\<close>

lemma eds_find_loop_forward:
  "eds_find_loop c m t1 t2 p = 0 \<or> (p < EDS_END c \<and> p < eds_find_loop c m t1 t2 p)"
proof (induction c m t1 t2 p rule: eds_find_loop.induct)
  case (1 c m t1 t2 p)
  show ?case
  proof (cases "p < EDS_END c")
    case True
    let ?q = "eds_next_block m p"
    have q: "p < ?q" by (rule eds_next_block_greater [OF True])
    show ?thesis
    proof (cases "t1 \<le> EDS_BLOCK_TYPE m ?q \<and> EDS_BLOCK_TYPE m ?q \<le> t2")
      case True
      with \<open>p < EDS_END c\<close> q show ?thesis by (subst eds_find_loop.simps) (simp add: Let_def)
    next
      case False
      then have "eds_find_loop c m t1 t2 p = eds_find_loop c m t1 t2 ?q"
        using True by (subst eds_find_loop.simps) (auto simp: Let_def)
      with "1.IH" [OF True refl False] q True show ?thesis by auto
    qed
  next
    case False
    then show ?thesis by (subst eds_find_loop.simps) simp
  qed
qed

function blocks_from :: "mcu \<Rightarrow> eeprom \<Rightarrow> u8 \<Rightarrow> u8 \<Rightarrow> nat \<Rightarrow> nat list" where
  "blocks_from c m t1 t2 it =
     (if it = 0 then []
      else it # blocks_from c m t1 t2 (eds_find_next_block_between c m it t1 t2))"
  by pat_completeness auto
termination
proof (relation "measure (\<lambda>(c, m, t1, t2, it). if it = 0 then 0 else Suc (4096 - it) + (if it < 4096 then 1 else 0))", goal_cases)
  case (2 c m t1 t2 it)
  from eds_find_loop_forward [of c m t1 t2 it] EDS_END_bounds(2) [of c] 2
  show ?case by (auto simp: eds_find_next_block_between_def)
qed simp

declare blocks_from.simps [simp del]

definition EDS_foreach_block_between :: "mcu \<Rightarrow> eeprom \<Rightarrow> u8 \<Rightarrow> u8 \<Rightarrow> nat list" where
  "EDS_foreach_block_between c m a b = blocks_from c m a b (eds_find_next_block_between c m 0 a b)"

fun load_page_loop :: "u8 \<Rightarrow> nat list \<Rightarrow> panel \<Rightarrow> panel" where
  "load_page_loop page [] p = load_error_page ERROR_PAGE_PAGE_NOT_FOUND p"
| "load_page_loop page (it # its) p =
     (if EDS_BLOCK_DATA (mem p) it 0 = page
      then (let n = EDS_BLOCK_SIZE (mem p) it + 2 in
            if n > sizeof_active_page
            then load_page_loop page its (load_error_page ERROR_PAGE_SIZE_TOO_LARGE p)
            else read_page it n p)
      else load_page_loop page its p)"

definition load_page :: "u8 \<Rightarrow> panel \<Rightarrow> panel" where
  "load_page page p =
     load_page_loop page (EDS_foreach_block_between (board p) (mem p) EDS_PAGE_ID_START EDS_PAGE_ID_END) p"

section \<open>Display light\<close>

abbreviation (input) LCD_BACKLIGHT_DEFAULT :: u8 where "LCD_BACKLIGHT_DEFAULT \<equiv> 30"
abbreviation (input) LCD_CONTRAST_DEFAULT :: u8 where "LCD_CONTRAST_DEFAULT \<equiv> 10"
abbreviation (input) LCD_BACKLIGHT_DEFAULT_LOW :: u8 where "LCD_BACKLIGHT_DEFAULT_LOW \<equiv> 3"
abbreviation (input) LCD_CONTRAST_DEFAULT_LOW :: u8 where "LCD_CONTRAST_DEFAULT_LOW \<equiv> 15"
abbreviation (input) LCD_MODE_INACTIVE :: u8 where "LCD_MODE_INACTIVE \<equiv> 0"
abbreviation (input) LCD_MODE_ACTIVE :: u8 where "LCD_MODE_ACTIVE \<equiv> 1"

text \<open>\<^verbatim>\<open>lcdctrl_set_backlight\<close> and \<^verbatim>\<open>lcdctrl_set_contrast\<close>.\<close>

definition lcdctrl_light :: "u8 \<Rightarrow> u8 \<Rightarrow> panel \<Rightarrow> panel" where
  "lcdctrl_light backlight contrast p = say [Backlight backlight, Contrast contrast] p"

text \<open>
  The two loops over all blocks of a type, which start at the first block whatever its type:
  \<^verbatim>\<open>for (it = EDS_DATA_START; it != 0; it = eds_find_next_block(it, t))\<close> with
  \<^verbatim>\<open>continue\<close> for another type. The search for one type is the search for a
  range of one.
\<close>

definition all_blocks :: "mcu \<Rightarrow> eeprom \<Rightarrow> u8 \<Rightarrow> nat list" where
  "all_blocks c m t = filter (\<lambda>it. EDS_BLOCK_TYPE m it = t) (blocks_from c m t t EDS_DATA_START)"

fun light_settings :: "panel \<Rightarrow> nat list \<Rightarrow> (u8 \<times> u8) option" where
  "light_settings p [] = None"
| "light_settings p (it # its) =
     (let m = mem p; d = EDS_BLOCK_DATA m in
      if \<exists>it2 \<in> set (all_blocks (board p) m EDS_zone_BLOCK_ID).
           d it 0 = d it2 0 \<and> time_matches (rtc p) (d it2 2) (d it2 3) (d it2 4) (d it2 5) (d it2 1)
      then Some (d it 1, d it 2) else light_settings p its)"

definition lcdctrl_set_display_light :: "u8 \<Rightarrow> panel \<Rightarrow> panel" where
  "lcdctrl_set_display_light mode p =
     (if mode = LCD_MODE_ACTIVE then lcdctrl_light LCD_BACKLIGHT_DEFAULT LCD_CONTRAST_DEFAULT p
      else if mode = LCD_MODE_INACTIVE
      then (case light_settings p (all_blocks (board p) (mem p) EDS_lcd_light_settings_BLOCK_ID) of
              Some (b, c) \<Rightarrow> lcdctrl_light b c p
            | None \<Rightarrow> lcdctrl_light LCD_BACKLIGHT_DEFAULT_LOW LCD_CONTRAST_DEFAULT_LOW p)
      else p)"

definition lcdctrl_blink :: "(panel \<Rightarrow> panel) \<Rightarrow> panel \<Rightarrow> panel" where
  "lcdctrl_blink env p =
     (let p = fold (\<lambda>j. fold (\<lambda>i p. nap env 1 (lcdctrl_light (of_nat (i * 10)) 10 p)) [0..<10]) [0..<3::nat] p
      in lcdctrl_set_display_light LCD_MODE_ACTIVE p)"

end
