(* ===== verification/Panel_Monitors.thy ===== *)
theory Panel_Monitors
  imports Panel_Base
begin

text \<open>
  The monitors of the user panel: what it knows of the heatings, lamps, other outputs, windows
  and muted devices it is configured for (\<^verbatim>\<open>heiz_monitor.c\<close>,
  \<^verbatim>\<open>lampen_monitor.c\<close>, \<^verbatim>\<open>sonstige_monitor.c\<close>,
  \<^verbatim>\<open>reedkontakt_monitor.c\<close>, \<^verbatim>\<open>mute_monitor.c\<close>). Each has a block
  of 24 group numbers and an array of 24 states, 255 for an unknown one. At the start of any
  board the states are asked for, later every message about a state is entered.
\<close>

section \<open>What the monitors share\<close>

definition find_conf :: "u8 \<Rightarrow> panel \<Rightarrow> nat" where
  "find_conf t p = eds_find_next_block (board p) (mem p) 0 t"

text \<open>\<^verbatim>\<open>eeprom_read_block(&c, (it+2), sizeof(c))\<close>\<close>

definition read_conf :: "nat \<Rightarrow> nat \<Rightarrow> panel \<Rightarrow> u8 list" where
  "read_conf n it p = map (\<lambda>i. mem p (it + 2 + i)) [0..<n]"

text \<open>The loop that asks for the state of each configured group, with its pauses.\<close>

definition request_states :: "(panel \<Rightarrow> panel) \<Rightarrow> u8 \<Rightarrow> u8 list \<Rightarrow> panel \<Rightarrow> panel" where
  "request_states env msg ids =
     fold (\<lambda>g p. if g \<noteq> 255 then nap env 10 (panel_send HCAN_PRIO_LOW (panel_message p [msg, g]) p) else p) ids"

text \<open>The loop that enters a state wherever the group is configured.\<close>

definition insert_state :: "u8 list \<Rightarrow> u8 \<Rightarrow> u8 \<Rightarrow> u8 list \<Rightarrow> u8 list" where
  "insert_state ids gruppe v xs = map2 (\<lambda>g x. if gruppe = g then v else x) ids xs"

definition count_on :: "u8 list \<Rightarrow> u8" where
  "count_on xs = of_nat (length (filter (\<lambda>x. x \<noteq> 0 \<and> x \<noteq> 255) xs))"

lemma length_read_conf [simp]: "length (read_conf n it p) = n"
  by (simp add: read_conf_def)

lemma length_insert_state [simp]:
  "length ids = length xs \<Longrightarrow> length (insert_state ids g v xs) = length xs"
  by (simp add: insert_state_def)

lemma insert_state_nth:
  "length ids = length xs \<Longrightarrow> i < length xs \<Longrightarrow>
   insert_state ids g v xs ! i = (if ids ! i = g then v else xs ! i)"
  by (auto simp: insert_state_def)

section \<open>Heatings\<close>

text \<open>\<^verbatim>\<open>get_count_Tsoll\<close>: the numbers of frost protected and of heated rooms.\<close>

definition get_count_Tsoll :: "panel \<Rightarrow> u8 \<times> u8" where
  "get_count_Tsoll p =
     (let xs = filter (\<lambda>x. x \<noteq> 255) (monitor_Tsoll p) in
      (of_nat (length (filter (\<lambda>x. \<not> x > 15 \<and> x > 0) xs)), of_nat (length (filter (\<lambda>x. x > 15) xs))))"

definition init_monitor_heiz_request_states :: "(panel \<Rightarrow> panel) \<Rightarrow> panel \<Rightarrow> panel" where
  "init_monitor_heiz_request_states env p =
     (let it = find_conf EDS_userpanel_heizungen_BLOCK_ID p in
      if it = 0 then (load_error_page ERROR_CONF_HEIZUNG_MISSING p)\<lparr>heiz_configured := 0\<rparr>
      else request_states env HCAN_HES_HEIZUNG_DETAILS_REQUEST (read_conf 24 it p)
             (p\<lparr>monitor_Tsoll := replicate 24 255\<rparr>))"

definition monitor_insert_heiz_state :: "u8 \<Rightarrow> u16 \<Rightarrow> panel \<Rightarrow> panel" where
  "monitor_insert_heiz_state gruppe Tsoll p =
     (let it = find_conf EDS_userpanel_heizungen_BLOCK_ID p in
      if it = 0 then load_error_page ERROR_CONF_HEIZUNG_MISSING p
      else p\<lparr>monitor_Tsoll := insert_state (read_conf 24 it p) gruppe (ucast (drop_bit 4 Tsoll)) (monitor_Tsoll p)\<rparr>)"

definition monitor_heiz_can_callback :: "(panel \<Rightarrow> panel) \<Rightarrow> canix_frame \<Rightarrow> panel \<Rightarrow> panel" where
  "monitor_heiz_can_callback env f p =
     (if heiz_configured p = 0 then p
      else let cmd = byte_at f 1 in
      if cmd = HCAN_HES_BOARD_ACTIVE then init_monitor_heiz_request_states env p
      else if cmd = HCAN_HES_HEIZUNG_MODE_OFF_DETAILS then monitor_insert_heiz_state (byte_at f 2) 0 p
      else if cmd = HCAN_HES_HEIZUNG_MODE_MANUAL_DETAILS then monitor_insert_heiz_state (byte_at f 2) 1 p
      else if cmd = HCAN_HES_HEIZUNG_MODE_THERMOSTAT_DETAILS \<or> cmd = HCAN_HES_HEIZUNG_MODE_AUTOMATIK_DETAILS
      then monitor_insert_heiz_state (byte_at f 2) (mk16 (byte_at f 3) (byte_at f 4)) p
      else p)"

section \<open>Lamps\<close>

definition get_count_lampen_states :: "panel \<Rightarrow> u8" where
  "get_count_lampen_states p = count_on (monitor_lampen_state p)"

definition init_monitor_lampen_request_states :: "(panel \<Rightarrow> panel) \<Rightarrow> panel \<Rightarrow> panel" where
  "init_monitor_lampen_request_states env p =
     (let it = find_conf EDS_userpanel_lampen_BLOCK_ID p in
      if it = 0 then (load_error_page ERROR_CONF_LAMPEN_MISSING p)\<lparr>lampen_configured := 0\<rparr>
      else request_states env HCAN_HES_POWER_GROUP_STATE_QUERY (read_conf 24 it p)
             (p\<lparr>monitor_lampen_state := replicate 24 255\<rparr>))"

definition monitor_insert_lampen_state :: "u8 \<Rightarrow> u8 \<Rightarrow> panel \<Rightarrow> panel" where
  "monitor_insert_lampen_state gruppe v p =
     (let it = find_conf EDS_userpanel_lampen_BLOCK_ID p in
      if it = 0 then load_error_page ERROR_CONF_LAMPEN_MISSING p
      else p\<lparr>monitor_lampen_state := insert_state (read_conf 24 it p) gruppe v (monitor_lampen_state p)\<rparr>)"

definition monitor_lampen_can_callback :: "(panel \<Rightarrow> panel) \<Rightarrow> canix_frame \<Rightarrow> panel \<Rightarrow> panel" where
  "monitor_lampen_can_callback env f p =
     (if lampen_configured p = 0 then p
      else let cmd = byte_at f 1 in
      if cmd = HCAN_HES_BOARD_ACTIVE then init_monitor_lampen_request_states env p
      else if cmd = HCAN_HES_POWER_GROUP_STATE_REPLAY \<or> cmd = HCAN_HES_POWER_GROUP_STATE_INFO
      then monitor_insert_lampen_state (byte_at f 2) (byte_at f 3) p
      else p)"

section \<open>Other outputs\<close>

definition init_monitor_sonstige_request_states :: "(panel \<Rightarrow> panel) \<Rightarrow> panel \<Rightarrow> panel" where
  "init_monitor_sonstige_request_states env p =
     (let it = find_conf EDS_userpanel_sonstige_BLOCK_ID p in
      if it = 0 then (load_error_page ERROR_CONF_SONSTIGE_MISSING p)\<lparr>sonstige_configured := 0\<rparr>
      else request_states env HCAN_HES_POWER_GROUP_STATE_QUERY (read_conf 24 it p)
             (p\<lparr>monitor_sonstige_state := replicate 24 255\<rparr>))"

definition monitor_insert_sonstige_state :: "u8 \<Rightarrow> u8 \<Rightarrow> panel \<Rightarrow> panel" where
  "monitor_insert_sonstige_state gruppe v p =
     (let it = find_conf EDS_userpanel_sonstige_BLOCK_ID p in
      if it = 0 then load_error_page ERROR_CONF_SONSTIGE_MISSING p
      else p\<lparr>monitor_sonstige_state := insert_state (read_conf 24 it p) gruppe v (monitor_sonstige_state p)\<rparr>)"

definition monitor_sonstige_can_callback :: "(panel \<Rightarrow> panel) \<Rightarrow> canix_frame \<Rightarrow> panel \<Rightarrow> panel" where
  "monitor_sonstige_can_callback env f p =
     (if sonstige_configured p = 0 then p
      else let cmd = byte_at f 1 in
      if cmd = HCAN_HES_BOARD_ACTIVE then init_monitor_sonstige_request_states env p
      else if cmd = HCAN_HES_POWER_GROUP_STATE_REPLAY \<or> cmd = HCAN_HES_POWER_GROUP_STATE_INFO
      then monitor_insert_sonstige_state (byte_at f 2) (byte_at f 3) p
      else p)"

text \<open>
  \<^verbatim>\<open>leave_come_page_get_ignore\<close> reads four bytes from the start of the page's
  payload and looks for its argument there; without such a page it shows an error page and
  answers yes.
\<close>

definition leave_come_page_get_ignore :: "u8 \<Rightarrow> panel \<Rightarrow> panel \<times> u8" where
  "leave_come_page_get_ignore gruppe p =
     (let it = find_conf EDS_leave_come_page_BLOCK_ID p in
      if it = 0 then (load_error_page ERROR_PAGE_LEAVE_COME_MISSING p, 1)
      else (p, if gruppe \<in> set (read_conf 4 it p) then 1 else 0))"

fun count_sonstige_loop :: "u8 \<Rightarrow> nat list \<Rightarrow> u8 \<Rightarrow> panel \<Rightarrow> panel \<times> u8" where
  "count_sonstige_loop ignore [] n p = (p, n)"
| "count_sonstige_loop ignore (i # is) n p =
     (let x = monitor_sonstige_state p ! i in
      if x \<noteq> 0 \<and> x \<noteq> 255
      then (if ignore \<noteq> 0
            then (let (p, g) = leave_come_page_get_ignore (of_nat i) p in
                  count_sonstige_loop ignore is (if x = g then n else n + 1) p)
            else count_sonstige_loop ignore is (n + 1) p)
      else count_sonstige_loop ignore is n p)"

definition get_count_sonstige_states :: "u8 \<Rightarrow> panel \<Rightarrow> panel \<times> u8" where
  "get_count_sonstige_states ignore p = count_sonstige_loop ignore [0..<24] 0 p"

section \<open>Windows\<close>

definition get_count_reedkontakt_states :: "panel \<Rightarrow> u8" where
  "get_count_reedkontakt_states p = count_on (monitor_reedkontakt_state p)"

definition init_monitor_reedkontakt_request_states :: "(panel \<Rightarrow> panel) \<Rightarrow> panel \<Rightarrow> panel" where
  "init_monitor_reedkontakt_request_states env p =
     (let it = find_conf EDS_userpanel_reedkontakte_BLOCK_ID p in
      if it = 0 then (load_error_page ERROR_CONF_REEDKONTAKTE_MISSING p)\<lparr>reedkontakt_configured := 0\<rparr>
      else request_states env HCAN_HES_REEDKONTAKT_STATE_QUERY (read_conf 24 it p)
             (p\<lparr>monitor_reedkontakt_state := replicate 24 255\<rparr>))"

definition monitor_insert_reedkontakt_state :: "u8 \<Rightarrow> u8 \<Rightarrow> panel \<Rightarrow> panel" where
  "monitor_insert_reedkontakt_state gruppe v p =
     (let it = find_conf EDS_userpanel_reedkontakte_BLOCK_ID p in
      if it = 0 then load_error_page ERROR_CONF_REEDKONTAKTE_MISSING p
      else p\<lparr>monitor_reedkontakt_state := insert_state (read_conf 24 it p) gruppe v (monitor_reedkontakt_state p)\<rparr>)"

definition monitor_reedkontakt_can_callback :: "(panel \<Rightarrow> panel) \<Rightarrow> canix_frame \<Rightarrow> panel \<Rightarrow> panel" where
  "monitor_reedkontakt_can_callback env f p =
     (if reedkontakt_configured p = 0 then p
      else let cmd = byte_at f 1 in
      if cmd = HCAN_HES_BOARD_ACTIVE then init_monitor_reedkontakt_request_states env p
      else if cmd = HCAN_HES_REEDKONTAKT_STATE_REPLAY \<or> cmd = HCAN_HES_REEDKONTAKT_STATE_CHANGE
      then monitor_insert_reedkontakt_state (byte_at f 2) (byte_at f 3) p
      else p)"

section \<open>Muted devices\<close>

definition get_count_mute_states :: "panel \<Rightarrow> u8" where
  "get_count_mute_states p = count_on (monitor_mute_state p)"

definition monitor_insert_mute_state :: "u8 \<Rightarrow> u8 \<Rightarrow> panel \<Rightarrow> panel" where
  "monitor_insert_mute_state gruppe v p =
     (let it = find_conf EDS_userpanel_mute_BLOCK_ID p in
      if it = 0 then load_error_page ERROR_CONF_MUTE_MISSING p
      else p\<lparr>monitor_mute_state := insert_state (read_conf 24 it p) gruppe v (monitor_mute_state p)\<rparr>)"

definition init_monitor_mute :: "panel \<Rightarrow> panel" where
  "init_monitor_mute p = p\<lparr>monitor_mute_state := replicate 24 255\<rparr>"

definition monitor_mute_can_callback :: "canix_frame \<Rightarrow> panel \<Rightarrow> panel" where
  "monitor_mute_can_callback f p =
     (if mute_configured p = 0 then p
      else let cmd = byte_at f 1 in
      if cmd = HCAN_HES_BOARD_ACTIVE then init_monitor_mute p
      else if cmd = HCAN_HES_MUTE_ON then monitor_insert_mute_state (byte_at f 2) 1 p
      else if cmd = HCAN_HES_MUTE_OFF then monitor_insert_mute_state (byte_at f 2) 0 p
      else p)"

end
