(* ===== verification/Panel_Pages.thy ===== *)
theory Panel_Pages
  imports Panel_Monitors
begin

text \<open>
  The pages of the user panel: how each is displayed, and what it takes from the bus
  (\<^verbatim>\<open>heiz_page.c\<close>, \<^verbatim>\<open>gesamt_heiz_page.c\<close>,
  \<^verbatim>\<open>weck_page.c\<close>, \<^verbatim>\<open>leave_come_page.c\<close>,
  \<^verbatim>\<open>powerport_page.c\<close>, \<^verbatim>\<open>temp_anzeige_page.c\<close>,
  \<^verbatim>\<open>fenster_monitor_page.c\<close>, \<^verbatim>\<open>taster_page.c\<close>,
  \<^verbatim>\<open>rolladen_page.c\<close>). A pointer \<^verbatim>\<open>p\<close> to the page's block always
  points into the active page, so that a field is read where the code reads it: from the page
  that is active at that moment.
\<close>

section \<open>Heating\<close>

abbreviation (input) HEIZUNG_MODE_OFF :: u8 where "HEIZUNG_MODE_OFF \<equiv> 0"
abbreviation (input) HEIZUNG_MODE_MANUAL :: u8 where "HEIZUNG_MODE_MANUAL \<equiv> 1"
abbreviation (input) HEIZUNG_MODE_THERMOSTAT :: u8 where "HEIZUNG_MODE_THERMOSTAT \<equiv> 2"
abbreviation (input) HEIZUNG_MODE_AUTOMATIK :: u8 where "HEIZUNG_MODE_AUTOMATIK \<equiv> 3"

text \<open>The values the code writes through its pointers; \<open>None\<close> for the result 1.\<close>

record heiz_values =
  hv_mode :: u8
  hv_rate :: u8
  hv_Tsoll :: u16
  hv_dauer :: u16
  hv_Tist :: u16

definition get_heiz_details :: "(panel \<Rightarrow> panel) \<Rightarrow> u8 \<Rightarrow> panel \<Rightarrow> panel \<times> heiz_values option" where
  "get_heiz_details env heiz_id p =
     (let p = p\<lparr>heiz_details_heiz_id := heiz_id, heiz_details_Tsoll := 0\<rparr>;
          p = panel_send HCAN_PRIO_HI (panel_message p [HCAN_HES_HEIZUNG_DETAILS_REQUEST, heiz_id]) p;
          p = nap env 5 (p\<lparr>heiz_details_expected := 1\<rparr>);
          p = panel_send HCAN_PRIO_HI (panel_message p [HCAN_HES_HEIZUNG_TIST_REQUEST, heiz_id]) p;
          p = nap env 5 (p\<lparr>heiz_details_expected := 2\<rparr>)
      in if heiz_details_expected p = 0
         then (p\<lparr>heiz_details_heiz_id := 0\<rparr>,
               Some \<lparr>hv_mode = heiz_details_mode p, hv_rate = heiz_details_rate p,
                     hv_Tsoll = heiz_details_Tsoll p, hv_dauer = heiz_details_dauer p,
                     hv_Tist = heiz_details_Tist p\<rparr>)
         else (p, None))"

text \<open>
  The second line; \<open>s\<close> is the buffer with the text written last, which a mode without
  a text leaves as it is.
\<close>

definition heiz_line2 :: "u8 \<Rightarrow> heiz_values \<Rightarrow> string \<Rightarrow> string" where
  "heiz_line2 subpage v s =
     (let mode = hv_mode v in
      if subpage = 0
      then (if mode = HEIZUNG_MODE_OFF then ''Mode aus''
            else if mode = HEIZUNG_MODE_MANUAL then ''Mode manuell''
            else if mode = HEIZUNG_MODE_THERMOSTAT then ''Mode Therm.''
            else if mode = HEIZUNG_MODE_AUTOMATIK then ''Mode auto'' else s)
      else if subpage = 1
      then (if mode = HEIZUNG_MODE_OFF then '' - ''
            else if mode = HEIZUNG_MODE_MANUAL then ''Rate='' @ fmt_u (hv_rate v) @ ''%''
            else if mode = HEIZUNG_MODE_THERMOSTAT \<or> mode = HEIZUNG_MODE_AUTOMATIK
            then ''Ts='' @ fmt_temp (hv_Tsoll v) @ GRAD else s)
      else (if mode = HEIZUNG_MODE_OFF \<or> mode = HEIZUNG_MODE_AUTOMATIK then '' - ''
            else if mode = HEIZUNG_MODE_MANUAL \<or> mode = HEIZUNG_MODE_THERMOSTAT
            then ''Dauer='' @ fmt_dauer (hv_dauer v) @ ''h'' else s))"

definition heiz_edit_values :: "panel \<Rightarrow> heiz_values" where
  "heiz_edit_values p = \<lparr>hv_mode = heiz_details_mode_edit p, hv_rate = heiz_details_rate_edit p,
     hv_Tsoll = heiz_details_Tsoll_edit p, hv_dauer = heiz_details_dauer_edit p,
     hv_Tist = heiz_details_Tist p\<rparr>"

definition heiz_page_show :: "heiz_values \<Rightarrow> panel \<Rightarrow> panel" where
  "heiz_page_show v p =
     (let v = (if heiz_page_state p = STATE_EDIT then heiz_edit_values p else v);
          p = lcd_print 0 0 (snprintf 31 (fmt_width 6 (page_string p 4))) p;
          s = snprintf 31 ('' Ti='' @ fmt_temp (hv_Tist v) @ GRAD);
          p = lcd_print 6 0 s p
      in if unat (heiz_page_subpage p) \<le> 2
         then lcd_print 0 1 (snprintf 31 (heiz_line2 (heiz_page_subpage p) v s)) p else p)"

definition heiz_page_print_page :: "(panel \<Rightarrow> panel) \<Rightarrow> panel \<Rightarrow> panel" where
  "heiz_page_print_page env p =
     (let p = say [LcdClear] p in
      if heiz_page_state p = STATE_VIEW
      then (let (p, r) = get_heiz_details env (page_byte p 12) p in
            if block_type p \<noteq> EDS_heiz_page_BLOCK_ID then p
            else case r of None \<Rightarrow> lcd_print 0 1 (snprintf 31 ''Fehler!'') p
                         | Some v \<Rightarrow> heiz_page_show v p)
      else heiz_page_show (heiz_edit_values p) p)"

definition heiz_page_can_callback :: "canix_frame \<Rightarrow> panel \<Rightarrow> panel" where
  "heiz_page_can_callback f p =
     (let cmd = byte_at f 1; b = byte_at f in
      if cmd \<in> {HCAN_HES_HEIZUNG_MODE_OFF_DETAILS, HCAN_HES_HEIZUNG_MODE_MANUAL_DETAILS,
                HCAN_HES_HEIZUNG_MODE_THERMOSTAT_DETAILS, HCAN_HES_HEIZUNG_MODE_AUTOMATIK_DETAILS}
      then (if heiz_details_expected p \<noteq> 0 \<and> b 2 = heiz_details_heiz_id p
            then (let p = p\<lparr>heiz_details_expected := heiz_details_expected p AND NOT 1\<rparr> in
                  if cmd = HCAN_HES_HEIZUNG_MODE_OFF_DETAILS
                  then p\<lparr>heiz_details_mode := HEIZUNG_MODE_OFF, heiz_details_Tsoll := 0, heiz_details_dauer := 0\<rparr>
                  else if cmd = HCAN_HES_HEIZUNG_MODE_MANUAL_DETAILS
                  then p\<lparr>heiz_details_mode := HEIZUNG_MODE_MANUAL, heiz_details_rate := b 3,
                         heiz_details_dauer := mk16 (b 4) (b 5)\<rparr>
                  else if cmd = HCAN_HES_HEIZUNG_MODE_THERMOSTAT_DETAILS
                  then p\<lparr>heiz_details_mode := HEIZUNG_MODE_THERMOSTAT, heiz_details_Tsoll := mk16 (b 3) (b 4),
                         heiz_details_dauer := mk16 (b 5) (b 6)\<rparr>
                  else p\<lparr>heiz_details_mode := HEIZUNG_MODE_AUTOMATIK, heiz_details_Tsoll := mk16 (b 3) (b 4),
                         heiz_details_dauer := 0\<rparr>)
            else p)
      else if cmd = HCAN_HES_HEIZUNG_TIST_REPLAY
      then (if b 2 = heiz_details_heiz_id p
            then p\<lparr>heiz_details_expected := heiz_details_expected p AND NOT 2,
                   heiz_details_Tist := mk16 (b 3) (b 4)\<rparr>
            else p)
      else p)"

section \<open>All heatings\<close>

abbreviation (input) MODE_FROSTSCHUTZ :: u8 where "MODE_FROSTSCHUTZ \<equiv> 1"
abbreviation (input) MODE_FROSTSCHUTZ_KURZ :: u8 where "MODE_FROSTSCHUTZ_KURZ \<equiv> 2"
abbreviation (input) MODE_THERMOSTAT_X :: u8 where "MODE_THERMOSTAT_X \<equiv> 3"
abbreviation (input) MODE_AUTOMATIK_X :: u8 where "MODE_AUTOMATIK_X \<equiv> 4"

abbreviation (input) VORGABE_TEMPERATUR_FROSTSCHUTZ :: u16 where "VORGABE_TEMPERATUR_FROSTSCHUTZ \<equiv> 160"
abbreviation (input) VORGABE_DAUER_FROSTSCHUTZ :: u16 where "VORGABE_DAUER_FROSTSCHUTZ \<equiv> 64800"
abbreviation (input) VORGABE_DAUER_FROSTSCHUTZ_KURZ :: u16 where "VORGABE_DAUER_FROSTSCHUTZ_KURZ \<equiv> 10800"
abbreviation (input) VORGABE_TEMPERATUR_THERMOSTAT :: u16 where "VORGABE_TEMPERATUR_THERMOSTAT \<equiv> 336"
abbreviation (input) VORGABE_DAUER_THERMOSTAT :: u16 where "VORGABE_DAUER_THERMOSTAT \<equiv> 14400"

text \<open>The default values of a mode, as the key handler and the display set them.\<close>

definition gesamt_heiz_vorgaben :: "panel \<Rightarrow> panel" where
  "gesamt_heiz_vorgaben p =
     (let mode = gesamt_heiz_details_mode_edit p; T = gesamt_heiz_details_Tsoll_edit p;
          d = gesamt_heiz_details_dauer_edit p in
      if mode = MODE_FROSTSCHUTZ
      then p\<lparr>gesamt_heiz_details_Tsoll_edit := VORGABE_TEMPERATUR_FROSTSCHUTZ,
             gesamt_heiz_details_dauer_edit := VORGABE_DAUER_FROSTSCHUTZ\<rparr>
      else if mode = MODE_FROSTSCHUTZ_KURZ
      then p\<lparr>gesamt_heiz_details_Tsoll_edit := VORGABE_TEMPERATUR_FROSTSCHUTZ,
             gesamt_heiz_details_dauer_edit := VORGABE_DAUER_FROSTSCHUTZ_KURZ\<rparr>
      else if mode = MODE_THERMOSTAT_X
      then p\<lparr>gesamt_heiz_details_Tsoll_edit :=
               (if T = 0 \<or> T = VORGABE_TEMPERATUR_FROSTSCHUTZ then VORGABE_TEMPERATUR_THERMOSTAT else T),
             gesamt_heiz_details_dauer_edit :=
               (if d = 0 \<or> d = VORGABE_DAUER_FROSTSCHUTZ then VORGABE_DAUER_THERMOSTAT else d)\<rparr>
      else p)"

definition is_thermostat_x :: "u8 \<Rightarrow> bool" where
  "is_thermostat_x mode \<longleftrightarrow> mode = MODE_FROSTSCHUTZ \<or> mode = MODE_FROSTSCHUTZ_KURZ \<or> mode = MODE_THERMOSTAT_X"

definition gesamt_heiz_line2 :: "u8 \<Rightarrow> u8 \<Rightarrow> u16 \<Rightarrow> u16 \<Rightarrow> string \<Rightarrow> string" where
  "gesamt_heiz_line2 subpage mode Tsoll dauer s =
     (if subpage = 0
      then (if mode = HEIZUNG_MODE_OFF then ''Mode aus''
            else if mode = MODE_FROSTSCHUTZ then ''Mode Frost.''
            else if mode = MODE_FROSTSCHUTZ_KURZ then ''Mode Frost.kurz''
            else if mode = MODE_THERMOSTAT_X then ''Mode Therm.''
            else if mode = MODE_AUTOMATIK_X then ''Mode auto'' else s)
      else if mode = HEIZUNG_MODE_OFF \<or> mode = MODE_AUTOMATIK_X then '' - ''
      else if is_thermostat_x mode
      then (if subpage = 1 then ''Ts='' @ fmt_temp Tsoll @ GRAD else ''Dauer='' @ fmt_dauer dauer @ ''h'')
      else s)"

definition gesamt_heiz_page_print_page :: "panel \<Rightarrow> panel" where
  "gesamt_heiz_page_print_page p =
     (let mode = gesamt_heiz_details_mode_edit p; dauer = gesamt_heiz_details_dauer_edit p;
          Tsoll = gesamt_heiz_details_Tsoll_edit p;
          p = say [LcdClear] p;
          p = (if gesamt_heiz_page_state p = STATE_VIEW then gesamt_heiz_vorgaben p else p);
          s = snprintf 31 (fmt_width 6 (page_string p 4));
          p = lcd_print 0 0 s p
      in if unat (gesamt_heiz_page_subpage p) \<le> 2
         then lcd_print 0 1 (snprintf 31 (gesamt_heiz_line2 (gesamt_heiz_page_subpage p) mode Tsoll dauer s)) p
         else p)"

section \<open>Alarm timer\<close>

definition get_weck_details :: "(panel \<Rightarrow> panel) \<Rightarrow> u8 \<Rightarrow> panel \<Rightarrow> panel \<times> u16 option" where
  "get_weck_details env weck_id p =
     (let p = p\<lparr>weck_details_weck_id := weck_id\<rparr>;
          p = panel_send HCAN_PRIO_HI (panel_message p [HCAN_HES_WECKER_DETAILS_REQUEST, weck_id]) p;
          p = nap env 5 (p\<lparr>weck_details_expected := 1\<rparr>)
      in if weck_details_expected p = 0
         then (p\<lparr>weck_details_weck_id := 0\<rparr>, Some (weck_details_dauer p)) else (p, None))"

definition weck_page_show :: "u16 \<Rightarrow> panel \<Rightarrow> panel" where
  "weck_page_show dauer p =
     (let dauer = (if weck_page_state p = STATE_EDIT then weck_details_dauer_edit p else dauer);
          p = lcd_print 0 0 (snprintf 31 (fmt_width 8 (page_string p 6))) p
      in lcd_print 0 1 (snprintf 31 (''wecken in '' @ fmt_dauer dauer @ ''h'')) p)"

definition weck_page_print_page :: "(panel \<Rightarrow> panel) \<Rightarrow> panel \<Rightarrow> panel" where
  "weck_page_print_page env p =
     (let p = say [LcdClear] p in
      if weck_page_state p = STATE_VIEW
      then (case get_weck_details env (page_byte p 5) p of
              (p, None) \<Rightarrow> lcd_print 0 1 (snprintf 31 ''Fehler!'') p
            | (p, Some dauer) \<Rightarrow> weck_page_show dauer p)
      else weck_page_show (weck_details_dauer_edit p) p)"

section \<open>Leaving and coming home\<close>

abbreviation (input) LEAVE_HEATED :: u8 where "LEAVE_HEATED \<equiv> 0"
abbreviation (input) LEAVE_HEATING_IS_OFF :: u8 where "LEAVE_HEATING_IS_OFF \<equiv> 1"
abbreviation (input) COME_HEATED :: u8 where "COME_HEATED \<equiv> 2"
abbreviation (input) COME_HEATING_IS_OFF :: u8 where "COME_HEATING_IS_OFF \<equiv> 3"

definition leave_come_page_get_state :: "panel \<Rightarrow> panel \<times> u8" where
  "leave_come_page_get_state p =
     (let (nUeber0Grad, nUeber15Grad) = get_count_Tsoll p in
      if 0 < nUeber15Grad then (p, LEAVE_HEATED)
      else if 0 < nUeber0Grad then (p, COME_HEATED)
      else if 0 < get_count_lampen_states p then (p, LEAVE_HEATING_IS_OFF)
      else (let (p, n) = get_count_sonstige_states 1 p in
            (p, if 0 < n then LEAVE_HEATING_IS_OFF else COME_HEATING_IS_OFF)))"

definition leave_come_page_print_page :: "panel \<Rightarrow> panel" where
  "leave_come_page_print_page p =
     (let p = say [LcdClear] p;
          (p, st) = leave_come_page_get_state p;
          p = p\<lparr>leave_come_state := st\<rparr>;
          leave = (st = LEAVE_HEATED \<or> st = LEAVE_HEATING_IS_OFF);
          p = lcd_print 0 0 (snprintf 31 (if leave then ''Verbraucher''
                else if st = COME_HEATED then ''Automatik-Modus'' else ''keine Aktion'')) p
      in lcd_print 0 1 (snprintf 31 (if leave then ''abschalten?''
                else if st = COME_HEATED then ''fuer Heizungen?'' else ''notwendig'')) p)"

section \<open>Switched output\<close>

definition powerport_page_print_page :: "(panel \<Rightarrow> panel) \<Rightarrow> panel \<Rightarrow> panel" where
  "powerport_page_print_page env p =
     (let p = say [LcdClear] p;
          p = lcd_print 0 0 (snprintf 40 (page_string p 6)) p;
          p = lcd_print 0 1 (snprintf 40 (page_string p 23)) p;
          p = p\<lparr>powerport_page_state := -1, powerport_page_timer := -1\<rparr>;
          p = panel_send HCAN_PRIO_HI (panel_message p [HCAN_HES_POWER_GROUP_STATE_QUERY, page_byte p 5]) p;
          p = nap env 1 p
      in panel_send HCAN_PRIO_HI (panel_message p [HCAN_HES_POWER_GROUP_TIMER_QUERY, page_byte p 5]) p)"

text \<open>The minutes are computed in 16 bits with a sign and kept in eight.\<close>

definition shown_minutes :: "u8 \<Rightarrow> u8 \<Rightarrow> u8" where
  "shown_minutes h l = word_of_int (sint (mk16 h l + 30) sdiv 60)"

definition powerport_page_can_callback :: "canix_frame \<Rightarrow> panel \<Rightarrow> panel" where
  "powerport_page_can_callback f p =
     (let b = byte_at f in
      if proto f = HCAN_PROTO_SFP \<and> b 0 = HCAN_SRV_HES
      then (if b 1 = HCAN_HES_POWER_GROUP_STATE_REPLAY
            then (if b 2 = page_byte p 5
                  then (let onoff = (if b 3 \<noteq> 0 then ''ein'' else ''aus'');
                            s = (if b 4 = 0 then ''['' @ onoff @ '']''
                                 else ''['' @ onoff @ '']...'' @ fmt_u (b 4) @ ''min'')
                        in (lcd_print 0 1 (snprintf 16 s) p)\<lparr>powerport_page_state := (if b 3 \<noteq> 0 then 1 else 0)\<rparr>)
                  else p)
            else if b 1 = HCAN_HES_POWER_GROUP_TIMER_REPLAY
            then (if b 2 = page_byte p 5
                  then (if b 3 = 0 \<and> b 4 = 0 then p\<lparr>powerport_page_timer := 0\<rparr>
                        else (let t = shown_minutes (b 3) (b 4) in
                              lcd_print 8 1 (snprintf 16 ('','' @ fmt_d (sint t) @ ''min]''))
                                (p\<lparr>powerport_page_timer := t\<rparr>)))
                  else p)
            else p)
      else p)"

section \<open>Temperature\<close>

definition temp_anzeige_page_get_temp :: "(panel \<Rightarrow> panel) \<Rightarrow> panel \<Rightarrow> panel \<times> u16 option" where
  "temp_anzeige_page_get_temp env p =
     (let p = panel_send HCAN_PRIO_LOW (hes_message (self_addr p) HCAN_MULTICAST_INFO
                [HCAN_HES_1WIRE_TEMPERATURE_QUERY, page_byte p 5]) p;
          p = nap env 2 (p\<lparr>temperature_expected := 1\<rparr>)
      in (p, if temperature_expected p = 0 then Some (temperature p) else None))"

definition temp_anzeige_page_print_page :: "(panel \<Rightarrow> panel) \<Rightarrow> panel \<Rightarrow> panel" where
  "temp_anzeige_page_print_page env p =
     (let p = say [LcdClear] p;
          p = lcd_print 0 0 (snprintf 31 (page_string p 6)) p
      in case temp_anzeige_page_get_temp env p of
           (p, Some Tist) \<Rightarrow>
             lcd_print 0 1 (snprintf 31 (''T='' @ fmt_d (sint (signed_drop_bit 4 (Tist + 8))) @ GRAD)) p
         | (p, None) \<Rightarrow> p)"

definition temp_anzeige_page_can_callback :: "canix_frame \<Rightarrow> panel \<Rightarrow> panel" where
  "temp_anzeige_page_can_callback f p =
     (if byte_at f 1 = HCAN_HES_1WIRE_TEMPERATURE_REPLAY \<and> byte_at f 2 = page_byte p 5
      then p\<lparr>temperature := mk16 (byte_at f 3) (byte_at f 4), temperature_expected := 0\<rparr> else p)"

section \<open>Windows\<close>

definition fenster_monitor_insert_reed_state :: "u8 \<Rightarrow> u8 \<Rightarrow> panel \<Rightarrow> panel" where
  "fenster_monitor_insert_reed_state gruppe v p =
     p\<lparr>fenster_monitor_reed_state :=
         insert_state (map (\<lambda>i. page_byte p (4 + i)) [0..<24]) gruppe v (fenster_monitor_reed_state p)\<rparr>"

definition fenster_monitor_collect_reed_states :: "(panel \<Rightarrow> panel) \<Rightarrow> panel \<Rightarrow> panel \<times> u8" where
  "fenster_monitor_collect_reed_states env p =
     (let p = p\<lparr>fenster_monitor_reed_state := replicate 24 255\<rparr>;
          p = fold (\<lambda>i p. if page_byte p (4 + i) \<noteq> 255
                then nap env 10 (panel_send HCAN_PRIO_LOW
                       (panel_message p [HCAN_HES_REEDKONTAKT_STATE_QUERY, page_byte p (4 + i)]) p)
                else p) [0..<24] p
      in (p, count_on (fenster_monitor_reed_state p)))"

definition fenster_monitor_page_print_page :: "(panel \<Rightarrow> panel) \<Rightarrow> panel \<Rightarrow> panel" where
  "fenster_monitor_page_print_page env p =
     (let p = say [LcdClear] p;
          p = lcd_print 0 0 (snprintf 31 ''Fenster:'') p;
          (p, anzOffen) = fenster_monitor_collect_reed_states env p
      in if block_type p = EDS_fenster_monitor_page_BLOCK_ID
         then lcd_print 0 1 (snprintf 31 ('' '' @ fmt_u anzOffen @ '' offen'')) p else p)"

definition fenster_monitor_page_can_callback :: "canix_frame \<Rightarrow> panel \<Rightarrow> panel" where
  "fenster_monitor_page_can_callback f p =
     (if byte_at f 1 = HCAN_HES_REEDKONTAKT_STATE_REPLAY
      then fenster_monitor_insert_reed_state (byte_at f 2) (byte_at f 3) p else p)"

section \<open>Push button and roller shutter\<close>

definition taster_page_print_page :: "panel \<Rightarrow> panel" where
  "taster_page_print_page p =
     (let p = say [LcdClear] p;
          p = lcd_print 0 0 (snprintf 39 (fmt_width 16 (page_string p 6))) p
      in lcd_print 0 1 (snprintf 39 (fmt_width 16 (page_string p 23))) p)"

definition rolladen_page_print_page :: "panel \<Rightarrow> panel" where
  "rolladen_page_print_page p =
     (let p = say [LcdClear] p;
          p = lcd_print 0 0 (snprintf 31 (page_string p 7)) p
      in lcd_print 0 1 (snprintf 31 (page_string p 24)) p)"

end
