(* ===== verification/Panel.thy ===== *)
theory Panel
  imports Panel_Pages
begin

text \<open>
  The user panel as a whole: the display of the active page, the ways from page to page, what
  the keys do on each kind of page, the seconds timer, the frames of the bus
  (\<^verbatim>\<open>src/firmwares/userpanel-v01/lcdstatemachine.c\<close>, the key handlers of the page
  files, \<^verbatim>\<open>keys.c\<close>, \<^verbatim>\<open>timer.c\<close> and \<^verbatim>\<open>main.c\<close>). The
  restart by three keys never returns: what a run logs after \<open>BoardReset\<close> does not
  happen.
\<close>

section \<open>The start page\<close>

text \<open>A character buffer and the C functions on it; the string in it ends at the first zero.\<close>

definition NUL :: char where "NUL = CHR 0x00"

definition cstr :: "string \<Rightarrow> string" where
  "cstr s = takeWhile (\<lambda>c. c \<noteq> NUL) s"

definition strcpy_at :: "string \<Rightarrow> nat \<Rightarrow> string \<Rightarrow> string" where
  "strcpy_at s pos t = take pos s @ t @ [NUL] @ drop (pos + length t + 1) s"

definition wochentag :: "panel \<Rightarrow> string" where
  "wochentag p =
     (let d = day_of_week (rtc p) in
      if d = 1 then ''Mo'' else if d = 2 then ''Di'' else if d = 3 then ''Mi'' else if d = 4 then ''Do''
      else if d = 5 then ''Fr'' else if d = 6 then ''Sa'' else if d = 7 then ''So''
      else map (\<lambda>b. char_of (unat b)) (takeWhile (\<lambda>b. b \<noteq> 0) (stack_junk p)))"

text \<open>
  One of the counts: it is put in front of what is already there, whose terminating zero is
  replaced by a blank when something is. \<open>s\<close> is \<^verbatim>\<open>char s[32]\<close>, of which
  nothing is shown that has not been written.
\<close>

definition put_count :: "string \<Rightarrow> u8 \<Rightarrow> string \<times> u8 \<Rightarrow> string \<times> u8" where
  "put_count lab n = (\<lambda>(s, pos).
     if 0 < n
     then (let sz = snprintf 6 (lab @ fmt_u n); pos' = pos - of_nat (length sz);
               s = strcpy_at s (unat pos') sz
           in (if pos \<noteq> 16 then s[length (cstr s) := CHR '' ''] else s, pos'))
     else (s, pos))"

definition screensaver_line1 :: "panel \<Rightarrow> string" where
  "screensaver_line1 p =
     (let c = rtc p; (nUeber0Grad, nUeber15Grad) = get_count_Tsoll p;
          s = strcpy_at (replicate 32 NUL) 0 (snprintf 31
                (wochentag p @ '','' @ fmt_02d (day_of_month c) @ ''.'' @ fmt_02d (month_of_year c) @ ''.'' @
                 fmt_u (year c) @ ''     ''))
      in cstr (fst (if 0 < nUeber15Grad then put_count '' H'' nUeber15Grad (s, 16)
                    else put_count '' h'' nUeber0Grad (s, 16))))"

definition screensaver_line2 :: "panel \<Rightarrow> string" where
  "screensaver_line2 p =
     (let c = rtc p;
          s = strcpy_at (replicate 32 NUL) 0 (snprintf 31
                (fmt_02d (hour c) @ '':'' @ fmt_02d (minute c) @ ''           ''));
          r = put_count '' F'' (get_count_reedkontakt_states p) (s, 16);
          r = put_count '' L'' (get_count_lampen_states p) r;
          r = put_count '' S'' (snd (get_count_sonstige_states 0 p)) r;
          (s, pos) = put_count ''P'' (get_count_mute_states p) r
      in cstr (if pos = 16 then strcpy_at s 6 ''Uhr'' else s))"

definition print_screensaver_page :: "panel \<Rightarrow> panel" where
  "print_screensaver_page p = lcd_print 0 1 (screensaver_line2 p) (lcd_print 0 0 (screensaver_line1 p) p)"

section \<open>The active page\<close>

definition print_dir_page :: "panel \<Rightarrow> panel" where
  "print_dir_page p = lcd_print 0 0 (snprintf 31 (''>'' @ page_string p 4 @ ''..'')) p"

text \<open>The second line of an error page; a code without a text repeats the first line.\<close>

definition error_text :: "u8 \<Rightarrow> string \<Rightarrow> string" where
  "error_text code s =
     (if code = ERROR_PAGE_SIZE_TOO_LARGE then ''Seite zu gr.''
      else if code = ERROR_PAGE_PAGE_NOT_FOUND then ''Seite n. gef.''
      else if code = ERROR_PAGE_CHILD_PAGE_NOT_FOUND then ''Child-S. n. gef.''
      else if code = ERROR_PAGE_PAGE_STACK_OVERFLOW then ''page stack overflow''
      else if code = ERROR_PAGE_PAGE_STACK_UNDERFLOW then ''page stack underflow''
      else if code = ERROR_PAGE_SHORTCUTS_MISSING then ''shortcuts error''
      else if code = ERROR_CONF_REEDKONTAKTE_MISSING then ''conf reedkontakt''
      else if code = ERROR_CONF_LAMPEN_MISSING then ''conf lampen''
      else if code = ERROR_CONF_SONSTIGE_MISSING then ''conf sonstige''
      else s)"

definition print_page :: "(panel \<Rightarrow> panel) \<Rightarrow> panel \<Rightarrow> panel" where
  "print_page env p =
     (let p = say [LcdClear] p; t = block_type p in
      if t = 255
      then (let code = page_byte p 4; s = ''Fehler '' @ fmt_u code @ '':'' in
            lcd_print 0 1 (error_text code s) (lcd_print 0 0 s p))
      else if t = EDS_screensaver_page_BLOCK_ID then print_screensaver_page p
      else if t = EDS_leave_come_page_BLOCK_ID then leave_come_page_print_page p
      else if t = EDS_dir_page_BLOCK_ID then print_dir_page p
      else if t = EDS_heiz_page_BLOCK_ID then heiz_page_print_page env p
      else if t = EDS_weck_page_BLOCK_ID then weck_page_print_page env p
      else if t = EDS_gesamt_heiz_page_BLOCK_ID then gesamt_heiz_page_print_page p
      else if t = EDS_rolladen_page_BLOCK_ID then rolladen_page_print_page p
      else if t = EDS_taster_page_BLOCK_ID then taster_page_print_page p
      else if t = EDS_powerport_page_BLOCK_ID then powerport_page_print_page env p
      else if t = EDS_fenster_monitor_page_BLOCK_ID then fenster_monitor_page_print_page env p
      else if t = EDS_temp_anzeige_page_BLOCK_ID then temp_anzeige_page_print_page env p
      else lcd_print 0 1 (fmt_u t @ '' unbekannt'') (lcd_print 0 0 ''Fehler: Pagetyp'' p))"

section \<open>From page to page\<close>

definition page_path_stack_push :: "(panel \<Rightarrow> panel) \<Rightarrow> u8 \<Rightarrow> panel \<Rightarrow> panel" where
  "page_path_stack_push env pid p =
     (if page_stack_ptr p \<ge> 7 then print_page env (load_error_page ERROR_PAGE_PAGE_STACK_OVERFLOW p)
      else p\<lparr>page_stack := (page_stack p)[unat (page_stack_ptr p) := pid],
             page_stack_ptr := page_stack_ptr p + 1\<rparr>)"

definition page_path_stack_pop :: "(panel \<Rightarrow> panel) \<Rightarrow> panel \<Rightarrow> panel \<times> u8" where
  "page_path_stack_pop env p =
     (if page_stack_ptr p = 0 then (print_page env (load_error_page ERROR_PAGE_PAGE_STACK_UNDERFLOW p), 255)
      else (let p = p\<lparr>page_stack_ptr := page_stack_ptr p - 1\<rparr> in
            (p, page_stack p ! unat (page_stack_ptr p))))"

definition goto_page :: "(panel \<Rightarrow> panel) \<Rightarrow> u8 \<Rightarrow> panel \<Rightarrow> panel" where
  "goto_page env page p = print_page env (load_page page p)"

definition goto_page_up :: "(panel \<Rightarrow> panel) \<Rightarrow> panel \<Rightarrow> panel" where
  "goto_page_up env p = (if parent_id p \<noteq> 0 then goto_page env (parent_id p) p else p)"

definition goto_next_page :: "(panel \<Rightarrow> panel) \<Rightarrow> panel \<Rightarrow> panel" where
  "goto_next_page env p = (if next_id p \<noteq> 0 then goto_page env (next_id p) p else p)"

definition goto_prev_page :: "(panel \<Rightarrow> panel) \<Rightarrow> panel \<Rightarrow> panel" where
  "goto_prev_page env p = (if prev_id p \<noteq> 0 then goto_page env (prev_id p) p else p)"

fun first_child_loop :: "(panel \<Rightarrow> panel) \<Rightarrow> u8 \<Rightarrow> nat list \<Rightarrow> panel \<Rightarrow> panel" where
  "first_child_loop env self [] p = print_page env (load_error_page ERROR_PAGE_CHILD_PAGE_NOT_FOUND p)"
| "first_child_loop env self (it # its) p =
     (if EDS_BLOCK_DATA (mem p) it 1 = self \<and> EDS_BLOCK_DATA (mem p) it 3 = 0
      then (let n = EDS_BLOCK_SIZE (mem p) it + 2 in
            if n > sizeof_active_page then print_page env (load_error_page ERROR_PAGE_SIZE_TOO_LARGE p)
            else print_page env (read_page it n p))
      else first_child_loop env self its p)"

definition goto_first_child_page :: "(panel \<Rightarrow> panel) \<Rightarrow> panel \<Rightarrow> panel" where
  "goto_first_child_page env p =
     (let self = page_id p; p = page_path_stack_push env self p in
      first_child_loop env self
        (EDS_foreach_block_between (board p) (mem p) EDS_PAGE_ID_START EDS_PAGE_ID_END) p)"

section \<open>Keys on the pages\<close>

abbreviation (input) KEY_F1 :: u8 where "KEY_F1 \<equiv> 8"
abbreviation (input) KEY_F2 :: u8 where "KEY_F2 \<equiv> 0"
abbreviation (input) KEY_F3 :: u8 where "KEY_F3 \<equiv> 9"
abbreviation (input) KEY_F4 :: u8 where "KEY_F4 \<equiv> 1"
abbreviation (input) KEY_OK :: u8 where "KEY_OK \<equiv> 3"
abbreviation (input) KEY_ESC :: u8 where "KEY_ESC \<equiv> 2"
abbreviation (input) KEY_UP :: u8 where "KEY_UP \<equiv> 7"
abbreviation (input) KEY_DOWN :: u8 where "KEY_DOWN \<equiv> 6"
abbreviation (input) LCD_DISP_ON :: u8 where "LCD_DISP_ON \<equiv> 0x0c"
abbreviation (input) LCD_DISP_ON_CURSOR_BLINK :: u8 where "LCD_DISP_ON_CURSOR_BLINK \<equiv> 0x0f"

subsection \<open>Heating\<close>

text \<open>
  A message of which nothing but the first byte has been written: the rest and the size are
  what was on the stack.
\<close>

definition unfilled_message :: "panel \<Rightarrow> canix_frame" where
  "unfilled_message p = (panel_message p (take 7 (stack_junk p)))\<lparr>fsize := nth_default 0 (stack_junk p) 7\<rparr>"

definition heiz_edited_message :: "panel \<Rightarrow> canix_frame" where
  "heiz_edited_message p =
     (let sub = heiz_page_subpage p; mode = heiz_details_mode_edit p; hid = page_byte p 12;
          T = heiz_details_Tsoll_edit p; d = heiz_details_dauer_edit p in
      if sub = 0
      then (if mode = HEIZUNG_MODE_OFF then panel_message p [HCAN_HES_HEIZUNG_SET_MODE_OFF, hid]
            else if mode = HEIZUNG_MODE_MANUAL
            then panel_message p [HCAN_HES_HEIZUNG_SET_MODE_MANUAL, hid, 0, 84, 96]
            else if mode = HEIZUNG_MODE_THERMOSTAT
            then panel_message p [HCAN_HES_HEIZUNG_SET_MODE_THERMOSTAT_DETAILS, hid, 1, 64, 84, 96]
            else if mode = HEIZUNG_MODE_AUTOMATIK then panel_message p [HCAN_HES_HEIZUNG_SET_MODE_AUTOMATIK, hid]
            else unfilled_message p)
      else if sub = 1 \<or> sub = 2
      then (if mode = HEIZUNG_MODE_MANUAL
            then panel_message p [HCAN_HES_HEIZUNG_SET_MODE_MANUAL, hid, heiz_details_rate_edit p, hi8 d, lo8 d]
            else if mode = HEIZUNG_MODE_THERMOSTAT
            then panel_message p [HCAN_HES_HEIZUNG_SET_MODE_THERMOSTAT_DETAILS, hid, hi8 T, lo8 T, hi8 d, lo8 d]
            else unfilled_message p)
      else unfilled_message p)"

definition set_heiz_edited_details :: "panel \<Rightarrow> panel" where
  "set_heiz_edited_details p = panel_send HCAN_PRIO_HI (heiz_edited_message p) p"

text \<open>The results of \<^verbatim>\<open>get_heiz_details\<close> for the five pointers; on a timeout they keep their values.\<close>

definition load_heiz_edit :: "heiz_values option \<Rightarrow> panel \<Rightarrow> panel" where
  "load_heiz_edit r p =
     (case r of None \<Rightarrow> p
      | Some v \<Rightarrow> p\<lparr>heiz_details_mode_edit := hv_mode v, heiz_details_rate_edit := hv_rate v,
                    heiz_details_Tsoll_edit := hv_Tsoll v, heiz_details_dauer_edit := hv_dauer v\<rparr>)"

definition heiz_edit_up :: "panel \<Rightarrow> panel" where
  "heiz_edit_up p =
     (let sub = heiz_page_subpage p; mode = heiz_details_mode_edit p; d = heiz_details_dauer_edit p in
      if sub = 0
      then (if mode < HEIZUNG_MODE_AUTOMATIK then p\<lparr>heiz_details_mode_edit := mode + 1\<rparr> else p)
      else if sub = 1
      then (if mode = HEIZUNG_MODE_MANUAL
            then (if heiz_details_rate_edit p < 100
                  then p\<lparr>heiz_details_rate_edit := heiz_details_rate_edit p + 10\<rparr> else p)
            else if mode = HEIZUNG_MODE_THERMOSTAT
            then (if sint (heiz_details_Tsoll_edit p) < 480
                  then p\<lparr>heiz_details_Tsoll_edit := heiz_details_Tsoll_edit p + 2\<rparr> else p)
            else p)
      else if sub = 2 \<and> (mode = HEIZUNG_MODE_MANUAL \<or> mode = HEIZUNG_MODE_THERMOSTAT)
      then (if d < 43200 then p\<lparr>heiz_details_dauer_edit := d div 900 * 900 + 900\<rparr> else p)
      else p)"

definition heiz_edit_down :: "panel \<Rightarrow> panel" where
  "heiz_edit_down p =
     (let sub = heiz_page_subpage p; mode = heiz_details_mode_edit p; d = heiz_details_dauer_edit p in
      if sub = 0
      then (if mode > HEIZUNG_MODE_OFF then p\<lparr>heiz_details_mode_edit := mode - 1\<rparr> else p)
      else if sub = 1
      then (if mode = HEIZUNG_MODE_MANUAL
            then (if heiz_details_rate_edit p > 0
                  then p\<lparr>heiz_details_rate_edit := heiz_details_rate_edit p - 10\<rparr> else p)
            else if mode = HEIZUNG_MODE_THERMOSTAT
            then (if sint (heiz_details_Tsoll_edit p) > 0
                  then p\<lparr>heiz_details_Tsoll_edit := heiz_details_Tsoll_edit p - 2\<rparr> else p)
            else p)
      else if sub = 2 \<and> (mode = HEIZUNG_MODE_MANUAL \<or> mode = HEIZUNG_MODE_THERMOSTAT)
      then (if d > 900 then p\<lparr>heiz_details_dauer_edit := d div 900 * 900 - 900\<rparr> else p)
      else p)"

definition heiz_page_handle_key_down_event :: "(panel \<Rightarrow> panel) \<Rightarrow> u8 \<Rightarrow> panel \<Rightarrow> panel" where
  "heiz_page_handle_key_down_event env key p =
     (let view = (heiz_page_state p = STATE_VIEW); edit = (heiz_page_state p = STATE_EDIT);
          back = (\<lambda>p. say [LcdCommand LCD_DISP_ON] (p\<lparr>heiz_page_state := STATE_VIEW\<rparr>)) in
      if key = KEY_OK \<and> view
      then (let (p, r) = get_heiz_details env (page_byte p 12) p; p = load_heiz_edit r p in
            if heiz_page_subpage p = 1 \<and> heiz_details_mode_edit p = HEIZUNG_MODE_AUTOMATIK then p
            else heiz_page_print_page env
                   (say [LcdCommand LCD_DISP_ON_CURSOR_BLINK] (p\<lparr>heiz_page_state := STATE_EDIT\<rparr>)))
      else if key = KEY_OK \<and> edit then heiz_page_print_page env (set_heiz_edited_details (back p))
      else if key = KEY_ESC \<and> view then goto_page_up env (p\<lparr>heiz_page_subpage := 0\<rparr>)
      else if key = KEY_ESC \<and> edit then heiz_page_print_page env (back p)
      else if key = KEY_UP \<and> view
      then heiz_page_print_page env
             (if heiz_page_subpage p > 0 then p\<lparr>heiz_page_subpage := heiz_page_subpage p - 1\<rparr> else p)
      else if key = KEY_UP \<and> edit then heiz_page_print_page env (heiz_edit_up p)
      else if key = KEY_DOWN \<and> view
      then (let m = heiz_details_mode_edit p;
                upper = (if m = HEIZUNG_MODE_OFF \<or> m = HEIZUNG_MODE_AUTOMATIK then 0 else 2) in
            heiz_page_print_page env
              (if heiz_page_subpage p < upper then p\<lparr>heiz_page_subpage := heiz_page_subpage p + 1\<rparr> else p))
      else if key = KEY_DOWN \<and> edit then heiz_page_print_page env (heiz_edit_down p)
      else p)"

subsection \<open>All heatings\<close>

text \<open>
  The message for all heatings, with the number of one of them. It is built once, before the
  loop; the loop reads the numbers from the active page.
\<close>

definition gesamt_heiz_message :: "panel \<Rightarrow> u8 \<Rightarrow> canix_frame" where
  "gesamt_heiz_message p =
     (let sub = gesamt_heiz_page_subpage p; mode = gesamt_heiz_details_mode_edit p;
          thermo = (\<lambda>T d g. panel_message p
             [HCAN_HES_HEIZUNG_SET_MODE_THERMOSTAT_DETAILS, g, hi8 T, lo8 T, hi8 d, lo8 d]);
          junk = (\<lambda>g. (unfilled_message p)\<lparr>data := (data (unfilled_message p))[2 := g]\<rparr>) in
      if sub = 0
      then (if mode = HEIZUNG_MODE_OFF then (\<lambda>g. panel_message p [HCAN_HES_HEIZUNG_SET_MODE_OFF, g])
            else if mode = MODE_FROSTSCHUTZ then thermo VORGABE_TEMPERATUR_FROSTSCHUTZ VORGABE_DAUER_FROSTSCHUTZ
            else if mode = MODE_FROSTSCHUTZ_KURZ
            then thermo VORGABE_TEMPERATUR_FROSTSCHUTZ VORGABE_DAUER_FROSTSCHUTZ_KURZ
            else if mode = MODE_THERMOSTAT_X then thermo VORGABE_TEMPERATUR_THERMOSTAT VORGABE_DAUER_THERMOSTAT
            else if mode = MODE_AUTOMATIK_X then (\<lambda>g. panel_message p [HCAN_HES_HEIZUNG_SET_MODE_AUTOMATIK, g])
            else junk)
      else if (sub = 1 \<or> sub = 2) \<and> is_thermostat_x mode
      then thermo (gesamt_heiz_details_Tsoll_edit p) (gesamt_heiz_details_dauer_edit p)
      else junk)"

definition set_gesamt_heiz_edited_details :: "(panel \<Rightarrow> panel) \<Rightarrow> panel \<Rightarrow> panel" where
  "set_gesamt_heiz_edited_details env p =
     (let msg = gesamt_heiz_message p in
      fold (\<lambda>i p. if page_byte p (12 + i) \<noteq> 255
              then nap env 10 (panel_send HCAN_PRIO_HI (msg (page_byte p (12 + i))) p) else p) [0..<12] p)"

definition gesamt_heiz_edit_up :: "panel \<Rightarrow> panel" where
  "gesamt_heiz_edit_up p =
     (let sub = gesamt_heiz_page_subpage p; mode = gesamt_heiz_details_mode_edit p;
          d = gesamt_heiz_details_dauer_edit p in
      if sub = 0
      then (if mode < MODE_AUTOMATIK_X then p\<lparr>gesamt_heiz_details_mode_edit := mode + 1\<rparr> else p)
      else if sub = 1 \<and> is_thermostat_x mode
      then (if sint (gesamt_heiz_details_Tsoll_edit p) < 480
            then p\<lparr>gesamt_heiz_details_Tsoll_edit := gesamt_heiz_details_Tsoll_edit p + 2\<rparr> else p)
      else if sub = 2 \<and> is_thermostat_x mode
      then (if d < 43200 then p\<lparr>gesamt_heiz_details_dauer_edit := d div 900 * 900 + 900\<rparr> else p)
      else p)"

definition gesamt_heiz_edit_down :: "panel \<Rightarrow> panel" where
  "gesamt_heiz_edit_down p =
     (let sub = gesamt_heiz_page_subpage p; mode = gesamt_heiz_details_mode_edit p;
          d = gesamt_heiz_details_dauer_edit p in
      if sub = 0
      then (if mode > HEIZUNG_MODE_OFF then p\<lparr>gesamt_heiz_details_mode_edit := mode - 1\<rparr> else p)
      else if sub = 1 \<and> is_thermostat_x mode
      then (if sint (gesamt_heiz_details_Tsoll_edit p) > 0
            then p\<lparr>gesamt_heiz_details_Tsoll_edit := gesamt_heiz_details_Tsoll_edit p - 2\<rparr> else p)
      else if sub = 2 \<and> is_thermostat_x mode
      then (if d > 900 then p\<lparr>gesamt_heiz_details_dauer_edit := d div 900 * 900 - 900\<rparr> else p)
      else p)"

definition gesamt_heiz_page_handle_key_down_event :: "(panel \<Rightarrow> panel) \<Rightarrow> u8 \<Rightarrow> panel \<Rightarrow> panel" where
  "gesamt_heiz_page_handle_key_down_event env key p =
     (let view = (gesamt_heiz_page_state p = STATE_VIEW); edit = (gesamt_heiz_page_state p = STATE_EDIT);
          back = (\<lambda>p. say [LcdCommand LCD_DISP_ON] (p\<lparr>gesamt_heiz_page_state := STATE_VIEW\<rparr>)) in
      if key = KEY_OK \<and> view
      then (let p = gesamt_heiz_vorgaben p in
            if gesamt_heiz_page_subpage p = 1 \<and> gesamt_heiz_details_mode_edit p = MODE_AUTOMATIK_X then p
            else gesamt_heiz_page_print_page
                   (say [LcdCommand LCD_DISP_ON_CURSOR_BLINK] (p\<lparr>gesamt_heiz_page_state := STATE_EDIT\<rparr>)))
      else if key = KEY_OK \<and> edit
      then gesamt_heiz_page_print_page (set_gesamt_heiz_edited_details env (back p))
      else if key = KEY_ESC \<and> view then goto_page_up env (p\<lparr>gesamt_heiz_page_subpage := 0\<rparr>)
      else if key = KEY_ESC \<and> edit then gesamt_heiz_page_print_page (back p)
      else if key = KEY_UP \<and> view
      then gesamt_heiz_page_print_page
             (if gesamt_heiz_page_subpage p > 0
              then p\<lparr>gesamt_heiz_page_subpage := gesamt_heiz_page_subpage p - 1\<rparr> else p)
      else if key = KEY_UP \<and> edit then gesamt_heiz_page_print_page (gesamt_heiz_edit_up p)
      else if key = KEY_DOWN \<and> view
      then (let m = gesamt_heiz_details_mode_edit p;
                upper = (if m = HEIZUNG_MODE_OFF \<or> m = MODE_AUTOMATIK_X then 0 else 2) in
            gesamt_heiz_page_print_page
              (if gesamt_heiz_page_subpage p < upper
               then p\<lparr>gesamt_heiz_page_subpage := gesamt_heiz_page_subpage p + 1\<rparr> else p))
      else if key = KEY_DOWN \<and> edit then gesamt_heiz_page_print_page (gesamt_heiz_edit_down p)
      else p)"

subsection \<open>Alarm timer\<close>

abbreviation (input) POWERPORT_FEATURE_WECK_VERZOEGERT_EIN :: nat where "POWERPORT_FEATURE_WECK_VERZOEGERT_EIN \<equiv> 4"
abbreviation (input) POWERPORT_FEATURE_WECK_AUTO_AUS :: nat where "POWERPORT_FEATURE_WECK_AUTO_AUS \<equiv> 5"

definition set_weck_edited_details :: "panel \<Rightarrow> panel" where
  "set_weck_edited_details p =
     (let feature = page_byte p 4; d = weck_details_dauer_edit p;
          k = (if bit feature POWERPORT_FEATURE_WECK_VERZOEGERT_EIN then POWERPORT_FEATURE_WECK_VERZOEGERT_EIN
               else if bit feature POWERPORT_FEATURE_WECK_AUTO_AUS then POWERPORT_FEATURE_WECK_AUTO_AUS
               else POWERPORT_FEATURE_WECK_VERZOEGERT_EIN)
      in panel_send HCAN_PRIO_HI
           (panel_message p [HCAN_HES_WECKER_SET, page_byte p 5, of_nat k, hi8 d, lo8 d]) p)"

definition weck_edit_up :: "u16 \<Rightarrow> u16" where
  "weck_edit_up d = (if d < 43200 then (d div 300 + 1) * 300 + 300 else d)"

definition weck_edit_down :: "u16 \<Rightarrow> u16" where
  "weck_edit_down d = (if d > 300 then d div 300 * 300 - 300 else d)"

definition weck_page_handle_key_down_event :: "(panel \<Rightarrow> panel) \<Rightarrow> u8 \<Rightarrow> panel \<Rightarrow> panel" where
  "weck_page_handle_key_down_event env key p =
     (let view = (weck_page_state p = STATE_VIEW); edit = (weck_page_state p = STATE_EDIT);
          back = (\<lambda>p. say [LcdCommand LCD_DISP_ON] (p\<lparr>weck_page_state := STATE_VIEW\<rparr>)) in
      if key = KEY_OK \<and> view
      then weck_page_print_page env (say [LcdCommand LCD_DISP_ON_CURSOR_BLINK]
             (p\<lparr>weck_details_dauer_edit := 1200, weck_page_state := STATE_EDIT\<rparr>))
      else if key = KEY_OK \<and> edit then weck_page_print_page env (set_weck_edited_details (back p))
      else if key = KEY_ESC \<and> view then goto_page_up env p
      else if key = KEY_ESC \<and> edit then weck_page_print_page env (back p)
      else if key = KEY_UP \<and> edit
      then weck_page_print_page env (p\<lparr>weck_details_dauer_edit := weck_edit_up (weck_details_dauer_edit p)\<rparr>)
      else if key = KEY_DOWN \<and> edit
      then weck_page_print_page env (p\<lparr>weck_details_dauer_edit := weck_edit_down (weck_details_dauer_edit p)\<rparr>)
      else p)"

subsection \<open>Leaving and coming home\<close>

definition leave_come_page_set_heizung :: "(panel \<Rightarrow> panel) \<Rightarrow> u8 \<Rightarrow> panel \<Rightarrow> panel" where
  "leave_come_page_set_heizung env mode p =
     (let it = find_conf EDS_userpanel_heizungen_BLOCK_ID p in
      if it = 0 then load_error_page ERROR_CONF_HEIZUNG_MISSING p
      else fold (\<lambda>g p. if g \<noteq> 255
             then nap env 10 (panel_send HCAN_PRIO_LOW
                    (if mode = MODE_FROSTSCHUTZ
                     then panel_message p [HCAN_HES_HEIZUNG_SET_MODE_THERMOSTAT_DETAILS, g,
                            hi8 VORGABE_TEMPERATUR_FROSTSCHUTZ, lo8 VORGABE_TEMPERATUR_FROSTSCHUTZ,
                            hi8 VORGABE_DAUER_FROSTSCHUTZ, lo8 VORGABE_DAUER_FROSTSCHUTZ]
                     else panel_message p [HCAN_HES_HEIZUNG_SET_MODE_AUTOMATIK, g]) p)
             else p) (read_conf 24 it p) p)"

text \<open>The loop that switches the groups off, with the index as the argument of the test.\<close>

definition switch_off_group :: "(panel \<Rightarrow> panel) \<Rightarrow> u8 list \<Rightarrow> nat \<Rightarrow> panel \<Rightarrow> panel" where
  "switch_off_group env ids i p =
     (if ids ! i \<noteq> 255
      then (let (p, ignored) = leave_come_page_get_ignore (of_nat i) p in
            if ignored = 0
            then nap env 10 (panel_send HCAN_PRIO_LOW (panel_message p [HCAN_HES_POWER_GROUP_OFF, ids ! i]) p)
            else p)
      else p)"

definition switch_groups_off :: "(panel \<Rightarrow> panel) \<Rightarrow> u8 list \<Rightarrow> panel \<Rightarrow> panel" where
  "switch_groups_off env ids = fold (switch_off_group env ids) [0..<24]"

definition leave_come_page_set_lampen_aus :: "(panel \<Rightarrow> panel) \<Rightarrow> panel \<Rightarrow> panel" where
  "leave_come_page_set_lampen_aus env p =
     (let it = find_conf EDS_userpanel_lampen_BLOCK_ID p in
      if it = 0 then load_error_page ERROR_CONF_LAMPEN_MISSING p
      else switch_groups_off env (read_conf 24 it p) p)"

definition leave_come_page_set_sonstige_aus :: "(panel \<Rightarrow> panel) \<Rightarrow> panel \<Rightarrow> panel" where
  "leave_come_page_set_sonstige_aus env p =
     (let it = find_conf EDS_userpanel_sonstige_BLOCK_ID p in
      if it = 0 then load_error_page ERROR_CONF_SONSTIGE_MISSING p
      else switch_groups_off env (read_conf 24 it p) p)"

definition leave_come_page_handle_key_down_event :: "(panel \<Rightarrow> panel) \<Rightarrow> u8 \<Rightarrow> panel \<Rightarrow> panel" where
  "leave_come_page_handle_key_down_event env key p =
     (if key = KEY_ESC then goto_page_up env p
      else if key = KEY_OK
      then (if leave_come_state p = COME_HEATING_IS_OFF then goto_page_up env p
            else (let p = (if leave_come_state p = LEAVE_HEATED
                     then leave_come_page_set_heizung env MODE_FROSTSCHUTZ
                            (leave_come_page_set_sonstige_aus env (leave_come_page_set_lampen_aus env p))
                     else if leave_come_state p = LEAVE_HEATING_IS_OFF
                     then leave_come_page_set_sonstige_aus env (leave_come_page_set_lampen_aus env p)
                     else if leave_come_state p = COME_HEATED
                     then leave_come_page_set_heizung env HCAN_HES_HEIZUNG_SET_MODE_AUTOMATIK p
                     else p)
                  in goto_page_up env (nap env 5 (lcdctrl_blink env p))))
      else p)"

subsection \<open>Switched output, push button, roller shutter\<close>

definition powerport_page_handle_key_down_event :: "(panel \<Rightarrow> panel) \<Rightarrow> u8 \<Rightarrow> panel \<Rightarrow> panel" where
  "powerport_page_handle_key_down_event env key p =
     (let done = (\<lambda>p. powerport_page_print_page env (nap env 5 (lcdctrl_blink env p))) in
      if key = KEY_OK \<and> powerport_page_state p = 1 \<and> sint (powerport_page_timer p) > 0
      then done (panel_send HCAN_PRIO_HI (panel_message p [HCAN_HES_POWER_GROUP_SET_TIMER, page_byte p 5, 0, 0]) p)
      else if key = KEY_OK \<and> powerport_page_state p \<noteq> -1
      then done (panel_send HCAN_PRIO_HI (panel_message p
             [if powerport_page_state p \<noteq> 0 then HCAN_HES_POWER_GROUP_OFF else HCAN_HES_POWER_GROUP_ON,
              page_byte p 5]) p)
      else if key = KEY_ESC then goto_page_up env p
      else if key = KEY_UP then goto_prev_page env p
      else if key = KEY_DOWN then goto_next_page env p
      else p)"

definition taster_page_handle_key_down_event :: "(panel \<Rightarrow> panel) \<Rightarrow> u8 \<Rightarrow> panel \<Rightarrow> panel" where
  "taster_page_handle_key_down_event env key p =
     (if key = KEY_OK
      then (let g = page_byte p 5;
                p = panel_send HCAN_PRIO_HI (panel_message p [HCAN_HES_TASTER_DOWN, g]) p;
                p = nap env 1 p
            in lcdctrl_blink env (panel_send HCAN_PRIO_HI (panel_message p [HCAN_HES_TASTER_UP, g]) p))
      else if key = KEY_ESC then goto_page_up env p
      else if key = KEY_UP then goto_prev_page env p
      else if key = KEY_DOWN then goto_next_page env p
      else p)"

definition rolladen_page_handle_key_down_event :: "(panel \<Rightarrow> panel) \<Rightarrow> u8 \<Rightarrow> panel \<Rightarrow> panel" where
  "rolladen_page_handle_key_down_event env key p =
     (if key = KEY_OK
      then lcdctrl_blink env (panel_send HCAN_PRIO_HI
             (panel_message p [HCAN_HES_ROLLADEN_POSITION_SET, page_byte p 5, page_byte p 6]) p)
      else if key = KEY_ESC then goto_page_up env p
      else if key = KEY_UP then goto_prev_page env p
      else if key = KEY_DOWN then goto_next_page env p
      else p)"

section \<open>Keys\<close>

definition key_down_event :: "(panel \<Rightarrow> panel) \<Rightarrow> u8 \<Rightarrow> panel \<Rightarrow> panel" where
  "key_down_event env key p =
     (let p = say [Backlight LCD_BACKLIGHT_DEFAULT, Contrast LCD_CONTRAST_DEFAULT] (p\<lparr>lcd_led_countdown := 10\<rparr>);
          p = p\<lparr>lcd_screensafer_countdown := 300, keypress_time := 1\<rparr>;
          t = block_type p in
      if t = EDS_heiz_page_BLOCK_ID then heiz_page_handle_key_down_event env key p
      else if t = EDS_weck_page_BLOCK_ID then weck_page_handle_key_down_event env key p
      else if t = EDS_gesamt_heiz_page_BLOCK_ID then gesamt_heiz_page_handle_key_down_event env key p
      else if t = EDS_rolladen_page_BLOCK_ID then rolladen_page_handle_key_down_event env key p
      else if t = EDS_taster_page_BLOCK_ID then taster_page_handle_key_down_event env key p
      else if t = EDS_powerport_page_BLOCK_ID then powerport_page_handle_key_down_event env key p
      else if t = EDS_leave_come_page_BLOCK_ID then leave_come_page_handle_key_down_event env key p
      else if lcd_state p = STATE_VIEW
      then (if key = KEY_OK
            then (if t = EDS_screensaver_page_BLOCK_ID \<or> t = EDS_dir_page_BLOCK_ID
                  then goto_first_child_page env p else p)
            else if key = KEY_ESC then goto_page_up env p
            else if key = KEY_UP then goto_prev_page env p
            else if key = KEY_DOWN then goto_next_page env p
            else p)
      else p)"

definition load_shortcut_page :: "(panel \<Rightarrow> panel) \<Rightarrow> nat \<Rightarrow> panel \<Rightarrow> panel" where
  "load_shortcut_page env n p =
     (let it = find_conf EDS_userpanel_shortcuts_BLOCK_ID p in
      if it \<noteq> 0 then goto_page env (read_conf 8 it p ! (n - 1)) p
      else load_error_page ERROR_PAGE_SHORTCUTS_MISSING p)"

definition save_shortcut_page :: "nat \<Rightarrow> panel \<Rightarrow> panel" where
  "save_shortcut_page n p =
     (let it = find_conf EDS_userpanel_shortcuts_BLOCK_ID p in
      if it \<noteq> 0
      then (let F = (read_conf 8 it p)[n - 1 := page_id p] in
            p\<lparr>mem := (\<lambda>a. if it + 2 \<le> a \<and> a < it + 10 then F ! (a - (it + 2)) else mem p a)\<rparr>)
      else load_error_page ERROR_PAGE_SHORTCUTS_MISSING p)"

definition shortcut_of :: "u8 \<Rightarrow> nat" where
  "shortcut_of key = (if key = KEY_F1 then 1 else if key = KEY_F2 then 2 else if key = KEY_F3 then 3
                      else if key = KEY_F4 then 4 else 0)"

definition key_up_event :: "(panel \<Rightarrow> panel) \<Rightarrow> u8 \<Rightarrow> panel \<Rightarrow> panel" where
  "key_up_event env key p =
     (let n = shortcut_of key;
          p = (if n \<noteq> 0
               then (if keypress_time p < 3 then load_shortcut_page env n p else save_shortcut_page n p)
               else p)
      in p\<lparr>keypress_time := 0\<rparr>)"

abbreviation (input) KEY_MASK :: u16 where "KEY_MASK \<equiv> 0x3fcf"
abbreviation (input) KEY_COUNTER_START :: u8 where "KEY_COUNTER_START \<equiv> 5"

text \<open>The keys pull their pins to ground; \<open>pins\<close> is the level of the ports D and A.\<close>

definition keys_key_pressed :: "u16 \<Rightarrow> u16" where
  "keys_key_pressed pins = NOT pins AND KEY_MASK"

definition key_scan :: "(panel \<Rightarrow> panel) \<Rightarrow> u16 \<Rightarrow> nat \<Rightarrow> panel \<Rightarrow> panel" where
  "key_scan env keys i p =
     (if key_counter p ! i = 0
      then (let p = (if key_state p ! i = 0 \<and> bit keys i
                     then key_down_event env (of_nat i)
                            (p\<lparr>key_counter := (key_counter p)[i := KEY_COUNTER_START], key_state := (key_state p)[i := 1]\<rparr>)
                     else p)
            in if key_state p ! i = 1 \<and> \<not> bit keys i
               then key_up_event env (of_nat i)
                      (p\<lparr>key_counter := (key_counter p)[i := KEY_COUNTER_START], key_state := (key_state p)[i := 0]\<rparr>)
               else p)
      else p\<lparr>key_counter := (key_counter p)[i := key_counter p ! i - 1]\<rparr>)"

definition keys_handle_pressed :: "(panel \<Rightarrow> panel) \<Rightarrow> u16 \<Rightarrow> panel \<Rightarrow> panel" where
  "keys_handle_pressed env pins p =
     (let keys = keys_key_pressed pins in
      if bit keys 2 \<and> bit keys 7 \<and> bit keys 6 then say [BoardReset] p
      else fold (key_scan env keys) [0..<16] p)"

section \<open>Timer, frames, start\<close>

text \<open>The display light goes down slowly, before it is set for the rest time.\<close>

definition lcd_fade :: "(panel \<Rightarrow> panel) \<Rightarrow> panel \<Rightarrow> panel" where
  "lcd_fade env p =
     lcdctrl_set_display_light LCD_MODE_INACTIVE
       (fold (\<lambda>i p. nap env 5 (say [Backlight (of_nat i)] p)) (rev [4..<31]) p)"

definition lcdstatemachine_timer_handler :: "(panel \<Rightarrow> panel) \<Rightarrow> panel \<Rightarrow> panel" where
  "lcdstatemachine_timer_handler env p =
     (let p = (if keypress_time p \<noteq> 0 \<and> keypress_time p < 255
               then p\<lparr>keypress_time := keypress_time p + 1\<rparr> else p);
          p = (if lcd_led_countdown p > 0
               then (let p = p\<lparr>lcd_led_countdown := lcd_led_countdown p - 1\<rparr> in
                     if lcd_led_countdown p = 0 then lcd_fade env p else p)
               else p);
          p = (if second (rtc p) AND 0x0f = 0
               then print_page env (if lcd_led_countdown p = 0 then lcdctrl_set_display_light LCD_MODE_INACTIVE p else p)
               else p)
      in if lcd_screensafer_countdown p > 0
         then (let p = p\<lparr>lcd_screensafer_countdown := lcd_screensafer_countdown p - 1\<rparr> in
               if lcd_screensafer_countdown p = 0 then goto_page env 1 p else p)
         else p)"

definition lcdstatemachine_can_callback :: "(panel \<Rightarrow> panel) \<Rightarrow> canix_frame \<Rightarrow> panel \<Rightarrow> panel" where
  "lcdstatemachine_can_callback env f p =
     (let p = monitor_heiz_can_callback env f p;
          p = monitor_reedkontakt_can_callback env f p;
          p = monitor_lampen_can_callback env f p;
          p = monitor_sonstige_can_callback env f p;
          p = monitor_mute_can_callback f p;
          p = (if block_type p = EDS_heiz_page_BLOCK_ID then heiz_page_can_callback f p else p);
          p = (if block_type p = EDS_weck_page_BLOCK_ID then weck_page_can_callback f p else p);
          p = (if block_type p = EDS_powerport_page_BLOCK_ID then powerport_page_can_callback f p else p);
          p = (if block_type p = EDS_fenster_monitor_page_BLOCK_ID then fenster_monitor_page_can_callback f p else p)
      in if block_type p = EDS_temp_anzeige_page_BLOCK_ID then temp_anzeige_page_can_callback f p else p)"

definition hauselektrik_callback :: "(panel \<Rightarrow> panel) \<Rightarrow> canix_frame \<Rightarrow> panel \<Rightarrow> panel" where
  "hauselektrik_callback env f p =
     (if hauselektrik_accepts (self_addr p) f then lcdstatemachine_can_callback env f p else p)"

definition timer_handler :: "panel \<Rightarrow> panel" where
  "timer_handler p =
     (let p = p\<lparr>timer_counter_100th := timer_counter_100th p + 1, timer_event_100th := 1\<rparr>;
          p = (if timer_counter_100th p = 10
               then p\<lparr>timer_counter_10th := timer_counter_10th p + 1, timer_counter_100th := 0, timer_event_10th := 1\<rparr>
               else p)
      in if timer_counter_10th p = 10
         then p\<lparr>timer_counter_1 := timer_counter_1 p + 1, timer_counter_10th := 0, timer_event_1 := 1\<rparr>
         else p)"

definition idle_handler :: "(panel \<Rightarrow> panel) \<Rightarrow> u16 \<Rightarrow> panel \<Rightarrow> panel" where
  "idle_handler env pins p =
     (let p = (if timer_event_100th p \<noteq> 0 then keys_handle_pressed env pins (p\<lparr>timer_event_100th := 0\<rparr>) else p);
          p = (if timer_event_10th p \<noteq> 0 then p\<lparr>timer_event_10th := 0\<rparr> else p)
      in if timer_event_1 p \<noteq> 0 then lcdstatemachine_timer_handler env (p\<lparr>timer_event_1 := 0\<rparr>) else p)"

definition lcdstatemachine_init :: "(panel \<Rightarrow> panel) \<Rightarrow> panel \<Rightarrow> panel" where
  "lcdstatemachine_init env p =
     goto_page env 1 (p\<lparr>lcd_state := STATE_VIEW, keypress_time := 0, lcd_led_countdown := 5,
       lcd_screensafer_countdown := 30\<rparr>)"

text \<open>The global variables before \<^verbatim>\<open>main\<close> runs, and the start.\<close>

definition panel_reset :: "mcu \<Rightarrow> u16 \<Rightarrow> u8 list \<Rightarrow> eeprom \<Rightarrow> panel_event list list \<Rightarrow> panel" where
  "panel_reset c self junk m scr =
     \<lparr>board = c, self_addr = self, stack_junk = junk, mem = m, rtc = canix_rtc_init, script = scr, log = [],
      lcd_state = 0, active_page = (\<lambda>_. 0), keypress_time = 0, lcd_led_countdown = 0,
      lcd_screensafer_countdown = 0, page_stack = replicate 8 0, page_stack_ptr = 0,
      key_counter = replicate 16 0, key_state = replicate 16 0,
      timer_counter_100th = 0, timer_counter_10th = 0, timer_counter_1 = 0,
      timer_event_100th = 0, timer_event_10th = 0, timer_event_1 = 0,
      heiz_configured = 1, monitor_Tsoll = replicate 24 0, lampen_configured = 1,
      monitor_lampen_state = replicate 24 0, sonstige_configured = 1,
      monitor_sonstige_state = replicate 24 0, reedkontakt_configured = 1,
      monitor_reedkontakt_state = replicate 24 0, mute_configured = 1, monitor_mute_state = replicate 24 0,
      heiz_details_expected = 0, heiz_details_heiz_id = 0, heiz_details_mode = 0, heiz_details_rate = 0,
      heiz_details_Tsoll = 0, heiz_details_Tist = 0, heiz_details_dauer = 0, heiz_details_mode_edit = 0,
      heiz_details_Tsoll_edit = 0, heiz_details_rate_edit = 0, heiz_details_dauer_edit = 0,
      heiz_page_subpage = 0, heiz_page_state = STATE_VIEW,
      gesamt_heiz_details_mode_edit = 0, gesamt_heiz_details_Tsoll_edit = 0, gesamt_heiz_details_dauer_edit = 0,
      gesamt_heiz_page_subpage = 0, gesamt_heiz_page_state = STATE_VIEW,
      weck_details_expected = 0, weck_details_weck_id = 0, weck_details_dauer = 0, weck_details_dauer_edit = 0,
      weck_page_state = STATE_VIEW, leave_come_state = 0, powerport_page_state = -1, powerport_page_timer = -1,
      temperature_expected = 0, temperature = 0, fenster_monitor_reed_state = replicate 24 0\<rparr>"

section \<open>Runs\<close>

definition panel_step :: "(panel \<Rightarrow> panel) \<Rightarrow> panel_event \<Rightarrow> panel \<Rightarrow> panel" where
  "panel_step env ev p =
     (case ev of
        HeardFrame f \<Rightarrow> hauselektrik_callback env f p
      | TimerInterrupt \<Rightarrow> timer_handler p
      | IdleCall pins \<Rightarrow> idle_handler env pins p
      | ClockIs c \<Rightarrow> p\<lparr>rtc := c\<rparr>)"

text \<open>What happens during a pause: the next events of the script, in handlers that do not sleep.\<close>

definition during_pause :: "panel \<Rightarrow> panel" where
  "during_pause p =
     (case script p of [] \<Rightarrow> p
      | evs # rest \<Rightarrow> fold (panel_step (\<lambda>p. p)) evs (p\<lparr>script := rest\<rparr>))"

definition panel_run :: "panel_event list \<Rightarrow> panel \<Rightarrow> panel" where
  "panel_run evs p = fold (panel_step during_pause) evs p"

end
