(* ===== verification/Panel_Facts.thy ===== *)
theory Panel_Facts
  imports Panel
begin

text \<open>
  The panel stays well formed in every run, and which page it loads from the EEPROM.
\<close>

section \<open>Well-formed panels\<close>

definition state_ok :: "u8 \<Rightarrow> bool" where
  "state_ok s \<longleftrightarrow> s = STATE_VIEW \<or> s = STATE_EDIT"

definition keys_ok :: "u8 list \<Rightarrow> u8 list \<Rightarrow> bool" where
  "keys_ok cs ss \<longleftrightarrow> length cs = 16 \<and> length ss = 16 \<and> (\<forall>c \<in> set cs. c \<le> 5) \<and> (\<forall>s \<in> set ss. s \<le> 1)"

definition timers_ok :: "panel \<Rightarrow> bool" where
  "timers_ok p \<longleftrightarrow> lcd_led_countdown p \<le> 10 \<and> lcd_screensafer_countdown p \<le> 300 \<and>
     timer_counter_100th p < 10 \<and> timer_counter_10th p < 10"

definition monitors_ok :: "panel \<Rightarrow> bool" where
  "monitors_ok p \<longleftrightarrow> length (monitor_Tsoll p) = 24 \<and> length (monitor_lampen_state p) = 24 \<and>
     length (monitor_sonstige_state p) = 24 \<and> length (monitor_reedkontakt_state p) = 24 \<and>
     length (monitor_mute_state p) = 24 \<and> length (fenster_monitor_reed_state p) = 24"

definition pages_ok :: "panel \<Rightarrow> bool" where
  "pages_ok p \<longleftrightarrow> state_ok (heiz_page_state p) \<and> heiz_page_subpage p \<le> 2 \<and>
     heiz_details_mode p \<le> 3 \<and> heiz_details_mode_edit p \<le> 3 \<and>
     state_ok (gesamt_heiz_page_state p) \<and> gesamt_heiz_page_subpage p \<le> 2 \<and>
     gesamt_heiz_details_mode_edit p \<le> 4 \<and>
     (gesamt_heiz_page_subpage p \<noteq> 0 \<longrightarrow> is_thermostat_x (gesamt_heiz_details_mode_edit p)) \<and>
     state_ok (weck_page_state p) \<and> leave_come_state p \<le> 3 \<and>
     powerport_page_state p \<in> {0, 1, -1}"

definition panel_ok :: "panel \<Rightarrow> bool" where
  "panel_ok p \<longleftrightarrow> (\<forall>i \<ge> sizeof_active_page. active_page p i = 0) \<and> lcd_state p = STATE_VIEW \<and>
     length (page_stack p) = 8 \<and> page_stack_ptr p \<le> 7 \<and> keys_ok (key_counter p) (key_state p) \<and>
     timers_ok p \<and> monitors_ok p \<and> pages_ok p"

lemmas panel_ok_defs = panel_ok_def pages_ok_def monitors_ok_def timers_ok_def

text \<open>Fields the well-formedness does not look at.\<close>

lemma panel_ok_other [simp]:
  "panel_ok (p\<lparr>log := a0\<rparr>) = panel_ok p" "panel_ok (p\<lparr>script := a1\<rparr>) = panel_ok p"
  "panel_ok (p\<lparr>rtc := a2\<rparr>) = panel_ok p" "panel_ok (p\<lparr>mem := a3\<rparr>) = panel_ok p"
  "panel_ok (p\<lparr>keypress_time := b\<rparr>) = panel_ok p"
  "panel_ok (p\<lparr>timer_counter_1 := b\<rparr>) = panel_ok p" "panel_ok (p\<lparr>timer_event_1 := b\<rparr>) = panel_ok p"
  "panel_ok (p\<lparr>timer_event_10th := b\<rparr>) = panel_ok p" "panel_ok (p\<lparr>timer_event_100th := b\<rparr>) = panel_ok p"
  "panel_ok (p\<lparr>heiz_configured := b\<rparr>) = panel_ok p" "panel_ok (p\<lparr>lampen_configured := b\<rparr>) = panel_ok p"
  "panel_ok (p\<lparr>sonstige_configured := b\<rparr>) = panel_ok p" "panel_ok (p\<lparr>reedkontakt_configured := b\<rparr>) = panel_ok p"
  "panel_ok (p\<lparr>heiz_details_expected := b\<rparr>) = panel_ok p" "panel_ok (p\<lparr>heiz_details_heiz_id := b\<rparr>) = panel_ok p"
  "panel_ok (p\<lparr>heiz_details_rate := b\<rparr>) = panel_ok p" "panel_ok (p\<lparr>heiz_details_Tsoll := w\<rparr>) = panel_ok p"
  "panel_ok (p\<lparr>heiz_details_Tist := w\<rparr>) = panel_ok p" "panel_ok (p\<lparr>heiz_details_dauer := w\<rparr>) = panel_ok p"
  "panel_ok (p\<lparr>heiz_details_Tsoll_edit := w\<rparr>) = panel_ok p" "panel_ok (p\<lparr>heiz_details_rate_edit := b\<rparr>) = panel_ok p"
  "panel_ok (p\<lparr>heiz_details_dauer_edit := w\<rparr>) = panel_ok p"
  "panel_ok (p\<lparr>gesamt_heiz_details_Tsoll_edit := w\<rparr>) = panel_ok p"
  "panel_ok (p\<lparr>gesamt_heiz_details_dauer_edit := w\<rparr>) = panel_ok p"
  "panel_ok (p\<lparr>weck_details_expected := b\<rparr>) = panel_ok p" "panel_ok (p\<lparr>weck_details_weck_id := b\<rparr>) = panel_ok p"
  "panel_ok (p\<lparr>weck_details_dauer := w\<rparr>) = panel_ok p" "panel_ok (p\<lparr>weck_details_dauer_edit := w\<rparr>) = panel_ok p"
  "panel_ok (p\<lparr>powerport_page_timer := b\<rparr>) = panel_ok p" "panel_ok (p\<lparr>temperature_expected := b\<rparr>) = panel_ok p"
  "panel_ok (p\<lparr>temperature := w\<rparr>) = panel_ok p"
  by (simp_all add: panel_ok_defs)

text \<open>Fields it restricts.\<close>

lemma panel_ok_set:
  assumes "panel_ok p"
  shows "length xs = 24 \<Longrightarrow> panel_ok (p\<lparr>monitor_Tsoll := xs\<rparr>)"
    and "length xs = 24 \<Longrightarrow> panel_ok (p\<lparr>monitor_lampen_state := xs\<rparr>)"
    and "length xs = 24 \<Longrightarrow> panel_ok (p\<lparr>monitor_sonstige_state := xs\<rparr>)"
    and "length xs = 24 \<Longrightarrow> panel_ok (p\<lparr>monitor_reedkontakt_state := xs\<rparr>)"
    and "length xs = 24 \<Longrightarrow> panel_ok (p\<lparr>monitor_mute_state := xs\<rparr>)"
    and "length xs = 24 \<Longrightarrow> panel_ok (p\<lparr>fenster_monitor_reed_state := xs\<rparr>)"
    and "s = 0 \<or> s = 1 \<Longrightarrow> panel_ok (p\<lparr>heiz_page_state := s\<rparr>)"
    and "s = 0 \<or> s = 1 \<Longrightarrow> panel_ok (p\<lparr>gesamt_heiz_page_state := s\<rparr>)"
    and "s = 0 \<or> s = 1 \<Longrightarrow> panel_ok (p\<lparr>weck_page_state := s\<rparr>)"
    and "s \<le> 2 \<Longrightarrow> panel_ok (p\<lparr>heiz_page_subpage := s\<rparr>)"
    and "s \<le> 3 \<Longrightarrow> panel_ok (p\<lparr>heiz_details_mode := s\<rparr>)"
    and "s \<le> 3 \<Longrightarrow> panel_ok (p\<lparr>heiz_details_mode_edit := s\<rparr>)"
    and "s \<le> 3 \<Longrightarrow> panel_ok (p\<lparr>leave_come_state := s\<rparr>)"
    and "s = 0 \<or> s = 1 \<or> s = -1 \<Longrightarrow> panel_ok (p\<lparr>powerport_page_state := s\<rparr>)"
    and "s \<le> 10 \<Longrightarrow> panel_ok (p\<lparr>lcd_led_countdown := s\<rparr>)"
    and "w \<le> 300 \<Longrightarrow> panel_ok (p\<lparr>lcd_screensafer_countdown := w\<rparr>)"
    and "(\<And>i. 198 \<le> i \<Longrightarrow> a i = 0) \<Longrightarrow> panel_ok (p\<lparr>active_page := a\<rparr>)"
    and "gesamt_heiz_page_subpage p = 0 \<Longrightarrow> s \<le> 4 \<Longrightarrow> panel_ok (p\<lparr>gesamt_heiz_details_mode_edit := s\<rparr>)"
    and "s \<le> 2 \<Longrightarrow> s = 0 \<or> is_thermostat_x (gesamt_heiz_details_mode_edit p) \<Longrightarrow>
         panel_ok (p\<lparr>gesamt_heiz_page_subpage := s\<rparr>)"
    and "i < 16 \<Longrightarrow> s \<le> 5 \<Longrightarrow> panel_ok (p\<lparr>key_counter := (key_counter p)[i := s]\<rparr>)"
    and "i < 16 \<Longrightarrow> s \<le> 1 \<Longrightarrow> panel_ok (p\<lparr>key_state := (key_state p)[i := s]\<rparr>)"
  using assms by (auto simp: panel_ok_defs state_ok_def keys_ok_def dest: set_update_subset_insert [THEN subsetD])


lemma panel_ok_lengths:
  "panel_ok p \<Longrightarrow> length (monitor_Tsoll p) = 24" "panel_ok p \<Longrightarrow> length (monitor_lampen_state p) = 24"
  "panel_ok p \<Longrightarrow> length (monitor_sonstige_state p) = 24"
  "panel_ok p \<Longrightarrow> length (monitor_reedkontakt_state p) = 24"
  "panel_ok p \<Longrightarrow> length (monitor_mute_state p) = 24"
  "panel_ok p \<Longrightarrow> length (fenster_monitor_reed_state p) = 24"
  by (simp_all add: panel_ok_defs)

lemma panel_ok_mode: "panel_ok p \<Longrightarrow> heiz_details_mode p \<le> 3"
  by (simp add: panel_ok_defs)

lemma say_ok [simp]: "panel_ok (say os p) = panel_ok p"
  by (simp add: say_def)

lemma lcd_print_ok [simp]: "panel_ok (lcd_print x y s p) = panel_ok p"
  by (simp add: lcd_print_def)

lemma weck_page_can_callback_ok [simp]: "panel_ok (weck_page_can_callback f p) = panel_ok p"
  by (simp add: weck_page_can_callback_def Let_def)

lemma panel_send_ok [simp]: "panel_ok (panel_send prio f p) = panel_ok p"
  by (simp add: panel_send_def Let_def)

lemma load_error_page_ok [inv_intros]: "panel_ok p \<Longrightarrow> panel_ok (load_error_page c p)"
  unfolding load_error_page_def by (simp add: panel_ok_defs)

lemma read_page_ok [inv_intros]: "panel_ok p \<Longrightarrow> n \<le> 198 \<Longrightarrow> panel_ok (read_page it n p)"
  unfolding read_page_def by (simp add: panel_ok_defs)

lemma load_page_loop_ok: "panel_ok p \<Longrightarrow> panel_ok (load_page_loop page its p)"
  by (induction page its p rule: load_page_loop.induct) (auto simp: Let_def intro: inv_intros)

lemma load_page_ok [inv_intros]: "panel_ok p \<Longrightarrow> panel_ok (load_page page p)"
  by (simp add: load_page_def load_page_loop_ok)

lemma lcdctrl_light_ok [simp]: "panel_ok (lcdctrl_light b c p) = panel_ok p"
  by (simp add: lcdctrl_light_def)

lemma lcdctrl_set_display_light_ok [simp]: "panel_ok (lcdctrl_set_display_light m p) = panel_ok p"
  by (simp add: lcdctrl_set_display_light_def split: option.splits prod.splits)

lemma gesamt_heiz_vorgaben_ok [simp]: "panel_ok (gesamt_heiz_vorgaben p) = panel_ok p"
  by (simp add: gesamt_heiz_vorgaben_def Let_def)

lemma heiz_page_show_ok [simp]: "panel_ok (heiz_page_show v p) = panel_ok p"
  by (simp add: heiz_page_show_def Let_def)

lemma weck_page_show_ok [simp]: "panel_ok (weck_page_show v p) = panel_ok p"
  by (simp add: weck_page_show_def Let_def)

lemma gesamt_heiz_page_print_page_ok [simp]: "panel_ok (gesamt_heiz_page_print_page p) = panel_ok p"
  by (simp add: gesamt_heiz_page_print_page_def Let_def)

lemma still_pages_ok [simp]:
  "panel_ok (taster_page_print_page p) = panel_ok p"
  "panel_ok (rolladen_page_print_page p) = panel_ok p"
  "panel_ok (print_dir_page p) = panel_ok p"
  "panel_ok (print_screensaver_page p) = panel_ok p"
  by (simp_all add: taster_page_print_page_def rolladen_page_print_page_def print_dir_page_def
      print_screensaver_page_def Let_def)

lemma get_ignore_ok [inv_intros]: "panel_ok p \<Longrightarrow> panel_ok (fst (leave_come_page_get_ignore g p))"
  by (auto simp: leave_come_page_get_ignore_def Let_def intro: inv_intros)

lemma get_ignore_okD: "leave_come_page_get_ignore g p = (q, n) \<Longrightarrow> panel_ok p \<Longrightarrow> panel_ok q"
  using get_ignore_ok [of p g] by simp

lemma count_sonstige_loop_ok: "panel_ok p \<Longrightarrow> panel_ok (fst (count_sonstige_loop ignore is n p))"
proof (induction "is" arbitrary: n p)
  case (Cons i "is")
  then show ?case using get_ignore_okD by (simp add: Let_def split: prod.splits) blast
qed simp

lemma leave_come_page_get_state_ok:
  "leave_come_page_get_state p = (q, st) \<Longrightarrow> panel_ok p \<Longrightarrow> panel_ok q \<and> st \<le> 3"
  using count_sonstige_loop_ok [of p 1 "[0..<24]" 0]
  by (auto simp: leave_come_page_get_state_def get_count_sonstige_states_def Let_def
      split: prod.splits if_splits)

lemma leave_come_page_print_page_ok [inv_intros]:
  "panel_ok p \<Longrightarrow> panel_ok (leave_come_page_print_page p)"
  using leave_come_page_get_state_ok [of "say [LcdClear] p"]
  by (auto simp: leave_come_page_print_page_def Let_def panel_ok_set split: prod.splits)

lemma monitor_inserts_ok [inv_intros]:
  assumes "panel_ok p"
  shows "panel_ok (monitor_insert_heiz_state g T p)"
    and "panel_ok (monitor_insert_lampen_state g v p)"
    and "panel_ok (monitor_insert_sonstige_state g v p)"
    and "panel_ok (monitor_insert_reedkontakt_state g v p)"
    and "panel_ok (monitor_insert_mute_state g v p)"
    and "panel_ok (fenster_monitor_insert_reed_state g v p)"
  using assms
  by (auto simp: monitor_insert_heiz_state_def monitor_insert_lampen_state_def
      monitor_insert_sonstige_state_def monitor_insert_reedkontakt_state_def
      monitor_insert_mute_state_def fenster_monitor_insert_reed_state_def Let_def
      panel_ok_lengths intro!: load_error_page_ok panel_ok_set)

lemma page_callbacks_ok [inv_intros]:
  assumes "panel_ok p"
  shows "panel_ok (heiz_page_can_callback f p)" and "panel_ok (powerport_page_can_callback f p)"
    and "panel_ok (temp_anzeige_page_can_callback f p)" and "panel_ok (fenster_monitor_page_can_callback f p)"
  using assms
  by (auto simp: heiz_page_can_callback_def powerport_page_can_callback_def
      temp_anzeige_page_can_callback_def fenster_monitor_page_can_callback_def Let_def
      intro!: panel_ok_set inv_intros)

lemma fold_ok: "(\<And>x p. x \<in> set xs \<Longrightarrow> panel_ok p \<Longrightarrow> panel_ok (g x p)) \<Longrightarrow> panel_ok p \<Longrightarrow> panel_ok (fold g xs p)"
  by (induction xs arbitrary: p) auto


section \<open>Every event keeps a panel well formed\<close>

text \<open>
  What may happen during a pause: anything that keeps the panel well formed. Under this
  contract every handler keeps it well formed, too.
\<close>

locale pause =
  fixes env :: "panel \<Rightarrow> panel"
  assumes env_ok: "panel_ok p \<Longrightarrow> panel_ok (env p)"
begin

lemma nap_ok: "panel_ok p \<Longrightarrow> panel_ok (nap env n p)"
  by (simp add: nap_def env_ok)

lemma lcdctrl_blink_ok: "panel_ok p \<Longrightarrow> panel_ok (lcdctrl_blink env p)"
  unfolding lcdctrl_blink_def Let_def lcdctrl_set_display_light_ok
  by (intro fold_ok) (simp_all add: nap_ok)

lemma request_states_ok: "panel_ok p \<Longrightarrow> panel_ok (request_states env msg ids p)"
  unfolding request_states_def by (intro fold_ok) (simp_all add: nap_ok)

lemma monitor_callbacks_ok:
  assumes "panel_ok p"
  shows "panel_ok (monitor_heiz_can_callback env f p)" "panel_ok (monitor_lampen_can_callback env f p)"
    "panel_ok (monitor_sonstige_can_callback env f p)" "panel_ok (monitor_reedkontakt_can_callback env f p)"
    "panel_ok (monitor_mute_can_callback f p)"
  using assms
  by (auto simp: monitor_heiz_can_callback_def monitor_lampen_can_callback_def
      monitor_sonstige_can_callback_def monitor_reedkontakt_can_callback_def monitor_mute_can_callback_def
      init_monitor_heiz_request_states_def init_monitor_lampen_request_states_def
      init_monitor_sonstige_request_states_def init_monitor_reedkontakt_request_states_def
      init_monitor_mute_def Let_def intro!: request_states_ok load_error_page_ok monitor_inserts_ok panel_ok_set)

lemma lcdstatemachine_can_callback_ok: "panel_ok p \<Longrightarrow> panel_ok (lcdstatemachine_can_callback env f p)"
  by (simp add: lcdstatemachine_can_callback_def Let_def monitor_callbacks_ok page_callbacks_ok)

lemma get_heiz_details_ok:
  "get_heiz_details env g p = (q, r) \<Longrightarrow> panel_ok p \<Longrightarrow>
   panel_ok q \<and> (case r of None \<Rightarrow> True | Some v \<Rightarrow> hv_mode v \<le> 3)"
  by (auto simp: get_heiz_details_def Let_def nap_ok intro!: panel_ok_mode split: if_splits)

lemma get_weck_details_ok: "get_weck_details env g p = (q, r) \<Longrightarrow> panel_ok p \<Longrightarrow> panel_ok q"
  by (auto simp: get_weck_details_def Let_def nap_ok split: if_splits)

lemma heiz_page_print_page_ok: "panel_ok p \<Longrightarrow> panel_ok (heiz_page_print_page env p)"
  using get_heiz_details_ok [of _ "say [LcdClear] p"]
  by (auto simp: heiz_page_print_page_def Let_def split: prod.splits option.splits)

lemma weck_page_print_page_ok: "panel_ok p \<Longrightarrow> panel_ok (weck_page_print_page env p)"
  using get_weck_details_ok [of _ "say [LcdClear] p"]
  by (auto simp: weck_page_print_page_def Let_def split: prod.splits option.splits)

lemma powerport_page_print_page_ok: "panel_ok p \<Longrightarrow> panel_ok (powerport_page_print_page env p)"
  by (simp add: powerport_page_print_page_def Let_def nap_ok panel_ok_set)

lemma temp_anzeige_page_print_page_ok: "panel_ok p \<Longrightarrow> panel_ok (temp_anzeige_page_print_page env p)"
  by (simp add: temp_anzeige_page_print_page_def temp_anzeige_page_get_temp_def Let_def nap_ok)

lemma fenster_collect_ok: "panel_ok p \<Longrightarrow> panel_ok (fst (fenster_monitor_collect_reed_states env p))"
  unfolding fenster_monitor_collect_reed_states_def Let_def fst_conv
  by (intro fold_ok) (simp_all add: nap_ok panel_ok_set)

lemma fenster_monitor_page_print_page_ok: "panel_ok p \<Longrightarrow> panel_ok (fenster_monitor_page_print_page env p)"
  using fenster_collect_ok [of "lcd_print 0 0 (snprintf 31 ''Fenster:'') (say [LcdClear] p)"]
  by (auto simp: fenster_monitor_page_print_page_def Let_def split: prod.splits)

lemma print_page_ok: "panel_ok p \<Longrightarrow> panel_ok (print_page env p)"
  by (simp add: print_page_def Let_def leave_come_page_print_page_ok heiz_page_print_page_ok
      weck_page_print_page_ok powerport_page_print_page_ok fenster_monitor_page_print_page_ok
      temp_anzeige_page_print_page_ok)

lemma goto_page_ok: "panel_ok p \<Longrightarrow> panel_ok (goto_page env page p)"
  by (simp add: goto_page_def print_page_ok load_page_ok)

lemma goto_pages_ok:
  assumes "panel_ok p"
  shows "panel_ok (goto_page_up env p)" "panel_ok (goto_next_page env p)" "panel_ok (goto_prev_page env p)"
  using assms by (simp_all add: goto_page_up_def goto_next_page_def goto_prev_page_def goto_page_ok)

lemma push_ok:
  assumes "panel_ok p"
  shows "panel_ok (page_path_stack_push env g p)"
proof (cases "page_stack_ptr p \<ge> 7")
  case True
  then show ?thesis using assms by (simp add: page_path_stack_push_def print_page_ok load_error_page_ok)
next
  case False
  then have "page_stack_ptr p + 1 \<le> 7"
    by (simp add: word_le_nat_alt word_less_nat_alt not_le unat_inc_u8)
  then show ?thesis using assms False by (simp add: page_path_stack_push_def panel_ok_defs)
qed

lemma first_child_loop_ok: "panel_ok p \<Longrightarrow> panel_ok (first_child_loop env self its p)"
  by (induction its) (simp_all add: Let_def print_page_ok load_error_page_ok read_page_ok)

lemma goto_first_child_page_ok: "panel_ok p \<Longrightarrow> panel_ok (goto_first_child_page env p)"
  by (simp add: goto_first_child_page_def Let_def first_child_loop_ok push_ok)

end


lemma word_inc_le: "(a :: 'a::len word) < b \<Longrightarrow> a + 1 \<le> b"
  by (simp add: inc_le)

lemma word_dec_le: "(a :: 'a::len word) > 0 \<Longrightarrow> a \<le> b \<Longrightarrow> a - 1 \<le> b"
  by (simp add: word_le_nat_alt unat_dec word_gt_0)

lemma panel_ok_subpages:
  assumes "panel_ok p"
  shows "heiz_page_subpage p \<le> 2" "heiz_details_mode_edit p \<le> 3" "gesamt_heiz_page_subpage p \<le> 2"
    "gesamt_heiz_details_mode_edit p \<le> 4"
    "gesamt_heiz_page_subpage p \<noteq> 0 \<Longrightarrow> is_thermostat_x (gesamt_heiz_details_mode_edit p)"
  using assms by (simp_all add: panel_ok_defs)

lemma thermostat_x_range: "mode \<le> 4 \<Longrightarrow> mode \<noteq> HEIZUNG_MODE_OFF \<Longrightarrow> mode \<noteq> MODE_AUTOMATIK_X \<Longrightarrow> is_thermostat_x mode"
proof -
  assume a: "mode \<le> 4" "mode \<noteq> HEIZUNG_MODE_OFF" "mode \<noteq> MODE_AUTOMATIK_X"
  then have "unat mode \<in> {1, 2, 3}"
    by (auto simp: word_le_nat_alt word_unat_eq_iff)
  then show ?thesis by (auto simp: is_thermostat_x_def word_unat_eq_iff)
qed

lemma key_set_ok:
  "panel_ok p \<Longrightarrow> i < 16 \<Longrightarrow> s \<le> 1 \<Longrightarrow>
   panel_ok (p\<lparr>key_counter := (key_counter p)[i := 5], key_state := (key_state p)[i := s]\<rparr>)"
  by (auto simp: panel_ok_defs keys_ok_def dest: set_update_subset_insert [THEN subsetD])

lemma counter_step: "(c :: u8) < 10 \<Longrightarrow> c + 1 \<noteq> 10 \<Longrightarrow> c + 1 < 10"
  by (metis word_inc_le order.not_eq_order_implies_strict)

lemma panel_timer_handler_ok:
  assumes "panel_ok p"
  shows "panel_ok (timer_handler p)"
proof -
  have t: "timer_counter_100th p < 10" "timer_counter_10th p < 10" using assms by (simp_all add: panel_ok_defs)
  have c100: "panel_ok (q\<lparr>timer_counter_100th := a\<rparr>)" if "panel_ok q" "a < 10" for q a
    using that by (simp add: panel_ok_defs)
  have c10: "panel_ok (q\<lparr>timer_counter_10th := a\<rparr>)" if "panel_ok q" "a < 10" for q a
    using that by (simp add: panel_ok_defs)
  show ?thesis
  proof (cases "timer_counter_100th p + 1 = 10")
    case True
    then show ?thesis using assms t counter_step
      by (cases "timer_counter_10th p + 1 = 10") (simp_all add: timer_handler_def c100 c10)
  next
    case False
    moreover have "timer_counter_10th p \<noteq> 10" using t by auto
    ultimately show ?thesis using assms t counter_step by (simp add: timer_handler_def c100)
  qed
qed

lemma let_ok: "panel_ok a \<Longrightarrow> (\<And>x. panel_ok x \<Longrightarrow> panel_ok (g x)) \<Longrightarrow> panel_ok (let x = a in g x)"
  by (simp add: Let_def)

lemma edit_ok [inv_intros]:
  assumes "panel_ok p"
  shows "panel_ok (heiz_edit_up p)" "panel_ok (heiz_edit_down p)"
    "panel_ok (gesamt_heiz_edit_up p)" "panel_ok (gesamt_heiz_edit_down p)"
    "panel_ok (set_weck_edited_details p)" "panel_ok (set_heiz_edited_details p)"
  using assms panel_ok_subpages [OF assms]
  by (auto simp: heiz_edit_up_def heiz_edit_down_def gesamt_heiz_edit_up_def gesamt_heiz_edit_down_def
      set_weck_edited_details_def set_heiz_edited_details_def Let_def
      intro!: panel_ok_set word_inc_le word_dec_le)

lemma load_heiz_edit_ok [inv_intros]:
  "panel_ok p \<Longrightarrow> (case r of None \<Rightarrow> True | Some v \<Rightarrow> hv_mode v \<le> 3) \<Longrightarrow> panel_ok (load_heiz_edit r p)"
  by (auto simp: load_heiz_edit_def panel_ok_set split: option.splits)

context pause
begin

lemma heiz_page_handle_key_down_event_ok:
  assumes "panel_ok p"
  shows "panel_ok (heiz_page_handle_key_down_event env key p)"
proof -
  obtain q r where q: "get_heiz_details env (page_byte p 12) p = (q, r)" by fastforce
  note qr = get_heiz_details_ok [OF q assms]
  note sub = panel_ok_subpages [OF assms]
  have l: "panel_ok (load_heiz_edit r q)" using qr load_heiz_edit_ok by blast
  have dn: "panel_ok (p\<lparr>heiz_page_subpage := heiz_page_subpage p - 1\<rparr>)" if "heiz_page_subpage p > 0"
    using that by (intro panel_ok_set assms word_dec_le sub)
  have up: "panel_ok (p\<lparr>heiz_page_subpage := heiz_page_subpage p + 1\<rparr>)" if "heiz_page_subpage p < 2"
    using that by (intro panel_ok_set assms word_inc_le)
  show ?thesis
    unfolding heiz_page_handle_key_down_event_def Let_def q prod.case
    by (simp add: l dn up assms heiz_page_print_page_ok goto_pages_ok edit_ok panel_ok_set)
qed

lemma set_gesamt_ok: "panel_ok p \<Longrightarrow> panel_ok (set_gesamt_heiz_edited_details env p)"
  unfolding set_gesamt_heiz_edited_details_def Let_def by (intro fold_ok) (simp_all add: nap_ok)

lemma gesamt_heiz_page_handle_key_down_event_ok:
  assumes "panel_ok p"
  shows "panel_ok (gesamt_heiz_page_handle_key_down_event env key p)"
proof -
  note sub = panel_ok_subpages [OF assms]
  have dn: "panel_ok (p\<lparr>gesamt_heiz_page_subpage := gesamt_heiz_page_subpage p - 1\<rparr>)"
    if "gesamt_heiz_page_subpage p > 0"
    using that sub by (intro panel_ok_set assms word_dec_le) (auto simp: word_gt_0)
  have up: "panel_ok (p\<lparr>gesamt_heiz_page_subpage := gesamt_heiz_page_subpage p + 1\<rparr>)"
    if "gesamt_heiz_page_subpage p < 2" "gesamt_heiz_details_mode_edit p \<noteq> HEIZUNG_MODE_OFF"
      "gesamt_heiz_details_mode_edit p \<noteq> MODE_AUTOMATIK_X"
    using that sub thermostat_x_range by (intro panel_ok_set assms word_inc_le) auto
  show ?thesis
    unfolding gesamt_heiz_page_handle_key_down_event_def Let_def
    by (simp add: dn up assms set_gesamt_ok goto_pages_ok edit_ok panel_ok_set)
qed

lemma weck_page_handle_key_down_event_ok:
  "panel_ok p \<Longrightarrow> panel_ok (weck_page_handle_key_down_event env key p)"
  by (auto simp: weck_page_handle_key_down_event_def Let_def
      intro!: weck_page_print_page_ok goto_pages_ok edit_ok panel_ok_set)

lemma switch_groups_off_ok: "panel_ok p \<Longrightarrow> panel_ok (switch_groups_off env ids p)"
  unfolding switch_groups_off_def
  by (intro fold_ok) (auto simp: switch_off_group_def nap_ok split: prod.splits dest: get_ignore_okD)

lemma leave_come_page_handle_key_down_event_ok:
  "panel_ok p \<Longrightarrow> panel_ok (leave_come_page_handle_key_down_event env key p)"
proof -
  have h: "panel_ok (leave_come_page_set_heizung env m p)" if "panel_ok p" for m p
    using that unfolding leave_come_page_set_heizung_def Let_def
    by (auto intro!: load_error_page_ok fold_ok simp: nap_ok)
  have s: "panel_ok (leave_come_page_set_sonstige_aus env p)" "panel_ok (leave_come_page_set_lampen_aus env p)"
    if "panel_ok p" for p
    using that by (simp_all add: leave_come_page_set_sonstige_aus_def leave_come_page_set_lampen_aus_def Let_def
        load_error_page_ok switch_groups_off_ok)
  show "panel_ok p \<Longrightarrow> ?thesis"
    by (simp add: leave_come_page_handle_key_down_event_def Let_def goto_pages_ok nap_ok lcdctrl_blink_ok h s)
qed

lemma order_pages_ok:
  assumes "panel_ok p"
  shows "panel_ok (powerport_page_handle_key_down_event env key p)"
    "panel_ok (taster_page_handle_key_down_event env key p)"
    "panel_ok (rolladen_page_handle_key_down_event env key p)"
  using assms
  by (simp_all add: powerport_page_handle_key_down_event_def taster_page_handle_key_down_event_def
      rolladen_page_handle_key_down_event_def Let_def goto_pages_ok nap_ok lcdctrl_blink_ok
      powerport_page_print_page_ok)

lemma key_down_event_ok:
  assumes "panel_ok p"
  shows "panel_ok (key_down_event env key p)"
proof -
  have "panel_ok ((say os (p\<lparr>lcd_led_countdown := 10\<rparr>))\<lparr>lcd_screensafer_countdown := 300, keypress_time := 1\<rparr>)" for os
    using assms by (simp add: panel_ok_set)
  then show ?thesis
    by (simp add: key_down_event_def Let_def heiz_page_handle_key_down_event_ok
        gesamt_heiz_page_handle_key_down_event_ok weck_page_handle_key_down_event_ok
        leave_come_page_handle_key_down_event_ok order_pages_ok goto_pages_ok goto_first_child_page_ok)
qed

lemma key_up_event_ok: "panel_ok p \<Longrightarrow> panel_ok (key_up_event env key p)"
  by (simp add: key_up_event_def load_shortcut_page_def save_shortcut_page_def Let_def goto_page_ok
      load_error_page_ok)

lemma key_scan_ok:
  assumes "panel_ok p" and "i < 16"
  shows "panel_ok (key_scan env keys i p)"
proof -
  have "key_counter p ! i \<le> 5" if "panel_ok p" for p
    using that assms(2) by (auto simp: panel_ok_def keys_ok_def)
  note c = this
  have dec: "panel_ok (p\<lparr>key_counter := (key_counter p)[i := key_counter p ! i - 1]\<rparr>)"
    if "key_counter p ! i \<noteq> 0"
    using that c assms by (intro panel_ok_set word_dec_le) (simp_all add: word_gt_0)
  show ?thesis using assms
    unfolding key_scan_def Let_def
    by (simp add: dec key_up_event_ok key_down_event_ok key_set_ok)
qed

lemma keys_handle_pressed_ok: "panel_ok p \<Longrightarrow> panel_ok (keys_handle_pressed env pins p)"
  unfolding keys_handle_pressed_def Let_def by (auto intro!: fold_ok simp: key_scan_ok)

lemma lcdstatemachine_timer_handler_ok:
  assumes "panel_ok p"
  shows "panel_ok (lcdstatemachine_timer_handler env p)"
proof -
  have led: "panel_ok (p\<lparr>lcd_led_countdown := lcd_led_countdown p - 1\<rparr>)" if "panel_ok p" "lcd_led_countdown p > 0" for p
    using that by (intro panel_ok_set word_dec_le) (simp_all add: panel_ok_defs)
  have sav: "panel_ok (p\<lparr>lcd_screensafer_countdown := lcd_screensafer_countdown p - 1\<rparr>)"
    if "panel_ok p" "lcd_screensafer_countdown p > 0" for p
    using that by (intro panel_ok_set word_dec_le) (simp_all add: panel_ok_defs)
  have fade: "panel_ok (lcd_fade env p)" if "panel_ok p" for p
    using that unfolding lcd_fade_def lcdctrl_set_display_light_ok by (intro fold_ok) (simp_all add: nap_ok)
  show ?thesis
    unfolding lcdstatemachine_timer_handler_def
    by (intro let_ok) (auto simp: assms led fade print_page_ok goto_page_ok sav Let_def panel_ok_set)
qed

lemma idle_handler_ok: "panel_ok p \<Longrightarrow> panel_ok (idle_handler env pins p)"
  by (simp add: idle_handler_def Let_def keys_handle_pressed_ok lcdstatemachine_timer_handler_ok)

lemma panel_step_ok: "panel_ok p \<Longrightarrow> panel_ok (panel_step env ev p)"
  by (simp add: panel_step_def hauselektrik_callback_def lcdstatemachine_can_callback_ok
      panel_timer_handler_ok idle_handler_ok split: panel_event.splits)

end

interpretation undisturbed: pause "\<lambda>p. p"
  by unfold_locales

interpretation disturbed: pause during_pause
proof
  fix p assume "panel_ok p"
  then show "panel_ok (during_pause p)"
    by (auto simp: during_pause_def intro!: fold_ok undisturbed.panel_step_ok split: list.splits)
qed

lemma panel_reset_ok: "panel_ok (panel_reset c self junk m scr)"
  by (simp add: panel_reset_def panel_ok_defs keys_ok_def state_ok_def)

text \<open>
  Property C39. Every array of the panel keeps its size and every index stays inside, whatever
  is in the EEPROM, whatever comes over the bus, whichever keys are pressed and whatever happens in
  the pauses of the handlers: the page stack pointer is at most 7, nothing is written behind the 198
  bytes of the active page, the states of the pages are view or edit, the sub-page is one of
  three, the counters stay in their ranges; and on the page for all heatings a sub-page with
  values is only shown in a mode that has them, so that the message it sends is always filled in.
\<close>

theorem panel_stays_well_formed:
  "panel_ok (panel_run evs (lcdstatemachine_init during_pause (panel_reset c self junk m scr)))"
proof -
  have "panel_ok (lcdstatemachine_init during_pause (panel_reset c self junk m scr))"
    unfolding lcdstatemachine_init_def
    by (intro disturbed.goto_page_ok) (simp add: panel_reset_def panel_ok_defs keys_ok_def state_ok_def)
  then show ?thesis
    unfolding panel_run_def by (intro fold_ok) (simp_all add: disturbed.panel_step_ok)
qed

section \<open>Which page is loaded\<close>

abbreviation (input) in_range :: "u8 \<Rightarrow> u8 \<Rightarrow> blk \<Rightarrow> bool" where
  "in_range t1 t2 \<equiv> \<lambda>(a, t, s). t1 \<le> t \<and> t \<le> t2"

lemma blocks_from_chain:
  "chain c m p (b # bs) q \<Longrightarrow> 0 < p \<Longrightarrow> \<not> (t1 \<le> m q \<and> m q \<le> t2) \<Longrightarrow>
   blocks_from c m t1 t2 (eds_find_loop c m t1 t2 p) = map fst (filter (in_range t1 t2) bs)"
proof (induction bs arbitrary: p b)
  case Nil
  then have "eds_find_loop c m t1 t2 p = 0" using eds_find_loop_correct [OF Nil.prems(1), of t1 t2] by auto
  then show ?case by (simp add: blocks_from.simps)
next
  case (Cons b' bs)
  obtain a t s where b: "b = (a, t, s)" by (cases b)
  obtain a' t' s' where b': "b' = (a', t', s')" by (cases b')
  note h = chain_ConsD [OF Cons.prems(1) [unfolded b]]
  note h' = chain_ConsD [OF h(5) [unfolded b']]
  have IH: "blocks_from c m t1 t2 (eds_find_loop c m t1 t2 (p + 2 + s)) = map fst (filter (in_range t1 t2) bs)"
    by (rule Cons.IH [OF h(5) _ Cons.prems(3)]) simp
  show ?case
  proof (cases "t1 \<le> t' \<and> t' \<le> t2")
    case True
    then have "eds_find_loop c m t1 t2 p = p + 2 + s"
      using eds_find_loop_correct [OF Cons.prems(1), of t1 t2] b' h'(1) by simp
    then show ?thesis using True b' h'(1) IH
      by (subst blocks_from.simps) (simp add: eds_find_next_block_between_def)
  next
    case False
    then have "eds_find_loop c m t1 t2 p = eds_find_loop c m t1 t2 (p + 2 + s)"
      using eds_find_loop_correct [OF Cons.prems(1), of t1 t2] eds_find_loop_correct [OF h(5), of t1 t2] b'
      by auto
    then show ?thesis using False b' IH by simp
  qed
qed

lemma foreach_blocks:
  assumes wf: "eds_wf c m" and e: "\<not> (t1 \<le> m (EDS_END c + 1) \<and> m (EDS_END c + 1) \<le> t2)"
  shows "EDS_foreach_block_between c m t1 t2 = map fst (filter (in_range t1 t2) (eds_blocks c m))"
proof -
  have "EDS_DATA_START < EDS_END c" using EDS_END_bounds(1) [of c] by simp
  then obtain b bs where bl: "eds_blocks c m = b # bs" and b: "b = (EDS_DATA_START, m EDS_DATA_START, EDS_BLOCK_SIZE m EDS_DATA_START)"
    by (simp add: eds_blocks_def eds_layout.simps [of c m EDS_DATA_START] EDS_BLOCK_TYPE_def)
  have ch: "chain c m EDS_DATA_START (b # bs) (EDS_END c + 1)" using wf_chain [OF wf] bl by simp
  from blocks_from_chain [OF ch _ e]
  have "blocks_from c m t1 t2 (eds_find_loop c m t1 t2 EDS_DATA_START) = map fst (filter (in_range t1 t2) bs)"
    by simp
  then show ?thesis
    unfolding EDS_foreach_block_between_def eds_find_next_block_between_def bl
    by (auto simp: b EDS_BLOCK_TYPE_def blocks_from.simps [of c m t1 t2 EDS_DATA_START]
        eds_find_next_block_between_def)
qed

text \<open>The block of a page: its type is that of a page or of a panel's configuration.\<close>

definition page_block :: "eeprom \<Rightarrow> u8 \<Rightarrow> blk \<Rightarrow> bool" where
  "page_block m page = (\<lambda>(a, t, s). EDS_PAGE_ID_START \<le> t \<and> t \<le> EDS_PAGE_ID_END \<and> m (a + 2) = page)"

lemma load_page_loop_first:
  assumes "\<forall>b \<in> set bs. fst b < 60000" and "\<forall>b \<in> set bs. EDS_BLOCK_SIZE (mem p) (fst b) = snd (snd b)"
    and "find (\<lambda>(a, t, s). mem p (a + 2) = page) bs = Some (a, t, s)" and "s \<le> 196"
  shows "load_page_loop page (map fst bs) p = read_page a (s + 2) p"
  using assms
proof (induction bs)
  case (Cons b bs)
  have "EDS_BLOCK_DATA (mem p) (fst b) 0 = mem p (fst b + 2)"
    using Cons.prems(1) by (simp add: EDS_BLOCK_DATA_def)
  with Cons show ?case by (cases b) (auto simp: Let_def split: if_splits)
qed simp


lemma load_page_loop_none:
  assumes "\<forall>b \<in> set bs. fst b < 60000" and "find (\<lambda>(a, t, s). mem p (a + 2) = page) bs = None"
  shows "load_page_loop page (map fst bs) p = load_error_page ERROR_PAGE_PAGE_NOT_FOUND p"
  using assms
  by (induction bs) (auto simp: EDS_BLOCK_DATA_def find_None_iff)

lemma find_in_set: "find P xs = Some x \<Longrightarrow> x \<in> set xs"
  by (metis find_Some_iff nth_mem)

lemma find_filter: "find P (filter Q xs) = find (\<lambda>x. Q x \<and> P x) xs"
  by (induction xs) auto

lemma block_size_of: "eds_wf c m \<Longrightarrow> (a, t, s) \<in> set (eds_blocks c m) \<Longrightarrow> EDS_BLOCK_SIZE m a = s \<and> a < 60000"
proof -
  assume wf: "eds_wf c m" and i: "(a, t, s) \<in> set (eds_blocks c m)"
  from wf_chain [OF wf] have "tiles m EDS_DATA_START (eds_blocks c m) (EDS_END c + 1)" "\<forall>b \<in> set (eds_blocks c m). fst b < EDS_END c"
    by (auto simp: chain_def)
  with tiles_bounds [OF _ i] i EDS_END_bounds(2) [of c] show ?thesis
    by (fastforce simp: EDS_BLOCK_SIZE_def)
qed

text \<open>
  Loading a page finds it: on a well-formed EEPROM the panel shows the first
  block in the chain that starts with the number of the page, byte by byte, among all blocks
  whose type is in the range of the pages; when there is none it shows the error page. Nothing
  else of the panel changes. The types of the panel's configuration blocks (111 to 115) are in
  that range, too: in the witness a list of windows whose first group is 1 is
  shown in place of the start page behind it.
\<close>

theorem load_page_finds:
  assumes wf: "eds_wf (board p) (mem p)"
    and e: "\<not> (EDS_PAGE_ID_START \<le> mem p (EDS_END (board p) + 1) \<and> mem p (EDS_END (board p) + 1) \<le> EDS_PAGE_ID_END)"
    and sz: "\<forall>(a, t, s) \<in> set (eds_blocks (board p) (mem p)). EDS_PAGE_ID_START \<le> t \<and> t \<le> EDS_PAGE_ID_END \<longrightarrow> s \<le> 196"
  shows "load_page page p =
    (case find (page_block (mem p) page) (eds_blocks (board p) (mem p)) of
       Some (a, t, s) \<Rightarrow> p\<lparr>active_page := (\<lambda>i. if i < s + 2 then mem p (a + i) else active_page p i)\<rparr>
     | None \<Rightarrow> p\<lparr>active_page := (active_page p)(0 := 255, 1 := 1, 2 := 255, 3 := 0, 4 := 0, 5 := 0, 6 := 2)\<rparr>)"
proof -
  let ?bl = "eds_blocks (board p) (mem p)"
  let ?bs = "filter (in_range EDS_PAGE_ID_START EDS_PAGE_ID_END) ?bl"
  let ?P = "\<lambda>(a, t, s). mem p (a + 2) = page"
  have bs: "\<forall>b \<in> set ?bs. fst b < 60000" "\<forall>b \<in> set ?bs. EDS_BLOCK_SIZE (mem p) (fst b) = snd (snd b)"
    using block_size_of [OF wf] by auto
  have f: "find ?P ?bs = find (page_block (mem p) page) ?bl"
    unfolding find_filter by (rule arg_cong2 [of _ _ _ _ find]) (auto simp: page_block_def)
  have l: "load_page page p = load_page_loop page (map fst ?bs) p"
    by (simp add: load_page_def foreach_blocks [OF wf e])
  show ?thesis
  proof (cases "find ?P ?bs")
    case None
    then show ?thesis
      using load_page_loop_none [OF bs(1), where page = page and p = p] l f by (simp add: load_error_page_def)
  next
    case (Some b)
    obtain a t s where b: "b = (a, t, s)" by (cases b)
    then have "(a, t, s) \<in> set ?bs" using Some find_in_set by fastforce
    then have "s \<le> 196" using sz by auto
    with load_page_loop_first [OF bs, where page = page] Some b have "load_page page p = read_page a (s + 2) p"
      unfolding l by blast
    then show ?thesis unfolding f [symmetric] Some b by (simp add: read_page_def)
  qed
qed

definition window_panel :: panel where
  "window_panel = panel_reset ATmega32 801 (replicate 8 0)
     (fresh_eeprom(34 := 111, 35 := 24, 36 := 1, 60 := 100, 61 := 102, 62 := 1, 1024 := 255)) []"

lemma window_panel_eds:
  "eds_wf ATmega32 (mem window_panel)"
  "eds_blocks ATmega32 (mem window_panel) =
     [(34, 111, 24), (60, 100, 102), (164, 0, 128), (294, 0, 128), (424, 0, 128), (554, 0, 128),
      (684, 0, 128), (814, 0, 128), (944, 0, 78)]"
proof -
  have "tiles fresh_eeprom 34 (eds_blocks ATmega32 fresh_eeprom) 1024"
    using wf_chain [OF fresh_eeprom_facts(1)] by (simp add: chain_def)
  then have ch: "chain ATmega32 (mem window_panel) 34
     [(34, 111, 24), (60, 100, 102), (164, 0, 128), (294, 0, 128), (424, 0, 128), (554, 0, 128),
      (684, 0, 128), (814, 0, 128), (944, 0, 78)] (EDS_END ATmega32 + 1)"
    by (simp add: chain_def window_panel_def panel_reset_def)
  then show bl: "eds_blocks ATmega32 (mem window_panel) =
     [(34, 111, 24), (60, 100, 102), (164, 0, 128), (294, 0, 128), (424, 0, 128), (554, 0, 128),
      (684, 0, 128), (814, 0, 128), (944, 0, 78)]"
    by (rule chain_blocks)
  have "fresh_eeprom 32 = EDS_MAGIC1" "fresh_eeprom 33 = EDS_MAGIC2"
    using fresh_eeprom_facts(1) by (simp_all add: eds_wf_def)
  then show "eds_wf ATmega32 (mem window_panel)"
    using chain_wf [OF ch] by (simp add: window_panel_def panel_reset_def)
qed

theorem load_page_finds_witness:
  "block_type (load_page 1 window_panel) = EDS_userpanel_reedkontakte_BLOCK_ID"
proof -
  have b: "board window_panel = ATmega32" by (simp add: window_panel_def panel_reset_def)
  have m: "mem window_panel 34 = 111" "mem window_panel 36 = 1" "mem window_panel 1024 = 255"
    by (simp_all add: window_panel_def panel_reset_def)
  have "load_page 1 window_panel = window_panel\<lparr>active_page :=
      (\<lambda>i. if i < 26 then mem window_panel (34 + i) else active_page window_panel i)\<rparr>"
    using load_page_finds [of window_panel 1] window_panel_eds m by (simp add: b page_block_def)
  then show ?thesis using m by (simp add: block_type_def)
qed


end
