(* ===== verification/Panel_Screen.thy ===== *)
theory Panel_Screen
  imports Panel_Facts
begin

text \<open>
  What the start page of the panel shows: the second line of
  \<^verbatim>\<open>print_screensaver_page\<close> against a definition of its text.
\<close>

section \<open>The second line of the start page\<close>

text \<open>What the line shows of a count.\<close>

definition count_field :: "string \<Rightarrow> u8 \<Rightarrow> string" where
  "count_field lab n = (if 0 < n then lab @ fmt_u n else [])"

lemma dec_digits_nonnul: "NUL \<notin> set (dec_digits n)"
proof (induction n rule: dec_digits.induct)
  case (1 n)
  have "char_of (48 + k) \<noteq> NUL" if "k < 10" for k :: nat
    using that by (simp add: NUL_def char_of_eq_iff take_bit_nat_eq_self)
  then have "NUL \<noteq> char_of (48 + k)" if "k < 10" for k :: nat using that by metis
  with 1 show ?case by (subst dec_digits.simps) auto
qed

lemma length_dec_digits: "n < 10 \<Longrightarrow> length (dec_digits n) = 1" "10 \<le> n \<Longrightarrow> n < 100 \<Longrightarrow> length (dec_digits n) = 2"
  by (simp_all add: dec_digits.simps)

lemma length_fmt_u: "unat n < 100 \<Longrightarrow> length (fmt_u n) \<le> 2"
  using length_dec_digits [of "unat n"] by (cases "unat n < 10") (auto simp: fmt_u_def)

lemma length_fmt_02d: "unat n < 100 \<Longrightarrow> length (fmt_02d n) = 2"
  using length_dec_digits [of "unat n"] by (cases "unat n < 10") (auto simp: fmt_02d_def fmt_u_def)

lemma fmt_nonnul: "NUL \<notin> set (fmt_u n)" "NUL \<notin> set (fmt_02d n)"
  using dec_digits_nonnul by (auto simp: fmt_u_def fmt_02d_def NUL_def)

lemma cstr_stop: "NUL \<notin> set a \<Longrightarrow> cstr (a @ NUL # r) = a"
  by (auto simp: cstr_def takeWhile_tail takeWhile_append2)

lemma put_count_field:
  assumes n: "unat n \<le> 24" and lab: "length lab \<le> 2" "NUL \<notin> set lab"
    and len: "length a + length t = 16" "4 \<le> length a"
    and nul: "NUL \<notin> set a" "NUL \<notin> set t" and sp: "t = [] \<or> hd t = CHR '' ''"
  shows "put_count lab n (a @ t @ NUL # r, of_nat (length a)) =
    (take (length a - length (count_field lab n)) a @ count_field lab n @ t @ NUL # r,
     of_nat (length a - length (count_field lab n)))"
proof (cases "0 < n")
  case True
  define sz where "sz = lab @ fmt_u n"
  have sz: "length sz \<le> 4" "NUL \<notin> set sz" "count_field lab n = sz" "snprintf 6 sz = sz"
    using length_fmt_u [of n] n lab fmt_nonnul True by (auto simp: sz_def count_field_def snprintf_def)
  define k where "k = length a - length sz"
  have k: "length a = k + length sz" using sz(1) len by (simp add: k_def)
  have pos: "unat (of_nat (length a) - of_nat (length sz) :: u8) = k"
    using k len by (simp add: unat_of_nat)
  have pos16: "(of_nat (length a) :: u8) = 16 \<longleftrightarrow> t = []"
    using len by (auto simp: word_unat_eq_iff)
  have "strcpy_at (a @ t @ NUL # r) k sz = take k a @ sz @ NUL # drop (length a + 1) (a @ t @ NUL # r)"
    using k by (simp add: strcpy_at_def)
  also have "drop (length a + 1) (a @ t @ NUL # r) = (if t = [] then r else tl t @ NUL # r)"
    by (cases t) auto
  finally have cpy: "strcpy_at (a @ t @ NUL # r) k sz =
    take k a @ sz @ NUL # (if t = [] then r else tl t @ NUL # r)" .
  have c: "cstr (take k a @ sz @ NUL # x) = take k a @ sz" for x
    using cstr_stop [of "take k a @ sz"] nul sz by (auto dest: in_set_takeD)
  have upd: "(take k a @ sz @ NUL # x)[length (take k a @ sz) := CHR '' ''] = take k a @ sz @ CHR '' '' # x" for x
    by (metis append.assoc list_update_length)
  show ?thesis
  proof (cases "t = []")
    case t: True
    have "put_count lab n (a @ t @ NUL # r, of_nat (length a)) = (strcpy_at (a @ t @ NUL # r) k sz, of_nat (length a) - of_nat (length sz))"
      using True pos pos16 t by (simp add: put_count_def Let_def sz_def [symmetric] sz(4))
    then show ?thesis using cpy t k by (simp add: sz(3))
  next
    case False
    then have t: "CHR '' '' # tl t = t" using sp by (cases t) auto
    have "put_count lab n (a @ t @ NUL # r, of_nat (length a)) =
      ((strcpy_at (a @ t @ NUL # r) k sz)[length (cstr (strcpy_at (a @ t @ NUL # r) k sz)) := CHR '' ''],
       of_nat (length a) - of_nat (length sz))"
      using True pos pos16 False by (simp add: put_count_def Let_def sz_def [symmetric] sz(4))
    also have "\<dots> = (take k a @ sz @ t @ NUL # r, of_nat (length a) - of_nat (length sz))"
      unfolding cpy c upd using False t by simp
    finally show ?thesis using k by (simp add: sz(3))
  qed
next
  case False
  then show ?thesis by (simp add: put_count_def count_field_def)
qed


lemma put_count_base:
  assumes n: "unat n \<le> 24" and lab: "length lab \<le> 2" "NUL \<notin> set lab"
    and b: "length b = 16" "NUL \<notin> set b" and t: "length t \<le> 12" "NUL \<notin> set t" "t = [] \<or> hd t = CHR '' ''"
    and t': "t' = count_field lab n @ t"
  shows "put_count lab n (take (16 - length t) b @ t @ NUL # r, of_nat (16 - length t)) =
    (take (16 - length t') b @ t' @ NUL # r, of_nat (16 - length t'))"
proof -
  define a where "a = take (16 - length t) b"
  have a: "length a = 16 - length t" "NUL \<notin> set a" using b by (auto simp: a_def dest: in_set_takeD)
  have X: "take (length a - length (count_field lab n)) a = take (16 - length t') b"
    unfolding a(1) unfolding a_def t' by (simp add: add.commute)
  have Y: "length a - length (count_field lab n) = 16 - length t'" using a(1) by (simp add: t')
  have "put_count lab n (a @ t @ NUL # r, of_nat (length a)) =
    (take (length a - length (count_field lab n)) a @ count_field lab n @ t @ NUL # r,
     of_nat (length a - length (count_field lab n)))"
    by (rule put_count_field [OF n lab _ _ a(2) t(2,3)]) (use a(1) t(1) in auto)
  from this [unfolded Y, unfolded X [unfolded Y], unfolded a(1)] show ?thesis unfolding a_def t' append_assoc .
qed

lemma count_on_le: "length xs = 24 \<Longrightarrow> unat (count_on xs) \<le> 24"
proof -
  assume "length xs = 24"
  then have "length (filter (\<lambda>x. x \<noteq> 0 \<and> x \<noteq> 255) xs) \<le> 24"
    using length_filter_le [of "\<lambda>x. x \<noteq> 0 \<and> x \<noteq> 255" xs] by linarith
  then show ?thesis by (simp add: count_on_def)
qed

lemma count_sonstige_all:
  "count_sonstige_loop 0 is n p =
     (p, n + of_nat (length (filter (\<lambda>i. monitor_sonstige_state p ! i \<noteq> 0 \<and> monitor_sonstige_state p ! i \<noteq> 255) is)))"
  by (induction "is" arbitrary: n) (auto simp: Let_def)

lemma get_count_sonstige_all:
  assumes "length (monitor_sonstige_state p) = 24"
  shows "get_count_sonstige_states 0 p = (p, count_on (monitor_sonstige_state p))"
proof -
  let ?xs = "monitor_sonstige_state p"
  have "map ((!) ?xs) [0..<24] = ?xs" using assms map_nth [of ?xs] by simp
  then have "length (filter (\<lambda>x. x \<noteq> 0 \<and> x \<noteq> 255) ?xs) =
      length (filter (\<lambda>x. x \<noteq> 0 \<and> x \<noteq> 255) (map ((!) ?xs) [0..<24]))" by simp
  also have "\<dots> = length (filter (\<lambda>i. ?xs ! i \<noteq> 0 \<and> ?xs ! i \<noteq> 255) [0..<24])"
    by (simp only: filter_map length_map o_def)
  finally show ?thesis
    unfolding get_count_sonstige_states_def count_sonstige_all count_on_def by simp
qed

lemma hd_count_field: "lab \<noteq> [] \<Longrightarrow> hd lab = CHR '' '' \<Longrightarrow> t = [] \<or> hd t = CHR '' '' \<Longrightarrow>
  count_field lab n @ t = [] \<or> hd (count_field lab n @ t) = CHR '' ''"
  by (auto simp: count_field_def)

lemma length_count_field: "unat n \<le> 24 \<Longrightarrow> length (count_field lab n) \<le> length lab + 2"
  using length_fmt_u [of n] by (auto simp: count_field_def)

lemma nonnul_count_field: "NUL \<notin> set lab \<Longrightarrow> NUL \<notin> set (count_field lab n)"
  using fmt_nonnul by (auto simp: count_field_def)

text \<open>
  The second line of the start page always has the width of the display, 16
  characters: the counts of muted devices, outputs, lamps and windows stand at its right end, in front of them what is
  left of the time; without a count the time is followed by the word Uhr. So the time stays
  legible as long as the counts need no more than eleven characters, which four
  one-digit counts do; with a second digit in any of four counts the last digit of the minute is
  overwritten, as the witness shows.
\<close>

theorem start_page_second_line:
  fixes p :: panel
  defines "fs \<equiv> count_field ''P'' (count_on (monitor_mute_state p)) @
      count_field '' S'' (count_on (monitor_sonstige_state p)) @
      count_field '' L'' (count_on (monitor_lampen_state p)) @
      count_field '' F'' (count_on (monitor_reedkontakt_state p))"
  assumes ok: "panel_ok p" and t: "unat (hour (rtc p)) < 24" "unat (minute (rtc p)) < 60"
  shows "length fs \<le> 15 \<and> screensaver_line2 p =
    (let uhr = fmt_02d (hour (rtc p)) @ '':'' @ fmt_02d (minute (rtc p)) in
     if fs = [] then uhr @ '' Uhr'' else take (16 - length fs) (uhr @ replicate 11 CHR '' '') @ fs)"
proof -
  define uhr where "uhr = fmt_02d (hour (rtc p)) @ '':'' @ fmt_02d (minute (rtc p))"
  define base where "base = uhr @ ''           ''"
  have lu: "length uhr = 5" "NUL \<notin> set uhr"
    using t length_fmt_02d [of "hour (rtc p)"] length_fmt_02d [of "minute (rtc p)"] fmt_nonnul
    by (auto simp: uhr_def NUL_def)
  have lb: "length base = 16" "NUL \<notin> set base" using lu by (auto simp: base_def NUL_def)
  have repl: "''           '' = replicate 11 CHR '' ''" by (simp add: numeral_eq_Suc)
  let ?r = "replicate 15 NUL"
  have s0: "strcpy_at (replicate 32 NUL) 0 (snprintf 31 base) = base @ NUL # ?r"
    using lb by (simp add: strcpy_at_def snprintf_def)
  define nF nL nS nP where n: "nF = count_on (monitor_reedkontakt_state p)"
    "nL = count_on (monitor_lampen_state p)" "nS = count_on (monitor_sonstige_state p)"
    "nP = count_on (monitor_mute_state p)"
  have n24: "unat nF \<le> 24" "unat nL \<le> 24" "unat nS \<le> 24" "unat nP \<le> 24"
    using panel_ok_lengths [OF ok] by (simp_all add: n count_on_le)
  define tF where "tF = count_field '' F'' nF"
  define tL where "tL = count_field '' L'' nL @ tF"
  define tS where "tS = count_field '' S'' nS @ tL"
  have nul: "NUL \<notin> set tF" "NUL \<notin> set tL" "NUL \<notin> set tS"
    using nonnul_count_field [of "'' F''" nF] nonnul_count_field [of "'' L''" nL] nonnul_count_field [of "'' S''" nS]
    by (auto simp: tF_def tL_def tS_def NUL_def)
  have sp: "tF = [] \<or> hd tF = CHR '' ''" "tL = [] \<or> hd tL = CHR '' ''" "tS = [] \<or> hd tS = CHR '' ''"
    using hd_count_field [of "'' F''" "[]" nF] hd_count_field [of "'' L''" tF nL] hd_count_field [of "'' S''" tL nS]
    by (auto simp: tF_def tL_def tS_def)
  have len: "length tF \<le> 4" "length tL \<le> length tF + 4" "length tS \<le> length tL + 4"
    using length_count_field [OF n24(1), of "'' F''"] length_count_field [OF n24(2), of "'' L''"]
      length_count_field [OF n24(3), of "'' S''"] by (simp_all add: tF_def tL_def tS_def)
  have lP: "length (count_field ''P'' nP) \<le> 3" using length_count_field [OF n24(4), of "''P''"] by simp
  have nb: "NUL \<notin> set (take k base)" for k using lb(2) by (auto dest: in_set_takeD)
  have lab: "NUL \<notin> set '' F''" "NUL \<notin> set '' L''" "NUL \<notin> set '' S''" "NUL \<notin> set ''P''"
    by (simp_all add: NUL_def)
  have 1: "put_count '' F'' nF (base @ NUL # ?r, 16) = (take (16 - length tF) base @ tF @ NUL # ?r, of_nat (16 - length tF))"
    using put_count_base [OF n24(1) _ lab(1) lb, of "[]" tF ?r] lb by (simp add: tF_def)
  have 2: "put_count '' L'' nL (take (16 - length tF) base @ tF @ NUL # ?r, of_nat (16 - length tF)) =
    (take (16 - length tL) base @ tL @ NUL # ?r, of_nat (16 - length tL))"
    by (rule put_count_base [OF n24(2) _ lab(2) lb _ nul(1) sp(1) tL_def]) (use len in auto)
  have 3: "put_count '' S'' nS (take (16 - length tL) base @ tL @ NUL # ?r, of_nat (16 - length tL)) =
    (take (16 - length tS) base @ tS @ NUL # ?r, of_nat (16 - length tS))"
    by (rule put_count_base [OF n24(3) _ lab(3) lb _ nul(2) sp(2) tS_def]) (use len in auto)
  have fs: "fs = count_field ''P'' nP @ tS" by (simp add: fs_def tS_def tL_def tF_def n)
  have lfs: "length fs \<le> 15" using lP len by (simp add: fs)
  have 4: "put_count ''P'' nP (take (16 - length tS) base @ tS @ NUL # ?r, of_nat (16 - length tS)) =
    (take (16 - length fs) base @ fs @ NUL # ?r, of_nat (16 - length fs))"
    by (rule put_count_base [OF n24(4) _ lab(4) lb _ nul(3) sp(3) fs]) (use len in auto)
  have nf: "NUL \<notin> set fs" using nul nonnul_count_field [OF lab(4)] by (simp add: fs)
  have p16: "(of_nat (16 - length fs) :: u8) = 16 \<longleftrightarrow> fs = []"
  proof -
    have "unat (of_nat (16 - length fs) :: u8) = 16 - length fs" by (rule unat_of_nat_u8) simp
    moreover have "16 - length fs = 16 \<longleftrightarrow> fs = []" using lfs by (cases fs) auto
    ultimately show ?thesis unfolding word_unat_eq_iff by (simp only: unat_numeral) simp
  qed
  have "screensaver_line2 p = cstr (if fs = [] then strcpy_at (take (16 - length fs) base @ fs @ NUL # ?r) 6 ''Uhr''
      else take (16 - length fs) base @ fs @ NUL # ?r)"
    using s0 1 2 3 4 p16
    by (simp add: screensaver_line2_def get_count_reedkontakt_states_def get_count_lampen_states_def
        get_count_mute_states_def get_count_sonstige_all panel_ok_lengths [OF ok] Let_def n base_def uhr_def)
  also have "\<dots> = (if fs = [] then uhr @ '' Uhr'' else take (16 - length fs) base @ fs)"
  proof (cases "fs = []")
    case True
    have "strcpy_at (base @ NUL # ?r) 6 ''Uhr'' = (uhr @ '' Uhr'') @ NUL # drop 10 (base @ NUL # ?r)"
      using lu(1) by (simp add: strcpy_at_def base_def)
    moreover have "NUL \<notin> set (uhr @ '' Uhr'')" using lu by (simp add: NUL_def)
    ultimately show ?thesis using True lb cstr_stop [of "uhr @ '' Uhr''"] by simp
  next
    case False
    have "cstr ((take (16 - length fs) base @ fs) @ NUL # ?r) = take (16 - length fs) base @ fs"
      by (rule cstr_stop) (use nb nf in auto)
    with False show ?thesis by simp
  qed
  finally show ?thesis using lfs unfolding base_def uhr_def repl by (simp add: Let_def)
qed


theorem start_page_second_line_witness:
  "\<exists>p. panel_ok p \<and> screensaver_line2 p = ''12:3P3 S4 L2 F10''"
proof -
  define q where "q = panel_reset ATmega32 801 (replicate 8 0) (\<lambda>_. 0) []"
  define p where "p = q\<lparr>rtc := (rtc q)\<lparr>hour := 12, minute := 34\<rparr>,
    monitor_mute_state := replicate 3 1 @ replicate 21 0,
    monitor_sonstige_state := replicate 4 1 @ replicate 20 0,
    monitor_lampen_state := replicate 2 1 @ replicate 22 0,
    monitor_reedkontakt_state := replicate 10 1 @ replicate 14 0\<rparr>"
  have ok: "panel_ok p"
    by (simp add: p_def q_def panel_reset_def panel_ok_defs keys_ok_def state_ok_def)
  have n: "count_on (replicate k 1 @ replicate l 0) = of_nat k" for k l
    by (simp add: count_on_def)
  have d: "dec_digits 3 = ''3''" "dec_digits 4 = ''4''" "dec_digits 2 = ''2''" "dec_digits 10 = ''10''"
    "dec_digits 12 = ''12''" "dec_digits 34 = ''34''"
    by (simp_all add: dec_digits.simps char_of_def bit_Suc_0_iff)
  show ?thesis
    using start_page_second_line [OF ok]
    by (intro exI [of _ p] conjI ok)
      (simp add: p_def n count_field_def fmt_u_def fmt_02d_def d Let_def del: replicate.simps)
qed

end
