(* ===== verification/Panel_Dialogs.thy ===== *)
theory Panel_Dialogs
  imports Panel_Facts
begin

text \<open>
  What the user of a panel can rely on: the way back to the start page, the values of a
  heating, the orders of the page of an output.
\<close>

section \<open>Back to the start page\<close>

text \<open>
  Nobody presses a key and no second passes during the pauses: the countdown to the start
  page stays.
\<close>

locale nobody_there =
  fixes env :: "panel \<Rightarrow> panel"
  assumes countdown: "lcd_screensafer_countdown (env p) = lcd_screensafer_countdown p"
begin

lemma fold_countdown:
  "(\<And>x p. lcd_screensafer_countdown (g x p) = lcd_screensafer_countdown p) \<Longrightarrow>
   lcd_screensafer_countdown (fold g xs p) = lcd_screensafer_countdown p"
  by (induction xs arbitrary: p) auto

lemma effects_countdown [simp]:
  "lcd_screensafer_countdown (say os p) = lcd_screensafer_countdown p"
  "lcd_screensafer_countdown (lcd_print x y s p) = lcd_screensafer_countdown p"
  "lcd_screensafer_countdown (panel_send prio f p) = lcd_screensafer_countdown p"
  "lcd_screensafer_countdown (nap env n p) = lcd_screensafer_countdown p"
  "lcd_screensafer_countdown (lcdctrl_light b c p) = lcd_screensafer_countdown p"
  "lcd_screensafer_countdown (load_error_page k p) = lcd_screensafer_countdown p"
  by (simp_all add: say_def lcd_print_def panel_send_def weck_page_can_callback_def nap_def countdown
      lcdctrl_light_def load_error_page_def Let_def)

lemma light_countdown [simp]: "lcd_screensafer_countdown (lcdctrl_set_display_light m p) = lcd_screensafer_countdown p"
  by (simp add: lcdctrl_set_display_light_def split: option.splits prod.splits)

lemma fade_countdown [simp]: "lcd_screensafer_countdown (lcd_fade env p) = lcd_screensafer_countdown p"
  by (simp add: lcd_fade_def fold_countdown del: upt_rec_numeral)

lemma details_countdown:
  "get_heiz_details env g p = (q, r) \<Longrightarrow> lcd_screensafer_countdown q = lcd_screensafer_countdown p"
  "get_weck_details env g p = (q, r') \<Longrightarrow> lcd_screensafer_countdown q = lcd_screensafer_countdown p"
  by (auto simp: get_heiz_details_def get_weck_details_def Let_def split: if_splits)

lemma ignore_countdown:
  "leave_come_page_get_ignore g p = (q, n) \<Longrightarrow> lcd_screensafer_countdown q = lcd_screensafer_countdown p"
  by (auto simp: leave_come_page_get_ignore_def Let_def split: if_splits)

lemma count_countdown:
  "lcd_screensafer_countdown (fst (count_sonstige_loop ig is n p)) = lcd_screensafer_countdown p"
  by (induction "is" arbitrary: n p) (auto simp: Let_def ignore_countdown split: prod.splits)

lemma state_countdown:
  "leave_come_page_get_state p = (q, st) \<Longrightarrow> lcd_screensafer_countdown q = lcd_screensafer_countdown p"
  using count_countdown [of 1 "[0..<24]" 0 p]
  by (auto simp: leave_come_page_get_state_def get_count_sonstige_states_def Let_def split: prod.splits if_splits)

lemma still_pages_countdown [simp]:
  "lcd_screensafer_countdown (taster_page_print_page p) = lcd_screensafer_countdown p"
  "lcd_screensafer_countdown (rolladen_page_print_page p) = lcd_screensafer_countdown p"
  "lcd_screensafer_countdown (print_dir_page p) = lcd_screensafer_countdown p"
  "lcd_screensafer_countdown (print_screensaver_page p) = lcd_screensafer_countdown p"
  "lcd_screensafer_countdown (heiz_page_show v p) = lcd_screensafer_countdown p"
  "lcd_screensafer_countdown (weck_page_show d p) = lcd_screensafer_countdown p"
  "lcd_screensafer_countdown (gesamt_heiz_vorgaben p) = lcd_screensafer_countdown p"
  by (simp_all add: taster_page_print_page_def rolladen_page_print_page_def print_dir_page_def
      print_screensaver_page_def heiz_page_show_def weck_page_show_def gesamt_heiz_vorgaben_def Let_def)

lemma gesamt_countdown [simp]:
  "lcd_screensafer_countdown (gesamt_heiz_page_print_page p) = lcd_screensafer_countdown p"
  by (simp add: gesamt_heiz_page_print_page_def Let_def)

lemma asking_pages_countdown [simp]:
  "lcd_screensafer_countdown (heiz_page_print_page env p) = lcd_screensafer_countdown p"
  "lcd_screensafer_countdown (weck_page_print_page env p) = lcd_screensafer_countdown p"
  "lcd_screensafer_countdown (leave_come_page_print_page p) = lcd_screensafer_countdown p"
  using details_countdown [of _ "say [LcdClear] p"] state_countdown [of "say [LcdClear] p"]
  by (auto simp: heiz_page_print_page_def weck_page_print_page_def leave_come_page_print_page_def Let_def
      split: prod.splits option.splits)

lemma other_pages_countdown [simp]:
  "lcd_screensafer_countdown (powerport_page_print_page env p) = lcd_screensafer_countdown p"
  "lcd_screensafer_countdown (temp_anzeige_page_print_page env p) = lcd_screensafer_countdown p"
  by (simp_all add: powerport_page_print_page_def temp_anzeige_page_print_page_def
      temp_anzeige_page_get_temp_def Let_def)

lemma fenster_countdown [simp]:
  "lcd_screensafer_countdown (fenster_monitor_page_print_page env p) = lcd_screensafer_countdown p"
proof -
  have "lcd_screensafer_countdown (fst (fenster_monitor_collect_reed_states env q)) = lcd_screensafer_countdown q" for q
    by (simp add: fenster_monitor_collect_reed_states_def Let_def fold_countdown del: upt_rec_numeral)
  from this [of "lcd_print 0 0 (snprintf 31 ''Fenster:'') (say [LcdClear] p)"] show ?thesis
    by (auto simp: fenster_monitor_page_print_page_def Let_def split: prod.splits)
qed

lemma print_page_countdown [simp]: "lcd_screensafer_countdown (print_page env p) = lcd_screensafer_countdown p"
  by (simp add: print_page_def Let_def)

text \<open>One second: the countdown goes down; when it reaches zero the start page is shown.\<close>

lemma second_countdown:
  assumes "lcd_screensafer_countdown p \<noteq> 0"
  obtains q where "lcd_screensafer_countdown q = lcd_screensafer_countdown p - 1"
    and "lcdstatemachine_timer_handler env p = (if lcd_screensafer_countdown q = 0 then goto_page env 1 q else q)"
proof -
  define p1 where "p1 = (if keypress_time p \<noteq> 0 \<and> keypress_time p < 255
     then p\<lparr>keypress_time := keypress_time p + 1\<rparr> else p)"
  define p2 where "p2 = (if lcd_led_countdown p1 > 0
     then (let p = p1\<lparr>lcd_led_countdown := lcd_led_countdown p1 - 1\<rparr> in
           if lcd_led_countdown p = 0 then lcd_fade env p else p)
     else p1)"
  define p3 where "p3 = (if second (rtc p2) AND 0x0f = 0
     then print_page env (if lcd_led_countdown p2 = 0 then lcdctrl_set_display_light LCD_MODE_INACTIVE p2 else p2)
     else p2)"
  have c: "lcd_screensafer_countdown p3 = lcd_screensafer_countdown p"
    by (simp add: p3_def p2_def p1_def Let_def)
  have "lcdstatemachine_timer_handler env p =
    (let q = p3\<lparr>lcd_screensafer_countdown := lcd_screensafer_countdown p3 - 1\<rparr> in
     if lcd_screensafer_countdown q = 0 then goto_page env 1 q else q)"
    unfolding lcdstatemachine_timer_handler_def Let_def p1_def [symmetric]
    unfolding p2_def [unfolded Let_def, symmetric]
    unfolding p3_def [symmetric]
    using assms c by (simp add: word_gt_0)
  then show thesis using that [of "p3\<lparr>lcd_screensafer_countdown := lcd_screensafer_countdown p3 - 1\<rparr>"] c
    by (simp add: Let_def)
qed

lemma seconds_countdown:
  "unat (lcd_screensafer_countdown p) = Suc n \<Longrightarrow>
   (\<forall>k \<le> n. unat (lcd_screensafer_countdown ((lcdstatemachine_timer_handler env ^^ k) p)) = Suc n - k) \<and>
   (\<exists>q. (lcdstatemachine_timer_handler env ^^ Suc n) p = goto_page env 1 q)"
proof (induction n arbitrary: p)
  case 0
  then have "lcd_screensafer_countdown p = 1" by (simp add: word_unat_eq_iff)
  then obtain q where "lcdstatemachine_timer_handler env p = goto_page env 1 q"
    using second_countdown [of p] by (metis diff_self one_neq_zero)
  then show ?case using 0 by auto
next
  case (Suc n)
  then have nz: "lcd_screensafer_countdown p \<noteq> 0" by auto
  let ?q = "lcdstatemachine_timer_handler env p"
  obtain q where q: "lcd_screensafer_countdown q = lcd_screensafer_countdown p - 1"
    "?q = (if lcd_screensafer_countdown q = 0 then goto_page env 1 q else q)"
    using second_countdown [OF nz] by blast
  have "unat (lcd_screensafer_countdown q) = Suc n" using Suc.prems q(1) nz by (simp add: unat_dec)
  with q(2) have u: "unat (lcd_screensafer_countdown ?q) = Suc n" by auto
  from Suc.IH [OF u] have IH: "\<And>k. k \<le> n \<Longrightarrow>
      unat (lcd_screensafer_countdown ((lcdstatemachine_timer_handler env ^^ k) ?q)) = Suc n - k"
    "\<exists>q. (lcdstatemachine_timer_handler env ^^ Suc n) ?q = goto_page env 1 q" by auto
  have "unat (lcd_screensafer_countdown ((lcdstatemachine_timer_handler env ^^ k) p)) = Suc (Suc n) - k"
    if "k \<le> Suc n" for k
    using IH(1) [of "k - 1"] that Suc.prems by (cases k) (simp_all add: funpow_swap1)
  with IH(2) show ?case by (simp add: funpow_swap1)
qed

end


interpretation nothing_happens: nobody_there "\<lambda>p. p"
  by unfold_locales simp

lemma inserts_countdown [simp]:
  "lcd_screensafer_countdown (monitor_insert_heiz_state g T p) = lcd_screensafer_countdown p"
  "lcd_screensafer_countdown (monitor_insert_lampen_state g v p) = lcd_screensafer_countdown p"
  "lcd_screensafer_countdown (monitor_insert_sonstige_state g v p) = lcd_screensafer_countdown p"
  "lcd_screensafer_countdown (monitor_insert_reedkontakt_state g v p) = lcd_screensafer_countdown p"
  "lcd_screensafer_countdown (monitor_insert_mute_state g v p) = lcd_screensafer_countdown p"
  by (simp_all add: monitor_insert_heiz_state_def monitor_insert_lampen_state_def
      monitor_insert_sonstige_state_def monitor_insert_reedkontakt_state_def monitor_insert_mute_state_def Let_def)

lemma requests_countdown [simp]:
  "lcd_screensafer_countdown (request_states (\<lambda>p. p) msg ids p) = lcd_screensafer_countdown p"
  unfolding request_states_def by (rule nothing_happens.fold_countdown) simp

lemma monitors_countdown [simp]:
  "lcd_screensafer_countdown (monitor_heiz_can_callback (\<lambda>p. p) f p) = lcd_screensafer_countdown p"
  "lcd_screensafer_countdown (monitor_lampen_can_callback (\<lambda>p. p) f p) = lcd_screensafer_countdown p"
  "lcd_screensafer_countdown (monitor_sonstige_can_callback (\<lambda>p. p) f p) = lcd_screensafer_countdown p"
  "lcd_screensafer_countdown (monitor_reedkontakt_can_callback (\<lambda>p. p) f p) = lcd_screensafer_countdown p"
  "lcd_screensafer_countdown (monitor_mute_can_callback f p) = lcd_screensafer_countdown p"
  by (simp_all add: monitor_heiz_can_callback_def monitor_lampen_can_callback_def
      monitor_sonstige_can_callback_def monitor_reedkontakt_can_callback_def monitor_mute_can_callback_def
      init_monitor_heiz_request_states_def init_monitor_lampen_request_states_def
      init_monitor_sonstige_request_states_def init_monitor_reedkontakt_request_states_def
      init_monitor_mute_def Let_def)

lemma page_callbacks_countdown [simp]:
  "lcd_screensafer_countdown (heiz_page_can_callback f p) = lcd_screensafer_countdown p"
  "lcd_screensafer_countdown (weck_page_can_callback f p) = lcd_screensafer_countdown p"
  "lcd_screensafer_countdown (powerport_page_can_callback f p) = lcd_screensafer_countdown p"
  "lcd_screensafer_countdown (temp_anzeige_page_can_callback f p) = lcd_screensafer_countdown p"
  "lcd_screensafer_countdown (fenster_monitor_page_can_callback f p) = lcd_screensafer_countdown p"
  by (simp_all add: heiz_page_can_callback_def weck_page_can_callback_def powerport_page_can_callback_def
      temp_anzeige_page_can_callback_def fenster_monitor_page_can_callback_def
      fenster_monitor_insert_reed_state_def Let_def)

text \<open>The frames of the bus are heard during the pauses.\<close>

definition hears :: "canix_frame list \<Rightarrow> panel \<Rightarrow> panel" where
  "hears fs = fold (hauselektrik_callback (\<lambda>p. p)) fs"

interpretation hearing: nobody_there "hears fs" for fs
proof
  have "lcd_screensafer_countdown (hauselektrik_callback (\<lambda>p. p) f p) = lcd_screensafer_countdown p" for f p
    by (simp add: hauselektrik_callback_def lcdstatemachine_can_callback_def Let_def)
  then show "lcd_screensafer_countdown (hears fs p) = lcd_screensafer_countdown p" for p
    unfolding hears_def by (rule nothing_happens.fold_countdown)
qed

lemma lcdstatemachine_seconds:
  assumes "\<And>p. lcd_screensafer_countdown (env p) = lcd_screensafer_countdown p"
    and "unat (lcd_screensafer_countdown p) = Suc n"
  shows "(\<forall>k \<le> n. unat (lcd_screensafer_countdown ((lcdstatemachine_timer_handler env ^^ k) p)) = Suc n - k) \<and>
     (\<exists>q. (lcdstatemachine_timer_handler env ^^ Suc n) p = goto_page env 1 q)"
  by (rule nobody_there.seconds_countdown [OF nobody_there.intro]) (fact assms)+

text \<open>
  Property C40. A forgotten panel goes back to its start page: in seconds in which only the timer of the pages runs (no key is
  pressed), whatever page is shown, the countdown a key press sets to 300 goes down by one each second, and in the
  second in which it reaches zero the page number 1 is loaded and displayed, whatever frames of the bus are
  handled in the pauses.
\<close>

theorem panel_returns_to_start_page:
  assumes "\<And>p. lcd_screensafer_countdown (env p) = lcd_screensafer_countdown p"
    and "0 < lcd_screensafer_countdown p"
  shows "(\<exists>q. (lcdstatemachine_timer_handler env ^^ unat (lcd_screensafer_countdown p)) p = print_page env (load_page 1 q)) \<and>
    (\<forall>k < unat (lcd_screensafer_countdown p).
      unat (lcd_screensafer_countdown ((lcdstatemachine_timer_handler env ^^ k) p)) = unat (lcd_screensafer_countdown p) - k)"
proof -
  obtain n where n: "unat (lcd_screensafer_countdown p) = Suc n"
    using assms(2) by (metis Suc_pred' unat_gt_0 word_gt_0)
  note h = lcdstatemachine_seconds [of env, OF assms(1) n]
  show ?thesis using h unfolding n goto_page_def by (auto simp: less_Suc_eq_le)
qed

theorem panel_returns_to_start_page_witness:
  "\<exists>p. lcd_screensafer_countdown p = 300 \<and> block_type p = EDS_dir_page_BLOCK_ID \<and>
     (\<forall>fs. \<exists>q. (lcdstatemachine_timer_handler (hears fs) ^^ 300) p = print_page (hears fs) (load_page 1 q))"
proof -
  define p where "p = (panel_reset ATmega32 801 (replicate 8 0) (\<lambda>_. 0) [])
     \<lparr>lcd_screensafer_countdown := 300, active_page := (\<lambda>i. if i = 0 then EDS_dir_page_BLOCK_ID else 0)\<rparr>"
  have c: "lcd_screensafer_countdown p = 300" "block_type p = EDS_dir_page_BLOCK_ID"
    by (simp_all add: p_def block_type_def)
  have "\<exists>q. (lcdstatemachine_timer_handler (hears fs) ^^ unat (lcd_screensafer_countdown p)) p =
      print_page (hears fs) (load_page 1 q)" for fs
    by (rule panel_returns_to_start_page [of "hears fs", THEN conjunct1]) (simp_all add: c hearing.countdown)
  then show ?thesis using c by auto
qed


section \<open>The values of a heating\<close>

definition heiz_reply :: "u16 \<Rightarrow> u8 list \<Rightarrow> canix_frame" where
  "heiz_reply self bs = hes_message self HCAN_MULTICAST_INFO bs"

lemma heiz_reply_accepted [simp]: "hauselektrik_accepts self (heiz_reply a bs)"
  by (simp add: hauselektrik_accepts_def heiz_reply_def)

text \<open>A reply of the heating while its page is shown and the monitors are off.\<close>

definition no_monitors :: "panel \<Rightarrow> bool" where
  "no_monitors p \<longleftrightarrow> heiz_configured p = 0 \<and> lampen_configured p = 0 \<and> sonstige_configured p = 0 \<and>
     reedkontakt_configured p = 0 \<and> mute_configured p = 0"

lemma heiz_page_hears:
  assumes "block_type p = EDS_heiz_page_BLOCK_ID"
    and "heiz_configured p = 0 \<or> byte_at f 1 = HCAN_HES_HEIZUNG_TIST_REPLAY"
    and "byte_at f 1 = HCAN_HES_HEIZUNG_TIST_REPLAY \<or> byte_at f 1 = HCAN_HES_HEIZUNG_MODE_THERMOSTAT_DETAILS"
  shows "lcdstatemachine_can_callback env f p = heiz_page_can_callback f p"
proof -
  have "monitor_heiz_can_callback env f p = p" "monitor_lampen_can_callback env f p = p"
    "monitor_sonstige_can_callback env f p = p" "monitor_reedkontakt_can_callback env f p = p"
    "monitor_mute_can_callback f p = p"
    using assms(2,3) by (auto simp: monitor_heiz_can_callback_def monitor_lampen_can_callback_def
      monitor_sonstige_can_callback_def monitor_reedkontakt_can_callback_def monitor_mute_can_callback_def Let_def)
  moreover have "block_type (heiz_page_can_callback f p) = block_type p"
    by (simp add: heiz_page_can_callback_def block_type_def Let_def)
  ultimately show ?thesis using assms(1) by (simp add: lcdstatemachine_can_callback_def Let_def)
qed

lemma during_pause_frame:
  "script p = [HeardFrame f] # rest \<Longrightarrow> hauselektrik_accepts (self_addr p) f \<Longrightarrow>
   during_pause p = lcdstatemachine_can_callback (\<lambda>p. p) f (p\<lparr>script := rest\<rparr>)"
  by (simp add: during_pause_def panel_step_def hauselektrik_callback_def)

lemma during_pause_nothing: "script p = [] # rest \<Longrightarrow> during_pause p = p\<lparr>script := rest\<rparr>"
  by (simp add: during_pause_def)

lemma heiz_send [simp]:
  "block_type p = EDS_heiz_page_BLOCK_ID \<Longrightarrow> panel_send prio f p = say [Bus prio f] p"
  by (simp add: panel_send_def Let_def block_type_def say_def)

lemma say_sel [simp]:
  "block_type (say os p) = block_type p" "script (say os p) = script p" "self_addr (say os p) = self_addr p"
  "heiz_configured (say os p) = heiz_configured p"
  "heiz_details_heiz_id (say os p) = heiz_details_heiz_id p"
  "heiz_details_expected (say os p) = heiz_details_expected p" "heiz_details_mode (say os p) = heiz_details_mode p"
  "heiz_details_rate (say os p) = heiz_details_rate p" "heiz_details_dauer (say os p) = heiz_details_dauer p"
  "heiz_details_Tsoll (say os p) = heiz_details_Tsoll p" "heiz_details_Tist (say os p) = heiz_details_Tist p"
  by (simp_all add: say_def block_type_def)

lemma heating_asked:
  assumes pg: "block_type p = EDS_heiz_page_BLOCK_ID" and mon: "heiz_configured p = 0"
    and f1: "hauselektrik_accepts (self_addr p) f1" "byte_at f1 1 = HCAN_HES_HEIZUNG_MODE_THERMOSTAT_DETAILS"
      "byte_at f1 2 = hid"
    and f2: "hauselektrik_accepts (self_addr p) f2" "byte_at f2 1 = HCAN_HES_HEIZUNG_TIST_REPLAY" "byte_at f2 2 = hid"
    and scr: "script p = (if answered then [HeardFrame f1] else []) # [HeardFrame f2] # rest"
  shows "snd (get_heiz_details during_pause hid p) = Some
    (if answered
     then \<lparr>hv_mode = HEIZUNG_MODE_THERMOSTAT, hv_rate = heiz_details_rate p,
           hv_Tsoll = mk16 (byte_at f1 3) (byte_at f1 4), hv_dauer = mk16 (byte_at f1 5) (byte_at f1 6),
           hv_Tist = mk16 (byte_at f2 3) (byte_at f2 4)\<rparr>
     else \<lparr>hv_mode = heiz_details_mode p, hv_rate = heiz_details_rate p, hv_Tsoll = 0,
           hv_dauer = heiz_details_dauer p, hv_Tist = mk16 (byte_at f2 3) (byte_at f2 4)\<rparr>)" (is ?answers)
    "log (fst (get_heiz_details during_pause hid p)) = log p @
       [Bus HCAN_PRIO_HI (panel_message p [HCAN_HES_HEIZUNG_DETAILS_REQUEST, hid]), Nap 5,
        Bus HCAN_PRIO_HI (panel_message p [HCAN_HES_HEIZUNG_TIST_REQUEST, hid]), Nap 5]" (is ?requests)
proof -
  define q where "q = (if answered then heiz_page_can_callback f1 else (\<lambda>p. p))
     ((say [Nap 5] ((say [Bus HCAN_PRIO_HI (panel_message p [HCAN_HES_HEIZUNG_DETAILS_REQUEST, hid])]
        (p\<lparr>heiz_details_heiz_id := hid, heiz_details_Tsoll := 0\<rparr>))
        \<lparr>heiz_details_expected := 1\<rparr>))\<lparr>script := [HeardFrame f2] # rest\<rparr>)"
  have q: "block_type q = EDS_heiz_page_BLOCK_ID" "script q = [HeardFrame f2] # rest" "self_addr q = self_addr p"
    "heiz_details_heiz_id q = hid" "heiz_details_rate q = heiz_details_rate p"
    "heiz_details_mode q = (if answered then HEIZUNG_MODE_THERMOSTAT else heiz_details_mode p)"
    "heiz_details_Tsoll q = (if answered then mk16 (byte_at f1 3) (byte_at f1 4) else 0)"
    "heiz_details_dauer q = (if answered then mk16 (byte_at f1 5) (byte_at f1 6) else heiz_details_dauer p)"
    "log q = log p @ [Bus HCAN_PRIO_HI (panel_message p [HCAN_HES_HEIZUNG_DETAILS_REQUEST, hid]), Nap 5]"
    using pg f1 by (simp_all add: q_def heiz_page_can_callback_def block_type_def say_def Let_def)
  have 1: "nap during_pause 5 ((panel_send HCAN_PRIO_HI (panel_message p [HCAN_HES_HEIZUNG_DETAILS_REQUEST, hid])
      (p\<lparr>heiz_details_heiz_id := hid, heiz_details_Tsoll := 0\<rparr>))\<lparr>heiz_details_expected := 1\<rparr>) = q"
    using pg mon scr f1
    by (auto simp: q_def nap_def during_pause_frame during_pause_nothing heiz_page_hears
        block_type_def say_def panel_send_def Let_def)
  have pm: "panel_message (p\<lparr>heiz_details_heiz_id := hid, heiz_details_Tsoll := 0\<rparr>) = panel_message p"
    by (rule ext) (simp add: panel_message_def)
  define r where "r = heiz_page_can_callback f2 ((say [Nap 5] ((say [Bus HCAN_PRIO_HI
     (panel_message q [HCAN_HES_HEIZUNG_TIST_REQUEST, hid])] q)\<lparr>heiz_details_expected := 2\<rparr>))\<lparr>script := rest\<rparr>)"
  have 2: "nap during_pause 5 ((panel_send HCAN_PRIO_HI (panel_message q [HCAN_HES_HEIZUNG_TIST_REQUEST, hid]) q)
      \<lparr>heiz_details_expected := 2\<rparr>) = r"
    using q f2 by (simp add: r_def nap_def during_pause_frame heiz_page_hears block_type_def say_def
        panel_send_def Let_def)
  have r: "heiz_details_expected r = 0" "heiz_details_mode r = heiz_details_mode q"
    "heiz_details_rate r = heiz_details_rate q" "heiz_details_Tsoll r = heiz_details_Tsoll q"
    "heiz_details_dauer r = heiz_details_dauer q" "heiz_details_Tist r = mk16 (byte_at f2 3) (byte_at f2 4)"
    "log r = log q @ [Bus HCAN_PRIO_HI (panel_message q [HCAN_HES_HEIZUNG_TIST_REQUEST, hid]), Nap 5]"
    using q f2 by (simp_all add: r_def heiz_page_can_callback_def say_def Let_def)
  have "get_heiz_details during_pause hid p = (r\<lparr>heiz_details_heiz_id := 0\<rparr>, Some \<lparr>hv_mode = heiz_details_mode r,
     hv_rate = heiz_details_rate r, hv_Tsoll = heiz_details_Tsoll r, hv_dauer = heiz_details_dauer r,
     hv_Tist = heiz_details_Tist r\<rparr>)"
    unfolding get_heiz_details_def Let_def pm 1 2 using r(1) by simp
  moreover have "panel_message q bs = panel_message p bs" for bs using q(3) by (simp add: panel_message_def)
  ultimately show ?answers ?requests using r q by simp_all
qed

text \<open>
  The page of a heating asks twice, for the mode and for the temperature. With
  both answers it shows the values of the answers. But what it is waiting for is overwritten by the
  second request, so that the answer to the first may be missing: then
  the page shows the mode, the rate and the duration of the heating it displayed before, with a
  set temperature of 0, and no error.
\<close>

theorem heating_values_asked:
  assumes pg: "block_type p = EDS_heiz_page_BLOCK_ID" and mon: "heiz_configured p = 0"
    and det: "det = [HeardFrame (heiz_reply a1 [HCAN_HES_HEIZUNG_MODE_THERMOSTAT_DETAILS, hid, t1, t2, d1, d2])]"
    and scr: "script p = (if answered then det else []) #
        [HeardFrame (heiz_reply a2 [HCAN_HES_HEIZUNG_TIST_REPLAY, hid, i1, i2])] # rest"
  shows "snd (get_heiz_details during_pause hid p) = Some
    (if answered
     then \<lparr>hv_mode = HEIZUNG_MODE_THERMOSTAT, hv_rate = heiz_details_rate p, hv_Tsoll = mk16 t1 t2,
           hv_dauer = mk16 d1 d2, hv_Tist = mk16 i1 i2\<rparr>
     else \<lparr>hv_mode = heiz_details_mode p, hv_rate = heiz_details_rate p, hv_Tsoll = 0,
           hv_dauer = heiz_details_dauer p, hv_Tist = mk16 i1 i2\<rparr>)"
  using heating_asked(1) [OF pg mon heiz_reply_accepted _ _ heiz_reply_accepted _ _ scr [unfolded det]]
  by (simp add: heiz_reply_def)

theorem heating_values_asked_witness:
  "\<exists>p. block_type p = EDS_heiz_page_BLOCK_ID \<and> heiz_details_mode p = HEIZUNG_MODE_AUTOMATIK \<and>
     script p = [[], [HeardFrame (heiz_reply 50 [HCAN_HES_HEIZUNG_TIST_REPLAY, 9, 1, 64])]] \<and>
     snd (get_heiz_details during_pause 9 p) = Some \<lparr>hv_mode = HEIZUNG_MODE_AUTOMATIK, hv_rate = 0,
       hv_Tsoll = 0, hv_dauer = 0, hv_Tist = 320\<rparr>"
proof -
  define p where "p = (panel_reset ATmega32 801 (replicate 8 0) (\<lambda>_. 0)
      [[], [HeardFrame (heiz_reply 50 [HCAN_HES_HEIZUNG_TIST_REPLAY, 9, 1, 64])]])
     \<lparr>active_page := (\<lambda>i. if i = 0 then EDS_heiz_page_BLOCK_ID else 0), heiz_configured := 0,
      heiz_details_mode := HEIZUNG_MODE_AUTOMATIK\<rparr>"
  have h: "block_type p = EDS_heiz_page_BLOCK_ID" "heiz_configured p = 0"
    "script p = (if False then [HeardFrame (heiz_reply 50 [HCAN_HES_HEIZUNG_MODE_THERMOSTAT_DETAILS, 9, 0, 0, 0, 0])] else []) #
       [HeardFrame (heiz_reply 50 [HCAN_HES_HEIZUNG_TIST_REPLAY, 9, 1, 64])] # []"
    by (simp_all add: p_def panel_reset_def block_type_def)
  from heating_values_asked [OF h(1,2) refl h(3)]
  have "snd (get_heiz_details during_pause 9 p) = Some \<lparr>hv_mode = HEIZUNG_MODE_AUTOMATIK, hv_rate = 0,
       hv_Tsoll = 0, hv_dauer = 0, hv_Tist = 320\<rparr>"
    by (simp add: p_def panel_reset_def mk16_def)
  then show ?thesis using h by (intro exI [of _ p]) (simp add: p_def panel_reset_def)
qed

section \<open>The key OK on the page of an output\<close>

lemma sdiv_nat: "int n sdiv 60 = int (n div 60)"
  by (cases "n = 0") (simp_all add: signed_divide_int_def sgn_if zdiv_int)

lemma timer_minutes_nat:
  assumes "unat (mk16 h l) + 30 < 32768"
  shows "shown_minutes h l = of_nat ((unat (mk16 h l) + 30) div 60)"
proof -
  let ?w = "mk16 h l + 30"
  have "unat ?w = unat (mk16 h l) + 30" using assms by (simp add: unat_word_ariths)
  then have u: "uint ?w = int (unat (mk16 h l) + 30)" by (metis uint_nat)
  have "int (unat (mk16 h l) + 30) < 32768" using assms by linarith
  then have "sint ?w = int (unat (mk16 h l) + 30)" unfolding sint_u16 u by (simp only: if_True)
  then show ?thesis unfolding shown_minutes_def by (simp only: sdiv_nat of_int_of_nat_eq)
qed

lemma shifted_mod: "n < 256 \<Longrightarrow> (int n + 128) mod 256 - 128 = (if n < 128 then int n else int n - 256)"
proof (cases "n < 128")
  case False
  assume "n < 256"
  have e: "int n + 128 = (int n - 128) + 256" by arith
  have "(int n + 128) mod 256 = (int n - 128) mod 256" unfolding e by (rule mod_add_self2)
  also have "\<dots> = int n - 128" using False \<open>n < 256\<close> by (intro mod_pos_pos_trivial) linarith+
  finally show ?thesis using False by simp
qed simp

lemma sint_u8: "sint (w :: u8) = (if unat w < 128 then int (unat w) else int (unat w) - 256)"
proof -
  have "sint w = (uint w + 128) mod 256 - 128"
    by (simp add: sint_uint signed_take_bit_eq_take_bit_shift take_bit_eq_mod)
  then have "sint w = (int (unat w) + 128) mod 256 - 128" by (metis uint_nat)
  then show ?thesis unfolding shifted_mod [OF unat_u8_less] .
qed

text \<open>
  The key OK on the page of an output that is on: while its timer runs, the message that
  stops the timer is sent and the output stays on; otherwise the message that switches it off. The
  minutes the reply announced are kept in eight bits with a sign, so a timer
  of 128 to 255 minutes is displayed as a negative one and OK switches the output off, and the timer
  of exactly 256 minutes counts as expired.
\<close>

theorem ok_on_running_output:
  assumes f: "proto f = HCAN_PROTO_SFP" "byte_at f 0 = HCAN_SRV_HES" "byte_at f 1 = HCAN_HES_POWER_GROUP_TIMER_REPLAY"
      "byte_at f 2 = page_byte p 5" "mk16 (byte_at f 3) (byte_at f 4) = t" "t \<noteq> 0" "unat t + 30 < 32768"
    and p: "powerport_page_state p = 1" "block_type p = EDS_powerport_page_BLOCK_ID"
  shows "\<exists>q. powerport_page_handle_key_down_event (\<lambda>p. p) KEY_OK (powerport_page_can_callback f p) =
      powerport_page_print_page (\<lambda>p. p) (nap (\<lambda>p. p) 5 (lcdctrl_blink (\<lambda>p. p) q)) \<and>
    log q = log (powerport_page_can_callback f p) @ [Bus HCAN_PRIO_HI (panel_message p
      (if ((unat t + 30) div 60) mod 256 \<in> {1..127}
       then [HCAN_HES_POWER_GROUP_SET_TIMER, page_byte p 5, 0, 0] else [HCAN_HES_POWER_GROUP_OFF, page_byte p 5]))]"
proof -
  let ?m = "(unat t + 30) div 60"
  have nz: "\<not> (byte_at f 3 = 0 \<and> byte_at f 4 = 0)"
    using f(5,6) by (auto simp: mk16_def)
  define r where "r = powerport_page_can_callback f p"
  have r: "powerport_page_timer r = of_nat ?m" "powerport_page_state r = 1" "page_byte r i = page_byte p i"
    "self_addr r = self_addr p" "block_type r = EDS_powerport_page_BLOCK_ID" for i
    using f p nz timer_minutes_nat [of "byte_at f 3" "byte_at f 4"]
    by (auto simp: r_def powerport_page_can_callback_def Let_def lcd_print_def say_def page_byte_def block_type_def)
  have u: "unat (powerport_page_timer r) = ?m mod 256" unfolding r(1) by (simp add: unat_of_nat)
  have pos: "0 < (if n < 128 then int n else int n - 256) \<longleftrightarrow> n \<in> {1..127}" if "n < 256" for n
    using that by auto
  have "sint (powerport_page_timer r) > 0 \<longleftrightarrow> ?m mod 256 \<in> {1..127}"
    unfolding sint_u8 u by (rule pos) simp
  moreover have "panel_message r = panel_message p" by (rule ext) (simp add: panel_message_def r)
  moreover have "panel_send pr g r = say [Bus pr g] r" for pr g
    using r(5) by (simp add: panel_send_def Let_def block_type_def say_def)
  ultimately show ?thesis
    unfolding r_def [symmetric] using r
    by (intro exI [of _ "panel_send HCAN_PRIO_HI (panel_message p
      (if ?m mod 256 \<in> {1..127}
       then [HCAN_HES_POWER_GROUP_SET_TIMER, page_byte p 5, 0, 0] else [HCAN_HES_POWER_GROUP_OFF, page_byte p 5])) r"])
      (simp add: powerport_page_handle_key_down_event_def say_def)
qed


theorem ok_on_running_output_witness:
  "\<exists>p f q. mk16 (byte_at f 3) (byte_at f 4) = 7800 \<and>
    powerport_page_handle_key_down_event (\<lambda>p. p) KEY_OK (powerport_page_can_callback f p) =
      powerport_page_print_page (\<lambda>p. p) (nap (\<lambda>p. p) 5 (lcdctrl_blink (\<lambda>p. p) q)) \<and>
    log q = log (powerport_page_can_callback f p) @
      [Bus HCAN_PRIO_HI (panel_message p [HCAN_HES_POWER_GROUP_OFF, 9])]"
proof -
  define f where "f = heiz_reply 50 [HCAN_HES_POWER_GROUP_TIMER_REPLAY, 9, 0x1e, 0x78]"
  define p where "p = (panel_reset ATmega32 801 (replicate 8 0) (\<lambda>_. 0) [])
     \<lparr>active_page := (\<lambda>i. if i = 0 then EDS_powerport_page_BLOCK_ID else if i = 7 then 9 else 0),
      powerport_page_state := 1\<rparr>"
  have f: "proto f = HCAN_PROTO_SFP" "byte_at f 0 = HCAN_SRV_HES" "byte_at f 1 = HCAN_HES_POWER_GROUP_TIMER_REPLAY"
    "byte_at f 2 = page_byte p 5" "mk16 (byte_at f 3) (byte_at f 4) = 7800"
    by (simp_all add: f_def heiz_reply_def p_def page_byte_def mk16_def)
  have p: "powerport_page_state p = 1" "block_type p = EDS_powerport_page_BLOCK_ID" "page_byte p 5 = 9"
    by (simp_all add: p_def block_type_def page_byte_def)
  show ?thesis
    using ok_on_running_output [OF f _ _ p(1,2)] f(5) p(3) by auto
qed

end
