(* ===== verification/House.thy ===== *)
theory House
  imports Panel_Dialogs Heizung Reedkontakt Zeitschaltuhr Powerport
begin

text \<open>
  Devices that work together over the bus: a window contact and a heating, a time switch or the
  panel and the outputs they switch, and the panel and the heating whose values it sets and
  shows. Each system is a composition of the devices' own handlers; the bus
  delivers the frames of a handler in their order before the next handler runs.
\<close>

section \<open>A window and a heating\<close>

text \<open>
  A second: the contact's timer handler runs, the heating hears what the contact says and what
  others say, and its own timer handler runs.
\<close>

definition window_second ::
  "input_env \<times> board_env \<times> canix_frame list \<Rightarrow> device_data_reedkontakt \<times> device_data_heizung
   \<Rightarrow> device_data_reedkontakt \<times> device_data_heizung" where
  "window_second = (\<lambda>(ei, eb, fs) (r, h).
     (let (r', os) = reedkontakt_timer_handler ei r 1;
          h = fold (\<lambda>f h. fst (heizung_can_callback eb h f)) (sent_frames os @ fs) h
      in (r', fst (heizung_timer_handler eb h 1))))"

lemma frames_keep:
  "c_reeds (device_data_heizung.config (fold (\<lambda>f h. fst (heizung_can_callback e h f)) fs h)) = c_reeds (device_data_heizung.config h)"
  "heizung_config.c_id (device_data_heizung.config (fold (\<lambda>f h. fst (heizung_can_callback e h f)) fs h)) = heizung_config.c_id (device_data_heizung.config h)"
  "heizung_config.c_port (device_data_heizung.config (fold (\<lambda>f h. fst (heizung_can_callback e h f)) fs h)) = heizung_config.c_port (device_data_heizung.config h)"
  "ventilpflege_counter (fold (\<lambda>f h. fst (heizung_can_callback e h f)) fs h) = ventilpflege_counter h"
  by (induction fs arbitrary: h) simp_all

lemma frames_gesperrt:
  "gesperrt hid port n h \<Longrightarrow> gesperrt hid port n (fold (\<lambda>f h. fst (heizung_can_callback e h f)) fs h)"
  by (induction fs arbitrary: h) (simp_all add: gesperrt_frame)

text \<open>The message of the contact starts the heating stop anew.\<close>

lemma open_message_stops:
  assumes "byte_at f 1 = HCAN_HES_REEDKONTAKT_OFFEN" "byte_at f 2 \<in> set (c_reeds (device_data_heizung.config h))"
    and "ventilpflege_counter h = 0"
  shows "gesperrt (heizung_config.c_id (device_data_heizung.config h)) (heizung_config.c_port (device_data_heizung.config h)) 0
    (fst (heizung_can_callback e h f))"
    "gesperrt hid port n h \<Longrightarrow> n < 60 \<Longrightarrow> gesperrt hid port (min n 2) (fst (heizung_can_callback e h f))"
  using assms by (auto simp: gesperrt_def heizung_frame_reed min_def)

text \<open>The window has been open for \<open>j\<close> seconds; the contact's counter was \<open>T\<close> at their begin.\<close>

definition window_open :: "nat \<Rightarrow> nat \<Rightarrow> u8 \<Rightarrow> u8 \<Rightarrow> u8 \<Rightarrow> device_data_reedkontakt \<times> device_data_heizung \<Rightarrow> bool" where
  "window_open T j hid port grp = (\<lambda>(r, h).
     c_gruppe (device_data_reedkontakt.config r) = grp \<and> c_modus (device_data_reedkontakt.config r) \<noteq> 0 \<and>
     grp \<in> set (c_reeds (device_data_heizung.config h)) \<and> heizung_config.c_id (device_data_heizung.config h) = hid \<and>
     heizung_config.c_port (device_data_heizung.config h) = port \<and> ventilpflege_counter h = 0 \<and>
     (if j \<le> T then unat (device_data_reedkontakt.timer_counter r) = T - j
      else \<exists>n. gesperrt hid port n h \<and> min 2 (j - T) \<le> n \<and> n + unat (device_data_reedkontakt.timer_counter r) \<le> 8))"

lemma window_second_contact: "fst (window_second (ei, eb, fs) (r, h)) = fst (reedkontakt_timer_handler ei r 1)"
  by (simp add: window_second_def case_prod_beta Let_def)

lemma window_second_open:
  assumes "window_open T j hid port grp (r, h)" and "is_open ei r" and "\<not> pflegezeit (board_clock eb) hid"
  shows "window_open T (Suc j) hid port grp (window_second (ei, eb, fs) (r, h))"
proof -
  let ?r = "fst (reedkontakt_timer_handler ei r 1)" and ?s = "sent_frames (snd (reedkontakt_timer_handler ei r 1))"
  define g where "g = fold (\<lambda>f h. fst (heizung_can_callback eb h f)) (?s @ fs) h"
  have st: "c_gruppe (device_data_reedkontakt.config r) = grp" "c_modus (device_data_reedkontakt.config r) \<noteq> 0"
    "grp \<in> set (c_reeds (device_data_heizung.config h))" "heizung_config.c_id (device_data_heizung.config h) = hid"
    "heizung_config.c_port (device_data_heizung.config h) = port" "ventilpflege_counter h = 0"
    using assms(1) by (simp_all add: window_open_def)
  note r = open_second [OF assms(2) st(2)]
  have w: "window_second (ei, eb, fs) (r, h) = (?r, hz_tick eb g)"
    by (simp add: window_second_def g_def case_prod_beta Let_def)
  have g: "c_reeds (device_data_heizung.config g) = c_reeds (device_data_heizung.config h)"
      "heizung_config.c_id (device_data_heizung.config g) = hid" "heizung_config.c_port (device_data_heizung.config g) = port"
      "ventilpflege_counter g = 0"
    using st by (simp_all only: g_def frames_keep)
  have v: "ventilpflege_counter (hz_tick eb g) = 0"
    using assms(3) g by (simp add: tick_start_care)
  have m: "gesperrt hid port (min n 2) g" if "device_data_reedkontakt.timer_counter r = 0" "gesperrt hid port n h" "n < 60" for n
  proof -
    from r(4) [OF that(1)] obtain xs f ys where s: "?s = xs @ f # ys"
      and f: "f = hes_message (in_self ei) HCAN_MULTICAST_INFO [HCAN_HES_REEDKONTAKT_OFFEN, grp]"
      using st(1) by (metis split_list)
    define k where "k = fold (\<lambda>f h. fst (heizung_can_callback eb h f)) xs h"
    have k: "grp \<in> set (c_reeds (device_data_heizung.config k))" "ventilpflege_counter k = 0" "gesperrt hid port n k"
      using st that by (simp_all add: k_def frames_keep frames_gesperrt)
    have "gesperrt hid port (min n 2) (fst (heizung_can_callback eb k f))"
      by (rule open_message_stops(2)) (use k that f in simp_all)
    then show ?thesis by (simp add: g_def s k_def frames_gesperrt)
  qed
  have m0: "gesperrt hid port 0 g" if "device_data_reedkontakt.timer_counter r = 0"
  proof -
    from r(4) [OF that(1)] obtain xs f ys where s: "?s = xs @ f # ys"
      and f: "f = hes_message (in_self ei) HCAN_MULTICAST_INFO [HCAN_HES_REEDKONTAKT_OFFEN, grp]"
      using st(1) by (metis split_list)
    define k where "k = fold (\<lambda>f h. fst (heizung_can_callback eb h f)) xs h"
    have k: "grp \<in> set (c_reeds (device_data_heizung.config k))" "ventilpflege_counter k = 0"
        "heizung_config.c_id (device_data_heizung.config k) = hid" "heizung_config.c_port (device_data_heizung.config k) = port"
      using st that by (simp_all add: k_def frames_keep)
    have "gesperrt hid port 0 (fst (heizung_can_callback eb k f))"
      using open_message_stops(1) [of f k eb] k f by simp
    then show ?thesis by (simp add: g_def s k_def frames_gesperrt)
  qed
  have "if Suc j \<le> T then unat (device_data_reedkontakt.timer_counter ?r) = T - Suc j
      else \<exists>n. gesperrt hid port n (hz_tick eb g) \<and> min 2 (Suc j - T) \<le> n \<and> n + unat (device_data_reedkontakt.timer_counter ?r) \<le> 8"
  proof (cases "j < T")
    case True
    then have "unat (device_data_reedkontakt.timer_counter r) = T - j" using assms(1) by (simp add: window_open_def)
    moreover from this True have "device_data_reedkontakt.timer_counter r \<noteq> 0" by auto
    ultimately show ?thesis using True r(2) by simp
  next
    case False
    show ?thesis
    proof (cases "device_data_reedkontakt.timer_counter r = 0")
      case True
      show ?thesis
      proof (cases "j = T")
        case True
        then show ?thesis
          using gesperrt_tick [OF m0 [OF \<open>device_data_reedkontakt.timer_counter r = 0\<close>] _ assms(3)] r(2)
            \<open>device_data_reedkontakt.timer_counter r = 0\<close> by (auto intro!: exI [of _ 1])
      next
        case ne: False
        then obtain n where n: "gesperrt hid port n h" "min 2 (j - T) \<le> n" "n \<le> 8"
          using assms(1) False by (auto simp: window_open_def)
        from gesperrt_tick [OF m [OF True n(1)] _ assms(3)] n ne False True r(2)
        show ?thesis by (auto intro!: exI [of _ "Suc (min n 2)"])
      qed
    next
      case t: False
      then have "unat (device_data_reedkontakt.timer_counter r) \<noteq> 0" by (simp add: unat_eq_zero)
      with False assms(1) obtain n where "j \<noteq> T" "gesperrt hid port n h" "min 2 (j - T) \<le> n"
          "n + unat (device_data_reedkontakt.timer_counter r) \<le> 8"
        by (cases "j = T") (auto simp: window_open_def)
      moreover from this have "gesperrt hid port n g" by (simp add: g_def frames_gesperrt)
      ultimately show ?thesis
        using gesperrt_tick [of hid port n g eb] assms(3) r(2) t False
          \<open>unat (device_data_reedkontakt.timer_counter r) \<noteq> 0\<close> by (auto intro!: exI [of _ "Suc n"])
    qed
  qed
  then show ?thesis using st r(1) g v by (simp add: w window_open_def)
qed


lemma window_seconds_open:
  assumes "\<forall>(ei, eb, fs) \<in> set es. is_open ei r \<and> \<not> pflegezeit (board_clock eb) hid"
    and "window_open (unat (device_data_reedkontakt.timer_counter r)) 0 hid port grp (r, h)"
  shows "window_open (unat (device_data_reedkontakt.timer_counter r)) (length es) hid port grp (fold window_second es (r, h)) \<and>
    device_data_reedkontakt.config (fst (fold window_second es (r, h))) = device_data_reedkontakt.config r"
  using assms(1)
proof (induction es rule: rev_induct)
  case Nil
  then show ?case using assms(2) by simp
next
  case (snoc e es)
  obtain ei eb fs where e: "e = (ei, eb, fs)" by (cases e)
  obtain r' h' where s: "fold window_second es (r, h) = (r', h')" by fastforce
  have o: "is_open ei r'" "c_modus (device_data_reedkontakt.config r') \<noteq> 0"
    using snoc s e by (auto simp: is_open_def window_open_def)
  have "\<not> pflegezeit (board_clock eb) hid" using snoc.prems e by auto
  with snoc s e window_second_open [of _ _ hid port grp r' h' ei eb fs] o(1) open_second(1) [OF o]
  show ?case by (simp add: window_second_contact)
qed

section \<open>Orders and an output\<close>

text \<open>
  An output that is switched at once: no delay, no automatic switch-off, no run-on time, no
  bistable relay, not muted, and no alarm is set.
\<close>

definition direct_output :: "powerport_config \<Rightarrow> device_data_powerport \<Rightarrow> bool" where
  "direct_output c p \<longleftrightarrow> device_data_powerport.config p = c \<and> c_feature c = 0 \<and> \<not> mute p"

definition hears_all :: "u16 \<Rightarrow> canix_frame list \<Rightarrow> device_data_powerport \<Rightarrow> device_data_powerport" where
  "hears_all self fs p = fold (\<lambda>f p. fst (powerport_can_callback self p f)) fs p"

definition group_order :: "canix_frame \<Rightarrow> bool" where
  "group_order f \<longleftrightarrow> byte_at f 1 = HCAN_HES_POWER_GROUP_ON \<or> byte_at f 1 = HCAN_HES_POWER_GROUP_OFF"

lemma test_bit_0 [simp]: "\<not> test_bit 0 n"
  by (simp add: test_bit_def)

lemma direct_output_switch:
  assumes "direct_output c p" and "group_order f"
  shows "fst (powerport_can_callback self p f) =
    (if is_in_group p (byte_at f 2)
     then p\<lparr>pins := (pins p)(c_port c := (byte_at f 1 = HCAN_HES_POWER_GROUP_ON)), countDownTimer := 0\<rparr> else p)"
proof -
  have p: "device_data_powerport.config p = c" "\<not> feature p n" "\<not> mute p" for n
    using assms(1) by (simp_all add: direct_output_def feature_def)
  have m: "powerport_mute q f = q" for q
    using assms(2) by (auto simp: powerport_mute_def group_order_def)
  have o: "powerport_other_frame self p f = (p, [])"
    using assms(2) by (auto simp: powerport_other_frame_def group_order_def Let_def)
  consider "byte_at f 1 = HCAN_HES_POWER_GROUP_ON" | "byte_at f 1 = HCAN_HES_POWER_GROUP_OFF"
    using assms(2) by (auto simp: group_order_def)
  then show ?thesis
    by cases (simp_all add: powerport_can_callback_def m o powerport_group_frame_def p set_powerport_or_timer_def
      powerport_on_def powerport_off_def setpin_def Let_def)
qed

lemma direct_output_order:
  assumes "direct_output c p" and "group_order f"
  shows "direct_output c (fst (powerport_can_callback self p f))"
    "powerport_get (fst (powerport_can_callback self p f)) =
      (if is_in_group p (byte_at f 2) then byte_at f 1 = HCAN_HES_POWER_GROUP_ON else powerport_get p)"
  using assms(1) unfolding direct_output_switch [OF assms]
  by (simp_all add: direct_output_def powerport_get_def feature_def)


lemma direct_output_group: "direct_output c p \<Longrightarrow>
   is_in_group p g \<longleftrightarrow> g \<noteq> 255 \<and> g \<in> {c_gruppe0 c, c_gruppe1 c, c_gruppe2 c}"
  by (auto simp: direct_output_def is_in_group_def)

text \<open>Orders for one group: the last one counts. Orders to switch off: once off, an output stays off.\<close>

lemma hears_all_orders:
  assumes "direct_output c p" and "is_in_group p g"
    and "\<forall>f \<in> set fs. group_order f \<and> byte_at f 2 = g"
  shows "powerport_get (hears_all self fs p) = last_order (powerport_get p) fs"
  using assms
proof (induction fs arbitrary: p)
  case (Cons f fs)
  from Cons.prems have f: "group_order f" "byte_at f 2 = g" by simp_all
  note d = direct_output_order [OF Cons.prems(1) f(1), of self]
  have "powerport_get (hears_all self fs (fst (powerport_can_callback self p f))) =
      last_order (powerport_get (fst (powerport_can_callback self p f))) fs"
    using Cons.prems d(1) by (intro Cons.IH) (simp_all add: direct_output_group)
  then show ?case using Cons.prems(2) f(2) d(2) by (simp add: hears_all_def)
qed (simp add: hears_all_def)

lemma hears_all_off:
  assumes "direct_output c p" and "\<forall>f \<in> set fs. byte_at f 1 = HCAN_HES_POWER_GROUP_OFF"
  shows "powerport_get (hears_all self fs p) \<longleftrightarrow> powerport_get p \<and> (\<forall>f \<in> set fs. \<not> is_in_group p (byte_at f 2))"
  using assms
proof (induction fs arbitrary: p)
  case (Cons f fs)
  from Cons.prems have f: "group_order f" "byte_at f 1 = HCAN_HES_POWER_GROUP_OFF" by (simp_all add: group_order_def)
  let ?q = "fst (powerport_can_callback self p f)"
  note d = direct_output_order [OF Cons.prems(1) f(1), of self]
  have "powerport_get (hears_all self fs ?q) \<longleftrightarrow> powerport_get ?q \<and> (\<forall>f \<in> set fs. \<not> is_in_group ?q (byte_at f 2))"
    using Cons.prems d(1) by (intro Cons.IH) simp_all
  then show ?case using d(2) f(2) direct_output_group [OF d(1)] direct_output_group [OF Cons.prems(1)]
    by (auto simp: hears_all_def)
qed (simp add: hears_all_def)

text \<open>The orders of the time switch.\<close>

lemma zsu_second_orders:
  "f \<in> set (sent_frames (snd (zeitschaltuhr_timer_handler e z 1))) \<Longrightarrow>
   group_order f \<and> byte_at f 2 = c_power_gruppe (device_data_zeitschaltuhr.config z)"
  by (auto simp: zeitschaltuhr_timer_handler_def zsu_sendMessage_def zsu_order_def group_order_def Let_def
      split: if_splits)

lemma zsu_seconds_orders:
  "automatikEin z \<Longrightarrow> f \<in> set (sent_frames (snd (zsu_seconds es z))) \<Longrightarrow>
   group_order f \<and> byte_at f 2 = c_power_gruppe (device_data_zeitschaltuhr.config z)"
proof (induction es arbitrary: z)
  case (Cons e es)
  let ?z = "fst (zeitschaltuhr_timer_handler e z 1)"
  from Cons.prems(2) consider "f \<in> set (sent_frames (snd (zeitschaltuhr_timer_handler e z 1)))"
    | "f \<in> set (sent_frames (snd (zsu_seconds es ?z)))"
    by auto
  then show ?case
  proof cases
    case 2
    from Cons.IH [OF zsu_second(2) [OF Cons.prems(1)] this] show ?thesis
      by (simp add: zsu_second(3) [OF Cons.prems(1)])
  qed (rule zsu_second_orders)
qed simp

text \<open>What the panel puts on the bus.\<close>

definition bus_frames :: "panel_out list \<Rightarrow> canix_frame list" where
  "bus_frames os = concat (map (\<lambda>x. case x of Bus prio f \<Rightarrow> [f] | _ \<Rightarrow> []) os)"

lemma bus_frames_append [simp]: "bus_frames (xs @ ys) = bus_frames xs @ bus_frames ys"
  by (simp add: bus_frames_def)

lemma byte_at_panel_message [simp]: "byte_at (panel_message p bs) i = nth_default 0 (HCAN_SRV_HES # bs) i"
  by (simp add: panel_message_def)

section \<open>The panel and a heating\<close>

lemma thermostat_message:
  assumes "heiz_page_subpage p = 1 \<or> heiz_page_subpage p = 2"
    and "heiz_details_mode_edit p = 2"
  shows "heiz_edited_message p = panel_message p [HCAN_HES_HEIZUNG_SET_MODE_THERMOSTAT_DETAILS, page_byte p 12,
    hi8 (heiz_details_Tsoll_edit p), lo8 (heiz_details_Tsoll_edit p),
    hi8 (heiz_details_dauer_edit p), lo8 (heiz_details_dauer_edit p)]"
  using assms by (auto simp: heiz_edited_message_def Let_def)

text \<open>The answers of a heating in thermostat mode.\<close>

lemma heating_answers:
  assumes "byte_at f 2 = heizung_config.c_id (device_data_heizung.config h)"
  shows "byte_at f 1 = HCAN_HES_HEIZUNG_DETAILS_REQUEST \<Longrightarrow> mode h = heizung_mode.HEIZUNG_MODE_THERMOSTAT \<Longrightarrow>
      sent_frames (snd (heizung_can_callback e h f)) = [hes_message (self_addr e) (src f)
        [HCAN_HES_HEIZUNG_MODE_THERMOSTAT_DETAILS, heizung_config.c_id (device_data_heizung.config h),
         hi8 (thermostat_temp h), lo8 (thermostat_temp h), hi8 (duration_counter h), lo8 (duration_counter h)]]"
    "byte_at f 1 = HCAN_HES_HEIZUNG_TIST_REQUEST \<Longrightarrow>
      sent_frames (snd (heizung_can_callback e h f)) = [hes_message (self_addr e) (src f)
        [HCAN_HES_HEIZUNG_TIST_REPLAY, heizung_config.c_id (device_data_heizung.config h),
         hi8 (measure_value h), lo8 (measure_value h)]]"
  using assms by (simp_all add: heizung_can_callback_def heizung_send_details_def hes_answer_def Let_def)


lemma tick_keeps_values:
  "thermostat_temp (hz_tick e h) = thermostat_temp h" "measure_value (hz_tick e h) = measure_value h"
  unfolding hz_tick_parts before_ende_def by (simp_all add: tick_ende_def Let_def)

lemma seconds_keep_values:
  "thermostat_temp (hz_seconds es h) = thermostat_temp h" "measure_value (hz_seconds es h) = measure_value h"
  "device_data_heizung.config (hz_seconds es h) = device_data_heizung.config h"
  by (induction es rule: rev_induct) (simp_all add: tick_keeps_values)

end
