(* ===== verification/Host_Eds.thy ===== *)
theory Host_Eds
  imports Canix_Eds Texts
begin

text \<open>
  The host's side of the EEPROM data system: the connection to a board
  (\<^verbatim>\<open>src/libhcan++/eds_connection.cc\<close>), the description of the blocks and its check
  (\<^verbatim>\<open>eds_desc.h\<close>, \<^verbatim>\<open>eds_validation.cc\<close>). The board is the model of
  its EDS service, the messages are those the build makes from
  \<^verbatim>\<open>hcan-protocol.xml\<close> with \<^verbatim>\<open>mk_transport_cc.xsl\<close>, and the
  descriptions, which the code reads from \<^verbatim>\<open>eds.xml\<close> with an XML library, are an argument.
\<close>

section \<open>Descriptions and their check\<close>

record field_desc =
  f_datatype :: string
  f_name :: string
  f_pos :: nat
  f_size :: nat
  f_bits :: "(u8 \<times> string) list"

record block_desc =
  d_type :: u8
  d_name :: string
  d_size :: nat
  d_fields :: "field_desc list"

text \<open>
  The exceptions, with their texts. An \<^verbatim>\<open>eds_error\<close> is thrown through
  the reference \<open><<\<close> returns, and arrives as the class that returns it.
\<close>

definition quoted :: "string \<Rightarrow> string" where
  "quoted s = CHR 0x27 # s @ [CHR 0x27]"

datatype host_error = Traceable_Error string | Transport_Error string

definition what :: "host_error \<Rightarrow> string" where
  "what e = (case e of Traceable_Error s \<Rightarrow> s | Transport_Error s \<Rightarrow> s)"

text \<open>
  \<^verbatim>\<open>eds_check_block_descriptions\<close>: the fields of a block follow each other
  without a gap. The position of the last byte is kept in eight bits with a sign.
\<close>

definition int8 :: "int \<Rightarrow> int" where
  "int8 z = (z + 128) mod 256 - 128"

fun check_bits :: "string \<Rightarrow> string \<Rightarrow> int \<Rightarrow> (u8 \<times> string) list \<Rightarrow> host_error + unit" where
  "check_bits bn fn lastposbits [] = Inr ()"
| "check_bits bn fn lastposbits ((no, descr) # bits) =
     (if lastposbits = -1 \<and> no \<noteq> 0
      then Inl (Traceable_Error (''/usr/share/hcan/eds.xml: Attribut no startet nicht bei 0. (Block: '' @ bn @ '' Field: '' @ fn @
             '' Bit: '' @ show_nat (unat no) @ '')''))
      else if lastposbits \<noteq> -1 \<and> lastposbits \<noteq> uint no - 1
      then Inl (Traceable_Error (''/usr/share/hcan/eds.xml: Attribut no nicht aufsteigend. (Block: '' @ bn @ '' Field: '' @ fn @
             '' Bit: '' @ show_nat (unat no) @ '')''))
      else check_bits bn fn (int8 (uint no)) bits)"

fun check_fields :: "string \<Rightarrow> int \<Rightarrow> field_desc list \<Rightarrow> host_error + int" where
  "check_fields bn lastpos [] = Inr lastpos"
| "check_fields bn lastpos (f # fs) =
     (let pos = int (f_pos f) in
      if lastpos = -1 \<and> pos \<noteq> 0
      then Inl (Traceable_Error (''/usr/share/hcan/eds.xml: Attribut pos startet nicht bei 0. (Block: '' @ bn @
             '' Field: '' @ f_name f @ '')''))
      else if lastpos \<noteq> -1 \<and> lastpos \<noteq> pos - 1
      then Inl (Traceable_Error (''/usr/share/hcan/eds.xml: Attribut pos nicht aufsteigend. Bzw. Groesse von vorherigem Field stimmt nicht. (Block: ''
             @ bn @ '' Field: '' @ f_name f @ '')''))
      else (case check_bits bn (f_name f) (-1) (f_bits f) of
              Inl e \<Rightarrow> Inl e
            | Inr _ \<Rightarrow> check_fields bn
                (int8 (if f_datatype f = ''uint16_t'' then pos + 1
                       else if f_datatype f = ''char'' then pos + int (f_size f) - 1 else pos)) fs))"

fun eds_check_block_descriptions :: "block_desc list \<Rightarrow> host_error + unit" where
  "eds_check_block_descriptions [] = Inr ()"
| "eds_check_block_descriptions (b # bs) =
     (case check_fields (d_name b) (-1) (d_fields b) of
        Inl e \<Rightarrow> Inl e
      | Inr lastpos \<Rightarrow>
          if lastpos \<noteq> int (d_size b) - 1
          then Inl (Traceable_Error (''/usr/share/hcan/eds.xml: Block Groesse und Felder Anzahl bzw. Groessen stimmen nicht ueberein. (Block: ''
                 @ d_name b @ '')''))
          else eds_check_block_descriptions bs)"

section \<open>Messages\<close>

text \<open>
  A block as the host knows it, and a session: the addresses of host and board, the memory of the
  board, the frames the host's socket holds, the list of blocks, and what was printed.
\<close>

record host_block =
  b_address :: u16
  b_type :: u8
  b_size :: u8
  b_desc :: block_desc

record eds_session =
  h_mcu :: mcu
  h_src :: u16
  h_dst :: u16
  h_mem :: eeprom
  h_rx :: "canix_frame list"
  h_blocks :: "host_block list"
  h_out :: "string list"
  h_err :: "string list"

text \<open>An exception ends what follows; the state it was thrown in stays.\<close>

definition go_on :: "(host_error + 'a) \<times> 's \<Rightarrow> ('a \<Rightarrow> 's \<Rightarrow> (host_error + 'b) \<times> 's) \<Rightarrow> (host_error + 'b) \<times> 's" where
  "go_on r k = (case r of (Inl e, s) \<Rightarrow> (Inl e, s) | (Inr a, s) \<Rightarrow> k a s)"

lemma go_on_simps [simp]: "go_on (Inl e, s) k = (Inl e, s)" "go_on (Inr a, s) k = k a s"
  by (simp_all add: go_on_def)

text \<open>\<^verbatim>\<open>recv_frame\<close>: frames for others are skipped, at most 100000 frames are read.\<close>

fun recv_frame :: "nat \<Rightarrow> u16 \<Rightarrow> canix_frame list \<Rightarrow> (host_error + canix_frame) \<times> canix_frame list" where
  "recv_frame 0 d q = (Inl (Transport_Error ''timeout while waiting for packet''), q)"
| "recv_frame (Suc counter) d [] = (Inl (Transport_Error ''timeout while waiting for packet''), [])"
| "recv_frame (Suc counter) d (f # q) = (if dst f \<noteq> d then recv_frame counter d q else (Inr f, q))"

text \<open>The methods \<^verbatim>\<open>send_X\<close> and \<^verbatim>\<open>recv_X\<close> of the EDS service: the number of the message and the parameters.\<close>

definition eds_send :: "u8 \<Rightarrow> u8 list \<Rightarrow> eds_session \<Rightarrow> eds_session" where
  "eds_send cmd ps s =
     (let (m, os) = eds_can_callback (h_mcu s) (h_dst s) (h_mem s)
                      (mk_frame (h_src s) (h_dst s) HCAN_PROTO_SFP (HCAN_SRV_EDS # cmd # ps))
      in s\<lparr>h_mem := m, h_rx := h_rx s @ sent_frames os\<rparr>)"

definition eds_recv :: "u8 \<Rightarrow> nat \<Rightarrow> eds_session \<Rightarrow> (host_error + u8 list) \<times> eds_session" where
  "eds_recv cmd n s =
     (case recv_frame 100000 (h_src s) (h_rx s) of
        (Inl e, q) \<Rightarrow> (Inl e, s\<lparr>h_rx := q\<rparr>)
      | (Inr f, q) \<Rightarrow>
          (if h_dst s \<noteq> 0 \<and> src f \<noteq> h_dst s then Inl (Transport_Error ''unexpected packet received: src is wrong'')
           else if unat (fsize f) \<noteq> n + 2 then Inl (Transport_Error ''unexpected size in packet received'')
           else if byte_at f 0 \<noteq> HCAN_SRV_EDS then Inl (Transport_Error ''unexpected packet received: service id is wrong'')
           else if byte_at f 1 \<noteq> cmd then Inl (Transport_Error ''unexpected packet received: commmand id is wrong'')
           else Inr (map (\<lambda>i. byte_at f (i + 2)) [0..<n]),
           s\<lparr>h_rx := q\<rparr>))"

definition eds_ask :: "u8 \<Rightarrow> u8 list \<Rightarrow> nat \<Rightarrow> eds_session \<Rightarrow> (host_error + u8 list) \<times> eds_session" where
  "eds_ask cmd ps n s = eds_recv (cmd + 1) n (eds_send cmd ps s)"

definition read_from_block :: "u16 \<Rightarrow> nat \<Rightarrow> eds_session \<Rightarrow> (host_error + u8 list) \<times> eds_session" where
  "read_from_block a p s = eds_ask HCAN_EDS_READ_FROM_BLOCK [hi8 a, lo8 a, of_nat p] 4 s"

definition write_to_block :: "u16 \<Rightarrow> nat \<Rightarrow> u8 \<Rightarrow> eds_session \<Rightarrow> (host_error + u8 list) \<times> eds_session" where
  "write_to_block a p v s = eds_ask HCAN_EDS_WRITE_TO_BLOCK [hi8 a, lo8 a, of_nat p, v] 0 s"

section \<open>A block\<close>

definition get_block_desc_by_type :: "block_desc list \<Rightarrow> u8 \<Rightarrow> host_error + block_desc" where
  "get_block_desc_by_type descs type =
     (case find (\<lambda>i. d_type i = type) descs of Some i \<Rightarrow> Inr i
      | None \<Rightarrow> Inl (Traceable_Error (''eds block desc of type id '' @ show_nat (unat type) @ '' not found'')))"

definition get_block_field_desc_by_key :: "block_desc \<Rightarrow> string \<Rightarrow> host_error + field_desc" where
  "get_block_field_desc_by_key desc key =
     (case find (\<lambda>i. f_name i = key) (d_fields desc) of Some i \<Rightarrow> Inr i
      | None \<Rightarrow> Inl (Traceable_Error (''eds block field desc of '' @ quoted key @ '' not found'')))"

text \<open>The constructor with \<^verbatim>\<open>init\<close>.\<close>

definition eds_block :: "block_desc list \<Rightarrow> u16 \<Rightarrow> eds_session \<Rightarrow> (host_error + host_block) \<times> eds_session" where
  "eds_block descs a s =
     go_on (read_from_block a 0 s) (\<lambda>d s.
       (case get_block_desc_by_type descs (d ! 0) of
          Inl e \<Rightarrow> Inl e
        | Inr desc \<Rightarrow> Inr \<lparr>b_address = a, b_type = d ! 0, b_size = d ! 1, b_desc = desc\<rparr>, s))"

text \<open>A field of a type that is not, or that is, a text; the error names the method and the field.\<close>

definition number_field :: "host_block \<Rightarrow> string \<Rightarrow> string \<Rightarrow> host_error + field_desc" where
  "number_field b method key =
     (case get_block_field_desc_by_key (b_desc b) key of
        Inl e \<Rightarrow> Inl e
      | Inr f \<Rightarrow> if f_datatype f = ''char''
                 then Inl (Traceable_Error (''eds_block::'' @ method @ '': eds block field '' @ quoted key @ '' is type char[], not uint8_t''))
                 else Inr f)"

definition text_field :: "host_block \<Rightarrow> string \<Rightarrow> string \<Rightarrow> host_error + field_desc" where
  "text_field b method key =
     (case get_block_field_desc_by_key (b_desc b) key of
        Inl e \<Rightarrow> Inl e
      | Inr f \<Rightarrow> if f_datatype f \<noteq> ''char''
                 then Inl (Traceable_Error (''eds_block::'' @ method @ '': eds block field '' @ quoted key @ '' is not type char[]''))
                 else Inr f)"

definition eds_field :: "host_block \<Rightarrow> string \<Rightarrow> eds_session \<Rightarrow> (host_error + u8) \<times> eds_session" where
  "eds_field b key s =
     (case number_field b ''field'' key of
        Inl e \<Rightarrow> (Inl e, s)
      | Inr f \<Rightarrow> go_on (read_from_block (b_address b) (f_pos f + 2) s) (\<lambda>d s. (Inr (d ! 0), s)))"

definition uint16_field :: "host_block \<Rightarrow> string \<Rightarrow> eds_session \<Rightarrow> (host_error + u16) \<times> eds_session" where
  "uint16_field b key s =
     (case number_field b ''field'' key of
        Inl e \<Rightarrow> (Inl e, s)
      | Inr f \<Rightarrow> go_on (read_from_block (b_address b) (f_pos f + 2) s) (\<lambda>d s. (Inr (mk16 (d ! 1) (d ! 0)), s)))"

definition char_of_u8 :: "u8 \<Rightarrow> char" where
  "char_of_u8 b = char_of (unat b)"

definition u8_of_char :: "char \<Rightarrow> u8" where
  "u8_of_char c = of_nat (of_char c)"

fun strfield_loop :: "u16 \<Rightarrow> nat \<Rightarrow> nat list \<Rightarrow> string \<Rightarrow> eds_session \<Rightarrow> (host_error + string) \<times> eds_session" where
  "strfield_loop a pos [] acc s = (Inr acc, s)"
| "strfield_loop a pos (j # js) acc s =
     go_on (read_from_block a (pos + 2 + j) s) (\<lambda>d s.
       let t = takeWhile (\<lambda>b. b \<noteq> 0) (take 4 d); acc = acc @ map char_of_u8 t in
       if length t < 4 then (Inr acc, s) else strfield_loop a pos js acc s)"

definition strfield :: "host_block \<Rightarrow> string \<Rightarrow> eds_session \<Rightarrow> (host_error + string) \<times> eds_session" where
  "strfield b key s =
     (case text_field b ''strfield'' key of
        Inl e \<Rightarrow> (Inl e, s)
      | Inr f \<Rightarrow> strfield_loop (b_address b) (f_pos f) (map (\<lambda>k. 4 * k) [0..<(f_size f + 3) div 4]) [] s)"

definition set_field_uint8 :: "host_block \<Rightarrow> string \<Rightarrow> u8 \<Rightarrow> eds_session \<Rightarrow> (host_error + unit) \<times> eds_session" where
  "set_field_uint8 b key v s =
     (case number_field b ''set_field'' key of
        Inl e \<Rightarrow> (Inl e, s)
      | Inr f \<Rightarrow> go_on (write_to_block (b_address b) (f_pos f + 2) v s) (\<lambda>_ s. (Inr (), s)))"

definition set_field_uint16 :: "host_block \<Rightarrow> string \<Rightarrow> u16 \<Rightarrow> eds_session \<Rightarrow> (host_error + unit) \<times> eds_session" where
  "set_field_uint16 b key v s =
     (case number_field b ''set_field'' key of
        Inl e \<Rightarrow> (Inl e, s)
      | Inr f \<Rightarrow> go_on (write_to_block (b_address b) (f_pos f + 2) (lo8 v) s) (\<lambda>_ s.
                 go_on (write_to_block (b_address b) (f_pos f + 2 + 1) (hi8 v) s) (\<lambda>_ s. (Inr (), s))))"

fun write_chars :: "u16 \<Rightarrow> nat \<Rightarrow> u8 list \<Rightarrow> eds_session \<Rightarrow> (host_error + unit) \<times> eds_session" where
  "write_chars a p [] s = (Inr (), s)"
| "write_chars a p (c # cs) s = go_on (write_to_block a p c s) (\<lambda>_. write_chars a (p + 1) cs)"

text \<open>The text is cut so that it fits with its terminating zero; the arithmetic is that of \<^verbatim>\<open>size_t\<close>.\<close>

definition set_field_str :: "host_block \<Rightarrow> string \<Rightarrow> string \<Rightarrow> eds_session \<Rightarrow> (host_error + unit) \<times> eds_session" where
  "set_field_str b key v s =
     (case text_field b ''set_field'' key of
        Inl e \<Rightarrow> (Inl e, s)
      | Inr f \<Rightarrow>
          write_chars (b_address b) (f_pos f + 2)
            (map u8_of_char (if length v + 1 > f_size f then take (f_size f - 1) v else v) @ [0]) s)"

section \<open>The connection\<close>

definition get_next_block :: "u16 \<Rightarrow> eds_session \<Rightarrow> (host_error + u16 \<times> u8 \<times> u8) \<times> eds_session" where
  "get_next_block it s =
     go_on (eds_ask HCAN_EDS_GET_NEXT_BLOCK [hi8 it, lo8 it] 4 s)
       (\<lambda>d s. (Inr (mk16 (d ! 0) (d ! 1), d ! 2, d ! 3), s))"

definition load_block :: "block_desc list \<Rightarrow> u16 \<Rightarrow> eds_session \<Rightarrow> eds_session" where
  "load_block descs it s =
     (case eds_block descs it s of
        (Inr b, s) \<Rightarrow> s\<lparr>h_blocks := h_blocks s @ [b]\<rparr>
      | (Inl e, s) \<Rightarrow> s\<lparr>h_err := h_err s @ [what e]\<rparr>)"

text \<open>The loops over all blocks; what the board answers decides whether they end.\<close>

partial_function (option) update_loop ::
  "block_desc list \<Rightarrow> u16 \<Rightarrow> eds_session \<Rightarrow> ((host_error + unit) \<times> eds_session) option" where
  "update_loop descs it s =
     (case get_next_block it s of
        (Inl e, s) \<Rightarrow> Some (Inl e, s)
      | (Inr r, s) \<Rightarrow>
          (let it = fst r; s = (if it \<noteq> 0 \<and> fst (snd r) \<noteq> 0 then load_block descs it s else s) in
           if it \<noteq> 0 then update_loop descs it s else Some (Inr (), s)))"

definition update_blocks :: "block_desc list \<Rightarrow> eds_session \<Rightarrow> ((host_error + unit) \<times> eds_session) option" where
  "update_blocks descs s = update_loop descs 0 (s\<lparr>h_blocks := []\<rparr>)"

partial_function (option) space_loop ::
  "(u8 \<Rightarrow> bool) \<Rightarrow> u16 \<Rightarrow> nat \<Rightarrow> eds_session \<Rightarrow> ((host_error + nat) \<times> eds_session) option" where
  "space_loop counts it n s =
     (case get_next_block it s of
        (Inl e, s) \<Rightarrow> Some (Inl e, s)
      | (Inr r, s) \<Rightarrow>
          (let it = fst r; n = (if it \<noteq> 0 \<and> counts (fst (snd r)) then n + unat (snd (snd r)) else n) in
           if it \<noteq> 0 then space_loop counts it n s else Some (Inr n, s)))"

definition space_free :: "eds_session \<Rightarrow> ((host_error + nat) \<times> eds_session) option" where
  "space_free s = space_loop (\<lambda>type. type = 0) 0 0 s"

definition space_used :: "eds_session \<Rightarrow> ((host_error + nat) \<times> eds_session) option" where
  "space_used s = space_loop (\<lambda>type. type \<noteq> 0) 0 0 s"

definition block_by_address :: "u16 \<Rightarrow> eds_session \<Rightarrow> host_error + host_block" where
  "block_by_address a s =
     (case find (\<lambda>i. b_address i = a) (h_blocks s) of Some i \<Rightarrow> Inr i
      | None \<Rightarrow> Inl (Traceable_Error (''no eds block with address = '' @ show_nat (unat a) @ '' found'')))"

definition create_block :: "block_desc list \<Rightarrow> string \<Rightarrow> eds_session \<Rightarrow> (host_error + host_block) \<times> eds_session" where
  "create_block descs type_name s =
     (case find (\<lambda>i. d_name i = type_name) descs of
        Some i \<Rightarrow>
          go_on (eds_ask HCAN_EDS_ALLOCATE_BLOCK [d_type i, of_nat (d_size i)] 2 s) (\<lambda>d s.
            let address = mk16 (d ! 0) (d ! 1) in
            go_on (eds_block descs address s) (\<lambda>b s.
              let s = s\<lparr>h_blocks := h_blocks s @ [b]\<rparr> in (block_by_address address s, s)))
      | None \<Rightarrow> (Inl (Traceable_Error (''no eds block type with name '' @ quoted type_name @ '' found'')), s))"

text \<open>
  \<^verbatim>\<open>erase\<close> assigns to every block behind the erased one its successor, and the
  assignment reads the head of that block from the board again; the last block is dropped.
\<close>

fun erase_shift :: "block_desc list \<Rightarrow> host_block \<Rightarrow> host_block list \<Rightarrow> eds_session \<Rightarrow>
    (host_error + unit) \<times> host_block list \<times> eds_session" where
  "erase_shift descs old [] s = (Inr (), [], s)"
| "erase_shift descs old (b # bs) s =
     (case read_from_block (b_address b) 0 s of
        (Inl e, s) \<Rightarrow> (Inl e, old\<lparr>b_address := b_address b\<rparr> # b # bs, s)
      | (Inr d, s) \<Rightarrow>
          (let c = old\<lparr>b_address := b_address b, b_type := d ! 0, b_size := d ! 1\<rparr> in
           case get_block_desc_by_type descs (d ! 0) of
             Inl e \<Rightarrow> (Inl e, c # b # bs, s)
           | Inr desc \<Rightarrow> (case erase_shift descs b bs s of (r, bs', s) \<Rightarrow> (r, c\<lparr>b_desc := desc\<rparr> # bs', s))))"

fun erase_at :: "block_desc list \<Rightarrow> u16 \<Rightarrow> host_block list \<Rightarrow> eds_session \<Rightarrow>
    (host_error + unit) \<times> host_block list \<times> eds_session" where
  "erase_at descs a [] s = (Inr (), [], s)"
| "erase_at descs a (b # bs) s =
     (if b_address b = a then erase_shift descs b bs s
      else (case erase_at descs a bs s of (r, bs', s) \<Rightarrow> (r, b # bs', s)))"

definition delete_block :: "block_desc list \<Rightarrow> host_block \<Rightarrow> eds_session \<Rightarrow> (host_error + unit) \<times> eds_session" where
  "delete_block descs b s =
     (let a = b_address b in
      if \<exists>i \<in> set (h_blocks s). b_address i = a
      then go_on (eds_ask HCAN_EDS_FREE_BLOCK [hi8 a, lo8 a] 1 s) (\<lambda>d s.
             if d ! 0 = 0
             then (case erase_at descs a (h_blocks s) s of (r, bs, s) \<Rightarrow> (r, s\<lparr>h_blocks := bs\<rparr>))
             else (Inl (Traceable_Error (''error while deleting eds block at address '' @ show_nat (unat a))), s))
      else (Inl (Traceable_Error (''no eds block with address = '' @ show_nat (unat a) @ '' found'')), s))"

definition defragment :: "block_desc list \<Rightarrow> eds_session \<Rightarrow> ((host_error + unit) \<times> eds_session) option" where
  "defragment descs s = update_blocks descs (eds_send HCAN_EDS_DEFRAGMENT [] s)"

definition format_board :: "block_desc list \<Rightarrow> eds_session \<Rightarrow> ((host_error + unit) \<times> eds_session) option" where
  "format_board descs s = update_blocks descs (eds_send HCAN_EDS_FORMAT [] s)"

text \<open>The constructor prints what the check of the descriptions finds and goes on.\<close>

definition eds_connection :: "block_desc list \<Rightarrow> eds_session \<Rightarrow> ((host_error + unit) \<times> eds_session) option" where
  "eds_connection descs s =
     update_blocks descs
       (case eds_check_block_descriptions descs of
          Inl e \<Rightarrow> s\<lparr>h_err := h_err s @ [''ERROR: '' @ what e]\<rparr> | Inr _ \<Rightarrow> s)"


section \<open>What the messages do\<close>

text \<open>Nothing for the host is on its way.\<close>

definition no_mail :: "eds_session \<Rightarrow> bool" where
  "no_mail s \<longleftrightarrow> (\<forall>f \<in> set (h_rx s). dst f \<noteq> h_src s) \<and> length (h_rx s) < 100000"

lemma no_mail_empty [simp]: "no_mail (s\<lparr>h_rx := []\<rparr>)"
  by (simp add: no_mail_def)

lemma recv_frame_skips:
  "\<forall>f \<in> set q. dst f \<noteq> d \<Longrightarrow> dst g = d \<Longrightarrow> length q < n \<Longrightarrow> recv_frame n d (q @ g # r) = (Inr g, r)"
proof (induction q arbitrary: n)
  case Nil
  then show ?case by (cases n) simp_all
next
  case (Cons f q)
  then show ?case by (cases n) simp_all
qed

lemma params_of_frame:
  "length bs = n \<Longrightarrow> map (\<lambda>i. byte_at (mk_frame a b pr (x # y # bs)) (i + 2)) [0..<n] = bs"
  by (intro nth_equalityI) (simp_all add: nth_default_def)

lemma eds_ask_answered:
  assumes "no_mail s" and n: "length bs = n" "n < 100"
    and cb: "eds_can_callback (h_mcu s) (h_dst s) (h_mem s)
        (mk_frame (h_src s) (h_dst s) HCAN_PROTO_SFP (HCAN_SRV_EDS # cmd # ps)) =
      (m, [eds_answer (h_dst s) (mk_frame (h_src s) (h_dst s) HCAN_PROTO_SFP (HCAN_SRV_EDS # cmd # ps)) ((cmd + 1) # bs)])"
  shows "eds_ask cmd ps n s = (Inr bs, s\<lparr>h_mem := m, h_rx := []\<rparr>)"
proof -
  let ?g = "mk_frame (h_dst s) (h_src s) HCAN_PROTO_SFP (HCAN_SRV_EDS # (cmd + 1) # bs)"
  have send: "eds_send cmd ps s = s\<lparr>h_mem := m, h_rx := h_rx s @ [?g]\<rparr>"
    by (simp add: eds_send_def cb eds_answer_def)
  have recv: "recv_frame 100000 (h_src s) (h_rx s @ [?g]) = (Inr ?g, [])"
    using assms(1) by (intro recv_frame_skips) (simp_all add: no_mail_def)
  have "fsize ?g = of_nat (n + 2)" using n(1) by simp
  then have l: "unat (fsize ?g) = n + 2" using n(2) by (simp only: unat_of_nat_u8)
  show ?thesis
    unfolding eds_ask_def eds_recv_def send using recv l
    by (simp add: params_of_frame [OF n(1), simplified])
qed

lemma read_from_block_result:
  assumes "no_mail s" and "p < 256"
  shows "read_from_block a p s = (Inr (map (\<lambda>k. h_mem s (padd (unat a) (p + k))) [0, 1, 2, 3]), s\<lparr>h_rx := []\<rparr>)"
proof -
  have "read_from_block a p s =
      (Inr (map (\<lambda>k. h_mem s (padd (unat a) (p + k))) [0, 1, 2, 3]), s\<lparr>h_mem := h_mem s, h_rx := []\<rparr>)"
    unfolding read_from_block_def using assms
    by (intro eds_ask_answered) (simp_all add: eds_can_callback_def Let_def)
  then show ?thesis by simp
qed

lemma write_to_block_result:
  assumes "no_mail s" and "p < 256"
  shows "write_to_block a p v s = (Inr [], s\<lparr>h_mem := (h_mem s)(padd (unat a) p := v), h_rx := []\<rparr>)"
  unfolding write_to_block_def using assms
  by (intro eds_ask_answered) (simp_all add: eds_can_callback_def Let_def)

lemma get_next_block_result:
  assumes "no_mail s"
  shows "get_next_block it s =
    (let h2 = eds_get_next (h_mcu s) (h_mem s) (unat it) in
     (Inr (of_nat h2, EDS_BLOCK_TYPE (h_mem s) h2, of_nat (EDS_BLOCK_SIZE (h_mem s) h2)), s\<lparr>h_rx := []\<rparr>))"
proof -
  define h2 where "h2 = eds_get_next (h_mcu s) (h_mem s) (unat it)"
  have "eds_ask HCAN_EDS_GET_NEXT_BLOCK [hi8 it, lo8 it] 4 s =
      (Inr [hi8 (of_nat h2), lo8 (of_nat h2), EDS_BLOCK_TYPE (h_mem s) h2, of_nat (EDS_BLOCK_SIZE (h_mem s) h2)],
       s\<lparr>h_mem := h_mem s, h_rx := []\<rparr>)"
    using assms by (intro eds_ask_answered) (simp_all add: eds_can_callback_def Let_def h2_def)
  then show ?thesis by (simp add: get_next_block_def Let_def h2_def)
qed


section \<open>The list of blocks\<close>

text \<open>What the host makes of a list of blocks: the used ones of a known type, and a line for each other used one.\<close>

definition known_blocks :: "block_desc list \<Rightarrow> blk list \<Rightarrow> host_block list" where
  "known_blocks descs bs = concat (map (\<lambda>(a, t, n). if t = 0 then []
     else case get_block_desc_by_type descs t of Inl e \<Rightarrow> []
       | Inr d \<Rightarrow> [\<lparr>b_address = of_nat a, b_type = t, b_size = of_nat n, b_desc = d\<rparr>]) bs)"

definition unknown_blocks :: "block_desc list \<Rightarrow> blk list \<Rightarrow> string list" where
  "unknown_blocks descs bs = concat (map (\<lambda>(a, t, n). if t = 0 then []
     else case get_block_desc_by_type descs t of Inl e \<Rightarrow> [what e] | Inr d \<Rightarrow> []) bs)"

lemma known_blocks_simps [simp]:
  "known_blocks descs [] = []" "unknown_blocks descs [] = []"
  "known_blocks descs ((a, t, n) # bs) = (if t = 0 then []
     else case get_block_desc_by_type descs t of Inl e \<Rightarrow> []
       | Inr d \<Rightarrow> [\<lparr>b_address = of_nat a, b_type = t, b_size = of_nat n, b_desc = d\<rparr>]) @ known_blocks descs bs"
  "unknown_blocks descs ((a, t, n) # bs) = (if t = 0 then []
     else case get_block_desc_by_type descs t of Inl e \<Rightarrow> [what e] | Inr d \<Rightarrow> []) @ unknown_blocks descs bs"
  by (simp_all add: known_blocks_def unknown_blocks_def)

lemma eds_block_result:
  assumes "no_mail s"
  shows "eds_block descs a s =
    (case get_block_desc_by_type descs (h_mem s (unat a)) of
       Inl e \<Rightarrow> Inl e
     | Inr d \<Rightarrow> Inr \<lparr>b_address = a, b_type = h_mem s (unat a), b_size = h_mem s (padd (unat a) 1), b_desc = d\<rparr>,
     s\<lparr>h_rx := []\<rparr>)"
  unfolding eds_block_def using read_from_block_result [OF assms, of 0 a] by (simp split: sum.split)

lemma load_block_result:
  assumes "no_mail s" and "a < EDS_END c" and "h_mem s a = t" and "t \<noteq> 0" and "EDS_BLOCK_SIZE (h_mem s) a = n"
  shows "load_block descs (of_nat a) s = s\<lparr>h_rx := [], h_blocks := h_blocks s @ known_blocks descs [(a, t, n)],
    h_err := h_err s @ unknown_blocks descs [(a, t, n)]\<rparr>"
proof -
  have a: "unat (of_nat a :: u16) = a" using assms(2) EDS_END_bounds(2) [of c] by (simp add: unat_of_nat)
  have n: "h_mem s (padd a 1) = of_nat n" using assms(5) by (simp add: EDS_BLOCK_SIZE_def flip: assms(5))
  show ?thesis
    using assms(4) by (simp add: load_block_def eds_block_result [OF assms(1)] a n [unfolded One_nat_def] assms(3) split: sum.splits)
qed

text \<open>The next block the host is told is the next of the layout; the end of the list is 0.\<close>

lemma eds_next_layout:
  assumes "p = (if it = 0 then EDS_DATA_START else eds_next_block m it)" and "it = 0 \<or> it < EDS_END c"
  shows "eds_get_next c m it = (case eds_layout c m p of [] \<Rightarrow> 0 | (a, t, n) # _ \<Rightarrow> a)"
  using assms by (subst eds_layout.simps) (auto simp: eds_get_next_def Let_def)

lemma layout_Cons:
  assumes "eds_layout c m p = (a, t, n) # bs"
  shows "p < EDS_END c" "a = p" "t = m a" "n = EDS_BLOCK_SIZE m a" "bs = eds_layout c m (eds_next_block m a)"
  using assms eds_layout.simps [of c m p] by (auto simp: EDS_BLOCK_TYPE_def split: if_splits)

lemma update_loop_result:
  assumes "no_mail s" and "it = 0 \<or> it < EDS_END (h_mcu s)"
    and "p = (if it = 0 then EDS_DATA_START else eds_next_block (h_mem s) it)"
    and "bs = eds_layout (h_mcu s) (h_mem s) p"
  shows "update_loop descs (of_nat it) s = Some (Inr (), s\<lparr>h_rx := [], h_blocks := h_blocks s @ known_blocks descs bs,
    h_err := h_err s @ unknown_blocks descs bs\<rparr>)"
  using assms
proof (induction bs arbitrary: s it p)
  case Nil
  have "it < 65536" using Nil.prems(2) EDS_END_bounds(2) [of "h_mcu s"] by auto
  then have n: "get_next_block (of_nat it) s =
      (Inr (0, EDS_BLOCK_TYPE (h_mem s) 0, of_nat (EDS_BLOCK_SIZE (h_mem s) 0)), s\<lparr>h_rx := []\<rparr>)"
    using eds_next_layout [OF Nil.prems(3,2)] Nil.prems(4)
    by (simp add: get_next_block_result [OF Nil.prems(1)] Let_def)
  show ?case by (subst update_loop.simps) (simp add: n Let_def)
next
  case (Cons b bs)
  obtain a t n where b: "b = (a, t, n)" by (cases b)
  have i: "it < 65536" using Cons.prems(2) EDS_END_bounds(2) [of "h_mcu s"] by auto
  note l = layout_Cons [OF Cons.prems(4) [unfolded b, symmetric]]
  have a0: "a \<noteq> 0"
    using l(2) Cons.prems(2,3) eds_next_block_greater [of it "h_mcu s" "h_mem s"] by (auto split: if_splits)
  have u: "(of_nat a :: u16) \<noteq> 0"
    using a0 l(1,2) EDS_END_bounds(2) [of "h_mcu s"] by (simp add: word_unat_eq_iff unat_of_nat)
  have g: "get_next_block (of_nat it) s = (Inr (of_nat a, t, of_nat n), s\<lparr>h_rx := []\<rparr>)"
    using eds_next_layout [OF Cons.prems(3,2)] i l b Cons.prems(4) [symmetric]
    by (simp add: get_next_block_result [OF Cons.prems(1)] Let_def EDS_BLOCK_TYPE_def)
  define q where "q = (if t \<noteq> 0 then load_block descs (of_nat a) (s\<lparr>h_rx := []\<rparr>) else s\<lparr>h_rx := []\<rparr>)"
  have q: "q = s\<lparr>h_rx := [], h_blocks := h_blocks s @ known_blocks descs [(a, t, n)],
      h_err := h_err s @ unknown_blocks descs [(a, t, n)]\<rparr>"
    using load_block_result [of "s\<lparr>h_rx := []\<rparr>" a "h_mcu s" t n descs] l by (simp add: q_def)
  have "update_loop descs (of_nat it) s = update_loop descs (of_nat a) q"
    by (subst update_loop.simps) (simp add: g u q_def Let_def)
  also have "\<dots> = Some (Inr (), q\<lparr>h_rx := [], h_blocks := h_blocks q @ known_blocks descs bs,
    h_err := h_err q @ unknown_blocks descs bs\<rparr>)"
    by (rule Cons.IH [of _ _ "eds_next_block (h_mem s) a"]) (use q l a0 in \<open>simp_all add: no_mail_def\<close>)
  also have "\<dots> = Some (Inr (), s\<lparr>h_rx := [], h_blocks := h_blocks s @ known_blocks descs (b # bs),
    h_err := h_err s @ unknown_blocks descs (b # bs)\<rparr>)"
    by (simp add: q b)
  finally show ?case .
qed

lemma update_blocks_result:
  assumes "no_mail s"
  shows "update_blocks descs s = Some (Inr (), s\<lparr>h_rx := [], h_blocks := known_blocks descs (eds_blocks (h_mcu s) (h_mem s)),
    h_err := h_err s @ unknown_blocks descs (eds_blocks (h_mcu s) (h_mem s))\<rparr>)"
  using update_loop_result [of "s\<lparr>h_blocks := []\<rparr>" 0 EDS_DATA_START "eds_blocks (h_mcu s) (h_mem s)" descs] assms
  by (simp add: update_blocks_def no_mail_def eds_blocks_def)

lemma space_loop_result:
  assumes "no_mail s" and "it = 0 \<or> it < EDS_END (h_mcu s)"
    and "p = (if it = 0 then EDS_DATA_START else eds_next_block (h_mem s) it)"
    and "bs = eds_layout (h_mcu s) (h_mem s) p"
  shows "space_loop counts (of_nat it) k s =
    Some (Inr (k + sum_list (map (\<lambda>(a, t, n). if counts t then n else 0) bs)), s\<lparr>h_rx := []\<rparr>)"
  using assms
proof (induction bs arbitrary: s it p k)
  case Nil
  have "it < 65536" using Nil.prems(2) EDS_END_bounds(2) [of "h_mcu s"] by auto
  then have n: "get_next_block (of_nat it) s =
      (Inr (0, EDS_BLOCK_TYPE (h_mem s) 0, of_nat (EDS_BLOCK_SIZE (h_mem s) 0)), s\<lparr>h_rx := []\<rparr>)"
    using eds_next_layout [OF Nil.prems(3,2)] Nil.prems(4)
    by (simp add: get_next_block_result [OF Nil.prems(1)] Let_def)
  show ?case by (subst space_loop.simps) (simp add: n Let_def)
next
  case (Cons b bs)
  obtain a t n where b: "b = (a, t, n)" by (cases b)
  have i: "it < 65536" using Cons.prems(2) EDS_END_bounds(2) [of "h_mcu s"] by auto
  note l = layout_Cons [OF Cons.prems(4) [unfolded b, symmetric]]
  have a0: "a \<noteq> 0"
    using l(2) Cons.prems(2,3) eds_next_block_greater [of it "h_mcu s" "h_mem s"] by (auto split: if_splits)
  have u: "(of_nat a :: u16) \<noteq> 0"
    using a0 l(1,2) EDS_END_bounds(2) [of "h_mcu s"] by (simp add: word_unat_eq_iff unat_of_nat)
  have n8: "unat (of_nat n :: u8) = n" using l(4) by (simp add: EDS_BLOCK_SIZE_def)
  have g: "get_next_block (of_nat it) s = (Inr (of_nat a, t, of_nat n), s\<lparr>h_rx := []\<rparr>)"
    using eds_next_layout [OF Cons.prems(3,2)] i l b Cons.prems(4) [symmetric]
    by (simp add: get_next_block_result [OF Cons.prems(1)] Let_def EDS_BLOCK_TYPE_def)
  have "space_loop counts (of_nat it) k s = space_loop counts (of_nat a) (if counts t then k + n else k) (s\<lparr>h_rx := []\<rparr>)"
    by (subst space_loop.simps) (simp add: g u n8 Let_def)
  also have "\<dots> = Some (Inr ((if counts t then k + n else k) +
      sum_list (map (\<lambda>(a, t, n). if counts t then n else 0) bs)), s\<lparr>h_rx := []\<rparr>)"
    using Cons.IH [of "s\<lparr>h_rx := []\<rparr>" a "eds_next_block (h_mem s) a" "if counts t then k + n else k"] l a0 by simp
  finally show ?case by (simp add: b)
qed

end
