(* ===== verification/Host_Fields.thy ===== *)
theory Host_Fields
  imports Host_Eds
begin

text \<open>
  What the host reads from and writes to the fields of a block, over the memory of the board; and
  what the check of the descriptions is good for: the fields of a block do not overlap, so
  that setting one leaves the others alone.
\<close>

section \<open>Fields that follow each other\<close>

definition field_width :: "field_desc \<Rightarrow> nat" where
  "field_width f = (if f_datatype f = ''uint16_t'' then 2 else if f_datatype f = ''char'' then f_size f else 1)"

fun tiled :: "nat \<Rightarrow> field_desc list \<Rightarrow> nat \<Rightarrow> bool" where
  "tiled p [] q \<longleftrightarrow> p = q"
| "tiled p (f # fs) q \<longleftrightarrow> f_pos f = p \<and> 0 < field_width f \<and> tiled (p + field_width f) fs q"

definition texts_short :: "field_desc list \<Rightarrow> bool" where
  "texts_short fs \<longleftrightarrow> (\<forall>f \<in> set fs. f_datatype f = ''char'' \<longrightarrow> 0 < f_size f \<and> f_size f < 128)"

lemma int8_small: "- 128 \<le> z \<Longrightarrow> z \<le> 127 \<Longrightarrow> int8 z = z"
  by (simp add: int8_def)

lemma int8_large:
  assumes "128 \<le> z" and "z \<le> 254" shows "int8 z = z - 256"
proof -
  have "(z + 128) mod 256 = (z - 128 + 256) mod 256" by (rule arg_cong [of _ _ "\<lambda>x. x mod 256"]) simp
  also have "\<dots> = (z - 128) mod 256" by (rule mod_add_self2)
  also have "\<dots> = z - 128" using assms by (intro mod_pos_pos_trivial) simp_all
  finally show ?thesis by (simp add: int8_def add.commute)
qed

lemma check_fields_tiled:
  assumes "texts_short fs" and "check_fields bn (int p - 1) fs = Inr (int q - 1)" and "p \<le> 128"
  shows "tiled p fs q \<and> q \<le> 128"
  using assms
proof (induction fs arbitrary: p)
  case (Cons f fs)
  let ?w = "field_width f"
  have w: "0 < ?w" "?w < 128" using Cons.prems(1) by (auto simp: texts_short_def field_width_def)
  from Cons.prems(2) have p: "f_pos f = p" by (cases "p = 0") (auto simp: Let_def split: if_splits)
  have e: "(if f_datatype f = ''uint16_t'' then int p + 1 else if f_datatype f = ''char'' then int p + int (f_size f) - 1 else int p) =
      int (p + ?w) - 1"
    by (simp add: field_width_def)
  from Cons.prems(2) have c: "check_fields bn (int8 (int (p + ?w) - 1)) fs = Inr (int q - 1)"
    unfolding check_fields.simps Let_def p e by (auto split: if_splits sum.splits)
  have "p + ?w \<le> 128"
  proof (rule ccontr)
    assume "\<not> p + ?w \<le> 128"
    then have i: "int8 (int (p + ?w) - 1) = int (p + ?w) - 257" "int (p + ?w) - 257 < -1"
      using Cons.prems(3) w by (simp_all add: int8_large)
    show False
    proof (cases fs)
      case Nil
      with c i show False by simp
    next
      case (Cons g gs)
      with c i show False by (auto simp: Let_def)
    qed
  qed
  moreover from this have "check_fields bn (int (p + ?w) - 1) fs = Inr (int q - 1)"
    using c by (simp add: int8_small)
  ultimately have "tiled (p + ?w) fs q \<and> q \<le> 128"
    using Cons.prems(1) by (intro Cons.IH) (simp_all add: texts_short_def)
  then show ?case using p w by simp
qed simp

text \<open>
  Property C14. What the check of the descriptions is good for: the fields of a block that
  passes lie side by side, without a gap and without an overlap, they fill the block, and the
  block has at most 128 bytes; provided its texts have 1 to 127 bytes, as the position is kept in eight bits.
\<close>

theorem check_descriptions_tiled:
  "eds_check_block_descriptions descs = Inr () \<Longrightarrow> d \<in> set descs \<Longrightarrow> texts_short (d_fields d) \<Longrightarrow>
   tiled 0 (d_fields d) (d_size d) \<and> d_size d \<le> 128"
proof (induction descs)
  case (Cons b bs)
  from Cons.prems(1) obtain l where l: "check_fields (d_name b) (-1) (d_fields b) = Inr l" "l = int (d_size b) - 1"
      "eds_check_block_descriptions bs = Inr ()"
    by (auto split: sum.splits if_splits)
  show ?case
  proof (cases "d = b")
    case True
    then show ?thesis using check_fields_tiled [of "d_fields d" "d_name b" 0 "d_size d"] l Cons.prems(3) by simp
  next
    case False
    then show ?thesis using Cons l(3) by simp
  qed
qed simp

theorem check_descriptions_tiled_witness:
  "tiled 0 [\<lparr>f_datatype = ''char'', f_name = ''name'', f_pos = 0, f_size = 9, f_bits = []\<rparr>,
      \<lparr>f_datatype = ''uint16_t'', f_name = ''zeit'', f_pos = 9, f_size = 0, f_bits = []\<rparr>] 11 \<and> (11 :: nat) \<le> 128"
proof -
  let ?d = "\<lparr>d_type = 20, d_name = ''licht'', d_size = 11, d_fields = [\<lparr>f_datatype = ''char'', f_name = ''name'', f_pos = 0, f_size = 9, f_bits = []\<rparr>,
      \<lparr>f_datatype = ''uint16_t'', f_name = ''zeit'', f_pos = 9, f_size = 0, f_bits = []\<rparr>]\<rparr>"
  have "eds_check_block_descriptions [?d] = Inr ()" by (simp add: int8_def)
  moreover have "texts_short (d_fields ?d)" by (simp add: texts_short_def)
  ultimately show ?thesis using check_descriptions_tiled [of "[?d]" ?d] by simp
qed

lemma tiled_bounds: "tiled p fs q \<Longrightarrow> p \<le> q \<and> (\<forall>f \<in> set fs. p \<le> f_pos f \<and> f_pos f + field_width f \<le> q)"
  by (induction fs arbitrary: p) force+

lemma tiled_append: "tiled p (xs @ f # ys) q \<Longrightarrow>
   tiled p xs (f_pos f) \<and> 0 < field_width f \<and> tiled (f_pos f + field_width f) ys q"
  by (induction xs arbitrary: p) auto

section \<open>Memory\<close>

definition mem_write :: "eeprom \<Rightarrow> nat \<Rightarrow> u8 list \<Rightarrow> eeprom" where
  "mem_write m b cs = (\<lambda>i. if b \<le> i \<and> i < b + length cs then cs ! (i - b) else m i)"

lemma mem_write_Nil [simp]: "mem_write m b [] = m"
  by (rule ext) (auto simp: mem_write_def)

lemma mem_write_Cons: "mem_write m b (c # cs) = mem_write (m(b := c)) (b + 1) cs"
  by (rule ext) (auto simp: mem_write_def nth_Cons')

lemma mem_write_inside: "i < length cs \<Longrightarrow> mem_write m b cs (b + i) = cs ! i"
  by (simp add: mem_write_def)

lemma mem_write_outside: "i < b \<or> b + length cs \<le> i \<Longrightarrow> mem_write m b cs i = m i"
  by (auto simp: mem_write_def)

text \<open>A range of addresses no index of a message leaves.\<close>

definition block_at :: "host_block \<Rightarrow> nat \<Rightarrow> bool" where
  "block_at b a \<longleftrightarrow> b_address b = of_nat a \<and> a < 65000"

lemma block_at_unat: "block_at b a \<Longrightarrow> unat (b_address b) = a"
  by (simp add: block_at_def unat_of_nat)

lemma write_at:
  assumes "no_mail s" and "p < 256" and "a < 65000"
  shows "write_to_block (of_nat a) p v s = (Inr [], s\<lparr>h_mem := (h_mem s)(a + p := v), h_rx := []\<rparr>)"
  using assms by (simp add: write_to_block_result unat_of_nat)

lemma read_at:
  assumes "no_mail s" and "p < 256" and "a < 65000"
  shows "read_from_block (of_nat a) p s = (Inr (map (\<lambda>k. h_mem s (a + p + k)) [0, 1, 2, 3]), s\<lparr>h_rx := []\<rparr>)"
  using assms by (simp add: read_from_block_result unat_of_nat add.assoc)

lemma write_chars_result:
  assumes "no_mail s" and "p + length cs \<le> 256" and "a < 65000" and "cs \<noteq> []"
  shows "write_chars (of_nat a) p cs s = (Inr (), s\<lparr>h_mem := mem_write (h_mem s) (a + p) cs, h_rx := []\<rparr>)"
  using assms
proof (induction cs arbitrary: p s)
  case (Cons c cs)
  show ?case
  proof (cases "cs = []")
    case True
    then show ?thesis using Cons.prems by (simp add: write_at mem_write_Cons fun_upd_def)
  next
    case False
    then show ?thesis
      using Cons.prems Cons.IH [of "s\<lparr>h_mem := (h_mem s)(a + p := c), h_rx := []\<rparr>" "p + 1"]
      by (simp add: write_at mem_write_Cons fun_upd_def)
  qed
qed simp

text \<open>The text the bytes from \<open>b\<close> on hold, of at most \<open>n\<close> characters.\<close>

definition text_at :: "eeprom \<Rightarrow> nat \<Rightarrow> nat \<Rightarrow> string" where
  "text_at m b n = map char_of_u8 (takeWhile (\<lambda>x. x \<noteq> 0) (map (\<lambda>j. m (b + j)) [0..<n]))"

lemma takeWhile_append_short:
  "takeWhile P (xs @ ys) = (if length (takeWhile P xs) < length xs then takeWhile P xs else takeWhile P xs @ takeWhile P ys)"
  by (induction xs) auto

lemma text_at_split:
  "text_at m b (4 + n) = (let t = takeWhile (\<lambda>x. x \<noteq> 0) (map (\<lambda>j. m (b + j)) [0, 1, 2, 3]) in
     map char_of_u8 t @ (if length t < 4 then [] else text_at m (b + 4) n))"
proof -
  have u: "map (\<lambda>j. m (b + j)) [0..<4 + n] = map (\<lambda>j. m (b + j)) [0, 1, 2, 3] @ map (\<lambda>j. m (b + 4 + j)) [0..<n]"
  proof -
    have "[0..<4 + n] = [0..<4] @ [4..<4 + n]" by (rule upt_add_eq_append) simp
    moreover have "[0..<4] = [0, 1, 2, 3 :: nat]" by (simp add: upt_rec)
    moreover have "[4..<4 + n] = map (\<lambda>j. j + 4) [0..<n]" by (simp add: map_add_upt add.commute)
    ultimately show ?thesis by (simp add: ac_simps del: upt_Suc)
  qed
  show ?thesis
    unfolding text_at_def u by (simp only: takeWhile_append_short Let_def) (simp add: add.assoc)
qed

lemma strfield_loop_result:
  assumes "no_mail s" and "pos + 2 + 4 * (i + n) \<le> 256" and "a < 65000"
  shows "strfield_loop (of_nat a) pos (map (\<lambda>k. 4 * k) [i..<i + n]) acc s =
    (Inr (acc @ text_at (h_mem s) (a + pos + 2 + 4 * i) (4 * n)), if n = 0 then s else s\<lparr>h_rx := []\<rparr>)"
  using assms(1,2)
proof (induction n arbitrary: i acc s)
  case 0
  then show ?case by (simp add: text_at_def)
next
  case (Suc n)
  define d where "d = map (\<lambda>j. h_mem s (a + pos + 2 + 4 * i + j)) [0, 1, 2, 3]"
  define t where "t = takeWhile (\<lambda>x. x \<noteq> 0) d"
  have d: "take 4 d = d" by (simp add: d_def)
  have r: "read_from_block (of_nat a) (pos + 2 + 4 * i) s = (Inr d, s\<lparr>h_rx := []\<rparr>)"
    using read_at [OF Suc.prems(1) _ assms(3), of "pos + 2 + 4 * i"] Suc.prems(2) by (simp add: add.assoc d_def)
  have l: "[i..<i + Suc n] = i # [Suc i..<Suc i + n]" by (simp add: upt_conv_Cons)
  have IH: "strfield_loop (of_nat a) pos (map (\<lambda>k. 4 * k) [Suc i..<Suc i + n]) (acc @ map char_of_u8 t) (s\<lparr>h_rx := []\<rparr>) =
      (Inr (acc @ map char_of_u8 t @ text_at (h_mem s) (a + pos + 2 + 4 * i + 4) (4 * n)), s\<lparr>h_rx := []\<rparr>)"
    using Suc.IH [of "s\<lparr>h_rx := []\<rparr>" "Suc i" "acc @ map char_of_u8 t"] Suc.prems(2) by (simp add: algebra_simps)
  have x: "text_at (h_mem s) (a + pos + 2 + 4 * i) (4 * Suc n) =
      map char_of_u8 t @ (if length t < 4 then [] else text_at (h_mem s) (a + pos + 2 + 4 * i + 4) (4 * n))"
    using text_at_split [of "h_mem s" "a + pos + 2 + 4 * i" "4 * n"] by (simp only: t_def d_def Let_def mult_Suc_right)
  show ?case
    unfolding l x list.map strfield_loop.simps r go_on_simps Let_def d t_def [symmetric]
    using IH by (simp del: list.map)
qed

end
