(* ===== verification/Host_Commands.thy ===== *)
theory Host_Commands
  imports Host_Fields
begin

text \<open>
  The commands for the EEPROM data of a board, \<^verbatim>\<open>src/libhcan++/eds_commands.cc\<close>: the
  list of the blocks and their fields, editing, and the listing of a configuration
  that can be entered again. The command \<^verbatim>\<open>hint\<close>, which only draws a picture as wide as the
  terminal, is left out. A line with a value is printed when the value has been read.
\<close>

section \<open>Printing\<close>

record host_context =
  ctx_prompt :: string
  ctx_mode :: nat
  ctx_block :: u16

abbreviation (input) mode_normal :: nat where "mode_normal \<equiv> 1"
abbreviation (input) mode_edit :: nat where "mode_edit \<equiv> 2"

definition reset_context :: "host_context \<Rightarrow> host_context" where
  "reset_context c = c\<lparr>ctx_prompt := ''> '', ctx_mode := mode_normal\<rparr>"

definition edit_context :: "host_block \<Rightarrow> host_context \<Rightarrow> host_context" where
  "edit_context b c = c\<lparr>ctx_prompt := ''EDS/{'' @ d_name (b_desc b) @ ''}@'' @ show_nat (unat (b_address b)) @ '' > '',
     ctx_mode := mode_edit, ctx_block := b_address b\<rparr>"

definition print :: "string \<Rightarrow> eds_session \<Rightarrow> eds_session" where
  "print l s = s\<lparr>h_out := h_out s @ [l]\<rparr>"

definition complain :: "host_error \<Rightarrow> eds_session \<Rightarrow> eds_session" where
  "complain e s = s\<lparr>h_err := h_err s @ [what e]\<rparr>"

text \<open>The value of a field as the commands print it, according to its type.\<close>

definition value_text :: "host_block \<Rightarrow> field_desc \<Rightarrow> eds_session \<Rightarrow> (host_error + string) \<times> eds_session" where
  "value_text b f s =
     (if f_datatype f = ''char'' then strfield b (f_name f) s
      else if f_datatype f = ''uint16_t'' then go_on (uint16_field b (f_name f) s) (\<lambda>v s. (Inr (show_nat (unat v)), s))
      else go_on (eds_field b (f_name f) s) (\<lambda>v s. (Inr (show_nat (unat v)), s)))"

fun list_fields :: "host_block \<Rightarrow> field_desc list \<Rightarrow> eds_session \<Rightarrow> (host_error + unit) \<times> eds_session" where
  "list_fields b [] s = (Inr (), s)"
| "list_fields b (f # fs) s =
     go_on (value_text b f s) (\<lambda>t s. list_fields b fs (print
       (if f_datatype f = ''char'' then ''char['' @ show_nat (f_size f) @ ''] '' @ f_name f @ '' '' @ quoted t
        else f_datatype f @ '' '' @ f_name f @ '' '' @ t) s))"

definition eds_cmd_list :: "host_context \<Rightarrow> u16 \<Rightarrow> eds_session \<Rightarrow> eds_session" where
  "eds_cmd_list c address s =
     (let s = (if ctx_mode c = mode_normal \<or> address \<noteq> 0
               then fold (\<lambda>b. print (''{'' @ d_name (b_desc b) @ ''}@'' @ show_nat (unat (b_address b))))
                      (filter (\<lambda>b. address = 0 \<or> b_address b = address) (h_blocks s)) s
               else s)
      in if ctx_mode c = mode_edit \<or> address \<noteq> 0
         then (case block_by_address (if address = 0 then ctx_block c else address) s of
                 Inl e \<Rightarrow> complain e s
               | Inr b \<Rightarrow> (case list_fields b (d_fields (b_desc b)) s of (Inl e, s) \<Rightarrow> complain e s | (Inr _, s) \<Rightarrow> s))
         else s)"

fun conf_fields :: "host_block \<Rightarrow> field_desc list \<Rightarrow> eds_session \<Rightarrow> (host_error + unit) \<times> eds_session" where
  "conf_fields b [] s = (Inr (), s)"
| "conf_fields b (f # fs) s =
     go_on (value_text b f s) (\<lambda>t s. conf_fields b fs (print (''  set '' @ f_name f @ '' '' @ t) s))"

definition conf_block :: "host_block \<Rightarrow> eds_session \<Rightarrow> (host_error + unit) \<times> eds_session" where
  "conf_block b s =
     go_on (conf_fields b (d_fields (b_desc b))
              (print (''create '' @ d_name (b_desc b)) (print (''# EDS-Address: '' @ show_nat (unat (b_address b))) s)))
       (\<lambda>_ s. (Inr (), print ''exit'' s))"

fun conf_blocks :: "string \<Rightarrow> host_block list \<Rightarrow> eds_session \<Rightarrow> (host_error + unit) \<times> eds_session" where
  "conf_blocks type [] s = (Inr (), s)"
| "conf_blocks type (b # bs) s =
     (if type \<noteq> [] \<and> d_name (b_desc b) \<noteq> type then conf_blocks type bs s
      else go_on (conf_block b s) (\<lambda>_. conf_blocks type bs))"

definition eds_cmd_show_conf :: "string \<Rightarrow> eds_session \<Rightarrow> (host_error + unit) \<times> eds_session" where
  "eds_cmd_show_conf type s = conf_blocks type (h_blocks s) s"

section \<open>Editing\<close>

definition eds_cmd_create ::
  "block_desc list \<Rightarrow> host_context \<Rightarrow> string \<Rightarrow> eds_session \<Rightarrow> host_context \<times> eds_session" where
  "eds_cmd_create descs c type s =
     (case create_block descs type s of
        (Inl e, s) \<Rightarrow> (c, complain e s)
      | (Inr b, s) \<Rightarrow> (edit_context b c, print (''creating new '' @ type @ '', type id = '' @ show_nat (unat (b_type b)) @ ''...'') s))"

definition eds_cmd_delete :: "block_desc list \<Rightarrow> u16 \<Rightarrow> eds_session \<Rightarrow> eds_session" where
  "eds_cmd_delete descs address s =
     (case block_by_address address s of
        Inl e \<Rightarrow> complain e s
      | Inr b \<Rightarrow> (case delete_block descs b s of (Inl e, s) \<Rightarrow> complain e s | (Inr _, s) \<Rightarrow> s))"

definition eds_cmd_edit :: "host_context \<Rightarrow> u16 \<Rightarrow> eds_session \<Rightarrow> host_context \<times> eds_session" where
  "eds_cmd_edit c address s =
     (case block_by_address address s of Inl e \<Rightarrow> (c, complain e s) | Inr b \<Rightarrow> (edit_context b c, s))"

text \<open>
  The number for a field of eight bits: in decimal, or with eight binary digits; a comment
  is cut off before the form is decided. The variable is not set before the text is read, \<open>junk\<close> is its value.
\<close>

definition binary_value :: "string \<Rightarrow> u8" where
  "binary_value bitvalue =
     fold (\<lambda>i v. if bitvalue ! (7 - i) = CHR ''1'' then v OR push_bit i 1 else v AND NOT (push_bit i 1)) [0..<8] 0"

definition uint8_value :: "int \<Rightarrow> string \<Rightarrow> string + u8" where
  "uint8_value junk value =
     (let v = filter (\<lambda>c. \<not> cxx_isspace c) (takeWhile (\<lambda>c. c \<noteq> CHR ''#'') value) in
      if take 2 v = ''0b'' \<and> length v = 10
      then (if \<forall>c \<in> set (drop 2 v). c = CHR ''0'' \<or> c = CHR ''1'' then Inr (binary_value (drop 2 v))
            else Inl ''Error: bei binaerer Eingaben ist nur 0 und 1 erlaubt!'')
      else if CHR ''b'' \<in> set v \<or> CHR ''B'' \<in> set v
      then Inl ''Error: Binaere Eingaben wird als 0b00000000 erwartet!''
      else Inr (word_of_int (case read_int value of None \<Rightarrow> junk | Some n \<Rightarrow> n)))"

definition set_value :: "int \<Rightarrow> host_block \<Rightarrow> field_desc \<Rightarrow> string \<Rightarrow> eds_session \<Rightarrow> (host_error + unit) \<times> eds_session" where
  "set_value junk b f value s =
     (if f_datatype f = ''char'' then set_field_str b (f_name f) value s
      else if f_datatype f = ''uint16_t''
      then set_field_uint16 b (f_name f) (word_of_int (case read_int value of None \<Rightarrow> junk | Some n \<Rightarrow> n)) s
      else if f_datatype f = ''uint8_t''
      then (case uint8_value junk value of
              Inl msg \<Rightarrow> (Inr (), print msg s) | Inr v \<Rightarrow> set_field_uint8 b (f_name f) v s)
      else (Inr (), print (''unknown eds field type defined in eds.xml: '' @ f_datatype f) s))"

definition eds_cmd_set_field :: "int \<Rightarrow> u16 \<Rightarrow> string \<Rightarrow> string \<Rightarrow> eds_session \<Rightarrow> eds_session" where
  "eds_cmd_set_field junk address key value s =
     (case block_by_address address s of
        Inl e \<Rightarrow> complain e s
      | Inr b \<Rightarrow>
          (case get_block_field_desc_by_key (b_desc b) key of
             Inl e \<Rightarrow> complain e s
           | Inr f \<Rightarrow> (case set_value junk b f value s of (Inl e, s) \<Rightarrow> complain e s | (Inr _, s) \<Rightarrow> s)))"

section \<open>A line\<close>

text \<open>The words of a value, joined by single spaces; the stream is at its end when nothing of the line is left.\<close>

function value_words :: "bool \<Rightarrow> string \<Rightarrow> string \<Rightarrow> string" where
  "value_words first value rest =
     (if rest = [] then value
      else value_words False ((if first then value else value @ '' '') @ (case fst (read_word rest) of None \<Rightarrow> [] | Some w \<Rightarrow> w))
             (snd (read_word rest)))"
  by pat_completeness auto
termination by (relation "measure (\<lambda>(_, _, rest). length rest)") (simp_all add: read_word_shorter)

declare value_words.simps [simp del]

text \<open>A word that is not there leaves the variable as it is.\<close>

definition next_word :: "string \<Rightarrow> string \<Rightarrow> string \<times> string" where
  "next_word old rest = (case fst (read_word rest) of None \<Rightarrow> old | Some w \<Rightarrow> w, snd (read_word rest))"

definition word_or_junk :: "u16 \<Rightarrow> string \<Rightarrow> u16" where
  "word_or_junk junk rest = (case read_u16 rest of None \<Rightarrow> junk | Some a \<Rightarrow> a)"

definition finished :: "host_context \<Rightarrow> eds_session \<Rightarrow> ((host_error + bool) \<times> host_context \<times> eds_session) option" where
  "finished c s = Some (Inr True, c, s)"

definition then_finished :: "host_context \<Rightarrow> (host_error + unit) \<times> eds_session \<Rightarrow>
    ((host_error + bool) \<times> host_context \<times> eds_session) option" where
  "then_finished c r = Some (case fst r of Inl e \<Rightarrow> Inl e | Inr _ \<Rightarrow> Inr True, c, snd r)"

text \<open>After \<^verbatim>\<open>show\<close> with another word the code goes on with that word.\<close>

definition eds_exec_rest ::
  "block_desc list \<Rightarrow> int \<Rightarrow> host_context \<Rightarrow> string \<Rightarrow> string \<Rightarrow> eds_session \<Rightarrow>
   ((host_error + bool) \<times> host_context \<times> eds_session) option" where
  "eds_exec_rest descs junk c w r s =
     (let edit = (ctx_mode c = mode_edit); address = word_or_junk (word_of_int junk) r in
      if w = ''list'' \<and> (ctx_mode c = mode_normal \<or> edit) then finished c (eds_cmd_list c 0 s)
      else if w = ''edit'' then (case eds_cmd_edit c address s of (c, s) \<Rightarrow> finished c s)
      else if w = ''print'' then finished c (eds_cmd_list c address s)
      else if w = ''create'' then (case eds_cmd_create descs c (fst (next_word w r)) s of (c, s) \<Rightarrow> finished c s)
      else if w = ''delete'' then finished c (eds_cmd_delete descs address s)
      else if w = ''defragment''
      then (case defragment descs s of
              None \<Rightarrow> None
            | Some (Inl e, s) \<Rightarrow> Some (Inl e, c, s)
            | Some (Inr _, s) \<Rightarrow> map_option (\<lambda>(x, s). (case x of Inl e \<Rightarrow> Inl e | Inr _ \<Rightarrow> Inr True, c, s)) (update_blocks descs s))
      else if w = ''Format''
      then map_option (\<lambda>(x, s). (case x of Inl e \<Rightarrow> Inl e | Inr _ \<Rightarrow> Inr True, c, s))
             (update_blocks descs (eds_send HCAN_EDS_FORMAT [] s))
      else if w = ''exit'' \<and> edit then finished (reset_context c) s
      else if edit \<and> w = ''set''
      then (let (key, r) = next_word w r in finished c (eds_cmd_set_field junk (ctx_block c) key (value_words True [] r) s))
      else Some (Inr False, c, s))"

definition eds_exec_cmd ::
  "block_desc list \<Rightarrow> int \<Rightarrow> host_context \<Rightarrow> string \<Rightarrow> eds_session \<Rightarrow>
   ((host_error + bool) \<times> host_context \<times> eds_session) option" where
  "eds_exec_cmd descs junk c cmd s =
     (let (w, r) = next_word [] cmd in
      if w = ''show''
      then (let (w, r) = next_word w r in
            if w = ''conf'' then then_finished c (eds_cmd_show_conf [] s)
            else if w = ''all'' then then_finished c (eds_cmd_show_conf (fst (next_word w r)) s)
            else eds_exec_rest descs junk c w r s)
      else eds_exec_rest descs junk c w r s)"

end
