(* ===== verification/Host_Replay.thy ===== *)
theory Host_Replay
  imports Host_Commands
begin

text \<open>
  A listed configuration entered again: what \<^verbatim>\<open>show conf\<close> prints for a block of one
  board, given to the commands on another board, creates a block there whose fields have the same values.
\<close>

section \<open>The value of a field\<close>

definition field_text :: "eeprom \<Rightarrow> nat \<Rightarrow> field_desc \<Rightarrow> string" where
  "field_text m a f =
     (if f_datatype f = ''char'' then text_at m (a + 2 + f_pos f) (4 * ((f_size f + 3) div 4))
      else if f_datatype f = ''uint16_t'' then show_nat (unat (mk16 (m (a + 2 + f_pos f + 1)) (m (a + 2 + f_pos f))))
      else show_nat (unat (m (a + 2 + f_pos f))))"

text \<open>A field of a description whose names are unique and whose fields are near enough.\<close>

definition field_of :: "block_desc \<Rightarrow> field_desc \<Rightarrow> bool" where
  "field_of d f \<longleftrightarrow> get_block_field_desc_by_key d (f_name f) = Inr f \<and> 0 < field_width f \<and> f_pos f + field_width f \<le> 128"

lemma value_text_result:
  assumes "no_mail s" and "b_address b = of_nat a" and "a < 65000" and "field_of (b_desc b) f"
  shows "value_text b f s = (Inr (field_text (h_mem s) a f), s\<lparr>h_rx := []\<rparr>)"
proof -
  have k: "get_block_field_desc_by_key (b_desc b) (f_name f) = Inr f" and p: "0 < field_width f" "f_pos f + field_width f \<le> 128"
    using assms(4) by (simp_all add: field_of_def)
  consider (c) "f_datatype f = ''char''" | (w) "f_datatype f = ''uint16_t''" | (u) "f_datatype f \<noteq> ''char''" "f_datatype f \<noteq> ''uint16_t''"
    by blast
  then show ?thesis
  proof cases
    case c
    then have z: "0 < f_size f" "f_pos f + f_size f \<le> 128" using p by (simp_all add: field_width_def)
    let ?n = "(f_size f + 3) div 4"
    have "strfield_loop (of_nat a) (f_pos f) (map (\<lambda>k. 4 * k) [0..<0 + ?n]) [] s =
      (Inr ([] @ text_at (h_mem s) (a + f_pos f + 2 + 4 * 0) (4 * ?n)), if ?n = 0 then s else s\<lparr>h_rx := []\<rparr>)"
      by (rule strfield_loop_result [OF assms(1) _ assms(3)]) (use z in presburger)
    moreover have "?n \<noteq> 0" using z(1) by presburger
    ultimately show ?thesis using c k
      by (simp add: value_text_def strfield_def text_field_def field_text_def assms(2) add.commute add.left_commute)
  next
    case w
    then show ?thesis
      using k p read_at [OF assms(1) _ assms(3), of "f_pos f + 2"]
      by (simp add: value_text_def uint16_field_def number_field_def field_text_def assms(2) ac_simps field_width_def)
  next
    case u
    then show ?thesis
      using k p read_at [OF assms(1) _ assms(3), of "f_pos f + 2"]
      by (simp add: value_text_def eds_field_def number_field_def field_text_def assms(2) ac_simps field_width_def)
  qed
qed

text \<open>The texts a field takes.\<close>

definition field_takes :: "field_desc \<Rightarrow> string \<Rightarrow> bool" where
  "field_takes f txt \<longleftrightarrow>
     (f_datatype f = ''char'' \<and> length txt < f_size f \<and> CHR 0x00 \<notin> set txt) \<or>
     (f_datatype f = ''uint16_t'' \<and> txt = show_nat (number_of txt) \<and> number_of txt < 65536) \<or>
     (f_datatype f = ''uint8_t'' \<and> txt = show_nat (number_of txt) \<and> number_of txt < 256)"

lemma u8_of_char_nonzero: assumes "c \<noteq> CHR 0x00" shows "u8_of_char c \<noteq> 0"
proof
  assume "u8_of_char c = 0"
  then have "(of_char c :: nat) = 0"
    using nat_of_char_less_256 [of c] by (simp add: u8_of_char_def word_unat_eq_iff unat_of_nat)
  then have "c = char_of (0 :: nat)" by (metis char_of_char)
  with assms show False by (simp add: char_of_def)
qed

lemma char_u8_char [simp]: "char_of_u8 (u8_of_char c) = c"
  using nat_of_char_less_256 [of c] by (simp add: char_of_u8_def u8_of_char_def)

text \<open>A text and its terminating zero.\<close>

lemma text_at_written:
  assumes "CHR 0x00 \<notin> set t" and "length t < n"
  shows "text_at (mem_write m b (map u8_of_char t @ [0])) b n = t"
proof -
  let ?m = "mem_write m b (map u8_of_char t @ [0])"
  have eq: "map (\<lambda>j. ?m (b + j)) [0..<n] = map u8_of_char t @ 0 # map (\<lambda>j. ?m (b + Suc (length t) + j)) [0..<n - Suc (length t)]"
  proof (rule nth_equalityI)
    fix i assume "i < length (map (\<lambda>j. ?m (b + j)) [0..<n])"
    then show "map (\<lambda>j. ?m (b + j)) [0..<n] ! i =
        (map u8_of_char t @ 0 # map (\<lambda>j. ?m (b + Suc (length t) + j)) [0..<n - Suc (length t)]) ! i"
      by (cases "i < length t"; cases "i = length t") (simp_all add: mem_write_inside nth_append nth_Cons')
  qed (use assms(2) in simp)
  have nz: "\<forall>x \<in> set (map u8_of_char t). x \<noteq> 0"
  proof
    fix x assume "x \<in> set (map u8_of_char t)"
    then obtain c where c: "c \<in> set t" "x = u8_of_char c" by auto
    have "c \<noteq> CHR 0x00" using c(1) assms(1) by (intro notI) simp
    then show "x \<noteq> 0" unfolding c(2) by (rule u8_of_char_nonzero)
  qed
  have "takeWhile (\<lambda>x. x \<noteq> 0) (map u8_of_char t @ 0 # ys) = map u8_of_char t" for ys
    by (subst takeWhile_all_then [OF nz]) simp
  then show ?thesis unfolding text_at_def eq by (simp add: comp_def)
qed

text \<open>A text ends inside its field.\<close>

definition ends_inside :: "eeprom \<Rightarrow> nat \<Rightarrow> field_desc \<Rightarrow> bool" where
  "ends_inside m a f \<longleftrightarrow> (f_datatype f = ''char'' \<longrightarrow> (\<exists>j < f_size f. m (a + 2 + f_pos f + j) = 0))"

lemma set_value_result:
  assumes "no_mail s" and "b_address b = of_nat a" and "a < 65000" and f: "field_of (b_desc b) f" "field_takes f txt"
  obtains m' where "set_value junk b f txt s = (Inr (), s\<lparr>h_mem := m', h_rx := []\<rparr>)" "field_text m' a f = txt"
    "ends_inside m' a f" "\<And>i. i < a + 2 + f_pos f \<or> a + 2 + f_pos f + field_width f \<le> i \<Longrightarrow> m' i = h_mem s i"
proof -
  have k: "get_block_field_desc_by_key (b_desc b) (f_name f) = Inr f" and p: "0 < field_width f" "f_pos f + field_width f \<le> 128"
    using f(1) by (simp_all add: field_of_def)
  consider (c) "f_datatype f = ''char''" "length txt < f_size f" "CHR 0x00 \<notin> set txt"
    | (w) n where "f_datatype f = ''uint16_t''" "txt = show_nat n" "n < 65536"
    | (u) n where "f_datatype f = ''uint8_t''" "txt = show_nat n" "n < 256"
    using f(2) unfolding field_takes_def by blast
  then show thesis
  proof cases
    case c
    let ?cs = "map u8_of_char txt @ [0]"
    have "set_value junk b f txt s = (Inr (), s\<lparr>h_mem := mem_write (h_mem s) (a + (f_pos f + 2)) ?cs, h_rx := []\<rparr>)"
      using write_chars_result [OF assms(1) _ assms(3), of "f_pos f + 2" ?cs] c k p
      by (simp add: set_value_def set_field_str_def text_field_def assms(2) field_width_def)
    moreover have "field_text (mem_write (h_mem s) (a + (f_pos f + 2)) ?cs) a f = txt"
      using text_at_written [OF c(3), of "4 * ((f_size f + 3) div 4)" "h_mem s" "a + (f_pos f + 2)"] c(1,2)
      by (simp add: field_text_def ac_simps)
    ultimately show ?thesis
      by (rule that)
        (use c(1,2) in \<open>auto simp: mem_write_outside field_width_def ends_inside_def mem_write_def nth_append intro!: exI [of _ "length txt"]\<close>)
  next
    case w
    have r: "read_int txt = Some (int n)"
      using read_number_digits [of "- 2147483648" n 2147483647 "[]"] w(2,3) by (simp add: read_int_def show_nat_def)
    let ?v = "of_nat n :: u16"
    have "set_value junk b f txt s = (Inr (),
        s\<lparr>h_mem := (h_mem s)(a + (f_pos f + 2) := lo8 ?v, a + (f_pos f + 3) := hi8 ?v), h_rx := []\<rparr>)"
      using assms(1,3) k p w(1)
      by (simp add: set_value_def set_field_uint16_def number_field_def assms(2) r field_width_def write_at
          fun_upd_def numeral_3_eq_3)
    moreover have "field_text ((h_mem s)(a + (f_pos f + 2) := lo8 ?v, a + (f_pos f + 3) := hi8 ?v)) a f = txt"
      using w by (simp add: field_text_def ac_simps)
    ultimately show ?thesis
      by (rule that) (use w(1) in \<open>auto simp: field_width_def ends_inside_def\<close>)
  next
    case u
    have r: "read_int txt = Some (int n)"
      using read_number_digits [of "- 2147483648" n 2147483647 "[]"] u(2,3) by (simp add: read_int_def show_nat_def)
    have d: "\<forall>c \<in> set txt. cxx_isdigit c" using u(2) dec_digits_digits by (simp add: show_nat_def)
    then have s: "takeWhile (\<lambda>c. c \<noteq> CHR ''#'') txt = txt" "filter (\<lambda>c. \<not> cxx_isspace c) txt = txt"
        "CHR ''b'' \<notin> set txt" "CHR ''B'' \<notin> set txt"
      by (auto simp: takeWhile_eq_all_conv filter_id_conv digit_no_space) (auto simp: cxx_isdigit_def)
    have "take 2 txt \<noteq> ''0b''" using s(3) by (metis in_set_takeD list.set_intros)
    then have v: "uint8_value junk txt = Inr (of_nat n)"
      unfolding uint8_value_def Let_def s(1,2) using s(3,4) r by simp
    have "set_value junk b f txt s = (Inr (), s\<lparr>h_mem := (h_mem s)(a + (f_pos f + 2) := of_nat n), h_rx := []\<rparr>)"
      using write_at [OF assms(1) _ assms(3), of "f_pos f + 2" "of_nat n"] k p u(1)
      by (simp add: set_value_def set_field_uint8_def number_field_def assms(2) v field_width_def)
    moreover have "field_text ((h_mem s)(a + (f_pos f + 2) := of_nat n)) a f = txt"
      using u by (simp add: field_text_def ac_simps)
    ultimately show ?thesis
      by (rule that) (use u(1) in \<open>auto simp: field_width_def ends_inside_def\<close>)
  qed
qed

text \<open>What is shown depends on the bytes of the field, for a text as long as it ends inside.\<close>

lemma text_at_cut:
  assumes "\<exists>j < n. m (b + j) = 0" and "n \<le> n'" shows "text_at m b n' = text_at m b n"
proof -
  obtain k where k: "n' = n + k" using assms(2) le_Suc_ex by blast
  have "[0..<n'] = [0..<n] @ [n..<n']" unfolding k by (rule upt_add_eq_append) simp
  moreover have "length (takeWhile (\<lambda>x. x \<noteq> 0) (map (\<lambda>j. m (b + j)) [0..<n])) < length (map (\<lambda>j. m (b + j)) [0..<n])"
  proof (rule ccontr)
    assume "\<not> length (takeWhile (\<lambda>x. x \<noteq> 0) (map (\<lambda>j. m (b + j)) [0..<n])) < length (map (\<lambda>j. m (b + j)) [0..<n])"
    then have "takeWhile (\<lambda>x. x \<noteq> 0) (map (\<lambda>j. m (b + j)) [0..<n]) = map (\<lambda>j. m (b + j)) [0..<n]"
      using length_takeWhile_le [of "\<lambda>x. x \<noteq> 0" "map (\<lambda>j. m (b + j)) [0..<n]"]
      by (metis (no_types, lifting) linorder_not_less nth_equalityI order_antisym takeWhile_nth)
    then show False using assms(1) by (auto simp: takeWhile_eq_all_conv)
  qed
  ultimately show ?thesis by (simp only: text_at_def map_append takeWhile_append_short) simp
qed


lemma four_times: "n \<le> 4 * ((n + 3) div 4)" for n :: nat
  by presburger

lemma field_text_region:
  assumes "ends_inside m a f" and "0 < field_width f"
    and "\<And>i. a + 2 + f_pos f \<le> i \<Longrightarrow> i < a + 2 + f_pos f + field_width f \<Longrightarrow> m' i = m i"
  shows "field_text m' a f = field_text m a f" "ends_inside m' a f"
proof -
  show e: "ends_inside m' a f"
    using assms(1,3) by (auto simp: ends_inside_def field_width_def)
  consider (c) "f_datatype f = ''char''" | (w) "f_datatype f = ''uint16_t''" | (u) "f_datatype f \<noteq> ''char''" "f_datatype f \<noteq> ''uint16_t''"
    by blast
  then show "field_text m' a f = field_text m a f"
  proof cases
    case c
    have t: "field_text m a f = text_at m (a + 2 + f_pos f) (f_size f)" if "ends_inside m a f" for m
      using that c text_at_cut [of "f_size f" m "a + 2 + f_pos f", OF _ four_times] by (simp add: field_text_def ends_inside_def)
    have "text_at m' (a + 2 + f_pos f) (f_size f) = text_at m (a + 2 + f_pos f) (f_size f)"
      unfolding text_at_def using assms(3) c
      by (intro arg_cong [of _ _ "\<lambda>l. map char_of_u8 (takeWhile (\<lambda>x. x \<noteq> 0) l)"] map_cong refl) (simp add: field_width_def)
    then show ?thesis using t [OF e] t [OF assms(1)] by simp
  next
    case w
    then show ?thesis using assms(3) by (simp add: field_text_def field_width_def)
  next
    case u
    then show ?thesis using assms(3) by (simp add: field_text_def field_width_def)
  qed
qed

definition known_type :: "field_desc \<Rightarrow> bool" where
  "known_type f \<longleftrightarrow> f_datatype f \<in> {''char'', ''uint16_t'', ''uint8_t''}"

lemma char_of_u8_zero: "char_of_u8 b = CHR 0x00 \<Longrightarrow> b = 0"
proof -
  assume "char_of_u8 b = CHR 0x00"
  then have "(of_char (char_of_u8 b) :: nat) = 0" by simp
  then show "b = 0" by (simp add: char_of_u8_def word_unat_eq_iff)
qed

lemma takes_field_text:
  assumes "ends_inside m a f" and "known_type f" shows "field_takes f (field_text m a f)"
proof (cases "f_datatype f = ''char''")
  case True
  let ?l = "map (\<lambda>j. m (a + 2 + f_pos f + j)) [0..<f_size f]"
  from True assms(1) obtain j where j: "j < f_size f" "m (a + 2 + f_pos f + j) = 0" by (auto simp: ends_inside_def)
  have s: "field_text m a f = map char_of_u8 (takeWhile (\<lambda>x. x \<noteq> 0) ?l)"
    using True text_at_cut [of "f_size f" m "a + 2 + f_pos f", OF _ four_times] j by (auto simp: field_text_def text_at_def)
  have "length (takeWhile (\<lambda>x. x \<noteq> 0) ?l) \<le> j"
  proof (rule ccontr)
    assume "\<not> length (takeWhile (\<lambda>x. x \<noteq> 0) ?l) \<le> j"
    then have l: "j < length (takeWhile (\<lambda>x. x \<noteq> 0) ?l)" by simp
    then have "takeWhile (\<lambda>x. x \<noteq> 0) ?l ! j \<noteq> 0" by (metis (mono_tags) nth_mem set_takeWhileD)
    then have "?l ! j \<noteq> 0" by (simp only: takeWhile_nth [OF l] not_False_eq_True)
    then show False using j by simp
  qed
  moreover have "CHR 0x00 \<notin> set (map char_of_u8 (takeWhile (\<lambda>x. x \<noteq> 0) ?l))"
  proof
    assume "CHR 0x00 \<in> set (map char_of_u8 (takeWhile (\<lambda>x. x \<noteq> 0) ?l))"
    then have "CHR 0x00 \<in> char_of_u8 ` set (takeWhile (\<lambda>x. x \<noteq> 0) ?l)" by (simp only: list.set_map)
    then obtain b where b: "b \<in> set (takeWhile (\<lambda>x. x \<noteq> 0) ?l)" "CHR 0x00 = char_of_u8 b" by (rule imageE)
    from set_takeWhileD [OF b(1)] char_of_u8_zero [OF b(2) [symmetric]] show False by simp
  qed
  ultimately show ?thesis using True j(1) by (simp add: field_takes_def s)
next
  case False
  then show ?thesis using assms(2) by (auto simp: field_takes_def known_type_def field_text_def show_nat_def)
qed

section \<open>A line for a field\<close>

text \<open>Words with single spaces between them.\<close>

definition single_spaced :: "string \<Rightarrow> bool" where
  "single_spaced t \<longleftrightarrow> (t \<noteq> [] \<longrightarrow> \<not> cxx_isspace (hd t) \<and> \<not> cxx_isspace (last t)) \<and>
     (\<forall>i < length t - 1. cxx_isspace (t ! i) \<longrightarrow> t ! i = CHR '' '' \<and> \<not> cxx_isspace (t ! Suc i))"

lemma value_words_Nil [simp]: "value_words b v [] = v"
  by (subst value_words.simps) simp

lemma value_words_spaced:
  "single_spaced t \<Longrightarrow> t \<noteq> [] \<Longrightarrow>
   value_words first acc (CHR '' '' # t) = (if first then acc else acc @ '' '') @ t"
proof (induction "length t" arbitrary: t first acc rule: less_induct)
  case less
  define w where "w = takeWhile (\<lambda>c. \<not> cxx_isspace c) t"
  define r where "r = dropWhile (\<lambda>c. \<not> cxx_isspace c) t"
  have t: "t = w @ r" by (simp add: w_def r_def)
  have w: "is_word w" using less.prems by (cases t) (auto simp: is_word_def w_def single_spaced_def dest: set_takeWhileD)
  have hr: "r = [] \<or> cxx_isspace (hd r)" using hd_dropWhile [of "\<lambda>c. \<not> cxx_isspace c" t] by (auto simp: r_def)
  have v: "value_words first acc (CHR '' '' # t) = value_words False ((if first then acc else acc @ '' '') @ w) r"
    unfolding t value_words.simps [of first acc "CHR '' '' # w @ r"] read_word_spaced [OF w hr] by simp
  show ?case
  proof (cases r)
    case Nil
    then have "w = t" using t by simp
    then show ?thesis using v Nil by simp
  next
    case (Cons c u)
    have i: "t ! length w = c" and u: "u = drop (Suc (length w)) t" by (simp_all add: t Cons nth_append)
    have c: "cxx_isspace c" using hr Cons by simp
    have une: "u \<noteq> []"
    proof
      assume "u = []"
      then have "last t = c" by (simp add: t Cons)
      then show False using c less.prems by (simp add: single_spaced_def)
    qed
    then have l: "length w < length t - 1" by (simp add: t Cons)
    then have ci: "c = CHR '' ''" "\<not> cxx_isspace (hd u)"
      using less.prems(1) c i une by (auto simp: single_spaced_def u hd_drop_conv_nth)
    have "single_spaced u"
      using less.prems une ci(2) unfolding single_spaced_def
      by (auto simp: u nth_append)
    moreover have "length u < length t" by (simp add: t Cons)
    ultimately have "value_words False ((if first then acc else acc @ '' '') @ w) (CHR '' '' # u) =
        (((if first then acc else acc @ '' '') @ w) @ '' '') @ u"
      using less.hyps [of u False] une by simp
    then show ?thesis using v Cons ci(1) t by simp
  qed
qed

text \<open>What a word and a value of a line are read as.\<close>

lemma next_word_spaced: "is_word w \<Longrightarrow> ys = [] \<or> cxx_isspace (hd ys) \<Longrightarrow> next_word old (CHR '' '' # w @ ys) = (w, ys)"
  by (simp add: next_word_def read_word_spaced)

lemma next_word_first: "is_word w \<Longrightarrow> ys = [] \<or> cxx_isspace (hd ys) \<Longrightarrow> next_word old (w @ ys) = (w, ys)"
  by (simp add: next_word_def read_word_first)

lemma value_words_value: "single_spaced t \<Longrightarrow> value_words True [] (CHR '' '' # t) = t"
proof (cases "t = []")
  case True
  then show ?thesis by (subst value_words.simps) (simp add: read_word_def)
qed (simp add: value_words_spaced)

lemma words_of_commands [simp]:
  "is_word ''set''" "is_word ''create''" "is_word ''exit''" "is_word ''show''"
  by (simp_all add: is_word_def cxx_isspace_def)

lemma single_spaced_no_space: "\<forall>c \<in> set t. \<not> cxx_isspace c \<Longrightarrow> single_spaced t"
  by (simp add: single_spaced_def)

lemma single_spaced_number [simp]: "single_spaced (show_nat n)"
  using dec_digits_digits by (intro single_spaced_no_space) (auto simp: show_nat_def digit_no_space)

definition conf_line :: "field_desc \<Rightarrow> string \<Rightarrow> string" where
  "conf_line f t = ''  set '' @ f_name f @ '' '' @ t"

lemma set_line_executed:
  assumes "ctx_mode c = mode_edit" and "is_word (f_name f)" and "single_spaced t"
  shows "eds_exec_cmd descs junk c (conf_line f t) s =
    finished c (eds_cmd_set_field junk (ctx_block c) (f_name f) t s)"
proof -
  have "read_word (''  '' @ ''set'' @ '' '' @ f_name f @ '' '' @ t) = (Some ''set'', '' '' @ f_name f @ '' '' @ t)"
    by (rule read_word_word) (simp_all add: cxx_isspace_def)
  then have 1: "next_word [] (conf_line f t) = (''set'', CHR '' '' # f_name f @ CHR '' '' # t)"
    by (simp add: next_word_def conf_line_def)
  have 2: "next_word ''set'' (CHR '' '' # f_name f @ CHR '' '' # t) = (f_name f, CHR '' '' # t)"
    by (rule next_word_spaced [OF assms(2)]) simp
  show ?thesis
    using assms(1) by (simp add: eds_exec_cmd_def 1 eds_exec_rest_def 2 value_words_value [OF assms(3)])
qed

section \<open>A file of commands\<close>

text \<open>
  The loop over the lines of a file in \<^verbatim>\<open>telican\<close>: an empty line and a comment are
  done with, a line no one knows and an exception end it. The driver of the board, which is offered every line first, is left out
  here: that it passes the lines of a listed configuration on is shown in \<^verbatim>\<open>Host_Board\<close>.
\<close>

fun exec_lines ::
  "block_desc list \<Rightarrow> int \<Rightarrow> host_context \<Rightarrow> string list \<Rightarrow> eds_session \<Rightarrow>
   ((host_error + bool) \<times> host_context \<times> eds_session) option" where
  "exec_lines descs junk c [] s = Some (Inr True, c, s)"
| "exec_lines descs junk c (l # ls) s =
     (if l = [] \<or> hd l = CHR ''#'' then exec_lines descs junk c ls s
      else (case eds_exec_cmd descs junk c l s of
              None \<Rightarrow> None
            | Some (Inr True, c, s) \<Rightarrow> exec_lines descs junk c ls s
            | Some r \<Rightarrow> Some r))"

text \<open>The board a configuration is entered on: it edits a block at \<open>p\<close> with the description \<open>d\<close>.\<close>

definition edits :: "host_context \<Rightarrow> eds_session \<Rightarrow> nat \<Rightarrow> block_desc \<Rightarrow> bool" where
  "edits c s p d \<longleftrightarrow> ctx_mode c = mode_edit \<and> ctx_block c = of_nat p \<and> p < 65000 \<and> no_mail s \<and>
     (\<exists>b. find (\<lambda>i. b_address i = of_nat p) (h_blocks s) = Some b \<and> b_address b = of_nat p \<and> b_desc b = d)"

lemma exec_set_line:
  assumes e: "edits c s p d" and f: "field_of d f" "field_takes f t" "is_word (f_name f)" "single_spaced t"
  obtains m where "exec_lines descs junk c (conf_line f t # ls) s =
      exec_lines descs junk c ls (s\<lparr>h_mem := m, h_rx := []\<rparr>)"
    "field_text m p f = t" "ends_inside m p f"
    "\<And>i. i < p + 2 + f_pos f \<or> p + 2 + f_pos f + field_width f \<le> i \<Longrightarrow> m i = h_mem s i"
proof -
  obtain b where b: "find (\<lambda>i. b_address i = of_nat p) (h_blocks s) = Some b" "b_address b = of_nat p" "b_desc b = d"
    and c: "ctx_mode c = mode_edit" "ctx_block c = of_nat p" and p: "p < 65000" and n: "no_mail s"
    using e by (auto simp: edits_def)
  obtain m where m: "set_value junk b f t s = (Inr (), s\<lparr>h_mem := m, h_rx := []\<rparr>)" "field_text m p f = t"
    "ends_inside m p f" "\<And>i. i < p + 2 + f_pos f \<or> p + 2 + f_pos f + field_width f \<le> i \<Longrightarrow> m i = h_mem s i"
    using set_value_result [OF n b(2) p, of f t junk] f(1,2) b(3) by blast
  have "eds_cmd_set_field junk (of_nat p) (f_name f) t s = s\<lparr>h_mem := m, h_rx := []\<rparr>"
    using f(1) b m(1) by (simp add: eds_cmd_set_field_def block_by_address_def field_of_def)
  then have x: "eds_exec_cmd descs junk c (conf_line f t) s = Some (Inr True, c, s\<lparr>h_mem := m, h_rx := []\<rparr>)"
    using set_line_executed [OF c(1) f(3,4)] c(2) by (simp add: finished_def)
  have "exec_lines descs junk c (conf_line f t # ls) s = exec_lines descs junk c ls (s\<lparr>h_mem := m, h_rx := []\<rparr>)"
    by (simp add: x) (simp add: conf_line_def)
  from that [OF this m(2,3,4)] show thesis .
qed

lemma edits_update: "edits c s p d \<Longrightarrow> edits c (s\<lparr>h_mem := m, h_rx := []\<rparr>) p d"
  by (simp add: edits_def no_mail_def)

text \<open>The fields of a block, one after the other: no line changes what an earlier one has set.\<close>

lemma exec_set_lines:
  assumes "edits c s p d" and "tiled q fs n"
    and "\<And>f. f \<in> set fs \<Longrightarrow> field_of d f \<and> field_takes f (val f) \<and> is_word (f_name f) \<and> single_spaced (val f)"
  obtains m where "exec_lines descs junk c (map (\<lambda>f. conf_line f (val f)) fs @ ls) s =
      exec_lines descs junk c ls (if fs = [] then s else s\<lparr>h_mem := m, h_rx := []\<rparr>)"
    "fs = [] \<Longrightarrow> m = h_mem s"
    "\<And>f. f \<in> set fs \<Longrightarrow> field_text m p f = val f \<and> ends_inside m p f"
    "\<And>i. i < p + 2 + q \<or> p + 2 + n \<le> i \<Longrightarrow> m i = h_mem s i"
  using assms
proof (induction fs arbitrary: s q thesis)
  case Nil
  show ?case by (rule Nil.prems(1) [of "h_mem s"]) simp_all
next
  case (Cons f fs)
  note t = Cons.prems(3)
  have f: "field_of d f" "field_takes f (val f)" "is_word (f_name f)" "single_spaced (val f)" "f_pos f = q" "0 < field_width f"
    using Cons.prems(4) [of f] t by simp_all
  have t': "tiled (q + field_width f) fs n" using t by simp
  obtain m1 where m1: "exec_lines descs junk c (conf_line f (val f) # (map (\<lambda>f. conf_line f (val f)) fs @ ls)) s =
      exec_lines descs junk c (map (\<lambda>f. conf_line f (val f)) fs @ ls) (s\<lparr>h_mem := m1, h_rx := []\<rparr>)"
    "field_text m1 p f = val f" "ends_inside m1 p f"
    "\<And>i. i < p + 2 + f_pos f \<or> p + 2 + f_pos f + field_width f \<le> i \<Longrightarrow> m1 i = h_mem s i"
    by (rule exec_set_line [OF Cons.prems(2) f(1-4)]) blast
  let ?s = "s\<lparr>h_mem := m1, h_rx := []\<rparr>"
  obtain m where m: "exec_lines descs junk c (map (\<lambda>f. conf_line f (val f)) fs @ ls) ?s =
      exec_lines descs junk c ls (if fs = [] then ?s else ?s\<lparr>h_mem := m, h_rx := []\<rparr>)"
    "fs = [] \<Longrightarrow> m = h_mem ?s"
    "\<And>f. f \<in> set fs \<Longrightarrow> field_text m p f = val f \<and> ends_inside m p f"
    "\<And>i. i < p + 2 + (q + field_width f) \<or> p + 2 + n \<le> i \<Longrightarrow> m i = h_mem ?s i"
    by (rule Cons.IH [of ?s "q + field_width f"]) (use edits_update [OF Cons.prems(2)] t' Cons.prems(4) in auto)
  have mi: "m i = m1 i" if "i < p + 2 + (q + field_width f) \<or> p + 2 + n \<le> i" for i
    using m(4) [OF that] by simp
  have qn: "q + field_width f \<le> n" using tiled_bounds [OF t'] by simp
  show ?case
  proof (rule Cons.prems(1) [of m])
    show "exec_lines descs junk c (map (\<lambda>f. conf_line f (val f)) (f # fs) @ ls) s =
        exec_lines descs junk c ls (if f # fs = [] then s else s\<lparr>h_mem := m, h_rx := []\<rparr>)"
      using m1(1) m(1,2) by auto
    show "field_text m p g = val g \<and> ends_inside m p g" if "g \<in> set (f # fs)" for g
    proof (cases "g \<in> set fs")
      case True
      then show ?thesis by (rule m(3))
    next
      case False
      then have g: "g = f" using that by simp
      have "field_text m p f = field_text m1 p f \<and> ends_inside m p f"
        using field_text_region [OF m1(3) f(6), of m] mi f(5) by simp
      then show ?thesis using m1(2) by (simp add: g)
    qed
    show "m i = h_mem s i" if "i < p + 2 + q \<or> p + 2 + n \<le> i" for i
      using that mi [of i] m1(4) [of i] f(5,6) qn by auto
  qed simp
qed

end
