(* ===== verification/Host_Transfer.thy ===== *)
theory Host_Transfer
  imports Host_Replay
begin

text \<open>
  A block taken from one board to another: its listing, the commands of the listing entered
  again, and what becomes of the memory of the board they are entered on.
\<close>

section \<open>The listing\<close>

definition conf_text :: "nat \<Rightarrow> block_desc \<Rightarrow> (field_desc \<Rightarrow> string) \<Rightarrow> string list" where
  "conf_text a d val = [''# EDS-Address: '' @ show_nat a, ''create '' @ d_name d] @
     map (\<lambda>f. conf_line f (val f)) (d_fields d) @ [''exit'']"

lemma conf_fields_result:
  assumes "no_mail s" and "b_address b = of_nat a" and "a < 65000" and "\<forall>f \<in> set fs. field_of (b_desc b) f"
  shows "conf_fields b fs s = (Inr (), if fs = [] then s
    else s\<lparr>h_rx := [], h_out := h_out s @ map (\<lambda>f. conf_line f (field_text (h_mem s) a f)) fs\<rparr>)"
  using assms
proof (induction fs arbitrary: s)
  case (Cons f fs)
  let ?s = "s\<lparr>h_rx := [], h_out := h_out s @ [conf_line f (field_text (h_mem s) a f)]\<rparr>"
  have "conf_fields b (f # fs) s = conf_fields b fs ?s"
    using value_text_result [OF Cons.prems(1-3)] Cons.prems(4) by (simp add: print_def conf_line_def)
  also have "\<dots> = (Inr (), if fs = [] then ?s
      else ?s\<lparr>h_rx := [], h_out := h_out ?s @ map (\<lambda>f. conf_line f (field_text (h_mem ?s) a f)) fs\<rparr>)"
    using Cons.prems by (intro Cons.IH) (simp_all add: no_mail_def)
  finally show ?case by simp
qed simp

lemma conf_block_result:
  assumes "no_mail s" and "b_address b = of_nat a" and "a < 65000" and "\<forall>f \<in> set (d_fields (b_desc b)). field_of (b_desc b) f"
    and "d_fields (b_desc b) \<noteq> []"
  shows "conf_block b s = (Inr (),
    s\<lparr>h_rx := [], h_out := h_out s @ conf_text a (b_desc b) (field_text (h_mem s) a)\<rparr>)"
proof -
  let ?s = "s\<lparr>h_out := h_out s @ [''# EDS-Address: '' @ show_nat a, ''create '' @ d_name (b_desc b)]\<rparr>"
  have a: "unat (b_address b) = a" using assms(2,3) by (simp add: unat_of_nat)
  have n: "no_mail ?s" using assms(1) by (simp add: no_mail_def)
  show ?thesis
    using conf_fields_result [OF n assms(2-4)] assms(5) by (simp add: conf_block_def a print_def conf_text_def)
qed

section \<open>Descriptions that can be entered\<close>

text \<open>
  The descriptions of the system: found by name and by type, fields side by side with different
  names, none of them one of the words \<^verbatim>\<open>set\<close> has another use for in the driver of the board.
\<close>

definition describes :: "block_desc list \<Rightarrow> block_desc \<Rightarrow> bool" where
  "describes descs d \<longleftrightarrow>
     find (\<lambda>i. d_name i = d_name d) descs = Some d \<and> find (\<lambda>i. d_type i = d_type d) descs = Some d \<and>
     d_type d \<noteq> 0 \<and> is_word (d_name d) \<and> d_fields d \<noteq> [] \<and>
     tiled 0 (d_fields d) (d_size d) \<and> d_size d \<le> 128 \<and> distinct (map f_name (d_fields d)) \<and>
     (\<forall>f \<in> set (d_fields d). known_type f \<and> is_word (f_name f) \<and>
        f_name f \<notin> {''ee'', ''address'', ''boardtyp'', ''sysloglevel''})"

lemma find_distinct:
  "distinct (map g xs) \<Longrightarrow> x \<in> set xs \<Longrightarrow> find (\<lambda>i. g i = g x) xs = Some x"
  by (induction xs) auto

lemma describes_field:
  assumes "describes descs d" and "f \<in> set (d_fields d)"
  shows "field_of d f" "known_type f" "is_word (f_name f)"
proof -
  have "tiled 0 (d_fields d) (d_size d)" "d_size d \<le> 128" "distinct (map f_name (d_fields d))"
    using assms(1) by (simp_all add: describes_def)
  moreover obtain xs ys where "d_fields d = xs @ f # ys" using assms(2) by (metis split_list)
  ultimately show "field_of d f"
    using tiled_bounds [of 0 "d_fields d" "d_size d"] tiled_append [of 0 xs f ys "d_size d"] assms(2)
      find_distinct [of f_name "d_fields d" f]
    by (auto simp: field_of_def get_block_field_desc_by_key_def)
  show "known_type f" "is_word (f_name f)" using assms by (auto simp: describes_def)
qed

text \<open>The values of a block whose texts end inside their fields and have single spaces between their words.\<close>

definition values_plain :: "eeprom \<Rightarrow> nat \<Rightarrow> block_desc \<Rightarrow> bool" where
  "values_plain m a d \<longleftrightarrow> (\<forall>f \<in> set (d_fields d). f_datatype f = ''char'' \<longrightarrow> ends_inside m a f \<and> single_spaced (field_text m a f))"

lemma values_plain_field:
  assumes "values_plain m a d" and "f \<in> set (d_fields d)" and "known_type f"
  shows "field_takes f (field_text m a f)" "single_spaced (field_text m a f)"
proof -
  have e: "ends_inside m a f" using assms by (auto simp: values_plain_def ends_inside_def)
  show "field_takes f (field_text m a f)" by (rule takes_field_text [OF e assms(3)])
  show "single_spaced (field_text m a f)" using assms by (auto simp: values_plain_def field_text_def)
qed

section \<open>Entering it\<close>

lemma create_line_executed:
  "is_word n \<Longrightarrow> eds_exec_cmd descs junk c (''create '' @ n) s =
   (case eds_cmd_create descs c n s of (c, s) \<Rightarrow> finished c s)"
  using next_word_first [of "''create''" "CHR '' '' # n" "[]"] next_word_spaced [of n "[]" "''create''"]
  by (simp add: eds_exec_cmd_def eds_exec_rest_def)

lemma exit_line_executed:
  "ctx_mode c = mode_edit \<Longrightarrow> eds_exec_cmd descs junk c ''exit'' s = finished (reset_context c) s"
  using next_word_first [of "''exit''" "[]" "[]"] by (simp add: eds_exec_cmd_def eds_exec_rest_def)

lemma conf_text_entered:
  assumes d: "describes descs d" and v: "\<forall>f \<in> set (d_fields d). field_takes f (val f) \<and> single_spaced (val f)"
    and cr: "create_block descs (d_name d) s = (Inr b, s1)" "b_address b = of_nat p" "b_desc b = d" "p < 65000"
      "no_mail s1" "find (\<lambda>i. b_address i = of_nat p) (h_blocks s1) = Some b"
  obtains m c' l where "exec_lines descs junk c (conf_text a d val) s =
      Some (Inr True, reset_context c', s1\<lparr>h_mem := m, h_rx := [], h_out := h_out s1 @ [l]\<rparr>)"
    "\<And>f. f \<in> set (d_fields d) \<Longrightarrow> field_text m p f = val f \<and> ends_inside m p f"
    "\<And>i. i < p + 2 \<or> p + 2 + d_size d \<le> i \<Longrightarrow> m i = h_mem s1 i"
proof -
  define c2 where "c2 = edit_context b c"
  define l where "l = ''creating new '' @ d_name d @ '', type id = '' @ show_nat (unat (b_type b)) @ ''...''"
  define s2 where "s2 = s1\<lparr>h_out := h_out s1 @ [l]\<rparr>"
  have n: "d_name d \<noteq> []" "is_word (d_name d)" "d_fields d \<noteq> []" "tiled 0 (d_fields d) (d_size d)"
    using d by (simp_all add: describes_def is_word_def)
  have e: "edits c2 s2 p d"
    using cr by (simp add: edits_def c2_def s2_def edit_context_def no_mail_def)
  have c: "eds_exec_cmd descs junk c (''create '' @ d_name d) s = Some (Inr True, c2, s2)"
    by (simp add: create_line_executed [OF n(2), simplified] eds_cmd_create_def cr(1) c2_def s2_def finished_def print_def l_def)
  obtain m where m: "exec_lines descs junk c2 (map (\<lambda>f. conf_line f (val f)) (d_fields d) @ [''exit'']) s2 =
      exec_lines descs junk c2 [''exit''] (if d_fields d = [] then s2 else s2\<lparr>h_mem := m, h_rx := []\<rparr>)"
    "\<And>f. f \<in> set (d_fields d) \<Longrightarrow> field_text m p f = val f \<and> ends_inside m p f"
    "\<And>i. i < p + 2 + 0 \<or> p + 2 + d_size d \<le> i \<Longrightarrow> m i = h_mem s2 i"
    by (rule exec_set_lines [OF e n(4), of val descs junk "[''exit'']"]) (use v describes_field [OF d] in blast)+
  have "exec_lines descs junk c (conf_text a d val) s =
      exec_lines descs junk c2 (map (\<lambda>f. conf_line f (val f)) (d_fields d) @ [''exit'']) s2"
    using c by (simp add: conf_text_def)
  also have "\<dots> = Some (Inr True, reset_context c2, s1\<lparr>h_mem := m, h_rx := [], h_out := h_out s1 @ [l]\<rparr>)"
    using m(1) n(3) e by (simp add: exit_line_executed finished_def edits_def s2_def)
  finally show thesis using that m(2,3) by (simp add: s2_def)
qed

text \<open>Creating a block, on a board with room and on a full one.\<close>

lemma create_block_answered:
  assumes "eds_wf (h_mcu s) (h_mem s)" and "no_mail s" and "describes descs d"
    and al: "(case alloc_typed (h_mcu s) (h_mem s) (d_type d) (of_nat (d_size d)) of None \<Rightarrow> (0, (h_mem s)(0 := d_type d)) | Some r \<Rightarrow> r) = (p, m)"
    and m: "p < 65000" "m p = d_type d" and u: "\<forall>x \<in> set (h_blocks s). b_address x \<noteq> of_nat p"
  obtains b where "create_block descs (d_name d) s = (Inr b, s\<lparr>h_mem := m, h_rx := [], h_blocks := h_blocks s @ [b]\<rparr>)"
    "b = \<lparr>b_address = of_nat p, b_type = d_type d, b_size = m (padd p 1), b_desc = d\<rparr>"
    "find (\<lambda>i. b_address i = of_nat p) (h_blocks s @ [b]) = Some b"
proof -
  let ?n = "of_nat (d_size d) :: u8" and ?s = "s\<lparr>h_mem := m, h_rx := []\<rparr>"
  have ask: "eds_ask HCAN_EDS_ALLOCATE_BLOCK [d_type d, ?n] 2 s = (Inr [hi8 (of_nat p), lo8 (of_nat p)], ?s)"
    using callback_allocate [OF assms(1), of "mk_frame (h_src s) (h_dst s) HCAN_PROTO_SFP [HCAN_SRV_EDS, HCAN_EDS_ALLOCATE_BLOCK, d_type d, ?n]" "h_dst s"] al
    by (intro eds_ask_answered [OF assms(2)]) (auto simp: Let_def split: option.splits prod.splits)
  define b where "b = \<lparr>b_address = of_nat p, b_type = d_type d, b_size = m (padd p 1), b_desc = d\<rparr>"
  have d: "find (\<lambda>i. d_name i = d_name d) descs = Some d" "get_block_desc_by_type descs (d_type d) = Inr d"
    using assms(3) by (simp_all add: describes_def get_block_desc_by_type_def)
  have p: "unat (of_nat p :: u16) = p" using m(1) by (simp add: unat_of_nat)
  have blk: "eds_block descs (of_nat p) ?s = (Inr b, ?s)"
    using eds_block_result [OF no_mail_empty, of descs "of_nat p" "s\<lparr>h_mem := m\<rparr>"] m(2) d(2)
    by (simp add: p b_def)
  have f: "find (\<lambda>i. b_address i = of_nat p) (h_blocks s @ [b]) = Some b"
    unfolding find_Some_iff using u by (intro exI [of _ "length (h_blocks s)"]) (simp add: nth_append b_def)
  have "create_block descs (d_name d) s = (Inr b, s\<lparr>h_mem := m, h_rx := [], h_blocks := h_blocks s @ [b]\<rparr>)"
    by (simp add: create_block_def d(1) ask blk Let_def block_by_address_def f)
  from that [OF this b_def f] show thesis .
qed

text \<open>What is written into the payload of a block changes neither the other blocks nor the chain.\<close>

lemma payload_written:
  assumes wf: "eds_wf c m" and b: "(p, t, n) \<in> set (eds_blocks c m)"
    and m: "\<And>i. i < p + 2 \<or> p + 2 + n \<le> i \<Longrightarrow> m' i = m i"
  shows "eds_wf c m'" "filter (\<lambda>u. fst u \<noteq> p) (eds_used c m') = filter (\<lambda>u. fst u \<noteq> p) (eds_used c m)"
proof -
  obtain xs ys where bs: "eds_blocks c m = xs @ (p, t, n) # ys" using b by (metis split_list)
  let ?q = "EDS_END c + 1"
  have ch: "chain c m EDS_DATA_START (eds_blocks c m) ?q" by (rule wf_chain [OF wf])
  then have t: "tiles m EDS_DATA_START xs p" "m p = t" "unat (m (p + 1)) = n" "tiles m (p + 2 + n) ys ?q"
    by (auto simp: chain_def bs tiles_append)
  have t': "tiles m' EDS_DATA_START xs p" "tiles m' (p + 2 + n) ys ?q"
    using tiles_cong [OF _ t(1), of m'] tiles_cong [OF _ t(4), of m'] m by simp_all
  have ch': "chain c m' EDS_DATA_START (eds_blocks c m) ?q"
    using t' t(2,3) m ch by (auto simp: chain_def bs tiles_append)
  have bs': "eds_blocks c m' = eds_blocks c m" by (rule chain_blocks [OF ch'])
  have "EDS_DATA_START \<le> p" using tiles_le [OF t(1)] .
  then show "eds_wf c m'"
    using wf m by (simp add: chain_wf [OF ch']) (simp add: eds_wf_def)
  have "used_of m' xs = used_of m xs" "used_of m' ys = used_of m ys"
    using used_of_cong [OF _ t(1), of m'] used_of_cong [OF _ t(4), of m'] m by simp_all
  then show "filter (\<lambda>u. fst u \<noteq> p) (eds_used c m') = filter (\<lambda>u. fst u \<noteq> p) (eds_used c m)"
    by (simp add: eds_used_def bs' bs used_of_append used_of_Cons)
qed

lemma used_block: "(p, t, bs) \<in> set (eds_used c m) \<Longrightarrow> (p, t, length bs) \<in> set (eds_blocks c m)"
  unfolding eds_used_def used_of_def by (auto simp del: upt_Suc)

lemma alloc_typed_place:
  assumes "eds_wf c m" and "alloc_typed c m t n = Some (p, m')"
  shows "p < 65000" "m' p = t"
proof -
  obtain m1 where m1: "m' = m1(p := t)" "eds_wf c m1" "(p, 0, unat n) \<in> set (eds_blocks c m1)"
    using alloc_typed_Some [OF assms] by blast
  have "p < EDS_END c" using wf_chain [OF m1(2)] m1(3) by (force simp: chain_def)
  then show "p < 65000" using EDS_END_bounds(2) [of c] by simp
  show "m' p = t" by (simp add: m1(1))
qed

section \<open>Properties\<close>

text \<open>
  Example: the push button of the descriptions, a board with one such block, and a board
  whose blocks are all in use.
\<close>

definition taster_desc :: block_desc where
  "taster_desc = \<lparr>d_type = 10, d_name = ''taster'', d_size = 3, d_fields = map (\<lambda>(n, p).
     \<lparr>f_datatype = ''uint8_t'', f_name = n, f_pos = p, f_size = 0, f_bits = []\<rparr>) [(''port'', 0), (''feature'', 1), (''gruppe'', 2)]\<rparr>"

lemma describes_taster: "describes [taster_desc] taster_desc"
  unfolding describes_def taster_desc_def by (simp add: is_word_def cxx_isspace_def known_type_def field_width_def)

definition session_with :: "eeprom \<Rightarrow> eds_session" where
  "session_with m = \<lparr>h_mcu = ATmega32, h_src = 800, h_dst = 7, h_mem = m, h_rx = [], h_blocks = [], h_out = [], h_err = []\<rparr>"

lemma session_with_sel [simp]: "no_mail (session_with m)" "h_mem (session_with m) = m" "h_mcu (session_with m) = ATmega32"
    "h_blocks (session_with m) = []" "h_out (session_with m) = []"
  by (simp_all add: session_with_def no_mail_def)

definition full_eeprom :: eeprom where
  "full_eeprom = fold (\<lambda>a m. m(a := 1)) [34, 164, 294, 424, 554, 684, 814, 944] fresh_eeprom"

lemma heads_marked:
  "eds_wf c m \<Longrightarrow> set as \<subseteq> fst ` set (eds_blocks c m) \<Longrightarrow>
   eds_wf c (fold (\<lambda>a m. m(a := t)) as m) \<and>
   eds_blocks c (fold (\<lambda>a m. m(a := t)) as m) = fold (\<lambda>a. retype a t) as (eds_blocks c m)"
proof (induction as arbitrary: m)
  case (Cons a as)
  have a: "a \<in> fst ` set (eds_blocks c m)" using Cons.prems(2) by simp
  note r = eds_retype [OF Cons.prems(1) a, of t]
  have "set as \<subseteq> fst ` set (eds_blocks c (m(a := t)))"
    using Cons.prems(2) by (simp only: r(2) fst_retype) simp
  from Cons.IH [OF r(1) this] show ?case by (simp only: fold_simps r(2))
qed simp

lemma full_eeprom_facts: "eds_wf ATmega32 full_eeprom" "alloc_typed ATmega32 full_eeprom t n = None"
proof -
  note f = heads_marked [OF fresh_eeprom_facts(1), of "[34, 164, 294, 424, 554, 684, 814, 944]" 1, folded full_eeprom_def]
  have b: "eds_blocks ATmega32 full_eeprom = [(34, 1, 128), (164, 1, 128), (294, 1, 128), (424, 1, 128), (554, 1, 128), (684, 1, 128),
      (814, 1, 128), (944, 1, 78)]" and w: "eds_wf ATmega32 full_eeprom"
    using f by (simp_all add: retype_def)
  show "eds_wf ATmega32 full_eeprom" by (rule w)
  show "alloc_typed ATmega32 full_eeprom t n = None"
    by (simp add: alloc_typed_None [OF w] alloc_spec_None b)
qed

text \<open>A configuration on its way from one board to another, and to a board that is full.\<close>

lemma configuration_entered:
  assumes d: "describes descs d" and v: "values_plain (h_mem s1) a d"
    and wf: "eds_wf (h_mcu s) (h_mem s)" and n: "no_mail s"
    and al: "(case alloc_typed (h_mcu s) (h_mem s) (d_type d) (of_nat (d_size d)) of None \<Rightarrow> (0, (h_mem s)(0 := d_type d)) | Some r \<Rightarrow> r) = (p, m1)"
    and u: "\<forall>x \<in> set (h_blocks s). b_address x \<noteq> of_nat p"
  obtains c' s' where "exec_lines descs junk c (conf_text a d (field_text (h_mem s1) a)) s = Some (Inr True, c', s')"
    "\<And>f. f \<in> set (d_fields d) \<Longrightarrow> field_text (h_mem s') p f = field_text (h_mem s1) a f"
    "\<And>i. i < p + 2 \<or> p + 2 + d_size d \<le> i \<Longrightarrow> h_mem s' i = m1 i"
proof -
  have p: "p < 65000" "m1 p = d_type d"
    using al alloc_typed_place [OF wf] by (auto split: option.splits)
  have vf: "\<forall>f \<in> set (d_fields d). field_takes f (field_text (h_mem s1) a f) \<and> single_spaced (field_text (h_mem s1) a f)"
    using values_plain_field [OF v] describes_field(2) [OF d] by blast
  obtain b where b: "create_block descs (d_name d) s = (Inr b, s\<lparr>h_mem := m1, h_rx := [], h_blocks := h_blocks s @ [b]\<rparr>)"
    "b_address b = of_nat p" "b_desc b = d" "find (\<lambda>i. b_address i = of_nat p) (h_blocks s @ [b]) = Some b"
    by (rule create_block_answered [OF wf n d al p u]) simp
  let ?s = "s\<lparr>h_mem := m1, h_rx := [], h_blocks := h_blocks s @ [b]\<rparr>"
  have n': "no_mail ?s" by (simp add: no_mail_def)
  obtain m c' l where m: "exec_lines descs junk c (conf_text a d (field_text (h_mem s1) a)) s =
      Some (Inr True, reset_context c', ?s\<lparr>h_mem := m, h_rx := [], h_out := h_out ?s @ [l]\<rparr>)"
    "\<And>f. f \<in> set (d_fields d) \<Longrightarrow> field_text m p f = field_text (h_mem s1) a f \<and> ends_inside m p f"
    "\<And>i. i < p + 2 \<or> p + 2 + d_size d \<le> i \<Longrightarrow> m i = h_mem ?s i"
    by (rule conf_text_entered [OF d vf b(1,2,3) p(1) n']) (use b(4) in auto)
  show thesis by (rule that [OF m(1)]) (use m(2,3) in simp_all)
qed

text \<open>
  Property C7. A configuration copied from one board to another: the lines \<^verbatim>\<open>show conf\<close>
  prints for a block whose texts end inside their fields (with a zero) and have single spaces between their words, read as a file
  of commands for a board with room for the block, are all accepted; they create a block there whose every field shows the value it shows on the first
  board, and no other block of that board has changed, moved or lost a byte.
\<close>

theorem configuration_copied:
  assumes "describes descs d" and "b_address b = of_nat a" and "b_desc b = d" and "a < 65000"
    and "no_mail s1" and "values_plain (h_mem s1) a d"
    and "eds_wf (h_mcu s2) (h_mem s2)" and "no_mail s2" and "d_size d < 256"
    and "alloc_typed (h_mcu s2) (h_mem s2) (d_type d) (of_nat (d_size d)) = Some (p, m)"
    and "\<forall>x \<in> set (h_blocks s2). b_address x \<noteq> of_nat p"
  shows "\<exists>listing s1' c' s2'. conf_block b s1 = (Inr (), s1') \<and> h_out s1' = h_out s1 @ listing \<and>
    exec_lines descs junk c listing s2 = Some (Inr True, c', s2') \<and>
    (\<forall>f \<in> set (d_fields d). field_text (h_mem s2') p f = field_text (h_mem s1) a f) \<and>
    eds_wf (h_mcu s2) (h_mem s2') \<and>
    filter (\<lambda>u. fst u \<noteq> p) (eds_used (h_mcu s2) (h_mem s2')) = eds_used (h_mcu s2) (h_mem s2)"
proof -
  let ?lines = "conf_text a d (field_text (h_mem s1) a)"
  have d: "d_type d \<noteq> 0" "d_fields d \<noteq> []" using assms(1) by (simp_all add: describes_def)
  have l: "conf_block b s1 = (Inr (), s1\<lparr>h_rx := [], h_out := h_out s1 @ ?lines\<rparr>)"
    using conf_block_result [OF assms(5,2,4)] describes_field(1) [OF assms(1)] assms(3) d(2) by simp
  obtain c' s' where e: "exec_lines descs junk c ?lines s2 = Some (Inr True, c', s')"
    "\<And>f. f \<in> set (d_fields d) \<Longrightarrow> field_text (h_mem s') p f = field_text (h_mem s1) a f"
    "\<And>i. i < p + 2 \<or> p + 2 + d_size d \<le> i \<Longrightarrow> h_mem s' i = m i"
    by (rule configuration_entered [OF assms(1,6,7,8) _ assms(11)]) (use assms(10) in auto)
  note al = alloc_typed_law [OF assms(7) d(1) assms(10)]
  obtain bs where "length bs = d_size d" "(p, d_type d, bs) \<in> set (eds_used (h_mcu s2) m)"
    using al(3) assms(9) by (auto simp: unat_of_nat)
  then have "(p, d_type d, d_size d) \<in> set (eds_blocks (h_mcu s2) m)" using used_block by metis
  note w = payload_written [OF al(1) this e(3)]
  show ?thesis using l e(1,2) w al(4) by auto
qed

theorem configuration_copied_witness:
  "\<exists>listing c' s2'. exec_lines [taster_desc] 0 \<lparr>ctx_prompt = [], ctx_mode = mode_normal, ctx_block = 0\<rparr>
      listing (session_with fresh_eeprom) = Some (Inr True, c', s2') \<and> eds_wf ATmega32 (h_mem s2')"
proof -
  let ?b = "\<lparr>b_address = 100, b_type = 10, b_size = 3, b_desc = taster_desc\<rparr>"
  have "alloc_typed ATmega32 fresh_eeprom 10 3 \<noteq> None"
    by (simp add: alloc_typed_None)
  then obtain p m where al: "alloc_typed ATmega32 fresh_eeprom 10 3 = Some (p, m)" by auto
  have v: "values_plain (\<lambda>_. 5) 100 taster_desc" by (simp add: values_plain_def taster_desc_def)
  show ?thesis
    using configuration_copied [OF describes_taster, of ?b 100 "session_with (\<lambda>_. 5)" "session_with fresh_eeprom" p m 0
        "\<lparr>ctx_prompt = [], ctx_mode = mode_normal, ctx_block = 0\<rparr>"] al v
    by (auto simp: taster_desc_def)
qed

text \<open>
  Property C13. The same listing, of a block whose first field is a number of one byte, entered on a board without
  room: every line is accepted all the same, but the values go to the bytes from 2 on, where the board keeps its address, its type
  and its log level; the board answers under another address after its next start.
\<close>

theorem configuration_on_full_board:
  assumes "describes descs d" and "values_plain (h_mem s1) a d"
    and "eds_wf (h_mcu s2) (h_mem s2)" and "no_mail s2"
    and "alloc_typed (h_mcu s2) (h_mem s2) (d_type d) (of_nat (d_size d)) = None"
    and "\<forall>x \<in> set (h_blocks s2). b_address x \<noteq> 0"
    and "d_fields d = f # fs" and "f_datatype f = ''uint8_t''"
  shows "\<exists>c' s2'. exec_lines descs junk c (conf_text a d (field_text (h_mem s1) a)) s2 = Some (Inr True, c', s2') \<and>
    show_nat (unat (h_mem s2' EEPR_SELF_ADDR)) = field_text (h_mem s1) a f"
proof -
  obtain c' s' where e: "exec_lines descs junk c (conf_text a d (field_text (h_mem s1) a)) s2 = Some (Inr True, c', s')"
    "\<And>f. f \<in> set (d_fields d) \<Longrightarrow> field_text (h_mem s') 0 f = field_text (h_mem s1) a f"
    by (rule configuration_entered [OF assms(1-4), of 0 "(h_mem s2)(0 := d_type d)"]) (use assms(5,6) in auto)
  have "f_pos f = 0" using assms(1,7) by (simp add: describes_def)
  then show ?thesis using e(1) e(2) [of f] assms(7,8) by (auto simp: field_text_def numeral_2_eq_2)
qed

theorem configuration_on_full_board_witness:
  "\<exists>c' s2'. exec_lines [taster_desc] 0 \<lparr>ctx_prompt = [], ctx_mode = mode_normal, ctx_block = 0\<rparr>
      (conf_text 100 taster_desc (field_text (\<lambda>_. 5) 100)) (session_with full_eeprom) = Some (Inr True, c', s2') \<and>
    show_nat (unat (h_mem s2' EEPR_SELF_ADDR)) = show_nat 5"
proof -
  let ?f = "\<lambda>n p. \<lparr>f_datatype = ''uint8_t'', f_name = n, f_pos = p, f_size = 0, f_bits = []\<rparr>"
  have v: "values_plain (h_mem (session_with (\<lambda>_. 5))) 100 taster_desc" by (simp add: values_plain_def taster_desc_def)
  have f: "d_fields taster_desc = ?f ''port'' 0 # [?f ''feature'' 1, ?f ''gruppe'' 2]" by (simp add: taster_desc_def)
  have s: "field_text (\<lambda>_. 5) 100 (?f ''port'' 0) = show_nat 5" by (simp add: field_text_def)
  show ?thesis
    using configuration_on_full_board [OF describes_taster v, of "session_with full_eeprom", OF _ _ _ _ f,
        where junk = 0 and c = "\<lparr>ctx_prompt = [], ctx_mode = mode_normal, ctx_block = 0\<rparr>"]
    by (simp add: full_eeprom_facts s)
qed

end
