(* ===== verification/Host_List.thy ===== *)
theory Host_List
  imports Host_Transfer "HOL-Library.Multiset"
begin

text \<open>
  The list of blocks the host keeps, against the blocks of the board: they stay in step while
  the host creates and deletes blocks, without reading the whole list again.
\<close>

section \<open>The blocks of the board as the host lists them\<close>

definition listed :: "block_desc list \<Rightarrow> nat \<times> u8 \<times> u8 list \<Rightarrow> host_block list" where
  "listed descs = (\<lambda>(a, t, pl). case get_block_desc_by_type descs t of Inl e \<Rightarrow> []
     | Inr d \<Rightarrow> [\<lparr>b_address = of_nat a, b_type = t, b_size = of_nat (length pl), b_desc = d\<rparr>])"

definition listing :: "block_desc list \<Rightarrow> (nat \<times> u8 \<times> u8 list) list \<Rightarrow> host_block list" where
  "listing descs us = concat (map (listed descs) us)"

lemma listing_simps [simp]:
  "listing descs [] = []" "listing descs (u # us) = listed descs u @ listing descs us"
  "listing descs (us @ vs) = listing descs us @ listing descs vs"
  by (simp_all add: listing_def)

lemma known_blocks_listing: "known_blocks descs bs = listing descs (used_of m bs)"
proof (induction bs)
  case (Cons b bs)
  obtain a t n where b: "b = (a, t, n)" by (cases b)
  have l: "length (map m [a + 2..<a + 2 + n]) = n" by (simp only: length_map length_upt diff_add_inverse)
  show ?case unfolding b known_blocks_simps used_of_Cons Cons
    by (simp add: listed_def l del: upt_Suc split: sum.split)
qed (simp add: used_of_def)

lemma listed_address: "b \<in> set (listed descs u) \<Longrightarrow> b_address b = of_nat (fst u)"
  by (auto simp: listed_def split: prod.splits sum.splits)

lemma in_listing: "b \<in> set (listing descs us) \<Longrightarrow> \<exists>u \<in> set us. b \<in> set (listed descs u)"
  by (auto simp: listing_def)

text \<open>Two used blocks have different addresses, also as words.\<close>

lemma used_bounds:
  assumes "eds_wf c m" and "(a, t, pl) \<in> set (eds_used c m)"
  shows "a < 65000" "m a = t" "m (a + 1) = of_nat (length pl)" "t \<noteq> 0" "0 < a"
proof -
  have b: "(a, t, length pl) \<in> set (eds_blocks c m)" by (rule used_block [OF assms(2)])
  have ch: "chain c m EDS_DATA_START (eds_blocks c m) (EDS_END c + 1)" by (rule wf_chain [OF assms(1)])
  then have "tiles m EDS_DATA_START (eds_blocks c m) (EDS_END c + 1)" by (simp add: chain_def)
  note ti = tiles_bounds [OF this b]
  show "a < 65000" using ch b EDS_END_bounds(2) [of c] by (force simp: chain_def)
  show "m a = t" "0 < a" using ti by simp_all
  have "unat (m (a + 1)) = length pl" using ti by simp
  then have "of_nat (unat (m (a + 1))) = (of_nat (length pl) :: u8)" by (rule arg_cong)
  then show "m (a + 1) = of_nat (length pl)" by (simp only: of_nat_unat ucast_id)
  show "t \<noteq> 0" using assms(2) by (auto simp: eds_used_def used_of_def)
qed

lemma address_inject: "a < 65000 \<Longrightarrow> b < 65000 \<Longrightarrow> (of_nat a :: u16) = of_nat b \<longleftrightarrow> a = b"
  by (simp add: word_unat_eq_iff unat_of_nat)

lemma listing_filter:
  assumes "\<forall>u \<in> set us. fst u < 65000" and "p < 65000"
  shows "listing descs (filter (\<lambda>u. fst u \<noteq> p) us) = filter (\<lambda>b. b_address b \<noteq> of_nat p) (listing descs us)"
  using assms(1)
proof (induction us)
  case (Cons u us)
  have i: "(of_nat (fst u) :: u16) = of_nat p \<longleftrightarrow> fst u = p"
    using Cons.prems assms(2) by (simp add: address_inject)
  have "filter (\<lambda>b. b_address b \<noteq> of_nat p) (listed descs u) = (if fst u \<noteq> p then listed descs u else [])"
    using listed_address [of _ descs u] i by (auto simp: filter_empty_conv filter_id_conv)
  then show ?case using Cons by simp
qed simp

lemma used_distinct: assumes "eds_wf c m" shows "distinct (map fst (eds_used c m))"
proof -
  have "distinct (map fst (eds_blocks c m))"
    using wf_chain [OF assms] tiles_distinct by (auto simp: chain_def)
  then have "distinct (map fst (filter (\<lambda>(a, t, s). t \<noteq> 0) (eds_blocks c m)))" by (rule distinct_map_filter)
  moreover have "map fst (eds_used c m) = map fst (filter (\<lambda>(a, t, s). t \<noteq> 0) (eds_blocks c m))"
    by (auto simp: eds_used_def used_of_def)
  ultimately show ?thesis by simp
qed

section \<open>Deleting a block\<close>

text \<open>A block of the list that is still on the board as the list says.\<close>

definition fresh :: "block_desc list \<Rightarrow> eeprom \<Rightarrow> host_block \<Rightarrow> bool" where
  "fresh descs m b \<longleftrightarrow> b_type b = m (unat (b_address b)) \<and> b_size b = m (padd (unat (b_address b)) 1) \<and>
     get_block_desc_by_type descs (b_type b) = Inr (b_desc b)"

lemma erase_shift_result:
  "no_mail s \<Longrightarrow> h_rx s = [] \<Longrightarrow> \<forall>b \<in> set bs. fresh descs (h_mem s) b \<Longrightarrow> erase_shift descs old bs s = (Inr (), bs, s)"
proof (induction bs arbitrary: old)
  case (Cons b bs)
  have e: "s\<lparr>h_rx := []\<rparr> = s" using Cons.prems(2) by (cases s) simp
  have b: "fresh descs (h_mem s) b" using Cons.prems(3) by simp
  have r: "read_from_block (b_address b) 0 s = (Inr (map (\<lambda>k. h_mem s (padd (unat (b_address b)) (0 + k))) [0, 1, 2, 3]), s)"
    using read_from_block_result [OF Cons.prems(1), of 0 "b_address b"] by (simp only: e)
  have ih: "erase_shift descs b bs s = (Inr (), bs, s)" using Cons.prems by (intro Cons.IH) simp_all
  have "old\<lparr>b_address := b_address b, b_type := b_type b, b_size := b_size b, b_desc := b_desc b\<rparr> = b" by simp
  moreover have "h_mem s (unat (b_address b)) = b_type b" "h_mem s (padd (unat (b_address b)) 1) = b_size b"
      "get_block_desc_by_type descs (b_type b) = Inr (b_desc b)"
    using b unfolding fresh_def by metis+
  ultimately show ?case by (simp add: r [unfolded One_nat_def] ih Let_def)
qed simp

lemma erase_at_result:
  "no_mail s \<Longrightarrow> h_rx s = [] \<Longrightarrow> \<forall>b \<in> set bs. b_address b \<noteq> a \<longrightarrow> fresh descs (h_mem s) b \<Longrightarrow>
   distinct (map b_address bs) \<Longrightarrow> erase_at descs a bs s = (Inr (), filter (\<lambda>b. b_address b \<noteq> a) bs, s)"
proof (induction bs)
  case (Cons b bs)
  show ?case
  proof (cases "b_address b = a")
    case True
    have n: "\<forall>x \<in> set bs. b_address x \<noteq> a" using Cons.prems(4) by (metis True distinct.simps(2) image_eqI list.set_map list.simps(9))
    then show ?thesis using True Cons.prems erase_shift_result [OF Cons.prems(1,2), of bs descs b]
      by (simp add: filter_id_conv)
  next
    case False
    then show ?thesis using Cons by simp
  qed
qed simp

section \<open>In step\<close>

definition in_step :: "block_desc list \<Rightarrow> eds_session \<Rightarrow> bool" where
  "in_step descs s \<longleftrightarrow> eds_wf (h_mcu s) (h_mem s) \<and> no_mail s \<and>
     mset (h_blocks s) = mset (listing descs (eds_used (h_mcu s) (h_mem s)))"

lemma in_step_set: "in_step descs s \<Longrightarrow> set (h_blocks s) = set (listing descs (eds_used (h_mcu s) (h_mem s)))"
  unfolding in_step_def by (metis mset_eq_setD)

lemma in_step_block:
  assumes "in_step descs s" and "b \<in> set (h_blocks s)"
  obtains a t pl where "(a, t, pl) \<in> set (eds_used (h_mcu s) (h_mem s))" "b_address b = of_nat a" "b_type b = t"
    "b_size b = of_nat (length pl)" "get_block_desc_by_type descs t = Inr (b_desc b)"
proof -
  from in_step_set [OF assms(1)] assms(2) obtain u where u: "u \<in> set (eds_used (h_mcu s) (h_mem s))" "b \<in> set (listed descs u)"
    using in_listing by blast
  obtain a t pl where x: "u = (a, t, pl)" by (cases u)
  with u show thesis by (intro that [of a t pl]) (auto simp: listed_def split: sum.splits)
qed

lemma listing_distinct:
  assumes "distinct (map fst us)" and "\<forall>u \<in> set us. fst u < 65000"
  shows "distinct (map b_address (listing descs us))"
  using assms
proof (induction us)
  case (Cons u us)
  have "of_nat (fst u) \<notin> b_address ` set (listing descs us)"
  proof
    assume "of_nat (fst u) \<in> b_address ` set (listing descs us)"
    then obtain v where "v \<in> set us" "(of_nat (fst u) :: u16) = of_nat (fst v)"
      using in_listing listed_address by (metis imageE)
    then have "fst u = fst v" using Cons.prems(2) by (simp add: address_inject)
    then show False using Cons.prems(1) \<open>v \<in> set us\<close> by (metis distinct.simps(2) image_eqI list.set_map list.simps(9))
  qed
  moreover have "map b_address (listed descs u) = [] \<or> map b_address (listed descs u) = [of_nat (fst u)]"
    by (simp add: listed_def split: prod.splits sum.splits)
  moreover have "distinct (map b_address (listing descs us))" using Cons by simp
  ultimately show ?case by auto
qed simp

lemma in_step_distinct: assumes "in_step descs s" shows "distinct (map b_address (h_blocks s))"
proof -
  have wf: "eds_wf (h_mcu s) (h_mem s)" using assms by (simp add: in_step_def)
  have "distinct (map b_address (listing descs (eds_used (h_mcu s) (h_mem s))))"
    by (rule listing_distinct [OF used_distinct [OF wf]]) (use used_bounds(1) [OF wf] in auto)
  moreover have "mset (map b_address (h_blocks s)) = mset (map b_address (listing descs (eds_used (h_mcu s) (h_mem s))))"
    using assms by (simp add: in_step_def)
  ultimately show ?thesis by (metis mset_eq_imp_distinct_iff)
qed

lemma fresh_elsewhere:
  assumes "in_step descs s" and "x \<in> set (h_blocks s)" and "p \<in> fst ` set (eds_blocks (h_mcu s) (h_mem s))" and "p < 65000"
    and "b_address x \<noteq> of_nat p"
  shows "fresh descs ((h_mem s)(p := 0)) x"
proof -
  have wf: "eds_wf (h_mcu s) (h_mem s)" using assms(1) by (simp add: in_step_def)
  obtain a t pl where u: "(a, t, pl) \<in> set (eds_used (h_mcu s) (h_mem s))" "b_address x = of_nat a" "b_type x = t"
    "b_size x = of_nat (length pl)" "get_block_desc_by_type descs t = Inr (b_desc x)"
    by (rule in_step_block [OF assms(1,2)])
  note b = used_bounds [OF wf u(1)]
  have "tiles (h_mem s) EDS_DATA_START (eds_blocks (h_mcu s) (h_mem s)) (EDS_END (h_mcu s) + 1)"
    using wf_chain [OF wf] by (simp add: chain_def)
  from payload_no_head [OF this used_block [OF u(1)] assms(3)] have "p \<noteq> a + 1" by auto
  moreover have "p \<noteq> a" using assms(5) u(2) by auto
  ultimately show ?thesis using u b by (simp add: fresh_def unat_of_nat)
qed

lemma delete_block_result:
  assumes st: "in_step descs s" and b: "b \<in> set (h_blocks s)"
  shows "\<exists>s'. delete_block descs b s = (Inr (), s') \<and> in_step descs s' \<and> h_mcu s' = h_mcu s \<and>
    eds_used (h_mcu s) (h_mem s') = filter (\<lambda>u. of_nat (fst u) \<noteq> b_address b) (eds_used (h_mcu s) (h_mem s))"
proof -
  let ?c = "h_mcu s" and ?m = "h_mem s"
  have wf: "eds_wf ?c ?m" and n: "no_mail s" using st by (simp_all add: in_step_def)
  obtain p t pl where u: "(p, t, pl) \<in> set (eds_used ?c ?m)" "b_address b = of_nat p"
    by (rule in_step_block [OF st b])
  note bd = used_bounds [OF wf u(1)]
  have h: "p \<in> fst ` set (eds_blocks ?c ?m)" using used_block [OF u(1)] by force
  note fl = eds_free_law [OF wf h]
  have pa: "unat (of_nat p :: u16) = p" using bd(1) by (simp add: unat_of_nat)
  let ?s = "s\<lparr>h_mem := ?m(p := 0), h_rx := []\<rparr>"
  have ask: "eds_ask HCAN_EDS_FREE_BLOCK [hi8 (of_nat p), lo8 (of_nat p)] 1 s = (Inr [0], ?s)"
    by (rule eds_ask_answered [OF n]) (simp_all add: eds_can_callback_def Let_def pa fl(1))
  have "distinct (map b_address (h_blocks s))" by (rule in_step_distinct [OF st])
  then have er: "erase_at descs (of_nat p) (h_blocks ?s) ?s =
      (Inr (), filter (\<lambda>b. b_address b \<noteq> of_nat p) (h_blocks s), ?s)"
    using fresh_elsewhere [OF st _ h bd(1)] by (subst erase_at_result) (simp_all add: no_mail_def)
  let ?r = "?s\<lparr>h_blocks := filter (\<lambda>b. b_address b \<noteq> of_nat p) (h_blocks s)\<rparr>"
  have d: "delete_block descs b s = (Inr (), ?r)"
    using b er ask u(2) by (auto simp: delete_block_def Let_def)
  have us: "\<forall>u \<in> set (eds_used ?c ?m). fst u < 65000" using used_bounds(1) [OF wf] by auto
  have "mset (filter (\<lambda>b. b_address b \<noteq> of_nat p) (h_blocks s)) = mset (listing descs (eds_used ?c (?m(p := 0))))"
    using st by (simp add: fl(3) listing_filter [OF us bd(1)] in_step_def)
  then have "in_step descs ?r" using fl(2) by (simp add: in_step_def no_mail_def)
  moreover have "filter (\<lambda>u. of_nat (fst u) \<noteq> b_address b) (eds_used ?c ?m) = filter (\<lambda>u. fst u \<noteq> p) (eds_used ?c ?m)"
    using us bd(1) u(2) by (intro filter_cong refl) (simp add: address_inject)
  ultimately show ?thesis using d fl(3) by auto
qed

section \<open>Creating a block\<close>

lemma create_block_result:
  assumes st: "in_step descs s" and d: "describes descs d"
    and al: "alloc_typed (h_mcu s) (h_mem s) (d_type d) (of_nat (d_size d)) = Some (p, m)"
  obtains b where "create_block descs (d_name d) s = (Inr b, s\<lparr>h_mem := m, h_rx := [], h_blocks := h_blocks s @ [b]\<rparr>)"
    "in_step descs (s\<lparr>h_mem := m, h_rx := [], h_blocks := h_blocks s @ [b]\<rparr>)"
proof -
  let ?c = "h_mcu s"
  have wf: "eds_wf ?c (h_mem s)" and n: "no_mail s" using st by (simp_all add: in_step_def)
  have d': "d_type d \<noteq> 0" "get_block_desc_by_type descs (d_type d) = Inr d" "d_size d \<le> 128"
    using d by (simp_all add: describes_def get_block_desc_by_type_def)
  note law = alloc_typed_law [OF wf d'(1) al]
  note p = alloc_typed_place [OF wf al]
  have free: "\<forall>x \<in> set (h_blocks s). b_address x \<noteq> of_nat p"
  proof
    fix x assume x: "x \<in> set (h_blocks s)"
    obtain a t pl where u: "(a, t, pl) \<in> set (eds_used ?c (h_mem s))" "b_address x = of_nat a" by (rule in_step_block [OF st x])
    have "a \<noteq> p" using u(1) law(2) by force
    then show "b_address x \<noteq> of_nat p" using used_bounds(1) [OF wf u(1)] p(1) u(2) by (simp add: address_inject)
  qed
  have al': "(case alloc_typed ?c (h_mem s) (d_type d) (of_nat (d_size d)) of None \<Rightarrow> (0, (h_mem s)(0 := d_type d)) | Some r \<Rightarrow> r) = (p, m)"
    using al by simp
  obtain b where b: "create_block descs (d_name d) s = (Inr b, s\<lparr>h_mem := m, h_rx := [], h_blocks := h_blocks s @ [b]\<rparr>)"
    "b = \<lparr>b_address = of_nat p, b_type = d_type d, b_size = m (padd p 1), b_desc = d\<rparr>"
    by (rule create_block_answered [OF wf n d al' p free])
  obtain pl where u: "(p, d_type d, pl) \<in> set (eds_used ?c m)" using law(3) by blast
  then obtain xs ys where us: "eds_used ?c m = xs @ (p, d_type d, pl) # ys" by (metis split_list)
  have "p \<notin> fst ` set xs \<union> fst ` set ys" using used_distinct [OF law(1)] by (auto simp: us)
  then have "filter (\<lambda>u. fst u \<noteq> p) xs = xs" "filter (\<lambda>u. fst u \<noteq> p) ys = ys" by (auto simp: filter_id_conv)
  then have old: "eds_used ?c (h_mem s) = xs @ ys" using law(4) by (simp add: us)
  have "padd p 1 = p + 1" using p(1) by simp
  then have "listed descs (p, d_type d, pl) = [b]"
    using used_bounds(3) [OF law(1) u] by (simp add: listed_def b(2) d'(2))
  then have "in_step descs (s\<lparr>h_mem := m, h_rx := [], h_blocks := h_blocks s @ [b]\<rparr>)"
    using st law(1) by (simp add: in_step_def no_mail_def us old)
  with b(1) show thesis by (rule that)
qed

lemma update_in_step:
  assumes "eds_wf (h_mcu s) (h_mem s)" and "no_mail s" and "update_blocks descs s = Some (r, s')"
  shows "r = Inr () \<and> in_step descs s'"
  using update_blocks_result [OF assms(2), of descs] assms(1,3)
  by (auto simp: in_step_def no_mail_def eds_used_def known_blocks_listing [of descs _ "h_mem s"])

section \<open>The list while the host works\<close>

text \<open>What the host does to a board with a connection, as long as there is room for what it creates.\<close>

inductive host_edits :: "block_desc list \<Rightarrow> eds_session \<Rightarrow> eds_session \<Rightarrow> bool" for descs where
  start: "host_edits descs s s"
| update: "host_edits descs s s1 \<Longrightarrow> update_blocks descs s1 = Some (r, s2) \<Longrightarrow> host_edits descs s s2"
| create: "host_edits descs s s1 \<Longrightarrow> describes descs d \<Longrightarrow>
    alloc_typed (h_mcu s1) (h_mem s1) (d_type d) (of_nat (d_size d)) \<noteq> None \<Longrightarrow>
    create_block descs (d_name d) s1 = (r, s2) \<Longrightarrow> host_edits descs s s2"
| delete: "host_edits descs s s1 \<Longrightarrow> b \<in> set (h_blocks s1) \<Longrightarrow> delete_block descs b s1 = (r, s2) \<Longrightarrow> host_edits descs s s2"

lemma host_edits_in_step: "host_edits descs s s' \<Longrightarrow> in_step descs s \<Longrightarrow> in_step descs s'"
proof (induction rule: host_edits.induct)
  case (update s s1 r s2)
  then show ?case using update_in_step [of s1 descs r s2] by (auto simp: in_step_def)
next
  case (create s s1 d r s2)
  then obtain p m where "alloc_typed (h_mcu s1) (h_mem s1) (d_type d) (of_nat (d_size d)) = Some (p, m)" by auto
  then show ?case using create_block_result [of descs s1 d p m] create by fastforce
next
  case (delete s s1 b r s2)
  then show ?case using delete_block_result [of descs s1 b] by auto
qed

text \<open>
  Property C12. The host's list stays true to the board: after connecting to a board with a
  well-formed data area, whatever blocks are created, as long as they fit, and whatever blocks of the list are
  deleted, the list holds exactly the used blocks of the board whose type is described, with
  the addresses and sizes they have there; and the data area stays well-formed.
\<close>

theorem host_list_in_step:
  assumes "eds_wf (h_mcu s) (h_mem s)" and "no_mail s"
    and "eds_connection descs s = Some (r, s1)" and "host_edits descs s1 s2"
  shows "r = Inr () \<and> eds_wf (h_mcu s2) (h_mem s2) \<and>
    mset (h_blocks s2) = mset (known_blocks descs (eds_blocks (h_mcu s2) (h_mem s2)))"
proof -
  have "\<exists>q. eds_connection descs s = update_blocks descs q \<and> eds_wf (h_mcu q) (h_mem q) \<and> no_mail q"
    using assms(1,2) by (auto simp: eds_connection_def no_mail_def split: sum.split)
  then obtain q where q: "update_blocks descs q = Some (r, s1)" "eds_wf (h_mcu q) (h_mem q)" "no_mail q"
    using assms(3) by auto
  note r = update_in_step [OF q(2,3,1)]
  have "in_step descs s2" using host_edits_in_step [OF assms(4)] r by simp
  then show ?thesis using r by (simp add: in_step_def known_blocks_listing [of descs _ "h_mem s2"] eds_used_def)
qed

theorem host_list_in_step_witness:
  "\<exists>s1 s2. eds_connection [taster_desc] (session_with fresh_eeprom) = Some (Inr (), s1) \<and> host_edits [taster_desc] s1 s2 \<and>
    length (h_blocks s2) = 1 \<and> mset (h_blocks s2) = mset (known_blocks [taster_desc] (eds_blocks (h_mcu s2) (h_mem s2)))"
proof -
  let ?s0 = "session_with fresh_eeprom" and ?D = "[taster_desc]"
  have w: "eds_wf (h_mcu ?s0) (h_mem ?s0)" by simp
  have chk: "eds_check_block_descriptions ?D = Inr ()" by (simp add: taster_desc_def int8_def)
  define s1 where "s1 = ?s0\<lparr>h_rx := [], h_blocks := []\<rparr>"
  have s1: "eds_connection ?D ?s0 = Some (Inr (), s1)" "h_mcu s1 = ATmega32" "h_mem s1 = fresh_eeprom" "h_blocks s1 = []"
    unfolding s1_def using update_blocks_result [of ?s0 ?D] by (simp_all add: eds_connection_def chk del: eds_check_block_descriptions.simps)
  have st: "in_step ?D s1" using update_in_step [of ?s0 ?D] s1(1) by (simp add: eds_connection_def chk del: eds_check_block_descriptions.simps)
  have "alloc_typed ATmega32 fresh_eeprom 10 3 \<noteq> None" by (simp add: alloc_typed_None)
  then obtain p m where al: "alloc_typed (h_mcu s1) (h_mem s1) (d_type taster_desc) (of_nat (d_size taster_desc)) = Some (p, m)"
    using s1 by (auto simp: taster_desc_def)
  obtain b where b: "create_block ?D (d_name taster_desc) s1 = (Inr b, s1\<lparr>h_mem := m, h_rx := [], h_blocks := h_blocks s1 @ [b]\<rparr>)"
    by (rule create_block_result [OF st describes_taster al]) blast
  let ?s2 = "s1\<lparr>h_mem := m, h_rx := [], h_blocks := h_blocks s1 @ [b]\<rparr>"
  have e: "host_edits ?D s1 ?s2"
    by (rule host_edits.create [OF host_edits.start describes_taster _ b]) (simp add: al)
  show ?thesis using host_list_in_step [OF w _ s1(1) e] s1 e by (intro exI [of _ s1] exI [of _ ?s2]) simp
qed

end
