(* ===== verification/Data_Query.thy ===== *)
theory Data_Query
  imports Texts
begin

text \<open>
  The query language of the recorded frames, \<^verbatim>\<open>src/libhcandata/data_query.cc\<close>: an
  expression in postfix notation is compiled to words of 32 bits, which a small stack machine
  runs for every frame. The abstract syntax of the expressions and what they mean are the
  specification; the machine agrees with it as long as code and stack are small enough.
\<close>

unbundle bit_operations_syntax

section \<open>Frames and code\<close>

type_synonym u64 = "64 word"

record frame_entry =
  e_timestamp :: u64
  e_src :: u16
  e_dst :: u16
  e_proto :: u16
  e_size :: u16
  e_data :: "u8 list"

abbreviation (input) TOKEN_NOP :: u32 where "TOKEN_NOP \<equiv> 0x00000000"
abbreviation (input) TOKEN_INT :: u32 where "TOKEN_INT \<equiv> 0x01000000"
abbreviation (input) TOKEN_SRC :: u32 where "TOKEN_SRC \<equiv> 0x10000000"
abbreviation (input) TOKEN_DST :: u32 where "TOKEN_DST \<equiv> 0x11000000"
abbreviation (input) TOKEN_PROTO :: u32 where "TOKEN_PROTO \<equiv> 0x12000000"
abbreviation (input) TOKEN_SIZE :: u32 where "TOKEN_SIZE \<equiv> 0x13000000"
abbreviation (input) TOKEN_D0 :: u32 where "TOKEN_D0 \<equiv> 0x14000000"
abbreviation (input) TOKEN_D1 :: u32 where "TOKEN_D1 \<equiv> 0x15000000"
abbreviation (input) TOKEN_D2 :: u32 where "TOKEN_D2 \<equiv> 0x16000000"
abbreviation (input) TOKEN_D3 :: u32 where "TOKEN_D3 \<equiv> 0x17000000"
abbreviation (input) TOKEN_D4 :: u32 where "TOKEN_D4 \<equiv> 0x18000000"
abbreviation (input) TOKEN_D5 :: u32 where "TOKEN_D5 \<equiv> 0x19000000"
abbreviation (input) TOKEN_D6 :: u32 where "TOKEN_D6 \<equiv> 0x20000000"
abbreviation (input) TOKEN_D7 :: u32 where "TOKEN_D7 \<equiv> 0x21000000"
abbreviation (input) TOKEN_EQUAL :: u32 where "TOKEN_EQUAL \<equiv> 0x80000000"
abbreviation (input) TOKEN_AND_OP :: u32 where "TOKEN_AND_OP \<equiv> 0x81000000"
abbreviation (input) TOKEN_AND :: u32 where "TOKEN_AND \<equiv> 0x82000000"
abbreviation (input) TOKEN_OR_OP :: u32 where "TOKEN_OR_OP \<equiv> 0x83000000"
abbreviation (input) TOKEN_OR :: u32 where "TOKEN_OR \<equiv> 0x84000000"
abbreviation (input) TOKEN_NOTEQUAL :: u32 where "TOKEN_NOTEQUAL \<equiv> 0x85000000"
abbreviation (input) TOKEN_NOT :: u32 where "TOKEN_NOT \<equiv> 0x86000000"

abbreviation (input) CODE_SIZE :: nat where "CODE_SIZE \<equiv> 128"
abbreviation (input) STACK_SIZE :: nat where "STACK_SIZE \<equiv> 16"

section \<open>Compiling\<close>

text \<open>The code for a word: none for a word that is not known. \<^verbatim>\<open>atol\<close> ends at the largest \<^verbatim>\<open>long\<close>.\<close>

definition word_code :: "string \<Rightarrow> u32 list" where
  "word_code w =
     (if w \<noteq> [] \<and> (\<forall>c \<in> set w. cxx_isdigit c)
      then [TOKEN_INT OR (of_nat (min (number_of w) (2 ^ 63 - 1)) AND 0x00ffffff)]
      else if w = ''src'' then [TOKEN_SRC]
      else if w = ''dst'' then [TOKEN_DST]
      else if w = ''proto'' then [TOKEN_PROTO]
      else if w = ''size'' then [TOKEN_SIZE]
      else if w = ''d0'' then [TOKEN_D0]
      else if w = ''d1'' then [TOKEN_D1]
      else if w = ''d2'' then [TOKEN_D2]
      else if w = ''d3'' then [TOKEN_D3]
      else if w = ''d4'' then [TOKEN_D4]
      else if w = ''d5'' then [TOKEN_D5]
      else if w = ''d6'' then [TOKEN_D6]
      else if w = ''d7'' then [TOKEN_D7]
      else if w = ''='' then [TOKEN_EQUAL]
      else if w = ''!='' then [TOKEN_NOTEQUAL]
      else if w = ''!'' then [TOKEN_NOT]
      else if w = ''&'' then [TOKEN_AND_OP]
      else if w = ''&&'' then [TOKEN_AND]
      else if w = ''|'' then [TOKEN_OR_OP]
      else if w = ''||'' then [TOKEN_OR]
      else [])"

lemma read_word_rest_shorter: "snd (read_word r) \<noteq> [] \<Longrightarrow> length (snd (read_word r)) < length r"
  using read_word_shorter [of r] by (cases r) (auto simp: read_word_def)

text \<open>The loop runs until a read has met the end of the text; the code so far is counted in bytes.\<close>

function compile_loop :: "nat \<Rightarrow> u32 list \<Rightarrow> string \<Rightarrow> string + u32 list" where
  "compile_loop c code rest =
     (if c \<ge> 4 * CODE_SIZE - 4 then Inl ''query code block too small''
      else
        let w = word_code (case fst (read_word rest) of None \<Rightarrow> [] | Some w \<Rightarrow> w);
            c = c + 4 * length w; code = code @ w in
        if snd (read_word rest) \<noteq> [] then compile_loop c code (snd (read_word rest))
        else if c \<ge> 4 * CODE_SIZE - 4 then Inl ''query code block too small''
        else Inr (code @ [TOKEN_NOP]))"
  by pat_completeness auto
termination by (relation "measure (\<lambda>(_, _, rest). length rest)") (simp_all add: read_word_rest_shorter)

declare compile_loop.simps [simp del]

definition compile_query :: "string \<Rightarrow> string + u32 list" where
  "compile_query query = compile_loop 0 [] query"

section \<open>Running\<close>

text \<open>
  The stack, its top first. The sixteenth entry would be written behind the array before
  the pointer is tested; an exception ends the program.
\<close>

definition push :: "u32 \<Rightarrow> u32 list \<Rightarrow> string + u32 list" where
  "push d st = (if Suc (length st) > STACK_SIZE - 1 then Inl ''query m_stack overflow'' else Inr (d # st))"

definition bool_u32 :: "bool \<Rightarrow> u32" where
  "bool_u32 b = (if b then 1 else 0)"

definition binary :: "(u32 \<Rightarrow> u32 \<Rightarrow> u32) \<Rightarrow> u32 list \<Rightarrow> string + u32 list" where
  "binary f st = (case st of d1 # d2 # st \<Rightarrow> push (f d1 d2) st | _ \<Rightarrow> Inl ''query m_stack underrun'')"

definition unary :: "(u32 \<Rightarrow> u32) \<Rightarrow> u32 list \<Rightarrow> string + u32 list" where
  "unary f st = (case st of d1 # st \<Rightarrow> push (f d1) st | [] \<Rightarrow> Inl ''query m_stack underrun'')"

definition dq_step :: "frame_entry \<Rightarrow> u32 \<Rightarrow> u32 list \<Rightarrow> string + u32 list" where
  "dq_step f code st =
     (let opcode = code AND 0xff000000 in
      if opcode = TOKEN_INT then push (code AND 0x00ffffff) st
      else if opcode = TOKEN_SRC then push (ucast (e_src f)) st
      else if opcode = TOKEN_DST then push (ucast (e_dst f)) st
      else if opcode = TOKEN_PROTO then push (ucast (e_proto f)) st
      else if opcode = TOKEN_SIZE then push (ucast (e_size f)) st
      else if opcode = TOKEN_D0 then push (ucast (e_data f ! 0)) st
      else if opcode = TOKEN_D1 then push (ucast (e_data f ! 1)) st
      else if opcode = TOKEN_D2 then push (ucast (e_data f ! 2)) st
      else if opcode = TOKEN_D3 then push (ucast (e_data f ! 3)) st
      else if opcode = TOKEN_D4 then push (ucast (e_data f ! 4)) st
      else if opcode = TOKEN_D5 then push (ucast (e_data f ! 5)) st
      else if opcode = TOKEN_D6 then push (ucast (e_data f ! 6)) st
      else if opcode = TOKEN_D7 then push (ucast (e_data f ! 7)) st
      else if opcode = TOKEN_EQUAL then binary (\<lambda>d1 d2. bool_u32 (d1 = d2)) st
      else if opcode = TOKEN_NOTEQUAL then binary (\<lambda>d1 d2. bool_u32 (d1 \<noteq> d2)) st
      else if opcode = TOKEN_NOT then unary (\<lambda>d1. bool_u32 (d1 = 0)) st
      else if opcode = TOKEN_AND_OP then binary (\<lambda>d1 d2. d1 AND d2) st
      else if opcode = TOKEN_AND then binary (\<lambda>d1 d2. bool_u32 (d1 \<noteq> 0 \<and> d2 \<noteq> 0)) st
      else if opcode = TOKEN_OR_OP then binary (\<lambda>d1 d2. d1 OR d2) st
      else if opcode = TOKEN_OR then binary (\<lambda>d1 d2. bool_u32 (d1 \<noteq> 0 \<or> d2 \<noteq> 0)) st
      else Inl ''unknown opcode'')"

text \<open>The loop counts four for every word of the code but compares with the number of words.\<close>

fun match_loop :: "frame_entry \<Rightarrow> nat \<Rightarrow> u32 list \<Rightarrow> u32 list \<Rightarrow> string + bool" where
  "match_loop f c [] st = Inl ''code end reached''"
| "match_loop f c (w # ws) st =
     (if \<not> c < CODE_SIZE then Inl ''code end reached''
      else if w AND 0xff000000 = TOKEN_NOP
      then (case st of [d] \<Rightarrow> Inr (d \<noteq> 0) | _ \<Rightarrow> Inl ''invalid m_stack after operations'')
      else (case dq_step f w st of Inl e \<Rightarrow> Inl e | Inr st \<Rightarrow> match_loop f (c + 4) ws st))"

definition dq_match :: "u32 list \<Rightarrow> frame_entry \<Rightarrow> string + bool" where
  "dq_match code f = match_loop f 0 code []"

section \<open>What a query means\<close>

datatype dq_field = Src | Dst | Proto | Size | Data nat

datatype dq_op = Equal | Not_Equal | And_Op | And | Or_Op | Or

datatype dq_expr = Number nat | Field dq_field | Negate dq_expr | Op dq_op dq_expr dq_expr

fun field_value :: "frame_entry \<Rightarrow> dq_field \<Rightarrow> u32" where
  "field_value f Src = ucast (e_src f)"
| "field_value f Dst = ucast (e_dst f)"
| "field_value f Proto = ucast (e_proto f)"
| "field_value f Size = ucast (e_size f)"
| "field_value f (Data i) = ucast (e_data f ! i)"

fun op_value :: "dq_op \<Rightarrow> u32 \<Rightarrow> u32 \<Rightarrow> u32" where
  "op_value Equal x y = bool_u32 (x = y)"
| "op_value Not_Equal x y = bool_u32 (x \<noteq> y)"
| "op_value And_Op x y = x AND y"
| "op_value And x y = bool_u32 (x \<noteq> 0 \<and> y \<noteq> 0)"
| "op_value Or_Op x y = x OR y"
| "op_value Or x y = bool_u32 (x \<noteq> 0 \<or> y \<noteq> 0)"

fun dq_eval :: "frame_entry \<Rightarrow> dq_expr \<Rightarrow> u32" where
  "dq_eval f (Number n) = of_nat n"
| "dq_eval f (Field x) = field_value f x"
| "dq_eval f (Negate e) = bool_u32 (dq_eval f e = 0)"
| "dq_eval f (Op p a b) = op_value p (dq_eval f a) (dq_eval f b)"

fun field_word :: "dq_field \<Rightarrow> string" where
  "field_word Src = ''src''"
| "field_word Dst = ''dst''"
| "field_word Proto = ''proto''"
| "field_word Size = ''size''"
| "field_word (Data i) = ''d'' @ show_nat i"

fun op_word :: "dq_op \<Rightarrow> string" where
  "op_word Equal = ''=''"
| "op_word Not_Equal = ''!=''"
| "op_word And_Op = ''&''"
| "op_word And = ''&&''"
| "op_word Or_Op = ''|''"
| "op_word Or = ''||''"

text \<open>The words of an expression in postfix notation, and the entries of the stack it needs.\<close>

fun postfix_words :: "dq_expr \<Rightarrow> string list" where
  "postfix_words (Number n) = [show_nat n]"
| "postfix_words (Field x) = [field_word x]"
| "postfix_words (Negate e) = postfix_words e @ [''!'']"
| "postfix_words (Op p a b) = postfix_words a @ postfix_words b @ [op_word p]"

fun stack_need :: "dq_expr \<Rightarrow> nat" where
  "stack_need (Number n) = 1"
| "stack_need (Field x) = 1"
| "stack_need (Negate e) = stack_need e"
| "stack_need (Op p a b) = max (stack_need a) (Suc (stack_need b))"

fun expr_ok :: "dq_expr \<Rightarrow> bool" where
  "expr_ok (Number n) \<longleftrightarrow> n < 2 ^ 24"
| "expr_ok (Field (Data i)) \<longleftrightarrow> i < 8"
| "expr_ok (Field _) \<longleftrightarrow> True"
| "expr_ok (Negate e) \<longleftrightarrow> expr_ok e"
| "expr_ok (Op p a b) \<longleftrightarrow> expr_ok a \<and> expr_ok b"

section \<open>Compiling agrees with the words\<close>

lemma compile_loop_words:
  "ws \<noteq> [] \<Longrightarrow> \<forall>w \<in> set ws. is_word w \<and> length (word_code w) = 1 \<Longrightarrow> c = 4 * length code \<Longrightarrow>
   length code + length ws < 127 \<Longrightarrow>
   compile_loop c code (spaced ws) = Inr (code @ concat (map word_code ws) @ [TOKEN_NOP]) \<and>
   compile_loop c code (CHR '' '' # spaced ws) = Inr (code @ concat (map word_code ws) @ [TOKEN_NOP])"
proof (induction ws arbitrary: c code rule: spaced.induct)
  case (2 w)
  then have w: "is_word w" "length (word_code w) = 1" by simp_all
  have "read_word w = (Some w, [])" "read_word (CHR '' '' # w) = (Some w, [])"
    using read_word_first [OF w(1), of "[]"] read_word_spaced [OF w(1), of "[]"] by simp_all
  then show ?case using 2(3,4) w(2) by (simp add: compile_loop.simps Let_def)
next
  case (3 w v ws)
  let ?r = "CHR '' '' # spaced (v # ws)"
  have w: "is_word w" "length (word_code w) = 1" using 3(3) by simp_all
  have r: "read_word (w @ ?r) = (Some w, ?r)" "read_word (CHR '' '' # w @ ?r) = (Some w, ?r)"
    by (rule read_word_first [OF w(1)] read_word_spaced [OF w(1)]; simp)+
  have "compile_loop (c + 4) (code @ word_code w) ?r = Inr ((code @ word_code w) @ concat (map word_code (v # ws)) @ [TOKEN_NOP])"
    using 3(1) [of "c + 4" "code @ word_code w"] 3(3-5) w(2) by simp
  then show ?case
    using 3(4,5) w(2) r compile_loop.simps [of c code "w @ ?r"] compile_loop.simps [of c code "CHR '' '' # w @ ?r"]
    by (simp add: Let_def)
qed simp

section \<open>The machine agrees with the meaning\<close>

lemma int_token:
  fixes x :: u32
  shows "(TOKEN_INT OR (x AND 0x00ffffff)) AND 0xff000000 = TOKEN_INT"
    "(TOKEN_INT OR (x AND 0x00ffffff)) AND 0x00ffffff = x AND 0x00ffffff"
  by (simp_all add: word_ao_dist and.assoc)

lemma small_number: assumes "n < 2 ^ 24" shows "(of_nat n :: u32) AND 0x00ffffff = of_nat n"
proof -
  have "(of_nat n :: u32) AND 0x00ffffff = take_bit 24 (of_nat n)" by (simp add: take_bit_eq_mask mask_eq_exp_minus_1)
  also have "\<dots> = of_nat (take_bit 24 n)" by (rule take_bit_of_nat)
  also have "take_bit 24 n = n" using assms by (rule take_bit_nat_eq_self)
  finally show ?thesis .
qed

lemma number_step:
  fixes x :: u32
  shows "dq_step f (TOKEN_INT OR (x AND 0x00ffffff)) st = push (x AND 0x00ffffff) st"
    "(TOKEN_INT OR (x AND 0x00ffffff)) AND 0xff000000 \<noteq> TOKEN_NOP"
  by (simp_all only: dq_step_def Let_def int_token simp_thms if_True) simp

lemma number_code: "n < 2 ^ 24 \<Longrightarrow> word_code (show_nat n) = [TOKEN_INT OR (of_nat n AND 0x00ffffff)]"
  using dec_digits_digits by (simp add: word_code_def show_nat_def)

lemma less_8: "i < (8 :: nat) \<longleftrightarrow> i = 0 \<or> i = 1 \<or> i = 2 \<or> i = 3 \<or> i = 4 \<or> i = 5 \<or> i = 6 \<or> i = 7"
  by presburger

lemma small_digits:
  "show_nat 0 = ''0''" "show_nat 1 = ''1''" "show_nat 2 = ''2''" "show_nat 3 = ''3''" "show_nat 4 = ''4''" "show_nat 5 = ''5''"
  "show_nat 6 = ''6''" "show_nat 7 = ''7''"
  by code_simp+

lemmas code_defs = word_code_def cxx_isdigit_def dq_step_def is_word_def cxx_isspace_def

lemma field_code:
  assumes "expr_ok (Field x)"
  obtains t where "word_code (field_word x) = [t]" "is_word (field_word x)" "t AND 0xff000000 \<noteq> TOKEN_NOP"
    "\<And>st. dq_step f t st = push (field_value f x) st"
proof -
  have "\<exists>t. word_code (field_word x) = [t] \<and> is_word (field_word x) \<and> t AND 0xff000000 \<noteq> TOKEN_NOP \<and>
      (\<forall>st. dq_step f t st = push (field_value f x) st)"
  proof (cases x)
    case (Data i)
    then have i: "i < 8" using assms by simp
    then show ?thesis
      unfolding less_8 Data by (elim disjE) (simp_all add: small_digits [unfolded One_nat_def] code_defs)
  qed (simp_all add: code_defs)
  then show thesis using that by blast
qed

lemma op_code:
  obtains t where "word_code (op_word p) = [t]" "is_word (op_word p)" "t AND 0xff000000 \<noteq> TOKEN_NOP"
    "\<And>x y st. length st < 15 \<Longrightarrow> dq_step f t (y # x # st) = Inr (op_value p x y # st)"
  by (cases p; rule that)
    (auto simp: code_defs binary_def push_def and.commute or.commute
      intro!: arg_cong [of _ _ bool_u32])

lemma negate_code:
  "word_code ''!'' = [TOKEN_NOT]" "is_word ''!''" "length st < 15 \<Longrightarrow> dq_step f TOKEN_NOT (x # st) = Inr (bool_u32 (x = 0) # st)"
  by (simp_all add: code_defs unary_def push_def)

lemma postfix_words_ok:
  "expr_ok e \<Longrightarrow> postfix_words e \<noteq> [] \<and> (\<forall>w \<in> set (postfix_words e). is_word w \<and> length (word_code w) = 1)"
proof (induction e)
  case (Field x)
  obtain t where "word_code (field_word x) = [t]" "is_word (field_word x)" by (rule field_code [OF Field])
  then show ?case by simp
next
  case (Op p a b)
  obtain t where "word_code (op_word p) = [t]" "is_word (op_word p)" by (rule op_code)
  then show ?case using Op by auto
qed (auto simp: number_code negate_code)

lemma machine_evaluates:
  assumes "expr_ok e" and "length st + stack_need e \<le> 15" and "c + 4 * length (postfix_words e) \<le> 128"
  shows "match_loop f c (concat (map word_code (postfix_words e)) @ ws) st =
    match_loop f (c + 4 * length (postfix_words e)) ws (dq_eval f e # st)"
  using assms
proof (induction e arbitrary: c st ws)
  case (Number n)
  then show ?case
    by (simp add: number_code number_step) (simp add: push_def small_number)
next
  case (Field x)
  obtain t where t: "word_code (field_word x) = [t]" "t AND 0xff000000 \<noteq> TOKEN_NOP"
      "\<And>st. dq_step f t st = push (field_value f x) st"
    by (rule field_code [OF Field(1)]) blast
  show ?case using Field(2,3) by (simp add: t push_def)
next
  case (Negate e)
  have "1 \<le> stack_need e" by (induction e) auto
  then have "length st < 15" using Negate.prems(2) by simp
  then show ?case using Negate by (simp add: negate_code) (simp add: add.commute add.left_commute)
next
  case (Op p a b)
  obtain t where t: "word_code (op_word p) = [t]" "t AND 0xff000000 \<noteq> TOKEN_NOP"
      "\<And>x y st. length st < 15 \<Longrightarrow> dq_step f t (y # x # st) = Inr (op_value p x y # st)"
    by (rule op_code) blast
  have "1 \<le> stack_need b" by (induction b) auto
  then have "length st < 15" using Op.prems(2) by simp
  then show ?case using Op by (simp add: t ac_simps)
qed

lemma compile_query_words:
  assumes "expr_ok e" and "length (postfix_words e) < 127"
  shows "compile_query (spaced (postfix_words e)) = Inr (concat (map word_code (postfix_words e)) @ [TOKEN_NOP])"
  using compile_loop_words [of "postfix_words e" 0 "[]"] postfix_words_ok [OF assms(1)] assms(2)
  by (simp add: compile_query_def)

lemma query_code:
  assumes "expr_ok e" and "length (postfix_words e) \<le> 31" and "stack_need e \<le> 15"
  obtains code where "compile_query (spaced (postfix_words e)) = Inr code" "\<And>f. dq_match code f = Inr (dq_eval f e \<noteq> 0)"
proof -
  let ?code = "concat (map word_code (postfix_words e)) @ [TOKEN_NOP]"
  have "dq_match ?code f = Inr (dq_eval f e \<noteq> 0)" for f
    using machine_evaluates [OF assms(1), of "[]" 0 f "[TOKEN_NOP]"] assms(2,3) by (simp add: dq_match_def)
  with compile_query_words [OF assms(1)] assms(2) show thesis by (intro that) auto
qed

text \<open>
  Property C23. A query means what it says: for every expression of at most 31 words that
  needs at most 15 entries of the stack, with numbers of at most 24 bits, the text of the
  expression compiles, and for every frame the code ends and matches exactly when the expression
  has a value other than 0 for the frame.
\<close>

theorem query_means_expression:
  assumes "expr_ok e" and "length (postfix_words e) \<le> 31" and "stack_need e \<le> 15"
  shows "\<exists>code. compile_query (spaced (postfix_words e)) = Inr code \<and> (\<forall>f. dq_match code f = Inr (dq_eval f e \<noteq> 0))"
  by (rule query_code [OF assms]) blast

theorem query_means_expression_witness:
  "\<exists>code. compile_query ''src 35 = d1 7 & ! &&'' = Inr code \<and>
    dq_match code \<lparr>e_timestamp = 0, e_src = 35, e_dst = 40, e_proto = 1, e_size = 2, e_data = [1, 8, 0, 0, 0, 0, 0, 0]\<rparr> = Inr True"
proof -
  let ?e = "Op And (Op Equal (Field Src) (Number 35)) (Negate (Op And_Op (Field (Data 1)) (Number 7)))"
  have w: "spaced (postfix_words ?e) = ''src 35 = d1 7 & ! &&''"
    by code_simp
  obtain code where "compile_query (spaced (postfix_words ?e)) = Inr code" "\<And>f. dq_match code f = Inr (dq_eval f ?e \<noteq> 0)"
    using query_means_expression [of ?e] by auto
  then show ?thesis unfolding w by (simp add: bool_u32_def)
qed

text \<open>
  A query of 32 words or more compiles but never matches: the loop counts the code in bytes.
\<close>

lemma long_query_fails:
  "\<forall>w \<in> set ws. w AND 0xff000000 \<noteq> TOKEN_NOP \<Longrightarrow> CODE_SIZE \<le> c + 4 * length ws \<Longrightarrow>
   \<exists>e. match_loop f c (ws @ vs) st = Inl e"
proof (induction ws arbitrary: c st)
  case Nil
  then show ?case by (cases vs) simp_all
next
  case (Cons w ws)
  show ?case
  proof (cases "dq_step f w st")
    case (Inr st')
    then show ?thesis using Cons.IH [of "c + 4" st'] Cons.prems by simp
  qed (use Cons.prems in simp)
qed

end
