(* ===== verification/Data_File.thy ===== *)
theory Data_File
  imports Data_Query
begin

text \<open>
  The file of recorded frames, \<^verbatim>\<open>src/libhcandata/data_file_writer.cc\<close> and
  \<^verbatim>\<open>data_file.cc\<close>, and the program that queries it, \<^verbatim>\<open>src/hcandq/main.cc\<close>. A file is the
  list of its bytes; structures lie in it as the compiler lays them out, without gaps, the
  low byte first. The writer always stands at the end of the file when it writes a frame.
\<close>

section \<open>Bytes\<close>

fun le_bytes :: "nat \<Rightarrow> nat \<Rightarrow> u8 list" where
  "le_bytes 0 k = []"
| "le_bytes (Suc n) k = of_nat k # le_bytes n (k div 256)"

fun of_le :: "u8 list \<Rightarrow> nat" where
  "of_le [] = 0"
| "of_le (b # bs) = unat b + 256 * of_le bs"

lemma length_le_bytes [simp]: "length (le_bytes n k) = n"
  by (induction n k rule: le_bytes.induct) auto

lemma of_le_bytes: "of_le (le_bytes n k) = k mod 256 ^ n"
proof (induction n k rule: le_bytes.induct)
  case (2 n k)
  have "unat (of_nat k :: u8) = k mod 256" by (simp add: unat_of_nat)
  then show ?case using 2 mod_mult2_eq [of k 256 "256 ^ n"] by simp
qed simp

text \<open>Reading \<open>n\<close> bytes: what the file does not have stays as it was in the memory.\<close>

definition read_at :: "(nat \<Rightarrow> u8) \<Rightarrow> u8 list \<Rightarrow> nat \<Rightarrow> nat \<Rightarrow> u8 list" where
  "read_at junk file p n = map (\<lambda>i. if p + i < length file then file ! (p + i) else junk i) [0..<n]"

definition field_at :: "u8 list \<Rightarrow> nat \<Rightarrow> nat \<Rightarrow> nat" where
  "field_at bs p n = of_le (take n (drop p bs))"

definition overwrite :: "nat \<Rightarrow> u8 list \<Rightarrow> u8 list \<Rightarrow> u8 list" where
  "overwrite p bs file = take p file @ replicate (p - length file) 0 @ bs @ drop (p + length bs) file"

section \<open>Structures\<close>

abbreviation (input) DATA_FILE_MAGIC_1 :: nat where "DATA_FILE_MAGIC_1 \<equiv> 0x12345678"
abbreviation (input) DATA_FILE_MAGIC_2 :: nat where "DATA_FILE_MAGIC_2 \<equiv> 0x20080404"
abbreviation (input) data_file_type_header :: nat where "data_file_type_header \<equiv> 1"
abbreviation (input) data_file_type_data :: nat where "data_file_type_data \<equiv> 2"

definition header_block :: "u8 list" where
  "header_block = le_bytes 4 data_file_type_header @ le_bytes 4 16 @ le_bytes 4 DATA_FILE_MAGIC_1 @ le_bytes 4 DATA_FILE_MAGIC_2"

definition data_block :: "nat \<Rightarrow> nat \<Rightarrow> nat \<Rightarrow> u8 list" where
  "data_block sz first newest = le_bytes 4 data_file_type_data @ le_bytes 4 sz @ le_bytes 8 first @ le_bytes 8 newest"

definition entry_bytes :: "frame_entry \<Rightarrow> u8 list" where
  "entry_bytes f = le_bytes 8 (unat (e_timestamp f)) @ le_bytes 2 (unat (e_src f)) @ le_bytes 2 (unat (e_dst f)) @
     le_bytes 2 (unat (e_proto f)) @ le_bytes 2 (unat (e_size f)) @ e_data f"

definition entry_of :: "u8 list \<Rightarrow> frame_entry" where
  "entry_of bs = \<lparr>e_timestamp = of_nat (field_at bs 0 8), e_src = of_nat (field_at bs 8 2), e_dst = of_nat (field_at bs 10 2),
     e_proto = of_nat (field_at bs 12 2), e_size = of_nat (field_at bs 14 2), e_data = take 8 (drop 16 bs)\<rparr>"

section \<open>Writing\<close>

definition setup_file :: "u64 \<Rightarrow> u8 list" where
  "setup_file now = header_block @ data_block 24 (unat now) 0"

definition check_if_file_valid :: "(nat \<Rightarrow> u8) \<Rightarrow> u8 list \<Rightarrow> string + unit" where
  "check_if_file_valid junk file =
     (let header = read_at junk file 0 16 in
      if field_at header 8 4 \<noteq> DATA_FILE_MAGIC_1 then Inl ''wrong DATA_FILE_MAGIC_1 value''
      else if field_at header 12 4 \<noteq> DATA_FILE_MAGIC_2 then Inl ''wrong DATA_FILE_MAGIC_2 value''
      else if field_at header 0 4 \<noteq> data_file_type_header then Inl ''wrong header block type''
      else if field_at (read_at junk file (field_at header 4 4) 24) 0 4 \<noteq> data_file_type_data then Inl ''wrong data block type''
      else Inr ())"

definition data_file_writer :: "(nat \<Rightarrow> u8) \<Rightarrow> u64 \<Rightarrow> u8 list \<Rightarrow> string + u8 list" where
  "data_file_writer junk now file =
     (if length file > 0 then (case check_if_file_valid junk file of Inl e \<Rightarrow> Inl e | Inr _ \<Rightarrow> Inr file)
      else Inr (file @ setup_file now))"

definition write_frame :: "u64 \<Rightarrow> u16 \<Rightarrow> u16 \<Rightarrow> u16 \<Rightarrow> u16 \<Rightarrow> u8 list \<Rightarrow> u8 list \<Rightarrow> u8 list" where
  "write_frame now s d p sz ds file =
     file @ entry_bytes \<lparr>e_timestamp = now, e_src = s, e_dst = d, e_proto = p, e_size = sz, e_data = ds\<rparr>"

text \<open>Only as many bytes of the data block are written back as a header block has.\<close>

definition write_data_block :: "nat \<Rightarrow> u8 list \<Rightarrow> u8 list \<Rightarrow> string + u8 list" where
  "write_data_block data_pos ds file =
     (if data_pos = 1 then Inl ''lseek'' else Inr (overwrite data_pos (take 16 ds) file))"

definition sync :: "(nat \<Rightarrow> u8) \<Rightarrow> u8 list \<Rightarrow> string + u8 list" where
  "sync junk file =
     (let data_pos = field_at (read_at junk file 0 16) 4 4;
          ds = read_at junk file data_pos 24;
          sz = of_nat (length file) - (of_nat data_pos :: u64) in
      if sz > 24
      then if length file < 24 then Inl ''lseek''
           else write_data_block data_pos (take 4 ds @ drop 4
                  (data_block (unat sz) (unat (e_timestamp (entry_of (read_at junk file (data_pos + 24) 24))))
                     (unat (e_timestamp (entry_of (read_at junk file (length file - 24) 24)))))) file
      else write_data_block data_pos (take 4 ds @ drop 4 (data_block (unat sz) 0 0)) file)"

text \<open>A run of the recorder: it opens the file, writes what it hears, and the destructor ends it.\<close>

definition record_session :: "(nat \<Rightarrow> u8) \<Rightarrow> u64 \<times> frame_entry list \<Rightarrow> u8 list \<Rightarrow> string + u8 list" where
  "record_session junk s file =
     (case data_file_writer junk (fst s) file of
        Inl e \<Rightarrow> Inl e
      | Inr file \<Rightarrow> sync junk (fold (\<lambda>f. write_frame (e_timestamp f) (e_src f) (e_dst f) (e_proto f) (e_size f) (e_data f)) (snd s) file))"

fun record_sessions :: "(nat \<Rightarrow> u8) \<Rightarrow> (u64 \<times> frame_entry list) list \<Rightarrow> u8 list \<Rightarrow> string + u8 list" where
  "record_sessions junk [] file = Inr file"
| "record_sessions junk (s # ss) file =
     (case record_session junk s file of Inl e \<Rightarrow> Inl e | Inr file \<Rightarrow> record_sessions junk ss file)"

section \<open>Reading\<close>

text \<open>The memory the file is mapped to; a page has zeros behind the end of the file.\<close>

definition map_file :: "u8 list \<Rightarrow> string + u8 list" where
  "map_file file =
     (let header = read_at (\<lambda>_. 0) file 0 16; ds = read_at (\<lambda>_. 0) file 16 24 in
      if file = [] then Inl ''mmap''
      else if field_at header 8 4 \<noteq> DATA_FILE_MAGIC_1 then Inl ''wrong DATA_FILE_MAGIC_1 value''
      else if field_at header 12 4 \<noteq> DATA_FILE_MAGIC_2 then Inl ''wrong DATA_FILE_MAGIC_2 value''
      else if field_at header 0 4 \<noteq> data_file_type_header then Inl ''wrong header block type''
      else if field_at ds 0 4 \<noteq> data_file_type_data then Inl ''wrong data block type''
      else Inr file)"

definition frame_count :: "u8 list \<Rightarrow> int" where
  "frame_count file = sint (ucast ((of_nat (length file) - 16 - 24 :: u64) div 24) :: u32)"

definition frame_at :: "u8 list \<Rightarrow> int \<Rightarrow> string + frame_entry" where
  "frame_at file idx =
     (if idx < 0 \<or> idx > frame_count file - 1 then Inl ''frame index access out of bounds''
      else Inr (entry_of (read_at (\<lambda>_. 0) file (16 + 24 + 24 * nat idx) 24)))"

section \<open>The query program\<close>

text \<open>The frames that are printed, in order; \<open>wanted\<close> is the number of frames wanted from the end, or 0 for all.\<close>

fun all_loop :: "u8 list \<Rightarrow> u32 list \<Rightarrow> int list \<Rightarrow> string + frame_entry list" where
  "all_loop file code [] = Inr []"
| "all_loop file code (i # is) =
     (case frame_at file i of Inl e \<Rightarrow> Inl e
      | Inr fe \<Rightarrow> (case dq_match code fe of Inl e \<Rightarrow> Inl e
        | Inr b \<Rightarrow> map_sum (\<lambda>e. e) (\<lambda>fs. if b then fe # fs else fs) (all_loop file code is)))"

fun last_loop :: "u8 list \<Rightarrow> u32 list \<Rightarrow> int \<Rightarrow> int \<Rightarrow> frame_entry list \<Rightarrow> int list \<Rightarrow> string + frame_entry list" where
  "last_loop file code wanted n st [] = Inr st"
| "last_loop file code wanted n st (i # is) =
     (if n \<ge> wanted then Inr st
      else (case frame_at file i of Inl e \<Rightarrow> Inl e
      | Inr fe \<Rightarrow> (case dq_match code fe of Inl e \<Rightarrow> Inl e
        | Inr b \<Rightarrow> if b then last_loop file code wanted (n + 1) (fe # st) is else last_loop file code wanted n st is)))"

definition query_file :: "u8 list \<Rightarrow> string \<Rightarrow> int \<Rightarrow> string + frame_entry list" where
  "query_file file query wanted =
     (case map_file file of Inl e \<Rightarrow> Inl e
      | Inr m \<Rightarrow> (case compile_query query of Inl e \<Rightarrow> Inl e
        | Inr code \<Rightarrow>
            let indices = [0..frame_count m - 1] in
            if wanted \<noteq> 0 then last_loop m code wanted 0 [] (rev indices) else all_loop m code indices))"

section \<open>What is in the file\<close>

definition log_file :: "frame_entry list \<Rightarrow> nat \<Rightarrow> nat \<Rightarrow> u8 list" where
  "log_file fs sz first = header_block @ data_block sz first 0 @ concat (map entry_bytes fs)"

definition entries_ok :: "frame_entry list \<Rightarrow> bool" where
  "entries_ok fs \<longleftrightarrow> (\<forall>f \<in> set fs. length (e_data f) = 8)"

lemma read_at_middle: "length xs = p \<Longrightarrow> length ys = n \<Longrightarrow> read_at junk (xs @ ys @ zs) p n = ys"
  by (intro nth_equalityI) (auto simp: read_at_def nth_append)

lemma length_blocks [simp]: "length header_block = 16" "length (data_block sz first newest) = 24"
  by (simp_all add: header_block_def data_block_def)

lemma header_fields [simp]:
  "field_at header_block 0 4 = 1" "field_at header_block 4 4 = 16" "field_at header_block 8 4 = DATA_FILE_MAGIC_1"
  "field_at header_block 12 4 = DATA_FILE_MAGIC_2"
  by (simp_all add: field_at_def header_block_def of_le_bytes)

lemma data_block_type [simp]: "field_at (data_block sz first newest) 0 4 = 2"
  by (simp add: field_at_def data_block_def of_le_bytes)

lemma length_entry: "length (e_data f) = 8 \<Longrightarrow> length (entry_bytes f) = 24"
  by (simp add: entry_bytes_def)

lemma entry_roundtrip: assumes "length (e_data f) = 8" shows "entry_of (entry_bytes f) = f"
proof -
  have "unat (e_timestamp f) < 2 ^ LENGTH(64)" by (rule unsigned_less)
  then show ?thesis using assms by (simp add: entry_of_def entry_bytes_def field_at_def of_le_bytes)
qed

lemma length_entries: "entries_ok fs \<Longrightarrow> length (concat (map entry_bytes fs)) = 24 * length fs"
  by (induction fs) (auto simp: entries_ok_def length_entry)

lemma length_log_file: "entries_ok fs \<Longrightarrow> length (log_file fs sz first) = 40 + 24 * length fs"
  by (simp add: log_file_def length_entries)

lemma entry_read:
  assumes "entries_ok fs" and "i < length fs"
  shows "entry_of (read_at junk (log_file fs sz first) (40 + 24 * i) 24) = fs ! i"
proof -
  have f: "fs = take i fs @ fs ! i # drop (Suc i) fs" using assms(2) by (rule id_take_nth_drop)
  have o: "entries_ok (take i fs)" "length (e_data (fs ! i)) = 8"
    using assms by (auto simp: entries_ok_def dest: in_set_takeD)
  let ?xs = "header_block @ data_block sz first 0 @ concat (map entry_bytes (take i fs))"
  have "log_file fs sz first = ?xs @ entry_bytes (fs ! i) @ concat (map entry_bytes (drop (Suc i) fs))"
    by (subst f) (simp add: log_file_def)
  then have "read_at junk (log_file fs sz first) (40 + 24 * i) 24 = entry_bytes (fs ! i)"
    using assms(2) o by (simp only: read_at_middle length_append length_blocks length_entries length_entry length_take min_absorb2)
  then show ?thesis using entry_roundtrip [OF o(2)] by simp
qed

lemma unat_of_nat_u64: "n < 2 ^ 64 \<Longrightarrow> unat (of_nat n :: u64) = n"
  by (simp add: unat_of_nat take_bit_nat_eq_self)

lemma log_file_header: "read_at junk (log_file fs sz first) 0 16 = header_block"
  using read_at_middle [of "[]" 0 header_block 16] by (simp add: log_file_def)

lemma log_file_block: "read_at junk (log_file fs sz first) 16 24 = data_block sz first 0"
  using read_at_middle [of header_block 16 "data_block sz first 0" 24] by (simp add: log_file_def)

lemma log_file_nonempty [simp]: "log_file fs sz first \<noteq> []" "0 < length (log_file fs sz first)"
proof -
  show "0 < length (log_file fs sz first)" by (simp only: log_file_def length_append length_blocks)
  then show "log_file fs sz first \<noteq> []" by force
qed

lemma writer_opens: "data_file_writer junk now (log_file fs sz first) = Inr (log_file fs sz first)"
  by (simp add: data_file_writer_def check_if_file_valid_def log_file_header log_file_block Let_def)

lemma writer_creates: "data_file_writer junk now [] = Inr (log_file [] 24 (unat now))"
  by (simp add: data_file_writer_def setup_file_def log_file_def)

lemma frames_written:
  "fold (\<lambda>f. write_frame (e_timestamp f) (e_src f) (e_dst f) (e_proto f) (e_size f) (e_data f)) gs (log_file fs sz first) =
   log_file (fs @ gs) sz first"
proof (induction gs arbitrary: fs)
  case (Cons g gs)
  have "write_frame (e_timestamp g) (e_src g) (e_dst g) (e_proto g) (e_size g) (e_data g) (log_file fs sz first) =
      log_file (fs @ [g]) sz first"
    by (cases g) (simp add: write_frame_def log_file_def)
  then show ?case using Cons by simp
qed simp

text \<open>The destructor sets the size and the oldest time of the data block; the newest time stays 0.\<close>

lemma block_rewritten:
  "overwrite 16 (take 16 (take 4 (data_block sz first 0) @ drop 4 (data_block sz' first' newest'))) (log_file fs sz first) =
   log_file fs sz' first'"
proof -
  have b: "data_block sz first newest = (le_bytes 4 2 @ le_bytes 4 sz @ le_bytes 8 first) @ le_bytes 8 newest" for sz first newest
    by (simp add: data_block_def)
  have t: "take 16 (take 4 (data_block sz first 0) @ drop 4 (data_block sz' first' newest')) = le_bytes 4 2 @ le_bytes 4 sz' @ le_bytes 8 first'"
    by (simp add: data_block_def)
  have f: "log_file fs sz first = header_block @ (le_bytes 4 2 @ le_bytes 4 sz @ le_bytes 8 first) @
      le_bytes 8 0 @ concat (map entry_bytes fs)" for sz first
    by (simp add: log_file_def data_block_def)
  show ?thesis unfolding overwrite_def t f [of sz first] f [of sz' first'] by simp
qed

lemma sync_result:
  assumes "entries_ok fs" and "length fs < 2 ^ 30"
  shows "sync junk (log_file fs sz first) =
    Inr (log_file fs (24 + 24 * length fs) (if fs = [] then 0 else unat (e_timestamp (hd fs))))"
proof -
  have l: "length (log_file fs sz first) = 40 + 24 * length fs" by (rule length_log_file [OF assms(1)])
  have "(of_nat (40 + 24 * length fs) :: u64) - of_nat 16 = of_nat (24 + 24 * length fs)" by simp
  moreover have "unat (of_nat (24 + 24 * length fs) :: u64) = 24 + 24 * length fs"
    by (rule unat_of_nat_u64) (use assms(2) in simp)
  ultimately have z: "unat ((of_nat (length (log_file fs sz first)) :: u64) - of_nat 16) = 24 + 24 * length fs"
    by (simp only: l)
  have g: "(of_nat (length (log_file fs sz first)) :: u64) - of_nat 16 > 24 \<longleftrightarrow> fs \<noteq> []"
    by (simp only: word_less_nat_alt z) auto
  show ?thesis
  proof (cases "fs = []")
    case True
    then show ?thesis
      using g z block_rewritten [of sz first 24 0 0 fs]
      by (simp add: sync_def log_file_header log_file_block Let_def write_data_block_def)
  next
    case False
    then have "entry_of (read_at junk (log_file fs sz first) 40 24) = hd fs"
      using entry_read [OF assms(1), of 0 junk sz first] by (simp add: hd_conv_nth)
    then show ?thesis
      using False g z l block_rewritten [of sz first "24 + 24 * length fs" "unat (e_timestamp (hd fs))" _ fs]
      by (simp add: sync_def log_file_header log_file_block Let_def write_data_block_def)
  qed
qed

lemma session_result:
  assumes "entries_ok (fs @ gs)" and "length (fs @ gs) < 2 ^ 30"
  shows "\<exists>sz' first'. record_session junk (now, gs) (log_file fs sz first) = Inr (log_file (fs @ gs) sz' first')"
    "fs = [] \<Longrightarrow> \<exists>sz' first'. record_session junk (now, gs) [] = Inr (log_file gs sz' first')"
  using sync_result [OF assms]
  by (auto simp: record_session_def writer_opens writer_creates frames_written)

lemma sessions_result:
  "entries_ok (fs @ concat (map snd ss)) \<Longrightarrow> length (fs @ concat (map snd ss)) < 2 ^ 30 \<Longrightarrow>
   \<exists>sz' first'. record_sessions junk ss (log_file fs sz first) = Inr (log_file (fs @ concat (map snd ss)) sz' first')"
proof (induction ss arbitrary: fs sz first)
  case (Cons s ss)
  have "entries_ok (fs @ snd s)" "length (fs @ snd s) < 2 ^ 30" using Cons.prems by (auto simp: entries_ok_def)
  from session_result(1) [OF this, of junk "fst s" sz first] obtain sz1 first1 where
    s: "record_session junk s (log_file fs sz first) = Inr (log_file (fs @ snd s) sz1 first1)" by auto
  show ?case using Cons.IH [of "fs @ snd s" sz1 first1] Cons.prems by (simp add: s)
qed auto

section \<open>What the query program prints\<close>

lemma log_file_mapped: "map_file (log_file fs sz first) = Inr (log_file fs sz first)"
  by (simp add: map_file_def log_file_header log_file_block Let_def)

lemma frame_count_log:
  assumes "entries_ok fs" and "length fs < 2 ^ 30" shows "frame_count (log_file fs sz first) = int (length fs)"
proof -
  have "(of_nat (40 + 24 * length fs) :: u64) - 16 - 24 = of_nat (24 * length fs)" by simp
  moreover have u: "unat (of_nat (24 * length fs) :: u64) = 24 * length fs"
    by (rule unat_of_nat_u64) (use assms(2) in simp)
  have "(of_nat (24 * length fs) :: u64) div 24 = of_nat (length fs)"
    by (simp only: word_arith_nat_div u) simp
  moreover note this
  ultimately have "frame_count (log_file fs sz first) = sint (ucast (of_nat (length fs) :: u64) :: u32)"
    unfolding frame_count_def length_log_file [OF assms(1)] by (simp only:)
  also have "(ucast (of_nat (length fs) :: u64) :: u32) = of_nat (length fs)"
    using assms(2) by (simp add: word_unat_eq_iff unsigned_ucast_eq unat_of_nat take_bit_nat_eq_self)
  also have "sint (of_nat (length fs) :: u32) = int (length fs)"
    using assms(2) by (simp add: sint_uint signed_take_bit_int_eq_self unsigned_of_nat take_bit_nat_eq_self)
  finally show ?thesis .
qed

lemma frame_at_log:
  assumes "entries_ok fs" and "length fs < 2 ^ 30" and "i < length fs"
  shows "frame_at (log_file fs sz first) (int i) = Inr (fs ! i)"
  using entry_read [OF assms(1,3)] assms(3) frame_count_log [OF assms(1,2)] by (simp add: frame_at_def)

text \<open>The last \<open>n\<close> entries of a list.\<close>

definition take_last :: "nat \<Rightarrow> 'a list \<Rightarrow> 'a list" where
  "take_last n xs = drop (length xs - n) xs"

lemma take_last_rev: "take_last n xs = rev (take n (rev xs))"
  by (simp add: take_last_def take_rev)

lemma all_loop_result:
  "(\<And>i. i \<in> set is \<Longrightarrow> frame_at file i = Inr (g i) \<and> dq_match code (g i) = Inr (P (g i))) \<Longrightarrow>
   all_loop file code is = Inr (filter P (map g is))"
  by (induction "is") auto

lemma last_loop_result:
  "(\<And>i. i \<in> set is \<Longrightarrow> frame_at file i = Inr (g i) \<and> dq_match code (g i) = Inr (P (g i))) \<Longrightarrow>
   last_loop file code wanted n st is = Inr (rev (take (nat (wanted - n)) (filter P (map g is))) @ st)"
proof (induction "is" arbitrary: n st)
  case (Cons i "is")
  have i: "frame_at file i = Inr (g i)" "dq_match code (g i) = Inr (P (g i))" using Cons.prems by simp_all
  have ih: "last_loop file code wanted n st is = Inr (rev (take (nat (wanted - n)) (filter P (map g is))) @ st)" for n st
    by (rule Cons.IH) (use Cons.prems in simp)
  show ?case
  proof (cases "n \<ge> wanted")
    case False
    then have "nat (wanted - n) = Suc (nat (wanted - (n + 1)))" by simp
    then show ?thesis using False by (simp add: i ih)
  qed simp
qed simp

lemma int_upto: "[0..int n - 1] = map int [0..<n]"
proof (induction n)
  case (Suc n)
  have "[0..int (Suc n) - 1] = [0..int n - 1] @ [int n]"
    using upto_rec2 [of 0 "int n"] by simp
  then show ?case using Suc by simp
qed simp

lemma query_log_file:
  assumes "entries_ok fs" and "length fs < 2 ^ 30" and "compile_query q = Inr code" and "\<And>f. dq_match code f = Inr (P f)"
  shows "query_file (log_file fs sz first) q wanted =
    Inr (if wanted = 0 then filter P fs else take_last (nat wanted) (filter P fs))"
proof -
  let ?file = "log_file fs sz first"
  have g: "frame_at ?file i = Inr (fs ! nat i) \<and> dq_match code (fs ! nat i) = Inr (P (fs ! nat i))"
    if "i \<in> set (map int [0..<length fs])" for i
    using that frame_at_log [OF assms(1,2)] assms(4) by auto
  have m: "map (\<lambda>i. fs ! nat i) (map int [0..<length fs]) = fs" by (simp add: comp_def map_nth)
  have "all_loop ?file code (map int [0..<length fs]) = Inr (filter P fs)"
    using all_loop_result [of "map int [0..<length fs]" ?file "\<lambda>i. fs ! nat i" code P] g unfolding m by blast
  moreover have "last_loop ?file code wanted 0 [] (rev (map int [0..<length fs])) =
      Inr (rev (take (nat wanted) (rev (filter P fs))))"
    using last_loop_result [of "rev (map int [0..<length fs])" ?file "\<lambda>i. fs ! nat i" code P wanted 0 "[]"] g
    unfolding rev_map [symmetric] m rev_filter [symmetric] by simp
  ultimately show ?thesis
    by (simp add: query_file_def log_file_mapped assms(3) frame_count_log [OF assms(1,2)] int_upto take_last_rev)
qed

text \<open>
  Property C22. Recording and querying: whatever frames the recorder writes, in however many
  runs over the same file, a query for an expression prints exactly the recorded frames for which
  the expression has a value other than 0, unchanged and in the order they were recorded; and with
  a number of frames from the end, the last so many of them. As for every query, the expression has at most 31 words
  and needs at most 15 entries of the stack.
\<close>

theorem recorded_frames_are_found:
  assumes "ss \<noteq> []" and "entries_ok (concat (map snd ss))" and "length (concat (map snd ss)) < 2 ^ 30"
    and "expr_ok e" and "length (postfix_words e) \<le> 31" and "stack_need e \<le> 15"
  shows "\<exists>file. record_sessions junk ss [] = Inr file \<and>
    query_file file (spaced (postfix_words e)) wanted =
      (let found = filter (\<lambda>f. dq_eval f e \<noteq> 0) (concat (map snd ss))
       in Inr (if wanted = 0 then found else take_last (nat wanted) found))"
proof -
  obtain s ss' where ss: "ss = s # ss'" using assms(1) by (cases ss) auto
  have f: "entries_ok ([] @ snd s)" "length ([] @ snd s) < 2 ^ 30" using assms(2,3) by (auto simp: ss entries_ok_def)
  obtain sz first where 1: "record_session junk s [] = Inr (log_file (snd s) sz first)"
    using session_result(2) [OF f, of junk "fst s"] by auto
  obtain sz' first' where 2: "record_sessions junk ss' (log_file (snd s) sz first) =
      Inr (log_file (concat (map snd ss)) sz' first')"
    using sessions_result [of "snd s" ss' junk sz first] assms(2,3) by (auto simp: ss)
  obtain code where q: "compile_query (spaced (postfix_words e)) = Inr code" "\<And>f. dq_match code f = Inr (dq_eval f e \<noteq> 0)"
    by (rule query_code [OF assms(4-6)]) blast
  show ?thesis
    using 1 2 query_log_file [OF assms(2,3) q] by (simp add: ss)
qed

theorem recorded_frames_are_found_witness:
  "\<exists>file. record_sessions (\<lambda>_. 7) [(5, [\<lparr>e_timestamp = 5, e_src = 35, e_dst = 40, e_proto = 1, e_size = 2, e_data = replicate 8 1\<rparr>]),
      (9, [\<lparr>e_timestamp = 9, e_src = 36, e_dst = 40, e_proto = 1, e_size = 2, e_data = replicate 8 2\<rparr>])] [] = Inr file \<and>
    query_file file (spaced (postfix_words (Op Equal (Field Src) (Number 36)))) 0 =
      Inr [\<lparr>e_timestamp = 9, e_src = 36, e_dst = 40, e_proto = 1, e_size = 2, e_data = replicate 8 2\<rparr>]"
  using recorded_frames_are_found [of "[(5, [\<lparr>e_timestamp = 5, e_src = 35, e_dst = 40, e_proto = 1, e_size = 2, e_data = replicate 8 1\<rparr>]),
      (9, [\<lparr>e_timestamp = 9, e_src = 36, e_dst = 40, e_proto = 1, e_size = 2, e_data = replicate 8 2\<rparr>])]"
      "Op Equal (Field Src) (Number 36)" "\<lambda>_. 7" 0]
  by (simp add: entries_ok_def bool_u32_def)

text \<open>The time of the newest frame never reaches the file: its eight bytes stay 0 through every run.\<close>

lemma newest_time_stays_zero: "field_at (read_at junk (log_file fs sz first) 16 24) 16 8 = 0"
  by (simp add: log_file_block) (simp add: field_at_def data_block_def of_le_bytes)

end
