(* ===== verification/Relay.thy ===== *)
theory Relay
  imports Canix_Core
begin

text \<open>
  The way of a frame between the programs of the host and the bus: the frame of the library
  (\<^verbatim>\<open>src/libhcan++/frame.cc\<close>), the distributor \<^verbatim>\<open>src/hcand/main.c\<close> all
  programs are connected to, and the gateway to the CAN interface,
  \<^verbatim>\<open>src/hcansocketd/main.c\<close>. The sockets are parameters of the steps: what they have for
  reading is given to a step, what is written to them is its result.
\<close>

unbundle bit_operations_syntax

section \<open>Frames of the host\<close>

record can_udp =
  u_id :: u32
  u_size :: u32
  u_data :: "u8 list"

record host_frame =
  hf_src :: u16
  hf_dst :: u16
  hf_proto :: u8
  hf_prio :: u8
  hf_data :: "u8 list"
  hf_size :: u32

abbreviation (input) prio_lo :: u8 where "prio_lo \<equiv> 3"

text \<open>The constructor with a size; the caller's array has as many bytes as it says.\<close>

definition host_frame_sized :: "u16 \<Rightarrow> u16 \<Rightarrow> u8 \<Rightarrow> u8 list \<Rightarrow> u32 \<Rightarrow> host_frame" where
  "host_frame_sized s d pr ds sz =
     (let n = (if sz > 8 then 8 else sz) in
      \<lparr>hf_src = s, hf_dst = d, hf_proto = pr, hf_prio = prio_lo,
       hf_data = take (unat n) ds @ replicate (8 - unat n) 0, hf_size = n\<rparr>)"

text \<open>The constructor with a vector copies all of it; more than eight bytes leave the array.\<close>

definition host_frame_vector :: "u16 \<Rightarrow> u16 \<Rightarrow> u8 \<Rightarrow> u8 list \<Rightarrow> host_frame option" where
  "host_frame_vector s d pr ds =
     (if length ds > 8 then None
      else Some \<lparr>hf_src = s, hf_dst = d, hf_proto = pr, hf_prio = prio_lo,
        hf_data = ds @ replicate (8 - length ds) 0, hf_size = of_nat (length ds)\<rparr>)"

definition frame_data :: "host_frame \<Rightarrow> nat \<Rightarrow> u8" where
  "frame_data f i = hf_data f ! (i mod 8)"

definition set_data :: "nat \<Rightarrow> u8 \<Rightarrow> host_frame \<Rightarrow> host_frame" where
  "set_data i v f = f\<lparr>hf_data := (hf_data f)[i mod 8 := v], hf_size := of_nat (i + 1)\<rparr>"

text \<open>The packet that is written; the bytes behind the size are those of the stack, \<open>junk\<close>.\<close>

definition write_to :: "u8 list \<Rightarrow> host_frame \<Rightarrow> can_udp" where
  "write_to junk f =
     \<lparr>u_id = (ucast (hf_src f) AND 0x3ff) OR push_bit 10 (ucast (hf_dst f) AND 0x3ff) OR
        push_bit 20 (ucast (hf_proto f) AND 7) OR push_bit 24 (ucast (hf_prio f)),
      u_size = hf_size f, u_data = take (unat (hf_size f)) (hf_data f) @ drop (unat (hf_size f)) junk\<rparr>"

definition read_from :: "can_udp \<Rightarrow> host_frame" where
  "read_from c = host_frame_sized (ucast (u_id c AND 0x3ff)) (ucast (drop_bit 10 (u_id c) AND 0x3ff))
     (ucast (drop_bit 20 (u_id c) AND 7)) (u_data c) (u_size c)"

section \<open>The distributor\<close>

record sockaddr =
  sin_family :: u16
  sin_port :: u16
  sin_addr :: u32
  sin_zero :: "u8 list"

record hcand =
  peer_addr :: "sockaddr list"
  peer_timeout :: "int list"

abbreviation (input) MAX_PEERS :: nat where "MAX_PEERS \<equiv> 1024"
abbreviation (input) TIMEOUT :: int where "TIMEOUT \<equiv> 60"

fun index_where :: "('a \<Rightarrow> bool) \<Rightarrow> 'a list \<Rightarrow> nat option" where
  "index_where P [] = None"
| "index_where P (x # xs) = (if P x then Some 0 else map_option Suc (index_where P xs))"

text \<open>The comparison of all bytes of two addresses is their equality.\<close>

definition does_peer_exist :: "sockaddr \<Rightarrow> hcand \<Rightarrow> nat option" where
  "does_peer_exist p s = index_where (\<lambda>q. q = p) (peer_addr s)"

definition add_peer :: "sockaddr \<Rightarrow> hcand \<Rightarrow> nat option \<times> hcand" where
  "add_peer p s =
     (case index_where (\<lambda>q. sin_addr q = 0) (peer_addr s) of
        None \<Rightarrow> (None, s)
      | Some i \<Rightarrow> (Some i, s\<lparr>peer_addr := (peer_addr s)[i := p]\<rparr>))"

definition alarm_peer :: "sockaddr \<times> int \<Rightarrow> sockaddr \<times> int" where
  "alarm_peer e =
     (let (p, t) = e in
      if sin_addr p \<noteq> 0
      then (let t = t + 1 in if t > TIMEOUT then (p\<lparr>sin_addr := 0\<rparr>, 0) else (p, t))
      else (p, t))"

definition sig_alarm :: "hcand \<Rightarrow> hcand" where
  "sig_alarm s =
     (let es = map alarm_peer (zip (peer_addr s) (peer_timeout s))
      in s\<lparr>peer_addr := map fst es, peer_timeout := map snd es\<rparr>)"

definition hcand_init :: hcand where
  "hcand_init = \<lparr>peer_addr = replicate MAX_PEERS \<lparr>sin_family = 0, sin_port = 0, sin_addr = 0, sin_zero = replicate 8 0\<rparr>,
     peer_timeout = replicate MAX_PEERS TIMEOUT\<rparr>"

text \<open>A packet that came in: the state after it, and the packets that go out.\<close>

definition hcand_packet :: "sockaddr \<Rightarrow> can_udp \<Rightarrow> hcand \<Rightarrow> hcand \<times> (sockaddr \<times> can_udp) list" where
  "hcand_packet p f s =
     (case (case does_peer_exist p s of Some i \<Rightarrow> (Some i, s) | None \<Rightarrow> add_peer p s) of
        (None, s) \<Rightarrow> (s, [])
      | (Some i, s) \<Rightarrow>
          (let s = s\<lparr>peer_timeout := (peer_timeout s)[i := 0]\<rparr> in
           if u_id f = 0 then (s, [])
           else (s, map (\<lambda>q. (q, f)) (filter (\<lambda>q. sin_addr q \<noteq> 0 \<and> q \<noteq> p) (peer_addr s)))))"

datatype hcand_event = Packet sockaddr can_udp | Alarm

fun hcand_step :: "hcand_event \<Rightarrow> hcand \<Rightarrow> hcand \<times> (sockaddr \<times> can_udp) list" where
  "hcand_step (Packet p f) s = hcand_packet p f s"
| "hcand_step Alarm s = (sig_alarm s, [])"

definition hcand_run :: "hcand_event list \<Rightarrow> hcand \<Rightarrow> hcand" where
  "hcand_run evs s = fold (\<lambda>e s. fst (hcand_step e s)) evs s"

section \<open>The peers of the distributor\<close>

definition active :: "hcand \<Rightarrow> sockaddr list" where
  "active s = filter (\<lambda>q. sin_addr q \<noteq> 0) (peer_addr s)"

definition hcand_ok :: "hcand \<Rightarrow> bool" where
  "hcand_ok s \<longleftrightarrow> length (peer_addr s) = MAX_PEERS \<and> length (peer_timeout s) = MAX_PEERS \<and> distinct (active s)"

lemma index_where_Some: "index_where P xs = Some i \<Longrightarrow> i < length xs \<and> P (xs ! i) \<and> (\<forall>j < i. \<not> P (xs ! j))"
proof (induction P xs arbitrary: i rule: index_where.induct)
  case (2 P x xs)
  then show ?case by (cases i) (auto split: if_splits simp: nth_Cons split: nat.splits)
qed simp

lemma index_where_None: "index_where P xs = None \<longleftrightarrow> (\<forall>x \<in> set xs. \<not> P x)"
  by (induction P xs rule: index_where.induct) auto

lemma index_where_split:
  assumes "index_where P l = Some i" obtains xs y zs where "l = xs @ y # zs" "length xs = i" "P y"
  using index_where_Some [OF assms] id_take_nth_drop [of i l] by (metis length_take min.absorb2 less_imp_le)

lemma hcand_ok_init: "hcand_ok hcand_init"
  by (simp add: hcand_ok_def hcand_init_def active_def)

text \<open>Who is active after a packet.\<close>

lemma peers_after_packet:
  assumes ok: "hcand_ok s" and p: "sin_addr p \<noteq> 0"
  shows "hcand_ok (fst (hcand_packet p f s))"
    "set (active (fst (hcand_packet p f s))) \<subseteq> insert p (set (active s))"
    "set (active s) \<subseteq> set (active (fst (hcand_packet p f s)))"
    "p \<in> set (active (fst (hcand_packet p f s))) \<longleftrightarrow> p \<in> set (active s) \<or> length (active s) < MAX_PEERS"
    "snd (hcand_packet p f s) = (if u_id f = 0 \<or> p \<notin> set (active (fst (hcand_packet p f s))) then []
       else map (\<lambda>q. (q, f)) (filter (\<lambda>q. q \<noteq> p) (active (fst (hcand_packet p f s)))))"
proof -
  have l: "length (peer_addr s) = MAX_PEERS" using ok by (simp add: hcand_ok_def)
  have "hcand_ok (fst (hcand_packet p f s)) \<and>
    set (active (fst (hcand_packet p f s))) \<subseteq> insert p (set (active s)) \<and>
    set (active s) \<subseteq> set (active (fst (hcand_packet p f s))) \<and>
    (p \<in> set (active (fst (hcand_packet p f s))) \<longleftrightarrow> p \<in> set (active s) \<or> length (active s) < MAX_PEERS) \<and>
    snd (hcand_packet p f s) = (if u_id f = 0 \<or> p \<notin> set (active (fst (hcand_packet p f s))) then []
       else map (\<lambda>q. (q, f)) (filter (\<lambda>q. q \<noteq> p) (active (fst (hcand_packet p f s)))))"
  proof (cases "does_peer_exist p s")
    case (Some i)
    then have "p \<in> set (active s)"
      using index_where_Some [of "\<lambda>q. q = p" "peer_addr s" i] p nth_mem [of i "peer_addr s"] by (auto simp: does_peer_exist_def active_def)
    then show ?thesis using Some ok
      by (auto simp: hcand_packet_def Let_def hcand_ok_def active_def conj_commute)
  next
    case None
    then have np: "p \<notin> set (active s)" by (auto simp: does_peer_exist_def index_where_None active_def)
    show ?thesis
    proof (cases "index_where (\<lambda>q. sin_addr q = 0) (peer_addr s)")
      case None1: None
      then have "active s = peer_addr s" by (auto simp: index_where_None active_def filter_id_conv)
      then show ?thesis using None None1 ok np l
        by (auto simp: hcand_packet_def add_peer_def)
    next
      case (Some i)
      then obtain xs y zs where i: "peer_addr s = xs @ y # zs" "length xs = i" "sin_addr y = 0" by (rule index_where_split)
      let ?a = xs and ?z = zs
      have u: "(peer_addr s)[i := p] = ?a @ p # ?z" using i(1,2) by (simp add: list_update_append)
      have old: "active s = filter (\<lambda>q. sin_addr q \<noteq> 0) ?a @ filter (\<lambda>q. sin_addr q \<noteq> 0) ?z"
        using i(1,3) by (simp add: active_def)
      have new: "active (fst (hcand_packet p f s)) = filter (\<lambda>q. sin_addr q \<noteq> 0) ?a @ p # filter (\<lambda>q. sin_addr q \<noteq> 0) ?z"
        using None Some p by (simp add: hcand_packet_def add_peer_def active_def Let_def u)
      have "length (active s) \<le> length xs + length zs"
        unfolding old length_append by (intro add_mono length_filter_le)
      then have "length (active s) < MAX_PEERS" using l i(1) by simp
      moreover have "snd (hcand_packet p f s) = (if u_id f = 0 then [] else
          map (\<lambda>q. (q, f)) (filter (\<lambda>q. q \<noteq> p) (active (fst (hcand_packet p f s)))))"
        using None Some by (simp add: hcand_packet_def add_peer_def active_def Let_def conj_commute)
      moreover have "hcand_ok (fst (hcand_packet p f s))"
        using ok np None Some new by (auto simp: hcand_ok_def old hcand_packet_def add_peer_def Let_def)
      ultimately show ?thesis using new old by auto
    qed
  qed
  then show "hcand_ok (fst (hcand_packet p f s))"
    "set (active (fst (hcand_packet p f s))) \<subseteq> insert p (set (active s))"
    "set (active s) \<subseteq> set (active (fst (hcand_packet p f s)))"
    "p \<in> set (active (fst (hcand_packet p f s))) \<longleftrightarrow> p \<in> set (active s) \<or> length (active s) < MAX_PEERS"
    "snd (hcand_packet p f s) = (if u_id f = 0 \<or> p \<notin> set (active (fst (hcand_packet p f s))) then []
       else map (\<lambda>q. (q, f)) (filter (\<lambda>q. q \<noteq> p) (active (fst (hcand_packet p f s)))))"
    by blast+
qed

section \<open>Silence\<close>

definition entries :: "hcand \<Rightarrow> (sockaddr \<times> int) list" where
  "entries s = zip (peer_addr s) (peer_timeout s)"

lemma in_entries:
  "hcand_ok s \<Longrightarrow> (p, k) \<in> set (entries s) \<longleftrightarrow> (\<exists>i < MAX_PEERS. peer_addr s ! i = p \<and> peer_timeout s ! i = k)"
  by (auto simp: entries_def set_zip hcand_ok_def)

lemma active_entries: "hcand_ok s \<Longrightarrow> active s = map fst (filter (\<lambda>e. sin_addr (fst e) \<noteq> 0) (entries s))"
proof -
  assume "hcand_ok s"
  then have "peer_addr s = map fst (entries s)" by (simp add: entries_def hcand_ok_def)
  then show ?thesis by (simp add: active_def filter_map comp_def)
qed

lemma entries_alarm: "entries (sig_alarm s) = map alarm_peer (entries s)"
  by (simp add: sig_alarm_def Let_def entries_def del: map_map) (metis zip_map_fst_snd)

lemma active_alarm:
  assumes ok: "hcand_ok s"
  shows "active (sig_alarm s) = map fst (filter (\<lambda>(p, k). sin_addr p \<noteq> 0 \<and> k + 1 \<le> TIMEOUT) (entries s))" "hcand_ok (sig_alarm s)"
proof -
  have l: "length (peer_addr (sig_alarm s)) = MAX_PEERS" "length (peer_timeout (sig_alarm s)) = MAX_PEERS"
    using ok by (simp_all add: sig_alarm_def Let_def hcand_ok_def)
  have a: "peer_addr (sig_alarm s) = map fst (map alarm_peer (entries s))"
    by (simp add: sig_alarm_def Let_def entries_def)
  have "filter (\<lambda>q. sin_addr q \<noteq> 0) (map fst (map alarm_peer es)) =
      map fst (filter (\<lambda>(p, k). sin_addr p \<noteq> 0 \<and> k + 1 \<le> TIMEOUT) es)" for es
    by (induction es) (auto simp: alarm_peer_def Let_def simp del: map_map split: if_splits)
  then show e: "active (sig_alarm s) = map fst (filter (\<lambda>(p, k). sin_addr p \<noteq> 0 \<and> k + 1 \<le> TIMEOUT) (entries s))"
    unfolding active_def a .
  have "distinct (map fst (filter R es))" if "distinct (map fst (filter A es))" "\<And>e. R e \<Longrightarrow> A e" for R A and es :: "(sockaddr \<times> int) list"
  proof -
    have "filter R es = filter R (filter A es)" using that(2) by (induction es) auto
    then show ?thesis using distinct_map_filter [OF that(1), of R] by simp
  qed
  from this [of "\<lambda>e. sin_addr (fst e) \<noteq> 0" "entries s"]
  have "distinct (active (sig_alarm s))"
    using ok active_entries [OF ok] unfolding e by (auto simp: hcand_ok_def split: prod.splits)
  then show "hcand_ok (sig_alarm s)" using l by (simp add: hcand_ok_def)
qed

text \<open>A peer's count of silent seconds, through the packets of others and the alarms.\<close>

lemma entry_packet:
  assumes ok: "hcand_ok s" and e: "(p, k) \<in> set (entries s)" and a: "sin_addr p \<noteq> 0" "sin_addr q \<noteq> 0" "q \<noteq> p"
  shows "(p, k) \<in> set (entries (fst (hcand_packet q f s)))"
proof -
  from e obtain j where j: "j < MAX_PEERS" "peer_addr s ! j = p" "peer_timeout s ! j = k" by (auto simp: in_entries [OF ok])
  have l: "length (peer_addr s) = MAX_PEERS" "length (peer_timeout s) = MAX_PEERS" using ok by (simp_all add: hcand_ok_def)
  have ok': "hcand_ok (fst (hcand_packet q f s))" by (rule peers_after_packet(1) [OF ok a(2)])
  have "peer_addr (fst (hcand_packet q f s)) ! j = p \<and> peer_timeout (fst (hcand_packet q f s)) ! j = k"
  proof (cases "does_peer_exist q s")
    case (Some i)
    then have "i \<noteq> j" using index_where_Some [of "\<lambda>x. x = q" "peer_addr s" i] j(2) a(3) by (auto simp: does_peer_exist_def)
    then show ?thesis using Some j by (simp add: hcand_packet_def Let_def)
  next
    case None
    show ?thesis
    proof (cases "index_where (\<lambda>q. sin_addr q = 0) (peer_addr s)")
      case None1: None
      then show ?thesis using None j by (simp add: hcand_packet_def add_peer_def)
    next
      case (Some i)
      then have "i \<noteq> j" using index_where_Some [OF Some] j(2) a(1) by auto
      then show ?thesis using None Some j by (simp add: hcand_packet_def add_peer_def Let_def)
    qed
  qed
  then show ?thesis using j(1) by (auto simp: in_entries [OF ok'])
qed

lemma entry_unique:
  assumes ok: "hcand_ok s" and "(p, k) \<in> set (entries s)" "(p, k') \<in> set (entries s)" "sin_addr p \<noteq> 0"
  shows "k = k'"
proof -
  have "distinct (map fst (filter (\<lambda>e. sin_addr (fst e) \<noteq> 0) (entries s)))"
    using ok active_entries [OF ok] by (simp add: hcand_ok_def)
  moreover have "(p, k) \<in> set (filter (\<lambda>e. sin_addr (fst e) \<noteq> 0) (entries s))"
      "(p, k') \<in> set (filter (\<lambda>e. sin_addr (fst e) \<noteq> 0) (entries s))"
    using assms(2-4) by simp_all
  ultimately show ?thesis using eq_key_imp_eq_value by metis
qed

definition from_peers :: "hcand_event list \<Rightarrow> bool" where
  "from_peers evs \<longleftrightarrow> (\<forall>e \<in> set evs. case e of Packet p f \<Rightarrow> sin_addr p \<noteq> 0 | Alarm \<Rightarrow> True)"

lemma hcand_run_simps [simp]: "hcand_run [] s = s" "hcand_run (e # evs) s = hcand_run evs (fst (hcand_step e s))"
  by (simp_all add: hcand_run_def)

lemma hcand_run_ok: "from_peers evs \<Longrightarrow> hcand_ok s \<Longrightarrow> hcand_ok (hcand_run evs s)"
proof (induction evs arbitrary: s)
  case (Cons e evs)
  have "hcand_ok (fst (hcand_step e s))"
    using Cons.prems peers_after_packet(1) active_alarm(2) by (cases e) (auto simp: from_peers_def)
  then show ?case using Cons by (simp add: from_peers_def)
qed simp

definition silent :: "sockaddr \<Rightarrow> hcand_event list \<Rightarrow> bool" where
  "silent p evs \<longleftrightarrow> (\<forall>f. Packet p f \<notin> set evs)"

lemma gone_stays_gone:
  "hcand_ok s \<Longrightarrow> p \<notin> set (active s) \<Longrightarrow> from_peers evs \<Longrightarrow> silent p evs \<Longrightarrow> p \<notin> set (active (hcand_run evs s))"
proof (induction evs arbitrary: s)
  case (Cons e evs)
  have "hcand_ok (fst (hcand_step e s)) \<and> p \<notin> set (active (fst (hcand_step e s)))"
  proof (cases e)
    case (Packet q f)
    then have "sin_addr q \<noteq> 0" "q \<noteq> p" using Cons.prems by (auto simp: from_peers_def silent_def)
    then show ?thesis using peers_after_packet(1,2) [OF Cons.prems(1)] Cons.prems(2) Packet by fastforce
  next
    case Alarm
    have "set (active (sig_alarm s)) \<subseteq> set (active s)"
      unfolding active_alarm(1) [OF Cons.prems(1)] active_entries [OF Cons.prems(1)] by force
    then show ?thesis using active_alarm(2) [OF Cons.prems(1)] Cons.prems(2) Alarm by auto
  qed
  then show ?case using Cons by (simp add: from_peers_def silent_def)
qed simp

lemma active_while_counting:
  assumes "hcand_ok s" and "(p, k) \<in> set (entries s)" and "sin_addr p \<noteq> 0" and "from_peers evs" and "silent p evs"
    and "0 \<le> k" and "k \<le> TIMEOUT"
  shows "p \<in> set (active (hcand_run evs s)) \<longleftrightarrow> k + int (count_list evs Alarm) \<le> TIMEOUT"
  using assms
proof (induction evs arbitrary: s k)
  case Nil
  then show ?case by (force simp: active_entries)
next
  case (Cons e evs)
  have fp: "from_peers evs" "silent p evs" using Cons.prems(4,5) by (simp_all add: from_peers_def silent_def)
  show ?case
  proof (cases e)
    case (Packet q f)
    then have q: "sin_addr q \<noteq> 0" "q \<noteq> p" using Cons.prems(4,5) by (auto simp: from_peers_def silent_def)
    show ?thesis
      using Cons.IH [OF peers_after_packet(1) [OF Cons.prems(1) q(1)] entry_packet [OF Cons.prems(1,2,3) q(1,2)] Cons.prems(3) fp Cons.prems(6,7)]
        Packet by simp
  next
    case Alarm
    note ok = active_alarm(2) [OF Cons.prems(1)]
    show ?thesis
    proof (cases "k + 1 \<le> TIMEOUT")
      case True
      have "(p, k + 1) \<in> set (entries (sig_alarm s))"
        unfolding entries_alarm using Cons.prems(2,3) True by (force simp: alarm_peer_def Let_def)
      from Cons.IH [OF ok this Cons.prems(3) fp] Cons.prems(6) True show ?thesis by (simp add: Alarm)
    next
      case False
      have "p \<notin> set (active (sig_alarm s))"
        unfolding active_alarm(1) [OF Cons.prems(1)]
        using entry_unique [OF Cons.prems(1) _ Cons.prems(2,3)] False by fastforce
      from gone_stays_gone [OF ok this fp] False show ?thesis by (simp add: Alarm)
    qed
  qed
qed

lemma entry_after_own_packet:
  assumes ok: "hcand_ok s" and "p \<in> set (active (fst (hcand_packet p f s)))" and p: "sin_addr p \<noteq> 0"
  shows "(p, 0) \<in> set (entries (fst (hcand_packet p f s)))"
proof -
  have l: "length (peer_addr s) = MAX_PEERS" "length (peer_timeout s) = MAX_PEERS" using ok by (simp_all add: hcand_ok_def)
  have ok': "hcand_ok (fst (hcand_packet p f s))" by (rule peers_after_packet(1) [OF ok p])
  have "\<exists>i < MAX_PEERS. peer_addr (fst (hcand_packet p f s)) ! i = p \<and> peer_timeout (fst (hcand_packet p f s)) ! i = 0"
  proof (cases "does_peer_exist p s")
    case (Some i)
    then have "i < MAX_PEERS" "peer_addr s ! i = p"
      using index_where_Some [of "\<lambda>x. x = p" "peer_addr s" i] l by (auto simp: does_peer_exist_def)
    then show ?thesis using Some l by (auto simp: hcand_packet_def Let_def)
  next
    case None
    show ?thesis
    proof (cases "index_where (\<lambda>q. sin_addr q = 0) (peer_addr s)")
      case None1: None
      have "p \<notin> set (active s)" using None by (auto simp: does_peer_exist_def index_where_None active_def)
      then show ?thesis using None None1 assms(2) by (simp add: hcand_packet_def add_peer_def)
    next
      case (Some i)
      then have "i < MAX_PEERS" using index_where_Some [OF Some] l by simp
      then show ?thesis using None Some l by (auto simp: hcand_packet_def add_peer_def Let_def)
    qed
  qed
  then show ?thesis by (simp add: in_entries [OF ok'])
qed

section \<open>Properties of the distributor\<close>

text \<open>
  Property C16. The distributor gives every packet to every other program exactly once: in
  every state it can reach, a packet from a program it knows or has a place for goes to each active
  peer but the sender, once to each, and unchanged; a keep-alive packet, and a packet of
  a program there is no place for, goes to no one.
\<close>

theorem packet_reaches_all_others:
  assumes "from_peers evs" and "sin_addr p \<noteq> 0" and "hcand_run evs hcand_init = s"
  shows "(let sent = snd (hcand_packet p f s) in
    distinct (map fst sent) \<and> (\<forall>(q, g) \<in> set sent. g = f) \<and>
    fst ` set sent = (if u_id f = 0 \<or> (p \<notin> set (active s) \<and> length (active s) = MAX_PEERS) then {}
                      else set (active s) - {p}))"
proof -
  have ok: "hcand_ok s" using hcand_run_ok [OF assms(1) hcand_ok_init] assms(3) by simp
  note a = peers_after_packet [OF ok assms(2), of f]
  have le: "length (active s) \<le> MAX_PEERS"
    using ok length_filter_le [of "\<lambda>q. sin_addr q \<noteq> 0" "peer_addr s"] by (simp add: active_def hcand_ok_def)
  have d: "distinct (map fst (snd (hcand_packet p f s)))"
    unfolding a(5) using a(1) by (auto simp: hcand_ok_def comp_def)
  have g: "\<forall>(q, g) \<in> set (snd (hcand_packet p f s)). g = f" unfolding a(5) by auto
  have "fst ` set (snd (hcand_packet p f s)) = (if u_id f = 0 \<or> (p \<notin> set (active s) \<and> length (active s) = MAX_PEERS) then {}
      else set (active s) - {p})"
    unfolding a(5) using a(2,3,4) le by force
  with d g show ?thesis by (simp add: Let_def)
qed

definition example_peer :: "u32 \<Rightarrow> sockaddr" where
  "example_peer a = \<lparr>sin_family = 2, sin_port = 3600, sin_addr = a, sin_zero = replicate 8 0\<rparr>"

theorem packet_reaches_all_others_witness:
  "fst ` set (snd (hcand_packet (example_peer 2) \<lparr>u_id = 5, u_size = 0, u_data = replicate 8 0\<rparr>
      (hcand_run [Packet (example_peer 1) \<lparr>u_id = 0, u_size = 0, u_data = replicate 8 0\<rparr>] hcand_init))) = {example_peer 1}"
proof -
  let ?k = "\<lparr>u_id = 0, u_size = 0, u_data = replicate 8 0\<rparr> :: can_udp"
  let ?s = "hcand_run [Packet (example_peer 1) ?k] hcand_init"
  have n: "sin_addr (example_peer 1) \<noteq> 0" "sin_addr (example_peer 2) \<noteq> 0" "example_peer 1 \<noteq> example_peer 2"
    by (simp_all add: example_peer_def)
  have f: "from_peers [Packet (example_peer 1) ?k]" by (simp add: from_peers_def n)
  have e: "active hcand_init = []" by (simp add: active_def hcand_init_def)
  have a: "set (active ?s) = {example_peer 1}"
    using peers_after_packet(2-4) [OF hcand_ok_init n(1), of ?k] by (auto simp: e)
  have "length (active ?s) = 1"
    using a hcand_run_ok [OF f hcand_ok_init] distinct_card [of "active ?s"] by (simp add: hcand_ok_def)
  then show ?thesis
    using packet_reaches_all_others [OF f n(2) refl, of "\<lparr>u_id = 5, u_size = 0, u_data = replicate 8 0\<rparr>"] a n(3)
    by (simp add: Let_def)
qed

text \<open>
  A program stays connected as long as it is heard from every minute, and no
  longer: after a packet of it that was accepted, and while it is silent, whatever the others send, it
  is active exactly as long as not more than 60 alarms have passed.
\<close>

theorem silent_program_is_dropped:
  assumes "from_peers evs0" and "hcand_run evs0 hcand_init = s0" and "sin_addr p \<noteq> 0"
    and "p \<in> set (active (fst (hcand_packet p f s0)))" and "from_peers evs" and "silent p evs"
  shows "p \<in> set (active (hcand_run evs (fst (hcand_packet p f s0)))) \<longleftrightarrow> count_list evs Alarm \<le> 60"
proof -
  have ok: "hcand_ok s0" using hcand_run_ok [OF assms(1) hcand_ok_init] assms(2) by simp
  show ?thesis
    using active_while_counting [OF peers_after_packet(1) [OF ok assms(3)] entry_after_own_packet [OF ok assms(4,3)] assms(3,5,6)]
    by simp
qed

theorem silent_program_is_dropped_witness:
  "example_peer 1 \<notin> set (active (hcand_run (replicate 61 Alarm)
     (fst (hcand_packet (example_peer 1) \<lparr>u_id = 0, u_size = 0, u_data = replicate 8 0\<rparr> hcand_init))))"
proof -
  let ?k = "\<lparr>u_id = 0, u_size = 0, u_data = replicate 8 0\<rparr> :: can_udp"
  have n: "sin_addr (example_peer 1) \<noteq> 0" by (simp add: example_peer_def)
  have a: "example_peer 1 \<in> set (active (fst (hcand_packet (example_peer 1) ?k hcand_init)))"
    using peers_after_packet(4) [OF hcand_ok_init n, of ?k] by (simp add: active_def hcand_init_def)
  have e: "from_peers []" "from_peers (replicate 61 Alarm)" "silent (example_peer 1) (replicate 61 Alarm)"
    by (simp_all add: from_peers_def silent_def)
  have c: "count_list (replicate n Alarm) Alarm = n" for n by (induction n) simp_all
  show ?thesis
    using silent_program_is_dropped [OF e(1) _ n a e(2,3)] c [of 61] by simp
qed

end
