(* ===== verification/Gateway.thy ===== *)
theory Gateway
  imports Relay
begin

text \<open>
  The gateway between the distributor and the CAN interface
  (\<^verbatim>\<open>src/hcansocketd/main.c\<close>): two ring buffers of sixteen frames, filled by what the
  sockets have for reading and emptied by one frame in each round of the main loop. A socket's
  answer is an argument of the round, what is written to it is a result (that a write may fail, which the code logs and
  goes on, is left out). Below: no
  frame is lost, changed or overtaken on the way through, and the
  composition with the frames of the library and the receiver of the boards.
\<close>

unbundle bit_operations_syntax

section \<open>State\<close>

record can_frame =
  can_id :: u32
  can_dlc :: u8
  cf_data :: "u8 list"

record gateway =
  canTxBuf :: "can_frame list"
  hcanTxBuf :: "can_udp list"
  canBufWIdx :: u8
  canBufRIdx :: u8
  hcanBufWIdx :: u8
  hcanBufRIdx :: u8

abbreviation (input) BUFFERSIZE :: u8 where "BUFFERSIZE \<equiv> 16"
abbreviation (input) CAN_EFF_FLAG :: u32 where "CAN_EFF_FLAG \<equiv> 0x80000000"
abbreviation (input) CAN_EFF_MASK :: u32 where "CAN_EFF_MASK \<equiv> 0x1FFFFFFF"

text \<open>What \<^verbatim>\<open>recv\<close> has read: a whole frame, an error, or a part of a frame.\<close>

datatype 'a recv = Whole 'a | Recv_Error | Partly

text \<open>How the process ends: by \<^verbatim>\<open>exit\<close>, or by copying behind the eight bytes of a frame.\<close>

datatype gw_end = Exits | Copies_Too_Much

type_synonym 'a gw = "gw_end + 'a"

definition copy_bytes :: "nat \<Rightarrow> u8 list \<Rightarrow> u8 list \<Rightarrow> u8 list gw" where
  "copy_bytes n from to = (if n > 8 then Inl Copies_Too_Much else Inr (take n from @ drop n to))"

section \<open>The buffers\<close>

definition make_id :: "u16 \<Rightarrow> u16 \<Rightarrow> u8 \<Rightarrow> u8 \<Rightarrow> u32" where
  "make_id s d pr prio = (ucast s AND 0x3ff) OR push_bit 10 (ucast d AND 0x3ff) OR
     push_bit 20 (ucast pr AND 7) OR push_bit 24 (ucast prio)"

definition initHcan :: "gateway \<Rightarrow> gateway" where
  "initHcan s =
     (let i = unat (hcanBufWIdx s) in
      s\<lparr>hcanTxBuf := (hcanTxBuf s)[i := (hcanTxBuf s ! i)\<lparr>u_id := make_id 0 0 0 0, u_size := 0\<rparr>],
        hcanBufWIdx := (hcanBufWIdx s + 1) AND (BUFFERSIZE - 1)\<rparr>)"

definition initSocketcan :: "gateway \<Rightarrow> gateway" where
  "initSocketcan s =
     (let i = unat (canBufWIdx s); c = canTxBuf s ! i in
      s\<lparr>canTxBuf := (canTxBuf s)[i := c\<lparr>can_id := make_id 35 35 1 0 OR CAN_EFF_FLAG, can_dlc := 2,
           cf_data := (cf_data c)[0 := 0x11, 1 := 0x22]\<rparr>],
        canBufWIdx := (canBufWIdx s + 1) AND (BUFFERSIZE - 1)\<rparr>)"

definition gw_zero :: gateway where
  "gw_zero = \<lparr>canTxBuf = replicate 16 \<lparr>can_id = 0, can_dlc = 0, cf_data = replicate 8 0\<rparr>,
     hcanTxBuf = replicate 16 \<lparr>u_id = 0, u_size = 0, u_data = replicate 8 0\<rparr>,
     canBufWIdx = 0, canBufRIdx = 0, hcanBufWIdx = 0, hcanBufRIdx = 0\<rparr>"

definition gw_start :: gateway where
  "gw_start = initSocketcan (initHcan gw_zero)"

text \<open>\<^verbatim>\<open>rxFromHcan\<close> with what the main loop does when it fails.\<close>

definition rxFromHcan :: "can_udp recv \<Rightarrow> gateway \<Rightarrow> gateway gw" where
  "rxFromHcan r s =
     (case r of
        Whole f \<Rightarrow>
          (if (canBufWIdx s + 1) AND (BUFFERSIZE - 1) = canBufRIdx s then Inr s
           else (let i = unat (canBufWIdx s) in
             case copy_bytes (unat (u_size f)) (u_data f) (cf_data (canTxBuf s ! i)) of
               Inl e \<Rightarrow> Inl e
             | Inr bs \<Rightarrow> Inr (s\<lparr>
                 canTxBuf := (canTxBuf s)[i := \<lparr>can_id = u_id f OR CAN_EFF_FLAG, can_dlc = ucast (u_size f), cf_data = bs\<rparr>],
                 canBufWIdx := (canBufWIdx s + 1) AND (BUFFERSIZE - 1)\<rparr>)))
      | Recv_Error \<Rightarrow> Inr (initHcan s)
      | Partly \<Rightarrow> Inl Exits)"

definition rxFromCb :: "can_frame recv \<Rightarrow> gateway \<Rightarrow> gateway gw" where
  "rxFromCb r s =
     (case r of
        Whole c \<Rightarrow>
          (if (hcanBufWIdx s + 1) AND (BUFFERSIZE - 1) = hcanBufRIdx s then Inr s
           else (let i = unat (hcanBufWIdx s) in
             case copy_bytes (unat (can_dlc c)) (cf_data c) (u_data (hcanTxBuf s ! i)) of
               Inl e \<Rightarrow> Inl e
             | Inr bs \<Rightarrow> Inr (s\<lparr>
                 hcanTxBuf := (hcanTxBuf s)[i := \<lparr>u_id = can_id c AND CAN_EFF_MASK, u_size = ucast (can_dlc c), u_data = bs\<rparr>],
                 hcanBufWIdx := (hcanBufWIdx s + 1) AND (BUFFERSIZE - 1)\<rparr>)))
      | Recv_Error \<Rightarrow> Inr s
      | Partly \<Rightarrow> Inl Exits)"

definition send_can :: "gateway \<Rightarrow> gateway \<times> can_frame list" where
  "send_can s =
     (if canBufWIdx s \<noteq> canBufRIdx s
      then (s\<lparr>canBufRIdx := (canBufRIdx s + 1) AND (BUFFERSIZE - 1)\<rparr>, [canTxBuf s ! unat (canBufRIdx s)])
      else (s, []))"

definition send_hcan :: "gateway \<Rightarrow> gateway \<times> can_udp list" where
  "send_hcan s =
     (if hcanBufWIdx s \<noteq> hcanBufRIdx s
      then (s\<lparr>hcanBufRIdx := (hcanBufRIdx s + 1) AND (BUFFERSIZE - 1)\<rparr>, [hcanTxBuf s ! unat (hcanBufRIdx s)])
      else (s, []))"

text \<open>A round of the main loop after \<^verbatim>\<open>select\<close> has returned; \<open>None\<close> for a socket that has nothing.\<close>

definition gw_round ::
  "can_udp recv option \<Rightarrow> can_frame recv option \<Rightarrow> gateway \<Rightarrow> (gateway \<times> can_frame list \<times> can_udp list) gw" where
  "gw_round h c s =
     (case (case h of None \<Rightarrow> Inr s | Some r \<Rightarrow> rxFromHcan r s) of
        Inl e \<Rightarrow> Inl e
      | Inr s \<Rightarrow>
          (case (case c of None \<Rightarrow> Inr s | Some r \<Rightarrow> rxFromCb r s) of
             Inl e \<Rightarrow> Inl e
           | Inr s \<Rightarrow> (let (s, cans) = send_can s; (s, udps) = send_hcan s in Inr (s, cans, udps))))"

fun gw_rounds ::
  "(can_udp recv option \<times> can_frame recv option) list \<Rightarrow> gateway \<Rightarrow> (gateway \<times> can_frame list \<times> can_udp list) gw" where
  "gw_rounds [] s = Inr (s, [], [])"
| "gw_rounds ((h, c) # xs) s =
     (case gw_round h c s of
        Inl e \<Rightarrow> Inl e
      | Inr (s, cans, udps) \<Rightarrow>
          (case gw_rounds xs s of
             Inl e \<Rightarrow> Inl e
           | Inr (s, cans', udps') \<Rightarrow> Inr (s, cans @ cans', udps @ udps')))"

section \<open>A ring of sixteen slots\<close>

definition ring :: "'a list \<Rightarrow> u8 \<Rightarrow> u8 \<Rightarrow> bool" where
  "ring b w r \<longleftrightarrow> length b = 16 \<and> unat w < 16 \<and> unat r < 16"

definition pending :: "'a list \<Rightarrow> u8 \<Rightarrow> u8 \<Rightarrow> 'a list" where
  "pending b w r = map (\<lambda>i. b ! ((unat r + i) mod 16)) [0..<(unat w + 16 - unat r) mod 16]"

lemma unat_ring_step: "unat ((w + 1) AND 15 :: u8) = (unat w + 1) mod 16"
proof -
  have m: "(15 :: u8) = mask 4" by (simp add: mask_eq_exp_minus_1)
  have "unat ((w + 1) AND 15) = take_bit 4 (unat (w + 1))"
    unfolding m take_bit_eq_mask [symmetric] by (simp only: unsigned_take_bit_eq)
  then have "unat ((w + 1) AND 15) = unat (w + 1) mod 16" by (simp add: take_bit_eq_mod)
  also have "unat (w + 1) = (unat w + 1) mod 256" by (simp add: unat_word_ariths)
  finally show ?thesis by (simp add: mod_mod_cancel)
qed

lemma ring_count:
  fixes w r :: nat
  assumes "w < 16" and "r < 16"
  shows "(w + 16 - r) mod 16 = (if r \<le> w then w - r else w + 16 - r)"
proof (cases "r \<le> w")
  case True
  then have "w + 16 - r = (w - r) + 16" by simp
  then have "(w + 16 - r) mod 16 = (w - r) mod 16" by (metis mod_add_self2)
  also have "(w - r) mod 16 = w - r" using assms by (intro mod_less) arith
  finally show ?thesis using True by simp
qed (use assms in simp)

lemma ring_count_step:
  fixes w r :: nat
  assumes "w < 16" and "r < 16"
  shows "(w + 16 - r) mod 16 < 15 \<Longrightarrow> ((w + 1) mod 16 + 16 - r) mod 16 = (w + 16 - r) mod 16 + 1"
    and "w \<noteq> r \<Longrightarrow> (w + 16 - r) mod 16 = Suc ((w + 16 - (r + 1) mod 16) mod 16)"
proof -
  have m: "(n + 1) mod 16 < 16" "(n + 1) mod 16 = (if n = 15 then 0 else n + 1)" if "n < 16" for n :: nat
    using that by auto
  note c = ring_count [OF assms] ring_count [OF m(1) [OF assms(1)] assms(2)] ring_count [OF assms(1) m(1) [OF assms(2)]]
  show "(w + 16 - r) mod 16 < 15 \<Longrightarrow> ((w + 1) mod 16 + 16 - r) mod 16 = (w + 16 - r) mod 16 + 1"
    unfolding c unfolding m(2) [OF assms(1)] using assms by (auto split: if_splits)
  show "w \<noteq> r \<Longrightarrow> (w + 16 - r) mod 16 = Suc ((w + 16 - (r + 1) mod 16) mod 16)"
    unfolding c unfolding m(2) [OF assms(2)] using assms by (auto split: if_splits)
qed

lemma ring_step [simp]: "ring b w r \<Longrightarrow> ring b ((w + 1) AND 15) r" "ring b w r \<Longrightarrow> ring b w ((r + 1) AND 15)"
  by (simp_all add: ring_def unat_ring_step)

lemma ring_update [simp]: "ring (b[i := x]) w r = ring b w r"
  by (simp add: ring_def)

lemma length_pending: "length (pending b w r) = (unat w + 16 - unat r) mod 16"
  by (simp add: pending_def)

lemma ring_not_full:
  assumes "ring b w r" and "length (pending b w r) < 15"
  shows "(w + 1) AND 15 \<noteq> r"
proof
  assume "(w + 1) AND 15 = r"
  then have r: "unat r = (unat w + 1) mod 16" using unat_ring_step [of w] by simp
  have w: "unat w < 16" using assms(1) by (simp add: ring_def)
  have "(unat w + 16 - unat r) mod 16 = 15"
    using w by (cases "unat w = 15") (simp_all add: r)
  then show False using assms(2) by (simp add: length_pending)
qed

lemma ring_push:
  assumes ok: "ring b w r" and "length (pending b w r) < 15"
  shows "pending (b[unat w := x]) ((w + 1) AND 15) r = pending b w r @ [x]"
proof -
  let ?n = "(unat w + 16 - unat r) mod 16"
  have w: "unat w < 16" and r: "unat r < 16" and l: "length b = 16" using ok by (simp_all add: ring_def)
  have n: "?n < 15" using assms(2) by (simp add: length_pending)
  have at: "(unat r + ?n) mod 16 = unat w" using w r by (simp add: mod_add_right_eq)
  have step: "((unat w + 1) mod 16 + 16 - unat r) mod 16 = ?n + 1" by (rule ring_count_step(1) [OF w r n])
  have "(unat r + i) mod 16 \<noteq> unat w" if "i < ?n" for i
    using that w r n by (cases "unat r \<le> unat w") (auto simp: mod_if split: if_splits)
  then have "map (\<lambda>i. b[unat w := x] ! ((unat r + i) mod 16)) [0..<?n] = pending b w r"
    unfolding pending_def by (intro map_cong refl nth_list_update_neq) (metis atLeastLessThan_iff set_upt)
  moreover have "b[unat w := x] ! ((unat r + ?n) mod 16) = x" unfolding at using w l by simp
  ultimately show ?thesis unfolding pending_def unat_ring_step step by simp
qed

lemma ring_empty: "ring b w r \<Longrightarrow> pending b w r = [] \<longleftrightarrow> w = r"
  by (cases "unat r \<le> unat w") (auto simp: pending_def ring_def mod_if word_unat_eq_iff split: if_splits)

lemma ring_pop:
  assumes ok: "ring b w r" and "w \<noteq> r"
  shows "pending b w r = b ! unat r # pending b w ((r + 1) AND 15)"
proof -
  let ?n = "(unat w + 16 - unat r) mod 16"
  have w: "unat w < 16" and r: "unat r < 16" using ok by (simp_all add: ring_def)
  have ne: "unat w \<noteq> unat r" using assms(2) by (simp add: word_unat_eq_iff)
  then have n: "?n = Suc ((unat w + 16 - (unat r + 1) mod 16) mod 16)" by (rule ring_count_step(2) [OF w r])
  have "(unat r + Suc i) mod 16 = ((unat r + 1) mod 16 + i) mod 16" for i by (simp add: mod_simps)
  then show ?thesis unfolding pending_def unat_ring_step n using r
    by (simp add: upt_conv_Cons map_Suc_upt [symmetric] del: upt_Suc)
qed

section \<open>A round\<close>

abbreviation (input) can_pending :: "gateway \<Rightarrow> can_frame list" where
  "can_pending s \<equiv> pending (canTxBuf s) (canBufWIdx s) (canBufRIdx s)"

abbreviation (input) hcan_pending :: "gateway \<Rightarrow> can_udp list" where
  "hcan_pending s \<equiv> pending (hcanTxBuf s) (hcanBufWIdx s) (hcanBufRIdx s)"

text \<open>What of a frame counts: the identifier, the size and as many bytes as that.\<close>

definition can_wire :: "can_frame \<Rightarrow> u32 \<times> nat \<times> u8 list" where
  "can_wire c = (can_id c, unat (can_dlc c), take (unat (can_dlc c)) (cf_data c))"

definition udp_wire :: "can_udp \<Rightarrow> u32 \<times> nat \<times> u8 list" where
  "udp_wire f = (u_id f, unat (u_size f), take (unat (u_size f)) (u_data f))"

definition gw_can_ok :: "nat \<Rightarrow> gateway \<Rightarrow> bool" where
  "gw_can_ok n s \<longleftrightarrow> ring (canTxBuf s) (canBufWIdx s) (canBufRIdx s) \<and> length (can_pending s) \<le> n"

definition gw_hcan_ok :: "nat \<Rightarrow> gateway \<Rightarrow> bool" where
  "gw_hcan_ok n s \<longleftrightarrow> ring (hcanTxBuf s) (hcanBufWIdx s) (hcanBufRIdx s) \<and> length (hcan_pending s) \<le> n"

definition sound_udp :: "can_udp \<Rightarrow> bool" where
  "sound_udp f \<longleftrightarrow> unat (u_size f) \<le> 8 \<and> length (u_data f) = 8"

definition sound_can :: "can_frame \<Rightarrow> bool" where
  "sound_can c \<longleftrightarrow> unat (can_dlc c) \<le> 8 \<and> length (cf_data c) = 8"

lemma small_ucast [simp]: "unat (v :: u32) \<le> 8 \<Longrightarrow> unat (ucast v :: u8) = unat v" "unat (ucast (d :: u8) :: u32) = unat d"
proof -
  have "unat d < 2 ^ LENGTH(8)" by (rule unsigned_less)
  then have "unat d < 2 ^ 32" by (rule less_trans) simp
  then show "unat (ucast d :: u32) = unat d" by (simp add: unsigned_ucast_eq take_bit_nat_eq_self_iff)
qed (simp add: unsigned_ucast_eq take_bit_nat_eq_self_iff)

lemma rxFromHcan_law:
  assumes "gw_can_ok 1 s" and "sound_udp f"
  obtains s' c where "rxFromHcan (Whole f) s = Inr s'" "can_pending s' = can_pending s @ [c]"
    "can_wire c = (u_id f OR CAN_EFF_FLAG, unat (u_size f), take (unat (u_size f)) (u_data f))"
    "gw_can_ok 2 s'" "\<And>n. gw_hcan_ok n s' = gw_hcan_ok n s" "hcan_pending s' = hcan_pending s"
proof -
  have ok: "ring (canTxBuf s) (canBufWIdx s) (canBufRIdx s)" "length (can_pending s) < 15" "length (can_pending s) \<le> 1"
    and f: "unat (u_size f) \<le> 8" "length (u_data f) = 8"
    using assms by (simp_all add: gw_can_ok_def sound_udp_def)
  let ?i = "unat (canBufWIdx s)"
  let ?c = "\<lparr>can_id = u_id f OR CAN_EFF_FLAG, can_dlc = ucast (u_size f),
    cf_data = take (unat (u_size f)) (u_data f) @ drop (unat (u_size f)) (cf_data (canTxBuf s ! ?i))\<rparr>"
  let ?s = "s\<lparr>canTxBuf := (canTxBuf s)[?i := ?c], canBufWIdx := (canBufWIdx s + 1) AND 15\<rparr>"
  have p: "can_pending ?s = can_pending s @ [?c]" by (simp add: ring_push [OF ok(1,2)])
  have 1: "rxFromHcan (Whole f) s = Inr ?s"
    using ring_not_full [OF ok(1,2)] f by (simp add: rxFromHcan_def copy_bytes_def Let_def)
  have 2: "can_wire ?c = (u_id f OR CAN_EFF_FLAG, unat (u_size f), take (unat (u_size f)) (u_data f))"
    using f by (simp add: can_wire_def)
  have 3: "gw_can_ok 2 ?s" unfolding gw_can_ok_def p using ok by simp
  have 4: "gw_hcan_ok n ?s = gw_hcan_ok n s" for n by (simp add: gw_hcan_ok_def)
  show ?thesis by (rule that [OF 1 p 2 3 4]) simp
qed

lemma rxFromCb_law:
  assumes "gw_hcan_ok 1 s" and "sound_can c"
  obtains s' f where "rxFromCb (Whole c) s = Inr s'" "hcan_pending s' = hcan_pending s @ [f]"
    "udp_wire f = (can_id c AND CAN_EFF_MASK, unat (can_dlc c), take (unat (can_dlc c)) (cf_data c))"
    "gw_hcan_ok 2 s'" "\<And>n. gw_can_ok n s' = gw_can_ok n s" "can_pending s' = can_pending s"
proof -
  have ok: "ring (hcanTxBuf s) (hcanBufWIdx s) (hcanBufRIdx s)" "length (hcan_pending s) < 15" "length (hcan_pending s) \<le> 1"
    and c: "unat (can_dlc c) \<le> 8" "length (cf_data c) = 8"
    using assms by (simp_all add: gw_hcan_ok_def sound_can_def)
  let ?i = "unat (hcanBufWIdx s)"
  let ?f = "\<lparr>u_id = can_id c AND CAN_EFF_MASK, u_size = ucast (can_dlc c),
    u_data = take (unat (can_dlc c)) (cf_data c) @ drop (unat (can_dlc c)) (u_data (hcanTxBuf s ! ?i))\<rparr>"
  let ?s = "s\<lparr>hcanTxBuf := (hcanTxBuf s)[?i := ?f], hcanBufWIdx := (hcanBufWIdx s + 1) AND 15\<rparr>"
  have p: "hcan_pending ?s = hcan_pending s @ [?f]" by (simp add: ring_push [OF ok(1,2)])
  have 1: "rxFromCb (Whole c) s = Inr ?s"
    using ring_not_full [OF ok(1,2)] c by (simp add: rxFromCb_def copy_bytes_def Let_def)
  have 2: "udp_wire ?f = (can_id c AND CAN_EFF_MASK, unat (can_dlc c), take (unat (can_dlc c)) (cf_data c))"
    using c by (simp add: udp_wire_def)
  have 3: "gw_hcan_ok 2 ?s" unfolding gw_hcan_ok_def p using ok by simp
  have 4: "gw_can_ok n ?s = gw_can_ok n s" for n by (simp add: gw_can_ok_def)
  show ?thesis by (rule that [OF 1 p 2 3 4]) simp
qed

lemma send_can_law:
  assumes "gw_can_ok 2 s"
  shows "can_pending s = snd (send_can s) @ can_pending (fst (send_can s))" "gw_can_ok 1 (fst (send_can s))"
    "gw_hcan_ok n (fst (send_can s)) = gw_hcan_ok n s" "hcan_pending (fst (send_can s)) = hcan_pending s"
proof -
  have r: "ring (canTxBuf s) (canBufWIdx s) (canBufRIdx s)" and l: "length (can_pending s) \<le> 2"
    using assms by (simp_all add: gw_can_ok_def)
  show p: "can_pending s = snd (send_can s) @ can_pending (fst (send_can s))"
    using ring_pop [OF r] ring_empty [OF r] by (simp add: send_can_def)
  have "length (can_pending (fst (send_can s))) \<le> 1"
  proof (cases "canBufWIdx s = canBufRIdx s")
    case True
    then have "can_pending s = []" using ring_empty [OF r] by simp
    then show ?thesis using p by simp
  next
    case False
    then have "length (snd (send_can s)) = 1" by (simp add: send_can_def)
    then show ?thesis using l p by simp
  qed
  moreover have "ring (canTxBuf (fst (send_can s))) (canBufWIdx (fst (send_can s))) (canBufRIdx (fst (send_can s)))"
    using r by (auto simp: send_can_def)
  ultimately show "gw_can_ok 1 (fst (send_can s))" by (simp add: gw_can_ok_def)
  show "gw_hcan_ok n (fst (send_can s)) = gw_hcan_ok n s" "hcan_pending (fst (send_can s)) = hcan_pending s"
    by (simp_all add: gw_hcan_ok_def send_can_def)
qed

lemma send_hcan_law:
  assumes "gw_hcan_ok 2 s"
  shows "hcan_pending s = snd (send_hcan s) @ hcan_pending (fst (send_hcan s))" "gw_hcan_ok 1 (fst (send_hcan s))"
    "gw_can_ok n (fst (send_hcan s)) = gw_can_ok n s" "can_pending (fst (send_hcan s)) = can_pending s"
proof -
  have r: "ring (hcanTxBuf s) (hcanBufWIdx s) (hcanBufRIdx s)" and l: "length (hcan_pending s) \<le> 2"
    using assms by (simp_all add: gw_hcan_ok_def)
  show p: "hcan_pending s = snd (send_hcan s) @ hcan_pending (fst (send_hcan s))"
    using ring_pop [OF r] ring_empty [OF r] by (simp add: send_hcan_def)
  have "length (hcan_pending (fst (send_hcan s))) \<le> 1"
  proof (cases "hcanBufWIdx s = hcanBufRIdx s")
    case True
    then have "hcan_pending s = []" using ring_empty [OF r] by simp
    then show ?thesis using p by simp
  next
    case False
    then have "length (snd (send_hcan s)) = 1" by (simp add: send_hcan_def)
    then show ?thesis using l p by simp
  qed
  moreover have "ring (hcanTxBuf (fst (send_hcan s))) (hcanBufWIdx (fst (send_hcan s))) (hcanBufRIdx (fst (send_hcan s)))"
    using r by (auto simp: send_hcan_def)
  ultimately show "gw_hcan_ok 1 (fst (send_hcan s))" by (simp add: gw_hcan_ok_def)
  show "gw_can_ok n (fst (send_hcan s)) = gw_can_ok n s" "can_pending (fst (send_hcan s)) = can_pending s"
    by (simp_all add: gw_can_ok_def send_hcan_def)
qed

text \<open>What the frames of a round are as they leave.\<close>

fun rounds_ok :: "(can_udp recv option \<times> can_frame recv option) list \<Rightarrow> bool" where
  "rounds_ok [] = True"
| "rounds_ok ((h, c) # xs) =
     ((case h of None \<Rightarrow> True | Some (Whole f) \<Rightarrow> sound_udp f | _ \<Rightarrow> False) \<and>
      (case c of None \<Rightarrow> True | Some (Whole f) \<Rightarrow> sound_can f | _ \<Rightarrow> False) \<and> rounds_ok xs)"

definition to_can :: "can_udp recv option \<Rightarrow> (u32 \<times> nat \<times> u8 list) list" where
  "to_can h = (case h of Some (Whole f) \<Rightarrow> [(u_id f OR CAN_EFF_FLAG, unat (u_size f), take (unat (u_size f)) (u_data f))] | _ \<Rightarrow> [])"

definition to_hcan :: "can_frame recv option \<Rightarrow> (u32 \<times> nat \<times> u8 list) list" where
  "to_hcan c = (case c of Some (Whole f) \<Rightarrow> [(can_id f AND CAN_EFF_MASK, unat (can_dlc f), take (unat (can_dlc f)) (cf_data f))] | _ \<Rightarrow> [])"

lemma round_law:
  assumes "gw_can_ok 1 s" and "gw_hcan_ok 1 s" and "rounds_ok [(h, c)]"
  obtains s' cans udps where "gw_round h c s = Inr (s', cans, udps)" "gw_can_ok 1 s'" "gw_hcan_ok 1 s'"
    "map can_wire (cans @ can_pending s') = map can_wire (can_pending s) @ to_can h"
    "map udp_wire (udps @ hcan_pending s') = map udp_wire (hcan_pending s) @ to_hcan c"
proof -
  obtain s1 where 1: "(case h of None \<Rightarrow> Inr s | Some r \<Rightarrow> rxFromHcan r s) = Inr s1" "gw_can_ok 2 s1" "gw_hcan_ok 1 s1"
    "map can_wire (can_pending s1) = map can_wire (can_pending s) @ to_can h" "hcan_pending s1 = hcan_pending s"
  proof (cases h)
    case None
    then show ?thesis using assms(1,2) that [of s] by (simp add: to_can_def gw_can_ok_def)
  next
    case (Some r)
    with assms(3) obtain f where f: "h = Some (Whole f)" "sound_udp f" by (auto split: recv.splits)
    show ?thesis
      using rxFromHcan_law [OF assms(1) f(2)] that assms(2) by (force simp: f to_can_def)
  qed
  obtain s2 where 2: "(case c of None \<Rightarrow> Inr s1 | Some r \<Rightarrow> rxFromCb r s1) = Inr s2" "gw_can_ok 2 s2" "gw_hcan_ok 2 s2"
    "map udp_wire (hcan_pending s2) = map udp_wire (hcan_pending s) @ to_hcan c" "can_pending s2 = can_pending s1"
  proof (cases c)
    case None
    then show ?thesis using 1(2,3,5) that [of s1] by (simp add: to_hcan_def gw_hcan_ok_def)
  next
    case (Some r)
    with assms(3) obtain f where f: "c = Some (Whole f)" "sound_can f" by (auto split: recv.splits)
    show ?thesis
      using rxFromCb_law [OF 1(3) f(2)] that 1(2,5) by (force simp: f to_hcan_def)
  qed
  let ?s3 = "fst (send_can s2)" let ?s4 = "fst (send_hcan ?s3)"
  note can = send_can_law [OF 2(2)]
  have h3: "gw_hcan_ok 2 ?s3" using can(3) 2(3) by simp
  note hcan = send_hcan_law [OF h3]
  have "gw_round h c s = Inr (?s4, snd (send_can s2), snd (send_hcan ?s3))"
    using 1(1) 2(1) by (simp add: gw_round_def Let_def split: prod.splits)
  moreover have "gw_can_ok 1 ?s4" "gw_hcan_ok 1 ?s4" using can(2) hcan(2,3) by simp_all
  moreover have "map can_wire (snd (send_can s2) @ can_pending ?s4) = map can_wire (can_pending s) @ to_can h"
    unfolding hcan(4) can(1) [symmetric] 2(5) by (rule 1(4))
  moreover have "map udp_wire (snd (send_hcan ?s3) @ hcan_pending ?s4) = map udp_wire (hcan_pending s) @ to_hcan c"
    unfolding hcan(1) [symmetric] can(4) by (rule 2(4))
  ultimately show ?thesis by (rule that)
qed

lemma rounds_law:
  assumes "gw_can_ok 1 s" and "gw_hcan_ok 1 s" and "rounds_ok xs"
  shows "\<exists>s' cans udps. gw_rounds xs s = Inr (s', cans, udps) \<and> gw_can_ok 1 s' \<and> gw_hcan_ok 1 s' \<and>
    map can_wire (cans @ can_pending s') = map can_wire (can_pending s) @ concat (map to_can (map fst xs)) \<and>
    map udp_wire (udps @ hcan_pending s') = map udp_wire (hcan_pending s) @ concat (map to_hcan (map snd xs))"
  using assms
proof (induction xs arbitrary: s)
  case (Cons x xs)
  obtain h c where x: "x = (h, c)" by (cases x)
  have o: "rounds_ok [(h, c)]" "rounds_ok xs" using Cons.prems(3) by (simp_all add: x)
  obtain s1 cans udps where 1: "gw_round h c s = Inr (s1, cans, udps)" "gw_can_ok 1 s1" "gw_hcan_ok 1 s1"
    "map can_wire (cans @ can_pending s1) = map can_wire (can_pending s) @ to_can h"
    "map udp_wire (udps @ hcan_pending s1) = map udp_wire (hcan_pending s) @ to_hcan c"
    by (rule round_law [OF Cons.prems(1,2) o(1)])
  obtain s2 cans' udps' where 2: "gw_rounds xs s1 = Inr (s2, cans', udps')" "gw_can_ok 1 s2" "gw_hcan_ok 1 s2"
    "map can_wire (cans' @ can_pending s2) = map can_wire (can_pending s1) @ concat (map to_can (map fst xs))"
    "map udp_wire (udps' @ hcan_pending s2) = map udp_wire (hcan_pending s1) @ concat (map to_hcan (map snd xs))"
    using Cons.IH [OF 1(2,3) o(2)] by blast
  have "map can_wire ((cans @ cans') @ can_pending s2) = map can_wire (can_pending s) @ concat (map to_can (map fst (x # xs)))"
    using 1(4) 2(4) by (simp add: x del: map_map)
  moreover have "map udp_wire ((udps @ udps') @ hcan_pending s2) = map udp_wire (hcan_pending s) @ concat (map to_hcan (map snd (x # xs)))"
    using 1(5) 2(5) by (simp add: x del: map_map)
  moreover have "gw_rounds (x # xs) s = Inr (s2, cans @ cans', udps @ udps')" using 1(1) 2(1) by (simp add: x)
  ultimately show ?case using 2(2,3) by blast
qed simp

lemma gw_start_ok:
  "gw_can_ok 1 gw_start" "gw_hcan_ok 1 gw_start"
  "map can_wire (can_pending gw_start) = [(make_id 35 35 1 0 OR CAN_EFF_FLAG, 2, [0x11, 0x22])]"
  "map udp_wire (hcan_pending gw_start) = [(0, 0, [])]"
proof -
  have z: "replicate 8 0 = [0, 0, 0, 0, 0, 0, 0, 0 :: u8]" by (simp add: eval_nat_numeral)
  have c: "canTxBuf gw_start = (replicate 16 \<lparr>can_id = 0, can_dlc = 0, cf_data = replicate 8 0\<rparr>)[0 :=
      \<lparr>can_id = make_id 35 35 1 0 OR CAN_EFF_FLAG, can_dlc = 2, cf_data = (replicate 8 0)[0 := 0x11, 1 := 0x22]\<rparr>]"
    "canBufWIdx gw_start = 1" "canBufRIdx gw_start = 0"
    by (simp_all add: gw_start_def initSocketcan_def initHcan_def gw_zero_def Let_def)
  have h: "hcanTxBuf gw_start = (replicate 16 \<lparr>u_id = 0, u_size = 0, u_data = replicate 8 0\<rparr>)[0 :=
      \<lparr>u_id = 0, u_size = 0, u_data = replicate 8 0\<rparr>]" "hcanBufWIdx gw_start = 1" "hcanBufRIdx gw_start = 0"
    by (simp_all add: gw_start_def initSocketcan_def initHcan_def gw_zero_def Let_def make_id_def)
  show "gw_can_ok 1 gw_start" by (simp add: gw_can_ok_def ring_def c length_pending)
  show "gw_hcan_ok 1 gw_start" by (simp add: gw_hcan_ok_def ring_def h length_pending)
  show "map can_wire (can_pending gw_start) = [(make_id 35 35 1 0 OR CAN_EFF_FLAG, 2, [0x11, 0x22])]"
    by (simp add: c pending_def can_wire_def z)
  show "map udp_wire (hcan_pending gw_start) = [(0, 0, [])]"
    by (simp add: h pending_def udp_wire_def)
qed

section \<open>Properties of the gateway\<close>

text \<open>
  The gateway passes frames on in both directions unchanged and in order: as long
  as the sockets deliver whole frames with at most eight bytes, it never stops, what
  it has written to the CAN interface together with the at most one frame it still holds are
  its hello frame and then the frames from the distributor, each with the flag of extended
  identifiers, in the order they came, and the same in the other direction,
  without the flags.
\<close>

theorem gateway_forwards_in_order:
  assumes "rounds_ok xs"
  shows "\<exists>s cans udps. gw_rounds xs gw_start = Inr (s, cans, udps) \<and>
    map can_wire (cans @ can_pending s) =
      (make_id 35 35 1 0 OR CAN_EFF_FLAG, 2, [0x11, 0x22]) # concat (map to_can (map fst xs)) \<and>
    map udp_wire (udps @ hcan_pending s) = (0, 0, []) # concat (map to_hcan (map snd xs)) \<and>
    length (can_pending s) \<le> 1 \<and> length (hcan_pending s) \<le> 1"
  using rounds_law [OF gw_start_ok(1,2) assms] gw_start_ok(3,4) by (auto simp: gw_can_ok_def gw_hcan_ok_def)

theorem gateway_forwards_in_order_witness:
  "\<exists>s cans udps. gw_rounds [(Some (Whole \<lparr>u_id = 5, u_size = 1, u_data = replicate 8 7\<rparr>), None), (None, None)] gw_start =
     Inr (s, cans, udps) \<and> map can_wire (cans @ can_pending s) =
       [(make_id 35 35 1 0 OR CAN_EFF_FLAG, 2, [0x11, 0x22]), (0x80000005, 1, [7])]"
proof -
  have "rounds_ok [(Some (Whole \<lparr>u_id = 5, u_size = 1, u_data = replicate 8 7\<rparr>), None), (None, None)]"
    by (simp add: sound_udp_def)
  note g = gateway_forwards_in_order [OF this]
  have "concat (map to_can (map fst [(Some (Whole \<lparr>u_id = 5, u_size = 1, u_data = replicate 8 7\<rparr>), None :: can_frame recv option), (None, None)])) =
      [(0x80000005, 1, [7])]"
    by (simp add: to_can_def replicate_Suc [of 7, simplified])
  then show ?thesis using g by metis
qed

section \<open>From the library to the boards and back\<close>

text \<open>What a board's CAN driver makes of a frame on the bus: the 29 bits of the identifier and the bytes.\<close>

definition board_view :: "u32 \<times> nat \<times> u8 list \<Rightarrow> canix_frame" where
  "board_view w = (case w of (i, n, ds) \<Rightarrow> frame_of_ext (take_bit 29 i) (of_nat n) ds)"

definition to_board :: "host_frame \<Rightarrow> canix_frame" where
  "to_board f = \<lparr>src = hf_src f, dst = hf_dst f, proto = hf_proto f, fsize = ucast (hf_size f),
     data = take (unat (hf_size f)) (hf_data f)\<rparr>"

definition host_frame_ok :: "host_frame \<Rightarrow> bool" where
  "host_frame_ok f \<longleftrightarrow> unat (hf_src f) < 1024 \<and> unat (hf_dst f) < 1024 \<and> unat (hf_proto f) < 8 \<and>
     unat (hf_prio f) < 32 \<and> length (hf_data f) = 8 \<and> unat (hf_size f) \<le> 8"

lemma write_to_sound: "host_frame_ok f \<Longrightarrow> length junk = 8 \<Longrightarrow> sound_udp (write_to junk f)"
  by (simp add: sound_udp_def write_to_def host_frame_ok_def)

lemma write_to_id: "u_id (write_to junk f) = extid_of (to_board f) (hf_prio f)"
  by (simp add: write_to_def extid_of_def to_board_def)

lemma board_view_write_to:
  assumes "host_frame_ok f" and "length junk = 8"
  shows "map board_view (to_can (Some (Whole (write_to junk f)))) = [to_board f]"
proof -
  have f: "unat (src (to_board f)) < 1024" "unat (dst (to_board f)) < 1024" "unat (proto (to_board f)) < 8"
    using assms(1) by (simp_all add: host_frame_ok_def to_board_def)
  have s: "unat (hf_size f) \<le> 8" "length (hf_data f) = 8" using assms(1) by (simp_all add: host_frame_ok_def)
  have "take_bit 29 (0x80000000 :: u32) = 0" by simp
  then have i: "take_bit 29 (u_id (write_to junk f) OR CAN_EFF_FLAG) = take_bit 29 (extid_of (to_board f) (hf_prio f))"
    by (simp add: take_bit_or write_to_id)
  have w: "u_size (write_to junk f) = hf_size f"
    "take (unat (hf_size f)) (u_data (write_to junk f)) = take (unat (hf_size f)) (hf_data f)"
    using s by (simp_all add: write_to_def)
  show ?thesis
    unfolding to_can_def option.case recv.case list.map board_view_def prod.case i frame_of_extid [OF f] w
    by (simp add: to_board_def)
qed

lemma read_from_board:
  assumes "unat (src g) < 1024" and "unat (dst g) < 1024" and "unat (proto g) < 8"
  shows "hf_src (read_from \<lparr>u_id = (take_bit 29 (extid_of g prio) OR CAN_EFF_FLAG) AND CAN_EFF_MASK, u_size = n, u_data = ds\<rparr>) = src g"
    "hf_dst (read_from \<lparr>u_id = (take_bit 29 (extid_of g prio) OR CAN_EFF_FLAG) AND CAN_EFF_MASK, u_size = n, u_data = ds\<rparr>) = dst g"
    "hf_proto (read_from \<lparr>u_id = (take_bit 29 (extid_of g prio) OR CAN_EFF_FLAG) AND CAN_EFF_MASK, u_size = n, u_data = ds\<rparr>) = proto g"
proof -
  have m: "(CAN_EFF_MASK :: u32) = mask 29" by (simp add: mask_eq_exp_minus_1)
  have "take_bit 29 (0x80000000 :: u32) = 0" by simp
  then have "(take_bit 29 (extid_of g prio) OR CAN_EFF_FLAG) AND CAN_EFF_MASK = take_bit 29 (extid_of g prio)"
    unfolding m take_bit_eq_mask [symmetric] by (simp add: take_bit_or)
  then show "hf_src (read_from \<lparr>u_id = (take_bit 29 (extid_of g prio) OR CAN_EFF_FLAG) AND CAN_EFF_MASK, u_size = n, u_data = ds\<rparr>) = src g"
    "hf_dst (read_from \<lparr>u_id = (take_bit 29 (extid_of g prio) OR CAN_EFF_FLAG) AND CAN_EFF_MASK, u_size = n, u_data = ds\<rparr>) = dst g"
    "hf_proto (read_from \<lparr>u_id = (take_bit 29 (extid_of g prio) OR CAN_EFF_FLAG) AND CAN_EFF_MASK, u_size = n, u_data = ds\<rparr>) = proto g"
    using frame_of_extid [OF assms, of prio 0 "[]"]
    by (simp_all add: read_from_def host_frame_sized_def Let_def frame_of_ext_def)
qed

text \<open>
  Property C15. Frames of the host programs reach the boards: whatever frames with
  addresses below 1024, a protocol below 8, a priority below 32 and at most eight bytes the library writes to the
  gateway, what the gateway has written to the CAN interface and what waits in its ring is, after the gateway's own
  hello frame, exactly these frames in their order, and the boards read from them the same source, destination, protocol and
  bytes. (The writes to the CAN interface succeed; the code logs a failed one, and the frame is lost.)
\<close>

theorem host_frames_reach_boards:
  assumes "\<forall>f \<in> set fs. host_frame_ok f" and "length junk = 8"
  shows "\<exists>s cans udps. gw_rounds (map (\<lambda>f. (Some (Whole (write_to junk f)), None)) fs) gw_start = Inr (s, cans, udps) \<and>
    map (board_view \<circ> can_wire) (cans @ can_pending s) =
      \<lparr>src = 35, dst = 35, proto = 1, fsize = 2, data = [0x11, 0x22]\<rparr> # map to_board fs"
proof -
  let ?xs = "map (\<lambda>f. (Some (Whole (write_to junk f)), None :: can_frame recv option)) fs"
  have ok: "rounds_ok ?xs" using assms by (induction fs) (simp_all add: write_to_sound)
  obtain s cans udps where g: "gw_rounds ?xs gw_start = Inr (s, cans, udps)"
    "map can_wire (cans @ can_pending s) = map can_wire (can_pending gw_start) @ concat (map to_can (map fst ?xs))"
    using rounds_law [OF gw_start_ok(1,2) ok] by blast
  have hello: "map board_view (map can_wire (can_pending gw_start)) = [\<lparr>src = 35, dst = 35, proto = 1, fsize = 2, data = [0x11, 0x22]\<rparr>]"
    unfolding gw_start_ok(3) by (simp add: board_view_def frame_of_ext_def make_id_def)
  have "map board_view (concat (map to_can (map fst ?xs))) = map to_board fs"
    using assms(1) by (induction fs) (simp_all add: board_view_write_to [OF _ assms(2)])
  then have "map (board_view \<circ> can_wire) (cans @ can_pending s) =
      \<lparr>src = 35, dst = 35, proto = 1, fsize = 2, data = [0x11, 0x22]\<rparr> # map to_board fs"
    unfolding map_map [symmetric] g(2) unfolding map_append hello by simp
  with g(1) show ?thesis by (intro exI conjI)
qed

theorem host_frames_reach_boards_witness:
  "\<exists>s cans udps. gw_rounds [(Some (Whole (write_to (replicate 8 0) (host_frame_sized 900 7 1 [1, 10] 2))), None)] gw_start =
     Inr (s, cans, udps) \<and> map (board_view \<circ> can_wire) (cans @ can_pending s) =
       [\<lparr>src = 35, dst = 35, proto = 1, fsize = 2, data = [0x11, 0x22]\<rparr>, \<lparr>src = 900, dst = 7, proto = 1, fsize = 2, data = [1, 10]\<rparr>]"
proof -
  have "\<forall>f \<in> set [host_frame_sized 900 7 1 [1, 10] 2]. host_frame_ok f"
    by (simp add: host_frame_ok_def host_frame_sized_def Let_def)
  from host_frames_reach_boards [OF this, of "replicate 8 0"] show ?thesis
    by (simp add: to_board_def host_frame_sized_def Let_def)
qed

end
