(* ===== verification/Mqtt_Bridge.thy ===== *)
theory Mqtt_Bridge
  imports Complex_Main Texts Gateway
begin

text \<open>
  The bridge between the bus and a home automation server,
  \<^verbatim>\<open>src/hcan4mqttha\<close>: orders come as topics and payloads of the broker and become messages for
  the bus (\<^verbatim>\<open>prepareMsg4cb\<close>), messages of the bus become topics and payloads
  (\<^verbatim>\<open>catHesTopic4Broker\<close>). The names of the devices come from the installation's
  file (\<^verbatim>\<open>parseXml.c\<close>), the parts of the topics from one file for each
  kind of device. Strings are those of C without their zero; the float of \<^verbatim>\<open>atof\<close>
  is a parameter, as are the operations of the JSON library.
\<close>

unbundle bit_operations_syntax

section \<open>Strings of C\<close>

text \<open>\<^verbatim>\<open>strncmp\<close> finds no difference in the first \<open>n\<close> characters.\<close>

definition strn_eq :: "string \<Rightarrow> string \<Rightarrow> nat \<Rightarrow> bool" where
  "strn_eq a b n \<longleftrightarrow> take n (a @ [CHR 0x00]) = take n (b @ [CHR 0x00])"

definition isEq :: "string \<Rightarrow> string \<Rightarrow> nat \<Rightarrow> bool" where
  "isEq s1 s2 bisPos = strn_eq s1 s2 bisPos"

definition is_prefix :: "string \<Rightarrow> string \<Rightarrow> bool" where
  "is_prefix topic key = strn_eq topic key (length key)"

definition strnlen :: "string \<Rightarrow> nat \<Rightarrow> nat" where
  "strnlen s n = min (length s) n"

text \<open>\<^verbatim>\<open>strtol\<close> to the base 10: the value and what follows it, all of the text without a digit.\<close>

definition strtol :: "string \<Rightarrow> int \<times> string" where
  "strtol s =
     (let t = dropWhile cxx_isspace s;
          neg = (t \<noteq> [] \<and> hd t = CHR ''-'');
          t' = (if t \<noteq> [] \<and> (hd t = CHR ''-'' \<or> hd t = CHR ''+'') then tl t else t);
          ds = takeWhile cxx_isdigit t';
          n = int (number_of ds) in
      if ds = [] then (0, s)
      else (if neg then max (- (2 ^ 63)) (- n) else min (2 ^ 63 - 1) n, dropWhile cxx_isdigit t'))"

text \<open>What \<^verbatim>\<open>snprintf\<close> leaves in an array of \<open>n\<close> bytes.\<close>

definition snprintf_to :: "nat \<Rightarrow> string \<Rightarrow> string" where
  "snprintf_to n s = take (n - 1) s"

text \<open>
  \<^verbatim>\<open>%.1f\<close> and \<^verbatim>\<open>%.2f\<close>: the exact value of the float rounded to the nearest decimal, to the
  even one of two.
\<close>

definition round_half_even :: "rat \<Rightarrow> int" where
  "round_half_even x =
     (let f = floor x; d = x - of_int f in
      if d < 1 / 2 then f else if d > 1 / 2 then f + 1 else if even f then f else f + 1)"

definition show_fixed :: "nat \<Rightarrow> rat \<Rightarrow> string" where
  "show_fixed n x =
     (let r = nat (round_half_even (abs x * 10 ^ n));
          frac = dec_digits (r mod 10 ^ n) in
      (if x < 0 then ''-'' else []) @ dec_digits (r div 10 ^ n) @ ''.'' @ replicate (n - length frac) (CHR ''0'') @ frac)"

section \<open>State\<close>

datatype dev_kind = ELight | ESwitch | EClimate | ETempsensor | EReedkontakt | ECover

abbreviation (input) all_devs :: "dev_kind list" where
  "all_devs \<equiv> [ELight, ESwitch, EClimate, ETempsensor, EReedkontakt, ECover]"

fun str_dev_name :: "dev_kind \<Rightarrow> string" where
  "str_dev_name ELight = ''light''"
| "str_dev_name ESwitch = ''switch''"
| "str_dev_name EClimate = ''climate''"
| "str_dev_name ETempsensor = ''tempsensor''"
| "str_dev_name EReedkontakt = ''reedkontakt''"
| "str_dev_name ECover = ''cover''"

record config_topic =
  TildeOhneId :: string
  stat_t :: string
  cmd_t :: string
  pos_t :: string
  set_pos_t :: string

record hcan_installation =
  sonstige :: bool
  Bereichsname :: string
  UIelement :: bool
  HeizkoerperId :: u8
  tIst :: rat
  tSoll :: rat
  ha_mode :: string

record mqtt =
  strDateiEintrag :: "dev_kind \<Rightarrow> config_topic"
  mode_cmd_t :: string
  temp_cmd_t :: string
  dev :: "hcan_installation list"
  stt :: string
  HaOnline :: bool

abbreviation (input) anzIds :: nat where "anzIds \<equiv> 255"

text \<open>
  What a call ends in when it does not return: a file is missing and the program exits, an
  index or a copy leaves its array, a null pointer is read, a float is outside the integers.
\<close>

datatype mq_end = Mq_Exit | Mq_Bounds | Mq_Null | Mq_Float

type_synonym 'a mq = "mq_end + 'a"

definition the_dev :: "u8 \<Rightarrow> mqtt \<Rightarrow> hcan_installation mq" where
  "the_dev i s = (if unat i < length (dev s) then Inr (dev s ! unat i) else Inl Mq_Bounds)"

definition set_dev :: "u8 \<Rightarrow> hcan_installation \<Rightarrow> mqtt \<Rightarrow> mqtt mq" where
  "set_dev i d s = (if unat i < length (dev s) then Inr (s\<lparr>dev := (dev s)[unat i := d]\<rparr>) else Inl Mq_Bounds)"

definition bindr :: "'e + 'a \<Rightarrow> ('a \<Rightarrow> 'e + 'b) \<Rightarrow> 'e + 'b" where
  "bindr r f = (case r of Inl e \<Rightarrow> Inl e | Inr x \<Rightarrow> f x)"

lemma bindr_simps [simp]: "bindr (Inr x) f = f x" "bindr (Inl e) f = Inl e"
  by (simp_all add: bindr_def)

definition initMqttHcan :: "mqtt \<Rightarrow> mqtt" where
  "initMqttHcan s =
     s\<lparr>strDateiEintrag := (\<lambda>_. \<lparr>TildeOhneId = [], stat_t = [], cmd_t = [], pos_t = [], set_pos_t = []\<rparr>),
       mode_cmd_t := [], temp_cmd_t := [],
       dev := map (\<lambda>d. d\<lparr>HeizkoerperId := 255, UIelement := False\<rparr>) (dev s)\<rparr>"

section \<open>Orders of the server\<close>

text \<open>The unsigned difference of the two lengths.\<close>

definition size_t_diff :: "nat \<Rightarrow> nat \<Rightarrow> nat" where
  "size_t_diff a b = unat ((of_nat a :: 64 word) - of_nat b)"

text \<open>The conversion of a float to \<^verbatim>\<open>uint16_t\<close>.\<close>

definition float_u16 :: "rat \<Rightarrow> u16 mq" where
  "float_u16 x =
     (let t = (if x < 0 then - floor (- x) else floor x) in
      if 0 \<le> t \<and> t < 65536 then Inr (word_of_int t) else Inl Mq_Float)"

text \<open>A temperature and a duration in the bytes from 3 on.\<close>

definition temp_bytes :: "u8 list \<Rightarrow> u16 \<Rightarrow> u16 \<Rightarrow> u8 list" where
  "temp_bytes bs temp dauer = bs[3 := hi8 temp, 4 := lo8 temp, 5 := hi8 dauer, 6 := lo8 dauer]"

definition set_tsoll :: "u8 \<Rightarrow> rat \<Rightarrow> mqtt \<Rightarrow> mqtt mq" where
  "set_tsoll i x s = bindr (the_dev i s) (\<lambda>d. set_dev i (d\<lparr>tSoll := x\<rparr>) s)"

text \<open>The frame's length and data, 0 for no message.\<close>

definition setClimateCanMsg ::
  "(string \<Rightarrow> rat) \<Rightarrow> string \<Rightarrow> nat \<Rightarrow> string \<Rightarrow> u8 list \<Rightarrow> mqtt \<Rightarrow> (nat \<times> u8 list \<times> mqtt) mq" where
  "setClimateCanMsg atof restTopic bisPos payload_rx bs s =
     (if isEq (stat_t (strDateiEintrag s EClimate)) restTopic bisPos
      then Inr (3, bs[1 := HCAN_HES_HEIZUNG_TIST_REQUEST], s)
      else if isEq (mode_cmd_t s) restTopic bisPos
      then (if is_prefix payload_rx ''off'' then Inr (3, bs[1 := HCAN_HES_HEIZUNG_SET_MODE_OFF], s)
            else if is_prefix payload_rx ''auto'' then Inr (3, bs[1 := HCAN_HES_HEIZUNG_SET_MODE_AUTOMATIK], s)
            else let bs = bs[1 := HCAN_HES_HEIZUNG_SET_MODE_THERMOSTAT_DETAILS];
                     (t, dauer) = (if is_prefix payload_rx ''heat'' then (39 / 2, 10800) else (10, 0))
                 in bindr (set_tsoll (bs ! 2) t s) (\<lambda>s.
                    bindr (float_u16 (16 * t)) (\<lambda>temp. Inr (7, temp_bytes bs temp dauer, s))))
      else if isEq (temp_cmd_t s) restTopic bisPos
      then let bs = bs[1 := HCAN_HES_HEIZUNG_SET_MODE_THERMOSTAT_DETAILS]; t = atof payload_rx
           in bindr (set_tsoll (bs ! 2) t s) (\<lambda>s.
              bindr (float_u16 (16 * t)) (\<lambda>temp. Inr (7, temp_bytes bs temp 10800, s)))
      else Inr (0, bs, s))"

definition simple_dev_msg :: "dev_kind \<Rightarrow> string \<Rightarrow> nat \<Rightarrow> string \<Rightarrow> u8 list \<Rightarrow> config_topic \<Rightarrow> nat \<times> u8 list" where
  "simple_dev_msg d restTopic bisPos payload_rx bs c =
     (case d of
        ECover \<Rightarrow>
          (if isEq (stat_t c) restTopic bisPos then (3, bs[1 := HCAN_HES_ROLLADEN_POSITION_REQUEST])
           else if isEq (cmd_t c) restTopic bisPos
           then let bs = bs[1 := HCAN_HES_ROLLADEN_POSITION_SET] in
                (4, if is_prefix payload_rx ''CLOSE'' then bs[3 := 200]
                    else if is_prefix payload_rx ''OPEN'' then bs[3 := 201]
                    else if is_prefix payload_rx ''STOP'' then bs[3 := 202] else bs)
           else if isEq (set_pos_t c) restTopic bisPos
           then (4, bs[1 := HCAN_HES_ROLLADEN_POSITION_SET, 3 := word_of_int (fst (strtol payload_rx))])
           else (0, bs))
      | ETempsensor \<Rightarrow>
          (if isEq (stat_t c) restTopic bisPos then (3, bs[1 := HCAN_HES_1WIRE_TEMPERATURE_QUERY]) else (0, bs))
      | EReedkontakt \<Rightarrow>
          (if isEq (stat_t c) restTopic bisPos then (3, bs[1 := HCAN_HES_REEDKONTAKT_STATE_QUERY]) else (0, bs))
      | _ \<Rightarrow>
          (if isEq (stat_t c) restTopic bisPos then (3, bs[1 := HCAN_HES_POWER_GROUP_STATE_QUERY])
           else if isEq (cmd_t c) restTopic bisPos
           then (3, bs[1 := (if is_prefix payload_rx ''ON'' then HCAN_HES_POWER_GROUP_ON else HCAN_HES_POWER_GROUP_OFF)])
           else (0, bs)))"

text \<open>
  The kinds in their order, up to the first whose topic begins like this one and that has a
  message for the rest; the number after the beginning is the group. The topic is followed in
  memory by the payload, whose length is taken off again.
\<close>

fun prepare_loop ::
  "(string \<Rightarrow> rat) \<Rightarrow> string \<Rightarrow> string \<Rightarrow> dev_kind list \<Rightarrow> u8 list \<Rightarrow> mqtt \<Rightarrow> (nat \<times> u8 list \<times> mqtt) mq" where
  "prepare_loop atof topic_rx payload_rx [] bs s = Inr (0, bs, s)"
| "prepare_loop atof topic_rx payload_rx (d # ds) bs s =
     (let c = strDateiEintrag s d; bisPos = strnlen (TildeOhneId c) 35 in
      if isEq (TildeOhneId c) topic_rx bisPos
      then let (v, restTopic) = strtol (drop (bisPos + 1) topic_rx);
               bs = bs[2 := word_of_int v];
               bisPos = size_t_diff (strnlen restTopic 30) (strnlen payload_rx 20)
           in bindr (if d = EClimate then setClimateCanMsg atof restTopic bisPos payload_rx bs s
                     else (let (n, bs) = simple_dev_msg d restTopic bisPos payload_rx bs c in Inr (n, bs, s)))
                (\<lambda>(n, bs, s). if n = 0 then prepare_loop atof topic_rx payload_rx ds bs s else Inr (n, bs, s))
      else prepare_loop atof topic_rx payload_rx ds bs s)"

definition prepareMsg4cb :: "(string \<Rightarrow> rat) \<Rightarrow> string \<Rightarrow> string \<Rightarrow> u8 list \<Rightarrow> mqtt \<Rightarrow> (nat \<times> u8 list \<times> mqtt) mq" where
  "prepareMsg4cb atof topic_rx payload_rx bs s = prepare_loop atof topic_rx payload_rx all_devs bs s"

section \<open>The installation's file\<close>

text \<open>The nodes of the library's tree: elements with their attributes, and all others.\<close>

datatype xml_node = Element string "(string \<times> string) list" "xml_node list" | Other_Node "xml_node list"

abbreviation (input) maxNodeAnz :: nat where "maxNodeAnz \<equiv> 1000"

record xml_search =
  nodeAnz :: nat
  xs_dev :: hcan_installation
  xs_stt :: string
  devInXmlEnthalten :: bool

text \<open>A missing attribute is printed as \<^verbatim>\<open>(null)\<close>.\<close>

definition prop_text :: "(string \<times> string) list \<Rightarrow> string \<Rightarrow> string" where
  "prop_text attrs k = (case map_of attrs k of Some v \<Rightarrow> v | None \<Rightarrow> ''(null)'')"

definition visit_element :: "nat \<Rightarrow> u8 \<Rightarrow> string \<Rightarrow> string \<Rightarrow> (string \<times> string) list \<Rightarrow> xml_search \<Rightarrow> xml_search" where
  "visit_element debug gesuchteId strId name attrs x =
     (let x = (if name = ''bereich''
               then x\<lparr>xs_dev := (xs_dev x)\<lparr>Bereichsname := snprintf_to 4 (prop_text attrs ''name'')\<rparr>\<rparr> else x) in
      if map_of attrs ''gruppe'' = Some strId
      then let x = x\<lparr>xs_dev := (xs_dev x)\<lparr>sonstige := (map_of attrs ''typ'' = Some ''sonstige'')\<rparr>\<rparr>;
               t = (if map_of attrs ''stt'' \<noteq> None then prop_text attrs ''stt'' else prop_text attrs ''nostt'');
               t = Bereichsname (xs_dev x) @ '' '' @ t @ (if debug > 0 then '' '' @ show_nat (unat gesuchteId) else [])
           in x\<lparr>xs_stt := snprintf_to 25 t, nodeAnz := maxNodeAnz, devInXmlEnthalten := True\<rparr>
      else x)"

function getDatenZuId :: "nat \<Rightarrow> u8 \<Rightarrow> string \<Rightarrow> xml_node list \<Rightarrow> xml_search \<Rightarrow> xml_search" where
  "getDatenZuId debug i strId [] x = x"
| "getDatenZuId debug i strId (Element name attrs cs # ns) x =
     (if nodeAnz x < maxNodeAnz
      then let x = getDatenZuId debug i strId cs (visit_element debug i strId name attrs x)
           in getDatenZuId debug i strId ns (x\<lparr>nodeAnz := nodeAnz x + 1\<rparr>)
      else x)"
| "getDatenZuId debug i strId (Other_Node cs # ns) x =
     (if nodeAnz x < maxNodeAnz
      then let x = getDatenZuId debug i strId cs x
           in getDatenZuId debug i strId ns (x\<lparr>nodeAnz := nodeAnz x + 1\<rparr>)
      else x)"
  by pat_completeness auto
termination by (relation "measure (\<lambda>(_, _, _, ns, _). size_list size ns)") simp_all

definition getXmlDatenZurId :: "nat \<Rightarrow> xml_node list \<Rightarrow> u8 \<Rightarrow> mqtt \<Rightarrow> (bool \<times> mqtt) mq" where
  "getXmlDatenZurId debug first_child i s =
     bindr (the_dev i s) (\<lambda>d.
       let x = getDatenZuId debug i (snprintf_to 5 (show_nat (unat i))) first_child
                 \<lparr>nodeAnz = 0, xs_dev = d\<lparr>Bereichsname := []\<rparr>, xs_stt = [], devInXmlEnthalten = False\<rparr>;
           d = (if Bereichsname (xs_dev x) = [] then (xs_dev x)\<lparr>Bereichsname := ''-''\<rparr> else xs_dev x)
       in bindr (set_dev i d (s\<lparr>stt := xs_stt x\<rparr>)) (\<lambda>s. Inr (devInXmlEnthalten x, s)))"

section \<open>The files of the kinds\<close>

text \<open>What the program uses of the JSON library; \<open>'j\<close> are its objects.\<close>

record 'j json_c =
  j_parse_file :: "string \<Rightarrow> 'j option"
  j_get_string :: "'j \<Rightarrow> string \<Rightarrow> string option"
  j_add :: "'j \<Rightarrow> string \<Rightarrow> 'j \<Rightarrow> 'j"
  j_string :: "string \<Rightarrow> 'j"
  j_object :: 'j
  j_array :: "'j list \<Rightarrow> 'j"
  j_print :: "'j \<Rightarrow> string"

text \<open>
  A value without its first \<open>von\<close> characters, cut to an array of \<open>n\<close> bytes; \<open>bis\<close> is what
  is given to \<^verbatim>\<open>snprintf\<close>, so that the zero may come behind the array.
\<close>

definition copy_entry :: "nat \<Rightarrow> nat \<Rightarrow> nat \<Rightarrow> string \<Rightarrow> string mq" where
  "copy_entry n von bis source = (let t = take bis (drop von source) in if length t < n then Inr t else Inl Mq_Bounds)"

definition get_entry :: "'j json_c \<Rightarrow> 'j \<Rightarrow> string \<Rightarrow> string mq" where
  "get_entry jc j k = (case j_get_string jc j k of None \<Rightarrow> Inl Mq_Null | Some v \<Rightarrow> Inr v)"

definition set_entry :: "dev_kind \<Rightarrow> (config_topic \<Rightarrow> config_topic) \<Rightarrow> mqtt \<Rightarrow> mqtt" where
  "set_entry d f s = s\<lparr>strDateiEintrag := (strDateiEintrag s)(d := f (strDateiEintrag s d))\<rparr>"

definition holeConfigDateiEintrag :: "'j json_c \<Rightarrow> 'j \<Rightarrow> dev_kind \<Rightarrow> string \<Rightarrow> mqtt \<Rightarrow> mqtt mq" where
  "holeConfigDateiEintrag jc j d k s =
     bindr (get_entry jc j k) (\<lambda>v.
       if is_prefix k ''~'' then bindr (copy_entry 35 0 (size_t_diff (strnlen v 35) 3) v) (\<lambda>t. Inr (set_entry d (TildeOhneId_update (\<lambda>_. t)) s))
       else if is_prefix k ''stat_t'' \<or> d = EClimate \<and> is_prefix k ''mode_stat_t''
       then bindr (copy_entry 30 1 (strnlen v 30) v) (\<lambda>t. Inr (set_entry d (stat_t_update (\<lambda>_. t)) s))
       else if is_prefix k ''cmd_t'' then bindr (copy_entry 20 1 (strnlen v 20) v) (\<lambda>t. Inr (set_entry d (cmd_t_update (\<lambda>_. t)) s))
       else if is_prefix k ''pos_t'' then bindr (copy_entry 30 1 (strnlen v 30) v) (\<lambda>t. Inr (set_entry d (pos_t_update (\<lambda>_. t)) s))
       else if is_prefix k ''set_pos_t'' then bindr (copy_entry 30 1 (strnlen v 30) v) (\<lambda>t. Inr (set_entry d (set_pos_t_update (\<lambda>_. t)) s))
       else Inr s)"

definition holeConfigDateiEintragClimate :: "'j json_c \<Rightarrow> 'j \<Rightarrow> string \<Rightarrow> mqtt \<Rightarrow> mqtt mq" where
  "holeConfigDateiEintragClimate jc j k s =
     bindr (get_entry jc j k) (\<lambda>v.
       if is_prefix k ''mode_cmd_t'' then bindr (copy_entry 30 1 (strnlen v 30) v) (\<lambda>t. Inr (s\<lparr>mode_cmd_t := t\<rparr>))
       else if is_prefix k ''temp_cmd_t'' then bindr (copy_entry 30 1 (strnlen v 30) v) (\<lambda>t. Inr (s\<lparr>temp_cmd_t := t\<rparr>))
       else Inr s)"

fun hole_keys :: "'j json_c \<Rightarrow> 'j \<Rightarrow> dev_kind \<Rightarrow> string list \<Rightarrow> mqtt \<Rightarrow> mqtt mq" where
  "hole_keys jc j d [] s = Inr s"
| "hole_keys jc j d (k # ks) s = bindr (holeConfigDateiEintrag jc j d k s) (hole_keys jc j d ks)"

fun kind_keys :: "dev_kind \<Rightarrow> string list" where
  "kind_keys ETempsensor = [''~'', ''stat_t'']"
| "kind_keys EReedkontakt = [''~'', ''stat_t'']"
| "kind_keys ELight = [''~'', ''stat_t'', ''cmd_t'']"
| "kind_keys ESwitch = [''~'', ''stat_t'', ''cmd_t'']"
| "kind_keys ECover = [''~'', ''stat_t'', ''cmd_t'', ''pos_t'', ''set_pos_t'']"
| "kind_keys EClimate = [''~'', ''mode_stat_t'']"

definition hole_entries :: "'j json_c \<Rightarrow> 'j \<Rightarrow> dev_kind \<Rightarrow> mqtt \<Rightarrow> mqtt mq" where
  "hole_entries jc j d s =
     bindr (hole_keys jc j d (kind_keys d) s) (\<lambda>s.
       if d = EClimate
       then bindr (holeConfigDateiEintragClimate jc j ''mode_cmd_t'' s) (holeConfigDateiEintragClimate jc j ''temp_cmd_t'')
       else Inr s)"

text \<open>The description of a device: with the entries of the file, the topic and the payload; \<open>None\<close> is the length 0.\<close>

definition describe_device :: "'j json_c \<Rightarrow> 'j \<Rightarrow> u8 \<Rightarrow> string \<Rightarrow> string \<Rightarrow> 'j" where
  "describe_device jc j i area nm =
     (let uid = show_nat (unat i);
          j = j_add jc j ''name'' (j_string jc []);
          j = j_add jc j ''unique_id'' (j_string jc uid);
          v = j_add jc (j_object jc) ''configuration_url'' (j_string jc ''https://github.com/hcanIngo/openHCAN/wiki'');
          v = j_add jc v ''identifiers'' (j_array jc [j_string jc uid]);
          v = j_add jc v ''manufacturer'' (j_string jc ''openHCAN'');
          v = j_add jc v ''suggested_area'' (j_string jc area);
          v = j_add jc v ''name'' (j_string jc nm);
          v = j_add jc v ''sw_version'' (j_string jc ''1.0'')
      in j_add jc j ''device'' v)"

definition erzeugeConfigTopicUndPayload ::
  "nat \<Rightarrow> xml_node list \<Rightarrow> 'j json_c \<Rightarrow> dev_kind \<Rightarrow> u8 \<Rightarrow> mqtt \<Rightarrow> ((string \<times> string) option \<times> mqtt) mq" where
  "erzeugeConfigTopicUndPayload debug xml jc d i s =
     bindr (getXmlDatenZurId debug xml i s) (\<lambda>(found, s).
       if \<not> found then Inr (None, s)
       else bindr (the_dev i s) (\<lambda>dv.
         let d = (if d = ELight \<and> sonstige dv then ESwitch else d) in
         case j_parse_file jc (''/etc/hcan/'' @ str_dev_name d @ ''_config.json'') of
           None \<Rightarrow> Inl Mq_Exit
         | Some j \<Rightarrow>
             let j = describe_device jc j i (Bereichsname dv) (stt s) in
             bindr (hole_entries jc j d s) (\<lambda>s.
               let tilde = TildeOhneId (strDateiEintrag s d);
                   topic = ''homeassistant/'' @ drop 3 tilde @ ''/'' @ Bereichsname dv @ ''/'' @ show_nat (unat i) @ ''/config'';
                   j = j_add jc j ''~'' (j_string jc (snprintf_to 35 (tilde @ ''/'' @ show_nat (unat i))))
               in Inr (Some (topic, j_print jc j), s))))"

section \<open>Messages for the server\<close>

definition get_proto :: "u32 \<Rightarrow> u8" where
  "get_proto extid = ucast (drop_bit 20 extid AND 7)"

definition isItTopic4Broker :: "u8 \<Rightarrow> bool" where
  "isItTopic4Broker m \<longleftrightarrow>
     m \<in> {HCAN_HES_POWER_GROUP_CONFIG_REPLAY, HCAN_HES_POWER_GROUP_STATE_REPLAY, HCAN_HES_POWER_GROUP_STATE_INFO,
       HCAN_HES_ROLLADEN_CONFIG_REPLAY, HCAN_HES_ROLLADEN_POSITION_REPLAY, HCAN_HES_ROLLADEN_POSITION_CHANGED_INFO,
       HCAN_HES_1WIRE_TEMPERATURE_CONFIG_REPLAY, HCAN_HES_1WIRE_TEMPERATURE, HCAN_HES_1WIRE_TEMPERATURE_REPLAY,
       HCAN_HES_REEDKONTAKT_CONFIG_REPLAY, HCAN_HES_REEDKONTAKT_STATE_REPLAY, HCAN_HES_REEDKONTAKT_STATE_CHANGE,
       HCAN_HES_HEIZUNG_CONFIG_REPLAY, HCAN_HES_HEIZUNG_MODE_OFF_DETAILS, HCAN_HES_HEIZUNG_MODE_MANUAL_DETAILS,
       HCAN_HES_HEIZUNG_MODE_THERMOSTAT_DETAILS, HCAN_HES_HEIZUNG_MODE_AUTOMATIK_DETAILS, HCAN_HES_HEIZUNG_TIST_REPLAY}"

definition msgOfInterest4broker :: "can_frame \<Rightarrow> bool" where
  "msgOfInterest4broker cf \<longleftrightarrow>
     \<not> unat (can_dlc cf) < 2 \<and> get_proto (can_id cf) = 1 \<and> cf_data cf ! 0 = 5 \<and> isItTopic4Broker (cf_data cf ! 1)"

definition dev_topic :: "dev_kind \<Rightarrow> u8 \<Rightarrow> (config_topic \<Rightarrow> string) \<Rightarrow> mqtt \<Rightarrow> string" where
  "dev_topic d i part s = TildeOhneId (strDateiEintrag s d) @ ''/'' @ show_nat (unat i) @ part (strDateiEintrag s d)"

text \<open>A value in sixteenths of a degree.\<close>

definition sixteenths :: "u8 \<Rightarrow> u8 \<Rightarrow> rat" where
  "sixteenths hi lo = of_nat (unat hi * 256 + unat lo) / 16"

definition in_quotes :: "string \<Rightarrow> string" where
  "in_quotes t = CHR 0x22 # t @ [CHR 0x22]"

definition json_field :: "string \<Rightarrow> string \<Rightarrow> string" where
  "json_field k v = in_quotes k @ '':'' @ v"

definition climate_payload :: "nat \<Rightarrow> hcan_installation \<Rightarrow> string" where
  "climate_payload n d =
     ''{'' @ json_field ''mode'' (in_quotes (ha_mode d)) @ '', '' @ json_field ''target_temp'' (in_quotes (show_fixed n (tSoll d))) @ '', '' @
     json_field ''current_temp'' (in_quotes (show_fixed 1 (tIst d))) @ ''}''"

definition update_dev :: "u8 \<Rightarrow> (hcan_installation \<Rightarrow> hcan_installation) \<Rightarrow> mqtt \<Rightarrow> mqtt mq" where
  "update_dev i f s = bindr (the_dev i s) (\<lambda>d. set_dev i (f d) s)"

text \<open>The state of a radiator: its device is changed, then topic and payload are made.\<close>

definition climate_state ::
  "u8 \<Rightarrow> (hcan_installation \<Rightarrow> hcan_installation) \<Rightarrow> (hcan_installation \<Rightarrow> string) \<Rightarrow> mqtt \<Rightarrow> ((string \<times> string) option \<times> mqtt) mq" where
  "climate_state i f payload s =
     bindr (update_dev i f s) (\<lambda>s. bindr (the_dev i s) (\<lambda>d. Inr (Some (dev_topic EClimate i stat_t s, payload d), s)))"

definition temperature_message ::
  "nat \<Rightarrow> xml_node list \<Rightarrow> 'j json_c \<Rightarrow> u8 list \<Rightarrow> mqtt \<Rightarrow> ((string \<times> string) option \<times> mqtt) mq" where
  "temperature_message debug xml jc bs s =
     (let i = bs ! 2 in
      bindr (the_dev i s) (\<lambda>d.
        if HeizkoerperId d = 255 \<and> \<not> UIelement d
        then bindr (set_dev i (d\<lparr>UIelement := True\<rparr>) s) (erzeugeConfigTopicUndPayload debug xml jc ETempsensor i)
        else let t = sixteenths (bs ! 3) (bs ! 4) in
             bindr (set_dev i (d\<lparr>tIst := t\<rparr>) s) (\<lambda>s.
               if HeizkoerperId d = 255
               then Inr (Some (dev_topic ETempsensor i stat_t s, ''{'' @ in_quotes ''temperature'' @ '': '' @ show_fixed 1 t @ ''}''), s)
               else climate_state (HeizkoerperId d) (\<lambda>h. h\<lparr>tIst := t\<rparr>) (climate_payload 2) s)))"

definition cover_payload :: "u8 \<Rightarrow> string" where
  "cover_payload p =
     (if p = 200 then ''closing'' else if p = 201 then ''opening'' else if p = 202 then ''stopped''
      else if p = 100 then ''open'' else ''closed'')"

definition catHesTopic4Broker ::
  "nat \<Rightarrow> xml_node list \<Rightarrow> 'j json_c \<Rightarrow> u8 list \<Rightarrow> mqtt \<Rightarrow> ((string \<times> string) option \<times> mqtt) mq" where
  "catHesTopic4Broker debug xml jc bs s =
     (let m = bs ! 1; i = bs ! 2 in
      if \<not> HaOnline s then Inr (None, s)
      else if m = HCAN_HES_POWER_GROUP_CONFIG_REPLAY then erzeugeConfigTopicUndPayload debug xml jc ELight i s
      else if m = HCAN_HES_POWER_GROUP_STATE_REPLAY \<or> m = HCAN_HES_POWER_GROUP_STATE_INFO
      then bindr (the_dev i s) (\<lambda>d.
        Inr (Some (dev_topic (if sonstige d then ESwitch else ELight) i stat_t s, if bs ! 3 \<noteq> 0 then ''ON'' else ''OFF''), s))
      else if m = HCAN_HES_1WIRE_TEMPERATURE_CONFIG_REPLAY then Inr (None, s)
      else if m = HCAN_HES_1WIRE_TEMPERATURE \<or> m = HCAN_HES_1WIRE_TEMPERATURE_REPLAY then temperature_message debug xml jc bs s
      else if m = HCAN_HES_REEDKONTAKT_CONFIG_REPLAY then erzeugeConfigTopicUndPayload debug xml jc EReedkontakt i s
      else if m = HCAN_HES_REEDKONTAKT_STATE_REPLAY \<or> m = HCAN_HES_REEDKONTAKT_STATE_CHANGE
      then Inr (Some (dev_topic EReedkontakt i stat_t s, if bs ! 3 \<noteq> 0 then ''OPEN'' else ''CLOSE''), s)
      else if m = HCAN_HES_HEIZUNG_CONFIG_REPLAY
      then bindr (update_dev (bs ! 3) (\<lambda>d. d\<lparr>HeizkoerperId := i\<rparr>) s) (erzeugeConfigTopicUndPayload debug xml jc EClimate i)
      else if m = HCAN_HES_HEIZUNG_MODE_OFF_DETAILS
      then climate_state i (\<lambda>d. d\<lparr>ha_mode := ''off''\<rparr>) (\<lambda>d. ''{'' @ json_field ''mode'' (in_quotes (ha_mode d)) @ ''}'') s
      else if m = HCAN_HES_HEIZUNG_MODE_THERMOSTAT_DETAILS
      then let t = sixteenths (bs ! 3) (bs ! 4) in
           climate_state i (\<lambda>d. d\<lparr>tSoll := t, ha_mode := (if t > 10 then ''heat'' else ''cool'')\<rparr>) (climate_payload 2) s
      else if m = HCAN_HES_HEIZUNG_MODE_AUTOMATIK_DETAILS
      then climate_state i (\<lambda>d. d\<lparr>tSoll := sixteenths (bs ! 3) (bs ! 4), tIst := sixteenths (bs ! 6) (bs ! 7), ha_mode := ''auto''\<rparr>)
             (climate_payload 1) s
      else if m = HCAN_HES_HEIZUNG_TIST_REPLAY
      then climate_state i (\<lambda>d. d\<lparr>tIst := sixteenths (bs ! 3) (bs ! 4)\<rparr>) (climate_payload 2) s
      else if m = HCAN_HES_ROLLADEN_CONFIG_REPLAY then erzeugeConfigTopicUndPayload debug xml jc ECover i s
      else if m = HCAN_HES_ROLLADEN_POSITION_REPLAY \<or> m = HCAN_HES_ROLLADEN_POSITION_CHANGED_INFO
      then Inr (Some (if pos_t (strDateiEintrag s ECover) \<noteq> []
                      then (dev_topic ECover i pos_t s, ''{'' @ in_quotes ''position'' @ '': '' @ show_nat (unat (bs ! 3)) @ ''}'')
                      else (dev_topic ECover i stat_t s, cover_payload (bs ! 3))), s)
      else Inr (None, s))"

section \<open>The main loop\<close>

text \<open>
  The rings are those of the gateway; a ring entry for the bus is changed in place, so that bytes
  behind the message stay from the one before.
\<close>

record bridge =
  mq :: mqtt
  canRxBuf :: "can_frame list"
  mqttRxBuf :: "can_frame list"
  canRxWIdx :: u8
  canRxRIdx :: u8
  mqttBufWIdx :: u8
  mqttBufRIdx :: u8
  HaOnlineStateChanged :: bool
  timeoutSecsHaOnline :: int
  timeoutSecsRQS :: int
  RQSmsgSent :: bool

definition completeMsg4cb :: "nat \<Rightarrow> u8 list \<Rightarrow> bridge \<Rightarrow> bridge" where
  "completeMsg4cb msgLen bs b =
     b\<lparr>mqttRxBuf := (mqttRxBuf b)[unat (mqttBufWIdx b) :=
         \<lparr>can_id = (0x108DFD AND CAN_EFF_MASK) OR CAN_EFF_FLAG, can_dlc = of_nat msgLen, cf_data = bs[0 := 5]\<rparr>],
       mqttBufWIdx := (mqttBufWIdx b + 1) AND (BUFFERSIZE - 1)\<rparr>"

text \<open>The requests of the main loop; the parts of a request are those between slashes.\<close>

definition strtok_slash :: "string \<Rightarrow> string \<times> string" where
  "strtok_slash t = (let t = dropWhile (\<lambda>c. c = CHR ''/'') t
     in (takeWhile (\<lambda>c. c \<noteq> CHR ''/'') t, drop 1 (dropWhile (\<lambda>c. c \<noteq> CHR ''/'') t)))"

definition prepareReqMsg4cb :: "string \<Rightarrow> u8 list \<Rightarrow> int \<times> u8 list" where
  "prepareReqMsg4cb msg bs =
     (let (token, rest) = strtok_slash msg in
      if token = [] then (0, bs)
      else if is_prefix token ''RQC'' then (2, bs[1 := HCAN_HES_DEVICES_CONFIGS_REQUEST])
      else if is_prefix token ''RQS'' then (2, bs[1 := HCAN_HES_DEVICE_STATES_REQUEST])
      else if is_prefix token ''RQH''
      then (let (token, rest) = strtok_slash rest in
            if token = [] then (-19, bs) else (3, bs[2 := word_of_int (fst (strtol token)), 1 := HCAN_HES_HEIZUNG_DETAILS_REQUEST]))
      else (0, bs))"

definition createReqMsg4cb :: "string \<Rightarrow> bridge \<Rightarrow> bridge" where
  "createReqMsg4cb msg b =
     (let i = unat (mqttBufWIdx b); (n, bs) = prepareReqMsg4cb msg (cf_data (mqttRxBuf b ! i)) in
      if n > 0 then completeMsg4cb (nat n) bs b
      else b\<lparr>mqttRxBuf := (mqttRxBuf b)[i := (mqttRxBuf b ! i)\<lparr>cf_data := bs\<rparr>]\<rparr>)"

text \<open>Before each wait: what is asked of the bus once the server is there, and when it is taken to be there.\<close>

definition online_step :: "int \<Rightarrow> bridge \<Rightarrow> bridge" where
  "online_step now b =
     (if HaOnline (mq b)
      then (if HaOnlineStateChanged b
            then (createReqMsg4cb ''RQC'' b)\<lparr>timeoutSecsRQS := 120 + now, RQSmsgSent := False, HaOnlineStateChanged := False\<rparr>
            else if \<not> RQSmsgSent b \<and> now > timeoutSecsRQS b
            then (createReqMsg4cb ''RQS'' b)\<lparr>RQSmsgSent := True\<rparr>
            else b)
      else (if HaOnlineStateChanged b then b\<lparr>timeoutSecsHaOnline := 600 + now, HaOnlineStateChanged := False\<rparr>
            else if now > timeoutSecsHaOnline b then b\<lparr>mq := (mq b)\<lparr>HaOnline := True\<rparr>, HaOnlineStateChanged := True\<rparr>
            else b))"

definition bridge_rx_bus :: "can_frame \<Rightarrow> bridge \<Rightarrow> bridge mq" where
  "bridge_rx_bus f b =
     (if (canRxWIdx b + 1) AND (BUFFERSIZE - 1) = canRxRIdx b then Inr b
      else if msgOfInterest4broker f
      then let i = unat (canRxWIdx b); n = unat (can_dlc f) in
           if n > 8 then Inl Mq_Bounds
           else Inr (b\<lparr>canRxBuf := (canRxBuf b)[i := \<lparr>can_id = can_id f AND CAN_EFF_MASK, can_dlc = can_dlc f,
                         cf_data = take n (cf_data f) @ drop n (cf_data (canRxBuf b ! i))\<rparr>],
                       canRxWIdx := (canRxWIdx b + 1) AND (BUFFERSIZE - 1)\<rparr>)
      else Inr b)"

text \<open>
  A message of the broker that was published to a topic the bridge has subscribed. A topic without a
  message for the bus gives the result 0, with which the main loop closes the connection and opens it
  again: the first component.
\<close>

definition rxFromBroker :: "(string \<Rightarrow> rat) \<Rightarrow> string \<Rightarrow> string \<Rightarrow> bridge \<Rightarrow> (bool \<times> bridge) mq" where
  "rxFromBroker atof topic payload b =
     (if (mqttBufWIdx b + 1) AND (BUFFERSIZE - 1) = mqttBufRIdx b \<or> payload = [] then Inr (False, b)
      else if is_prefix (topic @ payload) ''homeassistant/status''
      then Inr (False, b\<lparr>mq := (mq b)\<lparr>HaOnline := is_prefix payload ''online''\<rparr>, HaOnlineStateChanged := True\<rparr>)
      else let i = unat (mqttBufWIdx b) in
        bindr (prepareMsg4cb atof (topic @ payload) payload (cf_data (mqttRxBuf b ! i)) (mq b)) (\<lambda>(n, bs, s).
          if n > 0 then Inr (False, completeMsg4cb n bs (b\<lparr>mq := s\<rparr>))
          else Inr (True, b\<lparr>mq := s, mqttRxBuf := (mqttRxBuf b)[i := (mqttRxBuf b ! i)\<lparr>cf_data := bs\<rparr>]\<rparr>)))"

definition tx2broker ::
  "nat \<Rightarrow> xml_node list \<Rightarrow> 'j json_c \<Rightarrow> bridge \<Rightarrow> (bridge \<times> (string \<times> string) list) mq" where
  "tx2broker debug xml jc b =
     (if canRxWIdx b \<noteq> canRxRIdx b
      then bindr (catHesTopic4Broker debug xml jc (cf_data (canRxBuf b ! unat (canRxRIdx b))) (mq b)) (\<lambda>(r, s).
        Inr (b\<lparr>mq := s, canRxRIdx := (canRxRIdx b + 1) AND (BUFFERSIZE - 1)\<rparr>,
             case r of Some (t, p) \<Rightarrow> if p \<noteq> [] then [(t, p)] else [] | None \<Rightarrow> []))
      else Inr (b, []))"

definition tx2cb :: "bridge \<Rightarrow> bridge \<times> can_frame list" where
  "tx2cb b =
     (if mqttBufWIdx b \<noteq> mqttBufRIdx b
      then (b\<lparr>mqttBufRIdx := (mqttBufRIdx b + 1) AND (BUFFERSIZE - 1)\<rparr>, [mqttRxBuf b ! unat (mqttBufRIdx b)])
      else (b, []))"

text \<open>A round of the main loop: the clock, what the sockets have, and what is sent to each.\<close>

definition bridge_round ::
  "nat \<Rightarrow> xml_node list \<Rightarrow> 'j json_c \<Rightarrow> (string \<Rightarrow> rat) \<Rightarrow> int \<Rightarrow> can_frame option \<Rightarrow> (string \<times> string) option \<Rightarrow> bridge \<Rightarrow>
   (bridge \<times> bool \<times> (string \<times> string) list \<times> can_frame list) mq" where
  "bridge_round debug xml jc atof now bus broker b =
     (let b = online_step now b in
      bindr (case bus of None \<Rightarrow> Inr b | Some f \<Rightarrow> bridge_rx_bus f b) (\<lambda>b.
      bindr (case broker of None \<Rightarrow> Inr (False, b) | Some (t, p) \<Rightarrow> rxFromBroker atof t p b) (\<lambda>(again, b).
      bindr (tx2broker debug xml jc b) (\<lambda>(b, pubs).
      let (b, frames) = tx2cb b in Inr (b, again, pubs, frames)))))"

section \<open>The topics of the files that come with the program\<close>

text \<open>\<^verbatim>\<open>light_config.json\<close> and its siblings.\<close>

fun shipped_topics :: "dev_kind \<Rightarrow> config_topic" where
  "shipped_topics ELight = \<lparr>TildeOhneId = ''hc/light'', stat_t = ''/-->/state'', cmd_t = ''/<--/set'', pos_t = [], set_pos_t = []\<rparr>"
| "shipped_topics ESwitch = \<lparr>TildeOhneId = ''hc/switch'', stat_t = ''/-->/state'', cmd_t = ''/<--/set'', pos_t = [], set_pos_t = []\<rparr>"
| "shipped_topics EClimate = \<lparr>TildeOhneId = ''hc/climate'', stat_t = ''/-->/state'', cmd_t = [], pos_t = [], set_pos_t = []\<rparr>"
| "shipped_topics ETempsensor = \<lparr>TildeOhneId = ''hc/sensor'', stat_t = ''/-->/state'', cmd_t = [], pos_t = [], set_pos_t = []\<rparr>"
| "shipped_topics EReedkontakt = \<lparr>TildeOhneId = ''hc/binary_sensor'', stat_t = ''/-->/state'', cmd_t = [], pos_t = [], set_pos_t = []\<rparr>"
| "shipped_topics ECover = \<lparr>TildeOhneId = ''hc/cover'', stat_t = ''/-->/state'', cmd_t = ''/<--/set'', pos_t = ''/-->/position'', set_pos_t = ''/<--/set_pos''\<rparr>"

definition shipped :: "mqtt \<Rightarrow> bool" where
  "shipped s \<longleftrightarrow> strDateiEintrag s = shipped_topics \<and> mode_cmd_t s = ''/<--/thermostatModeCmd'' \<and> temp_cmd_t s = ''/<--/targetTempCmd''"

text \<open>What the files say, as the library reads it.\<close>

fun shipped_file :: "dev_kind \<Rightarrow> (string \<times> string) list" where
  "shipped_file EClimate = [(''~'', ''hc/climate/id''), (''mode_stat_t'', ''~/-->/state''),
     (''mode_cmd_t'', ''~/<--/thermostatModeCmd''), (''temp_cmd_t'', ''~/<--/targetTempCmd'')]"
| "shipped_file ECover = [(''~'', ''hc/cover/id''), (''stat_t'', ''~/-->/state''), (''cmd_t'', ''~/<--/set''),
     (''pos_t'', ''~/-->/position''), (''set_pos_t'', ''~/<--/set_pos'')]"
| "shipped_file ELight = [(''~'', ''hc/light/id''), (''stat_t'', ''~/-->/state''), (''cmd_t'', ''~/<--/set'')]"
| "shipped_file ESwitch = [(''~'', ''hc/switch/id''), (''stat_t'', ''~/-->/state''), (''cmd_t'', ''~/<--/set'')]"
| "shipped_file ETempsensor = [(''~'', ''hc/sensor/id''), (''stat_t'', ''~/-->/state'')]"
| "shipped_file EReedkontakt = [(''~'', ''hc/binary_sensor/id''), (''stat_t'', ''~/-->/state'')]"

lemma size_t_diff_nat: "b \<le> a \<Longrightarrow> a < 2 ^ 64 \<Longrightarrow> size_t_diff a b = a - b"
proof -
  assume "b \<le> a" "a < 2 ^ 64"
  then have "(of_nat a :: 64 word) - of_nat b = of_nat (a - b)" by (simp add: of_nat_diff)
  then show ?thesis using \<open>a < 2 ^ 64\<close> by (simp add: size_t_diff_def unat_of_nat take_bit_nat_eq_self)
qed

lemmas string_simps = is_prefix_def isEq_def strn_eq_def strnlen_def

lemma entries_of_shipped_file:
  assumes "\<forall>(k, v) \<in> set (shipped_file d). j_get_string jc j k = Some v"
    and "strDateiEintrag s d = \<lparr>TildeOhneId = [], stat_t = [], cmd_t = [], pos_t = [], set_pos_t = []\<rparr>"
  shows "hole_entries jc j d s = Inr (set_entry d (\<lambda>_. shipped_topics d)
    (if d = EClimate then s\<lparr>mode_cmd_t := ''/<--/thermostatModeCmd'', temp_cmd_t := ''/<--/targetTempCmd''\<rparr> else s))"
  using assms
  by (cases d) (simp_all add: hole_entries_def holeConfigDateiEintrag_def holeConfigDateiEintragClimate_def get_entry_def
    copy_entry_def set_entry_def size_t_diff_nat string_simps)

section \<open>Orders\<close>

lemma strtol_digits:
  assumes "n < 2 ^ 63" and "r = [] \<or> \<not> cxx_isdigit (hd r)"
  shows "strtol (dec_digits n @ r) = (int n, r)"
proof -
  have h: "cxx_isdigit (hd (dec_digits n @ r))" using hd_dec_digits by simp
  then have d: "dropWhile cxx_isspace (dec_digits n @ r) = dec_digits n @ r"
    by (intro dropWhile_none) (simp add: digit_no_space)
  have s: "hd (dec_digits n @ r) \<noteq> CHR ''-''" "hd (dec_digits n @ r) \<noteq> CHR ''+''"
    using h by (auto simp: cxx_isdigit_def)
  have "takeWhile cxx_isdigit r = []" "dropWhile cxx_isdigit r = r" using assms(2) by (cases r; auto)+
  then have t: "takeWhile cxx_isdigit (dec_digits n @ r) = dec_digits n" "dropWhile cxx_isdigit (dec_digits n @ r) = r"
    using dec_digits_digits by (simp_all add: takeWhile_all_then dropWhile_all_then)
  have "int n \<le> 2 ^ 63 - 1" using assms(1) by simp
  then show ?thesis unfolding strtol_def Let_def d using s t by simp
qed

text \<open>What a server can ask a device for, with the payloads it sends.\<close>

datatype ha_order = Switch_To bool | Cover_Open | Cover_Close | Cover_Stop | Cover_To nat
  | Climate_Off | Climate_Auto | Climate_Heat | Climate_Cool | Climate_Target string

fun order_kinds :: "ha_order \<Rightarrow> dev_kind set" where
  "order_kinds (Switch_To on) = {ELight, ESwitch}"
| "order_kinds Cover_Open = {ECover}"
| "order_kinds Cover_Close = {ECover}"
| "order_kinds Cover_Stop = {ECover}"
| "order_kinds (Cover_To p) = {ECover}"
| "order_kinds _ = {EClimate}"

fun order_part :: "ha_order \<Rightarrow> string" where
  "order_part (Switch_To on) = ''/<--/set''"
| "order_part Cover_Open = ''/<--/set''"
| "order_part Cover_Close = ''/<--/set''"
| "order_part Cover_Stop = ''/<--/set''"
| "order_part (Cover_To p) = ''/<--/set_pos''"
| "order_part (Climate_Target t) = ''/<--/targetTempCmd''"
| "order_part _ = ''/<--/thermostatModeCmd''"

fun order_payload :: "ha_order \<Rightarrow> string" where
  "order_payload (Switch_To on) = (if on then ''ON'' else ''OFF'')"
| "order_payload Cover_Open = ''OPEN''"
| "order_payload Cover_Close = ''CLOSE''"
| "order_payload Cover_Stop = ''STOP''"
| "order_payload (Cover_To p) = show_nat p"
| "order_payload Climate_Off = ''off''"
| "order_payload Climate_Auto = ''auto''"
| "order_payload Climate_Heat = ''heat''"
| "order_payload Climate_Cool = ''cool''"
| "order_payload (Climate_Target t) = t"

text \<open>The message: the command, the group and what belongs to it.\<close>

fun order_bytes :: "(string \<Rightarrow> rat) \<Rightarrow> u8 \<Rightarrow> ha_order \<Rightarrow> u8 list" where
  "order_bytes atof i (Switch_To on) = [if on then HCAN_HES_POWER_GROUP_ON else HCAN_HES_POWER_GROUP_OFF, i]"
| "order_bytes atof i Cover_Open = [HCAN_HES_ROLLADEN_POSITION_SET, i, 201]"
| "order_bytes atof i Cover_Close = [HCAN_HES_ROLLADEN_POSITION_SET, i, 200]"
| "order_bytes atof i Cover_Stop = [HCAN_HES_ROLLADEN_POSITION_SET, i, 202]"
| "order_bytes atof i (Cover_To p) = [HCAN_HES_ROLLADEN_POSITION_SET, i, of_nat p]"
| "order_bytes atof i Climate_Off = [HCAN_HES_HEIZUNG_SET_MODE_OFF, i]"
| "order_bytes atof i Climate_Auto = [HCAN_HES_HEIZUNG_SET_MODE_AUTOMATIK, i]"
| "order_bytes atof i Climate_Heat = [HCAN_HES_HEIZUNG_SET_MODE_THERMOSTAT_DETAILS, i, hi8 312, lo8 312, hi8 10800, lo8 10800]"
| "order_bytes atof i Climate_Cool = [HCAN_HES_HEIZUNG_SET_MODE_THERMOSTAT_DETAILS, i, hi8 160, lo8 160, 0, 0]"
| "order_bytes atof i (Climate_Target t) = [HCAN_HES_HEIZUNG_SET_MODE_THERMOSTAT_DETAILS, i,
     hi8 (word_of_int (floor (16 * atof t))), lo8 (word_of_int (floor (16 * atof t))), hi8 10800, lo8 10800]"

fun order_ok :: "(string \<Rightarrow> rat) \<Rightarrow> ha_order \<Rightarrow> bool" where
  "order_ok atof (Cover_To p) \<longleftrightarrow> p \<le> 100"
| "order_ok atof (Climate_Target t) \<longleftrightarrow> t \<noteq> [] \<and> length t \<le> 8 \<and> CHR 0x00 \<notin> set t \<and> 0 \<le> atof t \<and> atof t < 4096"
| "order_ok atof _ \<longleftrightarrow> True"

definition order_topic :: "dev_kind \<Rightarrow> u8 \<Rightarrow> ha_order \<Rightarrow> string" where
  "order_topic d i x = TildeOhneId (shipped_topics d) @ ''/'' @ show_nat (unat i) @ order_part x"

lemma small_id: "unat (i :: u8) < 2 ^ 63"
proof -
  have "unat i < 2 ^ LENGTH(8)" by (rule unsigned_less)
  then show ?thesis by (rule less_trans) simp
qed

text \<open>How the topic of an order is taken apart: the number, and the part with the payload.\<close>

lemma strtol_part:
  "strtol (dec_digits (unat (i :: u8)) @ CHR ''/'' # r) = (int (unat i), CHR ''/'' # r)"
  by (rule strtol_digits [OF small_id]) (simp add: cxx_isdigit_def)

lemmas prepare_simps = prepareMsg4cb_def shipped_def order_topic_def string_simps strtol_part show_nat_def size_t_diff_nat
  simple_dev_msg_def setClimateCanMsg_def set_tsoll_def the_dev_def set_dev_def float_u16_def temp_bytes_def

text \<open>The target temperature an order sets, and the state with it.\<close>

fun order_target :: "(string \<Rightarrow> rat) \<Rightarrow> ha_order \<Rightarrow> rat option" where
  "order_target atof Climate_Heat = Some (39 / 2)"
| "order_target atof Climate_Cool = Some 10"
| "order_target atof (Climate_Target t) = Some (atof t)"
| "order_target atof _ = None"

definition with_target :: "rat option \<Rightarrow> u8 \<Rightarrow> mqtt \<Rightarrow> mqtt" where
  "with_target t i s =
     (case t of None \<Rightarrow> s | Some t \<Rightarrow> s\<lparr>dev := (dev s)[unat i := (dev s ! unat i)\<lparr>tSoll := t\<rparr>]\<rparr>)"

definition prepares :: "(string \<Rightarrow> rat) \<Rightarrow> dev_kind \<Rightarrow> u8 \<Rightarrow> ha_order \<Rightarrow> u8 list \<Rightarrow> mqtt \<Rightarrow> bool" where
  "prepares atof d i x bs s \<longleftrightarrow>
     (\<exists>n bs' s'. prepareMsg4cb atof (order_topic d i x @ order_payload x) (order_payload x) bs s = Inr (n, bs', s') \<and> 0 < n \<and>
        length bs' = 8 \<and> take n (bs'[0 := HCAN_SRV_HES]) = HCAN_SRV_HES # order_bytes atof i x \<and> n = Suc (length (order_bytes atof i x)) \<and>
        shipped s' \<and> HaOnline s' = HaOnline s \<and> length (dev s') = length (dev s) \<and> map sonstige (dev s') = map sonstige (dev s) \<and>
        s' = with_target (order_target atof x) i s)"

lemma eight_bytes: "length bs = 8 \<longleftrightarrow> (\<exists>a b c d e f g h. bs = [a, b, c, d, e, f, g, h])"
  by (auto simp: length_Suc_conv eval_nat_numeral)

lemma prepares_switch:
  assumes "shipped s" and "d \<in> {ELight, ESwitch}" and "length bs = 8"
  shows "prepares atof d i (Switch_To on) bs s"
proof -
  obtain a b c d' e f g h where bs: "bs = [a, b, c, d', e, f, g, h]" using assms(3) unfolding eight_bytes by blast
  have "d = ELight \<or> d = ESwitch" using assms(2) by simp
  then show ?thesis
    using assms(1) unfolding prepares_def bs by (cases on; elim disjE) (simp_all add: with_target_def prepare_simps)
qed

lemma prepares_cover:
  assumes "shipped s" and "length bs = 8" and "x \<in> {Cover_Open, Cover_Close, Cover_Stop}"
  shows "prepares atof ECover i x bs s"
  using assms unfolding prepares_def eight_bytes by (auto simp: with_target_def prepare_simps)

lemma short_dec_digits: "n < 1000 \<Longrightarrow> length (dec_digits n) \<le> 3"
proof -
  have 1: "length (dec_digits m) = 1" if "m < 10" for m using that by (subst dec_digits.simps) simp
  have r: "length (dec_digits m) = Suc (length (dec_digits (m div 10)))" if "\<not> m < 10" for m
    using that by (subst dec_digits.simps) simp
  have 2: "length (dec_digits m) \<le> 2" if "m < 100" for m
    using 1 [of m] 1 [of "m div 10"] r [of m] that by (cases "m < 10") simp_all
  assume "n < 1000"
  then show ?thesis using 1 [of n] 2 [of "n div 10"] r [of n] by (cases "n < 10") simp_all
qed

lemma prepares_cover_to:
  assumes "shipped s" and "length bs = 8" and "p \<le> 100"
  shows "prepares atof ECover i (Cover_To p) bs s"
proof -
  have l: "length (dec_digits p) \<le> 3" by (rule short_dec_digits) (use assms(3) in simp)
  have v: "strtol (dec_digits p) = (int p, [])" using strtol_digits [of p "[]"] assms(3) by simp
  show ?thesis
    using assms l unfolding prepares_def eight_bytes by (auto simp: with_target_def prepare_simps v)
qed

lemma same_sonstige: "i < length ds \<Longrightarrow> (map sonstige ds)[i := sonstige (ds ! i)] = map sonstige ds"
  by (metis list_update_id nth_map)

lemma prepares_climate:
  assumes "shipped s" and "length bs = 8" and "unat i < length (dev s)" and "x \<in> {Climate_Off, Climate_Auto, Climate_Heat, Climate_Cool}"
  shows "prepares atof EClimate i x bs s"
  using assms unfolding prepares_def eight_bytes
  by (auto simp: with_target_def prepare_simps map_update same_sonstige hi8_def lo8_def)

lemma prepares_target:
  assumes "shipped s" and "length bs = 8" and "unat i < length (dev s)" and "order_ok atof (Climate_Target t)"
  shows "prepares atof EClimate i (Climate_Target t) bs s"
proof -
  have "floor (16 * atof t) < 65536" "0 \<le> floor (16 * atof t)" "\<not> 16 * atof t < 0"
    using assms(4) by (simp_all add: floor_less_iff)
  then show ?thesis
    using assms unfolding prepares_def eight_bytes
    by (auto simp: with_target_def prepare_simps map_update same_sonstige Let_def)
qed

lemma prepares_order:
  assumes "shipped s" and "d \<in> order_kinds x" and "order_ok atof x" and "length bs = 8" and "unat i < length (dev s)"
  shows "prepares atof d i x bs s"
  using assms prepares_switch [OF assms(1) _ assms(4)] prepares_cover [OF assms(1,4)] prepares_cover_to [OF assms(1,4)]
    prepares_climate [OF assms(1,4,5)] prepares_target [OF assms(1,4,5)]
  by (cases x) auto

text \<open>
  Property C21. Orders of the server become the messages for the bus: with the topics of the
  files that come with the program, an order for a device of its kind, whatever its number below 255, gives the
  message with exactly the command, the group and the values of the order. Nothing of the state changes but
  the target temperature kept for a radiator, when the order sets one.
\<close>

theorem orders_become_messages:
  assumes "shipped s" and "d \<in> order_kinds x" and "order_ok atof x" and "length bs = 8" and "unat i < length (dev s)"
  shows "\<exists>n bs' s'. prepareMsg4cb atof (order_topic d i x @ order_payload x) (order_payload x) bs s = Inr (n, bs', s') \<and>
    take n (bs'[0 := HCAN_SRV_HES]) = HCAN_SRV_HES # order_bytes atof i x \<and>
    s' = with_target (order_target atof x) i s"
  using prepares_order [OF assms] unfolding prepares_def by metis

definition example_device :: hcan_installation where
  "example_device = \<lparr>sonstige = False, Bereichsname = ''EG'', UIelement = False, HeizkoerperId = 255, tIst = 20, tSoll = 10, ha_mode = ''off''\<rparr>"

definition example_mqtt :: mqtt where
  "example_mqtt = \<lparr>strDateiEintrag = shipped_topics, mode_cmd_t = ''/<--/thermostatModeCmd'', temp_cmd_t = ''/<--/targetTempCmd'',
     dev = replicate anzIds example_device, stt = [], HaOnline = True\<rparr>"

theorem orders_become_messages_witness:
  "\<exists>n bs' s'. prepareMsg4cb (\<lambda>_. 0) (order_topic ECover 7 (Cover_To 40) @ order_payload (Cover_To 40)) (order_payload (Cover_To 40))
     (replicate 8 0) example_mqtt = Inr (n, bs', s') \<and>
   take n (bs'[0 := HCAN_SRV_HES]) = [HCAN_SRV_HES, HCAN_HES_ROLLADEN_POSITION_SET, 7, 40]"
proof -
  have "shipped example_mqtt" "ECover \<in> order_kinds (Cover_To 40)" "order_ok (\<lambda>_. 0) (Cover_To 40)" "length (replicate 8 (0 :: u8)) = 8"
    "unat (7 :: u8) < length (dev example_mqtt)"
    by (simp_all add: shipped_def example_mqtt_def)
  from orders_become_messages [OF this] show ?thesis by auto
qed

text \<open>A topic without a message: the connection to the broker is closed, and the bytes of the ring are changed all the same.\<close>

lemma unknown_topic_reconnects:
  assumes "prepareMsg4cb atof (topic @ payload) payload (cf_data (mqttRxBuf b ! unat (mqttBufWIdx b))) (mq b) = Inr (0, bs, s)"
    and "payload \<noteq> []" and "\<not> is_prefix (topic @ payload) ''homeassistant/status''" and "(mqttBufWIdx b + 1) AND 15 \<noteq> mqttBufRIdx b"
  shows "\<exists>b'. rxFromBroker atof topic payload b = Inr (True, b')"
  using assms by (simp add: rxFromBroker_def Let_def)

end
