(* ===== verification/Home_Server.thy ===== *)
theory Home_Server
  imports House Mqtt_Bridge
begin

text \<open>
  The home automation server and an output: an order goes through the bridge to the bus, the
  output switches and says so, and the bridge tells the server what it said.
\<close>

unbundle bit_operations_syntax

section \<open>The bridge at rest\<close>

text \<open>Nothing waits in the rings, and the bytes of every entry are eight.\<close>

definition bridge_idle :: "bridge \<Rightarrow> bool" where
  "bridge_idle b \<longleftrightarrow> ring (mqttRxBuf b) (mqttBufWIdx b) (mqttBufRIdx b) \<and> mqttBufWIdx b = mqttBufRIdx b \<and>
     ring (canRxBuf b) (canRxWIdx b) (canRxRIdx b) \<and> canRxWIdx b = canRxRIdx b \<and>
     (\<forall>f \<in> set (mqttRxBuf b). length (cf_data f) = 8)"

text \<open>How a board's frame arrives at the bridge's socket.\<close>

definition from_board :: "u8 \<Rightarrow> canix_frame \<Rightarrow> can_frame" where
  "from_board prio f = \<lparr>can_id = take_bit 29 (extid_of f prio) OR CAN_EFF_FLAG, can_dlc = of_nat (length (data f)),
     cf_data = data f @ replicate (8 - length (data f)) 0\<rparr>"

lemma next_slot: "unat (w :: u8) < 16 \<Longrightarrow> (w + 1) AND 15 \<noteq> w"
proof
  assume "unat w < 16" "(w + 1) AND 15 = w"
  then have "unat w = (unat w + 1) mod 16" using unat_ring_step [of w] by simp
  then show False using \<open>unat w < 16\<close> by (cases "unat w = 15") simp_all
qed

lemma order_strings:
  "order_ok atof x \<Longrightarrow> order_payload x \<noteq> []" "\<not> is_prefix (order_topic d i x @ p) ''homeassistant/status''"
proof -
  show "order_ok atof x \<Longrightarrow> order_payload x \<noteq> []" by (cases x) (simp_all add: show_nat_def)
  show "\<not> is_prefix (order_topic d i x @ p) ''homeassistant/status''" by (cases d) (simp_all add: order_topic_def string_simps)
qed

lemma order_bytes_length: "length (order_bytes atof i x) \<le> 6"
  by (cases x) simp_all

lemma bridge_address: "board_view ((0x108DFD AND CAN_EFF_MASK) OR CAN_EFF_FLAG, Suc (length bs), HCAN_SRV_HES # bs) =
    hes_message 509 HCAN_MULTICAST_CONTROL bs"
  by (simp add: board_view_def frame_of_ext_def hes_message_def mk_frame_def)

lemma order_reaches_bus:
  assumes idle: "bridge_idle b" and s: "shipped (mq b)" and x: "d \<in> order_kinds x" "order_ok atof x" "unat i < length (dev (mq b))"
  obtains b1 b2 f where "rxFromBroker atof (order_topic d i x) (order_payload x) b = Inr (False, b1)" "tx2cb b1 = (b2, [f])"
    "board_view (can_wire f) = hes_message 509 HCAN_MULTICAST_CONTROL (order_bytes atof i x)"
    "bridge_idle b2" "shipped (mq b2)" "HaOnline (mq b2) = HaOnline (mq b)" "map sonstige (dev (mq b2)) = map sonstige (dev (mq b))"
proof -
  let ?w = "unat (mqttBufWIdx b)" and ?t = "order_topic d i x" and ?p = "order_payload x"
  have r: "ring (mqttRxBuf b) (mqttBufWIdx b) (mqttBufRIdx b)" and e: "mqttBufRIdx b = mqttBufWIdx b"
    and l8: "\<forall>f \<in> set (mqttRxBuf b). length (cf_data f) = 8" and c: "ring (canRxBuf b) (canRxWIdx b) (canRxRIdx b)" "canRxWIdx b = canRxRIdx b"
    using idle unfolding bridge_idle_def by metis+
  have w: "?w < 16" "length (mqttRxBuf b) = 16" using r by (simp_all add: ring_def)
  then have "length (cf_data (mqttRxBuf b ! ?w)) = 8" using l8 by simp
  from prepares_order [OF s x(1,2) this x(3)] obtain n bs s' where p:
    "prepareMsg4cb atof (?t @ ?p) ?p (cf_data (mqttRxBuf b ! ?w)) (mq b) = Inr (n, bs, s')" "0 < n" "length bs = 8"
    "take n (bs[0 := HCAN_SRV_HES]) = HCAN_SRV_HES # order_bytes atof i x" "n = Suc (length (order_bytes atof i x))"
    "shipped s'" "HaOnline s' = HaOnline (mq b)" "map sonstige (dev s') = map sonstige (dev (mq b))"
    unfolding prepares_def by blast
  define b1 where "b1 = completeMsg4cb n bs (b\<lparr>mq := s'\<rparr>)"
  let ?f = "\<lparr>can_id = (0x108DFD AND CAN_EFF_MASK) OR CAN_EFF_FLAG, can_dlc = of_nat n, cf_data = bs[0 := HCAN_SRV_HES]\<rparr>"
  let ?b2 = "b1\<lparr>mqttBufRIdx := (mqttBufRIdx b1 + 1) AND 15\<rparr>"
  have 1: "rxFromBroker atof ?t ?p b = Inr (False, b1)"
    using order_strings(1) [OF x(2)] order_strings(2) [of d i x] next_slot [OF w(1)] p(1,2) by (simp add: rxFromBroker_def Let_def e b1_def)
  have 2: "tx2cb b1 = (?b2, [?f])"
    using next_slot [OF w(1)] w by (simp add: tx2cb_def b1_def completeMsg4cb_def e)
  have "n < 256" using order_bytes_length [of atof i x] p(5) by simp
  then have "unat (of_nat n :: u8) = n" by (rule unat_of_nat_u8)
  then have 3: "board_view (can_wire ?f) = hes_message 509 HCAN_MULTICAST_CONTROL (order_bytes atof i x)"
    using bridge_address [of "order_bytes atof i x"] p(4,5) by (simp add: can_wire_def)
  have "\<forall>f \<in> set ((mqttRxBuf b)[?w := ?f]). length (cf_data f) = 8"
    using l8 p(3) set_update_subset_insert [of "mqttRxBuf b" ?w ?f] by auto
  then have 4: "bridge_idle ?b2"
    using r c ring_step(1) [OF r] by (simp add: bridge_idle_def b1_def completeMsg4cb_def e ring_def unat_ring_step)
  show ?thesis by (rule that [OF 1 2 3 4]) (simp_all add: b1_def completeMsg4cb_def p(6-8))
qed

text \<open>What a board says reaches the server's broker.\<close>

lemma from_board_proto:
  assumes "unat (src f) < 1024" and "unat (dst f) < 1024" and "unat (proto f) < 8"
  shows "get_proto (can_id (from_board prio f)) = proto f"
proof -
  have "proto (frame_of_ext (take_bit 29 (extid_of f prio)) 0 []) = proto f" using frame_of_extid [OF assms, of prio 0 "[]"] by simp
  then show ?thesis by (simp add: from_board_def get_proto_def frame_of_ext_def drop_bit_or word_ao_dist)
qed

lemma state_reaches_broker:
  assumes idle: "bridge_idle b" and on: "HaOnline (mq b)" and g: "unat g < length (dev (mq b))" and a: "unat self < 1024"
    and d: "d = (if sonstige (dev (mq b) ! unat g) then ESwitch else ELight)"
  shows "\<exists>b1 b2. bridge_rx_bus (from_board prio (hes_message self HCAN_MULTICAST_INFO [HCAN_HES_POWER_GROUP_STATE_INFO, g, v])) b = Inr b1 \<and>
    tx2broker debug xml jc b1 = Inr (b2, [(dev_topic d g stat_t (mq b), if v \<noteq> 0 then ''ON'' else ''OFF'')])"
proof -
  let ?f = "hes_message self HCAN_MULTICAST_INFO [HCAN_HES_POWER_GROUP_STATE_INFO, g, v]"
  let ?c = "from_board prio ?f"
  have r: "ring (canRxBuf b) (canRxWIdx b) (canRxRIdx b)" and e: "canRxRIdx b = canRxWIdx b"
    using idle unfolding bridge_idle_def by metis+
  have w: "unat (canRxWIdx b) < 16" "length (canRxBuf b) = 16" using r by (simp_all add: ring_def)
  have c: "can_dlc ?c = 4" "cf_data ?c = [HCAN_SRV_HES, HCAN_HES_POWER_GROUP_STATE_INFO, g, v, 0, 0, 0, 0]"
    by (simp_all add: from_board_def numeral_eq_Suc)
  have i: "msgOfInterest4broker ?c"
    using from_board_proto [of ?f prio] a by (simp add: msgOfInterest4broker_def c isItTopic4Broker_def)
  show ?thesis
    using next_slot [OF w(1)] w i on g
    by (simp add: bridge_rx_bus_def tx2broker_def Let_def c e catHesTopic4Broker_def the_dev_def d)
qed

section \<open>An order and its effect\<close>

lemma direct_output_says:
  assumes "direct_output c p" and "group_order f" and "is_in_group p (byte_at f 2)"
  shows "sent_frames (snd (powerport_can_callback self p f)) =
    [hes_message self HCAN_MULTICAST_INFO [HCAN_HES_POWER_GROUP_STATE_INFO, c_gruppe0 c, flag (byte_at f 1 = HCAN_HES_POWER_GROUP_ON)]]"
proof -
  have p: "device_data_powerport.config p = c" "c_feature c = 0" "\<not> mute p"
    using assms(1) by (simp_all add: direct_output_def)
  have m: "powerport_mute q f = q" for q
    using assms(2) by (auto simp: powerport_mute_def group_order_def)
  have "byte_at f 1 = HCAN_HES_POWER_GROUP_ON \<or> byte_at f 1 = HCAN_HES_POWER_GROUP_OFF" using assms(2) by (simp add: group_order_def)
  then show ?thesis
    using assms(3) by (elim disjE) (simp_all add: powerport_can_callback_def m powerport_group_frame_def p set_powerport_or_timer_def
      powerport_on_def powerport_off_def setpin_def Let_def feature_def powerport_send_state_info_def powerport_get_def flag_def)
qed

text \<open>
  Property C5. The home automation server switches an output and sees that it is switched: when it
  publishes an order for a group whose first output switches at once, the bridge sends one
  message to the bus that switches the output as ordered; the message in which the output
  says so comes back to the server under the topic of the same group, with the payload of the order.
\<close>

theorem home_server_switches_output:
  assumes "bridge_idle b" and "shipped (mq b)" and "HaOnline (mq b)" and "unat g < length (dev (mq b))"
    and "d = (if sonstige (dev (mq b) ! unat g) then ESwitch else ELight)"
    and "direct_output c p" and "c_gruppe0 c = g" and "g \<noteq> 255" and "unat self < 1024"
  shows "\<exists>b1 b2 b3 b4 f sf.
    rxFromBroker atof (TildeOhneId (shipped_topics d) @ ''/'' @ show_nat (unat g) @ ''/<--/set'') (if on then ''ON'' else ''OFF'') b = Inr (False, b1) \<and>
    tx2cb b1 = (b2, [f]) \<and>
    powerport_get (fst (powerport_can_callback self p (board_view (can_wire f)))) = on \<and>
    sent_frames (snd (powerport_can_callback self p (board_view (can_wire f)))) = [sf] \<and>
    bridge_rx_bus (from_board prio sf) b2 = Inr b3 \<and>
    tx2broker debug xml jc b3 = Inr (b4, [(TildeOhneId (shipped_topics d) @ ''/'' @ show_nat (unat g) @ ''/-->/state'',
      if on then ''ON'' else ''OFF'')])"
proof -
  have d: "d \<in> order_kinds (Switch_To on)" using assms(5) by simp
  obtain b1 b2 f where o: "rxFromBroker atof (order_topic d g (Switch_To on)) (order_payload (Switch_To on)) b = Inr (False, b1)"
    "tx2cb b1 = (b2, [f])" "board_view (can_wire f) = hes_message 509 HCAN_MULTICAST_CONTROL (order_bytes atof g (Switch_To on))"
    "bridge_idle b2" "shipped (mq b2)" "HaOnline (mq b2) = HaOnline (mq b)" "map sonstige (dev (mq b2)) = map sonstige (dev (mq b))"
    by (rule order_reaches_bus [OF assms(1,2) d _ assms(4), of atof]) simp
  let ?m = "hes_message 509 HCAN_MULTICAST_CONTROL (order_bytes atof g (Switch_To on))"
  let ?sf = "hes_message self HCAN_MULTICAST_INFO [HCAN_HES_POWER_GROUP_STATE_INFO, g, flag on]"
  have m: "group_order ?m" "byte_at ?m 2 = g" "(byte_at ?m 1 = HCAN_HES_POWER_GROUP_ON) = on" by (simp_all add: group_order_def)
  have g: "is_in_group p g" using direct_output_group [OF assms(6)] assms(7,8) by simp
  have 1: "powerport_get (fst (powerport_can_callback self p ?m)) = on"
    using direct_output_order(2) [OF assms(6) m(1)] g m(2,3) by simp
  have 2: "sent_frames (snd (powerport_can_callback self p ?m)) = [?sf]"
    using direct_output_says [OF assms(6) m(1)] g m(2,3) assms(7) by simp
  have len: "length (dev (mq b2)) = length (dev (mq b))" using o(7) map_eq_imp_length_eq by blast
  then have "sonstige (dev (mq b2) ! unat g) = sonstige (dev (mq b) ! unat g)" using o(7) assms(4) by (metis nth_map)
  then have k: "d = (if sonstige (dev (mq b2) ! unat g) then ESwitch else ELight)" using assms(5) by simp
  have t: "dev_topic d g stat_t (mq b2) = TildeOhneId (shipped_topics d) @ ''/'' @ show_nat (unat g) @ ''/-->/state''"
    using o(5) by (cases d) (simp_all add: dev_topic_def shipped_def)
  have "(if flag on \<noteq> 0 then ''ON'' else ''OFF'') = (if on then ''ON'' else ''OFF'')" by (simp add: flag_def)
  with state_reaches_broker [OF o(4) _ _ assms(9) k, of prio "flag on" debug xml jc] o(6) assms(3,4) len t obtain b3 b4 where
    3: "bridge_rx_bus (from_board prio ?sf) b2 = Inr b3"
      "tx2broker debug xml jc b3 = Inr (b4, [(TildeOhneId (shipped_topics d) @ ''/'' @ show_nat (unat g) @ ''/-->/state'', if on then ''ON'' else ''OFF'')])"
    by auto
  have "order_topic d g (Switch_To on) = TildeOhneId (shipped_topics d) @ ''/'' @ show_nat (unat g) @ ''/<--/set''"
    by (simp add: order_topic_def)
  with o(1) have 4: "rxFromBroker atof (TildeOhneId (shipped_topics d) @ ''/'' @ show_nat (unat g) @ ''/<--/set'')
      (if on then ''ON'' else ''OFF'') b = Inr (False, b1)" by (simp only: order_payload.simps)
  show ?thesis
    by (rule exI [of _ b1], rule exI [of _ b2], rule exI [of _ b3], rule exI [of _ b4], rule exI [of _ f], rule exI [of _ ?sf])
      (simp only: 1 2 3 4 o(2,3) simp_thms)
qed

text \<open>A bridge that has just started, and an output of group 7.\<close>

definition example_bridge :: bridge where
  "example_bridge = \<lparr>mq = example_mqtt,
     canRxBuf = replicate 16 \<lparr>can_id = 0, can_dlc = 0, cf_data = replicate 8 0\<rparr>,
     mqttRxBuf = replicate 16 \<lparr>can_id = 0, can_dlc = 0, cf_data = replicate 8 0\<rparr>,
     canRxWIdx = 0, canRxRIdx = 0, mqttBufWIdx = 0, mqttBufRIdx = 0, HaOnlineStateChanged = False,
     timeoutSecsHaOnline = 0, timeoutSecsRQS = 0, RQSmsgSent = True\<rparr>"

theorem home_server_switches_output_witness:
  "\<exists>b1 b2 f. rxFromBroker (\<lambda>_. 0) ''hc/light/7/<--/set'' ''ON'' example_bridge = Inr (False, b1) \<and> tx2cb b1 = (b2, [f]) \<and>
     powerport_get (fst (powerport_can_callback 40 (outlet\<lparr>config := (device_data_powerport.config outlet)\<lparr>c_gruppe0 := 7, c_feature := 0\<rparr>\<rparr>)
       (board_view (can_wire f))))"
proof -
  let ?p = "outlet\<lparr>config := (device_data_powerport.config outlet)\<lparr>c_gruppe0 := 7, c_feature := 0\<rparr>\<rparr>"
  have p: "direct_output (device_data_powerport.config ?p) ?p" "c_gruppe0 (device_data_powerport.config ?p) = 7"
    by (simp_all add: direct_output_def outlet_def)
  have b: "bridge_idle example_bridge" "shipped (mq example_bridge)" "HaOnline (mq example_bridge)"
    "unat (7 :: u8) < length (dev (mq example_bridge))"
    "ELight = (if sonstige (dev (mq example_bridge) ! unat (7 :: u8)) then ESwitch else ELight)"
    by (simp_all add: bridge_idle_def ring_def example_bridge_def example_mqtt_def shipped_def example_device_def)
  have t: "TildeOhneId (shipped_topics ELight) @ ''/'' @ show_nat (unat (7 :: u8)) @ ''/<--/set'' = ''hc/light/7/<--/set''"
    by code_simp
  have n: "(7 :: u8) \<noteq> 255" "unat (40 :: u16) < 1024" by simp_all
  obtain b1 b2 f where
    "rxFromBroker (\<lambda>_. 0) (TildeOhneId (shipped_topics ELight) @ ''/'' @ show_nat (unat (7 :: u8)) @ ''/<--/set'') (if True then ''ON'' else ''OFF'')
       example_bridge = Inr (False, b1)" "tx2cb b1 = (b2, [f])" "powerport_get (fst (powerport_can_callback 40 ?p (board_view (can_wire f)))) = True"
    using home_server_switches_output [OF b p n, where atof = "\<lambda>_. 0" and on = True and prio = 3 and debug = 0 and xml = "[]" and
      jc = "undefined :: unit json_c"] by blast
  then show ?thesis unfolding t if_True by (intro exI conjI TrueI) (assumption | simp)+
qed

end
