(* ===== verification/Host_Addresses.thy ===== *)
theory Host_Addresses
  imports Texts
begin

text \<open>
  The addresses of the host programs: the server \<^verbatim>\<open>src/hcanaddressd/main.c\<close> hands one
  of 32 addresses to every connection until it is closed, the class
  \<^verbatim>\<open>dynaddress\<close> of the library (\<^verbatim>\<open>src/libhcan++/dynaddress.cc\<close>) asks for one. What the kernel
  answers in a round (a new connection, what a connection has for reading) is an argument.
\<close>

section \<open>The server\<close>

record addr_peer =
  ap_socket :: int
  ap_address :: int

abbreviation (input) MAX_PEER :: nat where "MAX_PEER \<equiv> 32"
abbreviation (input) START_PEER :: u16 where "START_PEER \<equiv> 512"

definition init_peer_array :: "u16 \<Rightarrow> addr_peer list" where
  "init_peer_array startPeer = map (\<lambda>i. \<lparr>ap_socket = -1, ap_address = uint startPeer + int i\<rparr>) [0..<MAX_PEER]"

fun assign_address :: "int \<Rightarrow> addr_peer list \<Rightarrow> int \<times> addr_peer list" where
  "assign_address sock [] = (-1, [])"
| "assign_address sock (p # ps) =
     (if ap_socket p = -1 then (ap_address p, p\<lparr>ap_socket := sock\<rparr> # ps)
      else (let (a, ps) = assign_address sock ps in (a, p # ps)))"

text \<open>What the server does with its sockets.\<close>

datatype ad_out = Write_Address int int | Close int

text \<open>
  The new connection of a round: \<open>None\<close> when the server's socket has nothing, else the
  descriptor that \<^verbatim>\<open>accept\<close> returns.
\<close>

definition accept_peer :: "int option \<Rightarrow> addr_peer list \<Rightarrow> addr_peer list \<times> ad_out list" where
  "accept_peer acc ps =
     (case acc of
        None \<Rightarrow> (ps, [])
      | Some sock \<Rightarrow>
          (if sock \<noteq> -1
           then (let (a, ps) = assign_address sock ps in
                 if a = -1 then (ps, [Close sock]) else (ps, [Write_Address sock a]))
           else (ps, [])))"

text \<open>The result of \<^verbatim>\<open>read\<close> on a descriptor; \<open>None\<close> where \<^verbatim>\<open>select\<close> reports nothing.\<close>

fun read_peers :: "(int \<Rightarrow> int option) \<Rightarrow> addr_peer list \<Rightarrow> addr_peer list \<times> ad_out list" where
  "read_peers rd [] = ([], [])"
| "read_peers rd (p # ps) =
     (let (p', out) = (if ap_socket p \<noteq> -1 \<and> rd (ap_socket p) = Some 0
                       then (p\<lparr>ap_socket := -1\<rparr>, [Close (ap_socket p)]) else (p, []));
          (ps', outs) = read_peers rd ps
      in (p' # ps', out @ outs))"

definition ad_round :: "int option \<Rightarrow> (int \<Rightarrow> int option) \<Rightarrow> addr_peer list \<Rightarrow> addr_peer list \<times> ad_out list" where
  "ad_round acc rd ps =
     (let (ps, out) = accept_peer acc ps; (ps, outs) = read_peers rd ps in (ps, out @ outs))"

fun ad_run :: "(int option \<times> (int \<Rightarrow> int option)) list \<Rightarrow> addr_peer list \<Rightarrow> addr_peer list \<times> ad_out list" where
  "ad_run [] ps = (ps, [])"
| "ad_run ((acc, rd) # rs) ps =
     (let (ps, out) = ad_round acc rd ps; (ps, outs) = ad_run rs ps in (ps, out @ outs))"

section \<open>The client\<close>

record dynaddress =
  m_address :: int
  m_socket :: int

definition dynaddress_new :: dynaddress where
  "dynaddress_new = \<lparr>m_address = -1, m_socket = -1\<rparr>"

text \<open>
  \<^verbatim>\<open>allocate\<close>: \<open>con\<close> is the descriptor and whether the connection succeeds, \<open>got\<close> the
  number that was read when all of its four bytes came, \<open>junk\<close> what the local variable holds
  otherwise: the error of the short read is constructed, but not thrown.
\<close>

definition dyn_allocate :: "int \<times> bool \<Rightarrow> int option \<Rightarrow> int \<Rightarrow> dynaddress \<Rightarrow> string + dynaddress" where
  "dyn_allocate con got junk d =
     (let (sock, ok) = con; d = d\<lparr>m_socket := sock\<rparr> in
      if ok then Inr (d\<lparr>m_address := (case got of Some a \<Rightarrow> a | None \<Rightarrow> junk)\<rparr>)
      else Inl ''could not connect to hcanaddressd'')"

definition dyn_address :: "dynaddress \<Rightarrow> string + u16" where
  "dyn_address d = (if m_address d = -1 then Inl ''no address allocated'' else Inr (word_of_int (m_address d)))"

section \<open>The table of the server\<close>

definition holds :: "addr_peer list \<Rightarrow> int \<Rightarrow> int \<Rightarrow> bool" where
  "holds ps k a \<longleftrightarrow> (\<exists>p \<in> set ps. ap_socket p = k \<and> ap_address p = a)"

definition opened :: "addr_peer list \<Rightarrow> int list" where
  "opened ps = filter (\<lambda>k. k \<noteq> -1) (map ap_socket ps)"

definition ad_ok :: "u16 \<Rightarrow> addr_peer list \<Rightarrow> bool" where
  "ad_ok startPeer ps \<longleftrightarrow> map ap_address ps = map (\<lambda>i. uint startPeer + int i) [0..<MAX_PEER] \<and> distinct (opened ps)"

lemma assign_cases:
  "(\<forall>p \<in> set ps. ap_socket p \<noteq> -1) \<and> assign_address sock ps = (-1, ps) \<or>
   (\<exists>xs p zs. ps = xs @ p # zs \<and> ap_socket p = -1 \<and>
      assign_address sock ps = (ap_address p, xs @ p\<lparr>ap_socket := sock\<rparr> # zs))"
proof (induction ps)
  case (Cons p ps)
  show ?case
  proof (cases "ap_socket p = -1")
    case True
    then have "p # ps = [] @ p # ps \<and> ap_socket p = -1 \<and>
      assign_address sock (p # ps) = (ap_address p, [] @ p\<lparr>ap_socket := sock\<rparr> # ps)" by simp
    then show ?thesis by blast
  next
    case False
    from Cons show ?thesis
    proof (elim disjE exE conjE)
      fix xs q zs
      assume "ps = xs @ q # zs" "ap_socket q = -1"
        "assign_address sock ps = (ap_address q, xs @ q\<lparr>ap_socket := sock\<rparr> # zs)"
      then have "p # ps = (p # xs) @ q # zs \<and> ap_socket q = -1 \<and>
        assign_address sock (p # ps) = (ap_address q, (p # xs) @ q\<lparr>ap_socket := sock\<rparr> # zs)" using False by simp
      then show ?thesis by blast
    qed (simp add: False)
  qed
qed simp

lemma read_peers_fst: "fst (read_peers rd ps) =
    map (\<lambda>p. if ap_socket p \<noteq> -1 \<and> rd (ap_socket p) = Some 0 then p\<lparr>ap_socket := -1\<rparr> else p) ps"
  by (induction ps) (simp_all add: Let_def split_beta)

lemma read_peers_opened: "opened (fst (read_peers rd ps)) = filter (\<lambda>k. rd k \<noteq> Some 0) (opened ps)"
  unfolding read_peers_fst opened_def by (induction ps) auto

lemma read_peers_snd: "snd (read_peers rd ps) = map Close (filter (\<lambda>k. rd k = Some 0) (opened ps))"
  unfolding opened_def by (induction ps) (auto simp: Let_def split_beta)

lemma read_peers_holds:
  "k \<noteq> -1 \<Longrightarrow> holds (fst (read_peers rd ps)) k a \<longleftrightarrow> holds ps k a \<and> rd k \<noteq> Some 0"
  unfolding read_peers_fst holds_def by (induction ps) (auto split: if_splits)

lemma opened_full: "length ps \<le> length (opened ps) \<Longrightarrow> \<forall>p \<in> set ps. ap_socket p \<noteq> -1"
proof (rule ccontr)
  assume le: "length ps \<le> length (opened ps)" and "\<not> (\<forall>p \<in> set ps. ap_socket p \<noteq> -1)"
  then have "-1 \<in> set (map ap_socket ps)" by (force simp: image_iff)
  then have "length (opened ps) < length (map ap_socket ps)" unfolding opened_def by (intro length_filter_less) auto
  then show False using le by simp
qed

lemma opened_holds: "k \<in> set (opened ps) \<longleftrightarrow> k \<noteq> -1 \<and> (\<exists>a. holds ps k a)"
  by (auto simp: opened_def holds_def)

text \<open>The addresses of the table are different, so an address belongs to one place.\<close>

lemma addresses_distinct: "ad_ok startPeer ps \<Longrightarrow> distinct (map ap_address ps)"
  by (simp add: ad_ok_def distinct_map inj_on_def)

lemma address_range: "ad_ok startPeer ps \<Longrightarrow> p \<in> set ps \<Longrightarrow> uint startPeer \<le> ap_address p \<and> ap_address p < uint startPeer + 32"
proof -
  assume "ad_ok startPeer ps" "p \<in> set ps"
  then have "ap_address p \<in> set (map (\<lambda>i. uint startPeer + int i) [0..<MAX_PEER])"
    unfolding ad_ok_def by (metis image_eqI list.set_map)
  then show ?thesis by auto
qed

text \<open>A round keeps the table in order; what a connection has it keeps until it is closed.\<close>

definition new_descriptor :: "int option \<Rightarrow> addr_peer list \<Rightarrow> bool" where
  "new_descriptor acc ps \<longleftrightarrow> (case acc of None \<Rightarrow> True | Some k \<Rightarrow> k \<notin> set (opened ps))"

lemma accept_law:
  assumes ok: "ad_ok startPeer ps" and "new_descriptor acc ps"
  shows "ad_ok startPeer (fst (accept_peer acc ps))"
    "k \<noteq> -1 \<Longrightarrow> holds (fst (accept_peer acc ps)) k a \<longleftrightarrow> holds ps k a \<or> Write_Address k a \<in> set (snd (accept_peer acc ps))"
    "Write_Address k a \<in> set (snd (accept_peer acc ps)) \<Longrightarrow> acc = Some k \<and> (\<forall>j. j \<noteq> -1 \<longrightarrow> \<not> holds ps j a)"
    "acc = Some k \<Longrightarrow> k \<noteq> -1 \<Longrightarrow> length (opened ps) < MAX_PEER \<Longrightarrow> \<exists>a. Write_Address k a \<in> set (snd (accept_peer acc ps))"
proof -
  have "ad_ok startPeer (fst (accept_peer acc ps)) \<and>
    (k \<noteq> -1 \<longrightarrow> holds (fst (accept_peer acc ps)) k a \<longleftrightarrow> holds ps k a \<or> Write_Address k a \<in> set (snd (accept_peer acc ps))) \<and>
    (Write_Address k a \<in> set (snd (accept_peer acc ps)) \<longrightarrow> acc = Some k \<and> (\<forall>j. j \<noteq> -1 \<longrightarrow> \<not> holds ps j a)) \<and>
    (acc = Some k \<longrightarrow> k \<noteq> -1 \<longrightarrow> length (opened ps) < MAX_PEER \<longrightarrow> (\<exists>a. Write_Address k a \<in> set (snd (accept_peer acc ps))))"
  proof (cases "\<exists>sock. acc = Some sock \<and> sock \<noteq> -1")
    case False
    then show ?thesis using ok by (auto simp: accept_peer_def split: option.splits)
  next
    case True
    then obtain sock where acc: "acc = Some sock" "sock \<noteq> -1" "sock \<notin> set (opened ps)"
      using assms(2) by (auto simp: new_descriptor_def)
    have l: "length ps = MAX_PEER" using ok map_eq_imp_length_eq [of ap_address ps] by (fastforce simp: ad_ok_def)
    show ?thesis
      using assign_cases [of ps sock]
    proof (elim disjE exE conjE)
      assume full: "\<forall>p \<in> set ps. ap_socket p \<noteq> -1" "assign_address sock ps = (-1, ps)"
      then have "length (opened ps) = MAX_PEER" using l by (simp add: opened_def filter_id_conv)
      then show ?thesis using full acc ok by (simp add: accept_peer_def)
    next
      fix xs p zs
      assume f: "ps = xs @ p # zs" "ap_socket p = -1" "assign_address sock ps = (ap_address p, xs @ p\<lparr>ap_socket := sock\<rparr> # zs)"
      have "0 \<le> uint startPeer" by simp
      moreover have "uint startPeer \<le> ap_address p" using address_range [OF ok, of p] by (simp add: f(1))
      ultimately have "ap_address p \<noteq> -1" by linarith
      then have r: "accept_peer acc ps = (xs @ p\<lparr>ap_socket := sock\<rparr> # zs, [Write_Address sock (ap_address p)])"
        using f(3) acc by (simp add: accept_peer_def)
      have "\<forall>q \<in> set xs \<union> set zs. ap_address q \<noteq> ap_address p" using addresses_distinct [OF ok] unfolding f(1) map_append list.map distinct_append distinct.simps list.set by (metis Un_iff disjoint_iff image_eqI insertCI list.set_map)
      then have n: "\<not> holds ps j (ap_address p)" if "j \<noteq> -1" for j using f(2) that by (auto simp: f(1) holds_def)
      have "ad_ok startPeer (xs @ p\<lparr>ap_socket := sock\<rparr> # zs)"
        using ok acc(2,3) f(2) by (auto simp: ad_ok_def f(1) opened_def)
      moreover have "holds (xs @ p\<lparr>ap_socket := sock\<rparr> # zs) k a \<longleftrightarrow> holds ps k a \<or> (k = sock \<and> a = ap_address p)" if "k \<noteq> -1"
        using f(2) that by (auto simp: f(1) holds_def)
      ultimately show ?thesis unfolding r using n acc by auto
    qed
  qed
  then show "ad_ok startPeer (fst (accept_peer acc ps))"
    "k \<noteq> -1 \<Longrightarrow> holds (fst (accept_peer acc ps)) k a \<longleftrightarrow> holds ps k a \<or> Write_Address k a \<in> set (snd (accept_peer acc ps))"
    "Write_Address k a \<in> set (snd (accept_peer acc ps)) \<Longrightarrow> acc = Some k \<and> (\<forall>j. j \<noteq> -1 \<longrightarrow> \<not> holds ps j a)"
    "acc = Some k \<Longrightarrow> k \<noteq> -1 \<Longrightarrow> length (opened ps) < MAX_PEER \<Longrightarrow> \<exists>a. Write_Address k a \<in> set (snd (accept_peer acc ps))"
    by blast+
qed

lemma round_out: "snd (ad_round acc rd ps) = snd (accept_peer acc ps) @ snd (read_peers rd (fst (accept_peer acc ps)))"
  "fst (ad_round acc rd ps) = fst (read_peers rd (fst (accept_peer acc ps)))"
  by (simp_all add: ad_round_def Let_def split_beta)

lemma round_writes: "Write_Address k a \<in> set (snd (ad_round acc rd ps)) \<longleftrightarrow> Write_Address k a \<in> set (snd (accept_peer acc ps))"
  by (auto simp: round_out read_peers_snd)

lemma round_ok:
  assumes "ad_ok startPeer ps" and "new_descriptor acc ps"
  shows "ad_ok startPeer (fst (ad_round acc rd ps))"
proof -
  have a: "map ap_address (fst (read_peers rd qs)) = map ap_address qs" for qs
    unfolding read_peers_fst by (induction qs) simp_all
  show ?thesis using accept_law(1) [OF assms] by (simp add: ad_ok_def round_out a read_peers_opened)
qed

fun ad_fresh :: "(int option \<times> (int \<Rightarrow> int option)) list \<Rightarrow> addr_peer list \<Rightarrow> bool" where
  "ad_fresh [] ps = True"
| "ad_fresh ((acc, rd) # rs) ps \<longleftrightarrow> new_descriptor acc ps \<and> ad_fresh rs (fst (ad_round acc rd ps))"

lemma run_ok: "ad_ok startPeer ps \<Longrightarrow> ad_fresh rs ps \<Longrightarrow> ad_ok startPeer (fst (ad_run rs ps))"
  by (induction rs arbitrary: ps) (auto simp: round_ok Let_def split_beta)

lemma init_ok: "ad_ok startPeer (init_peer_array startPeer)"
  by (simp add: ad_ok_def init_peer_array_def opened_def comp_def)

text \<open>
  Property C20. The address server never gives one address to two programs: after any rounds
  in which the kernel does not hand out a descriptor that is still open, two connections hold different
  addresses of the 32 from the start address on; in the next round a connection gets an address
  exactly when fewer than 32 are open, one that no one holds, and keeps it until its
  end is read.
\<close>

theorem addresses_are_exclusive:
  assumes "ad_fresh rs (init_peer_array startPeer)" and "fst (ad_run rs (init_peer_array startPeer)) = ps" and "new_descriptor acc ps"
  shows "(\<forall>j k a. j \<noteq> -1 \<and> k \<noteq> -1 \<and> holds ps j a \<and> holds ps k a \<longrightarrow> j = k) \<and>
    (\<forall>k a. holds ps k a \<longrightarrow> uint startPeer \<le> a \<and> a < uint startPeer + 32) \<and>
    (\<forall>k a. k \<noteq> -1 \<longrightarrow> holds (fst (ad_round acc rd ps)) k a \<longleftrightarrow>
       (holds ps k a \<or> Write_Address k a \<in> set (snd (ad_round acc rd ps))) \<and> rd k \<noteq> Some 0) \<and>
    (\<forall>k a. Write_Address k a \<in> set (snd (ad_round acc rd ps)) \<longrightarrow> acc = Some k \<and> (\<forall>j. j \<noteq> -1 \<longrightarrow> \<not> holds ps j a)) \<and>
    (\<forall>k. acc = Some k \<and> k \<noteq> -1 \<longrightarrow>
       (\<exists>a. Write_Address k a \<in> set (snd (ad_round acc rd ps))) \<longleftrightarrow> length (opened ps) < 32)"
proof -
  have ok: "ad_ok startPeer ps" using run_ok [OF init_ok assms(1)] assms(2) by simp
  note acc_law = accept_law [OF ok assms(3)]
  let ?W = "\<lambda>k a. Write_Address k a \<in> set (snd (accept_peer acc ps))"
  have 1: "\<forall>j k a. j \<noteq> -1 \<and> k \<noteq> -1 \<and> holds ps j a \<and> holds ps k a \<longrightarrow> j = k"
    using addresses_distinct [OF ok] by (auto simp: holds_def distinct_map inj_on_def)
  have 2: "\<forall>k a. holds ps k a \<longrightarrow> uint startPeer \<le> a \<and> a < uint startPeer + 32"
    using address_range [OF ok] by (auto simp: holds_def)
  have 3: "\<forall>k a. k \<noteq> -1 \<longrightarrow> holds (fst (ad_round acc rd ps)) k a \<longleftrightarrow> (holds ps k a \<or> ?W k a) \<and> rd k \<noteq> Some 0"
    unfolding round_out(2) using read_peers_holds acc_law(2) by blast
  have 4: "\<forall>k a. ?W k a \<longrightarrow> acc = Some k \<and> (\<forall>j. j \<noteq> -1 \<longrightarrow> \<not> holds ps j a)" using acc_law(3) by blast
  have "length (opened ps) < 32" if w: "acc = Some k" "k \<noteq> -1" "?W k a" for k a
  proof (rule ccontr)
    assume "\<not> length (opened ps) < 32"
    moreover have "length ps = 32" using ok map_eq_imp_length_eq [of ap_address ps] by (fastforce simp: ad_ok_def)
    ultimately have full: "\<forall>p \<in> set ps. ap_socket p \<noteq> -1" using opened_full [of ps] by linarith
    have "assign_address k ps = (-1, ps)" using assign_cases [of ps k] full by auto
    then show False using w by (simp add: accept_peer_def)
  qed
  moreover have "\<exists>a. ?W k a" if "acc = Some k" "k \<noteq> -1" "length (opened ps) < 32" for k
    using acc_law(4) that by simp
  ultimately have 5: "\<forall>k. acc = Some k \<and> k \<noteq> -1 \<longrightarrow> (\<exists>a. ?W k a) \<longleftrightarrow> length (opened ps) < 32" by metis
  show ?thesis unfolding round_writes using 1 2 3 4 5 by (intro conjI)
qed

theorem addresses_are_exclusive_witness:
  "\<exists>a. Write_Address 7 a \<in> set (snd (ad_round (Some 7) (\<lambda>_. None) (fst (ad_run [(Some 5, \<lambda>_. None)] (init_peer_array 512)))))"
proof -
  have f: "ad_fresh [(Some 5, \<lambda>_. None)] (init_peer_array 512)"
    by (simp add: new_descriptor_def opened_def init_peer_array_def)
  have i: "init_peer_array 512 = \<lparr>ap_socket = -1, ap_address = 512\<rparr> # map (\<lambda>i. \<lparr>ap_socket = -1, ap_address = 512 + int i\<rparr>) [1..<32]"
    by (simp add: init_peer_array_def upt_conv_Cons del: upt_Suc)
  have o: "opened (fst (ad_run [(Some 5, \<lambda>_. None)] (init_peer_array 512))) = [5]"
    unfolding i by (simp add: ad_round_def accept_peer_def Let_def split_beta del: upt_Suc)
      (simp add: opened_def read_peers_fst comp_def del: upt_Suc)
  then have "new_descriptor (Some 7) (fst (ad_run [(Some 5, \<lambda>_. None)] (init_peer_array 512)))" by (simp add: new_descriptor_def)
  from addresses_are_exclusive [OF f refl this, of "\<lambda>_. None"]
  have "\<forall>k. Some 7 = Some k \<and> k \<noteq> -1 \<longrightarrow>
      (\<exists>a. Write_Address k a \<in> set (snd (ad_round (Some 7) (\<lambda>_. None) (fst (ad_run [(Some 5, \<lambda>_. None)] (init_peer_array 512)))))) \<longleftrightarrow>
      length (opened (fst (ad_run [(Some 5, \<lambda>_. None)] (init_peer_array 512)))) < 32"
    by (elim conjE)
  from spec [OF this, of 7] show ?thesis unfolding o by simp
qed

text \<open>A refused connection: the client takes whatever its variable holds for its address.\<close>

lemma refused_client_takes_junk:
  assumes "\<forall>p \<in> set ps. ap_socket p \<noteq> -1" and "k \<noteq> -1" and "junk \<noteq> -1"
  shows "snd (accept_peer (Some k) ps) = [Close k]"
    "\<exists>d. dyn_allocate (k, True) None junk dynaddress_new = Inr d \<and> dyn_address d = Inr (word_of_int junk)"
proof -
  have "assign_address k ps = (-1, ps)" using assign_cases [of ps k] assms(1) by auto
  then show "snd (accept_peer (Some k) ps) = [Close k]" using assms(2) by (simp add: accept_peer_def)
qed (simp add: dyn_allocate_def dyn_address_def dynaddress_new_def assms(3))

end
