(* ===== verification/Host_Log.thy ===== *)
theory Host_Log
  imports Canix_Services Texts
begin

text \<open>
  The text messages of the boards on the host: \<^verbatim>\<open>transport_connection::syslog\<close>
  (\<^verbatim>\<open>src/libhcan++/transport_connection.cc\<close>) puts the frames of
  \<^verbatim>\<open>canix_syslog_P\<close> together again, for all boards at the same time.
\<close>

section \<open>Putting messages together\<close>

text \<open>
  A frame and the entry of its board: the entry after it and the message that is
  printed. A frame without data ends the program by an exception of \<^verbatim>\<open>substr\<close>. The comparison
  of the first character with the priority is one of a signed with an unsigned number.
\<close>

definition log_frame :: "u8 list \<Rightarrow> (u8 \<times> u8 list) option \<Rightarrow> ((u8 \<times> u8 list) option \<times> (u8 \<times> u8 list) option) option" where
  "log_frame d entry =
     (case entry of
        Some (p, m) \<Rightarrow>
          (let c = (if d = [] then 0 else hd d) in
           if c = p \<and> c < 128 \<and> d = [] then None
           else let m = (if c = p \<and> c < 128 then m @ tl d else m @ d) in
                if m \<noteq> [] \<and> last m = 10 then Some (None, Some (p, m)) else Some (Some (p, m), None))
      | None \<Rightarrow> if d = [] then None else Some (Some (hd d, tl d), None))"

record log_state =
  lg_messages :: "u16 \<Rightarrow> (u8 \<times> u8 list) option"
  lg_lines :: "(u16 \<times> u8 \<times> u8 list) list"

definition syslog_frame :: "canix_frame \<Rightarrow> bool" where
  "syslog_frame f \<longleftrightarrow> proto f = HCAN_PROTO_SYSLOG \<and> dst f = HCAN_MULTICAST_SYSLOG"

definition syslog_step :: "canix_frame \<Rightarrow> log_state \<Rightarrow> log_state option" where
  "syslog_step f s =
     (if syslog_frame f
      then (case log_frame (data f) (lg_messages s (src f)) of
              None \<Rightarrow> None
            | Some (e, l) \<Rightarrow> Some (s\<lparr>lg_messages := (lg_messages s)(src f := e),
                lg_lines := lg_lines s @ (case l of None \<Rightarrow> [] | Some m \<Rightarrow> [(src f, m)])\<rparr>))
      else Some s)"

fun syslog_run :: "canix_frame list \<Rightarrow> log_state \<Rightarrow> log_state option" where
  "syslog_run [] s = Some s"
| "syslog_run (f # fs) s = (case syslog_step f s of None \<Rightarrow> None | Some s \<Rightarrow> syslog_run fs s)"

definition syslog_start :: log_state where
  "syslog_start = \<lparr>lg_messages = (\<lambda>_. None), lg_lines = []\<rparr>"

text \<open>The line that is printed: the time and the name of the board are the caller's.\<close>

definition prio_name :: "u8 \<Rightarrow> string" where
  "prio_name p = (if p = 1 then ''CRITICAL'' else if p = 2 then ''ERROR'' else if p = 3 then ''Warning'' else if p = 4 then ''debug'' else [])"

definition log_line :: "string \<Rightarrow> (u16 \<Rightarrow> string) \<Rightarrow> u16 \<times> u8 \<times> u8 list \<Rightarrow> string" where
  "log_line timestamp board_name l =
     (case l of (a, p, m) \<Rightarrow>
        timestamp @ '' '' @ show_nat (unat a) @ board_name a @ ''  '' @ prio_name p @ ''  '' @ map (\<lambda>b. char_of (unat b)) m)"

section \<open>One board\<close>

text \<open>The frames of one board: the entry after them and the messages printed.\<close>

fun board_run :: "u8 list list \<Rightarrow> (u8 \<times> u8 list) option \<Rightarrow> ((u8 \<times> u8 list) option \<times> (u8 \<times> u8 list) list) option" where
  "board_run [] e = Some (e, [])"
| "board_run (d # ds) e =
     (case log_frame d e of
        None \<Rightarrow> None
      | Some (e, l) \<Rightarrow> (case board_run ds e of None \<Rightarrow> None
          | Some (e, ls) \<Rightarrow> Some (e, (case l of None \<Rightarrow> [] | Some m \<Rightarrow> [m]) @ ls)))"

lemma board_run_append:
  "board_run (ds @ es) e = (case board_run ds e of None \<Rightarrow> None
     | Some (e, ls) \<Rightarrow> (case board_run es e of None \<Rightarrow> None | Some (e', ls') \<Rightarrow> Some (e', ls @ ls')))"
  by (induction ds e rule: board_run.induct) (auto split: option.splits prod.splits)

lemma log_frame_next:
  "d \<noteq> [] \<Longrightarrow> hd d \<noteq> p \<Longrightarrow> log_frame d (Some (p, m)) =
     (if last d = 10 then Some (None, Some (p, m @ d)) else Some (Some (p, m @ d), None))"
  by (auto simp: log_frame_def Let_def)

definition loggable :: "u8 \<Rightarrow> u8 list \<Rightarrow> bool" where
  "loggable p t \<longleftrightarrow> 10 \<notin> set t \<and> p \<notin> set t \<and> p \<noteq> 10"

text \<open>The rest of a message after its first frame.\<close>

lemma board_run_rest:
  "loggable p t \<Longrightarrow> board_run (map data (sent_frames (syslog_loop self [] (t @ [10])))) (Some (p, m)) = Some (None, [(p, m @ t @ [10])])"
proof (induction "length t" arbitrary: t m rule: less_induct)
  case less
  let ?s = "t @ [10]"
  let ?c = "take 8 ?s"
  have c: "?c \<noteq> []" "hd ?c \<noteq> p" using less.prems by (cases t; auto simp: loggable_def)+
  have loop: "map data (sent_frames (syslog_loop self [] ?s)) = ?c # map data (sent_frames (syslog_loop self [] (drop 8 ?s)))"
    by (subst syslog_loop.simps) simp
  show ?case
  proof (cases "length t < 8")
    case True
    then have d: "?c = ?s" "drop 8 ?s = []" by simp_all
    have e: "syslog_loop self [] [] = []" by (subst syslog_loop.simps) simp
    have "log_frame ?s (Some (p, m)) = Some (None, Some (p, m @ ?s))"
      using log_frame_next [of ?s p m] c d by simp
    then show ?thesis unfolding loop d by (simp add: e)
  next
    case False
    then have d: "?c = take 8 t" "drop 8 ?s = drop 8 t @ [10]" by simp_all
    have "last (take 8 t) \<in> set t" using False by (metis c(1) d(1) in_set_takeD last_in_set)
    then have "last (take 8 t) \<noteq> 10" using less.prems by (auto simp: loggable_def)
    then have l: "log_frame (take 8 t) (Some (p, m)) = Some (Some (p, m @ take 8 t), None)"
      using log_frame_next [of "take 8 t" p m] c unfolding d by simp
    have "loggable p (drop 8 t)" using less.prems by (auto simp: loggable_def dest: in_set_dropD)
    from less.hyps [OF _ this, of "m @ take 8 t"] False
    have "board_run (map data (sent_frames (syslog_loop self [] (drop 8 t @ [10])))) (Some (p, m @ take 8 t)) =
        Some (None, [(p, (m @ take 8 t) @ drop 8 t @ [10])])" by simp
    then show ?thesis unfolding loop d by (simp add: l)
  qed
qed

text \<open>A message of at least seven characters is printed as it was written; a shorter one waits for the next.\<close>

lemma board_run_message:
  assumes "loggable p t" and "7 \<le> length t" and "length t \<le> 125" and "p \<le> level"
  shows "board_run (map data (sent_frames (canix_syslog_P level self p t))) None = Some (None, [(p, t @ [10])])"
proof -
  have "map data (sent_frames (canix_syslog_P level self p t)) =
      (p # take 7 t) # map data (sent_frames (syslog_loop self [] (drop 7 t @ [10])))"
    using assms(2,3,4) by (simp add: canix_syslog_P_def) (subst syslog_loop.simps, simp)
  moreover have "loggable p (drop 7 t)" using assms(1) by (auto simp: loggable_def dest: in_set_dropD)
  ultimately show ?thesis using board_run_rest [of p "drop 7 t" self "take 7 t"] by (simp add: log_frame_def)
qed

lemma short_message_waits:
  assumes "length t \<le> 6" and "p \<le> level"
  shows "board_run (map data (sent_frames (canix_syslog_P level self p t))) None = Some (Some (p, t @ [10]), [])"
proof -
  have e: "syslog_loop self [] [] = []" by (subst syslog_loop.simps) simp
  have "map data (sent_frames (canix_syslog_P level self p t)) = [p # t @ [10]]"
    using assms by (simp add: canix_syslog_P_def) (subst syslog_loop.simps, simp add: e)
  then show ?thesis by (simp add: log_frame_def)
qed

lemma board_run_messages:
  "\<forall>(p, t) \<in> set ms. loggable p t \<and> 7 \<le> length t \<and> length t \<le> 125 \<and> p \<le> level \<Longrightarrow>
   board_run (concat (map (\<lambda>(p, t). map data (sent_frames (canix_syslog_P level self p t))) ms)) None =
     Some (None, map (\<lambda>(p, t). (p, t @ [10])) ms)"
  by (induction ms) (auto simp: board_run_append board_run_message)

section \<open>All boards\<close>

definition of_board :: "u16 \<Rightarrow> canix_frame list \<Rightarrow> canix_frame list" where
  "of_board a fs = filter (\<lambda>f. syslog_frame f \<and> src f = a) fs"

definition lines_of :: "u16 \<Rightarrow> log_state \<Rightarrow> (u8 \<times> u8 list) list" where
  "lines_of a s = map snd (filter (\<lambda>l. fst l = a) (lg_lines s))"

text \<open>What is printed for a board depends on its own frames only.\<close>

lemma syslog_run_board:
  assumes "\<And>a. board_run (map data (of_board a fs)) (lg_messages s a) \<noteq> None"
  shows "\<exists>s'. syslog_run fs s = Some s' \<and> (\<forall>a. \<exists>ls. board_run (map data (of_board a fs)) (lg_messages s a) =
    Some (lg_messages s' a, ls) \<and> lines_of a s' = lines_of a s @ ls)"
  using assms
proof (induction fs arbitrary: s)
  case Nil
  then show ?case by (simp add: of_board_def)
next
  case (Cons f fs)
  show ?case
  proof (cases "syslog_frame f")
    case False
    then show ?thesis using Cons by (simp add: of_board_def syslog_step_def)
  next
    case True
    have "board_run (map data (of_board (src f) (f # fs))) (lg_messages s (src f)) \<noteq> None" by (rule Cons.prems)
    then obtain e l where l: "log_frame (data f) (lg_messages s (src f)) = Some (e, l)"
      using True by (auto simp: of_board_def split: option.splits)
    define s1 where "s1 = s\<lparr>lg_messages := (lg_messages s)(src f := e), lg_lines := lg_lines s @ (case l of None \<Rightarrow> [] | Some m \<Rightarrow> [(src f, m)])\<rparr>"
    have st: "syslog_step f s = Some s1" using True l by (simp add: syslog_step_def s1_def)
    have b: "board_run (map data (of_board a fs)) (lg_messages s1 a) \<noteq> None" for a
      using Cons.prems [of a] True l by (auto simp: of_board_def s1_def split: option.splits if_splits)
    from Cons.IH [OF b] obtain s' where s': "syslog_run fs s1 = Some s'"
      "\<And>a. \<exists>ls. board_run (map data (of_board a fs)) (lg_messages s1 a) =
         Some (lg_messages s' a, ls) \<and> lines_of a s' = lines_of a s1 @ ls" by blast
    have "\<exists>ls. board_run (map data (of_board a (f # fs))) (lg_messages s a) =
        Some (lg_messages s' a, ls) \<and> lines_of a s' = lines_of a s @ ls" for a
    proof -
      from s'(2) [of a] obtain ls where ls: "board_run (map data (of_board a fs)) (lg_messages s1 a) = Some (lg_messages s' a, ls)"
        "lines_of a s' = lines_of a s1 @ ls" by blast
      show ?thesis
      proof (cases "a = src f")
        case a: True
        have "lg_messages s1 a = e" "lines_of a s1 = lines_of a s @ (case l of None \<Rightarrow> [] | Some m \<Rightarrow> [m])"
          by (auto simp: s1_def a lines_of_def split: option.splits)
        then show ?thesis using ls True l a by (auto simp: of_board_def)
      next
        case a: False
        then have "lg_messages s1 a = lg_messages s a" "lines_of a s1 = lines_of a s"
          by (auto simp: s1_def lines_of_def split: option.splits)
        then show ?thesis using ls a by (auto simp: of_board_def)
      qed
    qed
    then show ?thesis using st s'(1) by auto
  qed
qed

text \<open>
  Property C19. However the frames of the boards interleave on the bus, and whatever else passes, the
  host prints, for every board, exactly the messages the board wrote, each with its priority and
  its line end, in their order, and keeps nothing over, given that no text contains a line end or
  the code of its priority and each has 7 to 125 characters.
\<close>

theorem messages_survive_interleaving:
  assumes "\<And>a. of_board a fs = concat (map (\<lambda>(p, t). sent_frames (canix_syslog_P (level a) a p t)) (ms a))"
    and "\<And>a. \<forall>(p, t) \<in> set (ms a). loggable p t \<and> 7 \<le> length t \<and> length t \<le> 125 \<and> p \<le> level a"
  shows "\<exists>s. syslog_run fs syslog_start = Some s \<and>
    (\<forall>a. lines_of a s = map (\<lambda>(p, t). (p, t @ [10])) (ms a) \<and> lg_messages s a = None)"
proof -
  have "map data (of_board a fs) = concat (map (\<lambda>(p, t). map data (sent_frames (canix_syslog_P (level a) a p t))) (ms a))" for a
    unfolding assms(1) by (simp add: map_concat comp_def split_def)
  then have b: "board_run (map data (of_board a fs)) (lg_messages syslog_start a) = Some (None, map (\<lambda>(p, t). (p, t @ [10])) (ms a))" for a
    using board_run_messages [OF assms(2), of a a] by (simp add: syslog_start_def)
  from syslog_run_board [of fs syslog_start] b
  obtain s where "syslog_run fs syslog_start = Some s" "\<And>a. \<exists>ls. Some (None, map (\<lambda>(p, t). (p, t @ [10])) (ms a)) =
      Some (lg_messages s a, ls) \<and> lines_of a s = lines_of a syslog_start @ ls" by auto
  then show ?thesis by (auto simp: lines_of_def syslog_start_def)
qed

text \<open>Two boards whose messages interleave frame by frame.\<close>

definition two_boards :: "canix_frame list" where
  "two_boards = (let f = (\<lambda>a. sent_frames (canix_syslog_P 3 a 2 [65, 66, 67, 68, 69, 70, 71, 72, 73]))
     in concat (map (\<lambda>(x, y). [x, y]) (zip (f 5) (f 6))))"

definition two_messages :: "u16 \<Rightarrow> (u8 \<times> u8 list) list" where
  "two_messages a = (if a = 5 \<or> a = 6 then [(2, [65, 66, 67, 68, 69, 70, 71, 72, 73])] else [])"

lemma two_boards_frames: "of_board a two_boards = concat (map (\<lambda>(p, t). sent_frames (canix_syslog_P 3 a p t)) (two_messages a))"
proof -
  have "sent_frames (canix_syslog_P 3 a 2 [65, 66, 67, 68, 69, 70, 71, 72, 73]) = 
     [mk_frame a HCAN_MULTICAST_SYSLOG HCAN_PROTO_SYSLOG [2, 65, 66, 67, 68, 69, 70, 71], mk_frame a HCAN_MULTICAST_SYSLOG HCAN_PROTO_SYSLOG [72, 73, 10]]" for a
    by (simp add: canix_syslog_P_def) (simp add: syslog_loop.simps)
  then show ?thesis by (auto simp: two_boards_def two_messages_def of_board_def syslog_frame_def)
qed

theorem messages_survive_interleaving_witness:
  "\<exists>s. syslog_run two_boards syslog_start = Some s \<and>
    (\<forall>a. lines_of a s = map (\<lambda>(p, t). (p, t @ [10])) (two_messages a) \<and> lg_messages s a = None)"
  by (rule messages_survive_interleaving [OF two_boards_frames]) (auto simp: two_messages_def loggable_def)

end
