(* ===== verification/Host_Board.thy ===== *)
theory Host_Board
  imports Host_Replay Canix_Services Bootloader
begin

text \<open>
  The commands of the host for a single board (\<^verbatim>\<open>board_driver::exec_command\<close> of
  \<^verbatim>\<open>src/libhcan++/board_driver.cc\<close>): the EEPROM, the address, the type and the
  level of the text messages, the clock, the state, and the way into the boot loader and out of it. The board is
  what answers frames; the same commands are for an application and for the boot loader.
\<close>

section \<open>A session\<close>

text \<open>
  What the other end does: the frames it sends for a frame, and what happens in a second. The
  session holds the state of the other end, the frames the host's socket holds, what was printed, and the
  base and the fill character of the output, which stay as they were set.
\<close>

record 'b peer =
  p_react :: "'b \<Rightarrow> canix_frame \<Rightarrow> 'b \<times> canix_frame list"
  p_second :: "'b \<Rightarrow> 'b \<times> canix_frame list"

record 'b board_session =
  bs_src :: u16
  bs_dst :: u16
  bs_board :: 'b
  bs_rx :: "canix_frame list"
  bs_out :: string
  bs_err :: string
  bs_base :: nat
  bs_fill :: char

fun base_digits :: "nat \<Rightarrow> nat \<Rightarrow> string" where
  "base_digits b n =
     (let d = (\<lambda>k. if k < 10 then char_of (48 + k) else char_of (87 + k)) in
      if n < b \<or> b < 2 then [d n] else base_digits b (n div b) @ [d (n mod b)])"

declare base_digits.simps [simp del]

definition put :: "string \<Rightarrow> 'b board_session \<Rightarrow> 'b board_session" where
  "put t s = s\<lparr>bs_out := bs_out s @ t\<rparr>"

definition put_number :: "nat \<Rightarrow> nat \<Rightarrow> 'b board_session \<Rightarrow> 'b board_session" where
  "put_number w n s = (let t = base_digits (bs_base s) n in put (replicate (w - length t) (bs_fill s) @ t) s)"

definition put_error :: "string \<Rightarrow> 'b board_session \<Rightarrow> 'b board_session" where
  "put_error t s = s\<lparr>bs_err := bs_err s @ t\<rparr>"

text \<open>The methods \<^verbatim>\<open>send_X\<close> and \<^verbatim>\<open>recv_X\<close> of the transport.\<close>

definition send_frame :: "'b peer \<Rightarrow> canix_frame \<Rightarrow> 'b board_session \<Rightarrow> 'b board_session" where
  "send_frame p f s = (let (b, fs) = p_react p (bs_board s) f in s\<lparr>bs_board := b, bs_rx := bs_rx s @ fs\<rparr>)"

definition send_msg :: "'b peer \<Rightarrow> u8 \<Rightarrow> u8 \<Rightarrow> u8 list \<Rightarrow> 'b board_session \<Rightarrow> 'b board_session" where
  "send_msg p srv cmd ps s = send_frame p (mk_frame (bs_src s) (bs_dst s) HCAN_PROTO_SFP (srv # cmd # ps)) s"

definition recv_msg :: "u8 \<Rightarrow> u8 \<Rightarrow> nat \<Rightarrow> 'b board_session \<Rightarrow> (host_error + u8 list) \<times> 'b board_session" where
  "recv_msg srv cmd n s =
     (case recv_frame 100000 (bs_src s) (bs_rx s) of
        (Inl e, q) \<Rightarrow> (Inl e, s\<lparr>bs_rx := q\<rparr>)
      | (Inr f, q) \<Rightarrow>
          (if bs_dst s \<noteq> 0 \<and> src f \<noteq> bs_dst s then Inl (Transport_Error ''unexpected packet received: src is wrong'')
           else if unat (fsize f) \<noteq> n + 2 then Inl (Transport_Error ''unexpected size in packet received'')
           else if byte_at f 0 \<noteq> srv then Inl (Transport_Error ''unexpected packet received: service id is wrong'')
           else if byte_at f 1 \<noteq> cmd then Inl (Transport_Error ''unexpected packet received: commmand id is wrong'')
           else Inr (map (\<lambda>i. byte_at f (i + 2)) [0..<n]),
           s\<lparr>bs_rx := q\<rparr>))"

section \<open>The EEPROM\<close>

definition read_eeprom_byte :: "'b peer \<Rightarrow> u16 \<Rightarrow> 'b board_session \<Rightarrow> (host_error + u8) \<times> 'b board_session" where
  "read_eeprom_byte p a s =
     go_on (recv_msg HCAN_SRV_HMS HCAN_HMS_INTERNAL_EEPROM_READ_REPLAY 1
              (send_msg p HCAN_SRV_HMS HCAN_HMS_INTERNAL_EEPROM_READ_REQUEST [lo8 a, hi8 a] s))
       (\<lambda>bs s. (Inr (bs ! 0), s))"

text \<open>The order in which the two bytes are read is the compiler's; it is taken as written.\<close>

definition read_eeprom_word_le :: "'b peer \<Rightarrow> u16 \<Rightarrow> 'b board_session \<Rightarrow> (host_error + u16) \<times> 'b board_session" where
  "read_eeprom_word_le p a s =
     go_on (read_eeprom_byte p a s) (\<lambda>l s. go_on (read_eeprom_byte p (a + 1) s) (\<lambda>h s. (Inr (mk16 h l), s)))"

definition read_eeprom_word_be :: "'b peer \<Rightarrow> u16 \<Rightarrow> 'b board_session \<Rightarrow> (host_error + u16) \<times> 'b board_session" where
  "read_eeprom_word_be p a s =
     go_on (read_eeprom_byte p a s) (\<lambda>h s. go_on (read_eeprom_byte p (a + 1) s) (\<lambda>l s. (Inr (mk16 h l), s)))"

definition driver_write_eeprom_byte :: "'b peer \<Rightarrow> u16 \<Rightarrow> u8 \<Rightarrow> 'b board_session \<Rightarrow> (host_error + unit) \<times> 'b board_session" where
  "driver_write_eeprom_byte p a v s =
     go_on (recv_msg HCAN_SRV_HMS HCAN_HMS_INTERNAL_EEPROM_WRITE_ACK 0
              (send_msg p HCAN_SRV_HMS HCAN_HMS_INTERNAL_EEPROM_WRITE [lo8 a, hi8 a, v] s))
       (\<lambda>bs s. (Inr (), s))"

definition driver_write_eeprom_word_le :: "'b peer \<Rightarrow> u16 \<Rightarrow> u16 \<Rightarrow> 'b board_session \<Rightarrow> (host_error + unit) \<times> 'b board_session" where
  "driver_write_eeprom_word_le p a v s =
     go_on (driver_write_eeprom_byte p a (lo8 v) s) (\<lambda>_ s. driver_write_eeprom_byte p (a + 1) (hi8 v) s)"

definition driver_write_eeprom_word_be :: "'b peer \<Rightarrow> u16 \<Rightarrow> u16 \<Rightarrow> 'b board_session \<Rightarrow> (host_error + unit) \<times> 'b board_session" where
  "driver_write_eeprom_word_be p a v s =
     go_on (driver_write_eeprom_byte p a (hi8 v) s) (\<lambda>_ s. driver_write_eeprom_byte p (a + 1) (lo8 v) s)"

section \<open>The commands\<close>

definition cmd_getaddress :: "'b peer \<Rightarrow> 'b board_session \<Rightarrow> (host_error + u16) \<times> 'b board_session" where
  "cmd_getaddress p s = read_eeprom_word_le p 2 s"

definition cmd_setaddress :: "'b peer \<Rightarrow> u16 \<Rightarrow> 'b board_session \<Rightarrow> (host_error + unit) \<times> 'b board_session" where
  "cmd_setaddress p a s =
     go_on (driver_write_eeprom_word_le p 2 a s) (\<lambda>_ s.
     go_on (read_eeprom_word_le p 2 s) (\<lambda>r s.
       (Inr (), if r \<noteq> a then put_error ''error: value written to eeprom does not match read'' s else s)))"

definition boardtyps :: "u16 list" where
  "boardtyps = [2, 3, 4, 5, 6, 7, 8]"

definition cmd_setboardtyp :: "'b peer \<Rightarrow> u16 \<Rightarrow> 'b board_session \<Rightarrow> (host_error + unit) \<times> 'b board_session" where
  "cmd_setboardtyp p t s =
     (if t \<in> set boardtyps
      then go_on (driver_write_eeprom_word_le p 4 t s) (\<lambda>_ s.
           go_on (read_eeprom_word_le p 4 s) (\<lambda>r s.
             (Inr (), if r \<noteq> t then put_error ''error: boardtyp-value written to eeprom does not match read'' s else s)))
      else (Inr (), put_error (''error: boardtyp='' @ show_nat (unat t) @ '' unkown!'') s))"

definition cmd_setsysloglevel :: "'b peer \<Rightarrow> u16 \<Rightarrow> 'b board_session \<Rightarrow> 'b board_session" where
  "cmd_setsysloglevel p l s = send_msg p HCAN_SRV_HMS HCAN_HMS_SYSLOG_LEVEL_SET [lo8 l] s"

definition cmd_reset :: "'b peer \<Rightarrow> 'b board_session \<Rightarrow> 'b board_session" where
  "cmd_reset p s = send_msg p HCAN_SRV_HMS HCAN_HMS_DEVICE_RESET [] s"

definition cmd_getuptime :: "'b peer \<Rightarrow> 'b board_session \<Rightarrow> (host_error + u32) \<times> 'b board_session" where
  "cmd_getuptime p s =
     go_on (recv_msg HCAN_SRV_HMS HCAN_HMS_UPTIME_REPLAY 4 (send_msg p HCAN_SRV_HMS HCAN_HMS_UPTIME_QUERY [] s))
       (\<lambda>bs s. (Inr (of_be32 bs), s))"

definition cmd_getstate :: "'b peer \<Rightarrow> 'b board_session \<Rightarrow> (host_error + u8) \<times> 'b board_session" where
  "cmd_getstate p s =
     go_on (recv_msg HCAN_SRV_HMS HCAN_HMS_DEVICE_STATE_REPLAY 1 (send_msg p HCAN_SRV_HMS HCAN_HMS_DEVICE_STATE_REQUEST [] s))
       (\<lambda>bs s. (Inr (bs ! 0), s))"

text \<open>Twenty lines of sixteen bytes. After an exception the base stays 16.\<close>

fun dump_line :: "'b peer \<Rightarrow> nat list \<Rightarrow> u16 \<Rightarrow> 'b board_session \<Rightarrow> (host_error + u16) \<times> 'b board_session" where
  "dump_line p [] a s = (Inr a, s)"
| "dump_line p (i # is) a s =
     go_on (read_eeprom_byte p a s) (\<lambda>v s.
       let s = put '' '' (put_number 2 (unat v) s);
           s = (if i mod 4 = 3 then put '' '' s else s);
           s = (if i mod 8 = 7 then put '' '' s else s)
       in dump_line p is (a + 1) s)"

fun dump_lines :: "'b peer \<Rightarrow> nat \<Rightarrow> u16 \<Rightarrow> 'b board_session \<Rightarrow> (host_error + unit) \<times> 'b board_session" where
  "dump_lines p 0 a s = (Inr (), s)"
| "dump_lines p (Suc n) a s =
     go_on (dump_line p [0..<16] a (put ''    '' (put_number 4 (unat a) (put ''@'' s)))) (\<lambda>a s.
       dump_lines p n a (put [CHR 0x0A] s))"

definition cmd_dump_ee :: "'b peer \<Rightarrow> u16 \<Rightarrow> 'b board_session \<Rightarrow> (host_error + unit) \<times> 'b board_session" where
  "cmd_dump_ee p a s =
     go_on (dump_lines p 20 a (s\<lparr>bs_base := 16, bs_fill := CHR ''0''\<rparr>)) (\<lambda>_ s.
       (Inr (), s\<lparr>bs_base := 10, bs_fill := CHR ''0''\<rparr>))"

definition cmd_loadapp :: "'b peer \<Rightarrow> 'b board_session \<Rightarrow> 'b board_session" where
  "cmd_loadapp p s = send_msg p HCAN_SRV_HMS HCAN_HMS_DEVICE_LOAD_APP [] s"

definition pass_second :: "'b peer \<Rightarrow> 'b board_session \<Rightarrow> 'b board_session" where
  "pass_second p s = (let (b, fs) = p_second p (bs_board s) in s\<lparr>bs_board := b, bs_rx := bs_rx s @ fs\<rparr>)"

definition cmd_bootloader :: "'b peer \<Rightarrow> 'b board_session \<Rightarrow> (host_error + unit) \<times> 'b board_session" where
  "cmd_bootloader p s =
     go_on (recv_msg HCAN_SRV_HMS HCAN_HMS_DEVICE_BOOT_STOP_ACK 0
              (send_msg p HCAN_SRV_HMS HCAN_HMS_DEVICE_BOOT_STOP [] (pass_second p (cmd_reset p s))))
       (\<lambda>_ s. (Inr (), s))"

definition boardtyp_name :: "u8 \<Rightarrow> string" where
  "boardtyp_name t =
     (if t = 2 then ''Host-Interface v01, serial'' else if t = 3 then ''Controllerboard-1416''
      else if t = 4 then ''Controllerboard-1612 v01'' else if t = 5 then ''Userpanel-v01''
      else if t = 6 then ''USV Controller'' else if t = 7 then ''Zentralheizungssteuerung''
      else if t = 8 then ''Wetterstation'' else ''unknown'')"

definition arch_name :: "u8 \<Rightarrow> string" where
  "arch_name a = (if a = 0x11 then ''avr atmega32'' else if a = 0x22 then ''avr atmega644p''
     else if a = 0x33 then ''avr atmega328p'' else ''unknown'')"

definition sysloglevel_name :: "u8 \<Rightarrow> string" where
  "sysloglevel_name l = (if l = 1 then ''CRITICAL (1)'' else if l = 2 then ''ERROR (2)'' else if l = 3 then ''WARNING (3)''
     else if l = 4 then ''DEBUG (4)'' else ''unknown'')"

definition cmd_show_system :: "'b peer \<Rightarrow> 'b board_session \<Rightarrow> (host_error + unit) \<times> 'b board_session" where
  "cmd_show_system p s =
     go_on (recv_msg HCAN_SRV_HMS HCAN_HMS_DEVICE_TYPE_REPLAY 2 (send_msg p HCAN_SRV_HMS HCAN_HMS_DEVICE_TYPE_REQUEST [] s)) (\<lambda>at s.
     let s = put (''Board :         '' @ boardtyp_name (at ! 1) @ [CHR 0x0A] @ ''MCU :           '' @ arch_name (at ! 0)) s in
     go_on (recv_msg HCAN_SRV_HMS HCAN_HMS_BUILD_VERSION_REPLAY 2 (send_msg p HCAN_SRV_HMS HCAN_HMS_BUILD_VERSION_QUERY [] s)) (\<lambda>v s.
     let s = put_number 0 (unat (mk16 (v ! 0) (v ! 1))) (put ([CHR 0x0A] @ ''Build #:        '') s) in
     go_on (read_eeprom_byte p (of_nat EEPR_DEBUG_LEVEL) s) (\<lambda>l s.
       (Inr (), put ([CHR 0x0A] @ ''Sysloglevel:    '' @ sysloglevel_name l @ [CHR 0x0A]) s))))"

definition day_name :: "u8 \<Rightarrow> string" where
  "day_name d = (if d = 1 then ''Montag'' else if d = 2 then ''Dienstag'' else if d = 3 then ''Mittwoch''
     else if d = 4 then ''Donnerstag'' else if d = 5 then ''Freitag'' else if d = 6 then ''Samstag''
     else if d = 7 then ''Sonntag'' else '' ? '')"

definition cmd_show_time :: "'b peer \<Rightarrow> 'b board_session \<Rightarrow> (host_error + unit) \<times> 'b board_session" where
  "cmd_show_time p s =
     go_on (recv_msg HCAN_SRV_RTS HCAN_RTS_DATE_INFO 4 (send_msg p HCAN_SRV_RTS HCAN_RTS_DATE_REQUEST [] s)) (\<lambda>d s.
     let s = put '', '' (put_number 0 (unat (d ! 3) + 2000) (put ''.'' (put_number 0 (unat (d ! 2)) (put ''.''
               (put_number 0 (unat (d ! 1)) (put ''date: '' s)))))) in
     go_on (recv_msg HCAN_SRV_RTS HCAN_RTS_TIME_INFO 5 (send_msg p HCAN_SRV_RTS HCAN_RTS_TIME_REQUEST [] s)) (\<lambda>t s.
     let s = (put (day_name (t ! 1) @ '', '') s)\<lparr>bs_fill := CHR ''0''\<rparr> in
       (Inr (), put [CHR 0x0A] (put_number 2 (unat (t ! 4)) (put '':'' (put_number 2 (unat (t ! 3)) (put '':''
                  (put_number 2 (unat (t ! 2)) s))))))))"

section \<open>The command line\<close>

text \<open>What the command does: nothing known, something that is not defined, or a step of the session.\<close>

datatype 'b command = Unknown | Undefined | Does "'b board_session \<Rightarrow> (host_error + unit) \<times> 'b board_session"

text \<open>
  \<^verbatim>\<open>sin >> s\<close> and \<^verbatim>\<open>sin >> n\<close>; a word, or a number, that is not there leaves
  the variable as it is, and after a number that is none, or too great, nothing more is read.
  \<open>junk\<close> is what a variable without a value holds.
\<close>

definition after_number :: "string \<Rightarrow> string option" where
  "after_number is =
     (let t = dropWhile cxx_isspace is;
          t' = (if t \<noteq> [] \<and> (hd t = CHR ''-'' \<or> hd t = CHR ''+'') then tl t else t);
          ds = takeWhile cxx_isdigit t' in
      if ds = [] \<or> number_of ds > 65535 then None else Some (dropWhile cxx_isdigit t'))"

definition number_or :: "u16 \<Rightarrow> string \<Rightarrow> u16" where
  "number_or junk is = (case read_u16 is of None \<Rightarrow> junk | Some n \<Rightarrow> n)"

definition second_number :: "u16 \<Rightarrow> string \<Rightarrow> u16" where
  "second_number junk is = (case after_number is of None \<Rightarrow> junk | Some r \<Rightarrow> number_or junk r)"

text \<open>\<^verbatim>\<open>parse_raw_send_list\<close>: the bytes between the spaces.\<close>

fun space_tokens :: "string \<Rightarrow> string \<Rightarrow> string list" where
  "space_tokens [] t = (if t = [] then [] else [t])"
| "space_tokens (c # cs) t =
     (if c = CHR '' '' then (if t = [] then space_tokens cs [] else t # space_tokens cs []) else space_tokens cs (t @ [c]))"

definition parse_raw_send_list :: "u16 \<Rightarrow> string \<Rightarrow> u8 list" where
  "parse_raw_send_list junk list = map (\<lambda>t. lo8 (number_or junk t)) (space_tokens list [])"

definition print_message :: "canix_frame \<Rightarrow> 'b board_session \<Rightarrow> 'b board_session" where
  "print_message f s =
     put [CHR 0x0A] (fold (\<lambda>i s. put '' '' (put_number 0 (unat (byte_at f i)) s)) [0..<unat (fsize f)] (put ''message: '' s))"

definition cmd_send :: "'b peer \<Rightarrow> u8 list \<Rightarrow> 'b board_session \<Rightarrow> (host_error + unit) \<times> 'b board_session" where
  "cmd_send p bs s =
     (let s = send_frame p (mk_frame (bs_src s) (bs_dst s) HCAN_PROTO_SFP bs) s in
      case recv_frame 100000 (bs_src s) (bs_rx s) of
        (Inr f, q) \<Rightarrow> (Inr (), print_message f (s\<lparr>bs_rx := q\<rparr>))
      | (Inl e, q) \<Rightarrow> (Inr (), put (what e @ [CHR 0x0A]) (s\<lparr>bs_rx := q\<rparr>)))"

definition print_uptime :: "u32 \<Rightarrow> 'b board_session \<Rightarrow> 'b board_session" where
  "print_uptime u s =
     (let n = unat u; days = n div 86400; hours = n mod 86400 div 3600; minutes = n mod 3600 div 60;
          s = (put '':'' (put_number 0 hours (put '' days, '' (put_number 0 days s))))\<lparr>bs_fill := CHR ''0''\<rparr>
      in put [CHR 0x0A] (put_number 2 minutes s))"

definition state_text :: "u8 \<Rightarrow> string" where
  "state_text n =
     (if n = 0 then ''device is booting...'' @ [CHR 0x0A] else if n = 1 then ''bootloader is active.'' @ [CHR 0x0A]
      else if n = 2 then ''application is active.'' @ [CHR 0x0A] else [])"

text \<open>The text of \<^verbatim>\<open>help\<close>.\<close>

definition help_lines :: "string list" where
  "help_lines =
     [''send <d0> <d1> ...                 sends this raw frame to peer'',
      ''show system                        prints info about peer'',
      ''show uptime                        prints the uptime'',
      ''show time                          prints the time/date'',
      ''show address                       get the stored hcan address'',
      ''show state                         bootloader, booting, app'',
      ''show ee <address>                  shows a eeprom value'',
      ''dump ee <address>                  dumps a eeprom range'',
      ''set ee <address> <value>           save value to eeprom'',
      ''set address <hcan-address>         save a new hcan address'',
      ''set boardtyp <hcan-boardtyp>       save a new hcan boardtyp [3=C1416|4=C1612|5=UI]'',
      ''set sysloglevel <level>            set the syslog level [1=Critical|2=Error|3=Warning|4=Debug]'',
      ''bootloader                         boot into bootloader'',
      ''loadapp                            load the application'',
      ''reset                              generated a reset'']"

definition help_text :: string where
  "help_text = CHR 0x0A # concat (map (\<lambda>l. CHR 0x09 # l @ [CHR 0x0A]) help_lines) @ [CHR 0x0A]"

definition exec_show :: "'b peer \<Rightarrow> u16 \<Rightarrow> string \<Rightarrow> string \<Rightarrow> 'b command" where
  "exec_show p junk w r =
     (if w = ''address'' then Does (\<lambda>s. go_on (cmd_getaddress p s) (\<lambda>a s. (Inr (), put [CHR 0x0A] (put_number 0 (unat a) s))))
      else if w = ''state'' then Does (\<lambda>s. go_on (cmd_getstate p s) (\<lambda>n s. (Inr (), put (state_text n) s)))
      else if w = ''uptime'' then Does (\<lambda>s. go_on (cmd_getuptime p s) (\<lambda>u s. (Inr (), print_uptime u s)))
      else if w = ''ee'' then
        Does (\<lambda>s. go_on (read_eeprom_byte p (number_or junk r) s) (\<lambda>v s. (Inr (), put [CHR 0x0A] (put_number 0 (unat v) s))))
      else if w = ''system'' then Does (cmd_show_system p)
      else if w = ''time'' then Does (cmd_show_time p)
      else Unknown)"

definition exec_set :: "'b peer \<Rightarrow> u16 \<Rightarrow> string \<Rightarrow> string \<Rightarrow> 'b command" where
  "exec_set p junk w r =
     (if w = ''ee'' then
        (let a = number_or junk r; v = second_number junk r in
         Does (\<lambda>s. go_on (driver_write_eeprom_byte p a (lo8 v) s) (\<lambda>_ s.
                   go_on (read_eeprom_byte p a s) (\<lambda>v s. (Inr (), put [CHR 0x0A] (put_number 0 (unat v) s))))))
      else if w = ''address'' then Does (cmd_setaddress p (number_or junk r))
      else if w = ''boardtyp'' then Does (cmd_setboardtyp p (number_or junk r))
      else if w = ''sysloglevel'' then Does (\<lambda>s. (Inr (), cmd_setsysloglevel p (number_or junk r) s))
      else Unknown)"

definition exec_rest :: "'b peer \<Rightarrow> u16 \<Rightarrow> string \<Rightarrow> string \<Rightarrow> 'b command" where
  "exec_rest p junk w r =
     (if w = ''reset'' then Does (\<lambda>s. (Inr (), cmd_reset p s))
      else
        (let (d, w, r) = (if w = ''dump'' then (let (w, r) = next_word w r in (w = ''ee'', w, r)) else (False, w, r)) in
         if d then Does (cmd_dump_ee p (number_or junk r))
         else if w = ''loadapp'' then Does (\<lambda>s. (Inr (), cmd_loadapp p s))
         else if w = ''bootloader'' then Does (cmd_bootloader p)
         else if w = ''send'' then
           (let bs = parse_raw_send_list junk (takeWhile (\<lambda>c. c \<noteq> CHR 0x0A) r)
            in if length bs > 8 then Undefined else Does (cmd_send p bs))
         else if w = ''help'' then Does (\<lambda>s. (Inr (), put help_text s))
         else Unknown))"

text \<open>The word read last goes on to the comparisons that follow.\<close>

definition parse_command :: "'b peer \<Rightarrow> u16 \<Rightarrow> string \<Rightarrow> 'b command" where
  "parse_command p junk command =
     (let (w, r) = next_word [] command;
          (c, w, r) = (if w = ''show'' then (let (w, r) = next_word w r in (exec_show p junk w r, w, r)) else (Unknown, w, r)) in
      case c of
        Unknown \<Rightarrow>
          (let (c, w, r) = (if w = ''set'' then (let (w, r) = next_word w r in (exec_set p junk w r, w, r)) else (Unknown, w, r)) in
           case c of Unknown \<Rightarrow> exec_rest p junk w r | _ \<Rightarrow> c)
      | _ \<Rightarrow> c)"

text \<open>\<open>None\<close>: more than eight bytes are sent, and written behind the frame.\<close>

definition exec_command :: "'b peer \<Rightarrow> u16 \<Rightarrow> string \<Rightarrow> 'b board_session \<Rightarrow> ((host_error + bool) \<times> 'b board_session) option" where
  "exec_command p junk command s =
     (if command = [] \<or> hd command = CHR ''#'' then Some (Inr True, s)
      else (case parse_command p junk command of
              Unknown \<Rightarrow> Some (Inr False, s)
            | Undefined \<Rightarrow> None
            | Does k \<Rightarrow> Some (go_on (k s) (\<lambda>_ s. (Inr True, s)))))"

fun exec_commands :: "'b peer \<Rightarrow> u16 \<Rightarrow> string list \<Rightarrow> 'b board_session \<Rightarrow> ((host_error + bool) \<times> 'b board_session) option" where
  "exec_commands p junk [] s = Some (Inr True, s)"
| "exec_commands p junk (c # cs) s =
     (case exec_command p junk c s of
        Some (Inr True, s) \<Rightarrow> exec_commands p junk cs s
      | x \<Rightarrow> x)"

section \<open>What the commands do\<close>

lemma base_digits_10: "base_digits 10 n = dec_digits n"
proof (induction n rule: dec_digits.induct)
  case (1 n)
  then show ?case by (subst base_digits.simps, subst dec_digits.simps) (simp add: Let_def)
qed

definition idle :: "u16 \<Rightarrow> u16 \<Rightarrow> 'b board_session \<Rightarrow> bool" where
  "idle host self s \<longleftrightarrow> bs_src s = host \<and> bs_dst s = self \<and> (\<forall>f \<in> set (bs_rx s). dst f \<noteq> host) \<and> length (bs_rx s) < 100000"

definition with_board :: "'b \<Rightarrow> 'b board_session \<Rightarrow> 'b board_session" where
  "with_board b s = s\<lparr>bs_board := b, bs_rx := []\<rparr>"

lemma idle_simps [simp]:
  "idle host self s \<Longrightarrow> idle host self (with_board b s)" "with_board c (with_board b s) = with_board c s" "bs_board (with_board b s) = b"
  "bs_out (with_board b s) = bs_out s" "bs_err (with_board b s) = bs_err s" "bs_base (with_board b s) = bs_base s" "idle host self (put t s) = idle host self s"
  "idle host self (put_number w n s) = idle host self s" "idle host self (put_error t s) = idle host self s"
  "bs_board (put t s) = bs_board s" "bs_board (put_number w n s) = bs_board s" "bs_board (put_error t s) = bs_board s"
  "bs_err (put t s) = bs_err s" "bs_err (put_number w n s) = bs_err s"
  "bs_base (put t s) = bs_base s" "bs_base (put_number w n s) = bs_base s" "bs_base (put_error t s) = bs_base s"
  "bs_out (put t s) = bs_out s @ t" "bs_out (put_error t s) = bs_out s"
  by (simp_all add: idle_def with_board_def put_def put_number_def put_error_def Let_def)

lemma put_decimal: "bs_base s = 10 \<Longrightarrow> put_number 0 n s = put (show_nat n) s"
  by (simp add: put_number_def base_digits_10 show_nat_def)

text \<open>An answer is the first frame for the host; a question whose answer comes at once.\<close>

lemma fsize_of_answer: "length qs \<le> 6 \<Longrightarrow> unat (of_nat (length qs) + 2 :: u8) = length qs + 2"
proof -
  assume "length qs \<le> 6"
  then have "unat (of_nat (length qs + 2) :: u8) = length qs + 2" by (simp only: unat_of_nat) simp
  then show ?thesis by (simp add: add.commute)
qed

lemma received:
  assumes "idle host self s" and "self = 0 \<or> a = self" and "length qs = n" and "n \<le> 6"
  shows "recv_msg srv cmd n (s\<lparr>bs_board := b, bs_rx := bs_rx s @ [mk_frame a host HCAN_PROTO_SFP (srv # cmd # qs)]\<rparr>) =
    (Inr qs, with_board b s)"
proof -
  let ?g = "mk_frame a host HCAN_PROTO_SFP (srv # cmd # qs)"
  have r: "recv_frame 100000 host (bs_rx s @ [?g]) = (Inr ?g, [])"
    using assms(1) by (intro recv_frame_skips) (simp_all add: idle_def)
  have "map (\<lambda>i. byte_at ?g (i + 2)) [0..<n] = qs"
    using assms(3) by (auto simp: nth_default_def intro!: nth_equalityI)
  then show ?thesis
    using assms r fsize_of_answer [of qs] by (auto simp: recv_msg_def idle_def with_board_def add.commute)
qed

lemma answered:
  assumes "idle host self s"
    and "p_react p (bs_board s) (mk_frame host self HCAN_PROTO_SFP (srv # cmd # ps)) = (b', [mk_frame self host HCAN_PROTO_SFP (srv' # cmd' # qs)])"
    and "length qs = n" and "n \<le> 6"
  shows "recv_msg srv' cmd' n (send_msg p srv cmd ps s) = (Inr qs, with_board b' s)"
proof -
  have "send_msg p srv cmd ps s = s\<lparr>bs_board := b', bs_rx := bs_rx s @ [mk_frame self host HCAN_PROTO_SFP (srv' # cmd' # qs)]\<rparr>"
    using assms(1,2) by (simp add: send_msg_def send_frame_def idle_def)
  then show ?thesis using received [OF assms(1) _ assms(3,4), of self srv' cmd' b'] by simp
qed

text \<open>
  A board that answers the questions about its EEPROM: what the commands rely on, of the
  application and of the boot loader.
\<close>

locale eeprom_peer =
  fixes p :: "'b peer" and okay :: "'b \<Rightarrow> bool" and mem :: "'b \<Rightarrow> eeprom" and host self :: u16
  assumes answers_write: "okay b \<Longrightarrow> \<exists>b'. p_react p b (mk_frame host self HCAN_PROTO_SFP
        [HCAN_SRV_HMS, HCAN_HMS_INTERNAL_EEPROM_WRITE, lo8 a, hi8 a, v]) =
      (b', [mk_frame self host HCAN_PROTO_SFP [HCAN_SRV_HMS, HCAN_HMS_INTERNAL_EEPROM_WRITE_ACK]]) \<and>
      okay b' \<and> mem b' = (mem b)(unat a := v)"
    and answers_read: "okay b \<Longrightarrow> \<exists>b'. p_react p b (mk_frame host self HCAN_PROTO_SFP
        [HCAN_SRV_HMS, HCAN_HMS_INTERNAL_EEPROM_READ_REQUEST, lo8 a, hi8 a]) =
      (b', [mk_frame self host HCAN_PROTO_SFP [HCAN_SRV_HMS, HCAN_HMS_INTERNAL_EEPROM_READ_REPLAY, mem b (unat a)]]) \<and>
      okay b' \<and> mem b' = mem b"
begin

lemma byte_written:
  assumes "idle host self s" and "okay (bs_board s)"
  obtains b where "driver_write_eeprom_byte p a v s = (Inr (), with_board b s)" "okay b"
    "mem b = (mem (bs_board s))(unat a := v)"
proof -
  obtain b where b: "p_react p (bs_board s) (mk_frame host self HCAN_PROTO_SFP
        [HCAN_SRV_HMS, HCAN_HMS_INTERNAL_EEPROM_WRITE, lo8 a, hi8 a, v]) =
      (b, [mk_frame self host HCAN_PROTO_SFP [HCAN_SRV_HMS, HCAN_HMS_INTERNAL_EEPROM_WRITE_ACK]])"
    "okay b" "mem b = (mem (bs_board s))(unat a := v)" using answers_write [OF assms(2)] by blast
  from answered [OF assms(1) b(1)] that b(2,3) show ?thesis by (simp add: driver_write_eeprom_byte_def)
qed

lemma byte_read:
  assumes "idle host self s" and "okay (bs_board s)"
  obtains b where "read_eeprom_byte p a s = (Inr (mem (bs_board s) (unat a)), with_board b s)" "okay b"
    "mem b = mem (bs_board s)"
proof -
  obtain b where b: "p_react p (bs_board s) (mk_frame host self HCAN_PROTO_SFP
        [HCAN_SRV_HMS, HCAN_HMS_INTERNAL_EEPROM_READ_REQUEST, lo8 a, hi8 a]) =
      (b, [mk_frame self host HCAN_PROTO_SFP [HCAN_SRV_HMS, HCAN_HMS_INTERNAL_EEPROM_READ_REPLAY, mem (bs_board s) (unat a)]])"
    "okay b" "mem b = mem (bs_board s)" using answers_read [OF assms(2)] by blast
  from answered [OF assms(1) b(1)] that b(2,3) show ?thesis by (simp add: read_eeprom_byte_def)
qed

lemma word_written:
  assumes "idle host self s" and "okay (bs_board s)"
  obtains b where "driver_write_eeprom_word_le p a v s = (Inr (), with_board b s)" "okay b"
    "mem b = (mem (bs_board s))(unat a := lo8 v, unat (a + 1) := hi8 v)"
proof -
  obtain b where b: "driver_write_eeprom_byte p a (lo8 v) s = (Inr (), with_board b s)" "okay b"
    "mem b = (mem (bs_board s))(unat a := lo8 v)" by (rule byte_written [OF assms])
  obtain b' where "driver_write_eeprom_byte p (a + 1) (hi8 v) (with_board b s) = (Inr (), with_board b' s)" "okay b'"
    "mem b' = (mem b)(unat (a + 1) := hi8 v)"
    using byte_written [of "with_board b s" "a + 1" "hi8 v"] assms(1) b(2) by auto
  with that b show ?thesis by (simp add: driver_write_eeprom_word_le_def)
qed

lemma word_read:
  assumes "idle host self s" and "okay (bs_board s)"
  obtains b where "read_eeprom_word_le p a s =
      (Inr (mk16 (mem (bs_board s) (unat (a + 1))) (mem (bs_board s) (unat a))), with_board b s)" "okay b"
    "mem b = mem (bs_board s)"
proof -
  obtain b where b: "read_eeprom_byte p a s = (Inr (mem (bs_board s) (unat a)), with_board b s)" "okay b"
    "mem b = mem (bs_board s)" by (rule byte_read [OF assms])
  obtain b' where "read_eeprom_byte p (a + 1) (with_board b s) = (Inr (mem b (unat (a + 1))), with_board b' s)" "okay b'"
    "mem b' = mem b"
    using byte_read [of "with_board b s" "a + 1"] assms(1) b(2) by auto
  with that b show ?thesis by (simp add: read_eeprom_word_le_def)
qed

text \<open>A word that is written is the word that is read.\<close>

lemma address_set:
  assumes "idle host self s" and "okay (bs_board s)"
  obtains b where "cmd_setaddress p v s = (Inr (), with_board b s)" "okay b"
    "mem b = (mem (bs_board s))(2 := lo8 v, 3 := hi8 v)"
proof -
  obtain b where b: "driver_write_eeprom_word_le p 2 v s = (Inr (), with_board b s)" "okay b"
    "mem b = (mem (bs_board s))(2 := lo8 v, 3 := hi8 v)" using word_written [OF assms, of 2 v] by auto
  obtain b' where "read_eeprom_word_le p 2 (with_board b s) = (Inr v, with_board b' s)" "okay b'" "mem b' = mem b"
    using word_read [of "with_board b s" 2] assms(1) b by auto
  with that b show ?thesis by (simp add: cmd_setaddress_def)
qed

lemma boardtyp_set:
  assumes "idle host self s" and "okay (bs_board s)" and "v \<in> set boardtyps"
  obtains b where "cmd_setboardtyp p v s = (Inr (), with_board b s)" "okay b"
    "mem b = (mem (bs_board s))(EEPR_BOARD_TYPE := lo8 v, EEPR_DEBUG_LEVEL := 0)"
proof -
  obtain b where b: "driver_write_eeprom_word_le p 4 v s = (Inr (), with_board b s)" "okay b"
    "mem b = (mem (bs_board s))(4 := lo8 v, 5 := hi8 v)" using word_written [OF assms(1,2), of 4 v] by auto
  have "hi8 v = 0" using assms(3) by (auto simp: boardtyps_def hi8_def)
  obtain b' where "read_eeprom_word_le p 4 (with_board b s) = (Inr v, with_board b' s)" "okay b'" "mem b' = mem b"
    using word_read [of "with_board b s" 4] assms(1) b by auto
  with that b \<open>hi8 v = 0\<close> assms(3) show ?thesis by (simp add: cmd_setboardtyp_def)
qed

lemma address_got:
  assumes "idle host self s" and "okay (bs_board s)"
  obtains b where "cmd_getaddress p s = (Inr (mk16 (mem (bs_board s) 3) (mem (bs_board s) 2)), with_board b s)" "okay b"
    "mem b = mem (bs_board s)"
  using word_read [OF assms, of 2] by (auto simp: cmd_getaddress_def)

end

section \<open>Words of commands\<close>

lemma command_number:
  assumes "n < 65536"
  shows "number_or junk (CHR '' '' # show_nat n) = of_nat n"
proof -
  have "read_number 0 65535 (CHR '' '' # dec_digits n @ []) = read_number 0 65535 (dec_digits n @ [])"
    by (simp add: read_number_def)
  then have "read_number 0 65535 (CHR '' '' # dec_digits n) = Some (int n)"
    using read_number_digits [of 0 n 65535 "[]"] assms by simp
  then show ?thesis by (simp add: number_or_def read_u16_def show_nat_def)
qed

lemma parsed_set:
  assumes "is_word w"
  shows "parse_command p junk (''set '' @ w @ r) =
    (case next_word ''set'' (CHR '' '' # w @ r) of (w, r) \<Rightarrow> (case exec_set p junk w r of Unknown \<Rightarrow> exec_rest p junk w r | c \<Rightarrow> c))"
proof -
  have "next_word [] (''set'' @ CHR '' '' # w @ r) = (''set'', CHR '' '' # w @ r)"
    by (rule next_word_first) (simp_all add: is_word_def cxx_isspace_def)
  then show ?thesis by (simp add: parse_command_def Let_def case_prod_beta split: command.splits)
qed

text \<open>
  The driver of a board is offered every line first. It has no use for those of a listed configuration, as no field of
  \<^verbatim>\<open>eds.xml\<close> has the name of one of its words; a field that had one would be lost to it.
\<close>

definition driver_words :: "string list" where
  "driver_words = [''ee'', ''address'', ''boardtyp'', ''sysloglevel'', ''reset'', ''dump'', ''loadapp'', ''bootloader'', ''send'', ''help'']"

lemma configuration_line_passed_on:
  assumes "is_word (f_name f)" and "f_name f \<notin> set driver_words"
  shows "parse_command p junk (conf_line f t) = Unknown"
proof -
  have "read_word (''  '' @ ''set'' @ '' '' @ f_name f @ '' '' @ t) = (Some ''set'', '' '' @ f_name f @ '' '' @ t)"
    by (rule read_word_word) (simp_all add: cxx_isspace_def)
  then have 1: "next_word [] (conf_line f t) = (''set'', CHR '' '' # f_name f @ CHR '' '' # t)"
    by (simp add: next_word_def conf_line_def)
  have 2: "next_word ''set'' (CHR '' '' # f_name f @ CHR '' '' # t) = (f_name f, CHR '' '' # t)"
    by (rule next_word_spaced [OF assms(1)]) simp
  show ?thesis
    using assms(2) by (simp add: parse_command_def 1 2 exec_set_def exec_rest_def driver_words_def)
qed

lemma create_and_exit_passed_on:
  assumes "is_word n"
  shows "parse_command p junk (''create '' @ n) = Unknown" and "parse_command p junk ''exit'' = Unknown"
  using next_word_first [of "''create''" "CHR '' '' # n" "[]"] next_word_first [of "''exit''" "[]" "[]"]
  by (simp_all add: parse_command_def exec_rest_def)
text \<open>An unknown word after \<^verbatim>\<open>show\<close> is taken for a command of its own: the board is reset.\<close>

lemma show_reset_resets: "parse_command p junk ''show reset'' = Does (\<lambda>s. (Inr (), cmd_reset p s))"
proof -
  have "next_word [] (''show'' @ CHR '' '' # ''reset'') = (''show'', CHR '' '' # ''reset'')"
    by (rule next_word_first) (simp_all add: is_word_def cxx_isspace_def)
  moreover have "next_word ''show'' (CHR '' '' # ''reset'' @ []) = (''reset'', [])"
    by (rule next_word_spaced) (simp_all add: is_word_def cxx_isspace_def)
  ultimately show ?thesis by (simp add: parse_command_def exec_show_def exec_rest_def Let_def)
qed

end
