(* ===== verification/Host_Console.thy ===== *)
theory Host_Console
  imports Host_Board
begin

text \<open>
  A board under the commands of the host: its application with the management and the time
  service, and its boot loader, with the ways from one to the other. It is an instance of the peer
  of \<^verbatim>\<open>Host_Board\<close>, so that the commands are proved for both at once.
\<close>

section \<open>The board\<close>

text \<open>
  What does not change: signature, versions and error counters, the boot loader's parameters, the flags of the
  reset, and what its buffers hold when it starts.
\<close>

record 'f board_hw =
  bh_env :: hms_env
  bh_config :: "'f bl_config"
  bh_flags :: u8
  bh_buffer :: "u8 list"
  bh_data :: "u8 list"

datatype 'f board =
    Application u16 hms_state canix_rtc_clock 'f
  | Boot_Loader "'f bl_state"
  | Lost

definition stored_address :: "eeprom \<Rightarrow> u16" where
  "stored_address m = mk16 (m (EEPR_SELF_ADDR + 1)) (m EEPR_SELF_ADDR) AND 0x3ff"

text \<open>The start of the boot loader, and that of the application (its services; the devices are not part of this model).\<close>

definition boot_start :: "'f board_hw \<Rightarrow> eeprom \<Rightarrow> 'f \<Rightarrow> 'f board \<times> can_msg list" where
  "boot_start hw m f = (let (st, out) = bl_main_start m f (bh_flags hw) (bh_buffer hw) (bh_data hw) in (Boot_Loader st, out))"

definition app_start :: "eeprom \<Rightarrow> 'f \<Rightarrow> 'f board" where
  "app_start m f = Application (stored_address m)
     \<lparr>eep = m, debug_level = m EEPR_DEBUG_LEVEL, cnt_rx_received = 0, cnt_rx_lost = 0, cnt_tx_sent = 0, cnt_tx_dropped = 0\<rparr>
     canix_rtc_init f"

definition boot_outcome :: "'f board_hw \<Rightarrow> 'f bl_outcome \<times> can_msg list \<Rightarrow> 'f board \<times> can_msg list" where
  "boot_outcome hw r =
     (case r of
        (Runs st, out) \<Rightarrow> (Boot_Loader st, out)
      | (Starts_App st, out) \<Rightarrow> (app_start (ee st) (fl st), out)
      | (Waits_For_Reset st, out) \<Rightarrow> (let (b, out') = boot_start hw (ee st) (fl st) in (b, out @ out'))
      | (Buffer_Overrun st, out) \<Rightarrow> (Lost, out))"

definition can_to_frame :: "can_msg \<Rightarrow> canix_frame" where
  "can_to_frame m = frame_of_ext (fst m) (of_nat (length (snd m))) (snd m)"

definition frame_to_can :: "canix_frame \<Rightarrow> can_msg" where
  "frame_to_can f = (take_bit 29 (extid_of f HCAN_PRIO_LOW), data f)"

text \<open>The application's answer to a frame: the callbacks for its own address.\<close>

definition app_react :: "'f board_hw \<Rightarrow> u16 \<Rightarrow> hms_state \<Rightarrow> canix_rtc_clock \<Rightarrow> 'f \<Rightarrow> canix_frame \<Rightarrow> 'f board \<times> canix_frame list" where
  "app_react hw self h c f fr =
     (if dst fr = self \<and> proto fr = HCAN_PROTO_SFP \<and> byte_at fr 0 = HCAN_SRV_HMS
      then (case canix_SFP_HMS_handler ((bh_env hw)\<lparr>hms_self := self, uptime := uptime_sec c\<rparr>) h fr of
              Some (h, os) \<Rightarrow> (Application self h c f, sent_frames os)
            | None \<Rightarrow> (let (b, out) = boot_start hw (eep h) f in (b, map can_to_frame out)))
      else if dst fr = self \<and> proto fr = HCAN_PROTO_SFP \<and> byte_at fr 0 = HCAN_SRV_RTS
      then (let (c, os) = canix_SFP_RTS_handler self c fr in (Application self h c f, sent_frames os))
      else (Application self h c f, []))"

fun board_react :: "'f board_hw \<Rightarrow> 'f board \<Rightarrow> canix_frame \<Rightarrow> 'f board \<times> canix_frame list" where
  "board_react hw (Application self h c f) fr = app_react hw self h c f fr"
| "board_react hw (Boot_Loader st) fr =
     (let (b, out) = boot_outcome hw (bl_iteration (bh_config hw) st (Some (frame_to_can fr))) in (b, map can_to_frame out))"
| "board_react hw Lost fr = (Lost, [])"

text \<open>A second: the clock, or ten iterations of the boot loader, which waits a tenth of a second for a message.\<close>

fun board_second :: "'f board_hw \<Rightarrow> 'f board \<Rightarrow> 'f board \<times> canix_frame list" where
  "board_second hw (Application self h c f) = (Application self h (canix_update_datetime (c\<lparr>uptime_sec := uptime_sec c + 1\<rparr>)) f, [])"
| "board_second hw (Boot_Loader st) =
     (let (b, out) = boot_outcome hw (bl_run (bh_config hw) (replicate 10 None) (Runs st)) in (b, map can_to_frame out))"
| "board_second hw Lost = (Lost, [])"

definition board_peer :: "'f board_hw \<Rightarrow> 'f board peer" where
  "board_peer hw = \<lparr>p_react = board_react hw, p_second = board_second hw\<rparr>"

section \<open>Its EEPROM\<close>

fun board_eeprom :: "'f board \<Rightarrow> eeprom" where
  "board_eeprom (Application self h c f) = eep h"
| "board_eeprom (Boot_Loader st) = ee st"
| "board_eeprom Lost = (\<lambda>_. 0)"

text \<open>The board answers at an address: its application, or its boot loader, told to stay.\<close>

definition stays :: "'f board_hw \<Rightarrow> u16 \<Rightarrow> 'f bl_state \<Rightarrow> bool" where
  "stays hw self st \<longleftrightarrow> bl_inv (bh_config hw) st \<and> bootCounter st = 0 \<and> bl_self_addr st = self"

fun answers_at :: "'f board_hw \<Rightarrow> u16 \<Rightarrow> 'f board \<Rightarrow> bool" where
  "answers_at hw a (Application self h c f) = (self = a)"
| "answers_at hw a (Boot_Loader st) = stays hw a st"
| "answers_at hw a Lost = False"

text \<open>The identifiers of the messages between host and boot loader.\<close>

lemma ten_bits: "unat (a :: u16) < 1024 \<Longrightarrow> bit a n \<Longrightarrow> n < 10"
proof -
  assume "unat a < 1024" "bit a n"
  then have "take_bit 10 a = a" by (simp add: word_unat_eq_iff unsigned_take_bit_eq take_bit_nat_eq_self)
  then show ?thesis using \<open>bit a n\<close> by (metis bit_take_bit_iff)
qed

lemma mask_10: "(0x3ff :: 'w::len word) = mask 10" "(7 :: 'w word) = mask 3"
  by (simp_all add: mask_eq_exp_minus_1)

lemma ucast_low: "(ucast (x AND 0x3ff :: u32) :: u16) = a \<Longrightarrow> x AND 0x3ff = ucast a"
  unfolding mask_10
proof (rule bit_word_eqI)
  fix n assume e: "(ucast (x AND mask 10) :: u16) = a" and "n < LENGTH(32)"
  have "bit (ucast (x AND mask 10) :: u16) n = bit a n" by (simp only: e)
  then show "bit (x AND mask 10) n = bit (ucast a :: u32) n" using \<open>n < LENGTH(32)\<close>
    by (auto simp: bit_simps dest: bit_imp_le_length)
qed

lemma id_fields:
  assumes "\<And>n. bit w n \<longleftrightarrow> n = 0" and "i = push_bit 10 (ucast h) OR ucast s OR push_bit 20 (w :: u32)"
    and h: "\<And>n. bit (h :: u16) n \<Longrightarrow> n < 10" and s: "\<And>n. bit (s :: u16) n \<Longrightarrow> n < 10"
  shows "(ucast (i AND 0x3ff) :: u16) = s" "(ucast (drop_bit 10 i AND 0x3ff) :: u16) = h" "(ucast (drop_bit 20 i AND 7) :: u8) = 1"
  unfolding mask_10 assms(2)
  by (rule bit_word_eqI; use assms(1) h s in \<open>force simp: bit_simps\<close>)+

lemma can_id_facts:
  assumes "unat host < 1024" and "unat self < 1024"
  shows "drop_bit 10 (fst (frame_to_can (mk_frame host self HCAN_PROTO_SFP bs))) AND ADDR_MASK = ucast self"
    and "can_to_frame (bl_id self (fst (frame_to_can (mk_frame host self HCAN_PROTO_SFP bs))), cs) = mk_frame self host HCAN_PROTO_SFP cs"
proof -
  let ?i = "fst (frame_to_can (mk_frame host self HCAN_PROTO_SFP bs))"
  have "frame_of_ext ?i 0 [] = \<lparr>src = host, dst = self, proto = HCAN_PROTO_SFP, fsize = 0, data = []\<rparr>"
    using frame_of_extid [of "mk_frame host self HCAN_PROTO_SFP bs" HCAN_PRIO_LOW 0 "[]"] assms by (simp add: frame_to_can_def)
  then have f: "(ucast (?i AND 0x3ff) :: u16) = host" "(ucast (drop_bit 10 ?i AND 0x3ff) :: u16) = self"
    by (simp_all add: frame_of_ext_def)
  from ucast_low [OF f(2)] show "drop_bit 10 ?i AND ADDR_MASK = ucast self" .
  have "bl_id self ?i = push_bit 10 (ucast host) OR ucast self OR push_bit 20 1"
    unfolding bl_id_def ucast_low [OF f(1)] ..
  from id_fields [OF _ this ten_bits [OF assms(1)] ten_bits [OF assms(2)]]
  show "can_to_frame (bl_id self ?i, cs) = mk_frame self host HCAN_PROTO_SFP cs"
    by (simp add: can_to_frame_def frame_of_ext_def mk_frame_def bit_1_iff)
qed

text \<open>A message to the boot loader that is answered.\<close>

lemma boot_answer:
  assumes "unat host < 1024" and "unat self < 1024" and "bl_inv (bh_config hw) st" and "bl_self_addr st = self" and "length bs \<le> 6"
    and "bl_handle (bh_config hw) (st\<lparr>bl_data := (1 # cmd # bs) @ drop (length bs + 2) (bl_data st)\<rparr>)
        (fst (frame_to_can (mk_frame host self HCAN_PROTO_SFP (1 # cmd # bs)))) =
      (Runs st', [(bl_id self (fst (frame_to_can (mk_frame host self HCAN_PROTO_SFP (1 # cmd # bs)))), cs)])"
    and "bootCounter st' = 0"
  shows "board_react hw (Boot_Loader st) (mk_frame host self HCAN_PROTO_SFP (1 # cmd # bs)) =
      (Boot_Loader st', [mk_frame self host HCAN_PROTO_SFP cs])" and "stays hw self st'"
proof -
  let ?m = "frame_to_can (mk_frame host self HCAN_PROTO_SFP (1 # cmd # bs))"
  have m: "snd ?m = 1 # cmd # bs" by (simp add: frame_to_can_def)
  have r: "bl_receive (bh_config hw) st (Some ?m) = (Runs st', [(bl_id self (fst ?m), cs)])"
    using assms(3,4,6) can_id_facts(1) [OF assms(1,2)] m
    by (simp add: bl_receive_def case_prod_beta Let_def)
  have it: "bl_iteration (bh_config hw) st (Some ?m) = (Runs st', [(bl_id self (fst ?m), cs)])"
    using assms(7) by (simp add: bl_iteration_def r bl_countdown_def)
  show "board_react hw (Boot_Loader st) (mk_frame host self HCAN_PROTO_SFP (1 # cmd # bs)) =
      (Boot_Loader st', [mk_frame self host HCAN_PROTO_SFP cs])"
    by (simp add: it boot_outcome_def can_id_facts(2) [OF assms(1,2)])
  from bl_iteration_inv [OF assms(3), of "Some ?m"] it assms(4,5,7) show "stays hw self st'"
    by (auto simp: stays_def short_msg_def m)
qed

section \<open>The commands on it\<close>

definition reachable_at :: "'f board_hw \<Rightarrow> u16 \<Rightarrow> u16 \<Rightarrow> 'f board \<Rightarrow> bool" where
  "reachable_at hw host self b \<longleftrightarrow> answers_at hw self b \<and> unat host < 1024 \<and> unat self < 1024"

definition runs_app :: "u16 \<Rightarrow> canix_rtc_clock \<Rightarrow> 'f \<Rightarrow> 'f board \<Rightarrow> bool" where
  "runs_app self c f b \<longleftrightarrow> (\<exists>h. b = Application self h c f)"

lemma app_writes:
  "\<exists>h'. board_react hw (Application self h c f) (mk_frame host self HCAN_PROTO_SFP [HCAN_SRV_HMS, HCAN_HMS_INTERNAL_EEPROM_WRITE, lo8 a, hi8 a, v]) =
      (Application self h' c f, [mk_frame self host HCAN_PROTO_SFP [HCAN_SRV_HMS, HCAN_HMS_INTERNAL_EEPROM_WRITE_ACK]]) \<and>
      eep h' = (eep h)(unat a := v)"
  by (auto simp: app_react_def canix_SFP_HMS_handler_def hms_answer_def Let_def)

lemma app_reads:
  "board_react hw (Application self h c f) (mk_frame host self HCAN_PROTO_SFP [HCAN_SRV_HMS, HCAN_HMS_INTERNAL_EEPROM_READ_REQUEST, lo8 a, hi8 a]) =
      (Application self h c f, [mk_frame self host HCAN_PROTO_SFP [HCAN_SRV_HMS, HCAN_HMS_INTERNAL_EEPROM_READ_REPLAY, eep h (unat a)]])"
  by (simp add: app_react_def canix_SFP_HMS_handler_def hms_answer_def Let_def)

lemma board_writes:
  assumes "reachable_at hw host self b"
  shows "\<exists>b'. board_react hw b (mk_frame host self HCAN_PROTO_SFP [HCAN_SRV_HMS, HCAN_HMS_INTERNAL_EEPROM_WRITE, lo8 a, hi8 a, v]) =
      (b', [mk_frame self host HCAN_PROTO_SFP [HCAN_SRV_HMS, HCAN_HMS_INTERNAL_EEPROM_WRITE_ACK]]) \<and>
      reachable_at hw host self b' \<and> board_eeprom b' = (board_eeprom b)(unat a := v)"
proof (cases b)
  case (Application sf h c f)
  then show ?thesis using assms app_writes [of hw self h c f host a v] by (auto simp: reachable_at_def)
next
  case (Boot_Loader st)
  let ?d = "[1, 20, lo8 a, hi8 a, v] @ drop (length [lo8 a, hi8 a, v] + 2) (bl_data st)"
  let ?st = "st\<lparr>ee := (ee st)(unat a := v), bl_data := ?d[1 := 21]\<rparr>"
  have k: "stays hw self st" "unat host < 1024" "unat self < 1024" using assms by (simp_all add: reachable_at_def Boot_Loader)
  then have i: "bl_inv (bh_config hw) st" "bl_self_addr st = self" by (simp_all add: stays_def)
  have h: "bl_handle (bh_config hw) (st\<lparr>bl_data := (1 # 20 # [lo8 a, hi8 a, v]) @ drop (length [lo8 a, hi8 a, v] + 2) (bl_data st)\<rparr>) i =
      (Runs ?st, [(bl_id self i, [1, 21])])" for i
    using k(1) by (simp add: bl_handle_def bl_send_def stays_def)
  have "length [lo8 a, hi8 a, v] \<le> 6" "bootCounter ?st = 0" using k(1) by (simp_all add: stays_def)
  from boot_answer [OF k(2,3) i this(1) h this(2)] k show ?thesis
    by (simp add: reachable_at_def Boot_Loader)
next
  case Lost
  then show ?thesis using assms by (simp add: reachable_at_def)
qed

lemma board_reads:
  assumes "reachable_at hw host self b"
  shows "\<exists>b'. board_react hw b (mk_frame host self HCAN_PROTO_SFP [HCAN_SRV_HMS, HCAN_HMS_INTERNAL_EEPROM_READ_REQUEST, lo8 a, hi8 a]) =
      (b', [mk_frame self host HCAN_PROTO_SFP [HCAN_SRV_HMS, HCAN_HMS_INTERNAL_EEPROM_READ_REPLAY, board_eeprom b (unat a)]]) \<and>
      reachable_at hw host self b' \<and> board_eeprom b' = board_eeprom b"
proof (cases b)
  case (Application sf h c f)
  then show ?thesis using assms app_reads [of hw self h c f host a] by (auto simp: reachable_at_def)
next
  case (Boot_Loader st)
  let ?d = "[1, 22, lo8 a, hi8 a] @ drop (length [lo8 a, hi8 a] + 2) (bl_data st)"
  let ?st = "st\<lparr>bl_data := ?d[1 := 23, 2 := ee st (unat a)]\<rparr>"
  have k: "stays hw self st" "unat host < 1024" "unat self < 1024" using assms by (simp_all add: reachable_at_def Boot_Loader)
  then have i: "bl_inv (bh_config hw) st" "bl_self_addr st = self" by (simp_all add: stays_def)
  have h: "bl_handle (bh_config hw) (st\<lparr>bl_data := (1 # 22 # [lo8 a, hi8 a]) @ drop (length [lo8 a, hi8 a] + 2) (bl_data st)\<rparr>) i =
      (Runs ?st, [(bl_id self i, [1, 23, ee st (unat a)])])" for i
    using k(1) by (simp add: bl_handle_def bl_send_def stays_def)
  have "length [lo8 a, hi8 a] \<le> 6" "bootCounter ?st = 0" using k(1) by (simp_all add: stays_def)
  from boot_answer [OF k(2,3) i this(1) h this(2)] k show ?thesis
    by (simp add: reachable_at_def Boot_Loader)
next
  case Lost
  then show ?thesis using assms by (simp add: reachable_at_def)
qed

interpretation board_console: eeprom_peer "board_peer hw" "reachable_at hw host self" board_eeprom host self
  by unfold_locales (simp_all add: board_peer_def board_writes board_reads)

interpretation app_console: eeprom_peer "board_peer (hw :: 'f board_hw)" "runs_app self c (f :: 'f)" board_eeprom host self
proof unfold_locales
  fix b :: "'f board" and a v assume "runs_app self c f b"
  then obtain h where b: "b = Application self h c f" by (auto simp: runs_app_def)
  show "\<exists>b'. p_react (board_peer hw) b (mk_frame host self HCAN_PROTO_SFP [HCAN_SRV_HMS, HCAN_HMS_INTERNAL_EEPROM_WRITE, lo8 a, hi8 a, v]) =
      (b', [mk_frame self host HCAN_PROTO_SFP [HCAN_SRV_HMS, HCAN_HMS_INTERNAL_EEPROM_WRITE_ACK]]) \<and>
      runs_app self c f b' \<and> board_eeprom b' = (board_eeprom b)(unat a := v)"
    using app_writes [of hw self h c f host a v] by (auto simp: b board_peer_def runs_app_def)
next
  fix b :: "'f board" and a assume "runs_app self c f b"
  then obtain h where b: "b = Application self h c f" by (auto simp: runs_app_def)
  show "\<exists>b'. p_react (board_peer hw) b (mk_frame host self HCAN_PROTO_SFP [HCAN_SRV_HMS, HCAN_HMS_INTERNAL_EEPROM_READ_REQUEST, lo8 a, hi8 a]) =
      (b', [mk_frame self host HCAN_PROTO_SFP [HCAN_SRV_HMS, HCAN_HMS_INTERNAL_EEPROM_READ_REPLAY, board_eeprom b (unat a)]]) \<and>
      runs_app self c f b' \<and> board_eeprom b' = board_eeprom b"
    using app_reads [of hw self h c f host a] by (auto simp: b board_peer_def runs_app_def)
qed

section \<open>Properties\<close>

lemma hi8_of_nat: "n < 65536 \<Longrightarrow> hi8 (of_nat n :: u16) = of_nat (n div 256)"
  by (simp add: word_unat_eq_iff hi8_def unsigned_ucast_eq unsigned_drop_bit_eq drop_bit_eq_div unat_of_nat unat_div take_bit_eq_mod)

lemma lo8_of_nat: "lo8 (of_nat n :: u16) = of_nat n"
  by (simp add: word_unat_eq_iff lo8_def unsigned_ucast_eq unat_of_nat take_bit_eq_mod mod_mod_cancel)

lemma exec_does:
  assumes "parse_command p junk command = Does k" and "command \<noteq> []" and "hd command \<noteq> CHR ''#''"
  shows "exec_command p junk command s = Some (go_on (k s) (\<lambda>_ s. (Inr True, s)))"
  using assms by (simp add: exec_command_def)

lemma parsed_set_number:
  assumes "is_word w" and "n < 65536" and "exec_set p junk w (CHR '' '' # show_nat n) = Does k"
  shows "parse_command p junk (''set '' @ w @ '' '' @ show_nat n) = Does k"
  using parsed_set [OF assms(1), of p junk "CHR '' '' # show_nat n"] assms(3)
    next_word_spaced [OF assms(1), of "CHR '' '' # show_nat n" "''set''"] by simp

lemma parsed_show:
  assumes "is_word w" and "exec_show p junk w [] = Does k"
  shows "parse_command p junk (''show '' @ w) = Does k"
proof -
  have "next_word [] (''show'' @ CHR '' '' # w) = (''show'', CHR '' '' # w)"
    by (rule next_word_first) (simp_all add: is_word_def cxx_isspace_def)
  moreover have "next_word ''show'' (CHR '' '' # w @ []) = (w, [])" by (rule next_word_spaced [OF assms(1)]) simp
  ultimately show ?thesis using assms(2) by (simp add: parse_command_def Let_def)
qed

lemma parsed_word:
  assumes "is_word w" and "w \<noteq> ''show''" and "w \<noteq> ''set''"
  shows "parse_command p junk w = exec_rest p junk w []"
proof -
  have "next_word [] (w @ []) = (w, [])" by (rule next_word_first [OF assms(1)]) simp
  then show ?thesis using assms(2,3) by (simp add: parse_command_def Let_def)
qed

lemma console_words [simp]: "is_word ''address''" "is_word ''state''" "is_word ''boardtyp''" "is_word ''bootloader''" "is_word ''loadapp''"
  by code_simp+

text \<open>A board at address 7 whose application runs, and a host at 900.\<close>

definition demo_hw :: "unit board_hw" where
  "demo_hw = \<lparr>bh_env = \<lparr>hms_self = 7, signature = (0x96, 0x0A), compiled_for = ATmega644P, buildver = 900, error_counters = 0, uptime = 0\<rparr>,
     bh_config = \<lparr>bl_mcu = ATmega644P, SIGNATURE = (0x96, 0x0A), SPM_PAGESIZE = 4,
       bl_flash = \<lparr>pgm_read_byte = (\<lambda>_ _. 255), boot_page_erase = (\<lambda>_ f. f), boot_page_fill = (\<lambda>_ _ f. f), boot_page_write = (\<lambda>_ f. f)\<rparr>,
       bl_crc16_update = (\<lambda>c _. c)\<rparr>,
     bh_flags = 1, bh_buffer = [0, 0, 0, 0], bh_data = [0, 0, 0, 0, 0, 0, 0, 0]\<rparr>"

definition demo_hms :: hms_state where
  "demo_hms = \<lparr>eep = (\<lambda>_. 255)(2 := 7, 3 := 0, 5 := 4), debug_level = 4, cnt_rx_received = 0, cnt_rx_lost = 0, cnt_tx_sent = 0, cnt_tx_dropped = 0\<rparr>"

definition demo_session :: "unit board board_session" where
  "demo_session = \<lparr>bs_src = 900, bs_dst = 7, bs_board = Application 7 demo_hms canix_rtc_init (),
     bs_rx = [], bs_out = [], bs_err = [], bs_base = 10, bs_fill = CHR '' ''\<rparr>"

lemma demo_facts: "stored_address (eep demo_hms) = 7" "idle 900 7 demo_session" "bs_rx demo_session = []" "bs_base demo_session = 10"
  "bs_board demo_session = Application 7 demo_hms canix_rtc_init ()" "reachable_at demo_hw 900 7 (bs_board demo_session)"
  "length (bh_data demo_hw) = 8" "length (bh_buffer demo_hw) = SPM_PAGESIZE (bh_config demo_hw)" "bs_out demo_session = []"
  by (simp_all add: demo_hms_def demo_session_def demo_hw_def stored_address_def mk16_def idle_def reachable_at_def)

text \<open>
  Property C18. The command that sets a board's address changes the two bytes of the
  address in the EEPROM and nothing else, reports no error, and the command that shows it prints the number
  that was given, whether the board's application answers or its boot loader.
\<close>

theorem address_is_set_and_shown:
  assumes "reachable_at hw host self (bs_board s)" and "idle host self s" and "bs_base s = 10" and "n < 65536"
  shows "\<exists>s'. exec_commands (board_peer hw) junk [''set address '' @ show_nat n, ''show address''] s = Some (Inr True, s') \<and>
    bs_out s' = bs_out s @ show_nat n @ [CHR 0x0A] \<and> bs_err s' = bs_err s \<and> reachable_at hw host self (bs_board s') \<and>
    board_eeprom (bs_board s') = (board_eeprom (bs_board s))(EEPR_SELF_ADDR := of_nat n, EEPR_SELF_ADDR + 1 := of_nat (n div 256))"
proof -
  let ?p = "board_peer hw"
  obtain b where b: "cmd_setaddress ?p (of_nat n) s = (Inr (), with_board b s)" "reachable_at hw host self b"
    "board_eeprom b = (board_eeprom (bs_board s))(2 := lo8 (of_nat n), 3 := hi8 (of_nat n))"
    using board_console.address_set [OF assms(2,1), of "of_nat n"] by blast
  have "parse_command ?p junk (''set '' @ ''address'' @ '' '' @ show_nat n) = Does (cmd_setaddress ?p (of_nat n))"
    using command_number [OF assms(4)] by (intro parsed_set_number [OF _ assms(4)]) (simp_all add: exec_set_def)
  from exec_does [OF this] have 1: "exec_command ?p junk (''set address '' @ show_nat n) s = Some (Inr True, with_board b s)"
    by (simp add: b(1))
  have h: "lo8 (of_nat n) = of_nat n" "hi8 (of_nat n) = of_nat (n div 256)" "unat (of_nat n :: u16) = n"
    using assms(4) by (simp_all add: lo8_of_nat hi8_of_nat)
  obtain b' where b': "cmd_getaddress ?p (with_board b s) = (Inr (of_nat n), with_board b' s)" "reachable_at hw host self b'"
    "board_eeprom b' = board_eeprom b"
    using board_console.address_got [of host self "with_board b s" hw] assms(2) b(2,3) by auto
  have 2: "exec_command ?p junk ''show address'' (with_board b s) =
      Some (Inr True, put [CHR 0x0A] (put (show_nat n) (with_board b' s)))"
    using exec_does [OF parsed_show [where w = "''address''"], of ?p junk] b'(1) h(3) assms(3)
    by (simp add: exec_show_def put_decimal)
  show ?thesis using 1 2 b b' h by simp
qed

theorem address_is_set_and_shown_witness:
  "\<exists>s'. exec_commands (board_peer demo_hw) 0 [''set address '' @ show_nat 300, ''show address''] demo_session = Some (Inr True, s') \<and>
    bs_out s' = show_nat 300 @ [CHR 0x0A] \<and> board_eeprom (bs_board s') 2 = 44"
proof -
  from address_is_set_and_shown [OF demo_facts(6,2,4), of 300 0] demo_facts(9)
  obtain s' where "exec_commands (board_peer demo_hw) 0 [''set address '' @ show_nat 300, ''show address''] demo_session = Some (Inr True, s')"
    "bs_out s' = show_nat 300 @ [CHR 0x0A]" "board_eeprom (bs_board s') = (board_eeprom (bs_board demo_session))(EEPR_SELF_ADDR := of_nat 300, EEPR_SELF_ADDR + 1 := of_nat (300 div 256))"
    by auto
  then show ?thesis by auto
qed

text \<open>Into the boot loader and back.\<close>

lemma boot_seconds:
  assumes "bootCounter st = n" and "1 \<le> n" and "unat n + k \<le> 50"
  shows "bl_run cfg (replicate k None) (Runs st) = (Runs (st\<lparr>bootCounter := n + of_nat k\<rparr>), [])"
  using assms
proof (induction k arbitrary: st n)
  case 0
  then show ?case by simp
next
  case (Suc k)
  have n: "unat (n + 1) = unat n + 1" using Suc.prems(3) by (simp add: unat_add_lem [THEN iffD1])
  have it: "bl_iteration cfg st None = (Runs (st\<lparr>bootCounter := n + 1\<rparr>), [])"
    using Suc.prems n by (auto simp: bl_iteration_def bl_receive_def bl_countdown_def word_less_nat_alt word_le_nat_alt Let_def)
  have "bl_run cfg (replicate k None) (Runs (st\<lparr>bootCounter := n + 1\<rparr>)) =
      (Runs (st\<lparr>bootCounter := n + 1, bootCounter := n + 1 + of_nat k\<rparr>), [])"
    using Suc.prems n by (intro Suc.IH) (simp_all add: word_le_nat_alt)
  then show ?case by (simp add: it add.assoc)
qed

lemma stored_address_small: "unat (stored_address m) < 1024"
proof -
  have "unat (stored_address m) = take_bit 10 (unat (mk16 (m 3) (m 2)))"
    unfolding stored_address_def mask_10 take_bit_eq_mask [symmetric] unsigned_take_bit_eq by simp
  then show ?thesis by (simp only: take_bit_eq_mod) simp
qed

lemma boot_start_inv:
  assumes "length (bh_data hw) = 8" and "length (bh_buffer hw) = SPM_PAGESIZE (bh_config hw)"
  obtains st where "boot_start hw m f = (Boot_Loader st, [(bl_id (stored_address m) 40, take 3 ((bh_data hw)[0 := 4, 1 := 1, 2 := bh_flags hw]))])"
    "bl_inv (bh_config hw) st" "bl_self_addr st = stored_address m" "bootCounter st = 1" "ee st = m" "fl st = f"
  using assms that by (simp add: boot_start_def bl_main_start_def bl_inv_def stored_address_def Let_def)

lemma boot_message_dst:
  assumes "unat self < 1024"
  shows "dst (can_to_frame (bl_id self 40, bs)) = 40"
proof -
  have "bl_id self 40 = push_bit 10 (ucast (40 :: u16)) OR ucast self OR push_bit 20 1"
    unfolding bl_id_def by simp
  from id_fields(2) [OF _ this ten_bits [of 40] ten_bits [OF assms]]
  show ?thesis by (simp add: can_to_frame_def frame_of_ext_def bit_1_iff)
qed

lemma bootloader_entered:
  assumes "bs_board s = Application (stored_address (eep h)) h c f" and "idle host (stored_address (eep h)) s" and "bs_rx s = []"
    and "unat host < 1024" and "host \<noteq> 40"
    and "length (bh_data hw) = 8" and "length (bh_buffer hw) = SPM_PAGESIZE (bh_config hw)"
  obtains st where "cmd_bootloader (board_peer hw) s = (Inr (), with_board (Boot_Loader st) s)"
    "stays hw (stored_address (eep h)) st" "ee st = eep h" "fl st = f"
proof -
  let ?self = "stored_address (eep h)" and ?p = "board_peer hw"
  obtain st where st: "boot_start hw (eep h) f = (Boot_Loader st, [(bl_id ?self 40, take 3 ((bh_data hw)[0 := 4, 1 := 1, 2 := bh_flags hw]))])"
    "bl_inv (bh_config hw) st" "bl_self_addr st = ?self" "bootCounter st = 1" "ee st = eep h" "fl st = f"
    by (rule boot_start_inv [OF assms(6,7)])
  let ?g = "can_to_frame (bl_id ?self 40, take 3 ((bh_data hw)[0 := 4, 1 := 1, 2 := bh_flags hw]))"
  have "cmd_reset ?p s = s\<lparr>bs_board := Boot_Loader st, bs_rx := [?g]\<rparr>"
    using assms(1-3) by (simp add: cmd_reset_def send_msg_def send_frame_def idle_def board_peer_def app_react_def
        canix_SFP_HMS_handler_def Let_def st(1))
  moreover have "board_second hw (Boot_Loader st) = (Boot_Loader (st\<lparr>bootCounter := 11\<rparr>), [])"
    using boot_seconds [OF st(4), of 10 "bh_config hw"] by (simp add: boot_outcome_def)
  ultimately have r: "pass_second ?p (cmd_reset ?p s) = s\<lparr>bs_board := Boot_Loader (st\<lparr>bootCounter := 11\<rparr>), bs_rx := [?g]\<rparr>"
    by (simp add: pass_second_def board_peer_def)
  let ?s = "s\<lparr>bs_board := Boot_Loader (st\<lparr>bootCounter := 11\<rparr>), bs_rx := [?g]\<rparr>"
  have i: "idle host ?self ?s" using assms(2,5) by (simp add: idle_def boot_message_dst stored_address_small)
  let ?st = "st\<lparr>bootCounter := 11\<rparr>"
  let ?d = "(1 # 6 # ([] :: u8 list)) @ drop (length ([] :: u8 list) + 2) (bl_data ?st)"
  let ?st' = "st\<lparr>bootCounter := 0, bl_data := ?d[1 := 7]\<rparr>"
  have h: "bl_handle (bh_config hw) (?st\<lparr>bl_data := ?d\<rparr>) j = (Runs ?st', [(bl_id ?self j, [1, 7])])" for j
    using st by (simp add: bl_handle_def bl_send_def)
  have inv: "bl_inv (bh_config hw) ?st" "bl_self_addr ?st = ?self" using st by (simp_all add: bl_inv_def)
  have e: "length ([] :: u8 list) \<le> 6" "bootCounter ?st' = 0" by simp_all
  have a: "board_react hw (Boot_Loader ?st) (mk_frame host ?self HCAN_PROTO_SFP [1, 6]) =
        (Boot_Loader ?st', [mk_frame ?self host HCAN_PROTO_SFP [1, 7]])" "stays hw ?self ?st'"
    using boot_answer [OF assms(4) stored_address_small inv e(1) h e(2)] by simp_all
  have "recv_msg HCAN_SRV_HMS HCAN_HMS_DEVICE_BOOT_STOP_ACK 0 (send_msg ?p HCAN_SRV_HMS HCAN_HMS_DEVICE_BOOT_STOP [] ?s) =
      (Inr [], ?s\<lparr>bs_board := Boot_Loader ?st', bs_rx := []\<rparr>)"
    using answered [OF i, of ?p HCAN_SRV_HMS HCAN_HMS_DEVICE_BOOT_STOP "[]" "Boot_Loader ?st'" HCAN_SRV_HMS HCAN_HMS_DEVICE_BOOT_STOP_ACK "[]" 0] a(1)
    by (simp add: board_peer_def with_board_def)
  then have "cmd_bootloader ?p s = (Inr (), with_board (Boot_Loader ?st') s)"
    by (simp add: cmd_bootloader_def r with_board_def)
  then show ?thesis using a(2) st by (intro that [of ?st']) simp_all
qed

lemma state_shown:
  assumes "idle host self s" and "unat host < 1024" and "unat self < 1024" and "answers_at hw self (bs_board s)"
  obtains b where "exec_command (board_peer hw) junk ''show state'' s =
      Some (Inr True, put (state_text (case bs_board s of Boot_Loader _ \<Rightarrow> 1 | _ \<Rightarrow> 2)) (with_board b s))"
    "answers_at hw self b" "case bs_board s of Boot_Loader st \<Rightarrow> \<exists>st'. b = Boot_Loader st' \<and> ee st' = ee st \<and> fl st' = fl st | x \<Rightarrow> b = x"
proof -
  let ?p = "board_peer hw"
  let ?n = "case bs_board s of Boot_Loader _ \<Rightarrow> 1 | _ \<Rightarrow> 2"
  have "\<exists>b. board_react hw (bs_board s) (mk_frame host self HCAN_PROTO_SFP [1, 3]) = (b, [mk_frame self host HCAN_PROTO_SFP [1, 4, ?n]]) \<and>
      answers_at hw self b \<and> (case bs_board s of Boot_Loader st \<Rightarrow> \<exists>st'. b = Boot_Loader st' \<and> ee st' = ee st \<and> fl st' = fl st | x \<Rightarrow> b = x)"
  proof (cases "bs_board s")
    case (Boot_Loader st)
    let ?d = "(1 # 3 # ([] :: u8 list)) @ drop (length ([] :: u8 list) + 2) (bl_data st)"
    let ?st = "st\<lparr>bl_data := ?d[1 := 4, 2 := 1]\<rparr>"
    have k: "bl_inv (bh_config hw) st" "bl_self_addr st = self" "bootCounter st = 0"
      using assms(4) by (simp_all add: Boot_Loader stays_def)
    obtain x r where "drop (Suc (Suc 0)) (bl_data st) = x # r" using k(1) by (cases "drop (Suc (Suc 0)) (bl_data st)") (auto simp: bl_inv_def)
    then have h: "bl_handle (bh_config hw) (st\<lparr>bl_data := ?d\<rparr>) i = (Runs ?st, [(bl_id self i, [1, 4, 1])])" for i
      using k by (simp add: bl_handle_def bl_send_def)
    have e: "length ([] :: u8 list) \<le> 6" "bootCounter ?st = 0" using k by simp_all
    from boot_answer [OF assms(2,3) k(1,2) e(1) h e(2)] show ?thesis by (simp add: Boot_Loader)
  qed (use assms(4) in \<open>auto simp: app_react_def canix_SFP_HMS_handler_def hms_answer_def Let_def\<close>)
  then obtain b where b: "board_react hw (bs_board s) (mk_frame host self HCAN_PROTO_SFP [1, 3]) = (b, [mk_frame self host HCAN_PROTO_SFP [1, 4, ?n]])"
    "answers_at hw self b" "case bs_board s of Boot_Loader st \<Rightarrow> \<exists>st'. b = Boot_Loader st' \<and> ee st' = ee st \<and> fl st' = fl st | x \<Rightarrow> b = x" by blast
  have "cmd_getstate ?p s = (Inr ?n, with_board b s)"
    using answered [OF assms(1), of ?p HCAN_SRV_HMS HCAN_HMS_DEVICE_STATE_REQUEST "[]" b HCAN_SRV_HMS HCAN_HMS_DEVICE_STATE_REPLAY "[?n]" 1] b(1)
    by (simp add: cmd_getstate_def board_peer_def)
  moreover have "parse_command ?p junk (''show '' @ ''state'') = Does (\<lambda>s. go_on (cmd_getstate ?p s) (\<lambda>n s. (Inr (), put (state_text n) s)))"
    by (rule parsed_show) (simp_all add: exec_show_def)
  ultimately have "exec_command ?p junk ''show state'' s = Some (Inr True, put (state_text ?n) (with_board b s))"
    using exec_does [of ?p junk "''show '' @ ''state''"] by simp
  then show ?thesis using that b(2,3) by blast
qed

lemma app_loaded:
  assumes "idle host self s" and "unat host < 1024" and "unat self < 1024" and "bs_board s = Boot_Loader st" and "stays hw self st" and "bs_rx s = []"
  shows "cmd_loadapp (board_peer hw) s = with_board (app_start (ee st) (fl st)) s"
proof -
  let ?m = "frame_to_can (mk_frame host self HCAN_PROTO_SFP [1, 8])"
  have m: "snd ?m = [1, 8]" by (simp add: frame_to_can_def)
  have "bl_receive (bh_config hw) st (Some ?m) = (Starts_App (st\<lparr>bl_data := [1, 8] @ drop (Suc (Suc 0)) (bl_data st)\<rparr>), [])"
    using can_id_facts(1) [OF assms(2,3)] m assms(5)
    by (simp add: bl_receive_def case_prod_beta Let_def stays_def bl_handle_def)
  then have "bl_iteration (bh_config hw) st (Some ?m) = (Starts_App (st\<lparr>bl_data := [1, 8] @ drop (Suc (Suc 0)) (bl_data st)\<rparr>), [])"
    by (simp add: bl_iteration_def)
  then have "board_react hw (Boot_Loader st) (mk_frame host self HCAN_PROTO_SFP [1, 8]) = (app_start (ee st) (fl st), [])"
    by (simp add: boot_outcome_def)
  then show ?thesis
    using assms(1,4,6) by (simp add: cmd_loadapp_def send_msg_def send_frame_def board_peer_def idle_def with_board_def)
qed

lemma with_board_rx [simp]: "bs_rx (with_board b s) = []" "bs_rx (put t s) = bs_rx s"
  by (simp_all add: with_board_def put_def)

lemma app_start_answers [simp]: "answers_at hw (stored_address m) (app_start m f)" "board_eeprom (app_start m f) = m"
  by (simp_all add: app_start_def)

lemma exec_bootloader: "exec_command (board_peer hw) junk ''bootloader'' s = Some (go_on (cmd_bootloader (board_peer hw) s) (\<lambda>_ s. (Inr True, s)))"
  using exec_does [of "board_peer hw" junk "''bootloader''"] parsed_word [of "''bootloader''" "board_peer hw" junk] by (simp add: exec_rest_def)

lemma exec_loadapp: "exec_command (board_peer hw) junk ''loadapp'' s = Some (Inr True, cmd_loadapp (board_peer hw) s)"
  using exec_does [of "board_peer hw" junk "''loadapp''"] parsed_word [of "''loadapp''" "board_peer hw" junk] by (simp add: exec_rest_def)

text \<open>
  Property C17. The command \<^verbatim>\<open>bootloader\<close> brings a board whose application runs at the
  address of its EEPROM into the boot loader, where it stays and says so, and \<^verbatim>\<open>loadapp\<close>
  brings it back into its application: the memory and the flash are as they were, and the application has started anew.
\<close>

theorem into_boot_loader_and_back:
  assumes "bs_board s = Application (stored_address (eep h)) h c f" and "idle host (stored_address (eep h)) s" and "bs_rx s = []"
    and "unat host < 1024" and "host \<noteq> 40"
    and "length (bh_data hw) = 8" and "length (bh_buffer hw) = SPM_PAGESIZE (bh_config hw)"
  shows "\<exists>s'. exec_commands (board_peer hw) junk [''bootloader'', ''show state'', ''loadapp'', ''show state''] s = Some (Inr True, s') \<and>
    bs_out s' = bs_out s @ ''bootloader is active.'' @ [CHR 0x0A] @ ''application is active.'' @ [CHR 0x0A] \<and>
    bs_board s' = app_start (eep h) f"
proof -
  let ?self = "stored_address (eep h)" and ?p = "board_peer hw"
  obtain st where st: "cmd_bootloader ?p s = (Inr (), with_board (Boot_Loader st) s)" "stays hw ?self st" "ee st = eep h" "fl st = f"
    by (rule bootloader_entered [OF assms])
  let ?s1 = "with_board (Boot_Loader st) s"
  have s1: "answers_at hw ?self (bs_board ?s1)" "idle host ?self ?s1" using st(2) assms(2) by simp_all
  obtain b where b: "exec_command ?p junk ''show state'' ?s1 = Some (Inr True, put (state_text 1) (with_board b ?s1))"
    "answers_at hw ?self b" "\<exists>st'. b = Boot_Loader st' \<and> ee st' = ee st \<and> fl st' = fl st"
    by (rule state_shown [OF s1(2) assms(4) stored_address_small s1(1), of junk]) auto
  then obtain st' where st': "b = Boot_Loader st'" "ee st' = eep h" "fl st' = f" "stays hw ?self st'" using st(3,4) by auto
  let ?s2 = "put (state_text 1) (with_board b s)"
  have l: "cmd_loadapp ?p ?s2 = with_board (app_start (eep h) f) ?s2"
    using app_loaded [of host ?self ?s2 st'] assms(2,4) st' stored_address_small by simp
  let ?s3 = "with_board (app_start (eep h) f) ?s2"
  have s3: "answers_at hw ?self (bs_board ?s3)" "idle host ?self ?s3" using assms(2) by simp_all
  obtain b' where "exec_command ?p junk ''show state'' ?s3 = Some (Inr True, put (state_text 2) (with_board b' ?s3))" "b' = app_start (eep h) f"
    by (rule state_shown [OF s3(2) assms(4) stored_address_small s3(1), of junk]) (auto simp: app_start_def)
  then have "exec_commands ?p junk [''bootloader'', ''show state'', ''loadapp'', ''show state''] s =
      Some (Inr True, put (state_text 2) (with_board (app_start (eep h) f) ?s3))"
    using b(1) by (simp add: exec_bootloader exec_loadapp st(1) l)
  then show ?thesis by (simp add: state_text_def)
qed

theorem into_boot_loader_and_back_witness:
  "\<exists>s'. exec_commands (board_peer demo_hw) 0 [''bootloader'', ''show state'', ''loadapp'', ''show state''] demo_session = Some (Inr True, s') \<and>
    bs_out s' = ''bootloader is active.'' @ [CHR 0x0A] @ ''application is active.'' @ [CHR 0x0A] \<and>
    bs_board s' = app_start (eep demo_hms) ()"
  using into_boot_loader_and_back [of demo_session demo_hms canix_rtc_init "()" 900 demo_hw 0]
  unfolding demo_facts(1) demo_facts(9) using demo_facts(2,3,5,7,8) by simp

text \<open>
  Setting the type of a board silences it: the type is written as a word whose high byte is
  the level of the text messages, so that the board, once it has started anew, writes no
  message of any priority, whatever its level was.
\<close>

theorem board_type_silences_board:
  assumes "bs_board s = Application (stored_address (eep h)) h c f" and "idle host (stored_address (eep h)) s"
    and "unat host < 1024" and "host \<noteq> 40" and "of_nat n \<in> set boardtyps" and "n < 65536"
    and "length (bh_data hw) = 8" and "length (bh_buffer hw) = SPM_PAGESIZE (bh_config hw)"
  shows "\<exists>s' h'. exec_commands (board_peer hw) junk [''set boardtyp '' @ show_nat n, ''bootloader'', ''loadapp''] s = Some (Inr True, s') \<and>
    bs_board s' = Application (stored_address (eep h)) h' canix_rtc_init f \<and> eep h' EEPR_BOARD_TYPE = of_nat n \<and>
    (\<forall>prio text. prio \<noteq> 0 \<longrightarrow> canix_syslog_P (debug_level h') (stored_address (eep h)) prio text = [])"
proof -
  let ?self = "stored_address (eep h)" and ?p = "board_peer hw"
  have "runs_app ?self c f (bs_board s)" using assms(1) by (simp add: runs_app_def)
  then obtain b where b: "cmd_setboardtyp ?p (of_nat n) s = (Inr (), with_board b s)" "runs_app ?self c f b"
    "board_eeprom b = (eep h)(EEPR_BOARD_TYPE := lo8 (of_nat n), EEPR_DEBUG_LEVEL := 0)"
    using app_console.boardtyp_set [OF assms(2) _ assms(5)] assms(1) by (metis board_eeprom.simps(1))
  then obtain h1 where h1: "b = Application ?self h1 c f" "eep h1 = (eep h)(EEPR_BOARD_TYPE := of_nat n, EEPR_DEBUG_LEVEL := 0)"
    by (auto simp: runs_app_def lo8_of_nat)
  have a: "stored_address (eep h1) = ?self" by (simp add: h1(2) stored_address_def)
  have "parse_command ?p junk (''set '' @ ''boardtyp'' @ '' '' @ show_nat n) = Does (cmd_setboardtyp ?p (of_nat n))"
    using command_number [OF assms(6)] by (intro parsed_set_number [OF _ assms(6)]) (simp_all add: exec_set_def)
  from exec_does [OF this] have 1: "exec_command ?p junk (''set boardtyp '' @ show_nat n) s = Some (Inr True, with_board b s)"
    by (simp add: b(1))
  obtain st where st: "cmd_bootloader ?p (with_board b s) = (Inr (), with_board (Boot_Loader st) (with_board b s))"
    "stays hw ?self st" "ee st = eep h1" "fl st = f"
    using bootloader_entered [of "with_board b s" h1 c f host hw] assms(2-4,7,8) h1(1) a by auto
  have l: "cmd_loadapp ?p (with_board (Boot_Loader st) s) = with_board (app_start (eep h1) f) (with_board (Boot_Loader st) s)"
    using app_loaded [of host ?self "with_board (Boot_Loader st) s" st] assms(2,3) st stored_address_small by simp
  have "exec_commands ?p junk [''set boardtyp '' @ show_nat n, ''bootloader'', ''loadapp''] s = Some (Inr True, with_board (app_start (eep h1) f) s)"
    using 1 st(1) l by (simp add: exec_bootloader exec_loadapp)
  then show ?thesis using a by (simp add: app_start_def h1(2) syslog_silent)
qed

theorem board_type_silences_board_witness:
  "\<exists>s' h'. exec_commands (board_peer demo_hw) 0 [''set boardtyp '' @ show_nat 4, ''bootloader'', ''loadapp''] demo_session = Some (Inr True, s') \<and>
    bs_board s' = Application 7 h' canix_rtc_init () \<and> canix_syslog_P (debug_level h') 7 2 [65] = []"
  using board_type_silences_board [of demo_session demo_hms canix_rtc_init "()" 900 4 demo_hw 0]
  unfolding demo_facts(1) using demo_facts(2,5,7,8) by (force simp: boardtyps_def)

end
