(* ===== verification/Telican.thy ===== *)
theory Telican
  imports Complex_Main Host_Board
begin

text \<open>
  The control mode of \<^verbatim>\<open>src/telican\<close>: lines like \<^verbatim>\<open>lampe kueche ein\<close> that
  name the devices of the installation. Matching a line against a regular expression, the search in the
  installation's file and the conversion of texts into numbers are those of the libraries the program uses, and arguments here.
  \<^verbatim>\<open>tempsensor\<close>, which prints in the stream's format for floating-point numbers, is an argument, too.
\<close>

section \<open>Libraries\<close>

text \<open>
  \<open>te_regex\<close>: whether the whole line matches, and the parts in parentheses; \<open>te_find\<close>: the attributes
  of the elements that an XPath expression finds; \<open>te_u16\<close>, \<open>te_int\<close> and \<open>te_float\<close>: the
  conversions of \<^verbatim>\<open>lexical_cast\<close>, \<open>None\<close> where it throws.
\<close>

record telican_env =
  te_regex :: "string \<Rightarrow> string \<Rightarrow> string list option"
  te_find :: "string \<Rightarrow> (string \<Rightarrow> string option) list"
  te_u16 :: "string \<Rightarrow> u16 option"
  te_int :: "string \<Rightarrow> int option"
  te_float :: "string \<Rightarrow> real option"

text \<open>
  A step of a command: \<open>None\<close> where the program ends (an exception of \<^verbatim>\<open>lexical_cast\<close> that nobody
  catches, an attribute that is missing) or something is not defined.
\<close>

type_synonym ('b, 'a) step = "'b board_session \<Rightarrow> ((host_error + 'a) \<times> 'b board_session) option"

definition and_then :: "((host_error + 'a) \<times> 's) option \<Rightarrow> ('a \<Rightarrow> 's \<Rightarrow> ((host_error + 'c) \<times> 's) option) \<Rightarrow> ((host_error + 'c) \<times> 's) option" where
  "and_then r k = (case r of None \<Rightarrow> None | Some (Inl e, s) \<Rightarrow> Some (Inl e, s) | Some (Inr a, s) \<Rightarrow> k a s)"

lemma and_then_simps [simp]: "and_then None k = None" "and_then (Some (Inl e, s)) k = Some (Inl e, s)" "and_then (Some (Inr a, s)) k = k a s"
  by (simp_all add: and_then_def)

definition or_end :: "'a option \<Rightarrow> ('b, 'a) step" where
  "or_end x s = (case x of None \<Rightarrow> None | Some a \<Rightarrow> Some (Inr a, s))"

lemma or_end_simps [simp]: "or_end None s = None" "or_end (Some a) s = Some (Inr a, s)"
  by (simp_all add: or_end_def)

section \<open>The installation\<close>

fun attribute_all :: "string \<Rightarrow> (string \<Rightarrow> string option) list \<Rightarrow> string list option" where
  "attribute_all a [] = Some []"
| "attribute_all a (e # es) = (case e a of None \<Rightarrow> None | Some v \<Rightarrow> map_option (\<lambda>vs. v # vs) (attribute_all a es))"

definition query_names :: "telican_env \<Rightarrow> string \<Rightarrow> string list option" where
  "query_names te q = attribute_all ''name'' (te_find te q)"

definition query_gruppe :: "telican_env \<Rightarrow> string \<Rightarrow> ('b, u8) step" where
  "query_gruppe te q s =
     (case te_find te q of
        [] \<Rightarrow> Some (Inl (Traceable_Error ''query_gruppe: gruppe not found!''), s)
      | e # _ \<Rightarrow> and_then (or_end (e ''gruppe'') s) (\<lambda>t s. and_then (or_end (te_u16 te t) s) (\<lambda>g s. Some (Inr (lo8 g), s))))"

definition query_name :: "telican_env \<Rightarrow> string \<Rightarrow> ('b, string) step" where
  "query_name te q s =
     (case te_find te q of
        [] \<Rightarrow> Some (Inl (Traceable_Error ''query_name: gruppe not found!''), s)
      | e # _ \<Rightarrow> or_end (e ''name'') s)"

definition xpath_text :: "string \<Rightarrow> string" where
  "xpath_text t = CHR 0x27 # t @ [CHR 0x27]"

definition lampen_names :: "telican_env \<Rightarrow> string list option" where
  "lampen_names te = query_names te (''//powerport[@typ='' @ xpath_text ''lampe'' @ '']'')"

definition sonstige_names :: "telican_env \<Rightarrow> string list option" where
  "sonstige_names te = query_names te (''//powerport[@typ='' @ xpath_text ''sonstige'' @ '']'')"

definition lampe_gruppe_by_name :: "telican_env \<Rightarrow> string \<Rightarrow> ('b, u8) step" where
  "lampe_gruppe_by_name te n = query_gruppe te (''//powerport[(@typ='' @ xpath_text ''lampe'' @ '') and (@name='' @ xpath_text n @ '')]'')"

definition sonstige_gruppe_by_name :: "telican_env \<Rightarrow> string \<Rightarrow> ('b, u8) step" where
  "sonstige_gruppe_by_name te n = query_gruppe te (''//powerport[(@typ='' @ xpath_text ''sonstige'' @ '') and (@name='' @ xpath_text n @ '')]'')"

definition reedkontakt_gruppe_by_name :: "telican_env \<Rightarrow> string \<Rightarrow> ('b, u8) step" where
  "reedkontakt_gruppe_by_name te n = query_gruppe te (''//reedkontakt[@name='' @ xpath_text n @ '']'')"

definition rolladen_gruppe_by_name :: "telican_env \<Rightarrow> string \<Rightarrow> ('b, u8) step" where
  "rolladen_gruppe_by_name te n = query_gruppe te (''//rolladen[@name='' @ xpath_text n @ '']'')"

definition heizung_id_by_name :: "telican_env \<Rightarrow> string \<Rightarrow> ('b, u8) step" where
  "heizung_id_by_name te n = query_gruppe te (''//heizung[@name='' @ xpath_text n @ '']'')"

definition heizung_name_by_id :: "telican_env \<Rightarrow> u8 \<Rightarrow> ('b, string) step" where
  "heizung_name_by_id te i = query_name te (''//heizung[@gruppe='' @ xpath_text (show_nat (unat i)) @ '']'')"

section \<open>Messages\<close>

text \<open>The devices listen to the control address; \<open>bs_dst\<close> is 0, so that an answer may come from any board.\<close>

definition tell :: "'b peer \<Rightarrow> u8 list \<Rightarrow> 'b board_session \<Rightarrow> 'b board_session" where
  "tell p bs s = send_frame p (mk_frame (bs_src s) HCAN_MULTICAST_CONTROL HCAN_PROTO_SFP (HCAN_SRV_HES # bs)) s"

definition hear :: "u8 \<Rightarrow> nat \<Rightarrow> ('b, u8 list) step" where
  "hear cmd n s = Some (recv_msg HCAN_SRV_HES cmd n s)"

definition endl :: string where
  "endl = [CHR 0x0A]"

text \<open>The ends of the commands: an error is printed, and the line is not done.\<close>

definition print_exception :: "((host_error + bool) \<times> 'b board_session) option \<Rightarrow> (bool \<times> 'b board_session) option" where
  "print_exception r =
     (case r of None \<Rightarrow> None
      | Some (Inl e, s) \<Rightarrow> Some (False, put_error (what e @ endl) s)
      | Some (Inr b, s) \<Rightarrow> Some (b, s))"

fun for_names :: "(string \<Rightarrow> ('b, unit) step) \<Rightarrow> string list \<Rightarrow> ('b, unit) step" where
  "for_names body [] s = Some (Inr (), s)"
| "for_names body (n # ns) s = and_then (body n s) (\<lambda>_ s. for_names body ns s)"

definition with_fill :: "char \<Rightarrow> 'b board_session \<Rightarrow> 'b board_session" where
  "with_fill c s = s\<lparr>bs_fill := c\<rparr>"

text \<open>A line of a table: the group, a status, the name.\<close>

definition table_line :: "u8 \<Rightarrow> string \<Rightarrow> string \<Rightarrow> 'b board_session \<Rightarrow> 'b board_session" where
  "table_line g status n s = put (''     '' @ status @ ''      '' @ n @ endl) (put_number 4 (unat g) (with_fill (CHR '' '') s))"

section \<open>Lamps and other outputs\<close>

text \<open>The states of other groups, which may still come, are left out.\<close>

lemma recv_frame_shorter: "recv_frame k d q = (Inr f, r) \<Longrightarrow> length r < length q"
  by (induction k d q rule: recv_frame.induct) (auto split: if_splits)

lemma recv_msg_shorter: "recv_msg srv cmd n s = (Inr bs, s') \<Longrightarrow> length (bs_rx s') < length (bs_rx s)"
  by (auto simp: recv_msg_def dest: recv_frame_shorter split: prod.splits sum.splits if_splits)

function state_of_group :: "u8 \<Rightarrow> 'b board_session \<Rightarrow> (host_error + u8) \<times> 'b board_session" where
  "state_of_group g s =
     (case recv_msg HCAN_SRV_HES HCAN_HES_POWER_GROUP_STATE_REPLAY 3 s of
        (Inl e, s') \<Rightarrow> (Inl e, s')
      | (Inr bs, s') \<Rightarrow> if bs ! 0 \<noteq> g then state_of_group g s' else (Inr (bs ! 1), s'))"
  by pat_completeness auto
termination
  by (relation "measure (\<lambda>(g, s). length (bs_rx s))") (auto dest: recv_msg_shorter [OF sym])

definition switch_on_word :: "string \<Rightarrow> bool" where
  "switch_on_word w \<longleftrightarrow> w = ''1'' \<or> w = ''ein'' \<or> w = ''an'' \<or> w = ''on''"

definition on_off_text :: "string \<Rightarrow> u8 \<Rightarrow> string" where
  "on_off_text t status = (if status \<noteq> 0 then t else '' - '')"

definition lampe_re1 :: string where
  "lampe_re1 = ''^lampe *([[:word:]-]+) *(0|1|ein|an|aus|on|off) *$''"

definition lampe_command :: "telican_env \<Rightarrow> 'b peer \<Rightarrow> string \<Rightarrow> 'b board_session \<Rightarrow> (bool \<times> 'b board_session) option" where
  "lampe_command te p line s = print_exception
     (case te_regex te lampe_re1 line of
        Some m \<Rightarrow> and_then (lampe_gruppe_by_name te (m ! 0) s) (\<lambda>g s.
          Some (Inr True, tell p [if switch_on_word (m ! 1) then HCAN_HES_POWER_GROUP_ON else HCAN_HES_POWER_GROUP_OFF, g] s))
      | None \<Rightarrow>
          (if te_regex te ''^lampe *$'' line = None then Some (Inr False, s)
           else and_then (or_end (lampen_names te) (put (''Gruppe:  Status:   Name:'' @ endl) s)) (\<lambda>names s.
             and_then (for_names (\<lambda>i s.
               and_then (lampe_gruppe_by_name te i s) (\<lambda>g s.
               and_then (Some (state_of_group g (tell p [HCAN_HES_POWER_GROUP_STATE_QUERY, g] s))) (\<lambda>status s.
                 Some (Inr (), table_line g (on_off_text ''ein'' status) i s)))) names s)
               (\<lambda>_ s. Some (Inr True, s)))))"

definition sonstige_re1 :: string where
  "sonstige_re1 = ''^sonstige *([[:word:]-]+) *(0|1|ein|an|aus|on|off) *$''"

definition sonstige_command :: "telican_env \<Rightarrow> 'b peer \<Rightarrow> string \<Rightarrow> 'b board_session \<Rightarrow> (bool \<times> 'b board_session) option" where
  "sonstige_command te p line s = print_exception
     (case te_regex te sonstige_re1 line of
        Some m \<Rightarrow> and_then (sonstige_gruppe_by_name te (m ! 0) s) (\<lambda>g s.
          Some (Inr True, tell p [if switch_on_word (m ! 1) then HCAN_HES_POWER_GROUP_ON else HCAN_HES_POWER_GROUP_OFF, g] s))
      | None \<Rightarrow>
          (if te_regex te ''^sonstige *$'' line = None then Some (Inr False, s)
           else and_then (or_end (sonstige_names te) (put (''Gruppe:  Status:   Name:'' @ endl) s)) (\<lambda>names s.
             and_then (for_names (\<lambda>i s.
               and_then (sonstige_gruppe_by_name te i s) (\<lambda>g s.
               and_then (hear HCAN_HES_POWER_GROUP_STATE_REPLAY 3 (tell p [HCAN_HES_POWER_GROUP_STATE_QUERY, g] s)) (\<lambda>bs s.
                 Some (Inr (), table_line (bs ! 0) (on_off_text ''ein'' (bs ! 1)) i s)))) names s)
               (\<lambda>_ s. Some (Inr True, s)))))"

section \<open>Shutters and contacts\<close>

text \<open>The position goes into a byte.\<close>

definition rolladen_re1 :: string where
  "rolladen_re1 = ''^rolladen *([[:word:]-]+) *([0-9]+) *$''"

definition rolladen_command :: "telican_env \<Rightarrow> 'b peer \<Rightarrow> string \<Rightarrow> 'b board_session \<Rightarrow> (bool \<times> 'b board_session) option" where
  "rolladen_command te p line s = print_exception
     (case te_regex te rolladen_re1 line of
        Some m \<Rightarrow> and_then (rolladen_gruppe_by_name te (m ! 0) s) (\<lambda>g s.
          and_then (or_end (te_int te (m ! 1)) s) (\<lambda>pos s.
          Some (Inr True, tell p [HCAN_HES_ROLLADEN_POSITION_SET, g, word_of_int pos] s)))
      | None \<Rightarrow>
          (if te_regex te ''^rolladen *$'' line = None then Some (Inr False, s)
           else and_then (or_end (query_names te ''//rolladen'') (put (''Gruppe:  Status:   Name:'' @ endl) s)) (\<lambda>names s.
             and_then (for_names (\<lambda>i s.
               and_then (rolladen_gruppe_by_name te i s) (\<lambda>g s.
               and_then (hear HCAN_HES_ROLLADEN_POSITION_REPLAY 2 (tell p [HCAN_HES_ROLLADEN_POSITION_REQUEST, g] s)) (\<lambda>bs s.
                 Some (Inr (), put (''      '' @ i @ endl) (put_number 4 (unat (bs ! 1)) (put ''     ''
                   (put_number 4 (unat (bs ! 0)) (with_fill (CHR '' '') s)))))))) names s)
               (\<lambda>_ s. Some (Inr True, s)))))"

definition reedkontakt_command :: "telican_env \<Rightarrow> 'b peer \<Rightarrow> string \<Rightarrow> 'b board_session \<Rightarrow> (bool \<times> 'b board_session) option" where
  "reedkontakt_command te p line s = print_exception
     (if te_regex te ''^reedkontakt *$'' line = None then Some (Inr False, s)
      else and_then (or_end (query_names te ''//reedkontakt'') (put (''Gruppe:  Status:   Name:'' @ endl) s)) (\<lambda>names s.
        and_then (for_names (\<lambda>i s.
          and_then (reedkontakt_gruppe_by_name te i s) (\<lambda>g s.
          and_then (hear HCAN_HES_REEDKONTAKT_STATE_REPLAY 2 (tell p [HCAN_HES_REEDKONTAKT_STATE_QUERY, g] s)) (\<lambda>bs s.
            Some (Inr (), table_line (bs ! 0) (on_off_text ''offen'' (bs ! 1)) i s)))) names s)
          (\<lambda>_ s. Some (Inr True, s))))"

section \<open>Heatings\<close>

text \<open>
  A temperature is a number of sixteenths, always taken as one without a sign; it is printed with one digit
  after the point, and the half goes to the even digit.
\<close>

definition tenths :: "nat \<Rightarrow> nat" where
  "tenths n = (let q = n * 10 div 16; r = n * 10 mod 16 in if r > 8 \<or> r = 8 \<and> odd q then q + 1 else q)"

definition temp_text :: "u16 \<Rightarrow> string" where
  "temp_text t = show_nat (tenths (unat t) div 10) @ ''.'' @ show_nat (tenths (unat t) mod 10)"

definition pad :: "char \<Rightarrow> nat \<Rightarrow> string \<Rightarrow> string" where
  "pad c w t = replicate (w - length t) c @ t"

definition put_padded :: "nat \<Rightarrow> string \<Rightarrow> 'b board_session \<Rightarrow> 'b board_session" where
  "put_padded w t s = put (pad (bs_fill s) w t) s"

text \<open>What is known of a heating: its mode with the values of the mode, and the measured temperature.\<close>

datatype heizung_info =
    Info_Off (ist_temp: u16)
  | Info_Manuell (ist_temp: u16) u8 u16
  | Info_Thermostat (ist_temp: u16) u16 u16
  | Info_Auto (ist_temp: u16) u16

definition dauer_str :: "u16 \<Rightarrow> string" where
  "dauer_str d = pad (CHR '' '') 3 (show_nat (unat d div 60)) @ '':'' @ pad (CHR ''0'') 2 (show_nat (unat d mod 60)) @ ''min''"

definition get_ist_temp :: "'b peer \<Rightarrow> u8 \<Rightarrow> ('b, u16) step" where
  "get_ist_temp p i s =
     and_then (hear HCAN_HES_HEIZUNG_TIST_REPLAY 3 (tell p [HCAN_HES_HEIZUNG_TIST_REQUEST, i] s)) (\<lambda>bs s.
       Some (Inr (mk16 (bs ! 1) (bs ! 2)), s))"

definition any_frame :: "('b, canix_frame) step" where
  "any_frame s = (case recv_frame 100000 (bs_src s) (bs_rx s) of
     (Inl e, q) \<Rightarrow> Some (Inl e, s\<lparr>bs_rx := q\<rparr>) | (Inr f, q) \<Rightarrow> Some (Inr f, s\<lparr>bs_rx := q\<rparr>))"

definition get_details :: "'b peer \<Rightarrow> u8 \<Rightarrow> ('b, heizung_info) step" where
  "get_details p i s =
     and_then (any_frame (tell p [HCAN_HES_HEIZUNG_DETAILS_REQUEST, i] s)) (\<lambda>f s.
       let cmd = byte_at f 1; w = (\<lambda>k. mk16 (byte_at f k) (byte_at f (k + 1)));
           ask = (\<lambda>k s. and_then (get_ist_temp p i s) (\<lambda>t s. Some (Inr (k t), s))) in
       if cmd = HCAN_HES_HEIZUNG_MODE_OFF_DETAILS then ask Info_Off s
       else if cmd = HCAN_HES_HEIZUNG_MODE_MANUAL_DETAILS then ask (\<lambda>t. Info_Manuell t (byte_at f 3) (w 4)) s
       else if cmd = HCAN_HES_HEIZUNG_MODE_THERMOSTAT_DETAILS then
         and_then (get_ist_temp p i s) (\<lambda>_ s. ask (\<lambda>t. Info_Thermostat t (w 3) (w 5)) s)
       else if cmd = HCAN_HES_HEIZUNG_MODE_AUTOMATIK_DETAILS then ask (\<lambda>t. Info_Auto t (w 3)) s
       else Some (Inl (Traceable_Error ''unknown heizung mode''), s))"

definition print_header :: "'b board_session \<Rightarrow> 'b board_session" where
  "print_header s = put (''|  ID | Modus   | T(ist) | T(soll) | StGrd | Dauer     | Ort '' @ endl @
     ''+-----+---------+--------+---------+-------+-----------+----------'' @ endl) s"

definition print_info :: "heizung_info \<Rightarrow> 'b board_session \<Rightarrow> 'b board_session" where
  "print_info info s =
     (case info of
        Info_Off ist \<Rightarrow> put ''   |         |       |           | '' (put_padded 4 (temp_text ist) (put ''aus     | '' s))
      | Info_Manuell ist grad d \<Rightarrow> put (''   | '' @ dauer_str d @ '' | '') (put_number 3 (unat grad)
          (put ''   |         | '' (put_padded 4 (temp_text ist) (put ''manuell | '' s))))
      | Info_Thermostat ist soll d \<Rightarrow> put (''   | '' @ temp_text soll @ ''    |       | '' @ dauer_str d @ '' | '')
          (put_padded 4 (temp_text ist) (with_fill (CHR ''0'') (put ''therm.  | '' s)))
      | Info_Auto ist soll \<Rightarrow> put ''    |       |           | '' (put_padded 4 (temp_text soll) (put ''   | ''
          (put_padded 4 (temp_text ist) (with_fill (CHR ''0'') (put ''auto    | '' s))))))"

definition print_heizung :: "telican_env \<Rightarrow> 'b peer \<Rightarrow> u8 \<Rightarrow> ('b, unit) step" where
  "print_heizung te p i s =
     (case get_details p i (put '' | '' (put_number 3 (unat i) (put ''| '' s))) of
        None \<Rightarrow> None
      | Some (Inl e, s) \<Rightarrow> Some (Inr (), put_error (what e @ endl) s)
      | Some (Inr info, s) \<Rightarrow> and_then (heizung_name_by_id te i (print_info info s)) (\<lambda>n s. Some (Inr (), put (n @ endl) s)))"

definition print_heizungen :: "telican_env \<Rightarrow> 'b peer \<Rightarrow> ('b, unit) step" where
  "print_heizungen te p s =
     and_then (or_end (query_names te ''//heizung'') (print_header s)) (\<lambda>names s.
       for_names (\<lambda>i s. and_then (heizung_id_by_name te i s) (\<lambda>g s. print_heizung te p g s)) names s)"

text \<open>
  The orders: a duration in hours or minutes becomes seconds in 16 bits. A product that does not fit
  into an \<^verbatim>\<open>int\<close>, and a temperature that does not fit into 16 bits, are not defined.
\<close>

definition seconds_of :: "telican_env \<Rightarrow> string \<Rightarrow> int \<Rightarrow> ('b, u16) step" where
  "seconds_of te t k s = and_then (or_end (te_int te t) s) (\<lambda>n s. if n * k < 2147483648 then Some (Inr (word_of_int (n * k)), s) else None)"

definition order_manuell :: "telican_env \<Rightarrow> 'b peer \<Rightarrow> string list \<Rightarrow> int \<Rightarrow> ('b, bool) step" where
  "order_manuell te p m k s =
     and_then (heizung_id_by_name te (m ! 0) s) (\<lambda>i s.
     and_then (or_end (te_int te (m ! 1)) s) (\<lambda>grad s.
     and_then (seconds_of te (m ! 2) k s) (\<lambda>d s.
       Some (Inr True, tell p [HCAN_HES_HEIZUNG_SET_MODE_MANUAL, i, word_of_int grad, hi8 d, lo8 d] s))))"

definition order_therm :: "telican_env \<Rightarrow> 'b peer \<Rightarrow> string list \<Rightarrow> int \<Rightarrow> ('b, bool) step" where
  "order_therm te p m k s =
     and_then (heizung_id_by_name te (m ! 0) s) (\<lambda>i s.
     and_then (or_end (te_float te (m ! 1)) s) (\<lambda>temp s.
       if temp * 16 \<ge> 65536 then None
       else (let w = word_of_int \<lfloor>temp * 16\<rfloor> in
     and_then (seconds_of te (m ! 2) k s) (\<lambda>d s.
       Some (Inr True, tell p [HCAN_HES_HEIZUNG_SET_MODE_THERMOSTAT_DETAILS, i, hi8 w, lo8 w, hi8 d, lo8 d] s)))))"

text \<open>The lines with an order, each with what its parts mean; the first one that matches counts.\<close>

definition re_heizung :: "string \<Rightarrow> string" where
  "re_heizung t = ''^heizung *([[:word:]-]+)'' @ t @ ''$''"

definition heizung_res :: "string list" where
  "heizung_res =
     [''^heizung *$'',
      re_heizung '' *'',
      re_heizung '' +auto *'',
      re_heizung '' +aus *'',
      re_heizung '' +manuell +([0-9]+) +([0-9]+)([ ]{0,1})(h|H|std|Std) *'',
      re_heizung '' +manuell +([0-9]+) +([0-9]+)([ ]{0,1})(m|M|min|Min) *'',
      re_heizung '' +manuell +([0-9]+) +([0-9]+) *'',
      re_heizung ('' +therm +([0-9'' @ [CHR 0x5C] @ ''.]+) +([0-9]+)([ ]{0,1})(h|H|std|Std) *''),
      re_heizung ('' +therm +([0-9'' @ [CHR 0x5C] @ ''.]+) +([0-9]+)([ ]{0,1})(m|M|min|Min) *''),
      re_heizung ('' +therm +([0-9'' @ [CHR 0x5C] @ ''.]+) +([0-9]+) *'')]"

definition heizung_forms :: "telican_env \<Rightarrow> 'b peer \<Rightarrow> (string list \<Rightarrow> ('b, bool) step) list" where
  "heizung_forms te p =
     [\<lambda>m s. and_then (print_heizungen te p s) (\<lambda>_ s. Some (Inr True, s)),
      \<lambda>m s. and_then (heizung_id_by_name te (m ! 0) (print_header s)) (\<lambda>i s.
        and_then (print_heizung te p i s) (\<lambda>_ s. Some (Inr True, s))),
      \<lambda>m s. and_then (heizung_id_by_name te (m ! 0) s) (\<lambda>i s. Some (Inr True, tell p [HCAN_HES_HEIZUNG_SET_MODE_AUTOMATIK, i] s)),
      \<lambda>m s. and_then (heizung_id_by_name te (m ! 0) s) (\<lambda>i s. Some (Inr True, tell p [HCAN_HES_HEIZUNG_SET_MODE_OFF, i] s)),
      \<lambda>m. order_manuell te p m 3600,
      \<lambda>m. order_manuell te p m 60,
      \<lambda>m. order_manuell te p m 60,
      \<lambda>m. order_therm te p m 3600,
      \<lambda>m. order_therm te p m 60,
      \<lambda>m. order_therm te p m 60]"

fun first_match :: "telican_env \<Rightarrow> (string \<times> (string list \<Rightarrow> ('b, bool) step)) list \<Rightarrow> string \<Rightarrow> ('b, bool) step option" where
  "first_match te [] line = None"
| "first_match te ((re, k) # fs) line = (case te_regex te re line of Some m \<Rightarrow> Some (k m) | None \<Rightarrow> first_match te fs line)"

definition heizung_command :: "telican_env \<Rightarrow> 'b peer \<Rightarrow> string \<Rightarrow> 'b board_session \<Rightarrow> (bool \<times> 'b board_session) option" where
  "heizung_command te p line s = print_exception
     (case first_match te (zip heizung_res (heizung_forms te p)) line of
        Some k \<Rightarrow> k s
      | None \<Rightarrow> Some (Inr False, if te_regex te ''^heizung(.*)?$'' line \<noteq> None then put_error (''Error: Command not understood.'' @ endl) s else s))"

section \<open>A line\<close>

fun exec_line :: "(string \<Rightarrow> 'b board_session \<Rightarrow> (bool \<times> 'b board_session) option) list \<Rightarrow> string \<Rightarrow> 'b board_session \<Rightarrow> 'b board_session option" where
  "exec_line [] line s = Some s"
| "exec_line (c # cs) line s =
     (case c line s of None \<Rightarrow> None | Some (True, s) \<Rightarrow> Some s | Some (False, s) \<Rightarrow> exec_line cs line s)"

definition telican_commands ::
  "telican_env \<Rightarrow> 'b peer \<Rightarrow> (string \<Rightarrow> 'b board_session \<Rightarrow> (bool \<times> 'b board_session) option) \<Rightarrow>
   (string \<Rightarrow> 'b board_session \<Rightarrow> (bool \<times> 'b board_session) option) list" where
  "telican_commands te p tempsensor =
     [lampe_command te p, sonstige_command te p, reedkontakt_command te p, rolladen_command te p, heizung_command te p, tempsensor]"

text \<open>The lines of the user, until \<^verbatim>\<open>quit\<close> or the end of the input.\<close>

definition color_blue :: string where
  "color_blue = CHR 0x1B # ''[34;1m''"

definition color_normal :: string where
  "color_normal = CHR 0x1B # ''[30;0m''"

fun control_mode :: "telican_env \<Rightarrow> 'b peer \<Rightarrow> (string \<Rightarrow> 'b board_session \<Rightarrow> (bool \<times> 'b board_session) option) \<Rightarrow>
  string list \<Rightarrow> 'b board_session \<Rightarrow> 'b board_session option" where
  "control_mode te p tempsensor [] s = Some (put (color_normal @ endl) (put color_blue s))"
| "control_mode te p tempsensor (line # lines) s =
     (let s = put color_blue s in
      if line = ''quit'' then Some (put (color_normal @ endl) s)
      else (case exec_line (telican_commands te p tempsensor) line (put color_normal s) of
              None \<Rightarrow> None | Some s \<Rightarrow> control_mode te p tempsensor lines s))"

end
