(* ===== verification/Telican_House.thy ===== *)
theory Telican_House
  imports House Telican
begin

text \<open>
  A line of the control mode and the device it names: a lamp that is switched, and a heating that is
  given a temperature and shows it. The devices are the models of the boards' handlers; of the
  libraries only what their documentation says of the lines and texts at hand is used, as hypotheses.
\<close>

section \<open>Devices as peers\<close>

definition hears_hes :: "canix_frame \<Rightarrow> bool" where
  "hears_hes f \<longleftrightarrow> dst f = HCAN_MULTICAST_CONTROL \<and> proto f = HCAN_PROTO_SFP \<and> byte_at f 0 = HCAN_SRV_HES"

lemma hears_hes_told [simp]: "hears_hes (mk_frame a HCAN_MULTICAST_CONTROL HCAN_PROTO_SFP (HCAN_SRV_HES # bs))"
  by (simp add: hears_hes_def)

definition output_peer :: "u16 \<Rightarrow> device_data_powerport peer" where
  "output_peer self =
     \<lparr>p_react = (\<lambda>q f. if hears_hes f then (let (q, os) = powerport_can_callback self q f in (q, sent_frames os)) else (q, [])),
      p_second = (\<lambda>q. let (q, os) = powerport_timer_handler self q 1 in (q, sent_frames os))\<rparr>"

definition heating_peer :: "board_env \<Rightarrow> device_data_heizung peer" where
  "heating_peer e =
     \<lparr>p_react = (\<lambda>h f. if hears_hes f then (let (h, os) = heizung_can_callback e h f in (h, sent_frames os)) else (h, [])),
      p_second = (\<lambda>h. let (h, os) = heizung_timer_handler e h 1 in (h, sent_frames os))\<rparr>"

text \<open>What the installation's file says: the first element an expression finds has this group.\<close>

definition has_group :: "telican_env \<Rightarrow> string \<Rightarrow> u16 \<Rightarrow> bool" where
  "has_group te q g \<longleftrightarrow> (\<exists>e es t. te_find te q = e # es \<and> e ''gruppe'' = Some t \<and> te_u16 te t = Some g)"

lemma group_found: "has_group te q g \<Longrightarrow> query_gruppe te q s = Some (Inr (lo8 g), s)"
  by (auto simp: has_group_def query_gruppe_def)

section \<open>A lamp\<close>

text \<open>
  A line that orders a lamp on or off does just that to every output of the lamp's group, without an error,
  and leaves the outputs of other groups as they are; the group is the low byte of the number in the installation's file.
\<close>

theorem telican_switches_lamp:
  assumes "direct_output c (bs_board s)" and "bs_src s = host"
    and "te_regex te lampe_re1 line = Some [name, w]"
    and "has_group te (''//powerport[(@typ='' @ xpath_text ''lampe'' @ '') and (@name='' @ xpath_text name @ '')]'') g"
  shows "\<exists>s'. exec_line (telican_commands te (output_peer self) tempsensor) line s = Some s' \<and> bs_err s' = bs_err s \<and>
    powerport_get (bs_board s') = (if is_in_group (bs_board s) (lo8 g) then switch_on_word w else powerport_get (bs_board s))"
proof -
  let ?cmd = "if switch_on_word w then HCAN_HES_POWER_GROUP_ON else HCAN_HES_POWER_GROUP_OFF"
  let ?f = "mk_frame host HCAN_MULTICAST_CONTROL HCAN_PROTO_SFP [HCAN_SRV_HES, ?cmd, lo8 g]"
  have o: "group_order ?f" by (simp add: group_order_def)
  obtain q os where r: "powerport_can_callback self (bs_board s) ?f = (q, os)" by fastforce
  have q: "q = (if is_in_group (bs_board s) (lo8 g)
      then (bs_board s)\<lparr>pins := (pins (bs_board s))(c_port c := switch_on_word w), countDownTimer := 0\<rparr> else bs_board s)"
    using direct_output_switch [OF assms(1) o, of self] r by (auto split: if_splits)
  let ?s = "s\<lparr>bs_board := q, bs_rx := bs_rx s @ sent_frames os\<rparr>"
  have t: "tell (output_peer self) [?cmd, lo8 g] s = ?s"
    unfolding tell_def send_frame_def assms(2) by (simp only: output_peer_def peer.simps hears_hes_told if_True r prod.case Let_def)
  have "lampe_gruppe_by_name te name s = Some (Inr (lo8 g), s)"
    unfolding lampe_gruppe_by_name_def by (rule group_found [OF assms(4)])
  then have "lampe_command te (output_peer self) line s = Some (True, ?s)"
    unfolding lampe_command_def assms(3) by (simp only: option.case nth_Cons_0 nth_Cons_Suc One_nat_def and_then_simps t print_exception_def prod.case sum.case)
  moreover have "powerport_get q = (if is_in_group (bs_board s) (lo8 g) then switch_on_word w else powerport_get (bs_board s))"
    using assms(1) q by (auto simp: powerport_get_def direct_output_def feature_def)
  ultimately show ?thesis by (simp add: telican_commands_def)
qed

section \<open>A heating\<close>

text \<open>The heating answers the host; what it says to all does not wait for the host.\<close>

lemma heating_told:
  assumes "idle host 0 s"
  shows "tell (heating_peer e) bs s =
    s\<lparr>bs_board := fst (heizung_can_callback e (bs_board s) (hes_message host HCAN_MULTICAST_CONTROL bs)),
      bs_rx := bs_rx s @ sent_frames (snd (heizung_can_callback e (bs_board s) (hes_message host HCAN_MULTICAST_CONTROL bs)))\<rparr>"
  using assms by (simp add: tell_def send_frame_def heating_peer_def idle_def case_prod_beta Let_def hes_message_def)

lemma ist_temp_asked:
  assumes "idle host 0 s" and "i = heizung_config.c_id (device_data_heizung.config (bs_board s))"
  shows "get_ist_temp (heating_peer e) i s = Some (Inr (measure_value (bs_board s)), with_board (bs_board s) s)"
proof -
  let ?f = "hes_message host HCAN_MULTICAST_CONTROL [HCAN_HES_HEIZUNG_TIST_REQUEST, i]" and ?h = "bs_board s"
  have c: "byte_at ?f 2 = heizung_config.c_id (device_data_heizung.config ?h)" "byte_at ?f 1 = HCAN_HES_HEIZUNG_TIST_REQUEST" "src ?f = host"
    using assms(2) by (simp_all add: hes_message_def)
  have "fst (heizung_can_callback e ?h ?f) = ?h"
    using c by (simp add: heizung_can_callback_def Let_def)
  then have t: "tell (heating_peer e) [HCAN_HES_HEIZUNG_TIST_REQUEST, i] s = s\<lparr>bs_board := ?h, bs_rx := bs_rx s @ [mk_frame (board_env.self_addr e) host HCAN_PROTO_SFP
      (HCAN_SRV_HES # HCAN_HES_HEIZUNG_TIST_REPLAY # [i, hi8 (measure_value ?h), lo8 (measure_value ?h)])]\<rparr>"
    unfolding heating_told [OF assms(1)] heating_answers(2) [OF c(1,2)] c(3) using assms(2) by (simp add: hes_message_def)
  show ?thesis
    unfolding get_ist_temp_def hear_def t
    using received [OF assms(1), of "board_env.self_addr e" "[i, hi8 (measure_value ?h), lo8 (measure_value ?h)]" 3 HCAN_SRV_HES HCAN_HES_HEIZUNG_TIST_REPLAY ?h]
    by simp
qed

lemma details_asked:
  assumes "idle host 0 s" and "i = heizung_config.c_id (device_data_heizung.config (bs_board s))"
    and "mode (bs_board s) = heizung_mode.HEIZUNG_MODE_THERMOSTAT"
  shows "get_details (heating_peer e) i s =
    Some (Inr (Info_Thermostat (measure_value (bs_board s)) (thermostat_temp (bs_board s)) (duration_counter (bs_board s))), with_board (bs_board s) s)"
proof -
  let ?f = "hes_message host HCAN_MULTICAST_CONTROL [HCAN_HES_HEIZUNG_DETAILS_REQUEST, i]" and ?h = "bs_board s"
  have c: "byte_at ?f 2 = heizung_config.c_id (device_data_heizung.config ?h)" "byte_at ?f 1 = HCAN_HES_HEIZUNG_DETAILS_REQUEST" "src ?f = host"
    using assms(2) by (simp_all add: hes_message_def)
  have "fst (heizung_can_callback e ?h ?f) = ?h"
    using c by (simp add: heizung_can_callback_def Let_def)
  let ?g = "hes_message (board_env.self_addr e) host [HCAN_HES_HEIZUNG_MODE_THERMOSTAT_DETAILS, i,
         hi8 (thermostat_temp ?h), lo8 (thermostat_temp ?h), hi8 (duration_counter ?h), lo8 (duration_counter ?h)]"
  have t: "tell (heating_peer e) [HCAN_HES_HEIZUNG_DETAILS_REQUEST, i] s = s\<lparr>bs_board := ?h, bs_rx := bs_rx s @ [?g]\<rparr>"
    unfolding heating_told [OF assms(1)] heating_answers(1) [OF c(1,2) assms(3)] c(3) using assms(2) \<open>fst _ = _\<close> by simp
  have "recv_frame 100000 host (bs_rx s @ [?g]) = (Inr ?g, [])"
    using assms(1) by (intro recv_frame_skips) (simp_all add: idle_def hes_message_def)
  then have a: "any_frame (s\<lparr>bs_board := ?h, bs_rx := bs_rx s @ [?g]\<rparr>) = Some (Inr ?g, with_board ?h s)"
    using assms(1) by (simp add: any_frame_def idle_def with_board_def)
  have i: "idle host 0 (with_board ?h s)" using assms(1) by simp
  from ist_temp_asked [OF i, of i e] assms(2)
  show ?thesis unfolding get_details_def t a by (simp add: hes_message_def Let_def)
qed

text \<open>Only the commands for heatings take the line, and of their forms the one with this number.\<close>

definition heizung_line :: "telican_env \<Rightarrow> string \<Rightarrow> nat \<Rightarrow> string list \<Rightarrow> bool" where
  "heizung_line te line k m \<longleftrightarrow>
     te_regex te lampe_re1 line = None \<and> te_regex te ''^lampe *$'' line = None \<and>
     te_regex te sonstige_re1 line = None \<and> te_regex te ''^sonstige *$'' line = None \<and>
     te_regex te ''^reedkontakt *$'' line = None \<and>
     te_regex te rolladen_re1 line = None \<and> te_regex te ''^rolladen *$'' line = None \<and>
     (\<forall>j < k. te_regex te (heizung_res ! j) line = None) \<and> te_regex te (heizung_res ! k) line = Some m"

lemma first_match_at:
  "k < length rs \<Longrightarrow> length rs = length fs \<Longrightarrow> (\<forall>j < k. te_regex te (rs ! j) line = None) \<Longrightarrow> te_regex te (rs ! k) line = Some m \<Longrightarrow>
   first_match te (zip rs fs) line = Some ((fs ! k) m)"
proof (induction k arbitrary: rs fs)
  case 0
  then show ?case by (cases rs; cases fs) simp_all
next
  case (Suc k)
  obtain r rs' f fs' where c: "rs = r # rs'" "fs = f # fs'" using Suc.prems(1,2) by (cases rs; cases fs) simp_all
  have "te_regex te r line = None" "\<forall>j < k. te_regex te (rs' ! j) line = None" using Suc.prems(3) by (force simp: c)+
  then show ?case using Suc.IH [of rs' fs'] Suc.prems by (simp add: c)
qed

lemma heizung_line_exec:
  assumes "heizung_line te line k m" and "k < 10" and "(heizung_forms te p ! k) m s = Some (Inr True, s')"
  shows "exec_line (telican_commands te p tempsensor) line s = Some s'"
proof -
  have n: "lampe_command te p line s = Some (False, s)" "sonstige_command te p line s = Some (False, s)"
    "reedkontakt_command te p line s = Some (False, s)" "rolladen_command te p line s = Some (False, s)"
    using assms(1)
    by (simp_all add: heizung_line_def lampe_command_def sonstige_command_def reedkontakt_command_def rolladen_command_def print_exception_def)
  have "first_match te (zip heizung_res (heizung_forms te p)) line = Some ((heizung_forms te p ! k) m)"
    using assms(1,2) by (intro first_match_at) (simp_all add: heizung_line_def heizung_res_def heizung_forms_def)
  then have "heizung_command te p line s = Some (True, s')" using assms(3) by (simp add: heizung_command_def print_exception_def)
  then show ?thesis by (simp add: telican_commands_def n)
qed

definition named_heating :: "telican_env \<Rightarrow> string \<Rightarrow> u8 \<Rightarrow> bool" where
  "named_heating te name i \<longleftrightarrow>
     (\<exists>g. has_group te (''//heizung[@name='' @ xpath_text name @ '']'') g \<and> lo8 g = i) \<and>
     (\<exists>e es. te_find te (''//heizung[@gruppe='' @ xpath_text (show_nat (unat i)) @ '']'') = e # es \<and> e ''name'' = Some name)"

lemma heating_found: "named_heating te name i \<Longrightarrow> heizung_id_by_name te name s = Some (Inr i, s)"
proof -
  assume "named_heating te name i"
  then obtain g where "has_group te (''//heizung[@name='' @ xpath_text name @ '']'') g" "lo8 g = i" unfolding named_heating_def by (elim conjE exE)
  from group_found [OF this(1)] this(2) show ?thesis unfolding heizung_id_by_name_def by (simp only:)
qed

lemma heating_named: "named_heating te name i \<Longrightarrow> heizung_name_by_id te i s = Some (Inr name, s)"
proof -
  assume "named_heating te name i"
  then obtain e es where e: "te_find te (''//heizung[@gruppe='' @ xpath_text (show_nat (unat i)) @ '']'') = e # es" "e ''name'' = Some name"
    unfolding named_heating_def by (elim conjE exE)
  show ?thesis unfolding heizung_name_by_id_def query_name_def e(1) by (simp only: list.case e(2) or_end_simps)
qed

text \<open>A heating that is told a temperature.\<close>

lemma therm_told:
  assumes "idle host 0 s" and "i = heizung_config.c_id (device_data_heizung.config (bs_board s))"
    and "host \<noteq> HCAN_MULTICAST_INFO" and "length (bs_rx s) < 99999"
  obtains s' where "tell (heating_peer e) [HCAN_HES_HEIZUNG_SET_MODE_THERMOSTAT_DETAILS, i, hi8 w, lo8 w, hi8 d, lo8 d] s = s'" "idle host 0 s'"
    "bs_board s' = (bs_board s)\<lparr>mode := heizung_mode.HEIZUNG_MODE_THERMOSTAT, thermostat_temp := w, duration_counter := d\<rparr>"
    "bs_out s' = bs_out s" "bs_err s' = bs_err s" "bs_base s' = bs_base s" "bs_fill s' = bs_fill s"
proof -
  let ?f = "hes_message host HCAN_MULTICAST_CONTROL [HCAN_HES_HEIZUNG_SET_MODE_THERMOSTAT_DETAILS, i, hi8 w, lo8 w, hi8 d, lo8 d]"
  let ?h = "(bs_board s)\<lparr>mode := heizung_mode.HEIZUNG_MODE_THERMOSTAT, thermostat_temp := w, duration_counter := d\<rparr>"
  have "heizung_can_callback e (bs_board s) ?f = (?h, [heizung_send_details e ?h HCAN_MULTICAST_INFO])"
    using assms(2) by (simp add: heizung_can_callback_def heizung_set_mode_def hes_message_def Let_def)
  then have "tell (heating_peer e) [HCAN_HES_HEIZUNG_SET_MODE_THERMOSTAT_DETAILS, i, hi8 w, lo8 w, hi8 d, lo8 d] s =
      s\<lparr>bs_board := ?h, bs_rx := bs_rx s @ sent_frames [heizung_send_details e ?h HCAN_MULTICAST_INFO]\<rparr>"
    unfolding heating_told [OF assms(1)] by simp
  moreover have "\<forall>f \<in> set (sent_frames [heizung_send_details e ?h HCAN_MULTICAST_INFO]). dst f \<noteq> host"
      "length (sent_frames [heizung_send_details e ?h HCAN_MULTICAST_INFO]) = 1"
    using assms(3) by (simp_all add: heizung_send_details_def hes_message_def)
  ultimately show ?thesis using assms(1,4) that by (simp add: idle_def ball_Un)
qed

text \<open>The line of the table for a heating in this mode.\<close>

definition therm_row :: "char \<Rightarrow> u8 \<Rightarrow> string \<Rightarrow> u16 \<Rightarrow> u16 \<Rightarrow> u16 \<Rightarrow> string" where
  "therm_row c i name ist soll d =
     ''| '' @ pad c 3 (show_nat (unat i)) @ '' | '' @ ''therm.  | '' @ pad (CHR ''0'') 4 (temp_text ist) @ ''   | '' @ temp_text soll @
     ''    |       | '' @ dauer_str d @ '' | '' @ name @ endl"

lemma put_number_10: "bs_base s = 10 \<Longrightarrow> put_number w n s = put (pad (bs_fill s) w (show_nat n)) s"
  by (simp add: put_number_def pad_def base_digits_10 show_nat_def Let_def)

lemma fill_simps [simp]:
  "bs_fill (put t s) = bs_fill s" "bs_fill (with_board b s) = bs_fill s" "bs_fill (with_fill c s) = c"
  "bs_board (with_fill c s) = bs_board s" "bs_out (with_fill c s) = bs_out s" "bs_err (with_fill c s) = bs_err s" "bs_base (with_fill c s) = bs_base s"
  by (simp_all add: put_def with_board_def with_fill_def)

text \<open>
  Property C6. A temperature given to a heating by its name in the control mode is the one the control mode
  shows for it afterwards: after \<^verbatim>\<open>heizung name therm t d\<close>, where \<open>d\<close> are minutes, the line
  \<^verbatim>\<open>heizung name\<close> prints the row with the measured temperature, the temperature in
  sixteenths rounded down, and the duration in seconds modulo 65536, and nothing is printed as an error.
\<close>

theorem telican_sets_and_shows_heating:
  assumes "idle host 0 s" and "host \<noteq> HCAN_MULTICAST_INFO" and "length (bs_rx s) < 99999" and "bs_base s = 10"
    and "named_heating te name (heizung_config.c_id (device_data_heizung.config (bs_board s)))"
    and "heizung_line te line 9 [name, t, d]" and "heizung_line te line' 1 [name]"
    and "te_float te t = Some x" and "x * 16 < 65536" and "te_int te d = Some n" and "n * 60 < 2147483648"
  shows "\<exists>s1 s2. exec_line (telican_commands te (heating_peer e) tempsensor) line s = Some s1 \<and>
    exec_line (telican_commands te (heating_peer e) tempsensor) line' s1 = Some s2 \<and>
    bs_out s2 = bs_out (print_header s) @ therm_row (bs_fill s) (heizung_config.c_id (device_data_heizung.config (bs_board s))) name
      (measure_value (bs_board s)) (word_of_int \<lfloor>x * 16\<rfloor>) (word_of_int (n * 60)) \<and> bs_err s2 = bs_err s"
proof -
  let ?i = "heizung_config.c_id (device_data_heizung.config (bs_board s))" and ?p = "heating_peer e"
  let ?w = "word_of_int \<lfloor>x * 16\<rfloor> :: u16" and ?d = "word_of_int (n * 60) :: u16"
  obtain s1 where s1: "tell ?p [HCAN_HES_HEIZUNG_SET_MODE_THERMOSTAT_DETAILS, ?i, hi8 ?w, lo8 ?w, hi8 ?d, lo8 ?d] s = s1" "idle host 0 s1"
    "bs_board s1 = (bs_board s)\<lparr>mode := heizung_mode.HEIZUNG_MODE_THERMOSTAT, thermostat_temp := ?w, duration_counter := ?d\<rparr>"
    "bs_out s1 = bs_out s" "bs_err s1 = bs_err s" "bs_base s1 = bs_base s" "bs_fill s1 = bs_fill s"
    by (rule therm_told [OF assms(1) refl assms(2,3)])
  have "(heizung_forms te ?p ! 9) [name, t, d] s = Some (Inr True, s1)"
    using assms(8-11) s1(1) by (simp add: heizung_forms_def order_therm_def seconds_of_def heating_found [OF assms(5)] Let_def not_le)
  then have 1: "exec_line (telican_commands te ?p tempsensor) line s = Some s1"
    by (intro heizung_line_exec [OF assms(6)]) simp_all
  let ?s0 = "put '' | '' (put_number 3 (unat ?i) (put ''| '' (print_header s1)))"
  have i0: "idle host 0 ?s0" using s1(2) by (simp add: print_header_def)
  have b0: "bs_board ?s0 = bs_board s1" by (simp add: print_header_def)
  have g: "get_details ?p ?i ?s0 = Some (Inr (Info_Thermostat (measure_value (bs_board s)) ?w ?d), with_board (bs_board s1) ?s0)"
    using details_asked [OF i0, of ?i e] unfolding b0 by (simp add: s1(3))
  define s2 where "s2 = put (name @ endl) (print_info (Info_Thermostat (measure_value (bs_board s)) ?w ?d) (with_board (bs_board s1) ?s0))"
  have "print_heizung te ?p ?i (print_header s1) = Some (Inr (), s2)"
    unfolding print_heizung_def g s2_def by (simp add: heating_named [OF assms(5)])
  then have "(heizung_forms te ?p ! 1) [name] s1 = Some (Inr True, s2)"
    by (simp add: heizung_forms_def heating_found [OF assms(5)])
  then have 2: "exec_line (telican_commands te ?p tempsensor) line' s1 = Some s2"
    by (intro heizung_line_exec [OF assms(7)]) simp_all
  have "bs_out s2 = bs_out (print_header s) @ therm_row (bs_fill s) ?i name (measure_value (bs_board s)) ?w ?d"
    using s1(4,6,7) assms(4) by (simp add: s2_def print_info_def therm_row_def put_padded_def put_number_10 print_header_def)
  moreover have "bs_err s2 = bs_err s"
    using s1(5) by (simp add: s2_def print_info_def put_padded_def print_header_def)
  ultimately show ?thesis using 1 2 by blast
qed

text \<open>An installation with a lamp and a heating, and three lines.\<close>

definition lamp_query :: "string \<Rightarrow> string" where
  "lamp_query name = ''//powerport[(@typ='' @ xpath_text ''lampe'' @ '') and (@name='' @ xpath_text name @ '')]''"

definition demo_telican :: telican_env where
  "demo_telican = \<lparr>
     te_regex = (\<lambda>re line.
       if line = ''lampe flur ein'' \<and> re = lampe_re1 then Some [''flur'', ''ein'']
       else if line = ''heizung bad therm 21.5 90'' \<and> re = heizung_res ! 9 then Some [''bad'', ''21.5'', ''90'']
       else if line = ''heizung bad'' \<and> re = heizung_res ! 1 then Some [''bad''] else None),
     te_find = (\<lambda>q. if q = lamp_query ''flur'' then [[''gruppe'' \<mapsto> ''20'', ''name'' \<mapsto> ''flur'']] else [[''gruppe'' \<mapsto> ''1'', ''name'' \<mapsto> ''bad'']]),
     te_u16 = (\<lambda>t. if t = ''20'' then Some 20 else Some 1),
     te_int = (\<lambda>t. if t = ''90'' then Some 90 else None),
     te_float = (\<lambda>t. if t = ''21.5'' then Some 21.5 else None)\<rparr>"

definition telican_session :: "'b \<Rightarrow> 'b board_session" where
  "telican_session b = \<lparr>bs_src = 900, bs_dst = 0, bs_board = b, bs_rx = [], bs_out = [], bs_err = [], bs_base = 10, bs_fill = CHR '' ''\<rparr>"

lemma telican_session_simps [simp]: "bs_src (telican_session b) = 900" "bs_board (telican_session b) = b" "bs_rx (telican_session b) = []"
  "bs_base (telican_session b) = 10" "bs_fill (telican_session b) = CHR '' ''" "bs_err (telican_session b) = []" "idle 900 0 (telican_session b)"
  by (simp_all add: telican_session_def idle_def)

lemma demo_lamp: "te_regex demo_telican lampe_re1 ''lampe flur ein'' = Some [''flur'', ''ein'']"
  "has_group demo_telican (''//powerport[(@typ='' @ xpath_text ''lampe'' @ '') and (@name='' @ xpath_text ''flur'' @ '')]'') 20"
  by (simp_all add: demo_telican_def has_group_def lamp_query_def)

theorem telican_switches_lamp_witness:
  "\<exists>s'. exec_line (telican_commands demo_telican (output_peer 7) (\<lambda>_ s. Some (False, s))) ''lampe flur ein''
      (telican_session (outlet\<lparr>device_data_powerport.config := (device_data_powerport.config outlet)\<lparr>powerport_config.c_feature := 0\<rparr>\<rparr>)) = Some s' \<and>
    powerport_get (bs_board s')"
proof -
  let ?q = "outlet\<lparr>device_data_powerport.config := (device_data_powerport.config outlet)\<lparr>powerport_config.c_feature := 0\<rparr>\<rparr>"
  have d: "direct_output (device_data_powerport.config ?q) (bs_board (telican_session ?q))" "is_in_group ?q 20" "lo8 20 = 20" "switch_on_word ''ein''"
    by (simp_all add: direct_output_def outlet_def is_in_group_def feature_def lo8_def switch_on_word_def)
  from telican_switches_lamp [OF d(1) refl demo_lamp, of 7 "\<lambda>_ s. Some (False, s)"] d(2-4) show ?thesis by auto
qed

lemma heizung_res_distinct: "distinct heizung_res" "length heizung_res = 10"
  by code_simp+

lemma other_res: "k < 10 \<Longrightarrow> heizung_res ! k \<notin> {lampe_re1, ''^lampe *$'', sonstige_re1, ''^sonstige *$'', ''^reedkontakt *$'', rolladen_re1, ''^rolladen *$''}"
proof -
  assume "k < 10"
  moreover have "list_all (\<lambda>r. r \<notin> set [lampe_re1, ''^lampe *$'', sonstige_re1, ''^sonstige *$'', ''^reedkontakt *$'', rolladen_re1, ''^rolladen *$'']) heizung_res"
    by code_simp
  ultimately have "heizung_res ! k \<notin> set [lampe_re1, ''^lampe *$'', sonstige_re1, ''^sonstige *$'', ''^reedkontakt *$'', rolladen_re1, ''^rolladen *$'']"
    unfolding list_all_length heizung_res_distinct(2) by blast
  then show ?thesis by (simp only: list.set) simp
qed

lemma demo_line:
  assumes "\<And>re. te_regex te re line = (if re = heizung_res ! k then Some m else None)" and "k < 10"
  shows "heizung_line te line k m"
proof -
  have "\<forall>j < k. heizung_res ! j \<noteq> heizung_res ! k"
    using heizung_res_distinct assms(2) by (simp add: nth_eq_iff_index_eq)
  moreover have "te_regex te (heizung_res ! j) line = None" if "heizung_res ! j \<noteq> heizung_res ! k" for j unfolding assms(1) using that by simp
  moreover have "te_regex te r line = None" if "r \<in> {lampe_re1, ''^lampe *$'', sonstige_re1, ''^sonstige *$'', ''^reedkontakt *$'', rolladen_re1, ''^rolladen *$''}" for r
    unfolding assms(1) using that other_res [OF assms(2)] by metis
  moreover have "te_regex te (heizung_res ! k) line = Some m" unfolding assms(1) by simp
  ultimately show ?thesis unfolding heizung_line_def by blast
qed

lemma demo_heating: "heizung_line demo_telican ''heizung bad therm 21.5 90'' 9 [''bad'', ''21.5'', ''90'']" "heizung_line demo_telican ''heizung bad'' 1 [''bad'']"
  "te_float demo_telican ''21.5'' = Some 21.5" "te_int demo_telican ''90'' = Some 90"
  by (rule demo_line; simp add: demo_telican_def)+ (simp_all add: demo_telican_def)

lemma demo_named: "named_heating demo_telican ''bad'' 1"
proof -
  have q: "''//heizung[@name='' @ xpath_text ''bad'' @ '']'' \<noteq> lamp_query ''flur''"
    "''//heizung[@gruppe='' @ xpath_text (show_nat (unat (1 :: u8))) @ '']'' \<noteq> lamp_query ''flur''" by code_simp+
  have f: "te_find demo_telican x = [[''gruppe'' \<mapsto> ''1'', ''name'' \<mapsto> ''bad'']]" if "x \<noteq> lamp_query ''flur''" for x
    using that by (simp add: demo_telican_def)
  have "has_group demo_telican (''//heizung[@name='' @ xpath_text ''bad'' @ '']'') 1"
    unfolding has_group_def f [OF q(1)] by (simp add: demo_telican_def)
  moreover have "lo8 1 = 1" by (simp add: lo8_def)
  ultimately show ?thesis unfolding named_heating_def f [OF q(2)] by auto
qed

theorem telican_sets_and_shows_heating_witness:
  "\<exists>s1 s2. exec_line (telican_commands demo_telican (heating_peer midnight) (\<lambda>_ s. Some (False, s))) ''heizung bad therm 21.5 90'' (telican_session radiator) = Some s1 \<and>
    exec_line (telican_commands demo_telican (heating_peer midnight) (\<lambda>_ s. Some (False, s))) ''heizung bad'' s1 = Some s2 \<and>
    bs_out s2 = bs_out (print_header (telican_session radiator)) @ therm_row (CHR '' '') 1 ''bad'' (measure_value radiator) 344 5400"
proof -
  have c: "heizung_config.c_id (device_data_heizung.config (bs_board (telican_session radiator))) = 1" by (simp add: radiator_def)
  have x: "(21.5 :: real) * 16 < 65536" "(90 :: int) * 60 < 2147483648" "\<lfloor>(21.5 :: real) * 16\<rfloor> = 344" by simp_all
  have n: "named_heating demo_telican ''bad'' (heizung_config.c_id (device_data_heizung.config (bs_board (telican_session radiator))))"
    unfolding c by (rule demo_named)
  have h: "(900 :: u16) \<noteq> HCAN_MULTICAST_INFO" "length (bs_rx (telican_session radiator)) < 99999" by simp_all
  from telican_sets_and_shows_heating [OF telican_session_simps(7) h telican_session_simps(4) n demo_heating(1,2,3) x(1) demo_heating(4) x(2),
      of midnight "\<lambda>_ s. Some (False, s)"]
  show ?thesis unfolding c x(3) by auto
qed

end
