(* ===== verification/Ports.thy ===== *)
theory Ports
  imports Canix_Eds
begin

text \<open>
  The pins of a board: the outputs and inputs of the controller
  (\<^verbatim>\<open>src/firmwares/controllerboard/darlingtonoutput.c\<close>, \<^verbatim>\<open>input.c\<close>) and, behind them, up to four
  expander boards of two chips with two ports of eight pins each
  (\<^verbatim>\<open>devices/ports.c\<close>). The values of the expanders' ports are kept in the memory and exchanged with the
  chips by an update. A chip is its registers; whether it answers on the I2C bus is an argument. Text messages are left out. The ATmega328P
  is the one without \<^verbatim>\<open>hcanMartin\<close>.
\<close>

section \<open>State\<close>

text \<open>
  The port \<open>k\<close> of 16 is port \<open>k mod 4\<close> of the expander board \<open>k div 4\<close>. A byte of \<open>expBoard\<close> is 255
  for a board that is not there, and else its low four bits say which ports are inputs.
\<close>

record ports =
  expBoard :: "u8 list"
  expStartPins :: "u8 list"
  valuesOfPorts :: "u8 list"
  previousValues :: "u8 list"
  expanderActive :: bool
  portsDeviceCreated :: bool
  outBase :: u8
  inBase :: u8

record ports_config =
  pc_base :: u8
  pc_expanders :: "u8 list"

text \<open>A byte written to a register of a chip: the address of the chip, the register, the byte.\<close>

datatype chip_write = Chip_Write u8 u8 u8

abbreviation (input) MCP23x17_IODIRA :: u8 where "MCP23x17_IODIRA \<equiv> 0x00"
abbreviation (input) MCP23x17_GPPUA :: u8 where "MCP23x17_GPPUA \<equiv> 0x0C"
abbreviation (input) MCP23x17_GPIOA :: u8 where "MCP23x17_GPIOA \<equiv> 0x12"

section \<open>Configuration\<close>

definition configurePortAsInput :: "(u8 \<Rightarrow> bool) \<Rightarrow> u8 \<Rightarrow> u8 \<Rightarrow> chip_write list" where
  "configurePortAsInput ack bank adr =
     (if ack adr then [Chip_Write adr (MCP23x17_IODIRA + bank) 0xff, Chip_Write adr (MCP23x17_GPPUA + bank) 0xff] else [])"

definition configurePortAsOutput :: "(u8 \<Rightarrow> bool) \<Rightarrow> u8 \<Rightarrow> u8 \<Rightarrow> chip_write list" where
  "configurePortAsOutput ack bank adr = (if ack adr then [Chip_Write adr (MCP23x17_IODIRA + bank) 0x00] else [])"

definition port_is_input :: "u8 list \<Rightarrow> nat \<Rightarrow> bool" where
  "port_is_input B k = bit (B ! (k div 4)) (k mod 4)"

definition board_there :: "u8 list \<Rightarrow> nat \<Rightarrow> bool" where
  "board_there B b \<longleftrightarrow> B ! b \<noteq> 255"

text \<open>The address and the bank of the next port.\<close>

definition next_chip :: "nat \<Rightarrow> u8 \<times> u8 \<Rightarrow> u8 \<times> u8" where
  "next_chip k ab =
     (let (adr, bank) = ab; port = k mod 4; bank = (if port = 3 then 0 else bank)
      in if port = 1 then (adr - 1, 1) else (adr + 1, bank))"

text \<open>The local variables of the loop: the address, the bank, and the numbers of inputs and outputs.\<close>

type_synonym conf_loop = "ports \<times> (u8 \<times> u8) \<times> u8 \<times> u8 \<times> chip_write list"

definition configure_port :: "(u8 \<Rightarrow> bool) \<Rightarrow> nat \<Rightarrow> conf_loop \<Rightarrow> conf_loop" where
  "configure_port ack k l =
     (let (p, (adr, bank), nin, nout, out) = l in
      if ack adr then
        (let p = p\<lparr>expanderActive := True\<rparr> in
         if port_is_input (expBoard p) k
         then (p\<lparr>expStartPins := (expStartPins p)[k := inBase p + 8 * nin]\<rparr>, next_chip k (adr, bank), nin + 1, nout,
               out @ configurePortAsInput ack bank adr)
         else (p\<lparr>expStartPins := (expStartPins p)[k := outBase p + 8 * nout]\<rparr>, next_chip k (adr, bank), nin, nout + 1,
               out @ configurePortAsOutput ack bank adr))
      else (p\<lparr>expBoard := (expBoard p)[k div 4 := 255]\<rparr>, next_chip k (adr, bank), nin, nout, out))"

definition configure_board :: "(u8 \<Rightarrow> bool) \<Rightarrow> nat \<Rightarrow> conf_loop \<Rightarrow> conf_loop" where
  "configure_board ack b l =
     (let (p, (adr, bank), nin, nout, out) = l in
      if board_there (expBoard p) b then fold (configure_port ack) [4 * b..<4 * b + 4] l
      else (p, (adr + 2, bank), nin, nout, out))"

definition configurePorts :: "(u8 \<Rightarrow> bool) \<Rightarrow> ports \<Rightarrow> ports \<times> chip_write list" where
  "configurePorts ack p =
     (case fold (configure_board ack) [0..<4] (p, (0, 0), 0, 0, []) of (p, _, _, _, out) \<Rightarrow> (p, out))"

definition ports_init :: "(u8 \<Rightarrow> bool) \<Rightarrow> ports_config \<Rightarrow> ports \<Rightarrow> ports \<times> chip_write list" where
  "ports_init ack c p =
     (if portsDeviceCreated p then (p, [])
      else
        (let p = p\<lparr>portsDeviceCreated := True, expanderActive := False, valuesOfPorts := replicate 16 0,
                   previousValues := replicate 16 255, expBoard := pc_expanders c\<rparr>;
             p = (if pc_base c = 16 then p\<lparr>outBase := 0, inBase := 15\<rparr>
                  else if pc_base c = 128 then p\<lparr>outBase := 12, inBase := 16\<rparr>
                  else p\<lparr>outBase := 32, inBase := 32\<rparr>)
         in configurePorts ack p))"

section \<open>Pins of the expanders\<close>

text \<open>
  The first port of the kind that begins not more than eight pins below \<open>n\<close>, and the bit in it; the second chip port of each pair
  is mirrored. A bit number above 7 comes of a pin below the first one; the shift is not defined then.
\<close>

fun find_pin :: "ports \<Rightarrow> bool \<Rightarrow> u8 \<Rightarrow> nat list \<Rightarrow> (nat \<times> u8) option" where
  "find_pin p inp n [] = None"
| "find_pin p inp n (k # ks) =
     (if board_there (expBoard p) (k div 4) \<and> port_is_input (expBoard p) k = inp \<and> unat n < unat (expStartPins p ! k) + 8
      then (let m = n - expStartPins p ! k in Some (k, if k mod 4 > 1 then 7 - m else m))
      else find_pin p inp n ks)"

text \<open>\<open>None\<close>: the shift is not defined.\<close>

definition ports_getInput :: "ports \<Rightarrow> u8 \<Rightarrow> u8 option" where
  "ports_getInput p n =
     (case find_pin p True n [0..<16] of
        None \<Rightarrow> Some 1
      | Some (k, m) \<Rightarrow> if unat m < 16 then Some (valuesOfPorts p ! k AND ucast (push_bit (unat m) 1 :: u16)) else None)"

text \<open>\<open>None\<close>: no output has this number, and the index of the port is not initialised, or the shift is not defined.\<close>

definition ports_setOutput :: "ports \<Rightarrow> u8 \<Rightarrow> bool \<Rightarrow> ports option" where
  "ports_setOutput p n state =
     (case find_pin p False n [0..<16] of
        None \<Rightarrow> None
      | Some (k, m) \<Rightarrow>
          if unat m < 16 then
            (let b = ucast (push_bit (unat m) 1 :: u16); v = valuesOfPorts p ! k in
             Some (p\<lparr>valuesOfPorts := (valuesOfPorts p)[k := if state then v OR b else v AND NOT b]\<rparr>))
          else None)"

definition ports_getOutput :: "ports \<Rightarrow> u8 \<Rightarrow> u8 option" where
  "ports_getOutput p n =
     (case find_pin p False n [0..<16] of
        None \<Rightarrow> None
      | Some (k, m) \<Rightarrow> if unat m < 16 then Some (valuesOfPorts p ! k AND ucast (push_bit (unat m) 1 :: u16)) else None)"

section \<open>The update\<close>

text \<open>The byte of a chip's port, where the chip answers.\<close>

definition readMCP23017port :: "(u8 \<Rightarrow> u8 \<Rightarrow> u8 option) \<Rightarrow> u8 \<Rightarrow> u8 \<Rightarrow> u8" where
  "readMCP23017port chip bank adr = (case chip adr bank of Some v \<Rightarrow> v | None \<Rightarrow> 0xFF)"

definition writeMCP23017port :: "(u8 \<Rightarrow> bool) \<Rightarrow> u8 \<Rightarrow> u8 \<Rightarrow> u8 \<Rightarrow> chip_write list" where
  "writeMCP23017port ack bank adr v = (if ack adr then [Chip_Write adr (MCP23x17_GPIOA + bank) v] else [])"

type_synonym update_loop = "ports \<times> (u8 \<times> u8) \<times> chip_write list"

definition update_port :: "(u8 \<Rightarrow> u8 \<Rightarrow> u8 option) \<Rightarrow> (u8 \<Rightarrow> bool) \<Rightarrow> nat \<Rightarrow> update_loop \<Rightarrow> update_loop" where
  "update_port chip ack k l =
     (let (p, (adr, bank), out) = l in
      if port_is_input (expBoard p) k
      then (p\<lparr>valuesOfPorts := (valuesOfPorts p)[k := readMCP23017port chip bank adr]\<rparr>, next_chip k (adr, bank), out)
      else if previousValues p ! k \<noteq> valuesOfPorts p ! k
      then (p\<lparr>previousValues := (previousValues p)[k := valuesOfPorts p ! k]\<rparr>, next_chip k (adr, bank),
            out @ writeMCP23017port ack bank adr (valuesOfPorts p ! k))
      else (p, next_chip k (adr, bank), out))"

definition update_board :: "(u8 \<Rightarrow> u8 \<Rightarrow> u8 option) \<Rightarrow> (u8 \<Rightarrow> bool) \<Rightarrow> nat \<Rightarrow> update_loop \<Rightarrow> update_loop" where
  "update_board chip ack b l =
     (let (p, (adr, bank), out) = l in
      if board_there (expBoard p) b then fold (update_port chip ack) [4 * b..<4 * b + 4] l
      else (p, (adr + 2, bank), out))"

definition handlerForExpanderUpdate :: "(u8 \<Rightarrow> u8 \<Rightarrow> u8 option) \<Rightarrow> (u8 \<Rightarrow> bool) \<Rightarrow> ports \<Rightarrow> ports \<times> chip_write list" where
  "handlerForExpanderUpdate chip ack p =
     (case fold (update_board chip ack) [0..<4] (p, (0, 0), []) of (p, _, out) \<Rightarrow> (p, out))"

section \<open>Pins of the controller\<close>

text \<open>The registers of the ports A to D; the \<^verbatim>\<open>PIN\<close> registers are inputs.\<close>

record avr_io =
  DDR :: "char \<Rightarrow> u8"
  PORT :: "char \<Rightarrow> u8"
  PIN :: "char \<Rightarrow> u8"

definition bit_of :: "u8 \<Rightarrow> u8" where
  "bit_of n = push_bit (unat n) 1"

definition read_pin :: "avr_io \<Rightarrow> char \<Rightarrow> bool \<Rightarrow> u8 \<Rightarrow> avr_io \<times> u8" where
  "read_pin io c pullup n =
     (io\<lparr>DDR := (DDR io)(c := DDR io c AND NOT (bit_of n)),
         PORT := (PORT io)(c := if pullup then PORT io c OR bit_of n else PORT io c AND NOT (bit_of n))\<rparr>,
      PIN io c AND bit_of n)"

definition write_pin :: "avr_io \<Rightarrow> char \<Rightarrow> u8 \<Rightarrow> bool \<Rightarrow> avr_io" where
  "write_pin io c n state =
     io\<lparr>DDR := (DDR io)(c := DDR io c OR bit_of n),
        PORT := (PORT io)(c := if state then PORT io c OR bit_of n else PORT io c AND NOT (bit_of n))\<rparr>"

definition inputport_read :: "mcu \<Rightarrow> ports \<Rightarrow> bool \<Rightarrow> u8 \<Rightarrow> avr_io \<Rightarrow> (avr_io \<times> u8) option" where
  "inputport_read c p pullup n io =
     (let expander = map_option (Pair io) (ports_getInput p n) in
      if c = ATmega328P then
        (if n < 8 then
           (if (n = 4 \<or> n = 5) \<and> expanderActive p then Some (io, 0) else Some (read_pin io CHR ''C'' pullup n))
         else if n < 14 then
           (let m = n AND 0x07; m = (if m = 0 then 1 else m + 2) in Some (read_pin io CHR ''D'' pullup m))
         else if n < 16 then Some (read_pin io CHR ''B'' pullup (n AND 0x07))
         else expander)
      else if expanderActive p \<and> n < 2 then Some (io, 0)
      else if n < 8 then Some (read_pin io CHR ''C'' pullup n)
      else if n < 16 then Some (read_pin io CHR ''A'' pullup (7 - (n AND 0x07)))
      else if n < 244 then expander
      else Some (io, 0))"

definition darlingtonoutput_init :: "mcu \<Rightarrow> avr_io \<Rightarrow> avr_io" where
  "darlingtonoutput_init c io =
     (if c = ATmega328P then io
      else io\<lparr>DDR := (DDR io)(CHR ''D'' := 0xff, CHR ''B'' := DDR io CHR ''B'' OR 0x0f),
              PORT := (PORT io)(CHR ''D'' := 0, CHR ''B'' := PORT io CHR ''B'' AND NOT 0x0f)\<rparr>)"

definition darlingtonoutput_getpin :: "mcu \<Rightarrow> ports \<Rightarrow> u8 \<Rightarrow> avr_io \<Rightarrow> u8 option" where
  "darlingtonoutput_getpin c p n io =
     (if c \<noteq> ATmega328P \<and> n < 8 then Some (PORT io CHR ''D'' AND bit_of n)
      else if c \<noteq> ATmega328P \<and> n < 12 then Some (PORT io CHR ''B'' AND bit_of (n - 8))
      else ports_getOutput p n)"

definition darlingtonoutput_setpin :: "mcu \<Rightarrow> u8 \<Rightarrow> bool \<Rightarrow> ports \<times> avr_io \<Rightarrow> (ports \<times> avr_io) option" where
  "darlingtonoutput_setpin c n state s =
     (case s of (p, io) \<Rightarrow>
        if c \<noteq> ATmega328P \<and> n < 8 then Some (p, write_pin io CHR ''D'' n state)
        else if c \<noteq> ATmega328P \<and> n < 12 then Some (p, write_pin io CHR ''B'' (n - 8) state)
        else map_option (\<lambda>p. (p, io)) (ports_setOutput p n state))"

section \<open>Where the pins are\<close>

text \<open>The chip and the bank of a port.\<close>

definition chip_at :: "nat \<Rightarrow> u8 \<times> u8" where
  "chip_at k = (of_nat (2 * (k div 4) + k mod 2), of_nat (k mod 4 div 2))"

definition port_kind :: "u8 list \<Rightarrow> bool \<Rightarrow> nat \<Rightarrow> bool" where
  "port_kind B inp k \<longleftrightarrow> board_there B (k div 4) \<and> port_is_input B k = inp"

definition ports_of :: "u8 list \<Rightarrow> bool \<Rightarrow> nat list" where
  "ports_of B inp = filter (port_kind B inp) [0..<16]"

definition ports_before :: "u8 list \<Rightarrow> bool \<Rightarrow> nat \<Rightarrow> nat" where
  "ports_before B inp k = length (filter (port_kind B inp) [0..<k])"

lemma next_chip_at: "next_chip k (chip_at k) = chip_at (Suc k)"
proof -
  have k: "k = 4 * (k div 4) + k mod 4" by simp
  consider "k mod 4 = 0" | "k mod 4 = 1" | "k mod 4 = 2" | "k mod 4 = 3" by fastforce
  then show ?thesis
  proof cases
    case 1
    then obtain b where "k = 4 * b" using k by (metis add_0_right)
    moreover have "Suc (4 * b) div 4 = b" "Suc (4 * b) mod 2 = 1" "Suc (4 * b) mod 4 = 1" by presburger+
    ultimately show ?thesis by (simp add: next_chip_def chip_at_def Let_def)
  next
    case 2
    then obtain b where "k = 4 * b + 1" using k by metis
    moreover have "Suc (4 * b) div 4 = b" "Suc (4 * b) mod 2 = 1" "Suc (4 * b) mod 4 = 1"
      "Suc (Suc (4 * b)) div 4 = b" "Suc (Suc (4 * b)) mod 2 = 0" "Suc (Suc (4 * b)) mod 4 = 2" by presburger+
    ultimately show ?thesis by (simp add: next_chip_def chip_at_def Let_def)
  next
    case 3
    then obtain b where "k = 4 * b + 2" using k by metis
    moreover have "(4 * b + 2) div 4 = b" "(4 * b + 2) mod 2 = 0" "(4 * b + 2) mod 4 = 2"
      "Suc (4 * b + 2) div 4 = b" "Suc (4 * b + 2) mod 2 = 1" "Suc (4 * b + 2) mod 4 = 3" by presburger+
    ultimately show ?thesis by (simp add: next_chip_def chip_at_def Let_def)
  next
    case 4
    then obtain b where b: "k = 4 * b + 3" using k by metis
    moreover have "(4 * b + 3) div 4 = b" "(4 * b + 3) mod 2 = 1" "(4 * b + 3) mod 4 = 3"
      "Suc (4 * b + 3) div 4 = b + 1" "Suc (4 * b + 3) mod 2 = 0" "Suc (4 * b + 3) mod 4 = 0" by presburger+
    ultimately show ?thesis by (simp add: next_chip_def chip_at_def Let_def)
  qed
qed

lemma chips_distinct: "j < 16 \<Longrightarrow> k < 16 \<Longrightarrow> chip_at j = chip_at k \<longleftrightarrow> j = k"
proof -
  assume j: "j < 16" "k < 16"
  have "distinct (map chip_at [0..<16])" by code_simp
  then have "inj_on chip_at (set [0..<16])" by (simp add: distinct_map)
  then show ?thesis using j by (auto simp: inj_on_def)
qed

lemma skipped_board: "chip_at (4 * b + 4) = (fst (chip_at (4 * b)) + 2, snd (chip_at (4 * b)))"
  by (simp add: chip_at_def)

section \<open>The loops over the boards\<close>

text \<open>Both loops visit the ports of the boards that are there and skip the others.\<close>

lemma fold_boards:
  assumes "P 0 l"
    and "\<And>b l. b < 4 \<Longrightarrow> P (4 * b) l \<Longrightarrow> step b l = (if there b then fold f [4 * b..<4 * b + 4] l else g b l)"
    and port: "\<And>k l. k < 16 \<Longrightarrow> there (k div 4) \<Longrightarrow> P k l \<Longrightarrow> P (Suc k) (f k l)"
    and skip: "\<And>b l. b < 4 \<Longrightarrow> \<not> there b \<Longrightarrow> P (4 * b) l \<Longrightarrow> P (4 * b + 4) (g b l)"
  shows "P 16 (fold step [0..<4] l)"
proof -
  have ports: "P (4 * b + 4) (fold f [4 * b..<4 * b + 4] l)" if "b < 4" "there b" "P (4 * b) l" for b l
  proof -
    have "P (4 * b + i) (fold f [4 * b..<4 * b + i] l)" if "i \<le> 4" for i
      using that
    proof (induction i)
      case (Suc i)
      then have "(4 * b + i) div 4 = b" by simp
      with Suc show ?case using port [of "4 * b + i"] \<open>b < 4\<close> \<open>there b\<close> by simp
    qed (simp add: \<open>P (4 * b) l\<close>)
    from this [of 4] show ?thesis by simp
  qed
  have "P (4 * b) (fold step [0..<b] l)" if "b \<le> 4" for b
    using that
  proof (induction b)
    case (Suc b)
    then have b: "b < 4" and l: "P (4 * b) (fold step [0..<b] l)" by simp_all
    have "P (4 * b + 4) (step b (fold step [0..<b] l))"
      using assms(2) [OF b l] ports [OF b _ l] skip [OF b _ l] by (cases "there b") simp_all
    then show ?case by (simp add: algebra_simps)
  qed (simp add: assms(1))
  from this [of 4] show ?thesis by simp
qed

text \<open>A board that is skipped has no ports.\<close>

lemma no_ports:
  assumes "\<not> board_there B b" and "port_kind B inp j" and "j < 4 * b + 4"
  shows "j < 4 * b"
proof (rule ccontr)
  assume "\<not> j < 4 * b"
  then have "j div 4 = b" using assms(3) by linarith
  then show False using assms(1,2) by (simp add: port_kind_def)
qed

lemma ports_before_Suc: "ports_before B inp (Suc k) = (if port_kind B inp k then Suc (ports_before B inp k) else ports_before B inp k)"
  by (simp add: ports_before_def)

lemma no_ports_before:
  assumes "\<not> board_there B b"
  shows "ports_before B inp (4 * b + 4) = ports_before B inp (4 * b)"
proof -
  have k: "\<not> port_kind B inp (4 * b + i)" if "i < 4" for i using that assms by (simp add: port_kind_def)
  show ?thesis using k [of 0] k [of 1] k [of 2] k [of 3] by (simp add: eval_nat_numeral ports_before_Suc)
qed

section \<open>The configuration\<close>

text \<open>What the loop has done before port \<open>k\<close>, when all chips answer.\<close>

definition conf_done :: "u8 list \<Rightarrow> ports \<Rightarrow> nat \<Rightarrow> conf_loop \<Rightarrow> bool" where
  "conf_done B p0 k l \<longleftrightarrow> (case l of (p, ab, nin, nout, out) \<Rightarrow>
     expBoard p = B \<and> length (expStartPins p) = 16 \<and> ab = chip_at k \<and>
     nin = of_nat (ports_before B True k) \<and> nout = of_nat (ports_before B False k) \<and>
     (\<forall>j < k. port_kind B True j \<longrightarrow> expStartPins p ! j = inBase p0 + 8 * of_nat (ports_before B True j)) \<and>
     (\<forall>j < k. port_kind B False j \<longrightarrow> expStartPins p ! j = outBase p0 + 8 * of_nat (ports_before B False j)) \<and>
     inBase p = inBase p0 \<and> outBase p = outBase p0 \<and> valuesOfPorts p = valuesOfPorts p0 \<and> previousValues p = previousValues p0)"

lemma conf_port:
  assumes "conf_done B p0 k l" and "board_there B (k div 4)" and "k < 16"
  shows "conf_done B p0 (Suc k) (configure_port (\<lambda>_. True) k l)"
proof -
  obtain p adr bank nin nout out where l: "l = (p, (adr, bank), nin, nout, out)" by (metis prod.exhaust)
  have f: "expBoard p = B" "length (expStartPins p) = 16" "(adr, bank) = chip_at k"
    "nin = of_nat (ports_before B True k)" "nout = of_nat (ports_before B False k)"
    "\<forall>j < k. port_kind B True j \<longrightarrow> expStartPins p ! j = inBase p0 + 8 * of_nat (ports_before B True j)"
    "\<forall>j < k. port_kind B False j \<longrightarrow> expStartPins p ! j = outBase p0 + 8 * of_nat (ports_before B False j)"
    "inBase p = inBase p0" "outBase p = outBase p0" "valuesOfPorts p = valuesOfPorts p0" "previousValues p = previousValues p0"
    using assms(1) by (simp_all add: conf_done_def l)
  have n: "next_chip k (adr, bank) = chip_at (Suc k)" using next_chip_at [of k] f(3) by simp
  show ?thesis
  proof (cases "port_is_input B k")
    case True
    then have k: "port_kind B True k" "\<not> port_kind B False k" using assms(2) by (simp_all add: port_kind_def)
    have "configure_port (\<lambda>_. True) k l = (p\<lparr>expanderActive := True, expStartPins := (expStartPins p)[k := inBase p + 8 * nin]\<rparr>,
        chip_at (Suc k), nin + 1, nout, out @ configurePortAsInput (\<lambda>_. True) bank adr)"
      using True f(1) n by (simp add: configure_port_def l)
    then show ?thesis using f k assms(3) by (simp add: conf_done_def ports_before_Suc less_Suc_eq)
  next
    case False
    then have k: "port_kind B False k" "\<not> port_kind B True k" using assms(2) by (simp_all add: port_kind_def)
    have "configure_port (\<lambda>_. True) k l = (p\<lparr>expanderActive := True, expStartPins := (expStartPins p)[k := outBase p + 8 * nout]\<rparr>,
        chip_at (Suc k), nin, nout + 1, out @ configurePortAsOutput (\<lambda>_. True) bank adr)"
      using False f(1) n by (simp add: configure_port_def l)
    then show ?thesis using f k assms(3) by (simp add: conf_done_def ports_before_Suc less_Suc_eq)
  qed
qed

lemma conf_skip:
  assumes "conf_done B p0 (4 * b) (p, (adr, bank), nin, nout, out)" and "\<not> board_there B b"
  shows "conf_done B p0 (4 * b + 4) (p, (adr + 2, bank), nin, nout, out)"
proof -
  have "(adr, bank) = chip_at (4 * b)" using assms(1) by (simp add: conf_done_def)
  then have "(adr + 2, bank) = chip_at (4 * b + 4)" using skipped_board [of b] by (metis fst_conv snd_conv)
  then show ?thesis
    using assms no_ports [OF assms(2)] unfolding conf_done_def prod.case no_ports_before [OF assms(2)] by simp
qed

lemma ports_configured:
  assumes "\<not> portsDeviceCreated p" and "length (expStartPins p) = 16" and "ports_init (\<lambda>_. True) c p = (q, ws)"
  shows "expBoard q = pc_expanders c" and "length (expStartPins q) = 16"
    and "k < 16 \<Longrightarrow> port_kind (pc_expanders c) inp k \<Longrightarrow>
      expStartPins q ! k = (if inp then inBase q else outBase q) + 8 * of_nat (ports_before (pc_expanders c) inp k)"
    and "valuesOfPorts q = replicate 16 0" and "previousValues q = replicate 16 255"
    and "outBase q = (if pc_base c = 16 then 0 else if pc_base c = 128 then 12 else 32)"
    and "inBase q = (if pc_base c = 16 then 15 else if pc_base c = 128 then 16 else 32)"
proof -
  define p1 where "p1 = p\<lparr>portsDeviceCreated := True, expanderActive := False, valuesOfPorts := replicate 16 0,
    previousValues := replicate 16 255, expBoard := pc_expanders c\<rparr>"
  define p0 where "p0 = (if pc_base c = 16 then p1\<lparr>outBase := 0, inBase := 15\<rparr>
    else if pc_base c = 128 then p1\<lparr>outBase := 12, inBase := 16\<rparr> else p1\<lparr>outBase := 32, inBase := 32\<rparr>)"
  have q: "configurePorts (\<lambda>_. True) p0 = (q, ws)"
    using assms(1,3) unfolding ports_init_def p0_def p1_def Let_def by simp
  have s: "expBoard p0 = pc_expanders c" "length (expStartPins p0) = 16" "valuesOfPorts p0 = replicate 16 0" "previousValues p0 = replicate 16 255"
    "outBase p0 = (if pc_base c = 16 then 0 else if pc_base c = 128 then 12 else 32)"
    "inBase p0 = (if pc_base c = 16 then 15 else if pc_base c = 128 then 16 else 32)"
    using assms(2) by (simp_all add: p0_def p1_def)
  have "conf_done (pc_expanders c) p0 16 (fold (configure_board (\<lambda>_. True)) [0..<4] (p0, (0, 0), 0, 0, []))"
  proof (rule fold_boards [where there = "board_there (pc_expanders c)" and f = "configure_port (\<lambda>_. True)"
        and g = "\<lambda>_ (p, (adr, bank), nin, nout, out). (p, (adr + 2, bank), nin, nout, out)"], goal_cases)
    case 1
    show ?case using s by (simp add: conf_done_def chip_at_def ports_before_def)
  next
    case (2 b l)
    then show ?case by (auto simp: configure_board_def conf_done_def split: prod.splits)
  next
    case (3 k l)
    then show ?case by (simp add: conf_port)
  next
    case (4 b l)
    then show ?case by (auto intro: conf_skip split: prod.splits)
  qed
  then obtain ab nin nout where
    d: "conf_done (pc_expanders c) p0 16 (q, ab, nin, nout, ws)"
    using q by (auto simp: configurePorts_def split: prod.splits)
  from d s show "expBoard q = pc_expanders c" "length (expStartPins q) = 16" "valuesOfPorts q = replicate 16 0" "previousValues q = replicate 16 255"
    "outBase q = (if pc_base c = 16 then 0 else if pc_base c = 128 then 12 else 32)"
    "inBase q = (if pc_base c = 16 then 15 else if pc_base c = 128 then 16 else 32)"
    by (simp_all add: conf_done_def)
  show "k < 16 \<Longrightarrow> port_kind (pc_expanders c) inp k \<Longrightarrow>
      expStartPins q ! k = (if inp then inBase q else outBase q) + 8 * of_nat (ports_before (pc_expanders c) inp k)"
    using d by (cases inp) (simp_all add: conf_done_def)
qed

section \<open>The registers of the chips\<close>

text \<open>What the chip and bank were last told to put on its pins.\<close>

primrec gpio :: "u8 \<times> u8 \<Rightarrow> chip_write list \<Rightarrow> u8 option" where
  "gpio ch [] = None"
| "gpio ch (w # ws) =
     (case gpio ch ws of
        Some v \<Rightarrow> Some v
      | None \<Rightarrow> (case w of Chip_Write adr reg v \<Rightarrow> if adr = fst ch \<and> reg = MCP23x17_GPIOA + snd ch then Some v else None))"

lemma gpio_append: "gpio ch (as @ bs) = (case gpio ch bs of Some v \<Rightarrow> Some v | None \<Rightarrow> gpio ch as)"
  by (induction as) (auto split: option.splits)

lemma gpio_written: "gpio ch [Chip_Write adr (MCP23x17_GPIOA + bank) v] = (if (adr, bank) = ch then Some v else None)"
  by (cases ch) simp

text \<open>What the update has done before port \<open>k\<close>.\<close>

definition upd_done :: "(u8 \<Rightarrow> u8 \<Rightarrow> u8 option) \<Rightarrow> ports \<Rightarrow> nat \<Rightarrow> update_loop \<Rightarrow> bool" where
  "upd_done chip p0 k l \<longleftrightarrow> (case l of (p, ab, out) \<Rightarrow>
     p = p0\<lparr>valuesOfPorts := valuesOfPorts p, previousValues := previousValues p\<rparr> \<and>
     length (valuesOfPorts p) = 16 \<and> length (previousValues p) = 16 \<and> ab = chip_at k \<and>
     (\<forall>j < 16. valuesOfPorts p ! j =
        (if j < k \<and> port_kind (expBoard p0) True j then readMCP23017port chip (snd (chip_at j)) (fst (chip_at j)) else valuesOfPorts p0 ! j)) \<and>
     (\<forall>j < 16. previousValues p ! j =
        (if j < k \<and> port_kind (expBoard p0) False j then valuesOfPorts p0 ! j else previousValues p0 ! j)) \<and>
     (\<forall>j < 16. gpio (chip_at j) out =
        (if j < k \<and> port_kind (expBoard p0) False j \<and> previousValues p0 ! j \<noteq> valuesOfPorts p0 ! j then Some (valuesOfPorts p0 ! j) else None)))"

lemma upd_port:
  assumes "upd_done chip p0 k l" and "board_there (expBoard p0) (k div 4)" and "k < 16"
  shows "upd_done chip p0 (Suc k) (update_port chip (\<lambda>_. True) k l)"
proof -
  obtain p adr bank out where l: "l = (p, (adr, bank), out)" by (metis prod.exhaust)
  have p: "p = p0\<lparr>valuesOfPorts := valuesOfPorts p, previousValues := previousValues p\<rparr>"
    and f: "length (valuesOfPorts p) = 16" "length (previousValues p) = 16" "(adr, bank) = chip_at k"
    and v: "\<forall>j < 16. valuesOfPorts p ! j =
        (if j < k \<and> port_kind (expBoard p0) True j then readMCP23017port chip (snd (chip_at j)) (fst (chip_at j)) else valuesOfPorts p0 ! j)"
    and w: "\<forall>j < 16. previousValues p ! j =
        (if j < k \<and> port_kind (expBoard p0) False j then valuesOfPorts p0 ! j else previousValues p0 ! j)"
    and g: "\<forall>j < 16. gpio (chip_at j) out =
        (if j < k \<and> port_kind (expBoard p0) False j \<and> previousValues p0 ! j \<noteq> valuesOfPorts p0 ! j then Some (valuesOfPorts p0 ! j) else None)"
    using assms(1) by (simp_all add: upd_done_def l)
  have B: "expBoard p = expBoard p0" using arg_cong [OF p, of expBoard] by simp
  have n: "next_chip k (adr, bank) = chip_at (Suc k)" using next_chip_at [of k] f(3) by simp
  have a: "adr = fst (chip_at k)" "bank = snd (chip_at k)" using f(3) by (metis fst_conv snd_conv)+
  have up: "(p0\<lparr>valuesOfPorts := vs, previousValues := ws\<rparr>)\<lparr>valuesOfPorts := vs', previousValues := ws'\<rparr> =
      p0\<lparr>valuesOfPorts := vs', previousValues := ws'\<rparr>" for vs ws vs' ws' by simp
  have lt: "j < Suc k \<longleftrightarrow> j < k \<or> j = k" for j :: nat by auto
  show ?thesis
  proof (cases "port_is_input (expBoard p0) k")
    case True
    then have k: "port_kind (expBoard p0) True k" "\<not> port_kind (expBoard p0) False k" using assms(2) by (simp_all add: port_kind_def)
    define vs where "vs = (valuesOfPorts p)[k := readMCP23017port chip bank adr]"
    have r: "update_port chip (\<lambda>_. True) k l = (p\<lparr>valuesOfPorts := vs\<rparr>, chip_at (Suc k), out)"
      using True B n by (simp add: update_port_def l vs_def)
    have "p\<lparr>valuesOfPorts := vs\<rparr> = p0\<lparr>valuesOfPorts := vs, previousValues := previousValues p\<rparr>"
      by (subst p) simp
    moreover have "length vs = 16" "\<forall>j < 16. vs ! j =
        (if j < Suc k \<and> port_kind (expBoard p0) True j then readMCP23017port chip (snd (chip_at j)) (fst (chip_at j)) else valuesOfPorts p0 ! j)"
      using f(1) v k a assms(3) by (auto simp: vs_def nth_list_update lt)
    moreover have kf: "(j < Suc k \<and> port_kind (expBoard p0) False j) = (j < k \<and> port_kind (expBoard p0) False j)" for j
      using k(2) by (auto simp: lt)
    moreover have "(j < Suc k \<and> port_kind (expBoard p0) False j \<and> X) = (j < k \<and> port_kind (expBoard p0) False j \<and> X)" for j X
      using kf [of j] by blast
    ultimately show ?thesis using f(2) w g by (simp add: upd_done_def r)
  next
    case False
    then have k: "port_kind (expBoard p0) False k" "\<not> port_kind (expBoard p0) True k" using assms(2) by (simp_all add: port_kind_def)
    have now: "previousValues p ! k = previousValues p0 ! k" "valuesOfPorts p ! k = valuesOfPorts p0 ! k"
      using v w assms(3) by simp_all
    have kv: "(j < Suc k \<and> port_kind (expBoard p0) True j) = (j < k \<and> port_kind (expBoard p0) True j)" for j
      using k(2) by (auto simp: lt)
    show ?thesis
    proof (cases "previousValues p0 ! k = valuesOfPorts p0 ! k")
      case True
      have r: "update_port chip (\<lambda>_. True) k l = (p, chip_at (Suc k), out)"
        using False B n now True by (simp add: update_port_def l)
      have "\<forall>j < 16. previousValues p ! j =
          (if j < Suc k \<and> port_kind (expBoard p0) False j then valuesOfPorts p0 ! j else previousValues p0 ! j)"
        using w True by (auto simp: lt)
      moreover have "(j < Suc k \<and> port_kind (expBoard p0) False j \<and> previousValues p0 ! j \<noteq> valuesOfPorts p0 ! j) =
          (j < k \<and> port_kind (expBoard p0) False j \<and> previousValues p0 ! j \<noteq> valuesOfPorts p0 ! j)" for j
        using True by (auto simp: lt)
      ultimately show ?thesis using p f(1,2) v g by (simp add: upd_done_def r kv)
    next
      case neq: False
      define ws where "ws = (previousValues p)[k := valuesOfPorts p0 ! k]"
      define out' where "out' = out @ [Chip_Write adr (MCP23x17_GPIOA + bank) (valuesOfPorts p0 ! k)]"
      have r: "update_port chip (\<lambda>_. True) k l = (p\<lparr>previousValues := ws\<rparr>, chip_at (Suc k), out')"
        using False B n now neq by (simp add: update_port_def l ws_def out'_def writeMCP23017port_def)
      have "p\<lparr>previousValues := ws\<rparr> = p0\<lparr>valuesOfPorts := valuesOfPorts p, previousValues := ws\<rparr>"
        by (subst p) simp
      moreover have "length ws = 16" "\<forall>j < 16. ws ! j =
          (if j < Suc k \<and> port_kind (expBoard p0) False j then valuesOfPorts p0 ! j else previousValues p0 ! j)"
        using f(2) w k assms(3) by (auto simp: ws_def nth_list_update lt)
      moreover have "gpio (chip_at j) out' =
          (if j < Suc k \<and> port_kind (expBoard p0) False j \<and> previousValues p0 ! j \<noteq> valuesOfPorts p0 ! j then Some (valuesOfPorts p0 ! j) else None)"
        if j: "j < 16" for j
      proof (cases "j = k")
        case True
        then show ?thesis using k(1) neq f(3) by (simp add: out'_def gpio_append gpio_written del: gpio.simps)
      next
        case False
        then have "(adr, bank) \<noteq> chip_at j" using chips_distinct [OF assms(3) j] f(3) by metis
        then show ?thesis using g j False by (simp add: out'_def gpio_append gpio_written lt del: gpio.simps)
      qed
      ultimately show ?thesis using f(1) v by (simp add: upd_done_def r kv)
    qed
  qed
qed

lemma upd_skip:
  assumes "upd_done chip p0 (4 * b) (p, (adr, bank), out)" and "\<not> board_there (expBoard p0) b"
  shows "upd_done chip p0 (4 * b + 4) (p, (adr + 2, bank), out)"
proof -
  have "(adr, bank) = chip_at (4 * b)" using assms(1) by (simp add: upd_done_def)
  then have a: "(adr + 2, bank) = chip_at (4 * b + 4)" using skipped_board [of b] by (metis fst_conv snd_conv)
  have k: "(j < 4 * b + 4 \<and> port_kind (expBoard p0) inp j) = (j < 4 * b \<and> port_kind (expBoard p0) inp j)" for j inp
    using no_ports [OF assms(2), of inp j] by auto
  then have x: "(j < 4 * b + 4 \<and> port_kind (expBoard p0) False j \<and> X) = (j < 4 * b \<and> port_kind (expBoard p0) False j \<and> X)" for j X
    by blast
  show ?thesis using assms(1) a unfolding upd_done_def prod.case k x by simp
qed

lemma update_done:
  assumes "length (valuesOfPorts p) = 16" and "length (previousValues p) = 16"
  shows "\<exists>q out ab. handlerForExpanderUpdate chip (\<lambda>_. True) p = (q, out) \<and> upd_done chip p 16 (q, ab, out)"
proof -
  have B: "expBoard q = expBoard p" if "upd_done chip p k (q, ab, out)" for q k ab out
  proof -
    have "q = p\<lparr>valuesOfPorts := valuesOfPorts q, previousValues := previousValues q\<rparr>" using that by (simp add: upd_done_def)
    from arg_cong [OF this, of expBoard] show ?thesis by simp
  qed
  have "upd_done chip p 16 (fold (update_board chip (\<lambda>_. True)) [0..<4] (p, (0, 0), []))"
  proof (rule fold_boards [where there = "board_there (expBoard p)" and f = "update_port chip (\<lambda>_. True)"
        and g = "\<lambda>_ (p, (adr, bank), out). (p, (adr + 2, bank), out)"], goal_cases)
    case 1
    show ?case using assms by (simp add: upd_done_def chip_at_def)
  next
    case (2 b l)
    then show ?case by (auto simp: update_board_def B split: prod.splits)
  next
    case (3 k l)
    then show ?case by (simp add: upd_port)
  next
    case (4 b l)
    then show ?case by (auto intro: upd_skip split: prod.splits)
  qed
  moreover obtain q ab out where r: "fold (update_board chip (\<lambda>_. True)) [0..<4] (p, (0, 0), []) = (q, ab, out)"
    by (rule prod_cases3)
  moreover have "handlerForExpanderUpdate chip (\<lambda>_. True) p = (q, out)" by (simp only: handlerForExpanderUpdate_def r prod.case)
  ultimately show ?thesis by metis
qed

section \<open>Pins and ports\<close>

text \<open>A pin of a port by its number in the house, and the bit of the port it is.\<close>

definition pin_of :: "u8 \<Rightarrow> u8 list \<Rightarrow> bool \<Rightarrow> nat \<Rightarrow> nat \<Rightarrow> u8" where
  "pin_of base B inp k m = base + of_nat (8 * ports_before B inp k + m)"

definition port_bit :: "nat \<Rightarrow> nat \<Rightarrow> nat" where
  "port_bit k m = (if k mod 4 > 1 then 7 - m else m)"

text \<open>The state after the configuration, as every later operation keeps it.\<close>

definition configured :: "u8 list \<Rightarrow> ports \<Rightarrow> bool" where
  "configured B p \<longleftrightarrow> expBoard p = B \<and> outBase p \<le> 32 \<and> inBase p \<le> 32 \<and>
     length (valuesOfPorts p) = 16 \<and> length (previousValues p) = 16 \<and>
     (\<forall>k < 16. \<forall>inp. port_kind B inp k \<longrightarrow>
        expStartPins p ! k = (if inp then inBase p else outBase p) + 8 * of_nat (ports_before B inp k))"

lemma ports_before_mono: "j < k \<Longrightarrow> port_kind B inp j \<Longrightarrow> ports_before B inp j < ports_before B inp k"
proof (induction k)
  case (Suc k)
  then show ?case by (cases "j = k") (auto simp: ports_before_Suc)
qed simp

lemma ports_before_le: "ports_before B inp k \<le> k"
  using length_filter_le [of "port_kind B inp" "[0..<k]"] by (simp add: ports_before_def)

lemma find_pin_append:
  "(\<And>j. j \<in> set as \<Longrightarrow> \<not> (board_there (expBoard p) (j div 4) \<and> port_is_input (expBoard p) j = inp \<and>
      unat n < unat (expStartPins p ! j) + 8)) \<Longrightarrow> find_pin p inp n (as @ bs) = find_pin p inp n bs"
  by (induction as) auto

lemma find_pin_of:
  assumes "configured B p" and k: "k < 16" "port_kind B inp k" and m: "m < 8"
  shows "find_pin p inp (pin_of (if inp then inBase p else outBase p) B inp k m) [0..<16] = Some (k, of_nat (port_bit k m))"
proof -
  define b where "b = (if inp then inBase p else outBase p)"
  define n where "n = pin_of b B inp k m"
  have B: "expBoard p = B" and b: "unat b \<le> 32"
    and st: "\<And>j. j < 16 \<Longrightarrow> port_kind B inp j \<Longrightarrow> expStartPins p ! j = b + of_nat (8 * ports_before B inp j)"
    using assms(1) by (auto simp: configured_def b_def word_le_nat_alt)
  have u: "unat (b + of_nat (8 * ports_before B inp j + i)) = unat b + 8 * ports_before B inp j + i" if "j < 16" "i < 8" for i j
  proof -
    have "8 * ports_before B inp j + i < 128" using ports_before_le [of B inp j] that by simp
    then show ?thesis using b by (simp add: unat_word_ariths unat_of_nat_u8)
  qed
  have n: "unat n = unat b + 8 * ports_before B inp k + m" using u [OF k(1) m] by (simp add: n_def pin_of_def)
  have ust: "unat (expStartPins p ! j) = unat b + 8 * ports_before B inp j" if "j < 16" "port_kind B inp j" for j
    using u [of j 0] st [OF that] that by simp
  have s: "[0..<16] = [0..<k] @ k # [Suc k..<16]"
    using k(1) upt_add_eq_append [of 0 k "16 - k"] by (simp add: upt_conv_Cons)
  have "find_pin p inp n [0..<16] = find_pin p inp n (k # [Suc k..<16])"
    unfolding s
  proof (rule find_pin_append, rule notI, elim conjE)
    fix j
    assume j: "j \<in> set [0..<k]" "board_there (expBoard p) (j div 4)" "port_is_input (expBoard p) j = inp"
      "unat n < unat (expStartPins p ! j) + 8"
    then have p: "j < 16" "port_kind B inp j" using k(1) B by (simp_all add: port_kind_def)
    have "ports_before B inp j < ports_before B inp k" using ports_before_mono p(2) j(1) by simp
    then show False using j(4) n ust [OF p] by simp
  qed
  also have "\<dots> = Some (k, of_nat (port_bit k m))"
  proof -
    have c: "board_there (expBoard p) (k div 4)" "port_is_input (expBoard p) k = inp" "unat n < unat (expStartPins p ! k) + 8"
      using k B ust [OF k] n m by (simp_all add: port_kind_def)
    have "n - expStartPins p ! k = of_nat m" using st [OF k] by (simp add: n_def pin_of_def)
    moreover have "(7 :: u8) - of_nat m = of_nat (7 - m)" using m by (simp add: of_nat_diff)
    ultimately show ?thesis using c by (simp add: port_bit_def Let_def)
  qed
  finally show ?thesis by (simp only: n_def b_def)
qed

text \<open>Different pins have different numbers, and the bits of a port are its pins.\<close>

lemma port_bit_less: "m < 8 \<Longrightarrow> port_bit k m < 8"
  by (auto simp: port_bit_def)

lemma port_bit_inject: "m < 8 \<Longrightarrow> m' < 8 \<Longrightarrow> port_bit k m = port_bit k m' \<longleftrightarrow> m = m'"
  by (auto simp: port_bit_def)

lemma pin_of_inject:
  assumes "configured B p" and "k < 16" "port_kind B inp k" "m < 8" and "k' < 16" "port_kind B inp k'" "m' < 8"
    and "b = (if inp then inBase p else outBase p)"
  shows "pin_of b B inp k m = pin_of b B inp k' m' \<longleftrightarrow> k = k' \<and> m = m'"
proof
  assume e: "pin_of b B inp k m = pin_of b B inp k' m'"
  have "(k, of_nat (port_bit k m) :: u8) = (k', of_nat (port_bit k' m'))"
    using find_pin_of [OF assms(1-4)] find_pin_of [OF assms(1,5-7)] e unfolding assms(8) by (metis option.inject)
  moreover have "unat (of_nat (port_bit k m) :: u8) = port_bit k m" "unat (of_nat (port_bit k' m') :: u8) = port_bit k' m'"
    using port_bit_less [OF assms(4), of k] port_bit_less [OF assms(7), of k'] by (simp_all add: unat_of_nat_u8)
  ultimately show "k = k' \<and> m = m'" using port_bit_inject [OF assms(4,7)] by (metis prod.inject)
qed simp

section \<open>Orders and updates\<close>

text \<open>
  The events on the pins: an order for an output, and an update with the bytes that the chips return. All chips acknowledge.
\<close>

datatype pin_event = Order u8 bool | Update "u8 \<Rightarrow> u8 \<Rightarrow> u8 option"

fun pin_run :: "mcu \<Rightarrow> pin_event list \<Rightarrow> (ports \<times> avr_io) \<times> chip_write list \<Rightarrow> ((ports \<times> avr_io) \<times> chip_write list) option" where
  "pin_run c [] s = Some s"
| "pin_run c (Order n b # es) (s, out) = (case darlingtonoutput_setpin c n b s of None \<Rightarrow> None | Some s \<Rightarrow> pin_run c es (s, out))"
| "pin_run c (Update chip # es) ((p, io), out) =
     (case handlerForExpanderUpdate chip (\<lambda>_. True) p of (p, w) \<Rightarrow> pin_run c es ((p, io), out @ w))"

lemma pin_run_append:
  "pin_run c (as @ bs) s = (case pin_run c as s of None \<Rightarrow> None | Some s \<Rightarrow> pin_run c bs s)"
  by (induction c as s rule: pin_run.induct) (auto split: option.splits prod.splits)

definition on_expander :: "mcu \<Rightarrow> u8 \<Rightarrow> bool" where
  "on_expander c n \<longleftrightarrow> c = ATmega328P \<or> 12 \<le> n"

definition output_pin :: "mcu \<Rightarrow> u8 list \<Rightarrow> u8 \<Rightarrow> u8 \<Rightarrow> bool" where
  "output_pin c B b n \<longleftrightarrow> (on_expander c n \<longrightarrow> (\<exists>k<16. \<exists>m<8. port_kind B False k \<and> n = pin_of b B False k m))"

fun pin_order :: "u8 \<Rightarrow> pin_event list \<Rightarrow> bool \<Rightarrow> bool" where
  "pin_order n [] b = b"
| "pin_order n (Order n' b' # es) b = pin_order n es (if n' = n then b' else b)"
| "pin_order n (Update chip # es) b = pin_order n es b"

lemma output_pinI: "k < 16 \<Longrightarrow> port_kind B False k \<Longrightarrow> m < 8 \<Longrightarrow> output_pin c B b (pin_of b B False k m)"
  by (auto simp: output_pin_def)

text \<open>An order changes one bit.\<close>

definition with_bit :: "u8 \<Rightarrow> nat \<Rightarrow> bool \<Rightarrow> u8" where
  "with_bit v i b = (let x = ucast (push_bit i 1 :: u16) in if b then v OR x else v AND NOT x)"

lemma bit_mask: "i < 8 \<Longrightarrow> bit (ucast (2 ^ i :: u16) :: u8) j \<longleftrightarrow> j = i"
  by (auto simp: bit_ucast_iff bit_exp_iff)

lemma bit_with_bit: "i < 8 \<Longrightarrow> j < 8 \<Longrightarrow> bit (with_bit v i b) j = (if j = i then b else bit v j)"
  by (simp add: with_bit_def Let_def bit_or_iff bit_and_iff bit_not_iff bit_mask)

lemma and_mask: "i < 8 \<Longrightarrow> (v :: u8) AND ucast (push_bit i 1 :: u16) \<noteq> 0 \<longleftrightarrow> bit v i"
proof -
  assume "i < 8"
  then have b: "bit (v AND ucast (push_bit i 1 :: u16)) j \<longleftrightarrow> bit v i \<and> j = i" for j by (auto simp: bit_and_iff bit_mask)
  show "v AND ucast (push_bit i 1 :: u16) \<noteq> 0 \<longleftrightarrow> bit v i"
  proof (cases "bit v i")
    case True
    then have "bit (v AND ucast (push_bit i 1 :: u16)) i" using b [of i] by blast
    then show ?thesis using True by auto
  next
    case False
    then have "v AND ucast (push_bit i 1 :: u16) = 0" using b by (intro bit_eqI) simp
    then show ?thesis using False by simp
  qed
qed

lemma setOutput_pin:
  assumes "configured B p" and k: "k < 16" "port_kind B False k" and m: "m < 8"
  shows "ports_setOutput p (pin_of (outBase p) B False k m) b =
    Some (p\<lparr>valuesOfPorts := (valuesOfPorts p)[k := with_bit (valuesOfPorts p ! k) (port_bit k m) b]\<rparr>)"
proof -
  have "unat (of_nat (port_bit k m) :: u8) = port_bit k m" using port_bit_less [OF m, of k] by (simp add: unat_of_nat_u8)
  then show ?thesis using find_pin_of [OF assms] port_bit_less [OF m, of k]
    by (simp add: ports_setOutput_def with_bit_def Let_def)
qed

lemma getInput_pin:
  assumes "configured B p" and k: "k < 16" "port_kind B True k" and m: "m < 8"
  shows "\<exists>r. ports_getInput p (pin_of (inBase p) B True k m) = Some r \<and> (r \<noteq> 0 \<longleftrightarrow> bit (valuesOfPorts p ! k) (port_bit k m))"
proof -
  have "unat (of_nat (port_bit k m) :: u8) = port_bit k m" using port_bit_less [OF m, of k] by (simp add: unat_of_nat_u8)
  then show ?thesis using find_pin_of [OF assms] port_bit_less [OF m, of k] and_mask [OF port_bit_less [OF m, of k]]
    by (simp add: ports_getInput_def)
qed

section \<open>What the chips drive\<close>

definition driven :: "mcu \<Rightarrow> u8 list \<Rightarrow> u8 \<times> u8 \<Rightarrow> (u8 \<Rightarrow> bool) \<Rightarrow> chip_write list \<Rightarrow> ports \<Rightarrow> bool" where
  "driven c B bases ordered out p \<longleftrightarrow> configured B p \<and> (outBase p, inBase p) = bases \<and>
     (\<forall>k < 16. port_kind B False k \<longrightarrow> gpio (chip_at k) out = Some (previousValues p ! k) \<and>
       (\<forall>m < 8. on_expander c (pin_of (outBase p) B False k m) \<longrightarrow>
          bit (valuesOfPorts p ! k) (port_bit k m) = ordered (pin_of (outBase p) B False k m)))"

lemma driven_order:
  assumes d: "driven c B bases ordered out p" and "output_pin c B (fst bases) n"
  shows "\<exists>q io'. darlingtonoutput_setpin c n b (p, io) = Some (q, io') \<and> driven c B bases (ordered(n := b)) out q"
proof (cases "on_expander c n")
  case False
  then have "\<exists>io'. darlingtonoutput_setpin c n b (p, io) = Some (p, io')"
    by (auto simp: on_expander_def darlingtonoutput_setpin_def)
  moreover have "driven c B bases (ordered(n := b)) out p" using d False by (auto simp: driven_def)
  ultimately show ?thesis by blast
next
  case True
  then obtain k m where k: "k < 16" "m < 8" "port_kind B False k" "n = pin_of (outBase p) B False k m"
    using assms by (auto simp: output_pin_def driven_def)
  have c: "configured B p" using d by (simp add: driven_def)
  define q where "q = p\<lparr>valuesOfPorts := (valuesOfPorts p)[k := with_bit (valuesOfPorts p ! k) (port_bit k m) b]\<rparr>"
  have "\<not> (c \<noteq> ATmega328P \<and> n < 8)" "\<not> (c \<noteq> ATmega328P \<and> n < 12)" using True by (auto simp: on_expander_def word_le_nat_alt word_less_nat_alt)
  then have "darlingtonoutput_setpin c n b (p, io) = Some (q, io)"
    using setOutput_pin [OF c k(1,3,2)] k(4) unfolding darlingtonoutput_setpin_def q_def by auto
  moreover have "configured B q" using c by (simp add: configured_def q_def)
  moreover have "bit (valuesOfPorts q ! j) (port_bit j i) = (ordered(n := b)) (pin_of (outBase q) B False j i)"
    if j: "j < 16" "port_kind B False j" "i < 8" "on_expander c (pin_of (outBase q) B False j i)" for j i
  proof -
    have o: "outBase q = outBase p" by (simp add: q_def)
    have e: "pin_of (outBase p) B False j i = n \<longleftrightarrow> j = k \<and> i = m"
      unfolding k(4) using pin_of_inject [OF c j(1-3) k(1,3,2)] by simp
    have old: "bit (valuesOfPorts p ! j) (port_bit j i) = ordered (pin_of (outBase p) B False j i)"
      using d j o by (simp add: driven_def)
    have "length (valuesOfPorts p) = 16" using c by (simp add: configured_def)
    then have "bit (valuesOfPorts q ! j) (port_bit j i) = (if j = k \<and> i = m then b else bit (valuesOfPorts p ! j) (port_bit j i))"
      using k(1) bit_with_bit [OF port_bit_less [OF k(2), of k] port_bit_less [OF j(3), of k]] port_bit_inject [OF j(3) k(2), of k]
      by (cases "j = k") (simp_all add: q_def)
    then show ?thesis using e old o by (cases "j = k \<and> i = m") (simp_all add: fun_upd_def)
  qed
  ultimately show ?thesis using d by (auto simp: driven_def q_def)
qed

lemma updated:
  assumes "configured B p"
  shows "\<exists>q w. handlerForExpanderUpdate chip (\<lambda>_. True) p = (q, w) \<and> configured B q \<and>
    outBase q = outBase p \<and> inBase q = inBase p \<and>
    (\<forall>k < 16. port_kind B False k \<longrightarrow> valuesOfPorts q ! k = valuesOfPorts p ! k \<and> previousValues q ! k = valuesOfPorts p ! k \<and>
       gpio (chip_at k) w = (if previousValues p ! k \<noteq> valuesOfPorts p ! k then Some (valuesOfPorts p ! k) else None)) \<and>
    (\<forall>k < 16. port_kind B True k \<longrightarrow> valuesOfPorts q ! k = readMCP23017port chip (snd (chip_at k)) (fst (chip_at k)))"
proof -
  have p: "expBoard p = B" "length (valuesOfPorts p) = 16" "length (previousValues p) = 16"
    using assms by (simp_all add: configured_def)
  obtain q w ab where r: "handlerForExpanderUpdate chip (\<lambda>_. True) p = (q, w)" and u: "upd_done chip p 16 (q, ab, w)"
    using update_done [OF p(2,3)] by blast
  have q: "q = p\<lparr>valuesOfPorts := valuesOfPorts q, previousValues := previousValues q\<rparr>"
    and l: "length (valuesOfPorts q) = 16" "length (previousValues q) = 16" using u by (simp_all add: upd_done_def)
  have s: "expBoard q = expBoard p" "outBase q = outBase p" "inBase q = inBase p" "expStartPins q = expStartPins p"
    using arg_cong [OF q, of expBoard] arg_cong [OF q, of outBase] arg_cong [OF q, of inBase] arg_cong [OF q, of expStartPins] by simp_all
  have "configured B q" using assms l s by (simp add: configured_def)
  moreover have "\<not> port_kind B True k" if "port_kind B False k" for k using that by (simp add: port_kind_def)
  ultimately show ?thesis using r u s p(1) by (simp add: upd_done_def)
qed

lemma driven_update:
  assumes "driven c B bases ordered out p"
  shows "\<exists>q w. handlerForExpanderUpdate chip (\<lambda>_. True) p = (q, w) \<and> driven c B bases ordered (out @ w) q"
proof -
  have "configured B p" using assms by (simp add: driven_def)
  from updated [OF this, of chip] obtain q w where
    "handlerForExpanderUpdate chip (\<lambda>_. True) p = (q, w)" "configured B q" "outBase q = outBase p" "inBase q = inBase p"
    "\<forall>k < 16. port_kind B False k \<longrightarrow> valuesOfPorts q ! k = valuesOfPorts p ! k \<and> previousValues q ! k = valuesOfPorts p ! k \<and>
       gpio (chip_at k) w = (if previousValues p ! k \<noteq> valuesOfPorts p ! k then Some (valuesOfPorts p ! k) else None)"
    by blast
  then show ?thesis using assms by (auto simp: driven_def gpio_append)
qed

lemma driven_run:
  assumes "driven c B bases ordered out p" and "\<And>n b. Order n b \<in> set es \<Longrightarrow> output_pin c B (fst bases) n"
  shows "\<exists>q io' w. pin_run c es ((p, io), out) = Some ((q, io'), w) \<and> driven c B bases (\<lambda>n. pin_order n es (ordered n)) w q"
  using assms
proof (induction es arbitrary: p io out ordered)
  case (Cons e es)
  show ?case
  proof (cases e)
    case (Order n b)
    obtain q io' where q: "darlingtonoutput_setpin c n b (p, io) = Some (q, io')" "driven c B bases (ordered(n := b)) out q"
      using driven_order [OF Cons.prems(1)] Cons.prems(2) [of n b] Order by fastforce
    have "(\<lambda>n'. pin_order n' es ((ordered(n := b)) n')) = (\<lambda>n'. pin_order n' (e # es) (ordered n'))"
      by (auto simp: Order fun_eq_iff)
    then have "driven c B bases (\<lambda>n'. pin_order n' es ((ordered(n := b)) n')) w r \<Longrightarrow>
        driven c B bases (\<lambda>n'. pin_order n' (e # es) (ordered n')) w r" for w r
      by (simp only:)
    moreover have "pin_run c (e # es) ((p, io), out) = pin_run c es ((q, io'), out)" using q(1) Order by simp
    ultimately show ?thesis using Cons.IH [OF q(2), of io'] Cons.prems(2) by (metis list.set_intros(2))
  next
    case (Update chip)
    obtain q w where q: "handlerForExpanderUpdate chip (\<lambda>_. True) p = (q, w)" "driven c B bases ordered (out @ w) q"
      using driven_update [OF Cons.prems(1)] by blast
    then show ?thesis using Cons.IH [OF q(2), of io] Cons.prems(2) Update by simp
  qed
qed simp

lemma init_configured:
  assumes "\<not> portsDeviceCreated p" and "length (expStartPins p) = 16" and "ports_init (\<lambda>_. True) c p = (q, ws)"
  shows "configured (pc_expanders c) q"
  using ports_configured [OF assms] by (auto simp: configured_def)

text \<open>The first update writes all outputs.\<close>

lemma driven_first:
  assumes "configured B p" and "valuesOfPorts p = replicate 16 0" and "previousValues p = replicate 16 255"
  shows "\<exists>q w. handlerForExpanderUpdate chip (\<lambda>_. True) p = (q, w) \<and> driven c B (outBase p, inBase p) (\<lambda>_. False) w q"
proof -
  from updated [OF assms(1), of chip] obtain q w where
    "handlerForExpanderUpdate chip (\<lambda>_. True) p = (q, w)" "configured B q" "outBase q = outBase p" "inBase q = inBase p"
    "\<forall>k < 16. port_kind B False k \<longrightarrow> valuesOfPorts q ! k = valuesOfPorts p ! k \<and> previousValues q ! k = valuesOfPorts p ! k \<and>
       gpio (chip_at k) w = (if previousValues p ! k \<noteq> valuesOfPorts p ! k then Some (valuesOfPorts p ! k) else None)"
    by blast
  then show ?thesis using assms(2,3) by (auto simp: driven_def)
qed

text \<open>After an update the chips drive the outputs as ordered, and the inputs are what the chips returned.\<close>

lemma driven_chips:
  assumes "driven c B bases ordered out p"
  shows "\<exists>q w. handlerForExpanderUpdate chip (\<lambda>_. True) p = (q, w) \<and> configured B q \<and> (outBase q, inBase q) = bases \<and>
    (\<forall>k < 16. \<forall>m < 8. port_kind B False k \<and> on_expander c (pin_of (fst bases) B False k m) \<longrightarrow>
       (\<exists>v. gpio (chip_at k) (out @ w) = Some v \<and> bit v (port_bit k m) = ordered (pin_of (fst bases) B False k m))) \<and>
    (\<forall>k < 16. port_kind B True k \<longrightarrow> valuesOfPorts q ! k = readMCP23017port chip (snd (chip_at k)) (fst (chip_at k)))"
proof -
  have d: "configured B p" "(outBase p, inBase p) = bases" using assms by (simp_all add: driven_def)
  from updated [OF d(1), of chip] obtain q w where
    r: "handlerForExpanderUpdate chip (\<lambda>_. True) p = (q, w)" "configured B q" "outBase q = outBase p" "inBase q = inBase p"
    "\<forall>k < 16. port_kind B False k \<longrightarrow> valuesOfPorts q ! k = valuesOfPorts p ! k \<and> previousValues q ! k = valuesOfPorts p ! k \<and>
       gpio (chip_at k) w = (if previousValues p ! k \<noteq> valuesOfPorts p ! k then Some (valuesOfPorts p ! k) else None)"
    "\<forall>k < 16. port_kind B True k \<longrightarrow> valuesOfPorts q ! k = readMCP23017port chip (snd (chip_at k)) (fst (chip_at k))"
    by blast
  have "gpio (chip_at k) (out @ w) = Some (valuesOfPorts p ! k)" if "k < 16" "port_kind B False k" for k
    using that assms r(5) by (simp add: driven_def gpio_append)
  then show ?thesis using r d assms by (auto simp: driven_def)
qed

lemma inputport_read_pin:
  assumes "configured B p" and "k < 16" "port_kind B True k" "m < 8" and "16 \<le> pin_of (inBase p) B True k m"
  shows "\<exists>r. inputport_read c p pullup (pin_of (inBase p) B True k m) io = Some (io, r) \<and> (r \<noteq> 0 \<longleftrightarrow> bit (valuesOfPorts p ! k) (port_bit k m))"
proof -
  define n where "n = pin_of (inBase p) B True k m"
  obtain r where r: "ports_getInput p n = Some r" "r \<noteq> 0 \<longleftrightarrow> bit (valuesOfPorts p ! k) (port_bit k m)"
    using getInput_pin [OF assms(1-4)] n_def by blast
  have "unat (inBase p) \<le> 32" using assms(1) by (simp add: configured_def word_le_nat_alt)
  then have "unat n < 244" using ports_before_le [of B True k] assms(2,4) unfolding n_def pin_of_def
    by (simp add: unat_word_ariths unat_of_nat_u8)
  moreover have "16 \<le> unat n" using assms(5) by (simp add: n_def word_le_nat_alt)
  ultimately show ?thesis using r unfolding n_def [symmetric] inputport_read_def Let_def
    by (auto simp: word_less_nat_alt)
qed

section \<open>Chips that do not answer\<close>

text \<open>A value that the chip did not acknowledge is remembered as written, and is not sent again.\<close>

lemma unanswered_write_is_forgotten:
  assumes "\<not> port_is_input (expBoard p) k" and "\<not> ack adr" and "k < length (previousValues p)"
  shows "\<exists>q ab. update_port chip ack k (p, (adr, bank), out) = (q, ab, out) \<and> previousValues q ! k = valuesOfPorts q ! k"
  using assms by (auto simp: update_port_def writeMCP23017port_def)

text \<open>A port whose eight outputs are all switched on before the first update is not written: the last value begins as 255.\<close>

lemma full_port_is_not_written:
  assumes "\<not> portsDeviceCreated p" and "length (expStartPins p) = 16" and "ports_init (\<lambda>_. True) cfg p = (q, ws)"
    and "k < 16" "port_kind (pc_expanders cfg) False k"
    and "\<And>m. m < 8 \<Longrightarrow> on_expander c (pin_of (outBase q) (pc_expanders cfg) False k m)"
  shows "\<exists>r w. pin_run c (map (\<lambda>m. Order (pin_of (outBase q) (pc_expanders cfg) False k m) True) [0..<8] @ [Update chip]) ((q, io), []) = Some (r, w) \<and>
    gpio (chip_at k) w = None"
proof -
  let ?B = "pc_expanders cfg"
  have c: "configured ?B q" and v: "valuesOfPorts q = replicate 16 0" "previousValues q = replicate 16 255"
    using init_configured [OF assms(1-3)] ports_configured(4,5) [OF assms(1-3)] by simp_all
  define ord where "ord i = map (\<lambda>m. Order (pin_of (outBase q) ?B False k m) True) [0..<i]" for i
  have run: "\<exists>p'. pin_run c (ord i) ((q, io), []) = Some ((p', io), []) \<and> configured ?B p' \<and> outBase p' = outBase q \<and>
      previousValues p' = previousValues q \<and> (\<forall>m < i. bit (valuesOfPorts p' ! k) (port_bit k m))" if "i \<le> 8" for i
    using that
  proof (induction i)
    case 0
    then show ?case using c by (simp add: ord_def)
  next
    case (Suc i)
    then obtain p' where p': "pin_run c (ord i) ((q, io), []) = Some ((p', io), [])" "configured ?B p'" "outBase p' = outBase q"
      "previousValues p' = previousValues q" "\<forall>m < i. bit (valuesOfPorts p' ! k) (port_bit k m)" by auto
    have i: "i < 8" using Suc.prems by simp
    define p'' where "p'' = p'\<lparr>valuesOfPorts := (valuesOfPorts p')[k := with_bit (valuesOfPorts p' ! k) (port_bit k i) True]\<rparr>"
    have "darlingtonoutput_setpin c (pin_of (outBase q) ?B False k i) True (p', io) = Some (p'', io)"
      using setOutput_pin [OF p'(2) assms(4,5) i, of True] p'(3) assms(6) [OF i]
      by (auto simp: darlingtonoutput_setpin_def on_expander_def p''_def word_le_nat_alt word_less_nat_alt)
    then have "pin_run c (ord (Suc i)) ((q, io), []) = Some ((p'', io), [])"
      using p'(1) by (simp add: ord_def pin_run_append)
    moreover have "length (valuesOfPorts p') = 16" using p'(2) by (simp add: configured_def)
    then have "\<forall>m < Suc i. bit (valuesOfPorts p'' ! k) (port_bit k m)"
      using p'(5) assms(4) i by (auto simp: p''_def bit_with_bit port_bit_less less_Suc_eq)
    moreover have "configured ?B p''" "outBase p'' = outBase q" "previousValues p'' = previousValues q"
      using p'(2-4) by (simp_all add: p''_def configured_def)
    ultimately show ?case by blast
  qed
  from run [of 8] obtain p' where p': "pin_run c (ord 8) ((q, io), []) = Some ((p', io), [])" "configured ?B p'"
    "previousValues p' = previousValues q" "\<forall>m < 8. bit (valuesOfPorts p' ! k) (port_bit k m)" by auto
  have "valuesOfPorts p' ! k = 255"
  proof (rule bit_word_eqI)
    fix i assume i: "i < LENGTH(8)"
    have "port_bit k (port_bit k i) = i" using i by (auto simp: port_bit_def)
    then have "bit (valuesOfPorts p' ! k) i" using p'(4) port_bit_less [of i k] i by auto
    moreover have "(255 :: u8) = - 1" by simp
    then have "bit (255 :: u8) i" using i by (simp only: bit_minus_1_iff possible_bit_word)
    ultimately show "bit (valuesOfPorts p' ! k) i = bit (255 :: u8) i" by simp
  qed
  then show ?thesis
    using updated [OF p'(2), of chip] p'(1,3) v(2) assms(4,5) unfolding ord_def
    by (auto simp: pin_run_append)
qed

text \<open>
  An output board whose second chip does not answer: its first chip is left with one port of outputs and one of inputs, and the
  inputs of the next board are counted from eight further on.
\<close>

lemma half_board_becomes_input:
  "(let p = \<lparr>expBoard = [], expStartPins = replicate 16 0, valuesOfPorts = [], previousValues = [],
      expanderActive = False, portsDeviceCreated = False, outBase = 0, inBase = 0\<rparr>;
      (q, w) = ports_init (\<lambda>a. a \<noteq> 1) (ports_config.make 128 [0, 15, 255, 255]) p
    in take 3 w = [Chip_Write 0 MCP23x17_IODIRA 0, Chip_Write 0 (MCP23x17_IODIRA + 1) 0xff, Chip_Write 0 (MCP23x17_GPPUA + 1) 0xff] \<and>
       expBoard q = [255, 15, 255, 255] \<and> expStartPins q ! 4 = 24)"
  by code_simp

section \<open>The pins follow the orders\<close>

text \<open>
  Property C35. A ports device is configured while all chips answer, and they acknowledge the writes of the updates, too. After the first update come any orders for outputs and any
  updates, and a last update. Every order is carried out; the last byte each chip was told for its pins shows, on each output of the
  expanders, the last order for this output's number (or off), and reading an input's number gives the bit that the chip returned.
\<close>

theorem expander_pins_follow_orders:
  assumes "\<not> portsDeviceCreated p" and "length (expStartPins p) = 16" and "ports_init (\<lambda>_. True) cfg p = (q, ws)"
    and "\<forall>n b. Order n b \<in> set es \<longrightarrow> output_pin c (pc_expanders cfg) (outBase q) n"
  shows "\<exists>q' io' out. pin_run c (Update first # es @ [Update chip]) ((q, io), []) = Some ((q', io'), out) \<and>
    (\<forall>k < 16. \<forall>m < 8. port_kind (pc_expanders cfg) False k \<and> on_expander c (pin_of (outBase q) (pc_expanders cfg) False k m) \<longrightarrow>
       (\<exists>v. gpio (chip_at k) out = Some v \<and>
          bit v (port_bit k m) = pin_order (pin_of (outBase q) (pc_expanders cfg) False k m) es False)) \<and>
    (\<forall>k < 16. \<forall>m < 8. port_kind (pc_expanders cfg) True k \<and> 16 \<le> pin_of (inBase q) (pc_expanders cfg) True k m \<longrightarrow>
       (\<exists>r. inputport_read c q' pullup (pin_of (inBase q) (pc_expanders cfg) True k m) io' = Some (io', r) \<and>
          (r \<noteq> 0 \<longleftrightarrow> bit (readMCP23017port chip (snd (chip_at k)) (fst (chip_at k))) (port_bit k m))))"
proof -
  let ?B = "pc_expanders cfg"
  obtain p1 w1 where 1: "handlerForExpanderUpdate first (\<lambda>_. True) q = (p1, w1)"
    and d1: "driven c ?B (outBase q, inBase q) (\<lambda>_. False) w1 p1"
    using driven_first [OF init_configured [OF assms(1-3)] ports_configured(4,5) [OF assms(1-3)], of first c] by blast
  obtain p2 io' w2 where 2: "pin_run c es ((p1, io), w1) = Some ((p2, io'), w2)"
    and d2: "driven c ?B (outBase q, inBase q) (\<lambda>n. pin_order n es False) w2 p2"
    using driven_run [OF d1, of es io] assms(4) by auto
  obtain p3 w3 where 3: "handlerForExpanderUpdate chip (\<lambda>_. True) p2 = (p3, w3)" "configured ?B p3"
      "outBase p3 = outBase q" "inBase p3 = inBase q"
    and o: "\<forall>k < 16. \<forall>m < 8. port_kind ?B False k \<and> on_expander c (pin_of (outBase q) ?B False k m) \<longrightarrow>
       (\<exists>v. gpio (chip_at k) (w2 @ w3) = Some v \<and> bit v (port_bit k m) = pin_order (pin_of (outBase q) ?B False k m) es False)"
    and i: "\<forall>k < 16. port_kind ?B True k \<longrightarrow> valuesOfPorts p3 ! k = readMCP23017port chip (snd (chip_at k)) (fst (chip_at k))"
    using driven_chips [OF d2, of chip] by auto
  have "pin_run c (Update first # es @ [Update chip]) ((q, io), []) = Some ((p3, io'), w2 @ w3)"
    using 1 2 3(1) by (simp add: pin_run_append)
  moreover have "\<exists>r. inputport_read c p3 pullup (pin_of (inBase q) ?B True k m) io' = Some (io', r) \<and>
      (r \<noteq> 0 \<longleftrightarrow> bit (readMCP23017port chip (snd (chip_at k)) (fst (chip_at k))) (port_bit k m))"
    if "k < 16" "m < 8" "port_kind ?B True k" "16 \<le> pin_of (inBase q) ?B True k m" for k m
    using inputport_read_pin [OF 3(2) that(1,3,2), of c pullup io'] that(1,3,4) i 3(4) by simp
  ultimately show ?thesis using o by blast
qed

lemma expander_pins_follow_orders_witness:
  "(let p = \<lparr>expBoard = [], expStartPins = [12,20,28,36, 44,52,60,68, 16,24,32,40, 48,56,64,72], valuesOfPorts = [], previousValues = [],
      expanderActive = False, portsDeviceCreated = False, outBase = 0, inBase = 0\<rparr>;
      q = fst (ports_init (\<lambda>_. True) (ports_config.make 128 [0, 255, 15, 15]) p);
      es = [Order 12 True, Order 29 True, Order 30 True, Update (\<lambda>_ _. None), Order 12 False]
    in \<exists>q' io' out. pin_run ATmega32 (Update (\<lambda>_ _. None) # es @ [Update (\<lambda>a b. if a = 4 \<and> b = 1 then Some 0x7F else Some 0xFF)])
         ((q, \<lparr>DDR = (\<lambda>_. 0), PORT = (\<lambda>_. 0), PIN = (\<lambda>_. 0)\<rparr>), []) = Some ((q', io'), out) \<and>
       (\<exists>v. gpio (0, 1) out = Some v \<and> bit v 6 \<and> bit v 5) \<and> (\<exists>v. gpio (0, 0) out = Some v \<and> \<not> bit v 0) \<and>
       (\<exists>r. inputport_read ATmega32 q' True 32 io' = Some (io', r) \<and> r = 0))"
proof -
  define p where "p = \<lparr>expBoard = [], expStartPins = [12,20,28,36, 44,52,60,68, 16,24,32,40, 48,56,64,72], valuesOfPorts = [],
    previousValues = [], expanderActive = False, portsDeviceCreated = False, outBase = 0, inBase = 0\<rparr>"
  define cfg where "cfg = ports_config.make 128 [0, 255, 15, 15]"
  define es where "es = [Order 12 True, Order 29 True, Order 30 True, Update (\<lambda>_ _. None), Order 12 False]"
  define q where "q = fst (ports_init (\<lambda>_. True) cfg p)"
  define ret :: "u8 \<Rightarrow> u8 \<Rightarrow> u8 option" where "ret = (\<lambda>a b. if a = 4 \<and> b = 1 then Some 0x7F else Some 0xFF)"
  have i: "ports_init (\<lambda>_. True) cfg p = (q, snd (ports_init (\<lambda>_. True) cfg p))" by (simp add: q_def)
  have p: "\<not> portsDeviceCreated p" "length (expStartPins p) = 16" by (simp_all add: p_def)
  have b: "outBase q = 12" "inBase q = 16" and e: "pc_expanders cfg = [0, 255, 15, 15]"
    using ports_configured(6,7) [OF p i] by (simp_all add: cfg_def ports_config.defs)
  have k: "port_kind [0, 255, 15, 15] False 0" "port_kind [0, 255, 15, 15] False 2" "port_kind [0, 255, 15, 15] True 10"
    by code_simp+
  have n: "pin_of 12 [0, 255, 15, 15] False 0 0 = 12" "pin_of 12 [0, 255, 15, 15] False 2 1 = 29"
    "pin_of 12 [0, 255, 15, 15] False 2 2 = 30" "pin_of 16 [0, 255, 15, 15] True 10 0 = 32" by code_simp+
  have o: "output_pin ATmega32 (pc_expanders cfg) (outBase q) m" if "Order m b \<in> set es" for m b
  proof -
    have "m = 12 \<or> m = 29 \<or> m = 30" using that by (auto simp: es_def)
    moreover have "output_pin ATmega32 [0, 255, 15, 15] 12 12" "output_pin ATmega32 [0, 255, 15, 15] 12 29"
      "output_pin ATmega32 [0, 255, 15, 15] 12 30"
      using output_pinI [of 0, OF _ k(1), of 0 ATmega32 12] output_pinI [of 2, OF _ k(2), of 1 ATmega32 12]
        output_pinI [of 2, OF _ k(2), of 2 ATmega32 12] n by simp_all
    ultimately show ?thesis unfolding b e by metis
  qed
  obtain q' io' out where r: "pin_run ATmega32 (Update (\<lambda>_ _. None) # es @ [Update ret])
      ((q, \<lparr>DDR = (\<lambda>_. 0), PORT = (\<lambda>_. 0), PIN = (\<lambda>_. 0)\<rparr>), []) = Some ((q', io'), out)"
    and out: "\<forall>k < 16. \<forall>m < 8. port_kind [0, 255, 15, 15] False k \<and> on_expander ATmega32 (pin_of 12 [0, 255, 15, 15] False k m) \<longrightarrow>
       (\<exists>v. gpio (chip_at k) out = Some v \<and> bit v (port_bit k m) = pin_order (pin_of 12 [0, 255, 15, 15] False k m) es False)"
    and "inp": "\<forall>k < 16. \<forall>m < 8. port_kind [0, 255, 15, 15] True k \<and> 16 \<le> pin_of 16 [0, 255, 15, 15] True k m \<longrightarrow>
       (\<exists>r. inputport_read ATmega32 q' True (pin_of 16 [0, 255, 15, 15] True k m) io' = Some (io', r) \<and>
          (r \<noteq> 0 \<longleftrightarrow> bit (readMCP23017port ret (snd (chip_at k)) (fst (chip_at k))) (port_bit k m)))"
    using expander_pins_follow_orders [OF p i, of es ATmega32 "\<lambda>_ _. None" ret
        "\<lparr>DDR = (\<lambda>_. 0), PORT = (\<lambda>_. 0), PIN = (\<lambda>_. 0)\<rparr>" True] o unfolding e b by blast
  have a: "chip_at 0 = (0, 0)" "chip_at 2 = (0, 1)" "chip_at 10 = (4, 1)" "port_bit 0 0 = 0" "port_bit 2 1 = 6" "port_bit 2 2 = 5" "port_bit 10 0 = 7"
    by code_simp+
  have "\<exists>v. gpio (0, 1) out = Some v \<and> bit v 6 \<and> bit v 5"
    using out [rule_format, of 2 1] out [rule_format, of 2 2] k(2) by (auto simp: a [unfolded One_nat_def] n [unfolded One_nat_def] on_expander_def es_def)
  moreover have "\<exists>v. gpio (0, 0) out = Some v \<and> \<not> bit v 0"
    using out [rule_format, of 0 0] k(1) by (auto simp: a n on_expander_def es_def)
  moreover have "\<exists>r. inputport_read ATmega32 q' True 32 io' = Some (io', r) \<and> r = 0"
    using "inp" [rule_format, of 10 0] k(3) by (auto simp: a n readMCP23017port_def ret_def)
  ultimately show ?thesis using r unfolding Let_def p_def [symmetric] cfg_def [symmetric] es_def [symmetric] q_def [symmetric] ret_def [symmetric] by blast
qed

end
