(* ===== verification/Leaving.thy ===== *)
theory Leaving
  imports House
begin

text \<open>
  The order to leave the house (\<^verbatim>\<open>src/firmwares/userpanel-v01/leave_come_page.c\<close>): what the whole reaction of the panel to its
  key OK puts on the bus, with the pauses, the blinking light and the page it shows afterwards, and what the outputs and
  heatings of the house make of it.
\<close>

section \<open>Orders and questions\<close>

text \<open>The messages by which the panel only asks for a state.\<close>

definition question :: "canix_frame \<Rightarrow> bool" where
  "question f \<longleftrightarrow> byte_at f 1 \<in> {HCAN_HES_HEIZUNG_DETAILS_REQUEST, HCAN_HES_HEIZUNG_TIST_REQUEST, HCAN_HES_WECKER_DETAILS_REQUEST,
     HCAN_HES_POWER_GROUP_STATE_QUERY, HCAN_HES_POWER_GROUP_TIMER_QUERY, HCAN_HES_1WIRE_TEMPERATURE_QUERY,
     HCAN_HES_REEDKONTAKT_STATE_QUERY}"

text \<open>The frames that the panel has put on the bus on the way from \<open>r\<close> to \<open>p\<close>.\<close>

definition frames_sent :: "panel \<Rightarrow> panel \<Rightarrow> canix_frame list" where
  "frames_sent r p = drop (length (bus_frames (log r))) (bus_frames (log p))"

text \<open>From \<open>r\<close> to \<open>p\<close> the panel has sent these orders, and questions; its memory is as it was.\<close>

definition sent :: "canix_frame list \<Rightarrow> panel \<Rightarrow> panel \<Rightarrow> bool" where
  "sent os r p \<longleftrightarrow> bus_frames (log p) = bus_frames (log r) @ frames_sent r p \<and>
     filter (\<lambda>f. \<not> question f) (frames_sent r p) = os \<and>
     mem p = mem r \<and> board p = board r \<and> panel.self_addr p = panel.self_addr r"

lemma sent_refl: "sent [] p p"
  by (simp add: sent_def frames_sent_def)

lemma sent_say: "sent os r p \<Longrightarrow> sent (os @ filter (\<lambda>f. \<not> question f) (bus_frames es)) r (say es p)"
proof -
  assume s: "sent os r p"
  then have l: "bus_frames (log (say es p)) = bus_frames (log r) @ frames_sent r p @ bus_frames es"
    by (simp add: sent_def say_def)
  then have "frames_sent r (say es p) = frames_sent r p @ bus_frames es" by (simp add: frames_sent_def)
  then show ?thesis using s l by (simp add: sent_def) (simp add: say_def)
qed

lemma sent_eq:
  assumes "log q = log p" "mem q = mem p" "board q = board p" "panel.self_addr q = panel.self_addr p"
  shows "sent os r q = sent os r p"
  using assms by (simp add: sent_def frames_sent_def)

lemma sent_conf: "sent os r p \<Longrightarrow> find_conf t p = find_conf t r" "sent os r p \<Longrightarrow> read_conf n a p = read_conf n a r"
  "sent os r p \<Longrightarrow> panel_message p bs = panel_message r bs"
  by (simp_all add: sent_def find_conf_def read_conf_def panel_message_def)

text \<open>Fields of which it says nothing.\<close>

lemma sent_upd [simp]:
  "sent os r (p\<lparr>lcd_state := x0\<rparr>) = sent os r p"
  "sent os r (p\<lparr>keypress_time := x1\<rparr>) = sent os r p"
  "sent os r (p\<lparr>lcd_led_countdown := x2\<rparr>) = sent os r p"
  "sent os r (p\<lparr>lcd_screensafer_countdown := x3\<rparr>) = sent os r p"
  "sent os r (p\<lparr>active_page := x4\<rparr>) = sent os r p"
  "sent os r (p\<lparr>heiz_details_heiz_id := x5\<rparr>) = sent os r p"
  "sent os r (p\<lparr>heiz_details_Tsoll := x6\<rparr>) = sent os r p"
  "sent os r (p\<lparr>heiz_details_expected := x7\<rparr>) = sent os r p"
  "sent os r (p\<lparr>heiz_details_mode := x8\<rparr>) = sent os r p"
  "sent os r (p\<lparr>heiz_details_rate := x9\<rparr>) = sent os r p"
  "sent os r (p\<lparr>heiz_details_Tist := x10\<rparr>) = sent os r p"
  "sent os r (p\<lparr>heiz_details_dauer := x11\<rparr>) = sent os r p"
  "sent os r (p\<lparr>weck_details_weck_id := x12\<rparr>) = sent os r p"
  "sent os r (p\<lparr>weck_details_expected := x13\<rparr>) = sent os r p"
  "sent os r (p\<lparr>weck_details_dauer := x14\<rparr>) = sent os r p"
  "sent os r (p\<lparr>leave_come_state := x15\<rparr>) = sent os r p"
  "sent os r (p\<lparr>powerport_page_state := x16\<rparr>) = sent os r p"
  "sent os r (p\<lparr>powerport_page_timer := x17\<rparr>) = sent os r p"
  "sent os r (p\<lparr>temperature_expected := x18\<rparr>) = sent os r p"
  "sent os r (p\<lparr>temperature := x19\<rparr>) = sent os r p"
  "sent os r (p\<lparr>fenster_monitor_reed_state := x20\<rparr>) = sent os r p"
  "sent os r (p\<lparr>gesamt_heiz_details_Tsoll_edit := x21\<rparr>) = sent os r p"
  "sent os r (p\<lparr>gesamt_heiz_details_dauer_edit := x22\<rparr>) = sent os r p"
  "sent os r (p\<lparr>monitor_Tsoll := x23\<rparr>) = sent os r p"
  "sent os r (p\<lparr>monitor_lampen_state := x24\<rparr>) = sent os r p"
  "sent os r (p\<lparr>monitor_sonstige_state := x25\<rparr>) = sent os r p"
  "sent os r (p\<lparr>monitor_reedkontakt_state := x26\<rparr>) = sent os r p"
  "sent os r (p\<lparr>monitor_mute_state := x27\<rparr>) = sent os r p"
  "sent os r (p\<lparr>heiz_configured := x28\<rparr>) = sent os r p"
  "sent os r (p\<lparr>lampen_configured := x29\<rparr>) = sent os r p"
  "sent os r (p\<lparr>sonstige_configured := x30\<rparr>) = sent os r p"
  "sent os r (p\<lparr>reedkontakt_configured := x31\<rparr>) = sent os r p"
  by (rule sent_eq, simp, simp, simp, simp)+

lemma sent_display [simp]:
  "sent os r p \<Longrightarrow> sent os r (say [LcdClear] p)" "sent os r p \<Longrightarrow> sent os r (say [LcdCommand c] p)"
  "sent os r p \<Longrightarrow> sent os r (lcd_print x y s p)" "sent os r p \<Longrightarrow> sent os r (lcdctrl_light b c' p)"
  "sent os r p \<Longrightarrow> sent os r (say [Nap n] p)"
  using sent_say [of os r p "[LcdClear]"] sent_say [of os r p "[LcdCommand c]"] sent_say [of os r p "[LcdGoto x y, LcdPuts s]"]
    sent_say [of os r p "[Backlight b, Contrast c']"] sent_say [of os r p "[Nap n]"]
  by (simp_all add: bus_frames_def lcd_print_def lcdctrl_light_def)

lemma sent_weck [simp]: "sent os r (weck_page_can_callback f p) = sent os r p"
  by (simp add: weck_page_can_callback_def Let_def)

lemma sent_send: "sent os r p \<Longrightarrow> sent (if question f then os else os @ [f]) r (panel_send prio f p)"
  using sent_say [of os r p "[Bus prio f]"] by (cases "question f") (simp_all add: panel_send_def Let_def bus_frames_def)

lemma sent_question [simp]: "sent os r p \<Longrightarrow> question f \<Longrightarrow> sent os r (panel_send prio f p)"
  using sent_send [of os r p f prio] by simp

lemma sent_light [simp]: "sent os r p \<Longrightarrow> sent os r (lcdctrl_set_display_light m p)"
  by (simp add: lcdctrl_set_display_light_def split: option.splits prod.splits)

lemma questions [simp]:
  "question (panel_message p (HCAN_HES_HEIZUNG_DETAILS_REQUEST # bs))" "question (panel_message p (HCAN_HES_HEIZUNG_TIST_REQUEST # bs))"
  "question (panel_message p (HCAN_HES_WECKER_DETAILS_REQUEST # bs))" "question (panel_message p (HCAN_HES_POWER_GROUP_STATE_QUERY # bs))"
  "question (panel_message p (HCAN_HES_POWER_GROUP_TIMER_QUERY # bs))" "question (panel_message p (HCAN_HES_REEDKONTAKT_STATE_QUERY # bs))"
  "question (hes_message a d (HCAN_HES_1WIRE_TEMPERATURE_QUERY # bs))"
  by (simp_all add: question_def)

section \<open>Pages only ask\<close>

text \<open>In the pauses the panel sends nothing but questions, and its memory stays.\<close>

locale asking_pauses =
  fixes env :: "panel \<Rightarrow> panel"
  assumes asks: "sent os r p \<Longrightarrow> sent os r (env p)"
begin

lemma fold_sent: "(\<And>x p. sent os r p \<Longrightarrow> sent os r (g x p)) \<Longrightarrow> sent os r p \<Longrightarrow> sent os r (fold g xs p)"
  by (induction xs arbitrary: p) auto

lemma nap_sent [simp]: "sent os r p \<Longrightarrow> sent os r (nap env n p)"
  by (simp add: nap_def asks)

lemma load_error_sent [simp]: "sent os r (load_error_page k p) = sent os r p"
  by (simp add: load_error_page_def)

lemma load_page_sent [simp]: "sent os r p \<Longrightarrow> sent os r (load_page k p)"
proof -
  assume p: "sent os r p"
  have "sent os r q \<Longrightarrow> sent os r (load_page_loop k its q)" for its q
    by (induction k its q rule: load_page_loop.induct) (auto simp: Let_def read_page_def)
  then show ?thesis using p by (simp add: load_page_def)
qed

lemma blink_sent [simp]: "sent os r p \<Longrightarrow> sent os r (lcdctrl_blink env p)"
  unfolding lcdctrl_blink_def Let_def by (intro sent_light fold_sent) simp_all

lemma details_sent:
  "get_heiz_details env g p = (q, v) \<Longrightarrow> sent os r p \<Longrightarrow> sent os r q"
  "get_weck_details env g p = (q, v') \<Longrightarrow> sent os r p \<Longrightarrow> sent os r q"
  by (auto simp: get_heiz_details_def get_weck_details_def Let_def split: if_splits)

lemma ignore_sent: "leave_come_page_get_ignore g p = (q, n) \<Longrightarrow> sent os r p \<Longrightarrow> sent os r q"
  by (auto simp: leave_come_page_get_ignore_def Let_def split: if_splits)

lemma count_sent: "sent os r p \<Longrightarrow> sent os r (fst (count_sonstige_loop ig is n p))"
  by (induction "is" arbitrary: n p) (auto simp: Let_def ignore_sent split: prod.splits)

lemma state_sent: "leave_come_page_get_state p = (q, st) \<Longrightarrow> sent os r p \<Longrightarrow> sent os r q"
  using count_sent [of os r p 1 "[0..<24]" 0]
  by (auto simp: leave_come_page_get_state_def get_count_sonstige_states_def Let_def split: prod.splits if_splits)

lemma still_pages_sent [simp]:
  "sent os r p \<Longrightarrow> sent os r (taster_page_print_page p)" "sent os r p \<Longrightarrow> sent os r (rolladen_page_print_page p)"
  "sent os r p \<Longrightarrow> sent os r (print_dir_page p)" "sent os r p \<Longrightarrow> sent os r (print_screensaver_page p)"
  "sent os r p \<Longrightarrow> sent os r (heiz_page_show v p)" "sent os r p \<Longrightarrow> sent os r (weck_page_show d p)"
  "sent os r p \<Longrightarrow> sent os r (gesamt_heiz_vorgaben p)"
  by (simp_all add: taster_page_print_page_def rolladen_page_print_page_def print_dir_page_def
      print_screensaver_page_def heiz_page_show_def weck_page_show_def gesamt_heiz_vorgaben_def Let_def)

lemma gesamt_sent [simp]: "sent os r p \<Longrightarrow> sent os r (gesamt_heiz_page_print_page p)"
  by (simp add: gesamt_heiz_page_print_page_def Let_def)

lemma asking_pages_sent [simp]:
  assumes "sent os r p"
  shows "sent os r (heiz_page_print_page env p)" "sent os r (weck_page_print_page env p)" "sent os r (leave_come_page_print_page p)"
proof -
  have c: "sent os r (say [LcdClear] p)" using assms by simp
  show "sent os r (heiz_page_print_page env p)" "sent os r (weck_page_print_page env p)" "sent os r (leave_come_page_print_page p)"
    using c details_sent [OF _ c] state_sent [OF _ c]
    by (auto simp: heiz_page_print_page_def weck_page_print_page_def leave_come_page_print_page_def Let_def
        split: prod.splits option.splits)
qed

lemma other_pages_sent [simp]:
  "sent os r p \<Longrightarrow> sent os r (powerport_page_print_page env p)"
  "sent os r p \<Longrightarrow> sent os r (temp_anzeige_page_print_page env p)"
  by (simp_all add: powerport_page_print_page_def temp_anzeige_page_print_page_def temp_anzeige_page_get_temp_def Let_def)

lemma fenster_sent [simp]: "sent os r p \<Longrightarrow> sent os r (fenster_monitor_page_print_page env p)"
proof -
  assume p: "sent os r p"
  have "sent os r q \<Longrightarrow> sent os r (fst (fenster_monitor_collect_reed_states env q))" for q
    unfolding fenster_monitor_collect_reed_states_def Let_def fst_conv by (intro fold_sent) simp_all
  from this [of "lcd_print 0 0 (snprintf 31 ''Fenster:'') (say [LcdClear] p)"] p show ?thesis
    by (auto simp: fenster_monitor_page_print_page_def Let_def split: prod.splits)
qed

lemma print_page_sent [simp]: "sent os r p \<Longrightarrow> sent os r (print_page env p)"
  by (simp add: print_page_def Let_def)

lemma goto_page_up_sent [simp]: "sent os r p \<Longrightarrow> sent os r (goto_page_up env p)"
  by (simp add: goto_page_up_def goto_page_def)

end

section \<open>The orders\<close>

definition off_orders :: "panel \<Rightarrow> u8 list \<Rightarrow> u8 list \<Rightarrow> nat list \<Rightarrow> canix_frame list" where
  "off_orders p ids ign is = map (\<lambda>i. panel_message p [HCAN_HES_POWER_GROUP_OFF, ids ! i])
     (filter (\<lambda>i. ids ! i \<noteq> 255 \<and> of_nat i \<notin> set ign) is)"

definition frost_orders :: "panel \<Rightarrow> u8 list \<Rightarrow> canix_frame list" where
  "frost_orders p ids = map (\<lambda>g. panel_message p [HCAN_HES_HEIZUNG_SET_MODE_THERMOSTAT_DETAILS, g,
       hi8 VORGABE_TEMPERATUR_FROSTSCHUTZ, lo8 VORGABE_TEMPERATUR_FROSTSCHUTZ,
       hi8 VORGABE_DAUER_FROSTSCHUTZ, lo8 VORGABE_DAUER_FROSTSCHUTZ]) (filter (\<lambda>g. g \<noteq> 255) ids)"

lemma orders_are_no_questions [simp]:
  "\<not> question (panel_message p (HCAN_HES_POWER_GROUP_OFF # bs))"
  "\<not> question (panel_message p (HCAN_HES_HEIZUNG_SET_MODE_THERMOSTAT_DETAILS # bs))"
  by (simp_all add: question_def)

lemma sent_order: "sent os r p \<Longrightarrow> \<not> question f \<Longrightarrow> sent (os @ [f]) r (panel_send prio f p)"
  using sent_send [of os r p f prio] by simp

text \<open>All that the key OK sends on the page for leaving.\<close>

definition leaving_orders :: "panel \<Rightarrow> canix_frame list" where
  "leaving_orders p =
     (let off = (\<lambda>t. off_orders p (read_conf 24 (find_conf t p) p)
                  (read_conf 4 (find_conf EDS_leave_come_page_BLOCK_ID p) p) [0..<24]);
          hit = find_conf EDS_userpanel_heizungen_BLOCK_ID p
      in off EDS_userpanel_lampen_BLOCK_ID @ off EDS_userpanel_sonstige_BLOCK_ID @
         (if leave_come_state p = LEAVE_HEATED \<and> hit \<noteq> 0 then frost_orders p (read_conf 24 hit p) else []))"

lemma off_orders_Cons: "off_orders p ids ign (i # is) = off_orders p ids ign [i] @ off_orders p ids ign is"
  by (simp add: off_orders_def)

lemma frost_orders_Cons: "frost_orders p (g # gs) = frost_orders p [g] @ frost_orders p gs"
  by (simp add: frost_orders_def)

context asking_pauses
begin

lemma switch_groups_sent:
  assumes "find_conf EDS_leave_come_page_BLOCK_ID r = pit" "pit \<noteq> 0" and "sent os r p"
  shows "sent (os @ off_orders r ids (read_conf 4 pit r) is) r (fold (switch_off_group env ids) is p)"
  using assms(3)
proof (induction "is" arbitrary: os p)
  case (Cons i "is")
  have c: "find_conf EDS_leave_come_page_BLOCK_ID p = pit" "read_conf 4 pit p = read_conf 4 pit r"
    "panel_message p bs = panel_message r bs" for bs
    using sent_conf [OF Cons.prems] assms(1) by simp_all
  have "sent (os @ off_orders r ids (read_conf 4 pit r) [i]) r (switch_off_group env ids i p)"
    using Cons.prems assms(2) c sent_order [OF Cons.prems]
    by (auto simp: switch_off_group_def leave_come_page_get_ignore_def off_orders_def Let_def)
  from Cons.IH [OF this] show ?case unfolding off_orders_Cons [of r ids _ i "is"] by simp
qed (simp add: off_orders_def)

lemma outputs_off_sent:
  assumes "find_conf EDS_leave_come_page_BLOCK_ID r = pit" "pit \<noteq> 0" and "sent os r p"
  shows "find_conf EDS_userpanel_lampen_BLOCK_ID r = b \<Longrightarrow> b \<noteq> 0 \<Longrightarrow>
      sent (os @ off_orders r (read_conf 24 b r) (read_conf 4 pit r) [0..<24]) r (leave_come_page_set_lampen_aus env p)"
    and "find_conf EDS_userpanel_sonstige_BLOCK_ID r = b \<Longrightarrow> b \<noteq> 0 \<Longrightarrow>
      sent (os @ off_orders r (read_conf 24 b r) (read_conf 4 pit r) [0..<24]) r (leave_come_page_set_sonstige_aus env p)"
  using switch_groups_sent [OF assms] sent_conf [OF assms(3)]
  by (simp_all add: leave_come_page_set_lampen_aus_def leave_come_page_set_sonstige_aus_def switch_groups_off_def del: upt_rec_numeral)

lemma frost_sent:
  assumes "find_conf EDS_userpanel_heizungen_BLOCK_ID r = b" and "sent os r p"
  shows "sent (os @ (if b = 0 then [] else frost_orders r (read_conf 24 b r))) r (leave_come_page_set_heizung env MODE_FROSTSCHUTZ p)"
proof -
  let ?f = "\<lambda>p g. panel_message p [HCAN_HES_HEIZUNG_SET_MODE_THERMOSTAT_DETAILS, g,
       hi8 VORGABE_TEMPERATUR_FROSTSCHUTZ, lo8 VORGABE_TEMPERATUR_FROSTSCHUTZ,
       hi8 VORGABE_DAUER_FROSTSCHUTZ, lo8 VORGABE_DAUER_FROSTSCHUTZ]"
  have l: "sent (os @ frost_orders r gs) r (fold (\<lambda>g p. if g \<noteq> 255 then nap env 10 (panel_send HCAN_PRIO_LOW (?f p g) p) else p) gs q)"
    if "sent os r q" for gs os q
    using that
  proof (induction gs arbitrary: os q)
    case (Cons g gs)
    have "sent (os @ frost_orders r [g]) r (if g \<noteq> 255 then nap env 10 (panel_send HCAN_PRIO_LOW (?f q g) q) else q)"
      using Cons.prems sent_order [OF Cons.prems, of "?f r g"] sent_conf(3) [OF Cons.prems] by (auto simp: frost_orders_def)
    from Cons.IH [OF this] show ?case unfolding frost_orders_Cons [of r g gs] by simp
  qed (simp add: frost_orders_def)
  have "leave_come_page_set_heizung env MODE_FROSTSCHUTZ p =
    (if b = 0 then load_error_page ERROR_CONF_HEIZUNG_MISSING p
     else fold (\<lambda>g p. if g \<noteq> 255 then nap env 10 (panel_send HCAN_PRIO_LOW (?f p g) p) else p) (read_conf 24 b r) p)"
    using sent_conf [OF assms(2)] assms(1) by (simp add: leave_come_page_set_heizung_def Let_def cong: if_cong)
  then show ?thesis using assms(2) l [OF assms(2)] by simp
qed

lemma leaving_sent:
  assumes "block_type p = EDS_leave_come_page_BLOCK_ID"
    and "leave_come_state p = LEAVE_HEATED \<or> leave_come_state p = LEAVE_HEATING_IS_OFF"
    and "find_conf EDS_leave_come_page_BLOCK_ID p \<noteq> 0" "find_conf EDS_userpanel_lampen_BLOCK_ID p \<noteq> 0"
      "find_conf EDS_userpanel_sonstige_BLOCK_ID p \<noteq> 0"
  shows "sent (leaving_orders p) p (key_down_event env KEY_OK p)"
proof -
  let ?off = "\<lambda>t. off_orders p (read_conf 24 (find_conf t p) p) (read_conf 4 (find_conf EDS_leave_come_page_BLOCK_ID p) p) [0..<24]"
  define p1 where "p1 = (say [Backlight LCD_BACKLIGHT_DEFAULT, Contrast LCD_CONTRAST_DEFAULT] (p\<lparr>lcd_led_countdown := 10\<rparr>))
     \<lparr>lcd_screensafer_countdown := 300, keypress_time := 1\<rparr>"
  define p2 where "p2 = leave_come_page_set_sonstige_aus env (leave_come_page_set_lampen_aus env p1)"
  define p3 where "p3 = (if leave_come_state p = LEAVE_HEATED then leave_come_page_set_heizung env MODE_FROSTSCHUTZ p2 else p2)"
  have 1: "sent [] p p1"
    using sent_say [OF sent_upd(3) [THEN iffD2, OF sent_refl], of "[Backlight LCD_BACKLIGHT_DEFAULT, Contrast LCD_CONTRAST_DEFAULT]"]
    by (simp add: p1_def bus_frames_def)
  have 2: "sent (?off EDS_userpanel_lampen_BLOCK_ID @ ?off EDS_userpanel_sonstige_BLOCK_ID) p p2"
    unfolding p2_def using outputs_off_sent(2) [OF refl assms(3) outputs_off_sent(1) [OF refl assms(3) 1 refl assms(4)] refl assms(5)]
    by simp
  have 3: "sent (leaving_orders p) p p3"
    using 2 frost_sent [OF refl 2] by (auto simp: p3_def leaving_orders_def Let_def)
  have t: "block_type p1 = EDS_leave_come_page_BLOCK_ID" "leave_come_state p1 = leave_come_state p"
    using assms(1) by (simp_all add: p1_def block_type_def say_def)
  have "key_down_event env KEY_OK p = goto_page_up env (nap env 5 (lcdctrl_blink env p3))"
    using assms(2) t
    unfolding key_down_event_def leave_come_page_handle_key_down_event_def Let_def p1_def [symmetric] p3_def p2_def
    by auto
  then show ?thesis using 3 by simp
qed

end

interpretation silence: asking_pauses "\<lambda>p. p"
  by unfold_locales


section \<open>Frames heard in the pauses\<close>

lemma inserts_sent [simp]:
  "sent os r (monitor_insert_heiz_state g T p) = sent os r p" "sent os r (monitor_insert_lampen_state g v p) = sent os r p"
  "sent os r (monitor_insert_sonstige_state g v p) = sent os r p" "sent os r (monitor_insert_reedkontakt_state g v p) = sent os r p"
  "sent os r (monitor_insert_mute_state g v p) = sent os r p"
  by (simp_all add: monitor_insert_heiz_state_def monitor_insert_lampen_state_def
      monitor_insert_sonstige_state_def monitor_insert_reedkontakt_state_def monitor_insert_mute_state_def Let_def)

lemma requests_sent:
  assumes "\<And>p g. question (panel_message p [msg, g])" and "sent os r p"
  shows "sent os r (request_states (\<lambda>p. p) msg ids p)"
  unfolding request_states_def by (rule silence.fold_sent) (simp_all add: assms)

lemma monitors_sent [simp]:
  assumes "sent os r p"
  shows "sent os r (monitor_heiz_can_callback (\<lambda>p. p) f p)" "sent os r (monitor_lampen_can_callback (\<lambda>p. p) f p)"
    "sent os r (monitor_sonstige_can_callback (\<lambda>p. p) f p)" "sent os r (monitor_reedkontakt_can_callback (\<lambda>p. p) f p)"
    "sent os r (monitor_mute_can_callback f p)"
  using assms
  by (simp_all add: monitor_heiz_can_callback_def monitor_lampen_can_callback_def
      monitor_sonstige_can_callback_def monitor_reedkontakt_can_callback_def monitor_mute_can_callback_def
      init_monitor_heiz_request_states_def init_monitor_lampen_request_states_def
      init_monitor_sonstige_request_states_def init_monitor_reedkontakt_request_states_def
      init_monitor_mute_def requests_sent Let_def)

lemma page_callbacks_sent [simp]:
  "sent os r p \<Longrightarrow> sent os r (heiz_page_can_callback f p)" "sent os r p \<Longrightarrow> sent os r (powerport_page_can_callback f p)"
  "sent os r p \<Longrightarrow> sent os r (temp_anzeige_page_can_callback f p)" "sent os r p \<Longrightarrow> sent os r (fenster_monitor_page_can_callback f p)"
  by (simp_all add: heiz_page_can_callback_def powerport_page_can_callback_def
      temp_anzeige_page_can_callback_def fenster_monitor_page_can_callback_def fenster_monitor_insert_reed_state_def Let_def)

interpretation hearing_pauses: asking_pauses "hears fs" for fs
proof
  fix os r p assume p: "sent os r p"
  have "sent os r q \<Longrightarrow> sent os r (hauselektrik_callback (\<lambda>p. p) f q)" for f q
    by (simp add: hauselektrik_callback_def lcdstatemachine_can_callback_def Let_def)
  then show "sent os r (hears fs p)" unfolding hears_def using p by (rule silence.fold_sent)
qed

section \<open>The outputs and the heatings\<close>

text \<open>Questions and the orders for the heatings leave an output as it is, questions and the orders for the outputs a heating.\<close>

lemma output_ignores:
  "question f \<or> byte_at f 1 = HCAN_HES_HEIZUNG_SET_MODE_THERMOSTAT_DETAILS \<Longrightarrow> fst (powerport_can_callback self q f) = q"
  unfolding question_def insert_iff empty_iff powerport_can_callback_def powerport_group_frame_def powerport_other_frame_def
    powerport_mute_def Let_def by (elim disjE FalseE) simp_all

lemma heating_ignores:
  "question f \<or> byte_at f 1 = HCAN_HES_POWER_GROUP_OFF \<Longrightarrow> fst (heizung_can_callback e h f) = h"
  unfolding question_def insert_iff empty_iff heizung_can_callback_def Let_def by (elim disjE FalseE) simp_all

definition heating_hears :: "board_env \<Rightarrow> canix_frame list \<Rightarrow> device_data_heizung \<Rightarrow> device_data_heizung" where
  "heating_hears e fs h = fold (\<lambda>f h. fst (heizung_can_callback e h f)) fs h"

lemma fold_ignores: "(\<And>x q. \<not> P x \<Longrightarrow> g x q = q) \<Longrightarrow> fold g xs q = fold g (filter P xs) q"
  by (induction xs arbitrary: q) simp_all

lemma hears_orders:
  "hears_all self fs q = hears_all self (filter (\<lambda>f. byte_at f 1 \<noteq> HCAN_HES_HEIZUNG_SET_MODE_THERMOSTAT_DETAILS) (filter (\<lambda>f. \<not> question f) fs)) q"
  "heating_hears e fs h = heating_hears e (filter (\<lambda>f. byte_at f 1 \<noteq> HCAN_HES_POWER_GROUP_OFF) (filter (\<lambda>f. \<not> question f) fs)) h"
  unfolding hears_all_def heating_hears_def filter_filter
  by (rule fold_ignores, simp add: output_ignores heating_ignores)+

lemma filter_orders:
  "filter (\<lambda>f. byte_at f 1 \<noteq> HCAN_HES_HEIZUNG_SET_MODE_THERMOSTAT_DETAILS) (off_orders p ids ign is) = off_orders p ids ign is"
  "filter (\<lambda>f. byte_at f 1 \<noteq> HCAN_HES_HEIZUNG_SET_MODE_THERMOSTAT_DETAILS) (frost_orders p ids) = []"
  "filter (\<lambda>f. byte_at f 1 \<noteq> HCAN_HES_POWER_GROUP_OFF) (off_orders p ids ign is) = []"
  "filter (\<lambda>f. byte_at f 1 \<noteq> HCAN_HES_POWER_GROUP_OFF) (frost_orders p ids) = frost_orders p ids"
  by (auto simp: off_orders_def frost_orders_def filter_empty_conv intro!: filter_True)

lemma read_conf_nth: "i < n \<Longrightarrow> read_conf n a p ! i = mem p (a + 2 + i)"
  by (simp add: read_conf_def)

lemma read_conf_4: "set (read_conf 4 a p) = {mem p (a + 2), mem p (a + 3), mem p (a + 4), mem p (a + 5)}"
  by (simp add: read_conf_def upt_rec numeral_eq_Suc)

lemma off_orders_hit:
  assumes "direct_output c q"
  shows "(\<forall>f \<in> set (off_orders p (read_conf 24 b p) ign [0..<24]). \<not> is_in_group q (byte_at f 2)) \<longleftrightarrow>
    (\<forall>i < 24. mem p (b + 2 + i) \<noteq> 255 \<and> of_nat i \<notin> set ign \<longrightarrow> mem p (b + 2 + i) \<notin> {c_gruppe0 c, c_gruppe1 c, c_gruppe2 c})"
  unfolding direct_output_group [OF assms] off_orders_def by (auto simp: read_conf_nth)

lemma frost_orders_reach:
  assumes "heizung_config.c_id (device_data_heizung.config h) \<noteq> 255"
  shows "heating_hears e (frost_orders p gs) h =
    (if heizung_config.c_id (device_data_heizung.config h) \<in> set gs
     then h\<lparr>mode := heizung_mode.HEIZUNG_MODE_THERMOSTAT,
       thermostat_temp := VORGABE_TEMPERATUR_FROSTSCHUTZ, duration_counter := VORGABE_DAUER_FROSTSCHUTZ\<rparr> else h)"
proof -
  let ?id = "heizung_config.c_id (device_data_heizung.config h)"
  let ?set = "\<lambda>h. h\<lparr>mode := heizung_mode.HEIZUNG_MODE_THERMOSTAT,
     thermostat_temp := VORGABE_TEMPERATUR_FROSTSCHUTZ, duration_counter := VORGABE_DAUER_FROSTSCHUTZ\<rparr>"
  have "heating_hears e (frost_orders p gs) k = (if ?id \<in> set gs then ?set k else k)"
    if "device_data_heizung.config k = device_data_heizung.config h" for k
    using that
  proof (induction gs arbitrary: k)
    case (Cons g gs)
    have 1: "heating_hears e (frost_orders p [g]) k = (if g = ?id then ?set k else k)"
      using assms Cons.prems
      by (auto simp: heating_hears_def frost_orders_def heizung_can_callback_def heizung_set_mode_def Let_def)
    have "heating_hears e (frost_orders p (g # gs)) k = heating_hears e (frost_orders p gs) (heating_hears e (frost_orders p [g]) k)"
      unfolding frost_orders_Cons [of p g gs] by (simp add: heating_hears_def)
    also have "\<dots> = (if ?id \<in> set gs then ?set (heating_hears e (frost_orders p [g]) k) else heating_hears e (frost_orders p [g]) k)"
      using Cons.prems by (intro Cons.IH) (simp add: 1)
    finally show ?case unfolding 1 by simp
  qed (simp add: heating_hears_def frost_orders_def)
  then show ?thesis by simp
qed

text \<open>
  Property C3. Leaving the house: the key OK on the page for leaving, while a room is heated or an output on, on a panel that has the page and the
  lists of the lamps, the other outputs and the heatings in its configuration. Of the outputs that
  are switched at once, those go off that have one of the 24 configured lamp groups or one of the 24 groups of other
  outputs that is not left alone; all others stay as they were. While the house was heated, every configured heating goes to 10
  degrees for 18 hours as well; otherwise no heating changes. That counts for all the panel sends until it shows the page above, whatever
  frames it hears in its pauses, and its questions change nothing. The groups to be left alone are meant to be four bytes of the page's
  block, but these are read from its start, where its own number and those of its neighbours are, and they are
  compared with the index in the list instead of the group: in the witness the output of the group 8 stays on because its index is
  the page's number, 5.
\<close>

theorem leaving_switches_outputs_off:
  assumes "block_type p = EDS_leave_come_page_BLOCK_ID"
    and "leave_come_state p = LEAVE_HEATED \<or> leave_come_state p = LEAVE_HEATING_IS_OFF"
    and "find_conf EDS_leave_come_page_BLOCK_ID p = pit" "pit \<noteq> 0"
    and "find_conf EDS_userpanel_lampen_BLOCK_ID p = lit" "lit \<noteq> 0"
    and "find_conf EDS_userpanel_sonstige_BLOCK_ID p = sit" "sit \<noteq> 0"
    and "find_conf EDS_userpanel_heizungen_BLOCK_ID p = hit" "hit \<noteq> 0"
    and "direct_output c q" and "heizung_config.c_id (device_data_heizung.config h) = hid" "hid \<noteq> 255"
    and "fs = frames_sent p (key_down_event (hears ev) KEY_OK p)"
    and "left = {mem p (pit + 2), mem p (pit + 3), mem p (pit + 4), mem p (pit + 5)}"
    and "groups = {c_gruppe0 c, c_gruppe1 c, c_gruppe2 c}"
  shows "(powerport_get (hears_all self fs q) \<longleftrightarrow> powerport_get q \<and>
      (\<forall>i < 24. of_nat i \<in> left \<or>
        (mem p (lit + 2 + i) = 255 \<or> mem p (lit + 2 + i) \<notin> groups) \<and>
        (mem p (sit + 2 + i) = 255 \<or> mem p (sit + 2 + i) \<notin> groups))) \<and>
    heating_hears e fs h =
      (if leave_come_state p = LEAVE_HEATED \<and> (\<exists>i < 24. mem p (hit + 2 + i) = hid)
       then h\<lparr>mode := heizung_mode.HEIZUNG_MODE_THERMOSTAT, thermostat_temp := 10 * 16, duration_counter := 18 * 3600\<rparr> else h)"
proof -
  let ?ign = "read_conf 4 pit p"
  let ?off = "\<lambda>b. off_orders p (read_conf 24 b p) ?ign [0..<24]"
  let ?frost = "if leave_come_state p = LEAVE_HEATED then frost_orders p (read_conf 24 hit p) else []"
  have left: "set ?ign = left" using assms(15) by (simp add: read_conf_4)
  have "sent (leaving_orders p) p (key_down_event (hears ev) KEY_OK p)"
    by (rule hearing_pauses.leaving_sent) (use assms in simp_all)
  then have os: "filter (\<lambda>f. \<not> question f) fs = ?off lit @ ?off sit @ ?frost"
    using assms(3,5,7,9,10,14) by (simp add: sent_def leaving_orders_def Let_def del: upt_rec_numeral)
  have "hears_all self fs q = hears_all self (?off lit @ ?off sit) q"
    unfolding hears_orders(1) [of self fs] os by (simp add: filter_orders [unfolded One_nat_def] del: upt_rec_numeral)
  moreover have "\<forall>f \<in> set (?off lit @ ?off sit). byte_at f 1 = HCAN_HES_POWER_GROUP_OFF" by (auto simp: off_orders_def)
  ultimately have "powerport_get (hears_all self fs q) \<longleftrightarrow>
      powerport_get q \<and> (\<forall>f \<in> set (?off lit @ ?off sit). \<not> is_in_group q (byte_at f 2))"
    by (simp only: hears_all_off [OF assms(11)])
  then have 1: "powerport_get (hears_all self fs q) \<longleftrightarrow> powerport_get q \<and>
      (\<forall>i < 24. of_nat i \<in> left \<or> (mem p (lit + 2 + i) = 255 \<or> mem p (lit + 2 + i) \<notin> groups) \<and>
        (mem p (sit + 2 + i) = 255 \<or> mem p (sit + 2 + i) \<notin> groups))"
    unfolding set_append ball_Un off_orders_hit [OF assms(11)] left assms(16) [symmetric] by blast
  have "heating_hears e fs h = heating_hears e ?frost h"
    unfolding hears_orders(2) [of e fs] os by (simp add: filter_orders [unfolded One_nat_def] del: upt_rec_numeral)
  moreover have "hid \<in> set (read_conf 24 hit p) \<longleftrightarrow> (\<exists>i < 24. mem p (hit + 2 + i) = hid)"
    by (auto simp: in_set_conv_nth read_conf_nth)
  ultimately have "heating_hears e fs h =
      (if leave_come_state p = LEAVE_HEATED \<and> (\<exists>i < 24. mem p (hit + 2 + i) = hid)
       then h\<lparr>mode := heizung_mode.HEIZUNG_MODE_THERMOSTAT, thermostat_temp := 10 * 16, duration_counter := 18 * 3600\<rparr> else h)"
    using frost_orders_reach [of h e p "read_conf 24 hit p"] assms(12,13) by (auto simp: heating_hears_def)
  with 1 show ?thesis by blast
qed

text \<open>
  A panel with two lamp groups, 7 at the index 0 and 8 at the index 5, another output, 9 at the index 2, and a heating, 1 at the index
  1, whose page for leaving has the number 5. While it waits it hears of a new board and asks for all states.
\<close>

definition leave_memory :: eeprom where
  "leave_memory = (\<lambda>i. if 36 \<le> i \<and> i < 60 \<or> 72 \<le> i \<and> i < 96 \<or> 98 \<le> i \<and> i < 122 then 255 else 0)
     (34 := EDS_userpanel_lampen_BLOCK_ID, 35 := 24, 36 := 7, 41 := 8,
      60 := EDS_leave_come_page_BLOCK_ID, 61 := 8, 62 := 5, 63 := 1, 64 := 3, 65 := 4,
      70 := EDS_userpanel_sonstige_BLOCK_ID, 71 := 24, 74 := 9,
      96 := EDS_userpanel_heizungen_BLOCK_ID, 97 := 24, 99 := 1)"

definition leave_panel :: panel where
  "leave_panel = (panel_reset ATmega32 801 (replicate 8 0) leave_memory [])
     \<lparr>active_page := (\<lambda>i. if i = 0 then EDS_leave_come_page_BLOCK_ID else 0)\<rparr>"

lemma leave_panel_conf:
  "find_conf EDS_userpanel_lampen_BLOCK_ID leave_panel = 34" "find_conf EDS_leave_come_page_BLOCK_ID leave_panel = 60"
  "find_conf EDS_userpanel_sonstige_BLOCK_ID leave_panel = 70" "find_conf EDS_userpanel_heizungen_BLOCK_ID leave_panel = 96"
  "block_type leave_panel = EDS_leave_come_page_BLOCK_ID" "mem leave_panel = leave_memory" "leave_come_state leave_panel = LEAVE_HEATED"
  by (simp_all add: find_conf_def leave_panel_def panel_reset_def eds_find_next_block_def EDS_BLOCK_TYPE_def
      eds_find_eq_loop.simps [of _ _ _ 34] eds_find_eq_loop.simps [of _ _ _ 60] eds_find_eq_loop.simps [of _ _ _ 70]
      eds_next_block_def EDS_BLOCK_SIZE_def leave_memory_def block_type_def)

definition lit_output :: "u8 \<Rightarrow> device_data_powerport" where
  "lit_output g = outlet\<lparr>device_data_powerport.config := (device_data_powerport.config outlet)\<lparr>powerport_config.c_feature := 0, c_gruppe0 := g\<rparr>,
     pins := (\<lambda>_. True)\<rparr>"

theorem leaving_switches_outputs_off_witness:
  "(let fs = frames_sent leave_panel (key_down_event (hears [hes_message 50 HCAN_MULTICAST_INFO [HCAN_HES_BOARD_ACTIVE]]) KEY_OK leave_panel)
    in powerport_get (hears_all 7 fs (lit_output 8)) \<and> \<not> powerport_get (hears_all 7 fs (lit_output 7)) \<and>
       \<not> powerport_get (hears_all 7 fs (lit_output 9)) \<and>
       heating_hears midnight fs radiator = radiator\<lparr>mode := heizung_mode.HEIZUNG_MODE_THERMOSTAT, thermostat_temp := 160, duration_counter := 64800\<rparr>)"
proof -
  have d: "direct_output (device_data_powerport.config (lit_output g)) (lit_output g)" "powerport_get (lit_output g)" for g
    by (simp_all add: direct_output_def outlet_def powerport_get_def feature_def lit_output_def)
  have g: "{c_gruppe0 (device_data_powerport.config (lit_output g)), c_gruppe1 (device_data_powerport.config (lit_output g)),
      c_gruppe2 (device_data_powerport.config (lit_output g))} = {g, 255}" for g
    by (simp add: lit_output_def outlet_def)
  have h: "heizung_config.c_id (device_data_heizung.config radiator) = 1" by (simp add: radiator_def)
  have m: "leave_memory (36 + i) = (if i = 0 then 7 else if i = 5 then 8 else 255)"
    "leave_memory (72 + i) = (if i = 2 then 9 else 255)" if "i < 24" for i
    using that by (auto simp: leave_memory_def)
  have m1: "leave_memory 99 = 1" and ign: "{leave_memory 62, leave_memory 63, leave_memory 64, leave_memory 65} = {5, 1, 3, 4}"
    by (simp_all add: leave_memory_def)
  let ?fs = "frames_sent leave_panel (key_down_event (hears [hes_message 50 HCAN_MULTICAST_INFO [HCAN_HES_BOARD_ACTIVE]]) KEY_OK leave_panel)"
  have st: "leave_come_state leave_panel = LEAVE_HEATED \<or> leave_come_state leave_panel = LEAVE_HEATING_IS_OFF"
    by (simp add: leave_panel_conf(7))
  have nz: "(60 :: nat) \<noteq> 0" "(34 :: nat) \<noteq> 0" "(70 :: nat) \<noteq> 0" "(96 :: nat) \<noteq> 0" "(1 :: u8) \<noteq> 255" by simp_all
  note t = leaving_switches_outputs_off [OF leave_panel_conf(5) st leave_panel_conf(2) nz(1) leave_panel_conf(1) nz(2)
      leave_panel_conf(3) nz(3) leave_panel_conf(4) nz(4) d(1) h nz(5) refl refl refl, unfolded leave_panel_conf(6,7) g]
  have "(34 :: nat) + 2 = 36" "(70 :: nat) + 2 = 72" "(60 :: nat) + 2 = 62" "(60 :: nat) + 3 = 63" "(60 :: nat) + 4 = 64" "(60 :: nat) + 5 = 65"
    by simp_all
  then have o: "powerport_get (hears_all 7 ?fs (lit_output g)) \<longleftrightarrow>
      (\<forall>i < 24. of_nat i \<in> {5, 1, 3, 4 :: u8} \<or> (leave_memory (36 + i) = 255 \<or> leave_memory (36 + i) \<notin> {g, 255}) \<and>
        (leave_memory (72 + i) = 255 \<or> leave_memory (72 + i) \<notin> {g, 255}))" for g
    using t [THEN conjunct1, of 7 "[hes_message 50 HCAN_MULTICAST_INFO [HCAN_HES_BOARD_ACTIVE]]" g] d(2) [of g] ign by simp
  have "\<exists>i < 24. leave_memory (96 + 2 + i) = 1" using m1 by (intro exI [of _ 1]) simp
  then have r: "heating_hears midnight ?fs radiator = radiator\<lparr>mode := heizung_mode.HEIZUNG_MODE_THERMOSTAT, thermostat_temp := 160, duration_counter := 64800\<rparr>"
    using t [THEN conjunct2, of midnight "[hes_message 50 HCAN_MULTICAST_INFO [HCAN_HES_BOARD_ACTIVE]]"] by simp
  have "powerport_get (hears_all 7 ?fs (lit_output 8))"
    unfolding o by (auto simp: m)
  moreover have "\<not> powerport_get (hears_all 7 ?fs (lit_output 7))"
    unfolding o using m(1) [of 0] by (auto intro!: exI [of _ 0])
  moreover have "\<not> powerport_get (hears_all 7 ?fs (lit_output 9))"
    unfolding o using m(2) [of 2] by (auto intro!: exI [of _ 2])
  ultimately show ?thesis using r by (simp add: Let_def)
qed

end
