(* ===== verification/Spec2Isabelle.thy ===== *)
theory Spec2Isabelle
  imports Canix_Eds Canix_Core Canix_Services Rolladen Lichtzone Powerport Heizung Usv Dcf77 Reedkontakt Schalter Multitaster Zeitschaltuhr
    Powerport_Automat Rolladen_Automat Rolladen_Schlitzpos Timeservice Zentralheizungspumpe
    Temp_Sensor Analog_Inputs Flasher Panel_Screen House Host_List Data_File Home_Server Host_Addresses Host_Log Host_Console Telican_House Ports Leaving
begin

text \<open>
  openHCAN is a home automation system. Boards on a CAN bus (AVR firmware in C) switch lamps and sockets,
  move shutters, control heatings and read switches, contacts and sensors, without a central
  computer; user panels show and set values; a host computer (C++ and C tools) configures the boards,
  records the bus and connects it to a home automation server. This library models the boards' firmware, the panel, the
  boot loader and the host's tools as functions on their states, and proves what they are for.

  \<^bold>\<open>The parts and how they interact.\<close> A board runs the framework \<^verbatim>\<open>src/canix\<close>: a receive interrupt
  fills a queue of CAN messages, the main loop turns them into frames and gives each to the callbacks that are registered for its
  destination, protocol and service, and a timer interrupt drives the clock and the timer callbacks. A
  frame that is sent is delivered locally too. The devices of \<^verbatim>\<open>src/firmwares/controllerboard/devices\<close> are pairs of a
  frame handler and a timer handler over their own data; their configuration lies in the EEPROM as a chain of typed
  blocks (\<^verbatim>\<open>canix/eds.c\<close>), which the host reads and writes over the bus. On the host all programs are
  connected to the distributor \<^verbatim>\<open>hcand\<close>, and the gateway \<^verbatim>\<open>hcansocketd\<close> connects it to the CAN interface.

  \<^bold>\<open>Conventions.\<close> Integers of the code are words of their width, so that overflow is the code's. A
  handler is a function from its data and a frame (or the tick of a timer) to the new data and the list of its
  effects in their order (frames sent, pins set, pauses, bytes written to the EEPROM). A record has the fields of the struct, with the
  same names where they are free. The errors of the host's tools are values (\<^verbatim>\<open>host_error + 'a\<close>), with
  the state they were thrown in. Registers, sensors, sockets, the file system, and libraries that are not part of the repository are
  arguments; where a property relies on their behaviour, it is a hypothesis, or a law of a locale with an instance.

  \<^bold>\<open>Theories, their code, and what their lemmas show.\<close>

  \<^item> \<^verbatim>\<open>Hcan_Prelude\<close>, \<^verbatim>\<open>Hcan_Protocol\<close>: words, frames, effects; the constants of \<^verbatim>\<open>src/include\<close> and the
    numbers of the messages (\<^verbatim>\<open>src/xml/hcan-protocol.xml\<close>); the lemma collections. \<^verbatim>\<open>Texts\<close>: decimal numbers and words in texts.
  \<^item> \<^verbatim>\<open>Canix_Rtc\<close> (\<^verbatim>\<open>canix.c\<close>, \<^verbatim>\<open>tools.c\<close>, \<^verbatim>\<open>hcan_rts.c\<close>): the clock counts the seconds of the calendar of 365 days;
    the test of an interval; the time service.
  \<^item> \<^verbatim>\<open>Canix_Mcp2515\<close> (\<^verbatim>\<open>mcp2515.c\<close>, the queue of \<^verbatim>\<open>canix.c\<close>): a message's way through the registers from one
    driver to the receive queue of another; the queue loses nothing it has taken, but not the order. \<^verbatim>\<open>Canix_Core\<close> (\<^verbatim>\<open>canix.c\<close>): registration, delivery, sending, the main
    loop, the timer interrupt, the pause.
  \<^item> \<^verbatim>\<open>Canix_Eds\<close> (\<^verbatim>\<open>eds.c\<close>): the chain of blocks is well formed after every request, allocation keeps
    the other blocks and takes the first one that is great enough, defragmentation ends and merges all free neighbours.
    \<^verbatim>\<open>Canix_Services\<close> (\<^verbatim>\<open>hcan_hms.c\<close>, \<^verbatim>\<open>syslog.c\<close>): the management service and the text messages.
  \<^item> \<^verbatim>\<open>Hes_Device\<close>: the contract of the devices, as locales (invariant kept by both handlers, frames that can be sent, no
    reaction to their own frames), interpreted for every device: \<^verbatim>\<open>Rolladen\<close>, \<^verbatim>\<open>Rolladen_Automat\<close>,
    \<^verbatim>\<open>Rolladen_Schlitzpos\<close> (shutters), \<^verbatim>\<open>Lichtzone\<close>, \<^verbatim>\<open>Powerport\<close>, \<^verbatim>\<open>Powerport_Automat\<close> (light and
    outputs), \<^verbatim>\<open>Zeitzone\<close>, \<^verbatim>\<open>Zeitschaltuhr\<close> (time zones, time switch), \<^verbatim>\<open>Heizung\<close>,
    \<^verbatim>\<open>Zentralheizungspumpe\<close> (heating), \<^verbatim>\<open>Taster\<close>, \<^verbatim>\<open>Multitaster\<close>, \<^verbatim>\<open>Schalter\<close>,
    \<^verbatim>\<open>Reedkontakt\<close> (inputs), \<^verbatim>\<open>Onewire\<close>, \<^verbatim>\<open>Temp_Sensor\<close>, \<^verbatim>\<open>Analog_Inputs\<close> (sensors); each has the file of its
    name in lower case. Shown are the switching behaviour over whole courses of time, the safety of the motors, the
    hysteresis of the heating, the set of demands of the pump, and that the search on the 1-Wire bus finds every sensor and ends.
  \<^item> \<^verbatim>\<open>Ports\<close> (\<^verbatim>\<open>ports.c\<close>, \<^verbatim>\<open>input.c\<close>, \<^verbatim>\<open>darlingtonoutput.c\<close>): the
    pins behind the devices; the chips of the port expanders show the last orders and the inputs read what the chips return.
  \<^item> \<^verbatim>\<open>Dcf77\<close>, \<^verbatim>\<open>Timeservice\<close> (\<^verbatim>\<open>controllerboard/dcf77_receiver.c\<close>, \<^verbatim>\<open>timeservice.c\<close>): the minute
    of the radio clock is decoded and sent; of the boards that can be time master one stays it. \<^verbatim>\<open>Usv\<close>
    (\<^verbatim>\<open>usv-modul\<close>): the power supply as a step relation with its reachable states.
  \<^item> \<^verbatim>\<open>Panel_Base\<close>, \<^verbatim>\<open>Panel_Monitors\<close>, \<^verbatim>\<open>Panel_Pages\<close>, \<^verbatim>\<open>Panel\<close> (\<^verbatim>\<open>userpanel-v01\<close>): the pages, their
    navigation, keys, timers and monitors; \<^verbatim>\<open>Panel_Facts\<close>, \<^verbatim>\<open>Panel_Dialogs\<close>, \<^verbatim>\<open>Panel_Screen\<close>: the
    panel stays well formed in every run, returns to its start page, and what it shows and orders.
  \<^item> \<^verbatim>\<open>House\<close>, \<^verbatim>\<open>Leaving\<close> and this theory: devices that work together (contact and heating, time
    switch and output, panel and heating; what the panel's key for leaving the house does to outputs and heatings), composed of
    the devices' own handlers.
  \<^item> \<^verbatim>\<open>Bootloader\<close> (\<^verbatim>\<open>hcanbl/main.c\<close>), \<^verbatim>\<open>Flasher\<close> (\<^verbatim>\<open>libhcan++/ihexfile.cc\<close>, \<^verbatim>\<open>cmd_flash\<close> of
    \<^verbatim>\<open>board_driver.cc\<close>): only a firmware whose checksum is right is started unasked, and a transfer installs the image.
  \<^item> \<^verbatim>\<open>Host_Eds\<close>, \<^verbatim>\<open>Host_Fields\<close>, \<^verbatim>\<open>Host_Commands\<close>, \<^verbatim>\<open>Host_List\<close>, \<^verbatim>\<open>Host_Replay\<close>,
    \<^verbatim>\<open>Host_Transfer\<close> (\<^verbatim>\<open>eds_connection.cc\<close>, \<^verbatim>\<open>eds_desc.h\<close>, \<^verbatim>\<open>eds_validation.cc\<close>,
    \<^verbatim>\<open>eds_commands.cc\<close>), against the board's own service: the host's list stays in step, fields do not overlap, a
    configuration that was listed and entered on another board is the same there.
  \<^item> \<^verbatim>\<open>Host_Board\<close>, \<^verbatim>\<open>Host_Console\<close> (\<^verbatim>\<open>board_driver.cc\<close>): the commands for one board, proved over a locale of what answers
    questions about its EEPROM, which application and boot loader are instances of. \<^verbatim>\<open>Host_Log\<close>
    (\<^verbatim>\<open>transport_connection.cc\<close>): the text messages of all boards, put together again.
  \<^item> \<^verbatim>\<open>Telican\<close>, \<^verbatim>\<open>Telican_House\<close> (\<^verbatim>\<open>src/telican\<close>): the control mode, whose lines name devices of the
    installation; a lamp is switched, and a heating set by a line is shown as set by the next.
  \<^item> \<^verbatim>\<open>Relay\<close>, \<^verbatim>\<open>Gateway\<close> (\<^verbatim>\<open>hcand\<close>, \<^verbatim>\<open>hcansocketd\<close>, \<^verbatim>\<open>libhcan++/frame.cc\<close>): a packet reaches all other
    programs, and a host's frames reach the callbacks of the boards, in their order or not at all.
    \<^verbatim>\<open>Host_Addresses\<close> (\<^verbatim>\<open>hcanaddressd\<close>, \<^verbatim>\<open>dynaddress.cc\<close>): no two programs have the same address.
  \<^item> \<^verbatim>\<open>Data_Query\<close>, \<^verbatim>\<open>Data_File\<close> (\<^verbatim>\<open>libhcandata\<close>, \<^verbatim>\<open>hcandq\<close>): a query compiles to a program of a stack machine that means
    the expression, and what was recorded is found. \<^verbatim>\<open>Mqtt_Bridge\<close>, \<^verbatim>\<open>Home_Server\<close> (\<^verbatim>\<open>hcan4mqttha\<close>): an order of the
    server becomes the message of exactly its values, switches the output, and its state comes back.

  \<^bold>\<open>Bounds and fuel.\<close> \<^verbatim>\<open>recv_frame\<close> of the host reads at most 100000 frames, as the code does. The defragmentation
  runs on fuel of the EEPROM's size, and more than the number of blocks is proved to be enough; the pause of
  \<^verbatim>\<open>Canix_Core\<close> runs on fuel as it ends only with the timer's help, and enough fuel is proved to
  end it. The other loops are recursive functions with a measure. The padding of an image, whose index has eight bits, is a
  partial function, and it is proved when it ends and when it loops. The search in the installation's file stops after
  1000 nodes and the rings of the gateway have 16 places, as in the code.

  \<^bold>\<open>Not modelled.\<close> Third-party code that comes with the repository (the packets of MQTT, the driver of the text display \<^verbatim>\<open>lcd.c\<close>,
  the I2C master); generated code (\<^verbatim>\<open>src/xml/frame_message_description.cc\<close>, the dispatch of the controller board's devices) and its
  generators; the registers of converters, timers and the LED strip (\<^verbatim>\<open>analogComparator.c\<close>,
  \<^verbatim>\<open>ws2812b.c\<close>), which are input and output only; the floating-point controller of
  the heating, which no configuration compiles; the printing of frames and the completion of command lines; the programs that
  only print what they receive (\<^verbatim>\<open>hcanswd\<close>, \<^verbatim>\<open>check_hcan\<close>); the devices of \<^verbatim>\<open>devicePool\<close>, which no
  firmware contains; interrupts that hit in the middle of an operation other than the ones of the receive queue and the pauses of the
  panel. The components' notes in the manifest say it part by part.
\<close>

section \<open>Properties of devices that work together\<close>

text \<open>
  Property C1. As long as a window is open the heating below it stays closed: from two seconds
  after the contact's first message on, which comes at the latest when its counter has run down, the valve is
  closed after every second, however long the window is open, whatever else the heating hears (orders, temperatures,
  other contacts) and whatever its zones say, except at the time of the valve care.
\<close>

theorem open_window_keeps_heating_closed:
  assumes "c_modus (device_data_reedkontakt.config r) \<noteq> 0"
    and "c_gruppe (device_data_reedkontakt.config r) \<in> set (c_reeds (device_data_heizung.config h))"
    and "ventilpflege_counter h = 0"
    and "\<forall>(ei, eb, fs) \<in> set es. is_open ei r \<and> \<not> pflegezeit (board_clock eb) (heizung_config.c_id (device_data_heizung.config h))"
    and "unat (device_data_reedkontakt.timer_counter r) + 2 \<le> length es"
  shows "\<not> valve (snd (fold window_second es (r, h)))"
proof -
  let ?hid = "heizung_config.c_id (device_data_heizung.config h)" and ?port = "heizung_config.c_port (device_data_heizung.config h)"
  have "window_open (unat (device_data_reedkontakt.timer_counter r)) 0 ?hid ?port (c_gruppe (device_data_reedkontakt.config r)) (r, h)"
    using assms(1-3) by (simp add: window_open_def)
  from window_seconds_open [OF assms(4) this] assms(5)
  obtain n where "gesperrt ?hid ?port n (snd (fold window_second es (r, h)))" "2 \<le> n"
    by (force simp: window_open_def case_prod_beta)
  then show ?thesis by (auto simp: gesperrt_def)
qed

theorem open_window_keeps_heating_closed_witness:
  "\<not> valve (snd (fold window_second (replicate 500 (\<lparr>in_self = 9, in_read = (\<lambda>k inv port. True)\<rparr>, midnight, [hz_frame [HCAN_HES_HEIZUNG_SET_MODE_MANUAL, 1, 100, 0, 0]]))
     (\<lparr>device_data_reedkontakt.config = \<lparr>reedkontakt_config.c_port = 2, c_gruppe = 5, c_modus = 1\<rparr>, timer_counter = 5, last_state = False\<rparr>, radiator)))"
  by (rule open_window_keeps_heating_closed) (auto simp: radiator_def is_open_def midnight_def pflegezeit_def canix_rtc_init_def)

text \<open>
  Property C4. An output follows its time switch: after every second it is on exactly if one of the
  zones of the time switch matches in that second, given that they agreed before and the
  automatic mode is on. The output is one that is switched at once: not muted, without delays or other features.
\<close>

theorem output_follows_time_switch:
  assumes "direct_output c q" and "is_in_group q (c_power_gruppe (device_data_zeitschaltuhr.config z))"
    and "automatikEin z" and "powerport_get q = state z" and "es \<noteq> []"
  shows "powerport_get (hears_all self (sent_frames (snd (zsu_seconds es z))) q) = zsu_zone (last es) z"
proof -
  have "\<forall>f \<in> set (sent_frames (snd (zsu_seconds es z))).
      group_order f \<and> byte_at f 2 = c_power_gruppe (device_data_zeitschaltuhr.config z)"
    using zsu_seconds_orders [OF assms(3)] by blast
  from hears_all_orders [OF assms(1,2) this] zsu_seconds_follow [OF assms(3,5)] assms(4)
  show ?thesis by simp
qed

theorem output_follows_time_switch_witness:
  "\<not> powerport_get (hears_all 7 (sent_frames (snd (zsu_seconds [midnight]
      \<lparr>device_data_zeitschaltuhr.config = \<lparr>c_power_gruppe = 20, c_automatikEin_schalter_gruppe = 4, c_zeitzonen = replicate 8 1\<rparr>,
       state = True, update_counter = 9, automatikEin = True\<rparr>)))
     (outlet\<lparr>device_data_powerport.config := (device_data_powerport.config outlet)\<lparr>powerport_config.c_feature := 0\<rparr>, pins := (\<lambda>_. True)\<rparr>))"
proof -
  let ?z = "\<lparr>device_data_zeitschaltuhr.config = \<lparr>c_power_gruppe = 20, c_automatikEin_schalter_gruppe = 4, c_zeitzonen = replicate 8 1\<rparr>,
       state = True, update_counter = 9, automatikEin = True\<rparr>"
  let ?q = "outlet\<lparr>device_data_powerport.config := (device_data_powerport.config outlet)\<lparr>powerport_config.c_feature := 0\<rparr>, pins := (\<lambda>_. True)\<rparr>"
  have "\<not> zsu_zone midnight ?z" by (simp add: zsu_zone_def zeitzone_matches_def midnight_def numeral_eq_Suc)
  moreover have "powerport_get (hears_all 7 (sent_frames (snd (zsu_seconds [midnight] ?z))) ?q) = zsu_zone (last [midnight]) ?z"
    by (rule output_follows_time_switch [where c = "device_data_powerport.config ?q"])
       (simp_all add: direct_output_def is_in_group_def outlet_def powerport_get_def feature_def)
  ultimately show ?thesis by simp
qed




end
